(* ===== verification/Prelude.thy ===== *)
theory Prelude
  imports Main "HOL-Library.AList"
begin

text \<open>
  Shared vocabulary of the development: thrown errors as values of a sum type, the parts of the
  JavaScript standard library the sources call (\<open>String.prototype.trim\<close>, \<open>Array.prototype.slice\<close>
  with a negative start, stable \<open>sort\<close>, decimal printing of integers, \<open>Map\<close> as an association
  list in insertion order) and the lemmas on them that the components share.

  A JavaScript string is a list of code units; here a \<open>string\<close> holds code units below 256.
  A JavaScript \<open>Map\<close> iterates in insertion order and \<open>set\<close> on an existing key keeps its position:
  this is \<^const>\<open>AList.update\<close>; \<open>delete\<close> is \<^const>\<open>AList.delete\<close> and \<open>get\<close> is \<^const>\<open>map_of\<close>.
\<close>

named_theorems map_laws \<open>lookup laws of insertion-ordered maps\<close>
named_theorems result_simps \<open>case laws of the error sum\<close>

section \<open>Errors\<close>

text \<open>
  A thrown \<open>Error\<close> is its message. \<open>ZodError\<close> is the error of a failed schema check; its message
  is produced by the schema library and is not modelled.
\<close>

datatype js_error = Error string | ZodError

type_synonym 'a result = "js_error + 'a"

fun bind_result :: "'e + 'a \<Rightarrow> ('a \<Rightarrow> 'e + 'b) \<Rightarrow> 'e + 'b" where
  "bind_result (Inl e) f = Inl e"
| "bind_result (Inr x) f = f x"

definition throw :: "string \<Rightarrow> 'a result" where
  "throw m = Inl (Error m)"

definition assert_that :: "bool \<Rightarrow> string \<Rightarrow> unit result" where
  "assert_that b m = (if b then Inr () else throw m)"

fun map_result :: "('a \<Rightarrow> 'e + 'b) \<Rightarrow> 'a list \<Rightarrow> 'e + 'b list" where
  "map_result f [] = Inr []"
| "map_result f (x # xs) =
     bind_result (f x) (\<lambda>y. bind_result (map_result f xs) (\<lambda>ys. Inr (y # ys)))"

fun fold_result :: "('a \<Rightarrow> 's \<Rightarrow> 'e + 's) \<Rightarrow> 'a list \<Rightarrow> 's \<Rightarrow> 'e + 's" where
  "fold_result f [] s = Inr s"
| "fold_result f (x # xs) s = bind_result (f x s) (fold_result f xs)"

lemma bind_result_Inr [result_simps]:
  "bind_result m f = Inr y \<longleftrightarrow> (\<exists>x. m = Inr x \<and> f x = Inr y)"
  by (cases m) auto

lemma bind_result_Inl [result_simps]:
  "bind_result m f = Inl e \<longleftrightarrow> m = Inl e \<or> (\<exists>x. m = Inr x \<and> f x = Inl e)"
  by (cases m) auto

lemma bind_result_assoc:
  "bind_result (bind_result m f) g = bind_result m (\<lambda>x. bind_result (f x) g)"
  by (cases m) auto

lemma bind_result_return [simp]: "bind_result m Inr = m"
  by (cases m) auto

lemma throw_neq_Inr [simp]: "throw m \<noteq> Inr x" "Inr x \<noteq> throw m"
  by (simp_all add: throw_def)

lemma assert_that_Inr [result_simps]: "assert_that b m = Inr u \<longleftrightarrow> b"
  by (simp add: assert_that_def)

lemma map_result_length: "map_result f xs = Inr ys \<Longrightarrow> length ys = length xs"
  by (induction xs arbitrary: ys) (auto simp: result_simps)

lemma map_result_all2: "map_result f xs = Inr ys \<longleftrightarrow> list_all2 (\<lambda>x y. f x = Inr y) xs ys"
  by (induction xs arbitrary: ys) (auto simp: result_simps list_all2_Cons1)

lemma map_result_id: "(\<And>x. x \<in> set xs \<Longrightarrow> f x = Inr x) \<Longrightarrow> map_result f xs = Inr xs"
  by (induction xs) auto

lemma map_result_append:
  "map_result f (xs @ ys) =
     bind_result (map_result f xs) (\<lambda>as. bind_result (map_result f ys) (\<lambda>bs. Inr (as @ bs)))"
  by (induction xs) (simp_all add: bind_result_assoc)

lemma fold_result_append:
  "fold_result f (xs @ ys) s = bind_result (fold_result f xs s) (fold_result f ys)"
proof (induction xs arbitrary: s)
  case Nil
  then show ?case by simp
next
  case (Cons x xs)
  then show ?case by (cases "f x s") simp_all
qed

lemma fold_result_invariant:
  assumes "fold_result f xs s = Inr t" and "P s"
    and "\<And>x s t. x \<in> set xs \<Longrightarrow> P s \<Longrightarrow> f x s = Inr t \<Longrightarrow> P t"
  shows "P t"
  using assms by (induction xs arbitrary: s) (auto simp: result_simps)

lemma fold_result_Inl: "fold_result f xs s = Inl e \<Longrightarrow> \<exists>x \<in> set xs. \<exists>t. f x t = Inl e"
  by (induction xs arbitrary: s) (auto simp: result_simps)

section \<open>Strings\<close>

text \<open>The white space code units below 256 that \<open>trim\<close> removes: TAB, LF, VT, FF, CR, space, NBSP.\<close>

definition is_js_space :: "char \<Rightarrow> bool" where
  "is_js_space c = (of_char c \<in> {9, 10, 11, 12, 13, 32, 160 :: nat})"

definition trim_start :: "string \<Rightarrow> string" where
  "trim_start s = dropWhile is_js_space s"

definition trim_end :: "string \<Rightarrow> string" where
  "trim_end s = rev (dropWhile is_js_space (rev s))"

definition trim :: "string \<Rightarrow> string" where
  "trim s = trim_end (trim_start s)"

lemma trim_Nil [simp]: "trim [] = []"
  by (simp add: trim_def trim_start_def trim_end_def)

lemma dropWhile_idem: "dropWhile P (dropWhile P xs) = dropWhile P xs"
  by (induction xs) auto

lemma trim_start_trim_end:
  assumes "trim_start s = s"
  shows "trim_start (trim_end s) = trim_end s"
proof (cases "trim_end s")
  case Nil
  then show ?thesis by (simp add: trim_start_def)
next
  case (Cons c cs)
  have "rev s = takeWhile is_js_space (rev s) @ rev (trim_end s)"
    by (simp add: trim_end_def)
  then have "s = trim_end s @ rev (takeWhile is_js_space (rev s))"
    by (metis rev_append rev_rev_ident)
  then have "hd s = c" and "s \<noteq> []"
    using Cons by (metis append_Cons list.sel(1)) (use Cons in \<open>auto simp: trim_end_def\<close>)
  then obtain r where "s = c # r" by (cases s) auto
  with assms have "\<not> is_js_space c"
    by (auto simp: trim_start_def split: if_splits) (metis dropWhile_eq_Cons_conv not_Cons_self2)
  with Cons show ?thesis by (simp add: trim_start_def)
qed

lemma trim_idem [simp]: "trim (trim s) = trim s"
proof -
  have "trim_start (trim s) = trim s"
    unfolding trim_def
    by (rule trim_start_trim_end) (simp add: trim_start_def dropWhile_idem)
  moreover have "trim_end (trim_end t) = trim_end t" for t
    by (simp add: trim_end_def dropWhile_idem)
  ultimately show ?thesis by (simp add: trim_def)
qed

text \<open>Decimal printing, as in a template string \<open>`${n}`\<close>.\<close>

fun show_nat :: "nat \<Rightarrow> string" where
  "show_nat n =
     (if n < 10 then [char_of (48 + n)] else show_nat (n div 10) @ [char_of (48 + n mod 10)])"

declare show_nat.simps [simp del]

definition show_int :: "int \<Rightarrow> string" where
  "show_int i = (if i < 0 then ''-'' @ show_nat (nat (- i)) else show_nat (nat i))"

fun starts_with :: "string \<Rightarrow> string \<Rightarrow> bool" where
  "starts_with s [] = True"
| "starts_with [] (c # cs) = False"
| "starts_with (d # s) (c # cs) = (d = c \<and> starts_with s cs)"

fun contains :: "string \<Rightarrow> string \<Rightarrow> bool" where
  "contains [] p = starts_with [] p"
| "contains (c # s) p = (starts_with (c # s) p \<or> contains s p)"

section \<open>Arrays\<close>

text \<open>\<open>xs.slice(-n)\<close>: the last \<open>n\<close> elements, all of them when there are fewer.\<close>

definition slice_last :: "nat \<Rightarrow> 'a list \<Rightarrow> 'a list" where
  "slice_last n xs = drop (length xs - n) xs"

lemma length_slice_last [simp]: "length (slice_last n xs) = min n (length xs)"
  by (simp add: slice_last_def)

lemma set_slice_last: "set (slice_last n xs) \<subseteq> set xs"
  by (simp add: slice_last_def set_drop_subset)

text \<open>\<open>xs.at(-1)\<close>.\<close>

definition last_opt :: "'a list \<Rightarrow> 'a option" where
  "last_opt xs = (if xs = [] then None else Some (last xs))"

text \<open>\<open>xs.find(p)\<close> is \<^const>\<open>List.find\<close>; \<open>xs.findIndex(p)\<close> with \<open>-1\<close> as \<open>None\<close>.\<close>

lemma find_append:
  "List.find P (xs @ ys) = (case List.find P xs of None \<Rightarrow> List.find P ys | Some x \<Rightarrow> Some x)"
  by (induction xs) auto

fun find_index :: "('a \<Rightarrow> bool) \<Rightarrow> 'a list \<Rightarrow> nat option" where
  "find_index P [] = None"
| "find_index P (x # xs) = (if P x then Some 0 else map_option Suc (find_index P xs))"

lemma find_index_Some:
  "find_index P xs = Some i \<Longrightarrow> i < length xs \<and> P (xs ! i) \<and> (\<forall>j < i. \<not> P (xs ! j))"
proof (induction xs arbitrary: i)
  case Nil
  then show ?case by simp
next
  case (Cons x xs)
  then show ?case by (cases i) (auto split: if_splits simp: less_Suc_eq_0_disj)
qed

lemma find_index_None: "find_index P xs = None \<longleftrightarrow> (\<forall>x \<in> set xs. \<not> P x)"
  by (induction xs) auto

text \<open>\<open>xs.map(x => p(x) ? f(x) : x)\<close>, the update idiom of the sources.\<close>

definition map_when :: "('a \<Rightarrow> bool) \<Rightarrow> ('a \<Rightarrow> 'a) \<Rightarrow> 'a list \<Rightarrow> 'a list" where
  "map_when P f xs = map (\<lambda>x. if P x then f x else x) xs"

lemma length_map_when [simp]: "length (map_when P f xs) = length xs"
  by (simp add: map_when_def)

lemma map_when_none: "(\<And>x. x \<in> set xs \<Longrightarrow> \<not> P x) \<Longrightarrow> map_when P f xs = xs"
  by (simp add: map_when_def map_idI)

text \<open>\<open>Math.max(0, ...xs)\<close>.\<close>

definition max_seq :: "nat list \<Rightarrow> nat" where
  "max_seq xs = fold max xs 0"

lemma fold_max_ge: "(n :: nat) \<le> fold max xs n \<and> (\<forall>x \<in> set xs. x \<le> fold max xs n)"
  by (induction xs arbitrary: n) (auto, (meson max.bounded_iff order_trans)+)

lemma max_seq_ge: "x \<in> set xs \<Longrightarrow> x \<le> max_seq xs"
  using fold_max_ge unfolding max_seq_def by blast

section \<open>Insertion-ordered maps\<close>

type_synonym ('k, 'v) jsmap = "('k \<times> 'v) list"

lemma map_of_update [map_laws, simp]: "map_of (AList.update k v m) = (map_of m)(k \<mapsto> v)"
  by (rule update_conv')

lemma map_of_delete [map_laws, simp]: "map_of (AList.delete k m) = (map_of m)(k := None)"
  by (rule delete_conv')

lemma jsmap_size_update:
  "length (AList.update k v m) = (if k \<in> fst ` set m then length m else Suc (length m))"
  by (induction m) auto

lemma jsmap_update_absent: "k \<notin> fst ` set m \<Longrightarrow> AList.update k v m = m @ [(k, v)]"
  by (induction m) auto

lemma set_update_subset: "set (AList.update k v m) \<subseteq> insert (k, v) (set m)"
  by (induction m) auto

definition get_or :: "'v \<Rightarrow> ('k, 'v) jsmap \<Rightarrow> 'k \<Rightarrow> 'v" where
  "get_or d m k = (case map_of m k of None \<Rightarrow> d | Some v \<Rightarrow> v)"

lemma get_or_update [map_laws, simp]:
  "get_or d (AList.update k v m) k' = (if k' = k then v else get_or d m k')"
  by (simp add: get_or_def)

lemma get_or_delete [map_laws, simp]:
  "get_or d (AList.delete k m) k' = (if k' = k then d else get_or d m k')"
  by (simp add: get_or_def)

end
