(* ===== verification/Json.thy ===== *)
theory Json
  imports Prelude Complex_Main "HOL-Library.List_Lexorder" "HOL-Library.Char_ord" "HOL-Library.Multiset"
begin

text \<open>
  JSON values: what the sources type as \<open>unknown\<close> and pass through \<open>JSON.stringify\<close>/\<open>JSON.parse\<close>.
  A value of this type is the result of that round trip, so it holds no \<open>undefined\<close>, \<open>NaN\<close> or
  infinity. A number is a rational (every finite double is one). An object lists its own properties
  in order; its keys are distinct in every value the runtime can build (\<open>wf_json\<close>).

  The key-sorting \<open>canonicalize\<close> is declared in four source files with the same body
  (\<open>effect-commit.ts\<close>, \<open>effect-result-digest.ts\<close>, \<open>tool-storm-breaker.ts\<close>, \<open>immutable-prefix.ts\<close>);
  it is modelled once. The lemmas show that it is idempotent and forgets the order of object keys,
  which is what makes digests and repeat detection independent of property order.
\<close>

datatype json =
    JNull
  | JBool bool
  | JNum rat
  | JStr string
  | JArr "json list"
  | JObj "(string \<times> json) list"

fun wf_json :: "json \<Rightarrow> bool" where
  "wf_json (JArr xs) = (\<forall>x \<in> set xs. wf_json x)"
| "wf_json (JObj kvs) = (distinct (map fst kvs) \<and> (\<forall>kv \<in> set kvs. wf_json (snd kv)))"
| "wf_json _ = True"

fun canonicalize :: "json \<Rightarrow> json" where
  "canonicalize (JArr xs) = JArr (map canonicalize xs)"
| "canonicalize (JObj kvs) = JObj (sort_key fst (map (\<lambda>kv. (fst kv, canonicalize (snd kv))) kvs))"
| "canonicalize v = v"

text \<open>Two values that differ only in the order of object keys, at any depth.\<close>

inductive same_json :: "json \<Rightarrow> json \<Rightarrow> bool" where
  null: "same_json JNull JNull"
| bool: "same_json (JBool b) (JBool b)"
| num: "same_json (JNum n) (JNum n)"
| str: "same_json (JStr s) (JStr s)"
| arr: "list_all2 same_json xs ys \<Longrightarrow> same_json (JArr xs) (JArr ys)"
| obj: "mset kvs' = mset kvs \<Longrightarrow> list_all2 (\<lambda>a b. fst a = fst b \<and> same_json (snd a) (snd b)) kvs' lvs
    \<Longrightarrow> same_json (JObj kvs) (JObj lvs)"

lemma sort_key_distinct_unique:
  assumes "mset xs = mset ys" and "distinct (map f xs)"
  shows "sort_key f xs = sort_key f ys"
proof (rule sort_key_inj_key_eq)
  show "inj_on f (set xs)" using assms(2) by (simp add: distinct_map)
qed (use assms(1) in auto)

lemma canonicalize_keys:
  "map fst (map (\<lambda>kv. (fst kv, canonicalize (snd kv))) kvs) = map fst kvs"
  by simp

lemma canonicalize_same:
  assumes "same_json a b" and "wf_json a"
  shows "canonicalize a = canonicalize b"
  using assms
proof (induction rule: same_json.induct)
  case (arr xs ys)
  have "map canonicalize xs = map canonicalize ys"
    using arr by (auto simp: list_all2_conv_all_nth intro!: nth_equalityI)
  then show ?case by simp
next
  case (obj kvs' kvs lvs)
  let ?c = "\<lambda>kv. (fst kv, canonicalize (snd kv))"
  have set_eq: "set kvs' = set kvs" using obj.hyps(1) by (metis set_mset_mset)
  have "map ?c kvs' = map ?c lvs"
    using obj.IH obj.prems set_eq
    by (auto simp: list_all2_conv_all_nth intro!: nth_equalityI)
      (metis nth_mem)
  moreover have "sort_key fst (map ?c kvs) = sort_key fst (map ?c kvs')"
  proof (rule sort_key_distinct_unique)
    show "mset (map ?c kvs) = mset (map ?c kvs')" using obj.hyps(1) by simp
    show "distinct (map fst (map ?c kvs))" using obj.prems by (simp add: comp_def)
  qed
  ultimately show ?case by simp
qed auto

lemma sort_key_sorted_id: "sorted (map f xs) \<Longrightarrow> sort_key f xs = xs"
  by (rule properties_for_sort_key) auto

lemma canonicalize_idem: "canonicalize (canonicalize v) = canonicalize v"
proof (induction v rule: canonicalize.induct)
  case (1 xs)
  then show ?case by simp
next
  case (2 kvs)
  let ?c = "\<lambda>kv. (fst kv, canonicalize (snd kv))"
  let ?s = "sort_key fst (map ?c kvs)"
  have "map ?c ?s = ?s"
    by (rule map_idI) (use 2 in auto)
  moreover have "sort_key fst ?s = ?s" by (rule sort_key_sorted_id) simp
  ultimately show ?case by simp
qed auto

section \<open>Reading values\<close>

text \<open>\<open>requireRecord\<close>, \<open>Object.keys\<close> and property reads on an object value.\<close>

fun json_object :: "json \<Rightarrow> (string \<times> json) list option" where
  "json_object (JObj kvs) = Some kvs"
| "json_object _ = None"

fun json_string :: "json \<Rightarrow> string option" where
  "json_string (JStr s) = Some s"
| "json_string _ = None"

text \<open>The safe integers of a double, \<open>Number.isSafeInteger\<close>.\<close>

definition max_safe_integer :: int where
  "max_safe_integer = 2 ^ 53 - 1"

definition is_safe_integer :: "rat \<Rightarrow> bool" where
  "is_safe_integer x = (x \<in> \<int> \<and> \<bar>x\<bar> \<le> of_int max_safe_integer)"

text \<open>
  \<open>Number.isFinite\<close> of a sum: beyond the largest double plus half a unit in the last place the
  rounded result is infinite.
\<close>

definition is_finite_number :: "rat \<Rightarrow> bool" where
  "is_finite_number x = (\<bar>x\<bar> < 2 ^ 1024 - 2 ^ 970)"

lemma is_safe_integer_of_int [simp]:
  "is_safe_integer (of_int i) = (\<bar>i\<bar> \<le> max_safe_integer)"
  by (simp add: is_safe_integer_def flip: of_int_abs)

lemma is_safe_integer_code [code]:
  "is_safe_integer x = (of_int \<lfloor>x\<rfloor> = x \<and> \<bar>x\<bar> \<le> of_int max_safe_integer)"
  by (auto simp: is_safe_integer_def of_int_floor_cancel elim: Ints_cases)

lemma is_safe_integer_zero [simp]: "is_safe_integer 0"
  by (simp add: is_safe_integer_def max_safe_integer_def)

text \<open>
  The schema declarations of the sources, \<open>z.string().trim().min(1)\<close>,
  \<open>z.number().int().nonnegative()\<close>, \<open>z.boolean()\<close>, optional and defaulted properties of a
  \<open>strict()\<close> object, read as checks on a value. A failed check is \<^const>\<open>ZodError\<close>.
\<close>

type_synonym obj = "(string \<times> json) list"

definition z_object :: "string list \<Rightarrow> json \<Rightarrow> obj result" where
  "z_object allowed v = (case v of
      JObj kvs \<Rightarrow> if list_all (\<lambda>kv. fst kv \<in> set allowed) kvs then Inr kvs else Inl ZodError
    | _ \<Rightarrow> Inl ZodError)"

definition z_nonempty :: "json option \<Rightarrow> string result" where
  "z_nonempty v = (case v of
      Some (JStr s) \<Rightarrow> (if trim s = [] then Inl ZodError else Inr (trim s))
    | _ \<Rightarrow> Inl ZodError)"

definition z_string :: "json option \<Rightarrow> string result" where
  "z_string v = (case v of Some (JStr s) \<Rightarrow> Inr s | _ \<Rightarrow> Inl ZodError)"

definition z_bool :: "json option \<Rightarrow> bool result" where
  "z_bool v = (case v of Some (JBool b) \<Rightarrow> Inr b | _ \<Rightarrow> Inl ZodError)"

definition z_nat :: "json option \<Rightarrow> nat result" where
  "z_nat v = (case v of
      Some (JNum n) \<Rightarrow> (if is_safe_integer n \<and> 0 \<le> n then Inr (nat \<lfloor>n\<rfloor>) else Inl ZodError)
    | _ \<Rightarrow> Inl ZodError)"

definition z_enum :: "(string \<times> 'a) list \<Rightarrow> json option \<Rightarrow> 'a result" where
  "z_enum tab v = (case v of
      Some (JStr s) \<Rightarrow> (case map_of tab s of Some x \<Rightarrow> Inr x | None \<Rightarrow> Inl ZodError)
    | _ \<Rightarrow> Inl ZodError)"

definition z_optional :: "(json option \<Rightarrow> 'a result) \<Rightarrow> json option \<Rightarrow> 'a option result" where
  "z_optional p v = (case v of None \<Rightarrow> Inr None | _ \<Rightarrow> bind_result (p v) (\<lambda>x. Inr (Some x)))"

definition z_default :: "'a \<Rightarrow> (json option \<Rightarrow> 'a result) \<Rightarrow> json option \<Rightarrow> 'a result" where
  "z_default d p v = (case v of None \<Rightarrow> Inr d | _ \<Rightarrow> p v)"

definition z_record :: "json option \<Rightarrow> obj result" where
  "z_record v = (case v of Some (JObj kvs) \<Rightarrow> Inr kvs | _ \<Rightarrow> Inl ZodError)"

definition z_array :: "(json \<Rightarrow> 'a result) \<Rightarrow> json option \<Rightarrow> 'a list result" where
  "z_array p v = (case v of Some (JArr xs) \<Rightarrow> map_result p xs | _ \<Rightarrow> Inl ZodError)"

lemmas z_defs = z_object_def z_nonempty_def z_string_def z_bool_def z_nat_def z_enum_def
  z_optional_def z_default_def z_record_def z_array_def

text \<open>A property that is absent when the value is \<open>undefined\<close>.\<close>

definition opt_field :: "string \<Rightarrow> ('a \<Rightarrow> json) \<Rightarrow> 'a option \<Rightarrow> obj" where
  "opt_field k f v = (case v of None \<Rightarrow> [] | Some x \<Rightarrow> [(k, f x)])"

lemma opt_field_simps [simp]: "opt_field k f None = []" "opt_field k f (Some x) = [(k, f x)]"
  by (simp_all add: opt_field_def)

end
