(* ===== verification/Contracts.thy ===== *)
theory Contracts
  imports Json
begin

text \<open>
  The data model of the run kernel, from \<open>contracts/src/runtime-kernel.ts\<close>: the schema objects as
  records, the string enumerations as datatypes with the tables of their spellings, the schema
  checks (\<open>parse\<close>) as functions from JSON values, and the scope-key encoding every store uses.
\<close>

section \<open>Enumerations\<close>

datatype run_status = Created | Running | Suspended | Completed | Degraded | Failed | Aborted

text \<open>The statuses a \<open>RunOutcome\<close> can carry.\<close>

datatype outcome_status = OCompleted | ODegraded | OFailed | OAborted | OSuspended

fun status_of :: "outcome_status \<Rightarrow> run_status" where
  "status_of OCompleted = Completed"
| "status_of ODegraded = Degraded"
| "status_of OFailed = Failed"
| "status_of OAborted = Aborted"
| "status_of OSuspended = Suspended"

datatype outcome_reason =
    Normal_stop | Awaiting_user_input | Tool_completed_no_final_text | Context_capacity_exceeded
  | Context_recovery_exhausted | Loop_capped | Step_capped | Token_capped | Cost_capped
  | Provider_safety_stop | Provider_protocol_error | Required_action_missing | Tool_failed
  | User_aborted | Runtime_error

datatype effect_kind = EModel | ETool | EApproval | EUserInput | EItem
datatype effect_class = ERead | EIdempotentWrite | ENonIdempotentWrite
datatype replay_policy = RSafe | RVerifyFirst | RNever
datatype effect_status = ECommitted | EVerified | EFailed

definition outcome_status_table :: "(string \<times> outcome_status) list" where
  "outcome_status_table =
     [(''completed'', OCompleted), (''degraded'', ODegraded), (''failed'', OFailed),
      (''aborted'', OAborted), (''suspended'', OSuspended)]"

definition outcome_reason_table :: "(string \<times> outcome_reason) list" where
  "outcome_reason_table =
     [(''normal_stop'', Normal_stop), (''awaiting_user_input'', Awaiting_user_input),
      (''tool_completed_no_final_text'', Tool_completed_no_final_text),
      (''context_capacity_exceeded'', Context_capacity_exceeded),
      (''context_recovery_exhausted'', Context_recovery_exhausted), (''loop_capped'', Loop_capped),
      (''step_capped'', Step_capped), (''token_capped'', Token_capped),
      (''cost_capped'', Cost_capped), (''provider_safety_stop'', Provider_safety_stop),
      (''provider_protocol_error'', Provider_protocol_error),
      (''required_action_missing'', Required_action_missing), (''tool_failed'', Tool_failed),
      (''user_aborted'', User_aborted), (''runtime_error'', Runtime_error)]"

definition effect_kind_table :: "(string \<times> effect_kind) list" where
  "effect_kind_table =
     [(''model'', EModel), (''tool'', ETool), (''approval'', EApproval),
      (''user-input'', EUserInput), (''item'', EItem)]"

definition effect_class_table :: "(string \<times> effect_class) list" where
  "effect_class_table =
     [(''read'', ERead), (''idempotent-write'', EIdempotentWrite),
      (''non-idempotent-write'', ENonIdempotentWrite)]"

definition replay_policy_table :: "(string \<times> replay_policy) list" where
  "replay_policy_table = [(''safe'', RSafe), (''verify-first'', RVerifyFirst), (''never'', RNever)]"

definition effect_status_table :: "(string \<times> effect_status) list" where
  "effect_status_table =
     [(''committed'', ECommitted), (''verified'', EVerified), (''failed'', EFailed)]"

text \<open>The spelling of an enumeration value, read off its table.\<close>

definition spelling :: "(string \<times> 'a) list \<Rightarrow> 'a \<Rightarrow> string" where
  "spelling tab x = (case List.find (\<lambda>p. snd p = x) tab of Some p \<Rightarrow> fst p | None \<Rightarrow> [])"

lemma z_enum_spelling:
  "z_enum outcome_status_table (Some (JStr (spelling outcome_status_table a))) = Inr a"
  "z_enum outcome_reason_table (Some (JStr (spelling outcome_reason_table b))) = Inr b"
  "z_enum effect_kind_table (Some (JStr (spelling effect_kind_table c))) = Inr c"
  "z_enum effect_class_table (Some (JStr (spelling effect_class_table d))) = Inr d"
  "z_enum replay_policy_table (Some (JStr (spelling replay_policy_table e))) = Inr e"
  "z_enum effect_status_table (Some (JStr (spelling effect_status_table f))) = Inr f"
  subgoal by (cases a) (simp_all add: z_enum_def spelling_def outcome_status_table_def)
  subgoal by (cases b) (simp_all add: z_enum_def spelling_def outcome_reason_table_def)
  subgoal by (cases c) (simp_all add: z_enum_def spelling_def effect_kind_table_def)
  subgoal by (cases d) (simp_all add: z_enum_def spelling_def effect_class_table_def)
  subgoal by (cases e) (simp_all add: z_enum_def spelling_def replay_policy_table_def)
  subgoal by (cases f) (simp_all add: z_enum_def spelling_def effect_status_table_def)
  done

section \<open>Records\<close>

record run_identity =
  ownerUserId :: string
  threadId :: string
  turnId :: string
  runId :: string
  workspaceKey :: string

record budget_state =
  stepsUsed :: rat
  toolCallsUsed :: rat
  inputTokens :: rat
  outputTokens :: rat
  costUsd :: rat

record recovery_state =
  attempts :: nat
  maxAttempts :: nat
  lastReason :: "string option"

record effect_intent =
  ei_key :: string
  ei_kind :: effect_kind
  ei_effect :: effect_class
  ei_replay :: replay_policy
  ei_target :: string
  ei_payloadDigest :: string
  ei_preparedAt :: string

record committed_effect =
  ce_key :: string
  ce_resultDigest :: string
  ce_status :: effect_status
  ce_resultRef :: "string option"
  ce_committedAt :: string

record middleware_state =
  mw_version :: nat
  mw_data :: json

record run_outcome =
  oc_status :: outcome_status
  oc_reason :: outcome_reason
  oc_item :: "string option"
  oc_retryable :: bool
  oc_details :: "obj option"

record run_cursor =
  stepIndex :: nat
  nodeId :: string
  attempt :: nat
  checkpointSeq :: nat

text \<open>
  \<open>version\<close> and \<open>runtimeMode\<close> are literals of the schema and carry no information. The five identity
  fields, which the source spreads into the object, are kept together.
\<close>

record run_state =
  graphVersion :: string
  identity :: run_identity
  parentRunId :: "string option"
  status :: run_status
  cursor :: run_cursor
  budgets :: budget_state
  recovery :: recovery_state
  middleware :: "(string, middleware_state) jsmap"
  nodeData :: "(string, json) jsmap"
  taskRevision :: nat
  pendingEffects :: "effect_intent list"
  committedEffects :: "committed_effect list"
  outcome :: "run_outcome option"
  createdAt :: string
  updatedAt :: string

section \<open>Schema checks and their inverses\<close>

definition parse_recovery :: "json \<Rightarrow> recovery_state result" where
  "parse_recovery v =
     bind_result (z_object [''attempts'', ''maxAttempts'', ''lastReason''] v) (\<lambda>r.
     bind_result (z_default 0 z_nat (map_of r ''attempts'')) (\<lambda>a.
     bind_result (z_default 3 z_nat (map_of r ''maxAttempts'')) (\<lambda>m.
     bind_result (z_optional z_string (map_of r ''lastReason'')) (\<lambda>l.
     Inr \<lparr>attempts = a, maxAttempts = m, lastReason = l\<rparr>))))"

definition recovery_json :: "recovery_state \<Rightarrow> json" where
  "recovery_json r = JObj ([(''attempts'', JNum (of_nat (attempts r))),
     (''maxAttempts'', JNum (of_nat (maxAttempts r)))] @ opt_field ''lastReason'' JStr (lastReason r))"

definition parse_intent :: "json \<Rightarrow> effect_intent result" where
  "parse_intent v =
     bind_result (z_object [''idempotencyKey'', ''kind'', ''effect'', ''replay'', ''target'',
        ''payloadDigest'', ''preparedAt''] v) (\<lambda>r.
     bind_result (z_nonempty (map_of r ''idempotencyKey'')) (\<lambda>k.
     bind_result (z_enum effect_kind_table (map_of r ''kind'')) (\<lambda>kd.
     bind_result (z_enum effect_class_table (map_of r ''effect'')) (\<lambda>ef.
     bind_result (z_enum replay_policy_table (map_of r ''replay'')) (\<lambda>rp.
     bind_result (z_nonempty (map_of r ''target'')) (\<lambda>t.
     bind_result (z_nonempty (map_of r ''payloadDigest'')) (\<lambda>d.
     bind_result (z_nonempty (map_of r ''preparedAt'')) (\<lambda>p.
     Inr \<lparr>ei_key = k, ei_kind = kd, ei_effect = ef, ei_replay = rp, ei_target = t,
       ei_payloadDigest = d, ei_preparedAt = p\<rparr>))))))))"

definition intent_json :: "effect_intent \<Rightarrow> json" where
  "intent_json e = JObj [(''idempotencyKey'', JStr (ei_key e)),
     (''kind'', JStr (spelling effect_kind_table (ei_kind e))),
     (''effect'', JStr (spelling effect_class_table (ei_effect e))),
     (''replay'', JStr (spelling replay_policy_table (ei_replay e))),
     (''target'', JStr (ei_target e)), (''payloadDigest'', JStr (ei_payloadDigest e)),
     (''preparedAt'', JStr (ei_preparedAt e))]"

definition parse_committed :: "json \<Rightarrow> committed_effect result" where
  "parse_committed v =
     bind_result (z_object [''idempotencyKey'', ''resultDigest'', ''status'', ''resultRef'',
        ''committedAt''] v) (\<lambda>r.
     bind_result (z_nonempty (map_of r ''idempotencyKey'')) (\<lambda>k.
     bind_result (z_nonempty (map_of r ''resultDigest'')) (\<lambda>d.
     bind_result (z_enum effect_status_table (map_of r ''status'')) (\<lambda>s.
     bind_result (z_optional z_string (map_of r ''resultRef'')) (\<lambda>rr.
     bind_result (z_nonempty (map_of r ''committedAt'')) (\<lambda>c.
     Inr \<lparr>ce_key = k, ce_resultDigest = d, ce_status = s, ce_resultRef = rr, ce_committedAt = c\<rparr>))))))"

definition committed_json :: "committed_effect \<Rightarrow> json" where
  "committed_json e = JObj ([(''idempotencyKey'', JStr (ce_key e)),
     (''resultDigest'', JStr (ce_resultDigest e)),
     (''status'', JStr (spelling effect_status_table (ce_status e)))]
     @ opt_field ''resultRef'' JStr (ce_resultRef e) @ [(''committedAt'', JStr (ce_committedAt e))])"

definition parse_outcome :: "json \<Rightarrow> run_outcome result" where
  "parse_outcome v =
     bind_result (z_object [''status'', ''reason'', ''userVisibleItemId'', ''retryable'',
        ''details''] v) (\<lambda>r.
     bind_result (z_enum outcome_status_table (map_of r ''status'')) (\<lambda>s.
     bind_result (z_enum outcome_reason_table (map_of r ''reason'')) (\<lambda>rs.
     bind_result (z_optional z_nonempty (map_of r ''userVisibleItemId'')) (\<lambda>i.
     bind_result (z_bool (map_of r ''retryable'')) (\<lambda>b.
     bind_result (z_optional z_record (map_of r ''details'')) (\<lambda>d.
     Inr \<lparr>oc_status = s, oc_reason = rs, oc_item = i, oc_retryable = b, oc_details = d\<rparr>))))))"

definition outcome_json :: "run_outcome \<Rightarrow> json" where
  "outcome_json x = JObj ([(''status'', JStr (spelling outcome_status_table (oc_status x))),
     (''reason'', JStr (spelling outcome_reason_table (oc_reason x)))]
     @ opt_field ''userVisibleItemId'' JStr (oc_item x)
     @ [(''retryable'', JBool (oc_retryable x))] @ opt_field ''details'' JObj (oc_details x))"

text \<open>
  The typed values the checks accept: strings trimmed and not empty, counters in the safe range.
  The checks return such values only, and accept each of them unchanged.
\<close>

definition ok_string :: "string \<Rightarrow> bool" where
  "ok_string s = (s \<noteq> [] \<and> trim s = s)"

definition ok_nat :: "nat \<Rightarrow> bool" where
  "ok_nat n = (int n \<le> max_safe_integer)"

definition ok_recovery :: "recovery_state \<Rightarrow> bool" where
  "ok_recovery r = (ok_nat (attempts r) \<and> ok_nat (maxAttempts r))"

definition ok_intent :: "effect_intent \<Rightarrow> bool" where
  "ok_intent e = (ok_string (ei_key e) \<and> ok_string (ei_target e) \<and> ok_string (ei_payloadDigest e)
     \<and> ok_string (ei_preparedAt e))"

definition ok_committed :: "committed_effect \<Rightarrow> bool" where
  "ok_committed e = (ok_string (ce_key e) \<and> ok_string (ce_resultDigest e)
     \<and> ok_string (ce_committedAt e))"

definition ok_outcome :: "run_outcome \<Rightarrow> bool" where
  "ok_outcome x = (case oc_item x of None \<Rightarrow> True | Some i \<Rightarrow> ok_string i)"

lemma z_nonempty_ok: "z_nonempty v = Inr s \<Longrightarrow> ok_string s"
  by (auto simp: z_nonempty_def ok_string_def split: option.splits json.splits if_splits)

lemma z_nonempty_accepts: "ok_string s \<Longrightarrow> z_nonempty (Some (JStr s)) = Inr s"
  by (simp add: z_nonempty_def ok_string_def)

lemma z_nat_ok: "z_nat v = Inr n \<Longrightarrow> ok_nat n"
proof -
  assume "z_nat v = Inr n"
  then obtain x where x: "is_safe_integer x" "0 \<le> x" "n = nat \<lfloor>x\<rfloor>"
    by (auto simp: z_nat_def split: option.splits json.splits if_splits)
  then obtain i where i: "x = of_int i" by (auto simp: is_safe_integer_def elim: Ints_cases)
  with x show ?thesis by (auto simp: ok_nat_def)
qed

lemma z_nat_accepts: "ok_nat n \<Longrightarrow> z_nat (Some (JNum (of_nat n))) = Inr n"
proof -
  assume "ok_nat n"
  then have "is_safe_integer (of_int (int n))" by (simp only: is_safe_integer_of_int) (simp add: ok_nat_def)
  then show ?thesis by (simp add: z_nat_def)
qed

lemmas z_accepts = z_nonempty_accepts z_nat_accepts z_enum_spelling
lemmas z_ok = z_nonempty_ok z_nat_ok

lemma z_object_accepts:
  "list_all (\<lambda>kv. fst kv \<in> set ks) kvs \<Longrightarrow> z_object ks (JObj kvs) = Inr kvs"
  by (simp add: z_object_def)

lemma z_optional_Some [simp]:
  "z_optional p None = Inr None"
  "z_optional p (Some v) = bind_result (p (Some v)) (\<lambda>x. Inr (Some x))"
  by (simp_all add: z_optional_def)

lemma z_default_Some [simp]: "z_default d p None = Inr d" "z_default d p (Some v) = p (Some v)"
  by (simp_all add: z_default_def)

lemma parse_recovery_ok: "parse_recovery v = Inr r \<Longrightarrow> ok_recovery r"
  by (auto simp: parse_recovery_def result_simps ok_recovery_def z_default_def ok_nat_def
      max_safe_integer_def dest!: z_nat_ok split: option.splits)

lemma parse_recovery_json: "ok_recovery r \<Longrightarrow> parse_recovery (recovery_json r) = Inr r"
  by (cases "lastReason r")
    (simp_all add: parse_recovery_def recovery_json_def ok_recovery_def z_accepts z_object_def
      z_string_def)

lemma parse_intent_ok: "parse_intent v = Inr e \<Longrightarrow> ok_intent e"
  by (auto simp: parse_intent_def result_simps ok_intent_def dest: z_nonempty_ok)

lemma parse_intent_json: "ok_intent e \<Longrightarrow> parse_intent (intent_json e) = Inr e"
  by (simp add: parse_intent_def intent_json_def ok_intent_def z_accepts z_object_def)

lemma parse_committed_ok: "parse_committed v = Inr e \<Longrightarrow> ok_committed e"
  by (auto simp: parse_committed_def result_simps ok_committed_def dest: z_nonempty_ok)

lemma parse_committed_json: "ok_committed e \<Longrightarrow> parse_committed (committed_json e) = Inr e"
  by (cases "ce_resultRef e")
    (simp_all add: parse_committed_def committed_json_def ok_committed_def z_accepts z_object_def
      z_string_def)

lemma parse_outcome_ok: "parse_outcome v = Inr x \<Longrightarrow> ok_outcome x"
  by (auto simp: parse_outcome_def result_simps ok_outcome_def z_optional_def
      dest: z_nonempty_ok split: option.splits)

lemma parse_outcome_json: "ok_outcome x \<Longrightarrow> parse_outcome (outcome_json x) = Inr x"
  by (cases "oc_item x"; cases "oc_details x")
    (simp_all add: parse_outcome_def outcome_json_def ok_outcome_def z_accepts z_object_def
      z_bool_def z_record_def)

end
