(* ===== verification/ScopeKey.thy ===== *)
theory ScopeKey
  imports Contracts
begin

text \<open>
  \<open>encodeScopeKey\<close> of \<open>contracts/src/runtime-kernel.ts\<close>: the key under which every runtime store
  files a run. The encoding is injective on checked scopes, so two runs of different owners,
  workspaces, threads, turns or ids never share a store entry.
\<close>

datatype scope_purpose = PRuntime | PMemory | PSkill | PTool | PObservability

fun purpose_name :: "scope_purpose \<Rightarrow> string" where
  "purpose_name PRuntime = ''runtime''"
| "purpose_name PMemory = ''memory''"
| "purpose_name PSkill = ''skill''"
| "purpose_name PTool = ''tool''"
| "purpose_name PObservability = ''observability''"

record scope_key =
  sk_ownerUserId :: string
  sk_tenantId :: "string option"
  sk_workspaceKey :: "string option"
  sk_threadId :: "string option"
  sk_turnId :: "string option"
  sk_runId :: "string option"
  sk_purpose :: scope_purpose

definition check_nonempty :: "string \<Rightarrow> string result" where
  "check_nonempty s = (if trim s = [] then Inl ZodError else Inr (trim s))"

definition check_optional :: "string option \<Rightarrow> string option result" where
  "check_optional v = (case v of None \<Rightarrow> Inr None
     | Some s \<Rightarrow> bind_result (check_nonempty s) (\<lambda>t. Inr (Some t)))"

definition parse_scope :: "scope_key \<Rightarrow> scope_key result" where
  "parse_scope s =
     bind_result (check_nonempty (sk_ownerUserId s)) (\<lambda>ow.
     bind_result (check_optional (sk_tenantId s)) (\<lambda>te.
     bind_result (check_optional (sk_workspaceKey s)) (\<lambda>ws.
     bind_result (check_optional (sk_threadId s)) (\<lambda>th.
     bind_result (check_optional (sk_turnId s)) (\<lambda>tu.
     bind_result (check_optional (sk_runId s)) (\<lambda>ru.
     Inr \<lparr>sk_ownerUserId = ow, sk_tenantId = te, sk_workspaceKey = ws, sk_threadId = th,
       sk_turnId = tu, sk_runId = ru, sk_purpose = sk_purpose s\<rparr>))))))"

text \<open>\<open>encodeURIComponent\<close>: unreserved characters stay, any other is the \<open>%XX\<close> form of its UTF-8 bytes.\<close>

definition unreserved :: "char \<Rightarrow> bool" where
  "unreserved c = (let n = of_char c :: nat in
     (65 \<le> n \<and> n \<le> 90) \<or> (97 \<le> n \<and> n \<le> 122) \<or> (48 \<le> n \<and> n \<le> 57)
     \<or> c \<in> set ''-_.!~*()'' \<or> n = 39)"

definition hex_digit :: "nat \<Rightarrow> char" where
  "hex_digit n = (if n < 10 then char_of (48 + n) else char_of (55 + n))"

definition percent :: "nat \<Rightarrow> string" where
  "percent b = [CHR ''%'', hex_digit (b div 16), hex_digit (b mod 16)]"

definition encode_char :: "char \<Rightarrow> string" where
  "encode_char c = (let n = of_char c :: nat in
     if unreserved c then [c]
     else if n < 128 then percent n
     else percent (192 + n div 64) @ percent (128 + n mod 64))"

definition encodeURIComponent :: "string \<Rightarrow> string" where
  "encodeURIComponent s = concat (map encode_char s)"

definition scope_field :: "string \<Rightarrow> string option \<Rightarrow> string" where
  "scope_field name v = name @ ''='' @ encodeURIComponent (case v of None \<Rightarrow> [] | Some s \<Rightarrow> s)"

fun join :: "string \<Rightarrow> string list \<Rightarrow> string" where
  "join sep [] = []"
| "join sep [x] = x"
| "join sep (x # y # xs) = x @ sep @ join sep (y # xs)"

definition encodeScopeKey :: "scope_key \<Rightarrow> string result" where
  "encodeScopeKey input = bind_result (parse_scope input) (\<lambda>s. Inr (join ''|''
     [scope_field ''ownerUserId'' (Some (sk_ownerUserId s)), scope_field ''tenantId'' (sk_tenantId s),
      scope_field ''workspaceKey'' (sk_workspaceKey s), scope_field ''threadId'' (sk_threadId s),
      scope_field ''turnId'' (sk_turnId s), scope_field ''runId'' (sk_runId s),
      scope_field ''purpose'' (Some (purpose_name (sk_purpose s)))]))"

section \<open>The encoding of a component is injective\<close>

lemma of_char_hex_digit: "n < 16 \<Longrightarrow> of_char (hex_digit n) = (if n < 10 then 48 + n else 55 + n)"
  by (simp add: hex_digit_def)

lemma hex_digit_inj:
  assumes "i < 16" and "j < 16" and "hex_digit i = hex_digit j"
  shows "i = j"
proof -
  have "(if i < 10 then 48 + i else 55 + i) = (if j < 10 then 48 + j else 55 + j)"
    using assms of_char_hex_digit by metis
  then show ?thesis by (simp split: if_splits)
qed

lemma percent_inj:
  assumes "a < 256" and "b < 256" and "percent a @ x = percent b @ y"
  shows "a = b \<and> x = y"
proof -
  have h: "hex_digit (a div 16) = hex_digit (b div 16)" "hex_digit (a mod 16) = hex_digit (b mod 16)"
    and xy: "x = y"
    using assms(3) by (simp_all add: percent_def)
  have "a div 16 = b div 16" by (rule hex_digit_inj [OF _ _ h(1)]) (use assms in auto)
  moreover have "a mod 16 = b mod 16" by (rule hex_digit_inj [OF _ _ h(2)]) auto
  ultimately show ?thesis using xy by (metis div_mult_mod_eq)
qed

lemma encode_char_cases:
  obtains "unreserved c" "encode_char c = [c]"
  | "\<not> unreserved c" "of_char c < (128 :: nat)" "encode_char c = percent (of_char c)"
  | "\<not> unreserved c" "128 \<le> (of_char c :: nat)"
    "encode_char c = percent (192 + of_char c div 64) @ percent (128 + of_char c mod 64)"
  by (cases "unreserved c"; cases "of_char c < (128 :: nat)") (auto simp: encode_char_def Let_def)

lemma of_char_less: "(of_char c :: nat) < 256"
  using nat_of_char_less_256 by simp

lemma div_less_small: "(n :: nat) < 256 \<Longrightarrow> n div 16 < 16 \<and> n div 64 < 64"
  by (simp add: less_mult_imp_div_less)

lemma not_unreserved_percent: "\<not> unreserved (CHR ''%'')"
  by (simp add: unreserved_def)

lemma percent_Cons: "percent b @ x = CHR ''%'' # hex_digit (b div 16) # hex_digit (b mod 16) # x"
  by (simp add: percent_def)

lemma encode_char_inj:
  assumes "encode_char c @ x = encode_char d @ y"
  shows "c = d \<and> x = y"
proof -
  have eq: "of_char c = (of_char d :: nat) \<Longrightarrow> c = d" by simp
  have lc: "(of_char c :: nat) < 256" and ld: "(of_char d :: nat) < 256" by (rule of_char_less)+
  show ?thesis
  proof (cases c rule: encode_char_cases)
    case c1: 1
    then show ?thesis using assms not_unreserved_percent
      by (cases d rule: encode_char_cases) (auto simp: percent_Cons)
  next
    case c2: 2
    show ?thesis
    proof (cases d rule: encode_char_cases)
      case 1
      with c2 assms show ?thesis using not_unreserved_percent by (auto simp: percent_Cons)
    next
      case 2
      with c2 assms have "percent (of_char c) @ x = percent (of_char d) @ y" by simp
      from percent_inj [OF lc ld this] eq show ?thesis by blast
    next
      case 3
      with c2 assms have "percent (of_char c) @ x
          = percent (192 + of_char d div 64) @ (percent (128 + of_char d mod 64) @ y)" by simp
      from percent_inj [OF lc _ this] div_less_small [OF ld] c2 show ?thesis by simp
    qed
  next
    case c3: 3
    show ?thesis
    proof (cases d rule: encode_char_cases)
      case 1
      with c3 assms show ?thesis using not_unreserved_percent by (auto simp: percent_Cons)
    next
      case 2
      with c3 assms have "percent (192 + of_char c div 64) @ (percent (128 + of_char c mod 64) @ x)
          = percent (of_char d) @ y" by simp
      from percent_inj [OF _ ld this] div_less_small [OF lc] 2 show ?thesis by simp
    next
      case 3
      with c3 assms have e: "percent (192 + of_char c div 64) @ (percent (128 + of_char c mod 64) @ x)
          = percent (192 + of_char d div 64) @ (percent (128 + of_char d mod 64) @ y)" by simp
      have d: "192 + of_char c div 64 = 192 + of_char d div (64 :: nat)"
        and r: "percent (128 + of_char c mod 64) @ x = percent (128 + of_char d mod 64) @ y"
        using percent_inj [OF _ _ e] div_less_small [OF lc] div_less_small [OF ld] by auto
      have "128 + of_char c mod 64 = 128 + of_char d mod (64 :: nat) \<and> x = y"
        by (rule percent_inj [OF _ _ r]) (simp_all add: less_imp_add_positive)
      with d have "of_char c = (of_char d :: nat)" "x = y"
        by (metis add_left_cancel div_mult_mod_eq)+
      with eq show ?thesis by blast
    qed
  qed
qed

lemma encodeURIComponent_simps [simp]:
  "encodeURIComponent [] = []"
  "encodeURIComponent (c # cs) = encode_char c @ encodeURIComponent cs"
  by (simp_all add: encodeURIComponent_def)

lemma encode_char_not_Nil: "encode_char c \<noteq> []"
  by (cases c rule: encode_char_cases) (auto simp: percent_def)

lemma encodeURIComponent_inj: "encodeURIComponent s = encodeURIComponent t \<Longrightarrow> s = t"
proof (induction s arbitrary: t)
  case Nil
  then show ?case by (cases t) (auto simp: encode_char_not_Nil)
next
  case (Cons c s)
  then show ?case
    by (cases t) (auto simp: encode_char_not_Nil dest: encode_char_inj)
qed

lemma hex_digit_not_bar: "n < 16 \<Longrightarrow> hex_digit n \<noteq> CHR ''|''"
  using of_char_hex_digit [of n] by (auto split: if_splits)

lemma encode_char_no_bar: "CHR ''|'' \<notin> set (encode_char c)"
proof -
  have p: "CHR ''|'' \<notin> set (percent b)" if "b < 256" for b
    using div_less_small [OF that] hex_digit_not_bar [of "b div 16"] hex_digit_not_bar [of "b mod 16"]
    by (auto simp: percent_def)
  show ?thesis
  proof (cases c rule: encode_char_cases)
    case 1
    then show ?thesis by (auto simp: unreserved_def)
  next
    case 2
    then show ?thesis using p [of "of_char c"] by simp
  next
    case 3
    then show ?thesis using p [of "192 + of_char c div 64"] p [of "128 + of_char c mod 64"]
      div_less_small [OF of_char_less [of c]] by auto
  qed
qed

lemma encodeURIComponent_no_bar: "CHR ''|'' \<notin> set (encodeURIComponent s)"
  by (induction s) (auto simp: encode_char_no_bar)

lemma bar_split:
  assumes "a @ CHR ''|'' # x = b @ CHR ''|'' # y" and "CHR ''|'' \<notin> set a" and "CHR ''|'' \<notin> set b"
  shows "a = b \<and> x = y"
proof -
  have "takeWhile (\<lambda>c. c \<noteq> CHR ''|'') (s @ CHR ''|'' # z) = s" if "CHR ''|'' \<notin> set s" for s z
    using that by (subst takeWhile_append2) auto
  with assms have "a = b" by metis
  with assms(1) show ?thesis by simp
qed

lemma encode_bar_split:
  assumes "encodeURIComponent s @ CHR ''|'' # x = encodeURIComponent t @ CHR ''|'' # y"
  shows "s = t \<and> x = y"
  using bar_split [OF assms encodeURIComponent_no_bar encodeURIComponent_no_bar]
  by (auto dest: encodeURIComponent_inj)

section \<open>The scope key is injective\<close>

text \<open>An absent component is encoded as the empty string, which no checked component is.\<close>

lemma check_nonempty_ok: "check_nonempty s = Inr t \<Longrightarrow> t = trim s \<and> t \<noteq> []"
  by (auto simp: check_nonempty_def split: if_splits)

lemma check_optional_Inr:
  "check_optional v = Inr w \<longleftrightarrow> w = map_option trim v \<and> (\<forall>s. v = Some s \<longrightarrow> trim s \<noteq> [])"
  by (cases v) (auto simp: check_optional_def check_nonempty_def)

definition component_text :: "string option \<Rightarrow> string" where
  "component_text v = (case v of None \<Rightarrow> [] | Some s \<Rightarrow> s)"

lemma component_text_inj:
  assumes "check_optional v = Inr v'" and "check_optional w = Inr w'"
    and "component_text v' = component_text w'"
  shows "v' = w'"
  using assms by (cases v; cases w) (auto simp: check_optional_Inr component_text_def)

lemma purpose_name_inj: "purpose_name p = purpose_name q \<Longrightarrow> p = q"
  by (cases p; cases q) simp_all

definition scope_fields :: "scope_key \<Rightarrow> (string \<times> string) list" where
  "scope_fields s = [(''ownerUserId'', sk_ownerUserId s),
     (''tenantId'', component_text (sk_tenantId s)),
     (''workspaceKey'', component_text (sk_workspaceKey s)),
     (''threadId'', component_text (sk_threadId s)), (''turnId'', component_text (sk_turnId s)),
     (''runId'', component_text (sk_runId s)), (''purpose'', purpose_name (sk_purpose s))]"

definition field_text :: "string \<times> string \<Rightarrow> string" where
  "field_text nv = fst nv @ ''='' @ encodeURIComponent (snd nv)"

lemma encodeScopeKey_text:
  "encodeScopeKey s =
     bind_result (parse_scope s) (\<lambda>t. Inr (join ''|'' (map field_text (scope_fields t))))"
  by (cases "parse_scope s")
    (simp_all add: encodeScopeKey_def scope_fields_def field_text_def scope_field_def
      component_text_def)

lemma join_fields_inj:
  "map fst ps = map fst qs \<Longrightarrow>
     join ''|'' (map field_text ps) = join ''|'' (map field_text qs) \<Longrightarrow> map snd ps = map snd qs"
proof (induction ps arbitrary: qs)
  case Nil
  then show ?case by simp
next
  case (Cons p ps)
  then obtain q qs' where qs: "qs = q # qs'" by (cases qs) auto
  show ?case
  proof (cases ps)
    case Nil
    with Cons.prems qs show ?thesis by (auto simp: field_text_def dest: encodeURIComponent_inj)
  next
    case (Cons p2 ps2)
    with Cons.prems(1) qs obtain q2 qs2 where "qs' = q2 # qs2" by (cases qs') auto
    with Cons Cons.prems qs
    have "encodeURIComponent (snd p) @ CHR ''|'' # join ''|'' (map field_text ps)
        = encodeURIComponent (snd q) @ CHR ''|'' # join ''|'' (map field_text qs')"
      by (simp add: field_text_def [abs_def])
    from encode_bar_split [OF this] Cons.IH [of qs'] Cons.prems(1) qs show ?thesis by auto
  qed
qed

lemma parse_scope_component_inj:
  assumes "parse_scope s = Inr s'" and "parse_scope t = Inr t'"
    and "map snd (scope_fields s') = map snd (scope_fields t')"
  shows "s' = t'"
  using assms
  by (auto simp: parse_scope_def result_simps scope_fields_def dest!: purpose_name_inj
      dest: component_text_inj)

lemma encodeScopeKey_inj:
  assumes "encodeScopeKey s = Inr k" and "encodeScopeKey t = Inr k"
  shows "parse_scope s = parse_scope t"
proof -
  obtain s' t' where st: "parse_scope s = Inr s'" "parse_scope t = Inr t'"
    and eq: "join ''|'' (map field_text (scope_fields s')) = join ''|'' (map field_text (scope_fields t'))"
    using assms by (auto simp: encodeScopeKey_text result_simps)
  have "map snd (scope_fields s') = map snd (scope_fields t')"
    by (rule join_fields_inj [OF _ eq]) (simp add: scope_fields_def)
  with parse_scope_component_inj [OF st] st show ?thesis by simp
qed

text \<open>The scope a run's stores use: \<open>runtimeScope\<close> and the key functions of the run stores.\<close>

definition runtimeScope :: "run_identity \<Rightarrow> scope_key" where
  "runtimeScope i = \<lparr>sk_ownerUserId = ownerUserId i, sk_tenantId = None,
     sk_workspaceKey = Some (workspaceKey i), sk_threadId = Some (threadId i),
     sk_turnId = Some (turnId i), sk_runId = Some (runId i), sk_purpose = PRuntime\<rparr>"

definition identityKey :: "run_identity \<Rightarrow> string result" where
  "identityKey i = encodeScopeKey (runtimeScope i)"

definition ok_identity :: "run_identity \<Rightarrow> bool" where
  "ok_identity i = (ok_string (ownerUserId i) \<and> ok_string (threadId i) \<and> ok_string (turnId i)
     \<and> ok_string (runId i) \<and> ok_string (workspaceKey i))"

lemma ok_string_check: "ok_string s \<Longrightarrow> check_nonempty s = Inr s"
  by (simp add: ok_string_def check_nonempty_def)

lemma parse_runtimeScope: "ok_identity i \<Longrightarrow> parse_scope (runtimeScope i) = Inr (runtimeScope i)"
  by (simp add: parse_scope_def runtimeScope_def ok_identity_def ok_string_check check_optional_def)

lemma identityKey_defined: "ok_identity i \<Longrightarrow> \<exists>k. identityKey i = Inr k"
  by (simp add: identityKey_def encodeScopeKey_text parse_runtimeScope)

lemma identityKey_inj:
  assumes "ok_identity i" and "ok_identity j" and "identityKey i = identityKey j"
  shows "i = j"
proof -
  obtain k where "identityKey i = Inr k" "identityKey j = Inr k"
    using identityKey_defined [OF assms(1)] assms(3) by auto
  then have "parse_scope (runtimeScope i) = parse_scope (runtimeScope j)"
    unfolding identityKey_def by (rule encodeScopeKey_inj)
  then have "runtimeScope i = runtimeScope j"
    using assms(1,2) by (simp add: parse_runtimeScope)
  then show ?thesis by (cases i; cases j) (simp add: runtimeScope_def)
qed

text \<open>
  Two checked run identities with the same store key are the same identity: runs of different
  owners, workspaces, threads, turns or run ids are filed apart in every runtime store.
\<close>

theorem identityKey_injective:
  assumes "ok_identity i" and "ok_identity j" and "identityKey i = identityKey j"
  shows "i = j"
  by (rule identityKey_inj [OF assms])

lemma identityKey_injective_witness:
  "ok_identity \<lparr>ownerUserId = ''u'', threadId = ''t'', turnId = ''n'', runId = ''a|b'', workspaceKey = ''w''\<rparr>
   \<and> identityKey \<lparr>ownerUserId = ''u'', threadId = ''t'', turnId = ''n'', runId = ''a|b'', workspaceKey = ''w''\<rparr>
     \<noteq> identityKey \<lparr>ownerUserId = ''u'', threadId = ''t'', turnId = ''n'', runId = ''a'', workspaceKey = ''w''\<rparr>"
proof -
  let ?i = "\<lparr>ownerUserId = ''u'', threadId = ''t'', turnId = ''n'', runId = ''a|b'', workspaceKey = ''w''\<rparr>"
  let ?j = "\<lparr>ownerUserId = ''u'', threadId = ''t'', turnId = ''n'', runId = ''a'', workspaceKey = ''w''\<rparr>"
  have ok: "ok_identity ?i" "ok_identity ?j"
    by (simp_all add: ok_identity_def ok_string_def trim_def trim_start_def trim_end_def is_js_space_def)
  then show ?thesis using identityKey_injective [OF ok] by auto
qed

end
