(* ===== verification/Commands.thy ===== *)
theory Commands
  imports Contracts
begin

text \<open>
  The commands a node handler or a middleware returns to the kernel (\<open>loop/src/runtime-middleware.ts\<close>)
  and their validation, \<open>canonicalizeMiddlewareCommands\<close> of
  \<open>loop/src/runtime-middleware-command-validator.ts\<close>, on JSON values with every check in the
  source's order and the message of every error. A message that quotes a failed schema check carries
  a placeholder for the schema library's own text.

  The lemmas show that validation accepts exactly the well-formed commands, returns them in
  canonical form, and accepts its own output unchanged; the kernel relies on the last fact when it
  reads a committed event back.
\<close>

datatype budget_key = KStepsUsed | KToolCallsUsed | KInputTokens | KOutputTokens | KCostUsd

definition budgetKeys :: "budget_key list" where
  "budgetKeys = [KStepsUsed, KToolCallsUsed, KInputTokens, KOutputTokens, KCostUsd]"

definition budget_key_table :: "(string \<times> budget_key) list" where
  "budget_key_table =
     [(''stepsUsed'', KStepsUsed), (''toolCallsUsed'', KToolCallsUsed),
      (''inputTokens'', KInputTokens), (''outputTokens'', KOutputTokens), (''costUsd'', KCostUsd)]"

type_synonym budget_delta = "(budget_key, rat) jsmap"

datatype command =
    SetMiddlewareState string middleware_state
  | SetBudget budget_key rat
  | AddBudget budget_delta "string option"
  | SetNodeData string json
  | SetTaskRevision nat
  | SetRecovery recovery_state
  | SetEffects "effect_intent list" "committed_effect list"
  | Jump string string string
  | Terminate run_outcome
  | Suspend run_outcome
  | Retry string
  | RepairHistory "json list"
  | RecordWarning string string

section \<open>The checks\<close>

definition requireRecord :: "json option \<Rightarrow> string \<Rightarrow> obj result" where
  "requireRecord v label = (case v of
      Some (JObj kvs) \<Rightarrow> Inr kvs
    | _ \<Rightarrow> throw (label @ '' must be an object''))"

definition assertOnlyKeys :: "obj \<Rightarrow> string list \<Rightarrow> unit result" where
  "assertOnlyKeys r allowed = (case List.find (\<lambda>kv. fst kv \<notin> set allowed) r of
      None \<Rightarrow> Inr ()
    | Some kv \<Rightarrow> throw (''unexpected command field: '' @ fst kv))"

definition requireNonEmptyString :: "json option \<Rightarrow> string \<Rightarrow> string result" where
  "requireNonEmptyString v label = (case v of
      Some (JStr s) \<Rightarrow> (if trim s = [] then throw (label @ '' must be a nonempty string'') else Inr s)
    | _ \<Rightarrow> throw (label @ '' must be a nonempty string''))"

definition requirePositiveSafeInteger :: "json option \<Rightarrow> string \<Rightarrow> nat result" where
  "requirePositiveSafeInteger v label = (case v of
      Some (JNum n) \<Rightarrow> (if is_safe_integer n \<and> 0 < n then Inr (nat \<lfloor>n\<rfloor>)
                       else throw (label @ '' must be a positive safe integer''))
    | _ \<Rightarrow> throw (label @ '' must be a positive safe integer''))"

definition requireNonNegativeSafeInteger :: "json option \<Rightarrow> string \<Rightarrow> nat result" where
  "requireNonNegativeSafeInteger v label = (case v of
      Some (JNum n) \<Rightarrow> (if is_safe_integer n \<and> 0 \<le> n then Inr (nat \<lfloor>n\<rfloor>)
                       else throw (label @ '' must be a nonnegative safe integer''))
    | _ \<Rightarrow> throw (label @ '' must be a nonnegative safe integer''))"

text \<open>\<open>String(value)\<close> in an error message; only the text of a string key is kept.\<close>

fun string_of_value :: "json option \<Rightarrow> string" where
  "string_of_value None = ''undefined''"
| "string_of_value (Some JNull) = ''null''"
| "string_of_value (Some (JBool b)) = (if b then ''true'' else ''false'')"
| "string_of_value (Some (JStr s)) = s"
| "string_of_value (Some _) = ''<value>''"

definition requireBudgetKey :: "json option \<Rightarrow> string \<Rightarrow> budget_key result" where
  "requireBudgetKey v label = (case v of
      Some (JStr s) \<Rightarrow> (case map_of budget_key_table s of
          Some k \<Rightarrow> Inr k
        | None \<Rightarrow> throw (label @ '' is invalid: '' @ s))
    | _ \<Rightarrow> throw (label @ '' is invalid: '' @ string_of_value v))"

definition requireBudgetValue :: "budget_key \<Rightarrow> json option \<Rightarrow> rat result" where
  "requireBudgetValue k v = (case v of
      Some (JNum n) \<Rightarrow>
        (if n < 0 then throw (''budget value is invalid: '' @ spelling budget_key_table k)
         else if k \<noteq> KCostUsd \<and> \<not> is_safe_integer n
           then throw (''budget value must be a safe integer: '' @ spelling budget_key_table k)
         else Inr n)
    | _ \<Rightarrow> throw (''budget value is invalid: '' @ spelling budget_key_table k))"

fun error_message :: "js_error \<Rightarrow> string" where
  "error_message (Error m) = m"
| "error_message ZodError = ''<schema issues>''"

definition rethrow :: "string \<Rightarrow> 'a result \<Rightarrow> 'a result" where
  "rethrow prefix r = (case r of Inl e \<Rightarrow> throw (prefix @ error_message e) | Inr x \<Rightarrow> Inr x)"

definition parseBudgetDelta :: "json option \<Rightarrow> budget_delta result" where
  "parseBudgetDelta v = rethrow ''invalid budget delta: ''
     (bind_result (requireRecord v ''budget delta'') (\<lambda>r.
        map_result (\<lambda>kv. bind_result (requireBudgetKey (Some (JStr (fst kv))) ''budget delta key'') (\<lambda>k.
          bind_result (requireBudgetValue k (Some (snd kv))) (\<lambda>n. Inr (k, n)))) r))"

definition z_intents :: "json option \<Rightarrow> effect_intent list result" where
  "z_intents = z_array parse_intent"

definition z_committed :: "json option \<Rightarrow> committed_effect list result" where
  "z_committed = z_array parse_committed"

definition z_outcome :: "json option \<Rightarrow> run_outcome result" where
  "z_outcome v = (case v of None \<Rightarrow> Inl ZodError | Some j \<Rightarrow> parse_outcome j)"

definition z_recovery :: "json option \<Rightarrow> recovery_state result" where
  "z_recovery v = (case v of None \<Rightarrow> Inl ZodError | Some j \<Rightarrow> parse_recovery j)"

definition parse_set_middleware_state :: "obj \<Rightarrow> command result" where
  "parse_set_middleware_state r =
     bind_result (assertOnlyKeys r [''type'', ''id'', ''state'']) (\<lambda>_.
     bind_result (requireRecord (map_of r ''state'') ''middleware state'') (\<lambda>st.
     bind_result (assertOnlyKeys st [''version'', ''data'']) (\<lambda>_.
     case map_of st ''data'' of
       None \<Rightarrow> throw ''middleware state data is required''
     | Some d \<Rightarrow>
         bind_result (requireNonEmptyString (map_of r ''id'') ''middleware id'') (\<lambda>i.
         bind_result (requirePositiveSafeInteger (map_of st ''version'') ''middleware state version'') (\<lambda>n.
         Inr (SetMiddlewareState i \<lparr>mw_version = n, mw_data = d\<rparr>))))))"

definition parse_add_budget :: "obj \<Rightarrow> command result" where
  "parse_add_budget r =
     bind_result (assertOnlyKeys r [''type'', ''delta'', ''usageId'']) (\<lambda>_.
     bind_result (case map_of r ''usageId'' of
         None \<Rightarrow> Inr None
       | v \<Rightarrow> bind_result (requireNonEmptyString v ''budget usage id'') (\<lambda>u. Inr (Some u))) (\<lambda>u.
     bind_result (parseBudgetDelta (map_of r ''delta'')) (\<lambda>d.
     Inr (AddBudget d u))))"

definition parseMiddlewareCommand :: "json \<Rightarrow> command result" where
  "parseMiddlewareCommand v =
     bind_result (requireRecord (Some v) ''command'') (\<lambda>r.
     bind_result (requireNonEmptyString (map_of r ''type'') ''command type'') (\<lambda>ty.
     if ty = ''set-middleware-state'' then parse_set_middleware_state r
     else if ty = ''set-budget'' then
       bind_result (assertOnlyKeys r [''type'', ''key'', ''value'']) (\<lambda>_.
       bind_result (requireBudgetKey (map_of r ''key'') ''budget key'') (\<lambda>k.
       bind_result (requireBudgetValue k (map_of r ''value'')) (\<lambda>n. Inr (SetBudget k n))))
     else if ty = ''add-budget'' then parse_add_budget r
     else if ty = ''set-node-data'' then
       bind_result (assertOnlyKeys r [''type'', ''nodeId'', ''value'']) (\<lambda>_.
       case map_of r ''value'' of
         None \<Rightarrow> throw ''node data value is required''
       | Some d \<Rightarrow> bind_result (requireNonEmptyString (map_of r ''nodeId'') ''node data id'') (\<lambda>i.
           Inr (SetNodeData i d)))
     else if ty = ''set-task-revision'' then
       bind_result (assertOnlyKeys r [''type'', ''revision'']) (\<lambda>_.
       bind_result (requireNonNegativeSafeInteger (map_of r ''revision'') ''task revision'') (\<lambda>n.
       Inr (SetTaskRevision n)))
     else if ty = ''set-recovery'' then
       bind_result (assertOnlyKeys r [''type'', ''recovery'']) (\<lambda>_.
       bind_result (z_recovery (map_of r ''recovery'')) (\<lambda>x. Inr (SetRecovery x)))
     else if ty = ''set-effects'' then
       bind_result (assertOnlyKeys r [''type'', ''pendingEffects'', ''committedEffects'']) (\<lambda>_.
       bind_result (z_intents (map_of r ''pendingEffects'')) (\<lambda>p.
       bind_result (z_committed (map_of r ''committedEffects'')) (\<lambda>c. Inr (SetEffects p c))))
     else if ty = ''jump'' then
       bind_result (assertOnlyKeys r [''type'', ''nodeId'', ''condition'', ''reason'']) (\<lambda>_.
       bind_result (requireNonEmptyString (map_of r ''nodeId'') ''jump node id'') (\<lambda>n.
       bind_result (requireNonEmptyString (map_of r ''condition'') ''jump condition'') (\<lambda>c.
       bind_result (requireNonEmptyString (map_of r ''reason'') ''jump reason'') (\<lambda>x.
       Inr (Jump n c x)))))
     else if ty = ''terminate'' then
       bind_result (assertOnlyKeys r [''type'', ''outcome'']) (\<lambda>_.
       bind_result (z_outcome (map_of r ''outcome'')) (\<lambda>x.
       if oc_status x = OSuspended then throw ''terminate outcome must not be suspended''
       else Inr (Terminate x)))
     else if ty = ''suspend'' then
       bind_result (assertOnlyKeys r [''type'', ''outcome'']) (\<lambda>_.
       bind_result (z_outcome (map_of r ''outcome'')) (\<lambda>x.
       if oc_status x \<noteq> OSuspended then throw ''suspend outcome must be suspended''
       else Inr (Suspend x)))
     else if ty = ''retry'' then
       bind_result (assertOnlyKeys r [''type'', ''reason'']) (\<lambda>_.
       bind_result (requireNonEmptyString (map_of r ''reason'') ''retry reason'') (\<lambda>x. Inr (Retry x)))
     else if ty = ''repair-history'' then
       bind_result (assertOnlyKeys r [''type'', ''items'']) (\<lambda>_.
       case map_of r ''items'' of
         Some (JArr xs) \<Rightarrow> Inr (RepairHistory xs)
       | _ \<Rightarrow> throw ''history repair items must be an array'')
     else if ty = ''record-warning'' then
       bind_result (assertOnlyKeys r [''type'', ''code'', ''message'']) (\<lambda>_.
       bind_result (requireNonEmptyString (map_of r ''code'') ''warning code'') (\<lambda>c.
       bind_result (requireNonEmptyString (map_of r ''message'') ''warning message'') (\<lambda>m.
       Inr (RecordWarning c m))))
     else throw (''unknown middleware command type: '' @ ty)))"

definition commandTypeLabel :: "json \<Rightarrow> string" where
  "commandTypeLabel v = (case v of
      JObj kvs \<Rightarrow> (case map_of kvs ''type'' of
          Some (JStr s) \<Rightarrow> (if s = [] then ''unknown'' else s)
        | _ \<Rightarrow> ''unknown'')
    | _ \<Rightarrow> ''unknown'')"

definition canonicalize_command :: "nat \<Rightarrow> json \<Rightarrow> command result" where
  "canonicalize_command index c = rethrow
     (''invalid middleware command at index '' @ show_nat index @ '' ('' @ commandTypeLabel c @ ''): '')
     (parseMiddlewareCommand c)"

definition canonicalizeMiddlewareCommands :: "json \<Rightarrow> command list result" where
  "canonicalizeMiddlewareCommands v = (case v of
      JArr cs \<Rightarrow> map_result (\<lambda>ic. canonicalize_command (fst ic) (snd ic)) (enumerate 0 cs)
    | _ \<Rightarrow> throw ''invalid middleware commands: expected an array'')"

section \<open>Commands as values\<close>

fun command_json :: "command \<Rightarrow> json" where
  "command_json (SetMiddlewareState i s) = JObj [(''type'', JStr ''set-middleware-state''),
     (''id'', JStr i),
     (''state'', JObj [(''version'', JNum (of_nat (mw_version s))), (''data'', mw_data s)])]"
| "command_json (SetBudget k n) = JObj [(''type'', JStr ''set-budget''),
     (''key'', JStr (spelling budget_key_table k)), (''value'', JNum n)]"
| "command_json (AddBudget d u) = JObj ([(''type'', JStr ''add-budget''),
     (''delta'', JObj (map (\<lambda>kn. (spelling budget_key_table (fst kn), JNum (snd kn))) d))]
     @ opt_field ''usageId'' JStr u)"
| "command_json (SetNodeData i v) = JObj [(''type'', JStr ''set-node-data''), (''nodeId'', JStr i),
     (''value'', v)]"
| "command_json (SetTaskRevision n) = JObj [(''type'', JStr ''set-task-revision''),
     (''revision'', JNum (of_nat n))]"
| "command_json (SetRecovery r) = JObj [(''type'', JStr ''set-recovery''),
     (''recovery'', recovery_json r)]"
| "command_json (SetEffects p c) = JObj [(''type'', JStr ''set-effects''),
     (''pendingEffects'', JArr (map intent_json p)), (''committedEffects'', JArr (map committed_json c))]"
| "command_json (Jump n c x) = JObj [(''type'', JStr ''jump''), (''nodeId'', JStr n),
     (''condition'', JStr c), (''reason'', JStr x)]"
| "command_json (Terminate x) = JObj [(''type'', JStr ''terminate''), (''outcome'', outcome_json x)]"
| "command_json (Suspend x) = JObj [(''type'', JStr ''suspend''), (''outcome'', outcome_json x)]"
| "command_json (Retry x) = JObj [(''type'', JStr ''retry''), (''reason'', JStr x)]"
| "command_json (RepairHistory xs) = JObj [(''type'', JStr ''repair-history''), (''items'', JArr xs)]"
| "command_json (RecordWarning c m) = JObj [(''type'', JStr ''record-warning''), (''code'', JStr c),
     (''message'', JStr m)]"

text \<open>The validation of a list of typed commands, as the kernel calls it.\<close>

definition canon :: "command list \<Rightarrow> command list result" where
  "canon cs = canonicalizeMiddlewareCommands (JArr (map command_json cs))"

definition present :: "string \<Rightarrow> bool" where
  "present s = (trim s \<noteq> [])"

definition ok_budget_value :: "budget_key \<Rightarrow> rat \<Rightarrow> bool" where
  "ok_budget_value k n = (0 \<le> n \<and> (k = KCostUsd \<or> is_safe_integer n))"

fun ok_command :: "command \<Rightarrow> bool" where
  "ok_command (SetMiddlewareState i s) = (present i \<and> 0 < mw_version s \<and> ok_nat (mw_version s))"
| "ok_command (SetBudget k n) = ok_budget_value k n"
| "ok_command (AddBudget d u) = ((\<forall>kn \<in> set d. ok_budget_value (fst kn) (snd kn))
     \<and> (case u of None \<Rightarrow> True | Some s \<Rightarrow> present s))"
| "ok_command (SetNodeData i v) = present i"
| "ok_command (SetTaskRevision n) = ok_nat n"
| "ok_command (SetRecovery r) = ok_recovery r"
| "ok_command (SetEffects p c) = ((\<forall>e \<in> set p. ok_intent e) \<and> (\<forall>e \<in> set c. ok_committed e))"
| "ok_command (Jump n c x) = (present n \<and> present c \<and> present x)"
| "ok_command (Terminate x) = (ok_outcome x \<and> oc_status x \<noteq> OSuspended)"
| "ok_command (Suspend x) = (ok_outcome x \<and> oc_status x = OSuspended)"
| "ok_command (Retry x) = present x"
| "ok_command (RepairHistory xs) = True"
| "ok_command (RecordWarning c m) = (present c \<and> present m)"

section \<open>Validation accepts the well-formed commands and returns only such\<close>

lemma requireNonEmptyString_Inr:
  "requireNonEmptyString v l = Inr s \<longleftrightarrow> v = Some (JStr s) \<and> present s"
  by (auto simp: requireNonEmptyString_def present_def throw_def split: option.splits json.splits if_splits)

lemma present_Cons [simp]: "\<not> is_js_space c \<Longrightarrow> present (c # s)"
  by (simp add: present_def trim_def trim_start_def trim_end_def)

lemma requireRecord_Inr: "requireRecord v l = Inr r \<longleftrightarrow> v = Some (JObj r)"
  by (auto simp: requireRecord_def throw_def split: option.splits json.splits)

lemma safe_nat:
  assumes "is_safe_integer n" and "0 \<le> n"
  shows "n = of_nat (nat \<lfloor>n\<rfloor>) \<and> ok_nat (nat \<lfloor>n\<rfloor>)"
proof -
  obtain i where i: "n = of_int i" using assms(1) by (auto simp: is_safe_integer_def elim: Ints_cases)
  with assms show ?thesis by (auto simp: ok_nat_def)
qed

lemma safe_of_nat [simp]: "is_safe_integer (of_nat n) \<longleftrightarrow> ok_nat n"
  using is_safe_integer_of_int [of "int n"] by (simp add: ok_nat_def)

lemma safe_nat_conv:
  "is_safe_integer q \<and> 0 \<le> q \<and> nat \<lfloor>q\<rfloor> = n \<longleftrightarrow> q = of_nat n \<and> ok_nat n"
  using safe_nat [of q] by (metis floor_of_nat nat_int of_nat_0_le_iff safe_of_nat)

lemma require_integer_shape:
  "(\<nexists>q. v = Some (JNum q)) \<Longrightarrow> requirePositiveSafeInteger v l \<noteq> Inr n"
  "(\<nexists>q. v = Some (JNum q)) \<Longrightarrow> requireNonNegativeSafeInteger v l \<noteq> Inr n"
  by (auto simp: requirePositiveSafeInteger_def requireNonNegativeSafeInteger_def
      split: option.splits json.splits)

lemma requirePositiveSafeInteger_Inr:
  "requirePositiveSafeInteger v l = Inr n \<longleftrightarrow> v = Some (JNum (of_nat n)) \<and> 0 < n \<and> ok_nat n"
proof (cases "\<exists>q. v = Some (JNum q)")
  case True
  then obtain q where q: "v = Some (JNum q)" by blast
  have "requirePositiveSafeInteger v l = Inr n
      \<longleftrightarrow> (is_safe_integer q \<and> 0 \<le> q \<and> nat \<lfloor>q\<rfloor> = n) \<and> q \<noteq> 0"
    by (simp add: q requirePositiveSafeInteger_def less_le conj_ac)
  also have "\<dots> \<longleftrightarrow> (q = of_nat n \<and> ok_nat n) \<and> q \<noteq> 0"
    by (simp only: safe_nat_conv)
  also have "\<dots> \<longleftrightarrow> q = of_nat n \<and> 0 < n \<and> ok_nat n" by (cases n) auto
  finally show ?thesis by (simp add: q)
next
  case False
  then show ?thesis using require_integer_shape by blast
qed

lemma requireNonNegativeSafeInteger_Inr:
  "requireNonNegativeSafeInteger v l = Inr n \<longleftrightarrow> v = Some (JNum (of_nat n)) \<and> ok_nat n"
proof (cases "\<exists>q. v = Some (JNum q)")
  case True
  then obtain q where q: "v = Some (JNum q)" by blast
  have "requireNonNegativeSafeInteger v l = Inr n
      \<longleftrightarrow> (is_safe_integer q \<and> 0 \<le> q \<and> nat \<lfloor>q\<rfloor> = n)"
    by (auto simp: q requireNonNegativeSafeInteger_def)
  then show ?thesis by (simp only: safe_nat_conv) (simp add: q)
next
  case False
  then show ?thesis using require_integer_shape by blast
qed

lemma budget_key_spelling [simp]: "map_of budget_key_table (spelling budget_key_table k) = Some k"
  by (cases k) (simp_all add: budget_key_table_def spelling_def)

lemma requireBudgetKey_spelling [simp]:
  "requireBudgetKey (Some (JStr (spelling budget_key_table k))) l = Inr k"
  by (simp add: requireBudgetKey_def)

lemma requireBudgetValue_Inr:
  "requireBudgetValue k v = Inr n \<longleftrightarrow> v = Some (JNum n) \<and> ok_budget_value k n"
  by (auto simp: requireBudgetValue_def throw_def ok_budget_value_def
      split: option.splits json.splits if_splits)

lemma rethrow_Inr [simp]: "rethrow m r = Inr x \<longleftrightarrow> r = Inr x"
  by (cases r) (auto simp: rethrow_def throw_def)

lemma assertOnlyKeys_accepts: "\<forall>kv \<in> set r. fst kv \<in> set ks \<Longrightarrow> assertOnlyKeys r ks = Inr ()"
proof -
  assume "\<forall>kv \<in> set r. fst kv \<in> set ks"
  then have "List.find (\<lambda>kv. fst kv \<notin> set ks) r = None" by (auto simp: find_None_iff)
  then show ?thesis by (simp add: assertOnlyKeys_def)
qed

lemma parseBudgetDelta_ok:
  "parseBudgetDelta v = Inr d \<Longrightarrow> \<forall>kn \<in> set d. ok_budget_value (fst kn) (snd kn)"
  by (auto simp: parseBudgetDelta_def result_simps map_result_all2 list_all2_conv_all_nth
      requireBudgetValue_Inr in_set_conv_nth) (metis fst_conv snd_conv)

lemma parseBudgetDelta_json:
  assumes "\<forall>kn \<in> set d. ok_budget_value (fst kn) (snd kn)"
  shows "parseBudgetDelta
    (Some (JObj (map (\<lambda>kn. (spelling budget_key_table (fst kn), JNum (snd kn))) d))) = Inr d"
  using assms
  by (auto simp: parseBudgetDelta_def result_simps map_result_all2 list_all2_conv_all_nth
      requireBudgetValue_Inr requireRecord_Inr)

lemma z_array_json:
  assumes "\<And>x. x \<in> set xs \<Longrightarrow> p (f x) = Inr x"
  shows "z_array p (Some (JArr (map f xs))) = Inr xs"
  using assms by (simp add: z_array_def map_result_all2 list_all2_conv_all_nth)

lemma z_array_ok:
  assumes "z_array p v = Inr xs" and "\<And>j x. p j = Inr x \<Longrightarrow> ok x"
  shows "\<forall>x \<in> set xs. ok x"
proof -
  obtain js where "list_all2 (\<lambda>j x. p j = Inr x) js xs"
    using assms(1) by (auto simp: z_array_def map_result_all2 split: option.splits json.splits)
  then show ?thesis by (induction rule: list_all2_induct) (auto intro: assms(2))
qed

lemma require_accepts:
  "present s \<Longrightarrow> requireNonEmptyString (Some (JStr s)) l = Inr s"
  "requireRecord (Some (JObj r)) l = Inr r"
  "0 < n \<Longrightarrow> ok_nat n \<Longrightarrow> requirePositiveSafeInteger (Some (JNum (of_nat n))) l = Inr n"
  "ok_nat n \<Longrightarrow> requireNonNegativeSafeInteger (Some (JNum (of_nat n))) l = Inr n"
  "ok_budget_value k q \<Longrightarrow> requireBudgetValue k (Some (JNum q)) = Inr q"
  by (simp_all add: requireNonEmptyString_Inr requireRecord_Inr requirePositiveSafeInteger_Inr
      requireNonNegativeSafeInteger_Inr requireBudgetValue_Inr)

lemmas require_simps = requireNonEmptyString_Inr requireRecord_Inr requirePositiveSafeInteger_Inr
  requireNonNegativeSafeInteger_Inr requireBudgetValue_Inr

lemma parse_set_middleware_state_ok: "parse_set_middleware_state r = Inr c \<Longrightarrow> ok_command c"
  by (auto simp: parse_set_middleware_state_def result_simps require_simps split: option.splits)

lemma parse_add_budget_ok: "parse_add_budget r = Inr c \<Longrightarrow> ok_command c"
  by (auto simp: parse_add_budget_def result_simps require_simps
      dest: parseBudgetDelta_ok split: option.splits)

lemma parseMiddlewareCommand_ok:
  assumes "parseMiddlewareCommand v = Inr c"
  shows "ok_command c"
  using assms unfolding parseMiddlewareCommand_def
  by (auto simp: result_simps require_simps z_outcome_def z_recovery_def z_intents_def z_committed_def
      dest: parse_set_middleware_state_ok parse_add_budget_ok parse_outcome_ok parse_recovery_ok
        bspec [OF z_array_ok [OF _ parse_intent_ok]] bspec [OF z_array_ok [OF _ parse_committed_ok]]
      split: if_splits option.splits json.splits)

lemmas command_accepts = require_accepts assertOnlyKeys_accepts parseBudgetDelta_json
  z_outcome_def z_recovery_def z_intents_def z_committed_def parse_outcome_json parse_recovery_json
  z_array_json parse_intent_json parse_committed_json

lemma parseMiddlewareCommand_json:
  assumes "ok_command c"
  shows "parseMiddlewareCommand (command_json c) = Inr c"
  using assms
proof (cases c)
  case (AddBudget d u)
  with assms show ?thesis
    by (cases u) (simp_all add: parseMiddlewareCommand_def parse_add_budget_def command_accepts
        is_js_space_def)
next
  case (SetMiddlewareState i st)
  with assms show ?thesis
    by (simp add: parseMiddlewareCommand_def parse_set_middleware_state_def command_accepts
        is_js_space_def)
qed (simp_all add: parseMiddlewareCommand_def command_accepts is_js_space_def)

lemma canonicalize_command_ok: "canonicalize_command i v = Inr c \<Longrightarrow> ok_command c"
  by (auto simp: canonicalize_command_def parseMiddlewareCommand_ok)

lemma canon_ok: "canon cs = Inr cs' \<Longrightarrow> \<forall>c \<in> set cs'. ok_command c"
  by (auto simp: canon_def canonicalizeMiddlewareCommands_def map_result_all2 list_all2_conv_all_nth
      in_set_conv_nth) (metis canonicalize_command_ok)

lemma canon_accepts:
  assumes "\<forall>c \<in> set cs. ok_command c"
  shows "canon cs = Inr cs"
  using assms by (auto simp: canon_def canonicalizeMiddlewareCommands_def map_result_all2
      list_all2_conv_all_nth nth_enumerate_eq canonicalize_command_def parseMiddlewareCommand_json)

lemma canon_idem: "canon cs = Inr cs' \<Longrightarrow> canon cs' = Inr cs'"
  by (rule canon_accepts [OF canon_ok])

lemma canon_length: "canon cs = Inr cs' \<Longrightarrow> length cs' = length cs"
  by (auto simp: canon_def canonicalizeMiddlewareCommands_def dest!: map_result_length)

end
