(* ===== verification/ExecutionGraph.thy ===== *)
theory ExecutionGraph
  imports Prelude
begin

text \<open>
  Execution graphs of the run kernel: \<open>loop/src/execution-graph.ts\<close> (validation with its depth-first
  search for cycles, the edges that leave a node under a condition) and the graph that production
  runs, \<open>loop/src/kernel-v3-graph.ts\<close>.

  The depth-first search is a recursive function over the stack of nodes and edges the source keeps;
  it terminates because the stack never holds a node twice. The lemmas show that the nodes a search
  leaves are in an order in which unmarked edges only go backwards, so an accepted graph without
  loop marks is acyclic, and that an error names a cycle of unmarked edges that is really there.
\<close>

datatype node_checkpoint = CpBefore | CpAfter | CpBoth | CpNone

record runtime_node =
  rn_id :: string
  rn_kind :: string
  rn_effect :: string
  rn_checkpoint :: "node_checkpoint option"
  rn_terminal :: bool

record runtime_edge =
  re_from :: string
  re_to :: string
  re_when :: string
  re_loop :: bool

record execution_graph =
  g_version :: string
  g_start :: string
  g_predicates :: "string list"
  g_nodes :: "runtime_node list"
  g_edges :: "runtime_edge list"

section \<open>The cycle check\<close>

text \<open>The edges the adjacency map holds under a node; a node the graph does not declare has none.\<close>

definition adjacency :: "execution_graph \<Rightarrow> string \<Rightarrow> runtime_edge list" where
  "adjacency g n =
     (if n \<in> rn_id ` set (g_nodes g) then filter (\<lambda>e. re_from e = n) (g_edges g) else [])"

fun last_index_of :: "'a list \<Rightarrow> 'a \<Rightarrow> nat" where
  "last_index_of [] x = 0"
| "last_index_of (y # ys) x = (if x \<in> set ys then Suc (last_index_of ys x) else 0)"

definition edge_label :: "runtime_edge \<Rightarrow> string" where
  "edge_label e = re_from e @ ''->'' @ re_to e"

fun join_with :: "string \<Rightarrow> string list \<Rightarrow> string" where
  "join_with sep [] = []"
| "join_with sep [x] = x"
| "join_with sep (x # xs) = x @ sep @ join_with sep xs"

definition cycle_message :: "runtime_edge list \<Rightarrow> string" where
  "cycle_message es = ''graph cycle requires loop edge: '' @ join_with '', '' (map edge_label es)"

text \<open>
  The loop over the edges of the node on top of the stack. \<open>sn\<close> and \<open>se\<close> are \<open>stackNodes\<close> and
  \<open>stackEdges\<close> (\<open>visiting\<close> is the set of the former), \<open>vs\<close> is \<open>visited\<close>, newest first. The value is
  the error or the visited nodes.
\<close>

function visit_edges :: "execution_graph \<Rightarrow> string list \<Rightarrow> runtime_edge list \<Rightarrow> runtime_edge list
    \<Rightarrow> string list \<Rightarrow> string + string list" where
  "visit_edges g sn se [] vs = Inr vs"
| "visit_edges g sn se (e # es) vs =
     (if re_to e \<in> set sn then
        (let cycle_edges = drop (last_index_of sn (re_to e)) se @ [e] in
         if list_ex re_loop cycle_edges then visit_edges g sn se es vs
         else Inl (cycle_message cycle_edges))
      else if re_to e \<in> set vs then visit_edges g sn se es vs
      else (case visit_edges g (sn @ [re_to e]) (se @ [e]) (adjacency g (re_to e)) vs of
          Inl m \<Rightarrow> Inl m
        | Inr vs' \<Rightarrow> visit_edges g sn se es (re_to e # vs')))"
  by pat_completeness auto

definition open_targets :: "execution_graph \<Rightarrow> string list \<Rightarrow> runtime_edge list \<Rightarrow> string set" where
  "open_targets g sn es = re_to ` (set (g_edges g) \<union> set es) - set sn"

lemma open_targets_finite [simp]: "finite (open_targets g sn es)"
  by (simp add: open_targets_def)

lemma open_targets_push:
  assumes "re_to e \<notin> set sn"
  shows "card (open_targets g (sn @ [re_to e]) (adjacency g n)) < card (open_targets g sn (e # es))"
  by (rule psubset_card_mono)
    (use assms in \<open>auto simp: open_targets_def adjacency_def psubset_eq\<close>)

lemma open_targets_next: "card (open_targets g sn es) \<le> card (open_targets g sn (e # es))"
  by (rule card_mono) (auto simp: open_targets_def)

termination visit_edges
proof (relation "measures [\<lambda>(g, sn, se, es, vs). card (open_targets g sn es),
    \<lambda>(g, sn, se, es, vs). length es]", goal_cases)
  case 1
  show ?case by simp
next
  case (4 g sn se e es vs)
  then show ?case using open_targets_push by simp
qed (use open_targets_next in \<open>auto simp: le_less\<close>)

definition visit_node :: "execution_graph \<Rightarrow> string \<Rightarrow> string list \<Rightarrow> string + string list" where
  "visit_node g n vs = (case visit_edges g [n] [] (adjacency g n) vs of
      Inl m \<Rightarrow> Inl m
    | Inr vs' \<Rightarrow> Inr (n # vs'))"

definition cycle_search :: "execution_graph \<Rightarrow> string + string list" where
  "cycle_search g = fold_result
     (\<lambda>n vs. if rn_id n \<in> set vs then Inr vs else visit_node g (rn_id n) vs) (g_nodes g) []"

definition cycleError :: "execution_graph \<Rightarrow> string option" where
  "cycleError g = (case cycle_search g of Inl m \<Rightarrow> Some m | Inr _ \<Rightarrow> None)"

section \<open>Validation\<close>

definition node_ids_step :: "runtime_node \<Rightarrow> string list \<Rightarrow> string list result" where
  "node_ids_step n ids =
     (if trim (rn_id n) = [] then throw ''graph node id is required''
      else if rn_id n \<in> set ids then throw (''duplicate node: '' @ rn_id n)
      else Inr (ids @ [rn_id n]))"

definition edge_predicate :: "string \<Rightarrow> string" where
  "edge_predicate w = (if starts_with w ''predicate:'' then drop 10 w else w)"

definition edge_check :: "string list \<Rightarrow> string list \<Rightarrow> runtime_edge \<Rightarrow> unit \<Rightarrow> unit result" where
  "edge_check ids preds e u =
     (if re_from e \<notin> set ids \<or> re_to e \<notin> set ids then
        throw (''unknown graph node in edge: '' @ edge_label e)
      else if trim (re_when e) = [] then throw ''graph edge predicate is required''
      else if edge_predicate (re_when e) \<notin> set preds then
        throw (''unregistered predicate: '' @ edge_predicate (re_when e))
      else Inr ())"

definition validateExecutionGraph :: "execution_graph \<Rightarrow> execution_graph result" where
  "validateExecutionGraph g =
     (if trim (g_version g) = [] then throw ''graph version is required''
      else bind_result (fold_result node_ids_step (g_nodes g) []) (\<lambda>ids.
        if g_start g \<notin> set ids then throw (''unknown graph node: '' @ g_start g)
        else bind_result (fold_result (edge_check ids (g_predicates g)) (g_edges g) ()) (\<lambda>_.
          case cycleError g of Some m \<Rightarrow> throw m | None \<Rightarrow> Inr g)))"

definition outgoingEdges :: "execution_graph \<Rightarrow> string \<Rightarrow> string \<Rightarrow> runtime_edge list" where
  "outgoingEdges g n c =
     filter (\<lambda>e. re_from e = n \<and> (re_when e = c \<or> re_when e = ''predicate:'' @ c)) (g_edges g)"

definition find_node :: "execution_graph \<Rightarrow> string \<Rightarrow> runtime_node option" where
  "find_node g n = List.find (\<lambda>x. rn_id x = n) (g_nodes g)"

section \<open>The production graph\<close>

definition rnode :: "string \<Rightarrow> string \<Rightarrow> string \<Rightarrow> node_checkpoint \<Rightarrow> bool \<Rightarrow> runtime_node" where
  "rnode i k ef cp tm = \<lparr>rn_id = i, rn_kind = k, rn_effect = ef, rn_checkpoint = Some cp,
     rn_terminal = tm\<rparr>"

definition redge :: "string \<Rightarrow> string \<Rightarrow> string \<Rightarrow> bool \<Rightarrow> runtime_edge" where
  "redge a b w l = \<lparr>re_from = a, re_to = b, re_when = w, re_loop = l\<rparr>"

definition productionKernelV3Graph :: execution_graph where
  "productionKernelV3Graph = \<lparr>
     g_version = ''kernel-v3-production-v3'',
     g_start = ''prepare-turn'',
     g_predicates = [''next'', ''final'', ''tools'', ''recover'', ''wait'', ''fatal'',
       ''tools_committed'', ''progress_checked'', ''checkpointed'', ''recovered''],
     g_nodes = [
       rnode ''prepare-turn'' ''prepare_turn'' ''state'' CpBoth False,
       rnode ''restore-task'' ''restore_task'' ''state'' CpBoth False,
       rnode ''build-context'' ''build_context'' ''pure'' CpAfter False,
       rnode ''invoke-model'' ''invoke_model'' ''model'' CpBoth False,
       rnode ''normalize-proposal'' ''normalize_proposal'' ''pure'' CpAfter False,
       rnode ''account-model'' ''account_model'' ''state'' CpBoth False,
       rnode ''evaluate'' ''evaluate'' ''state'' CpAfter False,
       rnode ''commit-assistant'' ''commit_assistant'' ''state'' CpBoth True,
       rnode ''materialize-proposal'' ''materialize_proposal'' ''state'' CpBoth False,
       rnode ''prepare-tools'' ''prepare_tools'' ''state'' CpBoth False,
       rnode ''commit-tools'' ''commit_tools'' ''tool'' CpBoth False,
       rnode ''project-progress'' ''project_progress'' ''state'' CpBoth False,
       rnode ''govern-progress'' ''govern_progress'' ''state'' CpBoth False,
       rnode ''progress-checkpoint'' ''progress_checkpoint'' ''state'' CpBoth False,
       rnode ''recover-context'' ''recover_context'' ''state'' CpBoth False,
       rnode ''wait-user'' ''wait_user'' ''state'' CpBoth True,
       rnode ''fail'' ''fail'' ''state'' CpBoth True],
     g_edges = [
       redge ''prepare-turn'' ''restore-task'' ''next'' False,
       redge ''restore-task'' ''build-context'' ''next'' False,
       redge ''build-context'' ''invoke-model'' ''next'' False,
       redge ''invoke-model'' ''recover-context'' ''recover'' False,
       redge ''invoke-model'' ''normalize-proposal'' ''next'' False,
       redge ''normalize-proposal'' ''account-model'' ''next'' False,
       redge ''account-model'' ''evaluate'' ''next'' False,
       redge ''evaluate'' ''commit-assistant'' ''final'' False,
       redge ''evaluate'' ''materialize-proposal'' ''tools'' False,
       redge ''evaluate'' ''recover-context'' ''recover'' False,
       redge ''evaluate'' ''wait-user'' ''wait'' False,
       redge ''evaluate'' ''fail'' ''fatal'' False,
       redge ''materialize-proposal'' ''prepare-tools'' ''next'' False,
       redge ''prepare-tools'' ''commit-tools'' ''next'' False,
       redge ''commit-tools'' ''project-progress'' ''tools_committed'' False,
       redge ''project-progress'' ''govern-progress'' ''next'' False,
       redge ''govern-progress'' ''build-context'' ''progress_checked'' True,
       redge ''progress-checkpoint'' ''build-context'' ''checkpointed'' True,
       redge ''recover-context'' ''build-context'' ''recovered'' True]\<rparr>"

section \<open>Nodes a search leaves\<close>

fun postorder :: "execution_graph \<Rightarrow> string list \<Rightarrow> bool" where
  "postorder g [] = True"
| "postorder g (v # vs) = (re_to ` set (adjacency g v) \<subseteq> set vs \<and> postorder g vs)"

definition edge_rel :: "execution_graph \<Rightarrow> (string \<times> string) set" where
  "edge_rel g = {(re_from e, re_to e) |e. e \<in> set (g_edges g)}"

definition unmarked_rel :: "execution_graph \<Rightarrow> (string \<times> string) set" where
  "unmarked_rel g = {(re_from e, re_to e) |e. e \<in> set (g_edges g) \<and> \<not> re_loop e}"

lemma adjacency_subset: "set (adjacency g n) \<subseteq> set (g_edges g)"
  by (auto simp: adjacency_def)

lemma visit_edges_postorder:
  assumes "visit_edges g sn se es vs = Inr vs'"
    and "\<forall>e \<in> set (g_edges g). \<not> re_loop e" "\<forall>e \<in> set es. \<not> re_loop e" "\<forall>e \<in> set se. \<not> re_loop e"
    and "postorder g vs"
  shows "postorder g vs' \<and> set vs \<subseteq> set vs' \<and> re_to ` set es \<subseteq> set vs'"
  using assms
proof (induction g sn se es vs arbitrary: vs' rule: visit_edges.induct)
  case (1 g sn se vs)
  then show ?case by simp
next
  case (2 g sn se e es vs)
  have "\<not> list_ex re_loop (drop (last_index_of sn (re_to e)) se @ [e])"
    using "2.prems"(3,4) by (auto simp: list_ex_iff dest: in_set_dropD)
  then have not_open: "re_to e \<notin> set sn" using "2.prems"(1) by (auto simp: Let_def)
  show ?case
  proof (cases "re_to e \<in> set vs")
    case True
    with "2.IH"(2) [OF not_open True] "2.prems" not_open show ?thesis by auto
  next
    case False
    obtain ws where ws: "visit_edges g (sn @ [re_to e]) (se @ [e]) (adjacency g (re_to e)) vs = Inr ws"
      and rest: "visit_edges g sn se es (re_to e # ws) = Inr vs'"
      using "2.prems"(1) not_open False by (auto split: sum.splits)
    have adj: "\<forall>x \<in> set (adjacency g (re_to e)). \<not> re_loop x"
      using "2.prems"(2) adjacency_subset by blast
    have stk: "\<forall>x \<in> set (se @ [e]). \<not> re_loop x" using "2.prems"(3,4) by simp
    have inner: "postorder g ws \<and> set vs \<subseteq> set ws \<and> re_to ` set (adjacency g (re_to e)) \<subseteq> set ws"
      by (rule "2.IH"(3) [OF not_open False ws "2.prems"(2) adj stk "2.prems"(5)])
    then have post: "postorder g (re_to e # ws)" by simp
    have "postorder g vs' \<and> set (re_to e # ws) \<subseteq> set vs' \<and> re_to ` set es \<subseteq> set vs'"
      by (rule "2.IH"(4) [OF not_open False ws rest "2.prems"(2) _ "2.prems"(4) post])
        (use "2.prems"(3) in simp)
    with inner show ?thesis by auto
  qed
qed

lemma cycle_fold_postorder:
  assumes "fold_result (\<lambda>n vs. if rn_id n \<in> set vs then Inr vs else visit_node g (rn_id n) vs) ns vs
      = Inr vs'"
    and "\<forall>e \<in> set (g_edges g). \<not> re_loop e" and "postorder g vs"
  shows "postorder g vs' \<and> set vs \<subseteq> set vs' \<and> rn_id ` set ns \<subseteq> set vs'"
  using assms
proof (induction ns arbitrary: vs)
  case Nil
  then show ?case by simp
next
  case (Cons n ns)
  let ?n = "rn_id n"
  obtain ws where ws: "(if ?n \<in> set vs then Inr vs else visit_node g ?n vs) = Inr ws"
    and rest: "fold_result (\<lambda>n vs. if rn_id n \<in> set vs then Inr vs else visit_node g (rn_id n) vs) ns ws
      = Inr vs'"
    using Cons.prems(1) by (auto simp: result_simps)
  have "postorder g ws \<and> set vs \<subseteq> set ws \<and> ?n \<in> set ws"
  proof (cases "?n \<in> set vs")
    case True
    with ws Cons.prems show ?thesis by simp
  next
    case False
    then obtain us where us: "visit_edges g [?n] [] (adjacency g ?n) vs = Inr us" "ws = ?n # us"
      using ws by (auto simp: visit_node_def split: sum.splits)
    have "\<forall>x \<in> set (adjacency g ?n). \<not> re_loop x" using Cons.prems(2) adjacency_subset by blast
    then show ?thesis using visit_edges_postorder [OF us(1)] Cons.prems us(2) by auto
  qed
  then show ?case using Cons.IH [OF rest] Cons.prems(2) by auto
qed

lemma postorder_closed:
  assumes "postorder g vs" and "\<forall>e \<in> set (g_edges g). re_from e \<in> rn_id ` set (g_nodes g)"
    and "(x, y) \<in> (edge_rel g)\<^sup>+" and "x \<in> set vs"
  shows "y \<in> set vs"
proof -
  have step: "b \<in> set vs" if "(a, b) \<in> edge_rel g" "a \<in> set vs" for a b
    using that assms(1,2) by (induction vs) (auto simp: edge_rel_def adjacency_def)
  show ?thesis using assms(3,4) by (induction rule: trancl_induct) (auto intro: step)
qed

lemma postorder_acyclic:
  assumes "postorder g vs" and decl: "\<forall>e \<in> set (g_edges g). re_from e \<in> rn_id ` set (g_nodes g)"
    and "x \<in> set vs"
  shows "(x, x) \<notin> (edge_rel g)\<^sup>+"
  using assms(1,3)
proof (induction vs)
  case Nil
  then show ?case by simp
next
  case (Cons v vs)
  show ?case
  proof (cases "x \<in> set vs")
    case True
    with Cons show ?thesis by simp
  next
    case False
    then have "x = v" using Cons.prems by simp
    show ?thesis
    proof
      assume "(x, x) \<in> (edge_rel g)\<^sup>+"
      then obtain y where y: "(x, y) \<in> edge_rel g" "(y, x) \<in> (edge_rel g)\<^sup>*"
        by (auto dest: tranclD)
      from y(1) have "y \<in> set vs"
        using Cons.prems(1) decl \<open>x = v\<close> by (auto simp: edge_rel_def adjacency_def)
      with y(2) have "x \<in> set vs"
        using postorder_closed [OF _ decl, of vs y x] Cons.prems(1) by (auto simp: rtrancl_eq_or_trancl)
      with False show False ..
    qed
  qed
qed

section \<open>Errors name a cycle\<close>

definition follows :: "runtime_edge \<Rightarrow> runtime_edge \<Rightarrow> bool" where
  "follows a b = (re_to a = re_from b)"

definition closed_walk :: "runtime_edge list \<Rightarrow> bool" where
  "closed_walk es = (es \<noteq> [] \<and> successively follows es \<and> re_to (last es) = re_from (hd es))"

definition stacks :: "string list \<Rightarrow> runtime_edge list \<Rightarrow> bool" where
  "stacks sn se = (\<exists>r. sn = r # map re_to se \<and> (se \<noteq> [] \<longrightarrow> r = re_from (hd se)) \<and> successively follows se)"

lemma last_index_of_nth: "x \<in> set xs \<Longrightarrow> last_index_of xs x < length xs \<and> xs ! last_index_of xs x = x"
  by (induction xs) auto

lemma stacks_from: "stacks sn se \<Longrightarrow> k < length se \<Longrightarrow> re_from (se ! k) = sn ! k"
  by (cases k) (auto simp: stacks_def hd_conv_nth successively_conv_nth follows_def)

lemma stacks_last: "stacks sn se \<Longrightarrow> sn ! length se = last sn \<and> length sn = Suc (length se)"
  by (auto simp: stacks_def last_conv_nth)

lemma successively_drop: "successively P xs \<Longrightarrow> successively P (drop k xs)"
  by (auto simp: successively_conv_nth)

lemma stacks_walk:
  assumes "stacks sn se" and "re_from e = last sn"
  shows "successively follows (se @ [e])"
  using assms by (cases "se = []") (auto simp: stacks_def successively_append_iff follows_def last_map)

lemma stacks_push:
  assumes "stacks sn se" and "re_from e = last sn"
  shows "stacks (sn @ [re_to e]) (se @ [e])"
  using assms stacks_walk [OF assms]
  by (cases "se = []") (auto simp: stacks_def hd_append)

lemma stacks_cycle:
  assumes "stacks sn se" and "re_from e = last sn" and "re_to e \<in> set sn"
  shows "closed_walk (drop (last_index_of sn (re_to e)) se @ [e])"
proof -
  let ?k = "last_index_of sn (re_to e)"
  have k: "?k < length sn" "sn ! ?k = re_to e" using last_index_of_nth [OF assms(3)] by auto
  note len = stacks_last [OF assms(1)]
  have "drop ?k se @ [e] = drop ?k (se @ [e])" using k len by simp
  then have "successively follows (drop ?k se @ [e])"
    using successively_drop [OF stacks_walk [OF assms(1,2)]] by metis
  moreover have "re_from (hd (drop ?k se @ [e])) = re_to e"
  proof (cases "?k < length se")
    case True
    then show ?thesis using stacks_from [OF assms(1) True] k by (simp add: hd_append hd_drop_conv_nth)
  next
    case False
    then have "?k = length se" using k len by simp
    then show ?thesis using k len assms(2) by simp
  qed
  ultimately show ?thesis by (simp add: closed_walk_def)
qed

lemma visit_edges_error:
  assumes "visit_edges g sn se es vs = Inl m"
    and "stacks sn se" and "\<forall>e \<in> set es. re_from e = last sn"
    and "set se \<subseteq> set (g_edges g)" and "set es \<subseteq> set (g_edges g)"
  shows "\<exists>c. m = cycle_message c \<and> closed_walk c \<and> set c \<subseteq> set (g_edges g) \<and> (\<forall>e \<in> set c. \<not> re_loop e)"
  using assms
proof (induction g sn se es vs rule: visit_edges.induct)
  case (1 g sn se vs)
  then show ?case by simp
next
  case (2 g sn se e es vs)
  let ?c = "drop (last_index_of sn (re_to e)) se @ [e]"
  show ?case
  proof (cases "re_to e \<in> set sn")
    case True
    show ?thesis
    proof (cases "list_ex re_loop ?c")
      case loop: True
      with 2 True show ?thesis by simp
    next
      case False
      then have "m = cycle_message ?c" using "2.prems"(1) True by simp
      moreover have "closed_walk ?c" using stacks_cycle "2.prems" True by simp
      moreover have "set ?c \<subseteq> set (g_edges g)" using "2.prems" by (auto dest: in_set_dropD)
      ultimately show ?thesis using False by (auto simp: list_ex_iff intro!: exI [of _ ?c])
    qed
  next
    case closed: False
    show ?thesis
    proof (cases "re_to e \<in> set vs")
      case True
      with 2 closed show ?thesis by simp
    next
      case False
      have st: "stacks (sn @ [re_to e]) (se @ [e])" using stacks_push "2.prems" by simp
      have adj: "set (adjacency g (re_to e)) \<subseteq> set (g_edges g)"
        "\<forall>x \<in> set (adjacency g (re_to e)). re_from x = last (sn @ [re_to e])"
        by (auto simp: adjacency_def)
      show ?thesis
      proof (cases "visit_edges g (sn @ [re_to e]) (se @ [e]) (adjacency g (re_to e)) vs")
        case (Inl m')
        then have "m' = m" using "2.prems"(1) closed False by simp
        with "2.IH"(3) closed False st adj "2.prems" Inl show ?thesis by simp
      next
        case (Inr ws)
        with "2.IH"(4) [OF closed False Inr] closed False "2.prems" show ?thesis by simp
      qed
    qed
  qed
qed

lemma closed_walk_trancl:
  assumes "closed_walk es" and "set es \<subseteq> set (g_edges g)" and "\<forall>e \<in> set es. \<not> re_loop e"
  shows "(re_from (hd es), re_from (hd es)) \<in> (unmarked_rel g)\<^sup>+"
proof -
  have "(re_from (hd es), re_to (last es)) \<in> (unmarked_rel g)\<^sup>+"
    if "es \<noteq> []" "successively follows es" "set es \<subseteq> set (g_edges g)" "\<forall>e \<in> set es. \<not> re_loop e"
    for es
    using that
  proof (induction es rule: induct_list012)
    case (2 e)
    then show ?case by (auto simp: unmarked_rel_def)
  next
    case (3 a b es)
    have "(re_from a, re_from b) \<in> unmarked_rel g"
      using 3 by (auto simp: unmarked_rel_def follows_def)
    with 3 show ?case by (auto intro: trancl_into_trancl2)
  qed simp
  from this [of es] assms show ?thesis by (simp add: closed_walk_def)
qed

section \<open>What validation promises\<close>

lemma node_ids_step_Inr:
  "node_ids_step n ids = Inr ids' \<longleftrightarrow>
     trim (rn_id n) \<noteq> [] \<and> rn_id n \<notin> set ids \<and> ids' = ids @ [rn_id n]"
  by (auto simp: node_ids_step_def)

lemma node_ids_fold:
  assumes "fold_result node_ids_step ns ids = Inr ids'"
  shows "ids' = ids @ map rn_id ns \<and> (distinct ids \<longrightarrow> distinct (ids @ map rn_id ns))"
proof -
  have eq: "ids' = ids @ map rn_id ns"
    using assms
  proof (induction ns arbitrary: ids)
    case (Cons n ns)
    then have "fold_result node_ids_step ns (ids @ [rn_id n]) = Inr ids'"
      by (auto simp: result_simps node_ids_step_Inr)
    from Cons.IH [OF this] show ?case by simp
  qed simp
  have "distinct ids'" if "distinct ids"
    using assms that by (rule fold_result_invariant) (auto simp: node_ids_step_Inr)
  with eq show ?thesis by blast
qed

lemma edge_check_fold:
  "fold_result (edge_check ids preds) es u = Inr w \<Longrightarrow>
    \<forall>e \<in> set es. re_from e \<in> set ids \<and> re_to e \<in> set ids \<and> edge_predicate (re_when e) \<in> set preds"
  by (induction es arbitrary: u) (auto simp: result_simps edge_check_def split: if_splits)

lemma validate_inversion:
  assumes "validateExecutionGraph g = Inr g'"
  shows "g' = g" and "distinct (map rn_id (g_nodes g))" and "g_start g \<in> rn_id ` set (g_nodes g)"
    and "\<forall>e \<in> set (g_edges g). re_from e \<in> rn_id ` set (g_nodes g) \<and> re_to e \<in> rn_id ` set (g_nodes g)"
    and "cycleError g = None"
  using assms
  by (auto simp: validateExecutionGraph_def result_simps
      dest!: node_ids_fold edge_check_fold split: if_splits option.splits)

text \<open>
  C22. Soundness of graph validation: a graph that \<open>validateExecutionGraph\<close> accepts is returned
  unchanged, its node ids are distinct, the start node and both ends of every edge are declared, and
  when no edge carries the loop mark the graph has no cycle at all.
\<close>

theorem accepted_graph_acyclic:
  assumes "validateExecutionGraph g = Inr g'"
  shows "g' = g \<and> distinct (map rn_id (g_nodes g)) \<and> g_start g \<in> rn_id ` set (g_nodes g)
    \<and> edge_rel g \<subseteq> rn_id ` set (g_nodes g) \<times> rn_id ` set (g_nodes g)
    \<and> (list_all (\<lambda>e. \<not> re_loop e) (g_edges g) \<longrightarrow> acyclic (edge_rel g))"
proof (intro conjI impI)
  note inv = validate_inversion [OF assms]
  show "g' = g" "distinct (map rn_id (g_nodes g))" "g_start g \<in> rn_id ` set (g_nodes g)"
    using inv by auto
  show "edge_rel g \<subseteq> rn_id ` set (g_nodes g) \<times> rn_id ` set (g_nodes g)"
    using inv(4) by (auto simp: edge_rel_def)
  assume "list_all (\<lambda>e. \<not> re_loop e) (g_edges g)"
  then have unmarked: "\<forall>e \<in> set (g_edges g). \<not> re_loop e" by (simp add: list_all_iff)
  obtain vs where vs: "cycle_search g = Inr vs"
    using inv(5) by (auto simp: cycleError_def split: sum.splits)
  have post: "postorder g vs \<and> set [] \<subseteq> set vs \<and> rn_id ` set (g_nodes g) \<subseteq> set vs"
    using cycle_fold_postorder [OF vs [unfolded cycle_search_def] unmarked] by simp
  show "acyclic (edge_rel g)"
  proof (rule acyclicI, rule allI)
    fix x
    show "(x, x) \<notin> (edge_rel g)\<^sup>+"
    proof
      assume cyc: "(x, x) \<in> (edge_rel g)\<^sup>+"
      then obtain y where "(x, y) \<in> edge_rel g" by (auto dest: tranclD)
      then have "x \<in> set vs" using inv(4) post by (auto simp: edge_rel_def)
      with postorder_acyclic [of g vs x] post inv(4) cyc show False by blast
    qed
  qed
qed

definition two_step_graph :: execution_graph where
  "two_step_graph = \<lparr>g_version = ''v'', g_start = ''a'', g_predicates = [''next''],
     g_nodes = [rnode ''a'' ''k'' ''pure'' CpNone False, rnode ''b'' ''k'' ''pure'' CpNone True],
     g_edges = [redge ''a'' ''b'' ''next'' False]\<rparr>"

lemma two_step_graph_accepted: "validateExecutionGraph two_step_graph = Inr two_step_graph"
  by code_simp

theorem accepted_graph_acyclic_witness: "acyclic (edge_rel two_step_graph)"
  using accepted_graph_acyclic [OF two_step_graph_accepted]
  by (simp add: two_step_graph_def redge_def)

text \<open>
  Validation rejects no graph without reason: when the cycle check returns an error, the message
  lists the edges of a closed walk of the graph, and none of these edges carries the loop mark.
\<close>

theorem cycle_error_names_cycle:
  assumes "cycleError g = Some m"
  shows "\<exists>c. m = cycle_message c \<and> closed_walk c \<and> set c \<subseteq> set (g_edges g)
    \<and> (\<forall>e \<in> set c. \<not> re_loop e) \<and> \<not> acyclic (unmarked_rel g)"
proof -
  have err: "\<exists>c. m = cycle_message c \<and> closed_walk c \<and> set c \<subseteq> set (g_edges g) \<and> (\<forall>e \<in> set c. \<not> re_loop e)"
    if "fold_result (\<lambda>n vs. if rn_id n \<in> set vs then Inr vs else visit_node g (rn_id n) vs) ns vs = Inl m"
    for ns vs
    using that
  proof (induction ns arbitrary: vs)
    case (Cons n ns)
    have "stacks [rn_id n] []" by (simp add: stacks_def)
    with Cons show ?case
      by (auto simp: result_simps visit_node_def adjacency_def split: if_splits sum.splits
          dest!: visit_edges_error)
  qed simp
  have "cycle_search g = Inl m" using assms by (auto simp: cycleError_def split: sum.splits)
  from err [OF this [unfolded cycle_search_def]]
  obtain c where "m = cycle_message c" "closed_walk c" "set c \<subseteq> set (g_edges g)" "\<forall>e \<in> set c. \<not> re_loop e"
    by blast
  moreover from this have "\<not> acyclic (unmarked_rel g)"
    using closed_walk_trancl unfolding acyclic_def by blast
  ultimately show ?thesis by blast
qed

definition self_loop_graph :: execution_graph where
  "self_loop_graph = two_step_graph\<lparr>g_edges := [redge ''a'' ''b'' ''next'' False, redge ''b'' ''a'' ''next'' False]\<rparr>"

lemma self_loop_graph_error:
  "cycleError self_loop_graph = Some ''graph cycle requires loop edge: a->b, b->a''"
  by code_simp

theorem cycle_error_names_cycle_witness: "\<not> acyclic (unmarked_rel self_loop_graph)"
  using cycle_error_names_cycle [OF self_loop_graph_error] by blast

definition missed_cycle_graph :: execution_graph where
  "missed_cycle_graph = \<lparr>g_version = ''v'', g_start = ''A'', g_predicates = [''next''],
     g_nodes = map (\<lambda>n. rnode n ''k'' ''pure'' CpNone False) [''A'', ''B'', ''C''],
     g_edges = [redge ''A'' ''B'' ''next'' True, redge ''A'' ''C'' ''next'' False,
       redge ''C'' ''B'' ''next'' False, redge ''B'' ''A'' ''next'' False]\<rparr>"

lemma missed_cycle_graph_accepted: "validateExecutionGraph missed_cycle_graph = Inr missed_cycle_graph"
  by code_simp

text \<open>
  The cycle check is incomplete: it follows the search tree only, so a graph in which the cycle
  A -> C -> B -> A has no loop mark is accepted when B was first reached over a marked edge.
\<close>

theorem unmarked_cycle_accepted:
  "validateExecutionGraph missed_cycle_graph = Inr missed_cycle_graph
   \<and> \<not> acyclic (unmarked_rel missed_cycle_graph)"
proof -
  have "closed_walk [redge ''A'' ''C'' ''next'' False, redge ''C'' ''B'' ''next'' False,
      redge ''B'' ''A'' ''next'' False]"
    by (simp add: closed_walk_def follows_def redge_def)
  from closed_walk_trancl [OF this, of missed_cycle_graph] show ?thesis
    using missed_cycle_graph_accepted by (auto simp: missed_cycle_graph_def redge_def acyclic_def)
qed

text \<open>
  The graph of production passes validation; its terminal nodes have no outgoing edge, every
  other node has one, and under each registered condition at most one edge leaves a node, so the
  kernel's choice of the next node is never ambiguous on it.
\<close>

theorem production_graph_sound:
  "validateExecutionGraph productionKernelV3Graph = Inr productionKernelV3Graph
   \<and> list_all (\<lambda>n. rn_terminal n = list_all (\<lambda>e. re_from e \<noteq> rn_id n) (g_edges productionKernelV3Graph))
       (g_nodes productionKernelV3Graph)
   \<and> list_all (\<lambda>n. list_all (\<lambda>c. length (outgoingEdges productionKernelV3Graph (rn_id n) c) \<le> 1)
       (g_predicates productionKernelV3Graph)) (g_nodes productionKernelV3Graph)"
  by code_simp

end
