(* ===== verification/MiddlewareChain.thy ===== *)
theory MiddlewareChain
  imports Prelude
begin

text \<open>
  The middleware chain of \<open>loop/src/middleware-chain.ts\<close>: the constructor's topological sort of the
  middleware by their \<open>before\<close> and \<open>after\<close> anchors, stable in the order of registration, and \<open>run\<close>, which
  hands every applicable middleware a continuation for the rest of the chain.

  The while loop of the constructor terminates because a node enters the queue only when its
  indegree falls to zero. The lemmas state the loop's invariant (an indegree counts the anchors not
  yet emitted, the queue holds the nodes without such anchors), from which the order respects every
  anchor, and a rejected set of anchors is cyclic.
\<close>

record 'h chain_middleware =
  cm_id :: string
  cm_version :: nat
  cm_hooks :: "string list"
  cm_before :: "string list"
  cm_after :: "string list"
  cm_handle :: 'h

section \<open>Construction\<close>

type_synonym chain_tables = "(string, string list) jsmap \<times> (string, int) jsmap"

definition register_id :: "'h chain_middleware \<Rightarrow> string list \<Rightarrow> string list result" where
  "register_id m ids =
     (if cm_id m \<in> set ids then throw (''duplicate middleware: '' @ cm_id m) else Inr (ids @ [cm_id m]))"

definition addEdge :: "string list \<Rightarrow> string \<times> string \<Rightarrow> chain_tables \<Rightarrow> chain_tables result" where
  "addEdge ids ft tabs = (case ft of (f, t) \<Rightarrow> case tabs of (outs, ind) \<Rightarrow>
     if f \<notin> set ids then throw (''unknown middleware anchor: '' @ f)
     else if t \<notin> set ids then throw (''unknown middleware anchor: '' @ t)
     else if f = t then throw (''middleware anchor cycle: '' @ f)
     else if t \<in> set (get_or [] outs f) then Inr (outs, ind)
     else Inr (AList.update f (get_or [] outs f @ [t]) outs, AList.update t (get_or 0 ind t + 1) ind))"

text \<open>The anchors in the order the constructor adds them.\<close>

definition anchors :: "'h chain_middleware list \<Rightarrow> (string \<times> string) list" where
  "anchors ms = concat (map (\<lambda>m. map (\<lambda>t. (cm_id m, t)) (cm_before m) @ map (\<lambda>t. (t, cm_id m)) (cm_after m)) ms)"

text \<open>\<open>findIndex\<close> with its \<open>-1\<close>.\<close>

definition registration_index :: "string list \<Rightarrow> string \<Rightarrow> int" where
  "registration_index ids t = (case find_index (\<lambda>i. i = t) ids of None \<Rightarrow> - 1 | Some n \<Rightarrow> int n)"

definition insert_ready :: "string list \<Rightarrow> string \<Rightarrow> string list \<Rightarrow> string list" where
  "insert_ready ids t ready =
     (case find_index (\<lambda>c. registration_index ids t < registration_index ids c) ready of
        None \<Rightarrow> ready @ [t]
      | Some i \<Rightarrow> take i ready @ t # drop i ready)"

fun release_targets :: "string list \<Rightarrow> string list \<Rightarrow> (string, int) jsmap \<Rightarrow> string list
    \<Rightarrow> (string, int) jsmap \<times> string list" where
  "release_targets ids [] ind ready = (ind, ready)"
| "release_targets ids (t # ts) ind ready =
     (let n = get_or 0 ind t - 1;
          ind' = AList.update t n ind
      in release_targets ids ts ind' (if n = 0 then insert_ready ids t ready else ready))"

definition indegree_sum :: "(string, int) jsmap \<Rightarrow> nat" where
  "indegree_sum ind = sum_list (map (\<lambda>kv. nat (snd kv)) ind)"

lemma length_insert_ready [simp]: "length (insert_ready ids t ready) = Suc (length ready)"
  by (auto simp: insert_ready_def split: option.splits dest: find_index_Some)

lemma set_insert_ready [simp]: "set (insert_ready ids t ready) = insert t (set ready)"
proof -
  have "set (take i ready) \<union> set (drop i ready) = set ready" for i
    by (metis append_take_drop_id set_append)
  then show ?thesis by (auto simp: insert_ready_def split: option.splits)
qed

lemma distinct_insert_ready:
  "distinct ready \<Longrightarrow> t \<notin> set ready \<Longrightarrow> distinct (insert_ready ids t ready)"
  using set_take_subset [of _ ready] set_drop_subset [of _ ready]
  by (auto simp: insert_ready_def set_take_disj_set_drop_if_distinct split: option.splits)

lemma indegree_sum_update:
  "indegree_sum (AList.update t (get_or 0 ind t - 1) ind)
     + (if get_or 0 ind t = 1 then 1 else 0) \<le> indegree_sum ind"
  by (induction ind) (auto simp: indegree_sum_def get_or_def)

lemma release_targets_sum:
  "release_targets ids ts ind ready = (ind', ready') \<Longrightarrow>
     indegree_sum ind' + length ready' \<le> indegree_sum ind + length ready"
proof (induction ts arbitrary: ind ready)
  case Nil
  then show ?case by simp
next
  case (Cons t ts)
  from Cons.IH Cons.prems indegree_sum_update [of t ind] show ?case
    by (fastforce simp: Let_def split: if_splits)
qed

text \<open>The loop: \<open>while (ready.length)\<close> over the queue, the indegrees and the emitted order.\<close>

function emit_ready :: "string list \<Rightarrow> (string, string list) jsmap \<Rightarrow> (string, int) jsmap
    \<Rightarrow> string list \<Rightarrow> string list \<Rightarrow> string list" where
  "emit_ready ids outs ind [] order = order"
| "emit_ready ids outs ind (i # ready) order =
     (let r = release_targets ids (get_or [] outs i) ind ready
      in emit_ready ids outs (fst r) (snd r) (order @ [i]))"
  by pat_completeness auto
termination
proof (relation "measure (\<lambda>(ids, outs, ind, ready, order). indegree_sum ind + length ready)", goal_cases)
  case 1
  show ?case by simp
next
  case (2 ids outs ind i ready order r)
  then show ?case using release_targets_sum [of ids "get_or [] outs i" ind ready "fst r" "snd r"] by simp
qed

definition chain_tables :: "'h chain_middleware list \<Rightarrow> string list \<Rightarrow> chain_tables result" where
  "chain_tables ms ids = fold_result (addEdge ids) (anchors ms) (map (\<lambda>i. (i, [])) ids, map (\<lambda>i. (i, 0)) ids)"

definition find_middleware :: "'h chain_middleware list \<Rightarrow> string \<Rightarrow> 'h chain_middleware option" where
  "find_middleware ms i = List.find (\<lambda>m. cm_id m = i) ms"

definition middleware_chain :: "'h chain_middleware list \<Rightarrow> 'h chain_middleware list result" where
  "middleware_chain ms =
     bind_result (fold_result register_id ms []) (\<lambda>ids.
     bind_result (chain_tables ms ids) (\<lambda>tabs.
       let order = emit_ready ids (fst tabs) (snd tabs) (filter (\<lambda>i. get_or 0 (snd tabs) i = 0) ids) []
       in if length order \<noteq> length ms then throw ''middleware anchor cycle''
          else Inr (List.map_filter (find_middleware ms) order)))"

section \<open>Running a hook\<close>

text \<open>
  A handler takes the continuation, the context and the outside world \<open>'w\<close> and returns its result
  and the world; \<open>dispatch\<close> builds the continuation for the middleware from an index on, and a chain
  at its end returns the context it was given, as a result (\<open>ret\<close>).
\<close>

type_synonym ('c, 'r, 'w) hook_run = "'c \<Rightarrow> 'w \<Rightarrow> 'r result \<times> 'w"
type_synonym ('c, 'r, 'w) hook_handle = "('c, 'r, 'w) hook_run \<Rightarrow> ('c, 'r, 'w) hook_run"

fun dispatch :: "('c \<Rightarrow> 'r) \<Rightarrow> ('c, 'r, 'w) hook_handle chain_middleware list \<Rightarrow> ('c, 'r, 'w) hook_run" where
  "dispatch ret [] c w = (Inr (ret c), w)"
| "dispatch ret (m # ms) c w = cm_handle m (dispatch ret ms) c w"

definition applicable :: "string \<Rightarrow> 'h chain_middleware list \<Rightarrow> 'h chain_middleware list" where
  "applicable hook ms = filter (\<lambda>m. hook \<in> set (cm_hooks m)) ms"

definition run_hook :: "('c \<Rightarrow> 'r) \<Rightarrow> ('c, 'r, 'w) hook_handle chain_middleware list \<Rightarrow> string
    \<Rightarrow> ('c, 'r, 'w) hook_run" where
  "run_hook ret ms hook = dispatch ret (applicable hook ms)"

section \<open>The tables\<close>

definition tables_hold :: "(string \<times> string) set \<Rightarrow> chain_tables \<Rightarrow> bool" where
  "tables_hold D tabs = (finite D
     \<and> (\<forall>a. distinct (get_or [] (fst tabs) a) \<and> set (get_or [] (fst tabs) a) = {b. (a, b) \<in> D})
     \<and> (\<forall>t. get_or 0 (snd tabs) t = int (card {a. (a, t) \<in> D})))"

lemma get_or_const: "get_or c (map (\<lambda>i. (i, c)) ids) a = c"
  by (induction ids) (auto simp: get_or_def)

lemma tables_hold_finite: "tables_hold D tabs \<Longrightarrow> finite D"
  by (simp add: tables_hold_def)

lemma finite_preds: "finite D \<Longrightarrow> finite {a. (a, t) \<in> D}"
  by (rule finite_subset [of _ "fst ` D"]) (auto intro: rev_image_eqI)

lemma addEdge_hold:
  assumes "tables_hold D tabs" and "addEdge ids ft tabs = Inr tabs'"
  shows "tables_hold (insert ft D) tabs' \<and> fst ft \<in> set ids \<and> snd ft \<in> set ids \<and> fst ft \<noteq> snd ft"
proof -
  obtain f t where ft: "ft = (f, t)" by force
  have fin: "finite {a. (a, t) \<in> D}" by (rule finite_preds [OF tables_hold_finite [OF assms(1)]])
  show ?thesis
  proof (cases "(f, t) \<in> D")
    case True
    then have "t \<in> set (get_or [] (fst tabs) f)" using assms(1) by (simp add: tables_hold_def)
    then have "tabs' = tabs" "f \<in> set ids" "t \<in> set ids" "f \<noteq> t"
      using assms(2) by (auto simp: addEdge_def ft split: if_splits prod.splits)
    with assms(1) ft True show ?thesis by (simp add: insert_absorb)
  next
    case False
    then have "t \<notin> set (get_or [] (fst tabs) f)" using assms(1) by (simp add: tables_hold_def)
    then have eq: "tabs' = (AList.update f (get_or [] (fst tabs) f @ [t]) (fst tabs),
        AList.update t (get_or 0 (snd tabs) t + 1) (snd tabs))" "f \<in> set ids" "t \<in> set ids" "f \<noteq> t"
      using assms(2) by (auto simp: addEdge_def ft split: if_splits prod.splits)
    have "{a. (a, t) \<in> insert (f, t) D} = insert f {a. (a, t) \<in> D}" by auto
    then have "card {a. (a, t) \<in> insert (f, t) D} = Suc (card {a. (a, t) \<in> D})"
      using fin False by simp
    moreover have "{a. (a, u) \<in> insert (f, t) D} = {a. (a, u) \<in> D}" if "u \<noteq> t" for u using that by auto
    ultimately have "tables_hold (insert (f, t) D) tabs'"
      using assms(1) False unfolding tables_hold_def eq(1) by auto
    with eq ft show ?thesis by simp
  qed
qed

lemma addEdge_fold_hold:
  assumes "fold_result (addEdge ids) es tabs = Inr tabs'" and "tables_hold D tabs"
  shows "tables_hold (D \<union> set es) tabs' \<and> set es \<subseteq> set ids \<times> set ids"
  using assms
proof (induction es arbitrary: tabs D)
  case Nil
  then show ?case by simp
next
  case (Cons e es)
  then obtain tabs1 where 1: "addEdge ids e tabs = Inr tabs1" and 2: "fold_result (addEdge ids) es tabs1 = Inr tabs'"
    by (auto simp: result_simps)
  note hold = addEdge_hold [OF Cons.prems(2) 1]
  from Cons.IH [OF 2] hold have "tables_hold (insert e D \<union> set es) tabs' \<and> set es \<subseteq> set ids \<times> set ids"
    by blast
  with hold show ?case by (cases e) simp
qed

lemma chain_tables_hold:
  assumes "chain_tables ms ids = Inr tabs"
  shows "tables_hold (set (anchors ms)) tabs \<and> set (anchors ms) \<subseteq> set ids \<times> set ids"
proof -
  have "tables_hold {} (map (\<lambda>i. (i, [])) ids, map (\<lambda>i. (i, 0)) ids)"
    by (simp add: tables_hold_def get_or_const)
  from addEdge_fold_hold [OF assms [unfolded chain_tables_def] this] show ?thesis by simp
qed

section \<open>The loop's invariant\<close>

definition waiting :: "(string \<times> string) set \<Rightarrow> string list \<Rightarrow> string \<Rightarrow> string set" where
  "waiting D order t = {a. (a, t) \<in> D} - set order"

definition emit_inv :: "(string \<times> string) set \<Rightarrow> string list \<Rightarrow> (string, int) jsmap
    \<Rightarrow> string list \<Rightarrow> string list \<Rightarrow> bool" where
  "emit_inv D ids ind ready order =
     (distinct (order @ ready) \<and> set (order @ ready) \<subseteq> set ids
      \<and> (\<forall>t \<in> set ids. get_or 0 ind t = int (card (waiting D order t)))
      \<and> (\<forall>t \<in> set ids - set order. t \<in> set ready \<longleftrightarrow> waiting D order t = {})
      \<and> (\<forall>i < length order. waiting D (take i order) (order ! i) = {}))"

lemma release_targets_effect:
  assumes "distinct ts" and "release_targets ids ts ind ready = (ind', ready')"
    and "distinct ready" and "\<forall>t \<in> set ts. get_or 0 ind t = 1 \<longrightarrow> t \<notin> set ready"
  shows "(\<forall>t. get_or 0 ind' t = get_or 0 ind t - (if t \<in> set ts then 1 else 0))
    \<and> set ready' = set ready \<union> {t \<in> set ts. get_or 0 ind t = 1} \<and> distinct ready'"
  using assms
proof (induction ts arbitrary: ind ready)
  case Nil
  then show ?case by simp
next
  case (Cons t ts)
  let ?n = "get_or 0 ind t - 1" and ?ind = "AList.update t (get_or 0 ind t - 1) ind"
  let ?r = "if ?n = 0 then insert_ready ids t ready else ready"
  have run: "release_targets ids ts ?ind ?r = (ind', ready')" using Cons.prems(2) by (simp add: Let_def)
  have dist: "distinct ?r" using Cons.prems by (auto intro: distinct_insert_ready)
  have fresh: "\<forall>u \<in> set ts. get_or 0 ?ind u = 1 \<longrightarrow> u \<notin> set ?r" using Cons.prems by auto
  from Cons.IH [OF _ run dist fresh] Cons.prems(1) show ?case by auto
qed

lemma emit_inv_step:
  assumes "emit_inv D ids ind (i # ready) order" and "finite D" and "distinct outs_i"
    and "set outs_i = {t. (i, t) \<in> D}" and "D \<subseteq> set ids \<times> set ids"
    and "release_targets ids outs_i ind ready = (ind', ready')"
  shows "emit_inv D ids ind' ready' (order @ [i])"
proof -
  have inv: "distinct (order @ i # ready)" "set (order @ i # ready) \<subseteq> set ids"
    "\<And>t. t \<in> set ids \<Longrightarrow> get_or 0 ind t = int (card (waiting D order t))"
    "\<And>t. t \<in> set ids \<Longrightarrow> t \<notin> set order \<Longrightarrow> t \<in> set (i # ready) \<longleftrightarrow> waiting D order t = {}"
    "\<And>k. k < length order \<Longrightarrow> waiting D (take k order) (order ! k) = {}"
    using assms(1) by (auto simp: emit_inv_def)
  have fin: "finite (waiting D order t)" for t
    using finite_preds [OF assms(2)] by (simp add: waiting_def)
  have next_waiting: "waiting D (order @ [i]) t = waiting D order t - {i}" for t
    by (auto simp: waiting_def)
  have fin_next: "finite (waiting D (order @ [i]) t)" for t
    using fin [of t] by (simp add: next_waiting)
  have i_waits: "i \<in> waiting D order t \<longleftrightarrow> t \<in> set outs_i" for t
    using inv(1) assms(4) by (auto simp: waiting_def)
  have outs_ids: "set outs_i \<subseteq> set ids" using assms(4,5) by auto
  have not_done: "t \<notin> set order" if "t \<in> set outs_i" for t
  proof
    assume "t \<in> set order"
    then obtain k where k: "k < length order" "order ! k = t" by (auto simp: in_set_conv_nth)
    with inv(5) [of k] that assms(4) have "i \<in> set (take k order)" by (auto simp: waiting_def)
    with inv(1) show False by (auto dest: in_set_takeD)
  qed
  have fresh: "\<forall>t \<in> set outs_i. get_or 0 ind t = 1 \<longrightarrow> t \<notin> set ready"
  proof (intro ballI impI)
    fix t assume "t \<in> set outs_i"
    then have "waiting D order t \<noteq> {}" using i_waits by auto
    with \<open>t \<in> set outs_i\<close> inv(4) [of t] not_done outs_ids show "t \<notin> set ready" by auto
  qed
  have rel: "\<And>t. get_or 0 ind' t = get_or 0 ind t - (if t \<in> set outs_i then 1 else 0)"
    "set ready' = set ready \<union> {t \<in> set outs_i. get_or 0 ind t = 1}" "distinct ready'"
    using release_targets_effect [OF assms(3,6) _ fresh] inv(1) by auto
  have card_next: "card (waiting D (order @ [i]) t) = card (waiting D order t) - (if t \<in> set outs_i then 1 else 0)" for t
    using i_waits [of t] by (simp add: next_waiting)
  have pos: "0 < card (waiting D order t)" if "t \<in> set outs_i" for t
    using i_waits [of t] that fin [of t] by (auto simp: card_gt_0_iff)
  have one: "t \<in> set outs_i \<Longrightarrow> get_or 0 ind t = 1 \<longleftrightarrow> waiting D (order @ [i]) t = {}" for t
    using card_next [of t] pos [of t] inv(3) [of t] outs_ids card_0_eq [OF fin_next [of t]] by auto
  show ?thesis
    unfolding emit_inv_def
  proof (intro conjI ballI allI impI)
    have "i \<notin> set outs_i" using i_waits [of i] inv(4) [of i] inv(1,2) by auto
    then show "distinct ((order @ [i]) @ ready')" using inv(1) rel not_done by auto
    show "set ((order @ [i]) @ ready') \<subseteq> set ids" using inv(2) rel(2) outs_ids by auto
  next
    fix t assume "t \<in> set ids"
    with rel(1) [of t] inv(3) [of t] card_next [of t] pos [of t]
    show "get_or 0 ind' t = int (card (waiting D (order @ [i]) t))" by auto
  next
    fix t assume "t \<in> set ids - set (order @ [i])"
    then have t: "t \<in> set ids" "t \<notin> set order" "t \<noteq> i" by auto
    show "t \<in> set ready' \<longleftrightarrow> waiting D (order @ [i]) t = {}"
    proof (cases "t \<in> set outs_i")
      case True
      then have "t \<notin> set ready" using i_waits [of t] inv(4) [of t] t by auto
      with True rel(2) one [of t] show ?thesis by auto
    next
      case False
      then have "waiting D (order @ [i]) t = waiting D order t" using i_waits [of t] next_waiting by auto
      with False rel(2) inv(4) [of t] t show ?thesis by auto
    qed
  next
    fix k assume "k < length (order @ [i])"
    then consider "k < length order" | "k = length order" by fastforce
    then show "waiting D (take k (order @ [i])) ((order @ [i]) ! k) = {}"
    proof cases
      case 1
      with inv(5) show ?thesis by (simp add: nth_append)
    next
      case 2
      with inv(4) [of i] inv(1,2) show ?thesis by simp
    qed
  qed
qed

lemma emit_ready_inv:
  assumes "emit_inv D ids ind ready order" and "tables_hold D (outs, ind0)" and "D \<subseteq> set ids \<times> set ids"
  shows "\<exists>ind'. emit_inv D ids ind' [] (emit_ready ids outs ind ready order)"
  using assms
proof (induction ids outs ind ready order rule: emit_ready.induct)
  case (1 ids outs ind order)
  then show ?case by auto
next
  case (2 ids outs ind i ready order)
  let ?r = "release_targets ids (get_or [] outs i) ind ready"
  have "finite D" "distinct (get_or [] outs i)" "set (get_or [] outs i) = {t. (i, t) \<in> D}"
    using "2.prems"(2) by (auto simp: tables_hold_def)
  then have "emit_inv D ids (fst ?r) (snd ?r) (order @ [i])"
    using emit_inv_step [OF "2.prems"(1)] "2.prems"(3) by simp
  with "2.IH" [of ?r] "2.prems"(2,3) show ?case by (simp add: Let_def)
qed

lemma emit_inv_start:
  assumes "tables_hold D (outs, ind)" and "distinct ids"
  shows "emit_inv D ids ind (filter (\<lambda>i. get_or 0 ind i = 0) ids) []"
proof -
  have "get_or 0 ind t = 0 \<longleftrightarrow> {a. (a, t) \<in> D} = {}" for t
    using assms(1) card_0_eq [OF finite_preds [OF tables_hold_finite [OF assms(1)], of t]]
    unfolding tables_hold_def by auto
  with assms show ?thesis by (auto simp: emit_inv_def waiting_def tables_hold_def)
qed

lemma emit_inv_complete:
  assumes "emit_inv D ids ind [] order" and "finite D" and "D \<subseteq> set ids \<times> set ids" and "acyclic D"
  shows "set order = set ids"
proof (rule ccontr)
  assume "set order \<noteq> set ids"
  then obtain t where t: "t \<in> set ids - set order" using assms(1) by (auto simp: emit_inv_def)
  have "wf D" using assms(2,4) by (rule finite_acyclic_wf)
  then obtain z where z: "z \<in> set ids - set order" "\<And>y. (y, z) \<in> D \<Longrightarrow> y \<notin> set ids - set order"
    using t by (metis wfE_min)
  then have "waiting D order z \<noteq> {}" using assms(1) by (auto simp: emit_inv_def)
  with z(2) assms(3) show False by (auto simp: waiting_def)
qed

lemma emit_inv_before:
  assumes "emit_inv D ids ind [] order" and "(a, b) \<in> D" and "b \<in> set order"
  shows "\<exists>j < length order. \<exists>i < j. order ! i = a \<and> order ! j = b"
proof -
  obtain j where j: "j < length order" "order ! j = b" using assms(3) by (auto simp: in_set_conv_nth)
  then have "a \<in> set (take j order)" using assms(1,2) by (auto simp: emit_inv_def waiting_def)
  then obtain i where "i < j" "order ! i = a" by (auto simp: in_set_conv_nth)
  with j show ?thesis by blast
qed

section \<open>What the constructor promises\<close>

lemma register_id_Inr: "register_id m ids = Inr ids' \<longleftrightarrow> cm_id m \<notin> set ids \<and> ids' = ids @ [cm_id m]"
  by (auto simp: register_id_def)

lemma register_fold:
  assumes "fold_result register_id ms ids = Inr ids'"
  shows "ids' = ids @ map cm_id ms \<and> (distinct ids \<longrightarrow> distinct (ids @ map cm_id ms))"
proof -
  have eq: "ids' = ids @ map cm_id ms"
    using assms
  proof (induction ms arbitrary: ids)
    case (Cons m ms)
    then have "fold_result register_id ms (ids @ [cm_id m]) = Inr ids'"
      by (auto simp: result_simps register_id_Inr)
    from Cons.IH [OF this] show ?case by simp
  qed simp
  have "distinct ids'" if "distinct ids"
    using assms that by (rule fold_result_invariant) (auto simp: register_id_Inr)
  with eq show ?thesis by blast
qed

lemma register_Inr:
  "fold_result register_id ms [] = Inr ids \<Longrightarrow> ids = map cm_id ms \<and> distinct (map cm_id ms)"
  by (drule register_fold) simp

lemma find_middleware_mem:
  assumes "distinct (map cm_id ms)" and "m \<in> set ms"
  shows "find_middleware ms (cm_id m) = Some m"
  using assms by (induction ms) (auto simp: find_middleware_def)

lemma map_filter_find:
  assumes "set order \<subseteq> set (map cm_id ms)" and "distinct (map cm_id ms)"
  shows "map cm_id (List.map_filter (find_middleware ms) order) = order
    \<and> set (List.map_filter (find_middleware ms) order) \<subseteq> set ms"
  using assms(1)
proof (induction order)
  case Nil
  then show ?case by (simp add: List.map_filter_def)
next
  case (Cons i order)
  then obtain m where m: "m \<in> set ms" "cm_id m = i" by auto
  then have "find_middleware ms i = Some m" using find_middleware_mem [OF assms(2)] by blast
  with Cons m show ?case by (simp add: List.map_filter_simps)
qed

definition emitted :: "'h chain_middleware list \<Rightarrow> chain_tables \<Rightarrow> string list" where
  "emitted ms tabs = emit_ready (map cm_id ms) (fst tabs) (snd tabs)
     (filter (\<lambda>i. get_or 0 (snd tabs) i = 0) (map cm_id ms)) []"

lemma emitted_inv:
  assumes "distinct (map cm_id ms)" and "chain_tables ms (map cm_id ms) = Inr tabs"
  shows "\<exists>ind. emit_inv (set (anchors ms)) (map cm_id ms) ind [] (emitted ms tabs)"
    and "set (anchors ms) \<subseteq> set (map cm_id ms) \<times> set (map cm_id ms)"
proof -
  have hold: "tables_hold (set (anchors ms)) (fst tabs, snd tabs)"
    and sub: "set (anchors ms) \<subseteq> set (map cm_id ms) \<times> set (map cm_id ms)"
    using chain_tables_hold [OF assms(2)] by simp_all
  show "\<exists>ind. emit_inv (set (anchors ms)) (map cm_id ms) ind [] (emitted ms tabs)"
    unfolding emitted_def by (rule emit_ready_inv [OF emit_inv_start [OF hold assms(1)] hold sub])
  show "set (anchors ms) \<subseteq> set (map cm_id ms) \<times> set (map cm_id ms)" by (rule sub)
qed

lemma middleware_chain_emitted:
  assumes "distinct (map cm_id ms)" and "fold_result register_id ms [] = Inr (map cm_id ms)"
    and "chain_tables ms (map cm_id ms) = Inr tabs"
  shows "middleware_chain ms = (if length (emitted ms tabs) \<noteq> length ms then throw ''middleware anchor cycle''
      else Inr (List.map_filter (find_middleware ms) (emitted ms tabs)))"
  using assms by (simp add: middleware_chain_def emitted_def Let_def)

lemma middleware_chain_Inr:
  assumes "middleware_chain ms = Inr os"
  obtains tabs where "distinct (map cm_id ms)" and "chain_tables ms (map cm_id ms) = Inr tabs"
    and "length (emitted ms tabs) = length ms"
    and "os = List.map_filter (find_middleware ms) (emitted ms tabs)"
proof -
  obtain ids tabs where 1: "fold_result register_id ms [] = Inr ids" and 2: "chain_tables ms ids = Inr tabs"
    using assms by (auto simp: middleware_chain_def result_simps)
  with register_Inr have ids: "ids = map cm_id ms" "distinct (map cm_id ms)" by blast+
  note eq = middleware_chain_emitted [OF ids(2) 1 [unfolded ids(1)] 2 [unfolded ids(1)]]
  show ?thesis by (rule that [OF ids(2) 2 [unfolded ids(1)]]) (use assms eq in \<open>auto split: if_splits\<close>)
qed

lemma register_id_error: "register_id m ids = Inl e \<Longrightarrow> e \<noteq> Error ''middleware anchor cycle''"
  by (auto simp: register_id_def throw_def split: if_splits)

lemma addEdge_error: "addEdge ids ft tabs = Inl e \<Longrightarrow> e \<noteq> Error ''middleware anchor cycle''"
  by (auto simp: addEdge_def throw_def split: if_splits prod.splits)

text \<open>
  C23. The middleware chain is a permutation of the registered middleware in which every anchor is
  respected: for each \<open>before\<close> or \<open>after\<close> declaration the one that must come first stands earlier.
\<close>

theorem middleware_order_respects_anchors:
  assumes "middleware_chain ms = Inr os"
  shows "distinct (map cm_id os) \<and> set os = set ms \<and> length os = length ms
    \<and> (\<forall>(a, b) \<in> set (anchors ms). \<exists>j < length os. \<exists>i < j. cm_id (os ! i) = a \<and> cm_id (os ! j) = b)"
proof -
  obtain tabs where ms: "distinct (map cm_id ms)" and tabs: "chain_tables ms (map cm_id ms) = Inr tabs"
    and len: "length (emitted ms tabs) = length ms"
    and os: "os = List.map_filter (find_middleware ms) (emitted ms tabs)"
    using middleware_chain_Inr [OF assms] by blast
  obtain ind where inv: "emit_inv (set (anchors ms)) (map cm_id ms) ind [] (emitted ms tabs)"
    using emitted_inv(1) [OF ms tabs] by blast
  then have sub: "set (emitted ms tabs) \<subseteq> set (map cm_id ms)" and dist: "distinct (emitted ms tabs)"
    by (auto simp: emit_inv_def)
  have ids: "map cm_id os = emitted ms tabs" and mem: "set os \<subseteq> set ms"
    using map_filter_find [OF sub ms] os by auto
  have full: "set (emitted ms tabs) = set (map cm_id ms)"
    using card_subset_eq [OF _ sub] distinct_card [OF dist] distinct_card [OF ms] len by simp
  have len': "length os = length ms" using ids len by (metis length_map)
  moreover have "set os = set ms"
  proof (rule card_subset_eq [OF finite_set mem])
    have "distinct os" "distinct ms" using ms dist ids by (metis distinct_map)+
    then show "card (set os) = card (set ms)" using len' by (simp add: distinct_card)
  qed
  moreover have "\<exists>j < length os. \<exists>i < j. cm_id (os ! i) = a \<and> cm_id (os ! j) = b"
    if "(a, b) \<in> set (anchors ms)" for a b
  proof -
    have "b \<in> set (emitted ms tabs)" using that emitted_inv(2) [OF ms tabs] full by auto
    from emit_inv_before [OF inv that this]
    obtain i j where "j < length os" "i < j" "emitted ms tabs ! i = a" "emitted ms tabs ! j = b"
      using len len' by auto
    then show ?thesis using ids by (metis nth_map order.strict_trans)
  qed
  ultimately show ?thesis using ids dist by auto
qed

definition demo_middleware :: "string \<Rightarrow> string list \<Rightarrow> string list \<Rightarrow> unit chain_middleware" where
  "demo_middleware i b a = \<lparr>cm_id = i, cm_version = 1, cm_hooks = [''beforeNode''], cm_before = b,
     cm_after = a, cm_handle = ()\<rparr>"

definition demo_chain :: "unit chain_middleware list" where
  "demo_chain = [demo_middleware ''budget'' [] [''usage''], demo_middleware ''usage'' [] [],
     demo_middleware ''safety'' [''usage''] []]"

lemma demo_chain_order: "middleware_chain demo_chain = Inr
   [demo_middleware ''safety'' [''usage''] [], demo_middleware ''usage'' [] [],
    demo_middleware ''budget'' [] [''usage'']]"
  by code_simp

theorem middleware_order_respects_anchors_witness:
  "\<exists>os. middleware_chain demo_chain = Inr os \<and> length os = 3 \<and> set os = set demo_chain"
  using middleware_order_respects_anchors [OF demo_chain_order] demo_chain_order
  by (auto simp: demo_chain_def)

text \<open>
  Only cyclic anchors are rejected as a cycle: when the constructor fails with its cycle error at
  the end of the loop, the anchors contain a cycle.
\<close>

theorem anchor_cycle_error_sound:
  assumes "middleware_chain ms = Inl (Error ''middleware anchor cycle'')"
  shows "\<not> acyclic (set (anchors ms))"
proof
  assume acyc: "acyclic (set (anchors ms))"
  obtain ids where 1: "fold_result register_id ms [] = Inr ids"
    using assms register_id_error fold_result_Inl
    by (cases "fold_result register_id ms []") (fastforce simp: middleware_chain_def)+
  with register_Inr have ids: "ids = map cm_id ms" "distinct (map cm_id ms)" by blast+
  obtain tabs where 2: "chain_tables ms ids = Inr tabs"
    using assms 1 addEdge_error fold_result_Inl
    by (cases "chain_tables ms ids") (fastforce simp: middleware_chain_def chain_tables_def)+
  note tabs = 2 [unfolded ids(1)]
  have short: "length (emitted ms tabs) \<noteq> length ms"
    using assms middleware_chain_emitted [OF ids(2) 1 [unfolded ids(1)] tabs] by (auto split: if_splits)
  obtain ind where inv: "emit_inv (set (anchors ms)) (map cm_id ms) ind [] (emitted ms tabs)"
    using emitted_inv(1) [OF ids(2) tabs] by blast
  have "set (emitted ms tabs) = set (map cm_id ms)"
    by (rule emit_inv_complete [OF inv _ emitted_inv(2) [OF ids(2) tabs] acyc]) simp
  moreover have "distinct (emitted ms tabs)" using inv by (simp add: emit_inv_def)
  ultimately show False using short ids(2) by (metis distinct_card length_map)
qed

definition demo_cycle :: "unit chain_middleware list" where
  "demo_cycle = [demo_middleware ''a'' [''b''] [], demo_middleware ''b'' [''a''] []]"

lemma demo_cycle_error: "middleware_chain demo_cycle = Inl (Error ''middleware anchor cycle'')"
  by code_simp

theorem anchor_cycle_error_sound_witness: "\<not> acyclic (set (anchors demo_cycle))"
  by (rule anchor_cycle_error_sound [OF demo_cycle_error])

text \<open>A middleware that is not registered for a hook has no influence on the hook's run.\<close>

lemma run_hook_inapplicable:
  "hook \<notin> set (cm_hooks m) \<Longrightarrow> run_hook ret (as @ m # bs) hook = run_hook ret (as @ bs) hook"
  by (simp add: run_hook_def applicable_def)

end
