(* ===== verification/LeaseTable.thy ===== *)
theory LeaseTable
  imports Prelude Complex_Main
begin

text \<open>
  Fenced leases. Two stores of \<open>adapters/adapter-storage/src\<close> keep the same table of leases with the
  same code: \<open>in-memory-run-state-store.ts\<close> (keyed by a run's scope key) and
  \<open>in-memory-multi-agent-store.ts\<close> (keyed by a run id). This theory holds the table and its operations;
  the two stores wrap them.

  Time is a count of milliseconds. Every reading of \<open>Date.now()\<close> and the token of \<open>randomUUID()\<close> are
  arguments of the operation that takes them, in the order the code takes them. The stores queue the
  operations on one key, so an operation is one step.

  The locale \<open>fenced_leases\<close> is the contract of a lease store: epochs never decrease, and a lease that
  appears has an epoch above every earlier one. From these two laws follows what fencing is for: a
  fence that has lost its lease never matches a lease again.
\<close>

record lease =
  l_holder :: string
  l_expires :: int
  l_epoch :: nat
  l_token :: string

record fence =
  f_holder :: string
  f_epoch :: nat
  f_token :: string

record lease_table =
  t_leases :: "(string, lease) jsmap"
  t_epochs :: "(string, nat) jsmap"

record lease_grant =
  lg_acquired :: bool
  lg_expires :: "int option"
  lg_fence :: "fence option"

definition fence_of :: "lease \<Rightarrow> fence" where
  "fence_of l = \<lparr>f_holder = l_holder l, f_epoch = l_epoch l, f_token = l_token l\<rparr>"

definition sameFence :: "lease \<Rightarrow> fence \<Rightarrow> bool" where
  "sameFence l f = (l_holder l = f_holder f \<and> l_epoch l = f_epoch f \<and> l_token l = f_token f)"

definition lease_ms :: "rat \<Rightarrow> int" where
  "lease_ms ttl = max 1 \<lfloor>ttl\<rfloor>"

definition next_epoch :: "lease_table \<Rightarrow> string \<Rightarrow> nat" where
  "next_epoch t k = (case map_of (t_epochs t) k of
      Some n \<Rightarrow> n
    | None \<Rightarrow> (case map_of (t_leases t) k of Some l \<Rightarrow> l_epoch l | None \<Rightarrow> 0)) + 1"

definition granted :: "lease \<Rightarrow> lease_grant" where
  "granted l = \<lparr>lg_acquired = True, lg_expires = Some (l_expires l), lg_fence = Some (fence_of l)\<rparr>"

definition refused :: lease_grant where
  "refused = \<lparr>lg_acquired = False, lg_expires = None, lg_fence = None\<rparr>"

definition issue_lease :: "string \<Rightarrow> lease \<Rightarrow> lease_table \<Rightarrow> lease_table" where
  "issue_lease k l t = \<lparr>t_leases = AList.update k l (t_leases t),
     t_epochs = AList.update k (l_epoch l) (t_epochs t)\<rparr>"

definition new_lease :: "string \<Rightarrow> string \<Rightarrow> rat \<Rightarrow> int \<Rightarrow> string \<Rightarrow> lease_table \<Rightarrow> lease" where
  "new_lease k holder ttl now token t = \<lparr>l_holder = holder, l_expires = now + lease_ms ttl,
     l_epoch = next_epoch t k, l_token = token\<rparr>"

definition table_acquire :: "string \<Rightarrow> string \<Rightarrow> rat \<Rightarrow> int \<Rightarrow> string \<Rightarrow> lease_table
    \<Rightarrow> lease_grant \<times> lease_table" where
  "table_acquire k holder ttl now token t =
     (let fresh = new_lease k holder ttl now token t in
      case map_of (t_leases t) k of
        Some l \<Rightarrow>
          if l_expires l > now \<and> l_holder l \<noteq> holder then (refused, t)
          else if l_expires l > now \<and> l_holder l = holder then (granted l, t)
          else (granted fresh, issue_lease k fresh t)
      | None \<Rightarrow> (granted fresh, issue_lease k fresh t))"

text \<open>
  \<open>renew\<close> takes a fence and a time to live, or a time to live alone; a missing or zero time to live
  (\<open>!effectiveTtl\<close>) is refused. It reads the clock twice when it gets that far.
\<close>

definition table_renew :: "string \<Rightarrow> string \<Rightarrow> fence option \<Rightarrow> rat option \<Rightarrow> int \<Rightarrow> int \<Rightarrow> lease_table
    \<Rightarrow> bool \<times> lease_table" where
  "table_renew k holder f ttl now now' t = (case map_of (t_leases t) k of
      None \<Rightarrow> (False, t)
    | Some l \<Rightarrow> (case ttl of
          None \<Rightarrow> (False, t)
        | Some d \<Rightarrow>
            if d = 0 \<or> l_holder l \<noteq> holder \<or> (\<exists>g. f = Some g \<and> \<not> sameFence l g) \<or> l_expires l \<le> now
            then (False, t)
            else (True, t\<lparr>t_leases := AList.update k (l\<lparr>l_expires := now' + lease_ms d\<rparr>) (t_leases t)\<rparr>)))"

definition table_release :: "string \<Rightarrow> string \<Rightarrow> fence option \<Rightarrow> lease_table \<Rightarrow> lease_table" where
  "table_release k holder f t = (case map_of (t_leases t) k of
      Some l \<Rightarrow> if l_holder l = holder \<and> (case f of None \<Rightarrow> True | Some g \<Rightarrow> sameFence l g)
        then t\<lparr>t_leases := AList.delete k (t_leases t)\<rparr> else t
    | None \<Rightarrow> t)"

definition fence_current :: "string \<Rightarrow> fence option \<Rightarrow> int \<Rightarrow> lease_table \<Rightarrow> bool" where
  "fence_current k f now t = (case f of
      None \<Rightarrow> True
    | Some g \<Rightarrow> (case map_of (t_leases t) k of
        None \<Rightarrow> False
      | Some l \<Rightarrow> l_expires l > now \<and> sameFence l g))"

lemma table_renew_code [code]:
  "table_renew k holder f ttl now now' t = (case map_of (t_leases t) k of
      None \<Rightarrow> (False, t)
    | Some l \<Rightarrow> (case ttl of
          None \<Rightarrow> (False, t)
        | Some d \<Rightarrow>
            if d = 0 \<or> l_holder l \<noteq> holder \<or> (case f of None \<Rightarrow> False | Some g \<Rightarrow> \<not> sameFence l g)
              \<or> l_expires l \<le> now
            then (False, t)
            else (True, t\<lparr>t_leases := AList.update k (l\<lparr>l_expires := now' + lease_ms d\<rparr>) (t_leases t)\<rparr>)))"
  by (simp add: table_renew_def split: option.splits)

lemma sameFence_iff: "sameFence l f \<longleftrightarrow> fence_of l = f"
  by (cases f) (auto simp: sameFence_def fence_of_def)

lemma fence_of_expires [simp]: "fence_of (l\<lparr>l_expires := x\<rparr>) = fence_of l"
  by (simp add: fence_of_def)

lemma f_epoch_fence_of [simp]: "f_epoch (fence_of l) = l_epoch l"
  by (simp add: fence_of_def)

section \<open>The contract of a lease store\<close>

locale fenced_leases =
  fixes lease_at :: "'s \<Rightarrow> string \<Rightarrow> lease option"
    and epoch_at :: "'s \<Rightarrow> string \<Rightarrow> nat"
    and lease_step :: "'s \<Rightarrow> 's \<Rightarrow> bool"
    and well :: "'s \<Rightarrow> bool"
  assumes well_step: "well s \<Longrightarrow> lease_step s s' \<Longrightarrow> well s'"
    and epoch_bound: "well s \<Longrightarrow> lease_at s k = Some l \<Longrightarrow> l_epoch l \<le> epoch_at s k"
    and epoch_step: "well s \<Longrightarrow> lease_step s s' \<Longrightarrow> epoch_at s k \<le> epoch_at s' k"
    and lease_origin: "well s \<Longrightarrow> lease_step s s' \<Longrightarrow> lease_at s' k = Some l \<Longrightarrow>
      (\<exists>l0. lease_at s k = Some l0 \<and> fence_of l0 = fence_of l) \<or> epoch_at s k < l_epoch l"
begin

definition holds_fence :: "'s \<Rightarrow> string \<Rightarrow> fence \<Rightarrow> bool" where
  "holds_fence s k f = (\<exists>l. lease_at s k = Some l \<and> fence_of l = f)"

lemma lost_step:
  assumes "well s" and "lease_step s s'" and "f_epoch f \<le> epoch_at s k" and "\<not> holds_fence s k f"
  shows "\<not> holds_fence s' k f"
proof
  assume "holds_fence s' k f"
  then obtain l where l: "lease_at s' k = Some l" "fence_of l = f" by (auto simp: holds_fence_def)
  from lease_origin [OF assms(1,2) l(1)] show False
    using l(2) assms(3,4) by (auto simp: holds_fence_def)
qed

lemma lost_forever:
  assumes "lease_step\<^sup>*\<^sup>* s s'" and "well s" and "f_epoch f \<le> epoch_at s k" and "\<not> holds_fence s k f"
  shows "\<not> holds_fence s' k f"
proof -
  have "well s' \<and> f_epoch f \<le> epoch_at s' k \<and> \<not> holds_fence s' k f"
    using assms
  proof (induction rule: rtranclp_induct)
    case base
    then show ?case by simp
  next
    case (step t u)
    then show ?case using lost_step [of t u f k] epoch_step [of t u k] well_step [of t u] by force
  qed
  then show ?thesis by simp
qed

lemma reissued_above:
  assumes "lease_step\<^sup>*\<^sup>* s s'" and "well s" and "lease_at s k = Some l" and "lease_at s' k = Some l'"
  shows "fence_of l' = fence_of l \<or> l_epoch l < l_epoch l'"
proof -
  have "well s' \<and> l_epoch l \<le> epoch_at s' k
      \<and> (\<forall>m. lease_at s' k = Some m \<longrightarrow> fence_of m = fence_of l \<or> l_epoch l < l_epoch m)"
    using assms(1-3)
  proof (induction rule: rtranclp_induct)
    case base
    then show ?case using epoch_bound by auto
  next
    case (step t u)
    then have t: "well t" "l_epoch l \<le> epoch_at t k"
      "\<And>m. lease_at t k = Some m \<Longrightarrow> fence_of m = fence_of l \<or> l_epoch l < l_epoch m" by auto
    have "fence_of m = fence_of l \<or> l_epoch l < l_epoch m" if "lease_at u k = Some m" for m
    proof -
      from lease_origin [OF t(1) step(2) that] show ?thesis
        using t(2,3) by (metis f_epoch_fence_of order_le_less_trans)
    qed
    moreover have "l_epoch l \<le> epoch_at u k" using t epoch_step [OF t(1) step(2)] order_trans by blast
    ultimately show ?case using well_step [OF t(1) step(2)] by blast
  qed
  with assms(4) show ?thesis by blast
qed

end

section \<open>The table keeps the contract\<close>

definition table_epoch :: "lease_table \<Rightarrow> string \<Rightarrow> nat" where
  "table_epoch t k = get_or 0 (t_epochs t) k"

definition table_lease :: "lease_table \<Rightarrow> string \<Rightarrow> lease option" where
  "table_lease t k = map_of (t_leases t) k"

text \<open>Every lease was issued under the epoch the table remembers for its key, or an earlier one.\<close>

definition table_well :: "lease_table \<Rightarrow> bool" where
  "table_well t = (\<forall>k l. table_lease t k = Some l \<longrightarrow> (\<exists>n. map_of (t_epochs t) k = Some n \<and> l_epoch l \<le> n))"

inductive table_step :: "lease_table \<Rightarrow> lease_table \<Rightarrow> bool" where
  acquire: "table_step t (snd (table_acquire k h ttl now token t))"
| renew: "table_step t (snd (table_renew k h f ttl' now now' t))"
| release: "table_step t (table_release k h f t)"
| drop_lease: "table_step t (t\<lparr>t_leases := AList.delete k (t_leases t)\<rparr>)"

lemma next_epoch_well: "table_well t \<Longrightarrow> next_epoch t k = table_epoch t k + 1"
  by (cases "map_of (t_epochs t) k"; cases "map_of (t_leases t) k")
    (force simp: table_well_def next_epoch_def table_epoch_def get_or_def table_lease_def)+

lemma table_acquire_cases:
  "snd (table_acquire k h ttl now token t) = t \<or>
   snd (table_acquire k h ttl now token t) = issue_lease k (new_lease k h ttl now token t) t"
  by (auto simp: table_acquire_def Let_def split: option.splits)

lemma table_renew_cases:
  "snd (table_renew k h f ttl now now' t) = t \<or>
   (\<exists>l x. map_of (t_leases t) k = Some l \<and> snd (table_renew k h f ttl now now' t)
      = t\<lparr>t_leases := AList.update k (l\<lparr>l_expires := x\<rparr>) (t_leases t)\<rparr>)"
  by (auto simp: table_renew_def split: option.splits)

lemma table_release_cases:
  "table_release k h f t = t \<or> table_release k h f t = t\<lparr>t_leases := AList.delete k (t_leases t)\<rparr>"
  by (auto simp: table_release_def split: option.splits)

lemma table_step_effect:
  assumes "table_well t" and "table_step t t'"
  shows "table_well t' \<and> table_epoch t k \<le> table_epoch t' k
    \<and> (\<forall>l. table_lease t' k = Some l \<longrightarrow>
        (\<exists>l0. table_lease t k = Some l0 \<and> fence_of l0 = fence_of l) \<or> table_epoch t k < l_epoch l)"
  using assms(2)
proof cases
  case (acquire k' h ttl now token)
  have "l_epoch (new_lease k' h ttl now token t) = table_epoch t k' + 1"
    using next_epoch_well [OF assms(1)] by (simp add: new_lease_def)
  with acquire table_acquire_cases [of k' h ttl now token t] assms(1) show ?thesis
    by (auto simp: table_well_def table_lease_def table_epoch_def issue_lease_def split: if_splits)
next
  case (renew k' h f ttl now now')
  from table_renew_cases [of k' h f ttl now now' t] renew assms(1) show ?thesis
    by (auto simp: table_well_def table_lease_def table_epoch_def split: if_splits)
next
  case (release k' h f)
  from table_release_cases [of k' h f t] release assms(1) show ?thesis
    by (auto simp: table_well_def table_lease_def table_epoch_def split: if_splits)
qed (use assms(1) in \<open>auto simp: table_well_def table_lease_def table_epoch_def\<close>)

lemma table_well_epoch:
  "table_well t \<Longrightarrow> table_lease t k = Some l \<Longrightarrow> l_epoch l \<le> table_epoch t k"
  by (force simp: table_well_def table_epoch_def get_or_def)

lemma table_well_empty [simp]: "table_well \<lparr>t_leases = [], t_epochs = []\<rparr>"
  by (simp add: table_well_def table_lease_def)

text \<open>A lease that is live at \<open>now\<close> is untouched by any holder but its own.\<close>

lemma table_live_kept:
  assumes "table_lease t k = Some l" and "now < l_expires l" and "h \<noteq> l_holder l"
  shows "table_acquire k h ttl now token t
      = (refused, t)"
    and "table_renew k h f ttl' n1 n2 t = (False, t)"
    and "table_release k h f t = t"
  using assms
  by (auto simp: table_acquire_def table_renew_def table_release_def table_lease_def Let_def
      split: option.splits)

lemma table_acquire_grants:
  assumes "lg_acquired (fst (table_acquire k h ttl now token t))"
  shows "\<exists>l. table_lease (snd (table_acquire k h ttl now token t)) k = Some l \<and> l_holder l = h
    \<and> now < l_expires l \<and> lg_fence (fst (table_acquire k h ttl now token t)) = Some (fence_of l)"
  using assms
  by (cases "map_of (t_leases t) k")
    (auto simp: table_acquire_def Let_def table_lease_def lease_ms_def granted_def refused_def
      issue_lease_def new_lease_def split: if_splits)

end
