(* ===== verification/RunStores.thy ===== *)
theory RunStores
  imports Commands ScopeKey LeaseTable
begin

text \<open>
  The in-memory store of run snapshots and run leases,
  \<open>adapters/adapter-storage/src/in-memory-run-state-store.ts\<close>. An operation that may throw returns its
  result or error together with the store it leaves. The lease table is that of \<open>LeaseTable\<close>, whose
  contract the store is shown to keep.
\<close>

section \<open>The schema checks on typed values\<close>

text \<open>\<open>RunStateV3Schema.parse\<close> on a state: every string is trimmed and must not be empty.\<close>

definition check_count :: "nat \<Rightarrow> nat result" where
  "check_count n = (if ok_nat n then Inr n else Inl ZodError)"

definition check_total :: "bool \<Rightarrow> rat \<Rightarrow> rat result" where
  "check_total integral x =
     (if 0 \<le> x \<and> (integral \<longrightarrow> is_safe_integer x) then Inr x else Inl ZodError)"

definition parse_identity :: "run_identity \<Rightarrow> run_identity result" where
  "parse_identity i =
     bind_result (check_nonempty (ownerUserId i)) (\<lambda>ow.
     bind_result (check_nonempty (threadId i)) (\<lambda>th.
     bind_result (check_nonempty (turnId i)) (\<lambda>tu.
     bind_result (check_nonempty (runId i)) (\<lambda>ru.
     bind_result (check_nonempty (workspaceKey i)) (\<lambda>ws.
     Inr \<lparr>ownerUserId = ow, threadId = th, turnId = tu, runId = ru, workspaceKey = ws\<rparr>)))))"

definition parse_cursor :: "run_cursor \<Rightarrow> run_cursor result" where
  "parse_cursor c =
     bind_result (check_count (stepIndex c)) (\<lambda>si.
     bind_result (check_nonempty (nodeId c)) (\<lambda>n.
     bind_result (check_count (attempt c)) (\<lambda>a.
     bind_result (check_count (checkpointSeq c)) (\<lambda>cp.
     Inr \<lparr>stepIndex = si, nodeId = n, attempt = a, checkpointSeq = cp\<rparr>))))"

definition parse_budgets :: "budget_state \<Rightarrow> budget_state result" where
  "parse_budgets b =
     bind_result (check_total True (stepsUsed b)) (\<lambda>s.
     bind_result (check_total True (toolCallsUsed b)) (\<lambda>t.
     bind_result (check_total True (inputTokens b)) (\<lambda>i.
     bind_result (check_total True (outputTokens b)) (\<lambda>x.
     bind_result (check_total False (costUsd b)) (\<lambda>c.
     Inr \<lparr>stepsUsed = s, toolCallsUsed = t, inputTokens = i, outputTokens = x, costUsd = c\<rparr>)))))"

definition parse_middleware_state :: "string \<times> middleware_state \<Rightarrow> (string \<times> middleware_state) result" where
  "parse_middleware_state km =
     (if 0 < mw_version (snd km) \<and> ok_nat (mw_version (snd km)) then Inr km else Inl ZodError)"

definition parse_outcome_option :: "run_outcome option \<Rightarrow> run_outcome option result" where
  "parse_outcome_option v = (case v of None \<Rightarrow> Inr None
     | Some x \<Rightarrow> bind_result (parse_outcome (outcome_json x)) (\<lambda>y. Inr (Some y)))"

definition parse_run_state :: "run_state \<Rightarrow> run_state result" where
  "parse_run_state s =
     bind_result (check_nonempty (graphVersion s)) (\<lambda>gv.
     bind_result (parse_identity (identity s)) (\<lambda>idn.
     bind_result (check_optional (parentRunId s)) (\<lambda>pr.
     bind_result (parse_cursor (cursor s)) (\<lambda>cu.
     bind_result (parse_budgets (budgets s)) (\<lambda>bu.
     bind_result (parse_recovery (recovery_json (recovery s))) (\<lambda>re.
     bind_result (map_result parse_middleware_state (middleware s)) (\<lambda>mw.
     bind_result (check_count (taskRevision s)) (\<lambda>tr.
     bind_result (map_result (\<lambda>e. parse_intent (intent_json e)) (pendingEffects s)) (\<lambda>pe.
     bind_result (map_result (\<lambda>e. parse_committed (committed_json e)) (committedEffects s)) (\<lambda>ce.
     bind_result (parse_outcome_option (outcome s)) (\<lambda>oc.
     bind_result (check_nonempty (createdAt s)) (\<lambda>ca.
     bind_result (check_nonempty (updatedAt s)) (\<lambda>ua.
     Inr \<lparr>graphVersion = gv, identity = idn, parentRunId = pr, status = status s, cursor = cu,
       budgets = bu, recovery = re, middleware = mw, nodeData = nodeData s, taskRevision = tr,
       pendingEffects = pe, committedEffects = ce, outcome = oc, createdAt = ca,
       updatedAt = ua\<rparr>)))))))))))))"

definition ok_option :: "('a \<Rightarrow> bool) \<Rightarrow> 'a option \<Rightarrow> bool" where
  "ok_option p v = (case v of None \<Rightarrow> True | Some x \<Rightarrow> p x)"

definition ok_budgets :: "budget_state \<Rightarrow> bool" where
  "ok_budgets b = (0 \<le> stepsUsed b \<and> is_safe_integer (stepsUsed b)
     \<and> 0 \<le> toolCallsUsed b \<and> is_safe_integer (toolCallsUsed b)
     \<and> 0 \<le> inputTokens b \<and> is_safe_integer (inputTokens b)
     \<and> 0 \<le> outputTokens b \<and> is_safe_integer (outputTokens b) \<and> 0 \<le> costUsd b)"

definition ok_cursor :: "run_cursor \<Rightarrow> bool" where
  "ok_cursor c = (ok_nat (stepIndex c) \<and> ok_string (nodeId c) \<and> ok_nat (attempt c)
     \<and> ok_nat (checkpointSeq c))"

definition ok_middleware :: "(string, middleware_state) jsmap \<Rightarrow> bool" where
  "ok_middleware ms = list_all (\<lambda>m. 0 < mw_version m \<and> ok_nat (mw_version m)) (map snd ms)"

definition ok_state :: "run_state \<Rightarrow> bool" where
  "ok_state s = (ok_string (graphVersion s) \<and> ok_identity (identity s)
     \<and> ok_option ok_string (parentRunId s) \<and> ok_cursor (cursor s) \<and> ok_budgets (budgets s)
     \<and> ok_recovery (recovery s)
     \<and> ok_middleware (middleware s) \<and> ok_nat (taskRevision s) \<and> (\<forall>e \<in> set (pendingEffects s). ok_intent e)
     \<and> (\<forall>e \<in> set (committedEffects s). ok_committed e) \<and> ok_option ok_outcome (outcome s)
     \<and> ok_string (createdAt s) \<and> ok_string (updatedAt s))"

lemma check_nonempty_iff: "check_nonempty s = Inr t \<longleftrightarrow> t = trim s \<and> trim s \<noteq> []"
  by (auto simp: check_nonempty_def)

lemma check_nonempty_ok_string: "check_nonempty s = Inr t \<Longrightarrow> ok_string t"
  by (simp add: check_nonempty_iff ok_string_def)

lemma check_optional_ok: "check_optional v = Inr w \<Longrightarrow> ok_option ok_string w"
  by (auto simp: check_optional_def ok_option_def result_simps check_nonempty_ok_string split: option.splits)

lemma parse_identity_ok: "parse_identity i = Inr j \<Longrightarrow> ok_identity j"
  by (auto simp: parse_identity_def result_simps ok_identity_def dest!: check_nonempty_ok_string)

lemma parse_cursor_ok: "parse_cursor c = Inr d \<Longrightarrow> ok_cursor d"
  by (auto simp: parse_cursor_def result_simps ok_cursor_def check_count_def
      dest!: check_nonempty_ok_string split: if_splits)

lemma parse_budgets_ok: "parse_budgets b = Inr c \<Longrightarrow> ok_budgets c"
  by (auto simp: parse_budgets_def result_simps ok_budgets_def check_total_def split: if_splits)

lemma map_result_all:
  assumes "map_result f xs = Inr ys" and "\<And>x y. f x = Inr y \<Longrightarrow> P y"
  shows "\<forall>y \<in> set ys. P y"
  using assms(1) unfolding map_result_all2 by (induction rule: list_all2_induct) (auto intro: assms(2))

lemma parse_middleware_states_ok: "map_result parse_middleware_state ms = Inr ms' \<Longrightarrow> ok_middleware ms'"
  unfolding map_result_all2
  by (induction rule: list_all2_induct)
    (auto simp: parse_middleware_state_def ok_middleware_def split: if_splits)

lemma parse_middleware_states_accepts: "ok_middleware ms \<Longrightarrow> map_result parse_middleware_state ms = Inr ms"
  by (rule map_result_id) (auto simp: ok_middleware_def list_all_iff parse_middleware_state_def)

lemma parse_run_state_ok: "parse_run_state s = Inr t \<Longrightarrow> ok_state t"
  unfolding parse_run_state_def result_simps
  by (auto simp: ok_state_def check_count_def parse_outcome_option_def result_simps ok_option_def
      dest: check_nonempty_ok_string parse_identity_ok check_optional_ok [unfolded ok_option_def]
        parse_cursor_ok parse_budgets_ok parse_recovery_ok parse_middleware_states_ok
        bspec [OF map_result_all [where P = ok_intent]] bspec [OF map_result_all [where P = ok_committed]]
        parse_intent_ok parse_committed_ok parse_outcome_ok
      split: if_splits option.splits)

lemma parse_identity_accepts [simp]: "ok_identity i \<Longrightarrow> parse_identity i = Inr i"
  by (simp add: parse_identity_def ok_identity_def ok_string_check)

lemma check_optional_accepts: "ok_option ok_string v \<Longrightarrow> check_optional v = Inr v"
  by (cases v) (simp_all add: check_optional_def ok_option_def ok_string_check)

lemma parse_cursor_accepts: "ok_cursor c \<Longrightarrow> parse_cursor c = Inr c"
  by (simp add: parse_cursor_def ok_cursor_def check_count_def ok_string_check)

lemma parse_budgets_accepts: "ok_budgets b \<Longrightarrow> parse_budgets b = Inr b"
  by (simp add: parse_budgets_def ok_budgets_def check_total_def)

lemma parse_outcome_option_accepts: "ok_option ok_outcome v \<Longrightarrow> parse_outcome_option v = Inr v"
  by (cases v) (simp_all add: parse_outcome_option_def ok_option_def parse_outcome_json)

lemma parse_run_state_accepts: "ok_state s \<Longrightarrow> parse_run_state s = Inr s"
  by (simp add: parse_run_state_def ok_state_def ok_string_check check_optional_accepts
      parse_cursor_accepts parse_budgets_accepts parse_recovery_json map_result_id
      parse_middleware_states_accepts check_count_def parse_intent_json parse_committed_json
      parse_outcome_option_accepts)

section \<open>Snapshots and leases\<close>

record run_store =
  rs_snapshots :: "(string, run_state) jsmap"
  rs_leases :: lease_table

definition empty_run_store :: run_store where
  "empty_run_store = \<lparr>rs_snapshots = [], rs_leases = \<lparr>t_leases = [], t_epochs = []\<rparr>\<rparr>"

definition stateKey :: "run_state \<Rightarrow> string result" where
  "stateKey s = identityKey (identity s)"

definition store_save :: "run_state \<Rightarrow> fence option \<Rightarrow> int \<Rightarrow> run_store \<Rightarrow> unit result \<times> run_store" where
  "store_save s f now st =
     (case bind_result (stateKey s) (\<lambda>_. bind_result (parse_run_state s) (\<lambda>p.
             bind_result (stateKey p) (\<lambda>k. Inr (p, k)))) of
        Inl e \<Rightarrow> (Inl e, st)
      | Inr (p, k) \<Rightarrow>
          if fence_current k f now (rs_leases st)
          then (Inr (), st\<lparr>rs_snapshots := AList.update k p (rs_snapshots st)\<rparr>)
          else (throw ''runtime snapshot write rejected by stale lease fence'', st))"

definition store_load :: "run_identity \<Rightarrow> run_store \<Rightarrow> run_state option result" where
  "store_load i st = bind_result (identityKey i) (\<lambda>k. Inr (map_of (rs_snapshots st) k))"

definition store_acquire :: "run_identity \<Rightarrow> string \<Rightarrow> rat \<Rightarrow> int \<Rightarrow> string \<Rightarrow> run_store
    \<Rightarrow> lease_grant result \<times> run_store" where
  "store_acquire i holder ttl now token st = (case identityKey i of
      Inl e \<Rightarrow> (Inl e, st)
    | Inr k \<Rightarrow> let r = table_acquire k holder ttl now token (rs_leases st)
        in (Inr (fst r), st\<lparr>rs_leases := snd r\<rparr>))"

definition store_renew :: "run_identity \<Rightarrow> string \<Rightarrow> fence option \<Rightarrow> rat option \<Rightarrow> int \<Rightarrow> int \<Rightarrow> run_store
    \<Rightarrow> bool result \<times> run_store" where
  "store_renew i holder f ttl now now' st = (case identityKey i of
      Inl e \<Rightarrow> (Inl e, st)
    | Inr k \<Rightarrow> let r = table_renew k holder f ttl now now' (rs_leases st)
        in (Inr (fst r), st\<lparr>rs_leases := snd r\<rparr>))"

definition store_release :: "run_identity \<Rightarrow> string \<Rightarrow> fence option \<Rightarrow> run_store \<Rightarrow> unit result \<times> run_store" where
  "store_release i holder f st = (case identityKey i of
      Inl e \<Rightarrow> (Inl e, st)
    | Inr k \<Rightarrow> (Inr (), st\<lparr>rs_leases := table_release k holder f (rs_leases st)\<rparr>))"

inductive run_store_step :: "run_store \<Rightarrow> run_store \<Rightarrow> bool" where
  save: "run_store_step st (snd (store_save s f now st))"
| acquire: "run_store_step st (snd (store_acquire i h ttl now token st))"
| renew: "run_store_step st (snd (store_renew i h f ttl' now now' st))"
| release: "run_store_step st (snd (store_release i h f st))"

lemma store_save_leases [simp]: "rs_leases (snd (store_save s f now st)) = rs_leases st"
  by (auto simp: store_save_def split: sum.splits)

lemma run_store_step_table:
  assumes "run_store_step st st'"
  shows "rs_leases st' = rs_leases st \<or> table_step (rs_leases st) (rs_leases st')"
  using assms
  by cases (auto simp: store_acquire_def store_renew_def store_release_def Let_def
      intro: table_step.intros split: sum.splits)

lemma run_store_step_effect:
  assumes "table_well (rs_leases st)" and "run_store_step st st'"
  shows "table_well (rs_leases st') \<and> table_epoch (rs_leases st) k \<le> table_epoch (rs_leases st') k
    \<and> (\<forall>l. table_lease (rs_leases st') k = Some l \<longrightarrow>
        (\<exists>l0. table_lease (rs_leases st) k = Some l0 \<and> fence_of l0 = fence_of l)
        \<or> table_epoch (rs_leases st) k < l_epoch l)"
  using run_store_step_table [OF assms(2)] table_step_effect [OF assms(1)] assms(1) by auto

interpretation run_leases: fenced_leases
  "\<lambda>st k. table_lease (rs_leases st) k" "\<lambda>st k. table_epoch (rs_leases st) k" run_store_step
  "\<lambda>st. table_well (rs_leases st)"
  by unfold_locales (use run_store_step_effect table_well_epoch in blast)+

section \<open>A sample run\<close>

definition sample_identity :: run_identity where
  "sample_identity = \<lparr>ownerUserId = ''u1'', threadId = ''t1'', turnId = ''n1'', runId = ''r1'',
     workspaceKey = ''w1''\<rparr>"

definition sample_state :: run_state where
  "sample_state = \<lparr>graphVersion = ''v'', identity = sample_identity, parentRunId = None,
     status = Created, cursor = \<lparr>stepIndex = 0, nodeId = ''a'', attempt = 0, checkpointSeq = 0\<rparr>,
     budgets = \<lparr>stepsUsed = 0, toolCallsUsed = 0, inputTokens = 0, outputTokens = 0, costUsd = 0\<rparr>,
     recovery = \<lparr>attempts = 0, maxAttempts = 3, lastReason = None\<rparr>, middleware = [], nodeData = [],
     taskRevision = 0, pendingEffects = [], committedEffects = [], outcome = None,
     createdAt = ''now'', updatedAt = ''now''\<rparr>"

lemma ok_string_Cons: "\<not> is_js_space c \<Longrightarrow> \<not> is_js_space (last (c # s)) \<Longrightarrow> ok_string (c # s)"
  by (cases s rule: rev_cases) (auto simp: ok_string_def trim_def trim_start_def trim_end_def)

lemma sample_identity_ok [simp]: "ok_identity sample_identity"
  by (simp add: sample_identity_def ok_identity_def ok_string_Cons is_js_space_def)

lemma ok_nat_small [simp]: "ok_nat 0" "ok_nat 1" "ok_nat (Suc 0)" "ok_nat (numeral n) = (numeral n \<le> max_safe_integer)"
  by (simp_all add: ok_nat_def max_safe_integer_def)

lemma sample_state_ok [simp]: "ok_state sample_state"
  by (simp add: sample_state_def ok_state_def ok_string_Cons is_js_space_def ok_option_def
      ok_cursor_def ok_budgets_def ok_recovery_def ok_middleware_def max_safe_integer_def)

definition sample_key :: string where
  "sample_key = ''ownerUserId=u1|tenantId=|workspaceKey=w1|threadId=t1|turnId=n1|runId=r1|purpose=runtime''"

lemma sample_identity_key [simp]: "identityKey sample_identity = Inr sample_key"
  by code_simp

section \<open>Stale fences\<close>

text \<open>
  C2. A fence that has lost its lease is rejected for ever: once the lease of a run is gone or was
  issued again, no later state of the store, whatever operations ran in between, accepts a snapshot
  written under the old fence, at any time of the clock.
\<close>

theorem stale_fence_never_saves:
  assumes "run_store_step\<^sup>*\<^sup>* st st'" and "table_well (rs_leases st)"
    and "identityKey (identity s) = Inr k" and "ok_state s"
    and "f_epoch f \<le> table_epoch (rs_leases st) k"
    and "map_option fence_of (table_lease (rs_leases st) k) \<noteq> Some f"
  shows "store_save s (Some f) now st' = (throw ''runtime snapshot write rejected by stale lease fence'', st')"
proof -
  have "\<not> run_leases.holds_fence st k f" using assms(6) by (auto simp: run_leases.holds_fence_def)
  then have "\<not> run_leases.holds_fence st' k f"
    using run_leases.lost_forever [OF assms(1) assms(2) assms(5)] by blast
  then have lost: "map_option fence_of (table_lease (rs_leases st') k) \<noteq> Some f"
    by (auto simp: run_leases.holds_fence_def)
  then have "\<not> fence_current k (Some f) now (rs_leases st')"
    by (auto simp: fence_current_def table_lease_def sameFence_iff split: option.splits)
  then show ?thesis
    using assms(3,4) by (simp add: store_save_def stateKey_def parse_run_state_accepts)
qed

definition lost_store :: run_store where
  "lost_store = snd (store_release sample_identity ''h1'' None
     (snd (store_acquire sample_identity ''h1'' 1000 5 ''tok1'' empty_run_store)))"

lemma lost_store_eq: "lost_store = \<lparr>rs_snapshots = [], rs_leases = \<lparr>t_leases = [], t_epochs = [(sample_key, 1)]\<rparr>\<rparr>"
  by (simp add: lost_store_def empty_run_store_def store_release_def store_acquire_def Let_def
      table_acquire_def table_release_def issue_lease_def new_lease_def next_epoch_def)

theorem stale_fence_never_saves_witness:
  "store_save sample_state (Some \<lparr>f_holder = ''h1'', f_epoch = 1, f_token = ''tok1''\<rparr>) 9
     (snd (store_acquire sample_identity ''h2'' 1000 6 ''tok2'' lost_store))
   = (throw ''runtime snapshot write rejected by stale lease fence'',
      snd (store_acquire sample_identity ''h2'' 1000 6 ''tok2'' lost_store))"
proof (rule stale_fence_never_saves)
  show "run_store_step\<^sup>*\<^sup>* lost_store (snd (store_acquire sample_identity ''h2'' 1000 6 ''tok2'' lost_store))"
    by (rule r_into_rtranclp, rule run_store_step.acquire)
  show "identityKey (identity sample_state) = Inr sample_key" by (simp add: sample_state_def)
qed (simp_all add: lost_store_eq table_well_def table_lease_def table_epoch_def get_or_def)

text \<open>
  A lease excludes: an acquisition that is granted leaves its holder with a live lease, and while
  a lease is live, no acquisition, renewal or release by another holder changes the store.
\<close>

theorem live_lease_excludes:
  assumes "store_acquire i h ttl now token st = (Inr g, st')" and "lg_acquired g"
    and "identityKey i = Inr k"
  shows "\<exists>l. table_lease (rs_leases st') k = Some l \<and> l_holder l = h \<and> now < l_expires l
    \<and> lg_fence g = Some (fence_of l)
    \<and> (\<forall>h' ttl' now' token' f. h' \<noteq> h \<longrightarrow> now' < l_expires l \<longrightarrow>
         store_acquire i h' ttl' now' token' st' = (Inr refused, st')
         \<and> (\<forall>d n. store_renew i h' f d now' n st' = (Inr False, st'))
         \<and> store_release i h' f st' = (Inr (), st'))"
proof -
  let ?r = "table_acquire k h ttl now token (rs_leases st)"
  have eq: "g = fst ?r" "rs_leases st' = snd ?r" using assms(1,3) by (auto simp: store_acquire_def Let_def)
  from table_acquire_grants [of k h ttl now token "rs_leases st"] assms(2) eq
  obtain l where l: "table_lease (rs_leases st') k = Some l" "l_holder l = h" "now < l_expires l"
    "lg_fence g = Some (fence_of l)" by auto
  show ?thesis
    by (rule exI [of _ l]) (use l table_live_kept [OF l(1)] in
      \<open>auto simp: store_acquire_def store_renew_def store_release_def assms(3)\<close>)
qed

theorem live_lease_excludes_witness:
  "\<exists>l. table_lease (rs_leases (snd (store_acquire sample_identity ''h1'' 1000 5 ''tok1'' empty_run_store)))
     sample_key = Some l \<and> l_holder l = ''h1''"
proof -
  let ?r = "store_acquire sample_identity ''h1'' 1000 5 ''tok1'' empty_run_store"
  let ?g = "granted (new_lease sample_key ''h1'' 1000 5 ''tok1'' (rs_leases empty_run_store))"
  have "?r = (Inr ?g, snd ?r)" "lg_acquired ?g"
    by (simp_all add: store_acquire_def Let_def table_acquire_def empty_run_store_def granted_def)
  from live_lease_excludes [OF this sample_identity_key] show ?thesis by auto
qed

text \<open>Saving and loading.\<close>

lemma save_load:
  assumes "ok_state s" and "store_save s f now st = (Inr u, st')"
  shows "store_load (identity s) st' = Inr (Some s)"
  using assms parse_run_state_accepts [OF assms(1)]
  by (auto simp: store_save_def store_load_def stateKey_def result_simps split: sum.splits if_splits)

end
