(* ===== verification/EventLog.thy ===== *)
theory EventLog
  imports RunStores
begin

text \<open>
  The event log of a run, \<open>adapters/adapter-storage/src/in-memory-run-event-store.ts\<close>.

  The locale \<open>event_log\<close> is what the writers of events rely on. \<open>record_next\<close> is proved in it once for
  the two writers, the kernel and the effect coordinator, which number an event with the successor
  of the largest number logged so far. The payload of an event is a parameter of the log.
\<close>

record 'p run_event =
  ev_id :: string
  ev_seq :: nat
  ev_identity :: run_identity
  ev_step :: "string option"
  ev_attempt :: "string option"
  ev_type :: string
  ev_key :: "string option"
  ev_payload :: 'p
  ev_time :: string

definition parse_event :: "'p run_event \<Rightarrow> 'p run_event result" where
  "parse_event e =
     bind_result (check_nonempty (ev_id e)) (\<lambda>i.
     bind_result (if 0 < ev_seq e \<and> ok_nat (ev_seq e) then Inr (ev_seq e) else Inl ZodError) (\<lambda>n.
     bind_result (parse_identity (ev_identity e)) (\<lambda>idn.
     bind_result (check_optional (ev_step e)) (\<lambda>st.
     bind_result (check_optional (ev_attempt e)) (\<lambda>na.
     bind_result (check_nonempty (ev_type e)) (\<lambda>ty.
     bind_result (check_optional (ev_key e)) (\<lambda>k.
     bind_result (check_nonempty (ev_time e)) (\<lambda>tm.
     Inr \<lparr>ev_id = i, ev_seq = n, ev_identity = idn, ev_step = st, ev_attempt = na, ev_type = ty,
       ev_key = k, ev_payload = ev_payload e, ev_time = tm\<rparr>))))))))"

definition ok_event :: "'p run_event \<Rightarrow> bool" where
  "ok_event e = (ok_string (ev_id e) \<and> 0 < ev_seq e \<and> ok_nat (ev_seq e) \<and> ok_identity (ev_identity e)
     \<and> ok_option ok_string (ev_step e) \<and> ok_option ok_string (ev_attempt e) \<and> ok_string (ev_type e)
     \<and> ok_option ok_string (ev_key e) \<and> ok_string (ev_time e))"

lemma parse_event_accepts: "ok_event e \<Longrightarrow> parse_event e = Inr e"
  by (simp add: parse_event_def ok_event_def ok_string_check check_optional_accepts)

lemma parse_event_ok: "parse_event e = Inr e' \<Longrightarrow> ok_event e'"
  by (auto simp: parse_event_def ok_event_def result_simps check_nonempty_ok_string check_optional_ok
      parse_identity_ok split: if_splits)

section \<open>The store\<close>

record 'p event_store =
  es_events :: "(string, 'p run_event list) jsmap"
  es_epochs :: "(string, nat) jsmap"

definition empty_event_store :: "'p event_store" where
  "empty_event_store = \<lparr>es_events = [], es_epochs = []\<rparr>"

definition eventKey :: "'p run_event \<Rightarrow> string result" where
  "eventKey e = identityKey (ev_identity e)"

text \<open>The epoch check of \<open>append\<close>: the table of epochs it leaves, or nothing for a stale fence.\<close>

definition fence_epochs :: "string \<Rightarrow> fence option \<Rightarrow> (string, nat) jsmap \<Rightarrow> (string, nat) jsmap option" where
  "fence_epochs k f ep = (case f of
      None \<Rightarrow> Some ep
    | Some g \<Rightarrow> (case map_of ep k of
        Some n \<Rightarrow> if f_epoch g < n then None else Some (AList.update k (f_epoch g) ep)
      | None \<Rightarrow> Some (AList.update k (f_epoch g) ep)))"

definition insert_event :: "'p run_event \<Rightarrow> 'p run_event list \<Rightarrow> 'p run_event list" where
  "insert_event e es = sort_key ev_seq (es @ [e])"

text \<open>The rest of \<open>append\<close>, for a checked event under its key, with the epochs the fence check left.\<close>

definition append_checked :: "'p run_event \<Rightarrow> string \<Rightarrow> 'p run_event list \<Rightarrow> 'p event_store
    \<Rightarrow> 'p run_event result \<times> 'p event_store" where
  "append_checked e k es st = (case List.find (\<lambda>c. ev_id c = ev_id e) es of
      Some c \<Rightarrow> (Inr c, st)
    | None \<Rightarrow>
        if list_ex (\<lambda>c. ev_seq c = ev_seq e) es then
          (throw (''duplicate run event sequence '' @ show_nat (ev_seq e)), st)
        else (Inr e, st\<lparr>es_events := AList.update k (insert_event e es) (es_events st)\<rparr>))"

definition append_event :: "'p run_event \<Rightarrow> fence option \<Rightarrow> 'p event_store
    \<Rightarrow> 'p run_event result \<times> 'p event_store" where
  "append_event inp f st = (case bind_result (parse_event inp) (\<lambda>e. bind_result (eventKey e) (\<lambda>k. Inr (e, k))) of
      Inl err \<Rightarrow> (Inl err, st)
    | Inr (e, k) \<Rightarrow> (case fence_epochs k f (es_epochs st) of
        None \<Rightarrow> (throw ''runtime event write rejected by stale lease fence'', st)
      | Some ep \<Rightarrow> append_checked e k (get_or [] (es_events st) k) (st\<lparr>es_epochs := ep\<rparr>)))"

definition listAfter :: "run_identity \<Rightarrow> nat \<Rightarrow> 'p event_store \<Rightarrow> 'p run_event list result" where
  "listAfter i n st = bind_result (identityKey i) (\<lambda>k.
     Inr (filter (\<lambda>e. n < ev_seq e) (get_or [] (es_events st) k)))"

section \<open>The contract of an event log\<close>

text \<open>
  \<open>log s i\<close> is the log of run \<open>i\<close> in the order of its sequence numbers, \<open>accepts\<close> says that a fence is
  not stale for a run.
\<close>

locale event_log =
  fixes log :: "'s \<Rightarrow> run_identity \<Rightarrow> 'p run_event list"
    and add :: "'p run_event \<Rightarrow> fence option \<Rightarrow> 's \<Rightarrow> 'p run_event result \<times> 's"
    and accepts :: "run_identity \<Rightarrow> fence option \<Rightarrow> 's \<Rightarrow> bool"
    and well :: "'s \<Rightarrow> bool"
  assumes log_ordered: "well s \<Longrightarrow> sorted_wrt (<) (map ev_seq (log s i))"
    and log_positive: "well s \<Longrightarrow> e \<in> set (log s i) \<Longrightarrow> 0 < ev_seq e"
    and add_well: "well s \<Longrightarrow> well (snd (add e f s))"
    and add_known: "well s \<Longrightarrow> ok_event e \<Longrightarrow> accepts (ev_identity e) f s \<Longrightarrow>
      c \<in> set (log s (ev_identity e)) \<Longrightarrow> ev_id c = ev_id e \<Longrightarrow>
      fst (add e f s) = Inr c \<and> log (snd (add e f s)) = log s"
    and add_clash: "well s \<Longrightarrow> ok_event e \<Longrightarrow> accepts (ev_identity e) f s \<Longrightarrow>
      \<forall>c \<in> set (log s (ev_identity e)). ev_id c \<noteq> ev_id e \<Longrightarrow>
      c \<in> set (log s (ev_identity e)) \<Longrightarrow> ev_seq c = ev_seq e \<Longrightarrow>
      fst (add e f s) = throw (''duplicate run event sequence '' @ show_nat (ev_seq e)) \<and>
      log (snd (add e f s)) = log s"
    and add_last: "well s \<Longrightarrow> ok_event e \<Longrightarrow> accepts (ev_identity e) f s \<Longrightarrow>
      \<forall>c \<in> set (log s (ev_identity e)). ev_id c \<noteq> ev_id e \<Longrightarrow>
      \<forall>c \<in> set (log s (ev_identity e)). ev_seq c < ev_seq e \<Longrightarrow>
      fst (add e f s) = Inr e \<and>
      log (snd (add e f s)) = (log s)(ev_identity e := log s (ev_identity e) @ [e])"
    and add_rejected: "ok_event e \<Longrightarrow> \<not> accepts (ev_identity e) f s \<Longrightarrow> snd (add e f s) = s"
begin

definition next_seq :: "'s \<Rightarrow> run_identity \<Rightarrow> nat" where
  "next_seq s i = max_seq (map ev_seq (log s i)) + 1"

text \<open>Recording an event under the next number appends it and leaves every other run's log alone.\<close>

lemma record_next:
  assumes "well s" and "ok_event e" and "accepts (ev_identity e) f s"
    and "ev_seq e = next_seq s (ev_identity e)"
    and "\<forall>c \<in> set (log s (ev_identity e)). ev_id c \<noteq> ev_id e"
  shows "fst (add e f s) = Inr e"
    and "log (snd (add e f s)) = (log s)(ev_identity e := log s (ev_identity e) @ [e])"
proof -
  have "\<forall>c \<in> set (log s (ev_identity e)). ev_seq c < ev_seq e"
    using assms(4) max_seq_ge by (fastforce simp: next_seq_def less_Suc_eq_le)
  from add_last [OF assms(1-3,5) this]
  show "fst (add e f s) = Inr e"
    and "log (snd (add e f s)) = (log s)(ev_identity e := log s (ev_identity e) @ [e])" by auto
qed

lemma record_twice:
  assumes "well s" and "ok_event e" and "accepts (ev_identity e) f s"
    and "ev_seq e = next_seq s (ev_identity e)"
    and "\<forall>c \<in> set (log s (ev_identity e)). ev_id c \<noteq> ev_id e"
    and "accepts (ev_identity e) f' (snd (add e f s))"
  shows "fst (add e f' (snd (add e f s))) = Inr e \<and>
    log (snd (add e f' (snd (add e f s)))) = log (snd (add e f s))"
  by (rule add_known [OF add_well [OF assms(1)] assms(2,6)])
    (simp_all add: record_next [OF assms(1-5)])

end

section \<open>The store keeps the contract\<close>

definition store_log :: "'p event_store \<Rightarrow> run_identity \<Rightarrow> 'p run_event list" where
  "store_log st i = (if ok_identity i
     then (case identityKey i of Inr k \<Rightarrow> get_or [] (es_events st) k | Inl _ \<Rightarrow> []) else [])"

definition store_accepts :: "run_identity \<Rightarrow> fence option \<Rightarrow> 'p event_store \<Rightarrow> bool" where
  "store_accepts i f st = (case identityKey i of
     Inl _ \<Rightarrow> False | Inr k \<Rightarrow> fence_epochs k f (es_epochs st) \<noteq> None)"

definition well_list :: "'p run_event list \<Rightarrow> string \<Rightarrow> bool" where
  "well_list es k = (sorted_wrt (<) (map ev_seq es) \<and> distinct (map ev_id es)
     \<and> (\<forall>e \<in> set es. ok_event e \<and> eventKey e = Inr k))"

definition es_well :: "'p event_store \<Rightarrow> bool" where
  "es_well st = (\<forall>k. well_list (get_or [] (es_events st) k) k)"

lemma listAfter_log:
  "ok_identity i \<Longrightarrow> listAfter i n st = Inr (filter (\<lambda>e. n < ev_seq e) (store_log st i))"
  using identityKey_defined [of i] by (auto simp: listAfter_def store_log_def)

lemma eventKey_cases:
  assumes "ok_event e"
  obtains k where "eventKey e = Inr k" and "identityKey (ev_identity e) = Inr k" and "ok_identity (ev_identity e)"
  using identityKey_defined [of "ev_identity e"] assms by (auto simp: eventKey_def ok_event_def)

lemma store_log_key:
  "ok_identity i \<Longrightarrow> identityKey i = Inr k \<Longrightarrow> store_log st i = get_or [] (es_events st) k"
  by (simp add: store_log_def)

lemma append_event_ok:
  assumes "ok_event e" and "eventKey e = Inr k"
  shows "append_event e f st = (case fence_epochs k f (es_epochs st) of
        None \<Rightarrow> (throw ''runtime event write rejected by stale lease fence'', st)
      | Some ep \<Rightarrow> append_checked e k (get_or [] (es_events st) k) (st\<lparr>es_epochs := ep\<rparr>))"
  using assms by (simp add: append_event_def parse_event_accepts)

lemma insert_event_well:
  assumes "well_list es k" and "ok_event e" and "eventKey e = Inr k"
    and "\<forall>c \<in> set es. ev_id c \<noteq> ev_id e" and "\<forall>c \<in> set es. ev_seq c \<noteq> ev_seq e"
  shows "well_list (insert_event e es) k"
proof -
  have mset: "mset (insert_event e es) = mset (es @ [e])" by (simp add: insert_event_def)
  then have set: "set (insert_event e es) = set (es @ [e])" by (metis set_mset_mset)
  have dist: "distinct (map g (insert_event e es)) = distinct (map g (es @ [e]))" for g :: "'a run_event \<Rightarrow> 'b"
    using mset by (metis mset_eq_imp_distinct_iff mset_map)
  have "sorted (map ev_seq (insert_event e es))" by (simp add: insert_event_def)
  moreover have "distinct (map ev_seq (es @ [e]))"
    using assms(1,5) by (auto simp: well_list_def strict_sorted_iff)
  ultimately have "sorted_wrt (<) (map ev_seq (insert_event e es))"
    by (simp add: strict_sorted_iff dist)
  moreover have "distinct (map ev_id (es @ [e]))" using assms(1,4) by (auto simp: well_list_def)
  ultimately show ?thesis
    using assms(1-3) by (auto simp: well_list_def dist set simp del: distinct_append)
qed

lemma insert_event_last:
  assumes "sorted_wrt (<) (map ev_seq es)" and "\<forall>c \<in> set es. ev_seq c < ev_seq e"
  shows "insert_event e es = es @ [e]"
  unfolding insert_event_def
  by (rule sort_key_id_if_sorted) (use assms in \<open>auto simp: strict_sorted_iff sorted_append less_imp_le\<close>)

lemma append_event_well:
  assumes "es_well st"
  shows "es_well (snd (append_event inp f st))"
proof (cases "bind_result (parse_event inp) (\<lambda>e. bind_result (eventKey e) (\<lambda>k. Inr (e, k)))")
  case (Inl err)
  with assms show ?thesis by (simp add: append_event_def)
next
  case (Inr ek)
  then obtain e k where e: "ok_event e" "eventKey e = Inr k" "ek = (e, k)"
    using parse_event_ok by (auto simp: result_simps)
  then have eq: "append_event inp f st = append_event e f st"
    using Inr by (simp add: append_event_def parse_event_accepts)
  have old: "\<And>k. well_list (get_or [] (es_events st) k) k" using assms by (simp add: es_well_def)
  show ?thesis
  proof (cases "fence_epochs k f (es_epochs st)")
    case None
    with eq assms show ?thesis by (simp add: append_event_ok [OF e(1,2)])
  next
    case (Some ep)
    have "es_well (snd (append_checked e k (get_or [] (es_events st) k) (st\<lparr>es_epochs := ep\<rparr>)))"
      using insert_event_well [OF old e(1,2)] old
      by (auto simp: append_checked_def es_well_def list_ex_iff find_None_iff split: option.splits)
    with eq Some show ?thesis by (simp add: append_event_ok [OF e(1,2)])
  qed
qed

lemma append_event_accepted:
  assumes "es_well st" and "ok_event e" and "store_accepts (ev_identity e) f st"
  obtains k ep where "identityKey (ev_identity e) = Inr k" and "ok_identity (ev_identity e)"
    and "well_list (store_log st (ev_identity e)) k"
    and "append_event e f st = append_checked e k (store_log st (ev_identity e)) (st\<lparr>es_epochs := ep\<rparr>)"
proof -
  obtain k where k: "eventKey e = Inr k" "identityKey (ev_identity e) = Inr k" "ok_identity (ev_identity e)"
    using eventKey_cases [OF assms(2)] by blast
  obtain ep where ep: "fence_epochs k f (es_epochs st) = Some ep"
    using assms(3) k(2) by (auto simp: store_accepts_def)
  have log: "store_log st (ev_identity e) = get_or [] (es_events st) k"
    using store_log_key [OF k(3,2)] .
  show ?thesis
    by (rule that [OF k(2,3), of ep])
      (use assms(1) in \<open>simp_all add: log es_well_def append_event_ok [OF assms(2) k(1)] ep\<close>)
qed

lemma store_log_epochs [simp]: "store_log (st\<lparr>es_epochs := ep\<rparr>) = store_log st"
  by (simp add: store_log_def fun_eq_iff split: sum.split)

lemma store_log_update:
  assumes "ok_identity i" and "identityKey i = Inr k"
  shows "store_log (st\<lparr>es_events := AList.update k es (es_events st)\<rparr>) = (store_log st)(i := es)"
proof
  fix j
  show "store_log (st\<lparr>es_events := AList.update k es (es_events st)\<rparr>) j = ((store_log st)(i := es)) j"
  proof (cases "ok_identity j \<and> identityKey j = Inr k")
    case True
    then have "i = j" using identityKey_inj [OF assms(1)] assms(2) by simp
    with assms show ?thesis by (simp add: store_log_def)
  next
    case False
    then have "i \<noteq> j" using assms by auto
    with False show ?thesis by (auto simp: store_log_def split: sum.splits)
  qed
qed

lemma well_list_known:
  assumes "well_list es k" and "c \<in> set es" and "ev_id c = ev_id e"
  shows "List.find (\<lambda>c. ev_id c = ev_id e) es = Some c"
proof -
  have "distinct (map ev_id es)" using assms(1) by (simp add: well_list_def)
  then show ?thesis using assms(2,3) by (induction es) (auto simp: image_iff)
qed

lemma store_log_well: "es_well st \<Longrightarrow> store_log st i = [] \<or> (\<exists>k. well_list (store_log st i) k)"
  by (cases "identityKey i") (auto simp: store_log_def es_well_def)

lemma find_none: "\<forall>c \<in> set es. ev_id c \<noteq> ev_id e \<Longrightarrow> List.find (\<lambda>c. ev_id c = ev_id e) es = None"
  by (auto simp: find_None_iff)

interpretation run_log: event_log store_log append_event store_accepts es_well
proof (unfold_locales, goal_cases)
  case (1 s i)
  from store_log_well [OF this, of i] show ?case by (auto simp: well_list_def)
next
  case (2 s e i)
  from store_log_well [OF 2(1), of i] 2(2) show ?case by (auto simp: well_list_def ok_event_def)
next
  case (3 s e f)
  then show ?case by (rule append_event_well)
next
  case (4 s e f c)
  obtain k ep where "well_list (store_log s (ev_identity e)) k"
    and "append_event e f s = append_checked e k (store_log s (ev_identity e)) (s\<lparr>es_epochs := ep\<rparr>)"
    using append_event_accepted [OF 4(1-3)] by blast
  with well_list_known [OF _ 4(4,5)] show ?case by (simp add: append_checked_def)
next
  case (5 s e f c)
  obtain k ep where eq: "append_event e f s = append_checked e k (store_log s (ev_identity e)) (s\<lparr>es_epochs := ep\<rparr>)"
    using append_event_accepted [OF 5(1-3)] by blast
  have "list_ex (\<lambda>c. ev_seq c = ev_seq e) (store_log s (ev_identity e))"
    using 5(5,6) by (auto simp: list_ex_iff)
  then show ?case by (simp add: eq append_checked_def find_none [OF 5(4)])
next
  case (6 s e f)
  obtain k ep where k: "identityKey (ev_identity e) = Inr k" "ok_identity (ev_identity e)"
    and wl: "well_list (store_log s (ev_identity e)) k"
    and eq: "append_event e f s = append_checked e k (store_log s (ev_identity e)) (s\<lparr>es_epochs := ep\<rparr>)"
    using append_event_accepted [OF 6(1-3)] by blast
  have "\<not> list_ex (\<lambda>c. ev_seq c = ev_seq e) (store_log s (ev_identity e))"
    using 6(5) by (auto simp: list_ex_iff)
  moreover have "insert_event e (store_log s (ev_identity e)) = store_log s (ev_identity e) @ [e]"
    using insert_event_last 6(5) wl by (auto simp: well_list_def)
  ultimately show ?case
    using store_log_update [OF k(2,1), where st = "s\<lparr>es_epochs := ep\<rparr>"]
    by (simp add: eq append_checked_def find_none [OF 6(4)])
next
  case (7 e f s)
  obtain k where "eventKey e = Inr k" "identityKey (ev_identity e) = Inr k"
    using eventKey_cases [OF 7(1)] by blast
  with 7 show ?case by (simp add: append_event_ok store_accepts_def)
qed

definition append_all :: "('p run_event \<times> fence option) list \<Rightarrow> 'p event_store \<Rightarrow> 'p event_store" where
  "append_all efs st = fold (\<lambda>ef st. snd (append_event (fst ef) (snd ef) st)) efs st"

lemma append_all_well: "es_well (append_all efs empty_event_store)"
proof -
  have "es_well (append_all efs st)" if "es_well st" for st
    using that by (induction efs arbitrary: st) (simp_all add: append_all_def append_event_well)
  moreover have "es_well empty_event_store"
    by (simp add: es_well_def empty_event_store_def get_or_def well_list_def)
  ultimately show ?thesis by blast
qed

text \<open>
  The event log of every run stays strictly increasing in its sequence numbers and free of
  duplicate event ids under every sequence of appends, whatever their order and fences, and each
  event it lists belongs to the run asked for and lies after the number asked for.
\<close>

theorem event_log_invariant:
  assumes "ok_identity i" and "listAfter i n (append_all efs empty_event_store) = Inr es"
  shows "sorted_wrt (<) (map ev_seq es) \<and> distinct (map ev_id es)
    \<and> (\<forall>e \<in> set es. ev_identity e = i \<and> n < ev_seq e)"
proof -
  let ?st = "append_all efs empty_event_store"
  have es: "es = filter (\<lambda>e. n < ev_seq e) (store_log ?st i)" using assms by (simp add: listAfter_log)
  obtain k where k: "identityKey i = Inr k" using identityKey_defined [OF assms(1)] by blast
  have wl: "well_list (store_log ?st i) k"
    using append_all_well [of efs] by (simp add: store_log_key [OF assms(1) k] es_well_def)
  have "sorted_wrt (<) (map ev_seq es)"
    using wl by (auto simp: es well_list_def sorted_wrt_map intro: sorted_wrt_filter)
  moreover have "distinct (map ev_id es)" using wl by (simp add: es well_list_def distinct_map_filter)
  moreover have "ev_identity e = i \<and> n < ev_seq e" if "e \<in> set es" for e
  proof -
    have "ok_event e" "eventKey e = Inr k" "n < ev_seq e" using wl that by (auto simp: es well_list_def)
    then show ?thesis
      using identityKey_inj [of "ev_identity e" i] assms(1) k by (simp add: ok_event_def eventKey_def)
  qed
  ultimately show ?thesis by blast
qed

definition sample_event :: "nat \<Rightarrow> unit run_event" where
  "sample_event n = \<lparr>ev_id = ''e'' @ show_nat n, ev_seq = n, ev_identity = sample_identity, ev_step = None,
     ev_attempt = None, ev_type = ''node.started'', ev_key = None, ev_payload = (), ev_time = ''now''\<rparr>"

lemma sample_log: "listAfter sample_identity 0 (append_all [(sample_event 2, None), (sample_event 1, None),
    (sample_event 2, None)] empty_event_store) = Inr [sample_event 1, sample_event 2]"
  by code_simp

theorem event_log_invariant_witness: "sorted_wrt (<) (map ev_seq [sample_event 1, sample_event 2])"
  using event_log_invariant [OF sample_identity_ok sample_log] by blast

text \<open>
  Appending is idempotent: an event that was appended under a fence is returned unchanged when it
  is appended again, and the second append adds nothing to any run's log.
\<close>

theorem append_idempotent:
  assumes "es_well st" and "ok_event e" and "append_event e f st = (Inr e, st')"
  shows "append_event e f st' = (Inr e, st'\<lparr>es_epochs := es_epochs (snd (append_event e f st'))\<rparr>)"
proof -
  obtain k where k: "eventKey e = Inr k" using eventKey_cases [OF assms(2)] by blast
  obtain ep where ep: "fence_epochs k f (es_epochs st) = Some ep"
    and run: "append_checked e k (get_or [] (es_events st) k) (st\<lparr>es_epochs := ep\<rparr>) = (Inr e, st')"
    using assms(3) by (auto simp: append_event_ok [OF assms(2) k] split: option.splits)
  have "fence_epochs k f ep = Some ep'" if "ep' = (case f of None \<Rightarrow> ep | Some g \<Rightarrow> AList.update k (f_epoch g) ep)" for ep'
    using ep that by (auto simp: fence_epochs_def split: option.splits if_splits)
  moreover have "es_epochs st' = ep"
    using run by (auto simp: append_checked_def split: option.splits if_splits)
  moreover have "e \<in> set (get_or [] (es_events st') k)"
    using run by (auto simp: append_checked_def insert_event_def find_Some_iff split: option.splits if_splits)
  moreover have "es_well st'" using append_event_well [OF assms(1), of e f] assms(3) by simp
  then have "well_list (get_or [] (es_events st') k) k" by (simp add: es_well_def)
  ultimately show ?thesis
    using well_list_known [of "get_or [] (es_events st') k" k e e]
    by (simp add: append_event_ok [OF assms(2) k] append_checked_def)
qed

lemma sample_event_ok: "ok_event (sample_event 1)"
  by (simp add: sample_event_def ok_event_def ok_string_Cons is_js_space_def ok_option_def
      show_nat.simps ok_nat_def max_safe_integer_def)

theorem append_idempotent_witness:
  "fst (append_event (sample_event 1) None (snd (append_event (sample_event 1) None empty_event_store)))
   = Inr (sample_event 1)"
proof -
  let ?r = "append_event (sample_event 1) None empty_event_store"
  have "fst ?r = Inr (sample_event 1)" by code_simp
  then have "?r = (Inr (sample_event 1), snd ?r)" by (metis prod.collapse)
  from append_idempotent [OF _ sample_event_ok this]
  have "append_event (sample_event 1) None (snd ?r) = (Inr (sample_event 1), snd ?r\<lparr>es_epochs := es_epochs
      (snd (append_event (sample_event 1) None (snd ?r)))\<rparr>)"
    using append_all_well [of "[]"] by (simp add: append_all_def)
  then show ?thesis by (metis fst_conv)
qed

end
