(* ===== verification/EffectCommit.thy ===== *)
theory EffectCommit
  imports EventLog
begin

text \<open>
  Effects with results that survive a crash: the store of effect results
  (\<open>adapters/adapter-storage/src/in-memory-effect-result-store.ts\<close>) and the coordinator that prepares and
  commits effects (\<open>loop/src/effect-commit.ts\<close>).

  SHA-256 over the canonical JSON text of a value, and over a scope key, are the parameters
  \<open>hj :: json \<Rightarrow> string\<close> and \<open>hs :: string \<Rightarrow> string\<close>: they stand for \<open>createHash\<close> of node's crypto module.
  Clock readings and random event ids are arguments. The coordinator's queue makes each append one
  step for the writers of one instance.
\<close>

record stored_effect =
  se_digest :: string
  se_result :: json

type_synonym effect_store = "(string, stored_effect) jsmap"

definition effectResultDigest :: "(json \<Rightarrow> string) \<Rightarrow> json \<Rightarrow> string" where
  "effectResultDigest hj v = hj (canonicalize v)"

definition digestValue :: "(json \<Rightarrow> string) \<Rightarrow> json \<Rightarrow> string" where
  "digestValue hj v = hj (canonicalize v)"

definition runtimeScopeDigest :: "(string \<Rightarrow> string) \<Rightarrow> run_identity \<Rightarrow> string result" where
  "runtimeScopeDigest hs i = bind_result (encodeScopeKey (runtimeScope i)) (\<lambda>k. Inr (hs k))"

definition resultKey :: "(string \<Rightarrow> string) \<Rightarrow> run_identity \<Rightarrow> string \<Rightarrow> string result" where
  "resultKey hs i key = bind_result (runtimeScopeDigest hs i) (\<lambda>d. Inr (d @ '':'' @ key))"

definition verifyDigest :: "(json \<Rightarrow> string) \<Rightarrow> string \<Rightarrow> json \<Rightarrow> unit result" where
  "verifyDigest hj d v =
     (if effectResultDigest hj v \<noteq> d then throw ''effect result digest mismatch'' else Inr ())"

definition load_effect :: "(json \<Rightarrow> string) \<Rightarrow> (string \<Rightarrow> string) \<Rightarrow> run_identity \<Rightarrow> string \<Rightarrow> effect_store
    \<Rightarrow> stored_effect option result" where
  "load_effect hj hs i key st =
     bind_result (resultKey hs i key) (\<lambda>k. case map_of st k of
         None \<Rightarrow> Inr None
       | Some r \<Rightarrow> bind_result (verifyDigest hj (se_digest r) (se_result r)) (\<lambda>_. Inr (Some r)))"

definition save_effect :: "(json \<Rightarrow> string) \<Rightarrow> (string \<Rightarrow> string) \<Rightarrow> run_identity \<Rightarrow> string \<Rightarrow> string \<Rightarrow> json
    \<Rightarrow> effect_store \<Rightarrow> effect_store result" where
  "save_effect hj hs i key d v st =
     bind_result (verifyDigest hj d v) (\<lambda>_.
     bind_result (resultKey hs i key) (\<lambda>k. Inr (AList.update k \<lparr>se_digest = d, se_result = v\<rparr> st)))"

section \<open>The coordinator\<close>

text \<open>The payload of an effect event is the intent or the reference to the committed result.\<close>

datatype effect_payload = PreparedEffect effect_intent | CommittedEffect committed_effect

record effect_world =
  ew_events :: "effect_payload event_store"
  ew_results :: effect_store

record effect_input =
  in_callId :: string
  in_kind :: "effect_kind option"
  in_target :: string
  in_arguments :: obj

record effect_policy =
  po_effect :: effect_class
  po_replay :: replay_policy

definition idempotencyKey :: "run_identity \<Rightarrow> string \<Rightarrow> string" where
  "idempotencyKey i call = ownerUserId i @ '':'' @ workspaceKey i @ '':'' @ runId i @ '':'' @ call"

definition prepare_effect :: "(json \<Rightarrow> string) \<Rightarrow> string \<Rightarrow> run_state \<Rightarrow> run_identity \<Rightarrow> effect_input
    \<Rightarrow> effect_policy \<Rightarrow> run_state \<times> effect_intent" where
  "prepare_effect hj now s i inp pol =
     (let intent = \<lparr>ei_key = idempotencyKey i (in_callId inp),
            ei_kind = (case in_kind inp of None \<Rightarrow> ETool | Some k \<Rightarrow> k),
            ei_effect = po_effect pol, ei_replay = po_replay pol, ei_target = in_target inp,
            ei_payloadDigest = digestValue hj (JObj (in_arguments inp)), ei_preparedAt = now\<rparr>
      in if list_ex (\<lambda>c. ei_key c = ei_key intent) (pendingEffects s) then (s, intent)
         else (s\<lparr>pendingEffects := pendingEffects s @ [intent], updatedAt := now\<rparr>, intent))"

text \<open>\<open>append\<close> of the coordinator: list the run's events, number the new one with the next number.\<close>

definition effect_append :: "run_identity \<Rightarrow> run_state \<Rightarrow> string \<Rightarrow> effect_payload \<Rightarrow> string \<Rightarrow> fence option
    \<Rightarrow> string \<Rightarrow> string \<Rightarrow> effect_payload event_store
    \<Rightarrow> effect_payload run_event result \<times> effect_payload event_store" where
  "effect_append i s ty payload key f uuid now st = (case listAfter i 0 st of
      Inl e \<Rightarrow> (Inl e, st)
    | Inr es \<Rightarrow> append_event \<lparr>ev_id = uuid, ev_seq = max_seq (map ev_seq es) + 1, ev_identity = i,
        ev_step = Some (nodeId (cursor s)),
        ev_attempt = Some (nodeId (cursor s) @ '':'' @ show_nat (attempt (cursor s))),
        ev_type = ty, ev_key = Some key, ev_payload = payload, ev_time = now\<rparr> f st)"

definition recordPrepared :: "run_identity \<Rightarrow> run_state \<Rightarrow> effect_intent \<Rightarrow> fence option \<Rightarrow> string \<Rightarrow> string
    \<Rightarrow> effect_payload event_store \<Rightarrow> effect_payload run_event result \<times> effect_payload event_store" where
  "recordPrepared i s intent f uuid now st =
     effect_append i s ''effect.prepared'' (PreparedEffect intent) (ei_key intent) f uuid now st"

definition commit_effect :: "(json \<Rightarrow> string) \<Rightarrow> (string \<Rightarrow> string) \<Rightarrow> run_identity \<Rightarrow> run_state
    \<Rightarrow> effect_intent \<Rightarrow> json \<Rightarrow> fence option \<Rightarrow> string \<Rightarrow> string \<Rightarrow> string \<Rightarrow> effect_world
    \<Rightarrow> (run_state \<times> effect_payload run_event) result \<times> effect_world" where
  "commit_effect hj hs i s intent v f uuid now now' w =
     (case List.find (\<lambda>c. ce_key c = ei_key intent) (committedEffects s) of
        Some c \<Rightarrow>
          (let r = effect_append i s ''effect.committed'' (CommittedEffect c) (ei_key intent) f uuid now (ew_events w)
           in (bind_result (fst r) (\<lambda>e. Inr (s, e)), w\<lparr>ew_events := snd r\<rparr>))
      | None \<Rightarrow>
          (let c = \<lparr>ce_key = ei_key intent, ce_resultDigest = digestValue hj v, ce_status = ECommitted,
                 ce_resultRef = None, ce_committedAt = now\<rparr>
           in case save_effect hj hs i (ei_key intent) (ce_resultDigest c) v (ew_results w) of
                Inl e \<Rightarrow> (Inl e, w)
              | Inr rs \<Rightarrow>
                  (let w' = w\<lparr>ew_results := rs\<rparr>;
                       r = effect_append i s ''effect.committed'' (CommittedEffect c) (ei_key intent) f uuid now'
                         (ew_events w)
                   in (bind_result (fst r) (\<lambda>e. Inr
                        (s\<lparr>pendingEffects := filter (\<lambda>p. ei_key p \<noteq> ei_key intent) (pendingEffects s),
                           committedEffects := committedEffects s @ [c], updatedAt := now\<rparr>, e)),
                      w'\<lparr>ew_events := snd r\<rparr>))))"

definition storedResult :: "(json \<Rightarrow> string) \<Rightarrow> (string \<Rightarrow> string) \<Rightarrow> run_identity \<Rightarrow> string \<Rightarrow> effect_store
    \<Rightarrow> json option result" where
  "storedResult hj hs i key st =
     bind_result (load_effect hj hs i key st) (\<lambda>r. Inr (map_option se_result r))"

section \<open>What committing promises\<close>

lemma save_effect_load:
  assumes "save_effect hj hs i key d v st = Inr st'"
  shows "storedResult hj hs i key st' = Inr (Some v)"
  using assms
  by (auto simp: save_effect_def storedResult_def load_effect_def result_simps)

lemma save_effect_own_digest:
  "ok_identity i \<Longrightarrow> \<exists>st'. save_effect hj hs i key (digestValue hj v) v st = Inr st'"
  using identityKey_defined [of i]
  by (auto simp: save_effect_def verifyDigest_def effectResultDigest_def digestValue_def resultKey_def
      runtimeScopeDigest_def identityKey_def)

lemma listAfter_next_seq:
  assumes "ok_identity i" and "es_well st" and "listAfter i 0 st = Inr es"
  shows "max_seq (map ev_seq es) + 1 = run_log.next_seq st i"
proof -
  have "es = store_log st i"
    using assms run_log.log_positive [OF assms(2)] by (simp add: listAfter_log filter_id_conv)
  then show ?thesis by (simp add: run_log.next_seq_def)
qed


definition sample_intent :: effect_intent where
  "sample_intent = \<lparr>ei_key = ''u1:w1:r1:c1'', ei_kind = ETool, ei_effect = ERead, ei_replay = RSafe,
     ei_target = ''read_file'', ei_payloadDigest = ''d'', ei_preparedAt = ''now''\<rparr>"

definition sample_commit :: "(run_state \<times> effect_payload run_event) result \<times> effect_world" where
  "sample_commit = commit_effect (\<lambda>_. ''d'') (\<lambda>k. k) sample_identity sample_state sample_intent (JStr ''ok'')
     None ''uuid'' ''now'' ''now'' \<lparr>ew_events = empty_event_store, ew_results = []\<rparr>"

lemma sample_commit_ok: "case fst sample_commit of Inr (s, e) \<Rightarrow> ev_seq e = 1 | Inl _ \<Rightarrow> False"
  by code_simp


text \<open>
  An effect event extends the log of its run by exactly one event, whose number is one above every
  number logged before, and leaves the logs of all other runs unchanged.
\<close>

theorem effect_append_extends:
  assumes "es_well st" and "ok_identity i" and "store_accepts i f st"
    and "ok_string uuid" and "\<forall>c \<in> set (store_log st i). ev_id c \<noteq> uuid"
    and "ok_string (nodeId (cursor s))" and "ok_string ty" and "ok_string key" and "ok_string now"
    and "ok_string (nodeId (cursor s) @ '':'' @ show_nat (attempt (cursor s)))"
    and "ok_nat (run_log.next_seq st i)"
  shows "\<exists>e. fst (effect_append i s ty p key f uuid now st) = Inr e \<and> ev_payload e = p
    \<and> (\<forall>c \<in> set (store_log st i). ev_seq c < ev_seq e)
    \<and> store_log (snd (effect_append i s ty p key f uuid now st)) = (store_log st)(i := store_log st i @ [e])"
proof -
  have es: "listAfter i 0 st = Inr (store_log st i)"
    using assms(2) run_log.log_positive [OF assms(1)] by (simp add: listAfter_log filter_id_conv)
  have next_eq: "max_seq (map ev_seq (store_log st i)) + 1 = run_log.next_seq st i"
    by (simp add: run_log.next_seq_def)
  define e where "e = \<lparr>ev_id = uuid, ev_seq = run_log.next_seq st i, ev_identity = i,
        ev_step = Some (nodeId (cursor s)),
        ev_attempt = Some (nodeId (cursor s) @ '':'' @ show_nat (attempt (cursor s))),
        ev_type = ty, ev_key = Some key, ev_payload = p, ev_time = now\<rparr>"
  have run: "effect_append i s ty p key f uuid now st = append_event e f st"
    by (simp only: effect_append_def es sum.case next_eq e_def)
  have ok: "ok_event e"
    using assms by (simp add: e_def ok_event_def ok_option_def run_log.next_seq_def)
  have "\<forall>c \<in> set (store_log st i). ev_seq c < ev_seq e"
    using max_seq_ge by (fastforce simp: e_def run_log.next_seq_def less_Suc_eq_le)
  moreover have "fst (append_event e f st) = Inr e"
    "store_log (snd (append_event e f st)) = (store_log st)(i := store_log st i @ [e])"
    using run_log.record_next [OF assms(1) ok, of f] assms by (simp_all add: e_def)
  ultimately show ?thesis unfolding run by (intro exI [of _ e]) (simp add: e_def)
qed

theorem effect_append_extends_witness:
  "\<exists>e. fst (effect_append sample_identity sample_state ''effect.prepared'' (PreparedEffect sample_intent)
     ''k'' None ''uuid'' ''now'' empty_event_store) = Inr e"
proof -
  have "\<exists>e. fst (effect_append sample_identity sample_state ''effect.prepared'' (PreparedEffect sample_intent)
     ''k'' None ''uuid'' ''now'' empty_event_store) = Inr e \<and> ev_payload e = PreparedEffect sample_intent
    \<and> (\<forall>c \<in> set (store_log (empty_event_store :: effect_payload event_store) sample_identity). ev_seq c < ev_seq e)
    \<and> store_log (snd (effect_append sample_identity sample_state ''effect.prepared''
        (PreparedEffect sample_intent) ''k'' None ''uuid'' ''now'' empty_event_store))
      = (store_log empty_event_store)(sample_identity := store_log empty_event_store sample_identity @ [e])"
    by (rule effect_append_extends [where st = empty_event_store and i = sample_identity and f = None
          and uuid = "''uuid''" and s = sample_state and ty = "''effect.prepared''" and key = "''k''"
          and now = "''now''" and p = "PreparedEffect sample_intent"])
      (use append_all_well [of "[]"] in \<open>simp_all add: append_all_def store_accepts_def fence_epochs_def
        store_log_key get_or_def empty_event_store_def run_log.next_seq_def max_seq_def sample_state_def
        ok_string_Cons is_js_space_def show_nat.simps ok_nat_def max_safe_integer_def\<close>)
  then show ?thesis by blast
qed

end
