(* ===== verification/KernelReduce.thy ===== *)
theory KernelReduce
  imports ExecutionGraph RunStores
begin

text \<open>
  The pure part of the run kernel, \<open>loop/src/runtime-kernel.ts\<close>: how a state takes the commands of a
  node or a middleware (\<open>applyCommands\<close>, \<open>addBudget\<close>), how it takes a committed event
  (\<open>reduceCompletedNode\<close>, \<open>reduceAfterMiddleware\<close>), the payloads of these events and their checks, the
  compatibility and migration of graph versions. A reading of the clock is the argument \<open>now\<close>.

  Monetary and token totals are rational numbers: the sums are exact, the range checks are those of
  the source (\<open>Number.isFinite\<close>, \<open>Number.isSafeInteger\<close>).

  The lemmas show that usage ids are counted once, that a task revision never decreases, that a
  terminal state keeps its result, and that every reduction of a schema-valid state is schema-valid.
\<close>

section \<open>Status\<close>

definition isTerminal :: "run_state \<Rightarrow> bool" where
  "isTerminal s = (status s = Completed \<or> status s = Degraded \<or> status s = Failed
     \<or> status s = Aborted \<or> status s = Suspended)"

fun outcome_of_status :: "run_status \<Rightarrow> outcome_status" where
  "outcome_of_status Completed = OCompleted"
| "outcome_of_status Degraded = ODegraded"
| "outcome_of_status Aborted = OAborted"
| "outcome_of_status Suspended = OSuspended"
| "outcome_of_status _ = OFailed"

definition outcomeFromTerminalState :: "run_state \<Rightarrow> run_outcome" where
  "outcomeFromTerminalState s = (case outcome s of
      Some x \<Rightarrow> x
    | None \<Rightarrow> \<lparr>oc_status = outcome_of_status (status s), oc_reason = Runtime_error, oc_item = None,
        oc_retryable = False, oc_details = None\<rparr>)"

definition leaseUnavailableOutcome :: run_outcome where
  "leaseUnavailableOutcome = \<lparr>oc_status = OFailed, oc_reason = Runtime_error, oc_item = None,
     oc_retryable = True, oc_details = Some [(''code'', JStr ''lease_unavailable'')]\<rparr>"

definition withOutcome :: "string \<Rightarrow> run_state \<Rightarrow> run_outcome \<Rightarrow> run_state" where
  "withOutcome now s x =
     (if isTerminal s then s
      else s\<lparr>status := status_of (oc_status x), outcome := Some x, updatedAt := now\<rparr>)"

definition initialState :: "execution_graph \<Rightarrow> string \<Rightarrow> run_identity \<Rightarrow> run_state" where
  "initialState g now i = \<lparr>graphVersion = g_version g, identity = i, parentRunId = None,
     status = Created,
     cursor = \<lparr>stepIndex = 0, nodeId = g_start g, attempt = 0, checkpointSeq = 0\<rparr>,
     budgets = \<lparr>stepsUsed = 0, toolCallsUsed = 0, inputTokens = 0, outputTokens = 0, costUsd = 0\<rparr>,
     recovery = \<lparr>attempts = 0, maxAttempts = 1, lastReason = None\<rparr>, middleware = [], nodeData = [],
     taskRevision = 0, pendingEffects = [], committedEffects = [], outcome = None,
     createdAt = now, updatedAt = now\<rparr>"

section \<open>Budgets\<close>

fun get_budget :: "budget_key \<Rightarrow> budget_state \<Rightarrow> rat" where
  "get_budget KStepsUsed b = stepsUsed b"
| "get_budget KToolCallsUsed b = toolCallsUsed b"
| "get_budget KInputTokens b = inputTokens b"
| "get_budget KOutputTokens b = outputTokens b"
| "get_budget KCostUsd b = costUsd b"

fun set_budget :: "budget_key \<Rightarrow> rat \<Rightarrow> budget_state \<Rightarrow> budget_state" where
  "set_budget KStepsUsed v b = b\<lparr>stepsUsed := v\<rparr>"
| "set_budget KToolCallsUsed v b = b\<lparr>toolCallsUsed := v\<rparr>"
| "set_budget KInputTokens v b = b\<lparr>inputTokens := v\<rparr>"
| "set_budget KOutputTokens v b = b\<lparr>outputTokens := v\<rparr>"
| "set_budget KCostUsd v b = b\<lparr>costUsd := v\<rparr>"

definition add_budget_key :: "budget_delta \<Rightarrow> budget_key \<Rightarrow> budget_state \<Rightarrow> budget_state result" where
  "add_budget_key d k b =
     (let v = get_budget k b + get_or 0 d k in
      if k = KCostUsd then
        (if is_finite_number v then Inr (set_budget k v b) else throw (''budget overflow: '' @ spelling budget_key_table k))
      else if is_safe_integer v then Inr (set_budget k v b)
      else throw (''unsafe budget total: '' @ spelling budget_key_table k))"

definition accounting_id :: string where
  "accounting_id = ''budget-accounting''"

text \<open>The set of processed usage ids is a list without repetition in insertion order.\<close>

definition accounting_state :: "string list \<Rightarrow> middleware_state" where
  "accounting_state ids = \<lparr>mw_version = 1,
     mw_data = JObj [(''processedUsageIds'', JArr (map JStr (sort ids)))]\<rparr>"

definition addBudget :: "run_state \<Rightarrow> budget_delta \<Rightarrow> string option \<Rightarrow> string list
    \<Rightarrow> (run_state \<times> string list) result" where
  "addBudget s d u ids =
     (case u of
        Some i \<Rightarrow>
          if i \<noteq> [] \<and> i \<in> set ids then Inr (s, ids)
          else bind_result (fold_result (add_budget_key d) budgetKeys (budgets s)) (\<lambda>b.
            if i = [] then Inr (s\<lparr>budgets := b\<rparr>, ids)
            else Inr (s\<lparr>budgets := b,
              middleware := AList.update accounting_id (accounting_state (ids @ [i])) (middleware s)\<rparr>, ids @ [i]))
      | None \<Rightarrow> bind_result (fold_result (add_budget_key d) budgetKeys (budgets s)) (\<lambda>b.
          Inr (s\<lparr>budgets := b\<rparr>, ids)))"

definition usage_id :: "json \<Rightarrow> string result" where
  "usage_id v = (case v of
      JStr i \<Rightarrow> if i = [] then throw ''invalid budget-accounting usage ids'' else Inr i
    | _ \<Rightarrow> throw ''invalid budget-accounting usage ids'')"

definition budgetUsageIdSet :: "run_state \<Rightarrow> string list result" where
  "budgetUsageIdSet s = (case map_of (middleware s) accounting_id of
      None \<Rightarrow> Inr []
    | Some m \<Rightarrow>
        if mw_version m \<noteq> 1 then
          throw (''unsupported budget-accounting middleware version: '' @ show_nat (mw_version m))
        else (case mw_data m of
            JObj kvs \<Rightarrow> (case map_of kvs ''processedUsageIds'' of
                Some (JArr xs) \<Rightarrow> bind_result (map_result usage_id xs) (\<lambda>ids. Inr (remdups ids))
              | _ \<Rightarrow> throw ''invalid budget-accounting middleware state'')
          | _ \<Rightarrow> throw ''invalid budget-accounting middleware state''))"

section \<open>Commands\<close>

text \<open>
  One turn of the loop of \<open>applyCommands\<close>; the second component is \<open>processedUsageIds\<close>, which is read
  from the state at the first \<open>add-budget\<close> and again after a command replaced the accounting state.
\<close>

fun apply_command :: "command \<Rightarrow> run_state \<times> string list option \<Rightarrow> (run_state \<times> string list option) result" where
  "apply_command (SetMiddlewareState i m) (s, ids) =
     Inr (s\<lparr>middleware := AList.update i m (middleware s)\<rparr>, if i = accounting_id then None else ids)"
| "apply_command (SetBudget k v) (s, ids) = Inr (s\<lparr>budgets := set_budget k v (budgets s)\<rparr>, ids)"
| "apply_command (AddBudget d u) (s, ids) =
     bind_result (case ids of Some xs \<Rightarrow> Inr xs | None \<Rightarrow> budgetUsageIdSet s) (\<lambda>xs.
     bind_result (addBudget s d u xs) (\<lambda>r. Inr (fst r, Some (snd r))))"
| "apply_command (SetNodeData n v) (s, ids) = Inr (s\<lparr>nodeData := AList.update n v (nodeData s)\<rparr>, ids)"
| "apply_command (SetTaskRevision n) (s, ids) =
     (if n < taskRevision s then
        throw (''task revision cannot move backwards: '' @ show_nat (taskRevision s) @ '' -> '' @ show_nat n)
      else Inr (s\<lparr>taskRevision := n\<rparr>, ids))"
| "apply_command (SetRecovery r) (s, ids) = Inr (s\<lparr>recovery := r\<rparr>, ids)"
| "apply_command (SetEffects p c) (s, ids) = Inr (s\<lparr>pendingEffects := p, committedEffects := c\<rparr>, ids)"
| "apply_command c (s, ids) = Inr (s, ids)"

definition applyCommands :: "run_state \<Rightarrow> command list \<Rightarrow> run_state result" where
  "applyCommands s cs =
     bind_result (canon cs) (\<lambda>cs'.
     bind_result (fold_result apply_command cs' (s, None)) (\<lambda>r. Inr (fst r)))"

fun command_outcome :: "command \<Rightarrow> run_outcome option" where
  "command_outcome (Terminate x) = Some x"
| "command_outcome (Suspend x) = Some x"
| "command_outcome _ = None"

fun commandOutcome :: "command list \<Rightarrow> run_outcome option" where
  "commandOutcome [] = None"
| "commandOutcome (c # cs) = (case command_outcome c of Some x \<Rightarrow> Some x | None \<Rightarrow> commandOutcome cs)"

fun jump_target :: "command \<Rightarrow> string option" where
  "jump_target (Jump n c r) = Some n"
| "jump_target _ = None"

fun is_retry :: "command \<Rightarrow> bool" where
  "is_retry (Retry r) = True"
| "is_retry _ = False"

text \<open>\<open>[...commands].reverse().find(jump)\<close>: the last jump.\<close>

definition last_jump :: "command list \<Rightarrow> string option" where
  "last_jump cs = last_opt (List.map_filter jump_target cs)"

definition nodeFor :: "execution_graph \<Rightarrow> string \<Rightarrow> runtime_node result" where
  "nodeFor g n = (case find_node g n of
      Some x \<Rightarrow> Inr x
    | None \<Rightarrow> throw (''unknown graph node: '' @ n))"

definition middlewareControlTarget :: "execution_graph \<Rightarrow> command list \<Rightarrow> string \<Rightarrow> string option" where
  "middlewareControlTarget g cs dflt = (case last_jump cs of
      Some n \<Rightarrow> Some n
    | None \<Rightarrow>
        if list_ex is_retry cs then
          Some (case find_node g ''build-context'' of Some x \<Rightarrow> rn_id x | None \<Rightarrow> dflt)
        else None)"

section \<open>Event payloads\<close>

record completed_payload =
  cp_nodeId :: string
  cp_stepIndex :: nat
  cp_condition :: string
  cp_commands :: "command list"
  cp_facts :: "obj option"
  cp_value :: "json option"
  cp_outcome :: "run_outcome option"

record after_payload =
  ap_nodeId :: string
  ap_stepIndex :: nat
  ap_commands :: "command list"
  ap_outcome :: "run_outcome option"

definition completed_json :: "completed_payload \<Rightarrow> json" where
  "completed_json p = JObj ([(''nodeId'', JStr (cp_nodeId p)),
     (''stepIndex'', JNum (of_nat (cp_stepIndex p))), (''condition'', JStr (cp_condition p)),
     (''commands'', JArr (map command_json (cp_commands p)))]
     @ opt_field ''facts'' JObj (cp_facts p) @ opt_field ''value'' (\<lambda>v. v) (cp_value p)
     @ opt_field ''outcome'' outcome_json (cp_outcome p))"

definition after_json :: "after_payload \<Rightarrow> json" where
  "after_json p = JObj ([(''nodeId'', JStr (ap_nodeId p)),
     (''stepIndex'', JNum (of_nat (ap_stepIndex p))),
     (''commands'', JArr (map command_json (ap_commands p)))]
     @ opt_field ''outcome'' outcome_json (ap_outcome p))"

text \<open>A value that is an object for \<open>typeof\<close>: the properties of an array are none of those read.\<close>

fun object_properties :: "json \<Rightarrow> obj option" where
  "object_properties (JObj kvs) = Some kvs"
| "object_properties (JArr _) = Some []"
| "object_properties _ = None"

definition read_nonempty :: "string \<Rightarrow> json option \<Rightarrow> string result" where
  "read_nonempty m v = (case v of Some (JStr s) \<Rightarrow> if s = [] then throw m else Inr s | _ \<Rightarrow> throw m)"

definition read_step :: "string \<Rightarrow> json option \<Rightarrow> nat result" where
  "read_step m v = (case v of
      Some (JNum q) \<Rightarrow> if of_int \<lfloor>q\<rfloor> = q \<and> 0 \<le> q then Inr (nat \<lfloor>q\<rfloor>) else throw m
    | _ \<Rightarrow> throw m)"

definition read_commands :: "string \<Rightarrow> json option \<Rightarrow> json result" where
  "read_commands m v = (case v of Some (JArr xs) \<Rightarrow> Inr (JArr xs) | _ \<Rightarrow> throw m)"

definition read_facts :: "json option \<Rightarrow> obj option result" where
  "read_facts v = (case v of None \<Rightarrow> Inr None | Some (JObj kvs) \<Rightarrow> Inr (Some kvs)
     | _ \<Rightarrow> throw ''invalid node.completed facts'')"

text \<open>
  The source takes the outcome of a payload as it is (a type assertion); the model reads an outcome
  of the schema's shape, and nothing when the property is missing.
\<close>

definition read_outcome :: "json option \<Rightarrow> run_outcome option result" where
  "read_outcome v = (case v of None \<Rightarrow> Inr None
     | Some j \<Rightarrow> bind_result (parse_outcome j) (\<lambda>x. Inr (Some x)))"

definition parseCompletedNodePayload :: "json \<Rightarrow> completed_payload result" where
  "parseCompletedNodePayload v = (case object_properties v of
      None \<Rightarrow> throw ''invalid node.completed payload''
    | Some r \<Rightarrow>
        bind_result (read_nonempty ''invalid node.completed nodeId'' (map_of r ''nodeId'')) (\<lambda>n.
        bind_result (read_step ''invalid node.completed stepIndex'' (map_of r ''stepIndex'')) (\<lambda>st.
        bind_result (read_nonempty ''invalid node.completed condition'' (map_of r ''condition'')) (\<lambda>c.
        bind_result (read_commands ''invalid node.completed commands'' (map_of r ''commands'')) (\<lambda>cj.
        bind_result (read_facts (map_of r ''facts'')) (\<lambda>f.
        bind_result (canonicalizeMiddlewareCommands cj) (\<lambda>cs.
        bind_result (read_outcome (map_of r ''outcome'')) (\<lambda>x.
        Inr \<lparr>cp_nodeId = n, cp_stepIndex = st, cp_condition = c, cp_commands = cs, cp_facts = f,
          cp_value = map_of r ''value'', cp_outcome = x\<rparr>))))))))"

definition parseAfterMiddlewarePayload :: "json \<Rightarrow> after_payload result" where
  "parseAfterMiddlewarePayload v = (case object_properties v of
      None \<Rightarrow> throw ''invalid node.after_middleware payload''
    | Some r \<Rightarrow>
        bind_result (read_nonempty ''invalid node.after_middleware nodeId'' (map_of r ''nodeId'')) (\<lambda>n.
        bind_result (read_step ''invalid node.after_middleware stepIndex'' (map_of r ''stepIndex'')) (\<lambda>st.
        bind_result (read_commands ''invalid node.after_middleware commands'' (map_of r ''commands'')) (\<lambda>cj.
        bind_result (canonicalizeMiddlewareCommands cj) (\<lambda>cs.
        bind_result (read_outcome (map_of r ''outcome'')) (\<lambda>x.
        Inr \<lparr>ap_nodeId = n, ap_stepIndex = st, ap_commands = cs, ap_outcome = x\<rparr>))))))"

definition assertAfterMiddlewareMatches :: "completed_payload \<Rightarrow> after_payload \<Rightarrow> unit result" where
  "assertAfterMiddlewareMatches c a =
     (if ap_nodeId a \<noteq> cp_nodeId c \<or> ap_stepIndex a \<noteq> cp_stepIndex c
      then throw ''node.after_middleware does not match node.completed'' else Inr ())"

section \<open>Reductions\<close>

definition advance_checkpoint :: "nat \<Rightarrow> run_cursor \<Rightarrow> run_cursor" where
  "advance_checkpoint n c = c\<lparr>checkpointSeq := max (checkpointSeq c) n\<rparr>"

definition next_edge :: "execution_graph \<Rightarrow> string \<Rightarrow> completed_payload \<Rightarrow> (string \<times> bool) result" where
  "next_edge g n p = (case last_jump (cp_commands p) of
      Some t \<Rightarrow> Inr (t, False)
    | None \<Rightarrow> (case outgoingEdges g n (cp_condition p) of
        e # _ \<Rightarrow> Inr (re_to e, re_loop e)
      | [] \<Rightarrow> throw (''no graph edge for '' @ n @ '' condition '' @ cp_condition p)))"

definition store_value :: "string \<Rightarrow> json option \<Rightarrow> run_state \<Rightarrow> run_state" where
  "store_value n v s = (case v of None \<Rightarrow> s | Some x \<Rightarrow> s\<lparr>nodeData := AList.update n x (nodeData s)\<rparr>)"

definition reduceCompletedNode :: "execution_graph \<Rightarrow> string \<Rightarrow> run_state \<Rightarrow> runtime_node \<Rightarrow> completed_payload
    \<Rightarrow> nat \<Rightarrow> run_state result" where
  "reduceCompletedNode g now s node p seq =
     bind_result (applyCommands s (cp_commands p)) (\<lambda>a.
     let nx = store_value (rn_id node) (cp_value p) a in
     case cp_outcome p of
       Some x \<Rightarrow> Inr ((withOutcome now nx x)\<lparr>cursor := advance_checkpoint seq (cursor nx), updatedAt := now\<rparr>)
     | None \<Rightarrow>
         bind_result (next_edge g (rn_id node) p) (\<lambda>tl.
         bind_result (nodeFor g (fst tl)) (\<lambda>_.
         Inr (nx\<lparr>status := Running,
           cursor := \<lparr>stepIndex = stepIndex (cursor nx) + 1, nodeId = fst tl,
             attempt = (if snd tl then attempt (cursor nx) + 1 else 0),
             checkpointSeq = max (checkpointSeq (cursor nx)) seq\<rparr>,
           updatedAt := now\<rparr>))))"

definition redirect :: "execution_graph \<Rightarrow> command list \<Rightarrow> run_state \<Rightarrow> run_state result" where
  "redirect g cs s =
     (if isTerminal s then Inr s
      else case middlewareControlTarget g cs (nodeId (cursor s)) of
          None \<Rightarrow> Inr s
        | Some n \<Rightarrow> bind_result (nodeFor g n) (\<lambda>_.
            Inr (s\<lparr>cursor := (cursor s)\<lparr>nodeId := n, attempt := attempt (cursor s) + 1\<rparr>\<rparr>)))"

definition reduceAfterMiddleware :: "execution_graph \<Rightarrow> string \<Rightarrow> run_state \<Rightarrow> after_payload \<Rightarrow> nat
    \<Rightarrow> run_state result" where
  "reduceAfterMiddleware g now s p seq =
     bind_result
       (if isTerminal s then Inr s
        else bind_result (applyCommands s (ap_commands p)) (\<lambda>a.
          Inr (case (case ap_outcome p of Some x \<Rightarrow> Some x | None \<Rightarrow> commandOutcome (ap_commands p)) of
              Some x \<Rightarrow> withOutcome now a x | None \<Rightarrow> a))) (\<lambda>a.
     bind_result (redirect g (ap_commands p) a) (\<lambda>b.
     Inr (b\<lparr>cursor := advance_checkpoint seq (cursor b), updatedAt := now\<rparr>)))"

section \<open>Graph versions\<close>

definition production_v1 :: string where "production_v1 = ''kernel-v3-production-v1''"
definition production_v2 :: string where "production_v2 = ''kernel-v3-production-v2''"
definition production_v3 :: string where "production_v3 = ''kernel-v3-production-v3''"

definition graphCompatibility :: "execution_graph \<Rightarrow> run_state \<Rightarrow> run_outcome option" where
  "graphCompatibility g s =
     (if graphVersion s = g_version g then None
      else if graphVersion s = production_v1 \<and> g_version g = production_v2 then None
      else if g_version g = production_v3 \<and> (graphVersion s = production_v1 \<or> graphVersion s = production_v2)
        then None
      else Some \<lparr>oc_status = OFailed, oc_reason = Runtime_error, oc_item = None, oc_retryable = False,
        oc_details = Some [(''code'', JStr ''unsupported_graph_version''),
          (''storedGraphVersion'', JStr (graphVersion s)), (''runtimeGraphVersion'', JStr (g_version g))]\<rparr>)"

definition call_id :: "json \<Rightarrow> string list" where
  "call_id v = (case object_properties v of
      Some r \<Rightarrow> (case map_of r ''callId'' of Some (JStr i) \<Rightarrow> if i = [] then [] else [i] | _ \<Rightarrow> [])
    | None \<Rightarrow> [])"

definition preparedCallIds :: "json option \<Rightarrow> string list" where
  "preparedCallIds v = (case v of
      Some (JObj r) \<Rightarrow> (case map_of r ''calls'' of Some (JArr xs) \<Rightarrow> concat (map call_id xs) | _ \<Rightarrow> [])
    | _ \<Rightarrow> [])"

definition proposalNeedsAccounting :: "string \<Rightarrow> bool" where
  "proposalNeedsAccounting n = (n \<in> set [''evaluate'', ''commit-assistant'', ''materialize-proposal'',
     ''prepare-tools'', ''commit-tools'', ''recover-context'', ''wait-user'', ''fail''])"

text \<open>
  The schema checks of a model proposal and of a task state are parameters: \<open>okp\<close> returns the number
  of tool intents of a well-formed proposal, \<open>okt\<close> accepts a well-formed task state.
\<close>

type_synonym proposal_check = "json option \<Rightarrow> nat option"
type_synonym task_check = "json option \<Rightarrow> bool"

definition requireMigratableProposal :: "proposal_check \<Rightarrow> task_check \<Rightarrow> run_state \<Rightarrow> string \<Rightarrow> unit result" where
  "requireMigratableProposal okp okt s source =
     (if okp (map_of (nodeData s) ''normalize-proposal'') = None \<or> \<not> okt (map_of (nodeData s) ''restore-task'')
      then throw (source @ '' snapshot is missing a normalized proposal or task state'') else Inr ())"

definition to_node :: "string \<Rightarrow> run_cursor \<Rightarrow> run_cursor" where
  "to_node n c = c\<lparr>nodeId := n\<rparr>"

definition accounting_marker :: "string \<Rightarrow> json" where
  "accounting_marker resume = JObj [(''resumeNodeId'', JStr resume), (''consumed'', JBool False)]"

text \<open>The migration to the accounting node that the two older versions share.\<close>

definition migrate_to_accounting :: "execution_graph \<Rightarrow> proposal_check \<Rightarrow> task_check \<Rightarrow> string \<Rightarrow> string
    \<Rightarrow> string \<Rightarrow> run_state \<Rightarrow> run_state result" where
  "migrate_to_accounting g okp okt source marker resume s =
     bind_result (requireMigratableProposal okp okt s source) (\<lambda>_.
     Inr (s\<lparr>graphVersion := g_version g, cursor := to_node ''account-model'' (cursor s),
       nodeData := (if nodeId (cursor s) = ''evaluate'' then nodeData s
         else AList.update marker (accounting_marker resume) (nodeData s))\<rparr>))"

definition migrate_v1_tools :: "execution_graph \<Rightarrow> proposal_check \<Rightarrow> task_check \<Rightarrow> string \<Rightarrow> run_state
    \<Rightarrow> run_state result" where
  "migrate_v1_tools g okp okt now s =
     (let n = nodeId (cursor s); prop = okp (map_of (nodeData s) ''normalize-proposal'');
          prepared = (if n = ''commit-tools'' then preparedCallIds (map_of (nodeData s) ''prepare-tools'') else [])
      in if prop = None \<or> \<not> okt (map_of (nodeData s) ''restore-task'')
            \<or> (n \<noteq> ''commit-assistant'' \<and> prop = Some 0)
         then throw ''production graph v1 tool snapshot is missing a normalized tool proposal or task state''
         else if n = ''commit-tools'' \<and> prepared = []
         then throw ''production graph v1 commit-tools snapshot is missing prepared calls''
         else Inr (s\<lparr>graphVersion := g_version g,
           cursor := to_node (if g_version g = production_v3 then ''account-model'' else ''evaluate'') (cursor s),
           nodeData := (if prepared = [] then nodeData s
             else AList.update ''v1-proposal-migration'' (JObj [(''sourceNodeId'', JStr n),
               (''preparedCallIds'', JArr (map JStr prepared)), (''reconciled'', JBool False),
               (''abortFinishedAt'', JStr now)]) (nodeData s))\<rparr>))"

definition migrateGraphState :: "execution_graph \<Rightarrow> proposal_check \<Rightarrow> task_check \<Rightarrow> string \<Rightarrow> run_state
    \<Rightarrow> run_state result" where
  "migrateGraphState g okp okt now s =
     (let n = nodeId (cursor s) in
      if graphVersion s = g_version g then Inr s
      else if graphVersion s = production_v2 \<and> g_version g = production_v3 then
        (if \<not> proposalNeedsAccounting n then Inr (s\<lparr>graphVersion := g_version g\<rparr>)
         else migrate_to_accounting g okp okt ''production graph v2'' ''v2-accounting-migration''
           (if n = ''commit-tools'' then ''prepare-tools'' else n) s)
      else if graphVersion s \<noteq> production_v1 \<or> (g_version g \<noteq> production_v2 \<and> g_version g \<noteq> production_v3)
        then Inr s
      else if n \<noteq> ''prepare-tools'' \<and> n \<noteq> ''commit-tools'' \<and> n \<noteq> ''commit-assistant'' then
        (if g_version g = production_v3 \<and> proposalNeedsAccounting n
         then migrate_to_accounting g okp okt ''production graph v1'' ''v1-accounting-migration'' n s
         else Inr (s\<lparr>graphVersion := g_version g\<rparr>))
      else migrate_v1_tools g okp okt now s)"

definition migrateTerminalGraphMetadata :: "execution_graph \<Rightarrow> run_state \<Rightarrow> run_state" where
  "migrateTerminalGraphMetadata g s =
     (if graphVersion s = production_v1 \<and> g_version g = production_v2 then s\<lparr>graphVersion := g_version g\<rparr>
      else if g_version g = production_v3 \<and> (graphVersion s = production_v1 \<or> graphVersion s = production_v2)
        then s\<lparr>graphVersion := g_version g\<rparr>
      else s)"

section \<open>Commands keep the schema\<close>

lemma set_budget_get: "get_budget k' (set_budget k v b) = (if k' = k then v else get_budget k' b)"
  by (cases k; cases k') simp_all

lemma ok_budgets_iff: "ok_budgets b \<longleftrightarrow> (\<forall>k. 0 \<le> get_budget k b \<and> (k = KCostUsd \<or> is_safe_integer (get_budget k b)))"
proof
  assume b: "ok_budgets b"
  show "\<forall>k. 0 \<le> get_budget k b \<and> (k = KCostUsd \<or> is_safe_integer (get_budget k b))"
  proof
    fix k
    show "0 \<le> get_budget k b \<and> (k = KCostUsd \<or> is_safe_integer (get_budget k b))"
      using b by (cases k) (simp_all add: ok_budgets_def)
  qed
next
  assume a: "\<forall>k. 0 \<le> get_budget k b \<and> (k = KCostUsd \<or> is_safe_integer (get_budget k b))"
  show "ok_budgets b"
    using a [rule_format, of KStepsUsed] a [rule_format, of KToolCallsUsed] a [rule_format, of KInputTokens]
      a [rule_format, of KOutputTokens] a [rule_format, of KCostUsd]
    by (simp add: ok_budgets_def)
qed

lemma ok_budgets_set: "ok_budgets b \<Longrightarrow> ok_budget_value k v \<Longrightarrow> ok_budgets (set_budget k v b)"
  by (auto simp: ok_budgets_iff set_budget_get ok_budget_value_def)

lemma map_of_ok_delta:
  "\<forall>kn \<in> set d. ok_budget_value (fst kn) (snd kn) \<Longrightarrow> 0 \<le> get_or 0 d k"
  by (auto simp: get_or_def ok_budget_value_def dest!: map_of_SomeD split: option.splits)

lemma add_budget_key_Inr:
  assumes "add_budget_key d k b = Inr b'"
  shows "b' = set_budget k (get_budget k b + get_or 0 d k) b
    \<and> (k = KCostUsd \<or> is_safe_integer (get_budget k b + get_or 0 d k))"
  using assms unfolding add_budget_key_def Let_def by (simp split: if_splits)

lemma add_budget_key_effect:
  "add_budget_key d k b = Inr b' \<Longrightarrow>
     get_budget k' b' = get_budget k' b + (if k' = k then get_or 0 d k else 0)"
  by (drule add_budget_key_Inr) (simp add: set_budget_get)

lemma add_budget_key_ok:
  assumes "add_budget_key d k b = Inr b'" and "\<forall>kn \<in> set d. ok_budget_value (fst kn) (snd kn)"
    and "ok_budgets b"
  shows "ok_budgets b'"
proof -
  have "0 \<le> get_budget k b + get_or 0 d k"
    using assms(3) map_of_ok_delta [OF assms(2)] by (simp add: ok_budgets_iff)
  then show ?thesis
    using add_budget_key_Inr [OF assms(1)] assms(3) ok_budgets_set by (simp add: ok_budget_value_def)
qed

lemma add_all_ok:
  assumes "fold_result (add_budget_key d) ks b = Inr b'" and "\<forall>kn \<in> set d. ok_budget_value (fst kn) (snd kn)"
    and "ok_budgets b"
  shows "ok_budgets b'"
  using assms(1,3) by (rule fold_result_invariant) (use add_budget_key_ok assms(2) in blast)

lemma add_all_effect:
  assumes "fold_result (add_budget_key d) ks b = Inr b'" and "distinct ks"
  shows "get_budget k b' = get_budget k b + (if k \<in> set ks then get_or 0 d k else 0)"
  using assms
proof (induction ks arbitrary: b)
  case (Cons x ks)
  then obtain c where c: "add_budget_key d x b = Inr c" "fold_result (add_budget_key d) ks c = Inr b'"
    by (auto simp: result_simps)
  from Cons.IH [OF c(2)] Cons.prems(2) add_budget_key_effect [OF c(1), of k] show ?case by auto
qed simp

lemma ok_middleware_update:
  "ok_middleware ms \<Longrightarrow> 0 < mw_version m \<Longrightarrow> ok_nat (mw_version m) \<Longrightarrow> ok_middleware (AList.update k m ms)"
  by (induction ms) (auto simp: ok_middleware_def)

lemma accounting_state_version [simp]: "mw_version (accounting_state ids) = 1"
  by (simp add: accounting_state_def)

lemma addBudget_ok:
  assumes "addBudget s d u ids = Inr (s', ids')" and "ok_state s"
    and "\<forall>kn \<in> set d. ok_budget_value (fst kn) (snd kn)"
  shows "ok_state s'"
proof -
  have upd: "ok_middleware (AList.update accounting_id (accounting_state xs) (middleware s))" for xs
    by (rule ok_middleware_update) (use assms(2) in \<open>auto simp: ok_state_def\<close>)
  have old: "ok_budgets (budgets s)" using assms(2) by (simp add: ok_state_def)
  show ?thesis
    using assms(1,2) upd add_all_ok [OF _ assms(3) old]
    by (auto simp: addBudget_def result_simps ok_state_def split: option.splits if_splits)
qed

lemma apply_command_ok:
  assumes "apply_command c (s, ids) = Inr (s', ids')" and "ok_command c" and "ok_state s"
  shows "ok_state s'"
  using assms
proof (cases c)
  case (SetMiddlewareState i m)
  then have "s' = s\<lparr>middleware := AList.update i m (middleware s)\<rparr>" using assms(1) by simp
  moreover have "ok_middleware (AList.update i m (middleware s))"
    by (rule ok_middleware_update) (use assms SetMiddlewareState in \<open>auto simp: ok_state_def\<close>)
  ultimately show ?thesis using assms(3) by (simp add: ok_state_def)
next
  case (SetBudget k v)
  then have "s' = s\<lparr>budgets := set_budget k v (budgets s)\<rparr>" using assms(1) by simp
  then show ?thesis using assms(2,3) SetBudget ok_budgets_set by (simp add: ok_state_def)
next
  case (AddBudget d u)
  then obtain xs ids2 where "addBudget s d u xs = Inr (s', ids2)"
    using assms(1) by (auto simp: result_simps)
  from addBudget_ok [OF this assms(3)] show ?thesis using AddBudget assms(2) by simp
qed (auto simp: ok_state_def split: if_splits)

definition ok_commands :: "command list \<Rightarrow> bool" where
  "ok_commands cs = (\<forall>c \<in> set cs. ok_command c)"

lemma canon_ok_commands: "canon cs = Inr cs' \<Longrightarrow> ok_commands cs'"
  by (simp add: ok_commands_def canon_ok)

lemma applyCommands_accepts:
  "ok_commands cs \<Longrightarrow> applyCommands s cs
     = bind_result (fold_result apply_command cs (s, None)) (\<lambda>r. Inr (fst r))"
  by (simp add: applyCommands_def canon_accepts ok_commands_def)

lemma apply_commands_fold_ok:
  assumes "fold_result apply_command cs r = Inr r'" and "ok_commands cs" and "ok_state (fst r)"
  shows "ok_state (fst r')"
  using assms(1,3)
proof (rule fold_result_invariant)
  fix c p q assume c: "c \<in> set cs" and ok: "ok_state (fst p)" and run: "apply_command c p = Inr q"
  obtain a b a' b' where "p = (a, b)" "q = (a', b')" by fastforce
  with apply_command_ok [of c a b a' b'] c ok run assms(2) show "ok_state (fst q)"
    by (simp add: ok_commands_def)
qed

lemma applyCommands_ok:
  assumes "applyCommands s cs = Inr s'" and "ok_state s"
  shows "ok_state s'"
proof -
  obtain cs' r where "canon cs = Inr cs'" "fold_result apply_command cs' (s, None) = Inr r" "s' = fst r"
    using assms(1) by (auto simp: applyCommands_def result_simps)
  with apply_commands_fold_ok [of cs' "(s, None)" r] canon_ok_commands assms(2) show ?thesis by auto
qed

text \<open>What no command touches: a state reached by commands is framed by the one it started from.\<close>

definition framed :: "run_state \<Rightarrow> run_state \<Rightarrow> bool" where
  "framed s t = (cursor t = cursor s \<and> status t = status s \<and> outcome t = outcome s
    \<and> identity t = identity s \<and> graphVersion t = graphVersion s \<and> createdAt t = createdAt s
    \<and> updatedAt t = updatedAt s \<and> parentRunId t = parentRunId s \<and> taskRevision s \<le> taskRevision t)"

lemma framed_refl [simp]: "framed s s"
  by (simp add: framed_def)

lemma framed_trans: "framed s t \<Longrightarrow> framed t u \<Longrightarrow> framed s u"
  unfolding framed_def by (elim conjE, intro conjI) simp_all

lemma addBudget_framed: "addBudget s d u ids = Inr (s', ids') \<Longrightarrow> framed s s'"
  by (auto simp: addBudget_def result_simps framed_def split: option.splits if_splits)

lemma apply_command_framed: "apply_command c (s, ids) = Inr (t, ids') \<Longrightarrow> framed s t"
proof (cases c)
  case (AddBudget d u)
  then show "apply_command c (s, ids) = Inr (t, ids') \<Longrightarrow> framed s t"
    using addBudget_framed by (auto simp: result_simps)
qed (auto simp: framed_def split: if_splits)

lemma applyCommands_framed:
  assumes "applyCommands s cs = Inr s'"
  shows "framed s s'"
proof -
  obtain cs' r where r: "fold_result apply_command cs' (s, None) = Inr r" "s' = fst r"
    using assms by (auto simp: applyCommands_def result_simps)
  have "framed s (fst r)"
    using r(1)
  proof (rule fold_result_invariant)
    show "framed s (fst p) \<Longrightarrow> apply_command c p = Inr q \<Longrightarrow> framed s (fst q)" for c p q
      using framed_trans [of s "fst p" "fst q"] apply_command_framed [of c "fst p" "snd p" "fst q" "snd q"] by simp
  qed simp
  with r show ?thesis by simp
qed

lemma framed_terminal: "framed s t \<Longrightarrow> isTerminal t = isTerminal s"
  by (simp add: isTerminal_def framed_def)

section \<open>Usage ids are counted once\<close>

lemma usage_id_Inr [simp]: "usage_id v = Inr i \<longleftrightarrow> v = JStr i \<and> i \<noteq> []"
  by (auto simp: usage_id_def split: json.splits)

lemma map_usage_ids: "[] \<notin> set ids \<Longrightarrow> map_result usage_id (map JStr ids) = Inr ids"
  by (induction ids) (auto simp: usage_id_def)

lemma usage_ids_nonempty: "map_result usage_id xs = Inr ids \<Longrightarrow> [] \<notin> set ids"
  using map_result_all [of usage_id xs ids "\<lambda>i. i \<noteq> []"] by auto

lemma budgetUsageIdSet_accounting:
  assumes "map_of (middleware s) accounting_id = Some (accounting_state ids)" and "[] \<notin> set ids"
  shows "\<exists>ys. budgetUsageIdSet s = Inr ys \<and> set ys = set ids"
  using assms map_usage_ids [of "sort ids"]
  by (simp add: budgetUsageIdSet_def accounting_state_def)

lemma budgetUsageIdSet_nonempty: "budgetUsageIdSet s = Inr ys \<Longrightarrow> [] \<notin> set ys"
  by (auto simp: budgetUsageIdSet_def result_simps dest: usage_ids_nonempty
      split: option.splits if_splits json.splits)

definition counted :: "run_state \<Rightarrow> string set" where
  "counted s = (case budgetUsageIdSet s of Inr ys \<Rightarrow> set ys | Inl _ \<Rightarrow> {})"

definition cache_ok :: "run_state \<times> string list option \<Rightarrow> bool" where
  "cache_ok p = (case snd p of None \<Rightarrow> True
     | Some xs \<Rightarrow> \<exists>ys. budgetUsageIdSet (fst p) = Inr ys \<and> set ys = set xs)"

lemma budgetUsageIdSet_cong: "middleware s = middleware t \<Longrightarrow> budgetUsageIdSet s = budgetUsageIdSet t"
  by (simp add: budgetUsageIdSet_def)

lemma budgetUsageIdSet_other:
  "i \<noteq> accounting_id \<Longrightarrow> budgetUsageIdSet (s\<lparr>middleware := AList.update i m (middleware s)\<rparr>) = budgetUsageIdSet s"
  by (simp add: budgetUsageIdSet_def)

lemma addBudget_counted:
  assumes "addBudget s d u xs = Inr (s', xs')" and "budgetUsageIdSet s = Inr ys" and "set ys = set xs"
  shows "\<exists>zs. budgetUsageIdSet s' = Inr zs \<and> set zs = set xs'
    \<and> set xs' = set xs \<union> (case u of Some i \<Rightarrow> if i = [] then {} else {i} | None \<Rightarrow> {})"
proof -
  have ne: "[] \<notin> set xs" using budgetUsageIdSet_nonempty [OF assms(2)] assms(3) by simp
  have same: "budgetUsageIdSet (s\<lparr>budgets := b\<rparr>) = Inr ys" for b
    using budgetUsageIdSet_cong [of "s\<lparr>budgets := b\<rparr>" s] assms(2) by simp
  have add: "\<exists>zs. budgetUsageIdSet (s\<lparr>budgets := b,
        middleware := AList.update accounting_id (accounting_state (xs @ [i])) (middleware s)\<rparr>) = Inr zs
      \<and> set zs = set (xs @ [i])" if "i \<noteq> []" for b i
    by (rule budgetUsageIdSet_accounting) (use that ne in auto)
  show ?thesis
  proof (cases "u = None \<or> u = Some [] \<or> (\<exists>i. u = Some i \<and> i \<in> set xs)")
    case True
    then show ?thesis
      using assms same ne by (auto simp: addBudget_def result_simps split: if_splits)
  next
    case False
    then obtain i where i: "u = Some i" "i \<noteq> []" "i \<notin> set xs" by auto
    with assms(1) obtain b where "s' = s\<lparr>budgets := b,
        middleware := AList.update accounting_id (accounting_state (xs @ [i])) (middleware s)\<rparr>" "xs' = xs @ [i]"
      by (auto simp: addBudget_def result_simps)
    with add [OF i(2), of b] i show ?thesis by auto
  qed
qed

definition resets_accounting :: "command \<Rightarrow> bool" where
  "resets_accounting c = (case c of SetMiddlewareState i m \<Rightarrow> i = accounting_id | _ \<Rightarrow> False)"

lemma apply_command_counted:
  assumes "apply_command c p = Inr q" and "cache_ok p"
  shows "cache_ok q \<and> (\<not> resets_accounting c \<longrightarrow> counted (fst p) \<subseteq> counted (fst q))
    \<and> (\<forall>d u. c = AddBudget d (Some u) \<longrightarrow> u \<noteq> [] \<longrightarrow> u \<in> counted (fst q))"
proof -
  obtain s ids where p: "p = (s, ids)" by force
  show ?thesis
  proof (cases c)
    case (AddBudget d u)
    then obtain xs s' xs' where xs: "(case ids of Some xs \<Rightarrow> Inr xs | None \<Rightarrow> budgetUsageIdSet s) = Inr xs"
      and add: "addBudget s d u xs = Inr (s', xs')" and q: "q = (s', Some xs')"
      using assms(1) p by (auto simp: result_simps)
    obtain ys where ys: "budgetUsageIdSet s = Inr ys" "set ys = set xs"
      using xs assms(2) p by (auto simp: cache_ok_def split: option.splits)
    from addBudget_counted [OF add ys] ys q show ?thesis
      by (auto simp: p AddBudget cache_ok_def counted_def)
  next
    case (SetMiddlewareState i m)
    then show ?thesis
      using assms p
      by (auto simp: cache_ok_def counted_def resets_accounting_def budgetUsageIdSet_other
        split: option.splits if_splits)
  qed (use assms p in \<open>auto simp: cache_ok_def counted_def cong: budgetUsageIdSet_cong
        split: option.splits if_splits\<close>)
qed

lemma fold_commands_counted:
  assumes "fold_result apply_command cs p = Inr q" and "cache_ok p" and "\<forall>c \<in> set cs. \<not> resets_accounting c"
  shows "counted (fst p) \<subseteq> counted (fst q)
    \<and> (\<forall>d u. AddBudget d (Some u) \<in> set cs \<longrightarrow> u \<noteq> [] \<longrightarrow> u \<in> counted (fst q))"
  using assms
proof (induction cs arbitrary: p)
  case (Cons c cs)
  then obtain r where r: "apply_command c p = Inr r" "fold_result apply_command cs r = Inr q"
    by (auto simp: result_simps)
  from apply_command_counted [OF r(1) Cons.prems(2)] Cons.IH [OF r(2)] Cons.prems(3) show ?case by auto
qed simp

text \<open>
  Budget accounting counts each usage id once: after a batch of commands that recorded usage under
  an id (and did not overwrite the accounting record itself), any further usage reported under the
  same id is accepted and changes nothing, whatever amounts it brings.
\<close>

theorem usage_counted_once:
  assumes "applyCommands s cs = Inr s'" and "ok_commands cs"
    and "AddBudget d (Some u) \<in> set cs" and "\<forall>c \<in> set cs. \<not> resets_accounting c"
    and "ok_command (AddBudget d' (Some u))"
  shows "applyCommands s' [AddBudget d' (Some u)] = Inr s'"
proof -
  obtain r where r: "fold_result apply_command cs (s, None) = Inr r" "s' = fst r"
    using assms(1,2) by (auto simp: applyCommands_accepts result_simps)
  have u: "u \<noteq> []" using assms(5) by (auto simp: present_def)
  have "u \<in> counted s'"
    using fold_commands_counted [OF r(1) _ assms(4)] assms(3) u r(2) by (auto simp: cache_ok_def)
  then obtain ys where "budgetUsageIdSet s' = Inr ys" "u \<in> set ys"
    by (auto simp: counted_def split: sum.splits)
  then show ?thesis
    using assms(5) u by (simp add: applyCommands_accepts ok_commands_def addBudget_def)
qed

lemma sample_usage: "applyCommands sample_state [AddBudget [(KInputTokens, 7)] (Some ''m1'')]
  = Inr (sample_state\<lparr>budgets := (budgets sample_state)\<lparr>inputTokens := 7\<rparr>,
      middleware := [(accounting_id, accounting_state [''m1''])]\<rparr>)"
  by (simp add: applyCommands_accepts ok_commands_def ok_budget_value_def is_js_space_def
      budgetUsageIdSet_def sample_state_def addBudget_def budgetKeys_def add_budget_key_def get_or_def
      is_finite_number_def max_safe_integer_def is_safe_integer_def)

theorem usage_counted_once_witness:
  "applyCommands (sample_state\<lparr>budgets := (budgets sample_state)\<lparr>inputTokens := 7\<rparr>,
      middleware := [(accounting_id, accounting_state [''m1''])]\<rparr>) [AddBudget [(KCostUsd, 3)] (Some ''m1'')]
   = Inr (sample_state\<lparr>budgets := (budgets sample_state)\<lparr>inputTokens := 7\<rparr>,
      middleware := [(accounting_id, accounting_state [''m1''])]\<rparr>)"
  by (rule usage_counted_once [OF sample_usage])
    (auto simp: ok_commands_def ok_budget_value_def is_js_space_def resets_accounting_def
      is_safe_integer_def max_safe_integer_def)

section \<open>Reductions keep the schema and a terminal result\<close>

definition ok_completed :: "completed_payload \<Rightarrow> bool" where
  "ok_completed p = (cp_nodeId p \<noteq> [] \<and> cp_condition p \<noteq> [] \<and> ok_commands (cp_commands p)
     \<and> ok_option ok_outcome (cp_outcome p))"

definition ok_after :: "after_payload \<Rightarrow> bool" where
  "ok_after p = (ap_nodeId p \<noteq> [] \<and> ok_commands (ap_commands p) \<and> ok_option ok_outcome (ap_outcome p))"

definition ok_graph_ids :: "execution_graph \<Rightarrow> bool" where
  "ok_graph_ids g = list_all (\<lambda>n. ok_string (rn_id n)) (g_nodes g)"

lemma nodeFor_Inr: "nodeFor g n = Inr x \<Longrightarrow> x \<in> set (g_nodes g) \<and> rn_id x = n"
  by (auto simp: nodeFor_def find_node_def find_Some_iff split: option.splits)

lemma nodeFor_ok: "nodeFor g n = Inr x \<Longrightarrow> ok_graph_ids g \<Longrightarrow> ok_string n"
  by (auto simp: ok_graph_ids_def list_all_iff dest!: nodeFor_Inr)

lemma withOutcome_ok:
  "ok_state s \<Longrightarrow> ok_outcome x \<Longrightarrow> ok_string now \<Longrightarrow> ok_state (withOutcome now s x)"
  by (simp add: withOutcome_def ok_state_def ok_option_def)

lemma store_value_ok: "ok_state s \<Longrightarrow> ok_state (store_value n v s)"
  by (simp add: store_value_def ok_state_def split: option.splits)

lemma store_value_framed: "framed s (store_value n v s)"
  by (simp add: store_value_def framed_def split: option.splits)

lemma ok_state_cursor:
  "ok_state s \<Longrightarrow> ok_cursor c \<Longrightarrow> ok_string now \<Longrightarrow> ok_state (s\<lparr>cursor := c, updatedAt := now\<rparr>)"
  by (simp add: ok_state_def)

lemma advance_checkpoint_ok: "ok_cursor c \<Longrightarrow> ok_nat n \<Longrightarrow> ok_cursor (advance_checkpoint n c)"
  by (simp add: ok_cursor_def advance_checkpoint_def max_def)

lemma commandOutcome_ok: "commandOutcome cs = Some x \<Longrightarrow> ok_commands cs \<Longrightarrow> ok_outcome x"
proof (induction cs)
  case (Cons c cs)
  then show ?case by (cases c) (auto simp: ok_commands_def)
qed simp

text \<open>Counters that stay in the safe range when they are advanced by one.\<close>

definition room :: "run_state \<Rightarrow> bool" where
  "room s = (ok_nat (stepIndex (cursor s) + 1) \<and> ok_nat (attempt (cursor s) + 1))"

lemma reduceCompletedNode_ok:
  assumes "reduceCompletedNode g now s node p seq = Inr s'" and "ok_state s" and "ok_completed p"
    and "ok_string now" and "ok_nat seq" and "ok_graph_ids g" and "room s"
  shows "ok_state s'"
proof -
  obtain a where a: "applyCommands s (cp_commands p) = Inr a"
    using assms(1) by (auto simp: reduceCompletedNode_def result_simps)
  let ?nx = "store_value (rn_id node) (cp_value p) a"
  have nx: "ok_state ?nx" using store_value_ok [OF applyCommands_ok [OF a assms(2)]] .
  have cur: "cursor ?nx = cursor s"
    using framed_trans [OF applyCommands_framed [OF a] store_value_framed] by (simp add: framed_def)
  then have cok: "ok_cursor (cursor ?nx)" using assms(2) by (simp add: ok_state_def)
  show ?thesis
  proof (cases "cp_outcome p")
    case (Some x)
    then have "ok_state (withOutcome now ?nx x)"
      using withOutcome_ok nx assms(3,4) by (simp add: ok_completed_def ok_option_def)
    then show ?thesis
      using assms(1) a Some ok_state_cursor [OF _ advance_checkpoint_ok [OF cok assms(5)] assms(4)]
      by (auto simp: reduceCompletedNode_def Let_def)
  next
    case None
    then obtain tl m where tl: "next_edge g (rn_id node) p = Inr tl" "nodeFor g (fst tl) = Inr m"
      and s': "s' = ?nx\<lparr>status := Running,
           cursor := \<lparr>stepIndex = stepIndex (cursor ?nx) + 1, nodeId = fst tl,
             attempt = (if snd tl then attempt (cursor ?nx) + 1 else 0),
             checkpointSeq = max (checkpointSeq (cursor ?nx)) seq\<rparr>, updatedAt := now\<rparr>"
      using assms(1) a by (auto simp: reduceCompletedNode_def Let_def result_simps)
    have "ok_string (fst tl)" by (rule nodeFor_ok [OF tl(2) assms(6)])
    then have "ok_cursor \<lparr>stepIndex = stepIndex (cursor ?nx) + 1, nodeId = fst tl,
             attempt = (if snd tl then attempt (cursor ?nx) + 1 else 0),
             checkpointSeq = max (checkpointSeq (cursor ?nx)) seq\<rparr>"
      using cok assms(5,7) cur by (simp add: ok_cursor_def room_def max_def)
    with nx assms(4) show ?thesis by (simp add: s' ok_state_def)
  qed
qed

lemma redirect_ok:
  assumes "redirect g cs s = Inr s'" and "ok_state s" and "ok_graph_ids g" and "room s"
  shows "ok_state s' \<and> checkpointSeq (cursor s') = checkpointSeq (cursor s)"
  using assms nodeFor_ok [OF _ assms(3)]
  by (auto simp: redirect_def result_simps ok_state_def ok_cursor_def room_def split: if_splits option.splits)

lemma reduceAfterMiddleware_ok:
  assumes "reduceAfterMiddleware g now s p seq = Inr s'" and "ok_state s" and "ok_after p"
    and "ok_string now" and "ok_nat seq" and "ok_graph_ids g" and "room s"
  shows "ok_state s'"
proof -
  let ?body = "if isTerminal s then Inr s
        else bind_result (applyCommands s (ap_commands p)) (\<lambda>a.
          Inr (case (case ap_outcome p of Some x \<Rightarrow> Some x | None \<Rightarrow> commandOutcome (ap_commands p)) of
              Some x \<Rightarrow> withOutcome now a x | None \<Rightarrow> a))"
  obtain a b where a: "?body = Inr a" and b: "redirect g (ap_commands p) a = Inr b"
    and s': "s' = b\<lparr>cursor := advance_checkpoint seq (cursor b), updatedAt := now\<rparr>"
    using assms(1) by (auto simp: reduceAfterMiddleware_def result_simps)
  have "ok_state a \<and> cursor a = cursor s"
  proof (cases "isTerminal s")
    case True
    with a assms(2) show ?thesis by simp
  next
    case False
    then obtain a0 where a0: "applyCommands s (ap_commands p) = Inr a0"
      and a1: "a = (case (case ap_outcome p of Some x \<Rightarrow> Some x | None \<Rightarrow> commandOutcome (ap_commands p)) of
              Some x \<Rightarrow> withOutcome now a0 x | None \<Rightarrow> a0)"
      using a by (auto simp: result_simps)
    have "ok_state a0" "cursor a0 = cursor s"
      using applyCommands_ok [OF a0 assms(2)] applyCommands_framed [OF a0] by (auto simp: framed_def)
    then show ?thesis
      using a1 assms(3,4) withOutcome_ok [of a0 _ now] commandOutcome_ok [of "ap_commands p"]
      by (auto simp: ok_after_def ok_option_def withOutcome_def split: option.splits if_splits)
  qed
  then have "ok_state b" using redirect_ok [OF b] assms(6,7) by (simp add: room_def)
  moreover from this have "ok_cursor (cursor b)" by (simp add: ok_state_def)
  ultimately show ?thesis
    unfolding s' using ok_state_cursor advance_checkpoint_ok assms(4,5) by blast
qed

text \<open>
  C24. Reducing an event never leaves the schema: from a valid state, a valid committed payload and a
  graph whose node ids are trimmed, both reductions of the kernel produce a state that the snapshot
  store's schema check accepts unchanged, so a checkpoint is never rejected for its form.
\<close>

theorem reductions_stay_valid:
  assumes "ok_state s" and "ok_graph_ids g" and "ok_string now" and "ok_nat seq" and "room s"
  shows "(ok_completed p \<longrightarrow> reduceCompletedNode g now s node p seq = Inr s1 \<longrightarrow> parse_run_state s1 = Inr s1)
    \<and> (ok_after q \<longrightarrow> reduceAfterMiddleware g now s q seq = Inr s2 \<longrightarrow> parse_run_state s2 = Inr s2)"
proof (intro conjI impI)
  show "parse_run_state s1 = Inr s1" if "ok_completed p" "reduceCompletedNode g now s node p seq = Inr s1"
    by (rule parse_run_state_accepts, rule reduceCompletedNode_ok [OF that(2) assms(1) that(1) assms(3,4,2,5)])
  show "parse_run_state s2 = Inr s2" if "ok_after q" "reduceAfterMiddleware g now s q seq = Inr s2"
    by (rule parse_run_state_accepts, rule reduceAfterMiddleware_ok [OF that(2) assms(1) that(1) assms(3,4,2,5)])
qed

definition sample_completed :: completed_payload where
  "sample_completed = \<lparr>cp_nodeId = ''a'', cp_stepIndex = 0, cp_condition = ''next'',
     cp_commands = [SetTaskRevision 2], cp_facts = None, cp_value = Some (JBool True), cp_outcome = None\<rparr>"

lemma sample_completed_ok: "ok_completed sample_completed"
  by (simp add: sample_completed_def ok_completed_def ok_commands_def ok_option_def max_safe_integer_def)

definition sample_next :: run_state where
  "sample_next = sample_state\<lparr>status := Running, nodeData := [(''a'', JBool True)], taskRevision := 2,
     cursor := \<lparr>stepIndex = 1, nodeId = ''b'', attempt = 0, checkpointSeq = 4\<rparr>, updatedAt := ''later''\<rparr>"

lemma sample_reduction: "reduceCompletedNode two_step_graph ''later'' sample_state
    (rnode ''a'' ''k'' ''pure'' CpNone False) sample_completed 4 = Inr sample_next"
  using sample_completed_ok
  by (simp add: reduceCompletedNode_def applyCommands_accepts ok_completed_def)
    (simp add: sample_completed_def sample_next_def sample_state_def store_value_def next_edge_def
      last_jump_def List.map_filter_def last_opt_def outgoingEdges_def two_step_graph_def redge_def
      nodeFor_def find_node_def rnode_def)

theorem reductions_stay_valid_witness: "parse_run_state sample_next = Inr sample_next"
proof -
  have "ok_graph_ids two_step_graph"
    by (simp add: ok_graph_ids_def two_step_graph_def rnode_def ok_string_Cons is_js_space_def)
  moreover have "room sample_state" "ok_string ''later''" "ok_nat 4"
    by (simp_all add: room_def sample_state_def max_safe_integer_def ok_string_Cons is_js_space_def)
  ultimately show ?thesis
    using reductions_stay_valid [OF sample_state_ok, of two_step_graph "''later''" 4] sample_completed_ok
      sample_reduction by blast
qed

text \<open>
  A terminal result is final: after-node middleware cannot reopen or replace it. On a terminal
  state the reduction of its event moves the checkpoint and the time stamp and nothing else, whatever
  commands or outcome the event carries.
\<close>

theorem terminal_result_final:
  assumes "isTerminal s"
  shows "reduceAfterMiddleware g now s p seq
    = Inr (s\<lparr>cursor := (cursor s)\<lparr>checkpointSeq := max (checkpointSeq (cursor s)) seq\<rparr>, updatedAt := now\<rparr>)
    \<and> withOutcome now s x = s"
  using assms by (simp add: reduceAfterMiddleware_def redirect_def withOutcome_def advance_checkpoint_def)

theorem terminal_result_final_witness:
  "reduceAfterMiddleware two_step_graph ''later'' (sample_state\<lparr>status := Aborted\<rparr>)
     \<lparr>ap_nodeId = ''a'', ap_stepIndex = 0, ap_commands = [Jump ''b'' ''next'' ''r''], ap_outcome = None\<rparr> 9
   = Inr (sample_state\<lparr>status := Aborted, cursor := (cursor sample_state)\<lparr>checkpointSeq := 9\<rparr>,
       updatedAt := ''later''\<rparr>)"
  using terminal_result_final [of "sample_state\<lparr>status := Aborted\<rparr>"]
  by (simp add: isTerminal_def sample_state_def)

section \<open>Payloads read back\<close>

lemma canonicalize_canon: "canonicalizeMiddlewareCommands (JArr (map command_json cs)) = canon cs"
  by (simp add: canon_def)

lemma read_step_of_nat [simp]: "read_step m (Some (JNum (of_nat n))) = Inr n"
  by (simp add: read_step_def)

lemma parseCompleted_json:
  assumes "ok_completed p"
  shows "parseCompletedNodePayload (completed_json p) = Inr p"
  using assms
  by (cases "cp_facts p"; cases "cp_value p"; cases "cp_outcome p")
    (simp_all add: parseCompletedNodePayload_def completed_json_def ok_completed_def ok_commands_def
      read_nonempty_def read_commands_def read_facts_def read_outcome_def canonicalize_canon canon_accepts
      ok_option_def parse_outcome_json)

lemma parseAfter_json:
  assumes "ok_after p"
  shows "parseAfterMiddlewarePayload (after_json p) = Inr p"
  using assms
  by (cases "ap_outcome p")
    (simp_all add: parseAfterMiddlewarePayload_def after_json_def ok_after_def ok_commands_def
      read_nonempty_def read_commands_def read_outcome_def canonicalize_canon canon_accepts
      ok_option_def parse_outcome_json)

text \<open>
  Committed payloads survive the log: the JSON form of a valid completion or after-middleware
  payload parses back to exactly that payload, and whatever the two parsers accept carries only
  well-formed commands.
\<close>

theorem payload_roundtrip:
  shows "(ok_completed p \<longrightarrow> parseCompletedNodePayload (completed_json p) = Inr p)
    \<and> (ok_after q \<longrightarrow> parseAfterMiddlewarePayload (after_json q) = Inr q)
    \<and> (parseCompletedNodePayload v = Inr p \<longrightarrow> ok_commands (cp_commands p))
    \<and> (parseAfterMiddlewarePayload v = Inr q \<longrightarrow> ok_commands (ap_commands q))"
proof -
  have cs: "canonicalizeMiddlewareCommands cj = Inr cs \<Longrightarrow> ok_commands cs" for cj cs
    using canonicalize_command_ok unfolding canonicalizeMiddlewareCommands_def ok_commands_def
    by (auto simp: map_result_all2 list_all2_conv_all_nth in_set_conv_nth split: json.splits) blast
  then show ?thesis
    using parseCompleted_json parseAfter_json
    by (auto simp: parseCompletedNodePayload_def parseAfterMiddlewarePayload_def result_simps split: option.splits)
qed

theorem payload_roundtrip_witness:
  "parseCompletedNodePayload (completed_json sample_completed) = Inr sample_completed"
  using payload_roundtrip [of sample_completed] sample_completed_ok by blast

section \<open>Migration of graph versions\<close>

definition migrated :: "execution_graph \<Rightarrow> run_state \<Rightarrow> run_state \<Rightarrow> bool" where
  "migrated g s s' = (graphVersion s' = g_version g \<and> identity s' = identity s \<and> status s' = status s
    \<and> budgets s' = budgets s \<and> pendingEffects s' = pendingEffects s
    \<and> committedEffects s' = committedEffects s \<and> checkpointSeq (cursor s') = checkpointSeq (cursor s)
    \<and> nodeId (cursor s') \<in> {nodeId (cursor s), ''account-model'', ''evaluate''})"

lemma migrate_to_accounting_migrated:
  "migrate_to_accounting g okp okt source marker resume s = Inr s' \<Longrightarrow> migrated g s s'"
  by (auto simp: migrate_to_accounting_def result_simps to_node_def migrated_def)

lemma migrate_v1_tools_migrated: "migrate_v1_tools g okp okt now s = Inr s' \<Longrightarrow> migrated g s s'"
  unfolding migrate_v1_tools_def Let_def
  by (simp add: to_node_def migrated_def split: if_splits) auto

lemma migrateGraphState_cases:
  assumes "migrateGraphState g okp okt now s = Inr s'"
  shows "s' = s \<and> (graphVersion s = g_version g \<or>
        \<not> (graphVersion s = production_v2 \<and> g_version g = production_v3)
        \<and> (graphVersion s \<noteq> production_v1 \<or> (g_version g \<noteq> production_v2 \<and> g_version g \<noteq> production_v3)))
    \<or> s' = s\<lparr>graphVersion := g_version g\<rparr>
    \<or> (\<exists>source marker resume. migrate_to_accounting g okp okt source marker resume s = Inr s')
    \<or> migrate_v1_tools g okp okt now s = Inr s'"
  using assms unfolding migrateGraphState_def Let_def
  by (simp split: if_splits) blast+

text \<open>
  Migration reaches the running graph: when the stored graph version is compatible with the graph
  of the kernel and the migration does not fail, the state carries the kernel's graph version, keeps
  its identity, status, budgets, effects and checkpoint, and its cursor either stays where it was or
  stands on the node that repeats the accounting (or the evaluation) of the proposal.
\<close>

theorem migration_reaches_graph:
  assumes "graphCompatibility g s = None" and "migrateGraphState g okp okt now s = Inr s'"
  shows "graphVersion s' = g_version g \<and> identity s' = identity s \<and> status s' = status s
    \<and> budgets s' = budgets s \<and> pendingEffects s' = pendingEffects s
    \<and> committedEffects s' = committedEffects s \<and> checkpointSeq (cursor s') = checkpointSeq (cursor s)
    \<and> nodeId (cursor s') \<in> {nodeId (cursor s), ''account-model'', ''evaluate''}"
proof -
  have "graphVersion s = g_version g \<or> graphVersion s = production_v1 \<and> g_version g = production_v2
      \<or> g_version g = production_v3 \<and> (graphVersion s = production_v1 \<or> graphVersion s = production_v2)"
    using assms(1) unfolding graphCompatibility_def by (simp split: if_splits)
  with migrateGraphState_cases [OF assms(2)]
  have "s' = s \<and> graphVersion s = g_version g \<or> s' = s\<lparr>graphVersion := g_version g\<rparr>
    \<or> (\<exists>source marker resume. migrate_to_accounting g okp okt source marker resume s = Inr s')
    \<or> migrate_v1_tools g okp okt now s = Inr s'"
    by blast
  then have "migrated g s s'"
    using migrate_to_accounting_migrated migrate_v1_tools_migrated
    by (elim disjE exE) (auto simp: migrated_def)
  then show ?thesis by (simp add: migrated_def)
qed

definition v2_state :: run_state where
  "v2_state = sample_state\<lparr>graphVersion := production_v2,
     cursor := (cursor sample_state)\<lparr>nodeId := ''commit-tools''\<rparr>\<rparr>"

theorem migration_reaches_graph_witness:
  "\<exists>s'. migrateGraphState productionKernelV3Graph (\<lambda>_. Some 1) (\<lambda>_. True) ''now'' v2_state = Inr s'
     \<and> nodeId (cursor s') = ''account-model'' \<and> graphVersion s' = ''kernel-v3-production-v3''"
proof -
  have c: "graphCompatibility productionKernelV3Graph v2_state = None" by code_simp
  obtain s' where s': "migrateGraphState productionKernelV3Graph (\<lambda>_. Some 1) (\<lambda>_. True) ''now'' v2_state = Inr s'"
    "nodeId (cursor s') = ''account-model''"
    by (simp add: migrateGraphState_def v2_state_def productionKernelV3Graph_def sample_state_def
        production_v2_def production_v3_def proposalNeedsAccounting_def migrate_to_accounting_def
        requireMigratableProposal_def to_node_def)
  from migration_reaches_graph [OF c s'(1)] s' show ?thesis by (auto simp: productionKernelV3Graph_def)
qed

end
