(* ===== verification/Kernel.thy ===== *)
theory Kernel
  imports KernelReduce MiddlewareChain EventLog
begin

text \<open>
  The run kernel, \<open>class RuntimeKernel\<close> of \<open>loop/src/runtime-kernel.ts\<close>: one call of \<open>run\<close> takes the
  lease of a run, loads its snapshot, replays the events after the checkpoint, and works through the
  nodes of the graph until an outcome is reached, recording events and snapshots under the fence of
  the lease.

  A kernel action takes the world (both stores, the count of readings of the environment, the lease
  guard's flag, and the rest \<open>'w\<close>) and returns a value or error and the next world. Node handlers,
  middleware handlers and the crash hook are options of the kernel and may do anything to the world.
  Clock readings and random ids are streams read by index. The background timer of the lease guard
  appears as the stream \<open>ke_timer\<close>: whether it lost the lease before the n-th reading.

  The \<open>while (true)\<close> loop of \<open>run\<close> takes fuel; without fuel left the call has not returned (\<open>None\<close>).
\<close>

section \<open>World, environment, actions\<close>

datatype kerror = KErr js_error | KCrash js_error | KLost "run_outcome option"

datatype crash_point = After_node_completed | After_node_middleware | After_node_after_middleware_event

record 'w kworld =
  kw_store :: run_store
  kw_events :: "json event_store"
  kw_reads :: nat
  kw_lost :: bool
  kw_ext :: 'w

type_synonym ('a, 'w) action = "'w kworld \<Rightarrow> (kerror + 'a) \<times> 'w kworld"

record kernel_context =
  kc_identity :: run_identity
  kc_state :: run_state
  kc_node :: "runtime_node option"
  kc_hook :: string
  kc_facts :: "obj option"
  kc_error :: "kerror option"

record node_result =
  nr_condition :: "string option"
  nr_outcome :: "run_outcome option"
  nr_commands :: "command list"
  nr_facts :: "obj option"
  nr_value :: "json option"

type_synonym 'w node_handler = "kernel_context \<Rightarrow> fence option \<Rightarrow> 'w kworld \<Rightarrow> node_result option result \<times> 'w kworld"

text \<open>The kernel reads only the commands of a middleware result; a missing result has none.\<close>

type_synonym 'w kernel_middleware = "(kernel_context, command list, 'w kworld) hook_handle chain_middleware"

record 'w kernel_env =
  ke_graph :: execution_graph
  ke_holder :: string
  ke_ttl :: rat
  ke_chain :: "'w kernel_middleware list"
  ke_nodes :: "string \<Rightarrow> 'w node_handler option"
  ke_crash :: "crash_point \<Rightarrow> 'w kworld \<Rightarrow> unit result \<times> 'w kworld"
  ke_okp :: proposal_check
  ke_okt :: task_check
  ke_now :: "nat \<Rightarrow> string"
  ke_ms :: "nat \<Rightarrow> int"
  ke_uuid :: "nat \<Rightarrow> string"
  ke_timer :: "nat \<Rightarrow> bool"

definition kreturn :: "'a \<Rightarrow> ('a, 'w) action" where
  "kreturn x w = (Inr x, w)"

definition kfail :: "kerror \<Rightarrow> ('a, 'w) action" where
  "kfail e w = (Inl e, w)"

definition kbind :: "('a, 'w) action \<Rightarrow> ('a \<Rightarrow> ('b, 'w) action) \<Rightarrow> ('b, 'w) action" where
  "kbind m f w = (case m w of (Inl e, w') \<Rightarrow> (Inl e, w') | (Inr x, w') \<Rightarrow> f x w')"

definition klift :: "'a result \<Rightarrow> ('a, 'w) action" where
  "klift r w = (case r of Inl e \<Rightarrow> (Inl (KErr e), w) | Inr x \<Rightarrow> (Inr x, w))"

text \<open>An operation of a store or a handler, run on the world.\<close>

definition kcall :: "('w kworld \<Rightarrow> 'a result \<times> 'w kworld) \<Rightarrow> ('a, 'w) action" where
  "kcall m w = (case m w of (Inl e, w') \<Rightarrow> (Inl (KErr e), w') | (Inr x, w') \<Rightarrow> (Inr x, w'))"

definition kread :: "(nat \<Rightarrow> 'a) \<Rightarrow> ('a, 'w) action" where
  "kread s w = (Inr (s (kw_reads w)), w\<lparr>kw_reads := kw_reads w + 1\<rparr>)"

definition kwhen :: "bool \<Rightarrow> (unit, 'w) action \<Rightarrow> (unit, 'w) action" where
  "kwhen b m = (if b then m else kreturn ())"

section \<open>Stores and guard\<close>

definition k_save :: "'w kernel_env \<Rightarrow> fence option \<Rightarrow> run_state \<Rightarrow> (unit, 'w) action" where
  "k_save env f s = kbind (kread (ke_ms env)) (\<lambda>ms. kcall (\<lambda>w.
     case store_save s f ms (kw_store w) of (x, st) \<Rightarrow> (x, w\<lparr>kw_store := st\<rparr>)))"

definition k_load :: "run_identity \<Rightarrow> (run_state option, 'w) action" where
  "k_load i = kcall (\<lambda>w. (store_load i (kw_store w), w))"

definition k_acquire :: "'w kernel_env \<Rightarrow> run_identity \<Rightarrow> (lease_grant, 'w) action" where
  "k_acquire env i = kbind (kread (ke_ms env)) (\<lambda>ms. kbind (kread (ke_uuid env)) (\<lambda>tok. kcall (\<lambda>w.
     case store_acquire i (ke_holder env) (ke_ttl env) ms tok (kw_store w) of
       (x, st) \<Rightarrow> (x, w\<lparr>kw_store := st\<rparr>))))"

text \<open>\<open>leases.release\<close> in the \<open>finally\<close> block, errors swallowed.\<close>

definition k_release :: "'w kernel_env \<Rightarrow> run_identity \<Rightarrow> fence option \<Rightarrow> 'w kworld \<Rightarrow> 'w kworld" where
  "k_release env i f w = w\<lparr>kw_store := snd (store_release i (ke_holder env) f (kw_store w))\<rparr>"

text \<open>\<open>RuntimeLeaseGuard.renew\<close>: a failed or refused renewal loses the lease for good.\<close>

definition guard_renew :: "'w kernel_env \<Rightarrow> run_identity \<Rightarrow> fence option \<Rightarrow> (bool, 'w) action" where
  "guard_renew env i f = kbind (kread (ke_timer env)) (\<lambda>tm. kbind (kread (ke_ms env)) (\<lambda>n1.
     kbind (kread (ke_ms env)) (\<lambda>n2 w.
       if kw_lost w \<or> tm then (Inr False, w\<lparr>kw_lost := True\<rparr>)
       else (case store_renew i (ke_holder env) f (Some (ke_ttl env)) n1 n2 (kw_store w) of
           (x, st) \<Rightarrow> (Inr (x = Inr True), w\<lparr>kw_store := st, kw_lost := (x \<noteq> Inr True)\<rparr>)))))"

definition assertLeaseHealthy :: "'w kernel_env \<Rightarrow> run_identity \<Rightarrow> fence option \<Rightarrow> run_state \<Rightarrow> (unit, 'w) action" where
  "assertLeaseHealthy env i f s = kbind (guard_renew env i f) (\<lambda>okr.
     if okr then kreturn ()
     else kfail (KLost (if isTerminal s then Some (outcomeFromTerminalState s) else None)))"

definition identity_fields :: "(string \<times> (run_identity \<Rightarrow> string)) list" where
  "identity_fields = [(''ownerUserId'', ownerUserId), (''workspaceKey'', workspaceKey),
     (''threadId'', threadId), (''turnId'', turnId), (''runId'', runId)]"

definition identity_check :: "string \<Rightarrow> run_identity \<Rightarrow> run_identity \<Rightarrow> unit result" where
  "identity_check what i j = (case List.find (\<lambda>nf. snd nf j \<noteq> snd nf i) identity_fields of
      None \<Rightarrow> Inr ()
    | Some nf \<Rightarrow> throw (''run '' @ what @ '' identity mismatch: '' @ fst nf))"

definition assertStateIdentity :: "run_identity \<Rightarrow> run_state \<Rightarrow> unit result" where
  "assertStateIdentity i s = identity_check ''state'' i (identity s)"

definition assertEventIdentity :: "run_identity \<Rightarrow> json run_event \<Rightarrow> unit result" where
  "assertEventIdentity i e = identity_check ''event'' i (ev_identity e)"

definition recordEvent :: "'w kernel_env \<Rightarrow> run_identity \<Rightarrow> run_state \<Rightarrow> string \<Rightarrow> string \<Rightarrow> json \<Rightarrow> fence option
    \<Rightarrow> (json run_event, 'w) action" where
  "recordEvent env i s n ty payload f =
     kbind (kcall (\<lambda>w. (listAfter i 0 (kw_events w), w))) (\<lambda>es.
     kbind (kread (ke_uuid env)) (\<lambda>uuid. kbind (kread (ke_now env)) (\<lambda>now.
     kcall (\<lambda>w. case append_event \<lparr>ev_id = uuid, ev_seq = max_seq (map ev_seq es) + 1, ev_identity = i,
         ev_step = Some n, ev_attempt = Some (n @ '':'' @ show_nat (attempt (cursor s))), ev_type = ty,
         ev_key = None, ev_payload = payload, ev_time = now\<rparr> f (kw_events w)
       of (x, es') \<Rightarrow> (x, w\<lparr>kw_events := es'\<rparr>)))))"

definition reachCrashPoint :: "'w kernel_env \<Rightarrow> crash_point \<Rightarrow> (unit, 'w) action" where
  "reachCrashPoint env p w = (case ke_crash env p w of
      (Inl e, w') \<Rightarrow> (Inl (KCrash e), w') | (Inr _, w') \<Rightarrow> (Inr (), w'))"

definition middlewareContext :: "run_identity \<Rightarrow> run_state \<Rightarrow> string \<Rightarrow> runtime_node option \<Rightarrow> obj option
    \<Rightarrow> kerror option \<Rightarrow> kernel_context" where
  "middlewareContext i s hook node facts err = \<lparr>kc_identity = i, kc_state = s, kc_node = node,
     kc_hook = hook, kc_facts = facts, kc_error = err\<rparr>"

definition k_hook :: "'w kernel_env \<Rightarrow> string \<Rightarrow> kernel_context \<Rightarrow> (command list, 'w) action" where
  "k_hook env hook c = kcall (run_hook (\<lambda>_. []) (ke_chain env) hook c)"

section \<open>Committing and replaying\<close>

definition after_payload_of :: "runtime_node \<Rightarrow> completed_payload \<Rightarrow> command list \<Rightarrow> after_payload" where
  "after_payload_of node p cs = \<lparr>ap_nodeId = rn_id node, ap_stepIndex = cp_stepIndex p, ap_commands = cs,
     ap_outcome = commandOutcome cs\<rparr>"

definition commitAfterMiddleware :: "'w kernel_env \<Rightarrow> run_identity \<Rightarrow> fence option \<Rightarrow> run_state \<Rightarrow> runtime_node
    \<Rightarrow> completed_payload \<Rightarrow> (run_state, 'w) action" where
  "commitAfterMiddleware env i f s node p =
     kbind (assertLeaseHealthy env i f s) (\<lambda>_.
     kbind (k_hook env ''afterNode'' (middlewareContext i s ''afterNode'' (Some node) (cp_facts p) None)) (\<lambda>res.
     kbind (assertLeaseHealthy env i f s) (\<lambda>_.
     kbind (klift (canon res)) (\<lambda>cs.
     kbind (klift (applyCommands s cs)) (\<lambda>_.
     kbind (reachCrashPoint env After_node_middleware) (\<lambda>_.
     kbind (recordEvent env i s (rn_id node) ''node.after_middleware'' (after_json (after_payload_of node p cs)) f) (\<lambda>ev.
     kbind (klift (parseAfterMiddlewarePayload (ev_payload ev))) (\<lambda>q.
     kbind (klift (assertAfterMiddlewareMatches p q)) (\<lambda>_.
     kbind (kread (ke_now env)) (\<lambda>now.
     kbind (klift (reduceAfterMiddleware (ke_graph env) now s q (ev_seq ev))) (\<lambda>nx.
     kbind (reachCrashPoint env After_node_after_middleware_event) (\<lambda>_. kreturn nx))))))))))))"

text \<open>One event of the replay: the state and the completion whose after-node event is still missing.\<close>

type_synonym replay_state = "run_state \<times> (runtime_node \<times> completed_payload) option"

definition settle_pending :: "'w kernel_env \<Rightarrow> run_identity \<Rightarrow> fence option \<Rightarrow> replay_state \<Rightarrow> (run_state, 'w) action" where
  "settle_pending env i f sp = (case snd sp of
      None \<Rightarrow> kreturn (fst sp)
    | Some (node, p) \<Rightarrow> commitAfterMiddleware env i f (fst sp) node p)"

definition replay_event :: "'w kernel_env \<Rightarrow> run_identity \<Rightarrow> fence option \<Rightarrow> nat \<Rightarrow> json run_event \<Rightarrow> replay_state
    \<Rightarrow> (replay_state, 'w) action" where
  "replay_event env i f start ev sp =
     kbind (klift (assertEventIdentity i ev)) (\<lambda>_.
     if ev_seq ev < start then kreturn sp
     else if ev_seq ev = start then
       (if ev_type ev = ''node.completed'' then
          kbind (klift (parseCompletedNodePayload (ev_payload ev))) (\<lambda>p.
          kbind (klift (nodeFor (ke_graph env) (cp_nodeId p))) (\<lambda>node. kreturn (fst sp, Some (node, p))))
        else kreturn sp)
     else kbind (if ev_type ev \<noteq> ''node.after_middleware''
          then kbind (settle_pending env i f sp) (\<lambda>s. kreturn (s, None)) else kreturn sp) (\<lambda>(s, pending).
       if ev_type ev = ''node.started'' then
         kreturn (s\<lparr>cursor := advance_checkpoint (ev_seq ev) (cursor s), updatedAt := ev_time ev\<rparr>, pending)
       else if ev_type ev = ''node.completed'' then
         kbind (klift (parseCompletedNodePayload (ev_payload ev))) (\<lambda>p.
         if cp_nodeId p \<noteq> nodeId (cursor s) then
           klift (throw (''run event cursor mismatch: expected '' @ nodeId (cursor s) @ '', received '' @ cp_nodeId p))
         else kbind (klift (nodeFor (ke_graph env) (cp_nodeId p))) (\<lambda>node.
           kbind (kread (ke_now env)) (\<lambda>now.
           kbind (klift (reduceCompletedNode (ke_graph env) now s node p (ev_seq ev))) (\<lambda>nx.
           kreturn (nx, Some (node, p))))))
       else if ev_type ev = ''node.after_middleware'' then
         (case pending of
            None \<Rightarrow> klift (throw ''node.after_middleware has no matching completion'')
          | Some (node, p) \<Rightarrow>
              kbind (klift (parseAfterMiddlewarePayload (ev_payload ev))) (\<lambda>q.
              kbind (klift (assertAfterMiddlewareMatches p q)) (\<lambda>_.
              kbind (kread (ke_now env)) (\<lambda>now.
              kbind (klift (reduceAfterMiddleware (ke_graph env) now s q (ev_seq ev))) (\<lambda>nx.
              kreturn (nx, None))))))
       else kreturn (s, pending)))"

fun replay_events :: "'w kernel_env \<Rightarrow> run_identity \<Rightarrow> fence option \<Rightarrow> nat \<Rightarrow> json run_event list \<Rightarrow> replay_state
    \<Rightarrow> (replay_state, 'w) action" where
  "replay_events env i f start [] sp = kreturn sp"
| "replay_events env i f start (ev # evs) sp =
     kbind (replay_event env i f start ev sp) (replay_events env i f start evs)"

definition replayAfterCheckpoint :: "'w kernel_env \<Rightarrow> run_identity \<Rightarrow> fence option \<Rightarrow> run_state \<Rightarrow> (run_state, 'w) action" where
  "replayAfterCheckpoint env i f s =
     kbind (kcall (\<lambda>w. (listAfter i (checkpointSeq (cursor s) - 1) (kw_events w), w))) (\<lambda>es.
     kbind (replay_events env i f (checkpointSeq (cursor s)) (sort_key ev_seq es) (s, None)) (\<lambda>sp.
     settle_pending env i f sp))"

section \<open>One round of the loop\<close>

definition checkpointsBefore :: "runtime_node \<Rightarrow> bool" where
  "checkpointsBefore n = (rn_checkpoint n = Some CpBefore \<or> rn_checkpoint n = Some CpBoth)"

definition checkpointsAfter :: "runtime_node \<Rightarrow> bool" where
  "checkpointsAfter n = (rn_checkpoint n = Some CpAfter \<or> rn_checkpoint n = Some CpBoth)"

definition started_json :: "runtime_node \<Rightarrow> run_state \<Rightarrow> json" where
  "started_json n s = JObj [(''nodeId'', JStr (rn_id n)), (''stepIndex'', JNum (of_nat (stepIndex (cursor s))))]"

definition empty_result :: node_result where
  "empty_result = \<lparr>nr_condition = None, nr_outcome = None, nr_commands = [], nr_facts = None, nr_value = None\<rparr>"

text \<open>The payload of \<open>node.completed\<close>, from the result of the handler and the validated commands.\<close>

definition completed_of :: "runtime_node \<Rightarrow> run_state \<Rightarrow> node_result \<Rightarrow> command list \<Rightarrow> completed_payload" where
  "completed_of node s r cs = \<lparr>cp_nodeId = rn_id node, cp_stepIndex = stepIndex (cursor s),
     cp_condition = (case nr_condition r of Some c \<Rightarrow> c | None \<Rightarrow> ''next''), cp_commands = cs,
     cp_facts = nr_facts r, cp_value = nr_value r,
     cp_outcome = (case nr_outcome r of Some x \<Rightarrow> Some x
       | None \<Rightarrow> (case commandOutcome cs of Some x \<Rightarrow> Some x
         | None \<Rightarrow> if rn_terminal node then Some \<lparr>oc_status = OCompleted, oc_reason = Normal_stop,
             oc_item = None, oc_retryable = False, oc_details = None\<rparr> else None))\<rparr>"

text \<open>A hook that may end the run: its commands and, when one of them decides, the state to save.\<close>

definition early_outcome :: "'w kernel_env \<Rightarrow> fence option \<Rightarrow> run_state \<Rightarrow> command list
    \<Rightarrow> (run_outcome option, 'w) action" where
  "early_outcome env f s cs = (case commandOutcome cs of
      None \<Rightarrow> kreturn None
    | Some x \<Rightarrow>
        kbind (klift (applyCommands s cs)) (\<lambda>a.
        kbind (kread (ke_now env)) (\<lambda>now.
        kbind (k_save env f (withOutcome now a x)) (\<lambda>_. kreturn (Some x)))))"

definition run_handler :: "'w kernel_env \<Rightarrow> run_identity \<Rightarrow> fence option \<Rightarrow> run_state \<Rightarrow> runtime_node
    \<Rightarrow> (node_result, 'w) action" where
  "run_handler env i f s node = (case ke_nodes env (rn_id node) of
      None \<Rightarrow> klift (throw (''missing runtime node handler: '' @ rn_id node))
    | Some h \<Rightarrow> kbind (kcall (h (middlewareContext i s ''beforeNode'' (Some node) None None) f)) (\<lambda>r.
        kreturn (case r of Some x \<Rightarrow> x | None \<Rightarrow> empty_result)))"

text \<open>The part of a round after \<open>beforeNode\<close>: the handler, the commit of its result, the reductions.\<close>

definition complete_node :: "'w kernel_env \<Rightarrow> run_identity \<Rightarrow> fence option \<Rightarrow> run_state \<Rightarrow> runtime_node
    \<Rightarrow> command list \<Rightarrow> (run_state, 'w) action" where
  "complete_node env i f s node before =
     kbind (run_handler env i f s node) (\<lambda>r.
     kbind (assertLeaseHealthy env i f s) (\<lambda>_.
     kbind (klift (canon (before @ nr_commands r))) (\<lambda>cs.
     kbind (klift (applyCommands s cs)) (\<lambda>_.
     kbind (recordEvent env i s (rn_id node) ''node.completed'' (completed_json (completed_of node s r cs)) f) (\<lambda>ev.
     kbind (reachCrashPoint env After_node_completed) (\<lambda>_.
     kbind (klift (parseCompletedNodePayload (ev_payload ev))) (\<lambda>p.
     kbind (kread (ke_now env)) (\<lambda>now.
     kbind (klift (reduceCompletedNode (ke_graph env) now s node p (ev_seq ev))) (\<lambda>s1.
     kbind (commitAfterMiddleware env i f s1 node p) (\<lambda>s2.
     kbind (kwhen (checkpointsAfter node \<or> isTerminal s2) (k_save env f s2)) (\<lambda>_. kreturn s2)))))))))))"

datatype round_result = Returned run_outcome | Continue run_state

definition start_node :: "'w kernel_env \<Rightarrow> run_identity \<Rightarrow> fence option \<Rightarrow> run_state \<Rightarrow> runtime_node
    \<Rightarrow> (run_state, 'w) action" where
  "start_node env i f s node =
     kbind (assertLeaseHealthy env i f s) (\<lambda>_.
     kbind (kwhen (checkpointsBefore node) (k_save env f s)) (\<lambda>_.
     kbind (recordEvent env i s (rn_id node) ''node.started'' (started_json node s) f) (\<lambda>ev.
     kbind (kread (ke_now env)) (\<lambda>now.
     kreturn (s\<lparr>cursor := (cursor s)\<lparr>checkpointSeq := ev_seq ev\<rparr>, updatedAt := now\<rparr>)))))"

definition kernel_round :: "'w kernel_env \<Rightarrow> run_identity \<Rightarrow> fence option \<Rightarrow> run_state \<Rightarrow> (round_result, 'w) action" where
  "kernel_round env i f s =
     kbind (klift (nodeFor (ke_graph env) (nodeId (cursor s)))) (\<lambda>node.
     kbind (start_node env i f s node) (\<lambda>s1.
     kbind (k_hook env ''beforeNode'' (middlewareContext i s1 ''beforeNode'' (Some node) None None)) (\<lambda>res.
     kbind (assertLeaseHealthy env i f s1) (\<lambda>_.
     kbind (klift (canon res)) (\<lambda>before.
     kbind (early_outcome env f s1 before) (\<lambda>x. case x of
         Some out \<Rightarrow> kreturn (Returned out)
       | None \<Rightarrow> kbind (complete_node env i f s1 node before) (\<lambda>s2.
           if isTerminal s2 then
             kbind (k_hook env ''afterRun'' (middlewareContext i s2 ''afterRun'' None None None)) (\<lambda>_.
             kreturn (Returned (outcomeFromTerminalState s2)))
           else kreturn (Continue s2))))))))"

fun kernel_loop :: "nat \<Rightarrow> 'w kernel_env \<Rightarrow> run_identity \<Rightarrow> fence option \<Rightarrow> run_state \<Rightarrow> 'w kworld
    \<Rightarrow> ((kerror + run_outcome) \<times> 'w kworld) option" where
  "kernel_loop 0 env i f s w = None"
| "kernel_loop (Suc n) env i f s w = (case kernel_round env i f s w of
      (Inl e, w') \<Rightarrow> Some (Inl e, w')
    | (Inr (Returned x), w') \<Rightarrow> Some (Inr x, w')
    | (Inr (Continue s'), w') \<Rightarrow> kernel_loop n env i f s' w')"

section \<open>The run\<close>

text \<open>A snapshot that was terminal when it was loaded: replay, clean up, refresh the graph version.\<close>

definition resume_terminal :: "'w kernel_env \<Rightarrow> run_identity \<Rightarrow> fence option \<Rightarrow> run_state \<Rightarrow> (run_outcome, 'w) action" where
  "resume_terminal env i f s =
     kbind (replayAfterCheckpoint env i f s) (\<lambda>s1.
     kbind (if checkpointSeq (cursor s1) > checkpointSeq (cursor s)
        then k_hook env ''afterRun'' (middlewareContext i s1 ''afterRun'' None None None) else kreturn []) (\<lambda>_.
     let m = migrateTerminalGraphMetadata (ke_graph env) s1 in
     kbind (kwhen (m \<noteq> s1 \<or> checkpointSeq (cursor s1) > checkpointSeq (cursor s)) (k_save env f m)) (\<lambda>_.
     kreturn (outcomeFromTerminalState s1))))"

text \<open>A live snapshot: replay, migrate, mark as running, run the \<open>beforeRun\<close> hook.\<close>

definition resume_live :: "'w kernel_env \<Rightarrow> run_identity \<Rightarrow> fence option \<Rightarrow> run_state \<Rightarrow> (round_result, 'w) action" where
  "resume_live env i f s =
     (case graphCompatibility (ke_graph env) s of
        Some x \<Rightarrow> kreturn (Returned x)
      | None \<Rightarrow>
          kbind (replayAfterCheckpoint env i f s) (\<lambda>s1.
          if isTerminal s1 then
            kbind (if checkpointSeq (cursor s1) > checkpointSeq (cursor s)
              then k_hook env ''afterRun'' (middlewareContext i s1 ''afterRun'' None None None) else kreturn []) (\<lambda>_.
            let m = migrateTerminalGraphMetadata (ke_graph env) s1 in
            kbind (k_save env f m) (\<lambda>_. kreturn (Returned (outcomeFromTerminalState m))))
          else
            kbind (kread (ke_now env)) (\<lambda>now.
            kbind (klift (migrateGraphState (ke_graph env) (ke_okp env) (ke_okt env) now s1)) (\<lambda>s2.
            kbind (k_save env f s2) (\<lambda>_.
            kbind (kread (ke_now env)) (\<lambda>now'.
            let s3 = s2\<lparr>status := Running, updatedAt := now'\<rparr> in
            kbind (k_save env f s3) (\<lambda>_.
            kbind (k_hook env ''beforeRun'' (middlewareContext i s3 ''beforeRun'' None None None)) (\<lambda>res.
            kbind (assertLeaseHealthy env i f s3) (\<lambda>_.
            kbind (klift (canon res)) (\<lambda>cs.
            kbind (early_outcome env f s3 cs) (\<lambda>x. case x of
                Some out \<Rightarrow> kreturn (Returned out)
              | None \<Rightarrow> kreturn (Continue s3))))))))))))"

definition open_run :: "'w kernel_env \<Rightarrow> run_identity \<Rightarrow> fence option \<Rightarrow> (round_result, 'w) action" where
  "open_run env i f =
     kbind (k_load i) (\<lambda>loaded.
     kbind (case loaded of Some s \<Rightarrow> kreturn s
        | None \<Rightarrow> kbind (kread (ke_now env)) (\<lambda>now. kreturn (initialState (ke_graph env) now i))) (\<lambda>s.
     kbind (klift (assertStateIdentity i s)) (\<lambda>_.
     kbind (assertLeaseHealthy env i f s) (\<lambda>_.
     if isTerminal s then kbind (resume_terminal env i f s) (\<lambda>x. kreturn (Returned x))
     else resume_live env i f s))))"

text \<open>The body of the \<open>try\<close> block.\<close>

definition try_run :: "nat \<Rightarrow> 'w kernel_env \<Rightarrow> run_identity \<Rightarrow> fence option \<Rightarrow> 'w kworld
    \<Rightarrow> ((kerror + run_outcome) \<times> 'w kworld) option" where
  "try_run fuel env i f w = (case open_run env i f w of
      (Inl e, w') \<Rightarrow> Some (Inl e, w')
    | (Inr (Returned x), w') \<Rightarrow> Some (Inr x, w')
    | (Inr (Continue s), w') \<Rightarrow> kernel_loop fuel env i f s w')"

definition lower_char :: "char \<Rightarrow> char" where
  "lower_char c = (let n = of_char c :: nat in if 65 \<le> n \<and> n \<le> 90 then char_of (n + 32) else c)"

definition isFenceError :: "kerror \<Rightarrow> bool" where
  "isFenceError e = (case e of
      KErr (Error m) \<Rightarrow> contains (map lower_char m) ''lease fence'' \<or> contains (map lower_char m) ''stale lease''
    | _ \<Rightarrow> False)"

definition failure_outcome :: "kerror \<Rightarrow> run_outcome" where
  "failure_outcome e = \<lparr>oc_status = OFailed, oc_reason = Runtime_error, oc_item = None, oc_retryable = True,
     oc_details = Some [(''message'', JStr (case e of KErr x \<Rightarrow> error_message x | _ \<Rightarrow> []))]\<rparr>"

text \<open>\<open>try \<dots> catch\<close> around a save whose failure is ignored.\<close>

definition k_try :: "(unit, 'w) action \<Rightarrow> (unit, 'w) action" where
  "k_try m w = (Inr (), snd (m w))"

definition lost_outcome :: "run_identity \<Rightarrow> (run_outcome, 'w) action" where
  "lost_outcome i = kbind (k_load i) (\<lambda>v. kreturn (case v of
      Some s \<Rightarrow> if isTerminal s then outcomeFromTerminalState s else leaseUnavailableOutcome
    | None \<Rightarrow> leaseUnavailableOutcome))"

definition error_outcome :: "'w kernel_env \<Rightarrow> run_identity \<Rightarrow> fence option \<Rightarrow> kerror \<Rightarrow> (run_outcome, 'w) action" where
  "error_outcome env i f e =
     kbind (k_load i) (\<lambda>v. case v of
       None \<Rightarrow> kreturn (failure_outcome e)
     | Some s \<Rightarrow>
         kbind (k_hook env ''onError'' (middlewareContext i s ''onError'' None None (Some e))) (\<lambda>_.
         kbind (kwhen (\<not> isTerminal s) (kbind (kread (ke_now env)) (\<lambda>now.
           k_try (k_save env f (withOutcome now s (failure_outcome e)))))) (\<lambda>_.
         kreturn (if isTerminal s then outcomeFromTerminalState s else failure_outcome e))))"

definition catch_error :: "'w kernel_env \<Rightarrow> run_identity \<Rightarrow> fence option \<Rightarrow> kerror \<Rightarrow> (run_outcome, 'w) action" where
  "catch_error env i f e w = (case e of
      KCrash x \<Rightarrow> (Inl (KCrash x), w)
    | KLost (Some x) \<Rightarrow> (Inr x, w)
    | KLost None \<Rightarrow> lost_outcome i w
    | KErr x \<Rightarrow> if kw_lost w \<or> isFenceError e then lost_outcome i w else error_outcome env i f e w)"

definition kernel_run :: "nat \<Rightarrow> 'w kernel_env \<Rightarrow> run_identity \<Rightarrow> 'w kworld
    \<Rightarrow> ((kerror + run_outcome) \<times> 'w kworld) option" where
  "kernel_run fuel env i w = (case k_acquire env i w of
      (Inl e, w1) \<Rightarrow> Some (Inl e, w1)
    | (Inr g, w1) \<Rightarrow>
        if \<not> lg_acquired g then Some (Inr leaseUnavailableOutcome, w1)
        else (case try_run fuel env i (lg_fence g) (w1\<lparr>kw_lost := False\<rparr>) of
            None \<Rightarrow> None
          | Some (Inr x, w2) \<Rightarrow> Some (Inr x, k_release env i (lg_fence g) w2)
          | Some (Inl e, w2) \<Rightarrow>
              (let r = catch_error env i (lg_fence g) e w2 in Some (fst r, k_release env i (lg_fence g) (snd r)))))"

text \<open>The checks of the constructor.\<close>

definition kernel_new :: "'w kernel_env \<Rightarrow> 'w kernel_env result" where
  "kernel_new env =
     bind_result (validateExecutionGraph (ke_graph env)) (\<lambda>_.
     if is_safe_integer (ke_ttl env) \<and> 0 < ke_ttl env then Inr env
     else throw ''leaseTtlMs must be a positive safe integer'')"

end
