(* ===== verification/KernelReplay.thy ===== *)
theory KernelReplay
  imports KernelRun
begin

text \<open>
  Crash recovery of the run kernel: the events a live run logs, replayed on the state it started from,
  give the state it reached, up to the time stamp \<open>updatedAt\<close>. The handlers, hooks and the crash hook of
  the live run are assumed to leave the event log to the kernel; the environment that replays may be
  another one (a new process) with the same graph.
\<close>

section \<open>Time stamps do not matter\<close>

definition same_run :: "run_state \<Rightarrow> run_state \<Rightarrow> bool" where
  "same_run s t = (s\<lparr>updatedAt := []\<rparr> = t\<lparr>updatedAt := []\<rparr>)"

lemma same_run_refl [simp]: "same_run s s"
  by (simp add: same_run_def)

lemma same_run_stamp: "same_run s t \<longleftrightarrow> (\<exists>x. t = s\<lparr>updatedAt := x\<rparr>)"
proof
  assume "same_run s t"
  then have "t = s\<lparr>updatedAt := updatedAt t\<rparr>" by (cases s; cases t) (simp add: same_run_def)
  then show "\<exists>x. t = s\<lparr>updatedAt := x\<rparr>" ..
qed (auto simp: same_run_def)

lemma budgetUsageIdSet_stamp [simp]: "budgetUsageIdSet (s\<lparr>updatedAt := x\<rparr>) = budgetUsageIdSet s"
  by (simp add: budgetUsageIdSet_def)

lemma addBudget_stamp:
  "addBudget (s\<lparr>updatedAt := x\<rparr>) d u ids
     = bind_result (addBudget s d u ids) (\<lambda>r. Inr ((fst r)\<lparr>updatedAt := x\<rparr>, snd r))"
  by (cases "fold_result (add_budget_key d) budgetKeys (budgets s)")
    (auto simp: addBudget_def split: option.splits)

lemma apply_command_stamp:
  "apply_command c (s\<lparr>updatedAt := x\<rparr>, ids)
     = bind_result (apply_command c (s, ids)) (\<lambda>r. Inr ((fst r)\<lparr>updatedAt := x\<rparr>, snd r))"
proof (cases c)
  case (AddBudget d u)
  then show ?thesis
    by (cases ids; cases "budgetUsageIdSet s") (simp_all add: addBudget_stamp bind_result_assoc)
qed (simp_all add: throw_def)

lemma apply_commands_stamp:
  "fold_result apply_command cs (s\<lparr>updatedAt := x\<rparr>, ids)
     = bind_result (fold_result apply_command cs (s, ids)) (\<lambda>r. Inr ((fst r)\<lparr>updatedAt := x\<rparr>, snd r))"
proof (induction cs arbitrary: s ids)
  case (Cons c cs)
  show ?case
    by (cases "apply_command c (s, ids)") (auto simp: apply_command_stamp Cons.IH)
qed simp

lemma applyCommands_stamp:
  "applyCommands (s\<lparr>updatedAt := x\<rparr>) cs = bind_result (applyCommands s cs) (\<lambda>a. Inr (a\<lparr>updatedAt := x\<rparr>))"
  by (simp add: applyCommands_def apply_commands_stamp bind_result_assoc)

lemma isTerminal_stamp [simp]: "isTerminal (s\<lparr>updatedAt := x\<rparr>) = isTerminal s"
  by (simp add: isTerminal_def)

lemma store_value_stamp: "store_value n v (s\<lparr>updatedAt := x\<rparr>) = (store_value n v s)\<lparr>updatedAt := x\<rparr>"
  by (simp add: store_value_def split: option.splits)

lemma withOutcome_stamp:
  "(withOutcome now (s\<lparr>updatedAt := x\<rparr>) y)\<lparr>updatedAt := z\<rparr> = (withOutcome now' s y)\<lparr>updatedAt := z\<rparr>"
  by (simp add: withOutcome_def)

lemma reduceCompletedNode_stamp:
  assumes "reduceCompletedNode g now s node p n = Inr r"
  shows "reduceCompletedNode g now' (s\<lparr>updatedAt := x\<rparr>) node p n = Inr (r\<lparr>updatedAt := now'\<rparr>)"
proof -
  obtain a where a: "applyCommands s (cp_commands p) = Inr a"
    using assms by (auto simp: reduceCompletedNode_def result_simps)
  show ?thesis
  proof (cases "cp_outcome p")
    case (Some y)
    then have "r = (withOutcome now (store_value (rn_id node) (cp_value p) a) y)
        \<lparr>cursor := advance_checkpoint n (cursor (store_value (rn_id node) (cp_value p) a)), updatedAt := now\<rparr>"
      using assms a by (simp add: reduceCompletedNode_def Let_def)
    then show ?thesis
      using a Some
      by (simp add: reduceCompletedNode_def Let_def applyCommands_stamp store_value_stamp withOutcome_def)
  next
    case None
    then obtain t l m where "next_edge g (rn_id node) p = Inr (t, l)" "nodeFor g t = Inr m"
      using assms a by (auto simp: reduceCompletedNode_def Let_def result_simps)
    then show ?thesis
      using assms a None
      by (auto simp: reduceCompletedNode_def Let_def applyCommands_stamp store_value_stamp)
  qed
qed

lemma redirect_stamp:
  "redirect g cs (s\<lparr>updatedAt := x\<rparr>) = bind_result (redirect g cs s) (\<lambda>b. Inr (b\<lparr>updatedAt := x\<rparr>))"
proof (cases "isTerminal s")
  case False
  show ?thesis
  proof (cases "middlewareControlTarget g cs (nodeId (cursor s))")
    case (Some n)
    then show ?thesis using False by (cases "nodeFor g n") (simp_all add: redirect_def)
  qed (simp add: redirect_def False)
qed (simp add: redirect_def)

definition after_body :: "string \<Rightarrow> after_payload \<Rightarrow> run_state \<Rightarrow> run_state" where
  "after_body now q a = (case (case ap_outcome q of Some x \<Rightarrow> Some x | None \<Rightarrow> commandOutcome (ap_commands q)) of
      Some x \<Rightarrow> withOutcome now a x | None \<Rightarrow> a)"

lemma after_body_stamp:
  "after_body now' q (a\<lparr>updatedAt := x\<rparr>) = (after_body now q a)\<lparr>updatedAt := updatedAt (after_body now' q (a\<lparr>updatedAt := x\<rparr>))\<rparr>"
  by (auto simp: after_body_def withOutcome_def split: option.splits)

lemma reduceAfterMiddleware_body:
  "reduceAfterMiddleware g now s q n =
     bind_result (if isTerminal s then Inr s
        else bind_result (applyCommands s (ap_commands q)) (\<lambda>a. Inr (after_body now q a))) (\<lambda>a.
     bind_result (redirect g (ap_commands q) a) (\<lambda>b.
     Inr (b\<lparr>cursor := advance_checkpoint n (cursor b), updatedAt := now\<rparr>)))"
  by (simp add: reduceAfterMiddleware_def after_body_def)

lemma reduceAfterMiddleware_stamp:
  assumes "reduceAfterMiddleware g now s q n = Inr r"
  shows "reduceAfterMiddleware g now' (s\<lparr>updatedAt := x\<rparr>) q n = Inr (r\<lparr>updatedAt := now'\<rparr>)"
proof (cases "isTerminal s")
  case True
  with assms show ?thesis by (auto simp: reduceAfterMiddleware_def redirect_def)
next
  case False
  then obtain a b where a: "applyCommands s (ap_commands q) = Inr a"
    and b: "redirect g (ap_commands q) (after_body now q a) = Inr b"
    and r: "r = b\<lparr>cursor := advance_checkpoint n (cursor b), updatedAt := now\<rparr>"
    using assms by (auto simp: reduceAfterMiddleware_body result_simps)
  obtain y where y: "after_body now' q (a\<lparr>updatedAt := x\<rparr>) = (after_body now q a)\<lparr>updatedAt := y\<rparr>"
    using after_body_stamp by blast
  show ?thesis
    using False a b by (simp add: reduceAfterMiddleware_body applyCommands_stamp y redirect_stamp r)
qed

section \<open>Actions that leave the log alone\<close>

definition calm :: "('w kworld \<Rightarrow> 'x \<times> 'w kworld) \<Rightarrow> bool" where
  "calm m = (\<forall>w. kw_events (snd (m w)) = kw_events w \<and> kw_reads w \<le> kw_reads (snd (m w)))"

text \<open>The environment's handlers, hooks and crash hook leave the event log to the kernel.\<close>

definition quiet_env :: "'w kernel_env \<Rightarrow> bool" where
  "quiet_env env = ((\<forall>n h c f. ke_nodes env n = Some h \<longrightarrow> calm (h c f))
     \<and> (\<forall>hook c. calm (run_hook (\<lambda>_. []) (ke_chain env) hook c)) \<and> (\<forall>p. calm (ke_crash env p)))"

lemma kbind_Inr:
  "kbind m f w = (Inr y, w') \<longleftrightarrow> (\<exists>x w1. m w = (Inr x, w1) \<and> f x w1 = (Inr y, w'))"
  by (auto simp: kbind_def split: prod.splits sum.splits)

lemma calm_kreturn [simp]: "calm (kreturn x)" "calm (kfail e)" "calm (klift r)" "calm (kread s)"
  by (auto simp: calm_def kreturn_def kfail_def klift_def kread_def split: sum.splits)

lemma calm_kcall: "calm m \<Longrightarrow> calm (kcall m)"
  by (auto simp: calm_def kcall_def split: prod.splits sum.splits) (metis snd_conv)+

lemma calm_kbind: "calm m \<Longrightarrow> (\<And>x. calm (f x)) \<Longrightarrow> calm (kbind m f)"
  by (auto simp: calm_def kbind_def split: prod.splits sum.splits) (metis snd_conv order_trans)+

lemma calm_kwhen: "calm m \<Longrightarrow> calm (kwhen b m)"
  by (simp add: kwhen_def)

lemma calm_k_save [simp]: "calm (k_save env f s)"
  unfolding k_save_def by (rule calm_kbind [OF calm_kreturn(4)], rule calm_kcall) (simp add: calm_def split: prod.splits)

lemma calm_guard_renew [simp]: "calm (guard_renew env i f)"
  unfolding guard_renew_def
  by (rule calm_kbind [OF calm_kreturn(4)])+ (auto simp: calm_def split: prod.splits)

lemma calm_assertLeaseHealthy [simp]: "calm (assertLeaseHealthy env i f s)"
  unfolding assertLeaseHealthy_def by (rule calm_kbind) (auto split: if_splits)

lemma calm_reachCrashPoint: "quiet_env env \<Longrightarrow> calm (reachCrashPoint env p)"
  by (auto simp: calm_def reachCrashPoint_def quiet_env_def split: prod.splits sum.splits) (metis snd_conv)+

lemma calm_k_hook: "quiet_env env \<Longrightarrow> calm (k_hook env hook c)"
  unfolding k_hook_def by (rule calm_kcall) (simp add: quiet_env_def)

lemma calm_run_handler: "quiet_env env \<Longrightarrow> calm (run_handler env i f s node)"
  unfolding run_handler_def
  by (auto split: option.splits intro!: calm_kbind calm_kcall) (simp add: quiet_env_def)

lemma calm_early_outcome: "calm (early_outcome env f s cs)"
  unfolding early_outcome_def by (auto split: option.splits intro!: calm_kbind)

section \<open>What a recorded event adds to the log\<close>

lemma trim_start_id_iff: "trim_start s = s \<longleftrightarrow> s = [] \<or> \<not> is_js_space (hd s)"
  by (cases s) (auto simp: trim_start_def, metis dropWhile_eq_Cons_conv not_Cons_self2)

lemma ok_string_iff: "ok_string s \<longleftrightarrow> s \<noteq> [] \<and> \<not> is_js_space (hd s) \<and> \<not> is_js_space (last s)"
proof
  assume "s \<noteq> [] \<and> \<not> is_js_space (hd s) \<and> \<not> is_js_space (last s)"
  then show "ok_string s" by (cases s) (auto intro: ok_string_Cons)
next
  assume ok: "ok_string s"
  have start: "trim_start s = s"
    using ok length_dropWhile_le [of is_js_space s] length_dropWhile_le [of is_js_space "rev (trim_start s)"]
    by (metis (no_types) dropWhile_idem ok_string_def trim_def trim_idem trim_start_def trim_start_trim_end)
  have "trim_end s = s" using ok start by (simp add: ok_string_def trim_def)
  then have "dropWhile is_js_space (rev s) = rev s" by (metis rev_rev_ident trim_end_def)
  then have "\<not> is_js_space (last s)"
    using ok trim_start_id_iff [of "rev s"] by (simp add: trim_start_def hd_rev ok_string_def)
  with start ok trim_start_id_iff [of s] show "s \<noteq> [] \<and> \<not> is_js_space (hd s) \<and> \<not> is_js_space (last s)"
    by (simp add: ok_string_def)
qed

lemma show_nat_last: "show_nat n \<noteq> [] \<and> \<not> is_js_space (last (show_nat n))"
proof -
  have "is_js_space (char_of (48 + d :: nat)) = False" if "d < 10" for d
    using that by (simp add: is_js_space_def take_bit_eq_mod)
  then show ?thesis by (subst (1 2) show_nat.simps) simp
qed

lemma ok_string_attempt: "ok_string n \<Longrightarrow> ok_string (n @ '':'' @ show_nat a)"
  using show_nat_last by (simp add: ok_string_iff hd_append)

text \<open>Readings from the current one on are ids no event of the run has, and never repeat.\<close>

definition fresh_ids :: "'w kernel_env \<Rightarrow> run_identity \<Rightarrow> 'w kworld \<Rightarrow> bool" where
  "fresh_ids env i w = (\<forall>e \<in> set (store_log (kw_events w) i). \<forall>n \<ge> kw_reads w. ev_id e \<noteq> ke_uuid env n)"

definition good_readings :: "'w kernel_env \<Rightarrow> bool" where
  "good_readings env = (inj (ke_uuid env) \<and> (\<forall>n. ok_string (ke_uuid env n) \<and> ok_string (ke_now env n)))"

definition log_inv :: "'w kernel_env \<Rightarrow> run_identity \<Rightarrow> 'w kworld \<Rightarrow> bool" where
  "log_inv env i w = (es_well (kw_events w) \<and> fresh_ids env i w)"

lemma calm_log:
  assumes "calm m" and "m w = (r, w')" and "log_inv env i w"
  shows "log_inv env i w' \<and> kw_events w' = kw_events w"
  using assms unfolding calm_def log_inv_def fresh_ids_def
  by (metis order_trans snd_conv)

lemma recordEvent_log:
  assumes run: "recordEvent env i s n ty payload f w = (Inr ev, w')" and inv: "log_inv env i w"
    and good: "good_readings env" and i: "ok_identity i" and n: "ok_string n" and ty: "ok_string ty"
  shows "log_inv env i w' \<and> store_log (kw_events w') i = store_log (kw_events w) i @ [ev]
    \<and> ev_identity ev = i \<and> ev_type ev = ty \<and> ev_payload ev = payload
    \<and> ev_seq ev = run_log.next_seq (kw_events w) i"
proof -
  let ?log = "store_log (kw_events w) i" and ?r = "kw_reads w"
  have well: "es_well (kw_events w)" and fresh: "\<forall>e \<in> set ?log. \<forall>n \<ge> ?r. ev_id e \<noteq> ke_uuid env n"
    using inv by (auto simp: log_inv_def fresh_ids_def)
  have es: "listAfter i 0 (kw_events w) = Inr ?log"
    using i run_log.log_positive [OF well] by (simp add: listAfter_log filter_id_conv)
  define e where "e = \<lparr>ev_id = ke_uuid env ?r, ev_seq = run_log.next_seq (kw_events w) i, ev_identity = i,
    ev_step = Some n, ev_attempt = Some (n @ '':'' @ show_nat (attempt (cursor s))), ev_type = ty,
    ev_key = None, ev_payload = payload, ev_time = ke_now env (?r + 1)\<rparr>"
  have step: "append_event e f (kw_events w) = (Inr ev, kw_events w')" and reads: "kw_reads w' = ?r + 2"
    using run es by (auto simp: recordEvent_def kbind_def kcall_def kread_def Let_def e_def
        run_log.next_seq_def prod_eq_iff split: prod.splits sum.splits)
  have fields: "ok_string (ev_id e)" "0 < ev_seq e" "ok_identity (ev_identity e)" "ok_option ok_string (ev_step e)"
    "ok_option ok_string (ev_attempt e)" "ok_string (ev_type e)" "ok_option ok_string (ev_key e)"
    "ok_string (ev_time e)"
    using good i n ty ok_string_attempt [OF n]
    by (simp_all add: e_def good_readings_def ok_option_def run_log.next_seq_def)
  have "ok_nat (ev_seq e)"
  proof (rule ccontr)
    assume "\<not> ok_nat (ev_seq e)"
    then have "parse_event e = Inl ZodError"
      using fields by (simp add: parse_event_def ok_string_check)
    with step show False by (simp add: append_event_def)
  qed
  with fields have ok: "ok_event e" by (simp add: ok_event_def)
  have "store_accepts i f (kw_events w)"
  proof (rule ccontr)
    assume rej: "\<not> store_accepts i f (kw_events w)"
    obtain k where k: "eventKey e = Inr k" "identityKey i = Inr k"
      using eventKey_cases [OF ok] by (auto simp: e_def)
    with rej step show False by (simp add: append_event_ok [OF ok k(1)] store_accepts_def)
  qed
  then have "fst (append_event e f (kw_events w)) = Inr e"
    and "store_log (snd (append_event e f (kw_events w))) = (store_log (kw_events w))(i := ?log @ [e])"
    using run_log.record_next [OF well ok, of f] fresh by (simp_all add: e_def)
  then have ev: "ev = e" and log: "store_log (kw_events w') i = ?log @ [e]" using step by auto
  have "es_well (kw_events w')" using append_event_well [OF well, of e f] step by simp
  moreover have "fresh_ids env i w'"
    using fresh good by (auto simp: fresh_ids_def log reads e_def good_readings_def dest: injD)
  ultimately show ?thesis using ev log by (simp add: log_inv_def e_def)
qed

lemma next_seq_snoc:
  "store_log st' i = store_log st i @ [e] \<Longrightarrow> ev_seq e = run_log.next_seq st i \<Longrightarrow>
    run_log.next_seq st' i = ev_seq e + 1"
  using max_seq_ge [of _ "map ev_seq (store_log st i)"]
  by (simp add: run_log.next_seq_def max_seq_def)

section \<open>The three events of a round\<close>

text \<open>What the log shows of one round from state \<open>s\<close> to \<open>s'\<close>, with the reductions the kernel made.\<close>

definition round_events :: "execution_graph \<Rightarrow> run_identity \<Rightarrow> run_state \<Rightarrow> json run_event list \<Rightarrow> run_state \<Rightarrow> bool" where
  "round_events g i s evs s' = (\<exists>e1 e2 e3 node p q n1 n2 n3 s2.
     evs = [e1, e2, e3] \<and> ev_identity e1 = i \<and> ev_identity e2 = i \<and> ev_identity e3 = i
     \<and> ev_type e1 = ''node.started'' \<and> ev_type e2 = ''node.completed'' \<and> ev_type e3 = ''node.after_middleware''
     \<and> checkpointSeq (cursor s) < ev_seq e1 \<and> ev_seq e1 < ev_seq e2 \<and> ev_seq e2 < ev_seq e3
     \<and> nodeFor g (nodeId (cursor s)) = Inr node
     \<and> parseCompletedNodePayload (ev_payload e2) = Inr p \<and> cp_nodeId p = rn_id node
     \<and> reduceCompletedNode g n2 (s\<lparr>cursor := (cursor s)\<lparr>checkpointSeq := ev_seq e1\<rparr>, updatedAt := n1\<rparr>)
         node p (ev_seq e2) = Inr s2
     \<and> parseAfterMiddlewarePayload (ev_payload e3) = Inr q \<and> assertAfterMiddlewareMatches p q = Inr ()
     \<and> reduceAfterMiddleware g n3 s2 q (ev_seq e3) = Inr s')"

lemma ok_types: "ok_string ''node.started''" "ok_string ''node.completed''" "ok_string ''node.after_middleware''"
  by (simp_all add: ok_string_Cons is_js_space_def)

lemma klift_Inr [simp]: "klift r w = (Inr x, w') \<longleftrightarrow> r = Inr x \<and> w' = w"
  by (auto simp: klift_def split: sum.splits)

lemma kreturn_Inr [simp]: "kreturn x w = (Inr y, w') \<longleftrightarrow> y = x \<and> w' = w"
  by (auto simp: kreturn_def)

lemma commit_log:
  assumes run: "commitAfterMiddleware env i f s node p w = (Inr s', w')" and inv: "log_inv env i w"
    and env: "quiet_env env" "good_readings env" and i: "ok_identity i" and n: "ok_string (rn_id node)"
  shows "\<exists>ev q now. log_inv env i w' \<and> store_log (kw_events w') i = store_log (kw_events w) i @ [ev]
    \<and> ev_identity ev = i \<and> ev_type ev = ''node.after_middleware''
    \<and> ev_seq ev = run_log.next_seq (kw_events w) i \<and> parseAfterMiddlewarePayload (ev_payload ev) = Inr q
    \<and> assertAfterMiddlewareMatches p q = Inr ()
    \<and> reduceAfterMiddleware (ke_graph env) now s q (ev_seq ev) = Inr s'"
proof -
  obtain res cs u w1 w2 w3 w4 w5 w6 w7 ev q now x where steps:
    "assertLeaseHealthy env i f s w = (Inr x, w1)"
    "k_hook env ''afterNode'' (middlewareContext i s ''afterNode'' (Some node) (cp_facts p) None) w1 = (Inr res, w2)"
    "assertLeaseHealthy env i f s w2 = (Inr u, w3)"
    "reachCrashPoint env After_node_middleware w3 = (Inr (), w4)"
    "recordEvent env i s (rn_id node) ''node.after_middleware'' (after_json (after_payload_of node p cs)) f w4 = (Inr ev, w5)"
    "parseAfterMiddlewarePayload (ev_payload ev) = Inr q" "assertAfterMiddlewareMatches p q = Inr ()"
    "kread (ke_now env) w5 = (Inr now, w6)"
    "reduceAfterMiddleware (ke_graph env) now s q (ev_seq ev) = Inr s'"
    "reachCrashPoint env After_node_after_middleware_event w6 = (Inr (), w7)" "w' = w7"
    using run unfolding commitAfterMiddleware_def kbind_Inr klift_Inr kreturn_Inr by auto
  have 1: "log_inv env i w1 \<and> kw_events w1 = kw_events w"
    by (rule calm_log [OF calm_assertLeaseHealthy steps(1) inv])
  have 2: "log_inv env i w2 \<and> kw_events w2 = kw_events w1"
    by (rule calm_log [OF calm_k_hook [OF env(1)] steps(2)]) (use 1 in blast)
  have 3: "log_inv env i w3 \<and> kw_events w3 = kw_events w2"
    by (rule calm_log [OF calm_assertLeaseHealthy steps(3)]) (use 2 in blast)
  have 4: "log_inv env i w4 \<and> kw_events w4 = kw_events w3"
    by (rule calm_log [OF calm_reachCrashPoint [OF env(1)] steps(4)]) (use 3 in blast)
  have same: "kw_events w4 = kw_events w" using 1 2 3 4 by simp
  have 5: "log_inv env i w5 \<and> store_log (kw_events w5) i = store_log (kw_events w4) i @ [ev]
      \<and> ev_identity ev = i \<and> ev_type ev = ''node.after_middleware''
      \<and> ev_payload ev = after_json (after_payload_of node p cs) \<and> ev_seq ev = run_log.next_seq (kw_events w4) i"
    by (rule recordEvent_log [OF steps(5) _ env(2) i n ok_types(3)]) (use 4 in blast)
  have 6: "log_inv env i w6 \<and> kw_events w6 = kw_events w5"
    by (rule calm_log [OF calm_kreturn(4) steps(8)]) (use 5 in blast)
  have 7: "log_inv env i w7 \<and> kw_events w7 = kw_events w6"
    by (rule calm_log [OF calm_reachCrashPoint [OF env(1)] steps(10)]) (use 6 in blast)
  show ?thesis using steps 5 6 7 same by auto
qed

lemma completed_nodeId:
  "parseCompletedNodePayload (completed_json p) = Inr q \<Longrightarrow> cp_nodeId q = cp_nodeId p"
  by (auto simp: parseCompletedNodePayload_def completed_json_def result_simps read_nonempty_def split: if_splits)

lemma complete_log:
  assumes run: "complete_node env i f s node before w = (Inr s', w')" and inv: "log_inv env i w"
    and env: "quiet_env env" "good_readings env" and i: "ok_identity i" and n: "ok_string (rn_id node)"
  shows "\<exists>e2 e3 p q n2 n3 s2. log_inv env i w'
    \<and> store_log (kw_events w') i = store_log (kw_events w) i @ [e2, e3]
    \<and> ev_identity e2 = i \<and> ev_identity e3 = i \<and> ev_type e2 = ''node.completed'' \<and> ev_type e3 = ''node.after_middleware''
    \<and> ev_seq e2 = run_log.next_seq (kw_events w) i \<and> ev_seq e3 = ev_seq e2 + 1
    \<and> parseCompletedNodePayload (ev_payload e2) = Inr p \<and> cp_nodeId p = rn_id node
    \<and> reduceCompletedNode (ke_graph env) n2 s node p (ev_seq e2) = Inr s2
    \<and> parseAfterMiddlewarePayload (ev_payload e3) = Inr q \<and> assertAfterMiddlewareMatches p q = Inr ()
    \<and> reduceAfterMiddleware (ke_graph env) n3 s2 q (ev_seq e3) = Inr s'"
proof -
  obtain r cs ev p now s1 x y z w1 w2 w3 w4 w5 w6 w7 where steps:
    "run_handler env i f s node w = (Inr r, w1)" "assertLeaseHealthy env i f s w1 = (Inr x, w2)"
    "recordEvent env i s (rn_id node) ''node.completed'' (completed_json (completed_of node s r cs)) f w2 = (Inr ev, w3)"
    "reachCrashPoint env After_node_completed w3 = (Inr y, w4)"
    "parseCompletedNodePayload (ev_payload ev) = Inr p" "kread (ke_now env) w4 = (Inr now, w5)"
    "reduceCompletedNode (ke_graph env) now s node p (ev_seq ev) = Inr s1"
    "commitAfterMiddleware env i f s1 node p w5 = (Inr s', w6)"
    "kwhen (checkpointsAfter node \<or> isTerminal s') (k_save env f s') w6 = (Inr z, w7)" "w' = w7"
    using run unfolding complete_node_def kbind_Inr klift_Inr kreturn_Inr by auto
  have 1: "log_inv env i w1 \<and> kw_events w1 = kw_events w"
    by (rule calm_log [OF calm_run_handler [OF env(1)] steps(1) inv])
  have 2: "log_inv env i w2 \<and> kw_events w2 = kw_events w1"
    by (rule calm_log [OF calm_assertLeaseHealthy steps(2)]) (use 1 in blast)
  have 3: "log_inv env i w3 \<and> store_log (kw_events w3) i = store_log (kw_events w2) i @ [ev]
      \<and> ev_identity ev = i \<and> ev_type ev = ''node.completed''
      \<and> ev_payload ev = completed_json (completed_of node s r cs) \<and> ev_seq ev = run_log.next_seq (kw_events w2) i"
    by (rule recordEvent_log [OF steps(3) _ env(2) i n ok_types(2)]) (use 2 in blast)
  have 4: "log_inv env i w4 \<and> kw_events w4 = kw_events w3"
    by (rule calm_log [OF calm_reachCrashPoint [OF env(1)] steps(4)]) (use 3 in blast)
  have 5: "log_inv env i w5 \<and> kw_events w5 = kw_events w4"
    by (rule calm_log [OF calm_kreturn(4) steps(6)]) (use 4 in blast)
  from commit_log [OF steps(8) _ env i n] 5 obtain e3 q n3 where 6:
    "log_inv env i w6" "store_log (kw_events w6) i = store_log (kw_events w5) i @ [e3]"
    "ev_identity e3 = i" "ev_type e3 = ''node.after_middleware''" "ev_seq e3 = run_log.next_seq (kw_events w5) i"
    "parseAfterMiddlewarePayload (ev_payload e3) = Inr q" "assertAfterMiddlewareMatches p q = Inr ()"
    "reduceAfterMiddleware (ke_graph env) n3 s1 q (ev_seq e3) = Inr s'"
    by blast
  have 7: "log_inv env i w7 \<and> kw_events w7 = kw_events w6"
    by (rule calm_log [OF calm_kwhen [OF calm_k_save] steps(9) 6(1)])
  have "cp_nodeId p = rn_id node"
    using completed_nodeId [of "completed_of node s r cs" p] 3 steps(5) by (simp add: completed_of_def)
  moreover have "run_log.next_seq (kw_events w5) i = ev_seq ev + 1"
    using next_seq_snoc [of "kw_events w3" i "kw_events w2" ev] 3 4 5 by simp
  ultimately show ?thesis
    using steps 1 2 3 4 5 6 7 by (intro exI [of _ ev] exI [of _ e3] exI [of _ p] exI [of _ q]
      exI [of _ now] exI [of _ n3] exI [of _ s1]) simp
qed

definition round_ready :: "'w kernel_env \<Rightarrow> run_identity \<Rightarrow> run_state \<Rightarrow> 'w kworld \<Rightarrow> bool" where
  "round_ready env i s w = (log_inv env i w \<and> checkpointSeq (cursor s) < run_log.next_seq (kw_events w) i)"

lemma early_none: "early_outcome env f s cs w = (Inr None, w') \<Longrightarrow> w' = w"
  by (auto simp: early_outcome_def kbind_Inr split: option.splits)

lemma reduceAfter_checkpoint:
  "reduceAfterMiddleware g now s q n = Inr s' \<Longrightarrow> n \<le> checkpointSeq (cursor s')
     \<and> checkpointSeq (cursor s') = max (checkpointSeq (cursor s)) n"
proof -
  assume "reduceAfterMiddleware g now s q n = Inr s'"
  then obtain a b where ab: "(if isTerminal s then Inr s
        else bind_result (applyCommands s (ap_commands q)) (\<lambda>a. Inr (after_body now q a))) = Inr a"
    "redirect g (ap_commands q) a = Inr b" "s' = b\<lparr>cursor := advance_checkpoint n (cursor b), updatedAt := now\<rparr>"
    by (auto simp: reduceAfterMiddleware_body result_simps)
  have "checkpointSeq (cursor b) = checkpointSeq (cursor a)"
    using ab(2) by (auto simp: redirect_def result_simps split: if_splits option.splits)
  moreover have "cursor a = cursor s"
  proof (cases "isTerminal s")
    case False
    then obtain a0 where a0: "applyCommands s (ap_commands q) = Inr a0" "a = after_body now q a0"
      using ab(1) by (auto simp: result_simps)
    then have "cursor a0 = cursor s" using applyCommands_framed by (simp add: framed_def)
    with a0(2) show ?thesis by (simp add: after_body_def withOutcome_def split: option.splits)
  qed (use ab(1) in simp)
  ultimately show ?thesis using ab(3) by (simp add: advance_checkpoint_def)
qed

lemma reduceCompleted_checkpoint:
  assumes "reduceCompletedNode g now s node p n = Inr s'"
  shows "checkpointSeq (cursor s') = max (checkpointSeq (cursor s)) n"
proof -
  obtain a where a: "applyCommands s (cp_commands p) = Inr a"
    using assms by (auto simp: reduceCompletedNode_def result_simps)
  have "cursor (store_value (rn_id node) (cp_value p) a) = cursor s"
    using framed_trans [OF applyCommands_framed [OF a] store_value_framed] by (simp add: framed_def)
  with assms a show ?thesis
    by (auto simp: reduceCompletedNode_def Let_def result_simps advance_checkpoint_def split: option.splits)
qed

lemma round_log:
  assumes run: "kernel_round env i f s w = (Inr (Continue s'), w')" and ready: "round_ready env i s w"
    and env: "quiet_env env" "good_readings env" and i: "ok_identity i" and ids: "ok_graph_ids (ke_graph env)"
  shows "\<exists>evs. store_log (kw_events w') i = store_log (kw_events w) i @ evs
    \<and> round_events (ke_graph env) i s evs s' \<and> round_ready env i s' w'"
proof -
  obtain node s1 res before x w1 w2 w3 w4 where steps:
    "nodeFor (ke_graph env) (nodeId (cursor s)) = Inr node" "start_node env i f s node w = (Inr s1, w1)"
    "k_hook env ''beforeNode'' (middlewareContext i s1 ''beforeNode'' (Some node) None None) w1 = (Inr res, w2)"
    "assertLeaseHealthy env i f s1 w2 = (Inr x, w3)"
    "early_outcome env f s1 before w3 = (Inr None, w4)"
    "complete_node env i f s1 node before w4 = (Inr s', w')"
    using run unfolding kernel_round_def kbind_Inr klift_Inr
    by (auto simp: kbind_Inr split: option.splits if_splits)
  have n: "ok_string (rn_id node)" using nodeFor_ok [OF steps(1) ids] nodeFor_Inr [OF steps(1)] by simp
  obtain e1 now y z v1 v2 v3 where start:
    "assertLeaseHealthy env i f s w = (Inr y, v1)" "kwhen (checkpointsBefore node) (k_save env f s) v1 = (Inr z, v2)"
    "recordEvent env i s (rn_id node) ''node.started'' (started_json node s) f v2 = (Inr e1, v3)"
    "kread (ke_now env) v3 = (Inr now, w1)"
    "s1 = s\<lparr>cursor := (cursor s)\<lparr>checkpointSeq := ev_seq e1\<rparr>, updatedAt := now\<rparr>"
    using steps(2) unfolding start_node_def kbind_Inr kreturn_Inr by auto
  have inv: "log_inv env i w" and cp: "checkpointSeq (cursor s) < run_log.next_seq (kw_events w) i"
    using ready by (auto simp: round_ready_def)
  have 1: "log_inv env i v1 \<and> kw_events v1 = kw_events w"
    by (rule calm_log [OF calm_assertLeaseHealthy start(1) inv])
  have 2: "log_inv env i v2 \<and> kw_events v2 = kw_events v1"
    by (rule calm_log [OF calm_kwhen [OF calm_k_save] start(2)]) (use 1 in blast)
  have 3: "log_inv env i v3 \<and> store_log (kw_events v3) i = store_log (kw_events v2) i @ [e1]
      \<and> ev_identity e1 = i \<and> ev_type e1 = ''node.started'' \<and> ev_payload e1 = started_json node s
      \<and> ev_seq e1 = run_log.next_seq (kw_events v2) i"
    by (rule recordEvent_log [OF start(3) _ env(2) i n ok_types(1)]) (use 2 in blast)
  have 4: "log_inv env i w1 \<and> kw_events w1 = kw_events v3"
    by (rule calm_log [OF calm_kreturn(4) start(4)]) (use 3 in blast)
  have 5: "log_inv env i w2 \<and> kw_events w2 = kw_events w1"
    by (rule calm_log [OF calm_k_hook [OF env(1)] steps(3)]) (use 4 in blast)
  have 6: "log_inv env i w3 \<and> kw_events w3 = kw_events w2"
    by (rule calm_log [OF calm_assertLeaseHealthy steps(4)]) (use 5 in blast)
  have 7: "w4 = w3" by (rule early_none [OF steps(5)])
  have nx: "run_log.next_seq (kw_events w4) i = ev_seq e1 + 1"
    using next_seq_snoc [of "kw_events v3" i "kw_events v2" e1] 3 4 5 6 7 by simp
  from complete_log [OF steps(6) _ env i n] 6 7 obtain e2 e3 p q n2 n3 s2 where 8:
    "log_inv env i w'" "store_log (kw_events w') i = store_log (kw_events w4) i @ [e2, e3]"
    "ev_identity e2 = i" "ev_identity e3 = i" "ev_type e2 = ''node.completed''" "ev_type e3 = ''node.after_middleware''"
    "ev_seq e2 = run_log.next_seq (kw_events w4) i" "ev_seq e3 = ev_seq e2 + 1"
    "parseCompletedNodePayload (ev_payload e2) = Inr p" "cp_nodeId p = rn_id node"
    "reduceCompletedNode (ke_graph env) n2 s1 node p (ev_seq e2) = Inr s2"
    "parseAfterMiddlewarePayload (ev_payload e3) = Inr q" "assertAfterMiddlewareMatches p q = Inr ()"
    "reduceAfterMiddleware (ke_graph env) n3 s2 q (ev_seq e3) = Inr s'"
    by blast
  have log: "store_log (kw_events w') i = store_log (kw_events w) i @ [e1, e2, e3]"
    using 1 2 3 4 5 6 7 8(2) by simp
  have e1: "ev_seq e1 = run_log.next_seq (kw_events w) i" using 1 2 3 by simp
  have "round_events (ke_graph env) i s [e1, e2, e3] s'"
    unfolding round_events_def
    by (rule exI [of _ e1], rule exI [of _ e2], rule exI [of _ e3], rule exI [of _ node],
        rule exI [of _ p], rule exI [of _ q], rule exI [of _ now], rule exI [of _ n2], rule exI [of _ n3],
        rule exI [of _ s2]) (use 3 8 steps(1) start(5) cp e1 nx in simp)
  moreover have "checkpointSeq (cursor s') = ev_seq e3"
    using reduceAfter_checkpoint [OF 8(14)] reduceCompleted_checkpoint [OF 8(11)] 8(7,8) nx start(5) by simp
  then have "round_ready env i s' w'"
    using 8(1) log max_seq_ge [of "ev_seq e3" "map ev_seq (store_log (kw_events w') i)"]
    by (simp add: round_ready_def run_log.next_seq_def less_Suc_eq_le)
  ultimately show ?thesis using log by blast
qed

section \<open>Replay\<close>

lemma identity_check_refl [simp]: "identity_check what i i = Inr ()"
  by (simp add: identity_check_def identity_fields_def)

lemma replay_round:
  assumes ev: "round_events g i s evs s'" and same: "same_run s t" and g: "ke_graph env = g"
    and start: "start \<le> checkpointSeq (cursor s)"
  shows "\<exists>t' v'. replay_events env i f start evs (t, None) v = (Inr (t', None), v') \<and> same_run s' t'
    \<and> kw_store v' = kw_store v \<and> kw_events v' = kw_events v"
proof -
  obtain e1 e2 e3 node p q n1 n2 n3 s2 where e: "evs = [e1, e2, e3]"
    "ev_identity e1 = i" "ev_identity e2 = i" "ev_identity e3 = i"
    "ev_type e1 = ''node.started''" "ev_type e2 = ''node.completed''" "ev_type e3 = ''node.after_middleware''"
    "checkpointSeq (cursor s) < ev_seq e1" "ev_seq e1 < ev_seq e2" "ev_seq e2 < ev_seq e3"
    "nodeFor g (nodeId (cursor s)) = Inr node"
    "parseCompletedNodePayload (ev_payload e2) = Inr p" "cp_nodeId p = rn_id node"
    and red1: "reduceCompletedNode g n2 (s\<lparr>cursor := (cursor s)\<lparr>checkpointSeq := ev_seq e1\<rparr>, updatedAt := n1\<rparr>)
         node p (ev_seq e2) = Inr s2"
    and after: "parseAfterMiddlewarePayload (ev_payload e3) = Inr q" "assertAfterMiddlewareMatches p q = Inr ()"
    and red2: "reduceAfterMiddleware g n3 s2 q (ev_seq e3) = Inr s'"
    using ev unfolding round_events_def by blast
  obtain x where t: "t = s\<lparr>updatedAt := x\<rparr>" using same by (auto simp: same_run_stamp)
  have id: "rn_id node = nodeId (cursor s)" using nodeFor_Inr [OF e(11)] by simp
  define t1 where "t1 = s\<lparr>cursor := (cursor s)\<lparr>checkpointSeq := ev_seq e1\<rparr>, updatedAt := ev_time e1\<rparr>"
  have adv: "t\<lparr>cursor := advance_checkpoint (ev_seq e1) (cursor t), updatedAt := ev_time e1\<rparr> = t1"
    using e(8) by (simp add: t t1_def advance_checkpoint_def max_def)
  let ?m2 = "ke_now env (kw_reads v)" and ?m3 = "ke_now env (kw_reads v + 1)"
  have r1: "reduceCompletedNode g ?m2 t1 node p (ev_seq e2) = Inr (s2\<lparr>updatedAt := ?m2\<rparr>)"
    using reduceCompletedNode_stamp [OF red1, of ?m2 "ev_time e1"] by (simp add: t1_def)
  have r2: "reduceAfterMiddleware g ?m3 (s2\<lparr>updatedAt := ?m2\<rparr>) q (ev_seq e3) = Inr (s'\<lparr>updatedAt := ?m3\<rparr>)"
    using reduceAfterMiddleware_stamp [OF red2] by simp
  have cur: "nodeId (cursor t1) = cp_nodeId p" using e(13) id by (simp add: t1_def)
  have f1: "replay_event env i f start e1 (t, None) v = (Inr (t1, None), v)" for v
    using e(2,5,8) start adv by (simp add: replay_event_def assertEventIdentity_def kbind_def klift_def
        kreturn_def settle_pending_def)
  have f2: "replay_event env i f start e2 (t1, None) v
      = (Inr (s2\<lparr>updatedAt := ?m2\<rparr>, Some (node, p)), v\<lparr>kw_reads := kw_reads v + 1\<rparr>)"
    using e r1 cur id start g by (simp add: replay_event_def assertEventIdentity_def kbind_def klift_def
        kreturn_def settle_pending_def kread_def)
  have f3: "replay_event env i f start e3 (s2\<lparr>updatedAt := ?m2\<rparr>, Some (node, p)) (v\<lparr>kw_reads := kw_reads v + 1\<rparr>)
      = (Inr (s'\<lparr>updatedAt := ?m3\<rparr>, None), v\<lparr>kw_reads := kw_reads v + 1 + 1\<rparr>)"
    using e r2 after start g by (simp add: replay_event_def assertEventIdentity_def kbind_def klift_def
        kreturn_def kread_def)
  have "replay_events env i f start evs (t, None) v
      = (Inr (s'\<lparr>updatedAt := ?m3\<rparr>, None), v\<lparr>kw_reads := kw_reads v + 1 + 1\<rparr>)"
    using f1 [of v] f2 f3 by (simp add: e(1) kbind_def kreturn_def)
  moreover have "same_run s' (s'\<lparr>updatedAt := ?m3\<rparr>)" by (auto simp: same_run_stamp)
  ultimately show ?thesis by auto
qed

text \<open>Any number of rounds of the loop of \<open>run\<close>.\<close>

inductive live_rounds :: "'w kernel_env \<Rightarrow> run_identity \<Rightarrow> fence option \<Rightarrow> run_state \<Rightarrow> 'w kworld
    \<Rightarrow> run_state \<Rightarrow> 'w kworld \<Rightarrow> bool" for env i f s w where
  none: "live_rounds env i f s w s w"
| round: "live_rounds env i f s w s1 w1 \<Longrightarrow> kernel_round env i f s1 w1 = (Inr (Continue s2), w2)
    \<Longrightarrow> live_rounds env i f s w s2 w2"

lemma replay_events_append:
  "replay_events env i f start (xs @ ys) sp = kbind (replay_events env i f start xs sp) (replay_events env i f start ys)"
  by (induction xs arbitrary: sp) (auto simp: kbind_def kreturn_def fun_eq_iff split: prod.splits sum.splits)

lemma round_events_start: "round_events g i s evs s' \<Longrightarrow> checkpointSeq (cursor s) \<le> checkpointSeq (cursor s')"
  by (auto simp: round_events_def dest!: reduceAfter_checkpoint reduceCompleted_checkpoint)

definition replays_to :: "execution_graph \<Rightarrow> run_identity \<Rightarrow> run_state \<Rightarrow> json run_event list \<Rightarrow> run_state
    \<Rightarrow> 'w kernel_env \<Rightarrow> bool" where
  "replays_to g i s evs s' env = (ke_graph env = g \<longrightarrow> (\<forall>f v. \<exists>t v'.
     replay_events env i f (checkpointSeq (cursor s)) evs (s, None) v = (Inr (t, None), v') \<and> same_run s' t
     \<and> kw_store v' = kw_store v \<and> kw_events v' = kw_events v))"

lemma live_rounds_replay:
  assumes "live_rounds env i f s w s' w'" and "round_ready env i s w" and "quiet_env env"
    and "good_readings env" and "ok_identity i" and "ok_graph_ids (ke_graph env)"
  shows "round_ready env i s' w' \<and> checkpointSeq (cursor s) \<le> checkpointSeq (cursor s')
    \<and> (\<exists>evs. store_log (kw_events w') i = store_log (kw_events w) i @ evs
      \<and> replays_to (ke_graph env) i s evs s' env')"
  using assms(1)
proof induction
  case none
  then show ?case using assms(2) by (auto simp: replays_to_def kreturn_def)
next
  case (round s1 w1 s2 w2)
  then obtain evs where evs: "store_log (kw_events w1) i = store_log (kw_events w) i @ evs"
    and rep: "replays_to (ke_graph env) i s evs s1 env'" by blast
  have ready: "round_ready env i s1 w1" using round.IH by blast
  from round_log [OF round.hyps(2) ready assms(3-6)] obtain more where
    more: "store_log (kw_events w2) i = store_log (kw_events w1) i @ more"
    and re: "round_events (ke_graph env) i s1 more s2" and ready2: "round_ready env i s2 w2" by blast
  have "replays_to (ke_graph env) i s (evs @ more) s2 env'"
    unfolding replays_to_def
  proof (intro impI allI)
    fix f v assume g: "ke_graph env' = ke_graph env"
    obtain t1 v1 where 1: "replay_events env' i f (checkpointSeq (cursor s)) evs (s, None) v = (Inr (t1, None), v1)"
      "same_run s1 t1" "kw_store v1 = kw_store v" "kw_events v1 = kw_events v"
      using rep g unfolding replays_to_def by blast
    obtain t2 v2 where 2: "replay_events env' i f (checkpointSeq (cursor s)) more (t1, None) v1 = (Inr (t2, None), v2)"
      "same_run s2 t2" "kw_store v2 = kw_store v1" "kw_events v2 = kw_events v1"
      using replay_round [OF re 1(2) g] round.IH by blast
    show "\<exists>t v'. replay_events env' i f (checkpointSeq (cursor s)) (evs @ more) (s, None) v = (Inr (t, None), v')
        \<and> same_run s2 t \<and> kw_store v' = kw_store v \<and> kw_events v' = kw_events v"
      using 1 2 by (intro exI [of _ t2] exI [of _ v2]) (simp add: replay_events_append kbind_def)
  qed
  moreover have "checkpointSeq (cursor s) \<le> checkpointSeq (cursor s2)"
    using round.IH round_events_start [OF re] by linarith
  ultimately show ?case using evs more ready2 by auto
qed


definition steady_env :: "unit kernel_env" where
  "steady_env = sample_env\<lparr>ke_uuid := (\<lambda>n. replicate (Suc n) (CHR ''u'')), ke_now := (\<lambda>n. ''t'')\<rparr>"

definition leased_world :: "unit kworld" where
  "leased_world = sample_world\<lparr>kw_store := \<lparr>rs_snapshots = [], rs_leases = issue_lease sample_key
     \<lparr>l_holder = ''h1'', l_expires = 1000, l_epoch = 1, l_token = ''k''\<rparr> \<lparr>t_leases = [], t_epochs = []\<rparr>\<rparr>\<rparr>"

lemma steady_round: "(case fst (kernel_round steady_env sample_identity None sample_state leased_world) of
   Inr (Continue s) \<Rightarrow> nodeId (cursor s) = ''b'' | _ \<Rightarrow> False)"
  by code_simp

lemma steady_env_ok: "quiet_env steady_env" "good_readings steady_env" "ok_graph_ids (ke_graph steady_env)"
  by (auto simp: quiet_env_def good_readings_def steady_env_def sample_env_def calm_def sample_handler_def
      run_hook_def applicable_def inj_def ok_string_iff is_js_space_def ok_graph_ids_def two_step_graph_def
      rnode_def simp del: replicate.simps)

lemma steady_ready: "round_ready steady_env sample_identity sample_state leased_world"
  by (simp add: round_ready_def log_inv_def leased_world_def fresh_ids_def store_log_key run_log.next_seq_def
      es_well_def empty_event_store_def get_or_def well_list_def max_seq_def sample_state_def)


section \<open>A finished run\<close>

text \<open>Actions that keep snapshots, events and the world outside the kernel.\<close>

definition keeps_data :: "('w kworld \<Rightarrow> 'x \<times> 'w kworld) \<Rightarrow> bool" where
  "keeps_data m = (\<forall>w. rs_snapshots (kw_store (snd (m w))) = rs_snapshots (kw_store w)
     \<and> kw_events (snd (m w)) = kw_events w \<and> kw_ext (snd (m w)) = kw_ext w)"

lemma keeps_data_run:
  "keeps_data m \<Longrightarrow> m w = (r, w') \<Longrightarrow> rs_snapshots (kw_store w') = rs_snapshots (kw_store w)
     \<and> kw_events w' = kw_events w \<and> kw_ext w' = kw_ext w"
  unfolding keeps_data_def by (metis snd_conv)

lemma keeps_data_acquire: "keeps_data (k_acquire env i)"
  by (auto simp: keeps_data_def k_acquire_def kbind_def kread_def kcall_def store_acquire_def Let_def
      split: prod.splits sum.splits)

lemma keeps_data_healthy: "keeps_data (assertLeaseHealthy env i f s)"
  by (auto simp: keeps_data_def assertLeaseHealthy_def guard_renew_def kbind_def kread_def kreturn_def
      kfail_def store_renew_def Let_def split: prod.splits sum.splits)

lemma replay_idle:
  assumes "\<forall>e \<in> set evs. ev_identity e = i \<and> ev_seq e \<le> start \<and> (ev_seq e = start \<longrightarrow> ev_type e \<noteq> ''node.completed'')"
  shows "replay_events env i f start evs (s, None) v = (Inr (s, None), v)"
  using assms
proof (induction evs)
  case Nil
  then show ?case by (simp add: kreturn_def)
next
  case (Cons e evs)
  then have "replay_event env i f start e (s, None) v = (Inr (s, None), v)"
    by (auto simp: replay_event_def assertEventIdentity_def kbind_def klift_def kreturn_def)
  with Cons show ?case by (simp add: kbind_def)
qed

lemma store_log_identity:
  assumes "es_well st" and "e \<in> set (store_log st i)"
  shows "ev_identity e = i"
proof -
  have i: "ok_identity i" by (rule ccontr) (use assms(2) in \<open>simp add: store_log_def\<close>)
  obtain k where k: "identityKey i = Inr k" using identityKey_defined [OF i] by blast
  have "well_list (store_log st i) k" using assms(1) by (simp add: store_log_key [OF i k] es_well_def)
  with assms(2) have "ok_event e" "eventKey e = Inr k" by (auto simp: well_list_def)
  then show ?thesis using identityKey_inj [of "ev_identity e" i] i k by (simp add: ok_event_def eventKey_def)
qed

text \<open>
  A finished run is answered from its snapshot: when the stored snapshot of a run is terminal, of
  the kernel's graph version, and covers the logged events, then \<open>run\<close> (given the lease and a first
  successful renewal) returns exactly the stored outcome, for every fuel and whatever the handlers
  are; no snapshot is written, no event recorded and no handler or hook called.
\<close>

theorem finished_run_answered:
  assumes "k_acquire env i w = (Inr g, w1)" and "lg_acquired g" and "identityKey i = Inr k"
    and "map_of (rs_snapshots (kw_store w)) k = Some s" and "identity s = i" and "isTerminal s"
    and "graphVersion s = g_version (ke_graph env)"
    and "assertLeaseHealthy env i (lg_fence g) s (w1\<lparr>kw_lost := False\<rparr>) = (Inr (), w2)"
    and "ok_identity i" and "es_well (kw_events w)"
    and "\<forall>e \<in> set (store_log (kw_events w) i). ev_seq e \<le> checkpointSeq (cursor s)
      \<and> (ev_seq e = checkpointSeq (cursor s) \<longrightarrow> ev_type e \<noteq> ''node.completed'')"
  shows "\<exists>w'. kernel_run fuel env i w = Some (Inr (outcomeFromTerminalState s), w')
    \<and> rs_snapshots (kw_store w') = rs_snapshots (kw_store w) \<and> kw_events w' = kw_events w
    \<and> kw_ext w' = kw_ext w"
proof -
  let ?f = "lg_fence g" and ?cp = "checkpointSeq (cursor s)"
  have d1: "rs_snapshots (kw_store w1) = rs_snapshots (kw_store w)" "kw_events w1 = kw_events w" "kw_ext w1 = kw_ext w"
    using keeps_data_run [OF keeps_data_acquire assms(1)] by auto
  have d2: "rs_snapshots (kw_store w2) = rs_snapshots (kw_store w)" "kw_events w2 = kw_events w" "kw_ext w2 = kw_ext w"
    using keeps_data_run [OF keeps_data_healthy assms(8)] d1 by auto
  define es where "es = filter (\<lambda>e. ?cp - 1 < ev_seq e) (store_log (kw_events w) i)"
  have list: "listAfter i (?cp - 1) (kw_events w2) = Inr es"
    using listAfter_log [OF assms(9)] d2(2) by (simp add: es_def)
  have idle: "replay_events env i ?f ?cp (sort_key ev_seq es) (s, None) v = (Inr (s, None), v)" for v
    by (rule replay_idle) (use assms(11) store_log_identity [OF assms(10)] in \<open>auto simp: es_def\<close>)
  have rep: "replayAfterCheckpoint env i ?f s w2 = (Inr s, w2)"
    by (simp add: replayAfterCheckpoint_def kbind_def kcall_def list idle settle_pending_def kreturn_def
        del: One_nat_def)
  have mig: "migrateTerminalGraphMetadata (ke_graph env) s = s"
    using assms(7) by (simp add: migrateTerminalGraphMetadata_def)
  have resume: "resume_terminal env i ?f s w2 = (Inr (outcomeFromTerminalState s), w2)"
    by (simp add: resume_terminal_def kbind_def rep kreturn_def mig kwhen_def)
  have load: "k_load i (w1\<lparr>kw_lost := False\<rparr>) = (Inr (Some s), w1\<lparr>kw_lost := False\<rparr>)"
    using assms(3,4) d1(1) by (simp add: k_load_def kcall_def store_load_def)
  have "open_run env i ?f (w1\<lparr>kw_lost := False\<rparr>) = (Inr (Returned (outcomeFromTerminalState s)), w2)"
    using assms(5,6,8) by (simp add: open_run_def kbind_def load kreturn_def klift_def assertStateIdentity_def resume)
  then have "kernel_run fuel env i w = Some (Inr (outcomeFromTerminalState s), k_release env i ?f w2)"
    using assms(1,2) by (simp add: kernel_run_def try_run_def)
  then show ?thesis using d2 assms(3) by (simp add: k_release_def store_release_def)
qed

definition finished_state :: run_state where
  "finished_state = sample_state\<lparr>status := Completed, outcome := Some
     \<lparr>oc_status = OCompleted, oc_reason = Normal_stop, oc_item = None, oc_retryable = False, oc_details = None\<rparr>\<rparr>"

definition finished_world :: "unit kworld" where
  "finished_world = sample_world\<lparr>kw_store := empty_run_store\<lparr>rs_snapshots := [(sample_key, finished_state)]\<rparr>\<rparr>"

definition calm_env :: "unit kernel_env" where
  "calm_env = sample_env\<lparr>ke_uuid := (\<lambda>n. ''u1'')\<rparr>"

lemma finished_simps [simp]:
  "ke_graph calm_env = two_step_graph" "ke_holder calm_env = ''h1''" "ke_ttl calm_env = 1000"
  "\<not> ke_timer calm_env n" "ke_ms calm_env n = int n" "ke_uuid calm_env n = ''u1''"
  "rs_snapshots (kw_store finished_world) = [(sample_key, finished_state)]"
  "rs_leases (kw_store finished_world) = rs_leases empty_run_store"
  "kw_events finished_world = empty_event_store" "kw_reads finished_world = 0"
  by (simp_all add: calm_env_def sample_env_def finished_world_def)

lemma empty_event_log [simp]: "store_log empty_event_store i = []" "es_well empty_event_store"
  by (auto simp: store_log_def empty_event_store_def get_or_def es_well_def well_list_def split: sum.splits)

lemma finished_acquire: "k_acquire calm_env sample_identity finished_world
    = (Inr (granted (new_lease sample_key ''h1'' 1000 0 ''u1'' (rs_leases empty_run_store))),
       finished_world\<lparr>kw_reads := Suc (Suc 0), kw_store := (kw_store finished_world)\<lparr>rs_leases :=
         issue_lease sample_key (new_lease sample_key ''h1'' 1000 0 ''u1'' (rs_leases empty_run_store))
           (rs_leases empty_run_store)\<rparr>\<rparr>)"
  by (simp add: k_acquire_eq Let_def table_acquire_def)

theorem finished_run_answered_witness:
  "\<exists>w'. kernel_run 0 calm_env sample_identity finished_world
     = Some (Inr \<lparr>oc_status = OCompleted, oc_reason = Normal_stop, oc_item = None, oc_retryable = False,
         oc_details = None\<rparr>, w') \<and> kw_events w' = empty_event_store"
proof -
  let ?g = "granted (new_lease sample_key ''h1'' 1000 0 ''u1'' (rs_leases empty_run_store))"
  let ?w1 = "snd (k_acquire calm_env sample_identity finished_world)"
  have acq: "k_acquire calm_env sample_identity finished_world = (Inr ?g, ?w1)" by (simp add: finished_acquire)
  obtain w2 where healthy: "assertLeaseHealthy calm_env sample_identity (lg_fence ?g) finished_state
      (?w1\<lparr>kw_lost := False\<rparr>) = (Inr (), w2)"
    by (simp add: assertLeaseHealthy_def guard_renew_def kbind_def kread_def kreturn_def finished_acquire
        store_renew_def table_renew_def issue_lease_def new_lease_def granted_def sameFence_iff Let_def
        lease_ms_def)
  have "\<exists>w'. kernel_run 0 calm_env sample_identity finished_world = Some (Inr (outcomeFromTerminalState finished_state), w')
    \<and> rs_snapshots (kw_store w') = rs_snapshots (kw_store finished_world) \<and> kw_events w' = kw_events finished_world
    \<and> kw_ext w' = kw_ext finished_world"
    by (rule finished_run_answered [OF acq _ sample_identity_key _ _ _ _ healthy sample_identity_ok])
      (simp_all add: granted_def finished_state_def isTerminal_def sample_state_def two_step_graph_def)
  then show ?thesis by (auto simp: outcomeFromTerminalState_def finished_state_def)
qed

end
