(* ===== verification/AgentContracts.thy ===== *)
theory AgentContracts
  imports RunStores
begin

text \<open>
  The data model of the multi-agent runtime, from \<open>contracts/src/multi-agent-runtime.ts\<close>,
  \<open>contracts/src/agent-identity.ts\<close> (peer artifacts) and \<open>contracts/src/a2a-artifact.ts\<close>: agent graphs,
  runs, mailbox messages and outbox intents, with their schema checks.

  A timestamp is the number of milliseconds it denotes: the sources write timestamps with
  \<open>toISOString\<close>, compare them with \<open>localeCompare\<close> and read them back with \<open>Date.parse\<close>, all of which
  agree with the order of the instants. A check (\<open>parse_\<close>) takes a typed value, trims its strings and
  refuses empty ones.
\<close>

type_synonym instant = int

named_theorems schema_ok \<open>what a check returns is well-formed\<close>
named_theorems schema_accepts \<open>a well-formed value passes its check unchanged\<close>

section \<open>Checks of shared parts\<close>

text \<open>\<open>z.string().min(1)\<close> without \<open>trim\<close>.\<close>

definition check_min1 :: "string \<Rightarrow> string result" where
  "check_min1 s = (if s = [] then Inl ZodError else Inr s)"

text \<open>
  \<open>z.record(NonEmptyString, ...)\<close>: keys are trimmed, a value under a key seen before replaces the
  earlier one.
\<close>

definition check_entry :: "('v \<Rightarrow> 'v result) \<Rightarrow> string \<times> 'v \<Rightarrow> (string, 'v) jsmap \<Rightarrow> (string, 'v) jsmap result" where
  "check_entry p kv m = bind_result (check_nonempty (fst kv)) (\<lambda>k.
     bind_result (p (snd kv)) (\<lambda>v. Inr (AList.update k v m)))"

definition check_dict :: "('v \<Rightarrow> 'v result) \<Rightarrow> (string, 'v) jsmap \<Rightarrow> (string, 'v) jsmap result" where
  "check_dict p m = fold_result (check_entry p) m []"

text \<open>\<open>z.object({ prompt: NonEmptyString }).passthrough()\<close>: the known key first, the others kept.\<close>

definition check_prompt :: "obj \<Rightarrow> obj result" where
  "check_prompt p = bind_result (z_nonempty (map_of p ''prompt'')) (\<lambda>s.
     Inr ((''prompt'', JStr s) # AList.delete ''prompt'' p))"

definition check_option :: "('a \<Rightarrow> 'a result) \<Rightarrow> 'a option \<Rightarrow> 'a option result" where
  "check_option p v = (case v of None \<Rightarrow> Inr None | Some x \<Rightarrow> bind_result (p x) (\<lambda>y. Inr (Some y)))"

text \<open>
  The values the checks return: \<open>ok_...\<close> holds of every result of a check, and a value with it passes
  the check unchanged.
\<close>

definition ok_names :: "string list \<Rightarrow> bool" where
  "ok_names xs = list_all ok_string xs"

definition ok_tags :: "string list \<Rightarrow> bool" where
  "ok_tags xs = list_all (\<lambda>x. x \<noteq> []) xs"

definition ok_dict :: "('v \<Rightarrow> bool) \<Rightarrow> (string, 'v) jsmap \<Rightarrow> bool" where
  "ok_dict q m = (distinct (map fst m) \<and> list_all (\<lambda>kv. ok_string (fst kv) \<and> q (snd kv)) m)"

definition ok_prompt :: "obj \<Rightarrow> bool" where
  "ok_prompt p = (check_prompt p = Inr p)"

lemma map_result_ok:
  "map_result p xs = Inr ys \<Longrightarrow> (\<And>x y. p x = Inr y \<Longrightarrow> q y) \<Longrightarrow> list_all q ys"
  using map_result_all [of p xs ys q] by (auto simp: list_all_iff)

lemma map_result_accepts:
  "list_all q ys \<Longrightarrow> (\<And>y. q y \<Longrightarrow> p y = Inr y) \<Longrightarrow> map_result p ys = Inr ys"
  by (auto simp: list_all_iff intro: map_result_id)

lemma map_result_stable:
  "map_result p xs = Inr ys \<Longrightarrow> (\<And>x y. p x = Inr y \<Longrightarrow> p y = Inr y) \<Longrightarrow> map_result p ys = Inr ys"
  using map_result_ok [of p xs ys "\<lambda>y. p y = Inr y"] by (auto simp: list_all_iff intro: map_result_id)

lemma check_min1_ok [schema_ok]: "check_min1 s = Inr t \<Longrightarrow> t \<noteq> []"
  by (auto simp: check_min1_def split: if_splits)

lemma check_min1_accepts [schema_accepts]: "t \<noteq> [] \<Longrightarrow> check_min1 t = Inr t"
  by (simp add: check_min1_def)

lemma check_count_ok [schema_ok]: "check_count n = Inr m \<Longrightarrow> ok_nat m"
  by (auto simp: check_count_def split: if_splits)

lemma check_count_accepts [schema_accepts]: "ok_nat m \<Longrightarrow> check_count m = Inr m"
  by (simp add: check_count_def)

lemma names_ok [schema_ok]: "map_result check_nonempty xs = Inr ys \<Longrightarrow> ok_names ys"
  unfolding ok_names_def by (erule map_result_ok) (rule check_nonempty_ok_string)

lemma names_accepts [schema_accepts]: "ok_names ys \<Longrightarrow> map_result check_nonempty ys = Inr ys"
  unfolding ok_names_def by (erule map_result_accepts) (rule ok_string_check)

lemma tags_ok [schema_ok]: "map_result check_min1 xs = Inr ys \<Longrightarrow> ok_tags ys"
  unfolding ok_tags_def by (erule map_result_ok) (rule check_min1_ok)

lemma tags_accepts [schema_accepts]: "ok_tags ys \<Longrightarrow> map_result check_min1 ys = Inr ys"
  unfolding ok_tags_def by (erule map_result_accepts) (rule check_min1_accepts)

lemma check_option_ok:
  "check_option p v = Inr w \<Longrightarrow> (\<And>x y. p x = Inr y \<Longrightarrow> q y) \<Longrightarrow> ok_option q w"
  by (cases v) (auto simp: check_option_def result_simps ok_option_def)

lemma check_option_accepts:
  "ok_option q w \<Longrightarrow> (\<And>y. q y \<Longrightarrow> p y = Inr y) \<Longrightarrow> check_option p w = Inr w"
  by (cases w) (auto simp: check_option_def ok_option_def)

lemma check_prompt_ok [schema_ok]: "check_prompt p = Inr q \<Longrightarrow> ok_prompt q"
  using z_nonempty_ok z_nonempty_accepts
  by (fastforce simp: ok_prompt_def check_prompt_def result_simps AList.delete_idem)

lemma check_prompt_accepts [schema_accepts]: "ok_prompt p \<Longrightarrow> check_prompt p = Inr p"
  by (simp add: ok_prompt_def)

lemma ok_dict_update: "ok_dict q m \<Longrightarrow> ok_string k \<Longrightarrow> q v \<Longrightarrow> ok_dict q (AList.update k v m)"
  using set_update_subset [of k v m] by (auto simp: ok_dict_def list_all_iff distinct_update)

lemma check_dict_ok:
  assumes "check_dict p m = Inr m'" and "\<And>x y. p x = Inr y \<Longrightarrow> q y"
  shows "ok_dict q m'"
proof (rule fold_result_invariant [OF assms(1) [unfolded check_dict_def]])
  show "ok_dict q []" by (simp add: ok_dict_def)
qed (auto simp: check_entry_def result_simps intro!: ok_dict_update check_nonempty_ok_string dest: assms(2))

lemma check_dict_append:
  assumes "distinct (map fst (n @ m))" and "list_all (\<lambda>kv. ok_string (fst kv) \<and> q (snd kv)) m"
    and "\<And>y. q y \<Longrightarrow> p y = Inr y"
  shows "fold_result (check_entry p) m n = Inr (n @ m)"
  using assms(1,2)
proof (induction m arbitrary: n)
  case (Cons kv m)
  then have "AList.update (fst kv) (snd kv) n = n @ [kv]" by (subst jsmap_update_absent) auto
  with Cons show ?case by (simp add: check_entry_def ok_string_check assms(3))
qed simp

lemma check_dict_accepts:
  "ok_dict q m \<Longrightarrow> (\<And>y. q y \<Longrightarrow> p y = Inr y) \<Longrightarrow> check_dict p m = Inr m"
  unfolding check_dict_def ok_dict_def using check_dict_append [of "[]" m q p] by simp

lemmas scalar_ok = check_nonempty_ok_string check_optional_ok parse_budgets_ok
lemmas scalar_accepts = ok_string_check check_optional_accepts parse_budgets_accepts
declare scalar_ok [schema_ok] scalar_accepts [schema_accepts]

section \<open>Agent graphs\<close>

datatype wait_for = Wait_mailbox | Wait_user_input | Wait_approval | Wait_external_event

datatype graph_node =
    Agent_node (gn_id: string) (gn_agentId: string) (gn_label: "string option")
      (gn_model: "string option") (gn_capabilities: "string list")
  | Handoff_node (gn_id: string) (gn_target: string)
  | Tool_node (gn_id: string) (gn_tool: string)
  | Judge_node (gn_id: string) (gn_policy: string)
  | Join_node (gn_id: string) (gn_branches: "string list")
  | Wait_node (gn_id: string) (gn_wait: wait_for)
  | Retry_node (gn_id: string) (gn_maxAttempts: nat)
  | Terminate_node (gn_id: string)

record graph_edge =
  ge_from :: string
  ge_to :: string
  ge_condition :: string

record agent_graph =
  ag_id :: string
  ag_start :: string
  ag_nodes :: "graph_node list"
  ag_edges :: "graph_edge list"

fun parse_graph_node :: "graph_node \<Rightarrow> graph_node result" where
  "parse_graph_node (Agent_node i a l m cs) = bind_result (check_nonempty i) (\<lambda>i'.
     bind_result (check_nonempty a) (\<lambda>a'. bind_result (map_result check_nonempty cs) (\<lambda>cs'.
     Inr (Agent_node i' a' l m cs'))))"
| "parse_graph_node (Handoff_node i t) = bind_result (check_nonempty i) (\<lambda>i'.
     bind_result (check_nonempty t) (\<lambda>t'. Inr (Handoff_node i' t')))"
| "parse_graph_node (Tool_node i t) = bind_result (check_nonempty i) (\<lambda>i'.
     bind_result (check_nonempty t) (\<lambda>t'. Inr (Tool_node i' t')))"
| "parse_graph_node (Judge_node i p) = bind_result (check_nonempty i) (\<lambda>i'.
     bind_result (check_nonempty p) (\<lambda>p'. Inr (Judge_node i' p')))"
| "parse_graph_node (Join_node i bs) = bind_result (check_nonempty i) (\<lambda>i'.
     bind_result (map_result check_nonempty bs) (\<lambda>bs'. Inr (Join_node i' bs')))"
| "parse_graph_node (Wait_node i w) = bind_result (check_nonempty i) (\<lambda>i'. Inr (Wait_node i' w))"
| "parse_graph_node (Retry_node i n) = bind_result (check_nonempty i) (\<lambda>i'.
     bind_result (check_count n) (\<lambda>n'. Inr (Retry_node i' n')))"
| "parse_graph_node (Terminate_node i) = bind_result (check_nonempty i) (\<lambda>i'. Inr (Terminate_node i'))"

definition parse_graph_edge :: "graph_edge \<Rightarrow> graph_edge result" where
  "parse_graph_edge e = bind_result (check_nonempty (ge_from e)) (\<lambda>f.
     bind_result (check_nonempty (ge_to e)) (\<lambda>t. bind_result (check_nonempty (ge_condition e)) (\<lambda>c.
     Inr \<lparr>ge_from = f, ge_to = t, ge_condition = c\<rparr>)))"

definition parse_agent_graph :: "agent_graph \<Rightarrow> agent_graph result" where
  "parse_agent_graph g = bind_result (check_nonempty (ag_id g)) (\<lambda>i.
     bind_result (check_nonempty (ag_start g)) (\<lambda>s.
     bind_result (if ag_nodes g = [] then Inl ZodError else map_result parse_graph_node (ag_nodes g)) (\<lambda>ns.
     bind_result (map_result parse_graph_edge (ag_edges g)) (\<lambda>es.
     Inr \<lparr>ag_id = i, ag_start = s, ag_nodes = ns, ag_edges = es\<rparr>))))"

definition ok_agent_graph :: "agent_graph \<Rightarrow> bool" where
  "ok_agent_graph g = (parse_agent_graph g = Inr g)"

lemma parse_graph_node_idem: "parse_graph_node n = Inr m \<Longrightarrow> parse_graph_node m = Inr m"
  by (cases n) (auto simp: result_simps schema_accepts dest!: schema_ok)

lemma parse_graph_edge_idem: "parse_graph_edge e = Inr f \<Longrightarrow> parse_graph_edge f = Inr f"
  by (auto simp: parse_graph_edge_def result_simps schema_accepts dest!: schema_ok)

lemma parse_agent_graph_ok:
  assumes "parse_agent_graph g = Inr h"
  shows "ok_agent_graph h"
proof -
  have "map_result parse_graph_node (ag_nodes h) = Inr (ag_nodes h)"
    and "map_result parse_graph_edge (ag_edges h) = Inr (ag_edges h)"
    using assms map_result_stable parse_graph_node_idem parse_graph_edge_idem
    by (fastforce simp: parse_agent_graph_def result_simps split: if_splits)+
  then show ?thesis
    using assms map_result_length [of parse_graph_node "ag_nodes g" "ag_nodes h"]
    by (auto simp: parse_agent_graph_def ok_agent_graph_def result_simps schema_accepts
        dest!: check_nonempty_ok_string split: if_splits)
qed

section \<open>Artifacts of peers\<close>

datatype mime_type = Text_plain | Text_markdown | Application_json | Application_octet_stream

record a2a_artifact =
  aa_id :: string
  aa_mime :: mime_type
  aa_label :: "string option"
  aa_text :: "string option"
  aa_data :: "string option"
  aa_tags :: "string list"
  aa_isError :: bool

definition parse_artifact :: "a2a_artifact \<Rightarrow> a2a_artifact result" where
  "parse_artifact a = bind_result (check_min1 (aa_id a)) (\<lambda>i.
     bind_result (map_result check_min1 (aa_tags a)) (\<lambda>ts.
     Inr (a\<lparr>aa_id := i, aa_tags := ts\<rparr>)))"

text \<open>The three final statuses of a delegated task: of a peer, an agent run and a mailbox message.\<close>

datatype final_status = Done_completed | Done_failed | Done_aborted

record peer_artifact =
  pa_card :: string
  pa_status :: final_status
  pa_summary :: "string option"
  pa_error :: "string option"
  pa_artifacts :: "a2a_artifact list option"

definition parse_peer_artifact :: "peer_artifact \<Rightarrow> peer_artifact result" where
  "parse_peer_artifact p = bind_result (check_min1 (pa_card p)) (\<lambda>c.
     bind_result (check_option (map_result parse_artifact) (pa_artifacts p)) (\<lambda>as.
     Inr (p\<lparr>pa_card := c, pa_artifacts := as\<rparr>)))"

definition ok_artifact :: "a2a_artifact \<Rightarrow> bool" where
  "ok_artifact a = (aa_id a \<noteq> [] \<and> ok_tags (aa_tags a))"

definition ok_peer_artifact :: "peer_artifact \<Rightarrow> bool" where
  "ok_peer_artifact p = (pa_card p \<noteq> [] \<and> ok_option (list_all ok_artifact) (pa_artifacts p))"

lemma parse_artifact_ok [schema_ok]: "parse_artifact a = Inr b \<Longrightarrow> ok_artifact b"
  by (auto simp: parse_artifact_def ok_artifact_def result_simps dest!: schema_ok)

lemma parse_artifact_accepts [schema_accepts]: "ok_artifact a \<Longrightarrow> parse_artifact a = Inr a"
  by (simp add: parse_artifact_def ok_artifact_def schema_accepts)

lemma parse_peer_artifact_ok [schema_ok]: "parse_peer_artifact a = Inr b \<Longrightarrow> ok_peer_artifact b"
  using check_option_ok [OF _ map_result_ok [OF _ parse_artifact_ok]]
  by (auto simp: parse_peer_artifact_def ok_peer_artifact_def result_simps dest!: check_min1_ok)

lemma parse_peer_artifact_accepts [schema_accepts]:
  "ok_peer_artifact a \<Longrightarrow> parse_peer_artifact a = Inr a"
  using check_option_accepts [of "list_all ok_artifact" "pa_artifacts a" "map_result parse_artifact"]
    map_result_accepts [of ok_artifact _ parse_artifact] parse_artifact_accepts
  by (simp add: parse_peer_artifact_def ok_peer_artifact_def check_min1_accepts)

section \<open>Mailbox messages\<close>

datatype mailbox_status = Msg_queued | Msg_delivered | Msg_completed | Msg_failed | Msg_aborted

record claim_lease =
  cl_holder :: string
  cl_expires :: instant
  cl_epoch :: nat
  cl_token :: string

record mailbox_message =
  mm_id :: string
  mm_envelope :: string
  mm_run :: string
  mm_from :: string
  mm_to :: string
  mm_status :: mailbox_status
  mm_claim :: "claim_lease option"
  mm_payload :: obj
  mm_created :: instant
  mm_updated :: instant

definition parse_claim_lease :: "claim_lease \<Rightarrow> claim_lease result" where
  "parse_claim_lease c = bind_result (check_nonempty (cl_holder c)) (\<lambda>h.
     bind_result (if 0 < cl_epoch c then check_count (cl_epoch c) else Inl ZodError) (\<lambda>n.
     bind_result (check_nonempty (cl_token c)) (\<lambda>t.
     Inr \<lparr>cl_holder = h, cl_expires = cl_expires c, cl_epoch = n, cl_token = t\<rparr>)))"

definition parse_message :: "mailbox_message \<Rightarrow> mailbox_message result" where
  "parse_message m = bind_result (check_nonempty (mm_id m)) (\<lambda>i.
     bind_result (check_nonempty (mm_envelope m)) (\<lambda>v.
     bind_result (check_nonempty (mm_run m)) (\<lambda>r.
     bind_result (check_nonempty (mm_from m)) (\<lambda>f.
     bind_result (check_nonempty (mm_to m)) (\<lambda>t.
     bind_result (check_option parse_claim_lease (mm_claim m)) (\<lambda>c.
     bind_result (check_prompt (mm_payload m)) (\<lambda>p.
     Inr \<lparr>mm_id = i, mm_envelope = v, mm_run = r, mm_from = f, mm_to = t, mm_status = mm_status m,
       mm_claim = c, mm_payload = p, mm_created = mm_created m, mm_updated = mm_updated m\<rparr>)))))))"

definition ok_claim_lease :: "claim_lease \<Rightarrow> bool" where
  "ok_claim_lease c = (ok_string (cl_holder c) \<and> 0 < cl_epoch c \<and> ok_nat (cl_epoch c) \<and> ok_string (cl_token c))"

definition ok_message :: "mailbox_message \<Rightarrow> bool" where
  "ok_message m = (ok_string (mm_id m) \<and> ok_string (mm_envelope m) \<and> ok_string (mm_run m)
     \<and> ok_string (mm_from m) \<and> ok_string (mm_to m) \<and> ok_option ok_claim_lease (mm_claim m)
     \<and> ok_prompt (mm_payload m))"

lemma parse_claim_lease_ok [schema_ok]: "parse_claim_lease c = Inr d \<Longrightarrow> ok_claim_lease d"
  by (auto simp: parse_claim_lease_def ok_claim_lease_def result_simps check_count_def
      dest!: schema_ok split: if_splits)

lemma parse_claim_lease_accepts [schema_accepts]: "ok_claim_lease c \<Longrightarrow> parse_claim_lease c = Inr c"
  by (simp add: parse_claim_lease_def ok_claim_lease_def schema_accepts)

lemma claim_option_ok [schema_ok]: "check_option parse_claim_lease v = Inr w \<Longrightarrow> ok_option ok_claim_lease w"
  by (erule check_option_ok) (rule parse_claim_lease_ok)

lemma claim_option_accepts [schema_accepts]: "ok_option ok_claim_lease w \<Longrightarrow> check_option parse_claim_lease w = Inr w"
  by (erule check_option_accepts) (rule parse_claim_lease_accepts)

lemma parse_message_ok [schema_ok]: "parse_message m = Inr n \<Longrightarrow> ok_message n"
  by (auto simp: parse_message_def ok_message_def result_simps dest!: schema_ok)

lemma parse_message_accepts [schema_accepts]: "ok_message m \<Longrightarrow> parse_message m = Inr m"
  by (simp add: parse_message_def ok_message_def schema_accepts)

section \<open>Outbox intents\<close>

datatype outbox_status = Out_pending | Out_published

datatype outbox_kind =
    Mailbox_enqueue (ok_message_of: mailbox_message)
  | Mailbox_complete (ok_messageId: string) (ok_final: final_status) (ok_claim: "claim_lease option")

record outbox_intent =
  oi_id :: string
  oi_kind :: outbox_kind
  oi_status :: outbox_status
  oi_created :: instant
  oi_updated :: instant
  oi_published :: "instant option"

fun parse_outbox_kind :: "outbox_kind \<Rightarrow> outbox_kind result" where
  "parse_outbox_kind (Mailbox_enqueue m) = bind_result (parse_message m) (\<lambda>m'. Inr (Mailbox_enqueue m'))"
| "parse_outbox_kind (Mailbox_complete i s c) = bind_result (check_nonempty i) (\<lambda>i'.
     bind_result (check_option parse_claim_lease c) (\<lambda>c'. Inr (Mailbox_complete i' s c')))"

definition parse_intent_of :: "outbox_intent \<Rightarrow> outbox_intent result" where
  "parse_intent_of x = bind_result (check_nonempty (oi_id x)) (\<lambda>i.
     bind_result (parse_outbox_kind (oi_kind x)) (\<lambda>k. Inr (x\<lparr>oi_id := i, oi_kind := k\<rparr>)))"

fun ok_outbox_kind :: "outbox_kind \<Rightarrow> bool" where
  "ok_outbox_kind (Mailbox_enqueue m) = ok_message m"
| "ok_outbox_kind (Mailbox_complete i s c) = (ok_string i \<and> ok_option ok_claim_lease c)"

definition ok_outbox :: "outbox_intent \<Rightarrow> bool" where
  "ok_outbox x = (ok_string (oi_id x) \<and> ok_outbox_kind (oi_kind x))"

lemma parse_outbox_kind_ok [schema_ok]: "parse_outbox_kind k = Inr k' \<Longrightarrow> ok_outbox_kind k'"
  by (cases k) (auto simp: result_simps dest!: schema_ok)

lemma parse_outbox_kind_accepts [schema_accepts]: "ok_outbox_kind k \<Longrightarrow> parse_outbox_kind k = Inr k"
  by (cases k) (simp_all add: schema_accepts)

lemma parse_intent_of_ok [schema_ok]: "parse_intent_of x = Inr y \<Longrightarrow> ok_outbox y"
  by (auto simp: parse_intent_of_def ok_outbox_def result_simps dest!: schema_ok)

lemma parse_intent_of_accepts [schema_accepts]: "ok_outbox x \<Longrightarrow> parse_intent_of x = Inr x"
  by (simp add: parse_intent_of_def ok_outbox_def schema_accepts)

section \<open>Runs\<close>

datatype agent_status = Ag_queued | Ag_running | Ag_completed | Ag_failed | Ag_aborted | Ag_suspended
datatype ma_status = Ma_created | Ma_running | Ma_suspended | Ma_completed | Ma_failed | Ma_aborted
datatype branch_status = Br_queued | Br_running | Br_completed | Br_failed | Br_aborted
datatype ma_event_type = Run_started | Node_started | Node_completed | Handoff_requested
  | Handoff_delivered | Run_completed | Run_failed

record agent_run =
  ar_id :: string
  ar_agent :: string
  ar_node :: string
  ar_status :: agent_status
  ar_started :: instant
  ar_updated :: instant
  ar_completed :: "instant option"
  ar_summary :: "string option"
  ar_error :: "string option"
  ar_artifact :: "peer_artifact option"

record ma_event =
  me_id :: string
  me_type :: ma_event_type
  me_node :: "string option"
  me_agent :: "string option"
  me_envelope :: "string option"
  me_payload :: "json option"
  me_time :: instant

record ma_run =
  ma_id :: string
  ma_thread :: string
  ma_turn :: string
  ma_workspace :: string
  ma_status :: ma_status
  ma_graph :: string
  ma_active :: string
  ma_stack :: "string list"
  ma_branches :: "(string, branch_status) jsmap"
  ma_agents :: "agent_run list"
  ma_events :: "ma_event list"
  ma_outbox :: "outbox_intent list"
  ma_retries :: "(string, nat) jsmap"
  ma_budgets :: budget_state
  ma_created :: instant
  ma_updated :: instant

definition parse_agent_run :: "agent_run \<Rightarrow> agent_run result" where
  "parse_agent_run a = bind_result (check_nonempty (ar_id a)) (\<lambda>i.
     bind_result (check_nonempty (ar_agent a)) (\<lambda>g. bind_result (check_nonempty (ar_node a)) (\<lambda>n.
     bind_result (check_option parse_peer_artifact (ar_artifact a)) (\<lambda>p.
     Inr (a\<lparr>ar_id := i, ar_agent := g, ar_node := n, ar_artifact := p\<rparr>)))))"

definition parse_ma_event :: "ma_event \<Rightarrow> ma_event result" where
  "parse_ma_event e = bind_result (check_nonempty (me_id e)) (\<lambda>i.
     bind_result (check_optional (me_node e)) (\<lambda>n. bind_result (check_optional (me_agent e)) (\<lambda>a.
     bind_result (check_optional (me_envelope e)) (\<lambda>v.
     Inr (e\<lparr>me_id := i, me_node := n, me_agent := a, me_envelope := v\<rparr>)))))"

definition parse_ma_run :: "ma_run \<Rightarrow> ma_run result" where
  "parse_ma_run r = bind_result (check_nonempty (ma_id r)) (\<lambda>i.
     bind_result (check_nonempty (ma_thread r)) (\<lambda>th.
     bind_result (check_nonempty (ma_turn r)) (\<lambda>tu.
     bind_result (check_nonempty (ma_workspace r)) (\<lambda>ws.
     bind_result (check_nonempty (ma_graph r)) (\<lambda>g.
     bind_result (check_nonempty (ma_active r)) (\<lambda>ac.
     bind_result (map_result check_nonempty (ma_stack r)) (\<lambda>st.
     bind_result (check_dict Inr (ma_branches r)) (\<lambda>br.
     bind_result (map_result parse_agent_run (ma_agents r)) (\<lambda>ar.
     bind_result (map_result parse_ma_event (ma_events r)) (\<lambda>ev.
     bind_result (map_result parse_intent_of (ma_outbox r)) (\<lambda>ob.
     bind_result (check_dict check_count (ma_retries r)) (\<lambda>rc.
     bind_result (parse_budgets (ma_budgets r)) (\<lambda>bu.
     Inr \<lparr>ma_id = i, ma_thread = th, ma_turn = tu, ma_workspace = ws, ma_status = ma_status r,
       ma_graph = g, ma_active = ac, ma_stack = st, ma_branches = br, ma_agents = ar, ma_events = ev,
       ma_outbox = ob, ma_retries = rc, ma_budgets = bu, ma_created = ma_created r,
       ma_updated = ma_updated r\<rparr>)))))))))))))"

definition ok_agent_run :: "agent_run \<Rightarrow> bool" where
  "ok_agent_run a = (ok_string (ar_id a) \<and> ok_string (ar_agent a) \<and> ok_string (ar_node a)
     \<and> ok_option ok_peer_artifact (ar_artifact a))"

definition ok_ma_event :: "ma_event \<Rightarrow> bool" where
  "ok_ma_event e = (ok_string (me_id e) \<and> ok_option ok_string (me_node e)
     \<and> ok_option ok_string (me_agent e) \<and> ok_option ok_string (me_envelope e))"

definition ok_ma_run :: "ma_run \<Rightarrow> bool" where
  "ok_ma_run r = (ok_string (ma_id r) \<and> ok_string (ma_thread r) \<and> ok_string (ma_turn r)
     \<and> ok_string (ma_workspace r) \<and> ok_string (ma_graph r) \<and> ok_string (ma_active r)
     \<and> ok_names (ma_stack r) \<and> ok_dict (\<lambda>_. True) (ma_branches r)
     \<and> list_all ok_agent_run (ma_agents r) \<and> list_all ok_ma_event (ma_events r)
     \<and> list_all ok_outbox (ma_outbox r) \<and> ok_dict ok_nat (ma_retries r) \<and> ok_budgets (ma_budgets r))"

lemma parse_agent_run_ok: "parse_agent_run a = Inr b \<Longrightarrow> ok_agent_run b"
  using check_option_ok [OF _ parse_peer_artifact_ok]
  by (auto simp: parse_agent_run_def ok_agent_run_def result_simps dest!: check_nonempty_ok_string)

lemma parse_agent_run_accepts: "ok_agent_run a \<Longrightarrow> parse_agent_run a = Inr a"
  by (simp add: parse_agent_run_def ok_agent_run_def ok_string_check
      check_option_accepts [where q = ok_peer_artifact, OF _ parse_peer_artifact_accepts])

lemma parse_ma_event_ok: "parse_ma_event e = Inr f \<Longrightarrow> ok_ma_event f"
  by (auto simp: parse_ma_event_def ok_ma_event_def result_simps dest!: schema_ok)

lemma parse_ma_event_accepts: "ok_ma_event e \<Longrightarrow> parse_ma_event e = Inr e"
  by (simp add: parse_ma_event_def ok_ma_event_def schema_accepts)

lemma ma_lists_ok:
  "map_result parse_agent_run as = Inr as' \<Longrightarrow> list_all ok_agent_run as'"
  "map_result parse_ma_event es = Inr es' \<Longrightarrow> list_all ok_ma_event es'"
  "map_result parse_intent_of xs = Inr xs' \<Longrightarrow> list_all ok_outbox xs'"
  "check_dict check_count rs = Inr rs' \<Longrightarrow> ok_dict ok_nat rs'"
  "check_dict Inr bs = Inr bs' \<Longrightarrow> ok_dict (\<lambda>_. True) bs'"
  subgoal by (erule map_result_ok) (rule parse_agent_run_ok)
  subgoal by (erule map_result_ok) (rule parse_ma_event_ok)
  subgoal by (erule map_result_ok) (rule parse_intent_of_ok)
  subgoal by (erule check_dict_ok) (rule check_count_ok)
  subgoal by (erule check_dict_ok) (rule TrueI)
  done

lemma ma_lists_accepts:
  "list_all ok_agent_run as \<Longrightarrow> map_result parse_agent_run as = Inr as"
  "list_all ok_ma_event es \<Longrightarrow> map_result parse_ma_event es = Inr es"
  "list_all ok_outbox xs \<Longrightarrow> map_result parse_intent_of xs = Inr xs"
  "ok_dict ok_nat rs \<Longrightarrow> check_dict check_count rs = Inr rs"
  "ok_dict (\<lambda>_. True) bs \<Longrightarrow> check_dict Inr bs = Inr bs"
  subgoal by (erule map_result_accepts) (rule parse_agent_run_accepts)
  subgoal by (erule map_result_accepts) (rule parse_ma_event_accepts)
  subgoal by (erule map_result_accepts) (rule parse_intent_of_accepts)
  subgoal by (erule check_dict_accepts) (rule check_count_accepts)
  subgoal by (erule check_dict_accepts) (rule refl)
  done

lemma parse_ma_run_ok: "parse_ma_run r = Inr s \<Longrightarrow> ok_ma_run s"
  unfolding parse_ma_run_def result_simps by (auto simp: ok_ma_run_def dest!: check_nonempty_ok_string names_ok parse_budgets_ok ma_lists_ok)

lemma parse_ma_run_accepts: "ok_ma_run r \<Longrightarrow> parse_ma_run r = Inr r"
  by (simp add: parse_ma_run_def ok_ma_run_def scalar_accepts names_accepts ma_lists_accepts)

lemma parse_ma_run_id: "parse_ma_run r = Inr s \<Longrightarrow> ok_string (ma_id r) \<Longrightarrow> ma_id s = ma_id r"
  by (auto simp: parse_ma_run_def result_simps ok_string_check)

end
