(* ===== verification/MultiAgentStores.thy ===== *)
theory MultiAgentStores
  imports AgentContracts
begin

text \<open>
  \<open>adapters/adapter-storage/src/in-memory-multi-agent-store.ts\<close>: the store of multi-agent runs with its
  versions and leases, the mailbox between agents with its claim leases, and the registry of workers.

  The lock per run makes an operation one step. The lease code is that of the run state store, so the
  table of \<open>LeaseTable\<close> is used. The mailbox issues its claims under epochs of their own; it keeps the
  contract \<open>fenced_leases\<close> too, with the claim of a message as its lease.
\<close>

section \<open>Runs\<close>

record ma_store =
  as_runs :: "(string, ma_run) jsmap"
  as_versions :: "(string, nat) jsmap"
  as_leases :: lease_table

definition empty_ma_store :: ma_store where
  "empty_ma_store = \<lparr>as_runs = [], as_versions = [], as_leases = \<lparr>t_leases = [], t_epochs = []\<rparr>\<rparr>"

definition ma_save :: "ma_run \<Rightarrow> ma_store \<Rightarrow> unit result \<times> ma_store" where
  "ma_save run st = (case parse_ma_run run of
      Inl e \<Rightarrow> (Inl e, st)
    | Inr p \<Rightarrow> (Inr (), st\<lparr>as_runs := AList.update (ma_id p) p (as_runs st),
        as_versions := (case map_of (as_versions st) (ma_id p) of
            None \<Rightarrow> AList.update (ma_id p) 0 (as_versions st) | Some _ \<Rightarrow> as_versions st)\<rparr>))"

definition ma_load :: "string \<Rightarrow> ma_store \<Rightarrow> ma_run option" where
  "ma_load i st = map_of (as_runs st) i"

text \<open>
  \<open>update\<close> runs the caller's \<open>mutate\<close> between reading and writing; \<open>'t\<close> is what \<open>mutate\<close> itself consumes
  (ids and clock readings of the runtime).
\<close>

definition ma_update :: "string \<Rightarrow> (ma_run \<Rightarrow> 't \<Rightarrow> ma_run result \<times> 't) \<Rightarrow> fence option \<Rightarrow> nat option
    \<Rightarrow> int \<Rightarrow> ma_store \<Rightarrow> 't \<Rightarrow> ma_run result \<times> ma_store \<times> 't" where
  "ma_update i mutate f expected now st t = (case map_of (as_runs st) i of
      None \<Rightarrow> (throw (''MultiAgentRun not found: '' @ i), st, t)
    | Some cur \<Rightarrow>
        if \<not> fence_current i f now (as_leases st)
        then (throw ''MultiAgentRun update rejected by stale lease fence'', st, t)
        else let v = get_or 0 (as_versions st) i in
        if (case expected of None \<Rightarrow> False | Some e \<Rightarrow> e \<noteq> v)
        then (throw (''MultiAgentRun version mismatch: expected '' @ show_nat (the expected)
               @ '', got '' @ show_nat v), st, t)
        else (case mutate cur t of (x, t') \<Rightarrow> (case bind_result x parse_ma_run of
            Inl e \<Rightarrow> (Inl e, st, t')
          | Inr n \<Rightarrow>
              if ma_id n \<noteq> i
              then (throw (''MultiAgentRun update cannot change runId: '' @ ma_id n @ '' !== '' @ i), st, t')
              else (Inr n, st\<lparr>as_runs := AList.update i n (as_runs st),
                     as_versions := AList.update i (v + 1) (as_versions st)\<rparr>, t'))))"

definition ma_loadVersion :: "string \<Rightarrow> ma_store \<Rightarrow> nat option" where
  "ma_loadVersion i st = (case map_of (as_runs st) i of None \<Rightarrow> None
     | Some _ \<Rightarrow> Some (get_or 0 (as_versions st) i))"

definition ma_acquire :: "string \<Rightarrow> string \<Rightarrow> rat \<Rightarrow> int \<Rightarrow> string \<Rightarrow> ma_store \<Rightarrow> lease_grant \<times> ma_store" where
  "ma_acquire i holder ttl now token st = (case table_acquire i holder ttl now token (as_leases st) of
     (g, t) \<Rightarrow> (g, st\<lparr>as_leases := t\<rparr>))"

definition ma_renew :: "string \<Rightarrow> string \<Rightarrow> fence option \<Rightarrow> rat option \<Rightarrow> int \<Rightarrow> int \<Rightarrow> ma_store \<Rightarrow> bool \<times> ma_store" where
  "ma_renew i holder f ttl now now' st = (case table_renew i holder f ttl now now' (as_leases st) of
     (b, t) \<Rightarrow> (b, st\<lparr>as_leases := t\<rparr>))"

definition ma_release :: "string \<Rightarrow> string \<Rightarrow> fence option \<Rightarrow> ma_store \<Rightarrow> ma_store" where
  "ma_release i holder f st = st\<lparr>as_leases := table_release i holder f (as_leases st)\<rparr>"

definition ma_delete :: "string \<Rightarrow> ma_store \<Rightarrow> ma_store" where
  "ma_delete i st = \<lparr>as_runs = AList.delete i (as_runs st), as_versions = AList.delete i (as_versions st),
     as_leases = (as_leases st)\<lparr>t_leases := AList.delete i (t_leases (as_leases st))\<rparr>\<rparr>"

definition ma_listAll :: "ma_store \<Rightarrow> ma_run list" where
  "ma_listAll st = sort_key ma_created (map snd (as_runs st))"

definition ma_listByThread :: "string \<Rightarrow> ma_store \<Rightarrow> ma_run list" where
  "ma_listByThread th st = sort_key ma_created (filter (\<lambda>r. ma_thread r = th) (map snd (as_runs st)))"

definition pending :: "outbox_intent \<Rightarrow> bool" where
  "pending x = (oi_status x = Out_pending)"

definition ma_listPending :: "ma_store \<Rightarrow> ma_run list" where
  "ma_listPending st = sort_key ma_created
     (filter (\<lambda>r. list_ex pending (ma_outbox r)) (map snd (as_runs st)))"

inductive ma_step :: "ma_store \<Rightarrow> ma_store \<Rightarrow> bool" where
  save: "ma_step st (snd (ma_save r st))"
| update: "ma_step st (fst (snd (ma_update i mutate f expected now st (t :: nat))))"
| acquire: "ma_step st (snd (ma_acquire i h ttl now token st))"
| renew: "ma_step st (snd (ma_renew i h f d now now' st))"
| release: "ma_step st (ma_release i h f st)"
| delete: "ma_step st (ma_delete i st)"

lemma ma_save_leases [simp]: "as_leases (snd (ma_save r st)) = as_leases st"
  by (simp add: ma_save_def split: sum.splits)

lemma ma_update_leases [simp]: "as_leases (fst (snd (ma_update i mutate f expected now st t))) = as_leases st"
  by (simp add: ma_update_def Let_def split: option.splits prod.splits sum.splits)

lemma ma_step_table:
  assumes "ma_step st st'"
  shows "as_leases st' = as_leases st \<or> table_step (as_leases st) (as_leases st')"
  using assms
proof cases
  case (acquire i h ttl now token)
  then show ?thesis
    using table_step.acquire [of "as_leases st" i h ttl now token]
    by (simp add: ma_acquire_def split: prod.splits)
next
  case (renew i h f d now now')
  then show ?thesis
    using table_step.renew [of "as_leases st" i h f d now now']
    by (simp add: ma_renew_def split: prod.splits)
qed (auto simp: ma_release_def ma_delete_def intro: table_step.intros)

lemma ma_step_effect:
  assumes "table_well (as_leases st)" and "ma_step st st'"
  shows "table_well (as_leases st') \<and> table_epoch (as_leases st) k \<le> table_epoch (as_leases st') k
    \<and> (\<forall>l. table_lease (as_leases st') k = Some l \<longrightarrow>
        (\<exists>l0. table_lease (as_leases st) k = Some l0 \<and> fence_of l0 = fence_of l)
        \<or> table_epoch (as_leases st) k < l_epoch l)"
  using ma_step_table [OF assms(2)] table_step_effect [OF assms(1)] assms(1) by auto

interpretation ma_leases: fenced_leases
  "\<lambda>st k. table_lease (as_leases st) k" "\<lambda>st k. table_epoch (as_leases st) k" ma_step
  "\<lambda>st. table_well (as_leases st)"
  by unfold_locales (use ma_step_effect table_well_epoch in blast)+

section \<open>Versions\<close>

text \<open>What a successful update does.\<close>

lemma ma_update_Inr:
  assumes "ma_update i mutate f expected now st t = (Inr n, st', t')"
  shows "ma_id n = i \<and> ok_ma_run n \<and> ma_load i st' = Some n
    \<and> ma_loadVersion i st' = Some (get_or 0 (as_versions st) i + 1)
    \<and> (expected = None \<or> expected = ma_loadVersion i st)
    \<and> (\<exists>cur x. ma_load i st = Some cur \<and> mutate cur t = (Inr x, t') \<and> parse_ma_run x = Inr n)
    \<and> as_leases st' = as_leases st \<and> (\<forall>j. j \<noteq> i \<longrightarrow> ma_load j st' = ma_load j st)"
  using assms
  by (auto simp: ma_update_def Let_def ma_load_def ma_loadVersion_def result_simps parse_ma_run_ok
      split: option.splits prod.splits sum.splits if_splits)

lemma ma_update_Inl:
  assumes "ma_update i mutate f expected now st t = (Inl e, st', t')"
  shows "st' = st"
  using assms
  by (auto simp: ma_update_def Let_def split: option.splits prod.splits sum.splits if_splits)

text \<open>A step after which the run still exists.\<close>

definition kept_step :: "string \<Rightarrow> ma_store \<Rightarrow> ma_store \<Rightarrow> bool" where
  "kept_step i st st' = (ma_step st st' \<and> ma_load i st' \<noteq> None)"

lemma version_eq: "ma_load i st \<noteq> None \<Longrightarrow> ma_loadVersion i st = Some (get_or 0 (as_versions st) i)"
  by (auto simp: ma_loadVersion_def ma_load_def)

lemma ma_update_versions:
  "as_versions (fst (snd (ma_update j mutate f expected now st t))) = as_versions st
   \<or> as_versions (fst (snd (ma_update j mutate f expected now st t)))
     = AList.update j (get_or 0 (as_versions st) j + 1) (as_versions st)"
  by (simp add: ma_update_def Let_def split: option.splits prod.splits sum.splits)

lemma kept_step_version:
  assumes "kept_step i st st'"
  shows "get_or 0 (as_versions st) i \<le> get_or 0 (as_versions st') i"
  using assms [unfolded kept_step_def, THEN conjunct1]
proof cases
  case (save r)
  then show ?thesis by (auto simp: ma_save_def get_or_def split: sum.splits option.splits)
next
  case (update j mutate f expected now t)
  then show ?thesis using ma_update_versions [of j mutate f expected now st t] by auto
next
  case (delete j)
  then show ?thesis using assms by (cases "i = j") (simp_all add: ma_delete_def kept_step_def ma_load_def)
qed (simp_all add: ma_acquire_def ma_renew_def ma_release_def split: prod.splits)

text \<open>
  No lost updates: of two updates of a run that carry the same expected version, only the first
  can succeed, whatever operations happened in between, as long as the run was not deleted; the
  second fails with the mismatch error and changes nothing.
\<close>

theorem no_lost_update:
  assumes "ma_update i m1 f1 (Some v) n1 st t1 = (Inr r, st1, t1')"
    and "(kept_step i)\<^sup>*\<^sup>* st1 st2" and "fence_current i f2 n2 (as_leases st2)"
  shows "\<exists>k. ma_loadVersion i st2 = Some k \<and> v < k
    \<and> ma_update i m2 f2 (Some v) n2 st2 t2
      = (throw (''MultiAgentRun version mismatch: expected '' @ show_nat v @ '', got '' @ show_nat k), st2, t2)"
proof -
  from ma_update_Inr [OF assms(1)] have "ma_load i st1 \<noteq> None" "v < get_or 0 (as_versions st1) i"
    by (auto simp: ma_loadVersion_def ma_load_def split: option.splits)
  with assms(2) have "ma_load i st2 \<noteq> None \<and> v < get_or 0 (as_versions st2) i"
    by (induction rule: rtranclp_induct)
      (use kept_step_version in \<open>auto simp: kept_step_def intro: order_less_le_trans\<close>)
  with assms(3) show ?thesis by (auto simp: version_eq ma_update_def ma_load_def)
qed

definition sample_ma_run :: ma_run where
  "sample_ma_run = \<lparr>ma_id = ''r'', ma_thread = ''t'', ma_turn = ''u'', ma_workspace = ''w'',
     ma_status = Ma_running, ma_graph = ''g'', ma_active = ''a'', ma_stack = [''x''], ma_branches = [],
     ma_agents = [], ma_events = [], ma_outbox = [], ma_retries = [], ma_budgets = \<lparr>stepsUsed = 0,
     toolCallsUsed = 0, inputTokens = 0, outputTokens = 0, costUsd = 0\<rparr>, ma_created = 1, ma_updated = 1\<rparr>"

lemma sample_ma_run_ok [simp]: "ok_ma_run sample_ma_run"
  by (simp add: sample_ma_run_def ok_ma_run_def ok_string_Cons is_js_space_def ok_names_def ok_dict_def
      ok_budgets_def)

definition sample_ma_store :: ma_store where
  "sample_ma_store = snd (ma_save sample_ma_run empty_ma_store)"

lemma sample_ma_store_eq: "sample_ma_store = \<lparr>as_runs = [(''r'', sample_ma_run)], as_versions = [(''r'', 0)],
    as_leases = \<lparr>t_leases = [], t_epochs = []\<rparr>\<rparr>"
  by (simp add: sample_ma_store_def ma_save_def parse_ma_run_accepts empty_ma_store_def)
    (simp add: sample_ma_run_def)

theorem no_lost_update_witness:
  "\<exists>k. ma_loadVersion ''r'' (fst (snd (ma_update ''r'' (\<lambda>r t. (Inr r, t)) None (Some 0) 1 sample_ma_store ()))) = Some k
     \<and> 0 < k"
proof -
  let ?u = "ma_update ''r'' (\<lambda>r t. (Inr r, t)) None (Some 0) 1 sample_ma_store ()"
  have "?u = (Inr sample_ma_run, fst (snd ?u), ())"
    by (simp add: ma_update_def sample_ma_store_eq fence_current_def get_or_def parse_ma_run_accepts)
      (simp add: sample_ma_run_def)
  from no_lost_update [OF this rtranclp.rtrancl_refl, of None 1 "\<lambda>r t. (Inr r, t)" "()"] show ?thesis
    by (auto simp: fence_current_def)
qed

section \<open>The mailbox\<close>

record mailbox =
  mb_messages :: "(string, mailbox_message) jsmap"
  mb_epochs :: "(string, nat) jsmap"

fun mailboxStatusRank :: "mailbox_status \<Rightarrow> nat" where
  "mailboxStatusRank Msg_queued = 0"
| "mailboxStatusRank Msg_delivered = 1"
| "mailboxStatusRank Msg_failed = 1"
| "mailboxStatusRank Msg_aborted = 1"
| "mailboxStatusRank Msg_completed = 2"

definition preserveMailboxProgress :: "mailbox_message \<Rightarrow> mailbox_message \<Rightarrow> mailbox_message" where
  "preserveMailboxProgress old new =
     (if mailboxStatusRank (mm_status new) \<le> mailboxStatusRank (mm_status old) then old else new)"

definition claimableMailboxMessage :: "int \<Rightarrow> mailbox_message \<Rightarrow> bool" where
  "claimableMailboxMessage now m = (mm_status m = Msg_queued
     \<or> mm_status m = Msg_delivered \<and> (case mm_claim m of None \<Rightarrow> False | Some c \<Rightarrow> cl_expires c \<le> now))"

definition same_claim :: "claim_lease \<Rightarrow> claim_lease \<Rightarrow> bool" where
  "same_claim c f = (cl_holder c = cl_holder f \<and> cl_epoch c = cl_epoch f \<and> cl_token c = cl_token f)"

definition assertMailboxFence :: "mailbox_message \<Rightarrow> claim_lease option \<Rightarrow> unit result" where
  "assertMailboxFence m f = (case f of None \<Rightarrow> Inr ()
     | Some x \<Rightarrow> (case mm_claim m of
         Some c \<Rightarrow> assert_that (same_claim c x) ''Mailbox complete rejected by stale mailbox claim''
       | None \<Rightarrow> throw ''Mailbox complete rejected by stale mailbox claim''))"

definition mailbox_enqueue :: "mailbox_message \<Rightarrow> mailbox \<Rightarrow> unit result \<times> mailbox" where
  "mailbox_enqueue m mb = (case parse_message m of
      Inl e \<Rightarrow> (Inl e, mb)
    | Inr p \<Rightarrow> (Inr (), mb\<lparr>mb_messages := AList.update (mm_id p)
        (case map_of (mb_messages mb) (mm_id p) of Some old \<Rightarrow> preserveMailboxProgress old p | None \<Rightarrow> p)
        (mb_messages mb)\<rparr>))"

record claim_options =
  co_holder :: string
  co_ttl :: rat

definition nextClaimLease :: "string \<Rightarrow> claim_options \<Rightarrow> int \<Rightarrow> string \<Rightarrow> mailbox \<Rightarrow> claim_lease \<times> mailbox" where
  "nextClaimLease i opt now token mb = (let n = get_or 0 (mb_epochs mb) i + 1 in
     (\<lparr>cl_holder = co_holder opt, cl_expires = now + lease_ms (co_ttl opt), cl_epoch = n, cl_token = token\<rparr>,
      mb\<lparr>mb_epochs := AList.update i n (mb_epochs mb)\<rparr>))"

definition claim_candidate :: "string \<Rightarrow> int \<Rightarrow> mailbox \<Rightarrow> mailbox_message option" where
  "claim_candidate agent now mb = (case sort_key mm_created
       (filter (\<lambda>m. mm_to m = agent \<and> claimableMailboxMessage now m) (map snd (mb_messages mb))) of
     [] \<Rightarrow> None | m # _ \<Rightarrow> Some m)"

definition mailbox_claimNext :: "string \<Rightarrow> claim_options option \<Rightarrow> int \<Rightarrow> string \<Rightarrow> mailbox
    \<Rightarrow> mailbox_message option result \<times> mailbox" where
  "mailbox_claimNext agent opt now token mb = (case claim_candidate agent now mb of
      None \<Rightarrow> (Inr None, mb)
    | Some q \<Rightarrow>
        let (claim, mb') = (case opt of None \<Rightarrow> (mm_claim q, mb)
              | Some x \<Rightarrow> (case nextClaimLease (mm_id q) x now token mb of (c, mb') \<Rightarrow> (Some c, mb')))
        in (case parse_message (q\<lparr>mm_status := Msg_delivered, mm_claim := claim, mm_updated := now\<rparr>) of
            Inl e \<Rightarrow> (Inl e, mb')
          | Inr d \<Rightarrow> (Inr (Some d), mb'\<lparr>mb_messages := AList.update (mm_id d) d (mb_messages mb')\<rparr>)))"

fun message_status_of :: "final_status \<Rightarrow> mailbox_status" where
  "message_status_of Done_completed = Msg_completed"
| "message_status_of Done_failed = Msg_failed"
| "message_status_of Done_aborted = Msg_aborted"

definition mailbox_complete :: "string \<Rightarrow> final_status \<Rightarrow> claim_lease option \<Rightarrow> int \<Rightarrow> mailbox
    \<Rightarrow> unit result \<times> mailbox" where
  "mailbox_complete i s f now mb = (case map_of (mb_messages mb) i of
      None \<Rightarrow> (Inr (), mb)
    | Some cur \<Rightarrow>
        if mm_status cur = message_status_of s then (Inr (), mb)
        else (case bind_result (assertMailboxFence cur f) (\<lambda>_. parse_message
              (cur\<lparr>mm_status := message_status_of s, mm_claim := None, mm_updated := now\<rparr>)) of
            Inl e \<Rightarrow> (Inl e, mb)
          | Inr p \<Rightarrow> (Inr (), mb\<lparr>mb_messages := AList.update i p (mb_messages mb)\<rparr>)))"

definition mailbox_listForRun :: "string \<Rightarrow> mailbox \<Rightarrow> mailbox_message list" where
  "mailbox_listForRun r mb = sort_key mm_created (filter (\<lambda>m. mm_run m = r) (map snd (mb_messages mb)))"

text \<open>Every message is stored under its id, is well-formed, and its claim has an epoch issued before.\<close>

definition mailbox_well :: "mailbox \<Rightarrow> bool" where
  "mailbox_well mb = (distinct (map fst (mb_messages mb)) \<and> (\<forall>k m. map_of (mb_messages mb) k = Some m \<longrightarrow>
     mm_id m = k \<and> ok_message m \<and> (\<forall>c. mm_claim m = Some c \<longrightarrow> cl_epoch c \<le> get_or 0 (mb_epochs mb) k)))"

text \<open>The steps of a mailbox: the runtime enqueues messages without a claim.\<close>

inductive mailbox_step :: "mailbox \<Rightarrow> mailbox \<Rightarrow> bool" where
  enqueue: "mm_claim m = None \<Longrightarrow> mailbox_step mb (snd (mailbox_enqueue m mb))"
| claim: "mailbox_step mb (snd (mailbox_claimNext agent opt now token mb))"
| complete: "mailbox_step mb (snd (mailbox_complete i s f now mb))"

definition claim_as_lease :: "claim_lease \<Rightarrow> lease" where
  "claim_as_lease c = \<lparr>l_holder = cl_holder c, l_expires = cl_expires c, l_epoch = cl_epoch c,
     l_token = cl_token c\<rparr>"

definition claim_of :: "mailbox \<Rightarrow> string \<Rightarrow> lease option" where
  "claim_of mb k = (case map_of (mb_messages mb) k of None \<Rightarrow> None
     | Some m \<Rightarrow> map_option claim_as_lease (mm_claim m))"

lemma claim_candidate_Some:
  assumes "claim_candidate agent now mb = Some q" and "mailbox_well mb"
  shows "map_of (mb_messages mb) (mm_id q) = Some q \<and> mm_to q = agent \<and> claimableMailboxMessage now q \<and> ok_message q"
proof -
  have "q \<in> set (sort_key mm_created (filter (\<lambda>m. mm_to m = agent \<and> claimableMailboxMessage now m)
      (map snd (mb_messages mb))))"
    using assms(1) unfolding claim_candidate_def by (auto split: list.splits simp del: set_sort)
  then obtain k where "(k, q) \<in> set (mb_messages mb)" "mm_to q = agent" "claimableMailboxMessage now q" by auto
  with assms(2) show ?thesis by (auto simp: mailbox_well_def)
qed

text \<open>What each operation does to the messages.\<close>

lemma mailbox_enqueue_effect:
  "snd (mailbox_enqueue m mb) = mb \<or> (\<exists>p. parse_message m = Inr p \<and> snd (mailbox_enqueue m mb)
     = mb\<lparr>mb_messages := AList.update (mm_id p) (case map_of (mb_messages mb) (mm_id p) of
         Some old \<Rightarrow> preserveMailboxProgress old p | None \<Rightarrow> p) (mb_messages mb)\<rparr>)"
  by (simp add: mailbox_enqueue_def split: sum.splits)

lemma claimed_message_parses:
  assumes "ok_message q" and "parse_message (q\<lparr>mm_status := s, mm_claim := c, mm_updated := now\<rparr>) = Inr d"
  shows "mm_id d = mm_id q \<and> mm_to d = mm_to q \<and> mm_status d = s \<and> mm_created d = mm_created q
    \<and> check_option parse_claim_lease c = Inr (mm_claim d) \<and> ok_message d"
  using assms parse_message_ok [OF assms(2)]
  by (auto simp: parse_message_def result_simps ok_message_def ok_string_check)

lemma claim_option_cases:
  "check_option parse_claim_lease None = Inr v \<Longrightarrow> v = None"
  "check_option parse_claim_lease (Some c) = Inr v \<Longrightarrow>
     \<exists>d. v = Some d \<and> cl_epoch d = cl_epoch c \<and> cl_expires d = cl_expires c"
  by (auto simp: check_option_def result_simps parse_claim_lease_def check_count_def split: if_splits)

lemma mailbox_complete_effect:
  assumes "mailbox_well mb"
  shows "snd (mailbox_complete i s f now mb) = mb \<or> (\<exists>cur p. map_of (mb_messages mb) i = Some cur
     \<and> mm_status cur \<noteq> message_status_of s \<and> assertMailboxFence cur f = Inr ()
     \<and> mm_id p = i \<and> mm_status p = message_status_of s \<and> mm_claim p = None \<and> ok_message p
     \<and> snd (mailbox_complete i s f now mb) = mb\<lparr>mb_messages := AList.update i p (mb_messages mb)\<rparr>)"
proof (cases "map_of (mb_messages mb) i")
  case (Some cur)
  then have ok: "ok_message cur" "mm_id cur = i" using assms by (auto simp: mailbox_well_def)
  show ?thesis
    using Some ok claimed_message_parses [OF ok(1), where s = "message_status_of s" and c = None and now = now]
    by (auto simp: mailbox_complete_def result_simps split: sum.splits dest: claim_option_cases)
qed (simp add: mailbox_complete_def)

text \<open>A claim takes a claimable message of the agent, the oldest first, and delivers it.\<close>

lemma mailbox_claimNext_effect:
  assumes "mailbox_well mb" and "mailbox_claimNext agent opt now token mb = (x, mb')"
  shows "(mb_messages mb' = mb_messages mb \<and> (\<forall>d. x \<noteq> Inr (Some d))
      \<and> (\<forall>k. get_or 0 (mb_epochs mb) k \<le> get_or 0 (mb_epochs mb') k))
    \<or> (\<exists>q d. x = Inr (Some d) \<and> map_of (mb_messages mb) (mm_id d) = Some q \<and> mm_to q = agent
        \<and> claimableMailboxMessage now q \<and> ok_message d \<and> mm_status d = Msg_delivered
        \<and> mm_id q = mm_id d
        \<and> mb_messages mb' = AList.update (mm_id d) d (mb_messages mb)
        \<and> (case opt of None \<Rightarrow> mm_claim d = mm_claim q \<and> mb_epochs mb' = mb_epochs mb
           | Some p \<Rightarrow> (\<exists>c. mm_claim d = Some c \<and> cl_epoch c = get_or 0 (mb_epochs mb) (mm_id d) + 1
               \<and> cl_expires c = now + lease_ms (co_ttl p)
               \<and> mb_epochs mb' = AList.update (mm_id d) (cl_epoch c) (mb_epochs mb))))"
proof (cases "claim_candidate agent now mb")
  case None
  then show ?thesis using assms(2) by (auto simp: mailbox_claimNext_def)
next
  case (Some q)
  note q = claim_candidate_Some [OF Some assms(1)]
  show ?thesis
  proof (cases opt)
    case None
    let ?p = "parse_message (q\<lparr>mm_status := Msg_delivered, mm_claim := mm_claim q, mm_updated := now\<rparr>)"
    show ?thesis
    proof (cases ?p)
      case (Inl e)
      then show ?thesis using assms(2) Some None by (auto simp: mailbox_claimNext_def)
    next
      case (Inr d)
      have "check_option parse_claim_lease (mm_claim q) = Inr (mm_claim q)"
        using q by (simp add: ok_message_def claim_option_accepts)
      then show ?thesis
        using assms(2) Some None Inr q claimed_message_parses [OF _ Inr]
        by (auto simp: mailbox_claimNext_def)
    qed
  next
    case (Some p)
    let ?c = "fst (nextClaimLease (mm_id q) p now token mb)"
    let ?p = "parse_message (q\<lparr>mm_status := Msg_delivered, mm_claim := Some ?c, mm_updated := now\<rparr>)"
    show ?thesis
    proof (cases ?p)
      case (Inl e)
      then show ?thesis using assms(2) \<open>claim_candidate agent now mb = Some q\<close> Some
        by (auto simp: mailbox_claimNext_def nextClaimLease_def Let_def)
    next
      case (Inr d)
      have d: "mm_id d = mm_id q \<and> mm_status d = Msg_delivered \<and> ok_message d
          \<and> check_option parse_claim_lease (Some ?c) = Inr (mm_claim d)"
        using claimed_message_parses [OF _ Inr] q by simp
      then obtain c where "mm_claim d = Some c" "cl_epoch c = cl_epoch ?c" "cl_expires c = cl_expires ?c"
        using claim_option_cases(2) by blast
      then show ?thesis
        using assms(2) \<open>claim_candidate agent now mb = Some q\<close> Some Inr q d
        by (auto simp: mailbox_claimNext_def nextClaimLease_def Let_def)
    qed
  qed
qed

lemma claim_of_update [simp]:
  "claim_of (mb\<lparr>mb_messages := AList.update k m (mb_messages mb)\<rparr>) j
   = (if j = k then map_option claim_as_lease (mm_claim m) else claim_of mb j)"
  by (simp add: claim_of_def)

lemma claim_of_cong: "mb_messages mb' = mb_messages mb \<Longrightarrow> claim_of mb' = claim_of mb"
  by (simp add: claim_of_def fun_eq_iff)

lemma mailbox_well_update:
  assumes "mailbox_well mb" and "ok_message m" and "mm_id m = k" and "mb_messages mb' = AList.update k m (mb_messages mb)"
    and "\<forall>j. get_or 0 (mb_epochs mb) j \<le> get_or 0 (mb_epochs mb') j"
    and "\<forall>c. mm_claim m = Some c \<longrightarrow> cl_epoch c \<le> get_or 0 (mb_epochs mb') k"
  shows "mailbox_well mb'"
  using assms by (fastforce simp: mailbox_well_def distinct_update intro: order_trans)

lemma l_epoch_claim [simp]: "l_epoch (claim_as_lease c) = cl_epoch c"
  by (simp add: claim_as_lease_def)

lemma mailbox_step_effect:
  assumes "mailbox_well mb" and "mailbox_step mb mb'"
  shows "mailbox_well mb' \<and> get_or 0 (mb_epochs mb) k \<le> get_or 0 (mb_epochs mb') k
    \<and> (\<forall>l. claim_of mb' k = Some l \<longrightarrow> (\<exists>l0. claim_of mb k = Some l0 \<and> fence_of l0 = fence_of l)
        \<or> get_or 0 (mb_epochs mb) k < l_epoch l)"
  using assms(2)
proof cases
  case (enqueue m)
  show ?thesis
  proof (cases "snd (mailbox_enqueue m mb) = mb")
    case True
    with enqueue assms(1) show ?thesis by auto
  next
    case False
    then obtain p where p: "parse_message m = Inr p" and mb': "mb' = mb\<lparr>mb_messages := AList.update (mm_id p)
        (case map_of (mb_messages mb) (mm_id p) of Some old \<Rightarrow> preserveMailboxProgress old p | None \<Rightarrow> p) (mb_messages mb)\<rparr>"
      using mailbox_enqueue_effect [of m mb] enqueue by auto
    have none: "mm_claim p = None"
      using p enqueue(2) by (auto simp: parse_message_def check_option_def result_simps)
    have okp: "ok_message p" using p by (rule parse_message_ok)
    obtain n where n: "mb' = mb\<lparr>mb_messages := AList.update (mm_id p) n (mb_messages mb)\<rparr>"
      "ok_message n" "mm_id n = mm_id p" "mm_claim n = None \<or> map_of (mb_messages mb) (mm_id p) = Some n"
    proof (cases "map_of (mb_messages mb) (mm_id p)")
      case None
      with mb' okp none show ?thesis by (auto intro: that)
    next
      case (Some old)
      then have "ok_message old" "mm_id old = mm_id p" using assms(1) by (auto simp: mailbox_well_def)
      then show ?thesis using that [of "preserveMailboxProgress old p"] Some mb' okp none
        by (simp add: preserveMailboxProgress_def split: if_splits)
    qed
    have "mailbox_well mb'"
      by (rule mailbox_well_update [OF assms(1) n(2,3)]) (use n assms(1) in \<open>auto simp: mailbox_well_def\<close>)
    moreover have "claim_of mb' k = None \<or> claim_of mb' k = claim_of mb k"
      using n by (auto simp: claim_of_def)
    moreover have "mb_epochs mb' = mb_epochs mb" using n(1) by simp
    ultimately show ?thesis by (elim disjE) simp_all
  qed
next
  case (claim agent opt now token)
  obtain x where x: "mailbox_claimNext agent opt now token mb = (x, mb')" using claim by (metis prod.collapse)
  from mailbox_claimNext_effect [OF assms(1) x] show ?thesis
  proof (elim disjE conjE exE)
    assume same: "mb_messages mb' = mb_messages mb" "\<forall>k. get_or 0 (mb_epochs mb) k \<le> get_or 0 (mb_epochs mb') k"
    then show ?thesis using assms(1) claim_of_cong [OF same(1)] by (fastforce simp: mailbox_well_def intro: order_trans)
  next
    fix q d
    assume d: "map_of (mb_messages mb) (mm_id d) = Some q" "ok_message d"
      "mb_messages mb' = AList.update (mm_id d) d (mb_messages mb)"
      "case opt of None \<Rightarrow> mm_claim d = mm_claim q \<and> mb_epochs mb' = mb_epochs mb
       | Some p \<Rightarrow> (\<exists>c. mm_claim d = Some c \<and> cl_epoch c = get_or 0 (mb_epochs mb) (mm_id d) + 1
               \<and> cl_expires c = now + lease_ms (co_ttl p)
               \<and> mb_epochs mb' = AList.update (mm_id d) (cl_epoch c) (mb_epochs mb))"
    have "mailbox_well mb'"
      by (rule mailbox_well_update [OF assms(1) d(2) refl d(3)])
        (use d assms(1) in \<open>auto simp: mailbox_well_def split: option.splits\<close>)
    then show ?thesis using d by (cases opt) (auto simp: claim_of_def split: if_splits)
  qed
next
  case (complete i s f now)
  from mailbox_complete_effect [OF assms(1), of i s f now] complete show ?thesis
    using assms(1) mailbox_well_update [OF assms(1)] by (auto split: if_splits)
qed

interpretation claims: fenced_leases claim_of "\<lambda>mb. get_or 0 (mb_epochs mb)" mailbox_step mailbox_well
proof
  show "l_epoch l \<le> get_or 0 (mb_epochs mb) k" if "mailbox_well mb" "claim_of mb k = Some l" for mb k l
    using that by (auto simp: claim_of_def mailbox_well_def split: option.splits)
qed (use mailbox_step_effect in blast)+

lemma assertMailboxFence_holds:
  assumes "assertMailboxFence m (Some c) = Inr ()"
  shows "\<exists>d. mm_claim m = Some d \<and> fence_of (claim_as_lease d) = fence_of (claim_as_lease c)"
  using assms
  by (auto simp: assertMailboxFence_def result_simps same_claim_def fence_of_def claim_as_lease_def
      split: option.splits)

text \<open>
  C15. A worker that lost its claim cannot finish the message: once the claim on a message was taken
  over or given up, then after any further operations on the mailbox, \<open>complete\<close> under the old claim
  changes nothing.
\<close>

theorem stale_claim_cannot_complete:
  assumes "mailbox_step\<^sup>*\<^sup>* mb mb'" and "mailbox_well mb" and "cl_epoch c \<le> get_or 0 (mb_epochs mb) i"
    and "map_option fence_of (claim_of mb i) \<noteq> Some (fence_of (claim_as_lease c))"
  shows "snd (mailbox_complete i s (Some c) now mb') = mb'"
proof -
  have "\<not> claims.holds_fence mb i (fence_of (claim_as_lease c))" using assms(4) by (auto simp: claims.holds_fence_def)
  then have lost: "\<not> claims.holds_fence mb' i (fence_of (claim_as_lease c))"
    using claims.lost_forever [OF assms(1,2)] assms(3) by simp
  have "assertMailboxFence cur (Some c) \<noteq> Inr ()" if "map_of (mb_messages mb') i = Some cur" for cur
    using assertMailboxFence_holds [of cur c] lost that by (auto simp: claims.holds_fence_def claim_of_def)
  then show ?thesis by (auto simp: mailbox_complete_def result_simps split: option.splits sum.splits)
qed

definition sample_message :: mailbox_message where
  "sample_message = \<lparr>mm_id = ''m'', mm_envelope = ''e'', mm_run = ''r'', mm_from = ''a'', mm_to = ''b'',
     mm_status = Msg_queued, mm_claim = None, mm_payload = [(''prompt'', JStr ''p'')], mm_created = 1,
     mm_updated = 1\<rparr>"

lemma sample_message_ok [simp]: "ok_message sample_message"
  by (simp add: sample_message_def ok_message_def ok_string_Cons is_js_space_def ok_option_def ok_prompt_def
      check_prompt_def z_nonempty_accepts)

definition sample_claim :: "string \<Rightarrow> nat \<Rightarrow> int \<Rightarrow> claim_lease" where
  "sample_claim h n e = \<lparr>cl_holder = h, cl_expires = e, cl_epoch = n, cl_token = ''k''\<rparr>"

definition sample_mailbox :: mailbox where
  "sample_mailbox = snd (mailbox_enqueue sample_message \<lparr>mb_messages = [], mb_epochs = []\<rparr>)"

lemma sample_mailbox_eq: "sample_mailbox = \<lparr>mb_messages = [(''m'', sample_message)], mb_epochs = []\<rparr>"
  by (simp add: sample_mailbox_def mailbox_enqueue_def parse_message_accepts) (simp add: sample_message_def)

definition claimed_mailbox :: mailbox where
  "claimed_mailbox = snd (mailbox_claimNext ''b'' (Some \<lparr>co_holder = ''w'', co_ttl = 10\<rparr>) 5 ''k'' sample_mailbox)"

definition claimed_message :: mailbox_message where
  "claimed_message = sample_message\<lparr>mm_status := Msg_delivered, mm_claim := Some (sample_claim ''w'' 1 15), mm_updated := 5\<rparr>"

lemma claimed_message_ok [simp]: "ok_message claimed_message"
  using sample_message_ok
  by (simp add: claimed_message_def ok_message_def ok_option_def ok_claim_lease_def sample_claim_def
      ok_string_Cons is_js_space_def max_safe_integer_def)

lemma sample_claimNext:
  "mailbox_claimNext ''b'' (Some \<lparr>co_holder = ''w'', co_ttl = 10\<rparr>) 5 ''k'' sample_mailbox
   = (Inr (Some claimed_message), \<lparr>mb_messages = [(''m'', claimed_message)], mb_epochs = [(''m'', 1)]\<rparr>)"
proof -
  have "claim_candidate ''b'' 5 sample_mailbox = Some sample_message"
    by (simp add: claim_candidate_def sample_mailbox_eq sample_message_def claimableMailboxMessage_def)
  moreover have "nextClaimLease ''m'' \<lparr>co_holder = ''w'', co_ttl = 10\<rparr> 5 ''k'' sample_mailbox
      = (sample_claim ''w'' 1 15, \<lparr>mb_messages = [(''m'', sample_message)], mb_epochs = [(''m'', 1)]\<rparr>)"
    by (simp add: nextClaimLease_def sample_mailbox_eq sample_claim_def get_or_def lease_ms_def)
  moreover have "mm_id sample_message = ''m''" "mm_id claimed_message = ''m''"
    by (simp_all add: sample_message_def claimed_message_def)
  ultimately show ?thesis
    using parse_message_accepts [OF claimed_message_ok] unfolding claimed_message_def
    by (simp add: mailbox_claimNext_def Let_def)
qed

lemma claimed_mailbox_eq: "claimed_mailbox = \<lparr>mb_messages = [(''m'', claimed_message)], mb_epochs = [(''m'', 1)]\<rparr>"
  by (simp add: claimed_mailbox_def sample_claimNext)

lemma sample_mailboxes_well [simp]: "mailbox_well sample_mailbox" "mailbox_well claimed_mailbox"
  by (simp_all add: mailbox_well_def sample_mailbox_eq claimed_mailbox_eq)
    (simp_all add: sample_message_def claimed_message_def sample_claim_def get_or_def)

theorem stale_claim_cannot_complete_witness:
  "snd (mailbox_complete ''m'' Done_completed (Some (sample_claim ''x'' 1 9)) 20
      (snd (mailbox_claimNext ''b'' (Some \<lparr>co_holder = ''y'', co_ttl = 10\<rparr>) 16 ''l'' claimed_mailbox)))
   = snd (mailbox_claimNext ''b'' (Some \<lparr>co_holder = ''y'', co_ttl = 10\<rparr>) 16 ''l'' claimed_mailbox)"
proof (rule stale_claim_cannot_complete)
  show "mailbox_step\<^sup>*\<^sup>* claimed_mailbox
      (snd (mailbox_claimNext ''b'' (Some \<lparr>co_holder = ''y'', co_ttl = 10\<rparr>) 16 ''l'' claimed_mailbox))"
    by (rule r_into_rtranclp, rule mailbox_step.claim)
  show "mailbox_well claimed_mailbox" by simp
qed (simp_all add: sample_claim_def claimed_mailbox_eq get_or_def claim_of_def claimed_message_def
    claim_as_lease_def fence_of_def)

text \<open>
  A claim excludes other claims until it expires. The steps considered are the ones other parties take
  meanwhile: claims before that time, by any agent and with any options, and retransmissions.
\<close>

inductive quiet_step :: "instant \<Rightarrow> mailbox \<Rightarrow> mailbox \<Rightarrow> bool" for e where
  enqueue: "mm_claim m = None \<Longrightarrow> mm_status m = Msg_queued \<Longrightarrow> quiet_step e mb (snd (mailbox_enqueue m mb))"
| claim: "now < e \<Longrightarrow> quiet_step e mb (snd (mailbox_claimNext agent opt now token mb))"

lemma quiet_step_mailbox: "quiet_step e mb mb' \<Longrightarrow> mailbox_step mb mb'"
  by (auto elim!: quiet_step.cases intro: mailbox_step.intros)

lemma claimNext_not_held:
  assumes "mailbox_well mb" and "map_of (mb_messages mb) i = Some m" and "\<not> claimableMailboxMessage now m"
  shows "map_of (mb_messages (snd (mailbox_claimNext agent opt now token mb))) i = Some m
    \<and> (\<forall>d. fst (mailbox_claimNext agent opt now token mb) = Inr (Some d) \<longrightarrow> mm_id d \<noteq> i)"
proof -
  obtain x mb' where x: "mailbox_claimNext agent opt now token mb = (x, mb')" by force
  from mailbox_claimNext_effect [OF assms(1) x] show ?thesis
    using assms(2,3) x by (elim disjE exE conjE) auto
qed

lemma quiet_step_keeps:
  assumes "quiet_step e mb mb'" and "mailbox_well mb" and "map_of (mb_messages mb) i = Some m"
    and "\<forall>t < e. \<not> claimableMailboxMessage t m"
  shows "map_of (mb_messages mb') i = Some m"
  using assms(1)
proof cases
  case (enqueue n)
  with mailbox_enqueue_effect [of n mb] assms(3) show ?thesis
    by (auto simp: preserveMailboxProgress_def parse_message_def result_simps)
next
  case (claim now agent opt token)
  with claimNext_not_held [OF assms(2,3)] assms(4) show ?thesis by simp
qed

text \<open>
  A claimed message is delivered to nobody else until its claim expires: from the mailbox a claim
  left, through any number of earlier-timed claims and retransmissions, the message stays as it was
  claimed, and no further claim before that time returns it.
\<close>

theorem claim_is_exclusive:
  assumes "mailbox_claimNext agent (Some opt) now token mb = (Inr (Some m), mb1)" and "mailbox_well mb"
    and "(quiet_step (now + lease_ms (co_ttl opt)))\<^sup>*\<^sup>* mb1 mb2" and "t < now + lease_ms (co_ttl opt)"
    and "fst (mailbox_claimNext agent' opt' t token' mb2) = Inr (Some d)"
  shows "mm_status m = Msg_delivered \<and> map_of (mb_messages mb2) (mm_id m) = Some m \<and> mm_id d \<noteq> mm_id m"
proof -
  let ?e = "now + lease_ms (co_ttl opt)"
  from mailbox_claimNext_effect [OF assms(2,1)] obtain c where
    m: "mm_status m = Msg_delivered" "map_of (mb_messages mb1) (mm_id m) = Some m"
      "mm_claim m = Some c" "cl_expires c = ?e" by auto
  have held: "\<forall>s < ?e. \<not> claimableMailboxMessage s m" using m by (simp add: claimableMailboxMessage_def)
  have "mailbox_well mb1"
    using mailbox_step_effect [OF assms(2) mailbox_step.claim, of agent "Some opt" now token] assms(1) by simp
  with assms(3) m(2) have "mailbox_well mb2 \<and> map_of (mb_messages mb2) (mm_id m) = Some m"
    by (induction rule: rtranclp_induct)
      (use quiet_step_keeps [OF _ _ _ held] mailbox_step_effect quiet_step_mailbox in blast)+
  with claimNext_not_held held assms(4,5) m(1) show ?thesis by blast
qed

definition second_message :: mailbox_message where
  "second_message = sample_message\<lparr>mm_id := ''n''\<rparr>"

lemma second_message_ok [simp]: "ok_message second_message" "ok_message (second_message\<lparr>mm_status := Msg_delivered, mm_updated := 7\<rparr>)"
  using sample_message_ok
  by (simp_all add: second_message_def ok_message_def ok_string_Cons is_js_space_def)

lemma second_mailbox_eq: "snd (mailbox_enqueue second_message claimed_mailbox)
    = \<lparr>mb_messages = [(''m'', claimed_message), (''n'', second_message)], mb_epochs = [(''m'', 1)]\<rparr>"
  by (simp add: mailbox_enqueue_def parse_message_accepts claimed_mailbox_eq) (simp add: second_message_def)

lemma second_claim:
  "fst (mailbox_claimNext ''b'' None 7 ''z'' (snd (mailbox_enqueue second_message claimed_mailbox)))
   = Inr (Some (second_message\<lparr>mm_status := Msg_delivered, mm_updated := 7\<rparr>))"
proof -
  have "claim_candidate ''b'' 7 (snd (mailbox_enqueue second_message claimed_mailbox)) = Some second_message"
    unfolding claim_candidate_def second_mailbox_eq
    by (simp add: second_message_def claimed_message_def sample_message_def claimableMailboxMessage_def
        sample_claim_def)
  moreover have "second_message\<lparr>mm_status := Msg_delivered, mm_claim := mm_claim second_message, mm_updated := 7\<rparr>
      = second_message\<lparr>mm_status := Msg_delivered, mm_updated := 7\<rparr>" by simp
  ultimately show ?thesis
    using parse_message_accepts [OF second_message_ok(2)] by (simp add: mailbox_claimNext_def)
qed

theorem claim_is_exclusive_witness:
  "map_of (mb_messages (snd (mailbox_enqueue second_message claimed_mailbox))) (mm_id claimed_message)
   = Some claimed_message"
proof -
  have "(quiet_step (5 + lease_ms (co_ttl \<lparr>co_holder = ''w'', co_ttl = 10\<rparr>)))\<^sup>*\<^sup>* claimed_mailbox
      (snd (mailbox_enqueue second_message claimed_mailbox))"
    by (rule r_into_rtranclp, rule quiet_step.enqueue)
      (simp_all add: second_message_def sample_message_def)
  from claim_is_exclusive [OF sample_claimNext sample_mailboxes_well(1) this [unfolded claimed_mailbox_eq] _
      second_claim [unfolded claimed_mailbox_eq]]
  show ?thesis by (simp add: lease_ms_def claimed_mailbox_eq)
qed

text \<open>Statuses that end a message's life.\<close>

definition finished_message :: "mailbox_message \<Rightarrow> bool" where
  "finished_message m = (mm_status m = Msg_completed \<or> mm_status m = Msg_failed \<or> mm_status m = Msg_aborted)"

lemma finished_status_of [simp]: "mm_status m = message_status_of s \<Longrightarrow> finished_message m"
  by (cases s) (simp_all add: finished_message_def)

lemma finished_step:
  assumes "mailbox_step mb mb'" and "mailbox_well mb" and "map_of (mb_messages mb) i = Some m" and "finished_message m"
  shows "\<exists>m'. map_of (mb_messages mb') i = Some m' \<and> finished_message m'"
  using assms(1)
proof cases
  case (enqueue n)
  have "finished_message (preserveMailboxProgress m p)" for p
    using assms(4) by (cases "mm_status p") (auto simp: preserveMailboxProgress_def finished_message_def)
  note kept = this
  from mailbox_enqueue_effect [of n mb] show ?thesis
  proof (elim disjE exE conjE)
    fix p
    assume e: "snd (mailbox_enqueue n mb) = mb\<lparr>mb_messages := AList.update (mm_id p)
        (case map_of (mb_messages mb) (mm_id p) of Some old \<Rightarrow> preserveMailboxProgress old p | None \<Rightarrow> p)
        (mb_messages mb)\<rparr>"
    show ?thesis unfolding enqueue(1) e using assms(3,4) kept by (cases "mm_id p = i") simp_all
  qed (use assms(3,4) enqueue(1) in simp)
next
  case (claim agent opt now token)
  have "\<not> claimableMailboxMessage now m" using assms(4) by (auto simp: claimableMailboxMessage_def finished_message_def)
  with claimNext_not_held [OF assms(2,3)] claim assms(4) show ?thesis by blast
next
  case (complete j s f now)
  with mailbox_complete_effect [OF assms(2), of j s f now] assms(3,4) show ?thesis by auto
qed

text \<open>
  A finished message is never delivered again: once its status is completed, failed or aborted, it
  stays in one of the three through every operation on the mailbox, and no claim returns it.
\<close>

theorem finished_never_redelivered:
  assumes "mailbox_step\<^sup>*\<^sup>* mb mb'" and "mailbox_well mb" and "map_of (mb_messages mb) i = Some m"
    and "finished_message m"
  shows "(\<exists>m'. map_of (mb_messages mb') i = Some m' \<and> finished_message m')
    \<and> (\<forall>d. fst (mailbox_claimNext agent opt now token mb') = Inr (Some d) \<longrightarrow> mm_id d \<noteq> i)"
proof -
  from assms have "mailbox_well mb' \<and> (\<exists>m'. map_of (mb_messages mb') i = Some m' \<and> finished_message m')"
  proof (induction rule: rtranclp_induct)
    case (step u v)
    then show ?case using finished_step mailbox_step_effect by meson
  qed auto
  then obtain m' where "mailbox_well mb'" "map_of (mb_messages mb') i = Some m'" "finished_message m'" by blast
  moreover from this have "\<not> claimableMailboxMessage now m'"
    by (auto simp: claimableMailboxMessage_def finished_message_def)
  ultimately show ?thesis using claimNext_not_held [of mb' i m' now agent opt token] by auto
qed

theorem finished_never_redelivered_witness:
  "\<exists>m'. map_of (mb_messages (snd (mailbox_complete ''m'' Done_failed None 9
      \<lparr>mb_messages = [(''m'', claimed_message\<lparr>mm_status := Msg_completed\<rparr>)], mb_epochs = [(''m'', 1)]\<rparr>))) ''m'' = Some m'
    \<and> finished_message m'"
proof -
  let ?mb = "\<lparr>mb_messages = [(''m'', claimed_message\<lparr>mm_status := Msg_completed\<rparr>)], mb_epochs = [(''m'', 1)]\<rparr>"
  have "mailbox_well ?mb"
    using claimed_message_ok
    by (simp add: mailbox_well_def ok_message_def)
      (simp add: claimed_message_def sample_message_def sample_claim_def get_or_def)
  moreover have "mailbox_step\<^sup>*\<^sup>* ?mb (snd (mailbox_complete ''m'' Done_failed None 9 ?mb))"
    by (rule r_into_rtranclp, rule mailbox_step.complete)
  ultimately show ?thesis
    using finished_never_redelivered [of ?mb _ "''m''" "claimed_message\<lparr>mm_status := Msg_completed\<rparr>"]
    by (simp add: finished_message_def)
qed

section \<open>The registry of workers\<close>

datatype worker_status = Worker_online | Worker_expired

record worker =
  w_id :: string
  w_status :: worker_status
  w_agents :: "string list"
  w_started :: instant
  w_heartbeat :: instant
  w_expires :: instant
  w_updated :: instant

type_synonym worker_registry = "(string, worker) jsmap"

definition parse_worker :: "worker \<Rightarrow> worker result" where
  "parse_worker w = bind_result (check_nonempty (w_id w)) (\<lambda>i.
     bind_result (map_result check_nonempty (w_agents w)) (\<lambda>as. Inr (w\<lparr>w_id := i, w_agents := as\<rparr>)))"

definition recordHeartbeat :: "string \<Rightarrow> string list \<Rightarrow> instant \<Rightarrow> rat \<Rightarrow> worker_registry
    \<Rightarrow> worker result \<times> worker_registry" where
  "recordHeartbeat i agents beat ttl reg = (case parse_worker \<lparr>w_id = i, w_status = Worker_online,
       w_agents = agents, w_started = (case map_of reg i of Some w \<Rightarrow> w_started w | None \<Rightarrow> beat),
       w_heartbeat = beat, w_expires = beat + lease_ms ttl, w_updated = beat\<rparr> of
      Inl e \<Rightarrow> (Inl e, reg)
    | Inr w \<Rightarrow> (Inr w, AList.update (w_id w) w reg))"

definition workerRecordWithComputedStatus :: "instant \<Rightarrow> worker \<Rightarrow> worker result" where
  "workerRecordWithComputedStatus now w =
     parse_worker (w\<lparr>w_status := (if w_expires w \<le> now then Worker_expired else Worker_online)\<rparr>)"

text \<open>\<open>localeCompare\<close> on worker ids orders by the locale's collation keys, the parameter \<open>ck\<close>.\<close>

definition list_workers :: "(string \<Rightarrow> 'k :: linorder) \<Rightarrow> instant \<Rightarrow> worker_registry \<Rightarrow> worker list result" where
  "list_workers ck now reg = bind_result (map_result (workerRecordWithComputedStatus now) (map snd reg))
     (\<lambda>ws. Inr (sort_key (\<lambda>w. ck (w_id w)) ws))"

end
