(* ===== verification/AgentGraph.thy ===== *)
theory AgentGraph
  imports AgentContracts
begin

text \<open>
  \<open>loop/src/multi-agent-graph.ts\<close>: validation and lookup of agent graphs. Validation works on the
  schema-checked copy of the graph and returns the graph it was given.
\<close>

definition requireGraphNode :: "agent_graph \<Rightarrow> string \<Rightarrow> graph_node result" where
  "requireGraphNode g i = (case List.find (\<lambda>n. gn_id n = i) (ag_nodes g) of
      Some n \<Rightarrow> Inr n
    | None \<Rightarrow> throw (''AgentGraph node not found: '' @ i))"

definition nextNodeForCondition :: "agent_graph \<Rightarrow> string \<Rightarrow> string \<Rightarrow> string option" where
  "nextNodeForCondition g i c =
     map_option ge_to (List.find (\<lambda>e. ge_from e = i \<and> ge_condition e = c) (ag_edges g))"

fun collect_node_ids :: "graph_node list \<Rightarrow> string list \<Rightarrow> string list result" where
  "collect_node_ids [] ids = Inr ids"
| "collect_node_ids (n # ns) ids =
     (if gn_id n \<in> set ids then throw (''AgentGraph duplicate node id: '' @ gn_id n)
      else collect_node_ids ns (gn_id n # ids))"

fun check_graph_edges :: "string list \<Rightarrow> graph_edge list \<Rightarrow> (string, string list) jsmap \<Rightarrow> unit result" where
  "check_graph_edges ids [] seen = Inr ()"
| "check_graph_edges ids (e # es) seen =
     (if ge_from e \<notin> set ids \<or> ge_to e \<notin> set ids
      then throw (''AgentGraph edge points to unknown node: '' @ ge_from e @ '' -> '' @ ge_to e)
      else let conditions = get_or [] seen (ge_from e) in
      if ge_condition e \<in> set conditions
      then throw (''AgentGraph duplicate edge condition: '' @ ge_from e @ '':'' @ ge_condition e)
      else check_graph_edges ids es (AList.update (ge_from e) (ge_condition e # conditions) seen))"

definition validateAgentGraph :: "agent_graph \<Rightarrow> agent_graph result" where
  "validateAgentGraph g = bind_result (parse_agent_graph g) (\<lambda>p.
     bind_result (collect_node_ids (ag_nodes p) []) (\<lambda>ids.
     bind_result (assert_that (ag_start p \<in> set ids) (''AgentGraph startNodeId is unknown: '' @ ag_start p)) (\<lambda>_.
     bind_result (check_graph_edges ids (ag_edges p) []) (\<lambda>_. Inr g))))"

definition defaultManagerSpecialistGraph :: "string \<Rightarrow> string \<Rightarrow> agent_graph result" where
  "defaultManagerSpecialistGraph manager specialist = bind_result (parse_agent_graph
     \<lparr>ag_id = ''manager_to_'' @ specialist, ag_start = ''manager'',
       ag_nodes = [Agent_node ''manager'' manager (Some ''Manager'') None [],
         Handoff_node (''handoff_'' @ specialist) specialist,
         Agent_node specialist specialist (Some specialist) None [],
         Terminate_node ''done''],
       ag_edges = [\<lparr>ge_from = ''manager'', ge_to = ''handoff_'' @ specialist, ge_condition = ''handoff''\<rparr>,
         \<lparr>ge_from = ''handoff_'' @ specialist, ge_to = specialist, ge_condition = ''accepted''\<rparr>,
         \<lparr>ge_from = specialist, ge_to = ''done'', ge_condition = ''completed''\<rparr>]\<rparr>) validateAgentGraph"

section \<open>What validation establishes\<close>

lemma collect_node_ids_Inr:
  "collect_node_ids ns ids = Inr ids' \<longleftrightarrow>
     distinct (map gn_id ns) \<and> set (map gn_id ns) \<inter> set ids = {} \<and> ids' = rev (map gn_id ns) @ ids"
proof (induction ns arbitrary: ids)
  case (Cons n ns)
  show ?case
  proof (cases "gn_id n \<in> set ids")
    case False
    then have "set (map gn_id (n # ns)) \<inter> set ids = {} \<longleftrightarrow> set (map gn_id ns) \<inter> set ids = {}" by simp
    with False Cons [of "gn_id n # ids"] show ?thesis by (simp add: Int_insert_right)
  qed simp
qed auto

definition fresh_conditions :: "graph_edge list \<Rightarrow> (string, string list) jsmap \<Rightarrow> bool" where
  "fresh_conditions es seen = (distinct (map (\<lambda>e. (ge_from e, ge_condition e)) es)
     \<and> (\<forall>e \<in> set es. ge_condition e \<notin> set (get_or [] seen (ge_from e))))"

lemma fresh_conditions_Cons:
  "fresh_conditions (e # es) seen \<longleftrightarrow> ge_condition e \<notin> set (get_or [] seen (ge_from e))
     \<and> fresh_conditions es (AList.update (ge_from e) (ge_condition e # get_or [] seen (ge_from e)) seen)"
proof -
  let ?g = "get_or [] seen"
  let ?A = "\<forall>x \<in> set es. ge_from x = ge_from e \<longrightarrow> ge_condition x \<noteq> ge_condition e"
  have upd: "get_or [] (AList.update (ge_from e) (ge_condition e # ?g (ge_from e)) seen) j
      = (if j = ge_from e then ge_condition e # ?g j else ?g j)" for j by simp
  have d: "distinct (map (\<lambda>e. (ge_from e, ge_condition e)) (e # es))
      \<longleftrightarrow> ?A \<and> distinct (map (\<lambda>e. (ge_from e, ge_condition e)) es)"
    by (simp add: image_iff) metis
  have m: "ge_condition x \<notin> set (if ge_from x = ge_from e then ge_condition e # ?g (ge_from x) else ?g (ge_from x))
      \<longleftrightarrow> (ge_from x = ge_from e \<longrightarrow> ge_condition x \<noteq> ge_condition e) \<and> ge_condition x \<notin> set (?g (ge_from x))" for x
    by simp
  show ?thesis unfolding fresh_conditions_def upd d m ball_conj_distrib list.set ball_simps(7)
    by blast
qed

lemma check_graph_edges_Inr:
  "check_graph_edges ids es seen = Inr () \<longleftrightarrow>
     (\<forall>e \<in> set es. ge_from e \<in> set ids \<and> ge_to e \<in> set ids) \<and> fresh_conditions es seen"
proof (induction es arbitrary: seen)
  case (Cons e es)
  show ?case by (simp add: Let_def Cons fresh_conditions_Cons) blast
qed (simp add: fresh_conditions_def)

definition well_formed_graph :: "agent_graph \<Rightarrow> bool" where
  "well_formed_graph g = (distinct (map gn_id (ag_nodes g)) \<and> ag_start g \<in> gn_id ` set (ag_nodes g)
     \<and> (\<forall>e \<in> set (ag_edges g). ge_from e \<in> gn_id ` set (ag_nodes g) \<and> ge_to e \<in> gn_id ` set (ag_nodes g))
     \<and> distinct (map (\<lambda>e. (ge_from e, ge_condition e)) (ag_edges g)))"

lemma validateAgentGraph_iff:
  "validateAgentGraph g = Inr h \<longleftrightarrow> h = g \<and> (\<exists>p. parse_agent_graph g = Inr p \<and> well_formed_graph p)"
proof -
  have "(collect_node_ids (ag_nodes p) [] = Inr ids \<and> ag_start p \<in> set ids \<and> check_graph_edges ids (ag_edges p) [] = Inr ())
      \<longleftrightarrow> ids = rev (map gn_id (ag_nodes p)) \<and> well_formed_graph p" for p ids
    unfolding collect_node_ids_Inr check_graph_edges_Inr fresh_conditions_def well_formed_graph_def
    by (auto simp: get_or_def)
  then show ?thesis unfolding validateAgentGraph_def result_simps by fastforce
qed

lemma find_key: "distinct (map f xs) \<Longrightarrow> x \<in> set xs \<Longrightarrow> List.find (\<lambda>y. f y = f x) xs = Some x"
  by (induction xs) (auto simp: image_iff)

lemma requireGraphNode_found:
  "distinct (map gn_id (ag_nodes g)) \<Longrightarrow> n \<in> set (ag_nodes g) \<Longrightarrow> requireGraphNode g (gn_id n) = Inr n"
  using find_key [of gn_id "ag_nodes g" n] by (simp add: requireGraphNode_def)

lemma nextNodeForCondition_found:
  "distinct (map (\<lambda>e. (ge_from e, ge_condition e)) (ag_edges g)) \<Longrightarrow> e \<in> set (ag_edges g)
    \<Longrightarrow> nextNodeForCondition g (ge_from e) (ge_condition e) = Some (ge_to e)"
  using find_key [of "\<lambda>e. (ge_from e, ge_condition e)" "ag_edges g" e] by (simp add: nextNodeForCondition_def)

text \<open>
  Validation accepts exactly the graphs whose schema-checked copy has distinct node ids, a known
  start node, edges between known nodes, and at most one edge per node and condition; it returns the
  graph unchanged. In a schema-checked graph it accepts, every edge is the one its condition selects
  and leads to a node the lookup finds.
\<close>

theorem validateAgentGraph_exact:
  "(validateAgentGraph g = Inr h \<longleftrightarrow> h = g \<and> (\<exists>p. parse_agent_graph g = Inr p \<and> well_formed_graph p))
   \<and> (validateAgentGraph g = Inr h \<and> ok_agent_graph g \<and> e \<in> set (ag_edges g) \<longrightarrow>
      nextNodeForCondition g (ge_from e) (ge_condition e) = Some (ge_to e)
      \<and> (\<exists>n. requireGraphNode g (ge_to e) = Inr n \<and> gn_id n = ge_to e))"
proof (intro conjI impI)
  assume a: "validateAgentGraph g = Inr h \<and> ok_agent_graph g \<and> e \<in> set (ag_edges g)"
  then have w: "well_formed_graph g" by (auto simp: validateAgentGraph_iff ok_agent_graph_def)
  with a show "nextNodeForCondition g (ge_from e) (ge_condition e) = Some (ge_to e)"
    by (simp add: well_formed_graph_def nextNodeForCondition_found)
  from a w obtain n where "n \<in> set (ag_nodes g)" "gn_id n = ge_to e" by (auto simp: well_formed_graph_def)
  then show "\<exists>n. requireGraphNode g (ge_to e) = Inr n \<and> gn_id n = ge_to e"
    using requireGraphNode_found [of g n] w by (auto simp: well_formed_graph_def)
qed (rule validateAgentGraph_iff)

definition specialist_graph :: "string \<Rightarrow> string \<Rightarrow> agent_graph" where
  "specialist_graph manager specialist =
     \<lparr>ag_id = ''manager_to_'' @ specialist, ag_start = ''manager'',
       ag_nodes = [Agent_node ''manager'' manager (Some ''Manager'') None [],
         Handoff_node (''handoff_'' @ specialist) specialist,
         Agent_node specialist specialist (Some specialist) None [],
         Terminate_node ''done''],
       ag_edges = [\<lparr>ge_from = ''manager'', ge_to = ''handoff_'' @ specialist, ge_condition = ''handoff''\<rparr>,
         \<lparr>ge_from = ''handoff_'' @ specialist, ge_to = specialist, ge_condition = ''accepted''\<rparr>,
         \<lparr>ge_from = specialist, ge_to = ''done'', ge_condition = ''completed''\<rparr>]\<rparr>"

lemma ok_string_append: "\<not> is_js_space c \<Longrightarrow> ok_string s \<Longrightarrow> ok_string (c # p @ s)"
  by (rule ok_string_Cons)
    (auto simp: ok_string_def trim_def trim_start_def trim_end_def, metis dropWhile_eq_Cons_conv
      dropWhile_idem last_rev list.sel(1) rev.simps(2) rev_rev_ident rev_is_Nil_conv hd_dropWhile)

lemma ok_specialist_graph:
  assumes "ok_string manager" and "ok_string specialist"
  shows "parse_agent_graph (specialist_graph manager specialist) = Inr (specialist_graph manager specialist)"
proof -
  have "ok_string (''handoff_'' @ specialist)" "ok_string (''manager_to_'' @ specialist)"
    using ok_string_append [OF _ assms(2), of _ "''andoff_''"] ok_string_append [OF _ assms(2), of _ "''anager_to_''"]
    by (simp_all add: is_js_space_def)
  moreover have "ok_string ''manager''" "ok_string ''done''" "ok_string ''handoff''" "ok_string ''accepted''"
    "ok_string ''completed''"
    by (simp_all add: ok_string_Cons is_js_space_def)
  ultimately show ?thesis
    using assms by (simp add: parse_agent_graph_def specialist_graph_def parse_graph_edge_def ok_string_check)
qed

text \<open>
  The default manager-to-specialist graph is accepted exactly when the specialist's id does not
  collide with the fixed nodes \<open>manager\<close> and \<open>done\<close>.
\<close>

theorem default_graph_accepted:
  assumes "ok_string manager" and "ok_string specialist"
  shows "defaultManagerSpecialistGraph manager specialist = Inr (specialist_graph manager specialist)
    \<longleftrightarrow> specialist \<noteq> ''manager'' \<and> specialist \<noteq> ''done''"
proof -
  have "well_formed_graph (specialist_graph manager specialist) \<longleftrightarrow> specialist \<noteq> ''manager'' \<and> specialist \<noteq> ''done''"
    by (auto simp: well_formed_graph_def specialist_graph_def)
  then show ?thesis
    using ok_specialist_graph [OF assms] unfolding defaultManagerSpecialistGraph_def specialist_graph_def [symmetric]
    by (simp add: validateAgentGraph_iff)
qed

theorem default_graph_accepted_witness:
  "defaultManagerSpecialistGraph ''m'' ''coder'' = Inr (specialist_graph ''m'' ''coder'')"
  using default_graph_accepted [of "''m''" "''coder''"] by (simp add: ok_string_Cons is_js_space_def)

theorem validateAgentGraph_exact_witness:
  "nextNodeForCondition (specialist_graph ''m'' ''coder'') ''manager'' ''handoff'' = Some ''handoff_coder''"
proof -
  let ?g = "specialist_graph ''m'' ''coder''"
  let ?e = "\<lparr>ge_from = ''manager'', ge_to = ''handoff_coder'', ge_condition = ''handoff''\<rparr>"
  have "parse_agent_graph ?g = Inr ?g" by (rule ok_specialist_graph) (simp_all add: ok_string_Cons is_js_space_def)
  moreover from this have "validateAgentGraph ?g = Inr ?g"
    by (simp add: validateAgentGraph_iff) (simp add: well_formed_graph_def specialist_graph_def)
  ultimately have "validateAgentGraph ?g = Inr ?g \<and> ok_agent_graph ?g \<and> ?e \<in> set (ag_edges ?g)"
    by (simp add: ok_agent_graph_def) (simp add: specialist_graph_def)
  with validateAgentGraph_exact [of ?g ?g ?e] show ?thesis by simp
qed

end
