(* ===== verification/EventedRuntime.thy ===== *)
theory EventedRuntime
  imports MultiAgentStores AgentGraph
begin

text \<open>
  \<open>class EventedV2MultiAgentRuntime\<close> of \<open>loop/src/evented-v2-multi-agent-runtime.ts\<close>: one multi-agent run
  moves along its agent graph by hand-offs and task completions, each an update of the stored run
  under a mutation lease, and mailbox traffic goes through an outbox kept inside the run.

  The injected functions and the clocks are streams read by index: \<open>ee_ids\<close> (the id generator), \<open>ee_now\<close>
  (\<open>nowIso\<close>), \<open>ee_ms\<close> (\<open>Date.now()\<close> of the stores and the lease wait) and \<open>ee_uuid\<close>. \<open>ee_digest\<close> is the
  hexadecimal SHA-256 of the JSON text of a value. \<open>ee_others\<close> is what other workers do to the run store
  during a 5 ms sleep of the lease wait. Entering a node recurses on the JavaScript stack: the model
  throws the engine's \<open>RangeError\<close> when \<open>ee_stack\<close> frames are used up.
\<close>

record ev_env =
  ee_graph :: agent_graph
  ee_ids :: "nat \<Rightarrow> string \<Rightarrow> string"
  ee_now :: "nat \<Rightarrow> instant"
  ee_ms :: "nat \<Rightarrow> int"
  ee_uuid :: "nat \<Rightarrow> string"
  ee_holder :: string
  ee_ttl :: "rat option"
  ee_digest :: "json \<Rightarrow> string"
  ee_others :: "nat \<Rightarrow> ma_store \<Rightarrow> ma_store"
  ee_stack :: nat

type_synonym 'a reader = "nat \<Rightarrow> 'a result \<times> nat"

definition r_return :: "'a \<Rightarrow> 'a reader" where
  "r_return x n = (Inr x, n)"

definition r_throw :: "string \<Rightarrow> 'a reader" where
  "r_throw m n = (throw m, n)"

definition r_lift :: "'a result \<Rightarrow> 'a reader" where
  "r_lift r n = (r, n)"

definition r_bind :: "'a reader \<Rightarrow> ('a \<Rightarrow> 'b reader) \<Rightarrow> 'b reader" where
  "r_bind m f n = (case m n of (Inl e, n') \<Rightarrow> (Inl e, n') | (Inr x, n') \<Rightarrow> f x n')"

definition r_now :: "ev_env \<Rightarrow> instant reader" where
  "r_now env n = (Inr (ee_now env n), n + 1)"

definition r_id :: "ev_env \<Rightarrow> string \<Rightarrow> string reader" where
  "r_id env prefix n = (Inr (ee_ids env n prefix), n + 1)"

lemmas r_defs = r_return_def r_throw_def r_lift_def r_bind_def r_now_def r_id_def

lemma r_bind_Inr: "r_bind m f n = (Inr y, n') \<longleftrightarrow> (\<exists>x k. m n = (Inr x, k) \<and> f x k = (Inr y, n'))"
  by (auto simp: r_bind_def split: prod.splits sum.splits)

section \<open>Entering a node\<close>

definition event_at :: "string \<Rightarrow> ma_event_type \<Rightarrow> string \<Rightarrow> json option \<Rightarrow> instant \<Rightarrow> ma_event" where
  "event_at i t node payload now = \<lparr>me_id = i, me_type = t, me_node = Some node, me_agent = None,
     me_envelope = None, me_payload = payload, me_time = now\<rparr>"

definition enter_terminate :: "ev_env \<Rightarrow> ma_run \<Rightarrow> string \<Rightarrow> instant \<Rightarrow> ma_run reader" where
  "enter_terminate env run node now =
     r_bind (if list_ex (\<lambda>e. me_type e = Run_completed) (ma_events run) then r_return []
             else r_bind (r_id env ''mae'') (\<lambda>i. r_return [event_at i Run_completed node None now])) (\<lambda>es.
     r_lift (parse_ma_run (run\<lparr>ma_status := Ma_completed, ma_active := node, ma_events := ma_events run @ es,
       ma_updated := now\<rparr>)))"

definition queued_agent_run :: "string \<Rightarrow> string \<Rightarrow> string \<Rightarrow> agent_status \<Rightarrow> instant \<Rightarrow> agent_run" where
  "queued_agent_run i agent node s now = \<lparr>ar_id = i, ar_agent = agent, ar_node = node, ar_status = s,
     ar_started = now, ar_updated = now, ar_completed = None, ar_summary = None, ar_error = None,
     ar_artifact = None\<rparr>"

definition active_agent_run :: "string \<Rightarrow> string \<Rightarrow> agent_run \<Rightarrow> bool" where
  "active_agent_run agent node a = (ar_agent a = agent \<and> ar_node a = node
     \<and> (ar_status a = Ag_queued \<or> ar_status a = Ag_running))"

definition enter_agent :: "ev_env \<Rightarrow> ma_run \<Rightarrow> string \<Rightarrow> string \<Rightarrow> instant \<Rightarrow> ma_run reader" where
  "enter_agent env run node agent now =
     r_bind (if list_ex (active_agent_run agent node) (ma_agents run) then r_return (ma_agents run)
             else r_bind (r_id env ''agent_run'') (\<lambda>i.
               r_return (ma_agents run @ [queued_agent_run i agent node Ag_queued now]))) (\<lambda>as.
     r_lift (parse_ma_run (run\<lparr>ma_status := Ma_running, ma_active := node, ma_stack := ma_stack run @ [agent],
       ma_agents := as, ma_updated := now\<rparr>)))"

text \<open>A node the run passes through: started and completed at once.\<close>

definition pass_node :: "ev_env \<Rightarrow> ma_run \<Rightarrow> string \<Rightarrow> json \<Rightarrow> instant \<Rightarrow> ma_run reader" where
  "pass_node env run node payload now = r_bind (r_id env ''mae'') (\<lambda>i. r_bind (r_id env ''mae'') (\<lambda>j.
     r_lift (parse_ma_run (run\<lparr>ma_active := node, ma_events := ma_events run @
       [event_at i Node_started node None now, event_at j Node_completed node (Some payload) now],
       ma_updated := now\<rparr>))))"

definition enter_suspend :: "ev_env \<Rightarrow> ma_run \<Rightarrow> string \<Rightarrow> instant \<Rightarrow> ma_run reader" where
  "enter_suspend env run node now = r_bind (r_id env ''mae'') (\<lambda>i.
     r_lift (parse_ma_run (run\<lparr>ma_status := Ma_suspended, ma_active := node,
       ma_events := ma_events run @ [event_at i Node_started node None now], ma_updated := now\<rparr>)))"

definition join_next :: "agent_graph \<Rightarrow> ma_run \<Rightarrow> string \<Rightarrow> string list \<Rightarrow> string option" where
  "join_next g run node branches =
     (if list_all (\<lambda>b. map_of (ma_branches run) b = Some Br_completed) branches
      then (case nextNodeForCondition g node ''completed'' of
          None \<Rightarrow> nextNodeForCondition g node ''joined'' | Some t \<Rightarrow> Some t)
      else None)"

definition retry_attempts :: "ma_run \<Rightarrow> string \<Rightarrow> nat" where
  "retry_attempts run node = get_or 0 (ma_retries run) node + 1"

definition retry_condition :: "nat \<Rightarrow> nat \<Rightarrow> string" where
  "retry_condition n limit = (if n \<le> limit then ''retry'' else ''exhausted'')"

definition retry_payload :: "nat \<Rightarrow> nat \<Rightarrow> json" where
  "retry_payload n limit = JObj [(''condition'', JStr (retry_condition n limit)),
     (''attempts'', JNum (of_nat n)), (''maxAttempts'', JNum (of_nat limit))]"

fun enter_node :: "ev_env \<Rightarrow> nat \<Rightarrow> ma_run \<Rightarrow> string \<Rightarrow> ma_run reader" where
  "enter_node env 0 run i = r_throw ''Maximum call stack size exceeded''"
| "enter_node env (Suc k) run i = r_bind (r_lift (requireGraphNode (ee_graph env) i)) (\<lambda>node.
     r_bind (r_now env) (\<lambda>now. (case node of
       Terminate_node t \<Rightarrow> enter_terminate env run t now
     | Agent_node t agent _ _ _ \<Rightarrow> enter_agent env run t agent now
     | Join_node t branches \<Rightarrow> (case join_next (ee_graph env) run t branches of
           None \<Rightarrow> enter_suspend env run t now
         | Some nxt \<Rightarrow> r_bind (pass_node env run t (JObj [(''condition'', JStr ''completed'')]) now)
             (\<lambda>run'. enter_node env k run' nxt))
     | Retry_node t limit \<Rightarrow> (let n = retry_attempts run t in
         case nextNodeForCondition (ee_graph env) t (retry_condition n limit) of
           None \<Rightarrow> enter_suspend env run t now
         | Some nxt \<Rightarrow> r_bind (pass_node env (run\<lparr>ma_retries := AList.update t n (ma_retries run)\<rparr>) t
               (retry_payload n limit) now)
             (\<lambda>run'. enter_node env k run' nxt))
     | _ \<Rightarrow> enter_suspend env run (gn_id node) now)))"

definition enterGraphNode :: "ev_env \<Rightarrow> ma_run \<Rightarrow> string \<Rightarrow> ma_run reader" where
  "enterGraphNode env run i = enter_node env (ee_stack env) run i"

section \<open>Starting a run\<close>

record start_input =
  si_thread :: string
  si_turn :: string
  si_workspace :: string
  si_prompt :: string

definition start_run :: "ev_env \<Rightarrow> start_input \<Rightarrow> ma_run reader" where
  "start_run env inp = r_bind (r_now env) (\<lambda>now.
     r_bind (r_lift (requireGraphNode (ee_graph env) (ag_start (ee_graph env)))) (\<lambda>node. (case node of
       Agent_node t agent _ _ _ \<Rightarrow>
         r_bind (r_id env ''mar'') (\<lambda>i. r_bind (r_id env ''agent_run'') (\<lambda>a. r_bind (r_id env ''mae'') (\<lambda>e.
         r_lift (parse_ma_run \<lparr>ma_id = i, ma_thread = si_thread inp, ma_turn = si_turn inp,
           ma_workspace = si_workspace inp, ma_status = Ma_running, ma_graph = ag_id (ee_graph env),
           ma_active = t, ma_stack = [agent], ma_branches = [],
           ma_agents = [queued_agent_run a agent t Ag_running now],
           ma_events = [(event_at e Run_started t (Some (JObj [(''prompt'', JStr (si_prompt inp))])) now)
             \<lparr>me_agent := Some agent\<rparr>],
           ma_outbox = [], ma_retries = [],
           ma_budgets = \<lparr>stepsUsed = 0, toolCallsUsed = 0, inputTokens = 0, outputTokens = 0, costUsd = 0\<rparr>,
           ma_created = now, ma_updated = now\<rparr>))))
     | _ \<Rightarrow> r_throw (''AgentGraph start node must be agent: '' @ gn_id node))))"

section \<open>Hand-offs\<close>

record handoff_input =
  hi_run :: string
  hi_source :: string
  hi_target :: string
  hi_prompt :: string

definition handoffIdempotencyKey :: "ev_env \<Rightarrow> ma_run \<Rightarrow> handoff_input \<Rightarrow> string" where
  "handoffIdempotencyKey env run inp = take 32 (ee_digest env (JArr [JStr (ma_graph run), JStr (ma_id run),
     JStr (hi_source inp), JStr (hi_target inp), JStr (hi_prompt inp)]))"

text \<open>\<open>envelopeId.replace(/^env_/, '')\<close>.\<close>

definition strip_env :: "string \<Rightarrow> string" where
  "strip_env s = (if starts_with s ''env_'' then drop 4 s else s)"

record task_envelope =
  te_id :: string
  te_source :: string
  te_target :: string
  te_thread :: string
  te_turn :: string
  te_parent :: string
  te_payload :: obj
  te_created :: instant

definition parse_envelope :: "task_envelope \<Rightarrow> task_envelope result" where
  "parse_envelope t = bind_result (check_nonempty (te_id t)) (\<lambda>i.
     bind_result (check_nonempty (te_source t)) (\<lambda>s. bind_result (check_nonempty (te_target t)) (\<lambda>g.
     bind_result (check_nonempty (te_thread t)) (\<lambda>th. bind_result (check_nonempty (te_turn t)) (\<lambda>tu.
     bind_result (check_nonempty (te_parent t)) (\<lambda>p. bind_result (check_prompt (te_payload t)) (\<lambda>pl.
     Inr \<lparr>te_id = i, te_source = s, te_target = g, te_thread = th, te_turn = tu, te_parent = p,
       te_payload = pl, te_created = te_created t\<rparr>)))))))"

definition createHandoffMessage :: "ev_env \<Rightarrow> ma_run \<Rightarrow> handoff_input \<Rightarrow> string \<Rightarrow> mailbox_message reader" where
  "createHandoffMessage env run inp envelope = r_bind (r_now env) (\<lambda>now.
     r_bind (r_lift (parse_envelope \<lparr>te_id = envelope, te_source = hi_source inp, te_target = hi_target inp,
       te_thread = ma_thread run, te_turn = ma_turn run, te_parent = ma_id run,
       te_payload = [(''prompt'', JStr (hi_prompt inp))], te_created = now\<rparr>)) (\<lambda>t.
     r_lift (parse_message \<lparr>mm_id = ''msg_'' @ strip_env envelope, mm_envelope = te_id t, mm_run = ma_id run,
       mm_from = hi_source inp, mm_to = hi_target inp, mm_status = Msg_queued, mm_claim = None,
       mm_payload = te_payload t, mm_created = now, mm_updated = now\<rparr>)))"

definition is_handoff_intent :: "string \<Rightarrow> outbox_intent \<Rightarrow> bool" where
  "is_handoff_intent envelope x = (case oi_kind x of
      Mailbox_enqueue m \<Rightarrow> mm_envelope m = envelope | Mailbox_complete _ _ _ \<Rightarrow> False)"

definition pending_intent :: "string \<Rightarrow> outbox_kind \<Rightarrow> instant \<Rightarrow> outbox_intent" where
  "pending_intent i k now = \<lparr>oi_id = i, oi_kind = k, oi_status = Out_pending, oi_created = now,
     oi_updated = now, oi_published = None\<rparr>"

definition ensureHandoffOutboxIntent :: "ev_env \<Rightarrow> ma_run \<Rightarrow> handoff_input \<Rightarrow> string \<Rightarrow> ma_run reader" where
  "ensureHandoffOutboxIntent env run inp envelope =
     (if list_ex (is_handoff_intent envelope) (ma_outbox run) then r_lift (parse_ma_run run)
      else r_bind (r_now env) (\<lambda>now. r_bind (createHandoffMessage env run inp envelope) (\<lambda>m.
        r_lift (parse_ma_run (run\<lparr>ma_outbox := ma_outbox run @
          [pending_intent (''outbox_'' @ strip_env envelope) (Mailbox_enqueue m) now], ma_updated := now\<rparr>)))))"

definition event_matches :: "ma_event_type \<Rightarrow> string \<Rightarrow> string \<Rightarrow> string \<Rightarrow> ma_event \<Rightarrow> bool" where
  "event_matches t node agent envelope e = (me_type e = t \<and> me_node e = Some node \<and> me_agent e = Some agent
     \<and> me_envelope e = Some envelope)"

definition delivered_event :: "string \<Rightarrow> string \<Rightarrow> ma_event \<Rightarrow> bool" where
  "delivered_event agent envelope e = (me_type e = Handoff_delivered \<and> me_agent e = Some agent
     \<and> me_envelope e = Some envelope)"

definition handoff_event :: "string \<Rightarrow> ma_event_type \<Rightarrow> string \<Rightarrow> string \<Rightarrow> string \<Rightarrow> instant \<Rightarrow> ma_event" where
  "handoff_event i t node agent envelope now = \<lparr>me_id = i, me_type = t, me_node = Some node,
     me_agent = Some agent, me_envelope = Some envelope, me_payload = None, me_time = now\<rparr>"

text \<open>The new event, unless an event of the same kind for the same envelope is logged already.\<close>

definition once_event :: "ev_env \<Rightarrow> ma_run \<Rightarrow> ma_event_type \<Rightarrow> string \<Rightarrow> string \<Rightarrow> string \<Rightarrow> instant
    \<Rightarrow> ma_event list reader" where
  "once_event env run t node agent envelope now =
     (if list_ex (event_matches t node agent envelope) (ma_events run) then r_return []
      else r_bind (r_id env ''mae'') (\<lambda>i. r_return [handoff_event i t node agent envelope now]))"

text \<open>The checks of a hand-off: the handoff node and the target node and agent it leads to.\<close>

definition handoff_route :: "agent_graph \<Rightarrow> graph_node \<Rightarrow> string option \<Rightarrow> handoff_input
    \<Rightarrow> (string \<times> string) result" where
  "handoff_route g active stackTop inp = (case active of
     Agent_node a agent _ _ _ \<Rightarrow>
       if agent \<noteq> hi_source inp
       then throw (''Handoff source mismatch: '' @ agent @ '' !== '' @ hi_source inp)
       else if stackTop \<noteq> Some (hi_source inp)
       then throw (''Handoff source stack mismatch: '' @ (case stackTop of None \<Rightarrow> ''<empty>'' | Some x \<Rightarrow> x)
              @ '' !== '' @ hi_source inp)
       else (case nextNodeForCondition g a ''handoff'' of
         None \<Rightarrow> throw (''No handoff edge from node: '' @ a)
       | Some h \<Rightarrow> bind_result (requireGraphNode g h) (\<lambda>hn. (case hn of
           Handoff_node hid target \<Rightarrow>
             if target \<noteq> hi_target inp
             then throw (''Handoff target mismatch: '' @ target @ '' !== '' @ hi_target inp)
             else (case nextNodeForCondition g hid ''accepted'' of
               None \<Rightarrow> throw (''No accepted edge from handoff node: '' @ hid)
             | Some t \<Rightarrow> bind_result (requireGraphNode g t) (\<lambda>tn. (case tn of
                 Agent_node tid tagent _ _ _ \<Rightarrow>
                   if tagent \<noteq> hi_target inp
                   then throw (''Handoff accepted target mismatch: '' @ tagent @ '' !== '' @ hi_target inp)
                   else Inr (hid, tid)
               | _ \<Rightarrow> throw (''Handoff target node must be agent: '' @ t))))
         | _ \<Rightarrow> throw (''Expected handoff node: '' @ h))))
   | _ \<Rightarrow> throw (''Handoff active node must be agent: '' @ gn_id active))"

definition already_handed :: "ma_run \<Rightarrow> graph_node \<Rightarrow> handoff_input \<Rightarrow> string \<Rightarrow> bool" where
  "already_handed run active inp envelope = ((case active of
       Agent_node _ agent _ _ _ \<Rightarrow> agent = hi_target inp | _ \<Rightarrow> False)
     \<and> last_opt (ma_stack run) = Some (hi_target inp)
     \<and> list_ex (delivered_event (hi_target inp) envelope) (ma_events run))"

definition deliver_handoff :: "ev_env \<Rightarrow> ma_run \<Rightarrow> handoff_input \<Rightarrow> string \<Rightarrow> string \<times> string \<Rightarrow> ma_run reader" where
  "deliver_handoff env run inp envelope hop = (case hop of (hid, tid) \<Rightarrow>
     r_bind (r_now env) (\<lambda>now.
     r_bind (if list_ex (\<lambda>a. ar_agent a = hi_target inp \<and> ar_node a = tid) (ma_agents run)
             then r_return (ma_agents run)
             else r_bind (r_id env ''agent_run'') (\<lambda>i.
               r_return (ma_agents run @ [queued_agent_run i (hi_target inp) tid Ag_queued now]))) (\<lambda>as.
     r_bind (once_event env run Handoff_requested hid (hi_source inp) envelope now) (\<lambda>es.
     r_bind (once_event env run Handoff_delivered tid (hi_target inp) envelope now) (\<lambda>fs.
     r_bind (r_lift (parse_ma_run (run\<lparr>ma_active := tid, ma_stack := ma_stack run @ [hi_target inp],
       ma_agents := as, ma_events := ma_events run @ es @ fs, ma_updated := now\<rparr>))) (\<lambda>nxt.
     ensureHandoffOutboxIntent env nxt inp envelope))))))"

definition applyHandoff :: "ev_env \<Rightarrow> handoff_input \<Rightarrow> ma_run \<Rightarrow> ma_run reader" where
  "applyHandoff env inp run =
     (if ma_graph run \<noteq> ag_id (ee_graph env)
      then r_throw (''MultiAgentRun graph mismatch: '' @ ma_graph run @ '' !== '' @ ag_id (ee_graph env))
      else let envelope = ''env_'' @ handoffIdempotencyKey env run inp in
        r_bind (r_lift (requireGraphNode (ee_graph env) (ma_active run))) (\<lambda>active.
          if already_handed run active inp envelope
          then r_bind (r_lift (parse_ma_run run)) (\<lambda>run'. ensureHandoffOutboxIntent env run' inp envelope)
          else r_bind (r_lift (handoff_route (ee_graph env) active (last_opt (ma_stack run)) inp))
            (deliver_handoff env run inp envelope)))"

section \<open>Completing tasks and nodes\<close>

definition final_of_condition :: "string \<Rightarrow> final_status" where
  "final_of_condition c = (if c = ''failed'' then Done_failed else if c = ''aborted'' then Done_aborted
     else Done_completed)"

fun agent_status_of :: "final_status \<Rightarrow> agent_status" where
  "agent_status_of Done_completed = Ag_completed"
| "agent_status_of Done_failed = Ag_failed"
| "agent_status_of Done_aborted = Ag_aborted"

text \<open>\<open>latestAgentRunIndex\<close>: scanning from the end.\<close>

definition latestAgentRunIndex :: "ma_run \<Rightarrow> string \<Rightarrow> string \<Rightarrow> nat result" where
  "latestAgentRunIndex run agent node =
     (case find_index (\<lambda>a. ar_agent a = agent \<and> ar_node a = node) (rev (ma_agents run)) of
        None \<Rightarrow> throw (''AgentRun not found for completion: '' @ agent @ ''/'' @ node)
      | Some k \<Rightarrow> Inr (length (ma_agents run) - 1 - k))"

fun final_name :: "final_status \<Rightarrow> string" where
  "final_name Done_completed = ''completed''"
| "final_name Done_failed = ''failed''"
| "final_name Done_aborted = ''aborted''"

fun mime_name :: "mime_type \<Rightarrow> string" where
  "mime_name Text_plain = ''text/plain''"
| "mime_name Text_markdown = ''text/markdown''"
| "mime_name Application_json = ''application/json''"
| "mime_name Application_octet_stream = ''application/octet-stream''"

definition artifact_json :: "a2a_artifact \<Rightarrow> json" where
  "artifact_json a = JObj ([(''id'', JStr (aa_id a)), (''mimeType'', JStr (mime_name (aa_mime a)))]
     @ opt_field ''label'' JStr (aa_label a) @ opt_field ''text'' JStr (aa_text a)
     @ opt_field ''data'' JStr (aa_data a)
     @ [(''tags'', JArr (map JStr (aa_tags a))), (''isError'', JBool (aa_isError a))])"

definition peer_artifact_json :: "peer_artifact \<Rightarrow> json" where
  "peer_artifact_json p = JObj ([(''peerCardId'', JStr (pa_card p)), (''status'', JStr (final_name (pa_status p)))]
     @ opt_field ''summary'' JStr (pa_summary p) @ opt_field ''error'' JStr (pa_error p)
     @ opt_field ''artifacts'' (\<lambda>as. JArr (map artifact_json as)) (pa_artifacts p))"

record mailbox_completion =
  mc_message :: string
  mc_status :: final_status
  mc_fence :: "claim_lease option"

record completion_input =
  ci_run :: string
  ci_agent :: string
  ci_condition :: "string option"
  ci_status :: "final_status option"
  ci_summary :: "string option"
  ci_error :: "string option"
  ci_artifact :: "peer_artifact option"
  ci_mailbox :: "mailbox_completion option"

definition is_complete_intent :: "string \<Rightarrow> outbox_intent \<Rightarrow> bool" where
  "is_complete_intent i x = (case oi_kind x of Mailbox_complete j _ _ \<Rightarrow> j = i | Mailbox_enqueue _ \<Rightarrow> False)"

definition ensureMailboxCompleteOutboxIntent :: "ev_env \<Rightarrow> ma_run \<Rightarrow> mailbox_completion \<Rightarrow> ma_run reader" where
  "ensureMailboxCompleteOutboxIntent env run c =
     (if list_ex (is_complete_intent (mc_message c)) (ma_outbox run) then r_lift (parse_ma_run run)
      else r_bind (r_now env) (\<lambda>now. r_lift (parse_ma_run (run\<lparr>ma_outbox := ma_outbox run @
        [pending_intent (''outbox_complete_'' @ mc_message c)
          (Mailbox_complete (mc_message c) (mc_status c) (mc_fence c)) now], ma_updated := now\<rparr>))))"

definition finish_agent_run :: "completion_input \<Rightarrow> final_status \<Rightarrow> instant \<Rightarrow> agent_run \<Rightarrow> agent_run" where
  "finish_agent_run inp s now a = a\<lparr>ar_status := agent_status_of s,
     ar_summary := (case ci_summary inp of None \<Rightarrow> ar_summary a | Some x \<Rightarrow> Some x),
     ar_error := (case ci_error inp of None \<Rightarrow> ar_error a | Some x \<Rightarrow> Some x),
     ar_artifact := (case ci_artifact inp of None \<Rightarrow> ar_artifact a | Some x \<Rightarrow> Some x),
     ar_completed := Some (case ar_completed a of None \<Rightarrow> now | Some x \<Rightarrow> x), ar_updated := now\<rparr>"

text \<open>The event's payload; an absent summary is an \<open>undefined\<close> property there, absent in JSON.\<close>

definition completion_payload :: "completion_input \<Rightarrow> string \<Rightarrow> json" where
  "completion_payload inp condition = JObj ([(''condition'', JStr condition)]
     @ opt_field ''summary'' JStr (ci_summary inp) @ opt_field ''error'' JStr (ci_error inp)
     @ opt_field ''peerArtifact'' peer_artifact_json (ci_artifact inp)
     @ opt_field ''messageId'' (\<lambda>c. JStr (mc_message c)) (ci_mailbox inp))"

definition apply_completion :: "ev_env \<Rightarrow> completion_input \<Rightarrow> ma_run \<Rightarrow> ma_run reader" where
  "apply_completion env inp run =
     r_bind (r_lift (requireGraphNode (ee_graph env) (ma_active run))) (\<lambda>active. (case active of
       Agent_node a agent _ _ _ \<Rightarrow>
         if agent \<noteq> ci_agent inp
         then r_throw (''Agent task completion mismatch: '' @ agent @ '' !== '' @ ci_agent inp)
         else r_bind (r_now env) (\<lambda>now.
           let condition = (case ci_condition inp of None \<Rightarrow> ''completed'' | Some c \<Rightarrow> c);
               s = (case ci_status inp of None \<Rightarrow> final_of_condition condition | Some x \<Rightarrow> x)
           in (case nextNodeForCondition (ee_graph env) a condition of
             None \<Rightarrow> r_throw (''No '' @ condition @ '' edge from node: '' @ a)
           | Some nxt \<Rightarrow> r_bind (r_lift (latestAgentRunIndex run (ci_agent inp) a)) (\<lambda>k.
               r_bind (r_id env ''mae'') (\<lambda>e.
               r_bind (r_lift (parse_ma_run (run\<lparr>
                 ma_agents := (ma_agents run)[k := finish_agent_run inp s now (ma_agents run ! k)],
                 ma_events := ma_events run @ [(event_at e Node_completed a
                     (Some (completion_payload inp condition)) now)\<lparr>me_agent := Some (ci_agent inp)\<rparr>],
                 ma_updated := now\<rparr>))) (\<lambda>run'.
               r_bind (enterGraphNode env run' nxt) (\<lambda>run''. (case ci_mailbox inp of
                   None \<Rightarrow> r_return run''
                 | Some c \<Rightarrow> ensureMailboxCompleteOutboxIntent env run'' c)))))))
     | _ \<Rightarrow> r_throw (''Active node must be agent to complete task: '' @ gn_id active)))"

record external_input =
  xi_run :: string
  xi_node :: string
  xi_condition :: string
  xi_payload :: obj

fun externally_completable :: "graph_node \<Rightarrow> bool" where
  "externally_completable (Wait_node _ _) = True"
| "externally_completable (Tool_node _ _) = True"
| "externally_completable (Judge_node _ _) = True"
| "externally_completable _ = False"

text \<open>\<open>{ condition, ...payload }\<close>: later properties win.\<close>

definition spread :: "obj \<Rightarrow> obj \<Rightarrow> obj" where
  "spread a b = fold (\<lambda>kv m. AList.update (fst kv) (snd kv) m) b a"

definition apply_external :: "ev_env \<Rightarrow> external_input \<Rightarrow> ma_run \<Rightarrow> ma_run reader" where
  "apply_external env inp run =
     r_bind (r_lift (requireGraphNode (ee_graph env) (ma_active run))) (\<lambda>active.
       if gn_id active \<noteq> xi_node inp
       then r_throw (''External node completion mismatch: '' @ gn_id active @ '' !== '' @ xi_node inp)
       else if \<not> externally_completable active
       then r_throw (''Active node is not externally completable: '' @ gn_id active)
       else (case nextNodeForCondition (ee_graph env) (gn_id active) (xi_condition inp) of
           None \<Rightarrow> r_throw (''No '' @ xi_condition inp @ '' edge from node: '' @ gn_id active)
         | Some nxt \<Rightarrow> r_bind (r_now env) (\<lambda>now. r_bind (r_id env ''mae'') (\<lambda>e.
             r_bind (r_lift (parse_ma_run (run\<lparr>ma_events := ma_events run @ [event_at e Node_completed (gn_id active)
                 (Some (JObj (spread [(''condition'', JStr (xi_condition inp))] (xi_payload inp)))) now],
               ma_updated := now\<rparr>))) (\<lambda>run'. enterGraphNode env run' nxt)))))"

definition markOutboxPublished :: "ev_env \<Rightarrow> string \<Rightarrow> ma_run \<Rightarrow> ma_run reader" where
  "markOutboxPublished env i run = r_bind (r_now env) (\<lambda>now.
     r_lift (parse_ma_run (run\<lparr>ma_outbox := map_when (\<lambda>x. oi_id x = i)
       (\<lambda>x. x\<lparr>oi_status := Out_published, oi_updated := now,
          oi_published := Some (case oi_published x of None \<Rightarrow> now | Some t \<Rightarrow> t)\<rparr>) (ma_outbox run),
       ma_updated := now\<rparr>)))"

end
