(* ===== verification/EventedProps.thy ===== *)
theory EventedProps
  imports EventedRuntime
begin

text \<open>
  What the run updates of \<open>EventedRuntime\<close> guarantee: a hand-off applied twice is applied once, the
  history of a run only grows, a completion marks one agent run, and entering a node ends unless joins
  or retries form a cycle (for which there is a counterexample that validation accepts).
\<close>

section \<open>Checked updates\<close>

text \<open>The parts of a run a check leaves as they were when they were well-formed before.\<close>

lemma parse_ma_run_parts:
  assumes "parse_ma_run r = Inr s"
  shows "map_result parse_ma_event (ma_events r) = Inr (ma_events s)"
    and "map_result parse_agent_run (ma_agents r) = Inr (ma_agents s)"
    and "map_result parse_intent_of (ma_outbox r) = Inr (ma_outbox s)"
    and "map_result check_nonempty (ma_stack r) = Inr (ma_stack s)"
    and "check_nonempty (ma_active r) = Inr (ma_active s)" and "check_nonempty (ma_id r) = Inr (ma_id s)"
    and "check_nonempty (ma_graph r) = Inr (ma_graph s)"
    and "check_dict check_count (ma_retries r) = Inr (ma_retries s)"
    and "ma_status s = ma_status r" and "ma_created s = ma_created r" and "ma_updated s = ma_updated r"
    and "check_nonempty (ma_thread r) = Inr (ma_thread s)" and "check_nonempty (ma_turn r) = Inr (ma_turn s)"
  using assms unfolding parse_ma_run_def result_simps by auto

lemma map_result_append_ok:
  assumes "map_result p (xs @ ys) = Inr zs" and "map_result p xs = Inr xs"
  shows "\<exists>ws. map_result p ys = Inr ws \<and> zs = xs @ ws"
  using assms by (auto simp: map_result_append result_simps)

lemma ok_ma_run_lists:
  assumes "ok_ma_run r"
  shows "map_result parse_ma_event (ma_events r) = Inr (ma_events r)"
    and "map_result parse_agent_run (ma_agents r) = Inr (ma_agents r)"
    and "map_result parse_intent_of (ma_outbox r) = Inr (ma_outbox r)"
    and "map_result check_nonempty (ma_stack r) = Inr (ma_stack r)"
    and "check_nonempty (ma_active r) = Inr (ma_active r)" and "check_nonempty (ma_id r) = Inr (ma_id r)"
    and "check_nonempty (ma_graph r) = Inr (ma_graph r)"
    and "check_nonempty (ma_thread r) = Inr (ma_thread r)" and "check_nonempty (ma_turn r) = Inr (ma_turn r)"
  using assms by (auto simp: ok_ma_run_def ma_lists_accepts names_accepts ok_string_check)

text \<open>
  A run that continues another: same run, the logs extended, new outbox intents still pending.
\<close>

definition continues :: "ma_run \<Rightarrow> ma_run \<Rightarrow> bool" where
  "continues r s = (ok_ma_run s \<and> ma_id s = ma_id r \<and> ma_graph s = ma_graph r
     \<and> ma_thread s = ma_thread r \<and> ma_turn s = ma_turn r \<and> ma_created s = ma_created r
     \<and> (\<exists>es. ma_events s = ma_events r @ es) \<and> (\<exists>xs. ma_outbox s = ma_outbox r @ xs \<and> list_all pending xs)
     \<and> length (ma_agents r) \<le> length (ma_agents s))"

lemma continues_trans: "continues r s \<Longrightarrow> continues s t \<Longrightarrow> continues r t"
  by (auto simp: continues_def)

lemma parsed_pending: "map_result parse_intent_of xs = Inr ys \<Longrightarrow> list_all pending xs \<Longrightarrow> list_all pending ys"
  by (induction xs arbitrary: ys) (auto simp: result_simps parse_intent_of_def pending_def)

lemma continues_checked:
  assumes "parse_ma_run r' = Inr s" and "ok_ma_run r"
    and "ma_events r' = ma_events r @ es" and "ma_outbox r' = ma_outbox r @ xs"
    and "length (ma_agents r) \<le> length (ma_agents r')"
    and "ma_id r' = ma_id r" and "ma_graph r' = ma_graph r" and "ma_thread r' = ma_thread r"
    and "ma_turn r' = ma_turn r" and "ma_created r' = ma_created r"
    and "list_all pending xs"
  shows "continues r s"
proof -
  note p = parse_ma_run_parts [OF assms(1)]
  note k = ok_ma_run_lists [OF assms(2)]
  have "\<exists>es. ma_events s = ma_events r @ es"
    using map_result_append_ok [OF p(1) [unfolded assms(3)] k(1)] by auto
  moreover have "\<exists>ws. ma_outbox s = ma_outbox r @ ws \<and> list_all pending ws"
    using map_result_append_ok [OF p(3) [unfolded assms(4)] k(3)] parsed_pending assms(11) by auto
  moreover have "length (ma_agents s) = length (ma_agents r')" using map_result_length [OF p(2)] .
  ultimately show ?thesis
    using p k assms(5-10) parse_ma_run_ok [OF assms(1)] by (simp add: continues_def)
qed

text \<open>A run that moved on without touching its agent runs.\<close>

definition grows :: "ma_run \<Rightarrow> ma_run \<Rightarrow> bool" where
  "grows r s = (continues r s \<and> (\<exists>as. ma_agents s = ma_agents r @ as))"

lemma grows_trans: "grows r s \<Longrightarrow> grows s t \<Longrightarrow> grows r t"
  using continues_trans by (fastforce simp: grows_def)

lemma grows_continues: "grows r s \<Longrightarrow> continues r s"
  by (simp add: grows_def)

lemma grows_checked:
  assumes "parse_ma_run r' = Inr s" and "ok_ma_run r"
    and "ma_events r' = ma_events r @ es" and "ma_outbox r' = ma_outbox r @ xs" and "ma_agents r' = ma_agents r @ as"
    and "ma_id r' = ma_id r" and "ma_graph r' = ma_graph r" and "ma_thread r' = ma_thread r"
    and "ma_turn r' = ma_turn r" and "ma_created r' = ma_created r" and "list_all pending xs"
  shows "grows r s"
  using continues_checked [OF assms(1-4) _ assms(6-11)] assms(5)
    map_result_append_ok [OF parse_ma_run_parts(2) [OF assms(1), unfolded assms(5)] ok_ma_run_lists(2) [OF assms(2)]]
  by (auto simp: grows_def)

lemma continues_refl: "ok_ma_run r \<Longrightarrow> continues r r"
  by (simp add: continues_def)

lemma continues_ok: "continues r s \<Longrightarrow> ok_ma_run s"
  by (simp add: continues_def)

lemma r_lift_Inr: "r_lift x n = (Inr y, n') \<longleftrightarrow> x = Inr y \<and> n' = n"
  by (auto simp: r_lift_def)

lemma r_return_Inr: "r_return x n = (Inr y, n') \<longleftrightarrow> y = x \<and> n' = n"
  by (auto simp: r_return_def)

lemma r_throw_Inr: "r_throw m n = (Inr y, n') \<longleftrightarrow> False"
  by (simp add: r_throw_def)

lemma r_now_Inr: "r_now env n = (Inr y, n') \<longleftrightarrow> y = ee_now env n \<and> n' = n + 1"
  by (auto simp: r_now_def)

lemma r_id_Inr: "r_id env p n = (Inr y, n') \<longleftrightarrow> y = ee_ids env n p \<and> n' = n + 1"
  by (auto simp: r_id_def)

lemmas reader_simps = r_bind_Inr r_lift_Inr r_return_Inr r_throw_Inr r_now_Inr r_id_Inr

section \<open>Entering a node\<close>

lemma enter_terminate_grows:
  assumes "enter_terminate env r t now n = (Inr s, n')" and "ok_ma_run r"
  shows "grows r s \<and> ma_active s = trim t \<and> ma_status s = Ma_completed"
proof -
  obtain es where p: "parse_ma_run (r\<lparr>ma_status := Ma_completed, ma_active := t, ma_events := ma_events r @ es,
      ma_updated := now\<rparr>) = Inr s"
    using assms(1) by (auto simp: enter_terminate_def reader_simps)
  show ?thesis
    using grows_checked [OF p assms(2), of es "[]" "[]"] parse_ma_run_parts [OF p] by (simp add: check_nonempty_iff)
qed

lemma enter_agent_grows:
  assumes "enter_agent env r t agent now n = (Inr s, n')" and "ok_ma_run r"
  shows "grows r s \<and> ma_active s = trim t \<and> ma_status s = Ma_running"
proof -
  obtain as where p: "parse_ma_run (r\<lparr>ma_status := Ma_running, ma_active := t, ma_stack := ma_stack r @ [agent],
       ma_agents := ma_agents r @ as, ma_updated := now\<rparr>) = Inr s"
    using assms(1) that [of "[]"] that
    by (cases "list_ex (active_agent_run agent t) (ma_agents r)") (fastforce simp: enter_agent_def reader_simps)+
  show ?thesis
    using grows_checked [OF p(1) assms(2), of "[]" "[]" as] parse_ma_run_parts [OF p(1)]
    by (simp add: check_nonempty_iff)
qed

lemma enter_suspend_grows:
  assumes "enter_suspend env r t now n = (Inr s, n')" and "ok_ma_run r"
  shows "grows r s \<and> ma_active s = trim t \<and> ma_status s = Ma_suspended"
proof -
  obtain e where p: "parse_ma_run (r\<lparr>ma_status := Ma_suspended, ma_active := t,
       ma_events := ma_events r @ [e], ma_updated := now\<rparr>) = Inr s"
    using assms(1) by (auto simp: enter_suspend_def reader_simps)
  show ?thesis
    using grows_checked [OF p assms(2), of "[e]" "[]" "[]"] parse_ma_run_parts [OF p] by (simp add: check_nonempty_iff)
qed

lemma pass_node_grows:
  assumes "pass_node env (r\<lparr>ma_retries := m\<rparr>) t pl now n = (Inr s, n')" and "ok_ma_run r"
  shows "grows r s \<and> ma_active s = trim t"
proof -
  obtain es where p: "parse_ma_run (r\<lparr>ma_retries := m, ma_active := t, ma_events := ma_events r @ es,
       ma_updated := now\<rparr>) = Inr s"
    using assms(1) by (auto simp: pass_node_def reader_simps)
  show ?thesis
    using grows_checked [OF p assms(2), of es "[]" "[]"] parse_ma_run_parts [OF p] by (simp add: check_nonempty_iff)
qed

lemma requireGraphNode_Inr: "requireGraphNode g i = Inr n \<Longrightarrow> gn_id n = i \<and> n \<in> set (ag_nodes g)"
  by (auto simp: requireGraphNode_def find_Some_iff split: option.splits)

lemma enter_node_grows:
  "enter_node env k r i n = (Inr s, n') \<Longrightarrow> ok_ma_run r \<Longrightarrow> grows r s"
proof (induction k arbitrary: r i n)
  case 0
  then show ?case by (simp add: r_throw_Inr)
next
  case (Suc k)
  from Suc.prems(1) obtain node now n1 where node: "requireGraphNode (ee_graph env) i = Inr node"
    and rest: "(case node of
       Terminate_node t \<Rightarrow> enter_terminate env r t now
     | Agent_node t agent _ _ _ \<Rightarrow> enter_agent env r t agent now
     | Join_node t branches \<Rightarrow> (case join_next (ee_graph env) r t branches of
           None \<Rightarrow> enter_suspend env r t now
         | Some nxt \<Rightarrow> r_bind (pass_node env r t (JObj [(''condition'', JStr ''completed'')]) now)
             (\<lambda>run'. enter_node env k run' nxt))
     | Retry_node t limit \<Rightarrow> (let n = retry_attempts r t in
         case nextNodeForCondition (ee_graph env) t (retry_condition n limit) of
           None \<Rightarrow> enter_suspend env r t now
         | Some nxt \<Rightarrow> r_bind (pass_node env (r\<lparr>ma_retries := AList.update t n (ma_retries r)\<rparr>) t
               (retry_payload n limit) now)
             (\<lambda>run'. enter_node env k run' nxt))
     | _ \<Rightarrow> enter_suspend env r (gn_id node) now) n1 = (Inr s, n')"
    by (auto simp: reader_simps)
  have pass: "grows r s" if "pass_node env r' t pl now n1 = (Inr u, n2)" "enter_node env k u nxt n2 = (Inr s, n')"
    "r' = ma_retries_update (\<lambda>_. m) r" for r' t pl u n2 nxt and m :: "(string, nat) jsmap"
  proof -
    have u: "grows r u" using pass_node_grows [OF that(1) [unfolded that(3)] Suc.prems(2)] by simp
    with Suc.IH [OF that(2)] continues_ok grows_continues have "grows u s" by blast
    with u grows_trans show ?thesis by blast
  qed
  show ?case
  proof (cases node)
    case (Join_node t bs)
    then show ?thesis
      using rest enter_suspend_grows [OF _ Suc.prems(2)] pass [where m = "ma_retries r"]
      by (auto simp: reader_simps split: option.splits)
  next
    case (Retry_node t lim)
    then show ?thesis
      using rest enter_suspend_grows [OF _ Suc.prems(2)] pass
      by (auto simp: reader_simps Let_def split: option.splits)
  qed (use rest enter_terminate_grows [OF _ Suc.prems(2)] enter_agent_grows [OF _ Suc.prems(2)]
      enter_suspend_grows [OF _ Suc.prems(2)] in auto)
qed

section \<open>The run updates continue the run\<close>

lemma map_result_mem: "map_result p xs = Inr ys \<Longrightarrow> x \<in> set xs \<Longrightarrow> \<exists>y \<in> set ys. p x = Inr y"
  by (induction xs arbitrary: ys) (auto simp: result_simps)

lemma ok_graph_node: "ok_agent_graph g \<Longrightarrow> n \<in> set (ag_nodes g) \<Longrightarrow> parse_graph_node n = Inr n"
  by (auto simp: ok_agent_graph_def parse_agent_graph_def result_simps map_result_all2 list_all2_same
      split: if_splits)

lemma pending_intent_pending [simp]: "pending (pending_intent i k now)"
  by (simp add: pending_def pending_intent_def)

lemma ensureHandoff_result:
  assumes "ensureHandoffOutboxIntent env r inp envl n = (Inr s, n')" and "ok_ma_run r" and "ok_string envl"
  shows "continues r s \<and> list_ex (is_handoff_intent envl) (ma_outbox s) \<and> ma_active s = ma_active r
    \<and> ma_stack s = ma_stack r \<and> ma_events s = ma_events r"
proof (cases "list_ex (is_handoff_intent envl) (ma_outbox r)")
  case True
  with assms show ?thesis
    by (simp add: ensureHandoffOutboxIntent_def reader_simps parse_ma_run_accepts continues_refl)
next
  case False
  from False assms(1) obtain now m k where
    m: "createHandoffMessage env r inp envl (n + 1) = (Inr m, k)"
    and p: "parse_ma_run (r\<lparr>ma_outbox := ma_outbox r @ [pending_intent (''outbox_'' @ strip_env envl) (Mailbox_enqueue m) now],
      ma_updated := now\<rparr>) = Inr s"
    by (auto simp: ensureHandoffOutboxIntent_def reader_simps)
  have "mm_envelope m = envl"
    using m assms(3) by (auto simp: createHandoffMessage_def reader_simps parse_envelope_def result_simps
        parse_message_def ok_string_check)
  moreover have "ok_message m"
    using m by (auto simp: createHandoffMessage_def reader_simps dest: parse_message_ok)
  ultimately have env: "mm_envelope m = envl" "ok_message m" .
  note parts = parse_ma_run_parts [OF p] and lists = ok_ma_run_lists [OF assms(2)]
  have "\<exists>x \<in> set (ma_outbox s). parse_intent_of (pending_intent (''outbox_'' @ strip_env envl) (Mailbox_enqueue m) now) = Inr x"
    by (rule map_result_mem [OF parts(3)]) simp
  then have "list_ex (is_handoff_intent envl) (ma_outbox s)"
    using env by (auto simp: list_ex_iff parse_intent_of_def result_simps pending_intent_def
        parse_message_accepts is_handoff_intent_def intro!: bexI)
  with continues_checked [OF p assms(2), of "[]"] parts lists show ?thesis by simp
qed

lemma once_event_present:
  assumes "once_event env r t node agent envl now n = (Inr es, n')"
  shows "\<exists>e \<in> set (ma_events r) \<union> set es. event_matches t node agent envl e"
  using assms by (auto simp: once_event_def reader_simps list_ex_iff event_matches_def handoff_event_def split: if_splits)

lemma parse_event_matches:
  assumes "parse_ma_event e = Inr f" and "event_matches t node agent envl e" and "ok_string agent" and "ok_string envl"
  shows "me_type f = t \<and> me_agent f = Some agent \<and> me_envelope f = Some envl"
  using assms by (auto simp: parse_ma_event_def result_simps event_matches_def check_optional_def ok_string_check)

lemma deliver_handoff_result:
  assumes "deliver_handoff env r inp envl (hid, tid) n = (Inr s, n')" and "ok_ma_run r"
    and "ok_string envl" and "ok_string (hi_target inp)" and "ok_string tid"
  shows "continues r s \<and> list_ex (is_handoff_intent envl) (ma_outbox s) \<and> ma_active s = tid
    \<and> last_opt (ma_stack s) = Some (hi_target inp) \<and> list_ex (delivered_event (hi_target inp) envl) (ma_events s)"
proof -
  let ?agents = "if list_ex (\<lambda>a. ar_agent a = hi_target inp \<and> ar_node a = tid) (ma_agents r)
      then r_return (ma_agents r)
      else r_bind (r_id env ''agent_run'') (\<lambda>i.
        r_return (ma_agents r @ [queued_agent_run i (hi_target inp) tid Ag_queued (ee_now env n)]))"
  from assms(1) obtain as es fs nxt k0 k k1 k2 where
    "?agents (n + 1) = (Inr as, k0)"
    and fs: "once_event env r Handoff_delivered tid (hi_target inp) envl (ee_now env n) k = (Inr fs, k1)"
    and p: "parse_ma_run (r\<lparr>ma_active := tid, ma_stack := ma_stack r @ [hi_target inp],
       ma_agents := as, ma_events := ma_events r @ es @ fs, ma_updated := ee_now env n\<rparr>) = Inr nxt"
    and e: "ensureHandoffOutboxIntent env nxt inp envl k2 = (Inr s, n')"
    unfolding deliver_handoff_def prod.case r_bind_Inr r_lift_Inr r_now_Inr by blast
  then have as: "length (ma_agents r) \<le> length as" by (auto simp: reader_simps split: if_splits)
  note parts = parse_ma_run_parts [OF p]
  have c: "continues r nxt" using continues_checked [OF p assms(2), of "es @ fs" "[]"] as by simp
  then have oknxt: "ok_ma_run nxt" by (simp add: continues_def)
  note r = ensureHandoff_result [OF e oknxt assms(3)]
  have "map_result check_nonempty (ma_stack r @ [hi_target inp]) = Inr (ma_stack nxt)" using parts(4) by simp
  then have "ma_stack nxt = ma_stack r @ [hi_target inp]"
    using ok_ma_run_lists(4) [OF assms(2)] assms(4) by (simp add: map_result_append ok_string_check)
  then have stack: "last_opt (ma_stack nxt) = Some (hi_target inp)" by (simp add: last_opt_def)
  obtain x where x: "x \<in> set (ma_events r) \<union> set fs" "event_matches Handoff_delivered tid (hi_target inp) envl x"
    using once_event_present [OF fs] by blast
  then obtain y where "y \<in> set (ma_events nxt)" "parse_ma_event x = Inr y"
    using map_result_mem [OF parts(1), of x] by auto
  then have "list_ex (delivered_event (hi_target inp) envl) (ma_events nxt)"
    using parse_event_matches [OF _ x(2) assms(4,3)] by (auto simp: list_ex_iff delivered_event_def)
  then show ?thesis
    using r c stack parts(5) assms(5) continues_trans by (auto simp: ok_string_check)
qed

lemma handoff_route_Inr:
  assumes "handoff_route g active tp inp = Inr (hid, tid)"
  shows "\<exists>l m cs. requireGraphNode g tid = Inr (Agent_node tid (hi_target inp) l m cs)"
proof -
  from assms obtain h hn where "(case hn of Handoff_node hid' target \<Rightarrow>
        if target \<noteq> hi_target inp
        then throw (''Handoff target mismatch: '' @ target @ '' !== '' @ hi_target inp)
        else (case nextNodeForCondition g hid' ''accepted'' of
          None \<Rightarrow> throw (''No accepted edge from handoff node: '' @ hid')
        | Some t \<Rightarrow> bind_result (requireGraphNode g t) (\<lambda>tn. (case tn of
            Agent_node tid tagent _ _ _ \<Rightarrow>
              if tagent \<noteq> hi_target inp
              then throw (''Handoff accepted target mismatch: '' @ tagent @ '' !== '' @ hi_target inp)
              else Inr (hid', tid)
          | _ \<Rightarrow> throw (''Handoff target node must be agent: '' @ t))))
      | _ \<Rightarrow> throw (''Expected handoff node: '' @ h)) = Inr (hid, tid)"
    unfolding handoff_route_def
    by (cases active) (auto simp only: graph_node.case throw_neq_Inr result_simps split: if_splits option.splits)
  then obtain hh t tn where "requireGraphNode g t = Inr tn" "(case tn of
            Agent_node tid tagent _ _ _ \<Rightarrow>
              if tagent \<noteq> hi_target inp
              then throw (''Handoff accepted target mismatch: '' @ tagent @ '' !== '' @ hi_target inp)
              else Inr (hh, tid)
          | _ \<Rightarrow> throw (''Handoff target node must be agent: '' @ t)) = Inr (hid, tid)"
    by (cases hn) (auto simp only: graph_node.case throw_neq_Inr result_simps split: if_splits option.splits)
  then show ?thesis using requireGraphNode_Inr by (cases tn) (fastforce split: if_splits)+
qed

definition envelope_of :: "ev_env \<Rightarrow> handoff_input \<Rightarrow> ma_run \<Rightarrow> string" where
  "envelope_of env inp r = ''env_'' @ handoffIdempotencyKey env r inp"

lemma applyHandoff_eq:
  "applyHandoff env inp run =
     (if ma_graph run \<noteq> ag_id (ee_graph env)
      then r_throw (''MultiAgentRun graph mismatch: '' @ ma_graph run @ '' !== '' @ ag_id (ee_graph env))
      else r_bind (r_lift (requireGraphNode (ee_graph env) (ma_active run))) (\<lambda>active.
          if already_handed run active inp (envelope_of env inp run)
          then r_bind (r_lift (parse_ma_run run))
            (\<lambda>run'. ensureHandoffOutboxIntent env run' inp (envelope_of env inp run))
          else r_bind (r_lift (handoff_route (ee_graph env) active (last_opt (ma_stack run)) inp))
            (deliver_handoff env run inp (envelope_of env inp run))))"
  unfolding applyHandoff_def Let_def envelope_of_def by (rule refl)

text \<open>A hexadecimal digest has no white space.\<close>

definition plain_digest :: "ev_env \<Rightarrow> bool" where
  "plain_digest env = (\<forall>v. \<forall>c \<in> set (ee_digest env v). \<not> is_js_space c)"

lemma envelope_ok: "plain_digest env \<Longrightarrow> ok_string (envelope_of env inp r)"
proof -
  assume "plain_digest env"
  then have key: "\<forall>c \<in> set (handoffIdempotencyKey env r inp). \<not> is_js_space c"
    by (auto simp: plain_digest_def handoffIdempotencyKey_def dest: in_set_takeD)
  have "\<not> is_js_space (last (CHR ''e'' # ''nv_'' @ handoffIdempotencyKey env r inp))"
    using key last_in_set [of "handoffIdempotencyKey env r inp"] by (simp add: is_js_space_def)
  then show ?thesis unfolding envelope_of_def by (subst append_Cons) (auto intro!: ok_string_Cons simp: is_js_space_def)
qed

lemma applyHandoff_result:
  assumes "applyHandoff env inp r n = (Inr s, n')" and "ok_ma_run r"
    and "ok_agent_graph (ee_graph env)" and "plain_digest env"
  shows "continues r s \<and> ma_graph r = ag_id (ee_graph env)
    \<and> list_ex (is_handoff_intent (envelope_of env inp r)) (ma_outbox s)
    \<and> (\<exists>active. requireGraphNode (ee_graph env) (ma_active s) = Inr active
        \<and> already_handed s active inp (envelope_of env inp r))"
proof -
  let ?v = "envelope_of env inp r"
  have ok: "ok_string ?v" using envelope_ok [OF assms(4)] .
  from assms(1) obtain active where g: "ma_graph r = ag_id (ee_graph env)"
    and active: "requireGraphNode (ee_graph env) (ma_active r) = Inr active"
    and rest: "(if already_handed r active inp ?v
          then r_bind (r_lift (parse_ma_run r)) (\<lambda>run'. ensureHandoffOutboxIntent env run' inp ?v)
          else r_bind (r_lift (handoff_route (ee_graph env) active (last_opt (ma_stack r)) inp))
            (deliver_handoff env r inp ?v)) n = (Inr s, n')"
    by (auto simp: applyHandoff_eq reader_simps split: if_splits)
  show ?thesis
  proof (cases "already_handed r active inp ?v")
    case True
    then have "ensureHandoffOutboxIntent env r inp ?v n = (Inr s, n')"
      using rest assms(2) by (simp add: reader_simps parse_ma_run_accepts)
    from ensureHandoff_result [OF this assms(2) ok] show ?thesis using g active True
      by (simp add: already_handed_def)
  next
    case False
    then obtain hid tid where route: "handoff_route (ee_graph env) active (last_opt (ma_stack r)) inp = Inr (hid, tid)"
      and d: "deliver_handoff env r inp ?v (hid, tid) n = (Inr s, n')"
      using rest by (auto simp: reader_simps)
    from handoff_route_Inr [OF route] obtain l m cs where
      t: "requireGraphNode (ee_graph env) tid = Inr (Agent_node tid (hi_target inp) l m cs)" by blast
    then have "parse_graph_node (Agent_node tid (hi_target inp) l m cs) = Inr (Agent_node tid (hi_target inp) l m cs)"
      using requireGraphNode_Inr ok_graph_node [OF assms(3)] by blast
    then have "ok_string tid" "ok_string (hi_target inp)"
      by (auto simp: result_simps dest: check_nonempty_ok_string)
    from deliver_handoff_result [OF d assms(2) ok this(2,1)] show ?thesis using g t
      by (simp add: already_handed_def)
  qed
qed

text \<open>
  A hand-off is idempotent: applying it again to the run it produced (a retry after a lost answer)
  returns that run unchanged, so events, agent runs and the outbox message exist once.
\<close>

theorem handoff_idempotent:
  assumes "applyHandoff env inp r n = (Inr s, n')" and "ok_ma_run r"
    and "ok_agent_graph (ee_graph env)" and "plain_digest env"
  shows "applyHandoff env inp s k = (Inr s, k) \<and> list_ex (is_handoff_intent (envelope_of env inp r)) (ma_outbox s)"
proof -
  note h = applyHandoff_result [OF assms]
  then have same: "envelope_of env inp s = envelope_of env inp r" "ma_graph s = ag_id (ee_graph env)" "ok_ma_run s"
    by (simp_all add: continues_def envelope_of_def handoffIdempotencyKey_def)
  with h show ?thesis
    by (auto simp: applyHandoff_eq r_bind_def r_lift_def ensureHandoffOutboxIntent_def parse_ma_run_accepts)
qed

definition sample_env :: "agent_graph \<Rightarrow> ev_env" where
  "sample_env g = \<lparr>ee_graph = g, ee_ids = (\<lambda>n p. p @ show_nat n), ee_now = (\<lambda>n. int n),
     ee_ms = (\<lambda>n. int n), ee_uuid = (\<lambda>n. ''u''), ee_holder = ''h'', ee_ttl = None,
     ee_digest = (\<lambda>_. ''abc''), ee_others = (\<lambda>_ st. st), ee_stack = 9\<rparr>"

lemma sample_env_graph [simp]: "ee_graph (sample_env g) = g"
  by (simp add: sample_env_def)

definition sample_handoff :: handoff_input where
  "sample_handoff = \<lparr>hi_run = ''r'', hi_source = ''m'', hi_target = ''c'', hi_prompt = ''do it''\<rparr>"

definition managed_run :: ma_run where
  "managed_run = sample_ma_run\<lparr>ma_graph := ''manager_to_c'', ma_active := ''manager'', ma_stack := [''m'']\<rparr>"

lemma managed_run_ok [simp]: "ok_ma_run managed_run"
  using sample_ma_run_ok
  by (simp add: managed_run_def ok_ma_run_def ok_string_Cons is_js_space_def ok_names_def)

lemma sample_graph_ok [simp]: "ok_agent_graph (specialist_graph ''m'' ''c'')"
  unfolding ok_agent_graph_def
  by (rule ok_specialist_graph) (simp_all add: ok_string_Cons is_js_space_def)

lemma sample_digest_plain [simp]: "plain_digest (sample_env g)"
  by (simp add: plain_digest_def sample_env_def is_js_space_def)

lemma sample_handoff_works:
  "\<not> isl (fst (applyHandoff (sample_env (specialist_graph ''m'' ''c'')) sample_handoff managed_run 0))"
  by code_simp

theorem handoff_idempotent_witness:
  "\<exists>s k. applyHandoff (sample_env (specialist_graph ''m'' ''c'')) sample_handoff managed_run 0 = (Inr s, k)
    \<and> applyHandoff (sample_env (specialist_graph ''m'' ''c'')) sample_handoff s 5 = (Inr s, 5)"
proof -
  let ?x = "applyHandoff (sample_env (specialist_graph ''m'' ''c'')) sample_handoff managed_run 0"
  from sample_handoff_works obtain s where "?x = (Inr s, snd ?x)" by (metis prod.collapse sum.collapse(2))
  from this handoff_idempotent [OF this managed_run_ok, of 5] show ?thesis by auto
qed

section \<open>Completions\<close>

lemma ensureComplete_continues:
  assumes "ensureMailboxCompleteOutboxIntent env r c n = (Inr s, n')" and "ok_ma_run r"
  shows "continues r s \<and> ma_active s = ma_active r \<and> ma_agents s = ma_agents r"
proof (cases "list_ex (is_complete_intent (mc_message c)) (ma_outbox r)")
  case True
  with assms show ?thesis
    by (simp add: ensureMailboxCompleteOutboxIntent_def reader_simps parse_ma_run_accepts continues_refl)
next
  case False
  then obtain i k now where p: "parse_ma_run (r\<lparr>ma_outbox := ma_outbox r @ [pending_intent i k now], ma_updated := now\<rparr>) = Inr s"
    using assms(1) by (auto simp: ensureMailboxCompleteOutboxIntent_def reader_simps)
  show ?thesis
    using continues_checked [OF p assms(2), of "[]" "[pending_intent i k now]"] pending_intent_pending parse_ma_run_parts [OF p] ok_ma_run_lists [OF assms(2)]
    by simp
qed

lemma apply_completion_parts:
  assumes "apply_completion env inp r n = (Inr s, n')"
  obtains a l m cs nxt k e u j t where
    "requireGraphNode (ee_graph env) (ma_active r) = Inr (Agent_node a (ci_agent inp) l m cs)"
    "nextNodeForCondition (ee_graph env) a (case ci_condition inp of None \<Rightarrow> ''completed'' | Some c \<Rightarrow> c) = Some nxt"
    "latestAgentRunIndex r (ci_agent inp) a = Inr k"
    "parse_ma_run (r\<lparr>ma_agents := (ma_agents r)[k := finish_agent_run inp
        (case ci_status inp of None \<Rightarrow> final_of_condition (case ci_condition inp of None \<Rightarrow> ''completed'' | Some c \<Rightarrow> c) | Some x \<Rightarrow> x)
        (ee_now env n) (ma_agents r ! k)],
      ma_events := ma_events r @ [e], ma_updated := ee_now env n\<rparr>) = Inr u"
    "enterGraphNode env u nxt (n + 2) = (Inr t, j)"
    "(case ci_mailbox inp of None \<Rightarrow> r_return t | Some c \<Rightarrow> ensureMailboxCompleteOutboxIntent env t c) j = (Inr s, n')"
proof -
  from assms obtain active where active: "requireGraphNode (ee_graph env) (ma_active r) = Inr active"
    by (auto simp: apply_completion_def reader_simps)
  show thesis
  proof (cases active)
    case (Agent_node a agent l m cs)
    from assms active Agent_node have agent: "agent = ci_agent inp"
      by (auto simp: apply_completion_def reader_simps split: if_splits)
    from assms active Agent_node agent show thesis
      unfolding apply_completion_def Let_def r_bind_Inr r_lift_Inr r_now_Inr r_id_Inr
      by (auto simp: reader_simps split: option.splits intro!: that)
  qed (use assms active in \<open>auto simp: apply_completion_def reader_simps\<close>)
qed

lemma apply_completion_continues:
  assumes "apply_completion env inp r n = (Inr s, n')" and "ok_ma_run r"
  shows "continues r s"
proof -
  from apply_completion_parts [OF assms(1)] obtain as e nxt u j t now where
    p: "parse_ma_run (r\<lparr>ma_agents := as, ma_events := ma_events r @ [e], ma_updated := now\<rparr>) = Inr u"
      "length as = length (ma_agents r)" and
    t: "enterGraphNode env u nxt (n + 2) = (Inr t, j)" and
    s: "(case ci_mailbox inp of None \<Rightarrow> r_return t | Some c \<Rightarrow> ensureMailboxCompleteOutboxIntent env t c) j = (Inr s, n')"
    by (metis length_list_update)
  have u: "continues r u" using continues_checked [OF p(1) assms(2), of "[e]" "[]"] p(2) by simp
  then have ut: "continues u t"
    using grows_continues [OF enter_node_grows [OF t [unfolded enterGraphNode_def]]] by (simp add: continues_def)
  then have "continues t s"
    using s ensureComplete_continues continues_refl continues_ok [OF ut]
    by (auto simp: reader_simps split: option.splits)
  with u ut continues_trans show ?thesis by blast
qed

lemma apply_external_continues:
  assumes "apply_external env inp r n = (Inr s, n')" and "ok_ma_run r"
  shows "continues r s"
proof -
  from assms(1) obtain active where rest: "(if gn_id active \<noteq> xi_node inp
       then r_throw (''External node completion mismatch: '' @ gn_id active @ '' !== '' @ xi_node inp)
       else if \<not> externally_completable active
       then r_throw (''Active node is not externally completable: '' @ gn_id active)
       else (case nextNodeForCondition (ee_graph env) (gn_id active) (xi_condition inp) of
           None \<Rightarrow> r_throw (''No '' @ xi_condition inp @ '' edge from node: '' @ gn_id active)
         | Some nxt \<Rightarrow> r_bind (r_now env) (\<lambda>now. r_bind (r_id env ''mae'') (\<lambda>e.
             r_bind (r_lift (parse_ma_run (r\<lparr>ma_events := ma_events r @ [event_at e Node_completed (gn_id active)
                 (Some (JObj (spread [(''condition'', JStr (xi_condition inp))] (xi_payload inp)))) now],
               ma_updated := now\<rparr>))) (\<lambda>run'. enterGraphNode env run' nxt))))) n = (Inr s, n')"
    unfolding apply_external_def r_bind_Inr r_lift_Inr by blast
  then obtain nxt where "nextNodeForCondition (ee_graph env) (gn_id active) (xi_condition inp) = Some nxt"
    by (auto simp: r_throw_Inr split: if_splits option.splits)
  with rest obtain e now u k where
    p: "parse_ma_run (r\<lparr>ma_events := ma_events r @ [e], ma_updated := now\<rparr>) = Inr u"
    and t: "enterGraphNode env u nxt k = (Inr s, n')"
    by (simp only: r_throw_Inr option.case split: if_splits)
      (unfold r_bind_Inr r_lift_Inr, blast)
  have "continues r u" using continues_checked [OF p assms(2), of "[e]" "[]"] by simp
  with grows_continues [OF enter_node_grows [OF t [unfolded enterGraphNode_def]]] continues_trans continues_ok show ?thesis
    by blast
qed

text \<open>
  The history of a run only grows: every hand-off, task completion and external completion that
  succeeds on a well-formed run leaves a well-formed run with the same identity whose event log and
  outbox extend the old ones and which has lost no agent run.
\<close>

theorem run_history_grows:
  assumes "ok_ma_run r" and "ok_agent_graph (ee_graph env)" and "plain_digest env"
    and "applyHandoff env hinp r n = (Inr s, n') \<or> apply_completion env cinp r n = (Inr s, n')
      \<or> apply_external env xinp r n = (Inr s, n')"
  shows "continues r s"
  using assms applyHandoff_result apply_completion_continues apply_external_continues by blast

definition sample_completion :: completion_input where
  "sample_completion = \<lparr>ci_run = ''r'', ci_agent = ''c'', ci_condition = None, ci_status = None,
     ci_summary = Some ''ok'', ci_error = None, ci_artifact = None,
     ci_mailbox = Some \<lparr>mc_message = ''msg_abc'', mc_status = Done_completed, mc_fence = None\<rparr>\<rparr>"

definition working_run :: ma_run where
  "working_run = managed_run\<lparr>ma_active := ''c'', ma_stack := [''m'', ''c''],
     ma_agents := [queued_agent_run ''a1'' ''c'' ''c'' Ag_completed 1, queued_agent_run ''a2'' ''c'' ''c'' Ag_queued 2]\<rparr>"

lemma working_run_ok [simp]: "ok_ma_run working_run"
  using managed_run_ok
  by (simp add: working_run_def ok_ma_run_def ok_string_Cons is_js_space_def ok_names_def ok_agent_run_def
      queued_agent_run_def ok_option_def)

lemma sample_completion_works:
  "\<not> isl (fst (apply_completion (sample_env (specialist_graph ''m'' ''c'')) sample_completion working_run 0))"
  by code_simp

theorem run_history_grows_witness:
  "\<exists>s k. apply_completion (sample_env (specialist_graph ''m'' ''c'')) sample_completion working_run 0 = (Inr s, k)
    \<and> continues working_run s"
proof -
  let ?x = "apply_completion (sample_env (specialist_graph ''m'' ''c'')) sample_completion working_run 0"
  from sample_completion_works obtain s where s: "?x = (Inr s, snd ?x)" by (metis prod.collapse sum.collapse(2))
  with run_history_grows [OF working_run_ok, of "sample_env (specialist_graph ''m'' ''c'')"
      undefined 0 s "snd ?x" sample_completion] show ?thesis by auto
qed

lemma find_index_rev:
  assumes "find_index P (rev xs) = Some k"
  shows "length xs - 1 - k < length xs \<and> P (xs ! (length xs - 1 - k))
    \<and> (\<forall>j. length xs - 1 - k < j \<and> j < length xs \<longrightarrow> \<not> P (xs ! j))"
proof -
  from find_index_Some [OF assms] have k: "k < length xs" "P (rev xs ! k)" "\<forall>j < k. \<not> P (rev xs ! j)" by auto
  have "\<not> P (xs ! j)" if "length xs - 1 - k < j" "j < length xs" for j
    using k(3) [rule_format, of "length xs - 1 - j"] that by (simp add: rev_nth)
  with k(1,2) show ?thesis by (auto simp: rev_nth)
qed

lemma latestAgentRunIndex_Inr:
  assumes "latestAgentRunIndex r agent node = Inr k"
  shows "k < length (ma_agents r) \<and> ar_agent (ma_agents r ! k) = agent \<and> ar_node (ma_agents r ! k) = node
    \<and> (\<forall>j. k < j \<and> j < length (ma_agents r) \<longrightarrow> \<not> (ar_agent (ma_agents r ! j) = agent \<and> ar_node (ma_agents r ! j) = node))"
  using assms find_index_rev [of "\<lambda>a. ar_agent a = agent \<and> ar_node a = node" "ma_agents r"]
  by (auto simp: latestAgentRunIndex_def split: option.splits)

lemma finished_run_parsed:
  assumes "parse_agent_run (finish_agent_run inp s now a) = Inr b"
  shows "ar_status b = agent_status_of s \<and> ar_completed b \<noteq> None \<and> ar_updated b = now
    \<and> ar_summary b = (case ci_summary inp of None \<Rightarrow> ar_summary a | Some x \<Rightarrow> Some x)
    \<and> ar_error b = (case ci_error inp of None \<Rightarrow> ar_error a | Some x \<Rightarrow> Some x)"
  using assms by (auto simp: parse_agent_run_def finish_agent_run_def result_simps)

lemma parsed_agents_nth:
  assumes "parse_ma_run r' = Inr u" and "ok_ma_run r" and "ma_agents r' = (ma_agents r)[k := x]"
    and "j < length (ma_agents r)"
  shows "(if j = k then parse_agent_run x = Inr (ma_agents u ! j) else ma_agents u ! j = ma_agents r ! j)
    \<and> length (ma_agents u) = length (ma_agents r)"
proof -
  from parse_ma_run_parts(2) [OF assms(1)] assms(3)
  have "list_all2 (\<lambda>x y. parse_agent_run x = Inr y) ((ma_agents r)[k := x]) (ma_agents u)"
    by (simp add: map_result_all2)
  moreover have "parse_agent_run (ma_agents r ! j) = Inr (ma_agents r ! j)"
    using assms(2,4) by (auto simp: ok_ma_run_def list_all_length intro: parse_agent_run_accepts)
  ultimately show ?thesis using assms(4) by (auto simp: list_all2_conv_all_nth nth_list_update)
qed

text \<open>
  A task completion lands on exactly one agent run: on success, the active node is an agent node of
  the reporting agent with an edge for the condition, the latest run of that agent at that node gets
  the final status, a completion time and the reported summary and error, and every other agent run of
  before is unchanged.
\<close>

theorem completion_marks_latest_run:
  assumes "apply_completion env inp r n = (Inr s, n')" and "ok_ma_run r"
  shows "\<exists>a l m cs nxt k c. requireGraphNode (ee_graph env) (ma_active r) = Inr (Agent_node a (ci_agent inp) l m cs)
    \<and> c = (case ci_condition inp of None \<Rightarrow> ''completed'' | Some x \<Rightarrow> x)
    \<and> nextNodeForCondition (ee_graph env) a c = Some nxt
    \<and> k < length (ma_agents r) \<and> ar_agent (ma_agents r ! k) = ci_agent inp \<and> ar_node (ma_agents r ! k) = a
    \<and> (\<forall>j. k < j \<and> j < length (ma_agents r) \<longrightarrow>
         \<not> (ar_agent (ma_agents r ! j) = ci_agent inp \<and> ar_node (ma_agents r ! j) = a))
    \<and> ar_status (ma_agents s ! k)
        = agent_status_of (case ci_status inp of None \<Rightarrow> final_of_condition c | Some x \<Rightarrow> x)
    \<and> ar_completed (ma_agents s ! k) \<noteq> None
    \<and> ar_summary (ma_agents s ! k) = (case ci_summary inp of None \<Rightarrow> ar_summary (ma_agents r ! k) | Some x \<Rightarrow> Some x)
    \<and> ar_error (ma_agents s ! k) = (case ci_error inp of None \<Rightarrow> ar_error (ma_agents r ! k) | Some x \<Rightarrow> Some x)
    \<and> (\<forall>j < length (ma_agents r). j \<noteq> k \<longrightarrow> ma_agents s ! j = ma_agents r ! j)"
proof -
  let ?c = "case ci_condition inp of None \<Rightarrow> ''completed'' | Some x \<Rightarrow> x"
  let ?f = "case ci_status inp of None \<Rightarrow> final_of_condition ?c | Some x \<Rightarrow> x"
  obtain a l m cs nxt k e u j t where
    act: "requireGraphNode (ee_graph env) (ma_active r) = Inr (Agent_node a (ci_agent inp) l m cs)"
    and nxt: "nextNodeForCondition (ee_graph env) a ?c = Some nxt"
    and lat: "latestAgentRunIndex r (ci_agent inp) a = Inr k"
    and p: "parse_ma_run (r\<lparr>ma_agents := (ma_agents r)[k := finish_agent_run inp ?f (ee_now env n) (ma_agents r ! k)],
      ma_events := ma_events r @ [e], ma_updated := ee_now env n\<rparr>) = Inr u"
    and t: "enterGraphNode env u nxt (n + 2) = (Inr t, j)"
    and s: "(case ci_mailbox inp of None \<Rightarrow> r_return t | Some c \<Rightarrow> ensureMailboxCompleteOutboxIntent env t c) j = (Inr s, n')"
    by (rule apply_completion_parts [OF assms(1)]) blast
  note k = latestAgentRunIndex_Inr [OF lat]
  have nth: "(if j = k then parse_agent_run (finish_agent_run inp ?f (ee_now env n) (ma_agents r ! k)) = Inr (ma_agents u ! j)
      else ma_agents u ! j = ma_agents r ! j) \<and> length (ma_agents u) = length (ma_agents r)"
    if "j < length (ma_agents r)" for j
    by (rule parsed_agents_nth [OF p assms(2) _ that]) simp
  have "grows u t" by (rule enter_node_grows [OF t [unfolded enterGraphNode_def] parse_ma_run_ok [OF p]])
  then have "ma_agents s ! j = ma_agents u ! j" if "j < length (ma_agents r)" for j
    using s ensureComplete_continues nth [OF that] that
    by (fastforce simp: grows_def reader_simps nth_append continues_def split: option.splits)
  with nth k act nxt finished_run_parsed [of inp ?f "ee_now env n" "ma_agents r ! k" "ma_agents u ! k"]
  show ?thesis by (intro exI [of _ a] exI [of _ l] exI [of _ m] exI [of _ cs] exI [of _ nxt] exI [of _ k] exI [of _ ?c]) auto
qed

theorem completion_marks_latest_run_witness:
  "\<exists>s k. apply_completion (sample_env (specialist_graph ''m'' ''c'')) sample_completion working_run 0 = (Inr s, k)
    \<and> (\<exists>j < 2. ar_status (ma_agents s ! j) = Ag_completed \<and> ar_summary (ma_agents s ! j) = Some ''ok'')"
proof -
  let ?x = "apply_completion (sample_env (specialist_graph ''m'' ''c'')) sample_completion working_run 0"
  from sample_completion_works obtain s where s: "?x = (Inr s, snd ?x)" by (metis prod.collapse sum.collapse(2))
  from completion_marks_latest_run [OF this working_run_ok] obtain k where
    "ar_status (ma_agents s ! k) = Ag_completed" "ar_summary (ma_agents s ! k) = Some ''ok''" "k < 2"
    by (auto simp: sample_completion_def working_run_def final_of_condition_def)
  with s show ?thesis by blast
qed

section \<open>Entering a node ends\<close>

fun passes_through :: "graph_node \<Rightarrow> bool" where
  "passes_through (Join_node _ _) = True"
| "passes_through (Retry_node _ _) = True"
| "passes_through _ = False"

text \<open>The edges that leave joins and retries lead down a ranking of the nodes.\<close>

definition ranked_graph :: "(string \<Rightarrow> nat) \<Rightarrow> agent_graph \<Rightarrow> bool" where
  "ranked_graph f g = (\<forall>n \<in> set (ag_nodes g). \<forall>e \<in> set (ag_edges g).
     passes_through n \<and> ge_from e = gn_id n \<longrightarrow> f (ge_to e) < f (gn_id n))"

lemma nextNodeForCondition_edge:
  "nextNodeForCondition g i c = Some t \<Longrightarrow> \<exists>e \<in> set (ag_edges g). ge_from e = i \<and> ge_to e = t"
  by (auto simp: nextNodeForCondition_def find_Some_iff)

lemma join_next_edge: "join_next g r i bs = Some t \<Longrightarrow> \<exists>e \<in> set (ag_edges g). ge_from e = i \<and> ge_to e = t"
  by (auto simp: join_next_def dest: nextNodeForCondition_edge split: if_splits option.splits)

lemma r_bind_cong: "m n = m' n \<Longrightarrow> (\<And>x k. m n = (Inr x, k) \<Longrightarrow> f x k = g x k) \<Longrightarrow> r_bind m f n = r_bind m' g n"
  by (auto simp: r_bind_def split: prod.splits sum.splits)

lemma enter_node_stack:
  assumes "ranked_graph f (ee_graph env)"
  shows "f i < k \<Longrightarrow> f i < k' \<Longrightarrow> enter_node env k r i n = enter_node env k' r i n"
proof (induction k arbitrary: k' r i n)
  case (Suc k)
  then obtain l where l: "k' = Suc l" by (cases k') auto
  show ?case unfolding l enter_node.simps
  proof (intro r_bind_cong refl, goal_cases)
    case (1 node n1 now n2)
    then have node: "gn_id node = i" "node \<in> set (ag_nodes (ee_graph env))"
      using requireGraphNode_Inr by (auto simp: r_lift_Inr)
    have down: "f t < k \<and> f t < l" if "passes_through node" "\<exists>e \<in> set (ag_edges (ee_graph env)). ge_from e = i \<and> ge_to e = t" for t
      using assms node that Suc.prems l by (fastforce simp: ranked_graph_def)
    show ?case
    proof (cases node)
      case (Join_node t bs)
      then show ?thesis
        using down [OF _ join_next_edge] node Suc.IH by (auto intro!: r_bind_cong split: option.splits)
    next
      case (Retry_node t lim)
      then show ?thesis
        using down [OF _ nextNodeForCondition_edge] node Suc.IH
        by (auto simp: Let_def intro!: r_bind_cong split: option.splits)
    qed simp_all
  qed
qed simp

text \<open>A failed schema check has no message of its own.\<close>

definition zod_only :: "('a \<Rightarrow> 'b result) \<Rightarrow> bool" where
  "zod_only p = (\<forall>x e. p x = Inl e \<longrightarrow> e = ZodError)"

lemma zod_onlyD: "zod_only p \<Longrightarrow> p x = Inl e \<Longrightarrow> e = ZodError"
  by (simp add: zod_only_def)

lemma zod_map_result: "zod_only p \<Longrightarrow> zod_only (map_result p)"
  unfolding zod_only_def
proof (intro allI impI)
  fix xs e
  assume "\<forall>x e. p x = Inl e \<longrightarrow> e = ZodError" "map_result p xs = Inl e"
  then show "e = ZodError" by (induction xs) (auto simp: result_simps)
qed

lemma zod_check_option: "zod_only p \<Longrightarrow> zod_only (check_option p)"
  by (auto simp: zod_only_def check_option_def result_simps split: option.splits)

lemma zod_scalars: "zod_only check_nonempty" "zod_only check_min1" "zod_only check_optional" "zod_only check_count"
    "zod_only parse_budgets" "zod_only check_prompt" "zod_only Inr"
  by (auto simp: zod_only_def check_nonempty_def check_min1_def check_optional_def check_count_def
      parse_budgets_def check_total_def check_prompt_def z_nonempty_def result_simps
      split: if_splits option.splits json.splits)

lemma zod_check_dict: "zod_only p \<Longrightarrow> zod_only (check_dict p)"
  using zod_onlyD [of p] zod_onlyD [OF zod_scalars(1)] unfolding zod_only_def check_dict_def
  by (fastforce simp: check_entry_def result_simps dest!: fold_result_Inl)

lemma zod_agent_run: "zod_only parse_agent_run"
proof -
  have "zod_only parse_artifact"
    using zod_onlyD [OF zod_scalars(2)] zod_onlyD [OF zod_map_result [OF zod_scalars(2)]]
    by (auto simp: zod_only_def parse_artifact_def result_simps)
  then have "zod_only parse_peer_artifact"
    using zod_onlyD [OF zod_check_option [OF zod_map_result]] zod_onlyD [OF zod_scalars(2)]
    by (fastforce simp: zod_only_def parse_peer_artifact_def result_simps)
  then show ?thesis
    using zod_onlyD [OF zod_check_option] zod_onlyD [OF zod_scalars(1)]
    by (fastforce simp: zod_only_def parse_agent_run_def result_simps)
qed

lemma zod_ma_event: "zod_only parse_ma_event"
  using zod_onlyD [OF zod_scalars(1)] zod_onlyD [OF zod_scalars(3)]
  by (auto simp: zod_only_def parse_ma_event_def result_simps)

lemma zod_claim: "zod_only parse_claim_lease"
  using zod_onlyD [OF zod_scalars(1)] zod_onlyD [OF zod_scalars(4)]
  by (auto simp: zod_only_def parse_claim_lease_def result_simps split: if_splits)

lemma zod_message: "zod_only parse_message"
  using zod_onlyD [OF zod_scalars(1)] zod_onlyD [OF zod_check_option [OF zod_claim]] zod_onlyD [OF zod_scalars(6)]
  by (auto simp: zod_only_def parse_message_def result_simps)

lemma zod_intent: "zod_only parse_intent_of"
proof -
  have "zod_only parse_outbox_kind"
    unfolding zod_only_def
  proof (intro allI impI)
    fix k e
    assume "parse_outbox_kind k = Inl e"
    then show "e = ZodError"
      using zod_onlyD [OF zod_message] zod_onlyD [OF zod_scalars(1)] zod_onlyD [OF zod_check_option [OF zod_claim]]
      by (cases k) (auto simp: result_simps)
  qed
  then show ?thesis
    using zod_onlyD [of parse_outbox_kind] zod_onlyD [OF zod_scalars(1)]
    by (auto simp: zod_only_def parse_intent_of_def result_simps)
qed

lemma zod_ma_run: "parse_ma_run r = Inl e \<Longrightarrow> e = ZodError"
  unfolding parse_ma_run_def result_simps
  by (auto dest: zod_onlyD [OF zod_scalars(1)] zod_onlyD [OF zod_map_result [OF zod_scalars(1)]]
      zod_onlyD [OF zod_check_dict [OF zod_scalars(7)]] zod_onlyD [OF zod_map_result [OF zod_agent_run]]
      zod_onlyD [OF zod_map_result [OF zod_ma_event]] zod_onlyD [OF zod_map_result [OF zod_intent]]
      zod_onlyD [OF zod_check_dict [OF zod_scalars(4)]] zod_onlyD [OF zod_scalars(5)])

lemma r_bind_Inl: "r_bind m f n = (Inl e, n') \<longleftrightarrow>
    m n = (Inl e, n') \<or> (\<exists>x k. m n = (Inr x, k) \<and> f x k = (Inl e, n'))"
  by (auto simp: r_bind_def split: prod.splits sum.splits)

lemma r_basic_Inl:
  "r_lift x n = (Inl e, n') \<longleftrightarrow> x = Inl e \<and> n' = n" "r_return y n = (Inl e, n') \<longleftrightarrow> False"
  "r_now env n = (Inl e, n') \<longleftrightarrow> False" "r_id env p n = (Inl e, n') \<longleftrightarrow> False"
  by (auto simp: r_lift_def r_return_def r_now_def r_id_def)

lemmas reader_Inl = r_bind_Inl r_basic_Inl

lemma node_step_errors:
  "enter_terminate env r t now n = (Inl e, n') \<Longrightarrow> e = ZodError"
  "enter_agent env r t ag now n = (Inl e, n') \<Longrightarrow> e = ZodError"
  "enter_suspend env r t now n = (Inl e, n') \<Longrightarrow> e = ZodError"
  "pass_node env r t pl now n = (Inl e, n') \<Longrightarrow> e = ZodError"
  by (auto simp: enter_terminate_def enter_agent_def enter_suspend_def pass_node_def reader_Inl
      split: if_splits dest: zod_ma_run)

definition range_error :: js_error where
  "range_error = Error ''Maximum call stack size exceeded''"

lemma enter_node_no_overflow:
  assumes "ranked_graph f (ee_graph env)"
  shows "f i < k \<Longrightarrow> enter_node env k r i n \<noteq> (Inl range_error, n')"
proof (induction k arbitrary: r i n)
  case (Suc k)
  show ?case
  proof
    assume "enter_node env (Suc k) r i n = (Inl range_error, n')"
    then obtain node now n1 where node: "requireGraphNode (ee_graph env) i = Inr node"
      and rest: "(case node of
         Terminate_node t \<Rightarrow> enter_terminate env r t now
       | Agent_node t agent _ _ _ \<Rightarrow> enter_agent env r t agent now
       | Join_node t branches \<Rightarrow> (case join_next (ee_graph env) r t branches of
             None \<Rightarrow> enter_suspend env r t now
           | Some nxt \<Rightarrow> r_bind (pass_node env r t (JObj [(''condition'', JStr ''completed'')]) now)
               (\<lambda>run'. enter_node env k run' nxt))
       | Retry_node t limit \<Rightarrow> (let n = retry_attempts r t in
           case nextNodeForCondition (ee_graph env) t (retry_condition n limit) of
             None \<Rightarrow> enter_suspend env r t now
           | Some nxt \<Rightarrow> r_bind (pass_node env (r\<lparr>ma_retries := AList.update t n (ma_retries r)\<rparr>) t
                 (retry_payload n limit) now)
               (\<lambda>run'. enter_node env k run' nxt))
       | _ \<Rightarrow> enter_suspend env r (gn_id node) now) n1 = (Inl range_error, n')"
      by (auto simp: reader_Inl reader_simps requireGraphNode_def throw_def range_error_def split: option.splits)
    have down: "f t < k" if "passes_through node" "\<exists>e \<in> set (ag_edges (ee_graph env)). ge_from e = i \<and> ge_to e = t" for t
      using assms requireGraphNode_Inr [OF node] that Suc.prems by (fastforce simp: ranked_graph_def)
    have z: "range_error \<noteq> ZodError" by (simp add: range_error_def)
    note node_step_errors' = node_step_errors [where e = range_error, THEN z [THEN notE]]
    show False
    proof (cases node)
      case (Join_node t bs)
      then show ?thesis
        using rest down [OF _ join_next_edge] requireGraphNode_Inr [OF node] Suc.IH node_step_errors'
        by (auto simp: reader_Inl split: option.splits)
    next
      case (Retry_node t lim)
      then show ?thesis
        using rest down [OF _ nextNodeForCondition_edge] requireGraphNode_Inr [OF node] Suc.IH node_step_errors'
        by (auto simp: reader_Inl Let_def split: option.splits)
    qed (use rest node_step_errors' in auto)
  qed
qed simp

text \<open>
  Entering a node ends: when the edges that leave joins and retries go down some ranking of the
  nodes, a stack deeper than the rank of the entered node is enough; the call stack is not exceeded and
  any deeper stack gives the same result.
\<close>

theorem enter_node_ends:
  assumes "ranked_graph f (ee_graph env)" and "f i < ee_stack env"
  shows "fst (enterGraphNode env r i n) \<noteq> Inl range_error
    \<and> (\<forall>k > f i. enter_node env k r i n = enterGraphNode env r i n)"
  using enter_node_no_overflow [OF assms, of r n] enter_node_stack [OF assms(1) _ assms(2)]
  by (auto simp: enterGraphNode_def) (metis prod.collapse)

theorem enter_node_ends_witness:
  "fst (enterGraphNode (sample_env (specialist_graph ''m'' ''c'')) working_run ''done'' 0) \<noteq> Inl range_error"
  using enter_node_ends [of "\<lambda>_. 0" "sample_env (specialist_graph ''m'' ''c'')" "''done''" working_run 0]
  by (auto simp: ranked_graph_def specialist_graph_def) (simp_all add: sample_env_def)

text \<open>A graph with a join that leads to itself.\<close>

definition join_loop :: agent_graph where
  "join_loop = \<lparr>ag_id = ''g'', ag_start = ''a'', ag_nodes = [Agent_node ''a'' ''x'' None None [], Join_node ''j'' []],
     ag_edges = [\<lparr>ge_from = ''a'', ge_to = ''j'', ge_condition = ''completed''\<rparr>,
       \<lparr>ge_from = ''j'', ge_to = ''j'', ge_condition = ''completed''\<rparr>]\<rparr>"

definition loop_env :: ev_env where
  "loop_env = (sample_env join_loop)\<lparr>ee_ids := (\<lambda>_ _. ''x'')\<rparr>"

lemma pass_join_ok:
  assumes "ok_ma_run r"
  shows "\<exists>s. pass_node loop_env r ''j'' pl now n = (Inr s, n + 2) \<and> ok_ma_run s"
proof -
  let ?r = "r\<lparr>ma_active := ''j'', ma_events := ma_events r @ [event_at ''x'' Node_started ''j'' None now,
      event_at ''x'' Node_completed ''j'' (Some pl) now], ma_updated := now\<rparr>"
  have "ok_ma_run ?r"
    using assms by (simp add: ok_ma_run_def ok_ma_event_def event_at_def ok_string_Cons is_js_space_def ok_option_def)
  then show ?thesis
    by (simp add: pass_node_def r_defs loop_env_def parse_ma_run_accepts)
qed

text \<open>
  Validation accepts a graph whose ready join leads back to itself, and entering that join exceeds
  the call stack, however deep it is.
\<close>

theorem join_cycle_overflows:
  "validateAgentGraph join_loop = Inr join_loop
   \<and> (ok_ma_run r \<longrightarrow> fst (enter_node loop_env k r ''j'' n) = Inl range_error)"
proof (intro conjI impI)
  have "parse_agent_graph join_loop = Inr join_loop"
    by (simp add: parse_agent_graph_def join_loop_def parse_graph_edge_def ok_string_check ok_string_Cons is_js_space_def)
  then show "validateAgentGraph join_loop = Inr join_loop"
    by (simp add: validateAgentGraph_iff) (simp add: well_formed_graph_def join_loop_def)
  show "fst (enter_node loop_env k r ''j'' n) = Inl range_error" if "ok_ma_run r"
    using that
  proof (induction k arbitrary: r n)
    case (Suc k)
    let ?pl = "JObj [(''condition'', JStr ''completed'')]"
    obtain s where s: "pass_node loop_env r ''j'' ?pl (ee_now loop_env n) (n + 1) = (Inr s, n + 1 + 2)" "ok_ma_run s"
      using pass_join_ok [OF Suc.prems] by blast
    have "ee_graph loop_env = join_loop" by (simp add: loop_env_def)
    moreover have "requireGraphNode join_loop ''j'' = Inr (Join_node ''j'' [])" "join_next join_loop r ''j'' [] = Some ''j''"
      by (simp_all add: requireGraphNode_def join_next_def nextNodeForCondition_def join_loop_def)
    ultimately show ?case using s Suc.IH [OF s(2)] by (simp add: r_bind_def r_lift_def r_now_def)
  qed (simp add: r_throw_def throw_def range_error_def)
qed

theorem join_cycle_overflows_witness:
  "fst (enter_node loop_env 3 sample_ma_run ''j'' 0) = Inl range_error"
  using join_cycle_overflows [of sample_ma_run 3 0] by simp

definition spaced_graph :: agent_graph where
  "spaced_graph = \<lparr>ag_id = ''g'', ag_start = ''a '', ag_nodes = [Agent_node ''a '' ''x'' None None []], ag_edges = []\<rparr>"

text \<open>
  Validation checks a trimmed copy of the graph but hands back the original: a graph whose start
  node is written with a space is accepted, its run is stored under the trimmed node id, and the next
  task completion of that run fails because the graph has no such node, whatever it reports.
\<close>

theorem untrimmed_graph_accepted:
  "validateAgentGraph spaced_graph = Inr spaced_graph
   \<and> (\<exists>r k. start_run (sample_env spaced_graph) \<lparr>si_thread = ''t'', si_turn = ''u'', si_workspace = ''w'', si_prompt = ''p''\<rparr> 0
        = (Inr r, k) \<and> ma_active r = ''a''
        \<and> (\<forall>inp n. apply_completion (sample_env spaced_graph) inp r n = (throw ''AgentGraph node not found: a'', n)))"
proof
  let ?i = "\<lparr>si_thread = ''t'', si_turn = ''u'', si_workspace = ''w'', si_prompt = ''p''\<rparr>"
  show "validateAgentGraph spaced_graph = Inr spaced_graph" by code_simp
  have "\<not> isl (fst (start_run (sample_env spaced_graph) ?i 0))
      \<and> ma_active (projr (fst (start_run (sample_env spaced_graph) ?i 0))) = ''a''"
    by code_simp
  then obtain r where r: "start_run (sample_env spaced_graph) ?i 0 = (Inr r, snd (start_run (sample_env spaced_graph) ?i 0))"
    "ma_active r = ''a''" by (metis prod.collapse sum.collapse(2))
  then have "apply_completion (sample_env spaced_graph) inp r n = (throw ''AgentGraph node not found: a'', n)" for inp n
    by (simp add: apply_completion_def r_bind_def r_lift_def requireGraphNode_def spaced_graph_def throw_def)
  with r show "\<exists>r k. start_run (sample_env spaced_graph) ?i 0 = (Inr r, k) \<and> ma_active r = ''a''
      \<and> (\<forall>inp n. apply_completion (sample_env spaced_graph) inp r n = (throw ''AgentGraph node not found: a'', n))"
    by blast
qed

end
