(* ===== verification/EventedOps.thy ===== *)
theory EventedOps
  imports EventedProps
begin

text \<open>
  The stored operations of \<open>EventedV2MultiAgentRuntime\<close>: every mutation of a run happens under a lease
  of the run store, as one fenced \<open>update\<close>, and the outbox of the run is flushed into the mailbox under
  the same lease.

  The wait for the lease polls every 5 ms until it is granted or the deadline has passed; it takes fuel,
  and without fuel left the call has not returned (\<open>None\<close>). \<open>withRunLock\<close> makes the operations of one
  process on one run follow each other, so an operation here is one step of the process.
\<close>

record ev_world =
  ew_runs :: ma_store
  ew_mail :: mailbox
  ew_reads :: nat

type_synonym 'a ev_op = "ev_world \<Rightarrow> 'a result \<times> ev_world"

definition lease_ttl :: "ev_env \<Rightarrow> rat" where
  "lease_ttl env = (case ee_ttl env of None \<Rightarrow> 30000 | Some t \<Rightarrow> t)"

fun acquireRunMutationLease :: "ev_env \<Rightarrow> nat \<Rightarrow> string \<Rightarrow> rat \<Rightarrow> ev_world \<Rightarrow> (lease_grant \<times> ev_world) option" where
  "acquireRunMutationLease env 0 i deadline w = None"
| "acquireRunMutationLease env (Suc k) i deadline w = (let n = ew_reads w in
     case ma_acquire i (ee_holder env) (lease_ttl env) (ee_ms env n) (ee_uuid env (n + 1)) (ew_runs w) of
       (g, st) \<Rightarrow>
         if lg_acquired g then Some (g, w\<lparr>ew_runs := st, ew_reads := n + 2\<rparr>)
         else if deadline \<le> of_int (ee_ms env (n + 2)) then Some (g, w\<lparr>ew_runs := st, ew_reads := n + 3\<rparr>)
         else acquireRunMutationLease env k i deadline
           (w\<lparr>ew_runs := ee_others env (n + 2) st, ew_reads := n + 3\<rparr>))"

definition withRunMutationLease :: "ev_env \<Rightarrow> nat \<Rightarrow> string \<Rightarrow> (fence option \<Rightarrow> 'a ev_op) \<Rightarrow> ev_world
    \<Rightarrow> ('a result \<times> ev_world) option" where
  "withRunMutationLease env fuel i operation w =
     (case acquireRunMutationLease env fuel i (of_int (ee_ms env (ew_reads w)) + lease_ttl env)
         (w\<lparr>ew_reads := ew_reads w + 1\<rparr>) of
        None \<Rightarrow> None
      | Some (g, w1) \<Rightarrow> (case (lg_acquired g, lg_fence g) of
          (True, Some f) \<Rightarrow> (case operation (Some f) w1 of (x, w2) \<Rightarrow>
             Some (x, w2\<lparr>ew_runs := ma_release i (ee_holder env) (Some f) (ew_runs w2)\<rparr>))
        | _ \<Rightarrow> Some (throw (''MultiAgentRun lease unavailable: '' @ i), w1)))"

text \<open>\<open>runs.update(runId, mutate, { fence })\<close>.\<close>

definition update_run :: "ev_env \<Rightarrow> string \<Rightarrow> (ma_run \<Rightarrow> ma_run reader) \<Rightarrow> fence option \<Rightarrow> ma_run ev_op" where
  "update_run env i mutate f w = (case ma_update i mutate f None (ee_ms env (ew_reads w)) (ew_runs w)
       (ew_reads w + 1) of
     (x, st, n) \<Rightarrow> (x, w\<lparr>ew_runs := st, ew_reads := n\<rparr>))"

definition deliver_intent :: "ev_env \<Rightarrow> outbox_kind \<Rightarrow> unit ev_op" where
  "deliver_intent env k w = (case k of
      Mailbox_enqueue m \<Rightarrow> (case mailbox_enqueue m (ew_mail w) of (x, mb) \<Rightarrow> (x, w\<lparr>ew_mail := mb\<rparr>))
    | Mailbox_complete i s c \<Rightarrow> (case mailbox_complete i s c (ee_ms env (ew_reads w)) (ew_mail w) of
        (x, mb) \<Rightarrow> (x, w\<lparr>ew_mail := mb, ew_reads := ew_reads w + 1\<rparr>)))"

fun flush_intents :: "ev_env \<Rightarrow> string \<Rightarrow> fence option \<Rightarrow> outbox_intent list \<Rightarrow> ma_run \<Rightarrow> ma_run ev_op" where
  "flush_intents env i f [] latest w = (Inr latest, w)"
| "flush_intents env i f (x # xs) latest w = (case deliver_intent env (oi_kind x) w of
      (Inl e, w') \<Rightarrow> (Inl e, w')
    | (Inr _, w') \<Rightarrow> (case update_run env i (markOutboxPublished env (oi_id x)) f w' of
        (Inl e, w'') \<Rightarrow> (Inl e, w'')
      | (Inr latest', w'') \<Rightarrow> flush_intents env i f xs latest' w''))"

definition flushPendingOutboxUnlocked :: "ev_env \<Rightarrow> string \<Rightarrow> fence option \<Rightarrow> ma_run ev_op" where
  "flushPendingOutboxUnlocked env i f w = (case ma_load i (ew_runs w) of
      None \<Rightarrow> (throw (''MultiAgentRun not found: '' @ i), w)
    | Some cur \<Rightarrow> (case parse_ma_run cur of
        Inl e \<Rightarrow> (Inl e, w)
      | Inr latest \<Rightarrow> flush_intents env i f (filter pending (ma_outbox latest)) latest w))"

definition flushPendingOutbox :: "ev_env \<Rightarrow> nat \<Rightarrow> string \<Rightarrow> ev_world \<Rightarrow> (ma_run result \<times> ev_world) option" where
  "flushPendingOutbox env fuel i = withRunMutationLease env fuel i (flushPendingOutboxUnlocked env i)"

definition handoff :: "ev_env \<Rightarrow> nat \<Rightarrow> handoff_input \<Rightarrow> ev_world \<Rightarrow> (ma_run result \<times> ev_world) option" where
  "handoff env fuel inp = withRunMutationLease env fuel (hi_run inp) (\<lambda>f w.
     case update_run env (hi_run inp) (applyHandoff env inp) f w of
       (Inl e, w') \<Rightarrow> (Inl e, w')
     | (Inr nxt, w') \<Rightarrow> flushPendingOutboxUnlocked env (ma_id nxt) f w')"

definition completeAgentTask :: "ev_env \<Rightarrow> nat \<Rightarrow> completion_input \<Rightarrow> ev_world \<Rightarrow> (ma_run result \<times> ev_world) option" where
  "completeAgentTask env fuel inp = withRunMutationLease env fuel (ci_run inp) (\<lambda>f w.
     case update_run env (ci_run inp) (apply_completion env inp) f w of
       (Inl e, w') \<Rightarrow> (Inl e, w')
     | (Inr nxt, w') \<Rightarrow> (case ci_mailbox inp of
          None \<Rightarrow> (Inr nxt, w') | Some _ \<Rightarrow> flushPendingOutboxUnlocked env (ma_id nxt) f w'))"

definition completeExternalNode :: "ev_env \<Rightarrow> nat \<Rightarrow> external_input \<Rightarrow> ev_world \<Rightarrow> (ma_run result \<times> ev_world) option" where
  "completeExternalNode env fuel inp = withRunMutationLease env fuel (xi_run inp)
     (update_run env (xi_run inp) (apply_external env inp))"

definition start :: "ev_env \<Rightarrow> start_input \<Rightarrow> ma_run ev_op" where
  "start env inp w = (case start_run env inp (ew_reads w) of
      (Inl e, n) \<Rightarrow> (Inl e, w\<lparr>ew_reads := n\<rparr>)
    | (Inr run, n) \<Rightarrow> (case ma_save run (ew_runs w) of
        (Inl e, st) \<Rightarrow> (Inl e, w\<lparr>ew_runs := st, ew_reads := n\<rparr>)
      | (Inr _, st) \<Rightarrow> (Inr run, w\<lparr>ew_runs := st, ew_reads := n\<rparr>)))"

text \<open>\<open>flushAllPendingOutbox\<close>: the runs listed first, each flushed in turn.\<close>

fun flush_runs :: "ev_env \<Rightarrow> nat \<Rightarrow> ma_run list \<Rightarrow> ev_world \<Rightarrow> (ma_run list result \<times> ev_world) option" where
  "flush_runs env fuel [] w = Some (Inr [], w)"
| "flush_runs env fuel (r # rs) w = (case flushPendingOutbox env fuel (ma_id r) w of
      None \<Rightarrow> None
    | Some (Inl e, w') \<Rightarrow> Some (Inl e, w')
    | Some (Inr s, w') \<Rightarrow> (case flush_runs env fuel rs w' of
        None \<Rightarrow> None
      | Some (Inl e, w'') \<Rightarrow> Some (Inl e, w'')
      | Some (Inr ss, w'') \<Rightarrow> Some (Inr (s # ss), w'')))"

definition flushAllPendingOutbox :: "ev_env \<Rightarrow> nat \<Rightarrow> ev_world \<Rightarrow> (ma_run list result \<times> ev_world) option" where
  "flushAllPendingOutbox env fuel w = flush_runs env fuel (ma_listPending (ew_runs w)) w"

fun event_type_name :: "ma_event_type \<Rightarrow> string" where
  "event_type_name Run_started = ''run_started''"
| "event_type_name Node_started = ''node_started''"
| "event_type_name Node_completed = ''node_completed''"
| "event_type_name Handoff_requested = ''handoff_requested''"
| "event_type_name Handoff_delivered = ''handoff_delivered''"
| "event_type_name Run_completed = ''run_completed''"
| "event_type_name Run_failed = ''run_failed''"

definition trace :: "string \<Rightarrow> ma_store \<Rightarrow> string list result" where
  "trace i st = (case ma_load i st of
      None \<Rightarrow> throw (''MultiAgentRun not found: '' @ i)
    | Some r \<Rightarrow> Inr (map (\<lambda>e. event_type_name (me_type e) @ '':'' @ (case me_agent e of
        Some a \<Rightarrow> a | None \<Rightarrow> (case me_node e of Some x \<Rightarrow> x | None \<Rightarrow> ''runtime''))) (ma_events r)))"

section \<open>The outbox reaches the mailbox\<close>

text \<open>Every stored run is well-formed and stored under its id.\<close>

definition ma_well :: "ma_store \<Rightarrow> bool" where
  "ma_well st = (\<forall>i r. ma_load i st = Some r \<longrightarrow> ok_ma_run r \<and> ma_id r = i)"

definition in_mailbox :: "mailbox \<Rightarrow> outbox_intent \<Rightarrow> bool" where
  "in_mailbox mb x = (case oi_kind x of
      Mailbox_enqueue m \<Rightarrow> map_of (mb_messages mb) (mm_id m) \<noteq> None | Mailbox_complete _ _ _ \<Rightarrow> True)"

lemma in_mailbox_keys:
  "in_mailbox mb x \<Longrightarrow> (\<And>k. map_of (mb_messages mb) k \<noteq> None \<Longrightarrow> map_of (mb_messages mb') k \<noteq> None) \<Longrightarrow> in_mailbox mb' x"
  by (auto simp: in_mailbox_def split: outbox_kind.splits)

lemma deliver_intent_effect:
  assumes "deliver_intent env k w = (Inr u, w')" and "ok_outbox_kind k"
  shows "ew_runs w' = ew_runs w
    \<and> (\<forall>i. map_of (mb_messages (ew_mail w)) i \<noteq> None \<longrightarrow> map_of (mb_messages (ew_mail w')) i \<noteq> None)
    \<and> (\<forall>m. k = Mailbox_enqueue m \<longrightarrow> map_of (mb_messages (ew_mail w')) (mm_id m) \<noteq> None)"
  using assms
  by (cases k) (auto simp: deliver_intent_def mailbox_enqueue_def mailbox_complete_def parse_message_accepts
      split: prod.splits option.splits sum.splits if_splits)

definition published_mark :: "string \<Rightarrow> instant \<Rightarrow> outbox_intent \<Rightarrow> outbox_intent" where
  "published_mark i now x = (if oi_id x = i then x\<lparr>oi_status := Out_published, oi_updated := now,
     oi_published := Some (case oi_published x of None \<Rightarrow> now | Some t \<Rightarrow> t)\<rparr> else x)"

lemma update_mark_effect:
  assumes "update_run env i (markOutboxPublished env j) f w = (Inr r', w')" and "ma_well (ew_runs w)"
    and "ma_load i (ew_runs w) = Some r"
  shows "ma_load i (ew_runs w') = Some r' \<and> ma_well (ew_runs w') \<and> ew_mail w' = ew_mail w
    \<and> (\<exists>now. ma_outbox r' = map (published_mark j now) (ma_outbox r))"
proof -
  obtain n where u: "ma_update i (markOutboxPublished env j) f None (ee_ms env (ew_reads w)) (ew_runs w) (ew_reads w + 1)
      = (Inr r', ew_runs w', n)" and mail: "ew_mail w' = ew_mail w"
    using assms(1) by (auto simp: update_run_def split: prod.splits)
  from ma_update_Inr [OF u] assms(3) obtain x where
    x: "markOutboxPublished env j r (ew_reads w + 1) = (Inr x, n)" "parse_ma_run x = Inr r'"
    and l: "ma_load i (ew_runs w') = Some r'" "ok_ma_run r'" "ma_id r' = i"
      "\<forall>k. k \<noteq> i \<longrightarrow> ma_load k (ew_runs w') = ma_load k (ew_runs w)"
    by auto
  have okr: "ok_ma_run r" using assms(2,3) by (simp add: ma_well_def)
  from x(1) obtain now where p: "parse_ma_run (r\<lparr>ma_outbox := map (published_mark j now) (ma_outbox r), ma_updated := now\<rparr>) = Inr x"
    by (auto simp: markOutboxPublished_def reader_simps map_when_def published_mark_def [abs_def])
  then have "r' = x" using x(2) parse_ma_run_accepts [OF parse_ma_run_ok [OF p]] by simp
  moreover have "map_result parse_intent_of (map (published_mark j now) (ma_outbox r)) = Inr (map (published_mark j now) (ma_outbox r))"
    using okr by (auto simp: ok_ma_run_def list_all_iff published_mark_def ok_outbox_def
        intro!: map_result_id parse_intent_of_accepts)
  then have "ma_outbox x = map (published_mark j now) (ma_outbox r)"
    using parse_ma_run_parts(3) [OF p] by simp
  moreover have "ma_well (ew_runs w')"
    unfolding ma_well_def
  proof (intro allI impI)
    fix k s
    assume "ma_load k (ew_runs w') = Some s"
    with l assms(2) show "ok_ma_run s \<and> ma_id s = k" by (cases "k = i") (auto simp: ma_well_def)
  qed
  ultimately show ?thesis using l mail by blast
qed

lemma pending_mark: "pending (published_mark j now x) \<longleftrightarrow> pending x \<and> oi_id x \<noteq> j"
  by (auto simp: pending_def published_mark_def)

lemma flush_intents_effect:
  assumes "flush_intents env i f xs r w = (Inr s, w')" and "ma_well (ew_runs w)"
    and "ma_load i (ew_runs w) = Some r" and "\<forall>x \<in> set xs. ok_outbox x"
  shows "ma_load i (ew_runs w') = Some s \<and> ma_well (ew_runs w')
    \<and> map oi_id (ma_outbox s) = map oi_id (ma_outbox r) \<and> map oi_kind (ma_outbox s) = map oi_kind (ma_outbox r)
    \<and> (\<forall>y \<in> set (ma_outbox s). pending y \<longrightarrow> oi_id y \<notin> oi_id ` set xs \<and> (\<exists>x \<in> set (ma_outbox r). pending x \<and> oi_id x = oi_id y))
    \<and> (\<forall>k. map_of (mb_messages (ew_mail w)) k \<noteq> None \<longrightarrow> map_of (mb_messages (ew_mail w')) k \<noteq> None)
    \<and> (\<forall>x \<in> set xs. in_mailbox (ew_mail w') x)"
  using assms
proof (induction xs arbitrary: r w)
  case (Cons x xs)
  from Cons.prems(1) obtain w1 r1 w2 where d: "deliver_intent env (oi_kind x) w = (Inr (), w1)"
    and u: "update_run env i (markOutboxPublished env (oi_id x)) f w1 = (Inr r1, w2)"
    and rest: "flush_intents env i f xs r1 w2 = (Inr s, w')"
    by (auto split: prod.splits sum.splits)
  have "ok_outbox_kind (oi_kind x)" using Cons.prems(4) by (simp add: ok_outbox_def)
  note de = deliver_intent_effect [OF d this]
  from update_mark_effect [OF u] de Cons.prems(2,3) obtain now where
    ue: "ma_load i (ew_runs w2) = Some r1" "ma_well (ew_runs w2)" "ew_mail w2 = ew_mail w1"
      "ma_outbox r1 = map (published_mark (oi_id x) now) (ma_outbox r)" by auto
  note ih = Cons.IH [OF rest ue(2,1)]
  have mono: "map_of (mb_messages (ew_mail w)) k \<noteq> None \<Longrightarrow> map_of (mb_messages (ew_mail w')) k \<noteq> None"
    "map_of (mb_messages (ew_mail w1)) k \<noteq> None \<Longrightarrow> map_of (mb_messages (ew_mail w')) k \<noteq> None" for k
    using ih Cons.prems(4) de ue(3) by simp_all
  have "in_mailbox (ew_mail w1) x" using de by (auto simp: in_mailbox_def split: outbox_kind.splits)
  then have inx: "in_mailbox (ew_mail w') x" using in_mailbox_keys mono(2) by blast
  have ids: "map oi_id (ma_outbox r1) = map oi_id (ma_outbox r)" "map oi_kind (ma_outbox r1) = map oi_kind (ma_outbox r)"
    by (auto simp: ue(4) published_mark_def)
  have "oi_id y \<notin> oi_id ` set (x # xs) \<and> (\<exists>z \<in> set (ma_outbox r). pending z \<and> oi_id z = oi_id y)"
    if y: "y \<in> set (ma_outbox s)" "pending y" for y
  proof -
    from ih Cons.prems(4) y obtain z where z: "oi_id y \<notin> oi_id ` set xs" "z \<in> set (ma_outbox r1)" "pending z" "oi_id z = oi_id y"
      by auto
    then obtain z0 where "z0 \<in> set (ma_outbox r)" "z = published_mark (oi_id x) now z0" using ue(4) by auto
    with z show ?thesis by (auto simp: pending_mark) (auto simp: published_mark_def split: if_splits)
  qed
  with ih Cons.prems(4) ids inx mono show ?case by auto
qed auto

text \<open>Every message of an intent that was marked as published is in the mailbox.\<close>

definition outbox_delivered :: "mailbox \<Rightarrow> ma_run \<Rightarrow> bool" where
  "outbox_delivered mb r = (\<forall>x \<in> set (ma_outbox r). pending x \<or> in_mailbox mb x)"

lemma in_mailbox_kind: "oi_kind x = oi_kind y \<Longrightarrow> in_mailbox mb x \<longleftrightarrow> in_mailbox mb y"
  by (simp add: in_mailbox_def)

lemma same_kinds_mem:
  assumes "map oi_kind xs = map oi_kind ys" and "x \<in> set xs"
  shows "\<exists>y \<in> set ys. oi_kind y = oi_kind x"
proof -
  have "oi_kind x \<in> set (map oi_kind xs)" using assms(2) by simp
  then show ?thesis unfolding assms(1) by auto
qed

lemma flushUnlocked_effect:
  assumes "flushPendingOutboxUnlocked env i f w = (Inr s, w')" and "ma_well (ew_runs w)"
    and "ma_load i (ew_runs w) = Some r" and "outbox_delivered (ew_mail w) r"
  shows "ma_load i (ew_runs w') = Some s \<and> ma_well (ew_runs w') \<and> map oi_kind (ma_outbox s) = map oi_kind (ma_outbox r)
    \<and> (\<forall>x \<in> set (ma_outbox s). \<not> pending x \<and> in_mailbox (ew_mail w') x)"
proof -
  have ok: "ok_ma_run r" using assms(2,3) by (simp add: ma_well_def)
  have fl: "flush_intents env i f (filter pending (ma_outbox r)) r w = (Inr s, w')"
    using assms(1,3) parse_ma_run_accepts [OF ok] by (simp add: flushPendingOutboxUnlocked_def)
  have "\<forall>x \<in> set (filter pending (ma_outbox r)). ok_outbox x" using ok by (auto simp: ok_ma_run_def list_all_iff)
  note e = flush_intents_effect [OF fl assms(2,3) this]
  have "in_mailbox (ew_mail w') x" if "x \<in> set (ma_outbox s)" for x
  proof -
    have "map oi_kind (ma_outbox s) = map oi_kind (ma_outbox r)" using e by (elim conjE)
    from same_kinds_mem [OF this that] obtain y where y: "y \<in> set (ma_outbox r)" "oi_kind y = oi_kind x" by blast
    have "in_mailbox (ew_mail w') y"
      using e y(1) assms(4) in_mailbox_keys [of "ew_mail w" y "ew_mail w'"]
      by (cases "pending y") (auto simp: outbox_delivered_def)
    with in_mailbox_kind [OF y(2)] show ?thesis by simp
  qed
  moreover have "\<not> pending x" if "x \<in> set (ma_outbox s)" for x
  proof
    assume px: "pending x"
    have "\<forall>y \<in> set (ma_outbox s). pending y \<longrightarrow> oi_id y \<notin> oi_id ` set (filter pending (ma_outbox r))
        \<and> (\<exists>z \<in> set (ma_outbox r). pending z \<and> oi_id z = oi_id y)"
      using e by (elim conjE)
    from bspec [OF this that] px obtain y where "oi_id x \<notin> oi_id ` set (filter pending (ma_outbox r))"
      "y \<in> set (ma_outbox r)" "pending y" "oi_id x = oi_id y" by metis
    then show False using image_eqI [of "oi_id x" oi_id y "set (filter pending (ma_outbox r))"] by simp
  qed
  moreover have "ma_load i (ew_runs w') = Some s" "ma_well (ew_runs w')"
    "map oi_kind (ma_outbox s) = map oi_kind (ma_outbox r)" using e by - (elim conjE, assumption)+
  ultimately show ?thesis by blast
qed

lemma acquire_runs: "as_runs (snd (ma_acquire i h ttl now token st)) = as_runs st"
  by (simp add: ma_acquire_def split: prod.splits)

lemma ma_load_cong: "as_runs st' = as_runs st \<Longrightarrow> ma_load i st' = ma_load i st"
  by (simp add: ma_load_def)

lemma ma_well_cong: "as_runs st' = as_runs st \<Longrightarrow> ma_well st' = ma_well st"
  by (simp add: ma_well_def ma_load_def)

text \<open>What the other workers may do during the wait: the runs stay well-formed and their outboxes delivered.\<close>

definition fair_others :: "ev_env \<Rightarrow> bool" where
  "fair_others env = (\<forall>n st. as_runs (ee_others env n st) = as_runs st)"

lemma acquireRunMutationLease_effect:
  assumes "acquireRunMutationLease env k i d w = Some (g, w')" and "fair_others env"
  shows "as_runs (ew_runs w') = as_runs (ew_runs w) \<and> ew_mail w' = ew_mail w"
  using assms(1)
proof (induction k arbitrary: w)
  case (Suc k)
  show ?case
    using Suc.prems Suc.IH assms(2) acquire_runs [of i "ee_holder env" "lease_ttl env" "ee_ms env (ew_reads w)"
        "ee_uuid env (ew_reads w + 1)" "ew_runs w"]
    by (fastforce simp: Let_def fair_others_def split: prod.splits if_splits)
qed simp

lemma withRunMutationLease_effect:
  assumes "withRunMutationLease env fuel i operation w = Some (Inr s, w')" and "fair_others env"
  obtains f w1 w2 where "as_runs (ew_runs w1) = as_runs (ew_runs w)" "ew_mail w1 = ew_mail w"
    "operation (Some f) w1 = (Inr s, w2)" "w' = w2\<lparr>ew_runs := ma_release i (ee_holder env) (Some f) (ew_runs w2)\<rparr>"
proof -
  from assms(1) obtain g w1 where
    a: "acquireRunMutationLease env fuel i (of_int (ee_ms env (ew_reads w)) + lease_ttl env)
         (w\<lparr>ew_reads := ew_reads w + 1\<rparr>) = Some (g, w1)"
    by (auto simp: withRunMutationLease_def split: option.splits)
  from assms(1) a obtain f w2 where "operation (Some f) w1 = (Inr s, w2)"
    "w' = w2\<lparr>ew_runs := ma_release i (ee_holder env) (Some f) (ew_runs w2)\<rparr>"
    by (auto simp: withRunMutationLease_def split: bool.splits option.splits prod.splits)
  with acquireRunMutationLease_effect [OF a assms(2)] show thesis by (intro that [of w1 f w2]) simp_all
qed

lemma release_runs: "as_runs (ma_release i h f st) = as_runs st"
  by (simp add: ma_release_def)

lemma update_run_Inr:
  assumes "update_run env i mutate f w = (Inr s, w')" and "ma_well (ew_runs w)"
  obtains r x n n' where "ma_load i (ew_runs w) = Some r" "mutate r n = (Inr x, n')" "parse_ma_run x = Inr s"
    "ma_load i (ew_runs w') = Some s" "ma_id s = i" "ma_well (ew_runs w')" "ew_mail w' = ew_mail w"
proof -
  obtain n where u: "ma_update i mutate f None (ee_ms env (ew_reads w)) (ew_runs w) (ew_reads w + 1) = (Inr s, ew_runs w', n)"
    and mail: "ew_mail w' = ew_mail w"
    using assms(1) by (auto simp: update_run_def split: prod.splits)
  note e = ma_update_Inr [OF u]
  have "ma_well (ew_runs w')"
    unfolding ma_well_def
  proof (intro allI impI)
    fix k t
    assume "ma_load k (ew_runs w') = Some t"
    with e assms(2) show "ok_ma_run t \<and> ma_id t = k" by (cases "k = i") (auto simp: ma_well_def)
  qed
  with e mail that show thesis by blast
qed


definition sample_world :: ev_world where
  "sample_world = \<lparr>ew_runs = \<lparr>as_runs = [(''r'', managed_run)], as_versions = [(''r'', 0)],
       as_leases = \<lparr>t_leases = [], t_epochs = []\<rparr>\<rparr>,
     ew_mail = \<lparr>mb_messages = [], mb_epochs = []\<rparr>, ew_reads = 0\<rparr>"

lemma sample_world_facts:
  "ma_well (ew_runs sample_world)" "ma_load ''r'' (ew_runs sample_world) = Some managed_run"
  "outbox_delivered (ew_mail sample_world) managed_run" "fair_others (sample_env g)"
  using managed_run_ok
  by (auto simp: ma_well_def sample_world_def ma_load_def outbox_delivered_def fair_others_def sample_env_def
      managed_run_def sample_ma_run_def split: if_splits)

definition handoff_succeeds :: "(ma_run result \<times> ev_world) option \<Rightarrow> bool" where
  "handoff_succeeds x = (case x of Some (Inr _, _) \<Rightarrow> True | _ \<Rightarrow> False)"

lemma sample_handoff_succeeds:
  "handoff_succeeds (handoff (sample_env (specialist_graph ''m'' ''c'')) 1 sample_handoff sample_world)"
  by code_simp


text \<open>
  Delivery is repeated when a crash falls between the mailbox call and the update that marks the intent:
  a repeated enqueue finds the message and keeps it.
\<close>

lemma update_same: "map_of m k = Some v \<Longrightarrow> AList.update k v m = m"
  by (induction m) auto

lemma mailbox_step_keeps_key:
  assumes "mailbox_step mb mb'" and "mailbox_well mb" and "map_of (mb_messages mb) i \<noteq> None"
  shows "map_of (mb_messages mb') i \<noteq> None"
  using assms(1)
proof cases
  case (enqueue n)
  with mailbox_enqueue_effect [of n mb] assms(3) show ?thesis by auto
next
  case (claim agent opt now token)
  obtain x where x: "mailbox_claimNext agent opt now token mb = (x, mb')" using claim by (metis prod.collapse)
  from mailbox_claimNext_effect [OF assms(2) x] assms(3) show ?thesis by (elim disjE exE conjE) auto
next
  case (complete j s f now)
  with mailbox_complete_effect [OF assms(2), of j s f now] assms(3) show ?thesis by auto
qed

text \<open>
  Redelivery is harmless: once a queued message was enqueued, enqueueing it again, after any
  operations on the mailbox, changes nothing.
\<close>

theorem redelivery_harmless:
  assumes "mailbox_enqueue m mb = (Inr (), mb1)" and "mm_status m = Msg_queued" and "mm_claim m = None"
    and "mailbox_well mb" and "mailbox_step\<^sup>*\<^sup>* mb1 mb2"
  shows "mailbox_enqueue m mb2 = (Inr (), mb2)"
proof -
  from assms(1) obtain p where p: "parse_message m = Inr p" and mb1: "mb1 = snd (mailbox_enqueue m mb)"
    "map_of (mb_messages mb1) (mm_id p) \<noteq> None"
    by (auto simp: mailbox_enqueue_def split: sum.splits)
  have queued: "mm_status p = Msg_queued" using p assms(2) by (auto simp: parse_message_def result_simps)
  have "mailbox_well mb1"
    using mailbox_step_effect [OF assms(4) mailbox_step.enqueue [OF assms(3)]] mb1(1) by simp
  with assms(5) mb1(2) have "mailbox_well mb2 \<and> map_of (mb_messages mb2) (mm_id p) \<noteq> None"
    by (induction rule: rtranclp_induct)
      (use mailbox_step_keeps_key mailbox_step_effect in blast)+
  then obtain old where "map_of (mb_messages mb2) (mm_id p) = Some old" by auto
  then show ?thesis using p queued update_same
    by (simp add: mailbox_enqueue_def preserveMailboxProgress_def update_same)
qed

theorem redelivery_harmless_witness:
  "mailbox_enqueue sample_message claimed_mailbox = (Inr (), claimed_mailbox)"
proof (rule redelivery_harmless)
  let ?mb = "\<lparr>mb_messages = [], mb_epochs = []\<rparr>"
  show "mailbox_enqueue sample_message ?mb = (Inr (), sample_mailbox)"
    by (simp add: sample_mailbox_def mailbox_enqueue_def parse_message_accepts)
  show "mailbox_well ?mb" by (simp add: mailbox_well_def)
  show "mailbox_step\<^sup>*\<^sup>* sample_mailbox claimed_mailbox"
    unfolding claimed_mailbox_def by (rule r_into_rtranclp, rule mailbox_step.claim)
qed (simp_all add: sample_message_def)

end
