(* ===== verification/EventedWorkers.thy ===== *)
theory EventedWorkers
  imports EventedOps
begin

text \<open>
  The loops around the multi-agent runtime, from \<open>loop/src/evented-v2-multi-agent-runtime.ts\<close>: the agent
  worker, the remote worker, the scheduler of remote workers and the outbox reconciler; and the run
  metrics of \<open>loop/src/evented-v2-observability.ts\<close>.

  The task handler and the call to a peer are arguments. A peer call returns an artifact or fails; a
  failure says whether it is an \<open>AbortError\<close> and, when the invocation signal was aborted, with which
  reason. Timers are a flag: whether the interval is set.
\<close>

section \<open>Workers\<close>

record worker_options =
  wo_worker :: "string option"
  wo_ttl :: "rat option"

definition mailboxClaimOptions :: "worker_options \<Rightarrow> claim_options option" where
  "mailboxClaimOptions o' = (case (wo_worker o', wo_ttl o') of
      (Some h, Some t) \<Rightarrow> (if h = [] then None else Some \<lparr>co_holder = h, co_ttl = t\<rparr>)
    | _ \<Rightarrow> None)"

definition claim_message :: "ev_env \<Rightarrow> worker_options \<Rightarrow> string \<Rightarrow> mailbox_message option ev_op" where
  "claim_message env wo agent w = (case mailbox_claimNext agent (mailboxClaimOptions wo) (ee_ms env (ew_reads w))
       (ee_uuid env (ew_reads w + 1)) (ew_mail w) of
     (x, mb) \<Rightarrow> (x, w\<lparr>ew_mail := mb, ew_reads := ew_reads w + 2\<rparr>))"

record task_result =
  tr_condition :: "string option"
  tr_summary :: "string option"

record process_result =
  pr_processed :: bool
  pr_run :: "string option"
  pr_message :: "string option"
  pr_card :: "string option"
  pr_status :: "final_status option"

definition not_processed :: process_result where
  "not_processed = \<lparr>pr_processed = False, pr_run = None, pr_message = None, pr_card = None, pr_status = None\<rparr>"

definition agent_process_next :: "ev_env \<Rightarrow> nat \<Rightarrow> worker_options \<Rightarrow> string
    \<Rightarrow> (mailbox_message \<Rightarrow> task_result ev_op) \<Rightarrow> ev_world \<Rightarrow> (process_result result \<times> ev_world) option" where
  "agent_process_next env fuel wo agent handler w = (case claim_message env wo agent w of
      (Inl e, w1) \<Rightarrow> Some (Inl e, w1)
    | (Inr None, w1) \<Rightarrow> Some (Inr not_processed, w1)
    | (Inr (Some m), w1) \<Rightarrow> (case handler m w1 of
        (Inl e, w2) \<Rightarrow> Some (Inl e, w2)
      | (Inr r, w2) \<Rightarrow> (case completeAgentTask env fuel \<lparr>ci_run = mm_run m, ci_agent = agent,
            ci_condition = Some (case tr_condition r of None \<Rightarrow> ''completed'' | Some c \<Rightarrow> c),
            ci_status = None, ci_summary = tr_summary r, ci_error = None, ci_artifact = None,
            ci_mailbox = Some \<lparr>mc_message = mm_id m, mc_status = Done_completed, mc_fence = mm_claim m\<rparr>\<rparr> w2 of
          None \<Rightarrow> None
        | Some (Inl e, w3) \<Rightarrow> Some (Inl e, w3)
        | Some (Inr _, w3) \<Rightarrow> Some (Inr (not_processed\<lparr>pr_processed := True, pr_run := Some (mm_run m),
            pr_message := Some (mm_id m)\<rparr>), w3))))"

record peer_task =
  pt_prompt :: string
  pt_workspace :: "string option"
  pt_label :: string

datatype peer_reply =
    Peer_artifact peer_artifact
  | Peer_failed (pf_error: string) (pf_abort: bool) (pf_reason: "string option")

record remote_options =
  ro_worker :: worker_options
  ro_runs :: bool
  ro_peers :: "string \<Rightarrow> string option"
  ro_policy :: "final_status \<Rightarrow> string option"
  ro_stringify :: "json \<Rightarrow> string"
  ro_invoke :: "string \<Rightarrow> peer_task \<Rightarrow> peer_reply"

definition promptFromMailboxMessage :: "(json \<Rightarrow> string) \<Rightarrow> mailbox_message \<Rightarrow> string" where
  "promptFromMailboxMessage stringify m = (case map_of (mm_payload m) ''prompt'' of
      Some (JStr p) \<Rightarrow> (if trim p \<noteq> [] then p else stringify (JObj (mm_payload m)))
    | _ \<Rightarrow> stringify (JObj (mm_payload m)))"

definition conditionFromPeerArtifact :: "(final_status \<Rightarrow> string option) \<Rightarrow> peer_artifact \<Rightarrow> string" where
  "conditionFromPeerArtifact policy a = (case policy (pa_status a) of
      Some c \<Rightarrow> (if c \<noteq> [] then c else final_name (pa_status a))
    | None \<Rightarrow> final_name (pa_status a))"

definition isAbortLikeError :: "peer_reply \<Rightarrow> bool" where
  "isAbortLikeError r = (case r of Peer_artifact _ \<Rightarrow> False | Peer_failed _ ab reason \<Rightarrow> reason \<noteq> None \<or> ab)"

definition abortedPeerArtifact :: "string \<Rightarrow> string \<Rightarrow> string option \<Rightarrow> peer_artifact" where
  "abortedPeerArtifact cardId error reason = \<lparr>pa_card = cardId, pa_status = Done_aborted, pa_summary = None,
     pa_error = Some (case reason of None \<Rightarrow> error | Some x \<Rightarrow> x), pa_artifacts = None\<rparr>"

definition peer_artifact_of :: "string \<Rightarrow> peer_reply \<Rightarrow> peer_artifact result" where
  "peer_artifact_of cardId r = (case r of
      Peer_artifact a \<Rightarrow> Inr a
    | Peer_failed error ab reason \<Rightarrow>
        if isAbortLikeError r then Inr (abortedPeerArtifact cardId error reason) else throw error)"

definition remote_task :: "remote_options \<Rightarrow> string \<Rightarrow> mailbox_message \<Rightarrow> ma_store \<Rightarrow> peer_task" where
  "remote_task ro agent m st = \<lparr>pt_prompt = promptFromMailboxMessage (ro_stringify ro) m,
     pt_workspace = (case (if ro_runs ro then ma_load (mm_run m) st else None) of
        None \<Rightarrow> None | Some r \<Rightarrow> (if ma_workspace r = [] then None else Some (ma_workspace r))),
     pt_label = ''evented_v2:'' @ agent\<rparr>"

definition remote_process_next :: "ev_env \<Rightarrow> nat \<Rightarrow> remote_options \<Rightarrow> string \<Rightarrow> ev_world
    \<Rightarrow> (process_result result \<times> ev_world) option" where
  "remote_process_next env fuel ro agent w = (case claim_message env (ro_worker ro) agent w of
      (Inl e, w1) \<Rightarrow> Some (Inl e, w1)
    | (Inr None, w1) \<Rightarrow> Some (Inr not_processed, w1)
    | (Inr (Some m), w1) \<Rightarrow> (case (case ro_peers ro agent of None \<Rightarrow> [] | Some c \<Rightarrow> c) of
        [] \<Rightarrow> Some (throw (''No peer binding configured for evented_v2 agent: '' @ agent), w1)
      | ch # cs \<Rightarrow> let cardId = ch # cs in
        (case peer_artifact_of cardId (ro_invoke ro cardId (remote_task ro agent m (ew_runs w1))) of
          Inl e \<Rightarrow> Some (Inl e, w1)
        | Inr a \<Rightarrow> (case completeAgentTask env fuel \<lparr>ci_run = mm_run m, ci_agent = agent,
              ci_condition = Some (conditionFromPeerArtifact (ro_policy ro) a),
              ci_status = Some (pa_status a),
              ci_summary = (case pa_summary a of None \<Rightarrow> pa_error a | Some x \<Rightarrow> Some x),
              ci_error = pa_error a, ci_artifact = Some a,
              ci_mailbox = Some \<lparr>mc_message = mm_id m, mc_status = pa_status a, mc_fence = mm_claim m\<rparr>\<rparr> w1 of
            None \<Rightarrow> None
          | Some (Inl e, w3) \<Rightarrow> Some (Inl e, w3)
          | Some (Inr _, w3) \<Rightarrow> Some (Inr \<lparr>pr_processed = True, pr_run = Some (mm_run m),
              pr_message = Some (mm_id m), pr_card = Some cardId, pr_status = Some (pa_status a)\<rparr>, w3)))))"

section \<open>The scheduler of remote workers\<close>

record scheduler_options =
  so_worker :: "string option"
  so_registry :: bool
  so_heartbeatTtl :: "rat option"
  so_agents :: "string list"
  so_interval :: rat

record scheduler =
  sc_timer :: bool
  sc_flushes :: nat
  sc_messages :: nat
  sc_errors :: nat
  sc_consecutive :: nat
  sc_lastMessages :: "string list"
  sc_flushStarted :: "instant option"
  sc_flushFinished :: "instant option"
  sc_lastHeartbeat :: "instant option"
  sc_workers :: worker_registry

datatype health = Healthy | Degraded_health | Stopped_health

definition scheduler_new :: "(rat \<Rightarrow> string) \<Rightarrow> scheduler_options \<Rightarrow> scheduler result" where
  "scheduler_new show_num opt =
     bind_result (assert_that (0 < so_interval opt)
       (''EventedV2RemoteAgentScheduler intervalMs must be positive: '' @ show_num (so_interval opt))) (\<lambda>_.
     bind_result (case so_heartbeatTtl opt of None \<Rightarrow> Inr () | Some t \<Rightarrow> assert_that (0 < t)
       (''EventedV2RemoteAgentScheduler heartbeatTtlMs must be positive: '' @ show_num t)) (\<lambda>_.
     Inr \<lparr>sc_timer = False, sc_flushes = 0, sc_messages = 0, sc_errors = 0, sc_consecutive = 0,
       sc_lastMessages = [], sc_flushStarted = None, sc_flushFinished = None, sc_lastHeartbeat = None,
       sc_workers = []\<rparr>))"

definition scheduler_start :: "scheduler \<Rightarrow> scheduler" where
  "scheduler_start s = (if sc_timer s then s else s\<lparr>sc_timer := True\<rparr>)"

definition scheduler_stop :: "scheduler \<Rightarrow> scheduler" where
  "scheduler_stop s = (if \<not> sc_timer s then s else s\<lparr>sc_timer := False\<rparr>)"

definition scheduler_health :: "scheduler \<Rightarrow> health" where
  "scheduler_health s = (if \<not> sc_timer s then Stopped_health
     else if 0 < sc_consecutive s then Degraded_health else Healthy)"

text \<open>
  One pass over the agents: \<open>poll\<close> is the worker's \<open>processNext\<close>. The result counts what was processed
  and what failed, and lists the message ids in order.
\<close>

record flush_counts =
  fl_processed :: nat
  fl_errors :: nat
  fl_messages :: "string list"

fun poll_agents :: "(string \<Rightarrow> 'w \<Rightarrow> process_result result \<times> 'w) \<Rightarrow> string list \<Rightarrow> flush_counts \<Rightarrow> 'w \<Rightarrow> flush_counts \<times> 'w" where
  "poll_agents poll [] c w = (c, w)"
| "poll_agents poll (a # as) c w = (case poll a w of
      (Inl e, w') \<Rightarrow> poll_agents poll as (c\<lparr>fl_errors := fl_errors c + 1\<rparr>) w'
    | (Inr r, w') \<Rightarrow> poll_agents poll as
        (if pr_processed r
         then c\<lparr>fl_processed := fl_processed c + 1,
           fl_messages := fl_messages c @ (case pr_message r of None \<Rightarrow> [] | Some i \<Rightarrow> (if i = [] then [] else [i]))\<rparr>
         else c) w')"

definition scheduler_id :: "scheduler_options \<Rightarrow> string" where
  "scheduler_id opt = (case so_worker opt of None \<Rightarrow> ''evented_v2_remote_scheduler'' | Some i \<Rightarrow> i)"

definition recordWorkerHeartbeat :: "scheduler_options \<Rightarrow> instant \<Rightarrow> scheduler \<Rightarrow> scheduler" where
  "recordWorkerHeartbeat opt beat s = (if \<not> so_registry opt then s
     else (case recordHeartbeat (scheduler_id opt) (so_agents opt) beat
          (case so_heartbeatTtl opt of None \<Rightarrow> max (so_interval opt * 3) 1 | Some t \<Rightarrow> t) (sc_workers s) of
        (Inr _, reg) \<Rightarrow> s\<lparr>sc_workers := reg\<rparr>
      | (Inl _, reg) \<Rightarrow> s\<lparr>sc_workers := reg, sc_errors := sc_errors s + 1, sc_consecutive := sc_consecutive s + 1\<rparr>))"

record flush_result =
  fr_agents :: "string list"
  fr_checked :: nat
  fr_processed :: nat
  fr_messages :: "string list"
  fr_started :: instant
  fr_finished :: instant

definition scheduler_flush :: "scheduler_options \<Rightarrow> (string \<Rightarrow> 'w \<Rightarrow> process_result result \<times> 'w) \<Rightarrow> instant \<Rightarrow> instant
    \<Rightarrow> scheduler \<Rightarrow> 'w \<Rightarrow> flush_result \<times> scheduler \<times> 'w" where
  "scheduler_flush opt poll started finished s w =
     (case poll_agents poll (so_agents opt) \<lparr>fl_processed = 0, fl_errors = 0, fl_messages = []\<rparr> w of (c, w') \<Rightarrow>
       (\<lparr>fr_agents = so_agents opt, fr_checked = length (so_agents opt), fr_processed = fl_processed c,
          fr_messages = fl_messages c, fr_started = started, fr_finished = finished\<rparr>,
        recordWorkerHeartbeat opt finished (s\<lparr>sc_flushStarted := Some started, sc_errors := sc_errors s + fl_errors c,
          sc_flushes := sc_flushes s + 1, sc_messages := sc_messages s + fl_processed c,
          sc_consecutive := (if 0 < fl_errors c then sc_consecutive s + fl_errors c else 0),
          sc_lastMessages := fl_messages c, sc_flushFinished := Some finished, sc_lastHeartbeat := Some finished\<rparr>),
        w'))"

section \<open>The outbox reconciler\<close>

record reconciler_result =
  rr_runs :: "string list"
  rr_flushed :: nat
  rr_started :: instant
  rr_finished :: instant

definition reconciler_flush :: "ev_env \<Rightarrow> nat \<Rightarrow> ev_world \<Rightarrow> (reconciler_result result \<times> ev_world) option" where
  "reconciler_flush env fuel w = (case flushAllPendingOutbox env fuel (w\<lparr>ew_reads := ew_reads w + 1\<rparr>) of
      None \<Rightarrow> None
    | Some (Inl e, w') \<Rightarrow> Some (Inl e, w')
    | Some (Inr rs, w') \<Rightarrow> Some (Inr \<lparr>rr_runs = map ma_id rs, rr_flushed = length rs,
        rr_started = ee_now env (ew_reads w), rr_finished = ee_now env (ew_reads w')\<rparr>,
        w'\<lparr>ew_reads := ew_reads w' + 1\<rparr>))"

section \<open>Metrics\<close>

record run_metrics =
  rm_total :: nat
  rm_byStatus :: "(ma_status, nat) jsmap"
  rm_agents :: nat
  rm_agentsByStatus :: "(agent_status, nat) jsmap"
  rm_agentsByAgent :: "(string, nat) jsmap"
  rm_outbox :: nat
  rm_pending :: nat
  rm_published :: nat
  rm_runsPending :: nat

definition increment :: "'k \<Rightarrow> ('k, nat) jsmap \<Rightarrow> ('k, nat) jsmap" where
  "increment k m = AList.update k (get_or 0 m k + 1) m"

definition count_agent :: "agent_run \<Rightarrow> run_metrics \<Rightarrow> run_metrics" where
  "count_agent a m = m\<lparr>rm_agents := rm_agents m + 1, rm_agentsByStatus := increment (ar_status a) (rm_agentsByStatus m),
     rm_agentsByAgent := increment (ar_agent a) (rm_agentsByAgent m)\<rparr>"

definition count_intent :: "outbox_intent \<Rightarrow> run_metrics \<Rightarrow> run_metrics" where
  "count_intent x m = m\<lparr>rm_outbox := rm_outbox m + 1,
     rm_pending := rm_pending m + (if oi_status x = Out_pending then 1 else 0),
     rm_published := rm_published m + (if oi_status x = Out_published then 1 else 0)\<rparr>"

definition count_run :: "ma_run \<Rightarrow> run_metrics \<Rightarrow> run_metrics" where
  "count_run r m = fold count_intent (ma_outbox r) (fold count_agent (ma_agents r)
     (m\<lparr>rm_byStatus := increment (ma_status r) (rm_byStatus m),
        rm_runsPending := rm_runsPending m + (if list_ex pending (ma_outbox r) then 1 else 0)\<rparr>))"

definition buildEventedV2RunMetrics :: "ma_run list \<Rightarrow> run_metrics" where
  "buildEventedV2RunMetrics rs = fold count_run rs
     \<lparr>rm_total = length rs, rm_byStatus = [], rm_agents = 0, rm_agentsByStatus = [], rm_agentsByAgent = [],
       rm_outbox = 0, rm_pending = 0, rm_published = 0, rm_runsPending = 0\<rparr>"

definition metrics :: "ma_store \<Rightarrow> run_metrics" where
  "metrics st = buildEventedV2RunMetrics (ma_listAll st)"

section \<open>What the metrics count\<close>

lemma get_increment: "get_or 0 (increment k m) j = get_or 0 m j + (if j = k then 1 else 0)"
  by (simp add: increment_def)

lemma sum_increment: "sum_list (map snd (increment k m)) = sum_list (map snd m) + (1 :: nat)"
proof -
  have "sum_list (map snd (AList.update k v m)) + get_or 0 m k = sum_list (map snd m) + v" for v :: nat
    by (induction m) (auto simp: get_or_def)
  from this [of "get_or 0 m k + 1"] show ?thesis by (simp add: increment_def)
qed

lemma fold_count_agent:
  "rm_agents (fold count_agent as m) = rm_agents m + length as"
  "sum_list (map snd (rm_agentsByStatus (fold count_agent as m))) = sum_list (map snd (rm_agentsByStatus m)) + length as"
  "sum_list (map snd (rm_agentsByAgent (fold count_agent as m))) = sum_list (map snd (rm_agentsByAgent m)) + length as"
  "rm_byStatus (fold count_agent as m) = rm_byStatus m" "rm_total (fold count_agent as m) = rm_total m"
  "rm_outbox (fold count_agent as m) = rm_outbox m" "rm_pending (fold count_agent as m) = rm_pending m"
  "rm_published (fold count_agent as m) = rm_published m" "rm_runsPending (fold count_agent as m) = rm_runsPending m"
  by (induction as arbitrary: m) (simp_all add: count_agent_def sum_increment)

lemma fold_count_intent:
  "rm_outbox (fold count_intent xs m) = rm_outbox m + length xs"
  "rm_pending (fold count_intent xs m) = rm_pending m + length (filter pending xs)"
  "rm_published (fold count_intent xs m) = rm_published m + length (filter (\<lambda>x. \<not> pending x) xs)"
  "rm_byStatus (fold count_intent xs m) = rm_byStatus m" "rm_total (fold count_intent xs m) = rm_total m"
  "rm_agents (fold count_intent xs m) = rm_agents m" "rm_runsPending (fold count_intent xs m) = rm_runsPending m"
  "rm_agentsByStatus (fold count_intent xs m) = rm_agentsByStatus m"
  "rm_agentsByAgent (fold count_intent xs m) = rm_agentsByAgent m"
proof (induction xs arbitrary: m)
  case (Cons x xs)
  {
    case 2
    then show ?case using Cons(2) by (simp add: count_intent_def pending_def)
  next
    case 3
    have "oi_status x = Out_published \<longleftrightarrow> \<not> pending x" by (cases "oi_status x") (simp_all add: pending_def)
    then show ?case using Cons(3) by (simp add: count_intent_def)
  }
qed (simp_all add: count_intent_def)

lemma fold_count_run:
  "rm_total (fold count_run rs m) = rm_total m"
  "get_or 0 (rm_byStatus (fold count_run rs m)) s = get_or 0 (rm_byStatus m) s + length (filter (\<lambda>r. ma_status r = s) rs)"
  "sum_list (map snd (rm_byStatus (fold count_run rs m))) = sum_list (map snd (rm_byStatus m)) + length rs"
  "rm_runsPending (fold count_run rs m) = rm_runsPending m + length (filter (\<lambda>r. list_ex pending (ma_outbox r)) rs)"
  "rm_agents (fold count_run rs m) + sum_list (map snd (rm_agentsByAgent m))
     = rm_agents m + sum_list (map snd (rm_agentsByAgent (fold count_run rs m)))"
  "rm_agents (fold count_run rs m) + sum_list (map snd (rm_agentsByStatus m))
     = rm_agents m + sum_list (map snd (rm_agentsByStatus (fold count_run rs m)))"
  "rm_pending (fold count_run rs m) + rm_published (fold count_run rs m) + rm_outbox m
     = rm_pending m + rm_published m + rm_outbox (fold count_run rs m)"
proof (induction rs arbitrary: m)
  case (Cons r rs)
  note simps = count_run_def fold_count_agent fold_count_intent get_increment sum_increment
  {
    case 5
    show ?case using Cons(5) [of "count_run r m"] by (simp add: simps)
  next
    case 6
    show ?case using Cons(6) [of "count_run r m"] by (simp add: simps)
  next
    case 7
    show ?case using Cons(7) [of "count_run r m"] sum_length_filter_compl [of pending "ma_outbox r"] by (simp add: simps)
  }
qed (simp_all add: count_run_def fold_count_agent fold_count_intent get_increment sum_increment)

text \<open>
  The run metrics add up: each status is counted with the number of stored runs that have it and
  the statuses sum to the total; agent runs sum to their total by status and by agent; pending and
  published intents sum to the outbox total; and the runs counted with pending intents are those the
  store lists for the reconciler.
\<close>

theorem metrics_add_up:
  "rm_total (metrics st) = length (as_runs st)
   \<and> get_or 0 (rm_byStatus (metrics st)) s = length (filter (\<lambda>r. ma_status r = s) (map snd (as_runs st)))
   \<and> sum_list (map snd (rm_byStatus (metrics st))) = rm_total (metrics st)
   \<and> sum_list (map snd (rm_agentsByStatus (metrics st))) = rm_agents (metrics st)
   \<and> sum_list (map snd (rm_agentsByAgent (metrics st))) = rm_agents (metrics st)
   \<and> rm_pending (metrics st) + rm_published (metrics st) = rm_outbox (metrics st)
   \<and> rm_runsPending (metrics st) = length (ma_listPending st)"
proof -
  let ?m = "\<lparr>rm_total = length (ma_listAll st), rm_byStatus = [], rm_agents = 0, rm_agentsByStatus = [],
       rm_agentsByAgent = [], rm_outbox = 0, rm_pending = 0, rm_published = 0, rm_runsPending = 0\<rparr>"
  have "length (filter P (ma_listAll st)) = length (filter P (map snd (as_runs st)))" for P
    unfolding ma_listAll_def by (metis mset_filter mset_sort size_mset)
  then show ?thesis
    using fold_count_run [where m = ?m and rs = "ma_listAll st"]
    by (simp add: metrics_def buildEventedV2RunMetrics_def get_or_def ma_listAll_def ma_listPending_def)
qed

section \<open>A failing agent does not stop the scheduler\<close>

text \<open>The reference: every agent polled in turn, whatever the others did.\<close>

fun poll_each :: "(string \<Rightarrow> 'w \<Rightarrow> process_result result \<times> 'w) \<Rightarrow> string list \<Rightarrow> 'w \<Rightarrow> process_result result list \<times> 'w" where
  "poll_each poll [] w = ([], w)"
| "poll_each poll (a # as) w = (case poll a w of (x, w') \<Rightarrow> (case poll_each poll as w' of (xs, w'') \<Rightarrow> (x # xs, w'')))"

fun processed_ok :: "process_result result \<Rightarrow> bool" where
  "processed_ok (Inl _) = False"
| "processed_ok (Inr r) = pr_processed r"

lemma poll_agents_eq:
  "fst (poll_agents poll as c w) \<lparr>fl_messages := []\<rparr> =
     \<lparr>fl_processed = fl_processed c + length (filter processed_ok (fst (poll_each poll as w))),
      fl_errors = fl_errors c + length (filter isl (fst (poll_each poll as w))), fl_messages = []\<rparr>
   \<and> snd (poll_agents poll as c w) = snd (poll_each poll as w)"
proof (induction as arbitrary: c w)
  case (Cons a as)
  obtain x w' where x: "poll a w = (x, w')" by force
  show ?case using Cons [of _ w'] x by (cases x) (auto split: prod.splits)
qed simp

text \<open>
  A scheduler pass polls every configured agent once, in order, even when some polls throw: the
  world it leaves, the processed messages and the errors are those of polling each agent in turn, and
  afterwards a running scheduler without registry is healthy exactly when no poll failed.
\<close>

theorem scheduler_polls_everyone:
  assumes "scheduler_flush opt poll t0 t1 s w = (res, s', w')" and "poll_each poll (so_agents opt) w = (xs, v)"
  shows "w' = v \<and> length xs = length (so_agents opt) \<and> fr_checked res = length xs
    \<and> fr_processed res = length (filter processed_ok xs)
    \<and> sc_messages s' = sc_messages s + length (filter processed_ok xs) \<and> sc_flushes s' = sc_flushes s + 1
    \<and> (\<not> so_registry opt \<longrightarrow> sc_errors s' = sc_errors s + length (filter isl xs)
        \<and> (sc_timer s \<longrightarrow> (scheduler_health s' = Healthy \<longleftrightarrow> (\<forall>x \<in> set xs. \<not> isl x))))"
proof -
  let ?c0 = "\<lparr>fl_processed = 0, fl_errors = 0, fl_messages = []\<rparr>"
  obtain c where c: "poll_agents poll (so_agents opt) ?c0 w = (c, w')"
    and res: "res = \<lparr>fr_agents = so_agents opt, fr_checked = length (so_agents opt), fr_processed = fl_processed c,
          fr_messages = fl_messages c, fr_started = t0, fr_finished = t1\<rparr>"
    and s': "s' = recordWorkerHeartbeat opt t1 (s\<lparr>sc_flushStarted := Some t0, sc_errors := sc_errors s + fl_errors c,
          sc_flushes := sc_flushes s + 1, sc_messages := sc_messages s + fl_processed c,
          sc_consecutive := (if 0 < fl_errors c then sc_consecutive s + fl_errors c else 0),
          sc_lastMessages := fl_messages c, sc_flushFinished := Some t1, sc_lastHeartbeat := Some t1\<rparr>)"
    using assms(1) by (auto simp: scheduler_flush_def split: prod.splits)
  have counts: "fl_processed c = length (filter processed_ok xs)" "fl_errors c = length (filter isl xs)" "w' = v"
    using poll_agents_eq [of poll "so_agents opt" ?c0 w] c assms(2) by (cases c; simp)+
  have len: "poll_each poll as u = (ys, u') \<Longrightarrow> length ys = length as" for as u ys u'
    by (induction as arbitrary: u ys) (auto split: prod.splits)
  have "sc_messages s' = sc_messages s + fl_processed c \<and> sc_flushes s' = sc_flushes s + 1"
    by (auto simp: s' recordWorkerHeartbeat_def split: prod.splits sum.splits)
  then show ?thesis
    using counts res len [OF assms(2)]
    by (auto simp: s' recordWorkerHeartbeat_def scheduler_health_def filter_empty_conv)
qed

theorem scheduler_polls_everyone_witness:
  "let opt = \<lparr>so_worker = None, so_registry = False, so_heartbeatTtl = None, so_agents = [''a'', ''b''], so_interval = 5\<rparr>;
       poll = (\<lambda>a (n :: nat). (if a = ''a'' then throw ''x'' else Inr (not_processed\<lparr>pr_processed := True\<rparr>), n + 1));
       s = \<lparr>sc_timer = True, sc_flushes = 0, sc_messages = 0, sc_errors = 0, sc_consecutive = 0, sc_lastMessages = [],
         sc_flushStarted = None, sc_flushFinished = None, sc_lastHeartbeat = None, sc_workers = []\<rparr>
   in snd (snd (scheduler_flush opt poll 1 2 s 0)) = 2 \<and> fr_processed (fst (scheduler_flush opt poll 1 2 s 0)) = 1
     \<and> sc_errors (fst (snd (scheduler_flush opt poll 1 2 s 0))) = 1"
proof -
  let ?opt = "\<lparr>so_worker = None, so_registry = False, so_heartbeatTtl = None, so_agents = [''a'', ''b''], so_interval = 5\<rparr>"
  let ?poll = "\<lambda>a (n :: nat). (if a = ''a'' then throw ''x'' else Inr (not_processed\<lparr>pr_processed := True\<rparr>), n + 1)"
  let ?s = "\<lparr>sc_timer = True, sc_flushes = 0, sc_messages = 0, sc_errors = 0, sc_consecutive = 0, sc_lastMessages = [],
         sc_flushStarted = None, sc_flushFinished = None, sc_lastHeartbeat = None, sc_workers = []\<rparr>"
  have "poll_each ?poll (so_agents ?opt) 0 = ([throw ''x'', Inr (not_processed\<lparr>pr_processed := True\<rparr>)], 2)" by simp
  from scheduler_polls_everyone [OF _ this, of 1 2 ?s] show ?thesis
    by (cases "scheduler_flush ?opt ?poll 1 2 ?s 0") (auto simp: Let_def throw_def)
qed

section \<open>A stale completion blocks an outbox\<close>

text \<open>
  An outbox whose first pending intent completes a message under a claim that was lost is stuck:
  every flush fails with the stale-claim error before it delivers anything, and leaves the runs and the
  mailbox as they were, so the intents behind it never reach the mailbox.
\<close>

theorem stale_completion_blocks_outbox:
  assumes "ma_load i (ew_runs w) = Some r" and "ok_ma_run r"
    and "filter pending (ma_outbox r) = x # xs" and "oi_kind x = Mailbox_complete j s (Some c)"
    and "map_of (mb_messages (ew_mail w)) j = Some m" and "mm_status m \<noteq> message_status_of s"
    and "map_option fence_of (claim_of (ew_mail w) j) \<noteq> Some (fence_of (claim_as_lease c))"
  shows "\<exists>w'. flushPendingOutboxUnlocked env i f w = (throw ''Mailbox complete rejected by stale mailbox claim'', w')
    \<and> ew_runs w' = ew_runs w \<and> ew_mail w' = ew_mail w"
proof -
  have "assertMailboxFence m (Some c) = throw ''Mailbox complete rejected by stale mailbox claim''"
    using assms(5,7) by (auto simp: assertMailboxFence_def assert_that_def same_claim_def claim_of_def
        claim_as_lease_def fence_of_def split: option.splits)
  then show ?thesis
    using assms(1-6) parse_ma_run_accepts [OF assms(2)]
    by (simp add: flushPendingOutboxUnlocked_def deliver_intent_def mailbox_complete_def throw_def)
qed

definition stuck_run :: ma_run where
  "stuck_run = sample_ma_run\<lparr>ma_outbox := [pending_intent ''o'' (Mailbox_complete ''m'' Done_completed (Some (sample_claim ''x'' 1 9))) 1]\<rparr>"

theorem stale_completion_blocks_outbox_witness:
  "\<exists>w'. flushPendingOutboxUnlocked (sample_env (specialist_graph ''m'' ''c'')) ''r'' None
       \<lparr>ew_runs = \<lparr>as_runs = [(''r'', stuck_run)], as_versions = [], as_leases = \<lparr>t_leases = [], t_epochs = []\<rparr>\<rparr>,
        ew_mail = claimed_mailbox, ew_reads = 0\<rparr>
     = (throw ''Mailbox complete rejected by stale mailbox claim'', w') \<and> ew_mail w' = claimed_mailbox"
proof -
  let ?w = "\<lparr>ew_runs = \<lparr>as_runs = [(''r'', stuck_run)], as_versions = [], as_leases = \<lparr>t_leases = [], t_epochs = []\<rparr>\<rparr>,
        ew_mail = claimed_mailbox, ew_reads = 0\<rparr>"
  have "ok_ma_run stuck_run"
    using sample_ma_run_ok by (simp add: stuck_run_def ok_ma_run_def ok_outbox_def pending_intent_def ok_string_Cons
        is_js_space_def ok_option_def ok_claim_lease_def sample_claim_def max_safe_integer_def)
  moreover have "map_option fence_of (claim_of claimed_mailbox ''m'') \<noteq> Some (fence_of (claim_as_lease (sample_claim ''x'' 1 9)))"
    by (simp add: claimed_mailbox_eq claim_of_def claimed_message_def sample_claim_def claim_as_lease_def fence_of_def)
  moreover have "map_of (mb_messages claimed_mailbox) ''m'' = Some claimed_message" "mm_status claimed_message = Msg_delivered"
    by (simp_all add: claimed_mailbox_eq claimed_message_def)
  ultimately show ?thesis
    using stale_completion_blocks_outbox [of "''r''" ?w stuck_run "hd (ma_outbox stuck_run)" "[]" "''m''" Done_completed
        "sample_claim ''x'' 1 9" claimed_message "sample_env (specialist_graph ''m'' ''c'')" None]
    by (auto simp: ma_load_def stuck_run_def pending_intent_def pending_def)
qed

end
