(* ===== verification/LruCache.thy ===== *)
theory LruCache
  imports Json
begin

text \<open>
  The bounded caches of \<open>infrastructure/cache\<close>: the least-recently-used cache on an insertion-ordered
  \<open>Map\<close> and the cache that adds an expiry time to every entry.

  The first part states a cache operation by operation and relates it to a list of every entry in
  the order of its last use that is never cut: the cache holds the last entries of that list. The
  second part states the expiring cache on top of it; the clock is an argument of each call, and a
  call that reads it twice does not occur.
\<close>

section \<open>The least-recently-used cache\<close>

text \<open>
  The limit is a JavaScript number: \<open>None\<close> stands for \<open>NaN\<close> and the infinities, which the
  constructor rejects, and a finite limit need not be whole.
\<close>

record ('k, 'v) lru =
  lru_limit :: rat
  lru_entries :: "('k, 'v) jsmap"

definition new_LruCache :: "rat option \<Rightarrow> ('k, 'v) lru result" where
  "new_LruCache limit = (case limit of
      Some l \<Rightarrow> if l \<le> 0 then throw ''LruCache requires limit > 0''
               else Inr \<lparr>lru_limit = l, lru_entries = []\<rparr>
    | None \<Rightarrow> throw ''LruCache requires limit > 0'')"

definition lru_size :: "('k, 'v) lru \<Rightarrow> nat" where
  "lru_size c = length (lru_entries c)"

definition lru_has :: "'k \<Rightarrow> ('k, 'v) lru \<Rightarrow> bool" where
  "lru_has k c = (map_of (lru_entries c) k \<noteq> None)"

definition lru_get :: "'k \<Rightarrow> ('k, 'v) lru \<Rightarrow> 'v option \<times> ('k, 'v) lru" where
  "lru_get k c = (case map_of (lru_entries c) k of
      None \<Rightarrow> (None, c)
    | Some v \<Rightarrow> (Some v, c\<lparr>lru_entries := AList.update k v (AList.delete k (lru_entries c))\<rparr>))"

text \<open>\<open>set\<close> returns the value it evicts.\<close>

definition lru_set :: "'k \<Rightarrow> 'v \<Rightarrow> ('k, 'v) lru \<Rightarrow> 'v option \<times> ('k, 'v) lru" where
  "lru_set k v c = (
     let es = lru_entries c;
         (evicted, es') =
           (if lru_has k c then (None, AList.delete k es)
            else if lru_limit c \<le> of_nat (lru_size c) then
              (case es of [] \<Rightarrow> (None, es)
               | (oldest, _) # _ \<Rightarrow> (map_of es oldest, AList.delete oldest es))
            else (None, es))
     in (evicted, c\<lparr>lru_entries := AList.update k v es'\<rparr>))"

definition lru_delete :: "'k \<Rightarrow> ('k, 'v) lru \<Rightarrow> bool \<times> ('k, 'v) lru" where
  "lru_delete k c = (lru_has k c, c\<lparr>lru_entries := AList.delete k (lru_entries c)\<rparr>)"

definition lru_clear :: "('k, 'v) lru \<Rightarrow> ('k, 'v) lru" where
  "lru_clear c = c\<lparr>lru_entries := []\<rparr>"

definition lru_keys :: "('k, 'v) lru \<Rightarrow> 'k list" where
  "lru_keys c = map fst (lru_entries c)"

definition lru_values :: "('k, 'v) lru \<Rightarrow> 'v list" where
  "lru_values c = map snd (lru_entries c)"

text \<open>Sequences of calls on one cache, and what each call returns.\<close>

datatype ('k, 'v) cache_op = Get 'k | Put 'k 'v | Del 'k | Clear

datatype 'v answer = Found "'v option" | Evicted "'v option" | Deleted bool | Cleared

fun lru_exec :: "('k, 'v) cache_op \<Rightarrow> ('k, 'v) lru \<Rightarrow> 'v answer \<times> ('k, 'v) lru" where
  "lru_exec (Get k) c = (let (r, c') = lru_get k c in (Found r, c'))"
| "lru_exec (Put k v) c = (let (r, c') = lru_set k v c in (Evicted r, c'))"
| "lru_exec (Del k) c = (let (r, c') = lru_delete k c in (Deleted r, c'))"
| "lru_exec Clear c = (Cleared, lru_clear c)"

fun run_calls :: "('b \<Rightarrow> 's \<Rightarrow> 'a \<times> 's) \<Rightarrow> 'b list \<Rightarrow> 's \<Rightarrow> 'a list \<times> 's" where
  "run_calls f [] s = ([], s)"
| "run_calls f (x # xs) s =
     (let (a, s') = f x s; (as, s'') = run_calls f xs s' in (a # as, s''))"

section \<open>The list of all entries by last use\<close>

text \<open>
  The specification keeps every entry ever stored, the latest use last, and answers from its last
  \<open>n\<close> entries only. A deletion forgets what had been evicted: space freed in the cache is not filled
  by older entries.
\<close>

definition touch :: "'k \<Rightarrow> 'v \<Rightarrow> ('k, 'v) jsmap \<Rightarrow> ('k, 'v) jsmap" where
  "touch k v u = AList.delete k u @ [(k, v)]"

definition visible :: "nat \<Rightarrow> ('k, 'v) jsmap \<Rightarrow> 'k \<Rightarrow> 'v option" where
  "visible n u k = map_of (slice_last n u) k"

fun recency_exec :: "nat \<Rightarrow> ('k, 'v) cache_op \<Rightarrow> ('k, 'v) jsmap \<Rightarrow> 'v answer \<times> ('k, 'v) jsmap" where
  "recency_exec n (Get k) u = (case visible n u k of
      None \<Rightarrow> (Found None, u) | Some v \<Rightarrow> (Found (Some v), touch k v u))"
| "recency_exec n (Put k v) u =
     (Evicted (if visible n u k \<noteq> None \<or> length u < n then None
               else Some (snd (u ! (length u - n)))), touch k v u)"
| "recency_exec n (Del k) u =
     (Deleted (visible n u k \<noteq> None), AList.delete k (slice_last n u))"
| "recency_exec n Clear u = (Cleared, [])"

definition capacity :: "rat \<Rightarrow> nat" where
  "capacity l = nat \<lceil>l\<rceil>"

lemma capacity_le: "0 < l \<Longrightarrow> l \<le> of_nat m \<longleftrightarrow> capacity l \<le> m"
  unfolding capacity_def by (metis ceiling_le_iff nat_le_iff of_int_of_nat_eq)

lemma capacity_pos: "0 < l \<Longrightarrow> 0 < capacity l"
  by (simp add: capacity_def)

lemma delete_last_part:
  assumes "distinct (map fst (xs @ ys))" and "k \<in> fst ` set ys"
  shows "AList.delete k (xs @ ys) = xs @ AList.delete k ys"
proof -
  have "k \<notin> fst ` set xs" using assms by auto
  then have "AList.delete k xs = xs" by (simp add: delete_notin_dom)
  then show ?thesis by (simp add: AList.delete_eq)
qed

lemma delete_length:
  "distinct (map fst m) \<Longrightarrow> k \<in> fst ` set m \<Longrightarrow> Suc (length (AList.delete k m)) = length m"
  by (induction m) (auto simp: delete_notin_dom rev_image_eqI)

lemma distinct_touch: "distinct (map fst u) \<Longrightarrow> distinct (map fst (touch k v u))"
  using delete_notin_dom[of k u] by (auto simp: touch_def distinct_delete image_iff)

lemma split_slice_last: obtains xs where "u = xs @ slice_last n u"
  unfolding slice_last_def by (metis append_take_drop_id)

lemma slice_last_append: "length ys = min n (length (xs @ ys)) \<Longrightarrow> slice_last n (xs @ ys) = ys"
  by (auto simp: slice_last_def min_def split: if_splits)

lemma slice_touch_hit:
  assumes "distinct (map fst u)" and "k \<in> fst ` set (slice_last n u)"
  shows "slice_last n (touch k v u) = touch k v (slice_last n u)"
proof -
  obtain xs where u: "u = xs @ slice_last n u" by (rule split_slice_last)
  let ?y = "slice_last n u"
  have d: "AList.delete k u = xs @ AList.delete k ?y"
    using delete_last_part[of xs ?y k] u assms by simp
  have "distinct (map fst ?y)"
    using assms(1) unfolding slice_last_def by (simp add: drop_map[symmetric])
  then have l: "Suc (length (AList.delete k ?y)) = length ?y" by (rule delete_length) (rule assms)
  have "length u = length xs + length ?y" using u by (metis length_append)
  then show ?thesis unfolding touch_def d append_assoc
    by (intro slice_last_append) (use l in simp)
qed

lemma slice_touch_miss:
  assumes "distinct (map fst u)" and "k \<notin> fst ` set (slice_last n u)" and "0 < n"
  shows "slice_last n (touch k v u) =
         (if length u < n then slice_last n u else tl (slice_last n u)) @ [(k, v)]"
proof -
  obtain xs where u: "u = xs @ slice_last n u" by (rule split_slice_last)
  let ?y = "slice_last n u"
  have "AList.delete k ?y = ?y" using assms(2) by (simp add: delete_notin_dom)
  then have d: "AList.delete k u = AList.delete k xs @ ?y"
    using u by (metis AList.delete_eq filter_append)
  show ?thesis
  proof (cases "length u < n")
    case True
    then have "xs = []" using u by (metis append_self_conv2 drop_0 less_imp_le diff_is_0_eq slice_last_def)
    then show ?thesis using d True by (simp add: touch_def slice_last_def)
  next
    case False
    then have y: "?y = hd ?y # tl ?y" and l: "length ?y = n"
      using assms(3) by (auto intro!: list.collapse[symmetric] simp: slice_last_def)
    have "touch k v u = (AList.delete k xs @ [hd ?y]) @ (tl ?y @ [(k, v)])"
      using d y by (simp add: touch_def)
    moreover have "length (tl ?y @ [(k, v)]) = n" using l assms(3) by simp
    moreover have "length u = length xs + n" using u l by (metis length_append)
    moreover have "length (AList.delete k xs) \<le> length xs" by (rule length_delete_le)
    ultimately show ?thesis using False slice_last_append[of "tl ?y @ [(k, v)]" n "AList.delete k xs @ [hd ?y]"]
      by simp
  qed
qed

lemma map_of_visible: "k \<in> fst ` set (slice_last n u) \<longleftrightarrow> visible n u k \<noteq> None"
  by (simp add: visible_def map_of_eq_None_iff)

lemma distinct_slice [simp]: "distinct (map fst u) \<Longrightarrow> distinct (map fst (slice_last n u))"
  unfolding slice_last_def by (simp add: drop_map[symmetric])

lemma update_after_delete: "AList.update k v (AList.delete k m) = touch k v m"
  unfolding touch_def by (rule jsmap_update_absent) (rule delete_notin_dom)

definition cache_of :: "rat \<Rightarrow> ('k, 'v) jsmap \<Rightarrow> ('k, 'v) lru" where
  "cache_of l u = \<lparr>lru_limit = l, lru_entries = slice_last (capacity l) u\<rparr>"

lemma cache_of_sel [simp]:
  "lru_entries (cache_of l u) = slice_last (capacity l) u" "lru_limit (cache_of l u) = l"
  by (simp_all add: cache_of_def)

lemma cache_of_update [simp]:
  "(cache_of l u)\<lparr>lru_entries := m\<rparr> = cache_of l w \<longleftrightarrow> m = slice_last (capacity l) w"
  by (simp add: cache_of_def)

lemma lru_has_cache_of: "lru_has k (cache_of l u) \<longleftrightarrow> visible (capacity l) u k \<noteq> None"
  by (simp add: lru_has_def visible_def)

lemma lru_get_refines:
  assumes "distinct (map fst u)"
  shows "lru_exec (Get k) (cache_of l u) =
         (let (a, u') = recency_exec (capacity l) (Get k) u in (a, cache_of l u'))"
proof (cases "visible (capacity l) u k")
  case None
  then show ?thesis by (simp add: lru_get_def visible_def)
next
  case (Some v)
  then have "k \<in> fst ` set (slice_last (capacity l) u)" by (simp add: map_of_visible)
  from slice_touch_hit[OF assms this] Some show ?thesis
    by (simp add: lru_get_def visible_def update_after_delete)
qed

lemma oldest_visible:
  assumes "n \<le> length u" and "0 < n"
  obtains k v r where "slice_last n u = (k, v) # r" and "u ! (length u - n) = (k, v)"
proof -
  have "length u - n < length u" using assms by simp
  then have "slice_last n u = u ! (length u - n) # drop (Suc (length u - n)) u"
    unfolding slice_last_def by (rule Cons_nth_drop_Suc[symmetric])
  with that show thesis by (cases "u ! (length u - n)") auto
qed

lemma lru_set_refines:
  assumes d: "distinct (map fst u)" and l: "0 < l"
  shows "lru_exec (Put k v) (cache_of l u) =
         (let (a, u') = recency_exec (capacity l) (Put k v) u in (a, cache_of l u'))"
proof (cases "visible (capacity l) u k")
  case (Some w)
  then have "k \<in> fst ` set (slice_last (capacity l) u)" by (simp add: map_of_visible)
  from slice_touch_hit[OF d this] Some show ?thesis
    by (simp add: lru_set_def lru_has_cache_of update_after_delete)
next
  case None
  let ?n = "capacity l" and ?y = "slice_last (capacity l) u"
  have k: "k \<notin> fst ` set ?y" using None by (simp add: map_of_visible)
  note miss = slice_touch_miss[OF d k capacity_pos[OF l], of v]
  show ?thesis
  proof (cases "length u < ?n")
    case True
    then have f: "\<not> l \<le> of_nat (length ?y)" using l by (simp add: capacity_le)
    have "slice_last ?n (touch k v u) = ?y @ [(k, v)]" using miss True by simp
    moreover have "AList.update k v ?y = ?y @ [(k, v)]" by (rule jsmap_update_absent) (rule k)
    moreover have "\<not> lru_has k (cache_of l u)" using None by (simp add: lru_has_cache_of)
    ultimately have "lru_set k v (cache_of l u) = (None, cache_of l (touch k v u))"
      using f by (simp add: lru_set_def lru_size_def del: length_slice_last)
    then show ?thesis using None True by simp
  next
    case False
    then have f: "l \<le> of_nat (length ?y)" using l by (simp add: capacity_le)
    have "?n \<le> length u" using False by (simp add: not_less)
    then obtain k0 v0 r where y: "?y = (k0, v0) # r" and u: "u ! (length u - ?n) = (k0, v0)"
      by (rule oldest_visible) (rule capacity_pos[OF l])
    have "k0 \<notin> fst ` set r" using distinct_slice[OF d, of ?n] y by auto
    then have "AList.delete k0 ?y = r" using y by simp
    moreover have "slice_last ?n (touch k v u) = r @ [(k, v)]" using miss False y by simp
    moreover have "k \<notin> fst ` set r" using k y by simp
    moreover have "AList.update k v r = r @ [(k, v)]" by (rule jsmap_update_absent) fact
    moreover have "\<not> lru_has k (cache_of l u)" using None by (simp add: lru_has_cache_of)
    ultimately have "lru_set k v (cache_of l u) = (Some v0, cache_of l (touch k v u))"
      using f y by (simp add: lru_set_def lru_size_def del: length_slice_last)
    then show ?thesis using None False u by simp
  qed
qed

lemma lru_delete_refines:
  assumes "distinct (map fst u)"
  shows "lru_exec (Del k) (cache_of l u) =
         (let (a, u') = recency_exec (capacity l) (Del k) u in (a, cache_of l u'))"
proof -
  have "length (AList.delete k (slice_last (capacity l) u)) \<le> capacity l"
    using length_delete_le[of k "slice_last (capacity l) u"] by simp
  then show ?thesis by (simp add: lru_delete_def lru_has_cache_of slice_last_def[of _ "AList.delete _ _"])
qed

lemma lru_exec_refines:
  assumes "distinct (map fst u)" and "0 < l"
  shows "lru_exec c (cache_of l u) =
         (let (a, u') = recency_exec (capacity l) c u in (a, cache_of l u'))"
proof (cases c)
  case Clear
  then show ?thesis by (simp add: lru_clear_def slice_last_def[of _ "[]"])
qed (simp_all only: lru_get_refines[OF assms(1)] lru_set_refines[OF assms] lru_delete_refines[OF assms(1)])

lemma recency_exec_distinct:
  "distinct (map fst u) \<Longrightarrow> distinct (map fst (snd (recency_exec n c u)))"
  by (cases c) (auto simp: distinct_touch distinct_delete split: option.splits)

lemma recency_run_distinct:
  "distinct (map fst u) \<Longrightarrow> distinct (map fst (snd (run_calls (recency_exec n) cs u)))"
proof (induction cs arbitrary: u)
  case (Cons c cs)
  from Cons.IH[OF recency_exec_distinct[OF Cons.prems, of n c]] show ?case
    by (cases "recency_exec n c u"; cases "run_calls (recency_exec n) cs (snd (recency_exec n c u))") simp
qed simp

lemma lru_run_refines:
  assumes "distinct (map fst u)" and "0 < l"
  shows "run_calls lru_exec cs (cache_of l u) =
         (let (as, u') = run_calls (recency_exec (capacity l)) cs u in (as, cache_of l u'))"
  using assms(1)
proof (induction cs arbitrary: u)
  case Nil
  then show ?case by simp
next
  case (Cons c cs)
  obtain a u' where s: "recency_exec (capacity l) c u = (a, u')" by fastforce
  with recency_exec_distinct[OF Cons.prems, of "capacity l" c] have "distinct (map fst u')" by simp
  from Cons.IH[OF this] lru_exec_refines[OF Cons.prems assms(2), of c] s show ?case
    by (simp split: prod.splits)
qed

text \<open>
  A cache answers every sequence of calls exactly as the list of all entries by last use does when
  it looks at its last \<open>n\<close> entries only, \<open>n\<close> the limit rounded up, and what it holds afterwards are
  those last entries, oldest first. So an entry is evicted only when \<open>n\<close> other keys were used later.
\<close>

theorem lru_is_recency:
  assumes "new_LruCache (Some l) = Inr c0"
  shows "fst (run_calls lru_exec cs c0) = fst (run_calls (recency_exec (capacity l)) cs []) \<and>
         lru_entries (snd (run_calls lru_exec cs c0)) =
           slice_last (capacity l) (snd (run_calls (recency_exec (capacity l)) cs []))"
proof -
  from assms have l: "0 < l" and "c0 = cache_of l []"
    by (auto simp: new_LruCache_def cache_of_def slice_last_def split: if_splits)
  with lru_run_refines[OF _ l, of "[]" cs] show ?thesis by (simp split: prod.splits)
qed

theorem lru_is_recency_witness:
  "lru_entries (snd (run_calls lru_exec [Put (1::nat) ''a'', Put 2 ''b'', Get 1, Put 3 ''c'']
     \<lparr>lru_limit = 2, lru_entries = []\<rparr>)) = [(1, ''a''), (3, ''c'')]"
proof -
  have "new_LruCache (Some 2) = Inr \<lparr>lru_limit = 2, lru_entries = []\<rparr>" by (simp add: new_LruCache_def)
  from lru_is_recency[OF this, of "[Put (1::nat) ''a'', Put 2 ''b'', Get 1, Put 3 ''c'']"] show ?thesis
    by (simp add: capacity_def visible_def slice_last_def touch_def)
qed

text \<open>
  However it is used, a cache holds fewer entries than its limit plus one (so at most the limit
  when that is whole), and no key twice.
\<close>

theorem lru_bounded:
  assumes "new_LruCache (Some l) = Inr c0"
  shows "of_nat (lru_size (snd (run_calls lru_exec cs c0))) < l + 1 \<and>
         distinct (lru_keys (snd (run_calls lru_exec cs c0)))"
proof -
  from assms have l: "0 < l" and c: "c0 = cache_of l []"
    by (auto simp: new_LruCache_def cache_of_def slice_last_def split: if_splits)
  obtain as u where s: "run_calls (recency_exec (capacity l)) cs [] = (as, u)" by fastforce
  with recency_run_distinct[of "[]" "capacity l" cs] have u: "distinct (map fst u)" by simp
  have "of_nat (capacity l) < l + 1"
    using l ceiling_correct[of l] by (simp add: capacity_def)
  moreover have "length (slice_last (capacity l) u) \<le> capacity l" by simp
  ultimately have "of_nat (length (slice_last (capacity l) u)) < l + 1"
    by (meson of_nat_le_iff order_le_less_trans)
  with u c s lru_run_refines[OF _ l, of "[]" cs] show ?thesis
    by (simp add: lru_size_def lru_keys_def del: length_slice_last)
qed

theorem lru_bounded_witness:
  "of_nat (lru_size (snd (run_calls lru_exec [Put (1::nat) True, Put 2 True, Put 3 True]
     \<lparr>lru_limit = 3 / 2, lru_entries = []\<rparr>))) < (3 / 2 :: rat) + 1"
  by (rule lru_bounded[THEN conjunct1]) (simp add: new_LruCache_def)

end
