(* ===== verification/TtlCache.thy ===== *)
theory TtlCache
  imports LruCache
begin

text \<open>
  The cache of \<open>ttl-lru-cache.ts\<close>: every entry of a least-recently-used cache carries the time at
  which it expires. Each call reads the clock once; the reading is an argument. The lemmas show that a
  value is only answered while it is fresh and is the one last stored, and that a sweep removes exactly
  the expired entries although it visits, and so moves, every entry.
\<close>

record 'v ttl_entry =
  en_value :: 'v
  en_expires :: rat

record ('k, 'v) ttl_cache =
  tt_cache :: "('k, 'v ttl_entry) lru"
  tt_ttl :: rat

definition new_TtlLruCache :: "rat option \<Rightarrow> rat option \<Rightarrow> ('k, 'v) ttl_cache result" where
  "new_TtlLruCache limit ttl = (case ttl of
      Some t \<Rightarrow> if t \<le> 0 then throw ''TtlLruCache requires ttlMs > 0''
               else bind_result (new_LruCache limit) (\<lambda>c. Inr \<lparr>tt_cache = c, tt_ttl = t\<rparr>)
    | None \<Rightarrow> throw ''TtlLruCache requires ttlMs > 0'')"

definition ttl_get :: "rat \<Rightarrow> 'k \<Rightarrow> ('k, 'v) ttl_cache \<Rightarrow> 'v option \<times> ('k, 'v) ttl_cache" where
  "ttl_get now k c = (
     let (found, cache) = lru_get k (tt_cache c)
     in case found of
          None \<Rightarrow> (None, c\<lparr>tt_cache := cache\<rparr>)
        | Some e \<Rightarrow>
            if en_expires e \<le> now then (None, c\<lparr>tt_cache := snd (lru_delete k cache)\<rparr>)
            else (Some (en_value e), c\<lparr>tt_cache := cache\<rparr>))"

definition ttl_has :: "rat \<Rightarrow> 'k \<Rightarrow> ('k, 'v) ttl_cache \<Rightarrow> bool \<times> ('k, 'v) ttl_cache" where
  "ttl_has now k c = (let (v, c') = ttl_get now k c in (v \<noteq> None, c'))"

definition ttl_set :: "rat \<Rightarrow> 'k \<Rightarrow> 'v \<Rightarrow> ('k, 'v) ttl_cache \<Rightarrow> 'v option \<times> ('k, 'v) ttl_cache" where
  "ttl_set now k v c = (
     let (evicted, cache) = lru_set k \<lparr>en_value = v, en_expires = now + tt_ttl c\<rparr> (tt_cache c)
     in (map_option en_value evicted, c\<lparr>tt_cache := cache\<rparr>))"

definition ttl_delete :: "'k \<Rightarrow> ('k, 'v) ttl_cache \<Rightarrow> bool \<times> ('k, 'v) ttl_cache" where
  "ttl_delete k c = (let (b, cache) = lru_delete k (tt_cache c) in (b, c\<lparr>tt_cache := cache\<rparr>))"

definition ttl_clear :: "('k, 'v) ttl_cache \<Rightarrow> ('k, 'v) ttl_cache" where
  "ttl_clear c = c\<lparr>tt_cache := lru_clear (tt_cache c)\<rparr>"

text \<open>The sweep walks over a copy of the keys and reads every entry, which moves it to the end.\<close>

definition sweep_key :: "rat \<Rightarrow> 'k \<Rightarrow> nat \<times> ('k, 'v ttl_entry) lru \<Rightarrow> nat \<times> ('k, 'v ttl_entry) lru" where
  "sweep_key now k s = (
     let (found, cache) = lru_get k (snd s)
     in case found of
          None \<Rightarrow> (fst s, cache)
        | Some e \<Rightarrow> if en_expires e \<le> now then (Suc (fst s), snd (lru_delete k cache)) else (fst s, cache))"

definition ttl_sweep :: "rat \<Rightarrow> ('k, 'v) ttl_cache \<Rightarrow> nat \<times> ('k, 'v) ttl_cache" where
  "ttl_sweep now c = (
     let (n, cache) = fold (sweep_key now) (lru_keys (tt_cache c)) (0, tt_cache c)
     in (n, c\<lparr>tt_cache := cache\<rparr>))"

section \<open>Sequences of calls\<close>

datatype ('k, 'v) ttl_op = TGet 'k | THas 'k | TPut 'k 'v | TDel 'k | TClear | TSweep

datatype 'v ttl_answer = TFound "'v option" | TEvicted "'v option" | TBool bool | TCount nat | TDone

fun ttl_exec ::
    "('k, 'v) ttl_op \<times> rat \<Rightarrow> ('k, 'v) ttl_cache \<Rightarrow> 'v ttl_answer \<times> ('k, 'v) ttl_cache" where
  "ttl_exec (TGet k, now) c = (let (r, c') = ttl_get now k c in (TFound r, c'))"
| "ttl_exec (THas k, now) c = (let (r, c') = ttl_has now k c in (TBool r, c'))"
| "ttl_exec (TPut k v, now) c = (let (r, c') = ttl_set now k v c in (TEvicted r, c'))"
| "ttl_exec (TDel k, now) c = (let (r, c') = ttl_delete k c in (TBool r, c'))"
| "ttl_exec (TClear, now) c = (TDone, ttl_clear c)"
| "ttl_exec (TSweep, now) c = (let (n, c') = ttl_sweep now c in (TCount n, c'))"

text \<open>What was last stored under a key and not deleted since, with the time of the call.\<close>

fun note_write :: "'k \<Rightarrow> ('k, 'v) ttl_op \<times> rat \<Rightarrow> ('v \<times> rat) option \<Rightarrow> ('v \<times> rat) option" where
  "note_write k (TPut k' v, now) w = (if k' = k then Some (v, now) else w)"
| "note_write k (TDel k', now) w = (if k' = k then None else w)"
| "note_write k (TClear, now) w = None"
| "note_write k _ w = w"

definition last_write :: "'k \<Rightarrow> (('k, 'v) ttl_op \<times> rat) list \<Rightarrow> ('v \<times> rat) option" where
  "last_write k cs = fold (note_write k) cs None"

section \<open>What the operations do to the entries\<close>

lemma lru_get_lookup: "map_of (lru_entries (snd (lru_get k c))) = map_of (lru_entries c)"
  by (auto simp: lru_get_def split: option.splits)

lemma lru_get_found: "fst (lru_get k c) = map_of (lru_entries c) k"
  by (auto simp: lru_get_def split: option.splits)

lemma lru_delete_lookup: "map_of (lru_entries (snd (lru_delete k c))) = (map_of (lru_entries c))(k := None)"
  by (simp add: lru_delete_def)

lemma lru_set_lookup:
  "map_of (lru_entries (snd (lru_set k v c))) k' = Some x \<Longrightarrow>
   (if k' = k then x = v else map_of (lru_entries c) k' = Some x)"
  by (auto simp: lru_set_def Let_def split: if_splits list.splits prod.splits)

lemma ttl_get_lookup:
  "map_of (lru_entries (tt_cache (snd (ttl_get now k c)))) k' = Some e \<Longrightarrow>
   map_of (lru_entries (tt_cache c)) k' = Some e"
  using lru_get_lookup[of k "tt_cache c"]
  by (auto simp: ttl_get_def lru_delete_lookup split: prod.splits option.splits if_splits)

lemma sweep_key_lookup:
  "map_of (lru_entries (snd (sweep_key now k s))) k' = Some e \<Longrightarrow> map_of (lru_entries (snd s)) k' = Some e"
  using lru_get_lookup[of k "snd s"]
  by (auto simp: sweep_key_def lru_delete_lookup split: prod.splits option.splits if_splits)

lemma sweep_fold_lookup:
  "map_of (lru_entries (snd (fold (sweep_key now) ks s))) k' = Some e \<Longrightarrow>
   map_of (lru_entries (snd s)) k' = Some e"
proof (induction ks arbitrary: s)
  case (Cons k ks)
  then have "map_of (lru_entries (snd (sweep_key now k s))) k' = Some e" by simp
  then show ?case by (rule sweep_key_lookup)
qed simp

lemma ttl_keeps_ttl: "tt_ttl (snd (ttl_exec x c)) = tt_ttl c"
  by (cases "(x, c)" rule: ttl_exec.cases)
    (auto simp: ttl_get_def ttl_has_def ttl_set_def ttl_delete_def ttl_clear_def ttl_sweep_def
      split: prod.splits option.splits)

text \<open>Every entry is the last write of its key.\<close>

definition ttl_traced :: "('k \<Rightarrow> ('v \<times> rat) option) \<Rightarrow> ('k, 'v) ttl_cache \<Rightarrow> bool" where
  "ttl_traced w c = (\<forall>k e. map_of (lru_entries (tt_cache c)) k = Some e \<longrightarrow>
     w k = Some (en_value e, en_expires e - tt_ttl c))"

lemma ttl_tracedD:
  "ttl_traced w c \<Longrightarrow> map_of (lru_entries (tt_cache c)) k = Some e \<Longrightarrow>
   w k = Some (en_value e, en_expires e - tt_ttl c)"
  by (simp add: ttl_traced_def)

lemma ttl_exec_lookup:
  assumes "map_of (lru_entries (tt_cache (snd (ttl_exec (x, now) c)))) k = Some e"
  shows "(\<exists>v. x = TPut k v \<and> e = \<lparr>en_value = v, en_expires = now + tt_ttl c\<rparr>) \<or>
         map_of (lru_entries (tt_cache c)) k = Some e \<and> (\<forall>w. note_write k (x, now) w = w)"
proof (cases x)
  case (TGet k')
  with assms ttl_get_lookup[of now k' c k e] show ?thesis by (simp split: prod.splits)
next
  case (THas k')
  with assms ttl_get_lookup[of now k' c k e] show ?thesis by (simp add: ttl_has_def split: prod.splits)
next
  case (TPut k' v)
  with assms lru_set_lookup[of k' "\<lparr>en_value = v, en_expires = now + tt_ttl c\<rparr>" "tt_cache c" k e]
  show ?thesis by (auto simp: ttl_set_def split: prod.splits if_splits)
next
  case (TDel k')
  with assms lru_delete_lookup[of k' "tt_cache c"] show ?thesis
    by (auto simp: ttl_delete_def split: prod.splits if_splits)
next
  case TClear
  with assms show ?thesis by (simp add: ttl_clear_def lru_clear_def)
next
  case TSweep
  with assms sweep_fold_lookup[of now "lru_keys (tt_cache c)" "(0, tt_cache c)" k e] show ?thesis
    by (simp add: ttl_sweep_def case_prod_beta)
qed

lemma ttl_exec_traced:
  assumes "ttl_traced w c"
  shows "ttl_traced (\<lambda>k. note_write k x (w k)) (snd (ttl_exec x c))"
proof (cases x)
  case (Pair y now)
  show ?thesis unfolding ttl_traced_def ttl_keeps_ttl Pair
    using assms by (auto dest!: ttl_exec_lookup ttl_tracedD)
qed

lemma ttl_run_traced:
  "ttl_traced w c \<Longrightarrow> ttl_traced (\<lambda>k. fold (note_write k) cs (w k)) (snd (run_calls ttl_exec cs c))"
proof (induction cs arbitrary: w c)
  case (Cons x cs)
  from Cons.IH[OF ttl_exec_traced[OF Cons.prems, of x]] show ?case
    by (cases "ttl_exec x c"; cases "run_calls ttl_exec cs (snd (ttl_exec x c))") simp
qed simp

lemma run_keeps_ttl: "tt_ttl (snd (run_calls ttl_exec cs c)) = tt_ttl c"
proof (induction cs arbitrary: c)
  case (Cons x cs)
  from Cons.IH[of "snd (ttl_exec x c)"] ttl_keeps_ttl[of x c] show ?case
    by (cases "ttl_exec x c"; cases "run_calls ttl_exec cs (snd (ttl_exec x c))") simp
qed simp

text \<open>
  A value is answered only while it is fresh: when a read at time \<open>now\<close> finds \<open>v\<close>, then \<open>v\<close> is
  what the last write of that key stored, nothing deleted it since, and less than the time to live
  has passed between that write and the read.
\<close>

theorem ttl_answers_fresh:
  assumes "new_TtlLruCache limit (Some ttl) = Inr c0"
    and "fst (ttl_exec (TGet k, now) (snd (run_calls ttl_exec cs c0))) = TFound (Some v)"
  shows "\<exists>s. last_write k cs = Some (v, s) \<and> now < s + ttl"
proof -
  let ?c = "snd (run_calls ttl_exec cs c0)"
  from assms(1) have t: "tt_ttl c0 = ttl" and "lru_entries (tt_cache c0) = []"
    by (auto simp: new_TtlLruCache_def new_LruCache_def result_simps split: if_splits option.splits)
  then have "ttl_traced (\<lambda>k. None) c0" by (simp add: ttl_traced_def)
  from ttl_run_traced[OF this, of cs] have tr: "ttl_traced (\<lambda>k. last_write k cs) ?c"
    by (simp add: last_write_def)
  from assms(2) obtain e where "map_of (lru_entries (tt_cache ?c)) k = Some e"
    and "\<not> en_expires e \<le> now" and "v = en_value e"
    using lru_get_found[of k "tt_cache ?c"]
    by (auto simp: ttl_get_def split: prod.splits option.splits if_splits)
  with ttl_tracedD[OF tr] have "last_write k cs = Some (v, en_expires e - ttl)"
    by (simp add: run_keeps_ttl t)
  then show ?thesis using \<open>\<not> en_expires e \<le> now\<close> by simp
qed

theorem ttl_answers_fresh_witness:
  "\<exists>s. last_write (1 :: nat) [(TPut 1 ''a'', 0), (TPut 1 ''b'', 5)] = Some (''b'', s) \<and> 14 < s + (10 :: rat)"
proof (rule ttl_answers_fresh)
  show "new_TtlLruCache (Some 2) (Some 10) = Inr \<lparr>tt_cache = \<lparr>lru_limit = 2, lru_entries = []\<rparr>, tt_ttl = 10\<rparr>"
    by (simp add: new_TtlLruCache_def new_LruCache_def)
qed (simp add: ttl_get_def ttl_set_def lru_set_def lru_get_def lru_has_def lru_size_def)

section \<open>The sweep\<close>

text \<open>Part of the entries has been visited and stands, filtered, behind the rest.\<close>

lemma sweep_fold:
  assumes "distinct (map fst (xs @ ys))"
  shows "fold (sweep_key now) (map fst xs) (n, \<lparr>lru_limit = l, lru_entries = xs @ ys\<rparr>) =
         (n + length (filter (\<lambda>kv. en_expires (snd kv) \<le> now) xs),
          \<lparr>lru_limit = l, lru_entries = ys @ filter (\<lambda>kv. \<not> en_expires (snd kv) \<le> now) xs\<rparr>)"
  using assms
proof (induction xs arbitrary: n ys)
  case Nil
  then show ?case by simp
next
  case (Cons x xs)
  obtain k e where x: "x = (k, e)" by fastforce
  let ?zs = "xs @ ys @ (if en_expires e \<le> now then [] else [(k, e)])"
  have k: "k \<notin> fst ` set (xs @ ys)" using Cons.prems x by auto
  have g: "lru_get k \<lparr>lru_limit = l, lru_entries = (x # xs) @ ys\<rparr> =
        (Some e, \<lparr>lru_limit = l, lru_entries = xs @ ys @ [(k, e)]\<rparr>)"
    using k x by (simp add: lru_get_def jsmap_update_absent)
  have "AList.delete k (xs @ ys @ [(k, e)]) = xs @ ys"
    using k delete_id[of k "xs @ ys"] by (simp add: AList.delete_eq)
  then have s: "sweep_key now k (n, \<lparr>lru_limit = l, lru_entries = (x # xs) @ ys\<rparr>) =
        (if en_expires e \<le> now then Suc n else n, \<lparr>lru_limit = l, lru_entries = ?zs\<rparr>)"
    using g unfolding sweep_key_def by (simp add: lru_delete_def)
  have "distinct (map fst ?zs)" using Cons.prems x by auto
  from Cons.IH[OF this] s x show ?case by simp
qed

lemma lru_exec_distinct:
  "distinct (lru_keys c) \<Longrightarrow> distinct (lru_keys (snd (lru_get k c)))"
  "distinct (lru_keys c) \<Longrightarrow> distinct (lru_keys (snd (lru_set k v c)))"
  "distinct (lru_keys c) \<Longrightarrow> distinct (lru_keys (snd (lru_delete k c)))"
    by (auto simp: lru_keys_def lru_get_def lru_set_def lru_delete_def Let_def distinct_update distinct_delete
        split: option.splits list.splits)

lemma sweep_key_distinct:
  "distinct (lru_keys (snd s)) \<Longrightarrow> distinct (lru_keys (snd (sweep_key now k s)))"
  using lru_exec_distinct(1)[of "snd s" k]
  by (simp add: sweep_key_def case_prod_beta lru_exec_distinct split: option.splits)

lemma sweep_fold_distinct:
  "distinct (lru_keys (snd s)) \<Longrightarrow> distinct (lru_keys (snd (fold (sweep_key now) ks s)))"
  by (induction ks arbitrary: s) (simp_all add: sweep_key_distinct)

lemma ttl_get_distinct:
  "distinct (lru_keys (tt_cache c)) \<Longrightarrow> distinct (lru_keys (tt_cache (snd (ttl_get now k c))))"
  using lru_exec_distinct(1)[of "tt_cache c" k]
  by (simp add: ttl_get_def case_prod_beta lru_exec_distinct split: option.splits)

lemma ttl_exec_distinct:
  assumes "distinct (lru_keys (tt_cache c))"
  shows "distinct (lru_keys (tt_cache (snd (ttl_exec (x, now) c))))"
proof (cases x)
  case (TPut k v)
  with assms lru_exec_distinct(2)[of "tt_cache c" k "\<lparr>en_value = v, en_expires = now + tt_ttl c\<rparr>"]
  show ?thesis by (simp add: ttl_set_def case_prod_beta)
next
  case (TDel k)
  with assms lru_exec_distinct(3)[of "tt_cache c" k] show ?thesis by (simp add: ttl_delete_def case_prod_beta)
next
  case TClear
  then show ?thesis by (simp add: ttl_clear_def lru_clear_def lru_keys_def)
next
  case TSweep
  with assms sweep_fold_distinct[of "(0, tt_cache c)" now "lru_keys (tt_cache c)"] show ?thesis
    by (simp add: ttl_sweep_def case_prod_beta)
next
  case (TGet k)
  with assms ttl_get_distinct[of c now k] show ?thesis by (simp add: case_prod_beta)
next
  case (THas k)
  with assms ttl_get_distinct[of c now k] show ?thesis by (simp add: ttl_has_def case_prod_beta)
qed

lemma ttl_run_distinct:
  "distinct (lru_keys (tt_cache c)) \<Longrightarrow> distinct (lru_keys (tt_cache (snd (run_calls ttl_exec cs c))))"
proof (induction cs arbitrary: c)
  case (Cons x cs)
  obtain y now where x: "x = (y, now)" by fastforce
  from Cons.IH[OF ttl_exec_distinct[OF Cons.prems, of y now]] show ?case
    by (cases "ttl_exec x c"; cases "run_calls ttl_exec cs (snd (ttl_exec x c))") (simp add: x)
qed simp

text \<open>
  Whatever calls came before, a sweep drops exactly the expired entries, counts them, and leaves
  the others in their order of use, although it moves every entry it reads.
\<close>

theorem sweep_is_filter:
  assumes "new_TtlLruCache limit ttl = Inr c0" and "c = snd (run_calls ttl_exec cs c0)"
    and "es = lru_entries (tt_cache c)"
  shows "ttl_sweep now c =
         (length (filter (\<lambda>kv. en_expires (snd kv) \<le> now) es),
          c\<lparr>tt_cache := (tt_cache c)\<lparr>lru_entries := filter (\<lambda>kv. now < en_expires (snd kv)) es\<rparr>\<rparr>)"
proof -
  have "distinct (lru_keys (tt_cache c0))"
    using assms(1) by (auto simp: new_TtlLruCache_def new_LruCache_def result_simps lru_keys_def
        split: if_splits option.splits)
  from ttl_run_distinct[OF this] assms have d: "distinct (map fst es)" by (simp add: lru_keys_def)
  obtain l where c: "tt_cache c = \<lparr>lru_limit = l, lru_entries = es\<rparr>"
    using assms(3) by (cases "tt_cache c") auto
  with d sweep_fold[of es "[]" now 0 l] show ?thesis
    by (simp add: ttl_sweep_def lru_keys_def not_le)
qed

theorem sweep_is_filter_witness:
  "\<exists>c. ttl_sweep 11 c =
     (1, c\<lparr>tt_cache := \<lparr>lru_limit = 2, lru_entries = [(2 :: nat, \<lparr>en_value = ''b'', en_expires = 15\<rparr>)]\<rparr>\<rparr>)"
proof -
  let ?start = "\<lparr>tt_cache = \<lparr>lru_limit = 2, lru_entries = []\<rparr>, tt_ttl = 10\<rparr>"
  let ?c = "snd (run_calls ttl_exec [(TPut 1 ''a'', 0), (TPut (2::nat) ''b'', 5)] ?start)"
  have "new_TtlLruCache (Some 2) (Some 10) = Inr ?start" by (simp add: new_TtlLruCache_def new_LruCache_def)
  note sweep = sweep_is_filter[OF this, of ?c "[(TPut 1 ''a'', 0), (TPut (2::nat) ''b'', 5)]" _ 11, OF refl refl]
  have "tt_cache ?c = \<lparr>lru_limit = 2, lru_entries =
      [(1, \<lparr>en_value = ''a'', en_expires = 10\<rparr>), (2, \<lparr>en_value = ''b'', en_expires = 15\<rparr>)]\<rparr>"
    by (simp add: ttl_set_def lru_set_def lru_has_def lru_size_def)
  with sweep show ?thesis by (intro exI[of _ ?c]) (simp only: lru.simps filter.simps snd_conv ttl_entry.simps; simp)
qed

end
