(* ===== verification/Items.thy ===== *)
theory Items
  imports Json
begin

text \<open>
  The conversation data of \<open>contracts\<close>: turn items (\<open>items.ts\<close>), the review payload they carry
  (\<open>review.ts\<close>), usage counters (\<open>usage.ts\<close>) and the persisted runtime events (\<open>events.ts\<close>), with
  the constraints their schemas put on the fields as predicates.

  Every kind of a discriminated union is a constructor; the fields all kinds share are a record
  around it. The status is a field of the kind because approvals and user inputs override it.
  Time stamps are the ISO strings of the source. Token counts are naturals, exact as long as they
  stay below \<open>2 ^ 53\<close>; amounts of money and rates are rationals, and the functions that compute
  them take the rounding of double arithmetic as an argument.
\<close>

section \<open>JavaScript truth values\<close>

text \<open>\<open>x ? x : undefined\<close> for an optional string and an optional count.\<close>

fun truthy :: "string option \<Rightarrow> string option" where
  "truthy (Some []) = None"
| "truthy x = x"

definition truthy_nat :: "nat option \<Rightarrow> nat option" where
  "truthy_nat x = (if x = Some 0 then None else x)"

definition or_else :: "'a option \<Rightarrow> 'a \<Rightarrow> 'a" where
  "or_else x d = (case x of None \<Rightarrow> d | Some y \<Rightarrow> y)"

lemma truthy_Some [simp]: "truthy x = Some y \<longleftrightarrow> x = Some y \<and> y \<noteq> []"
  by (cases x rule: truthy.cases) auto

lemma truthy_nat_Some [simp]: "truthy_nat x = Some y \<longleftrightarrow> x = Some y \<and> y \<noteq> 0"
  by (auto simp: truthy_nat_def)

lemma or_else_simps [simp]: "or_else None d = d" "or_else (Some y) d = y"
  by (simp_all add: or_else_def)

definition filled :: "string option \<Rightarrow> bool" where
  "filled x = (x \<noteq> Some [])"

lemma filled_simps [simp]: "filled None" "filled (Some s) \<longleftrightarrow> s \<noteq> []"
  by (simp_all add: filled_def)

lemma filled_truthy [simp]: "filled (truthy x)"
  by (cases x rule: truthy.cases) (auto simp: filled_def)

section \<open>Turn items\<close>

datatype item_role = UserRole | AssistantRole | SystemRole | ToolRole

datatype item_status = ItemPending | ItemRunning | ItemCompleted | ItemFailed | ItemAborted

datatype approval_status = ApprovalPending | ApprovalAllowed | ApprovalDenied | ApprovalExpired

datatype input_status = InputPending | InputSubmitted | InputCancelled

datatype tool_kind = PlainTool | CommandExecution | FileChange

datatype severity = SeverityInfo | SeverityWarning | SeverityError

datatype progress_phase = Preparing | Executing | Checkpoint | Summarizing | Terminated

record input_option =
  io_label :: string
  io_description :: string

record input_question =
  iq_header :: string
  iq_id :: string
  iq_question :: string
  iq_options :: "input_option list"

record review_location =
  rl_path :: string
  rl_start :: nat
  rl_end :: nat

record review_finding =
  rf_title :: string
  rf_body :: string
  rf_confidence :: rat
  rf_priority :: nat
  rf_location :: review_location

record review_output =
  ro_findings :: "review_finding list"
  ro_correct :: bool
  ro_explanation :: string
  ro_confidence :: rat

datatype review_target =
    UncommittedChanges
  | BaseBranch string
  | CommitTarget string
  | CustomReview string

record tool_use =
  tu_tool :: string
  tu_call :: string
  tu_kind :: tool_kind

record compaction_info =
  ci_summary :: string
  ci_replaced :: nat
  ci_pinned :: "string list"
  ci_digest :: "string option"
  ci_marker :: "string option"
  ci_sources :: "string list option"
  ci_revision :: "nat option"
  ci_task_digest :: "string option"

record progress_info =
  pi_phase :: progress_phase
  pi_summary :: string
  pi_steps :: nat
  pi_tools :: nat
  pi_evidence :: nat
  pi_artifacts :: nat
  pi_reason :: "string option"

record error_info =
  er_message :: string
  er_code :: "string option"
  er_details :: "json option"
  er_severity :: "severity option"

datatype item_body =
    UserMessage item_status string "string option" "string list option"
  | AssistantText item_status string
  | AssistantReasoning item_status string "string option"
  | ToolCall item_status tool_use obj "string option"
  | ToolResult item_status tool_use "json option" bool
  | Approval approval_status string string string
  | UserInput input_status string string "input_question list"
  | Compaction item_status compaction_info
  | Review item_status review_target string "string option" "review_output option"
  | RuntimeProgress item_status progress_info
  | ErrorItem item_status error_info

record turn_item =
  ti_id :: string
  ti_turn :: string
  ti_thread :: string
  ti_role :: item_role
  ti_created :: string
  ti_finished :: "string option"
  ti_body :: item_body

subsection \<open>What the schemas demand\<close>

definition question_ok :: "input_question \<Rightarrow> bool" where
  "question_ok q = (iq_header q \<noteq> [] \<and> iq_id q \<noteq> [] \<and> iq_question q \<noteq> [] \<and>
     list_all (\<lambda>p. io_label p \<noteq> []) (iq_options q))"

definition finding_ok :: "review_finding \<Rightarrow> bool" where
  "finding_ok f = (rf_title f \<noteq> [] \<and> 0 \<le> rf_confidence f \<and> rf_confidence f \<le> 1 \<and>
     rf_priority f \<le> 3 \<and> rl_path (rf_location f) \<noteq> [] \<and>
     0 < rl_start (rf_location f) \<and> 0 < rl_end (rf_location f))"

definition output_ok :: "review_output \<Rightarrow> bool" where
  "output_ok r = (list_all finding_ok (ro_findings r) \<and> 0 \<le> ro_confidence r \<and> ro_confidence r \<le> 1)"

text \<open>The target fields are trimmed by the schema, so an accepted target is trimmed and not empty.\<close>

fun target_ok :: "review_target \<Rightarrow> bool" where
  "target_ok UncommittedChanges = True"
| "target_ok (BaseBranch s) = (trim s = s \<and> s \<noteq> [])"
| "target_ok (CommitTarget s) = (trim s = s \<and> s \<noteq> [])"
| "target_ok (CustomReview s) = (trim s = s \<and> s \<noteq> [])"

definition tool_use_ok :: "tool_use \<Rightarrow> bool" where
  "tool_use_ok t = (tu_tool t \<noteq> [] \<and> tu_call t \<noteq> [])"

definition names_filled :: "string list option \<Rightarrow> bool" where
  "names_filled ns = (case ns of None \<Rightarrow> True | Some xs \<Rightarrow> list_all (\<lambda>s. s \<noteq> []) xs)"

definition compaction_ok :: "compaction_info \<Rightarrow> bool" where
  "compaction_ok c = (filled (ci_digest c) \<and> filled (ci_marker c) \<and> names_filled (ci_sources c) \<and>
     ci_revision c \<noteq> Some 0 \<and> filled (ci_task_digest c))"

fun body_ok :: "item_body \<Rightarrow> bool" where
  "body_ok (UserMessage _ _ _ ids) = names_filled ids"
| "body_ok (ToolCall _ t _ _) = tool_use_ok t"
| "body_ok (ToolResult _ t _ _) = tool_use_ok t"
| "body_ok (Approval _ i t _) = (i \<noteq> [] \<and> t \<noteq> [])"
| "body_ok (UserInput _ i _ qs) = (i \<noteq> [] \<and> list_all question_ok qs)"
| "body_ok (Compaction _ c) = compaction_ok c"
| "body_ok (Review _ t title _ out) =
     (target_ok t \<and> title \<noteq> [] \<and> (case out of None \<Rightarrow> True | Some r \<Rightarrow> output_ok r))"
| "body_ok (RuntimeProgress _ p) = (pi_summary p \<noteq> [])"
| "body_ok _ = True"

definition item_ok :: "turn_item \<Rightarrow> bool" where
  "item_ok i = (ti_id i \<noteq> [] \<and> ti_turn i \<noteq> [] \<and> ti_thread i \<noteq> [] \<and> body_ok (ti_body i))"

subsection \<open>Reviews\<close>

fun reviewTargetTitle :: "review_target \<Rightarrow> string" where
  "reviewTargetTitle UncommittedChanges = ''Review current changes''"
| "reviewTargetTitle (BaseBranch b) = ''Review changes against '' @ b"
| "reviewTargetTitle (CommitTarget s) = ''Review commit '' @ take 12 s"
| "reviewTargetTitle (CustomReview _) = ''Custom code review''"

fun reviewTargetPrompt :: "review_target \<Rightarrow> string" where
  "reviewTargetPrompt UncommittedChanges = ''/review''"
| "reviewTargetPrompt (BaseBranch b) = ''/review base '' @ b"
| "reviewTargetPrompt (CommitTarget s) = ''/review commit '' @ s"
| "reviewTargetPrompt (CustomReview s) = ''/review '' @ s"

section \<open>Usage\<close>

record usage =
  u_prompt :: nat
  u_completion :: nat
  u_total :: nat
  u_cached :: "nat option"
  u_hit :: "nat option"
  u_miss :: "nat option"
  u_rate :: "rat option"
  u_turns :: nat
  u_cost_usd :: "rat option"
  u_cost_cny :: "rat option"
  u_saved_usd :: "rat option"
  u_saved_cny :: "rat option"
  u_econ_tokens :: "nat option"
  u_econ_usd :: "rat option"
  u_econ_cny :: "rat option"
  u_error :: "bool option"

definition emptyUsageSnapshot :: usage where
  "emptyUsageSnapshot = \<lparr>u_prompt = 0, u_completion = 0, u_total = 0, u_cached = Some 0,
     u_hit = Some 0, u_miss = Some 0, u_rate = None, u_turns = 0, u_cost_usd = None,
     u_cost_cny = None, u_saved_usd = Some 0, u_saved_cny = Some 0, u_econ_tokens = Some 0,
     u_econ_usd = Some 0, u_econ_cny = Some 0, u_error = None\<rparr>"

section \<open>Runtime events\<close>

datatype child_status = ChildQueued | ChildRunning | ChildCompleted | ChildFailed | ChildAborted

record event_child =
  ec_thread :: string
  ec_turn :: string
  ec_id :: string
  ec_label :: "string option"
  ec_status :: child_status
  ec_seq :: nat

datatype item_event_kind =
    ItemCreated | ItemUpdated | ItemDone | TextDelta | ReasoningDelta | CallStarted | CallFinished

datatype turn_event_kind = TurnStarted | TurnCompleted | TurnFailed | TurnAborted | TurnSteered

datatype change_kind = Additive | Breaking

datatype pipeline_stage =
    Setup | PreStart | PostStart | InputReceived | InputCached | InputRouted | InputCompressed
  | InputRemembered | PreSend | PostSend | ResponseReceived

record tool_catalog =
  tc_fingerprint :: string
  tc_count :: nat
  tc_change :: "change_kind option"
  tc_names :: "string list option"
  tc_message :: "string option"

record compaction_event =
  ce_summary :: "string option"
  ce_replaced :: "nat option"
  ce_pinned :: "string list option"
  ce_digest :: "string option"
  ce_marker :: "string option"
  ce_sources :: "string list option"

record turn_note =
  tn_status :: "string option"
  tn_text :: "string option"
  tn_message :: "string option"
  tn_code :: "string option"
  tn_details :: "json option"
  tn_severity :: "severity option"

text \<open>The payloads of goal and todo events are not inspected by the modelled code and stay JSON.\<close>

datatype event_body =
    ItemEvent item_event_kind turn_item
  | ThreadCreated "string option" "string option"
  | ThreadUpdated "string option" "string option"
  | TurnEvent turn_event_kind turn_note
  | ApprovalRequested string string approval_status "string option"
  | ApprovalResolved string string approval_status "string option"
  | UserInputRequested string input_status "string option" "input_question list option"
  | UserInputResolved string input_status "string option" "input_question list option"
  | ToolCallReady string string nat
  | ToolUploadWait nat
  | ToolStormSuppressed string string string
  | ToolCatalogChanged tool_catalog
  | CompactionStarted compaction_event
  | CompactionCompleted compaction_event
  | GoalEvent bool "json option" "bool option"
  | TodoEvent bool "json option" "bool option"
  | UsageEvent "string option" usage
  | PipelineStage pipeline_stage "string option" "obj option"
  | ErrorEvent error_info
  | Heartbeat

record runtime_event =
  ev_seq :: nat
  ev_time :: string
  ev_thread :: string
  ev_turn :: "string option"
  ev_item :: "string option"
  ev_child :: "event_child option"
  ev_body :: event_body

definition child_ok :: "event_child \<Rightarrow> bool" where
  "child_ok c = (ec_thread c \<noteq> [] \<and> ec_turn c \<noteq> [] \<and> ec_id c \<noteq> [])"

definition compaction_event_ok :: "compaction_event \<Rightarrow> bool" where
  "compaction_event_ok c = (filled (ce_digest c) \<and> filled (ce_marker c) \<and> names_filled (ce_sources c))"

definition questions_ok :: "input_question list option \<Rightarrow> bool" where
  "questions_ok qs = (case qs of None \<Rightarrow> True | Some xs \<Rightarrow> list_all question_ok xs)"

fun event_body_ok :: "event_body \<Rightarrow> bool" where
  "event_body_ok (ItemEvent _ i) = item_ok i"
| "event_body_ok (ApprovalRequested i t _ _) = (i \<noteq> [] \<and> t \<noteq> [])"
| "event_body_ok (ApprovalResolved i t _ _) = (i \<noteq> [] \<and> t \<noteq> [])"
| "event_body_ok (UserInputRequested i _ _ qs) = (i \<noteq> [] \<and> questions_ok qs)"
| "event_body_ok (UserInputResolved i _ _ qs) = (i \<noteq> [] \<and> questions_ok qs)"
| "event_body_ok (ToolCallReady t c n) = (t \<noteq> [] \<and> c \<noteq> [] \<and> 0 < n)"
| "event_body_ok (ToolStormSuppressed t c _) = (t \<noteq> [] \<and> c \<noteq> [])"
| "event_body_ok (ToolCatalogChanged c) = (tc_fingerprint c \<noteq> [] \<and> names_filled (tc_names c))"
| "event_body_ok (CompactionStarted c) = compaction_event_ok c"
| "event_body_ok (CompactionCompleted c) = compaction_event_ok c"
| "event_body_ok (PipelineStage _ l _) = filled l"
| "event_body_ok _ = True"

definition event_ok :: "runtime_event \<Rightarrow> bool" where
  "event_ok e = (ev_thread e \<noteq> [] \<and>
     (case ev_child e of None \<Rightarrow> True | Some c \<Rightarrow> child_ok c) \<and> event_body_ok (ev_body e))"

end
