(* ===== verification/Usage.thy ===== *)
theory Usage
  imports Items
begin

text \<open>
  Token, cache and cost counters: the sum of two snapshots (\<open>domain/usage.ts\<close>), the per-thread usage
  counter (\<open>cache/usage-counter.ts\<close>) and the cache telemetry (\<open>cache/cache-telemetry.ts\<close>).

  The argument \<open>rnd\<close> of the functions below is the rounding of double arithmetic: money is added and
  the hit rate divided exactly, then rounded. The counts need no rounding.
\<close>

section \<open>Adding snapshots\<close>

definition count_sum :: "nat option \<Rightarrow> nat option \<Rightarrow> nat option" where
  "count_sum a b = Some (or_else a 0 + or_else b 0)"

definition money_sum :: "(rat \<Rightarrow> rat) \<Rightarrow> rat option \<Rightarrow> rat option \<Rightarrow> rat option" where
  "money_sum rnd a b =
     (if a = None \<and> b = None then None else Some (rnd (or_else a 0 + or_else b 0)))"

definition hit_rate :: "(rat \<Rightarrow> rat) \<Rightarrow> nat \<Rightarrow> nat \<Rightarrow> rat option" where
  "hit_rate rnd hits all =
     (if all = 0 then None else Some (rnd (of_nat hits / of_nat all)))"

definition addUsage :: "(rat \<Rightarrow> rat) \<Rightarrow> usage \<Rightarrow> usage \<Rightarrow> usage" where
  "addUsage rnd a b = (
     let hits = or_else (u_hit a) 0 + or_else (u_hit b) 0;
         misses = or_else (u_miss a) 0 + or_else (u_miss b) 0
     in \<lparr>u_prompt = u_prompt a + u_prompt b,
         u_completion = u_completion a + u_completion b,
         u_total = (u_prompt a + u_prompt b) + (u_completion a + u_completion b),
         u_cached = count_sum (u_cached a) (u_cached b),
         u_hit = Some hits,
         u_miss = Some misses,
         u_rate = hit_rate rnd hits (hits + misses),
         u_turns = u_turns a + u_turns b,
         u_cost_usd = money_sum rnd (u_cost_usd a) (u_cost_usd b),
         u_cost_cny = money_sum rnd (u_cost_cny a) (u_cost_cny b),
         u_saved_usd = money_sum rnd (u_saved_usd a) (u_saved_usd b),
         u_saved_cny = money_sum rnd (u_saved_cny a) (u_saved_cny b),
         u_econ_tokens = count_sum (u_econ_tokens a) (u_econ_tokens b),
         u_econ_usd = money_sum rnd (u_econ_usd a) (u_econ_usd b),
         u_econ_cny = money_sum rnd (u_econ_cny a) (u_econ_cny b),
         u_error = None\<rparr>)"

section \<open>The usage counter\<close>

type_synonym counter = "(string, usage) jsmap"

definition counter_reset :: "string option \<Rightarrow> counter \<Rightarrow> counter" where
  "counter_reset t c = (case t of None \<Rightarrow> [] | Some k \<Rightarrow> AList.delete k c)"

text \<open>
  The floors and lower bounds of the source act on counts, where they are the identity; what is left
  of them is the cut of negative money.
\<close>

definition normalizeUsageSnapshot :: "(rat \<Rightarrow> rat) \<Rightarrow> usage \<Rightarrow> usage" where
  "normalizeUsageSnapshot rnd s = (
     let tot = (if u_total s \<noteq> 0 then u_total s else u_prompt s + u_completion s);
         cache_total = or_else (u_hit s) 0 + or_else (u_miss s) 0
     in s\<lparr>u_total := tot,
          u_rate := (case u_hit s of None \<Rightarrow> None | Some h \<Rightarrow> hit_rate rnd h cache_total),
          u_cost_usd := map_option (max 0) (u_cost_usd s),
          u_cost_cny := map_option (max 0) (u_cost_cny s),
          u_saved_usd := map_option (max 0) (u_saved_usd s),
          u_saved_cny := map_option (max 0) (u_saved_cny s),
          u_econ_usd := map_option (max 0) (u_econ_usd s),
          u_econ_cny := map_option (max 0) (u_econ_cny s),
          u_error := (if u_error s = Some True then Some True else None)\<rparr>)"

definition counter_seed :: "(rat \<Rightarrow> rat) \<Rightarrow> string \<Rightarrow> usage \<Rightarrow> counter \<Rightarrow> usage \<times> counter" where
  "counter_seed rnd t s c =
     (let s' = normalizeUsageSnapshot rnd s in (s', AList.update t s' c))"

text \<open>The source repeats the sum inside \<open>record\<close>; a recorded response counts as at
  least one turn and keeps its error flag.\<close>

definition counter_record :: "(rat \<Rightarrow> rat) \<Rightarrow> string \<Rightarrow> usage \<Rightarrow> counter \<Rightarrow> usage \<times> counter" where
  "counter_record rnd t s c = (
     let current = get_or emptyUsageSnapshot c t;
         sum = addUsage rnd current s;
         s' = sum\<lparr>u_turns := u_turns current + (if 0 < u_turns s then u_turns s else 1),
                  u_error := u_error s\<rparr>
     in (s', AList.update t s' c))"

definition recordTokenEconomySavings ::
    "(rat \<Rightarrow> rat) \<Rightarrow> string \<Rightarrow> nat option \<Rightarrow> rat option \<Rightarrow> rat option \<Rightarrow> counter \<Rightarrow> usage \<times> counter" where
  "recordTokenEconomySavings rnd t tokens usd cny c = (
     let current = get_or emptyUsageSnapshot c t;
         s' = current\<lparr>u_econ_tokens := count_sum (u_econ_tokens current) tokens,
                      u_econ_usd := money_sum rnd (u_econ_usd current) usd,
                      u_econ_cny := money_sum rnd (u_econ_cny current) cny\<rparr>
     in (s', AList.update t s' c))"

text \<open>The counter has its own copy of the sum of two snapshots.\<close>

definition mergeUsage :: "(rat \<Rightarrow> rat) \<Rightarrow> usage \<Rightarrow> usage \<Rightarrow> usage" where
  "mergeUsage rnd a b = (
     let hits = or_else (u_hit a) 0 + or_else (u_hit b) 0;
         misses = or_else (u_miss a) 0 + or_else (u_miss b) 0
     in \<lparr>u_prompt = u_prompt a + u_prompt b,
         u_completion = u_completion a + u_completion b,
         u_total = (u_prompt a + u_prompt b) + (u_completion a + u_completion b),
         u_cached = count_sum (u_cached a) (u_cached b),
         u_hit = Some hits,
         u_miss = Some misses,
         u_rate = hit_rate rnd hits (hits + misses),
         u_turns = u_turns a + u_turns b,
         u_cost_usd = money_sum rnd (u_cost_usd a) (u_cost_usd b),
         u_cost_cny = money_sum rnd (u_cost_cny a) (u_cost_cny b),
         u_saved_usd = money_sum rnd (u_saved_usd a) (u_saved_usd b),
         u_saved_cny = money_sum rnd (u_saved_cny a) (u_saved_cny b),
         u_econ_tokens = count_sum (u_econ_tokens a) (u_econ_tokens b),
         u_econ_usd = money_sum rnd (u_econ_usd a) (u_econ_usd b),
         u_econ_cny = money_sum rnd (u_econ_cny a) (u_econ_cny b),
         u_error = None\<rparr>)"

lemma mergeUsage_addUsage: "mergeUsage rnd = addUsage rnd"
  by (intro ext) (simp add: mergeUsage_def addUsage_def)

definition counter_total :: "(rat \<Rightarrow> rat) \<Rightarrow> counter \<Rightarrow> usage" where
  "counter_total rnd c = foldl (mergeUsage rnd) emptyUsageSnapshot (map snd c)"

definition forThread :: "string \<Rightarrow> counter \<Rightarrow> usage" where
  "forThread t c = get_or emptyUsageSnapshot c t"

section \<open>Cache telemetry\<close>

record telemetry =
  te_hits :: "(string, nat) jsmap"
  te_misses :: "(string, nat) jsmap"
  te_writes :: "(string, nat) jsmap"
  te_invalidations :: "(string, nat) jsmap"

definition bump :: "string \<Rightarrow> nat \<Rightarrow> (string, nat) jsmap \<Rightarrow> (string, nat) jsmap" where
  "bump t n m = AList.update t (get_or 0 m t + n) m"

definition recordHit :: "string \<Rightarrow> nat \<Rightarrow> telemetry \<Rightarrow> telemetry" where
  "recordHit t n c = c\<lparr>te_hits := bump t n (te_hits c)\<rparr>"

definition recordMiss :: "string \<Rightarrow> nat \<Rightarrow> telemetry \<Rightarrow> telemetry" where
  "recordMiss t n c = c\<lparr>te_misses := bump t n (te_misses c)\<rparr>"

definition recordWrite :: "string \<Rightarrow> nat \<Rightarrow> telemetry \<Rightarrow> telemetry" where
  "recordWrite t n c = c\<lparr>te_writes := bump t n (te_writes c)\<rparr>"

definition recordInvalidation :: "string \<Rightarrow> telemetry \<Rightarrow> telemetry" where
  "recordInvalidation t c = c\<lparr>te_invalidations := bump t 1 (te_invalidations c)\<rparr>"

definition ingest :: "string \<Rightarrow> usage \<Rightarrow> telemetry \<Rightarrow> telemetry" where
  "ingest t u c = (
     let c1 = (case truthy_nat (u_hit u) of None \<Rightarrow> c | Some n \<Rightarrow> recordHit t n c);
         c2 = (case truthy_nat (u_miss u) of None \<Rightarrow> c1 | Some n \<Rightarrow> recordMiss t n c1)
     in case truthy_nat (u_cached u) of
          None \<Rightarrow> c2
        | Some n \<Rightarrow> if or_else (u_hit u) 0 < n then recordWrite t (n - or_else (u_hit u) 0) c2 else c2)"

record telemetry_view =
  tv_hits :: nat
  tv_misses :: nat
  tv_writes :: nat
  tv_invalidations :: nat
  tv_rate :: "rat option"

definition telemetry_snapshot :: "(rat \<Rightarrow> rat) \<Rightarrow> string \<Rightarrow> telemetry \<Rightarrow> telemetry_view" where
  "telemetry_snapshot rnd t c = (
     let hits = get_or 0 (te_hits c) t; misses = get_or 0 (te_misses c) t
     in \<lparr>tv_hits = hits, tv_misses = misses, tv_writes = get_or 0 (te_writes c) t,
         tv_invalidations = get_or 0 (te_invalidations c) t,
         tv_rate = hit_rate rnd hits (hits + misses)\<rparr>)"

definition telemetry_reset :: "string option \<Rightarrow> telemetry \<Rightarrow> telemetry" where
  "telemetry_reset t c = (case t of
      None \<Rightarrow> \<lparr>te_hits = [], te_misses = [], te_writes = [], te_invalidations = []\<rparr>
    | Some k \<Rightarrow> \<lparr>te_hits = AList.delete k (te_hits c), te_misses = AList.delete k (te_misses c),
                te_writes = AList.delete k (te_writes c),
                te_invalidations = AList.delete k (te_invalidations c)\<rparr>)"

section \<open>Totals\<close>

text \<open>The counts of a snapshot that every sum adds.\<close>

definition counts :: "usage \<Rightarrow> nat list" where
  "counts u = [u_prompt u, u_completion u, or_else (u_cached u) 0, or_else (u_hit u) 0,
               or_else (u_miss u) 0, u_turns u, or_else (u_econ_tokens u) 0]"

text \<open>What recording a response adds to them: a response is at least one turn.\<close>

definition recorded :: "usage \<Rightarrow> nat list" where
  "recorded u = counts (u\<lparr>u_turns := max 1 (u_turns u)\<rparr>)"

lemma below_seven: "(i :: nat) < 7 \<longleftrightarrow> i \<in> {0, 1, 2, 3, 4, 5, 6}"
  by auto

lemma counts_empty: "i < 7 \<Longrightarrow> counts emptyUsageSnapshot ! i = 0"
  by (auto simp: below_seven counts_def emptyUsageSnapshot_def)

lemma counts_add: "i < 7 \<Longrightarrow> counts (addUsage rnd a b) ! i = counts a ! i + counts b ! i"
  by (auto simp: below_seven counts_def addUsage_def count_sum_def Let_def)

lemma counts_record:
  "i < 7 \<Longrightarrow> counts (fst (counter_record rnd t s c)) ! i =
     counts (get_or emptyUsageSnapshot c t) ! i + recorded s ! i"
  by (auto simp: below_seven counts_def recorded_def counter_record_def addUsage_def count_sum_def Let_def)

lemma counts_foldl:
  "i < 7 \<Longrightarrow> counts (foldl (addUsage rnd) a us) ! i = counts a ! i + (\<Sum>u \<leftarrow> us. counts u ! i)"
  by (induction us arbitrary: a) (simp_all add: counts_add)

lemma sum_update:
  assumes "distinct (map fst m)" and "f d = (0 :: nat)"
  shows "(\<Sum>kv \<leftarrow> AList.update k v m. f (snd kv)) + f (get_or d m k) = (\<Sum>kv \<leftarrow> m. f (snd kv)) + f v"
  using assms(1)
proof (induction m)
  case Nil
  then show ?case using assms(2) by (simp add: get_or_def)
next
  case (Cons x m)
  then show ?case by (cases x) (auto simp: get_or_def)
qed

definition record_all :: "(rat \<Rightarrow> rat) \<Rightarrow> (string \<times> usage) list \<Rightarrow> counter \<Rightarrow> counter" where
  "record_all rnd rs c = fold (\<lambda>r c. snd (counter_record rnd (fst r) (snd r) c)) rs c"

lemma record_snd: "snd (counter_record rnd t s c) = AList.update t (fst (counter_record rnd t s c)) c"
  by (simp add: counter_record_def Let_def)

lemma record_all_total:
  assumes "i < 7" and "distinct (map fst c)"
  shows "counts (counter_total rnd (record_all rnd rs c)) ! i =
         counts (counter_total rnd c) ! i + (\<Sum>r \<leftarrow> rs. recorded (snd r) ! i)"
  using assms(2)
proof (induction rs arbitrary: c)
  case Nil
  then show ?case by (simp add: record_all_def)
next
  case (Cons r rs)
  let ?c = "snd (counter_record rnd (fst r) (snd r) c)"
  have d: "distinct (map fst ?c)" using Cons.prems by (simp add: record_snd distinct_update)
  have "counts (counter_total rnd ?c) ! i = counts (counter_total rnd c) ! i + recorded (snd r) ! i"
    using sum_update[OF Cons.prems, of "\<lambda>u. counts u ! i" emptyUsageSnapshot "fst r"
        "fst (counter_record rnd (fst r) (snd r) c)"] counts_record[OF assms(1), of rnd "fst r" "snd r" c]
    by (simp add: counter_total_def mergeUsage_addUsage counts_foldl[OF assms(1)] counts_empty[OF assms(1)] record_snd o_def)
  with Cons.IH[OF d] show ?case by (simp add: record_all_def)
qed

lemma record_all_thread:
  assumes "i < 7"
  shows "counts (forThread t (record_all rnd rs c)) ! i =
         counts (forThread t c) ! i + (\<Sum>r \<leftarrow> filter (\<lambda>r. fst r = t) rs. recorded (snd r) ! i)"
proof (induction rs arbitrary: c)
  case Nil
  then show ?case by (simp add: record_all_def)
next
  case (Cons r rs)
  have "counts (forThread t (snd (counter_record rnd (fst r) (snd r) c))) ! i =
      counts (forThread t c) ! i + (if fst r = t then recorded (snd r) ! i else 0)"
    using counts_record[OF assms, of rnd "fst r" "snd r" c] by (auto simp: forThread_def record_snd)
  with Cons.IH show ?case by (simp add: record_all_def)
qed

text \<open>
  Usage adds up: after recording any series of responses, every token count of a thread is the sum
  over the responses of that thread, and every count of the grand total is the sum over all of them,
  each response counting as at least one turn.
\<close>

theorem usage_adds_up:
  assumes "i < 7"
  shows "counts (forThread t (record_all rnd rs [])) ! i =
           (\<Sum>r \<leftarrow> filter (\<lambda>r. fst r = t) rs. recorded (snd r) ! i) \<and>
         counts (counter_total rnd (record_all rnd rs [])) ! i = (\<Sum>r \<leftarrow> rs. recorded (snd r) ! i)"
  using record_all_thread[OF assms, of t rnd rs "[]"] record_all_total[OF assms, of "[]" rnd rs]
    counts_empty[OF assms]
  by (simp add: forThread_def get_or_def counter_total_def)

theorem usage_adds_up_witness:
  "counts (counter_total id (record_all id [(''a'', emptyUsageSnapshot\<lparr>u_prompt := 7\<rparr>),
     (''b'', emptyUsageSnapshot\<lparr>u_turns := 2\<rparr>)] [])) ! 5 = 3"
  using usage_adds_up[of 5 "''a''" id "[(''a'', emptyUsageSnapshot\<lparr>u_prompt := 7\<rparr>),
     (''b'', emptyUsageSnapshot\<lparr>u_turns := 2\<rparr>)]"]
  by (simp add: recorded_def counts_def emptyUsageSnapshot_def)

end
