(* ===== verification/EventReducer.thy ===== *)
theory EventReducer
  imports Usage
begin

text \<open>
  The projection of a thread's runtime events (\<open>domain/runtime-event-reducer.ts\<close>): the state a
  subscriber rebuilds from the persisted log, and the reducer that folds one event into it.

  The reducer of the source mutates a deep copy; here every step returns the new projection. A turn
  the source finds and then mutates is the first turn with that id, replaced in place.
\<close>

section \<open>Replacing by key\<close>

text \<open>The idiom of the reducer: change the first element with a key in place, or append a new one.\<close>

definition change_by :: "('a \<Rightarrow> 'k) \<Rightarrow> 'k \<Rightarrow> ('a \<Rightarrow> 'a) \<Rightarrow> 'a \<Rightarrow> 'a list \<Rightarrow> 'a list" where
  "change_by key k f new xs = (case find_index (\<lambda>x. key x = k) xs of
      Some i \<Rightarrow> xs[i := f (xs ! i)]
    | None \<Rightarrow> xs @ [new])"

section \<open>The projection\<close>

datatype turn_progress = TurnUnknown | TurnRunning | TurnDone | TurnError | TurnStopped

record turn_view =
  tp_id :: string
  tp_thread :: string
  tp_status :: turn_progress
  tp_started :: "string option"
  tp_finished :: "string option"
  tp_steering :: "string list"
  tp_items :: "string list"

record child_view =
  cr_id :: string
  cr_thread :: string
  cr_turn :: string
  cr_label :: "string option"
  cr_status :: child_status
  cr_seq :: nat
  cr_updated :: string
  cr_text :: "string option"

record compaction_view =
  cv_item :: "string option"
  cv_turn :: "string option"
  cv_event :: compaction_event

record error_view =
  xv_seq :: nat
  xv_turn :: "string option"
  xv_item :: "string option"
  xv_error :: error_info

record projection =
  pr_thread :: string
  pr_seq :: nat
  pr_started :: "string option"
  pr_updated :: "string option"
  pr_title :: "string option"
  pr_status :: "string option"
  pr_turns :: "turn_view list"
  pr_items :: "turn_item list"
  pr_usage :: usage
  pr_children :: "child_view list"
  pr_compactions :: "compaction_view list"
  pr_catalog :: "tool_catalog option"
  pr_errors :: "error_view list"

definition createRuntimeEventProjection :: "string \<Rightarrow> projection" where
  "createRuntimeEventProjection t = \<lparr>pr_thread = t, pr_seq = 0, pr_started = None, pr_updated = None,
     pr_title = None, pr_status = None, pr_turns = [], pr_items = [], pr_usage = emptyUsageSnapshot,
     pr_children = [], pr_compactions = [], pr_catalog = None, pr_errors = []\<rparr>"

section \<open>Turns\<close>

definition fresh_turn :: "string \<Rightarrow> string \<Rightarrow> turn_view" where
  "fresh_turn thread turn = \<lparr>tp_id = turn, tp_thread = thread, tp_status = TurnUnknown,
     tp_started = None, tp_finished = None, tp_steering = [], tp_items = []\<rparr>"

text \<open>\<open>ensureTurn\<close> and the change its caller makes to the turn it returns.\<close>

definition change_turn ::
    "string \<Rightarrow> string \<Rightarrow> (turn_view \<Rightarrow> turn_view) \<Rightarrow> turn_view list \<Rightarrow> turn_view list" where
  "change_turn thread turn f ts = change_by tp_id turn f (f (fresh_turn thread turn)) ts"

fun advance_turn :: "turn_event_kind \<Rightarrow> turn_note \<Rightarrow> string \<Rightarrow> turn_view \<Rightarrow> turn_view" where
  "advance_turn TurnStarted n time t =
     t\<lparr>tp_status := TurnRunning, tp_started := Some (or_else (tp_started t) time)\<rparr>"
| "advance_turn TurnCompleted n time t = t\<lparr>tp_status := TurnDone, tp_finished := Some time\<rparr>"
| "advance_turn TurnFailed n time t = t\<lparr>tp_status := TurnError, tp_finished := Some time\<rparr>"
| "advance_turn TurnAborted n time t = t\<lparr>tp_status := TurnStopped, tp_finished := Some time\<rparr>"
| "advance_turn TurnSteered n time t = (case truthy (tn_text n) of
      None \<Rightarrow> t | Some s \<Rightarrow> t\<lparr>tp_steering := tp_steering t @ [s]\<rparr>)"

definition upsertChildRun :: "event_child \<Rightarrow> turn_note \<Rightarrow> string \<Rightarrow> projection \<Rightarrow> projection" where
  "upsertChildRun c n time p = (
     let run = \<lparr>cr_id = ec_id c, cr_thread = ec_thread c, cr_turn = ec_turn c,
                cr_label = truthy (ec_label c), cr_status = ec_status c, cr_seq = ec_seq c,
                cr_updated = time, cr_text = truthy (tn_text n)\<rparr>
     in p\<lparr>pr_children := change_by cr_id (ec_id c) (\<lambda>_. run) run (pr_children p)\<rparr>)"

definition applyTurnEvent ::
    "turn_event_kind \<Rightarrow> turn_note \<Rightarrow> runtime_event \<Rightarrow> projection \<Rightarrow> projection" where
  "applyTurnEvent kind n e p = (case ev_child e of
      Some c \<Rightarrow> upsertChildRun c n (ev_time e) p
    | None \<Rightarrow> (case truthy (ev_turn e) of
        None \<Rightarrow> p
      | Some turn \<Rightarrow>
          p\<lparr>pr_turns := change_turn (ev_thread e) turn (advance_turn kind n (ev_time e)) (pr_turns p)\<rparr>))"

section \<open>Items\<close>

fun append_body :: "item_body \<Rightarrow> item_body \<Rightarrow> item_body option" where
  "append_body (AssistantText _ a) (AssistantText s b) = Some (AssistantText s (a @ b))"
| "append_body (AssistantReasoning _ a sig) (AssistantReasoning s b sig') =
     Some (AssistantReasoning s (a @ b) (if truthy sig' = None then sig else sig'))"
| "append_body _ _ = None"

definition appendDelta :: "turn_item \<Rightarrow> turn_item \<Rightarrow> turn_item" where
  "appendDelta existing delta = (case append_body (ti_body existing) (ti_body delta) of
      None \<Rightarrow> delta
    | Some b \<Rightarrow> existing\<lparr>ti_body := b,
        ti_finished := (if ti_finished delta = None then ti_finished existing else ti_finished delta)\<rparr>)"

datatype upsert_mode = Replace | AppendDelta

definition list_item :: "string \<Rightarrow> turn_view \<Rightarrow> turn_view" where
  "list_item i t = (if i \<in> set (tp_items t) then t else t\<lparr>tp_items := tp_items t @ [i]\<rparr>)"

definition upsertItem :: "turn_item \<Rightarrow> upsert_mode \<Rightarrow> projection \<Rightarrow> projection" where
  "upsertItem item mode p = (
     let put = (\<lambda>old. if mode = AppendDelta then appendDelta old item else item);
         items = change_by ti_id (ti_id item) put item (pr_items p)
     in p\<lparr>pr_items := items,
          pr_turns := change_turn (ti_thread item) (ti_turn item) (list_item (ti_id item)) (pr_turns p)\<rparr>)"

definition compaction_item :: "runtime_event \<Rightarrow> string \<Rightarrow> string \<Rightarrow> nat \<Rightarrow> compaction_event \<Rightarrow> turn_item" where
  "compaction_item e item turn replaced c = \<lparr>ti_id = item, ti_turn = turn, ti_thread = ev_thread e,
     ti_role = SystemRole, ti_created = ev_time e, ti_finished = Some (ev_time e),
     ti_body = Compaction ItemCompleted \<lparr>ci_summary = or_else (ce_summary c) [], ci_replaced = replaced,
       ci_pinned = or_else (ce_pinned c) [], ci_digest = truthy (ce_digest c),
       ci_marker = truthy (ce_marker c), ci_sources = ce_sources c, ci_revision = None,
       ci_task_digest = None\<rparr>\<rparr>"

definition applyCompactionEvent :: "bool \<Rightarrow> compaction_event \<Rightarrow> runtime_event \<Rightarrow> projection \<Rightarrow> projection" where
  "applyCompactionEvent completed c e p = (
     let view = \<lparr>cv_item = truthy (ev_item e), cv_turn = truthy (ev_turn e),
                 cv_event = c\<lparr>ce_summary := truthy (ce_summary c), ce_digest := truthy (ce_digest c),
                              ce_marker := truthy (ce_marker c)\<rparr>\<rparr>;
         p' = p\<lparr>pr_compactions := pr_compactions p @ [view]\<rparr>
     in case (completed, truthy (ev_item e), truthy (ev_turn e), truthy_nat (ce_replaced c)) of
          (True, Some item, Some turn, Some n) \<Rightarrow>
            upsertItem (compaction_item e item turn n c) Replace p'
        | _ \<Rightarrow> p')"

section \<open>Approvals and user inputs\<close>

fun is_approval_of :: "string \<Rightarrow> item_body \<Rightarrow> bool" where
  "is_approval_of a (Approval _ a' _ _) = (a' = a)"
| "is_approval_of a _ = False"

fun set_approval :: "approval_status \<Rightarrow> item_body \<Rightarrow> item_body" where
  "set_approval s (Approval _ a tool summ) = Approval s a tool summ"
| "set_approval s b = b"

definition approval_item ::
    "string \<Rightarrow> string \<Rightarrow> approval_status \<Rightarrow> string option \<Rightarrow> runtime_event \<Rightarrow> string \<Rightarrow>
     turn_item list \<Rightarrow> turn_item" where
  "approval_item a tool status summ e turn items = (
     case List.find (\<lambda>i. is_approval_of a (ti_body i)) items of
       Some i \<Rightarrow> i\<lparr>ti_body := set_approval status (ti_body i),
         ti_finished := (if status \<noteq> ApprovalPending then Some (ev_time e) else ti_finished i)\<rparr>
     | None \<Rightarrow> \<lparr>ti_id = or_else (ev_item e) (''item_'' @ a), ti_turn = turn,
         ti_thread = ev_thread e, ti_role = ToolRole, ti_created = ev_time e,
         ti_finished = (if status \<noteq> ApprovalPending then Some (ev_time e) else None),
         ti_body = Approval status a tool (or_else summ [])\<rparr>)"

definition upsertApprovalFromEvent ::
    "string \<Rightarrow> string \<Rightarrow> approval_status \<Rightarrow> string option \<Rightarrow> runtime_event \<Rightarrow> projection \<Rightarrow> projection" where
  "upsertApprovalFromEvent a tool status summ e p = (case truthy (ev_turn e) of
      None \<Rightarrow> p
    | Some turn \<Rightarrow> upsertItem (approval_item a tool status summ e turn (pr_items p)) Replace p)"

fun is_input_of :: "string \<Rightarrow> item_body \<Rightarrow> bool" where
  "is_input_of u (UserInput _ u' _ _) = (u' = u)"
| "is_input_of u _ = False"

fun set_input :: "input_status \<Rightarrow> item_body \<Rightarrow> item_body" where
  "set_input s (UserInput _ u prompt qs) = UserInput s u prompt qs"
| "set_input s b = b"

definition user_input_item ::
    "string \<Rightarrow> input_status \<Rightarrow> string option \<Rightarrow> input_question list option \<Rightarrow> runtime_event \<Rightarrow>
     string \<Rightarrow> turn_item list \<Rightarrow> turn_item" where
  "user_input_item u status prompt qs e turn items = (
     case List.find (\<lambda>i. is_input_of u (ti_body i)) items of
       Some i \<Rightarrow> i\<lparr>ti_body := set_input status (ti_body i),
         ti_finished := (if status \<noteq> InputPending then Some (ev_time e) else ti_finished i)\<rparr>
     | None \<Rightarrow> \<lparr>ti_id = or_else (ev_item e) (''item_'' @ u), ti_turn = turn,
         ti_thread = ev_thread e, ti_role = ToolRole, ti_created = ev_time e,
         ti_finished = (if status \<noteq> InputPending then Some (ev_time e) else None),
         ti_body = UserInput status u (or_else prompt []) (or_else qs [])\<rparr>)"

definition upsertUserInputFromEvent ::
    "string \<Rightarrow> input_status \<Rightarrow> string option \<Rightarrow> input_question list option \<Rightarrow> runtime_event \<Rightarrow>
     projection \<Rightarrow> projection" where
  "upsertUserInputFromEvent u status prompt qs e p = (case truthy (ev_turn e) of
      None \<Rightarrow> p
    | Some turn \<Rightarrow> upsertItem (user_input_item u status prompt qs e turn (pr_items p)) Replace p)"

section \<open>The reducer\<close>

definition error_item :: "runtime_event \<Rightarrow> string \<Rightarrow> string \<Rightarrow> error_info \<Rightarrow> turn_item" where
  "error_item e item turn x = \<lparr>ti_id = item, ti_turn = turn, ti_thread = ev_thread e,
     ti_role = SystemRole, ti_created = ev_time e, ti_finished = Some (ev_time e),
     ti_body = ErrorItem ItemFailed x\<rparr>"

definition applyErrorEvent :: "error_info \<Rightarrow> runtime_event \<Rightarrow> projection \<Rightarrow> projection" where
  "applyErrorEvent x e p = (
     let x' = x\<lparr>er_code := truthy (er_code x)\<rparr>;
         p' = p\<lparr>pr_errors := pr_errors p @ [\<lparr>xv_seq = ev_seq e, xv_turn = truthy (ev_turn e),
                xv_item = truthy (ev_item e), xv_error = x'\<rparr>]\<rparr>
     in case (truthy (ev_item e), truthy (ev_turn e)) of
          (Some item, Some turn) \<Rightarrow>
            upsertItem (error_item e item turn x') Replace p'
        | _ \<Rightarrow> p')"

definition name_thread :: "string option \<Rightarrow> string option \<Rightarrow> projection \<Rightarrow> projection" where
  "name_thread title status p =
     p\<lparr>pr_title := (if truthy title = None then pr_title p else title),
       pr_status := (if truthy status = None then pr_status p else status)\<rparr>"

definition delta_mode :: "item_event_kind \<Rightarrow> upsert_mode" where
  "delta_mode k = (if k = TextDelta \<or> k = ReasoningDelta then AppendDelta else Replace)"

fun apply_body :: "(rat \<Rightarrow> rat) \<Rightarrow> event_body \<Rightarrow> runtime_event \<Rightarrow> projection \<Rightarrow> projection" where
  "apply_body rnd (ThreadCreated title status) e p =
     (name_thread title status p)\<lparr>pr_started := Some (or_else (pr_started p) (ev_time e))\<rparr>"
| "apply_body rnd (ThreadUpdated title status) e p = name_thread title status p"
| "apply_body rnd (TurnEvent k n) e p = applyTurnEvent k n e p"
| "apply_body rnd (ItemEvent k item) e p = upsertItem item (delta_mode k) p"
| "apply_body rnd (ApprovalRequested a tool s summ) e p = upsertApprovalFromEvent a tool s summ e p"
| "apply_body rnd (ApprovalResolved a tool s summ) e p = upsertApprovalFromEvent a tool s summ e p"
| "apply_body rnd (UserInputRequested u s prompt qs) e p = upsertUserInputFromEvent u s prompt qs e p"
| "apply_body rnd (UserInputResolved u s prompt qs) e p = upsertUserInputFromEvent u s prompt qs e p"
| "apply_body rnd (CompactionStarted c) e p = applyCompactionEvent False c e p"
| "apply_body rnd (CompactionCompleted c) e p = applyCompactionEvent True c e p"
| "apply_body rnd (ToolCatalogChanged c) e p =
     p\<lparr>pr_catalog := Some (c\<lparr>tc_message := truthy (tc_message c)\<rparr>)\<rparr>"
| "apply_body rnd (UsageEvent m u) e p = p\<lparr>pr_usage := addUsage rnd (pr_usage p) u\<rparr>"
| "apply_body rnd (ErrorEvent x) e p = applyErrorEvent x e p"
| "apply_body rnd _ e p = p"

definition applyRuntimeEvent :: "(rat \<Rightarrow> rat) \<Rightarrow> runtime_event \<Rightarrow> projection \<Rightarrow> projection" where
  "applyRuntimeEvent rnd e p = (
     if ev_seq e \<le> pr_seq p then p
     else apply_body rnd (ev_body e) e
       (p\<lparr>pr_thread := (if pr_thread p = [] then ev_thread e else pr_thread p),
          pr_seq := ev_seq e, pr_updated := Some (ev_time e)\<rparr>))"

definition replayRuntimeEvents ::
    "(rat \<Rightarrow> rat) \<Rightarrow> runtime_event list \<Rightarrow> projection option \<Rightarrow> projection" where
  "replayRuntimeEvents rnd es initial = (
     let p = or_else initial
               (createRuntimeEventProjection (case es of [] \<Rightarrow> [] | e # _ \<Rightarrow> ev_thread e))
     in fold (applyRuntimeEvent rnd) (sort_key ev_seq es) p)"

end
