(* ===== verification/EventReplay.thy ===== *)
theory EventReplay
  imports EventReducer
begin

text \<open>
  What the event projection guarantees: the invariant of its lists, the schema of its items, and that
  replaying a log does not depend on the order, the repetition or the chunks in which its events
  arrive.
\<close>

section \<open>Replacing by key\<close>

lemma change_by_Nil [simp]: "change_by key k f d [] = [d]"
  by (simp add: change_by_def)

lemma change_by_Cons [simp]:
  "change_by key k f d (x # xs) = (if key x = k then f x # xs else x # change_by key k f d xs)"
  by (auto simp: change_by_def split: option.splits)

lemma change_by_keys:
  assumes "key d = k" and "\<And>x. key x = k \<Longrightarrow> key (f x) = k"
  shows "map key (change_by key k f d xs) = (if k \<in> key ` set xs then map key xs else map key xs @ [k])"
  using assms by (induction xs) auto

lemma change_by_distinct:
  assumes "distinct (map key xs)" and "key d = k" and "\<And>x. key x = k \<Longrightarrow> key (f x) = k"
  shows "distinct (map key (change_by key k f d xs))"
  using assms(1) change_by_keys[of key d k f xs, OF assms(2,3)] by (auto simp: image_iff)

lemma change_by_all:
  "\<lbrakk>\<forall>x \<in> set xs. P x; P d; \<And>x. x \<in> set xs \<Longrightarrow> key x = k \<Longrightarrow> P x \<Longrightarrow> P (f x)\<rbrakk> \<Longrightarrow>
   \<forall>x \<in> set (change_by key k f d xs). P x"
  by (induction xs) auto

lemma change_by_other: "x \<in> set xs \<Longrightarrow> key x \<noteq> k \<Longrightarrow> x \<in> set (change_by key k f d xs)"
  by (induction xs) auto

lemma change_by_here:
  "(\<exists>x \<in> set xs. key x = k \<and> f x \<in> set (change_by key k f d xs)) \<or>
   k \<notin> key ` set xs \<and> d \<in> set (change_by key k f d xs)"
  by (induction xs) auto

lemma change_by_keeps:
  assumes "x \<in> set xs"
  shows "x \<in> set (change_by key k f d xs) \<or> key x = k \<and> f x \<in> set (change_by key k f d xs)"
  using assms by (induction xs) auto

section \<open>The invariant\<close>

text \<open>
  Item, turn and child ids are unique, no turn lists an item twice, and every item is listed by the
  turn it belongs to.
\<close>

definition listed :: "turn_view list \<Rightarrow> turn_item \<Rightarrow> bool" where
  "listed ts i = (\<exists>t \<in> set ts. tp_id t = ti_turn i \<and> ti_id i \<in> set (tp_items t))"

definition well_projection :: "projection \<Rightarrow> bool" where
  "well_projection p = (distinct (map ti_id (pr_items p)) \<and> distinct (map tp_id (pr_turns p)) \<and>
     distinct (map cr_id (pr_children p)) \<and> (\<forall>t \<in> set (pr_turns p). distinct (tp_items t)) \<and>
     (\<forall>i \<in> set (pr_items p). listed (pr_turns p) i))"

lemma well_projection_intro:
  "\<lbrakk>distinct (map ti_id (pr_items p)); distinct (map tp_id (pr_turns p));
    distinct (map cr_id (pr_children p)); \<forall>t \<in> set (pr_turns p). distinct (tp_items t);
    \<forall>i \<in> set (pr_items p). listed (pr_turns p) i\<rbrakk> \<Longrightarrow> well_projection p"
  by (simp add: well_projection_def)

text \<open>A change of a turn that keeps its id and its items.\<close>

definition grows_turn :: "(turn_view \<Rightarrow> turn_view) \<Rightarrow> bool" where
  "grows_turn f = (\<forall>t. tp_id (f t) = tp_id t \<and> set (tp_items t) \<subseteq> set (tp_items (f t)) \<and>
     (distinct (tp_items t) \<longrightarrow> distinct (tp_items (f t))))"

lemma change_turn_listed:
  assumes "grows_turn f" and "listed ts i"
  shows "listed (change_turn thread turn f ts) i"
proof -
  from assms(2) obtain t where t: "t \<in> set ts" "tp_id t = ti_turn i" "ti_id i \<in> set (tp_items t)"
    by (auto simp: listed_def)
  from change_by_keeps[OF t(1)] assms(1) t(2,3) show ?thesis
    unfolding listed_def change_turn_def grows_turn_def by (metis subsetD)
qed

lemma change_turn_well:
  assumes "grows_turn f" and "distinct (map tp_id ts)" and "\<forall>t \<in> set ts. distinct (tp_items t)"
  shows "distinct (map tp_id (change_turn thread turn f ts))"
    and "\<forall>t \<in> set (change_turn thread turn f ts). distinct (tp_items t)"
proof -
  from assms(1) have f: "tp_id (f t) = tp_id t" "distinct (tp_items t) \<Longrightarrow> distinct (tp_items (f t))" for t
    by (simp_all add: grows_turn_def)
  show "distinct (map tp_id (change_turn thread turn f ts))"
    unfolding change_turn_def by (rule change_by_distinct) (simp_all add: assms f fresh_turn_def)
  show "\<forall>t \<in> set (change_turn thread turn f ts). distinct (tp_items t)"
    unfolding change_turn_def by (rule change_by_all) (use assms(3) in \<open>simp_all add: f fresh_turn_def\<close>)
qed

lemma advance_turn_grows: "grows_turn (advance_turn k n time)"
  unfolding grows_turn_def by (cases k) (auto split: option.splits)

lemma list_item_grows: "grows_turn (list_item i)"
  by (simp add: grows_turn_def list_item_def subset_insertI)

lemma appendDelta_id:
  "ti_id old = ti_id item \<Longrightarrow> ti_id (appendDelta old item) = ti_id item"
  "ti_turn (appendDelta old item) \<in> {ti_turn old, ti_turn item}"
  by (auto simp: appendDelta_def split: option.splits)

lemma list_item_listed:
  "ti_id item = i \<Longrightarrow> listed (change_turn thread (ti_turn item) (list_item i) ts) item"
  using change_by_here[of ts tp_id "ti_turn item" "list_item i" "list_item i (fresh_turn thread (ti_turn item))"]
  unfolding listed_def change_turn_def
  by (auto simp: list_item_def fresh_turn_def split: if_splits intro: bexI[rotated])

lemma listed_delta:
  "\<lbrakk>listed ts old; listed ts item; ti_id old = ti_id item\<rbrakk> \<Longrightarrow> listed ts (appendDelta old item)"
  using appendDelta_id[of old item] unfolding listed_def by auto

lemma upsertItem_well:
  assumes "well_projection p"
  shows "well_projection (upsertItem item mode p)"
proof -
  let ?put = "\<lambda>old. if mode = AppendDelta then appendDelta old item else item"
  let ?ts = "change_turn (ti_thread item) (ti_turn item) (list_item (ti_id item)) (pr_turns p)"
  have put: "ti_id (?put old) = ti_id item" if "ti_id old = ti_id item" for old
    using that by (simp add: appendDelta_id)
  have new: "listed ?ts item" by (rule list_item_listed) simp
  have "listed ?ts old" if "old \<in> set (pr_items p)" for old
    using assms that change_turn_listed[OF list_item_grows] by (simp add: well_projection_def)
  then have "\<forall>i \<in> set (change_by ti_id (ti_id item) ?put item (pr_items p)). listed ?ts i"
    using new by (intro change_by_all) (auto simp: listed_delta)
  moreover have "distinct (map ti_id (change_by ti_id (ti_id item) ?put item (pr_items p)))"
    using assms put by (intro change_by_distinct) (simp_all add: well_projection_def)
  ultimately show ?thesis
    using assms change_turn_well[OF list_item_grows, of "pr_turns p"]
    by (intro well_projection_intro) (simp_all add: well_projection_def upsertItem_def Let_def)
qed

lemma well_projection_fields:
  assumes "well_projection p" "pr_items q = pr_items p" "pr_turns q = pr_turns p"
    "pr_children q = pr_children p"
  shows "well_projection q"
  using assms by (simp add: well_projection_def)

lemma upsertChildRun_well:
  assumes "well_projection p"
  shows "well_projection (upsertChildRun c n time p)"
proof -
  have "distinct (map cr_id (change_by cr_id (ec_id c) (\<lambda>_. r) r (pr_children p)))"
    if "cr_id r = ec_id c" for r
    using assms that by (intro change_by_distinct) (simp_all add: well_projection_def)
  with assms show ?thesis by (simp add: well_projection_def upsertChildRun_def Let_def)
qed

lemma applyTurnEvent_well:
  assumes "well_projection p"
  shows "well_projection (applyTurnEvent k n e p)"
proof -
  have "well_projection (p\<lparr>pr_turns := change_turn th turn (advance_turn k n time) (pr_turns p)\<rparr>)" for th turn time
    using assms change_turn_well[OF advance_turn_grows, of "pr_turns p"] change_turn_listed[OF advance_turn_grows]
    by (intro well_projection_intro) (simp_all add: well_projection_def)
  with assms show ?thesis
    by (auto simp: applyTurnEvent_def upsertChildRun_well split: option.split)
qed

lemma applyCompactionEvent_well:
  assumes "well_projection p"
  shows "well_projection (applyCompactionEvent b c e p)"
  unfolding applyCompactionEvent_def Let_def
  by (auto intro!: upsertItem_well intro: well_projection_fields[OF assms] split: bool.splits option.splits)

lemma applyErrorEvent_well:
  assumes "well_projection p"
  shows "well_projection (applyErrorEvent x e p)"
  unfolding applyErrorEvent_def Let_def
  by (auto intro!: upsertItem_well intro: well_projection_fields[OF assms] split: option.splits)

lemma apply_body_well:
  assumes "well_projection p"
  shows "well_projection (apply_body rnd b e p)"
  using assms
  by (cases b)
    (auto intro!: upsertItem_well applyTurnEvent_well applyCompactionEvent_well applyErrorEvent_well
      intro: well_projection_fields[OF assms]
      simp: upsertApprovalFromEvent_def upsertUserInputFromEvent_def name_thread_def split: option.splits)

lemma applyRuntimeEvent_well:
  assumes "well_projection p"
  shows "well_projection (applyRuntimeEvent rnd e p)"
  unfolding applyRuntimeEvent_def
  using assms by (auto intro!: apply_body_well intro: well_projection_fields[OF assms])

lemma fold_well: "well_projection p \<Longrightarrow> well_projection (fold (applyRuntimeEvent rnd) es p)"
  by (induction es arbitrary: p) (simp_all add: applyRuntimeEvent_well)

definition replay_chunks ::
    "(rat \<Rightarrow> rat) \<Rightarrow> runtime_event list list \<Rightarrow> projection \<Rightarrow> projection" where
  "replay_chunks rnd ess p = fold (\<lambda>es p. replayRuntimeEvents rnd es (Some p)) ess p"

text \<open>
  Whatever events arrive, in whatever chunks, the projection keeps item, turn and child ids
  unique, lists no item twice in a turn, and lists every item in the turn it belongs to.
\<close>

theorem projection_invariant:
  "well_projection (replay_chunks rnd ess (createRuntimeEventProjection thread))"
proof -
  have "well_projection p \<Longrightarrow> well_projection (replay_chunks rnd ess p)" for p
    by (induction ess arbitrary: p) (simp_all add: replay_chunks_def replayRuntimeEvents_def fold_well)
  moreover have "well_projection (createRuntimeEventProjection thread)"
    by (simp add: createRuntimeEventProjection_def well_projection_def)
  ultimately show ?thesis .
qed

section \<open>Items stay within their schema\<close>

lemma append_body_ok: "append_body a b = Some c \<Longrightarrow> body_ok c"
  by (induction a b rule: append_body.induct) auto

lemma appendDelta_ok: "item_ok old \<Longrightarrow> item_ok item \<Longrightarrow> item_ok (appendDelta old item)"
  by (auto simp: appendDelta_def item_ok_def append_body_ok split: option.splits)

definition typed :: "projection \<Rightarrow> bool" where
  "typed p = (\<forall>i \<in> set (pr_items p). item_ok i)"

lemma typed_fields: "typed p \<Longrightarrow> pr_items q = pr_items p \<Longrightarrow> typed q"
  by (simp add: typed_def)

lemma upsertItem_typed:
  assumes "typed p" and "item_ok item"
  shows "typed (upsertItem item mode p)"
proof -
  have "\<forall>i \<in> set (change_by ti_id (ti_id item)
      (\<lambda>old. if mode = AppendDelta then appendDelta old item else item) item (pr_items p)). item_ok i"
    by (rule change_by_all) (use assms in \<open>simp_all add: typed_def appendDelta_ok\<close>)
  then show ?thesis by (simp add: upsertItem_def Let_def typed_def)
qed

lemma set_status_ok: "body_ok b \<Longrightarrow> body_ok (set_approval s b)" "body_ok b \<Longrightarrow> body_ok (set_input s' b)"
  by (cases b; simp)+

lemma find_mem: "List.find P xs = Some x \<Longrightarrow> x \<in> set xs"
  by (auto simp: find_Some_iff)

definition acceptable :: "runtime_event \<Rightarrow> bool" where
  "acceptable e = (event_ok e \<and> filled (ev_item e))"

lemma approval_item_ok:
  assumes "\<forall>i \<in> set items. item_ok i" and "acceptable e" and "a \<noteq> []" "tool \<noteq> []" "turn \<noteq> []"
  shows "item_ok (approval_item a tool s summ e turn items)"
proof (cases "List.find (\<lambda>i. is_approval_of a (ti_body i)) items")
  case None
  with assms show ?thesis
    by (cases "ev_item e") (simp_all add: approval_item_def item_ok_def acceptable_def event_ok_def)
next
  case (Some i)
  with assms(1) have "item_ok i" by (auto dest: find_mem)
  with Some show ?thesis by (simp add: approval_item_def item_ok_def set_status_ok)
qed

lemma user_input_item_ok:
  assumes "\<forall>i \<in> set items. item_ok i" and "acceptable e" and "u \<noteq> []" "questions_ok qs" "turn \<noteq> []"
  shows "item_ok (user_input_item u s prompt qs e turn items)"
proof (cases "List.find (\<lambda>i. is_input_of u (ti_body i)) items")
  case None
  with assms show ?thesis
    by (cases "ev_item e"; cases qs)
      (simp_all add: user_input_item_def item_ok_def acceptable_def event_ok_def questions_ok_def)
next
  case (Some i)
  with assms(1) have "item_ok i" by (auto dest: find_mem)
  with Some show ?thesis by (simp add: user_input_item_def item_ok_def set_status_ok)
qed

lemma compaction_item_ok:
  "\<lbrakk>acceptable e; ev_body e = CompactionCompleted c; item \<noteq> []; turn \<noteq> []\<rbrakk> \<Longrightarrow>
   item_ok (compaction_item e item turn n c)"
  by (simp add: item_ok_def compaction_item_def compaction_ok_def acceptable_def event_ok_def compaction_event_ok_def)

lemma error_item_ok: "\<lbrakk>acceptable e; item \<noteq> []; turn \<noteq> []\<rbrakk> \<Longrightarrow> item_ok (error_item e item turn x)"
  by (simp add: item_ok_def error_item_def acceptable_def event_ok_def)

lemma applyCompactionEvent_typed:
  assumes "typed p" and "b \<Longrightarrow> acceptable e \<and> ev_body e = CompactionCompleted c"
  shows "typed (applyCompactionEvent b c e p)"
  unfolding applyCompactionEvent_def Let_def
  using assms(2)
  by (auto intro!: upsertItem_typed compaction_item_ok assms(1) intro: typed_fields[OF assms(1)] split: bool.splits option.splits)

lemma applyErrorEvent_typed:
  assumes "typed p" and "acceptable e"
  shows "typed (applyErrorEvent x e p)"
  unfolding applyErrorEvent_def Let_def
  using assms(2)
  by (auto intro!: upsertItem_typed error_item_ok assms(1) intro: typed_fields[OF assms(1)] split: option.splits)

lemma upsertApproval_typed:
  "\<lbrakk>typed p; acceptable e; a \<noteq> []; tool \<noteq> []\<rbrakk> \<Longrightarrow> typed (upsertApprovalFromEvent a tool s summ e p)"
  unfolding upsertApprovalFromEvent_def
  by (auto intro!: upsertItem_typed approval_item_ok simp: typed_def[of p] split: option.split)

lemma upsertUserInput_typed:
  "\<lbrakk>typed p; acceptable e; u \<noteq> []; questions_ok qs\<rbrakk> \<Longrightarrow> typed (upsertUserInputFromEvent u s prompt qs e p)"
  unfolding upsertUserInputFromEvent_def
  by (auto intro!: upsertItem_typed user_input_item_ok simp: typed_def[of p] split: option.split)

lemma applyTurnEvent_items [simp]: "pr_items (applyTurnEvent k n e p) = pr_items p"
  by (simp add: applyTurnEvent_def upsertChildRun_def Let_def split: option.splits)

lemma apply_body_typed:
  assumes p: "typed p" and e: "acceptable e"
  shows "typed (apply_body rnd (ev_body e) e p)"
proof -
  have b: "event_body_ok (ev_body e)" using e by (simp add: acceptable_def event_ok_def)
  show ?thesis
    by (cases "ev_body e")
      (use b e in \<open>auto intro!: upsertItem_typed[OF p] upsertApproval_typed[OF p] upsertUserInput_typed[OF p]
         applyCompactionEvent_typed[OF p] applyErrorEvent_typed[OF p]
         intro: typed_fields[OF p] simp: name_thread_def\<close>)
qed

lemma applyRuntimeEvent_typed:
  "\<lbrakk>typed p; acceptable e\<rbrakk> \<Longrightarrow> typed (applyRuntimeEvent rnd e p)"
  unfolding applyRuntimeEvent_def by (auto intro!: apply_body_typed intro: typed_fields)


definition sample_item :: turn_item where
  "sample_item = \<lparr>ti_id = ''i'', ti_turn = ''t'', ti_thread = ''th'', ti_role = AssistantRole,
     ti_created = [], ti_finished = None, ti_body = AssistantText ItemRunning ''a''\<rparr>"

definition sample_delta :: "nat \<Rightarrow> string \<Rightarrow> runtime_event" where
  "sample_delta n s = \<lparr>ev_seq = n, ev_time = [], ev_thread = ''th'', ev_turn = Some ''t'', ev_item = None,
     ev_child = None, ev_body = ItemEvent TextDelta (sample_item\<lparr>ti_body := AssistantText ItemRunning s\<rparr>)\<rparr>"


section \<open>Replay\<close>

lemma upsertItem_seq [simp]: "pr_seq (upsertItem item mode p) = pr_seq p"
  by (simp add: upsertItem_def Let_def)

lemma apply_body_seq [simp]: "pr_seq (apply_body rnd b e p) = pr_seq p"
  by (cases b)
    (simp_all add: name_thread_def applyTurnEvent_def upsertChildRun_def applyCompactionEvent_def
      applyErrorEvent_def upsertApprovalFromEvent_def upsertUserInputFromEvent_def Let_def
      split: option.split bool.split)

lemma apply_seq: "pr_seq (applyRuntimeEvent rnd e p) = max (ev_seq e) (pr_seq p)"
  by (simp add: applyRuntimeEvent_def)

lemma apply_old: "ev_seq e \<le> pr_seq p \<Longrightarrow> applyRuntimeEvent rnd e p = p"
  by (simp add: applyRuntimeEvent_def)

text \<open>
  Folding a sorted list of events that repeats old ones and holds exactly the new ones gives what the
  new ones give alone.
\<close>

lemma fold_catch_up:
  assumes "sorted (map ev_seq zs)" and "sorted_wrt (<) (map ev_seq ys)"
    and "\<forall>y \<in> set ys. pr_seq p < ev_seq y" and "set ys \<subseteq> set zs"
    and "\<forall>z \<in> set zs. ev_seq z \<le> pr_seq p \<or> z \<in> set ys"
  shows "fold (applyRuntimeEvent rnd) zs p = fold (applyRuntimeEvent rnd) ys p"
  using assms
proof (induction zs arbitrary: ys p)
  case Nil
  then show ?case by simp
next
  case (Cons z zs)
  show ?case
  proof (cases "ev_seq z \<le> pr_seq p")
    case True
    then have "z \<notin> set ys" using Cons.prems(3) by auto
    with Cons.prems True show ?thesis
      by (simp add: apply_old subset_insert Cons.IH)
  next
    case False
    then obtain y ys' where ys: "ys = y # ys'" using Cons.prems(5) by (cases ys) auto
    have "z \<in> set ys" using False Cons.prems(5) by auto
    moreover have "ev_seq z \<le> ev_seq y" using Cons.prems(1,4) ys by auto
    ultimately have z: "z = y" using Cons.prems(2) ys by auto
    let ?p = "applyRuntimeEvent rnd y p"
    have s: "pr_seq ?p = ev_seq y" using False z by (simp add: apply_seq)
    have "fold (applyRuntimeEvent rnd) zs ?p = fold (applyRuntimeEvent rnd) ys' ?p"
    proof (rule Cons.IH)
      show "set ys' \<subseteq> set zs" using Cons.prems(2,4) ys z by auto
      show "\<forall>z \<in> set zs. ev_seq z \<le> pr_seq ?p \<or> z \<in> set ys'"
        using Cons.prems(5) ys s by (auto simp: False) (metis False dual_order.trans linorder_le_cases z)+
    qed (use Cons.prems ys s in auto)
    then show ?thesis using ys z by simp
  qed
qed

text \<open>
  C9. A subscriber that has replayed a prefix of a log and then receives, in any order and with
  repetitions, a batch that covers the rest and may overlap what it has already seen, ends with the
  projection of the whole log.
\<close>

theorem resumed_replay:
  assumes log: "sorted_wrt (<) (map ev_seq (xs @ ys))" "\<forall>e \<in> set (xs @ ys). 0 < ev_seq e"
    and batch: "set ys \<subseteq> set zs" "set zs \<subseteq> set (xs @ ys)"
    and start: "p = createRuntimeEventProjection thread"
  shows "replayRuntimeEvents rnd zs (Some (replayRuntimeEvents rnd xs (Some p))) =
         replayRuntimeEvents rnd (xs @ ys) (Some p)"
proof -
  have sorted_log: "sort_key ev_seq es = es" if "sorted_wrt (<) (map ev_seq es)" for es
    using that by (intro sort_key_id_if_sorted) (simp add: strict_sorted_imp_sorted)
  let ?q = "fold (applyRuntimeEvent rnd) xs p"
  have seq: "pr_seq (fold (applyRuntimeEvent rnd) es r) = fold max (map ev_seq es) (pr_seq r)" for es r
    by (induction es arbitrary: r) (simp_all add: apply_seq)
  have ge: "ev_seq x \<le> pr_seq ?q" if "x \<in> set xs" for x
    using that fold_max_ge[of "pr_seq p" "map ev_seq xs"] by (simp add: seq)
  have "fold max ns n \<in> insert n (set ns)" for ns :: "nat list" and n
    by (induction ns arbitrary: n) (auto simp: max_def)
  from this[of "map ev_seq xs" 0] have "pr_seq ?q = 0 \<or> pr_seq ?q \<in> ev_seq ` set xs"
    using start by (simp add: seq createRuntimeEventProjection_def)
  then have less: "\<forall>y \<in> set ys. pr_seq ?q < ev_seq y"
    using log by (auto simp: sorted_wrt_append)
  have "fold (applyRuntimeEvent rnd) (sort_key ev_seq zs) ?q = fold (applyRuntimeEvent rnd) ys ?q"
    by (rule fold_catch_up) (use log batch less ge in \<open>auto simp: sorted_wrt_append\<close>)
  moreover have "sort_key ev_seq xs = xs" "sort_key ev_seq (xs @ ys) = xs @ ys"
    using log(1) by (simp_all add: sorted_log sorted_wrt_append)
  ultimately show ?thesis by (simp add: replayRuntimeEvents_def)
qed

theorem resumed_replay_witness:
  "replayRuntimeEvents id [sample_delta 2 ''b'', sample_delta 1 ''a'', sample_delta 2 ''b'']
     (Some (replayRuntimeEvents id [sample_delta 1 ''a''] (Some (createRuntimeEventProjection ''th''))))
   = replayRuntimeEvents id ([sample_delta 1 ''a''] @ [sample_delta 2 ''b''])
       (Some (createRuntimeEventProjection ''th''))"
  by (rule resumed_replay[OF _ _ _ _ refl]) (simp_all add: sample_delta_def)

section \<open>Streamed text\<close>

lemma find_change_by:
  assumes "key d = k" and "\<And>x. key x = k \<Longrightarrow> key (f x) = k"
  shows "List.find (\<lambda>x. key x = k) (change_by key k f d xs) =
         Some (case List.find (\<lambda>x. key x = k) xs of None \<Rightarrow> d | Some x \<Rightarrow> f x)"
  using assms by (induction xs) auto

text \<open>The event \<open>e\<close> streams the text \<open>s\<close> with status \<open>st\<close> to item \<open>i\<close>.\<close>

definition streams :: "string \<Rightarrow> runtime_event \<Rightarrow> item_status \<times> string \<Rightarrow> bool" where
  "streams i e part = (case ev_body e of
      ItemEvent k item \<Rightarrow> k = TextDelta \<and> ti_id item = i \<and> ti_body item = AssistantText (fst part) (snd part)
    | _ \<Rightarrow> False)"

definition body_of :: "string \<Rightarrow> projection \<Rightarrow> item_body option" where
  "body_of i p = map_option ti_body (List.find (\<lambda>it. ti_id it = i) (pr_items p))"

lemma stream_step:
  assumes "streams i e (st, s)" and "pr_seq p < ev_seq e"
  shows "body_of i (applyRuntimeEvent rnd e p) = (case body_of i p of
           Some (AssistantText _ t) \<Rightarrow> Some (AssistantText st (t @ s)) | _ \<Rightarrow> Some (AssistantText st s))"
proof -
  from assms(1) obtain item where b: "ev_body e = ItemEvent TextDelta item"
    and i: "ti_id item = i" and it: "ti_body item = AssistantText st s"
    by (auto simp: streams_def split: event_body.splits)
  have "ti_id (appendDelta old item) = i" if "ti_id old = i" for old
    using that i appendDelta_id(1) by simp
  then show ?thesis
    using assms(2) b i it
    by (auto simp: body_of_def applyRuntimeEvent_def upsertItem_def delta_mode_def find_change_by appendDelta_def
        split: option.splits item_body.splits)
qed

lemma stream_more:
  assumes "list_all2 (streams i) es parts" and "sorted_wrt (<) (map ev_seq es)"
    and "\<forall>e \<in> set es. pr_seq p < ev_seq e" and "body_of i p = Some (AssistantText st t)"
  shows "body_of i (fold (applyRuntimeEvent rnd) es p) =
         Some (AssistantText (last (st # map fst parts)) (t @ concat (map snd parts)))"
  using assms
proof (induction es arbitrary: p parts st t)
  case Nil
  then show ?case by simp
next
  case (Cons e es)
  then obtain st' s ps where parts: "parts = (st', s) # ps" by (auto simp: list_all2_Cons1)
  let ?p = "applyRuntimeEvent rnd e p"
  have "body_of i ?p = Some (AssistantText st' (t @ s))"
    using Cons.prems parts stream_step[of i e st' s p rnd] by simp
  moreover have "\<forall>x \<in> set es. pr_seq ?p < ev_seq x"
    using Cons.prems(2,3) by (simp add: apply_seq)
  ultimately show ?case
    using Cons.IH[of ps ?p st' "t @ s"] Cons.prems(1,2) parts by simp
qed

text \<open>
  Streamed text is put together exactly: when deltas for a new item arrive in order, the item ends
  with the concatenation of their texts and the status of the last one, however the events of the
  batch were ordered.
\<close>

theorem streamed_text_complete:
  assumes "list_all2 (streams i) es parts" and "sorted_wrt (<) (map ev_seq es)" and "es \<noteq> []"
    and "\<forall>e \<in> set es. pr_seq p < ev_seq e" and "body_of i p = None" and "mset zs = mset es"
  shows "body_of i (replayRuntimeEvents rnd zs (Some p)) =
         Some (AssistantText (fst (last parts)) (concat (map snd parts)))"
proof -
  have d: "distinct (map ev_seq es)" and "sorted (map ev_seq es)"
    using assms(2) by (simp_all add: strict_sorted_iff)
  have sorted: "sort_key ev_seq zs = es"
    by (rule sort_key_inj_key_eq) (use assms(6) d \<open>sorted (map ev_seq es)\<close> in \<open>auto simp: distinct_map dest: mset_eq_setD\<close>)
  obtain e es' where es: "es = e # es'" using assms(3) by (cases es) auto
  then obtain st s ps where parts: "parts = (st, s) # ps" using assms(1) by (auto simp: list_all2_Cons1)
  let ?p = "applyRuntimeEvent rnd e p"
  have "body_of i ?p = Some (AssistantText st s)"
    using assms(1,4,5) es parts stream_step[of i e st s p rnd] by simp
  moreover have "\<forall>x \<in> set es'. pr_seq ?p < ev_seq x"
    using assms(2,4) es by (simp add: apply_seq)
  ultimately have "body_of i (fold (applyRuntimeEvent rnd) es' ?p) =
      Some (AssistantText (last (st # map fst ps)) (s @ concat (map snd ps)))"
    using assms(1,2) es parts by (intro stream_more) simp_all
  then show ?thesis using sorted es parts by (simp add: replayRuntimeEvents_def last_map)
qed

theorem streamed_text_complete_witness:
  "body_of ''i'' (replayRuntimeEvents id [sample_delta 2 ''b'', sample_delta 1 ''a'']
     (Some (createRuntimeEventProjection ''th''))) = Some (AssistantText ItemRunning ''ab'')"
  using streamed_text_complete[of "''i''" "[sample_delta 1 ''a'', sample_delta 2 ''b'']"
      "[(ItemRunning, ''a''), (ItemRunning, ''b'')]" "createRuntimeEventProjection ''th''"
      "[sample_delta 2 ''b'', sample_delta 1 ''a'']" id]
  by (simp add: streams_def sample_delta_def sample_item_def body_of_def createRuntimeEventProjection_def)

end
