(* ===== verification/HistoryRepair.thy ===== *)
theory HistoryRepair
  imports Items "HOL-Library.Sublist"
begin

text \<open>
  Repair of a persisted history into one a model provider accepts (\<open>domain/model-history-repair.ts\<close>)
  and the healing of loaded histories that uses it (\<open>loop/history-healing.ts\<close>).

  The source scans the items by index and remembers the indexes of the calls and results to keep. A
  loop over \<open>items\<close> from an index is a recursion over the remaining items together with the index of
  their first. The lemmas relate the scan to a reference that rebuilds the history segment by
  segment, and show what the result guarantees.
\<close>

section \<open>The scan\<close>

definition is_call :: "turn_item \<Rightarrow> bool" where
  "is_call x = (case ti_body x of ToolCall _ _ _ _ \<Rightarrow> True | _ \<Rightarrow> False)"

definition is_result :: "turn_item \<Rightarrow> bool" where
  "is_result x = (case ti_body x of ToolResult _ _ _ _ \<Rightarrow> True | _ \<Rightarrow> False)"

definition call_id :: "turn_item \<Rightarrow> string" where
  "call_id x = (case ti_body x of
      ToolCall _ t _ _ \<Rightarrow> tu_call t | ToolResult _ t _ _ \<Rightarrow> tu_call t | _ \<Rightarrow> [])"

lemma call_not_result [simp]: "is_call x \<Longrightarrow> \<not> is_result x"
  by (simp add: is_call_def is_result_def split: item_body.splits)

definition isToolResultBridgeItem :: "turn_item \<Rightarrow> string \<Rightarrow> bool \<Rightarrow> bool" where
  "isToolResultBridgeItem x turn saw = (case ti_body x of
      AssistantReasoning _ _ _ \<Rightarrow> True
    | Approval _ _ _ _ \<Rightarrow> True
    | UserInput _ _ _ _ \<Rightarrow> True
    | RuntimeProgress _ _ \<Rightarrow> True
    | ErrorItem _ _ \<Rightarrow> True
    | AssistantText _ _ \<Rightarrow> \<not> saw \<and> ti_turn x = turn
    | _ \<Rightarrow> False)"

text \<open>The first call of every id in a run of calls, with its index; \<open>seen\<close> holds the ids met before.\<close>

fun scan_calls :: "nat \<Rightarrow> turn_item list \<Rightarrow> string list \<Rightarrow> (string \<times> nat) list" where
  "scan_calls i [] seen = []"
| "scan_calls i (x # xs) seen =
     (if is_call x then
        if call_id x \<in> set seen then scan_calls (Suc i) xs seen
        else (call_id x, i) # scan_calls (Suc i) xs (call_id x # seen)
      else [])"

fun findResultBlock ::
    "nat \<Rightarrow> turn_item list \<Rightarrow> string \<Rightarrow> string list \<Rightarrow> bool \<Rightarrow> string list \<Rightarrow> string list \<times> nat list" where
  "findResultBlock i [] turn expected saw seen = (seen, [])"
| "findResultBlock i (x # xs) turn expected saw seen =
     (if is_result x then
        if call_id x \<in> set expected \<and> call_id x \<notin> set seen then
          let (ids, ixs) = findResultBlock (Suc i) xs turn expected True (call_id x # seen)
          in (ids, i # ixs)
        else findResultBlock (Suc i) xs turn expected True seen
      else if isToolResultBridgeItem x turn saw then
        findResultBlock (Suc i) xs turn expected saw seen
      else (seen, []))"

text \<open>The indexes of the calls and of the results to keep.\<close>

function repair_scan :: "nat \<Rightarrow> turn_item list \<Rightarrow> nat list \<times> nat list" where
  "repair_scan i [] = ([], [])"
| "repair_scan i (x # xs) =
     (if \<not> is_call x then repair_scan (Suc i) xs
      else
        let calls = scan_calls i (x # xs) [];
            rest = dropWhile is_call xs;
            cursor = i + length (takeWhile is_call (x # xs));
            (answered, results) = findResultBlock cursor rest (ti_turn x) (map fst calls) False [];
            (call_ixs, result_ixs) = repair_scan cursor rest
        in if calls \<noteq> [] \<and> answered \<noteq> [] then
             (map snd (filter (\<lambda>c. fst c \<in> set answered) calls) @ call_ixs, results @ result_ixs)
           else (call_ixs, result_ixs))"
  by pat_completeness auto
termination
  by (relation "measure (\<lambda>(i, xs). length xs)") (auto simp: le_imp_less_Suc length_dropWhile_le)

definition kept :: "nat list \<Rightarrow> nat list \<Rightarrow> nat \<times> turn_item \<Rightarrow> bool" where
  "kept calls results ix =
     (if is_call (snd ix) then fst ix \<in> set calls
      else if is_result (snd ix) then fst ix \<in> set results else True)"

definition repairModelHistoryItems :: "turn_item list \<Rightarrow> turn_item list" where
  "repairModelHistoryItems items = (
     let (calls, results) = repair_scan 0 items;
         numbered = enumerate 0 items;
         repaired = map snd (filter (kept calls results) numbered)
     in if \<exists>ix \<in> set numbered. \<not> kept calls results ix then repaired else items)"

section \<open>Healing a loaded history\<close>

text \<open>
  A loaded item has the shape of an item but its required strings may be empty or missing; both are
  the empty string here. \<open>normalizeLoadedItem\<close> never drops an item of another kind, because every kind
  of the union is listed.
\<close>

fun body_kind :: "item_body \<Rightarrow> string" where
  "body_kind (UserMessage _ _ _ _) = ''user_message''"
| "body_kind (AssistantText _ _) = ''assistant_text''"
| "body_kind (AssistantReasoning _ _ _) = ''assistant_reasoning''"
| "body_kind (ToolCall _ _ _ _) = ''tool_call''"
| "body_kind (ToolResult _ _ _ _) = ''tool_result''"
| "body_kind (Approval _ _ _ _) = ''approval''"
| "body_kind (UserInput _ _ _ _) = ''user_input''"
| "body_kind (Compaction _ _) = ''compaction''"
| "body_kind (Review _ _ _ _ _) = ''review''"
| "body_kind (RuntimeProgress _ _) = ''runtime_progress''"
| "body_kind (ErrorItem _ _) = ''error''"

definition normalizeLoadedItem :: "nat \<times> turn_item \<Rightarrow> turn_item option" where
  "normalizeLoadedItem ix = (
     let x = snd ix;
         base = x\<lparr>ti_id := (if trim (ti_id x) \<noteq> [] then ti_id x
                    else ''item_healed_'' @ show_nat (fst ix) @ ''_'' @ body_kind (ti_body x))\<rparr>
     in case ti_body x of
          ToolCall _ t _ _ \<Rightarrow> if tool_use_ok t then Some base else None
        | ToolResult _ t _ _ \<Rightarrow> if tool_use_ok t then Some base else None
        | _ \<Rightarrow> Some base)"

definition healLoadedHistoryItems :: "turn_item list \<Rightarrow> turn_item list \<times> bool" where
  "healLoadedHistoryItems items = (
     let repaired = repairModelHistoryItems (List.map_filter normalizeLoadedItem (enumerate 0 items))
     in (repaired, items \<noteq> repaired))"

section \<open>The reference\<close>

text \<open>What the scan for results reads: results and bridge items up to the first other item.\<close>

fun result_block :: "string \<Rightarrow> bool \<Rightarrow> turn_item list \<Rightarrow> turn_item list" where
  "result_block turn saw [] = []"
| "result_block turn saw (x # xs) =
     (if is_result x then x # result_block turn True xs
      else if isToolResultBridgeItem x turn saw then x # result_block turn saw xs else [])"

text \<open>The first element that \<open>P\<close> selects for every id in \<open>ids\<close>, and all that \<open>P\<close> does not select.\<close>

fun firsts :: "(turn_item \<Rightarrow> bool) \<Rightarrow> string set \<Rightarrow> turn_item list \<Rightarrow> turn_item list" where
  "firsts P ids [] = []"
| "firsts P ids (x # xs) =
     (if P x then
        if call_id x \<in> ids then x # firsts P (ids - {call_id x}) xs else firsts P ids xs
      else x # firsts P ids xs)"

definition ids_of :: "(turn_item \<Rightarrow> bool) \<Rightarrow> turn_item list \<Rightarrow> string set" where
  "ids_of P xs = call_id ` set (filter P xs)"

function rebuild :: "turn_item list \<Rightarrow> turn_item list" where
  "rebuild [] = []"
| "rebuild (x # xs) =
     (if is_call x then
        let run = takeWhile is_call (x # xs);
            rest = dropWhile is_call xs;
            block = result_block (ti_turn x) False rest;
            ids = ids_of is_call run \<inter> ids_of is_result block
        in firsts is_call ids run @ firsts is_result ids block @ rebuild (drop (length block) rest)
      else if is_result x then rebuild xs else x # rebuild xs)"
  by pat_completeness auto
termination
  by (relation "measure length") (auto simp: le_imp_less_Suc length_dropWhile_le less_Suc_eq_le
      intro: order_trans[OF diff_le_self])

section \<open>The scan computes the reference\<close>

definition filter_from :: "nat list \<Rightarrow> nat list \<Rightarrow> nat \<Rightarrow> turn_item list \<Rightarrow> turn_item list" where
  "filter_from cs rs i xs = map snd (filter (kept cs rs) (enumerate i xs))"

lemma filter_from_simps [simp]:
  "filter_from cs rs i [] = []"
  "filter_from cs rs i (x # xs) =
     (if kept cs rs (i, x) then x # filter_from cs rs (Suc i) xs else filter_from cs rs (Suc i) xs)"
  by (simp_all add: filter_from_def)

lemma filter_from_append:
  "filter_from cs rs i (xs @ ys) = filter_from cs rs i xs @ filter_from cs rs (i + length xs) ys"
  by (induction xs arbitrary: i) simp_all

lemma firsts_cong: "(\<And>s. s \<in> ids_of P xs \<Longrightarrow> s \<in> a \<longleftrightarrow> s \<in> b) \<Longrightarrow> firsts P a xs = firsts P b xs"
  by (induction P a xs arbitrary: b rule: firsts.induct) (auto simp: ids_of_def)

lemma scan_calls_run: "scan_calls i (takeWhile is_call xs) seen = scan_calls i xs seen"
  by (induction xs arbitrary: i seen) auto

lemma scan_calls_ids:
  "\<forall>x \<in> set xs. is_call x \<Longrightarrow> fst ` set (scan_calls i xs seen) = ids_of is_call xs - set seen"
  by (induction xs arbitrary: i seen) (auto simp: ids_of_def)

lemma scan_calls_bounds: "(s, j) \<in> set (scan_calls i xs seen) \<Longrightarrow> i \<le> j \<and> j < i + length xs"
  by (induction xs arbitrary: i seen) (fastforce split: if_splits)+

lemma filter_calls:
  assumes "\<forall>x \<in> set xs. is_call x"
    and "\<And>j. i \<le> j \<Longrightarrow> j < i + length xs \<Longrightarrow>
      j \<in> set cs \<longleftrightarrow> (\<exists>s \<in> a. (s, j) \<in> set (scan_calls i xs seen))"
  shows "filter_from cs rs i xs = firsts is_call (a - set seen) xs"
  using assms
proof (induction xs arbitrary: i seen)
  case Nil
  then show ?case by simp
next
  case (Cons x xs)
  then have x: "is_call x" by simp
  show ?case
  proof (cases "call_id x \<in> set seen")
    case True
    have "filter_from cs rs (Suc i) xs = firsts is_call (a - set seen) xs"
      by (rule Cons.IH) (use Cons.prems x True in auto)
    moreover have "i \<notin> set cs" using Cons.prems(2)[of i] x True scan_calls_bounds by fastforce
    ultimately show ?thesis using x True by (simp add: kept_def)
  next
    case False
    let ?seen = "call_id x # seen"
    have "filter_from cs rs (Suc i) xs = firsts is_call (a - set ?seen) xs"
      by (rule Cons.IH) (use Cons.prems x False in auto)
    moreover have "i \<in> set cs \<longleftrightarrow> call_id x \<in> a"
      using Cons.prems(2)[of i] x False scan_calls_bounds by fastforce
    moreover have "call_id x \<notin> a \<Longrightarrow> a - set seen = a - set ?seen" by auto
    moreover have "a - set seen - {call_id x} = a - set ?seen" by auto
    ultimately show ?thesis using x False by (simp add: kept_def)
  qed
qed

lemma result_block_prefix: "\<exists>zs. xs = result_block turn saw xs @ zs"
  by (induction turn saw xs rule: result_block.induct) auto

lemma result_block_no_call: "x \<in> set (result_block turn saw xs) \<Longrightarrow> \<not> is_call x"
  by (induction turn saw xs rule: result_block.induct)
    (auto simp: isToolResultBridgeItem_def is_call_def is_result_def split: if_splits item_body.splits)

lemma find_block_ids:
  "set (fst (findResultBlock i xs turn expected saw seen)) =
   set seen \<union> (set expected \<inter> ids_of is_result (result_block turn saw xs))"
  by (induction i xs turn expected saw seen rule: findResultBlock.induct)
    (auto simp: ids_of_def case_prod_beta)

lemma find_block_bounds:
  "j \<in> set (snd (findResultBlock i xs turn expected saw seen)) \<Longrightarrow>
   i \<le> j \<and> j < i + length (result_block turn saw xs)"
  by (induction i xs turn expected saw seen rule: findResultBlock.induct)
    (auto simp: case_prod_beta split: if_splits)

lemma find_block_count:
  "length (fst (findResultBlock i xs turn expected saw seen)) =
   length seen + length (snd (findResultBlock i xs turn expected saw seen))"
  by (induction i xs turn expected saw seen rule: findResultBlock.induct) (auto simp: case_prod_beta)

lemma filter_results:
  assumes "\<And>j. i \<le> j \<Longrightarrow> j < i + length (result_block turn saw xs) \<Longrightarrow>
      j \<in> set rs \<longleftrightarrow> j \<in> set (snd (findResultBlock i xs turn expected saw seen))"
  shows "filter_from cs rs i (result_block turn saw xs) =
         firsts is_result (set expected - set seen) (result_block turn saw xs)"
  using assms
proof (induction i xs turn expected saw seen rule: findResultBlock.induct)
  case (1 i turn expected saw seen)
  then show ?case by simp
next
  case (2 i x xs turn expected saw seen)
  have nc: "is_result x \<Longrightarrow> \<not> is_call x" using call_not_result by blast
  have below: "i \<notin> set (snd (findResultBlock (Suc i) xs turn expected w ss))" for w ss
    using find_block_bounds[of i "Suc i" xs turn expected w ss] by auto
  consider (new) "is_result x" "call_id x \<in> set expected" "call_id x \<notin> set seen"
    | (old) "is_result x" "\<not> (call_id x \<in> set expected \<and> call_id x \<notin> set seen)"
    | (bridge) "\<not> is_result x" "isToolResultBridgeItem x turn saw"
    | (stop) "\<not> is_result x" "\<not> isToolResultBridgeItem x turn saw" by blast
  then show ?case
  proof cases
    case new
    have e: "set expected - set seen - {call_id x} = set expected - set (call_id x # seen)" by auto
    have "filter_from cs rs (Suc i) (result_block turn True xs) =
        firsts is_result (set expected - set seen - {call_id x}) (result_block turn True xs)"
      unfolding e
    proof (rule "2.IH"(1))
      show "j \<in> set rs \<longleftrightarrow> j \<in> set (snd (findResultBlock (Suc i) xs turn expected True (call_id x # seen)))"
        if "Suc i \<le> j" "j < Suc i + length (result_block turn True xs)" for j
        using new that "2.prems"[of j] by (simp add: case_prod_beta)
    qed (use new in simp_all)
    moreover have "i \<in> set rs" using new "2.prems"[of i] by (simp add: case_prod_beta)
    ultimately show ?thesis using new nc by (simp add: kept_def)
  next
    case old
    have "filter_from cs rs (Suc i) (result_block turn True xs) =
        firsts is_result (set expected - set seen) (result_block turn True xs)"
    proof (rule "2.IH"(2))
      show "j \<in> set rs \<longleftrightarrow> j \<in> set (snd (findResultBlock (Suc i) xs turn expected True seen))"
        if "Suc i \<le> j" "j < Suc i + length (result_block turn True xs)" for j
        using old(1) that "2.prems"[of j] by (simp add: if_not_P[OF old(2)])
    qed (use old in simp_all)
    moreover have "i \<notin> set rs" using old(1) "2.prems"[of i] below by (simp add: if_not_P[OF old(2)])
    moreover have "\<not> (call_id x \<in> set expected - set seen)" using old(2) by blast
    then have "firsts is_result (set expected - set seen) (result_block turn saw (x # xs)) =
        firsts is_result (set expected - set seen) (result_block turn True xs)"
      using old(1) by (simp only: result_block.simps firsts.simps if_True if_False)
    ultimately show ?thesis using old(1) nc by (simp add: kept_def)
  next
    case bridge
    have "filter_from cs rs (Suc i) (result_block turn saw xs) =
        firsts is_result (set expected - set seen) (result_block turn saw xs)"
    proof (rule "2.IH"(3))
      show "j \<in> set rs \<longleftrightarrow> j \<in> set (snd (findResultBlock (Suc i) xs turn expected saw seen))"
        if "Suc i \<le> j" "j < Suc i + length (result_block turn saw xs)" for j
        using bridge that "2.prems"[of j] by (simp add: case_prod_beta)
    qed (use bridge in simp_all)
    moreover have "\<not> is_call x"
      using bridge by (simp add: isToolResultBridgeItem_def is_call_def split: item_body.splits)
    ultimately show ?thesis using bridge by (simp add: kept_def)
  next
    case stop
    then show ?thesis by simp
  qed
qed

lemma repair_scan_skip:
  "\<forall>x \<in> set xs. \<not> is_call x \<Longrightarrow> repair_scan i (xs @ ys) = repair_scan (i + length xs) ys"
  by (induction xs arbitrary: i) simp_all

text \<open>One step of the scan over a run of calls and the block behind it.\<close>

definition run_calls_kept :: "nat \<Rightarrow> turn_item list \<Rightarrow> string \<Rightarrow> turn_item list \<Rightarrow> nat list \<times> nat list" where
  "run_calls_kept i run turn rest = (
     let calls = scan_calls i run [];
         (answered, results) = findResultBlock (i + length run) rest turn (map fst calls) False []
     in (map snd (filter (\<lambda>c. fst c \<in> set answered) calls), results))"

lemma repair_scan_call:
  fixes x :: turn_item and xs :: "turn_item list"
  assumes "is_call x"
  defines "run \<equiv> takeWhile is_call (x # xs)" and "rest \<equiv> dropWhile is_call xs"
  shows "repair_scan i (x # xs) =
         (fst (run_calls_kept i run (ti_turn x) rest) @ fst (repair_scan (i + length run) rest),
          snd (run_calls_kept i run (ti_turn x) rest) @ snd (repair_scan (i + length run) rest))"
proof -
  let ?calls = "scan_calls i (x # xs) []"
  let ?fb = "findResultBlock (i + length run) rest (ti_turn x) (map fst ?calls) False []"
  have c: "?calls \<noteq> []" using assms(1) by simp
  have run: "scan_calls i run [] = ?calls" unfolding run_def by (rule scan_calls_run)
  have "fst ?fb = [] \<Longrightarrow> snd ?fb = []"
    using find_block_count[of "i + length run" rest "ti_turn x" "map fst ?calls" False "[]"] by simp
  with c assms(1) show ?thesis
    unfolding run_calls_kept_def run Let_def case_prod_beta
    by (subst repair_scan.simps(2)) (auto simp: Let_def case_prod_beta run_def rest_def simp del: scan_calls.simps)
qed

lemma run_kept_bounds:
  assumes "\<forall>x \<in> set run. is_call x"
  shows "j \<in> set (fst (run_calls_kept i run turn rest)) \<Longrightarrow> i \<le> j \<and> j < i + length run"
    and "j \<in> set (snd (run_calls_kept i run turn rest)) \<Longrightarrow>
      i + length run \<le> j \<and> j < i + length run + length (result_block turn False rest)"
  by (auto simp: run_calls_kept_def Let_def case_prod_beta dest!: scan_calls_bounds find_block_bounds)

lemma repair_scan_bounds:
  "j \<in> set (fst (repair_scan i xs)) \<or> j \<in> set (snd (repair_scan i xs)) \<Longrightarrow> i \<le> j"
proof (induction "length xs" arbitrary: i xs rule: less_induct)
  case less
  show ?case
  proof (cases xs)
    case Nil
    with less.prems show ?thesis by simp
  next
    case (Cons x ys)
    show ?thesis
    proof (cases "is_call x")
      case False
      with less.hyps[of ys "Suc i"] less.prems Cons show ?thesis by simp
    next
      case True
      have "\<forall>y \<in> set (takeWhile is_call (x # ys)). is_call y" by (auto dest: set_takeWhileD)
      note b = run_kept_bounds[OF this]
      have "length (dropWhile is_call ys) < length xs" by (simp add: Cons le_imp_less_Suc length_dropWhile_le)
      from less.hyps[OF this] less.prems b show ?thesis
        unfolding Cons repair_scan_call[OF True] by (fastforce dest: add_leD1)
    qed
  qed
qed

lemma ids_of_run: "\<forall>x \<in> set run. is_call x \<Longrightarrow> fst ` set (scan_calls i run []) = ids_of is_call run"
  by (simp add: scan_calls_ids)

lemma firsts_meet: "firsts P (s \<inter> ids_of P xs) xs = firsts P s xs"
  by (rule firsts_cong) simp

lemma scan_rebuilds:
  assumes "\<forall>j \<ge> i. j \<in> set cs \<longleftrightarrow> j \<in> set (fst (repair_scan i xs))"
    and "\<forall>j \<ge> i. j \<in> set rs \<longleftrightarrow> j \<in> set (snd (repair_scan i xs))"
  shows "filter_from cs rs i xs = rebuild xs"
  using assms
proof (induction xs arbitrary: i rule: rebuild.induct)
  case 1
  then show ?case by simp
next
  case (2 x xs)
  show ?case
  proof (cases "is_call x")
    case False
    have "filter_from cs rs (Suc i) xs = rebuild xs"
      by (cases "is_result x") (use False 2 in simp_all)
    moreover have "i \<notin> set rs"
      using False "2.prems"(2) repair_scan_bounds[of i "Suc i" xs] by auto
    ultimately show ?thesis using False by (simp add: kept_def)
  next
    case True
    define run where "run = takeWhile is_call (x # xs)"
    define rest where "rest = dropWhile is_call xs"
    define block where "block = result_block (ti_turn x) False rest"
    define n where "n = i + length run"
    have calls: "\<forall>y \<in> set run. is_call y" by (auto simp: run_def dest: set_takeWhileD)
    obtain tail where rest: "rest = block @ tail"
      using result_block_prefix unfolding block_def by blast
    have tail: "drop (length block) rest = tail" by (simp add: rest)
    have xs: "x # xs = run @ block @ tail"
    proof -
      have "run @ rest = x # xs" using True by (simp add: run_def rest_def)
      then show ?thesis unfolding rest by simp
    qed
    have skip: "repair_scan n rest = repair_scan (n + length block) tail"
      unfolding rest using repair_scan_skip[of block n tail] result_block_no_call
      by (simp add: block_def)
    let ?k = "run_calls_kept i run (ti_turn x) rest"
    note scan = repair_scan_call[OF True, of i xs, folded run_def rest_def n_def, unfolded skip]
    have tb: "n + length block \<le> j" if "j \<in> set (fst (repair_scan (n + length block) tail))
        \<or> j \<in> set (snd (repair_scan (n + length block) tail))" for j
      by (rule repair_scan_bounds[OF that])
    have kb: "i \<le> j \<and> j < n" if "j \<in> set (fst ?k)" for j
      using run_kept_bounds(1)[OF calls that] by (simp add: n_def)
    have rb: "n \<le> j \<and> j < n + length block" if "j \<in> set (snd ?k)" for j
      using run_kept_bounds(2)[OF calls that] by (simp add: n_def block_def)
    have late: "j \<notin> set (fst ?k)" "j \<notin> set (snd ?k)" if "n + length block \<le> j" for j
      using kb[of j] rb[of j] that by auto
    let ?fb = "findResultBlock n rest (ti_turn x) (map fst (scan_calls i run [])) False []"
    have answered: "set (fst ?fb) = ids_of is_call run \<inter> ids_of is_result block"
      using find_block_ids[of n rest "ti_turn x" "map fst (scan_calls i run [])" False "[]"] calls
      by (simp add: ids_of_run block_def)
    have "filter_from cs rs i run = firsts is_call (set (fst ?fb) - set []) run"
    proof (rule filter_calls[OF calls])
      show "j \<in> set cs \<longleftrightarrow> (\<exists>s \<in> set (fst ?fb). (s, j) \<in> set (scan_calls i run []))"
        if "i \<le> j" "j < i + length run" for j
      proof -
        have "j \<notin> set (fst (repair_scan (n + length block) tail))" using tb[of j] that by (auto simp: n_def)
        then have "j \<in> set cs \<longleftrightarrow> j \<in> set (fst ?k)" using "2.prems"(1) that scan by simp
        also have "\<dots> \<longleftrightarrow> (\<exists>s \<in> set (fst ?fb). (s, j) \<in> set (scan_calls i run []))"
          by (force simp: run_calls_kept_def Let_def case_prod_beta n_def)
        finally show ?thesis .
      qed
    qed
    moreover have "filter_from cs rs n block = firsts is_result (set (map fst (scan_calls i run [])) - set []) block"
      unfolding block_def
    proof (rule filter_results)
      show "j \<in> set rs \<longleftrightarrow> j \<in> set (snd ?fb)"
        if "n \<le> j" "j < n + length (result_block (ti_turn x) False rest)" for j
      proof -
        have "j \<notin> set (snd (repair_scan (n + length block) tail))" using tb[of j] that by (auto simp: block_def)
        moreover have "i \<le> j" using that by (simp add: n_def)
        ultimately have "j \<in> set rs \<longleftrightarrow> j \<in> set (snd ?k)" using "2.prems"(2) scan by simp
        then show ?thesis by (simp add: run_calls_kept_def Let_def case_prod_beta n_def)
      qed
    qed
    moreover have "filter_from cs rs (n + length block) tail = rebuild tail"
    proof -
      have "filter_from cs rs (n + length block) (drop (length block) rest) = rebuild (drop (length block) rest)"
      proof (rule "2.IH"(1)[OF True run_def rest_def block_def refl])
        show "\<forall>j \<ge> n + length block. j \<in> set cs \<longleftrightarrow> j \<in> set (fst (repair_scan (n + length block) (drop (length block) rest)))"
          using "2.prems"(1) late unfolding tail scan by (simp add: n_def)
        show "\<forall>j \<ge> n + length block. j \<in> set rs \<longleftrightarrow> j \<in> set (snd (repair_scan (n + length block) (drop (length block) rest)))"
          using "2.prems"(2) late unfolding tail scan by (simp add: n_def)
      qed
      then show ?thesis unfolding tail .
    qed
    moreover have "rebuild (x # xs) = firsts is_call (ids_of is_call run \<inter> ids_of is_result block) run @
        firsts is_result (ids_of is_call run \<inter> ids_of is_result block) block @ rebuild tail"
      using True by (subst rebuild.simps(2))
        (simp only: if_True Let_def run_def[symmetric] rest_def[symmetric] block_def[symmetric] tail)
    moreover have "filter_from cs rs i (x # xs) =
        filter_from cs rs i run @ filter_from cs rs n block @ filter_from cs rs (n + length block) tail"
      unfolding xs by (simp add: filter_from_append n_def add.assoc)
    ultimately show ?thesis
      using answered ids_of_run[OF calls, of i] firsts_meet[of is_result "ids_of is_call run" block] by simp
  qed
qed

lemma kept_all: "\<forall>ix \<in> set (enumerate i xs). kept cs rs ix \<Longrightarrow> filter_from cs rs i xs = xs"
  by (simp add: filter_from_def)

lemma rebuild_eq: "repairModelHistoryItems items = rebuild items"
proof -
  obtain cs rs where scan: "repair_scan 0 items = (cs, rs)" by fastforce
  then have r: "filter_from cs rs 0 items = rebuild items" by (simp add: scan_rebuilds)
  then have "\<forall>ix \<in> set (enumerate 0 items). kept cs rs ix \<Longrightarrow> rebuild items = items"
    using kept_all by metis
  then show ?thesis
    using r scan by (simp add: repairModelHistoryItems_def filter_from_def Let_def)
qed

section \<open>What a provider accepts\<close>

definition bridges :: "turn_item \<Rightarrow> bool" where
  "bridges x = (is_result x \<or> isToolResultBridgeItem x (ti_turn x) False)"

text \<open>
  Every run of calls has distinct ids and is followed, with nothing but results and bridge items in
  between, by exactly one result for each of them; there is no other result.
\<close>

function paired :: "turn_item list \<Rightarrow> bool" where
  "paired [] = True"
| "paired (x # xs) =
     (if is_call x then
        let run = takeWhile is_call (x # xs);
            rest = dropWhile is_call xs;
            block = takeWhile bridges rest
        in distinct (map call_id run) \<and>
           mset (map call_id (filter is_result block)) = mset (map call_id run) \<and>
           paired (drop (length block) rest)
      else \<not> is_result x \<and> paired xs)"
  by pat_completeness auto
termination
  by (relation "measure length") (auto simp: le_imp_less_Suc length_dropWhile_le less_Suc_eq_le
      intro: order_trans[OF diff_le_self])

definition is_tool :: "turn_item \<Rightarrow> bool" where
  "is_tool x = (is_call x \<or> is_result x)"

lemma bridge_not_call: "bridges x \<Longrightarrow> \<not> is_call x"
  by (auto simp: bridges_def isToolResultBridgeItem_def is_call_def is_result_def split: item_body.splits)

lemma block_bridges: "x \<in> set (result_block turn saw xs) \<Longrightarrow> bridges x"
  by (induction turn saw xs rule: result_block.induct)
    (auto simp: bridges_def isToolResultBridgeItem_def split: if_splits item_body.splits)

lemma paired_skip: "\<forall>x \<in> set xs. \<not> is_tool x \<Longrightarrow> paired (xs @ ys) = paired ys"
  by (induction xs) (auto simp: is_tool_def)

lemma paired_lead:
  "paired zs \<Longrightarrow> x \<in> set (takeWhile bridges zs) \<Longrightarrow> \<not> is_tool x"
  by (induction zs rule: paired.induct) (auto simp: is_tool_def dest: bridge_not_call split: if_splits)

lemma paired_drop: "paired zs \<Longrightarrow> paired (dropWhile bridges zs)"
  using paired_lead[of zs] paired_skip[of "takeWhile bridges zs" "dropWhile bridges zs"] by simp

lemma ids_of_simps [simp]:
  "ids_of P [] = {}"
  "ids_of P (x # xs) = (if P x then insert (call_id x) (ids_of P xs) else ids_of P xs)"
  by (simp_all add: ids_of_def)

lemma firsts_ids: "ids_of P (firsts P s xs) = s \<inter> ids_of P xs"
  by (induction P s xs rule: firsts.induct) auto

lemma firsts_distinct: "distinct (map call_id (filter P (firsts P s xs)))"
proof (induction P s xs rule: firsts.induct)
  case (2 P s x xs)
  then show ?case using firsts_ids[of P "s - {call_id x}" xs] by (auto simp: ids_of_def)
qed simp

lemma firsts_subset: "set (firsts P s xs) \<subseteq> set xs"
  by (induction P s xs rule: firsts.induct) auto

lemma firsts_subseq: "subseq (firsts P s xs) xs"
  by (induction P s xs rule: firsts.induct) auto

lemma firsts_others: "filter (\<lambda>x. \<not> P x) (firsts P s xs) = filter (\<lambda>x. \<not> P x) xs"
  by (induction P s xs rule: firsts.induct) auto

lemma firsts_none: "firsts P {} xs = filter (\<lambda>x. \<not> P x) xs"
  by (induction xs) auto

lemma filter_id: "\<forall>x \<in> set xs. P x \<Longrightarrow> filter P xs = xs"
  by (simp add: filter_id_conv)

lemma paired_segment:
  assumes run: "\<forall>x \<in> set run. is_call x" and block: "\<forall>x \<in> set block. bridges x"
    and s: "s = ids_of is_call run \<inter> ids_of is_result block" and "paired zs"
  shows "paired (firsts is_call s run @ firsts is_result s block @ zs)"
proof -
  let ?r = "firsts is_call s run" and ?b = "firsts is_result s block"
  have r: "\<forall>x \<in> set ?r. is_call x" and b: "\<forall>x \<in> set ?b. bridges x"
    using run block firsts_subset by blast+
  have ids: "call_id ` set ?r = s" "call_id ` set (filter is_result ?b) = s"
  proof -
    have "ids_of is_call ?r = s" "ids_of is_result ?b = s"
      unfolding firsts_ids using s by blast+
    then show "call_id ` set ?r = s" "call_id ` set (filter is_result ?b) = s"
      using filter_id[OF r] by (simp_all add: ids_of_def[of _ "firsts _ _ _"] del: set_filter)
  qed
  show ?thesis
  proof (cases ?r)
    case Nil
    then have "s = {}" using ids(1) by simp
    then have "\<forall>x \<in> set ?b. \<not> is_tool x"
      using b by (auto simp: firsts_none is_tool_def dest: bridge_not_call)
    then show ?thesis using Nil assms(4) paired_skip by simp
  next
    case (Cons x r')
    then have "s \<noteq> {}" using ids(1) by auto
    then obtain y b' where y: "?b = y # b'" using ids(2) by (cases ?b) auto
    have tw: "takeWhile is_call (?r @ ?b @ zs) = ?r" "dropWhile is_call (r' @ ?b @ zs) = ?b @ zs"
      using r b y Cons by (auto simp: takeWhile_append dropWhile_append dest: bridge_not_call)
    have bl: "takeWhile bridges (?b @ zs) = ?b @ takeWhile bridges zs" using b by simp
    have none: "\<forall>x. x \<in> set (takeWhile bridges zs) \<longrightarrow> \<not> is_result x"
      using paired_lead[OF assms(4)] by (auto simp: is_tool_def)
    have "distinct (map call_id ?r)" using firsts_distinct[of is_call s run] filter_id[OF r] by simp
    moreover have "mset (map call_id (filter is_result ?b)) = mset (map call_id ?r)"
      using firsts_distinct[of is_result s block] calculation ids
      by (subst set_eq_iff_mset_eq_distinct[symmetric]) simp_all
    moreover have "drop (length (takeWhile bridges (?b @ zs))) (?b @ zs) = dropWhile bridges zs"
      unfolding bl by (simp add: dropWhile_eq_drop)
    ultimately show ?thesis
      using r tw bl none paired_drop[OF assms(4)] unfolding Cons
      by (simp add: Let_def)
  qed
qed

lemma filter_not_tool:
  "\<forall>x \<in> set xs. is_call x \<Longrightarrow> filter (\<lambda>x. \<not> is_tool x) xs = []"
  by (auto simp: filter_empty_conv is_tool_def)

lemma filter_bridges:
  assumes "\<forall>x \<in> set xs. bridges x"
  shows "filter (\<lambda>x. \<not> is_tool x) xs = filter (\<lambda>x. \<not> is_result x) xs"
  using assms by (intro filter_cong refl) (auto simp: is_tool_def dest: bridge_not_call)

lemma rebuild_sound:
  "paired (rebuild xs) \<and> subseq (rebuild xs) xs \<and>
   filter (\<lambda>x. \<not> is_tool x) (rebuild xs) = filter (\<lambda>x. \<not> is_tool x) xs"
proof (induction xs rule: rebuild.induct)
  case 1
  then show ?case by simp
next
  case (2 x xs)
  show ?case
  proof (cases "is_call x")
    case False
    with 2 show ?thesis by (cases "is_result x") (auto simp: is_tool_def)
  next
    case True
    define run where "run = takeWhile is_call (x # xs)"
    define rest where "rest = dropWhile is_call xs"
    define block where "block = result_block (ti_turn x) False rest"
    define s where "s = ids_of is_call run \<inter> ids_of is_result block"
    define tail where "tail = drop (length block) rest"
    obtain zs where "rest = block @ zs" using result_block_prefix unfolding block_def by blast
    then have rest: "rest = block @ tail" by (simp add: tail_def)
    have "run @ rest = x # xs" using True by (simp add: run_def rest_def)
    then have xs: "x # xs = run @ block @ tail" unfolding rest by simp
    have r: "\<forall>y \<in> set run. is_call y" by (auto simp: run_def dest: set_takeWhileD)
    have b: "\<forall>y \<in> set block. bridges y" unfolding block_def using block_bridges by blast
    have b': "\<forall>y \<in> set (firsts is_result s block). bridges y" and r': "\<forall>y \<in> set (firsts is_call s run). is_call y"
      using b r firsts_subset by blast+
    have e: "rebuild (x # xs) = firsts is_call s run @ firsts is_result s block @ rebuild tail"
      using True by (subst rebuild.simps(2))
        (simp only: if_True Let_def run_def[symmetric] rest_def[symmetric] block_def[symmetric]
          s_def[symmetric] tail_def[symmetric])
    have ih: "paired (rebuild tail) \<and> subseq (rebuild tail) tail \<and>
        filter (\<lambda>x. \<not> is_tool x) (rebuild tail) = filter (\<lambda>x. \<not> is_tool x) tail"
      using "2.IH"(1)[OF True run_def rest_def block_def s_def] by (simp only: tail_def)
    have "paired (rebuild (x # xs))" unfolding e by (rule paired_segment[OF r b s_def]) (use ih in simp)
    moreover have "subseq (rebuild (x # xs)) (x # xs)"
      unfolding e unfolding xs using ih by (intro list_emb_append_mono) (simp_all add: firsts_subseq)
    moreover have "filter (\<lambda>x. \<not> is_tool x) (rebuild (x # xs)) = filter (\<lambda>x. \<not> is_tool x) (x # xs)"
      unfolding e unfolding xs
      by (simp add: ih filter_not_tool[OF r] filter_not_tool[OF r'] filter_bridges[OF b] filter_bridges[OF b']
          firsts_others)
    ultimately show ?thesis by blast
  qed
qed

text \<open>
  C17. A repaired history is one a provider accepts: every run of tool calls has distinct ids and is
  followed by exactly one result for each, with only bridge items in between, and there is no other
  result. Nothing is added or reordered, and only calls and results are removed.
\<close>

theorem repaired_history_paired:
  "paired (repairModelHistoryItems items) \<and> subseq (repairModelHistoryItems items) items \<and>
   filter (\<lambda>x. \<not> is_tool x) (repairModelHistoryItems items) = filter (\<lambda>x. \<not> is_tool x) items"
  unfolding rebuild_eq by (rule rebuild_sound)

end
