(* ===== verification/ToolGuards.thy ===== *)
theory ToolGuards
  imports Items
begin

text \<open>
  The breaker that suppresses repeated tool calls (\<open>engine/loop/src/tool-storm-breaker.ts\<close>): it remembers
  the latest calls of a turn in a bounded window and refuses a call it has seen often enough.
\<close>

section \<open>Repeated tool calls\<close>

record tool_call =
  tl_call :: string
  tl_tool :: string
  tl_kind :: "tool_kind option"
  tl_args :: json

text \<open>
  The source compares the texts of the canonical arguments; canonical JSON values have equal texts
  exactly when they are equal, so the value is kept instead of its text.
\<close>

record recent_call =
  rt_name :: string
  rt_args :: json
  rt_read_only :: bool

record breaker =
  sb_window :: nat
  sb_threshold :: nat
  sb_recent :: "recent_call list"

definition at_least :: "int \<Rightarrow> rat option \<Rightarrow> rat \<Rightarrow> nat" where
  "at_least low given d = nat (max low \<lfloor>or_else given d\<rfloor>)"

definition new_breaker :: "rat option \<Rightarrow> rat option \<Rightarrow> breaker" where
  "new_breaker window threshold =
     \<lparr>sb_window = at_least 1 window 8, sb_threshold = at_least 2 threshold 3, sb_recent = []\<rparr>"

definition mutating_tools :: "string list" where
  "mutating_tools = [''write'', ''edit'', ''edit_diff'', ''apply_patch'', ''delete'', ''move'']"

definition exempt_tools :: "string list" where
  "exempt_tools = [''request_user_input'', ''user_input'']"

definition isMutatingToolCall :: "tool_call \<Rightarrow> bool" where
  "isMutatingToolCall c = (tl_kind c = Some FileChange \<or> tl_tool c \<in> set mutating_tools)"

definition clearReadOnlyEntries :: "breaker \<Rightarrow> breaker" where
  "clearReadOnlyEntries b = b\<lparr>sb_recent := filter (\<lambda>r. \<not> rt_read_only r) (sb_recent b)\<rparr>"

definition entry_of :: "tool_call \<Rightarrow> recent_call" where
  "entry_of c = \<lparr>rt_name = tl_tool c, rt_args = canonicalize (tl_args c),
     rt_read_only = (\<not> isMutatingToolCall c)\<rparr>"

definition same_call :: "recent_call \<Rightarrow> recent_call \<Rightarrow> bool" where
  "same_call e r = (rt_name r = rt_name e \<and> rt_args r = rt_args e)"

definition storm_reason :: "string \<Rightarrow> nat \<Rightarrow> string" where
  "storm_reason name n = name @ '' was called with identical arguments '' @ show_nat n @
     '' times in this turn; repeat-loop guard suppressed the duplicate. Choose a narrower query or explain why another identical call is needed.''"

text \<open>The reason, when the call is suppressed, and the breaker afterwards.\<close>

definition inspect :: "tool_call \<Rightarrow> breaker \<Rightarrow> string option \<times> breaker" where
  "inspect c b =
     (if tl_tool c \<in> set exempt_tools then (None, b)
      else
        let e = entry_of c;
            b1 = (if rt_read_only e then b else clearReadOnlyEntries b);
            n = length (filter (same_call e) (sb_recent b1))
        in if int (sb_threshold b1) - 1 \<le> int n then (Some (storm_reason (tl_tool c) (n + 1)), b1)
           else (None, b1\<lparr>sb_recent := slice_last (sb_window b1) (sb_recent b1 @ [e])\<rparr>))"

definition breaker_reset :: "breaker \<Rightarrow> breaker" where
  "breaker_reset b = b\<lparr>sb_recent := []\<rparr>"

fun inspect_all :: "tool_call list \<Rightarrow> breaker \<Rightarrow> bool list \<times> breaker" where
  "inspect_all [] b = ([], b)"
| "inspect_all (c # cs) b =
     (let (r, b') = inspect c b; (rs, b'') = inspect_all cs b' in ((r \<noteq> None) # rs, b''))"

lemma at_least_ge: "0 \<le> low \<Longrightarrow> low \<le> int (at_least low given d)"
  unfolding at_least_def by (subst nat_0_le) (simp_all add: le_max_iff_disj)

lemma same_call_refl [simp]: "same_call e e"
  by (simp add: same_call_def)

text \<open>One more identical call: \<open>k\<close> of them are remembered, and nothing else counts.\<close>

lemma inspect_identical:
  assumes "tl_tool c \<notin> set exempt_tools" and "sb_recent b = replicate k (entry_of c)"
    and "k \<le> sb_window b" and "2 \<le> sb_threshold b" and "sb_threshold b - 1 \<le> sb_window b"
    and "k \<le> sb_threshold b - 1"
  shows "inspect c b = (if sb_threshold b - 1 \<le> k
           then (Some (storm_reason (tl_tool c) (k + 1)), b)
           else (None, b\<lparr>sb_recent := replicate (Suc k) (entry_of c)\<rparr>))"
proof -
  have cl: "\<not> rt_read_only (entry_of c) \<Longrightarrow> clearReadOnlyEntries b = b"
    using assms(2) by (simp add: clearReadOnlyEntries_def)
  have r: "replicate k (entry_of c) @ [entry_of c] = replicate (Suc k) (entry_of c)"
    by (simp add: replicate_append_same)
  show ?thesis
    using assms cl by (auto simp: inspect_def Let_def r slice_last_def simp del: replicate_Suc)
qed

lemma inspect_all_identical:
  assumes "tl_tool c \<notin> set exempt_tools" and "sb_recent b = replicate k (entry_of c)"
    and "k \<le> sb_threshold b - 1" and "2 \<le> sb_threshold b" and "sb_threshold b - 1 \<le> sb_window b"
  shows "fst (inspect_all (replicate n c) b) =
         replicate (min n (sb_threshold b - 1 - k)) False @ replicate (n - (sb_threshold b - 1 - k)) True"
  using assms(2,3,4,5)
proof (induction n arbitrary: b k)
  case (Suc n)
  let ?t = "sb_threshold b - 1"
  have k: "k \<le> sb_window b" using Suc.prems by simp
  note step = inspect_identical[OF assms(1) Suc.prems(1) k Suc.prems(3,4,2)]
  show ?case
  proof (cases "?t \<le> k")
    case True
    with Suc.prems(2) have "k = ?t" by simp
    with step Suc.IH[OF Suc.prems] show ?thesis by (simp add: Let_def case_prod_beta)
  next
    case False
    let ?b = "b\<lparr>sb_recent := replicate (Suc k) (entry_of c)\<rparr>"
    have "fst (inspect_all (replicate n c) ?b) =
        replicate (min n (?t - Suc k)) False @ replicate (n - (?t - Suc k)) True"
      using Suc.IH[of ?b "Suc k"] Suc.prems False by simp
    moreover have "?t - k = Suc (?t - Suc k)" using False by simp
    ultimately show ?thesis using step False by (simp add: Let_def case_prod_beta)
  qed
qed simp

text \<open>
  A call repeated with the same arguments passes exactly one time less than the threshold and is
  suppressed from then on, provided the window is long enough to remember that many calls.
\<close>

theorem storm_suppressed:
  assumes "b = new_breaker window threshold" and "sb_threshold b - 1 \<le> sb_window b"
    and "tl_tool c \<notin> set exempt_tools"
  shows "fst (inspect_all (replicate n c) b) =
         replicate (min n (sb_threshold b - 1)) False @ replicate (n - (sb_threshold b - 1)) True"
proof -
  have "2 \<le> sb_threshold b" using at_least_ge[of 2 threshold 3] by (simp add: assms(1) new_breaker_def)
  moreover have "sb_recent b = replicate 0 (entry_of c)" by (simp add: assms(1) new_breaker_def)
  ultimately show ?thesis using inspect_all_identical[OF assms(3), of b 0 n] assms(2) by simp
qed

theorem storm_suppressed_witness:
  "fst (inspect_all (replicate 4 \<lparr>tl_call = ''c'', tl_tool = ''grep'', tl_kind = None, tl_args = JObj []\<rparr>)
     (new_breaker None None)) = [False, False, True, True]"
proof -
  have "sb_threshold (new_breaker None None) = 3" "sb_window (new_breaker None None) = 8"
    by (simp_all add: new_breaker_def at_least_def)
  with storm_suppressed[OF refl, of None None "\<lparr>tl_call = ''c'', tl_tool = ''grep'', tl_kind = None, tl_args = JObj []\<rparr>" 4]
  show ?thesis by (simp add: exempt_tools_def numeral_eq_Suc)
qed

text \<open>
  Whatever calls it inspects, a breaker remembers no more of them than its window, and no call more
  often than the threshold allows.
\<close>

theorem breaker_bounded:
  "length (sb_recent (snd (inspect_all cs (new_breaker window threshold)))) \<le> at_least 1 window 8 \<and>
   length (filter (same_call e) (sb_recent (snd (inspect_all cs (new_breaker window threshold)))))
     \<le> at_least 2 threshold 3 - 1"
proof -
  define ok where "ok w t b \<longleftrightarrow> sb_window (b :: breaker) = w \<and> sb_threshold b = t \<and> length (sb_recent b) \<le> w \<and>
    (\<forall>e. length (filter (same_call e) (sb_recent b)) \<le> t - 1)" for w t b
  have cut: "length (filter p (slice_last n xs)) \<le> length (filter p xs)" for p n and xs :: "recent_call list"
    unfolding slice_last_def by (metis append_take_drop_id filter_append le_add2 length_append)
  have clear: "ok w t b \<Longrightarrow> ok w t (clearReadOnlyEntries b)" for w t b
  proof -
    assume b: "ok w t b"
    have "length (filter (same_call e) (filter (\<lambda>r. \<not> rt_read_only r) (sb_recent b)))
        \<le> length (filter (same_call e) (sb_recent b))" for e
      by (metis (no_types, lifting) filter_filter length_filter_le filter_cong conj_commute)
    with b show "ok w t (clearReadOnlyEntries b)"
      unfolding ok_def clearReadOnlyEntries_def
      by (auto intro: order_trans[OF length_filter_le] order_trans)
  qed
  have add: "ok w t (b\<lparr>sb_recent := slice_last (sb_window b) (sb_recent b @ [e])\<rparr>)"
    if b: "ok w t b" and n: "\<not> int t - 1 \<le> int (length (filter (same_call e) (sb_recent b)))" for w t b e
  proof -
    have "length (filter (same_call e') (sb_recent b @ [e])) \<le> t - 1" for e'
    proof (cases "same_call e' e")
      case True
      then have "same_call e' = same_call e" by (auto simp: same_call_def)
      then show ?thesis using n True by simp
    next
      case False
      then show ?thesis using b by (simp add: ok_def)
    qed
    then have "length (filter (same_call e') (slice_last w (sb_recent b @ [e]))) \<le> t - 1" for e'
      by (rule order_trans[OF cut])
    with b show ?thesis by (simp add: ok_def)
  qed
  have step: "ok w t b \<Longrightarrow> ok w t (snd (inspect c b))" for w t b c
    using clear[of w t b] add[of w t b "entry_of c"] add[of w t "clearReadOnlyEntries b" "entry_of c"]
    by (auto simp: inspect_def Let_def ok_def)
  have "ok w t b \<Longrightarrow> ok w t (snd (inspect_all cs b))" for w t b
    by (induction cs arbitrary: b) (simp_all add: case_prod_beta Let_def step)
  from this[of "at_least 1 window 8" "at_least 2 threshold 3" "new_breaker window threshold"]
  show ?thesis by (simp add: ok_def new_breaker_def)
qed

end
