(* ===== verification/TurnQueues.thy ===== *)
theory TurnQueues
  imports Items
begin

text \<open>
  Per-turn bookkeeping of the agent loop: the queue of text a user sends while a turn runs
  (\<open>engine/loop/src/steering-queue.ts\<close>), the table of running work (\<open>inflight-tracker.ts\<close>) and the rule
  that decides whether a compaction pays (\<open>compaction-governor.ts\<close>).
\<close>

section \<open>Steering\<close>

type_synonym steering = "(string, string list) jsmap"

definition setTurn :: "string option \<Rightarrow> steering \<Rightarrow> steering" where
  "setTurn turn q = (case truthy turn of
      None \<Rightarrow> q
    | Some t \<Rightarrow> if map_of q t \<noteq> None then q else AList.update t [] q)"

definition steer_enqueue :: "string \<Rightarrow> string \<Rightarrow> steering \<Rightarrow> steering" where
  "steer_enqueue turn text q =
     (if trim text = [] then q else AList.update turn (get_or [] q turn @ [trim text]) q)"

definition steer_drain :: "string \<Rightarrow> steering \<Rightarrow> string list \<times> steering" where
  "steer_drain turn q = (case get_or [] q turn of
      [] \<Rightarrow> ([], q) | xs \<Rightarrow> (xs, AList.update turn [] q))"

definition steer_peek :: "string \<Rightarrow> steering \<Rightarrow> string list" where
  "steer_peek turn q = get_or [] q turn"

definition steer_clear :: "string option \<Rightarrow> steering \<Rightarrow> steering" where
  "steer_clear turn q = (case truthy turn of None \<Rightarrow> [] | Some t \<Rightarrow> AList.delete t q)"

datatype steering_op = Set_turn "string option" | Enqueue string string | Drain string | Clear_turn "string option"

text \<open>A run of operations, with what each drain handed out and to which turn.\<close>

fun steer_run :: "steering_op list \<Rightarrow> steering \<Rightarrow> (string \<times> string list) list \<times> steering" where
  "steer_run [] q = ([], q)"
| "steer_run (Set_turn t # xs) q = steer_run xs (setTurn t q)"
| "steer_run (Enqueue t s # xs) q = steer_run xs (steer_enqueue t s q)"
| "steer_run (Drain t # xs) q =
     (let (out, q') = steer_drain t q; (outs, q'') = steer_run xs q' in ((t, out) # outs, q''))"
| "steer_run (Clear_turn t # xs) q = steer_run xs (steer_clear t q)"

definition delivered :: "string \<Rightarrow> (string \<times> string list) list \<Rightarrow> string list" where
  "delivered t outs = concat (map snd (filter (\<lambda>o'. fst o' = t) outs))"

fun sent_to :: "string \<Rightarrow> steering_op list \<Rightarrow> string list" where
  "sent_to t [] = []"
| "sent_to t (Enqueue t' s # xs) =
     (if t' = t \<and> trim s \<noteq> [] then trim s # sent_to t xs else sent_to t xs)"
| "sent_to t (_ # xs) = sent_to t xs"

definition spares :: "string \<Rightarrow> steering_op \<Rightarrow> bool" where
  "spares t x = (case x of Clear_turn c \<Rightarrow> truthy c \<noteq> None \<and> c \<noteq> Some t | _ \<Rightarrow> True)"

lemma truthy_filled [simp]: "y \<noteq> [] \<Longrightarrow> truthy (Some y) = Some y"
  by (cases y) simp_all

lemma setTurn_peek [simp]: "steer_peek t (setTurn u q) = steer_peek t q"
  by (auto simp: setTurn_def steer_peek_def get_or_def split: option.splits)

lemma enqueue_peek [simp]:
  "steer_peek t (steer_enqueue u s q) = steer_peek t q @ (if u = t \<and> trim s \<noteq> [] then [trim s] else [])"
  by (simp add: steer_enqueue_def steer_peek_def)

lemma drain_peek:
  "steer_peek t (snd (steer_drain u q)) = (if u = t then [] else steer_peek t q)"
  "fst (steer_drain u q) = steer_peek u q"
  by (auto simp: steer_drain_def steer_peek_def split: list.splits)

lemma clear_peek: "spares t (Clear_turn c) \<Longrightarrow> steer_peek t (steer_clear c q) = steer_peek t q"
  by (auto simp: spares_def steer_clear_def steer_peek_def split: option.splits)

text \<open>
  Steering loses and mixes nothing: whatever happens to other turns, what was drained for a turn
  followed by what is still queued for it is what was sent to it, trimmed and in order, as long as the
  turn itself is not cleared.
\<close>

theorem steering_conserved:
  assumes "\<forall>x \<in> set xs. spares t x"
  shows "delivered t (fst (steer_run xs [])) @ steer_peek t (snd (steer_run xs [])) = sent_to t xs"
proof -
  have "\<forall>x \<in> set xs. spares t x \<Longrightarrow>
      delivered t (fst (steer_run xs q)) @ steer_peek t (snd (steer_run xs q)) = steer_peek t q @ sent_to t xs" for q
  proof (induction xs arbitrary: q)
    case (Cons x xs)
    then show ?case
      by (cases x) (auto simp: delivered_def case_prod_beta Let_def drain_peek clear_peek)
  qed (simp add: delivered_def)
  from this[of "[]"] assms show ?thesis by (simp add: steer_peek_def get_or_def)
qed

theorem steering_conserved_witness:
  "delivered ''t'' (fst (steer_run [Enqueue ''t'' '' a '', Drain ''t'', Clear_turn (Some ''u''), Enqueue ''t'' ''b''] [])) @
   steer_peek ''t'' (snd (steer_run [Enqueue ''t'' '' a '', Drain ''t'', Clear_turn (Some ''u''), Enqueue ''t'' ''b''] []))
   = [''a'', ''b'']"
proof -
  let ?xs = "[Enqueue ''t'' '' a '', Drain ''t'', Clear_turn (Some ''u''), Enqueue ''t'' ''b'']"
  have "\<forall>x \<in> set ?xs. spares ''t'' x" by (simp add: spares_def)
  from steering_conserved[OF this] show ?thesis
    by (simp add: trim_def trim_start_def trim_end_def is_js_space_def)
qed

section \<open>Running work\<close>

datatype inflight_kind = Model_work | Tool_work

record inflight =
  if_id :: string
  if_kind :: inflight_kind
  if_thread :: string
  if_turn :: "string option"
  if_call :: "string option"
  if_started :: int

type_synonym tracker = "(string, inflight) jsmap"

text \<open>A record without a start time is started at the clock's reading.\<close>

definition track_begin :: "int \<Rightarrow> inflight \<Rightarrow> int option \<Rightarrow> tracker \<Rightarrow> inflight \<times> tracker" where
  "track_begin now r started m =
     (let full = r\<lparr>if_started := or_else started now\<rparr> in (full, AList.update (if_id full) full m))"

definition track_end :: "string \<Rightarrow> tracker \<Rightarrow> inflight option \<times> tracker" where
  "track_end i m = (case map_of m i of None \<Rightarrow> (None, m) | Some r \<Rightarrow> (Some r, AList.delete i m))"

text \<open>The work may itself use the tracker; it returns or throws, and the entry is removed either way.\<close>

definition track_run ::
    "int \<Rightarrow> inflight \<Rightarrow> (tracker \<Rightarrow> ('e + 'a) \<times> tracker) \<Rightarrow> tracker \<Rightarrow> ('e + 'a) \<times> tracker" where
  "track_run now r work m =
     (let m1 = snd (track_begin now r None m); (res, m2) = work m1
      in (res, snd (track_end (if_id r) m2)))"

definition track_list :: "tracker \<Rightarrow> inflight list" where
  "track_list m = map snd m"

definition abortAll :: "string option \<Rightarrow> tracker \<Rightarrow> string list \<times> tracker" where
  "abortAll reason m = (map (\<lambda>kv. fst kv @ '':'' @ or_else reason ''aborted'') m, [])"

lemma track_end_gone: "map_of (snd (track_end i m)) i = None"
  by (simp add: track_end_def split: option.split)

lemma track_run_cleans:
  "map_of (snd (track_run now r work m)) (if_id r) = None \<and>
   fst (track_run now r work m) = fst (work (snd (track_begin now r None m)))"
  by (simp add: track_run_def Let_def case_prod_beta track_end_gone)

section \<open>When a compaction pays\<close>

datatype skip_reason = Insufficient_net_savings | Cooldown | Summary_only | No_history

datatype compaction_decision = Compact rat | Skip rat skip_reason

record compaction_governor =
  cg_cooldown :: "rat option"
  cg_minimum :: "rat option"
  cg_step :: rat
  cg_last :: rat
  cg_digest :: "string option"

text \<open>A persisted state is trusted only where its numbers are safe integers.\<close>

definition new_compaction_governor ::
    "rat option \<Rightarrow> rat option \<Rightarrow> rat option \<Rightarrow> rat option \<Rightarrow> string option \<Rightarrow> compaction_governor" where
  "new_compaction_governor cooldown minimum step last_step digest =
     \<lparr>cg_cooldown = cooldown, cg_minimum = minimum,
      cg_step = (case step of Some q \<Rightarrow> if is_safe_integer q \<and> 0 \<le> q then q else 0 | None \<Rightarrow> 0),
      cg_last = (case last_step of Some q \<Rightarrow> if is_safe_integer q then q else - 1 | None \<Rightarrow> - 1),
      cg_digest = digest\<rparr>"

definition nextStep :: "compaction_governor \<Rightarrow> rat \<times> compaction_governor" where
  "nextStep g = (cg_step g + 1, g\<lparr>cg_step := cg_step g + 1\<rparr>)"

record compaction_input =
  cp_step :: rat
  cp_fixed :: rat
  cp_compactable :: rat
  cp_summary :: rat
  cp_items :: rat
  cp_summary_only :: bool

definition compaction_decide :: "compaction_governor \<Rightarrow> compaction_input \<Rightarrow> compaction_decision" where
  "compaction_decide g i = (
     let savings = max 0 (cp_compactable i - cp_summary i)
     in if cp_summary_only i then Skip savings Summary_only
        else if cp_items i \<le> 0 \<or> cp_compactable i \<le> 0 then Skip savings No_history
        else if cp_step i - cg_last g < or_else (cg_cooldown g) 2 then Skip savings Cooldown
        else if savings < or_else (cg_minimum g) 128 then Skip savings Insufficient_net_savings
        else Compact savings)"

definition compaction_commit :: "rat \<Rightarrow> string \<Rightarrow> compaction_governor \<Rightarrow> compaction_governor" where
  "compaction_commit step digest g = g\<lparr>cg_last := step, cg_digest := Some digest\<rparr>"

record governor_snapshot =
  gs_step :: rat
  gs_last :: rat
  gs_digest :: "string option"

definition compaction_snapshot :: "compaction_governor \<Rightarrow> governor_snapshot" where
  "compaction_snapshot g = \<lparr>gs_step = cg_step g, gs_last = cg_last g, gs_digest = truthy (cg_digest g)\<rparr>"

text \<open>One turn of the loop: the next step is decided on, and a compaction that pays is committed.\<close>

fun compaction_steps :: "compaction_input list \<Rightarrow> compaction_governor \<Rightarrow> rat list" where
  "compaction_steps [] g = []"
| "compaction_steps (i # xs) g = (
     let (n, g1) = nextStep g
     in case compaction_decide g1 (i\<lparr>cp_step := n\<rparr>) of
          Compact _ \<Rightarrow> n # compaction_steps xs (compaction_commit n [] g1)
        | Skip _ _ \<Rightarrow> compaction_steps xs g1)"

lemma compaction_steps_apart:
  assumes "0 \<le> or_else (cg_cooldown g) 2"
  shows "sorted_wrt (\<lambda>a b. or_else (cg_cooldown g) 2 \<le> b - a) (compaction_steps xs g) \<and>
         (\<forall>n \<in> set (compaction_steps xs g). cg_last g + or_else (cg_cooldown g) 2 \<le> n)"
  using assms
proof (induction xs arbitrary: g)
  case (Cons i xs)
  let ?n = "cg_step g + 1"
  let ?g = "g\<lparr>cg_step := ?n\<rparr>"
  show ?case
  proof (cases "compaction_decide ?g (i\<lparr>cp_step := ?n\<rparr>)")
    case (Compact s)
    then have "or_else (cg_cooldown g) 2 \<le> ?n - cg_last g"
      by (auto simp: compaction_decide_def Let_def split: if_splits)
    moreover note Cons.IH[of "compaction_commit ?n [] ?g"]
    ultimately show ?thesis using Compact Cons.prems
      by (auto simp: nextStep_def compaction_commit_def algebra_simps)
  next
    case (Skip s r)
    with Cons.IH[of ?g] Cons.prems show ?thesis by (simp add: nextStep_def)
  qed
qed simp

text \<open>
  Compactions are spaced: driven step by step, any two steps at which the governor lets a
  compaction through are at least the cooldown apart, and so is the first from the last one on record.
\<close>

theorem compactions_spaced:
  assumes "0 \<le> or_else (cg_cooldown g) 2"
  shows "sorted_wrt (\<lambda>a b. or_else (cg_cooldown g) 2 \<le> b - a) (compaction_steps xs g)"
  using compaction_steps_apart[OF assms] by blast

theorem compactions_spaced_witness:
  "sorted_wrt (\<lambda>a b. 2 \<le> b - a) (compaction_steps
     (replicate 4 \<lparr>cp_step = 0, cp_fixed = 0, cp_compactable = 500, cp_summary = 10, cp_items = 3, cp_summary_only = False\<rparr>)
     (new_compaction_governor None None None None None))"
  using compactions_spaced[of "new_compaction_governor None None None None None"]
  by (simp add: new_compaction_governor_def)

end
