(* ===== verification/TaskContracts.thy ===== *)
theory TaskContracts
  imports AgentContracts
begin

text \<open>
  The task state the kernel carries from turn to turn (\<open>contracts/src/task-state.ts\<close>): actions,
  artifacts, tool observations, the tool ledger and the state record, with the schema check that trims
  every string, refuses empty ones and rejects repeated action and call ids.
\<close>

section \<open>Records\<close>

datatype action_status = Act_pending | Act_in_progress | Act_completed | Act_failed | Act_blocked

record task_action =
  ta_id :: string
  ta_text :: string
  ta_status :: action_status
  ta_evidence :: "string list"

datatype artifact_kind = File_artifact | Plain_artifact | Report_artifact | Dashboard_artifact

record artifact_ref =
  ar_path :: string
  ar_kind :: artifact_kind
  ar_call :: "string option"

record tool_observation =
  ob_call :: string
  ob_tool :: string
  ob_effect :: effect_class
  ob_class :: string
  ob_resources :: "string list"
  ob_arguments :: string
  ob_result :: string
  ob_item :: string
  ob_artifacts :: "artifact_ref list"
  ob_failed :: bool
  ob_replayed :: bool

datatype ledger_status = Led_prepared | Led_committed | Led_failed | Led_suspended

record ledger_entry =
  le_call :: string
  le_tool :: string
  le_status :: ledger_status
  le_result :: "string option"

record task_source =
  ts_objective_item :: string
  ts_items :: "string list"
  ts_digest :: string

record active_plan =
  ap_plan :: string
  ap_path :: "string option"

record task_progress =
  tg_strong :: "string option"
  tg_weak :: "string option"
  tg_evidence :: nat
  tg_artifacts :: nat
  tg_observed :: "string list"

record task_compaction =
  tk_item :: string
  tk_revision :: nat
  tk_digest :: string
  tk_sources :: "string list"
  tk_replaced :: nat

datatype waiting_kind = Waits_approval | Waits_user_input | Waits_effect

record task_migration =
  tm_digest :: string
  tm_high :: bool

record task_state =
  tks_identity :: run_identity
  tks_revision :: nat
  tks_source :: task_source
  tks_objective :: string
  tks_constraints :: "string list"
  tks_completed :: "task_action list"
  tks_pending :: "task_action list"
  tks_plan :: "active_plan option"
  tks_skills :: "string list"
  tks_artifacts :: "artifact_ref list"
  tks_ledger :: "ledger_entry list"
  tks_progress :: "task_progress option"
  tks_compaction :: "task_compaction option"
  tks_waiting :: "(waiting_kind \<times> string) option"
  tks_migration :: "task_migration option"
  tks_created :: string
  tks_updated :: string

section \<open>The schema check\<close>

abbreviation check_names :: "string list \<Rightarrow> string list result" where
  "check_names \<equiv> map_result check_nonempty"

definition check_positive :: "nat \<Rightarrow> nat result" where
  "check_positive n = bind_result (check_count n) (\<lambda>n. if n = 0 then Inl ZodError else Inr n)"

definition nonempty_list :: "'a list \<Rightarrow> 'a list result" where
  "nonempty_list xs = (if xs = [] then Inl ZodError else Inr xs)"

definition parse_action :: "task_action \<Rightarrow> task_action result" where
  "parse_action a =
     bind_result (check_nonempty (ta_id a)) (\<lambda>i.
     bind_result (check_nonempty (ta_text a)) (\<lambda>t.
     bind_result (check_names (ta_evidence a)) (\<lambda>es.
     Inr \<lparr>ta_id = i, ta_text = t, ta_status = ta_status a, ta_evidence = es\<rparr>)))"

definition parse_artifact_ref :: "artifact_ref \<Rightarrow> artifact_ref result" where
  "parse_artifact_ref a =
     bind_result (check_nonempty (ar_path a)) (\<lambda>p.
     bind_result (check_optional (ar_call a)) (\<lambda>c.
     Inr \<lparr>ar_path = p, ar_kind = ar_kind a, ar_call = c\<rparr>))"

definition parse_ledger_entry :: "ledger_entry \<Rightarrow> ledger_entry result" where
  "parse_ledger_entry e =
     bind_result (check_nonempty (le_call e)) (\<lambda>c.
     bind_result (check_nonempty (le_tool e)) (\<lambda>t.
     bind_result (check_optional (le_result e)) (\<lambda>r.
     Inr \<lparr>le_call = c, le_tool = t, le_status = le_status e, le_result = r\<rparr>)))"

definition parse_source :: "task_source \<Rightarrow> task_source result" where
  "parse_source s =
     bind_result (check_nonempty (ts_objective_item s)) (\<lambda>i.
     bind_result (bind_result (check_names (ts_items s)) nonempty_list) (\<lambda>xs.
     bind_result (check_nonempty (ts_digest s)) (\<lambda>d.
     Inr \<lparr>ts_objective_item = i, ts_items = xs, ts_digest = d\<rparr>)))"

definition parse_plan :: "active_plan \<Rightarrow> active_plan result" where
  "parse_plan p =
     bind_result (check_nonempty (ap_plan p)) (\<lambda>i.
     bind_result (check_optional (ap_path p)) (\<lambda>r.
     Inr \<lparr>ap_plan = i, ap_path = r\<rparr>))"

definition parse_progress :: "task_progress \<Rightarrow> task_progress result" where
  "parse_progress p =
     bind_result (check_optional (tg_strong p)) (\<lambda>s.
     bind_result (check_optional (tg_weak p)) (\<lambda>w.
     bind_result (check_count (tg_evidence p)) (\<lambda>e.
     bind_result (check_count (tg_artifacts p)) (\<lambda>a.
     bind_result (check_names (tg_observed p)) (\<lambda>os.
     if 64 < length os then Inl ZodError
     else Inr \<lparr>tg_strong = s, tg_weak = w, tg_evidence = e, tg_artifacts = a, tg_observed = os\<rparr>)))))"

definition parse_compaction :: "task_compaction \<Rightarrow> task_compaction result" where
  "parse_compaction c =
     bind_result (check_nonempty (tk_item c)) (\<lambda>i.
     bind_result (check_positive (tk_revision c)) (\<lambda>r.
     bind_result (check_nonempty (tk_digest c)) (\<lambda>d.
     bind_result (bind_result (check_names (tk_sources c)) nonempty_list) (\<lambda>ss.
     bind_result (check_positive (tk_replaced c)) (\<lambda>n.
     Inr \<lparr>tk_item = i, tk_revision = r, tk_digest = d, tk_sources = ss, tk_replaced = n\<rparr>)))))"

definition parse_waiting :: "waiting_kind \<times> string \<Rightarrow> (waiting_kind \<times> string) result" where
  "parse_waiting w = bind_result (check_nonempty (snd w)) (\<lambda>i. Inr (fst w, i))"

definition parse_migration :: "task_migration \<Rightarrow> task_migration result" where
  "parse_migration t = bind_result (check_nonempty (tm_digest t)) (\<lambda>d. Inr (t\<lparr>tm_digest := d\<rparr>))"

text \<open>\<open>superRefine\<close>: no action id and no ledger call id may occur twice.\<close>

definition refine_task :: "task_state \<Rightarrow> task_state result" where
  "refine_task t =
     (if distinct (map ta_id (tks_completed t @ tks_pending t)) \<and> distinct (map le_call (tks_ledger t))
      then Inr t else Inl ZodError)"

definition parse_task_state :: "task_state \<Rightarrow> task_state result" where
  "parse_task_state t =
     bind_result (parse_identity (tks_identity t)) (\<lambda>ident.
     bind_result (check_positive (tks_revision t)) (\<lambda>rev.
     bind_result (parse_source (tks_source t)) (\<lambda>src.
     bind_result (check_nonempty (tks_objective t)) (\<lambda>obj.
     bind_result (check_names (tks_constraints t)) (\<lambda>cs.
     bind_result (map_result parse_action (tks_completed t)) (\<lambda>done.
     bind_result (map_result parse_action (tks_pending t)) (\<lambda>todo.
     bind_result (check_option parse_plan (tks_plan t)) (\<lambda>plan.
     bind_result (check_names (tks_skills t)) (\<lambda>skills.
     bind_result (map_result parse_artifact_ref (tks_artifacts t)) (\<lambda>arts.
     bind_result (map_result parse_ledger_entry (tks_ledger t)) (\<lambda>ledger.
     bind_result (check_option parse_progress (tks_progress t)) (\<lambda>prog.
     bind_result (check_option parse_compaction (tks_compaction t)) (\<lambda>comp.
     bind_result (check_option parse_waiting (tks_waiting t)) (\<lambda>wait.
     bind_result (check_option parse_migration (tks_migration t)) (\<lambda>mig.
     bind_result (check_nonempty (tks_created t)) (\<lambda>cr.
     bind_result (check_nonempty (tks_updated t)) (\<lambda>up.
     refine_task \<lparr>tks_identity = ident, tks_revision = rev, tks_source = src, tks_objective = obj,
       tks_constraints = cs, tks_completed = done, tks_pending = todo, tks_plan = plan,
       tks_skills = skills, tks_artifacts = arts, tks_ledger = ledger, tks_progress = prog,
       tks_compaction = comp, tks_waiting = wait, tks_migration = mig, tks_created = cr,
       tks_updated = up\<rparr>)))))))))))))))))"

section \<open>Checked states\<close>

lemma parse_task_state_parts:
  assumes "parse_task_state t = Inr u"
  shows "parse_identity (tks_identity t) = Inr (tks_identity u)" and "tks_revision u = tks_revision t"
    and "0 < tks_revision u" and "ok_nat (tks_revision u)"
    and "distinct (map ta_id (tks_completed u @ tks_pending u))" and "distinct (map le_call (tks_ledger u))"
proof -
  have c: "check_count n = Inr k \<longleftrightarrow> k = n \<and> ok_nat n" for n k
    by (auto simp: check_count_def)
  from assms show "parse_identity (tks_identity t) = Inr (tks_identity u)"
    "tks_revision u = tks_revision t" "0 < tks_revision u" "ok_nat (tks_revision u)"
    "distinct (map ta_id (tks_completed u @ tks_pending u))" "distinct (map le_call (tks_ledger u))"
    unfolding parse_task_state_def refine_task_def check_positive_def
    by (auto simp: result_simps c split: if_splits) (metis IntI empty_iff imageI)
qed

end
