(* ===== verification/LoopGovernor.thy ===== *)
theory LoopGovernor
  imports TaskContracts
begin

text \<open>
  The loop governor (\<open>engine/loop/src/loop-governor.ts\<close>) and the middleware that runs it after every
  node (\<open>middleware/loop-governor-middleware.ts\<close>): windows over the latest calls, results and
  resources, counters of steps without progress, and the decision to let the loop go on, to ask for a
  checkpoint or to end it.

  Counters are rationals because a persisted state is read back with \<open>Number(...)\<close>; the governor
  itself only counts.
\<close>

section \<open>State and input\<close>

record governor =
  gv_calls :: "string list"
  gv_results :: "string list"
  gv_resources :: "string list"
  gv_observations :: rat
  gv_tool_calls :: rat
  gv_model_steps :: rat
  gv_requested :: bool
  gv_completed :: bool
  gv_terminated :: "string option"

datatype governor_action = Allow | Ask_checkpoint | End_loop

record decision =
  dc_action :: governor_action
  dc_reason :: "string option"
  dc_state :: governor

datatype governor_stage = Model_stage | Tool_stage | Checkpoint_stage

datatype progress_level = Strong_progress | Weak_progress | No_progress

record governor_input =
  gi_stage :: governor_stage
  gi_observations :: "tool_observation list"
  gi_level :: progress_level

definition fresh_governor :: governor where
  "fresh_governor = \<lparr>gv_calls = [], gv_results = [], gv_resources = [], gv_observations = 0,
     gv_tool_calls = 0, gv_model_steps = 0, gv_requested = False, gv_completed = False,
     gv_terminated = None\<rparr>"

section \<open>Windows\<close>

definition repeatedTail :: "string list \<Rightarrow> nat" where
  "repeatedTail xs = (case last_opt xs of
      None \<Rightarrow> 0
    | Some l \<Rightarrow> if l = [] then 0 else length (takeWhile (\<lambda>x. x = l) (rev xs)))"

definition distinctCount :: "string list \<Rightarrow> nat" where
  "distinctCount xs = length (remdups xs)"

definition occurrencesInWindow :: "string list \<Rightarrow> string \<Rightarrow> nat" where
  "occurrencesInWindow xs target = length (filter (\<lambda>x. x = target) (slice_last 16 xs))"

definition join_comma :: "string list \<Rightarrow> string" where
  "join_comma xs = (case xs of [] \<Rightarrow> [] | y # ys \<Rightarrow> y @ concat (map (\<lambda>z. '','' @ z) ys))"

definition note_observation :: "tool_observation \<Rightarrow> governor \<Rightarrow> governor" where
  "note_observation ob g = g\<lparr>
     gv_observations := gv_observations g + 1,
     gv_calls := gv_calls g @ [ob_arguments ob],
     gv_results := gv_results g @ [ob_result ob],
     gv_resources := gv_resources g @
       (if ob_effect ob = ERead then [ob_class ob @ '':'' @ join_comma (ob_resources ob)] else [])\<rparr>"

definition cut_windows :: "governor \<Rightarrow> governor" where
  "cut_windows g = g\<lparr>gv_calls := slice_last 32 (gv_calls g),
     gv_results := slice_last 32 (gv_results g), gv_resources := slice_last 32 (gv_resources g)\<rparr>"

definition count_progress :: "governor_input \<Rightarrow> nat \<Rightarrow> governor \<Rightarrow> governor" where
  "count_progress i n g =
     (if gi_level i \<noteq> No_progress then g\<lparr>gv_tool_calls := 0, gv_model_steps := 0\<rparr>
      else g\<lparr>gv_tool_calls := gv_tool_calls g + of_nat n,
             gv_model_steps := gv_model_steps g + (if gi_stage i = Model_stage then 1 else 0)\<rparr>)"

section \<open>The decision\<close>

definition end_loop :: "governor \<Rightarrow> string \<Rightarrow> decision" where
  "end_loop g reason = \<lparr>dc_action = End_loop, dc_reason = Some reason,
     dc_state = g\<lparr>gv_terminated := Some reason\<rparr>\<rparr>"

definition ask_checkpoint :: "governor \<Rightarrow> string \<Rightarrow> decision" where
  "ask_checkpoint g reason = \<lparr>dc_action = Ask_checkpoint, dc_reason = Some reason,
     dc_state = g\<lparr>gv_requested := True\<rparr>\<rparr>"

definition repeats_result :: "string list \<Rightarrow> bool" where
  "repeats_result rs = (case last_opt rs of
      None \<Rightarrow> False | Some l \<Rightarrow> l \<noteq> [] \<and> 4 \<le> occurrencesInWindow rs l)"

definition decide_loop :: "governor \<Rightarrow> decision" where
  "decide_loop g =
     (if 3 \<le> repeatedTail (gv_calls g) then end_loop g ''exact_call_repetition''
      else if repeats_result (gv_results g) then end_loop g ''repeated_result_digest''
      else if \<not> gv_requested g \<and> 6 \<le> length (gv_resources g) \<and>
              distinctCount (slice_last 6 (gv_resources g)) = 6 then ask_checkpoint g ''read_resource_churn''
      else if \<not> gv_requested g \<and> (12 \<le> gv_tool_calls g \<or> 8 \<le> gv_model_steps g)
        then ask_checkpoint g ''no_progress_window''
      else if gv_completed g \<and> 2 \<le> gv_model_steps g then end_loop g ''post_checkpoint_no_progress''
      else \<lparr>dc_action = Allow, dc_reason = None, dc_state = g\<rparr>)"

definition fresh_observations :: "governor_input \<Rightarrow> tool_observation list" where
  "fresh_observations i = filter (\<lambda>ob. \<not> ob_replayed ob) (gi_observations i)"

definition observe :: "governor option \<Rightarrow> governor_input \<Rightarrow> governor" where
  "observe previous i = (
     let fresh = fresh_observations i;
         g = fold note_observation fresh (case previous of None \<Rightarrow> fresh_governor | Some g \<Rightarrow> g)
     in count_progress i (length fresh) (cut_windows g))"

definition evaluate :: "governor option \<Rightarrow> governor_input \<Rightarrow> decision" where
  "evaluate previous i = decide_loop (observe previous i)"

definition markCheckpointCompleted :: "governor \<Rightarrow> governor" where
  "markCheckpointCompleted g = g\<lparr>gv_completed := True, gv_model_steps := 0\<rparr>"

section \<open>The middleware\<close>

text \<open>
  \<open>Number(v) || 0\<close> for a field of a persisted state. The conversion of values other than numbers is
  left to the argument \<open>coerce\<close>, with \<open>NaN\<close> as \<open>None\<close>.
\<close>

definition read_number :: "(json \<Rightarrow> rat option) \<Rightarrow> json option \<Rightarrow> rat" where
  "read_number coerce v = (case v of
      None \<Rightarrow> 0
    | Some (JNum q) \<Rightarrow> q
    | Some x \<Rightarrow> (case coerce x of None \<Rightarrow> 0 | Some q \<Rightarrow> q))"

definition read_strings :: "json option \<Rightarrow> string list option" where
  "read_strings v = (case v of Some (JArr xs) \<Rightarrow> Some (List.map_filter json_string xs) | _ \<Rightarrow> None)"

definition readState :: "(json \<Rightarrow> rat option) \<Rightarrow> json option \<Rightarrow> governor option" where
  "readState coerce v = (case v of
      Some (JObj kvs) \<Rightarrow>
        (case (map_of kvs ''version'', read_strings (map_of kvs ''recentCalls''),
               read_strings (map_of kvs ''recentResults'')) of
          (Some (JNum n), Some calls, Some results) \<Rightarrow>
            if n \<noteq> 1 then None
            else Some \<lparr>gv_calls = calls, gv_results = results,
              gv_resources = (case read_strings (map_of kvs ''recentResources'') of
                 None \<Rightarrow> [] | Some rs \<Rightarrow> rs),
              gv_observations = read_number coerce (map_of kvs ''observationCount''),
              gv_tool_calls = read_number coerce (map_of kvs ''noProgressToolCalls''),
              gv_model_steps = read_number coerce (map_of kvs ''noProgressModelSteps''),
              gv_requested = (map_of kvs ''checkpointRequested'' = Some (JBool True)),
              gv_completed = (map_of kvs ''checkpointCompleted'' = Some (JBool True)),
              gv_terminated = Option.bind (map_of kvs ''terminated'') json_string\<rparr>
        | _ \<Rightarrow> None)
    | _ \<Rightarrow> None)"

definition governor_json :: "governor \<Rightarrow> json" where
  "governor_json g = JObj ([(''version'', JNum 1),
     (''recentCalls'', JArr (map JStr (gv_calls g))),
     (''recentResults'', JArr (map JStr (gv_results g))),
     (''recentResources'', JArr (map JStr (gv_resources g))),
     (''observationCount'', JNum (gv_observations g)),
     (''noProgressToolCalls'', JNum (gv_tool_calls g)),
     (''noProgressModelSteps'', JNum (gv_model_steps g)),
     (''checkpointRequested'', JBool (gv_requested g)),
     (''checkpointCompleted'', JBool (gv_completed g))]
     @ opt_field ''terminated'' JStr (gv_terminated g))"

definition keep_governor :: "governor \<Rightarrow> command" where
  "keep_governor g = SetMiddlewareState ''loop-governor'' \<lparr>mw_version = 1, mw_data = governor_json g\<rparr>"

definition loop_capped :: "obj option \<Rightarrow> run_outcome" where
  "loop_capped details = \<lparr>oc_status = ODegraded, oc_reason = Loop_capped, oc_item = None,
     oc_retryable = False, oc_details = details\<rparr>"

text \<open>\<open>None\<close> stands for passing the context on to the next middleware.\<close>

definition governor_after_node ::
    "(json \<Rightarrow> rat option) \<Rightarrow> string option \<Rightarrow> json option \<Rightarrow> tool_observation list \<Rightarrow> progress_level \<Rightarrow>
     command list option" where
  "governor_after_node coerce node stored obs level =
     (if node = Some ''progress-checkpoint'' then
        (case readState coerce stored of
           None \<Rightarrow> None
         | Some g \<Rightarrow> Some [keep_governor (markCheckpointCompleted g)])
      else if node \<noteq> Some ''project-progress'' then None
      else
        let d = evaluate (readState coerce stored)
                  \<lparr>gi_stage = Tool_stage, gi_observations = obs, gi_level = level\<rparr>
        in Some (keep_governor (dc_state d) # (case dc_action d of
             End_loop \<Rightarrow> [Terminate (loop_capped (Some (opt_field ''governorReason'' JStr (dc_reason d))))]
           | Ask_checkpoint \<Rightarrow> [Jump ''progress-checkpoint'' ''next''
               (case dc_reason d of None \<Rightarrow> ''governor checkpoint'' | Some r \<Rightarrow> r)]
           | Allow \<Rightarrow> [])))"

section \<open>Runs of the governor\<close>

datatype governor_step = Evaluate governor_input | Checkpoint_done

fun governor_run :: "governor option \<Rightarrow> governor_step list \<Rightarrow> decision list \<times> governor option" where
  "governor_run g [] = ([], g)"
| "governor_run g (Evaluate i # xs) =
     (let d = evaluate g i; (ds, g') = governor_run (Some (dc_state d)) xs in (d # ds, g'))"
| "governor_run g (Checkpoint_done # xs) = governor_run (map_option markCheckpointCompleted g) xs"

lemma map_filter_json_string [simp]: "List.map_filter json_string (map JStr xs) = xs"
  by (induction xs) (simp_all add: List.map_filter_simps)

lemma readState_governor_json: "readState coerce (Some (governor_json g)) = Some g"
  by (cases "gv_terminated g") (simp_all add: readState_def governor_json_def read_strings_def read_number_def)

lemma decide_cases:
  obtains (ends) r where "decide_loop g = end_loop g r"
    | (asks) r where "decide_loop g = ask_checkpoint g r" and "\<not> gv_requested g"
    | (allows) "decide_loop g = \<lparr>dc_action = Allow, dc_reason = None, dc_state = g\<rparr>"
        and "gv_requested g \<or> gv_tool_calls g < 12"
proof -
  note d = decide_loop_def[of g]
  show thesis
  proof (cases "3 \<le> repeatedTail (gv_calls g) \<or> repeats_result (gv_results g)")
    case True
    then show ?thesis using ends d by metis
  next
    case False
    show ?thesis
    proof (cases "gv_requested g")
      case True
      with False have "decide_loop g = (if gv_completed g \<and> 2 \<le> gv_model_steps g
          then end_loop g ''post_checkpoint_no_progress''
          else \<lparr>dc_action = Allow, dc_reason = None, dc_state = g\<rparr>)" by (simp add: d)
      then show ?thesis using ends allows True by metis
    next
      case open_request: False
      show ?thesis
      proof (cases "decide_loop g = ask_checkpoint g ''read_resource_churn'' \<or>
          decide_loop g = ask_checkpoint g ''no_progress_window''")
        case True
        then show ?thesis using asks open_request by blast
      next
        case no_ask: False
        with False open_request have few: "\<not> (12 \<le> gv_tool_calls g \<or> 8 \<le> gv_model_steps g)"
          by (auto simp: d split: if_splits)
        with False open_request no_ask have "decide_loop g = (if gv_completed g \<and> 2 \<le> gv_model_steps g
            then end_loop g ''post_checkpoint_no_progress''
            else \<lparr>dc_action = Allow, dc_reason = None, dc_state = g\<rparr>)"
          by (auto simp: d split: if_splits)
        then show ?thesis using ends allows few not_le by metis
      qed
    qed
  qed
qed

lemma decide_state:
  "dc_state (decide_loop g) = g \<or> dc_state (decide_loop g) = g\<lparr>gv_requested := True\<rparr> \<or>
   (\<exists>r. dc_state (decide_loop g) = g\<lparr>gv_terminated := Some r\<rparr>)"
proof (cases rule: decide_cases[of g])
  case (ends r)
  then show ?thesis by (intro disjI2 exI[of _ r]) (simp add: end_loop_def)
qed (simp_all add: ask_checkpoint_def)

lemma decide_fields:
  "gv_calls (dc_state (decide_loop g)) = gv_calls g" "gv_results (dc_state (decide_loop g)) = gv_results g"
  "gv_resources (dc_state (decide_loop g)) = gv_resources g"
  "gv_observations (dc_state (decide_loop g)) = gv_observations g"
  "gv_model_steps (dc_state (decide_loop g)) = gv_model_steps g"
  "gv_requested g \<Longrightarrow> gv_requested (dc_state (decide_loop g))"
  using decide_state[of g] by auto

lemma decide_asks:
  "dc_action (decide_loop g) = Ask_checkpoint \<Longrightarrow> \<not> gv_requested g \<and> gv_requested (dc_state (decide_loop g))"
  by (cases rule: decide_cases[of g]) (simp_all add: end_loop_def ask_checkpoint_def)

lemma decide_allows:
  "dc_action (decide_loop g) = Allow \<Longrightarrow> dc_state (decide_loop g) = g \<and> (gv_requested g \<or> gv_tool_calls g < 12)"
  by (cases rule: decide_cases[of g]) (simp_all add: end_loop_def ask_checkpoint_def)

lemma note_fold_other:
  "gv_requested (fold note_observation obs g) = gv_requested g"
  "gv_completed (fold note_observation obs g) = gv_completed g"
  "gv_tool_calls (fold note_observation obs g) = gv_tool_calls g"
  "gv_model_steps (fold note_observation obs g) = gv_model_steps g"
  "gv_observations (fold note_observation obs g) = gv_observations g + of_nat (length obs)"
  "gv_calls (fold note_observation obs g) = gv_calls g @ map ob_arguments obs"
  by (induction obs arbitrary: g) (simp_all add: note_observation_def)

definition start_of :: "governor option \<Rightarrow> governor" where
  "start_of previous = (case previous of None \<Rightarrow> fresh_governor | Some g \<Rightarrow> g)"

lemma observe_fields:
  "gv_requested (observe p i) = gv_requested (start_of p)"
  "gv_completed (observe p i) = gv_completed (start_of p)"
  "gv_observations (observe p i) = gv_observations (start_of p) + of_nat (length (fresh_observations i))"
  "gv_calls (observe p i) = slice_last 32 (gv_calls (start_of p) @ map ob_arguments (fresh_observations i))"
  "length (gv_calls (observe p i)) \<le> 32" "length (gv_results (observe p i)) \<le> 32"
  "length (gv_resources (observe p i)) \<le> 32"
  "gi_level i = No_progress \<Longrightarrow> gv_tool_calls (observe p i) =
     gv_tool_calls (start_of p) + of_nat (length (fresh_observations i))"
  "gi_stage i \<noteq> Model_stage \<Longrightarrow> gv_model_steps (observe p i) \<in> {0, gv_model_steps (start_of p)}"
  by (simp_all add: observe_def start_of_def[symmetric] count_progress_def cut_windows_def note_fold_other Let_def)

text \<open>
  The governor's memory is bounded: however long a loop runs, its three windows hold at most 32
  entries each, while its counter counts every observation that was not replayed.
\<close>

theorem governor_windows_bounded:
  assumes "governor_run None steps = (ds, Some g)"
  shows "length (gv_calls g) \<le> 32 \<and> length (gv_results g) \<le> 32 \<and> length (gv_resources g) \<le> 32 \<and>
    gv_observations g = of_nat (\<Sum>s \<leftarrow> steps. case s of
      Evaluate i \<Rightarrow> length (fresh_observations i) | Checkpoint_done \<Rightarrow> 0)"
proof -
  define small where "small g \<longleftrightarrow> length (gv_calls (g :: governor)) \<le> 32 \<and> length (gv_results g) \<le> 32 \<and>
    length (gv_resources g) \<le> 32" for g
  have "governor_run p steps = (ds, Some g) \<Longrightarrow> small (start_of p) \<Longrightarrow> small g \<and>
      gv_observations g = gv_observations (start_of p) + of_nat (\<Sum>s \<leftarrow> steps. case s of
        Evaluate i \<Rightarrow> length (fresh_observations i) | Checkpoint_done \<Rightarrow> 0)" for p
  proof (induction p steps arbitrary: ds rule: governor_run.induct)
    case (1 p)
    then show ?case by (simp add: start_of_def)
  next
    case (2 p i xs)
    let ?d = "evaluate p i"
    have "gv_observations (dc_state ?d) = gv_observations (observe p i)" and "small (dc_state ?d)"
      using observe_fields(5-7)[of p i] by (simp_all add: evaluate_def small_def decide_fields)
    with 2 observe_fields(3)[of p i] show ?case
      by (simp add: start_of_def[of "Some _"] Let_def split: prod.splits)
  next
    case (3 p xs)
    then show ?case by (cases p) (simp_all add: start_of_def markCheckpointCompleted_def small_def)
  qed
  from this[of None] assms show ?thesis by (simp add: small_def start_of_def fresh_governor_def)
qed

text \<open>
  A governor asks for a checkpoint at most once in a run, whatever it observes.
\<close>

theorem one_checkpoint:
  "length (filter (\<lambda>d. dc_action d = Ask_checkpoint) (fst (governor_run g steps))) \<le> 1"
proof -
  have ask: "dc_action (evaluate p i) = Ask_checkpoint \<Longrightarrow> \<not> gv_requested (start_of p) \<and> gv_requested (dc_state (evaluate p i))"
    "gv_requested (start_of p) \<Longrightarrow> gv_requested (dc_state (evaluate p i))" for p i
    using observe_fields(1)[of p i] decide_asks[of "observe p i"] decide_fields(6)[of "observe p i"]
    by (simp_all add: evaluate_def)
  have mark: "gv_requested (start_of (map_option markCheckpointCompleted p)) = gv_requested (start_of p)" for p
    by (cases p) (simp_all add: start_of_def markCheckpointCompleted_def)
  have "length (filter (\<lambda>d. dc_action d = Ask_checkpoint) (fst (governor_run p steps)))
      \<le> (if gv_requested (start_of p) then 0 else 1)" for p
  proof (induction p steps rule: governor_run.induct)
    case (2 p i xs)
    then have ih: "length (filter (\<lambda>d. dc_action d = Ask_checkpoint)
        (fst (governor_run (Some (dc_state (evaluate p i))) xs)))
        \<le> (if gv_requested (dc_state (evaluate p i)) then 0 else 1)"
      by (simp add: start_of_def)
    show ?case using ih ask[of p i] by (auto simp: case_prod_beta Let_def split: if_splits)
  qed (simp_all add: mark)
  from this[of g] show ?thesis by (auto split: if_splits)
qed

text \<open>
  A loop without progress is noticed: when no checkpoint was asked for yet, twelve evaluations in
  a row that each bring a new observation and no progress cannot all be let through.
\<close>

theorem no_progress_noticed:
  assumes "\<not> gv_requested (start_of g)" and "0 \<le> gv_tool_calls (start_of g)" and "12 \<le> length inputs"
    and "\<forall>i \<in> set inputs. gi_level i = No_progress \<and> fresh_observations i \<noteq> []"
  shows "\<exists>d \<in> set (fst (governor_run g (map Evaluate inputs))). dc_action d \<noteq> Allow"
proof (rule ccontr)
  have allow: "dc_action (evaluate p i) = Allow \<Longrightarrow> dc_state (evaluate p i) = observe p i \<and>
      (gv_requested (observe p i) \<or> gv_tool_calls (observe p i) < 12)" for p i
    using decide_allows by (simp add: evaluate_def)
  assume "\<not> ?thesis"
  then have "\<forall>d \<in> set (fst (governor_run g (map Evaluate inputs))). dc_action d = Allow" by auto
  then have "of_nat (length inputs) + gv_tool_calls (start_of g) < 12 \<or> inputs = []"
    using assms(1,2,4)
  proof (induction inputs arbitrary: g)
    case (Cons i inputs)
    let ?g = "observe g i"
    have d: "dc_action (evaluate g i) = Allow" using Cons.prems(1) by (simp add: case_prod_beta Let_def)
    from allow[OF this] have s: "dc_state (evaluate g i) = ?g" and l: "gv_tool_calls ?g < 12"
      using Cons.prems(2) by (simp_all add: observe_fields(1))
    have "gv_tool_calls ?g = gv_tool_calls (start_of g) + of_nat (length (fresh_observations i))"
      using Cons.prems(4) by (simp add: observe_fields(8))
    moreover have "1 \<le> length (fresh_observations i)" using Cons.prems(4) by (simp add: Suc_le_eq)
    then have "(1 :: rat) \<le> of_nat (length (fresh_observations i))" by (metis of_nat_1 of_nat_le_iff)
    ultimately have ge: "gv_tool_calls (start_of g) + 1 \<le> gv_tool_calls ?g" by simp
    have "of_nat (length inputs) + gv_tool_calls (start_of (Some ?g)) < 12 \<or> inputs = []"
      by (rule Cons.IH) (use Cons.prems s ge in \<open>auto simp: case_prod_beta Let_def start_of_def[of "Some _"] observe_fields\<close>)
    then show ?case using ge l by (auto simp: start_of_def[of "Some _"])
  qed simp
  moreover have "(12 :: rat) \<le> of_nat (length inputs)" using assms(3) by (metis of_nat_le_iff of_nat_numeral)
  ultimately show False using assms(2,3) by auto
qed

text \<open>
  The middleware evaluates the governor at the tool stage only, and there the rule that ends a loop
  without progress after its checkpoint can never fire: such a loop is ended by repetition or not at
  all.
\<close>

theorem tool_stage_ends_on_repetition:
  assumes "\<forall>i. Evaluate i \<in> set steps \<longrightarrow> gi_stage i = Tool_stage"
    and "d \<in> set (fst (governor_run None steps))" and "dc_action d = End_loop"
  shows "dc_reason d \<in> {Some ''exact_call_repetition'', Some ''repeated_result_digest''}"
proof -
  have "gv_model_steps (start_of p) = 0 \<Longrightarrow> \<forall>i. Evaluate i \<in> set xs \<longrightarrow> gi_stage i = Tool_stage \<Longrightarrow>
      d \<in> set (fst (governor_run p xs)) \<Longrightarrow>
      dc_reason d \<in> {Some ''exact_call_repetition'', Some ''repeated_result_digest''}" for p xs
  proof (induction p xs rule: governor_run.induct)
    case (2 p i xs)
    have o: "gv_model_steps (observe p i) = 0"
      using observe_fields(9)[of i p] 2 by auto
    have s: "gv_model_steps (dc_state (evaluate p i)) = 0"
      using o by (simp add: evaluate_def decide_fields)
    show ?case
    proof (cases "d = evaluate p i")
      case True
      then show ?thesis using assms(3) o
        by (auto simp: evaluate_def decide_loop_def end_loop_def ask_checkpoint_def split: if_splits)
    next
      case False
      with 2 s show ?thesis by (simp add: start_of_def[of "Some _"] case_prod_beta Let_def)
    qed
  next
    case (3 p xs)
    have "gv_model_steps (start_of (map_option markCheckpointCompleted p)) = 0"
      using 3 by (cases p) (simp_all add: start_of_def markCheckpointCompleted_def)
    with 3 show ?case by simp
  qed simp
  from this[of None steps] assms show ?thesis by (simp add: start_of_def fresh_governor_def)
qed

section \<open>Sample runs\<close>

definition sample_observation :: "string \<Rightarrow> string \<Rightarrow> tool_observation" where
  "sample_observation a r = \<lparr>ob_call = ''c'', ob_tool = ''t'', ob_effect = EIdempotentWrite, ob_class = ''k'',
     ob_resources = [], ob_arguments = a, ob_result = r, ob_item = ''i'', ob_artifacts = [],
     ob_failed = False, ob_replayed = False\<rparr>"

definition sample_input :: "string \<Rightarrow> string \<Rightarrow> governor_input" where
  "sample_input a r = \<lparr>gi_stage = Tool_stage, gi_observations = [sample_observation a r], gi_level = No_progress\<rparr>"

theorem governor_windows_bounded_witness:
  "\<exists>ds g. governor_run None [Evaluate (sample_input ''a'' ''x'')] = (ds, Some g) \<and> length (gv_calls g) \<le> 32"
proof -
  obtain ds g where r: "governor_run None [Evaluate (sample_input ''a'' ''x'')] = (ds, Some g)"
    by (simp add: Let_def)
  from governor_windows_bounded[OF r] r show ?thesis by blast
qed

theorem no_progress_noticed_witness:
  "\<exists>d \<in> set (fst (governor_run None (map Evaluate (replicate 12 (sample_input ''a'' ''x''))))). dc_action d \<noteq> Allow"
  by (rule no_progress_noticed)
    (simp_all add: start_of_def fresh_governor_def sample_input_def sample_observation_def fresh_observations_def)

theorem tool_stage_ends_on_repetition_witness:
  "\<exists>d \<in> set (fst (governor_run None (map Evaluate (replicate 3 (sample_input ''a'' ''x''))))).
     dc_reason d \<in> {Some ''exact_call_repetition'', Some ''repeated_result_digest''}"
proof -
  let ?steps = "map Evaluate (replicate 3 (sample_input ''a'' ''x''))"
  have "dc_action (fst (governor_run None ?steps) ! 2) = End_loop \<and> length (fst (governor_run None ?steps)) = 3"
    by code_simp
  then have "fst (governor_run None ?steps) ! 2 \<in> set (fst (governor_run None ?steps))"
    "dc_action (fst (governor_run None ?steps) ! 2) = End_loop" by simp_all
  with tool_stage_ends_on_repetition[of ?steps] show ?thesis by (auto simp: sample_input_def)
qed

end
