(* ===== verification/TaskStore.thy ===== *)
theory TaskStore
  imports TaskContracts EffectCommit
begin

text \<open>
  The store of task states (\<open>ports/src/task-state.ts\<close>,
  \<open>adapter-storage/src/in-memory-task-state-store.ts\<close>). A new revision is prepared against the revision
  it expects to replace and becomes active by a commit that checks the expectation again.

  \<open>hs\<close> stands for the hash of node's crypto module and a token for the result of \<open>randomUUID\<close>. An
  operation that throws leaves the store as it was, so a failing one answers the error alone.
\<close>

section \<open>The store\<close>

record prepared_revision =
  pr_identity :: run_identity
  pr_revision :: nat
  pr_expected :: int
  pr_token :: string
  pr_scope :: string

record prepared_entry =
  pe_prepared :: prepared_revision
  pe_state :: task_state

record migration_record =
  mr_identity :: run_identity
  mr_digest :: string
  mr_revision :: nat
  mr_at :: string

record task_store =
  tst_active :: "(string, task_state) jsmap"
  tst_prepared :: "(string, prepared_entry) jsmap"
  tst_migrations :: "migration_record list"

definition empty_task_store :: task_store where
  "empty_task_store = \<lparr>tst_active = [], tst_prepared = [], tst_migrations = []\<rparr>"

definition preparedKey :: "prepared_revision \<Rightarrow> string" where
  "preparedKey p = pr_scope p @ '':'' @ show_nat (pr_revision p) @ '':'' @ pr_token p"

definition revisionConflict :: "int \<Rightarrow> nat \<Rightarrow> nat \<Rightarrow> js_error" where
  "revisionConflict expected active next_revision = Error (''task revision conflict: expected active '' @
     show_int expected @ '', found '' @ show_nat active @ '', next '' @ show_nat next_revision)"

definition active_revision :: "string \<Rightarrow> task_store \<Rightarrow> nat" where
  "active_revision d st = (case map_of (tst_active st) d of None \<Rightarrow> 0 | Some s \<Rightarrow> tks_revision s)"

definition task_load :: "(string \<Rightarrow> string) \<Rightarrow> run_identity \<Rightarrow> task_store \<Rightarrow> task_state option result" where
  "task_load hs i st = bind_result (runtimeScopeDigest hs i) (\<lambda>d. Inr (map_of (tst_active st) d))"

definition task_prepare ::
    "(string \<Rightarrow> string) \<Rightarrow> string \<Rightarrow> task_state \<Rightarrow> int \<Rightarrow> task_store \<Rightarrow> (prepared_revision \<times> task_store) result" where
  "task_prepare hs token s expected st =
     bind_result (parse_task_state s) (\<lambda>t.
     bind_result (runtimeScopeDigest hs (tks_identity t)) (\<lambda>d.
     if int (active_revision d st) \<noteq> expected \<or> int (tks_revision t) \<noteq> expected + 1
     then Inl (revisionConflict expected (active_revision d st) (tks_revision t))
     else
       let p = \<lparr>pr_identity = tks_identity t, pr_revision = tks_revision t, pr_expected = expected,
                pr_token = token, pr_scope = d\<rparr>
       in Inr (p, st\<lparr>tst_prepared :=
            AList.update (preparedKey p) \<lparr>pe_prepared = p, pe_state = t\<rparr> (tst_prepared st)\<rparr>)))"

definition task_commit :: "prepared_revision \<Rightarrow> task_store \<Rightarrow> task_store result" where
  "task_commit p st = (case map_of (tst_prepared st) (preparedKey p) of
      None \<Rightarrow> throw ''prepared task revision not found''
    | Some e \<Rightarrow>
        if int (active_revision (pr_scope p) st) \<noteq> pr_expected p
        then Inl (revisionConflict (pr_expected p) (active_revision (pr_scope p) st) (pr_revision p))
        else Inr (st\<lparr>tst_active := AList.update (pr_scope p) (pe_state e) (tst_active st),
                     tst_prepared := AList.delete (preparedKey p) (tst_prepared st)\<rparr>))"

definition task_abort :: "prepared_revision \<Rightarrow> task_store \<Rightarrow> task_store" where
  "task_abort p st = st\<lparr>tst_prepared := AList.delete (preparedKey p) (tst_prepared st)\<rparr>"

definition listForThread :: "string \<Rightarrow> string \<Rightarrow> string \<Rightarrow> task_store \<Rightarrow> task_state list" where
  "listForThread owner_id workspace thread st = filter (\<lambda>s. ownerUserId (tks_identity s) = owner_id \<and>
     workspaceKey (tks_identity s) = workspace \<and> threadId (tks_identity s) = thread)
     (map snd (tst_active st))"

definition appendMigrationRecord :: "migration_record \<Rightarrow> task_store \<Rightarrow> task_store" where
  "appendMigrationRecord r st = st\<lparr>tst_migrations := tst_migrations st @ [r]\<rparr>"

section \<open>Clients\<close>

text \<open>
  Clients prepare revisions and later commit or abort the handles they were given, in any order. The
  run keeps the handles given out and the states committed, oldest first.
\<close>

datatype task_op = Prepare string task_state int | Commit nat | Abort nat | Migrate migration_record

record task_world =
  tw_store :: task_store
  tw_handles :: "prepared_revision list"
  tw_log :: "(string \<times> task_state) list"

definition task_step :: "(string \<Rightarrow> string) \<Rightarrow> task_op \<Rightarrow> task_world \<Rightarrow> task_world" where
  "task_step hs x w = (case x of
      Prepare token s e \<Rightarrow> (case task_prepare hs token s e (tw_store w) of
          Inl _ \<Rightarrow> w
        | Inr (p, st) \<Rightarrow> w\<lparr>tw_store := st, tw_handles := tw_handles w @ [p]\<rparr>)
    | Commit n \<Rightarrow> if n < length (tw_handles w) then
          let p = tw_handles w ! n in (case task_commit p (tw_store w) of
              Inl _ \<Rightarrow> w
            | Inr st \<Rightarrow> w\<lparr>tw_store := st,
                tw_log := tw_log w @ (case map_of (tst_active st) (pr_scope p) of
                   None \<Rightarrow> [] | Some s \<Rightarrow> [(pr_scope p, s)])\<rparr>)
        else w
    | Abort n \<Rightarrow> if n < length (tw_handles w)
        then w\<lparr>tw_store := task_abort (tw_handles w ! n) (tw_store w)\<rparr> else w
    | Migrate r \<Rightarrow> w\<lparr>tw_store := appendMigrationRecord r (tw_store w)\<rparr>)"

definition fresh_world :: task_world where
  "fresh_world = \<lparr>tw_store = empty_task_store, tw_handles = [], tw_log = []\<rparr>"

definition task_run :: "(string \<Rightarrow> string) \<Rightarrow> task_op list \<Rightarrow> task_world" where
  "task_run hs xs = fold (task_step hs) xs fresh_world"

definition op_tokens :: "task_op list \<Rightarrow> string list" where
  "op_tokens xs = concat (map (\<lambda>x. case x of Prepare token _ _ \<Rightarrow> [token] | _ \<Rightarrow> []) xs)"

definition committed_for :: "string \<Rightarrow> task_world \<Rightarrow> task_state list" where
  "committed_for d w = map snd (filter (\<lambda>kv. fst kv = d) (tw_log w))"

lemma suffix_after_separator:
  assumes "xs @ c # ys = xs' @ c # ys'" and "c \<notin> set ys" and "c \<notin> set ys'"
  shows "ys = ys'"
proof -
  have "takeWhile (\<lambda>x. x \<noteq> c) (rev (zs @ c # vs)) = rev vs" if "c \<notin> set vs" for zs vs
    using that by (simp add: takeWhile_append2 takeWhile_append)
  from this[of ys xs] this[of ys' xs'] assms show ?thesis by (metis rev_rev_ident)
qed

lemma preparedKey_token:
  assumes "preparedKey p = preparedKey q" and "CHR '':'' \<notin> set (pr_token p)" and "CHR '':'' \<notin> set (pr_token q)"
  shows "pr_token p = pr_token q"
proof -
  have "(pr_scope p @ '':'' @ show_nat (pr_revision p)) @ CHR '':'' # pr_token p =
        (pr_scope q @ '':'' @ show_nat (pr_revision q)) @ CHR '':'' # pr_token q"
    using assms(1) by (simp add: preparedKey_def)
  from suffix_after_separator[OF this assms(2,3)] show ?thesis .
qed

section \<open>Revisions\<close>

definition entries_ok :: "task_world \<Rightarrow> bool" where
  "entries_ok w \<longleftrightarrow> (\<forall>k e. map_of (tst_prepared (tw_store w)) k = Some e \<longrightarrow>
     k = preparedKey (pe_prepared e) \<and> pe_prepared e \<in> set (tw_handles w) \<and>
     int (tks_revision (pe_state e)) = pr_expected (pe_prepared e) + 1)"

definition revisions_ok :: "task_world \<Rightarrow> bool" where
  "revisions_ok w \<longleftrightarrow> (\<forall>d. map tks_revision (committed_for d w) = [1 ..< Suc (length (committed_for d w))] \<and>
     map_of (tst_active (tw_store w)) d = last_opt (committed_for d w))"

definition tokens_ok :: "string list \<Rightarrow> bool" where
  "tokens_ok ts \<longleftrightarrow> distinct ts \<and> (\<forall>t \<in> set ts. CHR '':'' \<notin> set t)"

definition store_ok :: "task_world \<Rightarrow> bool" where
  "store_ok w \<longleftrightarrow> entries_ok w \<and> revisions_ok w \<and> tokens_ok (map pr_token (tw_handles w))"

lemma active_revision_committed:
  "revisions_ok w \<Longrightarrow> active_revision d (tw_store w) = length (committed_for d w)"
proof -
  assume r: "revisions_ok w"
  show ?thesis
  proof (cases "committed_for d w" rule: rev_cases)
    case Nil
    then show ?thesis using r by (simp add: revisions_ok_def active_revision_def last_opt_def)
  next
    case (snoc ys y)
    have "map tks_revision (committed_for d w) = [1 ..< Suc (length (committed_for d w))]"
      using r by (simp only: revisions_ok_def)
    then have "map tks_revision ys @ [tks_revision y] = [1 ..< Suc (length ys)] @ [Suc (length ys)]"
      unfolding snoc by simp
    then have "tks_revision y = Suc (length ys)" by simp
    then show ?thesis using r snoc by (simp add: revisions_ok_def active_revision_def last_opt_def)
  qed
qed

lemma handle_of_key:
  assumes "tokens_ok (map pr_token hs)" and "p \<in> set hs" and "q \<in> set hs" and "preparedKey p = preparedKey q"
  shows "p = q"
proof -
  have "pr_token p = pr_token q"
    using assms by (intro preparedKey_token) (auto simp: tokens_ok_def)
  then show ?thesis using assms(1-3) by (auto simp: tokens_ok_def distinct_map dest: inj_onD)
qed

lemma commit_ok:
  assumes w: "store_ok w" and p: "p \<in> set (tw_handles w)" and c: "task_commit p (tw_store w) = Inr st"
  shows "store_ok (w\<lparr>tw_store := st, tw_log := tw_log w @ (case map_of (tst_active st) (pr_scope p) of
     None \<Rightarrow> [] | Some s \<Rightarrow> [(pr_scope p, s)])\<rparr>)"
proof -
  let ?d = "pr_scope p"
  obtain e where e: "map_of (tst_prepared (tw_store w)) (preparedKey p) = Some e"
    and a: "int (active_revision ?d (tw_store w)) = pr_expected p"
    and st: "st = (tw_store w)\<lparr>tst_active := AList.update ?d (pe_state e) (tst_active (tw_store w)),
       tst_prepared := AList.delete (preparedKey p) (tst_prepared (tw_store w))\<rparr>"
    using c by (auto simp: task_commit_def split: option.splits if_splits)
  have en: "entries_ok w" and rv: "revisions_ok w" and tk: "tokens_ok (map pr_token (tw_handles w))"
    using w by (simp_all add: store_ok_def)
  have "preparedKey p = preparedKey (pe_prepared e)" "pe_prepared e \<in> set (tw_handles w)"
    and rev: "int (tks_revision (pe_state e)) = pr_expected (pe_prepared e) + 1"
    using en e by (simp_all add: entries_ok_def)
  with handle_of_key[OF tk p] have "pe_prepared e = p" by simp
  with rev a active_revision_committed[OF rv, of ?d]
  have n: "tks_revision (pe_state e) = Suc (length (committed_for ?d w))" by simp
  show ?thesis
    using en rv tk n unfolding store_ok_def
    by (auto simp: st entries_ok_def revisions_ok_def committed_for_def last_opt_def)
qed

lemma prepare_ok:
  assumes w: "store_ok w" and c: "task_prepare hs token s e (tw_store w) = Inr (p, st)"
    and t: "tokens_ok (map pr_token (tw_handles w) @ [token])"
  shows "store_ok (w\<lparr>tw_store := st, tw_handles := tw_handles w @ [p]\<rparr>) \<and> pr_token p = token"
proof -
  obtain u where r: "int (tks_revision u) = e + 1" and tok: "pr_token p = token" "pr_expected p = e"
    and st: "st = (tw_store w)\<lparr>tst_prepared :=
       AList.update (preparedKey p) \<lparr>pe_prepared = p, pe_state = u\<rparr> (tst_prepared (tw_store w))\<rparr>"
    using c by (auto simp: task_prepare_def result_simps Let_def split: if_splits)
  show ?thesis
    using w t tok r unfolding store_ok_def
    by (auto simp: st entries_ok_def revisions_ok_def committed_for_def)
qed

lemma tokens_ok_prefix: "tokens_ok (xs @ y # ys) \<Longrightarrow> tokens_ok (xs @ [y]) \<and> tokens_ok (xs @ ys)"
  by (auto simp: tokens_ok_def)

lemma task_step_ok:
  assumes w: "store_ok w" and t: "tokens_ok (map pr_token (tw_handles w) @ op_tokens (x # xs))"
  shows "store_ok (task_step hs x w) \<and> tokens_ok (map pr_token (tw_handles (task_step hs x w)) @ op_tokens xs)"
proof (cases x)
  case (Prepare token s e)
  with t have t': "tokens_ok (map pr_token (tw_handles w) @ token # op_tokens xs)"
    by (simp add: op_tokens_def)
  show ?thesis
  proof (cases "task_prepare hs token s e (tw_store w)")
    case (Inl err)
    then show ?thesis using w tokens_ok_prefix[OF t'] Prepare by (simp add: task_step_def)
  next
    case (Inr pst)
    obtain p st where pst: "pst = (p, st)" by force
    with prepare_ok[OF w, of hs token s e p st] Inr tokens_ok_prefix[OF t'] t'
    show ?thesis using Prepare by (simp add: task_step_def)
  qed
next
  case (Commit n)
  with t have t': "tokens_ok (map pr_token (tw_handles w) @ op_tokens xs)" by (simp add: op_tokens_def)
  show ?thesis
    using Commit w t' commit_ok[OF w, of "tw_handles w ! n"]
    by (auto simp: task_step_def Let_def split: sum.splits)
next
  case (Abort n)
  with t w show ?thesis
    by (auto simp: task_step_def op_tokens_def task_abort_def store_ok_def entries_ok_def revisions_ok_def
        committed_for_def)
next
  case (Migrate r)
  with t w show ?thesis
    by (auto simp: task_step_def op_tokens_def appendMigrationRecord_def store_ok_def entries_ok_def
        revisions_ok_def committed_for_def)
qed

lemma task_run_ok:
  assumes "store_ok w" and "tokens_ok (map pr_token (tw_handles w) @ op_tokens xs)"
  shows "store_ok (fold (task_step hs) xs w)"
  using assms
proof (induction xs arbitrary: w)
  case (Cons x xs)
  with task_step_ok[OF Cons.prems, of hs] show ?case by simp
qed simp

text \<open>
  C19. Committed revisions have no gap and no fork. However clients interleave, with tokens that are unique
  and free of colons as those of \<open>randomUUID\<close> are, the states committed in a scope carry the revisions
  1, 2, 3, ... in this order, and the active state is the last of them. In particular of two revisions
  prepared against the same active state at most one is ever committed.
\<close>

theorem committed_revisions_gapless:
  assumes "distinct (op_tokens xs)" and "\<forall>t \<in> set (op_tokens xs). CHR '':'' \<notin> set t"
  shows "map tks_revision (committed_for d (task_run hs xs)) = [1 ..< Suc (length (committed_for d (task_run hs xs)))] \<and>
    map_of (tst_active (tw_store (task_run hs xs))) d = last_opt (committed_for d (task_run hs xs))"
proof -
  have "store_ok fresh_world"
    by (simp add: store_ok_def entries_ok_def revisions_ok_def tokens_ok_def fresh_world_def
        empty_task_store_def committed_for_def last_opt_def)
  moreover have "tokens_ok (map pr_token (tw_handles fresh_world) @ op_tokens xs)"
    using assms by (simp add: tokens_ok_def fresh_world_def)
  ultimately have "store_ok (task_run hs xs)" unfolding task_run_def by (rule task_run_ok)
  then show ?thesis by (simp add: store_ok_def revisions_ok_def)
qed

section \<open>A sample run\<close>

definition sample_identity :: run_identity where
  "sample_identity = \<lparr>ownerUserId = ''o'', threadId = ''t'', turnId = ''u'', runId = ''r'', workspaceKey = ''w''\<rparr>"

definition sample_task :: "nat \<Rightarrow> string \<Rightarrow> task_state" where
  "sample_task n objective = \<lparr>tks_identity = sample_identity, tks_revision = n,
     tks_source = \<lparr>ts_objective_item = ''i'', ts_items = [''i''], ts_digest = ''d''\<rparr>,
     tks_objective = objective, tks_constraints = [], tks_completed = [], tks_pending = [],
     tks_plan = None, tks_skills = [], tks_artifacts = [], tks_ledger = [], tks_progress = None,
     tks_compaction = None, tks_waiting = None, tks_migration = None, tks_created = ''c'',
     tks_updated = ''c''\<rparr>"

definition sample_race :: "task_op list" where
  "sample_race = [Prepare ''a'' (sample_task 1 ''x'') 0, Prepare ''b'' (sample_task 1 ''y'') 0,
     Commit 1, Commit 0, Prepare ''c'' (sample_task 2 ''z'') 1, Commit 2]"

theorem committed_revisions_gapless_witness:
  "map tks_objective (committed_for ''u'' (task_run (\<lambda>_. ''u'') sample_race)) = [''y'', ''z''] \<and>
   map tks_revision (committed_for ''u'' (task_run (\<lambda>_. ''u'') sample_race)) = [1 ..< Suc 2]"
proof -
  have o': "map tks_objective (committed_for ''u'' (task_run (\<lambda>_. ''u'') sample_race)) = [''y'', ''z'']"
    by code_simp
  then have l: "length (committed_for ''u'' (task_run (\<lambda>_. ''u'') sample_race)) = 2"
    by (metis length_map length_Cons list.size(3) numeral_2_eq_2)
  have "distinct (op_tokens sample_race)" "\<forall>t \<in> set (op_tokens sample_race). CHR '':'' \<notin> set t"
    by (simp_all add: sample_race_def op_tokens_def)
  from committed_revisions_gapless[OF this, of "''u''" "\<lambda>_. ''u''"] o' l show ?thesis by simp
qed

end
