(* ===== verification/Turns.thy ===== *)
theory Turns
  imports Items
begin

text \<open>
  Turns and the items they are made of: the turn record (\<open>contracts/src/turns.ts\<close>), the operations on
  it (\<open>domain/src/turn.ts\<close>) and the constructors of turn items (\<open>domain/src/item.ts\<close>).

  Every reading of the clock is an argument. A partial update \<open>{...item, ...patch}\<close> is a function on
  items. Optional properties that the source leaves out are \<open>None\<close>.
\<close>

section \<open>Turn records\<close>

datatype turn_status = TurnQueued | TurnRunning | TurnDone | TurnErrored | TurnStopped

datatype thread_mode = Agent_mode | Plan_mode

datatype reasoning_effort = Effort_auto | Effort_off | Effort_low | Effort_medium | Effort_high | Effort_max

datatype plan_operation = Draft_plan | Refine_plan

record gui_plan =
  gp_operation :: plan_operation
  gp_workspace :: string
  gp_path :: string
  gp_plan :: string
  gp_request :: "string option"
  gp_title :: "string option"

record turn =
  tr_id :: string
  tr_thread :: string
  tr_status :: turn_status
  tr_prompt :: string
  tr_model :: "string option"
  tr_effort :: "reasoning_effort option"
  tr_steering :: "string list"
  tr_created :: string
  tr_started :: "string option"
  tr_finished :: "string option"
  tr_items :: "turn_item list"
  tr_attachments :: "string list"
  tr_work_mode :: "string option"
  tr_skills :: "string list"
  tr_explicit_skills :: "string list"
  tr_memories :: "string list"
  tr_skill_bytes :: "nat option"
  tr_fingerprint :: "string option"
  tr_tool_count :: "nat option"
  tr_drift :: "bool option"
  tr_plan :: "gui_plan option"
  tr_mode :: "thread_mode option"
  tr_error :: "string option"

record turn_request =
  rq_prompt :: string
  rq_model :: "string option"
  rq_effort :: "reasoning_effort option"
  rq_attachments :: "string list option"
  rq_work_mode :: "string option"
  rq_plan :: "gui_plan option"
  rq_mode :: "thread_mode option"
  rq_created :: "string option"
  rq_status :: "turn_status option"

definition normalizeReasoningEffort :: "reasoning_effort option \<Rightarrow> reasoning_effort option" where
  "normalizeReasoningEffort e = (if e = Some Effort_auto then None else e)"

definition createTurnRecord :: "string \<Rightarrow> string \<Rightarrow> turn_request \<Rightarrow> string \<Rightarrow> turn" where
  "createTurnRecord i thread q now =
     \<lparr>tr_id = i, tr_thread = thread, tr_status = or_else (rq_status q) TurnQueued,
      tr_prompt = rq_prompt q, tr_model = truthy (map_option trim (rq_model q)),
      tr_effort = normalizeReasoningEffort (rq_effort q), tr_steering = [],
      tr_created = or_else (rq_created q) now, tr_started = None, tr_finished = None, tr_items = [],
      tr_attachments = or_else (rq_attachments q) [], tr_work_mode = truthy (rq_work_mode q),
      tr_skills = [], tr_explicit_skills = [], tr_memories = [], tr_skill_bytes = None,
      tr_fingerprint = None, tr_tool_count = None, tr_drift = None, tr_plan = rq_plan q,
      tr_mode = rq_mode q, tr_error = None\<rparr>"

text \<open>Put an item in a list: in place of the items with its id, or at the end.\<close>

definition place_item :: "turn_item \<Rightarrow> turn_item list \<Rightarrow> turn_item list" where
  "place_item x xs = (if \<exists>y \<in> set xs. ti_id y = ti_id x
     then map_when (\<lambda>y. ti_id y = ti_id x) (\<lambda>_. x) xs else xs @ [x])"

definition appendTurnItem :: "turn \<Rightarrow> turn_item \<Rightarrow> turn" where
  "appendTurnItem t x = t\<lparr>tr_items := place_item x (tr_items t)\<rparr>"

definition replaceTurnItem :: "turn \<Rightarrow> string \<Rightarrow> (turn_item \<Rightarrow> turn_item) \<Rightarrow> turn" where
  "replaceTurnItem t i patch = t\<lparr>tr_items := map_when (\<lambda>y. ti_id y = i) patch (tr_items t)\<rparr>"

definition startTurn :: "turn \<Rightarrow> string option \<Rightarrow> string \<Rightarrow> turn" where
  "startTurn t started now = t\<lparr>tr_status := TurnRunning, tr_started := Some (or_else started now)\<rparr>"

definition finishTurn :: "turn \<Rightarrow> turn_status \<Rightarrow> string option \<Rightarrow> string \<Rightarrow> turn" where
  "finishTurn t status finished now =
     t\<lparr>tr_status := status, tr_finished := Some (or_else finished now), tr_steering := []\<rparr>"

section \<open>Item constructors\<close>

definition make_item ::
    "string \<Rightarrow> string \<Rightarrow> string \<Rightarrow> item_role \<Rightarrow> string \<Rightarrow> string option \<Rightarrow> item_body \<Rightarrow> turn_item" where
  "make_item i turn thread r created finished body = \<lparr>ti_id = i, ti_turn = turn, ti_thread = thread,
     ti_role = r, ti_created = created, ti_finished = finished, ti_body = body\<rparr>"

definition makeUserItem ::
    "string \<Rightarrow> string \<Rightarrow> string \<Rightarrow> string \<Rightarrow> string option \<Rightarrow> string list option \<Rightarrow> string \<Rightarrow> string \<Rightarrow> turn_item" where
  "makeUserItem i turn thread text display ids now now' = (
     let ids' = map_option (filter (\<lambda>s. trim s \<noteq> [])) ids;
         shown = map_option trim display
     in make_item i turn thread UserRole now (Some now')
          (UserMessage ItemCompleted text (if shown = Some text then None else truthy shown)
             (if ids' = Some [] then None else ids')))"

definition makeAssistantTextItem ::
    "string \<Rightarrow> string \<Rightarrow> string \<Rightarrow> string \<Rightarrow> item_status option \<Rightarrow> string \<Rightarrow> turn_item" where
  "makeAssistantTextItem i turn thread text status now =
     make_item i turn thread AssistantRole now None (AssistantText (or_else status ItemRunning) text)"

definition makeAssistantReasoningItem ::
    "string \<Rightarrow> string \<Rightarrow> string \<Rightarrow> string \<Rightarrow> string option \<Rightarrow> item_status option \<Rightarrow> string \<Rightarrow> turn_item" where
  "makeAssistantReasoningItem i turn thread text signature status now =
     make_item i turn thread AssistantRole now None
       (AssistantReasoning (or_else status ItemRunning) text (truthy signature))"

definition makeToolCallItem ::
    "string \<Rightarrow> string \<Rightarrow> string \<Rightarrow> string \<Rightarrow> string \<Rightarrow> tool_kind option \<Rightarrow> obj \<Rightarrow> string option \<Rightarrow>
     item_status option \<Rightarrow> string \<Rightarrow> turn_item" where
  "makeToolCallItem i turn thread call tool kind args summary status now =
     make_item i turn thread ToolRole now None
       (ToolCall (or_else status ItemPending)
          \<lparr>tu_tool = tool, tu_call = call, tu_kind = or_else kind PlainTool\<rparr> args summary)"

definition finish_time :: "string option \<Rightarrow> item_status \<Rightarrow> string \<Rightarrow> string option" where
  "finish_time given status now = (case truthy given of
      Some t \<Rightarrow> Some t
    | None \<Rightarrow> if status \<in> {ItemCompleted, ItemFailed, ItemAborted} then Some now else None)"

definition makeToolResultItem ::
    "string \<Rightarrow> string \<Rightarrow> string \<Rightarrow> string \<Rightarrow> string \<Rightarrow> tool_kind option \<Rightarrow> json option \<Rightarrow> bool option \<Rightarrow>
     item_status option \<Rightarrow> string option \<Rightarrow> string \<Rightarrow> string \<Rightarrow> turn_item" where
  "makeToolResultItem i turn thread call tool kind out failed status finished now now' = (
     let s = or_else status ItemCompleted
     in make_item i turn thread ToolRole now (finish_time finished s now')
          (ToolResult s \<lparr>tu_tool = tool, tu_call = call, tu_kind = or_else kind PlainTool\<rparr> out
             (or_else failed False)))"

definition makeApprovalItem ::
    "string \<Rightarrow> string \<Rightarrow> string \<Rightarrow> string \<Rightarrow> string \<Rightarrow> string \<Rightarrow> string \<Rightarrow> turn_item" where
  "makeApprovalItem i turn thread approval tool summary now =
     make_item i turn thread ToolRole now None (Approval ApprovalPending approval tool summary)"

definition makeUserInputItem ::
    "string \<Rightarrow> string \<Rightarrow> string \<Rightarrow> string \<Rightarrow> string \<Rightarrow> input_question list option \<Rightarrow> string \<Rightarrow> turn_item" where
  "makeUserInputItem i turn thread input_id prompt questions now =
     make_item i turn thread ToolRole now None
       (UserInput InputPending input_id prompt (or_else questions []))"

definition makeCompactionItem :: "string \<Rightarrow> string \<Rightarrow> string \<Rightarrow> compaction_info \<Rightarrow> string \<Rightarrow> string \<Rightarrow> turn_item" where
  "makeCompactionItem i turn thread c now now' =
     make_item i turn thread SystemRole now (Some now')
       (Compaction ItemCompleted (c\<lparr>ci_digest := truthy (ci_digest c), ci_marker := truthy (ci_marker c),
          ci_revision := truthy_nat (ci_revision c), ci_task_digest := truthy (ci_task_digest c)\<rparr>))"

definition makeReviewItem ::
    "string \<Rightarrow> string \<Rightarrow> string \<Rightarrow> review_target \<Rightarrow> string \<Rightarrow> item_status option \<Rightarrow> string option \<Rightarrow>
     review_output option \<Rightarrow> string option \<Rightarrow> string \<Rightarrow> string \<Rightarrow> turn_item" where
  "makeReviewItem i turn thread target title status text out finished now now' = (
     let s = or_else status ItemRunning
     in make_item i turn thread AssistantRole now (finish_time finished s now')
          (Review s target title (truthy text) out))"

definition makeRuntimeProgressItem ::
    "string \<Rightarrow> string \<Rightarrow> string \<Rightarrow> progress_phase \<Rightarrow> string \<Rightarrow> nat \<Rightarrow> nat \<Rightarrow> nat option \<Rightarrow> nat option \<Rightarrow>
     string option \<Rightarrow> string \<Rightarrow> turn_item" where
  "makeRuntimeProgressItem i turn thread phase summary steps tools evidence artifacts reason now =
     make_item i turn thread SystemRole now (Some now) (RuntimeProgress ItemCompleted
       \<lparr>pi_phase = phase, pi_summary = summary, pi_steps = steps, pi_tools = tools,
        pi_evidence = or_else evidence 0, pi_artifacts = or_else artifacts 0, pi_reason = reason\<rparr>)"

definition makeErrorItem ::
    "string \<Rightarrow> string \<Rightarrow> string \<Rightarrow> error_info \<Rightarrow> string \<Rightarrow> string \<Rightarrow> turn_item" where
  "makeErrorItem i turn thread e now now' =
     make_item i turn thread SystemRole now (Some now')
       (ErrorItem ItemFailed (e\<lparr>er_code := truthy (er_code e)\<rparr>))"

section \<open>Laws\<close>

definition item_ids :: "turn_item list \<Rightarrow> string list" where
  "item_ids xs = map ti_id xs"

lemma place_item_ids:
  "item_ids (place_item x xs) = (if ti_id x \<in> set (item_ids xs) then item_ids xs else item_ids xs @ [ti_id x])"
  by (auto simp: place_item_def item_ids_def map_when_def intro: rev_image_eqI)

lemma place_item_distinct: "distinct (item_ids xs) \<Longrightarrow> distinct (item_ids (place_item x xs))"
  by (simp add: place_item_ids)

lemma place_item_member: "x \<in> set (place_item x xs)"
  by (auto simp: place_item_def map_when_def image_iff)

lemma place_item_other: "ti_id y \<noteq> ti_id x \<Longrightarrow> y \<in> set (place_item x xs) \<longleftrightarrow> y \<in> set xs"
  by (auto simp: place_item_def map_when_def image_iff split: if_splits)

lemma place_item_set: "set (place_item x xs) \<subseteq> insert x (set xs)"
  by (auto simp: place_item_def map_when_def split: if_splits)

lemma place_item_idem: "place_item x (place_item x xs) = place_item x xs"
proof -
  have "\<exists>y \<in> set (place_item x xs). ti_id y = ti_id x" using place_item_member by auto
  then show ?thesis
    by (simp add: place_item_def[of x "place_item x xs"] map_when_def)
      (auto simp: place_item_def map_when_def intro!: map_idI)
qed

text \<open>The makers produce items the schema accepts, given names that are not empty.\<close>

lemma make_item_ok:
  "item_ok (make_item i turn thread r created finished body) \<longleftrightarrow>
     i \<noteq> [] \<and> turn \<noteq> [] \<and> thread \<noteq> [] \<and> body_ok body"
  by (simp add: make_item_def item_ok_def)

lemma makeUserItem_ok:
  "i \<noteq> [] \<Longrightarrow> turn \<noteq> [] \<Longrightarrow> thread \<noteq> [] \<Longrightarrow> item_ok (makeUserItem i turn thread text display ids now now')"
  by (auto simp: makeUserItem_def make_item_ok names_filled_def list_all_iff Let_def split: option.splits)

lemma makeCompactionItem_ok:
  "i \<noteq> [] \<Longrightarrow> turn \<noteq> [] \<Longrightarrow> thread \<noteq> [] \<Longrightarrow> names_filled (ci_sources c) \<Longrightarrow>
   item_ok (makeCompactionItem i turn thread c now now')"
  by (simp add: makeCompactionItem_def make_item_ok compaction_ok_def truthy_nat_def)

lemma makeErrorItem_ok:
  "i \<noteq> [] \<Longrightarrow> turn \<noteq> [] \<Longrightarrow> thread \<noteq> [] \<Longrightarrow> item_ok (makeErrorItem i turn thread e now now')"
  by (simp add: makeErrorItem_def make_item_ok)

end
