(* ===== verification/SessionStore.thy ===== *)
theory SessionStore
  imports Turns "HOL-Library.Multiset"
begin

text \<open>
  Agent sessions (\<open>domain/src/session.ts\<close>) and the store of a thread's items, events and session
  (\<open>ports/src/session-store.ts\<close>, \<open>adapter-storage/src/in-memory-session-store.ts\<close>).

  The store keeps every stream twice, on its own and inside the session of the thread. The laws show
  when both copies agree, that items and events stay unique by id and number, and what a reader that
  resumes from a number receives.
\<close>

section \<open>Sessions\<close>

record agent_session =
  as_thread :: string
  as_turn :: string
  as_started :: string
  as_updated :: string
  as_items :: "turn_item list"
  as_events :: "runtime_event list"
  as_closed :: bool

definition createAgentSession :: "string \<Rightarrow> string \<Rightarrow> string option \<Rightarrow> string \<Rightarrow> agent_session" where
  "createAgentSession thread turn started clock = (let now = or_else started clock in
     \<lparr>as_thread = thread, as_turn = turn, as_started = now, as_updated = now, as_items = [],
      as_events = [], as_closed = False\<rparr>)"

definition appendSessionItem :: "turn_item \<Rightarrow> string \<Rightarrow> agent_session \<Rightarrow> agent_session" where
  "appendSessionItem x now s =
     (if \<exists>y \<in> set (as_items s). ti_id y = ti_id x then s
      else s\<lparr>as_items := as_items s @ [x], as_updated := now\<rparr>)"

definition updateSessionItem ::
    "string \<Rightarrow> (turn_item \<Rightarrow> turn_item) \<Rightarrow> string \<Rightarrow> agent_session \<Rightarrow> agent_session" where
  "updateSessionItem i patch now s =
     (if \<exists>y \<in> set (as_items s). ti_id y = i
      then s\<lparr>as_items := map_when (\<lambda>y. ti_id y = i) patch (as_items s), as_updated := now\<rparr> else s)"

definition add_event :: "runtime_event \<Rightarrow> runtime_event list \<Rightarrow> runtime_event list" where
  "add_event e es = (if \<exists>f \<in> set es. ev_seq f = ev_seq e then es else es @ [e])"

definition appendSessionEvent :: "runtime_event \<Rightarrow> string \<Rightarrow> agent_session \<Rightarrow> agent_session" where
  "appendSessionEvent e now s =
     (if \<exists>f \<in> set (as_events s). ev_seq f = ev_seq e then s
      else s\<lparr>as_events := as_events s @ [e], as_updated := now\<rparr>)"

definition closeSession :: "string \<Rightarrow> agent_session \<Rightarrow> agent_session" where
  "closeSession now s = s\<lparr>as_closed := True, as_updated := now\<rparr>"

section \<open>The store\<close>

record session_store =
  ss_events :: "(string, runtime_event list) jsmap"
  ss_items :: "(string, turn_item list) jsmap"
  ss_sessions :: "(string, agent_session) jsmap"

definition empty_session_store :: session_store where
  "empty_session_store = \<lparr>ss_events = [], ss_items = [], ss_sessions = []\<rparr>"

definition items_of :: "session_store \<Rightarrow> string \<Rightarrow> turn_item list" where
  "items_of st t = get_or [] (ss_items st) t"

definition events_of :: "session_store \<Rightarrow> string \<Rightarrow> runtime_event list" where
  "events_of st t = get_or [] (ss_events st) t"

definition change_session ::
    "string \<Rightarrow> string \<Rightarrow> (agent_session \<Rightarrow> agent_session) \<Rightarrow> session_store \<Rightarrow> session_store" where
  "change_session t now f st = (case map_of (ss_sessions st) t of
      None \<Rightarrow> st
    | Some s \<Rightarrow> st\<lparr>ss_sessions := AList.update t ((f s)\<lparr>as_updated := now\<rparr>) (ss_sessions st)\<rparr>)"

definition appendEvent :: "string \<Rightarrow> runtime_event \<Rightarrow> string \<Rightarrow> session_store \<Rightarrow> session_store" where
  "appendEvent t e now st =
     (if \<exists>f \<in> set (events_of st t). ev_seq f = ev_seq e then st
      else change_session t now (\<lambda>s. s\<lparr>as_events := as_events s @ [e]\<rparr>)
             (st\<lparr>ss_events := AList.update t (events_of st t @ [e]) (ss_events st)\<rparr>))"

text \<open>Whether the item replaces one of the session is decided on the item stream, not on the session.\<close>

definition appendItem :: "string \<Rightarrow> turn_item \<Rightarrow> string \<Rightarrow> session_store \<Rightarrow> session_store" where
  "appendItem t x now st = (
     let replaces = find_index (\<lambda>y. ti_id y = ti_id x) (items_of st t) \<noteq> None;
         put = (\<lambda>xs. if replaces then map_when (\<lambda>y. ti_id y = ti_id x) (\<lambda>_. x) xs else xs @ [x])
     in change_session t now (\<lambda>s. s\<lparr>as_items := put (as_items s)\<rparr>)
          (st\<lparr>ss_items := AList.update t (put (items_of st t)) (ss_items st)\<rparr>))"

definition appendItemOnce ::
    "string \<Rightarrow> turn_item \<Rightarrow> string \<Rightarrow> session_store \<Rightarrow> (turn_item \<times> bool) \<times> session_store" where
  "appendItemOnce t x now st = (case List.find (\<lambda>y. ti_id y = ti_id x) (items_of st t) of
      Some y \<Rightarrow> ((y, False), st)
    | None \<Rightarrow> ((x, True), appendItem t x now st))"

definition rewriteItems :: "string \<Rightarrow> turn_item list \<Rightarrow> string \<Rightarrow> session_store \<Rightarrow> session_store" where
  "rewriteItems t xs now st = change_session t now (\<lambda>s. s\<lparr>as_items := xs\<rparr>)
     (st\<lparr>ss_items := AList.update t xs (ss_items st)\<rparr>)"

text \<open>The answer is the last item the patch was applied to.\<close>

definition updateItem ::
    "string \<Rightarrow> string \<Rightarrow> (turn_item \<Rightarrow> turn_item) \<Rightarrow> string \<Rightarrow> session_store \<Rightarrow> turn_item option \<times> session_store" where
  "updateItem t i patch now st = (case last_opt (filter (\<lambda>y. ti_id y = i) (items_of st t)) of
      None \<Rightarrow> (None, st)
    | Some y \<Rightarrow> (Some (patch y), rewriteItems t (map_when (\<lambda>y. ti_id y = i) patch (items_of st t)) now st))"

definition updateItemOnce ::
    "string \<Rightarrow> string \<Rightarrow> (turn_item \<Rightarrow> turn_item) \<Rightarrow> string \<Rightarrow> session_store \<Rightarrow>
     (turn_item \<times> bool) option \<times> session_store" where
  "updateItemOnce t i patch now st = (case List.find (\<lambda>y. ti_id y = i) (items_of st t) of
      None \<Rightarrow> (None, st)
    | Some y \<Rightarrow> if patch y = y then (Some (y, False), st)
        else let (u, st') = updateItem t i patch now st in (map_option (\<lambda>x. (x, True)) u, st'))"

definition loadEventsSince :: "string \<Rightarrow> int \<Rightarrow> session_store \<Rightarrow> runtime_event list" where
  "loadEventsSince t since st =
     sort_key ev_seq (filter (\<lambda>e. since < int (ev_seq e)) (events_of st t))"

definition loadItems :: "string \<Rightarrow> session_store \<Rightarrow> turn_item list" where
  "loadItems t st = items_of st t"

definition loadSession :: "string \<Rightarrow> session_store \<Rightarrow> agent_session option" where
  "loadSession t st = map_of (ss_sessions st) t"

definition set_if_absent :: "'k \<Rightarrow> 'v \<Rightarrow> ('k, 'v) jsmap \<Rightarrow> ('k, 'v) jsmap" where
  "set_if_absent k v m = (case map_of m k of None \<Rightarrow> AList.update k v m | Some _ \<Rightarrow> m)"

definition upsertSession :: "agent_session \<Rightarrow> session_store \<Rightarrow> session_store" where
  "upsertSession s st = st\<lparr>ss_sessions := AList.update (as_thread s) s (ss_sessions st),
     ss_events := set_if_absent (as_thread s) (as_events s) (ss_events st),
     ss_items := set_if_absent (as_thread s) (as_items s) (ss_items st)\<rparr>"

definition highestSeq :: "string \<Rightarrow> session_store \<Rightarrow> nat" where
  "highestSeq t st = max_seq (map ev_seq (events_of st t))"

definition resetMemory :: "session_store \<Rightarrow> session_store" where
  "resetMemory st = empty_session_store"

section \<open>Laws\<close>

lemma items_of_change [simp]: "items_of (change_session t now f st) u = items_of st u"
  and events_of_change [simp]: "events_of (change_session t now f st) u = events_of st u"
  by (simp_all add: items_of_def events_of_def change_session_def split: option.split)

lemma sessions_change: "map_of (ss_sessions (change_session t now f st)) u =
   (if u = t then map_option (\<lambda>s. (f s)\<lparr>as_updated := now\<rparr>) (map_of (ss_sessions st) t)
    else map_of (ss_sessions st) u)"
  by (simp add: change_session_def split: option.split)

lemma find_index_place: "(if find_index (\<lambda>y. ti_id y = ti_id x) xs \<noteq> None
    then map_when (\<lambda>y. ti_id y = ti_id x) (\<lambda>_. x) xs else xs @ [x]) = place_item x xs"
  by (simp add: place_item_def find_index_None del: not_None_eq)

lemma items_of_appendItem:
  "items_of (appendItem t x now st) u = (if u = t then place_item x (items_of st t) else items_of st u)"
  "events_of (appendItem t x now st) u = events_of st u"
  by (simp_all add: appendItem_def Let_def find_index_place[symmetric])
    (simp_all add: items_of_def events_of_def)

lemma items_of_rewrite:
  "items_of (rewriteItems t xs now st) u = (if u = t then xs else items_of st u)"
  "events_of (rewriteItems t xs now st) u = events_of st u"
  by (simp_all add: rewriteItems_def) (simp_all add: items_of_def events_of_def)

lemma events_of_appendEvent:
  "events_of (appendEvent t e now st) u = (if u = t then add_event e (events_of st t) else events_of st u)"
  "items_of (appendEvent t e now st) u = items_of st u"
  by (simp_all add: appendEvent_def add_event_def) (simp_all add: items_of_def events_of_def)

lemma updateItem_items:
  "items_of (snd (updateItem t i patch now st)) u =
     (if u = t then map_when (\<lambda>y. ti_id y = i) patch (items_of st t) else items_of st u)"
  "events_of (snd (updateItem t i patch now st)) u = events_of st u"
proof -
  have "last_opt (filter (\<lambda>y. ti_id y = i) (items_of st t)) = None \<longleftrightarrow>
      (\<forall>y \<in> set (items_of st t). ti_id y \<noteq> i)"
    by (auto simp: last_opt_def filter_empty_conv)
  then show "items_of (snd (updateItem t i patch now st)) u =
      (if u = t then map_when (\<lambda>y. ti_id y = i) patch (items_of st t) else items_of st u)"
    by (auto simp: updateItem_def items_of_rewrite map_when_none split: option.split)
  show "events_of (snd (updateItem t i patch now st)) u = events_of st u"
    by (simp add: updateItem_def items_of_rewrite split: option.split)
qed

text \<open>
  The two copies of a thread's streams agree; items are unique by id and events by number.
\<close>

definition stream_ok :: "turn_item list \<Rightarrow> runtime_event list \<Rightarrow> agent_session option \<Rightarrow> bool" where
  "stream_ok xs es so \<longleftrightarrow> distinct (item_ids xs) \<and> distinct (map ev_seq es) \<and>
     (case so of None \<Rightarrow> True | Some s \<Rightarrow> as_items s = xs \<and> as_events s = es)"

definition store_sound :: "session_store \<Rightarrow> bool" where
  "store_sound st \<longleftrightarrow> (\<forall>t. stream_ok (items_of st t) (events_of st t) (map_of (ss_sessions st) t))"

datatype session_op =
    Append_event string runtime_event string
  | Append_item string turn_item string
  | Append_once string turn_item string
  | Rewrite_items string "turn_item list" string
  | Update_item string string "turn_item \<Rightarrow> turn_item" string
  | Update_once string string "turn_item \<Rightarrow> turn_item" string
  | Upsert_session agent_session
  | Reset_memory

fun session_step :: "session_op \<Rightarrow> session_store \<Rightarrow> session_store" where
  "session_step (Append_event t e now) st = appendEvent t e now st"
| "session_step (Append_item t x now) st = appendItem t x now st"
| "session_step (Append_once t x now) st = snd (appendItemOnce t x now st)"
| "session_step (Rewrite_items t xs now) st = rewriteItems t xs now st"
| "session_step (Update_item t i patch now) st = snd (updateItem t i patch now st)"
| "session_step (Update_once t i patch now) st = snd (updateItemOnce t i patch now st)"
| "session_step (Upsert_session s) st = upsertSession s st"
| "session_step Reset_memory st = resetMemory st"

text \<open>
  What a client must respect: a rewrite carries unique ids, a patch keeps the id, and a session is
  written back with the streams the store holds for its thread or as the first of its thread.
\<close>

fun obeys :: "session_store \<Rightarrow> session_op \<Rightarrow> bool" where
  "obeys st (Rewrite_items t xs now) = distinct (item_ids xs)"
| "obeys st (Update_item t i patch now) = (\<forall>x. ti_id (patch x) = ti_id x)"
| "obeys st (Update_once t i patch now) = (\<forall>x. ti_id (patch x) = ti_id x)"
| "obeys st (Upsert_session s) = (distinct (item_ids (as_items s)) \<and> distinct (map ev_seq (as_events s)) \<and>
     (map_of (ss_items st) (as_thread s) \<in> {None, Some (as_items s)}) \<and>
     (map_of (ss_events st) (as_thread s) \<in> {None, Some (as_events s)}))"
| "obeys st _ = True"

fun session_run :: "session_op list \<Rightarrow> session_store \<Rightarrow> session_store" where
  "session_run [] st = st"
| "session_run (x # xs) st = session_run xs (session_step x st)"

fun all_obey :: "session_op list \<Rightarrow> session_store \<Rightarrow> bool" where
  "all_obey [] st = True"
| "all_obey (x # xs) st = (obeys st x \<and> all_obey xs (session_step x st))"

lemma sessions_appendItem:
  assumes "stream_ok (items_of st t) (events_of st t) (map_of (ss_sessions st) t)"
  shows "map_of (ss_sessions (appendItem t x now st)) u = (if u = t
      then map_option (\<lambda>s. s\<lparr>as_items := place_item x (as_items s), as_updated := now\<rparr>) (map_of (ss_sessions st) t)
      else map_of (ss_sessions st) u)"
proof (cases "map_of (ss_sessions st) t")
  case None
  then show ?thesis by (simp add: appendItem_def Let_def sessions_change)
next
  case (Some s)
  with assms have "as_items s = items_of st t" by (simp add: stream_ok_def)
  with Some show ?thesis
    by (simp add: appendItem_def Let_def sessions_change find_index_place[symmetric] del: not_None_eq)
qed

lemma store_sound_appendItem: "store_sound st \<Longrightarrow> store_sound (appendItem t x now st)"
  by (simp add: store_sound_def items_of_appendItem sessions_appendItem)
    (auto simp: stream_ok_def place_item_distinct split: option.splits)

lemma add_event_distinct: "distinct (map ev_seq es) \<Longrightarrow> distinct (map ev_seq (add_event e es))"
  by (auto simp: add_event_def)

lemma sessions_appendEvent:
  assumes "stream_ok (items_of st t) (events_of st t) (map_of (ss_sessions st) t)"
    and "map_of (ss_sessions (appendEvent t e now st)) t = Some s"
  shows "as_items s = items_of st t \<and> as_events s = add_event e (events_of st t)"
  using assms by (auto simp: appendEvent_def sessions_change stream_ok_def add_event_def split: if_splits)

lemma sessions_appendEvent_other:
  "u \<noteq> t \<Longrightarrow> map_of (ss_sessions (appendEvent t e now st)) u = map_of (ss_sessions st) u"
  by (simp add: appendEvent_def sessions_change)

lemma store_sound_appendEvent:
  assumes "store_sound st"
  shows "store_sound (appendEvent t e now st)"
  unfolding store_sound_def
proof
  fix u
  have ok: "stream_ok (items_of st u) (events_of st u) (map_of (ss_sessions st) u)" for u
    using assms by (simp add: store_sound_def)
  show "stream_ok (items_of (appendEvent t e now st) u) (events_of (appendEvent t e now st) u)
      (map_of (ss_sessions (appendEvent t e now st)) u)"
  proof (cases "u = t")
    case True
    then show ?thesis using ok[of t] sessions_appendEvent[OF ok[of t], of e now]
      by (auto simp: events_of_appendEvent stream_ok_def add_event_distinct split: option.splits)
  next
    case False
    then show ?thesis using ok[of u] by (simp add: events_of_appendEvent sessions_appendEvent_other)
  qed
qed

lemma sessions_rewrite: "map_of (ss_sessions (rewriteItems t xs now st)) u = (if u = t
    then map_option (\<lambda>s. s\<lparr>as_items := xs, as_updated := now\<rparr>) (map_of (ss_sessions st) t)
    else map_of (ss_sessions st) u)"
  by (simp add: rewriteItems_def sessions_change)

lemma store_sound_rewrite:
  "store_sound st \<Longrightarrow> distinct (item_ids xs) \<Longrightarrow> store_sound (rewriteItems t xs now st)"
  by (simp add: store_sound_def items_of_rewrite sessions_rewrite)
    (auto simp: stream_ok_def split: option.splits)

lemma map_when_ids:
  "(\<And>x. ti_id (patch x) = ti_id x) \<Longrightarrow> item_ids (map_when P patch xs) = item_ids xs"
  by (induction xs) (simp_all add: map_when_def item_ids_def)

lemma store_sound_updateItem:
  "store_sound st \<Longrightarrow> (\<And>x. ti_id (patch x) = ti_id x) \<Longrightarrow> store_sound (snd (updateItem t i patch now st))"
  by (auto simp: updateItem_def map_when_ids intro!: store_sound_rewrite split: option.split)
    (simp add: store_sound_def stream_ok_def)

lemma store_sound_upsert:
  assumes "store_sound st" and "obeys st (Upsert_session s)"
  shows "store_sound (upsertSession s st)"
proof -
  have i: "items_of (upsertSession s st) u = (if u = as_thread s then as_items s else items_of st u)"
    and e: "events_of (upsertSession s st) u = (if u = as_thread s then as_events s else events_of st u)" for u
    using assms(2)
    by (auto simp: upsertSession_def items_of_def events_of_def set_if_absent_def get_or_def split: option.splits)
  show ?thesis using assms
    unfolding store_sound_def i e by (auto simp: upsertSession_def stream_ok_def split: option.splits)
qed

lemma store_sound_empty: "store_sound empty_session_store"
  by (simp add: store_sound_def stream_ok_def empty_session_store_def items_of_def events_of_def get_or_def
      item_ids_def)

lemma session_step_sound: "store_sound st \<Longrightarrow> obeys st x \<Longrightarrow> store_sound (session_step x st)"
proof (cases x)
  case (Update_once t i patch now)
  assume "store_sound st" "obeys st x"
  with store_sound_updateItem[of st patch t i now] Update_once show ?thesis
    by (auto simp: updateItemOnce_def case_prod_beta split: option.split)
next
  case (Append_once t y now)
  assume "store_sound st"
  then show ?thesis
    by (auto simp: Append_once appendItemOnce_def store_sound_appendItem split: option.split)
next
  case Reset_memory
  then show ?thesis
    by (simp add: resetMemory_def store_sound_empty)
qed (simp_all add: store_sound_appendItem store_sound_appendEvent store_sound_rewrite store_sound_updateItem
      store_sound_upsert del: obeys.simps(4))

text \<open>
  The session of a thread is a faithful projection. Whatever operations run on a store, as long as
  patches keep ids, rewrites carry unique ids and sessions are written back with the streams the store
  holds, the items and events of every stored session are those of the streams, items stay unique by
  id and events by number.
\<close>

theorem sessions_project_streams:
  assumes "all_obey xs empty_session_store"
  shows "distinct (item_ids (items_of (session_run xs empty_session_store) t)) \<and>
    distinct (map ev_seq (events_of (session_run xs empty_session_store) t)) \<and>
    (\<forall>s. loadSession t (session_run xs empty_session_store) = Some s \<longrightarrow>
       as_items s = loadItems t (session_run xs empty_session_store) \<and>
       as_events s = events_of (session_run xs empty_session_store) t)"
proof -
  have run: "store_sound st \<Longrightarrow> all_obey xs st \<Longrightarrow> store_sound (session_run xs st)" for st
    by (induction xs arbitrary: st) (auto intro: session_step_sound)
  from run[OF store_sound_empty assms] show ?thesis
    by (force simp: store_sound_def stream_ok_def loadSession_def loadItems_def split: option.splits)
qed

definition offered :: "string \<Rightarrow> runtime_event list \<Rightarrow> session_store" where
  "offered t es = fold (\<lambda>e. appendEvent t e (ev_time e)) es empty_session_store"

lemma events_of_fold:
  "events_of (fold (\<lambda>e. appendEvent t e (ev_time e)) es st) t = fold add_event es (events_of st t)"
  by (induction es arbitrary: st) (simp_all add: events_of_appendEvent)

lemma add_event_find:
  "List.find (\<lambda>e. ev_seq e = n) (fold add_event es ds) = List.find (\<lambda>e. ev_seq e = n) (ds @ es)"
proof (induction es arbitrary: ds)
  case (Cons e es)
  have "List.find (\<lambda>e. ev_seq e = n) (add_event e ds @ es) = List.find (\<lambda>e. ev_seq e = n) (ds @ e # es)"
  proof (cases "List.find (\<lambda>e. ev_seq e = n) ds")
    case None
    then have "\<forall>f \<in> set ds. ev_seq f \<noteq> n" by (simp add: find_None_iff)
    with None show ?thesis by (auto simp: add_event_def find_append)
  qed (simp add: add_event_def find_append)
  with Cons show ?case by simp
qed simp

lemma add_event_fold_distinct: "distinct (map ev_seq ds) \<Longrightarrow> distinct (map ev_seq (fold add_event es ds))"
  by (induction es arbitrary: ds) (simp_all add: add_event_distinct)

lemma find_distinct:
  assumes "distinct (map ev_seq ds)"
  shows "e \<in> set ds \<longleftrightarrow> List.find (\<lambda>f. ev_seq f = ev_seq e) ds = Some e"
  using assms by (induction ds) (auto simp: find_Some_iff)

text \<open>
  A reader that resumes after a number gets every event recorded later exactly once and in increasing
  order, in whatever order the events were appended and however often each was offered; of events
  offered with the same number the first stays.
\<close>

theorem resumed_reader_complete:
  "sorted_wrt (<) (map ev_seq (loadEventsSince t since (offered t es))) \<and>
   (\<forall>e. e \<in> set (loadEventsSince t since (offered t es)) \<longleftrightarrow>
      since < int (ev_seq e) \<and> List.find (\<lambda>f. ev_seq f = ev_seq e) es = Some e)"
proof -
  let ?all = "fold add_event es []"
  have ev: "events_of (offered t es) t = ?all"
    by (simp add: offered_def events_of_fold) (simp add: events_of_def empty_session_store_def get_or_def)
  have d: "distinct (map ev_seq ?all)" by (rule add_event_fold_distinct) simp
  have "distinct (map ev_seq (filter (\<lambda>e. since < int (ev_seq e)) ?all))"
    using d by (rule distinct_map_filter)
  then have "distinct (map ev_seq (loadEventsSince t since (offered t es)))"
    by (simp add: loadEventsSince_def ev distinct_map)
  moreover have "sorted (map ev_seq (loadEventsSince t since (offered t es)))"
    by (simp add: loadEventsSince_def)
  ultimately have "sorted_wrt (<) (map ev_seq (loadEventsSince t since (offered t es)))"
    by (simp add: strict_sorted_iff)
  moreover have "e \<in> set ?all \<longleftrightarrow> List.find (\<lambda>f. ev_seq f = ev_seq e) es = Some e" for e
    using find_distinct[OF d, of e] add_event_find[of "ev_seq e" es "[]"] by simp
  ultimately show ?thesis by (auto simp: loadEventsSince_def ev)
qed

section \<open>Sample store\<close>

definition sample_item :: "string \<Rightarrow> string \<Rightarrow> turn_item" where
  "sample_item i text = makeUserItem i ''u'' ''t'' text None None ''1'' ''1''"

definition sample_ops :: "session_op list" where
  "sample_ops = [Upsert_session (createAgentSession ''t'' ''u'' None ''0''),
     Append_item ''t'' (sample_item ''a'' ''x'') ''1'', Append_item ''t'' (sample_item ''b'' ''y'') ''2'',
     Append_item ''t'' (sample_item ''a'' ''z'') ''3'']"

theorem sessions_project_streams_witness:
  "loadItems ''t'' (session_run sample_ops empty_session_store) = [sample_item ''a'' ''z'', sample_item ''b'' ''y''] \<and>
   map_option as_items (loadSession ''t'' (session_run sample_ops empty_session_store)) =
     Some [sample_item ''a'' ''z'', sample_item ''b'' ''y'']"
proof -
  have r: "all_obey sample_ops empty_session_store"
    by (simp add: sample_ops_def createAgentSession_def empty_session_store_def Let_def item_ids_def)
  have i: "loadItems ''t'' (session_run sample_ops empty_session_store) = [sample_item ''a'' ''z'', sample_item ''b'' ''y'']"
    and s: "\<exists>s. loadSession ''t'' (session_run sample_ops empty_session_store) = Some s"
    by (simp_all add: sample_ops_def empty_session_store_def loadItems_def loadSession_def items_of_appendItem
        place_item_def map_when_def sample_item_def makeUserItem_def make_item_def upsertSession_def items_of_def
        get_or_def set_if_absent_def createAgentSession_def Let_def appendItem_def change_session_def)
  from sessions_project_streams[OF r, of "''t''"] i s show ?thesis by auto
qed

end
