(* ===== verification/Gates.thy ===== *)
theory Gates
  imports Turns
begin

text \<open>
  Gates at which a turn waits for the user: approval requests (\<open>domain/src/approval.ts\<close>), the approval
  and user input gates (\<open>adapter-storage/src/in-memory-approval-gate.ts\<close>,
  \<open>in-memory-user-input-gate.ts\<close>) and the HTTP handlers that answer them
  (\<open>http/src/routes/approvals.ts\<close>, \<open>user-inputs.ts\<close>).

  Every call of \<open>request\<close> creates a promise; promises are numbered, and the outcomes of the settled
  ones are listed in the order they settled.
\<close>

section \<open>Approval requests\<close>

datatype gate_decision = Allow_call | Deny_call

record approval_request =
  aq_id :: string
  aq_thread :: string
  aq_turn :: string
  aq_tool :: string
  aq_summary :: string
  aq_status :: approval_status
  aq_created :: string
  aq_decided :: "string option"
  aq_reason :: "string option"

definition createApprovalRequest ::
    "string \<Rightarrow> string \<Rightarrow> string \<Rightarrow> string \<Rightarrow> string \<Rightarrow> string option \<Rightarrow> string \<Rightarrow> approval_request" where
  "createApprovalRequest i thread turn tool summary created now =
     \<lparr>aq_id = i, aq_thread = thread, aq_turn = turn, aq_tool = tool, aq_summary = summary,
      aq_status = ApprovalPending, aq_created = or_else created now, aq_decided = None, aq_reason = None\<rparr>"

fun decision_status :: "gate_decision \<Rightarrow> approval_status" where
  "decision_status Allow_call = ApprovalAllowed"
| "decision_status Deny_call = ApprovalDenied"

definition resolveApprovalRequest ::
    "approval_request \<Rightarrow> gate_decision \<Rightarrow> string option \<Rightarrow> string option \<Rightarrow> string \<Rightarrow> approval_request" where
  "resolveApprovalRequest r d reason decided now =
     r\<lparr>aq_status := decision_status d, aq_reason := reason, aq_decided := Some (or_else decided now)\<rparr>"

definition expireApprovalRequest :: "approval_request \<Rightarrow> string option \<Rightarrow> string \<Rightarrow> approval_request" where
  "expireApprovalRequest r decided now =
     r\<lparr>aq_status := ApprovalExpired, aq_decided := Some (or_else decided now)\<rparr>"

section \<open>The approval gate\<close>

record approval_gate =
  ag_approvals :: "(string, approval_request) jsmap"
  ag_resolvers :: "(string, nat) jsmap"
  ag_promises :: nat
  ag_settled :: "(nat \<times> gate_decision) list"

definition empty_gate :: approval_gate where
  "empty_gate = \<lparr>ag_approvals = [], ag_resolvers = [], ag_promises = 0, ag_settled = []\<rparr>"

definition gate_request :: "approval_request \<Rightarrow> approval_gate \<Rightarrow> nat \<times> approval_gate" where
  "gate_request a g = (ag_promises g, g\<lparr>ag_approvals := AList.update (aq_id a) a (ag_approvals g),
     ag_resolvers := AList.update (aq_id a) (ag_promises g) (ag_resolvers g),
     ag_promises := Suc (ag_promises g)\<rparr>)"

definition gate_decide ::
    "string \<Rightarrow> gate_decision \<Rightarrow> string option \<Rightarrow> string \<Rightarrow> approval_gate \<Rightarrow> bool \<times> approval_gate" where
  "gate_decide i d reason now g = (case map_of (ag_approvals g) i of
      None \<Rightarrow> (False, g)
    | Some a \<Rightarrow> (True, g\<lparr>
        ag_approvals := AList.update i (resolveApprovalRequest a d reason None now) (ag_approvals g),
        ag_resolvers := AList.delete i (ag_resolvers g),
        ag_settled := ag_settled g @
          (case map_of (ag_resolvers g) i of None \<Rightarrow> [] | Some p \<Rightarrow> [(p, d)])\<rparr>))"

definition gate_pending :: "string option \<Rightarrow> approval_gate \<Rightarrow> approval_request list" where
  "gate_pending thread g = filter (\<lambda>a. aq_status a = ApprovalPending \<and>
     (case truthy thread of None \<Rightarrow> True | Some t \<Rightarrow> aq_thread a = t)) (map snd (ag_approvals g))"

definition gate_get :: "string \<Rightarrow> approval_gate \<Rightarrow> approval_request option" where
  "gate_get i g = map_of (ag_approvals g) i"

text \<open>The HTTP handler, after the body has been parsed; \<open>Resolved\<close> carries the event it records.\<close>

datatype route_answer = Not_found | Conflict | Resolved string string string event_body

definition decideApproval ::
    "string \<Rightarrow> gate_decision \<Rightarrow> string option \<Rightarrow> string \<Rightarrow> approval_gate \<Rightarrow> route_answer \<times> approval_gate" where
  "decideApproval i d reason now g = (case gate_get i g of
      None \<Rightarrow> (Not_found, g)
    | Some a \<Rightarrow> let (ok, g') = gate_decide i d reason now g in
        (if \<not> ok then Conflict
         else Resolved i (aq_thread a) (aq_turn a)
           (ApprovalResolved i (aq_tool a) (decision_status d) (Some (aq_summary a))), g'))"

section \<open>The user input gate\<close>

record input_answer =
  an_id :: string
  an_label :: string
  an_value :: string

datatype input_resolution = Submitted "input_answer list" | Cancelled "input_answer list option"

record input_request =
  ir_id :: string
  ir_thread :: string
  ir_turn :: string
  ir_item :: string
  ir_prompt :: string
  ir_questions :: "input_question list"

record input_gate =
  ig_requests :: "(string, input_request) jsmap"
  ig_resolvers :: "(string, nat) jsmap"
  ig_promises :: nat
  ig_settled :: "(nat \<times> input_resolution result) list"

definition empty_input_gate :: input_gate where
  "empty_input_gate = \<lparr>ig_requests = [], ig_resolvers = [], ig_promises = 0, ig_settled = []\<rparr>"

definition input_gate_request :: "input_request \<Rightarrow> input_gate \<Rightarrow> nat \<times> input_gate" where
  "input_gate_request r g = (ig_promises g, g\<lparr>ig_requests := AList.update (ir_id r) r (ig_requests g),
     ig_resolvers := AList.update (ir_id r) (ig_promises g) (ig_resolvers g),
     ig_promises := Suc (ig_promises g)\<rparr>)"

definition input_gate_get :: "string \<Rightarrow> input_gate \<Rightarrow> input_request option" where
  "input_gate_get i g = map_of (ig_requests g) i"

definition input_gate_resolve :: "string \<Rightarrow> input_resolution \<Rightarrow> input_gate \<Rightarrow> bool \<times> input_gate" where
  "input_gate_resolve i x g = (case map_of (ig_requests g) i of
      None \<Rightarrow> (False, g)
    | Some _ \<Rightarrow> (True, g\<lparr>ig_requests := AList.delete i (ig_requests g),
        ig_resolvers := AList.delete i (ig_resolvers g),
        ig_settled := ig_settled g @
          (case map_of (ig_resolvers g) i of None \<Rightarrow> [] | Some p \<Rightarrow> [(p, Inr x)])\<rparr>))"

definition input_gate_pending :: "string option \<Rightarrow> input_gate \<Rightarrow> input_request list" where
  "input_gate_pending thread g = filter (\<lambda>r. case truthy thread of None \<Rightarrow> True | Some t \<Rightarrow> ir_thread r = t)
     (map snd (ig_requests g))"

definition input_gate_reset :: "input_gate \<Rightarrow> input_gate" where
  "input_gate_reset g = g\<lparr>ig_requests := [], ig_resolvers := [],
     ig_settled := ig_settled g @ map (\<lambda>kv. (snd kv, throw ''user input gate reset'')) (ig_resolvers g)\<rparr>"

definition resolution_of :: "bool option \<Rightarrow> input_answer list option \<Rightarrow> input_resolution" where
  "resolution_of cancelled answers = (if cancelled = Some True then Cancelled None else Submitted (or_else answers []))"

datatype input_answered = Input_not_found | Input_conflict | Input_resolved string input_resolution

definition resolveUserInput ::
    "string \<Rightarrow> bool option \<Rightarrow> input_answer list option \<Rightarrow> input_gate \<Rightarrow> input_answered \<times> input_gate" where
  "resolveUserInput i cancelled answers g = (case input_gate_get i g of
      None \<Rightarrow> (Input_not_found, g)
    | Some _ \<Rightarrow> let x = resolution_of cancelled answers; (ok, g') = input_gate_resolve i x g in
        (if ok then Input_resolved i x else Input_conflict, g'))"

section \<open>Approvals are answered once\<close>

datatype gate_op = Ask approval_request | Decide string gate_decision "string option" string

fun gate_step :: "gate_op \<Rightarrow> approval_gate \<Rightarrow> approval_gate" where
  "gate_step (Ask a) g = snd (gate_request a g)"
| "gate_step (Decide i d r n) g = snd (gate_decide i d r n g)"

fun first_decision :: "string \<Rightarrow> gate_op list \<Rightarrow> gate_decision option" where
  "first_decision i [] = None"
| "first_decision i (Decide j d r n # xs) = (if j = i then Some d else first_decision i xs)"
| "first_decision i (Ask a # xs) = first_decision i xs"

definition asks :: "string \<Rightarrow> gate_op \<Rightarrow> bool" where
  "asks i x = (case x of Ask a \<Rightarrow> aq_id a = i | Decide _ _ _ _ \<Rightarrow> False)"

definition gate_ok :: "approval_gate \<Rightarrow> bool" where
  "gate_ok g \<longleftrightarrow> (\<forall>i p. map_of (ag_resolvers g) i = Some p \<longrightarrow> p < ag_promises g \<and> p \<notin> fst ` set (ag_settled g)) \<and>
     (\<forall>i j p. map_of (ag_resolvers g) i = Some p \<longrightarrow> map_of (ag_resolvers g) j = Some p \<longrightarrow> i = j) \<and>
     (\<forall>p \<in> fst ` set (ag_settled g). p < ag_promises g) \<and> distinct (map fst (ag_settled g))"

lemma gate_step_ok: "gate_ok g \<Longrightarrow> gate_ok (gate_step x g)"
proof (cases x)
  case (Ask a)
  assume g: "gate_ok g"
  show ?thesis unfolding gate_ok_def
    using g by (auto simp: Ask gate_ok_def gate_request_def less_Suc_eq split: if_splits)
next
  case (Decide i d r n)
  assume g: "gate_ok g"
  show ?thesis
  proof (cases "map_of (ag_approvals g) i")
    case None
    then show ?thesis using g by (simp add: Decide gate_decide_def)
  next
    case (Some a)
    then show ?thesis using g
      by (auto simp: Decide gate_ok_def gate_decide_def split: option.splits if_splits)
  qed
qed

lemma gate_steps_ok: "gate_ok g \<Longrightarrow> gate_ok (fold gate_step xs g)"
  by (induction xs arbitrary: g) (simp_all add: gate_step_ok)

lemma settled_stays:
  assumes "gate_ok g" and "(p, d) \<in> set (ag_settled g)"
  shows "(p, d) \<in> set (ag_settled (fold gate_step xs g))"
  using assms
proof (induction xs arbitrary: g)
  case (Cons x xs)
  have "(p, d) \<in> set (ag_settled (gate_step x g))"
    using Cons.prems(2) by (cases x) (auto simp: gate_request_def gate_decide_def split: option.split)
  with Cons show ?case by (simp add: gate_step_ok)
qed simp

lemma open_promise:
  assumes "gate_ok g" and "map_of (ag_resolvers g) i = Some p" and "map_of (ag_approvals g) i = Some a"
    and "\<forall>x \<in> set xs. \<not> asks i x"
  shows "map_of (ag_settled (fold gate_step xs g)) p = first_decision i xs"
  using assms
proof (induction xs arbitrary: g a)
  case Nil
  then have "p \<notin> fst ` set (ag_settled g)" by (simp add: gate_ok_def)
  then show ?case by (simp add: map_of_eq_None_iff)
next
  case (Cons x xs)
  have ok: "gate_ok (gate_step x g)" using Cons.prems(1) by (rule gate_step_ok)
  show ?case
  proof (cases x)
    case (Ask b)
    then have "aq_id b \<noteq> i" using Cons.prems(4) by (simp add: asks_def)
    then show ?thesis using Cons.IH[OF ok] Cons.prems Ask by (simp add: gate_request_def)
  next
    case (Decide j d r n)
    show ?thesis
    proof (cases "j = i")
      case True
      then have m: "(p, d) \<in> set (ag_settled (gate_step x g))"
        using Cons.prems(2,3) Decide by (simp add: gate_decide_def)
      have "distinct (map fst (ag_settled (fold gate_step xs (gate_step x g))))"
        using gate_steps_ok[OF ok] by (simp add: gate_ok_def)
      with settled_stays[OF ok m] have "map_of (ag_settled (fold gate_step xs (gate_step x g))) p = Some d"
        by simp
      then show ?thesis using True Decide by simp
    next
      case False
      then have "map_of (ag_resolvers (gate_step x g)) i = Some p" "map_of (ag_approvals (gate_step x g)) i = Some a"
        using Cons.prems(2,3) Decide by (simp_all add: gate_decide_def split: option.split)
      from Cons.IH[OF ok this] Cons.prems(4) False show ?thesis by (simp add: Decide)
    qed
  qed
qed

text \<open>
  A waiting tool call is answered exactly once and by the first decision on its approval. When the id
  of an approval is not asked for again, the promise of the request settles if and only if a decision
  with this id follows, with that decision, and later decisions never change it.
\<close>

theorem approval_answered_by_first_decision:
  assumes "\<forall>x \<in> set after. \<not> asks (aq_id a) x"
    and "gate_request a (fold gate_step before empty_gate) = (p, g)"
  shows "map_of (ag_settled (fold gate_step after g)) p = first_decision (aq_id a) after \<and>
    distinct (map fst (ag_settled (fold gate_step after g)))"
proof -
  have "gate_ok empty_gate" by (simp add: gate_ok_def empty_gate_def)
  then have before: "gate_ok (fold gate_step before empty_gate)" by (rule gate_steps_ok)
  have g: "g = gate_step (Ask a) (fold gate_step before empty_gate)" "p = ag_promises (fold gate_step before empty_gate)"
    using assms(2) by (auto simp: gate_request_def)
  have ok: "gate_ok g" unfolding g by (rule gate_step_ok[OF before])
  have "map_of (ag_resolvers g) (aq_id a) = Some p" "map_of (ag_approvals g) (aq_id a) = Some a"
    by (simp_all add: g gate_request_def)
  from open_promise[OF ok this assms(1)] gate_steps_ok[OF ok, of after] show ?thesis
    by (simp add: gate_ok_def)
qed

text \<open>
  The record of an approval is not protected in the same way. A second decision on a decided approval is
  accepted, rewrites the stored status and makes the handler record it as resolved once more, while the
  call it was about ran on the first decision; the handler's answer for approvals that were already
  decided is unreachable.
\<close>

theorem second_decision_overwrites:
  "let (first, g1) = decideApproval (aq_id a) d1 r1 n1 (snd (gate_request a g));
       (second, g2) = decideApproval (aq_id a) d2 r2 n2 g1
   in first = Resolved (aq_id a) (aq_thread a) (aq_turn a)
        (ApprovalResolved (aq_id a) (aq_tool a) (decision_status d1) (Some (aq_summary a))) \<and>
      second = Resolved (aq_id a) (aq_thread a) (aq_turn a)
        (ApprovalResolved (aq_id a) (aq_tool a) (decision_status d2) (Some (aq_summary a))) \<and>
      map_option aq_status (gate_get (aq_id a) g2) = Some (decision_status d2) \<and>
      ag_settled g2 = ag_settled g @ [(ag_promises g, d1)] \<and>
      fst (decideApproval i d r n h) \<noteq> Conflict"
  by (simp add: decideApproval_def gate_decide_def gate_request_def gate_get_def resolveApprovalRequest_def Let_def
      split: option.split)

section \<open>User inputs are answered once\<close>

datatype input_op = Ask_input input_request | Answer string "bool option" "input_answer list option" | Reset_inputs

fun input_step :: "input_op \<Rightarrow> input_gate \<Rightarrow> input_gate" where
  "input_step (Ask_input r) g = snd (input_gate_request r g)"
| "input_step (Answer i c answers) g = snd (resolveUserInput i c answers g)"
| "input_step Reset_inputs g = input_gate_reset g"

definition closes :: "string \<Rightarrow> input_op \<Rightarrow> input_resolution result option" where
  "closes i x = (case x of
      Answer j c answers \<Rightarrow> if j = i then Some (Inr (resolution_of c answers)) else None
    | Reset_inputs \<Rightarrow> Some (throw ''user input gate reset'')
    | Ask_input r \<Rightarrow> None)"

fun first_close :: "string \<Rightarrow> input_op list \<Rightarrow> input_resolution result option" where
  "first_close i [] = None"
| "first_close i (x # xs) = (case closes i x of None \<Rightarrow> first_close i xs | Some y \<Rightarrow> Some y)"

definition asks_input :: "string \<Rightarrow> input_op \<Rightarrow> bool" where
  "asks_input i x = (case x of Ask_input r \<Rightarrow> ir_id r = i | _ \<Rightarrow> False)"

definition inputs_ok :: "input_gate \<Rightarrow> bool" where
  "inputs_ok g \<longleftrightarrow> distinct (map fst (ig_resolvers g)) \<and> distinct (map snd (ig_resolvers g)) \<and>
     (\<forall>p \<in> snd ` set (ig_resolvers g). p < ig_promises g \<and> p \<notin> fst ` set (ig_settled g)) \<and>
     (\<forall>p \<in> fst ` set (ig_settled g). p < ig_promises g) \<and> distinct (map fst (ig_settled g))"

lemma values_update:
  "distinct (map snd m) \<Longrightarrow> v \<notin> snd ` set m \<Longrightarrow> distinct (map snd (AList.update k v m))"
proof (induction m)
  case (Cons kv m)
  have "snd ` set (AList.update k v m) \<subseteq> insert v (snd ` set m)" using set_update_subset[of k v m] by force
  with Cons show ?case by (cases kv) auto
qed simp

lemma set_delete_subset: "set (AList.delete k m) \<subseteq> set m"
  by (auto simp: AList.delete_eq)

lemma delete_value_gone:
  "distinct (map snd m) \<Longrightarrow> map_of m k = Some p \<Longrightarrow> p \<notin> snd ` set (AList.delete k m)"
proof (induction m)
  case (Cons kv m)
  have "p \<in> snd ` set m" if "map_of m k = Some p" using map_of_SomeD[OF that] by force
  with Cons set_delete_subset[of k m] show ?case by (cases kv) (auto split: if_splits)
qed simp

lemma inputs_ok_request:
  assumes "inputs_ok g"
  shows "inputs_ok (snd (input_gate_request r g))"
proof -
  have fresh: "ig_promises g \<notin> snd ` set (ig_resolvers g)" "ig_promises g \<notin> fst ` set (ig_settled g)"
    using assms by (auto simp: inputs_ok_def)
  have "q < Suc (ig_promises g) \<and> q \<notin> fst ` set (ig_settled g)"
    if "q \<in> snd ` set (AList.update (ir_id r) (ig_promises g) (ig_resolvers g))" for q
  proof -
    from that obtain kv where kv: "q = snd kv"
        "kv \<in> set (AList.update (ir_id r) (ig_promises g) (ig_resolvers g))" by (rule imageE)
    from subsetD[OF set_update_subset kv(2)] have "kv = (ir_id r, ig_promises g) \<or> kv \<in> set (ig_resolvers g)"
      by simp
    with kv(1) have "q = ig_promises g \<or> q \<in> snd ` set (ig_resolvers g)" by auto
    then show ?thesis using assms fresh(2) by (auto simp: inputs_ok_def less_Suc_eq)
  qed
  with assms values_update[OF _ fresh(1), of "ir_id r"] show ?thesis
    by (auto simp: inputs_ok_def input_gate_request_def distinct_update less_Suc_eq)
qed

lemma inputs_ok_answer:
  assumes "inputs_ok g"
  shows "inputs_ok (snd (input_gate_resolve i x g))"
proof (cases "map_of (ig_requests g) i")
  case (Some q)
  let ?rest = "AList.delete i (ig_resolvers g)"
  have d: "distinct (map fst ?rest)" "distinct (map snd ?rest)"
    using assms by (simp_all add: inputs_ok_def distinct_delete AList.delete_eq distinct_map_filter)
  have sub: "\<forall>p \<in> snd ` set ?rest. p < ig_promises g \<and> p \<notin> fst ` set (ig_settled g)"
    using assms set_delete_subset[of i "ig_resolvers g"] by (auto simp: inputs_ok_def)
  have old: "\<forall>p \<in> fst ` set (ig_settled g). p < ig_promises g" "distinct (map fst (ig_settled g))"
    using assms by (simp_all add: inputs_ok_def)
  show ?thesis
  proof (cases "map_of (ig_resolvers g) i")
    case None
    then show ?thesis using Some d sub old by (simp add: inputs_ok_def input_gate_resolve_def)
  next
    case open_one: (Some p)
    have "p < ig_promises g" "p \<notin> fst ` set (ig_settled g)"
      using assms map_of_SomeD[OF open_one] by (force simp: inputs_ok_def)+
    moreover have "p \<notin> snd ` set ?rest"
      using assms open_one by (intro delete_value_gone) (simp_all add: inputs_ok_def)
    ultimately show ?thesis using Some open_one d sub old
      by (simp add: inputs_ok_def input_gate_resolve_def) blast
  qed
qed (use assms in \<open>simp add: input_gate_resolve_def\<close>)

lemma inputs_ok_reset: "inputs_ok g \<Longrightarrow> inputs_ok (input_gate_reset g)"
  unfolding inputs_ok_def by (auto simp: input_gate_reset_def comp_def image_iff) (metis image_eqI fst_conv snd_conv)

lemma snd_resolveUserInput:
  "snd (resolveUserInput i c answers g) = snd (input_gate_resolve i (resolution_of c answers) g)"
  by (simp add: resolveUserInput_def input_gate_get_def input_gate_resolve_def Let_def split: option.split)

lemma input_step_ok: "inputs_ok g \<Longrightarrow> inputs_ok (input_step x g)"
  by (cases x) (simp_all add: inputs_ok_request inputs_ok_answer inputs_ok_reset snd_resolveUserInput)

lemma input_steps_ok: "inputs_ok g \<Longrightarrow> inputs_ok (fold input_step xs g)"
  by (induction xs arbitrary: g) (simp_all add: input_step_ok)

lemma input_settled_stays:
  assumes "m \<in> set (ig_settled g)"
  shows "m \<in> set (ig_settled (fold input_step xs g))"
  using assms
proof (induction xs arbitrary: g)
  case (Cons x xs)
  then have "m \<in> set (ig_settled (input_step x g))"
    by (cases x) (auto simp: input_gate_request_def snd_resolveUserInput input_gate_resolve_def
        input_gate_reset_def split: option.split)
  with Cons show ?case by simp
qed simp

lemma open_input:
  assumes "inputs_ok g" and "map_of (ig_resolvers g) i = Some p" and "map_of (ig_requests g) i = Some r"
    and "\<forall>x \<in> set xs. \<not> asks_input i x"
  shows "map_of (ig_settled (fold input_step xs g)) p = first_close i xs"
  using assms
proof (induction xs arbitrary: g)
  case Nil
  then have "p \<notin> fst ` set (ig_settled g)" using map_of_SomeD[OF Nil.prems(2)] by (force simp: inputs_ok_def)
  then show ?case by (simp add: map_of_eq_None_iff)
next
  case (Cons x xs)
  have ok: "inputs_ok (input_step x g)" using Cons.prems(1) by (rule input_step_ok)
  show ?case
  proof (cases "closes i x")
    case None
    then have "map_of (ig_resolvers (input_step x g)) i = Some p" "map_of (ig_requests (input_step x g)) i = Some r"
      using Cons.prems(2-4)
      by (auto simp: closes_def asks_input_def input_gate_request_def snd_resolveUserInput input_gate_resolve_def
          split: input_op.splits option.splits if_splits)
    from Cons.IH[OF ok this] Cons.prems(4) None show ?thesis by simp
  next
    case (Some y)
    then have m: "(p, y) \<in> set (ig_settled (input_step x g))"
      using Cons.prems(2,3) map_of_SomeD[OF Cons.prems(2)]
      by (force simp: closes_def snd_resolveUserInput input_gate_resolve_def input_gate_reset_def
          split: input_op.splits if_splits)
    have "distinct (map fst (ig_settled (fold input_step xs (input_step x g))))"
      using input_steps_ok[OF ok] by (simp add: inputs_ok_def)
    with input_settled_stays[OF m] Some show ?thesis by simp
  qed
qed

text \<open>
  A question to the user ends exactly once: with the first answer or cancellation under its id or with
  the reset of the gate, whichever comes first, when the id is not asked again.
\<close>

theorem user_input_closed_once:
  assumes "\<forall>x \<in> set after. \<not> asks_input (ir_id r) x"
    and "input_gate_request r (fold input_step before empty_input_gate) = (p, g)"
  shows "map_of (ig_settled (fold input_step after g)) p = first_close (ir_id r) after \<and>
    distinct (map fst (ig_settled (fold input_step after g)))"
proof -
  have "inputs_ok empty_input_gate" by (simp add: inputs_ok_def empty_input_gate_def)
  then have before: "inputs_ok (fold input_step before empty_input_gate)" by (rule input_steps_ok)
  have g: "g = input_step (Ask_input r) (fold input_step before empty_input_gate)"
    "p = ig_promises (fold input_step before empty_input_gate)"
    using assms(2) by (auto simp: input_gate_request_def)
  have ok: "inputs_ok g" unfolding g by (rule input_step_ok[OF before])
  have "map_of (ig_resolvers g) (ir_id r) = Some p" "map_of (ig_requests g) (ir_id r) = Some r"
    by (simp_all add: g input_gate_request_def)
  from open_input[OF ok this assms(1)] input_steps_ok[OF ok, of after] show ?thesis
    by (simp add: inputs_ok_def)
qed

section \<open>Sample gates\<close>

definition sample_approval :: approval_request where
  "sample_approval = createApprovalRequest ''a'' ''t'' ''u'' ''bash'' ''s'' None ''0''"

theorem approval_answered_by_first_decision_witness:
  "map_of (ag_settled (fold gate_step [Decide ''a'' Allow_call None ''1'', Decide ''a'' Deny_call None ''2'']
     (snd (gate_request sample_approval empty_gate)))) 0 = Some Allow_call"
proof -
  let ?after = "[Decide ''a'' Allow_call None ''1'', Decide ''a'' Deny_call None ''2'']"
  have "\<forall>x \<in> set ?after. \<not> asks (aq_id sample_approval) x"
    and "gate_request sample_approval (fold gate_step [] empty_gate) = (0, snd (gate_request sample_approval empty_gate))"
    by (simp_all add: asks_def gate_request_def empty_gate_def)
  from approval_answered_by_first_decision[OF this] show ?thesis
    by (simp add: sample_approval_def createApprovalRequest_def)
qed

definition sample_question :: input_request where
  "sample_question = \<lparr>ir_id = ''q'', ir_thread = ''t'', ir_turn = ''u'', ir_item = ''i'', ir_prompt = ''p'',
     ir_questions = []\<rparr>"

theorem user_input_closed_once_witness:
  "map_of (ig_settled (fold input_step [Answer ''q'' (Some True) None, Reset_inputs]
     (snd (input_gate_request sample_question empty_input_gate)))) 0 = Some (Inr (Cancelled None))"
proof -
  let ?after = "[Answer ''q'' (Some True) None, Reset_inputs]"
  have "\<forall>x \<in> set ?after. \<not> asks_input (ir_id sample_question) x"
    and "input_gate_request sample_question (fold input_step [] empty_input_gate) =
      (0, snd (input_gate_request sample_question empty_input_gate))"
    by (simp_all add: asks_input_def input_gate_request_def empty_input_gate_def)
  from user_input_closed_once[OF this] show ?thesis
    by (simp add: sample_question_def closes_def resolution_of_def)
qed

end
