(* ===== verification/EventBoundary.thy ===== *)
theory EventBoundary
  imports SessionStore
begin

text \<open>
  The boundary every runtime event passes: the bus with its subscribers and its allocator of numbers
  (\<open>adapter-storage/src/in-memory-event-bus.ts\<close>), the recorder that stamps, checks, publishes and persists
  an event (\<open>services/src/runtime-event-recorder.ts\<close>) and the event stream of the HTTP layer that
  replays the log and then follows the bus (\<open>http/src/routes/events.ts\<close>).

  A call of \<open>record\<close> runs in two atomic pieces: it allocates a number and asks the store for the highest
  persisted one; once that answer has arrived it stamps, publishes and appends. Between both pieces
  other calls run. Handlers on the bus are numbered streams.
\<close>

section \<open>The bus\<close>

record event_bus =
  eb_events :: "(string, runtime_event list) jsmap"
  eb_subscribers :: "(string, nat list) jsmap"
  eb_next :: "(string, nat) jsmap"

definition empty_bus :: event_bus where
  "empty_bus = \<lparr>eb_events = [], eb_subscribers = [], eb_next = []\<rparr>"

text \<open>The bus afterwards and the handlers called, in order.\<close>

definition bus_publish :: "runtime_event \<Rightarrow> event_bus \<Rightarrow> nat list \<times> event_bus" where
  "bus_publish e b = (get_or [] (eb_subscribers b) (ev_thread e),
     b\<lparr>eb_events := AList.update (ev_thread e) (get_or [] (eb_events b) (ev_thread e) @ [e]) (eb_events b)\<rparr>)"

definition bus_subscribe :: "string \<Rightarrow> nat \<Rightarrow> event_bus \<Rightarrow> event_bus" where
  "bus_subscribe t h b = (let hs = get_or [] (eb_subscribers b) t in
     b\<lparr>eb_subscribers := AList.update t (if h \<in> set hs then hs else hs @ [h]) (eb_subscribers b)\<rparr>)"

definition bus_unsubscribe :: "string \<Rightarrow> nat \<Rightarrow> event_bus \<Rightarrow> event_bus" where
  "bus_unsubscribe t h b = b\<lparr>eb_subscribers :=
     AList.update t (removeAll h (get_or [] (eb_subscribers b) t)) (eb_subscribers b)\<rparr>"

definition snapshotSince :: "string \<Rightarrow> int \<Rightarrow> event_bus \<Rightarrow> runtime_event list" where
  "snapshotSince t since b = filter (\<lambda>e. since < int (ev_seq e)) (get_or [] (eb_events b) t)"

definition bus_highestSeq :: "string \<Rightarrow> event_bus \<Rightarrow> nat" where
  "bus_highestSeq t b = max_seq (map ev_seq (get_or [] (eb_events b) t))"

definition last_allocated :: "string \<Rightarrow> event_bus \<Rightarrow> nat" where
  "last_allocated t b = (case map_of (eb_next b) t of None \<Rightarrow> bus_highestSeq t b | Some n \<Rightarrow> n)"

definition allocateSeq :: "string \<Rightarrow> event_bus \<Rightarrow> nat \<times> event_bus" where
  "allocateSeq t b = (let n = last_allocated t b + 1 in (n, b\<lparr>eb_next := AList.update t n (eb_next b)\<rparr>))"

definition bus_reset :: "event_bus \<Rightarrow> event_bus" where
  "bus_reset b = empty_bus"

section \<open>The recorder\<close>

record event_draft =
  dr_seq :: "nat option"
  dr_time :: "string option"
  dr_thread :: string
  dr_turn :: "string option"
  dr_item :: "string option"
  dr_child :: "event_child option"
  dr_body :: event_body

text \<open>The schema trims the fields of a review target; everything else it only checks.\<close>

fun trim_target :: "review_target \<Rightarrow> review_target" where
  "trim_target UncommittedChanges = UncommittedChanges"
| "trim_target (BaseBranch s) = BaseBranch (trim s)"
| "trim_target (CommitTarget s) = CommitTarget (trim s)"
| "trim_target (CustomReview s) = CustomReview (trim s)"

fun clean_body :: "item_body \<Rightarrow> item_body" where
  "clean_body (Review s t title text out) = Review s (trim_target t) title text out"
| "clean_body b = b"

fun clean_event_body :: "event_body \<Rightarrow> event_body" where
  "clean_event_body (ItemEvent k x) = ItemEvent k (x\<lparr>ti_body := clean_body (ti_body x)\<rparr>)"
| "clean_event_body b = b"

definition parse_runtime_event :: "runtime_event \<Rightarrow> runtime_event result" where
  "parse_runtime_event e = (let e' = e\<lparr>ev_body := clean_event_body (ev_body e)\<rparr> in
     if event_ok e' then Inr e' else Inl ZodError)"

record pending_record =
  pn_draft :: event_draft
  pn_allocated :: nat
  pn_persisted :: nat

definition record_begin :: "event_draft \<Rightarrow> session_store \<Rightarrow> event_bus \<Rightarrow> pending_record \<times> event_bus" where
  "record_begin d st b = (let (n, b') = allocateSeq (dr_thread d) b in
     (\<lparr>pn_draft = d, pn_allocated = n, pn_persisted = highestSeq (dr_thread d) st\<rparr>, b'))"

definition stamp_event :: "string \<Rightarrow> pending_record \<Rightarrow> runtime_event" where
  "stamp_event now p = (let d = pn_draft p in
     \<lparr>ev_seq = or_else (dr_seq d) (max (pn_allocated p) (pn_persisted p + 1)),
      ev_time = or_else (dr_time d) now, ev_thread = dr_thread d, ev_turn = dr_turn d, ev_item = dr_item d,
      ev_child = dr_child d, ev_body = dr_body d\<rparr>)"

definition is_usage_event :: "runtime_event \<Rightarrow> bool" where
  "is_usage_event e = (case ev_body e of UsageEvent _ _ \<Rightarrow> True | _ \<Rightarrow> False)"

record recorder_world =
  rw_bus :: event_bus
  rw_store :: session_store
  rw_usage :: "runtime_event list"

definition record_finish ::
    "string \<Rightarrow> pending_record \<Rightarrow> recorder_world \<Rightarrow> (runtime_event \<times> nat list) result \<times> recorder_world" where
  "record_finish now p w = (case parse_runtime_event (stamp_event now p) of
      Inl err \<Rightarrow> (Inl err, w)
    | Inr e \<Rightarrow>
        let (hs, b) = bus_publish e (rw_bus w)
        in (Inr (e, hs), w\<lparr>rw_bus := b, rw_store := appendEvent (ev_thread e) e now (rw_store w),
              rw_usage := rw_usage w @ (if is_usage_event e then [e] else [])\<rparr>))"

definition record_event ::
    "string \<Rightarrow> event_draft \<Rightarrow> recorder_world \<Rightarrow> (runtime_event \<times> nat list) result \<times> recorder_world" where
  "record_event now d w = (let (p, b) = record_begin d (rw_store w) (rw_bus w)
     in record_finish now p (w\<lparr>rw_bus := b\<rparr>))"

text \<open>The queue of \<open>recordOnce\<close> lets one such call run at a time.\<close>

definition record_once ::
    "string \<Rightarrow> event_draft \<Rightarrow> (runtime_event \<Rightarrow> bool) \<Rightarrow> recorder_world \<Rightarrow> runtime_event result \<times> recorder_world" where
  "record_once now d matches w = (case List.find matches (loadEventsSince (dr_thread d) 0 (rw_store w)) of
      Some e \<Rightarrow> (Inr e, w)
    | None \<Rightarrow> let (r, w') = record_event now d w in (bind_result r (\<lambda>er. Inr (fst er)), w'))"

section \<open>Event streams\<close>

record event_stream =
  es_thread :: string
  es_since :: int
  es_closed :: bool
  es_backlog :: "runtime_event list"
  es_sent :: "runtime_event list"

text \<open>\<open>Number(query) || Number(header)\<close>: the query when it is not zero.\<close>

definition stream_since :: "int \<Rightarrow> int \<Rightarrow> int" where
  "stream_since query_seq header_seq = (if query_seq \<noteq> 0 then query_seq else header_seq)"

definition deliver :: "runtime_event \<Rightarrow> event_stream \<Rightarrow> event_stream" where
  "deliver e s = (if es_closed s then s else s\<lparr>es_sent := es_sent s @ [e]\<rparr>)"

text \<open>
  The stream of a client loads the log, sends it and subscribes. Loading is a piece of its own, because
  the handler waits for the store; a client that is gone by then makes the sending throw, which ends the
  handler before it subscribes, unless there is nothing to send. A heartbeat takes a number from the
  allocator and is sent to its own client only.
\<close>

record boundary =
  bd_world :: recorder_world
  bd_pending :: "pending_record list"
  bd_streams :: "event_stream list"
  bd_published :: "runtime_event list"

datatype boundary_move =
    Begin event_draft
  | Finish nat string
  | Load_stream string int
  | Follow nat
  | Close nat
  | Heartbeat_tick nat string

definition load_log :: "string \<Rightarrow> int \<Rightarrow> boundary \<Rightarrow> boundary" where
  "load_log t since w = w\<lparr>bd_streams := bd_streams w @ [\<lparr>es_thread = t, es_since = since, es_closed = False,
     es_backlog = loadEventsSince t since (rw_store (bd_world w)), es_sent = []\<rparr>]\<rparr>"

definition follow_bus :: "nat \<Rightarrow> boundary \<Rightarrow> boundary" where
  "follow_bus n w = (let s = bd_streams w ! n in
     if es_closed s \<and> es_backlog s \<noteq> [] then w
     else w\<lparr>bd_streams := (bd_streams w)[n := s\<lparr>es_sent := es_sent s @ es_backlog s\<rparr>],
       bd_world := (bd_world w)\<lparr>rw_bus := bus_subscribe (es_thread s) n (rw_bus (bd_world w))\<rparr>\<rparr>)"

definition close_stream :: "nat \<Rightarrow> boundary \<Rightarrow> boundary" where
  "close_stream n w = w\<lparr>bd_streams := (bd_streams w)[n := (bd_streams w ! n)\<lparr>es_closed := True\<rparr>],
     bd_world := (bd_world w)\<lparr>rw_bus := bus_unsubscribe (es_thread (bd_streams w ! n)) n (rw_bus (bd_world w))\<rparr>\<rparr>"

definition heartbeat_event :: "string \<Rightarrow> string \<Rightarrow> nat \<Rightarrow> runtime_event" where
  "heartbeat_event t now n = \<lparr>ev_seq = n, ev_time = now, ev_thread = t, ev_turn = None, ev_item = None,
     ev_child = None, ev_body = Heartbeat\<rparr>"

definition send_heartbeat :: "nat \<Rightarrow> string \<Rightarrow> boundary \<Rightarrow> boundary" where
  "send_heartbeat n now w = (let s = bd_streams w ! n; t = es_thread s in
     if es_closed s then w
     else let (k, b) = allocateSeq t (rw_bus (bd_world w)) in
       w\<lparr>bd_world := (bd_world w)\<lparr>rw_bus := b\<rparr>,
         bd_streams := (bd_streams w)[n := deliver (heartbeat_event t now k) s]\<rparr>)"

definition finish_record :: "nat \<Rightarrow> string \<Rightarrow> boundary \<Rightarrow> boundary" where
  "finish_record n now w = (let p = bd_pending w ! n; rest = take n (bd_pending w) @ drop (Suc n) (bd_pending w) in
     case record_finish now p (bd_world w) of
       (Inl err, v) \<Rightarrow> w\<lparr>bd_pending := rest, bd_world := v\<rparr>
     | (Inr (e, hs), v) \<Rightarrow> w\<lparr>bd_pending := rest, bd_world := v, bd_published := bd_published w @ [e],
         bd_streams := map (\<lambda>(k, s). if k \<in> set hs then deliver e s else s) (enumerate 0 (bd_streams w))\<rparr>)"

fun boundary_step :: "boundary_move \<Rightarrow> boundary \<Rightarrow> boundary" where
  "boundary_step (Begin d) w = (let (p, b) = record_begin d (rw_store (bd_world w)) (rw_bus (bd_world w))
     in w\<lparr>bd_world := (bd_world w)\<lparr>rw_bus := b\<rparr>, bd_pending := bd_pending w @ [p]\<rparr>)"
| "boundary_step (Finish n now) w = (if n < length (bd_pending w) then finish_record n now w else w)"
| "boundary_step (Load_stream t since) w = load_log t since w"
| "boundary_step (Follow n) w = (if n < length (bd_streams w) then follow_bus n w else w)"
| "boundary_step (Close n) w = (if n < length (bd_streams w) then close_stream n w else w)"
| "boundary_step (Heartbeat_tick n now) w = (if n < length (bd_streams w) then send_heartbeat n now w else w)"

definition initial_boundary :: "session_store \<Rightarrow> event_bus \<Rightarrow> boundary" where
  "initial_boundary st b = \<lparr>bd_world = \<lparr>rw_bus = b, rw_store = st, rw_usage = []\<rparr>, bd_pending = [],
     bd_streams = [], bd_published = []\<rparr>"

definition boundary_run :: "boundary_move list \<Rightarrow> boundary \<Rightarrow> boundary" where
  "boundary_run xs w = fold boundary_step xs w"

definition log_of :: "string \<Rightarrow> boundary \<Rightarrow> runtime_event list" where
  "log_of t w = events_of (rw_store (bd_world w)) t"

definition published_in :: "string \<Rightarrow> boundary \<Rightarrow> runtime_event list" where
  "published_in t w = filter (\<lambda>e. ev_thread e = t) (bd_published w)"

definition unnumbered :: "boundary_move list \<Rightarrow> bool" where
  "unnumbered xs \<longleftrightarrow> (\<forall>d. Begin d \<in> set xs \<longrightarrow> dr_seq d = None)"

section \<open>Numbers are never shared\<close>

definition allocator_ahead :: "session_store \<Rightarrow> event_bus \<Rightarrow> bool" where
  "allocator_ahead st b \<longleftrightarrow> (\<forall>t. highestSeq t st \<le> last_allocated t b)"

definition pending_ok :: "boundary \<Rightarrow> pending_record \<Rightarrow> bool" where
  "pending_ok w p \<longleftrightarrow> (let t = dr_thread (pn_draft p) in dr_seq (pn_draft p) = None \<and>
     pn_persisted p < pn_allocated p \<and> pn_allocated p \<notin> ev_seq ` set (log_of t w) \<and>
     (\<exists>n. map_of (eb_next (rw_bus (bd_world w))) t = Some n \<and> pn_allocated p \<le> n))"

definition place_of :: "pending_record \<Rightarrow> string \<times> nat" where
  "place_of p = (dr_thread (pn_draft p), pn_allocated p)"

definition boundary_ok :: "boundary \<Rightarrow> bool" where
  "boundary_ok w \<longleftrightarrow> allocator_ahead (rw_store (bd_world w)) (rw_bus (bd_world w)) \<and>
     list_all (pending_ok w) (bd_pending w) \<and> distinct (map place_of (bd_pending w)) \<and>
     (\<forall>t. distinct (map ev_seq (published_in t w)) \<and> set (published_in t w) \<subseteq> set (log_of t w))"

lemma bus_highestSeq_other [simp]:
  "bus_highestSeq t (b\<lparr>eb_next := x\<rparr>) = bus_highestSeq t b"
  "bus_highestSeq t (b\<lparr>eb_subscribers := y\<rparr>) = bus_highestSeq t b"
  by (simp_all add: bus_highestSeq_def)

lemma last_allocated_allocate:
  "last_allocated t (snd (allocateSeq u b)) = (if t = u then Suc (last_allocated t b) else last_allocated t b)"
  "fst (allocateSeq u b) = Suc (last_allocated u b)"
  "map_of (eb_next (snd (allocateSeq u b))) t = (if t = u then Some (Suc (last_allocated u b)) else map_of (eb_next b) t)"
  "eb_subscribers (snd (allocateSeq u b)) = eb_subscribers b"
  by (simp_all add: allocateSeq_def last_allocated_def Let_def split: option.split)

lemma last_allocated_bus:
  "last_allocated t (bus_subscribe u h b) = last_allocated t b" "eb_next (bus_subscribe u h b) = eb_next b"
  "last_allocated t (bus_unsubscribe u h b) = last_allocated t b" "eb_next (bus_unsubscribe u h b) = eb_next b"
  "eb_next (snd (bus_publish e b)) = eb_next b" "eb_subscribers (snd (bus_publish e b)) = eb_subscribers b"
  by (simp_all add: last_allocated_def bus_subscribe_def bus_unsubscribe_def bus_publish_def Let_def split: option.split)

lemma max_seq_append: "max_seq (xs @ [x]) = max (max_seq xs) x"
  by (simp add: max_seq_def max.commute)

lemma last_allocated_publish:
  "last_allocated t (snd (bus_publish e b)) \<ge> last_allocated t b"
  by (simp add: last_allocated_def bus_publish_def bus_highestSeq_def max_seq_append split: option.split)

lemma highestSeq_ge: "e \<in> set (events_of st t) \<Longrightarrow> ev_seq e \<le> highestSeq t st"
  by (simp add: highestSeq_def max_seq_ge)

lemma highestSeq_appendEvent:
  "ev_seq e \<notin> ev_seq ` set (events_of st t) \<Longrightarrow>
     highestSeq u (appendEvent t e now st) = (if u = t then max (highestSeq t st) (ev_seq e) else highestSeq u st)"
  by (auto simp: highestSeq_def events_of_appendEvent add_event_def max_seq_append image_iff)

lemma parse_runtime_event_fields:
  "parse_runtime_event e = Inr e' \<Longrightarrow> ev_seq e' = ev_seq e \<and> ev_thread e' = ev_thread e"
  by (auto simp: parse_runtime_event_def Let_def split: if_splits)

lemma record_finish_cases:
  obtains (refused) err where "record_finish now p w = (Inl err, w)"
    | (recorded) e where "parse_runtime_event (stamp_event now p) = Inr e"
        and "record_finish now p w = (Inr (e, fst (bus_publish e (rw_bus w))), w\<lparr>rw_bus := snd (bus_publish e (rw_bus w)),
          rw_store := appendEvent (ev_thread e) e now (rw_store w),
          rw_usage := rw_usage w @ (if is_usage_event e then [e] else [])\<rparr>)"
  by (cases "parse_runtime_event (stamp_event now p)")
    (auto simp: record_finish_def case_prod_beta Let_def)

lemma pending_ok_cong:
  "log_of (dr_thread (pn_draft p)) w' = log_of (dr_thread (pn_draft p)) w \<Longrightarrow>
   eb_next (rw_bus (bd_world w')) = eb_next (rw_bus (bd_world w)) \<Longrightarrow> pending_ok w' p = pending_ok w p"
  by (simp add: pending_ok_def Let_def)

lemma boundary_ok_begin:
  assumes w: "boundary_ok w" and d: "dr_seq d = None"
  shows "boundary_ok (boundary_step (Begin d) w)"
proof -
  define v where "v = boundary_step (Begin d) w"
  let ?t = "dr_thread d" and ?b = "rw_bus (bd_world w)"
  define q0 where "q0 = \<lparr>pn_draft = d, pn_allocated = Suc (last_allocated ?t ?b),
        pn_persisted = highestSeq ?t (rw_store (bd_world w))\<rparr>"
  have "record_begin d (rw_store (bd_world w)) ?b = (q0, snd (allocateSeq ?t ?b))"
    by (simp add: record_begin_def q0_def case_prod_beta Let_def last_allocated_allocate)
  then have v: "bd_pending v = bd_pending w @ [q0]" "bd_published v = bd_published w"
    "rw_store (bd_world v) = rw_store (bd_world w)" "rw_bus (bd_world v) = snd (allocateSeq ?t ?b)"
    by (simp_all add: v_def)
  have hi: "highestSeq t (rw_store (bd_world w)) \<le> last_allocated t ?b" for t
    using w by (simp add: boundary_ok_def allocator_ahead_def)
  have old: "pending_ok v q \<and> place_of q \<noteq> place_of q0" if q: "q \<in> set (bd_pending w)" for q
  proof -
    from w q have ok: "pending_ok w q" by (simp add: boundary_ok_def list_all_iff)
    then obtain n where n: "map_of (eb_next ?b) (dr_thread (pn_draft q)) = Some n" "pn_allocated q \<le> n"
      by (auto simp: pending_ok_def Let_def)
    then have "last_allocated (dr_thread (pn_draft q)) ?b = n" by (simp add: last_allocated_def)
    with n ok show ?thesis
      by (auto simp: pending_ok_def Let_def last_allocated_allocate log_of_def place_of_def q0_def v)
  qed
  have "Suc (last_allocated ?t ?b) \<notin> ev_seq ` set (log_of ?t w)"
    using hi[of ?t] highestSeq_ge[of _ "rw_store (bd_world w)" ?t] by (force simp: log_of_def)
  then have new: "pending_ok v q0"
    using d hi[of ?t] by (simp add: pending_ok_def q0_def last_allocated_allocate log_of_def le_imp_less_Suc v)
  have "place_of q0 \<notin> place_of ` set (bd_pending w)" using old by (metis imageE)
  then have "distinct (map place_of (bd_pending v))" using w by (simp add: boundary_ok_def v)
  moreover have "allocator_ahead (rw_store (bd_world v)) (rw_bus (bd_world v))"
    using hi by (auto simp: v allocator_ahead_def last_allocated_allocate intro: le_SucI)
  moreover have "list_all (pending_ok v) (bd_pending v)"
    using old new by (simp add: list_all_iff v)
  moreover have "distinct (map ev_seq (published_in t v)) \<and> set (published_in t v) \<subseteq> set (log_of t v)" for t
    using w by (simp add: v boundary_ok_def published_in_def log_of_def)
  ultimately have "boundary_ok v" by (simp add: boundary_ok_def)
  then show ?thesis by (simp only: v_def)
qed

lemma distinct_split:
  "n < length xs \<Longrightarrow> distinct (map f xs) \<Longrightarrow>
     distinct (map f (take n xs @ drop (Suc n) xs)) \<and> f (xs ! n) \<notin> f ` set (take n xs @ drop (Suc n) xs)"
proof -
  assume n: "n < length xs" and d: "distinct (map f xs)"
  have "map f xs = map f (take n xs) @ f (xs ! n) # map f (drop (Suc n) xs)"
    using id_take_nth_drop[OF n] by (metis list.simps(9) map_append)
  with d have "distinct (map f (take n xs) @ f (xs ! n) # map f (drop (Suc n) xs))" by simp
  then show ?thesis by auto
qed

lemma boundary_ok_world:
  assumes "boundary_ok w" and "bd_pending w' = bd_pending w" and "bd_published w' = bd_published w"
    and "rw_store (bd_world w') = rw_store (bd_world w)"
    and "eb_next (rw_bus (bd_world w')) = eb_next (rw_bus (bd_world w))"
    and "\<And>t. last_allocated t (rw_bus (bd_world w')) = last_allocated t (rw_bus (bd_world w))"
  shows "boundary_ok w'"
proof -
  have "pending_ok w' = pending_ok w" using assms(4,5) by (intro ext) (simp add: pending_ok_def log_of_def Let_def)
  with assms show ?thesis by (simp add: boundary_ok_def allocator_ahead_def published_in_def log_of_def)
qed

lemma stamped_number: "pending_ok w p \<Longrightarrow> ev_seq (stamp_event now p) = pn_allocated p"
  by (simp add: pending_ok_def stamp_event_def Let_def)

lemma boundary_ok_finish:
  assumes w: "boundary_ok w" and n: "n < length (bd_pending w)"
  shows "boundary_ok (finish_record n now w)"
proof -
  let ?p = "bd_pending w ! n" and ?rest = "take n (bd_pending w) @ drop (Suc n) (bd_pending w)"
  have p: "pending_ok w ?p" using w n by (simp add: boundary_ok_def list_all_length)
  have rest: "list_all (pending_ok w) ?rest" "distinct (map place_of ?rest)" "place_of ?p \<notin> place_of ` set ?rest"
    using w n distinct_split[OF n, of place_of]
    by (auto simp: boundary_ok_def list_all_iff dest: in_set_takeD in_set_dropD)
  have hi: "highestSeq t (rw_store (bd_world w)) \<le> last_allocated t (rw_bus (bd_world w))" for t
    using w by (simp add: boundary_ok_def allocator_ahead_def)
  show ?thesis
  proof (cases rule: record_finish_cases[of now ?p "bd_world w"])
    case (refused err)
    have "pending_ok (finish_record n now w) = pending_ok w"
      using refused by (intro ext) (simp add: pending_ok_def log_of_def finish_record_def Let_def)
    with refused rest w show ?thesis
      by (simp add: boundary_ok_def finish_record_def published_in_def log_of_def Let_def)
  next
    case (recorded e)
    let ?w = "finish_record n now w" and ?t = "dr_thread (pn_draft ?p)" and ?st = "rw_store (bd_world w)"
    let ?b = "snd (bus_publish e (rw_bus (bd_world w)))"
    have e: "ev_seq e = pn_allocated ?p" "ev_thread e = ?t"
      using parse_runtime_event_fields[OF recorded(1)] stamped_number[OF p, of now]
      by (simp_all add: stamp_event_def Let_def)
    have fresh: "ev_seq e \<notin> ev_seq ` set (events_of ?st ?t)"
      using p e by (simp add: pending_ok_def log_of_def Let_def)
    have w': "bd_pending ?w = ?rest" "rw_store (bd_world ?w) = appendEvent ?t e now ?st"
      "rw_bus (bd_world ?w) = ?b" "bd_published ?w = bd_published w @ [e]"
      using recorded(2) e by (simp_all add: finish_record_def Let_def)
    have log: "log_of t ?w = (if t = ?t then log_of t w @ [e] else log_of t w)" for t
      using fresh by (auto simp: log_of_def w' events_of_appendEvent add_event_def image_iff)
    obtain m where m: "map_of (eb_next (rw_bus (bd_world w))) ?t = Some m" "ev_seq e \<le> m"
      using p e by (auto simp: pending_ok_def Let_def)
    have "highestSeq t (rw_store (bd_world ?w)) \<le> last_allocated t (rw_bus (bd_world ?w))" for t
      using hi[of t] m last_allocated_publish[of t "rw_bus (bd_world w)" e] fresh
      by (auto simp: w' highestSeq_appendEvent last_allocated_def)
    moreover have "pending_ok ?w q" if q: "q \<in> set ?rest" for q
    proof -
      have ok: "pending_ok w q" and other: "place_of q \<noteq> place_of ?p"
        using rest(1) q by (simp add: list_all_iff, metis imageI[OF q] rest(3))
      show ?thesis
        using ok other e by (auto simp: pending_ok_def Let_def log w' last_allocated_bus place_of_def)
    qed
    moreover have "distinct (map ev_seq (published_in t ?w)) \<and> set (published_in t ?w) \<subseteq> set (log_of t ?w)" for t
    proof -
      have old: "distinct (map ev_seq (published_in t w))" "set (published_in t w) \<subseteq> set (log_of t w)"
        using w by (simp_all add: boundary_ok_def)
      have pub: "published_in t ?w = (if t = ?t then published_in t w @ [e] else published_in t w)"
        using e by (simp add: published_in_def w')
      have "ev_seq e \<notin> ev_seq ` set (published_in ?t w)" if "t = ?t"
        using fresh old(2) that by (auto simp: log_of_def)
      with old show ?thesis by (auto simp: pub log)
    qed
    ultimately show ?thesis using rest(2)
      by (simp add: boundary_ok_def allocator_ahead_def w' list_all_iff)
  qed
qed

lemma boundary_ok_heartbeat: "boundary_ok w \<Longrightarrow> boundary_ok (send_heartbeat n now w)"
proof (cases "es_closed (bd_streams w ! n)")
  case False
  assume w: "boundary_ok w"
  let ?t = "es_thread (bd_streams w ! n)" and ?w = "send_heartbeat n now w"
  have w': "bd_pending ?w = bd_pending w" "bd_published ?w = bd_published w"
    "rw_store (bd_world ?w) = rw_store (bd_world w)"
    "rw_bus (bd_world ?w) = snd (allocateSeq ?t (rw_bus (bd_world w)))"
    using False by (simp_all add: send_heartbeat_def case_prod_beta Let_def)
  have "pending_ok ?w q" if q: "pending_ok w q" for q
  proof -
    obtain n where n: "map_of (eb_next (rw_bus (bd_world w))) (dr_thread (pn_draft q)) = Some n" "pn_allocated q \<le> n"
      using q by (auto simp: pending_ok_def Let_def)
    then have "last_allocated (dr_thread (pn_draft q)) (rw_bus (bd_world w)) = n" by (simp add: last_allocated_def)
    with n q show ?thesis by (auto simp: pending_ok_def Let_def w' last_allocated_allocate log_of_def)
  qed
  with w show ?thesis
    by (auto simp: boundary_ok_def allocator_ahead_def w' last_allocated_allocate published_in_def log_of_def
        list_all_iff intro: le_SucI)
qed (simp add: send_heartbeat_def Let_def)

lemma boundary_step_ok:
  assumes "boundary_ok w" and "\<forall>d. x = Begin d \<longrightarrow> dr_seq d = None"
  shows "boundary_ok (boundary_step x w)"
proof (cases x)
  case (Begin d)
  with assms boundary_ok_begin show ?thesis by blast
next
  case (Finish n now)
  with assms boundary_ok_finish show ?thesis by simp
next
  case (Load_stream t since)
  then show ?thesis
    using boundary_ok_world[OF assms(1), of "load_log t since w"] by (simp add: load_log_def)
next
  case (Follow n)
  then show ?thesis
    using boundary_ok_world[OF assms(1), of "follow_bus n w"] assms(1)
    by (simp add: follow_bus_def last_allocated_bus Let_def)
next
  case (Close n)
  then show ?thesis
    using boundary_ok_world[OF assms(1), of "close_stream n w"] assms(1)
    by (simp add: close_stream_def last_allocated_bus)
next
  case (Heartbeat_tick n now)
  with assms boundary_ok_heartbeat show ?thesis by simp
qed

lemma boundary_run_ok:
  assumes "boundary_ok w" and "unnumbered xs"
  shows "boundary_ok (boundary_run xs w)"
  using assms
proof (induction xs arbitrary: w)
  case (Cons x xs)
  have "boundary_ok (boundary_step x w)"
    using Cons.prems by (intro boundary_step_ok) (auto simp: unnumbered_def)
  moreover have "unnumbered xs" using Cons.prems(2) by (simp add: unnumbered_def)
  ultimately show ?case using Cons.IH by (simp add: boundary_run_def)
qed (simp add: boundary_run_def)

lemma initial_boundary_ok: "allocator_ahead st b \<Longrightarrow> boundary_ok (initial_boundary st b)"
  by (simp add: boundary_ok_def initial_boundary_def published_in_def)


section \<open>A followed stream misses nothing\<close>

definition subscribers :: "string \<Rightarrow> boundary \<Rightarrow> nat list" where
  "subscribers t w = get_or [] (eb_subscribers (rw_bus (bd_world w))) t"

definition subscribed_ok :: "boundary \<Rightarrow> bool" where
  "subscribed_ok w \<longleftrightarrow> (\<forall>t. \<forall>h \<in> set (subscribers t w). h < length (bd_streams w) \<and> es_thread (bd_streams w ! h) = t) \<and>
     (\<forall>t. distinct (map ev_seq (log_of t w)))"

definition recorded_part :: "event_stream \<Rightarrow> runtime_event list" where
  "recorded_part s = filter (\<lambda>e. ev_body e \<noteq> Heartbeat) (es_sent s)"

definition follows_ok :: "nat \<Rightarrow> string \<Rightarrow> int \<Rightarrow> boundary \<Rightarrow> bool" where
  "follows_ok n t since w \<longleftrightarrow> n < length (bd_streams w) \<and> n \<in> set (subscribers t w) \<and>
     (let s = bd_streams w ! n in es_thread s = t \<and> \<not> es_closed s \<and>
        (\<forall>e \<in> set (log_of t w). since < int (ev_seq e) \<longrightarrow> e \<in> set (es_sent s)) \<and>
        set (recorded_part s) \<subseteq> set (log_of t w) \<and> distinct (map ev_seq (recorded_part s)))"

definition leaves_alone :: "nat \<Rightarrow> boundary_move list \<Rightarrow> bool" where
  "leaves_alone n xs \<longleftrightarrow> Close n \<notin> set xs \<and> Follow n \<notin> set xs"

lemma finish_record_effect:
  assumes w: "boundary_ok w" and n: "n < length (bd_pending w)"
  obtains (refused) "bd_streams (finish_record n now w) = bd_streams w"
      "rw_store (bd_world (finish_record n now w)) = rw_store (bd_world w)"
      "rw_bus (bd_world (finish_record n now w)) = rw_bus (bd_world w)"
    | (recorded) e where "ev_seq e \<notin> ev_seq ` set (log_of (ev_thread e) w)"
      "\<And>t. log_of t (finish_record n now w) = (if t = ev_thread e then log_of t w @ [e] else log_of t w)"
      "bd_streams (finish_record n now w) = map (\<lambda>(k, s). if k \<in> set (subscribers (ev_thread e) w)
          then deliver e s else s) (enumerate 0 (bd_streams w))"
      "\<And>t. subscribers t (finish_record n now w) = subscribers t w"
proof (cases rule: record_finish_cases[of now "bd_pending w ! n" "bd_world w"])
  case (refused err)
  then show thesis by (intro that(1)) (simp_all add: finish_record_def Let_def)
next
  case (recorded e)
  have p: "pending_ok w (bd_pending w ! n)" using w n by (simp add: boundary_ok_def list_all_length)
  have e: "ev_seq e \<notin> ev_seq ` set (log_of (ev_thread e) w)"
    using p parse_runtime_event_fields[OF recorded(1)] stamped_number[OF p, of now]
    by (simp add: stamp_event_def pending_ok_def Let_def)
  show thesis
  proof (rule that(2)[of e])
    show "log_of t (finish_record n now w) = (if t = ev_thread e then log_of t w @ [e] else log_of t w)" for t
      using recorded(2) e by (auto simp: finish_record_def log_of_def events_of_appendEvent add_event_def image_iff Let_def)
  qed (use recorded(2) e in \<open>simp_all add: finish_record_def subscribers_def last_allocated_bus bus_publish_def Let_def\<close>)
qed

lemma deliver_fields [simp]: "es_thread (deliver e s) = es_thread s" "es_closed (deliver e s) = es_closed s"
  by (simp_all add: deliver_def)

lemma subscribers_subscribe: "get_or [] (eb_subscribers (bus_subscribe t h b)) u =
   (if u = t \<and> h \<notin> set (get_or [] (eb_subscribers b) t) then get_or [] (eb_subscribers b) t @ [h]
    else get_or [] (eb_subscribers b) u)"
  by (simp add: bus_subscribe_def Let_def)

lemma subscribers_unsubscribe: "get_or [] (eb_subscribers (bus_unsubscribe t h b)) u =
   (if u = t then removeAll h (get_or [] (eb_subscribers b) t) else get_or [] (eb_subscribers b) u)"
  by (simp add: bus_unsubscribe_def)

lemma boundary_step_views:
  "boundary_ok w \<Longrightarrow> subscribed_ok w \<Longrightarrow> subscribed_ok (boundary_step x w)"
proof (cases x)
  case (Begin d)
  assume "subscribed_ok w"
  then show ?thesis
    by (simp add: Begin subscribed_ok_def subscribers_def log_of_def record_begin_def case_prod_beta Let_def
        last_allocated_allocate)
next
  case (Finish n now)
  assume w: "boundary_ok w" "subscribed_ok w"
  show ?thesis
  proof (cases "n < length (bd_pending w)")
    case True
    from w(1) True show ?thesis
    proof (cases rule: finish_record_effect[where now = now])
      case refused
      with w(2) Finish True show ?thesis by (simp add: subscribed_ok_def subscribers_def log_of_def)
    next
      case (recorded e)
      have "es_thread (bd_streams (finish_record n now w) ! h) = es_thread (bd_streams w ! h)"
        "length (bd_streams (finish_record n now w)) = length (bd_streams w)" if "h < length (bd_streams w)" for h
        using that by (simp_all add: recorded(3) nth_enumerate_eq)
      with w(2) recorded Finish True show ?thesis by (simp add: subscribed_ok_def)
    qed
  qed (use Finish w in simp)
next
  case (Load_stream t since)
  assume "subscribed_ok w"
  then show ?thesis
    by (fastforce simp: Load_stream load_log_def subscribed_ok_def subscribers_def log_of_def nth_append)
next
  case (Follow n)
  assume w: "subscribed_ok w"
  show ?thesis
  proof (cases "n < length (bd_streams w) \<and> follow_bus n w \<noteq> w")
    case True
    then have "es_thread (bd_streams (follow_bus n w) ! h) = es_thread (bd_streams w ! h)" for h
      by (cases "h = n") (simp_all add: follow_bus_def Let_def)
    with True w show ?thesis
      by (auto simp: Follow subscribed_ok_def subscribers_def log_of_def follow_bus_def Let_def
          subscribers_subscribe split: if_splits)
  qed (use Follow w in auto)
next
  case (Close n)
  assume w: "subscribed_ok w"
  show ?thesis
  proof (cases "n < length (bd_streams w)")
    case True
    then have "es_thread (bd_streams (close_stream n w) ! h) = es_thread (bd_streams w ! h)" for h
      by (cases "h = n") (simp_all add: close_stream_def)
    with True w show ?thesis
      by (auto simp: Close subscribed_ok_def subscribers_def log_of_def close_stream_def subscribers_unsubscribe
          split: if_splits)
  qed (use Close w in simp)
next
  case (Heartbeat_tick n now)
  assume w: "subscribed_ok w"
  show ?thesis
  proof (cases "n < length (bd_streams w)")
    case True
    then have "es_thread (bd_streams (send_heartbeat n now w) ! h) = es_thread (bd_streams w ! h)" for h
      by (cases "h = n") (simp_all add: send_heartbeat_def case_prod_beta Let_def)
    with True w show ?thesis
      by (simp add: Heartbeat_tick subscribed_ok_def)
        (simp add: subscribers_def log_of_def send_heartbeat_def case_prod_beta Let_def last_allocated_allocate)
  qed (use Heartbeat_tick w in simp)
qed

lemma follows_ok_other:
  assumes f: "follows_ok n t since w" and "bd_streams w' ! n = bd_streams w ! n" and "n < length (bd_streams w')"
    and "n \<in> set (subscribers t w')" and "log_of t w' = log_of t w"
  shows "follows_ok n t since w'"
  using assms by (simp add: follows_ok_def Let_def)

lemma recorded_part_heartbeat: "ev_body e = Heartbeat \<Longrightarrow> recorded_part (deliver e s) = recorded_part s"
  by (simp add: recorded_part_def deliver_def)

lemma sent_deliver: "e' \<in> set (es_sent s) \<Longrightarrow> e' \<in> set (es_sent (deliver e s))"
  by (simp add: deliver_def)

lemma follows_step:
  assumes w: "boundary_ok w" "subscribed_ok w" and f: "follows_ok n t since w" and x: "leaves_alone n [x]"
  shows "follows_ok n t since (boundary_step x w)"
proof -
  have n: "n < length (bd_streams w)" "n \<in> set (subscribers t w)" "es_thread (bd_streams w ! n) = t"
    "\<not> es_closed (bd_streams w ! n)"
    using f by (simp_all add: follows_ok_def Let_def)
  show ?thesis
  proof (cases x)
    case (Begin d)
    then show ?thesis using n
      by (intro follows_ok_other[OF f])
        (simp_all add: subscribers_def log_of_def record_begin_def case_prod_beta Let_def last_allocated_allocate)
  next
    case (Finish m now)
    show ?thesis
    proof (cases "m < length (bd_pending w)")
      case True
      from w(1) True show ?thesis
      proof (cases rule: finish_record_effect[where now = now])
        case refused
        then show ?thesis using Finish True n
          by (intro follows_ok_other[OF f]) (simp_all add: subscribers_def log_of_def)
      next
        case (recorded e)
        have here: "bd_streams (finish_record m now w) ! n =
            (if n \<in> set (subscribers (ev_thread e) w) then deliver e (bd_streams w ! n) else bd_streams w ! n)"
          using n(1) by (simp add: recorded(3) nth_enumerate_eq)
        show ?thesis
        proof (cases "ev_thread e = t")
          case True
          let ?s = "bd_streams w ! n" and ?v = "finish_record m now w"
          have s: "bd_streams ?v ! n = ?s\<lparr>es_sent := es_sent ?s @ [e]\<rparr>" "n < length (bd_streams ?v)"
            "log_of t ?v = log_of t w @ [e]" "subscribers t ?v = subscribers t w"
            using here n True recorded(2,4) by (simp_all add: deliver_def) (simp add: recorded(3))
          have part: "set (recorded_part ?s) \<subseteq> set (log_of t w)" "distinct (map ev_seq (recorded_part ?s))"
            using f by (simp_all add: follows_ok_def Let_def)
          have "ev_seq e \<notin> ev_seq ` set (recorded_part ?s)"
            using recorded(1) True part(1) by auto
          then have "set (recorded_part (bd_streams ?v ! n)) \<subseteq> set (log_of t ?v)"
            "distinct (map ev_seq (recorded_part (bd_streams ?v ! n)))"
            using part by (auto simp: s recorded_part_def)
          moreover have "\<forall>e' \<in> set (log_of t ?v). since < int (ev_seq e') \<longrightarrow> e' \<in> set (es_sent (bd_streams ?v ! n))"
            using f by (auto simp: s follows_ok_def Let_def)
          moreover have "es_thread (bd_streams ?v ! n) = t" "\<not> es_closed (bd_streams ?v ! n)"
            "n \<in> set (subscribers t ?v)" using s n by simp_all
          ultimately have "follows_ok n t since ?v" using s(2) by (simp add: follows_ok_def Let_def)
          then show ?thesis using Finish \<open>m < length (bd_pending w)\<close> by simp
        next
          case False
          then have "n \<notin> set (subscribers (ev_thread e) w)"
            using w(2) n(3) by (metis subscribed_ok_def)
          with here have "bd_streams (finish_record m now w) ! n = bd_streams w ! n" by simp
          moreover have "n < length (bd_streams (finish_record m now w))" using n(1) by (simp add: recorded(3))
          ultimately show ?thesis using False recorded(2,4) n(2) Finish \<open>m < length (bd_pending w)\<close>
            by (intro follows_ok_other[OF f]) simp_all
        qed
      qed
    qed (use Finish f in simp)
  next
    case (Load_stream u s)
    then show ?thesis using n
      by (intro follows_ok_other[OF f]) (simp_all add: load_log_def nth_append subscribers_def log_of_def)
  next
    case (Follow m)
    then have "m \<noteq> n" using x by (auto simp: leaves_alone_def)
    then show ?thesis using n Follow
      by (intro follows_ok_other[OF f])
        (auto simp: follow_bus_def subscribers_def log_of_def subscribers_subscribe Let_def)
  next
    case (Close m)
    then have "m \<noteq> n" using x by (auto simp: leaves_alone_def)
    then show ?thesis using n Close
      by (intro follows_ok_other[OF f])
        (auto simp: close_stream_def subscribers_def log_of_def subscribers_unsubscribe)
  next
    case (Heartbeat_tick m now)
    show ?thesis
    proof (cases "m = n")
      case True
      with f n show ?thesis
        by (auto simp: Heartbeat_tick follows_ok_def send_heartbeat_def case_prod_beta Let_def sent_deliver
            recorded_part_heartbeat heartbeat_event_def subscribers_def log_of_def last_allocated_allocate)
    next
      case False
      then show ?thesis using n Heartbeat_tick
        by (intro follows_ok_other[OF f])
          (simp_all add: send_heartbeat_def case_prod_beta Let_def subscribers_def log_of_def last_allocated_allocate)
    qed
  qed
qed

lemma follows_run:
  assumes "boundary_ok w" and "subscribed_ok w" and "follows_ok n t since w" and "leaves_alone n xs" and "unnumbered xs"
  shows "follows_ok n t since (boundary_run xs w)"
  using assms
proof (induction xs arbitrary: w)
  case (Cons x xs)
  have x: "\<forall>d. x = Begin d \<longrightarrow> dr_seq d = None" and xs: "unnumbered xs" "leaves_alone n xs" "leaves_alone n [x]"
    using Cons.prems(4,5) by (auto simp: unnumbered_def leaves_alone_def)
  have "follows_ok n t since (boundary_run xs (boundary_step x w))"
    using boundary_step_ok[OF Cons.prems(1) x] boundary_step_views[OF Cons.prems(1,2)]
      follows_step[OF Cons.prems(1-3) xs(3)] xs(1,2)
    by (intro Cons.IH)
  then show ?case by (simp add: boundary_run_def)
qed (simp add: boundary_run_def)

lemma subscribed_run:
  assumes "boundary_ok w" and "subscribed_ok w" and "unnumbered xs"
  shows "boundary_ok (boundary_run xs w) \<and> subscribed_ok (boundary_run xs w)"
  using assms
proof (induction xs arbitrary: w)
  case (Cons x xs)
  have "boundary_ok (boundary_run xs (boundary_step x w)) \<and> subscribed_ok (boundary_run xs (boundary_step x w))"
    using Cons.prems boundary_step_ok[OF Cons.prems(1)] boundary_step_views[OF Cons.prems(1,2)]
    by (intro Cons.IH) (auto simp: unnumbered_def)
  then show ?case by (simp add: boundary_run_def)
qed (simp add: boundary_run_def)

lemma follows_connected:
  assumes w: "boundary_ok w" "subscribed_ok w" and n: "n = length (bd_streams w)"
  shows "follows_ok n t since (follow_bus n (load_log t since w))"
proof -
  have d: "distinct (map ev_seq (log_of t w))" using w(2) by (simp add: subscribed_ok_def)
  let ?b = "loadEventsSince t since (rw_store (bd_world w))"
  have "distinct (map ev_seq (filter (\<lambda>e. since < int (ev_seq e)) (log_of t w)))" using d by (rule distinct_map_filter)
  then have "distinct (map ev_seq ?b)" by (simp add: loadEventsSince_def log_of_def distinct_map)
  then have "distinct (map ev_seq (filter (\<lambda>e. ev_body e \<noteq> Heartbeat) ?b))" by (rule distinct_map_filter)
  moreover have "set ?b = {e \<in> set (log_of t w). since < int (ev_seq e)}"
    by (auto simp: loadEventsSince_def log_of_def)
  ultimately show ?thesis
    by (auto simp: follows_ok_def follow_bus_def load_log_def n Let_def nth_append subscribers_def subscribers_subscribe
        recorded_part_def log_of_def)
qed

definition restored :: "session_store \<Rightarrow> event_bus \<Rightarrow> bool" where
  "restored st b \<longleftrightarrow> allocator_ahead st b \<and> eb_subscribers b = [] \<and>
     (\<forall>t. distinct (map ev_seq (events_of st t)))"


section \<open>What the hypotheses exclude\<close>

text \<open>The drafts of the examples: a plain pipeline event of one thread.\<close>

definition stage_draft :: "string \<Rightarrow> pipeline_stage \<Rightarrow> event_draft" where
  "stage_draft t k = \<lparr>dr_seq = None, dr_time = None, dr_thread = t, dr_turn = None, dr_item = None, dr_child = None,
     dr_body = PipelineStage k None None\<rparr>"

definition stage_event :: "string \<Rightarrow> pipeline_stage \<Rightarrow> nat \<Rightarrow> string \<Rightarrow> runtime_event" where
  "stage_event t k n now = \<lparr>ev_seq = n, ev_time = now, ev_thread = t, ev_turn = None, ev_item = None,
     ev_child = None, ev_body = PipelineStage k None None\<rparr>"

lemma stage_parse: "t \<noteq> [] \<Longrightarrow> parse_runtime_event (stage_event t k n now) = Inr (stage_event t k n now)"
  by (simp add: parse_runtime_event_def stage_event_def event_ok_def Let_def)

lemma stage_stamp:
  "stamp_event now \<lparr>pn_draft = stage_draft t k, pn_allocated = a, pn_persisted = p\<rparr> = stage_event t k (max a (p + 1)) now"
  by (simp add: stamp_event_def stage_draft_def stage_event_def Let_def)

lemma stage_begin: "record_begin (stage_draft t k) st b =
   (\<lparr>pn_draft = stage_draft t k, pn_allocated = Suc (last_allocated t b), pn_persisted = highestSeq t st\<rparr>,
    snd (allocateSeq t b))"
  by (simp add: record_begin_def stage_draft_def case_prod_beta Let_def last_allocated_allocate)

text \<open>
  After a restart the bus is empty while the log is not, and the allocator is not told: two calls of
  \<open>record\<close> that overlap then both number their event one above the log. Both are published and
  streamed, but the log keeps the first alone and the second event is lost.
\<close>

theorem restart_overlap_loses_event:
  assumes "t \<noteq> []" and "2 \<le> highestSeq t st" and "k1 \<noteq> k2"
    and "w = boundary_run [Begin (stage_draft t k1), Begin (stage_draft t k2), Finish 0 now, Finish 0 now]
           (initial_boundary st empty_bus)"
  shows "bd_published w = [stage_event t k1 (highestSeq t st + 1) now, stage_event t k2 (highestSeq t st + 1) now] \<and>
    stage_event t k2 (highestSeq t st + 1) now \<notin> set (log_of t w)"
proof -
  let ?n = "highestSeq t st + 1"
  have a: "last_allocated t empty_bus = 0"
    by (simp add: last_allocated_def empty_bus_def bus_highestSeq_def get_or_def max_seq_def)
  have m: "max (Suc 0) (highestSeq t st + 1) = ?n" "max (Suc (Suc 0)) (Suc (highestSeq t st)) = Suc (highestSeq t st)" using assms(2) by simp_all
  let ?e1 = "stage_event t k1 ?n now" and ?e2 = "stage_event t k2 ?n now"
  have th: "ev_thread ?e1 = t" "ev_thread ?e2 = t" "ev_seq ?e1 = ?n" "ev_seq ?e2 = ?n" "?e1 \<noteq> ?e2"
    using assms(3) by (simp_all add: stage_event_def)
  have pub: "bd_published w = [?e1, ?e2]"
    and log: "log_of t w = add_event ?e2 (add_event ?e1 (events_of st t))"
    unfolding assms(4) boundary_run_def
    using assms(1) th
    by (simp_all add: initial_boundary_def stage_begin a last_allocated_allocate finish_record_def record_finish_def
        stage_stamp m stage_parse bus_publish_def log_of_def events_of_appendEvent Let_def del: max_Suc_Suc)
  have fresh: "ev_seq f \<noteq> ?n" if "f \<in> set (events_of st t)" for f
    using highestSeq_ge[OF that] by simp
  then have "add_event ?e1 (events_of st t) = events_of st t @ [?e1]" using th by (auto simp: add_event_def)
  then have "log_of t w = events_of st t @ [?e1]" using log th by (simp add: add_event_def)
  then show ?thesis using pub fresh th by auto
qed

text \<open>
  An event recorded between a stream's loading of the log and its subscription reaches neither: it is in
  the log and has been published, but the client is never sent it.
\<close>

theorem gap_loses_event:
  assumes "t \<noteq> []"
    and "w = boundary_run [Begin (stage_draft t k), Load_stream t 0, Finish 0 now, Follow 0]
           (initial_boundary empty_session_store empty_bus)"
  shows "log_of t w = [stage_event t k 1 now] \<and> bd_published w = [stage_event t k 1 now] \<and>
    es_sent (bd_streams w ! 0) = [] \<and> subscribers t w = [0]"
proof -
  have a: "last_allocated t empty_bus = 0" "highestSeq t empty_session_store = 0" "events_of empty_session_store t = []"
    by (simp_all add: last_allocated_def empty_bus_def bus_highestSeq_def get_or_def max_seq_def highestSeq_def
        events_of_def empty_session_store_def)
  have th: "ev_thread (stage_event t k 1 now) = t" by (simp add: stage_event_def)
  have s: "get_or [] (eb_subscribers empty_bus) t = []" by (simp add: empty_bus_def get_or_def)
  show ?thesis
    unfolding assms(2) boundary_run_def
    using assms(1) th
    by (simp add: initial_boundary_def stage_begin a last_allocated_allocate finish_record_def record_finish_def
        stage_stamp stage_parse bus_publish_def log_of_def events_of_appendEvent add_event_def load_log_def
        follow_bus_def loadEventsSince_def subscribers_def subscribers_subscribe s Let_def)
qed

section \<open>Witnesses\<close>

lemma fresh_restored: "restored empty_session_store empty_bus"
  by (simp add: restored_def allocator_ahead_def empty_bus_def highestSeq_def events_of_def empty_session_store_def
      get_or_def max_seq_def)



definition worn_store :: session_store where
  "worn_store = appendEvent ''t'' (stage_event ''t'' Setup 2 ''0'') ''0'' empty_session_store"

theorem restart_overlap_loses_event_witness:
  "stage_event ''t'' PostStart 3 ''1'' \<notin> set (log_of ''t'' (boundary_run
     [Begin (stage_draft ''t'' PreStart), Begin (stage_draft ''t'' PostStart), Finish 0 ''1'', Finish 0 ''1'']
     (initial_boundary worn_store empty_bus)))"
proof -
  have "events_of empty_session_store ''t'' = []"
    by (simp add: events_of_def empty_session_store_def get_or_def)
  then have "events_of worn_store ''t'' = [stage_event ''t'' Setup 2 ''0'']"
    by (simp add: worn_store_def events_of_appendEvent add_event_def)
  then have h: "highestSeq ''t'' worn_store = 2" by (simp add: highestSeq_def max_seq_def stage_event_def)
  from restart_overlap_loses_event[of "''t''" worn_store PreStart PostStart, OF _ _ _ refl] h show ?thesis by simp
qed

theorem gap_loses_event_witness:
  "es_sent (bd_streams (boundary_run [Begin (stage_draft ''t'' Setup), Load_stream ''t'' 0, Finish 0 ''1'', Follow 0]
     (initial_boundary empty_session_store empty_bus)) ! 0) = []"
  using gap_loses_event[of "''t''", OF _ refl] by simp

end
