(* ===== verification/Threads.thy ===== *)
theory Threads
  imports Turns
begin

text \<open>
  Threads: the record with its goal and to-do list (\<open>contracts/src/threads.ts\<close>, \<open>policy.ts\<close>), the helpers
  on it (\<open>domain/src/thread.ts\<close>, \<open>thread-title.ts\<close>) and the store of threads
  (\<open>adapter-storage/src/in-memory-thread-store.ts\<close>).

  A summary is a thread without its turns and policies, so the thread record extends the summary's.
  Time stamps are ISO strings, for which \<open>localeCompare\<close> is the order of the code units.
\<close>

section \<open>Records\<close>

datatype thread_status = Thread_idle | Thread_running | Thread_archived | Thread_deleted

datatype thread_relation = Primary_thread | Fork_thread | Side_thread

datatype approval_policy = Policy_on_request | Policy_untrusted | Policy_never | Policy_auto | Policy_suggest

datatype sandbox_mode = Read_only | Workspace_write | Full_access | External_sandbox

datatype goal_status = Goal_active | Goal_paused | Goal_blocked | Goal_usage_limited | Goal_budget_limited | Goal_complete

record thread_goal =
  go_thread :: string
  go_objective :: string
  go_status :: goal_status
  go_budget :: "nat option"
  go_tokens :: nat
  go_seconds :: nat
  go_created :: string
  go_updated :: string

datatype todo_status = Todo_pending | Todo_in_progress | Todo_completed

record todo_source =
  sr_plan :: string
  sr_path :: string
  sr_ordinal :: nat
  sr_hash :: string

record todo =
  td_id :: string
  td_content :: string
  td_status :: todo_status
  td_source :: "todo_source option"
  td_created :: string
  td_updated :: string

record todo_list =
  tdl_thread :: string
  tdl_items :: "todo list"
  tdl_updated :: string

record thread_summary =
  th_id :: string
  th_owner :: "string option"
  th_title :: string
  th_workspace :: string
  th_model :: string
  th_mode :: thread_mode
  th_work_mode :: string
  th_module :: "string option"
  th_status :: thread_status
  th_cost :: "rat option"
  th_warned :: "bool option"
  th_relation :: thread_relation
  th_parent :: "string option"
  th_origin :: "string option"
  th_origin_title :: "string option"
  th_forked_at :: "string option"
  th_origin_messages :: "nat option"
  th_origin_turns :: "nat option"
  th_goal :: "thread_goal option"
  th_todos :: "todo_list option"
  th_created :: string
  th_updated :: string

record thread = thread_summary +
  th_approval :: approval_policy
  th_sandbox :: sandbox_mode
  th_turns :: "turn list"

section \<open>Thread helpers\<close>

record thread_input =
  nt_id :: string
  nt_owner :: "string option"
  nt_title :: string
  nt_workspace :: string
  nt_model :: string
  nt_mode :: "thread_mode option"
  nt_work_mode :: "string option"
  nt_module :: "string option"
  nt_status :: "thread_status option"
  nt_approval :: "approval_policy option"
  nt_sandbox :: "sandbox_mode option"
  nt_cost :: "rat option"
  nt_warned :: "bool option"
  nt_relation :: "thread_relation option"
  nt_parent :: "string option"
  nt_origin :: "string option"
  nt_origin_title :: "string option"
  nt_forked_at :: "string option"
  nt_origin_messages :: "nat option"
  nt_origin_turns :: "nat option"
  nt_goal :: "thread_goal option"
  nt_todos :: "todo_list option"
  nt_created :: "string option"

definition createThreadRecord :: "thread_input \<Rightarrow> string \<Rightarrow> thread" where
  "createThreadRecord n clock = (let now = or_else (nt_created n) clock in
     \<lparr>th_id = nt_id n, th_owner = truthy (nt_owner n), th_title = nt_title n, th_workspace = nt_workspace n,
      th_model = nt_model n, th_mode = or_else (nt_mode n) Agent_mode,
      th_work_mode = or_else (nt_work_mode n) ''office'', th_module = truthy (nt_module n),
      th_status = or_else (nt_status n) Thread_idle, th_cost = nt_cost n, th_warned = nt_warned n,
      th_relation = or_else (nt_relation n) Primary_thread, th_parent = truthy (nt_parent n),
      th_origin = truthy (nt_origin n), th_origin_title = truthy (nt_origin_title n),
      th_forked_at = truthy (nt_forked_at n), th_origin_messages = nt_origin_messages n,
      th_origin_turns = nt_origin_turns n, th_goal = nt_goal n, th_todos = nt_todos n,
      th_created = now, th_updated = now, th_approval = or_else (nt_approval n) Policy_auto,
      th_sandbox = or_else (nt_sandbox n) Full_access, th_turns = []\<rparr>)"

definition touchThread :: "thread \<Rightarrow> string option \<Rightarrow> string \<Rightarrow> thread" where
  "touchThread t updated now = t\<lparr>th_updated := or_else updated now\<rparr>"

definition toThreadSummary :: "thread \<Rightarrow> thread_summary" where
  "toThreadSummary t = (thread_summary.truncate t)\<lparr>th_owner := truthy (th_owner t),
     th_module := truthy (th_module t), th_parent := truthy (th_parent t), th_origin := truthy (th_origin t),
     th_origin_title := truthy (th_origin_title t), th_forked_at := truthy (th_forked_at t)\<rparr>"

section \<open>Titles\<close>

text \<open>\<open>toLowerCase\<close> on code units below 256: the letters of ASCII and Latin-1.\<close>

definition js_lower_char :: "char \<Rightarrow> char" where
  "js_lower_char c = (let n = of_char c :: nat in
     if (65 \<le> n \<and> n \<le> 90) \<or> (192 \<le> n \<and> n \<le> 222 \<and> n \<noteq> 215) then char_of (n + 32) else c)"

definition js_lower :: "string \<Rightarrow> string" where
  "js_lower = map js_lower_char"

text \<open>\<open>replace(/\s+/g, ' ')\<close>.\<close>

function (sequential) collapse_spaces :: "string \<Rightarrow> string" where
  "collapse_spaces [] = []"
| "collapse_spaces (c # s) =
     (if is_js_space c then CHR '' '' # collapse_spaces (dropWhile is_js_space s) else c # collapse_spaces s)"
  by pat_completeness auto
termination
  by (relation "measure length") (simp_all add: length_dropWhile_le le_imp_less_Suc)

definition title_mark :: "char \<Rightarrow> bool" where
  "title_mark c = (c \<in> set ''#>*-'' \<or> is_js_space c)"

definition deriveThreadTitle :: "string \<Rightarrow> string" where
  "deriveThreadTitle prompt = (
     let n = trim (dropWhile title_mark (collapse_spaces prompt))
     in if n = [] then ''New chat''
        else if 48 < length n then trim_end (take 48 n) @ ''...'' else n)"

text \<open>The third default title of the source is written in characters outside the model's strings.\<close>

definition isDefaultThreadTitle :: "string option \<Rightarrow> bool" where
  "isDefaultThreadTitle title = (case map_option (\<lambda>s. js_lower (trim s)) title of
      None \<Rightarrow> True | Some n \<Rightarrow> n = [] \<or> n = ''new chat'' \<or> n = ''untitled'')"

section \<open>The store\<close>

type_synonym thread_store = "(string, thread) jsmap"

definition list_threads :: "thread_store \<Rightarrow> thread_summary list" where
  "list_threads st = rev (sort_key th_updated (rev (map (\<lambda>kv. toThreadSummary (snd kv)) st)))"

definition get_thread :: "string \<Rightarrow> thread_store \<Rightarrow> thread option" where
  "get_thread i st = map_of st i"

definition upsert_thread :: "thread \<Rightarrow> thread_store \<Rightarrow> thread_store" where
  "upsert_thread t st = AList.update (th_id t) t st"

definition delete_thread :: "string \<Rightarrow> thread_store \<Rightarrow> bool \<times> thread_store" where
  "delete_thread i st = (map_of st i \<noteq> None, AList.delete i st)"

section \<open>Laws\<close>

lemma get_upsert [simp]: "get_thread i (upsert_thread t st) = (if i = th_id t then Some t else get_thread i st)"
  by (simp add: get_thread_def upsert_thread_def)

lemma get_delete [simp]: "get_thread i (snd (delete_thread j st)) = (if i = j then None else get_thread i st)"
  by (simp add: get_thread_def delete_thread_def)

lemma truthy_idem [simp]: "truthy (truthy x) = truthy x"
  by (cases x rule: truthy.cases) auto

lemma summary_fields [simp]:
  "th_id (toThreadSummary t) = th_id t" "th_title (toThreadSummary t) = th_title t"
  "th_status (toThreadSummary t) = th_status t" "th_relation (toThreadSummary t) = th_relation t"
  "th_owner (toThreadSummary t) = truthy (th_owner t)" "th_updated (toThreadSummary t) = th_updated t"
  by (simp_all add: toThreadSummary_def thread_summary.truncate_def)

lemma set_list_threads: "set (list_threads st) = (\<lambda>kv. toThreadSummary (snd kv)) ` set st"
  by (simp add: list_threads_def)

lemma list_threads_newest_first: "sorted_wrt (\<lambda>a b. th_updated b \<le> th_updated a) (list_threads st)"
proof -
  have "sorted_wrt (\<lambda>a b. th_updated a \<le> th_updated b)
      (sort_key th_updated (rev (map (\<lambda>kv. toThreadSummary (snd kv)) st)))"
    using sorted_sort_key[of th_updated] by (simp only: sorted_map)
  then show ?thesis by (simp add: list_threads_def sorted_wrt_rev)
qed

lemma trim_end_length: "length (trim_end s) \<le> length s"
  by (metis length_dropWhile_le length_rev trim_end_def)

lemma deriveThreadTitle_bounds: "deriveThreadTitle p \<noteq> [] \<and> length (deriveThreadTitle p) \<le> 51"
proof -
  have "length (trim_end (take 48 (s :: string))) \<le> 48" for s
    using trim_end_length[of "take 48 s"] by simp
  then show ?thesis by (auto simp: deriveThreadTitle_def Let_def intro: le_trans)
qed

end
