(* ===== verification/Todos.thy ===== *)
theory Todos
  imports Threads "HOL-Library.Word"
begin

unbundle bit_operations_syntax

text \<open>
  To-do lists that mirror the task lines of a plan in Markdown (\<open>contracts/src/todos.ts\<close>) and the check
  of plan paths (\<open>contracts/src/gui-plan.ts\<close>): extraction of the tasks of a plan, their merge into a list
  that exists, and the patch that writes a changed status back into the plan.

  The hash of a text is the 32-bit FNV-1a hash of the source, on words that wrap as \<open>Math.imul\<close> does.
  Regular expressions are written out as functions; the groups of a match are a tuple.
\<close>

section \<open>Contents and hashes\<close>

definition normalizeTodoContent :: "string \<Rightarrow> string" where
  "normalizeTodoContent s = trim (collapse_spaces s)"

definition hash_char :: "char \<Rightarrow> 32 word \<Rightarrow> 32 word" where
  "hash_char c h = (h XOR of_nat (of_char c)) * 0x01000193"

definition fnv_hash :: "string \<Rightarrow> 32 word" where
  "fnv_hash s = fold hash_char s 0x811c9dc5"

definition digit36 :: "nat \<Rightarrow> char" where
  "digit36 n = (if n < 10 then char_of (48 + n) else char_of (87 + n))"

fun show_base36 :: "nat \<Rightarrow> string" where
  "show_base36 n = (if n < 36 then [digit36 n] else show_base36 (n div 36) @ [digit36 (n mod 36)])"

declare show_base36.simps [simp del]

definition todoContentHash :: "string \<Rightarrow> string" where
  "todoContentHash s = show_base36 (unat (fnv_hash (js_lower (normalizeTodoContent s))))"

definition makePlanTodoId :: "string \<Rightarrow> string \<Rightarrow> nat \<Rightarrow> string \<Rightarrow> string" where
  "makePlanTodoId plan path n h = ''todo_plan_'' @
     todoContentHash (plan @ '':'' @ path @ '':'' @ show_nat n @ '':'' @ h)"

section \<open>Paths\<close>

function (sequential) squeeze_slashes :: "string \<Rightarrow> string" where
  "squeeze_slashes [] = []"
| "squeeze_slashes (c # s) = (if c = CHR ''/'' then CHR ''/'' # squeeze_slashes (dropWhile (\<lambda>x. x = CHR ''/'') s)
     else c # squeeze_slashes s)"
  by pat_completeness auto
termination
  by (relation "measure length") (simp_all add: length_dropWhile_le le_imp_less_Suc)

definition normalizePlanRelativePath :: "string \<Rightarrow> string" where
  "normalizePlanRelativePath p = (
     let q = squeeze_slashes (map (\<lambda>c. if c = CHR 0x5C then CHR ''/'' else c) p)
     in if starts_with q ''./'' then drop 2 q else q)"

definition ends_with :: "string \<Rightarrow> string \<Rightarrow> bool" where
  "ends_with s p = starts_with (rev s) (rev p)"

definition plan_dirs :: "string list" where
  "plan_dirs = [''.qiongqisdd/plan'', ''.deepseekgui/plan'']"

text \<open>\<open>rest\<close> holds no slash here, so its only path segment is itself.\<close>

definition isGuiPlanRelativePath :: "string \<Rightarrow> bool" where
  "isGuiPlanRelativePath p = (
     let q = js_lower (normalizePlanRelativePath p)
     in ends_with q ''.md'' \<and>
        (case List.find (\<lambda>d. starts_with q (d @ ''/'')) plan_dirs of
           None \<Rightarrow> False
         | Some d \<Rightarrow> let rest = drop (length d + 1) q
             in rest \<noteq> [] \<and> CHR ''/'' \<notin> set rest \<and> rest \<noteq> ''..''))"

section \<open>Task lines\<close>

abbreviation lf :: char where "lf \<equiv> CHR 0x0A"
abbreviation cr :: char where "cr \<equiv> CHR 0x0D"

text \<open>\<open>split(/\r?\n/)\<close>.\<close>

fun split_lines :: "string \<Rightarrow> string list" where
  "split_lines [] = [[]]"
| "split_lines (c # s) =
     (if c = lf then [] # split_lines s
      else if c = cr \<and> s \<noteq> [] \<and> hd s = lf then [] # split_lines (tl s)
      else (case split_lines s of [] \<Rightarrow> [[c]] | l # ls \<Rightarrow> (c # l) # ls))"

fun join_lines :: "string \<Rightarrow> string list \<Rightarrow> string" where
  "join_lines e [] = []"
| "join_lines e [l] = l"
| "join_lines e (l # ls) = l @ e @ join_lines e ls"

text \<open>
  What follows the closing bracket: white space, then the shortest text after which only white space is
  left, without line terminators. When only white space follows, the match leaves the last character
  that can be matched by the dot to the text.
\<close>

definition match_tail :: "string \<Rightarrow> (string \<times> string) option" where
  "match_tail r = (
     let ws = takeWhile is_js_space r; body = dropWhile is_js_space r
     in if body \<noteq> [] then
          (let p = trim_end body in if ws \<noteq> [] \<and> cr \<notin> set p \<and> lf \<notin> set p then Some (ws, p) else None)
        else
          (let rest = rev (dropWhile (\<lambda>c. c = cr \<or> c = lf) (rev (drop 1 ws)))
           in if rest = [] then None else Some (hd ws # butlast rest, [last rest])))"

type_synonym task_match = "string \<times> char \<times> string \<times> string"

definition match_task :: "string \<Rightarrow> task_match option" where
  "match_task line = (case dropWhile is_js_space line of
      [] \<Rightarrow> None
    | b # r1 \<Rightarrow>
        if b \<notin> set ''-*+'' \<or> takeWhile is_js_space r1 = [] then None
        else (case dropWhile is_js_space r1 of
            p # m # q # r3 \<Rightarrow>
              if p = CHR ''['' \<and> m \<in> set '' xX'' \<and> q = CHR '']'' then
                map_option (\<lambda>(ws, text). (takeWhile is_js_space line @ b # takeWhile is_js_space r1 @ ''['', m,
                  CHR '']'' # ws, text)) (match_tail r3)
              else None
          | _ \<Rightarrow> None))"

definition taskMarkerToStatus :: "char \<Rightarrow> todo_status" where
  "taskMarkerToStatus m = (if js_lower_char m = CHR ''x'' then Todo_completed else Todo_pending)"

definition plan_todo :: "string \<Rightarrow> string \<Rightarrow> string \<Rightarrow> nat \<Rightarrow> char \<Rightarrow> string \<Rightarrow> todo" where
  "plan_todo plan path now n m content = (
     let h = todoContentHash content; p = normalizePlanRelativePath path
     in \<lparr>td_id = makePlanTodoId plan p n h, td_content = content, td_status = taskMarkerToStatus m,
         td_source = Some \<lparr>sr_plan = plan, sr_path = p, sr_ordinal = n, sr_hash = h\<rparr>,
         td_created = now, td_updated = now\<rparr>)"

fun extract_lines :: "string \<Rightarrow> string \<Rightarrow> string \<Rightarrow> nat \<Rightarrow> string list \<Rightarrow> todo list" where
  "extract_lines plan path now n [] = []"
| "extract_lines plan path now n (l # ls) = (case match_task l of
      None \<Rightarrow> extract_lines plan path now n ls
    | Some (g1, m, g3, g4) \<Rightarrow>
        if normalizeTodoContent g4 = [] then extract_lines plan path now n ls
        else plan_todo plan path now n m (normalizeTodoContent g4) # extract_lines plan path now (Suc n) ls)"

definition extractPlanTodos :: "string \<Rightarrow> string \<Rightarrow> string \<Rightarrow> string \<Rightarrow> todo list" where
  "extractPlanTodos md plan path now = extract_lines plan path now 0 (split_lines md)"

section \<open>Merging a plan into a list\<close>

fun find_by :: "('a \<Rightarrow> bool) list \<Rightarrow> 'a list \<Rightarrow> 'a option" where
  "find_by [] xs = None"
| "find_by (P # Ps) xs = (case List.find P xs of Some x \<Rightarrow> Some x | None \<Rightarrow> find_by Ps xs)"

definition from_plan :: "(todo_source \<Rightarrow> bool) \<Rightarrow> todo \<Rightarrow> bool" where
  "from_plan P t = (case td_source t of None \<Rightarrow> False | Some s \<Rightarrow> P s)"

definition findExistingPlanTodo :: "todo list \<Rightarrow> string list \<Rightarrow> todo_source \<Rightarrow> todo option" where
  "findExistingPlanTodo existing used src = find_by
     [from_plan (\<lambda>s. sr_plan s = sr_plan src \<and> sr_path s = sr_path src \<and> sr_hash s = sr_hash src),
      from_plan (\<lambda>s. sr_path s = sr_path src \<and> sr_hash s = sr_hash src),
      \<lambda>t. todoContentHash (td_content t) = sr_hash src,
      from_plan (\<lambda>s. sr_plan s = sr_plan src \<and> sr_path s = sr_path src \<and> sr_ordinal s = sr_ordinal src)]
     (filter (\<lambda>t. td_id t \<notin> set used) existing)"

definition merge_item :: "bool \<Rightarrow> string \<Rightarrow> todo option \<Rightarrow> todo \<Rightarrow> todo" where
  "merge_item preserve now existing p = (case existing of
      None \<Rightarrow> p\<lparr>td_updated := now\<rparr>
    | Some e \<Rightarrow>
        let status = (if preserve \<and> td_status e = Todo_completed then td_status e else td_status e)
        in p\<lparr>td_id := td_id e, td_status := status, td_created := td_created e,
             td_updated := (if td_content e = td_content p \<and> td_status e = status then td_updated e else now)\<rparr>)"

fun merge_plan :: "bool \<Rightarrow> string \<Rightarrow> todo list \<Rightarrow> string list \<Rightarrow> todo list \<Rightarrow> todo list \<times> string list" where
  "merge_plan preserve now existing used [] = ([], used)"
| "merge_plan preserve now existing used (p # ps) = (
     let e = (case td_source p of None \<Rightarrow> None | Some s \<Rightarrow> findExistingPlanTodo existing used s);
         used' = (case e of None \<Rightarrow> used | Some x \<Rightarrow> td_id x # used);
         (rest, used'') = merge_plan preserve now existing used' ps
     in (merge_item preserve now e p # rest, used''))"

definition keep_existing :: "string \<Rightarrow> todo \<Rightarrow> todo" where
  "keep_existing now t = (if td_source t \<noteq> None then t\<lparr>td_source := None, td_updated := now\<rparr> else t)"

definition mergePlanTodos :: "string \<Rightarrow> todo_list option \<Rightarrow> todo list \<Rightarrow> string \<Rightarrow> bool \<Rightarrow> todo_list" where
  "mergePlanTodos thread existing plan_items now preserve = (
     let old = (case existing of None \<Rightarrow> [] | Some l \<Rightarrow> tdl_items l);
         (merged, used) = merge_plan preserve now old [] plan_items
     in \<lparr>tdl_thread = thread, tdl_items = merged @ map (keep_existing now) (filter (\<lambda>t. td_id t \<notin> set used) old),
         tdl_updated = now\<rparr>)"

section \<open>Writing a status back\<close>

fun plan_tasks :: "nat \<Rightarrow> string list \<Rightarrow> (nat \<times> task_match) list" where
  "plan_tasks i [] = []"
| "plan_tasks i (l # ls) = (case match_task l of
      None \<Rightarrow> plan_tasks (Suc i) ls | Some g \<Rightarrow> (i, g) # plan_tasks (Suc i) ls)"

definition task_hash :: "task_match \<Rightarrow> string" where
  "task_hash g = (case g of (g1, m, g3, g4) \<Rightarrow> todoContentHash g4)"

definition task_target :: "todo_source \<Rightarrow> (nat \<times> task_match) list \<Rightarrow> (nat \<times> task_match) option" where
  "task_target src tasks = map_option snd (find_by
     [\<lambda>(n, i, g). n = sr_ordinal src \<and> task_hash g = sr_hash src,
      \<lambda>(n, i, g). task_hash g = sr_hash src,
      \<lambda>(n, i, g). n = sr_ordinal src] (enumerate 0 tasks))"

definition line_ending :: "string \<Rightarrow> string" where
  "line_ending md = (if contains md [cr, lf] then [cr, lf] else [lf])"

definition patchPlanTodoStatus :: "string \<Rightarrow> todo \<Rightarrow> string \<times> bool" where
  "patchPlanTodoStatus md t = (case td_source t of
      None \<Rightarrow> (md, False)
    | Some src \<Rightarrow> (case task_target src (plan_tasks 0 (split_lines md)) of
          None \<Rightarrow> (md, False)
        | Some (i, g1, m, g3, g4) \<Rightarrow>
            let marker = (if td_status t = Todo_completed then CHR ''x'' else CHR '' '')
            in if js_lower_char m = marker then (md, False)
               else (join_lines (line_ending md) ((split_lines md)[i := g1 @ marker # g3 @ g4]), True)))"

definition sourceKey :: "todo_source \<Rightarrow> string" where
  "sourceKey s = ''plan:'' @ sr_plan s @ '':'' @ sr_path s @ '':'' @ show_nat (sr_ordinal s) @ '':'' @ sr_hash s"

section \<open>Normal contents\<close>

fun spaced :: "string \<Rightarrow> bool" where
  "spaced [] = True"
| "spaced (c # s) = ((is_js_space c \<longrightarrow> c = CHR '' '' \<and> (s = [] \<or> \<not> is_js_space (hd s))) \<and> spaced s)"

lemma space_is_space [simp]: "is_js_space (CHR '' '')"
  by (simp add: is_js_space_def)

lemma hd_collapse: "collapse_spaces s \<noteq> [] \<Longrightarrow> is_js_space (hd (collapse_spaces s)) = is_js_space (hd s) \<and> s \<noteq> []"
  by (cases s) auto

lemma spaced_collapse: "spaced (collapse_spaces s)"
proof (induction s rule: collapse_spaces.induct)
  case (2 c s)
  show ?case
  proof (cases "is_js_space c")
    case True
    have "collapse_spaces (dropWhile is_js_space s) = [] \<or> \<not> is_js_space (hd (collapse_spaces (dropWhile is_js_space s)))"
      using hd_collapse[of "dropWhile is_js_space s"] hd_dropWhile[of is_js_space s] by metis
    with 2(1)[OF True] True show ?thesis by simp
  qed (use 2 in simp)
qed simp

lemma collapse_spaced: "spaced s \<Longrightarrow> collapse_spaces s = s"
proof (induction s)
  case (Cons c s)
  then show ?case by (cases s) auto
qed simp

lemma spaced_dropWhile: "spaced s \<Longrightarrow> spaced (dropWhile P s)"
  by (induction s) auto

lemma spaced_append: "spaced (s @ t) \<Longrightarrow> spaced s"
proof (induction s)
  case (Cons c s)
  then show ?case by (cases s) auto
qed simp

lemma trim_end_prefix: "\<exists>w. s = trim_end s @ w \<and> (\<forall>c \<in> set w. is_js_space c)"
proof -
  have "rev s = takeWhile is_js_space (rev s) @ rev (trim_end s)" by (simp add: trim_end_def)
  then have "s = trim_end s @ rev (takeWhile is_js_space (rev s))" by (metis rev_append rev_rev_ident)
  then show ?thesis by (metis set_rev set_takeWhileD)
qed

lemma normalize_idem: "normalizeTodoContent (normalizeTodoContent s) = normalizeTodoContent s"
proof -
  have "spaced (trim_start (collapse_spaces s))"
    by (simp add: trim_start_def spaced_dropWhile spaced_collapse)
  then have "spaced (trim (collapse_spaces s))"
    using trim_end_prefix[of "trim_start (collapse_spaces s)"] spaced_append by (metis trim_def)
  then show ?thesis by (simp add: normalizeTodoContent_def collapse_spaced)
qed

lemma hash_normal: "todoContentHash (normalizeTodoContent s) = todoContentHash s"
  by (simp add: todoContentHash_def normalize_idem)

section \<open>Matching a rewritten line\<close>

lemma takeWhile_stop: "(\<And>c. c \<in> set s \<Longrightarrow> P c) \<Longrightarrow> \<not> P b \<Longrightarrow>
    takeWhile P (s @ b # t) = s \<and> dropWhile P (s @ b # t) = b # t"
  by (simp add: takeWhile_append2 dropWhile_append2)

lemma trim_end_idem [simp]: "trim_end (trim_end s) = trim_end s"
  by (simp add: trim_end_def dropWhile_idem)

lemma trim_end_last: "trim_end s \<noteq> [] \<Longrightarrow> \<not> is_js_space (last (trim_end s))"
proof -
  assume "trim_end s \<noteq> []"
  then have "dropWhile is_js_space (rev s) \<noteq> []" by (simp add: trim_end_def)
  from hd_dropWhile[OF this] show ?thesis by (simp add: trim_end_def last_rev)
qed

lemma trim_end_hd: "s \<noteq> [] \<Longrightarrow> \<not> is_js_space (hd s) \<Longrightarrow> trim_end s \<noteq> [] \<and> hd (trim_end s) = hd s"
proof -
  assume s: "s \<noteq> []" "\<not> is_js_space (hd s)"
  obtain w where w: "s = trim_end s @ w" "\<forall>c \<in> set w. is_js_space c" using trim_end_prefix[of s] by blast
  have "trim_end s \<noteq> []"
  proof
    assume e: "trim_end s = []"
    then have "s = w" using w(1) by simp
    with s w(2) show False by (cases s) auto
  qed
  then show ?thesis using w(1) by (metis hd_append2)
qed

lemma match_tail_text:
  assumes "match_tail r = Some (ws, p)" and "normalizeTodoContent p \<noteq> []"
  shows "(\<forall>c \<in> set ws. is_js_space c) \<and> ws \<noteq> [] \<and> p \<noteq> [] \<and> \<not> is_js_space (hd p) \<and> \<not> is_js_space (last p) \<and>
    trim_end p = p \<and> cr \<notin> set p \<and> lf \<notin> set p \<and> set ws \<subseteq> set r"
proof (cases "dropWhile is_js_space r = []")
  case True
  then have sp: "\<forall>c \<in> set r. is_js_space c" by (simp add: dropWhile_eq_Nil_conv)
  then have t: "takeWhile is_js_space r = r" by (simp add: takeWhile_eq_all_conv)
  let ?rest = "rev (dropWhile (\<lambda>c. c = cr \<or> c = lf) (rev (drop 1 r)))"
  have p: "p = [last ?rest]" "?rest \<noteq> []"
    using assms(1) True t by (auto simp: match_tail_def Let_def split: if_splits)
  have "set ?rest \<subseteq> set r"
    by (metis set_rev set_dropWhileD set_drop_subset subsetD subsetI)
  then have "is_js_space (last ?rest)" using p(2) sp last_in_set by blast
  then have "normalizeTodoContent p = []"
    by (simp add: p normalizeTodoContent_def trim_def trim_start_def trim_end_def)
  with assms(2) show ?thesis by simp
next
  case False
  then have "ws = takeWhile is_js_space r" "p = trim_end (dropWhile is_js_space r)" "ws \<noteq> []"
    "cr \<notin> set p" "lf \<notin> set p"
    using assms(1) by (auto simp: match_tail_def Let_def split: if_splits)
  moreover have "\<not> is_js_space (hd (dropWhile is_js_space r))" using False by (rule hd_dropWhile)
  ultimately show ?thesis using trim_end_hd[OF False] trim_end_last[of "dropWhile is_js_space r"]
    by (auto dest: set_takeWhileD)
qed

lemma match_tail_again:
  assumes "\<forall>c \<in> set ws. is_js_space c" and "ws \<noteq> []" and "p \<noteq> []" and "\<not> is_js_space (hd p)" and "trim_end p = p"
    and "cr \<notin> set p" and "lf \<notin> set p"
  shows "match_tail (ws @ p) = Some (ws, p)"
proof -
  have "takeWhile is_js_space (ws @ hd p # tl p) = ws \<and> dropWhile is_js_space (ws @ hd p # tl p) = hd p # tl p"
    by (rule takeWhile_stop) (use assms in auto)
  with assms show ?thesis by (simp add: match_tail_def)
qed

lemma match_task_parts:
  assumes "match_task l = Some (g1, m, g3, g4)"
  obtains s0 b s1 r3 ws where "g1 = s0 @ b # s1 @ ''[''" and "g3 = CHR '']'' # ws" and "match_tail r3 = Some (ws, g4)"
    and "\<forall>c \<in> set s0. is_js_space c" and "\<forall>c \<in> set s1. is_js_space c" and "s1 \<noteq> []" and "b \<in> set ''-*+''"
    and "m \<in> set '' xX''" and "l = s0 @ b # s1 @ CHR ''['' # m # CHR '']'' # r3"
proof -
  let ?s0 = "takeWhile is_js_space l"
  obtain b r1 where d: "dropWhile is_js_space l = b # r1"
    using assms by (cases "dropWhile is_js_space l") (simp_all add: match_task_def)
  let ?s1 = "takeWhile is_js_space r1"
  have b: "b \<in> set ''-*+''" "?s1 \<noteq> []" using assms d by (auto simp: match_task_def split: if_splits)
  obtain p m' q r3 where d1: "dropWhile is_js_space r1 = p # m' # q # r3"
    using assms d b by (auto simp: match_task_def split: list.splits)
  have q: "p = CHR ''[''" "m' \<in> set '' xX''" "q = CHR '']''"
    using assms d b d1 by (auto simp: match_task_def split: if_splits)
  obtain ws where w: "match_tail r3 = Some (ws, g4)" "g1 = ?s0 @ b # ?s1 @ ''[''" "m' = m" "g3 = CHR '']'' # ws"
    using assms d b d1 q by (auto simp: match_task_def split: if_splits)
  have "l = ?s0 @ b # r1" "r1 = ?s1 @ p # m' # q # r3"
    using d d1 by (metis takeWhile_dropWhile_id)+
  then have "l = ?s0 @ b # ?s1 @ CHR ''['' # m # CHR '']'' # r3" using q w by simp
  then show thesis using that[of ?s0 b ?s1 ws r3] b q w by (metis set_takeWhileD)
qed

lemma match_task_again:
  assumes "match_task l = Some (g1, m, g3, g4)" and "normalizeTodoContent g4 \<noteq> []" and "m' \<in> set '' xX''"
  shows "match_task (g1 @ m' # g3 @ g4) = Some (g1, m', g3, g4)"
    and "\<not> is_js_space (last (g1 @ m' # g3 @ g4))" and "lf \<notin> set l \<Longrightarrow> lf \<notin> set (g1 @ m' # g3 @ g4)"
proof -
  from assms(1) obtain s0 b s1 r3 ws where g: "g1 = s0 @ b # s1 @ ''[''" "g3 = CHR '']'' # ws" "match_tail r3 = Some (ws, g4)"
    "\<forall>c \<in> set s0. is_js_space c" "\<forall>c \<in> set s1. is_js_space c" "s1 \<noteq> []" "b \<in> set ''-*+''" "m \<in> set '' xX''"
    "l = s0 @ b # s1 @ CHR ''['' # m # CHR '']'' # r3" by (rule match_task_parts)
  note t = match_tail_text[OF g(3) assms(2)]
  have tail: "match_tail (ws @ g4) = Some (ws, g4)" using t by (intro match_tail_again) auto
  have b: "\<not> is_js_space b" using g(7) by (auto simp: is_js_space_def)
  have open_bracket: "\<not> is_js_space (CHR ''['')" by (simp add: is_js_space_def)
  have s0: "takeWhile is_js_space (s0 @ b # x) = s0 \<and> dropWhile is_js_space (s0 @ b # x) = b # x" for x
    using g(4) b by (intro takeWhile_stop) auto
  have s1: "takeWhile is_js_space (s1 @ CHR ''['' # x) = s1 \<and> dropWhile is_js_space (s1 @ CHR ''['' # x) = CHR ''['' # x" for x
    using g(5) open_bracket by (intro takeWhile_stop) auto
  show "match_task (g1 @ m' # g3 @ g4) = Some (g1, m', g3, g4)"
    using g(6,7) assms(3) tail s0 s1 by (simp add: match_task_def g(1,2))
  show "\<not> is_js_space (last (g1 @ m' # g3 @ g4))" using t by (simp add: g(2))
  have "set ws \<subseteq> set r3" using t by simp
  moreover have "b \<noteq> lf" "m' \<noteq> lf" using g(7) assms(3) by auto
  ultimately show "lf \<notin> set (g1 @ m' # g3 @ g4)" if "lf \<notin> set l" using that g(9) t by (auto simp: g(1,2))
qed

section \<open>Lines\<close>

lemma split_lines_nonempty [simp]: "split_lines s \<noteq> []"
  by (induction s rule: split_lines.induct) (auto split: list.split)

lemma split_lines_no_lf: "l \<in> set (split_lines s) \<Longrightarrow> lf \<notin> set l"
proof (induction s arbitrary: l rule: split_lines.induct)
  case (2 c s)
  show ?case
  proof (cases "c = lf \<or> (c = cr \<and> s \<noteq> [] \<and> hd s = lf)")
    case True
    with 2 show ?thesis by (auto split: if_splits)
  next
    case False
    obtain k ks where k: "split_lines s = k # ks" by (cases "split_lines s") auto
    with False 2 show ?thesis by auto
  qed
qed simp

lemma split_lines_other:
  "c \<noteq> lf \<Longrightarrow> \<not> (c = cr \<and> s \<noteq> [] \<and> hd s = lf) \<Longrightarrow>
     split_lines (c # s) = (c # hd (split_lines s)) # tl (split_lines s)"
  by (cases "split_lines s") auto

lemma starts_lf: "starts_with s [lf] \<longleftrightarrow> s \<noteq> [] \<and> hd s = lf"
  by (cases s) auto

lemma starts_crlf: "starts_with (c # s) [cr, lf] \<longleftrightarrow> c = cr \<and> s \<noteq> [] \<and> hd s = lf"
  by (cases s) auto

lemma split_lines_cr:
  assumes "\<not> contains s [cr, lf]" and "l \<in> set (butlast (split_lines s))"
  shows "l = [] \<or> last l \<noteq> cr"
  using assms
proof (induction s arbitrary: l)
  case (Cons c s)
  have s: "\<not> contains s [cr, lf]" "\<not> (c = cr \<and> s \<noteq> [] \<and> hd s = lf)"
    using Cons.prems(1) by (simp_all add: starts_lf)
  show ?case
  proof (cases "c = lf")
    case True
    then have "split_lines (c # s) = [] # split_lines s" by simp
    with Cons.prems(2) Cons.IH[OF s(1), of l] show ?thesis by (auto split: if_splits)
  next
    case False
    obtain k ks where k: "split_lines s = k # ks" by (cases "split_lines s") auto
    have sp: "split_lines (c # s) = (c # k) # ks" using split_lines_other[OF False s(2)] k by simp
    have "ks \<noteq> []" using Cons.prems(2) sp by auto
    then have k_in: "k \<in> set (butlast (split_lines s))" and l: "l = c # k \<or> l \<in> set (butlast (split_lines s))"
      using k sp Cons.prems(2) by auto
    have "last (c # k) \<noteq> cr"
    proof (cases "k = []")
      case True
      obtain d s' where d: "s = d # s'" using k \<open>ks \<noteq> []\<close> by (cases s) auto
      have "d = lf"
      proof (rule ccontr)
        assume "d \<noteq> lf"
        moreover have "\<not> (d = cr \<and> s' \<noteq> [] \<and> hd s' = lf)" using s(1) d by (simp add: starts_lf)
        ultimately have "split_lines s = (d # hd (split_lines s')) # tl (split_lines s')"
          using split_lines_other d by blast
        with k True show False by simp
      qed
      with d s(2) True show ?thesis by auto
    next
      case False
      with Cons.IH[OF s(1) k_in] show ?thesis by simp
    qed
    with l Cons.IH[OF s(1), of l] show ?thesis by blast
  qed
qed simp

lemma split_line: "lf \<notin> set l \<Longrightarrow> split_lines l = [l]"
proof (induction l)
  case (Cons c l)
  then have "split_lines (c # l) = (c # hd (split_lines l)) # tl (split_lines l)"
    by (intro split_lines_other) (auto dest: hd_in_set)
  with Cons show ?case by simp
qed simp

lemma split_at_lf:
  "lf \<notin> set l \<Longrightarrow> l = [] \<or> last l \<noteq> cr \<Longrightarrow> split_lines (l @ lf # s) = l # split_lines s"
proof (induction l)
  case (Cons c l)
  then have "split_lines (c # l @ lf # s) = (c # hd (split_lines (l @ lf # s))) # tl (split_lines (l @ lf # s))"
    by (intro split_lines_other) (cases l; auto)+
  with Cons show ?case by (cases l) simp_all
qed simp

lemma split_at_crlf: "lf \<notin> set l \<Longrightarrow> split_lines (l @ cr # lf # s) = l # split_lines s"
proof (induction l)
  case (Cons c l)
  then have "split_lines (c # l @ cr # lf # s) =
      (c # hd (split_lines (l @ cr # lf # s))) # tl (split_lines (l @ cr # lf # s))"
    by (intro split_lines_other) (cases l; auto)+
  with Cons show ?case by simp
qed simp

lemma split_join:
  assumes "ls \<noteq> []" and "\<And>l. l \<in> set ls \<Longrightarrow> lf \<notin> set l"
    and "e = [cr, lf] \<or> (e = [lf] \<and> (\<forall>l \<in> set (butlast ls). l = [] \<or> last l \<noteq> cr))"
  shows "split_lines (join_lines e ls) = ls"
  using assms
proof (induction e ls rule: join_lines.induct)
  case (2 e l)
  then show ?case by (simp add: split_line)
next
  case (3 e l k ls)
  have ih: "split_lines (join_lines e (k # ls)) = k # ls"
  proof (rule 3(1))
    show "k # ls \<noteq> []" "\<And>x. x \<in> set (k # ls) \<Longrightarrow> lf \<notin> set x" using 3(3) by simp_all
    show "e = [cr, lf] \<or> (e = [lf] \<and> (\<forall>l \<in> set (butlast (k # ls)). l = [] \<or> last l \<noteq> cr))"
      using 3(4) by (elim disjE) simp_all
  qed
  from 3(4) show ?case
  proof
    assume "e = [cr, lf]"
    then show ?thesis using ih split_at_crlf[of l] 3(3) by simp
  next
    assume "e = [lf] \<and> (\<forall>l \<in> set (butlast (l # k # ls)). l = [] \<or> last l \<noteq> cr)"
    then show ?thesis using ih split_at_lf[of l] 3(3) by simp
  qed
qed simp

section \<open>Tasks and to-dos\<close>

definition no_blank_task :: "string \<Rightarrow> bool" where
  "no_blank_task md \<longleftrightarrow> (\<forall>l \<in> set (split_lines md). \<forall>g1 m g3 g4.
     match_task l = Some (g1, m, g3, g4) \<longrightarrow> normalizeTodoContent g4 \<noteq> [])"

definition todo_of_task :: "string \<Rightarrow> string \<Rightarrow> string \<Rightarrow> nat \<times> nat \<times> task_match \<Rightarrow> todo" where
  "todo_of_task plan path now x = (case x of (n, i, g1, m, g3, g4) \<Rightarrow>
     plan_todo plan path now n m (normalizeTodoContent g4))"

lemma extract_lines_tasks:
  assumes "\<forall>l \<in> set ls. \<forall>g1 m g3 g4. match_task l = Some (g1, m, g3, g4) \<longrightarrow> normalizeTodoContent g4 \<noteq> []"
  shows "extract_lines plan path now n ls = map (todo_of_task plan path now) (enumerate n (plan_tasks i ls))"
  using assms
proof (induction ls arbitrary: n i)
  case (Cons l ls)
  then have ih: "extract_lines plan path now n ls =
      map (todo_of_task plan path now) (enumerate n (plan_tasks i ls))" for n i by simp
  show ?case
  proof (cases "match_task l")
    case None
    then show ?thesis using ih by simp
  next
    case (Some g)
    obtain g1 m g3 g4 where g: "g = (g1, m, g3, g4)" by (cases g) auto
    with Some Cons.prems have "normalizeTodoContent g4 \<noteq> []" by auto
    with Some g ih[of "Suc n" "Suc i"] show ?thesis by (simp add: todo_of_task_def)
  qed
qed simp

lemma plan_tasks_nth:
  "k < length (plan_tasks i ls) \<Longrightarrow> plan_tasks i ls ! k = (j, g) \<Longrightarrow>
     i \<le> j \<and> j - i < length ls \<and> match_task (ls ! (j - i)) = Some g"
proof (induction ls arbitrary: i k)
  case (Cons l ls)
  show ?case
  proof (cases "match_task l")
    case None
    with Cons.IH[of k "Suc i"] Cons.prems show ?thesis by (auto simp: Suc_le_eq nth_Cons' le_eq_less_or_eq)
  next
    case (Some h)
    show ?thesis
    proof (cases k)
      case 0
      with Some Cons.prems show ?thesis by simp
    next
      case (Suc k')
      with Some Cons.IH[of k' "Suc i"] Cons.prems show ?thesis by (auto simp: Suc_le_eq nth_Cons' le_eq_less_or_eq)
    qed
  qed
qed simp

lemma plan_tasks_update:
  "k < length (plan_tasks i ls) \<Longrightarrow> plan_tasks i ls ! k = (j, g) \<Longrightarrow> match_task l' = Some g' \<Longrightarrow>
     plan_tasks i (ls[j - i := l']) = (plan_tasks i ls)[k := (j, g')]"
proof (induction ls arbitrary: i k)
  case (Cons l ls)
  note pos = plan_tasks_nth[of _ "Suc i" ls j g]
  show ?case
  proof (cases "match_task l")
    case None
    then have k: "k < length (plan_tasks (Suc i) ls)" "plan_tasks (Suc i) ls ! k = (j, g)" using Cons.prems by simp_all
    from pos[OF this] have "Suc i \<le> j" by blast
    then have "j - i = Suc (j - Suc i)" by arith
    with Cons.IH[OF k Cons.prems(3)] None show ?thesis by simp
  next
    case (Some h)
    show ?thesis
    proof (cases k)
      case 0
      with Some Cons.prems show ?thesis by simp
    next
      case (Suc k')
      then have k: "k' < length (plan_tasks (Suc i) ls)" "plan_tasks (Suc i) ls ! k' = (j, g)"
        using Cons.prems Some by simp_all
      from pos[OF this] have "Suc i \<le> j" by blast
    then have "j - i = Suc (j - Suc i)" by arith
      with Cons.IH[OF k Cons.prems(3)] Some Suc show ?thesis by simp
    qed
  qed
qed simp

lemma enumerate_update: "enumerate n (xs[i := x]) = (enumerate n xs)[i := (n + i, x)]"
proof (cases "i < length xs")
  case True
  show ?thesis
  proof (rule nth_equalityI)
    fix k
    assume "k < length (enumerate n (xs[i := x]))"
    with True show "enumerate n (xs[i := x]) ! k = (enumerate n xs)[i := (n + i, x)] ! k"
      by (cases "k = i") (simp_all add: nth_enumerate_eq)
  qed simp
qed (simp add: list_update_beyond)

lemma find_enumerate:
  "i < length xs \<Longrightarrow> Q (xs ! i) \<Longrightarrow> List.find (\<lambda>(n, x). n = k + i \<and> Q x) (enumerate k xs) = Some (k + i, xs ! i)"
proof (induction xs arbitrary: i k)
  case (Cons x xs)
  show ?case
  proof (cases i)
    case 0
    with Cons.prems show ?thesis by simp
  next
    case (Suc i')
    with Cons.IH[of i' "Suc k"] Cons.prems show ?thesis by simp
  qed
qed simp

lemma plan_todo_marker:
  "plan_todo plan path now n m' c = (plan_todo plan path now n m c)\<lparr>td_status := taskMarkerToStatus m'\<rparr>"
  by (simp add: plan_todo_def Let_def)

lemma lower_marker: "m \<in> set '' xX'' \<Longrightarrow>
    (js_lower_char m = CHR ''x'' \<longleftrightarrow> m \<noteq> CHR '' '') \<and> (js_lower_char m = CHR '' '' \<longleftrightarrow> m = CHR '' '')"
proof -
  have "js_lower_char (CHR ''x'') = CHR ''x''" "js_lower_char (CHR ''X'') = CHR ''x''"
    "js_lower_char (CHR '' '') = CHR '' ''" by code_simp+
  then show "m \<in> set '' xX'' \<Longrightarrow> ?thesis" by auto
qed

lemma extract_task:
  assumes "no_blank_task md" and "i < length (extractPlanTodos md plan path now)"
  obtains j g1 m g3 g4 where "plan_tasks 0 (split_lines md) ! i = (j, g1, m, g3, g4)"
    and "i < length (plan_tasks 0 (split_lines md))" and "j < length (split_lines md)"
    and "match_task (split_lines md ! j) = Some (g1, m, g3, g4)" and "normalizeTodoContent g4 \<noteq> []"
    and "extractPlanTodos md plan path now ! i = plan_todo plan path now i m (normalizeTodoContent g4)"
    and "extractPlanTodos md plan path now = map (todo_of_task plan path now) (enumerate 0 (plan_tasks 0 (split_lines md)))"
proof -
  let ?ls = "split_lines md"
  have ex: "extractPlanTodos md plan path now = map (todo_of_task plan path now) (enumerate 0 (plan_tasks 0 ?ls))"
    unfolding extractPlanTodos_def
    by (rule extract_lines_tasks) (use assms(1) in \<open>simp add: no_blank_task_def\<close>)
  obtain j g1 m g3 g4 where g: "plan_tasks 0 ?ls ! i = (j, g1, m, g3, g4)" by (metis prod.exhaust)
  have i: "i < length (plan_tasks 0 ?ls)" using assms(2) ex by simp
  have j: "j < length ?ls" "match_task (?ls ! j) = Some (g1, m, g3, g4)"
    using plan_tasks_nth[OF i g] by simp_all
  then have "normalizeTodoContent g4 \<noteq> []" using assms(1) nth_mem unfolding no_blank_task_def by blast
  moreover have "extractPlanTodos md plan path now ! i = plan_todo plan path now i m (normalizeTodoContent g4)"
    using i g by (simp add: ex nth_enumerate_eq todo_of_task_def)
  ultimately show thesis using that[OF g i j] ex by blast
qed

text \<open>
  Writing a status into a plan and reading the plan again gives the list with that status. For a plan
  whose task lines all have a text, patching the plan with a to-do that comes from its \<open>i\<close>-th task, and
  extracting the tasks of the result, gives the same to-dos in the same order, with the status of the
  \<open>i\<close>-th set to completed or, for any other status, to pending; ids, contents and hashes are unchanged,
  whatever line endings, bullets and spacing the plan uses.
\<close>

theorem plan_status_roundtrip:
  assumes "no_blank_task md" and "i < length (extractPlanTodos md plan path now)"
    and "td_source t = td_source (extractPlanTodos md plan path now ! i)"
  shows "extractPlanTodos (fst (patchPlanTodoStatus md t)) plan path now = (extractPlanTodos md plan path now)
    [i := (extractPlanTodos md plan path now ! i)
      \<lparr>td_status := if td_status t = Todo_completed then Todo_completed else Todo_pending\<rparr>]"
proof -
  let ?ls = "split_lines md" and ?ts = "plan_tasks 0 (split_lines md)" and ?xs = "extractPlanTodos md plan path now"
  let ?marker = "if td_status t = Todo_completed then CHR ''x'' else CHR '' ''"
  let ?status = "if td_status t = Todo_completed then Todo_completed else Todo_pending"
  from assms(1,2) obtain j g1 m g3 g4 where g: "?ts ! i = (j, g1, m, g3, g4)" "i < length ?ts" "j < length ?ls"
    "match_task (?ls ! j) = Some (g1, m, g3, g4)" "normalizeTodoContent g4 \<noteq> []"
    and x: "?xs ! i = plan_todo plan path now i m (normalizeTodoContent g4)"
    and ex: "?xs = map (todo_of_task plan path now) (enumerate 0 ?ts)" by (rule extract_task)
  have m: "m \<in> set '' xX''" using match_task_parts[OF g(4)] by blast
  let ?src = "\<lparr>sr_plan = plan, sr_path = normalizePlanRelativePath path, sr_ordinal = i,
      sr_hash = todoContentHash (normalizeTodoContent g4)\<rparr>"
  have src: "td_source t = Some ?src" using assms(3) x by (simp add: plan_todo_def Let_def)
  have "task_hash (snd (?ts ! i)) = sr_hash ?src" by (simp add: g(1) task_hash_def hash_normal)
  then have "List.find (\<lambda>(n, x). n = 0 + i \<and> task_hash (snd x) = sr_hash ?src) (enumerate 0 ?ts) = Some (0 + i, ?ts ! i)"
    by (rule find_enumerate[OF g(2)])
  then have target: "task_target ?src ?ts = Some (j, g1, m, g3, g4)"
    by (simp add: task_target_def g(1) case_prod_beta)
  have status: "taskMarkerToStatus ?marker = ?status" by (simp add: taskMarkerToStatus_def js_lower_char_def)
  show ?thesis
  proof (cases "js_lower_char m = ?marker")
    case True
    then have "taskMarkerToStatus m = ?status" using lower_marker[OF m] by (auto simp: taskMarkerToStatus_def split: if_splits)
    then have "(?xs ! i)\<lparr>td_status := ?status\<rparr> = ?xs ! i" by (simp add: x plan_todo_def Let_def)
    moreover have "fst (patchPlanTodoStatus md t) = md" using True by (simp add: patchPlanTodoStatus_def src target Let_def)
    ultimately show ?thesis by simp
  next
    case False
    let ?l = "g1 @ ?marker # g3 @ g4" and ?new = "?ls[j := g1 @ ?marker # g3 @ g4]"
    have marker: "?marker \<in> set '' xX''" by simp
    note again = match_task_again[OF g(4,5) marker]
    have "fst (patchPlanTodoStatus md t) = join_lines (line_ending md) ?new"
      using False by (simp add: patchPlanTodoStatus_def src target Let_def)
    moreover have "split_lines (join_lines (line_ending md) ?new) = ?new"
    proof (rule split_join)
      show "?new \<noteq> []" by simp
      have "lf \<notin> set ?l" using again(3) split_lines_no_lf g(3) nth_mem by blast
      then show "lf \<notin> set l" if "l \<in> set ?new" for l
        using that split_lines_no_lf set_update_subset_insert[of ?ls j ?l] by blast
      have "last ?l \<noteq> cr" using again(2) by (auto simp: is_js_space_def)
      moreover have "l = ?l \<or> l \<in> set (butlast ?ls)" if "l \<in> set (butlast ?new)" for l
        using that set_update_subset_insert[of "butlast ?ls" j ?l] by (auto simp: butlast_list_update split: if_splits)
      ultimately show "line_ending md = [cr, lf] \<or>
          (line_ending md = [lf] \<and> (\<forall>l \<in> set (butlast ?new). l = [] \<or> last l \<noteq> cr))"
        using split_lines_cr[of md] unfolding line_ending_def by metis
    qed
    ultimately have split: "split_lines (fst (patchPlanTodoStatus md t)) = ?new" by simp
    have tasks: "plan_tasks 0 ?new = ?ts[i := (j, g1, ?marker, g3, g4)]"
      using plan_tasks_update[OF g(2,1) again(1)] by simp
    have "extract_lines plan path now 0 ?new = map (todo_of_task plan path now) (enumerate 0 (plan_tasks 0 ?new))"
    proof (rule extract_lines_tasks, intro ballI allI impI)
      fix l h1 n h3 h4
      assume l: "l \<in> set ?new" "match_task l = Some (h1, n, h3, h4)"
      then consider "l = ?l" | "l \<in> set ?ls" using set_update_subset_insert[of ?ls j ?l] by blast
      then show "normalizeTodoContent h4 \<noteq> []"
      proof cases
        case 1
        with again(1) l(2) g(5) show ?thesis by simp
      next
        case 2
        with l(2) assms(1) show ?thesis by (auto simp: no_blank_task_def)
      qed
    qed
    then have "extractPlanTodos (fst (patchPlanTodoStatus md t)) plan path now =
        ?xs[i := plan_todo plan path now i ?marker (normalizeTodoContent g4)]"
      by (simp add: extractPlanTodos_def[of "fst _"] split tasks enumerate_update map_update ex todo_of_task_def)
    then show ?thesis
      by (simp only: x status plan_todo_marker[of plan path now i ?marker "normalizeTodoContent g4" m])
  qed
qed

definition sample_plan :: string where
  "sample_plan = ''- [ ] one'' @ [lf] @ ''note'' @ [lf] @ ''* [x]  two''"

theorem plan_status_roundtrip_witness:
  "map td_status (extractPlanTodos (fst (patchPlanTodoStatus sample_plan
     ((extractPlanTodos sample_plan ''p'' ''f.md'' ''n'' ! 0)\<lparr>td_status := Todo_completed\<rparr>))) ''p'' ''f.md'' ''n'') =
   [Todo_completed, Todo_completed]"
proof -
  let ?xs = "extractPlanTodos sample_plan ''p'' ''f.md'' ''n''"
  have ls: "split_lines sample_plan = [''- [ ] one'', ''note'', ''* [x]  two'']" by code_simp
  have m: "match_task ''- [ ] one'' = Some (''- ['', CHR '' '', ''] '', ''one'')" "match_task ''note'' = None"
    "match_task ''* [x]  two'' = Some (''* ['', CHR ''x'', '']  '', ''two'')" by code_simp+
  have c: "normalizeTodoContent ''one'' = ''one''" "normalizeTodoContent ''two'' = ''two''" by code_simp+
  have nb: "no_blank_task sample_plan" by (simp add: no_blank_task_def ls m c)
  have st: "taskMarkerToStatus (CHR '' '') = Todo_pending" "taskMarkerToStatus (CHR ''x'') = Todo_completed" by code_simp+
  have xs: "map td_status ?xs = [Todo_pending, Todo_completed]" "length ?xs = 2"
    by (simp_all add: extractPlanTodos_def ls m c plan_todo_def Let_def st)
  from plan_status_roundtrip[OF nb, of 0 "''p''" "''f.md''" "''n''" "(?xs ! 0)\<lparr>td_status := Todo_completed\<rparr>"] xs
  show ?thesis by (simp add: map_update)
qed

section \<open>Merging\<close>

lemma merge_plan_preserve: "merge_plan True now existing used ps = merge_plan False now existing used ps"
  by (induction ps arbitrary: used) (auto simp: merge_item_def Let_def split: option.split)

text \<open>
  The option to preserve completed to-dos has no effect on a merge: the status of a to-do that exists is
  kept whatever the option says and whatever the plan's check boxes say.
\<close>

theorem preserve_completed_ignored:
  "mergePlanTodos thread existing items now preserve = mergePlanTodos thread existing items now (\<not> preserve) \<and>
   td_status (merge_item preserve now (Some e) p) = td_status e"
  by (cases preserve) (simp_all add: mergePlanTodos_def merge_plan_preserve merge_item_def Let_def)

lemma find_by_Some: "find_by Ps xs = Some x \<Longrightarrow> x \<in> set xs"
proof (induction Ps)
  case (Cons P Ps)
  then show ?case by (auto split: option.splits simp: find_Some_iff)
qed simp

lemma merge_plan_used:
  "merge_plan preserve now existing used ps = (xs, used') \<Longrightarrow>
     map td_content xs = map td_content ps \<and> set used \<subseteq> set used' \<and> set used' \<subseteq> set used \<union> td_id ` set xs"
proof (induction ps arbitrary: used xs used')
  case (Cons p ps)
  let ?e = "case td_source p of None \<Rightarrow> None | Some s \<Rightarrow> findExistingPlanTodo existing used s"
  let ?u = "case ?e of None \<Rightarrow> used | Some x \<Rightarrow> td_id x # used"
  obtain ys v where r: "merge_plan preserve now existing ?u ps = (ys, v)" by force
  have x: "xs = merge_item preserve now ?e p # ys" "used' = v" using Cons.prems r by (simp_all add: Let_def)
  from Cons.IH[OF r] show ?case unfolding x
    by (cases ?e) (auto simp: merge_item_def Let_def)
qed simp

text \<open>
  A merge loses nothing: the to-dos of the plan come first, in the plan's order and with its texts, and
  every to-do of the list that existed is still there under its id.
\<close>

theorem merge_keeps_everything:
  "map td_content (take (length items) (tdl_items (mergePlanTodos thread existing items now preserve))) =
     map td_content items \<and>
   td_id ` set (case existing of None \<Rightarrow> [] | Some l \<Rightarrow> tdl_items l) \<subseteq>
     td_id ` set (tdl_items (mergePlanTodos thread existing items now preserve))"
proof -
  let ?old = "case existing of None \<Rightarrow> [] | Some l \<Rightarrow> tdl_items l"
  obtain xs used where m: "merge_plan preserve now ?old [] items = (xs, used)" by force
  from merge_plan_used[OF m] have c: "map td_content xs = map td_content items" and u: "set used \<subseteq> td_id ` set xs" by auto
  have len: "length xs = length items" using c by (metis length_map)
  have items: "tdl_items (mergePlanTodos thread existing items now preserve) =
      xs @ map (keep_existing now) (filter (\<lambda>t. td_id t \<notin> set used) ?old)"
    by (simp add: mergePlanTodos_def m)
  have "td_id t \<in> td_id ` set (tdl_items (mergePlanTodos thread existing items now preserve))" if t: "t \<in> set ?old" for t
  proof (cases "td_id t \<in> set used")
    case True
    with u show ?thesis by (auto simp: items)
  next
    case False
    then have "keep_existing now t \<in> set (map (keep_existing now) (filter (\<lambda>t. td_id t \<notin> set used) ?old))"
      using t by simp
    moreover have "td_id (keep_existing now t) = td_id t" by (simp add: keep_existing_def)
    ultimately show ?thesis unfolding items by (metis UnI2 image_eqI set_append)
  qed
  with c len show ?thesis by (auto simp: items)
qed

section \<open>Plan paths\<close>

lemma starts_with_append: "starts_with s p \<Longrightarrow> s = p @ drop (length p) s"
proof (induction s p rule: starts_with.induct)
  case (3 d s c cs)
  then show ?case by simp
qed simp_all

text \<open>
  An accepted plan path names a Markdown file directly inside one of the two plan directories: after
  normalisation it is a plan directory, a slash and a file name without any slash that is neither empty
  nor the parent directory.
\<close>

theorem plan_path_confined:
  assumes "isGuiPlanRelativePath p"
  shows "\<exists>d \<in> set plan_dirs. \<exists>name. js_lower (normalizePlanRelativePath p) = d @ ''/'' @ name \<and>
    name \<noteq> [] \<and> CHR ''/'' \<notin> set name \<and> name \<noteq> ''..'' \<and> ends_with (d @ ''/'' @ name) ''.md''"
proof -
  let ?q = "js_lower (normalizePlanRelativePath p)"
  obtain d where f: "List.find (\<lambda>d. starts_with ?q (d @ ''/'')) plan_dirs = Some d"
    and q: "ends_with ?q ''.md''" "drop (length d + 1) ?q \<noteq> []" "CHR ''/'' \<notin> set (drop (length d + 1) ?q)"
      "drop (length d + 1) ?q \<noteq> ''..''"
    using assms by (auto simp: isGuiPlanRelativePath_def Let_def split: option.splits)
  have d: "d \<in> set plan_dirs" "starts_with ?q (d @ ''/'')" using f by (auto simp: find_Some_iff)
  have "?q = d @ ''/'' @ drop (length d + 1) ?q" using starts_with_append[OF d(2)] by simp
  with d(1) q show ?thesis by metis
qed

theorem plan_path_confined_witness:
  "\<exists>d \<in> set plan_dirs. \<exists>name. js_lower (normalizePlanRelativePath ''./.QiongQiSDD//plan/A.md'') = d @ ''/'' @ name \<and>
    CHR ''/'' \<notin> set name"
proof -
  have "isGuiPlanRelativePath ''./.QiongQiSDD//plan/A.md''" by code_simp
  from plan_path_confined[OF this] show ?thesis by blast
qed

end
