(* ===== verification/TurnService.thy ===== *)
theory TurnService
  imports Threads EventBoundary TurnQueues
begin

text \<open>
  The life of a turn (\<open>services/src/turn-service.ts\<close>): starting, steering, interrupting and finishing a
  turn, and the items applied to it, over the thread store, the session store behind the recorder, the
  steering queue and the tracker of running work.

  A handler runs its steps in the order of the source; an event that its schema refuses makes
  \<open>record\<close> throw, and what was done before stays. The queues of the service let one mutation of a
  thread run at a time, so each handler is a function on the state. \<open>clock n\<close> is the \<open>n\<close>-th reading of
  the clock in a handler, and identifiers from the generator are arguments.
\<close>

section \<open>State\<close>

record turn_world =
  tv_threads :: thread_store
  tv_recorder :: recorder_world
  tv_inflight :: tracker
  tv_steering :: steering
  tv_running :: "string list"
  tv_aborted :: "string list"

type_synonym 'a handler = "turn_world \<Rightarrow> 'a result \<times> turn_world"

definition perform :: "(turn_world \<Rightarrow> turn_world) \<Rightarrow> unit handler" where
  "perform f w = (Inr (), f w)"

text \<open>Steps in order; the first that throws ends the handler.\<close>

fun steps :: "unit handler list \<Rightarrow> unit handler" where
  "steps [] w = (Inr (), w)"
| "steps (m # ms) w = (case m w of (Inl e, w') \<Rightarrow> (Inl e, w') | (Inr _, w') \<Rightarrow> steps ms w')"

definition answer :: "'a \<Rightarrow> unit result \<times> turn_world \<Rightarrow> 'a result \<times> turn_world" where
  "answer x r = (bind_result (fst r) (\<lambda>_. Inr x), snd r)"

definition session_of :: "turn_world \<Rightarrow> session_store" where
  "session_of w = rw_store (tv_recorder w)"

definition modify_session :: "(session_store \<Rightarrow> session_store) \<Rightarrow> turn_world \<Rightarrow> turn_world" where
  "modify_session f w = w\<lparr>tv_recorder := (tv_recorder w)\<lparr>rw_store := f (rw_store (tv_recorder w))\<rparr>\<rparr>"

definition draft_of :: "string \<Rightarrow> string option \<Rightarrow> string option \<Rightarrow> event_body \<Rightarrow> event_draft" where
  "draft_of thread turn item body = \<lparr>dr_seq = None, dr_time = None, dr_thread = thread, dr_turn = turn,
     dr_item = item, dr_child = None, dr_body = body\<rparr>"

definition record_in :: "string \<Rightarrow> event_draft \<Rightarrow> unit handler" where
  "record_in now d w = (let (r, v) = record_event now d (tv_recorder w)
     in (bind_result r (\<lambda>_. Inr ()), w\<lparr>tv_recorder := v\<rparr>))"

definition record_once_in :: "string \<Rightarrow> event_draft \<Rightarrow> (runtime_event \<Rightarrow> bool) \<Rightarrow> unit handler" where
  "record_once_in now d matches w = (let (r, v) = record_once now d matches (tv_recorder w)
     in (bind_result r (\<lambda>_. Inr ()), w\<lparr>tv_recorder := v\<rparr>))"

text \<open>A thread that does not exist is left alone.\<close>

definition upsertThread :: "string \<Rightarrow> string \<Rightarrow> (thread \<Rightarrow> thread) \<Rightarrow> turn_world \<Rightarrow> turn_world" where
  "upsertThread t now f w = (case get_thread t (tv_threads w) of
      None \<Rightarrow> w
    | Some c \<Rightarrow> w\<lparr>tv_threads := upsert_thread ((f c)\<lparr>th_updated := now\<rparr>) (tv_threads w)\<rparr>)"

section \<open>Settling items\<close>

datatype turn_end = End_completed | End_failed | End_aborted

fun end_status :: "turn_end \<Rightarrow> turn_status" where
  "end_status End_completed = TurnDone"
| "end_status End_failed = TurnErrored"
| "end_status End_aborted = TurnStopped"

fun end_item_status :: "turn_end \<Rightarrow> item_status" where
  "end_item_status End_completed = ItemCompleted"
| "end_item_status End_failed = ItemFailed"
| "end_item_status End_aborted = ItemAborted"

definition status_open :: "item_status \<Rightarrow> bool" where
  "status_open s = (s \<in> {ItemPending, ItemRunning})"

fun body_open :: "item_body \<Rightarrow> bool" where
  "body_open (UserMessage s _ _ _) = status_open s"
| "body_open (AssistantText s _) = status_open s"
| "body_open (AssistantReasoning s _ _) = status_open s"
| "body_open (ToolCall s _ _ _) = status_open s"
| "body_open (ToolResult s _ _ _) = status_open s"
| "body_open (Approval s _ _ _) = (s = ApprovalPending)"
| "body_open (UserInput s _ _ _) = (s = InputPending)"
| "body_open (Compaction s _) = status_open s"
| "body_open (Review s _ _ _ _) = status_open s"
| "body_open (RuntimeProgress s _) = status_open s"
| "body_open (ErrorItem s _) = status_open s"

fun settle_body :: "item_status \<Rightarrow> item_body \<Rightarrow> item_body" where
  "settle_body s (UserMessage _ a b c) = UserMessage s a b c"
| "settle_body s (AssistantText _ a) = AssistantText s a"
| "settle_body s (AssistantReasoning _ a b) = AssistantReasoning s a b"
| "settle_body s (ToolCall _ a b c) = ToolCall s a b c"
| "settle_body s (ToolResult _ a b c) = ToolResult s a b c"
| "settle_body s (Approval _ a b c) = Approval ApprovalExpired a b c"
| "settle_body s (UserInput _ a b c) = UserInput InputCancelled a b c"
| "settle_body s (Compaction _ a) = Compaction s a"
| "settle_body s (Review _ a b c d) = Review s a b c d"
| "settle_body s (RuntimeProgress _ a) = RuntimeProgress s a"
| "settle_body s (ErrorItem _ a) = ErrorItem s a"

definition finalizeOpenItem :: "turn_end \<Rightarrow> string \<Rightarrow> turn_item \<Rightarrow> turn_item" where
  "finalizeOpenItem e now x = (if body_open (ti_body x)
     then x\<lparr>ti_body := settle_body (end_item_status e) (ti_body x), ti_finished := Some now\<rparr> else x)"

definition finalizeOpenItems :: "turn_end \<Rightarrow> string \<Rightarrow> turn \<Rightarrow> turn" where
  "finalizeOpenItems e now t = t\<lparr>tr_items := map (finalizeOpenItem e now) (tr_items t)\<rparr>"

definition is_user_message :: "turn_item \<Rightarrow> bool" where
  "is_user_message x = (case ti_body x of UserMessage _ _ _ _ \<Rightarrow> True | _ \<Rightarrow> False)"

definition keepUserItems :: "turn_item list \<Rightarrow> turn_item list" where
  "keepUserItems xs = filter is_user_message xs"

definition discardTurnItems :: "string \<Rightarrow> string \<Rightarrow> string \<Rightarrow> turn_world \<Rightarrow> turn_world" where
  "discardTurnItems t turn now w = modify_session (\<lambda>s. rewriteItems t
     (filter (\<lambda>x. ti_turn x \<noteq> turn \<or> is_user_message x) (loadItems t s)) now s) w"

section \<open>Starting a turn\<close>

record start_request =
  st_turn :: turn_request
  st_display :: "string option"
  st_approval :: "approval_policy option"
  st_sandbox :: "sandbox_mode option"

definition deriveFirstTurnTitlePatch :: "thread \<Rightarrow> string \<Rightarrow> string option" where
  "deriveFirstTurnTitlePatch c prompt =
     (if th_turns c \<noteq> [] \<or> \<not> isDefaultThreadTitle (Some (th_title c)) then None
      else let title = deriveThreadTitle prompt in if title \<noteq> th_title c then Some title else None)"

definition user_item_id :: "string \<Rightarrow> string" where
  "user_item_id turn = ''item_'' @ turn @ ''_user''"

definition started_thread :: "turn \<Rightarrow> start_request \<Rightarrow> string \<Rightarrow> thread \<Rightarrow> thread" where
  "started_thread turn q now c = c\<lparr>
     th_title := or_else (deriveFirstTurnTitlePatch c (rq_prompt (st_turn q))) (th_title c),
     th_approval := or_else (st_approval q) (th_approval c), th_sandbox := or_else (st_sandbox q) (th_sandbox c),
     th_status := Thread_running, th_turns := th_turns c @ [turn], th_updated := now\<rparr>"

definition no_note :: turn_note where
  "no_note = \<lparr>tn_status = None, tn_text = None, tn_message = None, tn_code = None, tn_details = None,
     tn_severity = None\<rparr>"

definition start_record :: "(nat \<Rightarrow> string) \<Rightarrow> string \<Rightarrow> string \<Rightarrow> start_request \<Rightarrow> thread \<Rightarrow> turn" where
  "start_record clock turn t q c = createTurnRecord turn t
     ((st_turn q)\<lparr>rq_work_mode := Some (or_else (rq_work_mode (st_turn q)) (th_work_mode c)),
        rq_attachments := Some (or_else (rq_attachments (st_turn q)) []), rq_created := None, rq_status := None\<rparr>)
     (clock 0)"

definition start_item :: "(nat \<Rightarrow> string) \<Rightarrow> string \<Rightarrow> string \<Rightarrow> start_request \<Rightarrow> turn_item" where
  "start_item clock turn t q = makeUserItem (user_item_id turn) turn t (rq_prompt (st_turn q)) (st_display q)
     (Some (or_else (rq_attachments (st_turn q)) [])) (clock 1) (clock 2)"

definition mark_running :: "int \<Rightarrow> string \<Rightarrow> string \<Rightarrow> turn_world \<Rightarrow> turn_world" where
  "mark_running millis t turn w = w\<lparr>tv_running := turn # removeAll turn (tv_running w),
     tv_inflight := snd (track_begin millis \<lparr>if_id = turn, if_kind = Model_work, if_thread = t,
       if_turn = Some turn, if_call = None, if_started = 0\<rparr> None (tv_inflight w)),
     tv_steering := setTurn (Some turn) (tv_steering w)\<rparr>"

text \<open>The answer is the id of the user's item.\<close>

definition service_startTurn ::
    "(nat \<Rightarrow> string) \<Rightarrow> int \<Rightarrow> string \<Rightarrow> string \<Rightarrow> start_request \<Rightarrow> string handler" where
  "service_startTurn clock millis turn t q w = (case get_thread t (tv_threads w) of
      None \<Rightarrow> (throw (''thread not found: '' @ t), w)
    | Some c \<Rightarrow>
        let x = start_item clock turn t q;
            started = startTurn (appendTurnItem (start_record clock turn t q c) x) None (clock 3)
        in answer (ti_id x) (steps
             [perform (upsertThread t (clock 5) (started_thread started q (clock 4))),
              (case deriveFirstTurnTitlePatch c (rq_prompt (st_turn q)) of
                 None \<Rightarrow> perform id
               | Some title \<Rightarrow> record_in (clock 6) (draft_of t None None (ThreadUpdated (Some title) (Some ''running'')))),
              perform (modify_session (appendItem t x (clock 7))),
              record_in (clock 8) (draft_of t (Some turn) None (TurnEvent TurnStarted no_note)),
              record_in (clock 9) (draft_of t (Some turn) (Some (ti_id x)) (ItemEvent ItemCreated x)),
              perform (mark_running millis t turn)] w))"

section \<open>Steering, interrupting and finishing\<close>

definition service_steerTurn :: "(nat \<Rightarrow> string) \<Rightarrow> string \<Rightarrow> string \<Rightarrow> string \<Rightarrow> unit handler" where
  "service_steerTurn clock t turn text = steps
     [perform (\<lambda>w. w\<lparr>tv_steering := steer_enqueue turn text (tv_steering w)\<rparr>),
      record_in (clock 0) (draft_of t (Some turn) None (TurnEvent TurnSteered (no_note\<lparr>tn_text := Some text\<rparr>)))]"

definition release_turn :: "string \<Rightarrow> turn_world \<Rightarrow> turn_world" where
  "release_turn turn w = w\<lparr>tv_running := removeAll turn (tv_running w),
     tv_inflight := snd (track_end turn (tv_inflight w)), tv_steering := steer_clear (Some turn) (tv_steering w)\<rparr>"

definition abort_turn :: "string \<Rightarrow> turn_world \<Rightarrow> turn_world" where
  "abort_turn turn w = (if turn \<in> set (tv_running w) then w\<lparr>tv_aborted := turn # tv_aborted w\<rparr> else w)"

definition interrupt_record :: "(nat \<Rightarrow> string) \<Rightarrow> bool \<Rightarrow> turn \<Rightarrow> turn" where
  "interrupt_record clock discard t = finalizeOpenItems End_aborted (clock 3)
     (finishTurn (if discard then t\<lparr>tr_items := keepUserItems (tr_items t)\<rparr> else t) TurnStopped None (clock 2))"

definition interrupted_thread :: "(nat \<Rightarrow> string) \<Rightarrow> string \<Rightarrow> bool \<Rightarrow> thread \<Rightarrow> thread" where
  "interrupted_thread clock turn discard c = (if \<exists>u \<in> set (th_turns c). tr_id u = turn
     then c\<lparr>th_turns := map_when (\<lambda>u. tr_id u = turn) (interrupt_record clock discard) (th_turns c),
            th_status := Thread_idle, th_updated := clock 4\<rparr>
     else c)"

definition service_interruptTurn ::
    "(nat \<Rightarrow> string) \<Rightarrow> string \<Rightarrow> string \<Rightarrow> bool \<Rightarrow> turn_status handler" where
  "service_interruptTurn clock t turn discard w = answer TurnStopped (steps
     [perform (\<lambda>v. release_turn turn (abort_turn turn v)),
      record_in (clock 0) (draft_of t (Some turn) None (TurnEvent TurnAborted no_note)),
      perform (if discard then discardTurnItems t turn (clock 1) else id),
      perform (upsertThread t (clock 5) (interrupted_thread clock turn discard))] w)"

definition finish_record_of :: "(nat \<Rightarrow> string) \<Rightarrow> turn_end \<Rightarrow> string option \<Rightarrow> turn \<Rightarrow> turn" where
  "finish_record_of clock e error t = (
     let f = finalizeOpenItems e (clock 1) (finishTurn t (end_status e) None (clock 0))
     in case truthy error of None \<Rightarrow> f | Some m \<Rightarrow> f\<lparr>tr_error := Some m\<rparr>)"

definition finished_thread :: "(nat \<Rightarrow> string) \<Rightarrow> string \<Rightarrow> turn_end \<Rightarrow> string option \<Rightarrow> thread \<Rightarrow> thread" where
  "finished_thread clock turn e error c =
     c\<lparr>th_turns := map_when (\<lambda>u. tr_id u = turn) (finish_record_of clock e error) (th_turns c),
       th_status := Thread_idle, th_updated := clock 2\<rparr>"

fun end_event :: "turn_end \<Rightarrow> turn_event_kind" where
  "end_event End_completed = TurnCompleted"
| "end_event End_failed = TurnFailed"
| "end_event End_aborted = TurnAborted"

definition projected_thread :: "turn_item \<Rightarrow> thread \<Rightarrow> thread" where
  "projected_thread x c = c\<lparr>th_turns := (case List.find (\<lambda>u. tr_id u = ti_turn x) (th_turns c) of
      None \<Rightarrow> th_turns c
    | Some u \<Rightarrow> map_when (\<lambda>v. tr_id v = ti_turn x) (\<lambda>_. appendTurnItem u x) (th_turns c))\<rparr>"

definition projectItem :: "string \<Rightarrow> turn_item \<Rightarrow> string \<Rightarrow> turn_world \<Rightarrow> turn_world" where
  "projectItem t x now = upsertThread t now (projected_thread x)"

definition service_appendItem :: "string \<Rightarrow> turn_item \<Rightarrow> (nat \<Rightarrow> string) \<Rightarrow> turn_world \<Rightarrow> turn_world" where
  "service_appendItem t x clock w = projectItem t x (clock 1) (modify_session (appendItem t x (clock 0)) w)"

definition error_item_of :: "(nat \<Rightarrow> string) \<Rightarrow> string \<Rightarrow> string \<Rightarrow> string \<Rightarrow> turn_item" where
  "error_item_of clock t turn m = makeErrorItem (''item_'' @ turn @ ''_error'') turn t
     \<lparr>er_message = m, er_code = None, er_details = None, er_severity = None\<rparr> (clock 5) (clock 6)"

definition service_finishTurn ::
    "(nat \<Rightarrow> string) \<Rightarrow> string \<Rightarrow> string \<Rightarrow> turn_end \<Rightarrow> string option \<Rightarrow> unit handler" where
  "service_finishTurn clock t turn e error = steps
     [perform (release_turn turn),
      perform (upsertThread t (clock 3) (finished_thread clock turn e error)),
      record_in (clock 4) (draft_of t (Some turn) None (TurnEvent (end_event e) (no_note\<lparr>tn_message := truthy error\<rparr>))),
      perform (case truthy error of
          None \<Rightarrow> id
        | Some m \<Rightarrow> service_appendItem t (error_item_of clock t turn m) (\<lambda>n. clock (7 + n)))]"

section \<open>Items of a running turn\<close>

definition getTurn :: "string \<Rightarrow> string \<Rightarrow> turn_world \<Rightarrow> turn option" where
  "getTurn t turn w = Option.bind (get_thread t (tv_threads w)) (\<lambda>c. List.find (\<lambda>u. tr_id u = turn) (th_turns c))"

record turn_metadata =
  md_skills :: "string list option"
  md_explicit :: "string list option"
  md_memories :: "string list option"
  md_bytes :: "nat option"
  md_fingerprint :: "string option"
  md_tools :: "nat option"
  md_drift :: "bool option"

definition put_metadata :: "turn_metadata \<Rightarrow> turn \<Rightarrow> turn" where
  "put_metadata m t = t\<lparr>tr_skills := or_else (md_skills m) (tr_skills t),
     tr_explicit_skills := or_else (md_explicit m) (tr_explicit_skills t),
     tr_memories := or_else (md_memories m) (tr_memories t),
     tr_skill_bytes := (case md_bytes m of None \<Rightarrow> tr_skill_bytes t | Some n \<Rightarrow> Some n),
     tr_fingerprint := (case truthy (md_fingerprint m) of None \<Rightarrow> tr_fingerprint t | Some f \<Rightarrow> Some f),
     tr_tool_count := (case md_tools m of None \<Rightarrow> tr_tool_count t | Some n \<Rightarrow> Some n),
     tr_drift := (case md_drift m of None \<Rightarrow> tr_drift t | Some b \<Rightarrow> Some b)\<rparr>"

definition updateTurnMetadata :: "string \<Rightarrow> string \<Rightarrow> turn_metadata \<Rightarrow> string \<Rightarrow> turn_world \<Rightarrow> turn_world" where
  "updateTurnMetadata t turn m now = upsertThread t now
     (\<lambda>c. c\<lparr>th_turns := map_when (\<lambda>u. tr_id u = turn) (put_metadata m) (th_turns c)\<rparr>)"

definition applyItem :: "(nat \<Rightarrow> string) \<Rightarrow> string \<Rightarrow> turn_item \<Rightarrow> unit handler" where
  "applyItem clock t x = steps
     [perform (service_appendItem t x clock),
      record_in (clock 2) (draft_of t (Some (ti_turn x)) (Some (ti_id x)) (ItemEvent ItemCreated x))]"

definition announces :: "item_event_kind \<Rightarrow> string \<Rightarrow> runtime_event \<Rightarrow> bool" where
  "announces k i e = (ev_item e = Some i \<and> (case ev_body e of ItemEvent k' _ \<Rightarrow> k' = k | _ \<Rightarrow> False))"

definition applyItemOnce :: "(nat \<Rightarrow> string) \<Rightarrow> string \<Rightarrow> turn_item \<Rightarrow> bool handler" where
  "applyItemOnce clock t x w = (
     let ((y, created), s) = appendItemOnce t x (clock 0) (session_of w)
     in answer created (steps
          [perform (projectItem t y (clock 1)),
           record_once_in (clock 2) (draft_of t (Some (ti_turn y)) (Some (ti_id y)) (ItemEvent ItemCreated y))
             (announces ItemCreated (ti_id y))] (modify_session (\<lambda>_. s) w)))"

text \<open>The item reported is that of the last turn that holds it, or else the one of the session.\<close>

definition service_updateItem ::
    "(nat \<Rightarrow> string) \<Rightarrow> string \<Rightarrow> string \<Rightarrow> (turn_item \<Rightarrow> turn_item) \<Rightarrow> turn_item option handler" where
  "service_updateItem clock t i patch w = (
     let (in_session, s) = updateItem t i patch (clock 0) (session_of w);
         w1 = modify_session (\<lambda>_. s) w;
         turns = (case get_thread t (tv_threads w) of None \<Rightarrow> [] | Some c \<Rightarrow> th_turns c);
         in_thread = last_opt (List.map_filter (\<lambda>u. List.find (\<lambda>x. ti_id x = i) (tr_items u)) turns);
         w2 = upsertThread t (clock 1) (\<lambda>c. c\<lparr>th_turns := map_when
                (\<lambda>u. \<exists>x \<in> set (tr_items u). ti_id x = i) (\<lambda>u. replaceTurnItem u i patch) (th_turns c)\<rparr>) w1
     in case (case in_thread of None \<Rightarrow> in_session | Some x \<Rightarrow> Some (patch x)) of
          None \<Rightarrow> (Inr None, w2)
        | Some y \<Rightarrow> answer (Some y) (record_in (clock 2)
            (draft_of t (Some (ti_turn y)) (Some (ti_id y)) (ItemEvent ItemUpdated y)) w2))"

text \<open>Two items have the same canonical digest when they are equal.\<close>

definition announces_update :: "turn_item \<Rightarrow> runtime_event \<Rightarrow> bool" where
  "announces_update x e = (ev_item e = Some (ti_id x) \<and> (case ev_body e of ItemEvent k y \<Rightarrow> k = ItemUpdated \<and> y = x | _ \<Rightarrow> False))"

definition service_updateItemOnce ::
    "(nat \<Rightarrow> string) \<Rightarrow> string \<Rightarrow> string \<Rightarrow> (turn_item \<Rightarrow> turn_item) \<Rightarrow> (turn_item \<times> bool) option handler" where
  "service_updateItemOnce clock t i patch w = (
     let (outcome, s) = updateItemOnce t i patch (clock 0) (session_of w);
         w1 = modify_session (\<lambda>_. s) w
     in case outcome of
          None \<Rightarrow> (Inr None, w1)
        | Some (y, changed) \<Rightarrow> answer (Some (y, changed)) (steps
            [perform (projectItem t y (clock 1)),
             record_once_in (clock 2) (draft_of t (Some (ti_turn y)) (Some (ti_id y)) (ItemEvent ItemUpdated y))
               (announces_update y)] w1))"

section \<open>Steps\<close>

definition recorded :: "string \<Rightarrow> event_draft \<Rightarrow> turn_world \<Rightarrow> turn_world" where
  "recorded now d w = w\<lparr>tv_recorder := snd (record_event now d (tv_recorder w))\<rparr>"

definition recorded_once :: "string \<Rightarrow> event_draft \<Rightarrow> (runtime_event \<Rightarrow> bool) \<Rightarrow> turn_world \<Rightarrow> turn_world" where
  "recorded_once now d P w = w\<lparr>tv_recorder := snd (record_once now d P (tv_recorder w))\<rparr>"

lemma steps_perform [simp]: "steps (perform f # ms) w = steps ms (f w)"
  by (simp add: perform_def)

lemma steps_record: "steps (record_in now d # ms) w = (case fst (record_event now d (tv_recorder w)) of
    Inl e \<Rightarrow> (Inl e, recorded now d w) | Inr _ \<Rightarrow> steps ms (recorded now d w))"
  by (simp add: steps.simps record_in_def recorded_def case_prod_beta Let_def split: sum.split)

declare steps.simps(2) [simp del]

lemma steps_record_once: "steps (record_once_in now d P # ms) w = (case fst (record_once now d P (tv_recorder w)) of
    Inl e \<Rightarrow> (Inl e, recorded_once now d P w) | Inr _ \<Rightarrow> steps ms (recorded_once now d P w))"
  by (simp add: steps.simps record_once_in_def recorded_once_def case_prod_beta Let_def split: sum.split)

lemma recorded_fields [simp]:
  "tv_threads (recorded now d w) = tv_threads w" "tv_steering (recorded now d w) = tv_steering w"
  "tv_inflight (recorded now d w) = tv_inflight w" "tv_running (recorded now d w) = tv_running w"
  "tv_threads (recorded_once now d P w) = tv_threads w"
  by (simp_all add: recorded_def recorded_once_def)

lemma record_finish_items: "items_of (rw_store (snd (record_finish now p v))) t = items_of (rw_store v) t"
  by (cases rule: record_finish_cases[of now p v]) (simp_all add: events_of_appendEvent)

lemma record_event_items: "items_of (rw_store (snd (record_event now d v))) t = items_of (rw_store v) t"
  by (simp add: record_event_def case_prod_beta Let_def record_finish_items)

lemma record_once_items: "items_of (rw_store (snd (record_once now d P v))) t = items_of (rw_store v) t"
  by (simp add: record_once_def case_prod_beta Let_def record_event_items split: option.split)

lemma recorded_items [simp]:
  "items_of (session_of (recorded now d w)) t = items_of (session_of w) t"
  "items_of (session_of (recorded_once now d P w)) t = items_of (session_of w) t"
  by (simp_all add: session_of_def recorded_def recorded_once_def record_event_items record_once_items)

definition draft_ok :: "event_draft \<Rightarrow> bool" where
  "draft_ok d \<longleftrightarrow> dr_thread d \<noteq> [] \<and> dr_child d = None \<and> event_body_ok (clean_event_body (dr_body d))"

lemma record_event_ok: "draft_ok d \<Longrightarrow> \<exists>e. fst (record_event now d v) = Inr e"
  by (auto simp: record_event_def record_begin_def record_finish_def parse_runtime_event_def stamp_event_def
      event_ok_def draft_ok_def case_prod_beta Let_def)

lemma draft_of_ok [simp]: "draft_ok (draft_of t turn item body) \<longleftrightarrow> t \<noteq> [] \<and> event_body_ok (clean_event_body body)"
  by (simp add: draft_ok_def draft_of_def)

lemma modify_session_fields [simp]:
  "tv_threads (modify_session f w) = tv_threads w" "session_of (modify_session f w) = f (session_of w)"
  "tv_steering (modify_session f w) = tv_steering w" "tv_inflight (modify_session f w) = tv_inflight w"
  "tv_running (modify_session f w) = tv_running w"
  by (simp_all add: modify_session_def session_of_def)

lemma upsertThread_fields [simp]:
  "session_of (upsertThread t now f w) = session_of w" "tv_steering (upsertThread t now f w) = tv_steering w"
  "tv_inflight (upsertThread t now f w) = tv_inflight w" "tv_running (upsertThread t now f w) = tv_running w"
  by (simp_all add: upsertThread_def session_of_def split: option.split)

lemma upsertThread_get:
  assumes "get_thread t (tv_threads w) = Some c" and "th_id (f c) = t"
  shows "get_thread t (tv_threads (upsertThread t now f w)) = Some ((f c)\<lparr>th_updated := now\<rparr>)"
  using assms by (simp add: upsertThread_def)

lemma release_fields [simp]:
  "tv_threads (release_turn u w) = tv_threads w" "session_of (release_turn u w) = session_of w"
  "tv_threads (abort_turn u w) = tv_threads w" "session_of (abort_turn u w) = session_of w"
  by (simp_all add: release_turn_def abort_turn_def session_of_def)

section \<open>Finished turns are settled\<close>

lemma settle_not_open: "\<not> status_open s \<Longrightarrow> \<not> body_open (settle_body s b)"
  by (cases b) simp_all

lemma end_item_not_open [simp]: "\<not> status_open (end_item_status e)"
  by (cases e) (simp_all add: status_open_def)

lemma finalize_closed: "\<not> body_open (ti_body (finalizeOpenItem e now x))"
  by (simp add: finalizeOpenItem_def settle_not_open)

definition settled :: "turn_end \<Rightarrow> turn \<Rightarrow> bool" where
  "settled e u \<longleftrightarrow> tr_status u = end_status e \<and> tr_finished u \<noteq> None \<and> tr_steering u = [] \<and>
     (\<forall>x \<in> set (tr_items u). \<not> body_open (ti_body x))"

lemma finish_record_settled: "settled e (finish_record_of clock e error u)"
  "tr_id (finish_record_of clock e error u) = tr_id u"
  by (auto simp: settled_def finish_record_of_def finalizeOpenItems_def finishTurn_def finalize_closed Let_def
      split: option.split)

lemma interrupt_record_settled: "settled End_aborted (interrupt_record clock discard u)"
  "tr_id (interrupt_record clock discard u) = tr_id u"
  by (auto simp: settled_def interrupt_record_def finalizeOpenItems_def finishTurn_def finalize_closed)

lemma find_map_when:
  "(\<And>u. tr_id (f u) = tr_id u) \<Longrightarrow> List.find (\<lambda>u. tr_id u = i) (map_when (\<lambda>u. tr_id u = i) f us) =
     map_option f (List.find (\<lambda>u. tr_id u = i) us)"
  by (induction us) (simp_all add: map_when_def)

lemma settled_append: "settled e u \<Longrightarrow> \<not> body_open (ti_body x) \<Longrightarrow> settled e (appendTurnItem u x)"
  using place_item_set[of x "tr_items u"] by (auto simp: settled_def appendTurnItem_def)

lemma projected_turn:
  assumes "get_thread t (tv_threads w) = Some c" and "th_id c = t"
    and "List.find (\<lambda>u. tr_id u = ti_turn x) (th_turns c) = Some u"
  shows "get_thread t (tv_threads (projectItem t x now w)) =
      Some ((projected_thread x c)\<lparr>th_updated := now\<rparr>) \<and>
    getTurn t (ti_turn x) (projectItem t x now w) = Some (appendTurnItem u x)"
proof -
  have id: "tr_id u = ti_turn x" using assms(3) by (auto simp: find_Some_iff)
  have p: "th_id (projected_thread x c) = t" using assms(2) by (simp add: projected_thread_def)
  have "List.find (\<lambda>u. tr_id u = ti_turn x) (map_when (\<lambda>v. tr_id v = ti_turn x) (\<lambda>_. appendTurnItem u x) us) =
      map_option (\<lambda>_. appendTurnItem u x) (List.find (\<lambda>u. tr_id u = ti_turn x) us)" for us
    using id by (induction us) (simp_all add: map_when_def appendTurnItem_def)
  with assms(3) show ?thesis
    using upsertThread_get[where f = "projected_thread x" and now = now, OF assms(1) p] by (simp add: projectItem_def getTurn_def projected_thread_def)
qed

text \<open>
  A finished turn leaves nothing open. Whether or not the announcement succeeds, after a turn of an
  existing thread is finished its record has the requested final status and a finish time, none of its
  items is pending or running, its steering queue is empty, it is neither tracked as running work nor
  abortable any more, and the thread is idle.
\<close>

theorem finished_turn_settled:
  assumes "get_thread t (tv_threads w) = Some c" and "th_id c = t"
    and "List.find (\<lambda>u. tr_id u = turn) (th_turns c) = Some u"
    and "w' = snd (service_finishTurn clock t turn e error w)"
  shows "(\<exists>u'. getTurn t turn w' = Some u' \<and> settled e u') \<and> steer_peek turn (tv_steering w') = [] \<and>
    map_of (tv_inflight w') turn = None \<and> turn \<notin> set (tv_running w') \<and>
    map_option th_status (get_thread t (tv_threads w')) = Some Thread_idle"
proof -
  let ?w1 = "upsertThread t (clock 3) (finished_thread clock turn e error) (release_turn turn w)"
  let ?d = "draft_of t (Some turn) None (TurnEvent (end_event e) (no_note\<lparr>tn_message := truthy error\<rparr>))"
  let ?w2 = "recorded (clock 4) ?d ?w1" and ?c1 = "(finished_thread clock turn e error c)\<lparr>th_updated := clock 3\<rparr>"
  let ?u1 = "finish_record_of clock e error u"
  have c1: "get_thread t (tv_threads ?w1) = Some ?c1"
    by (rule upsertThread_get) (use assms(1,2) in \<open>simp_all add: finished_thread_def\<close>)
  have u1: "List.find (\<lambda>u. tr_id u = turn) (th_turns ?c1) = Some ?u1"
    using find_map_when[of "finish_record_of clock e error" turn "th_turns c"] finish_record_settled(2) assms(3)
    by (simp add: finished_thread_def)
  have release: "steer_peek turn (tv_steering ?w2) = [] \<and> map_of (tv_inflight ?w2) turn = None \<and> turn \<notin> set (tv_running ?w2)"
    by (simp add: release_turn_def steer_peek_def steer_clear_def track_end_gone split: option.split)
      (simp add: get_or_def)
  have w2: "getTurn t turn ?w2 = Some ?u1" "map_option th_status (get_thread t (tv_threads ?w2)) = Some Thread_idle"
    using c1 u1 by (simp_all add: getTurn_def finished_thread_def)
  have w': "w' = ?w2 \<or> (\<exists>m. w' = service_appendItem t (error_item_of clock t turn m) (\<lambda>n. clock (7 + n)) ?w2)"
    by (auto simp: assms(4) service_finishTurn_def steps_record split: sum.split option.split)
  then show ?thesis
  proof
    assume "w' = ?w2"
    with w2 release finish_record_settled(1) show ?thesis by auto
  next
    assume "\<exists>m. w' = service_appendItem t (error_item_of clock t turn m) (\<lambda>n. clock (7 + n)) ?w2"
    then obtain m where w': "w' = service_appendItem t (error_item_of clock t turn m) (\<lambda>n. clock (7 + n)) ?w2" by blast
    let ?x = "error_item_of clock t turn m" and ?v = "modify_session (appendItem t (error_item_of clock t turn m) (clock 7)) ?w2"
    have x: "ti_turn ?x = turn" "\<not> body_open (ti_body ?x)"
      by (simp_all add: error_item_of_def makeErrorItem_def make_item_def status_open_def)
    have "get_thread t (tv_threads ?v) = Some ?c1" using c1 by simp
    moreover have "th_id ?c1 = t" using assms(2) by (simp add: finished_thread_def)
    ultimately have p: "get_thread t (tv_threads w') = Some ((projected_thread ?x ?c1)\<lparr>th_updated := clock 8\<rparr>)"
      "getTurn t turn w' = Some (appendTurnItem ?u1 ?x)"
      using projected_turn[of t ?v ?c1 ?x ?u1 "clock 8"] u1 x(1)
      by (simp_all add: w' service_appendItem_def)
    moreover have "settled e (appendTurnItem ?u1 ?x)"
      using settled_append[OF finish_record_settled(1) x(2)] .
    moreover have "steer_peek turn (tv_steering w') = [] \<and> map_of (tv_inflight w') turn = None \<and> turn \<notin> set (tv_running w')"
      using release by (simp add: w' service_appendItem_def projectItem_def)
    ultimately show ?thesis by (simp add: projected_thread_def finished_thread_def)
  qed
qed


section \<open>The thread record and the session stream\<close>

text \<open>What an item keeps while its text, status and times change: its id, its turn and whether the user wrote it.\<close>

type_synonym item_mark = "string \<times> string \<times> bool"

definition item_key :: "turn_item \<Rightarrow> item_mark" where
  "item_key x = (ti_id x, ti_turn x, is_user_message x)"

definition place_key :: "item_mark \<Rightarrow> item_mark list \<Rightarrow> item_mark list" where
  "place_key k ks = (if k \<in> set ks then ks else ks @ [k])"

definition turns_of :: "string \<Rightarrow> turn_world \<Rightarrow> turn list" where
  "turns_of t w = (case get_thread t (tv_threads w) of None \<Rightarrow> [] | Some c \<Rightarrow> th_turns c)"

definition keyed :: "string \<Rightarrow> turn_world \<Rightarrow> bool" where
  "keyed t w \<longleftrightarrow> (\<forall>c. get_thread t (tv_threads w) = Some c \<longrightarrow> th_id c = t)"

definition agreement :: "turn list \<Rightarrow> turn_item list \<Rightarrow> bool" where
  "agreement us xs \<longleftrightarrow> distinct (map tr_id us) \<and> distinct (item_ids xs) \<and>
     (\<forall>u \<in> set us. map item_key (tr_items u) = filter (\<lambda>k. fst (snd k) = tr_id u) (map item_key xs))"

text \<open>An item of which the stream may hold an earlier version.\<close>

definition fits_item :: "turn_item \<Rightarrow> turn_item list \<Rightarrow> bool" where
  "fits_item x xs \<longleftrightarrow> (\<forall>y \<in> set xs. ti_id y = ti_id x \<longrightarrow> item_key y = item_key x)"

lemma place_key_member: "k \<in> set ks \<Longrightarrow> place_key k ks = ks"
  by (simp add: place_key_def)

lemma filter_place_key: "filter P (place_key k ks) = (if P k then place_key k (filter P ks) else filter P ks)"
  by (simp add: place_key_def)

lemma keys_place_item: "fits_item x xs \<Longrightarrow> map item_key (place_item x xs) = place_key (item_key x) (map item_key xs)"
proof (cases "\<exists>y \<in> set xs. ti_id y = ti_id x")
  case True
  assume f: "fits_item x xs"
  then have "item_key x \<in> item_key ` set xs" using True by (auto simp: fits_item_def intro: rev_image_eqI)
  moreover have "map item_key (map_when (\<lambda>y. ti_id y = ti_id x) (\<lambda>_. x) xs) = map item_key xs"
    using f by (auto simp: map_when_def fits_item_def)
  ultimately show ?thesis using True by (simp add: place_item_def place_key_def)
next
  case False
  then have "item_key x \<notin> item_key ` set xs" by (auto simp: item_key_def)
  with False show ?thesis by (simp add: place_item_def place_key_def)
qed

lemma distinct_fits: "distinct (item_ids xs) \<Longrightarrow> x \<in> set xs \<Longrightarrow> fits_item x xs"
  by (auto simp: fits_item_def item_ids_def distinct_map dest: inj_onD)

text \<open>A list of items whose keys are some of those of a list an item fits.\<close>

lemma fits_subset: "fits_item x xs \<Longrightarrow> item_key ` set ys \<subseteq> item_key ` set xs \<Longrightarrow> fits_item x ys"
proof -
  assume f: "fits_item x xs" and s: "item_key ` set ys \<subseteq> item_key ` set xs"
  have "item_key y = item_key x" if "y \<in> set ys" "ti_id y = ti_id x" for y
  proof -
    from s that(1) obtain z where z: "z \<in> set xs" "item_key z = item_key y" by (metis imageE imageI subsetD)
    then have "ti_id z = ti_id x" using that(2) by (simp add: item_key_def)
    with f z show ?thesis by (auto simp: fits_item_def)
  qed
  then show ?thesis by (simp add: fits_item_def)
qed

definition project_turns :: "turn_item \<Rightarrow> turn list \<Rightarrow> turn list" where
  "project_turns x us = (case List.find (\<lambda>u. tr_id u = ti_turn x) us of
      None \<Rightarrow> us
    | Some u \<Rightarrow> map_when (\<lambda>v. tr_id v = ti_turn x) (\<lambda>_. appendTurnItem u x) us)"

lemma project_turns_distinct:
  "distinct (map tr_id us) \<Longrightarrow> project_turns x us = map_when (\<lambda>v. tr_id v = ti_turn x) (\<lambda>v. appendTurnItem v x) us"
proof (cases "List.find (\<lambda>u. tr_id u = ti_turn x) us")
  case None
  then have "\<forall>u \<in> set us. tr_id u \<noteq> ti_turn x" by (auto simp: find_None_iff)
  with None show ?thesis by (auto simp: project_turns_def map_when_def intro!: map_idI[symmetric])
next
  case (Some u)
  assume d: "distinct (map tr_id us)"
  from Some have u: "u \<in> set us" "tr_id u = ti_turn x" by (auto simp: find_Some_iff)
  have "v = u" if "v \<in> set us" "tr_id v = ti_turn x" for v
    using d u that by (metis distinct_map inj_onD)
  with Some show ?thesis by (auto simp: project_turns_def map_when_def)
qed

lemma map_when_tr_ids: "(\<And>u. tr_id (f u) = tr_id u) \<Longrightarrow> map tr_id (map_when P f us) = map tr_id us"
  by (simp add: map_when_def)

lemma agreement_project:
  assumes "agreement us xs" and "distinct (item_ids ys)" and "fits_item x xs"
    and "map item_key ys = place_key (item_key x) (map item_key xs)"
  shows "agreement (project_turns x us) ys"
proof -
  have d: "distinct (map tr_id us)" using assms(1) by (simp add: agreement_def)
  have ids: "map tr_id (project_turns x us) = map tr_id us"
    unfolding project_turns_distinct[OF d] by (rule map_when_tr_ids) (simp add: appendTurnItem_def)
  have "map item_key (tr_items v) = filter (\<lambda>k. fst (snd k) = tr_id v) (map item_key ys)"
    if v: "v \<in> set (project_turns x us)" for v
  proof -
    from v obtain u where u: "u \<in> set us" "v = (if tr_id u = ti_turn x then appendTurnItem u x else u)"
      unfolding project_turns_distinct[OF d] by (auto simp: map_when_def)
    have k: "map item_key (tr_items u) = filter (\<lambda>k. fst (snd k) = tr_id u) (map item_key xs)"
      using assms(1) u(1) by (simp add: agreement_def)
    then have "item_key ` set (tr_items u) \<subseteq> item_key ` set xs"
      by (metis filter_is_subset list.set_map)
    then have "fits_item x (tr_items u)" using fits_subset[OF assms(3)] by simp
    then show ?thesis
      using u(2) k by (auto simp: appendTurnItem_def keys_place_item assms(4) filter_place_key) (simp_all add: item_key_def)
  qed
  then show ?thesis using assms(2) d ids by (simp add: agreement_def)
qed

lemma agreement_place:
  "agreement us xs \<Longrightarrow> fits_item x xs \<Longrightarrow> agreement (project_turns x us) (place_item x xs)"
  by (rule agreement_project) (simp_all add: agreement_def place_item_distinct keys_place_item)

lemma agreement_seen: "agreement us xs \<Longrightarrow> x \<in> set xs \<Longrightarrow> agreement (project_turns x us) xs"
  by (rule agreement_project[where xs = xs]) (simp_all add: agreement_def distinct_fits place_key_member)

lemma map_pair_eq:
  assumes "map f vs = map f us" and "map g vs = map g us"
  shows "map (\<lambda>x. (f x, g x)) vs = map (\<lambda>x. (f x, g x)) us"
proof (rule nth_equalityI)
  have l: "length vs = length us" using assms(1) by (rule map_eq_imp_length_eq)
  then show "length (map (\<lambda>x. (f x, g x)) vs) = length (map (\<lambda>x. (f x, g x)) us)" by simp
  fix i assume i: "i < length (map (\<lambda>x. (f x, g x)) vs)"
  have "f (vs ! i) = f (us ! i)" using arg_cong[OF assms(1), of "\<lambda>l. l ! i"] i l by simp
  moreover have "g (vs ! i) = g (us ! i)" using arg_cong[OF assms(2), of "\<lambda>l. l ! i"] i l by simp
  ultimately show "map (\<lambda>x. (f x, g x)) vs ! i = map (\<lambda>x. (f x, g x)) us ! i" using i l by simp
qed

lemma agreement_same_keys:
  assumes "agreement us xs" and "map item_key ys = map item_key xs" and "map tr_id vs = map tr_id us"
    and "map (map item_key \<circ> tr_items) vs = map (map item_key \<circ> tr_items) us"
  shows "agreement vs ys"
proof -
  have "item_ids ys = item_ids xs"
    using arg_cong[OF assms(2), of "map fst"] by (simp add: item_ids_def item_key_def comp_def)
  moreover have "map (\<lambda>u. (tr_id u, map item_key (tr_items u))) vs = map (\<lambda>u. (tr_id u, map item_key (tr_items u))) us"
    using map_pair_eq[OF assms(3,4)] by (simp add: comp_def)
  then have sets: "(\<lambda>u. (tr_id u, map item_key (tr_items u))) ` set vs = (\<lambda>u. (tr_id u, map item_key (tr_items u))) ` set us"
    unfolding list.set_map[symmetric] by (rule arg_cong)
  have e: "\<exists>u \<in> set us. tr_id u = tr_id v \<and> map item_key (tr_items u) = map item_key (tr_items v)" if "v \<in> set vs" for v
  proof -
    have "(tr_id v, map item_key (tr_items v)) \<in> (\<lambda>u. (tr_id u, map item_key (tr_items u))) ` set us"
      unfolding sets[symmetric] using that by (rule imageI)
    then show ?thesis by auto
  qed
  moreover have "distinct (map tr_id vs)" using assms(1,3) by (simp add: agreement_def)
  moreover have "map item_key (tr_items v) = filter (\<lambda>k. fst (snd k) = tr_id v) (map item_key ys)" if v: "v \<in> set vs" for v
  proof -
    from e[OF v] obtain u where u: "u \<in> set us" "tr_id u = tr_id v" "map item_key (tr_items u) = map item_key (tr_items v)"
      by blast
    have "map item_key (tr_items u) = filter (\<lambda>k. fst (snd k) = tr_id u) (map item_key xs)"
      using assms(1) u(1) by (simp add: agreement_def)
    then show ?thesis unfolding u(2,3) assms(2) .
  qed
  moreover have "distinct (item_ids xs)" using assms(1) by (simp add: agreement_def)
  ultimately show ?thesis by (simp add: agreement_def)
qed

text \<open>The operations of the service on one thread.\<close>

datatype turn_op =
    Start_turn "nat \<Rightarrow> string" int string start_request
  | Steer_turn "nat \<Rightarrow> string" string string
  | Interrupt_turn "nat \<Rightarrow> string" string bool
  | Finish_turn "nat \<Rightarrow> string" string turn_end "string option"
  | Describe_turn string turn_metadata string
  | Apply_item "nat \<Rightarrow> string" turn_item
  | Apply_once "nat \<Rightarrow> string" turn_item
  | Update_item "nat \<Rightarrow> string" string "turn_item \<Rightarrow> turn_item"
  | Update_once "nat \<Rightarrow> string" string "turn_item \<Rightarrow> turn_item"

fun run_op :: "string \<Rightarrow> turn_op \<Rightarrow> turn_world \<Rightarrow> turn_world" where
  "run_op t (Start_turn clock millis turn q) w = snd (service_startTurn clock millis turn t q w)"
| "run_op t (Steer_turn clock turn text) w = snd (service_steerTurn clock t turn text w)"
| "run_op t (Interrupt_turn clock turn discard) w = snd (service_interruptTurn clock t turn discard w)"
| "run_op t (Finish_turn clock turn e error) w = snd (service_finishTurn clock t turn e error w)"
| "run_op t (Describe_turn turn m now) w = updateTurnMetadata t turn m now w"
| "run_op t (Apply_item clock x) w = snd (applyItem clock t x w)"
| "run_op t (Apply_once clock x) w = snd (applyItemOnce clock t x w)"
| "run_op t (Update_item clock i patch) w = snd (service_updateItem clock t i patch w)"
| "run_op t (Update_once clock i patch) w = snd (service_updateItemOnce clock t i patch w)"

text \<open>
  Names are fresh where the generator makes them, an item that is applied may replace an earlier version
  of itself only, and a patch keeps the id, the turn and the author of an item.
\<close>

fun op_fits :: "string \<Rightarrow> turn_op \<Rightarrow> turn_world \<Rightarrow> bool" where
  "op_fits t (Start_turn clock millis turn q) w \<longleftrightarrow> turn \<notin> tr_id ` set (turns_of t w) \<and>
     (\<forall>y \<in> set (loadItems t (session_of w)). ti_turn y \<noteq> turn \<and> ti_id y \<noteq> user_item_id turn)"
| "op_fits t (Finish_turn clock turn e error) w \<longleftrightarrow>
     (\<forall>m. fits_item (error_item_of clock t turn m) (loadItems t (session_of w)))"
| "op_fits t (Apply_item clock x) w \<longleftrightarrow> fits_item x (loadItems t (session_of w))"
| "op_fits t (Update_item clock i patch) w \<longleftrightarrow> (\<forall>x. item_key (patch x) = item_key x)"
| "op_fits t (Update_once clock i patch) w \<longleftrightarrow> (\<forall>x. item_key (patch x) = item_key x)"
| "op_fits t _ w \<longleftrightarrow> True"

fun all_fit :: "string \<Rightarrow> turn_op list \<Rightarrow> turn_world \<Rightarrow> bool" where
  "all_fit t [] w = True"
| "all_fit t (x # xs) w = (op_fits t x w \<and> all_fit t xs (run_op t x w))"

definition run_ops :: "string \<Rightarrow> turn_op list \<Rightarrow> turn_world \<Rightarrow> turn_world" where
  "run_ops t xs w = fold (run_op t) xs w"

definition projects :: "string \<Rightarrow> turn_world \<Rightarrow> bool" where
  "projects t w \<longleftrightarrow> keyed t w \<and> agreement (turns_of t w) (loadItems t (session_of w))"

lemma projects_upsert:
  assumes "keyed t w" and "\<And>c. th_id (f c) = th_id c"
    and "\<And>c. get_thread t (tv_threads w) = Some c \<Longrightarrow> agreement (th_turns (f c)) (loadItems t (session_of w))"
    and "get_thread t (tv_threads w) = None \<Longrightarrow> agreement [] (loadItems t (session_of w))"
  shows "projects t (upsertThread t now f w)"
  using assms by (auto simp: projects_def keyed_def turns_of_def upsertThread_def session_of_def split: option.split)

lemma projects_parts:
  "projects t w \<Longrightarrow> keyed t w"
  "projects t w \<Longrightarrow> get_thread t (tv_threads w) = Some c \<Longrightarrow> agreement (th_turns c) (loadItems t (session_of w))"
  "projects t w \<Longrightarrow> get_thread t (tv_threads w) = None \<Longrightarrow> agreement [] (loadItems t (session_of w))"
  by (simp_all add: projects_def turns_of_def)

lemma projects_recorded [simp]:
  "projects t (recorded now d w) \<longleftrightarrow> projects t w" "projects t (recorded_once now d P w) \<longleftrightarrow> projects t w"
  "keyed t (recorded now d w) \<longleftrightarrow> keyed t w" "turns_of t (recorded now d w) = turns_of t w"
  by (simp_all add: projects_def keyed_def turns_of_def loadItems_def)

lemma projects_release [simp]:
  "projects t (release_turn u w) \<longleftrightarrow> projects t w" "projects t (abort_turn u w) \<longleftrightarrow> projects t w"
  "projects t (mark_running millis t' u w) \<longleftrightarrow> projects t w"
  by (simp_all add: projects_def keyed_def turns_of_def loadItems_def mark_running_def) (simp_all add: session_of_def)

lemma projects_session:
  "projects t (modify_session f w) \<longleftrightarrow> keyed t w \<and> agreement (turns_of t w) (loadItems t (f (session_of w)))"
  by (simp add: projects_def keyed_def turns_of_def)

lemma th_turns_projected: "th_turns (projected_thread x c) = project_turns x (th_turns c)"
  by (simp add: projected_thread_def project_turns_def)

lemma agreement_none: "agreement [] xs \<longleftrightarrow> distinct (item_ids xs)"
  by (simp add: agreement_def)

lemma agreement_distinct: "agreement us xs \<Longrightarrow> distinct (item_ids xs)"
  by (simp add: agreement_def)

lemma projects_distinct: "projects t w \<Longrightarrow> distinct (item_ids (loadItems t (session_of w)))"
  by (simp add: projects_def agreement_def)

lemma loadItems_append [simp]: "loadItems t (appendItem t x now s) = place_item x (loadItems t s)"
  by (simp add: loadItems_def items_of_appendItem)

lemma loadItems_rewrite [simp]: "loadItems t (rewriteItems t xs now s) = xs"
  by (simp add: loadItems_def items_of_rewrite)

lemma loadItems_recorded [simp]:
  "loadItems t (session_of (recorded now d w)) = loadItems t (session_of w)"
  "loadItems t (session_of (recorded_once now d P w)) = loadItems t (session_of w)"
  by (simp_all add: loadItems_def)

text \<open>Put an item into the turn, when the session holds the new items.\<close>

lemma projects_projectItem:
  assumes "projects t w" and "\<And>us. agreement us (loadItems t (session_of w)) \<Longrightarrow> agreement (project_turns x us) (loadItems t s)"
  shows "projects t (projectItem t x now (modify_session (\<lambda>_. s) w))"
proof -
  have "agreement [] (loadItems t s)"
    using assms(2)[of "[]"] projects_distinct[OF assms(1)] by (simp add: project_turns_def agreement_none)
  then show ?thesis
    unfolding projectItem_def using assms projects_parts[OF assms(1)]
    by (intro projects_upsert) (simp_all add: keyed_def projected_thread_def[of x, THEN arg_cong[of _ _ th_id]] th_turns_projected)
qed

lemma projects_append:
  assumes "projects t w" and "fits_item x (loadItems t (session_of w))"
  shows "projects t (service_appendItem t x clock w)"
proof -
  have "modify_session (appendItem t x (clock 0)) w = modify_session (\<lambda>_. appendItem t x (clock 0) (session_of w)) w"
    by (simp add: modify_session_def session_of_def)
  then show ?thesis
    unfolding service_appendItem_def using assms by (simp add: projects_projectItem agreement_place)
qed

lemma item_key_finalize [simp]: "item_key (finalizeOpenItem e now x) = item_key x"
  by (cases "ti_body x") (simp_all add: finalizeOpenItem_def item_key_def is_user_message_def)

lemma finish_record_keys:
  "tr_id (finish_record_of clock e error u) = tr_id u"
  "map item_key (tr_items (finish_record_of clock e error u)) = map item_key (tr_items u)"
  by (auto simp: finish_record_of_def finalizeOpenItems_def finishTurn_def Let_def split: option.split)

lemma agreement_map_when:
  assumes "agreement us xs" and "\<And>u. tr_id (f u) = tr_id u"
    and "\<And>u. map item_key (tr_items (f u)) = map item_key (tr_items u)"
  shows "agreement (map_when P f us) xs"
  by (rule agreement_same_keys[OF assms(1)]) (auto simp: map_when_def assms(2,3) comp_def)

lemma projects_finish:
  assumes "projects t w" and "op_fits t (Finish_turn clock turn e error) w"
  shows "projects t (snd (service_finishTurn clock t turn e error w))"
proof -
  let ?w1 = "upsertThread t (clock 3) (finished_thread clock turn e error) (release_turn turn w)"
  have "projects t (release_turn turn w)" using assms(1) by simp
  then have w1: "projects t ?w1"
    using projects_parts by (intro projects_upsert) (auto simp: finished_thread_def agreement_map_when finish_record_keys)
  have "projects t (service_appendItem t (error_item_of clock t turn m) clock' (recorded now d ?w1))" for m clock' now d
    using w1 assms(2) by (intro projects_append) simp_all
  with w1 show ?thesis
    by (auto simp: service_finishTurn_def steps_record split: sum.split option.split)
qed

lemma agreement_start:
  assumes "agreement us xs" and "turn \<notin> tr_id ` set us" and "\<forall>y \<in> set xs. ti_turn y \<noteq> turn \<and> ti_id y \<noteq> ti_id x"
    and "ti_turn x = turn" and "tr_id u = turn" and "tr_items u = [x]"
  shows "agreement (us @ [u]) (place_item x xs)"
proof -
  have p: "place_item x xs = xs @ [x]" using assms(3) by (auto simp: place_item_def)
  have "filter (\<lambda>k. fst (snd k) = turn) (map item_key xs) = []" using assms(3) by (auto simp: filter_empty_conv item_key_def)
  moreover have "distinct (item_ids (xs @ [x]))" using assms(1,3) by (auto simp: agreement_def item_ids_def)
  ultimately show ?thesis
    using assms by (auto simp: agreement_def p item_key_def)
qed

lemma projects_start:
  assumes "projects t w" and "op_fits t (Start_turn clock millis turn q) w" and "t \<noteq> []"
  shows "projects t (snd (service_startTurn clock millis turn t q w))"
proof (cases "get_thread t (tv_threads w)")
  case None
  with assms(1) show ?thesis by (simp add: service_startTurn_def)
next
  case (Some c)
  define x where "x = start_item clock turn t q"
  define u where "u = startTurn (appendTurnItem (start_record clock turn t q c) x) None (clock 3)"
  let ?w1 = "upsertThread t (clock 5) (started_thread u q (clock 4)) w"
  have id: "th_id c = t" using assms(1) Some by (simp add: projects_def keyed_def)
  then have g: "get_thread t (tv_threads ?w1) = Some ((started_thread u q (clock 4) c)\<lparr>th_updated := clock 5\<rparr>)"
    by (intro upsertThread_get) (simp_all add: Some started_thread_def)
  have k: "keyed t ?w1" and us: "turns_of t ?w1 = th_turns c @ [u]"
    using g id by (simp_all add: keyed_def turns_of_def started_thread_def)
  have "agreement (th_turns c @ [u]) (place_item x (loadItems t (session_of w)))"
    using assms(2) projects_parts(2)[OF assms(1) Some] by (intro agreement_start[where turn = turn])
      (simp_all add: Some turns_of_def u_def x_def start_item_def start_record_def makeUserItem_def make_item_def
        startTurn_def appendTurnItem_def place_item_def createTurnRecord_def Let_def)
  then have base: "projects t (modify_session (appendItem t x (clock 7)) ?w1)" and
    titled: "projects t (modify_session (appendItem t x (clock 7)) (recorded now d ?w1))" for now d
    using k us by (simp_all add: projects_session)
  have "\<exists>e. fst (record_event now (draft_of t None None (ThreadUpdated a b)) v) = Inr e" for now a b v
    using record_event_ok assms(3) by simp
  then have ok: "fst (record_event now (draft_of t None None (ThreadUpdated a b)) v) \<noteq> Inl e" for now a b v e
    by (metis sum.distinct(1))
  show ?thesis
    unfolding service_startTurn_def using base titled ok
    by (auto simp: Some Let_def answer_def steps_record x_def[symmetric] u_def[symmetric] steps.simps(1)
        split: sum.split option.split)
qed

lemma keep_keys: "map item_key (filter (\<lambda>x. ti_turn x \<noteq> turn \<or> is_user_message x) xs) =
    filter (\<lambda>k. fst (snd k) \<noteq> turn \<or> snd (snd k)) (map item_key xs)"
  by (induction xs) (simp_all add: item_key_def)

lemma interrupt_record_keys:
  "tr_id (interrupt_record clock b u) = tr_id u"
  "map item_key (tr_items (interrupt_record clock b u)) =
     (if b then filter (\<lambda>k. snd (snd k)) (map item_key (tr_items u)) else map item_key (tr_items u))"
proof -
  have "map item_key (filter is_user_message xs) = filter (\<lambda>k. snd (snd k)) (map item_key xs)" for xs
    by (induction xs) (simp_all add: item_key_def)
  then show "map item_key (tr_items (interrupt_record clock b u)) =
     (if b then filter (\<lambda>k. snd (snd k)) (map item_key (tr_items u)) else map item_key (tr_items u))"
    by (simp add: interrupt_record_def finalizeOpenItems_def finishTurn_def keepUserItems_def comp_def)
qed (simp add: interrupt_record_def finalizeOpenItems_def finishTurn_def)

lemma interrupted_turns: "th_turns (interrupted_thread clock turn b c) =
    map_when (\<lambda>u. tr_id u = turn) (interrupt_record clock b) (th_turns c)"
  by (auto simp: interrupted_thread_def map_when_def intro!: map_idI[symmetric])

lemma interrupted_id [simp]: "th_id (interrupted_thread clock turn b c) = th_id c"
  by (simp add: interrupted_thread_def)

lemma agreement_discard:
  assumes "agreement us xs"
  shows "agreement (map_when (\<lambda>u. tr_id u = turn) (interrupt_record clock True) us)
    (filter (\<lambda>x. ti_turn x \<noteq> turn \<or> is_user_message x) xs)"
proof -
  have "distinct (item_ids (filter P xs))" for P
    using assms by (auto simp: agreement_def item_ids_def distinct_map_filter)
  moreover have "map tr_id (map_when (\<lambda>u. tr_id u = turn) (interrupt_record clock True) us) = map tr_id us"
    by (rule map_when_tr_ids) (simp add: interrupt_record_keys)
  moreover have "map item_key (tr_items v) = filter (\<lambda>k. fst (snd k) = tr_id v)
      (filter (\<lambda>k. fst (snd k) \<noteq> turn \<or> snd (snd k)) (map item_key xs))"
    if v: "v \<in> set (map_when (\<lambda>u. tr_id u = turn) (interrupt_record clock True) us)" for v
  proof -
    from v obtain u where u: "u \<in> set us" "v = (if tr_id u = turn then interrupt_record clock True u else u)"
      by (auto simp: map_when_def)
    have "map item_key (tr_items u) = filter (\<lambda>k. fst (snd k) = tr_id u) (map item_key xs)"
      using assms u(1) by (simp add: agreement_def)
    then show ?thesis using u(2) by (auto simp: interrupt_record_keys intro!: filter_cong)
  qed
  moreover have "distinct (map tr_id us)" using assms by (simp add: agreement_def)
  ultimately show ?thesis unfolding agreement_def keep_keys by simp
qed

lemma projects_interrupt:
  assumes "projects t w"
  shows "projects t (snd (service_interruptTurn clock t turn b w))"
proof -
  let ?w = "recorded (clock 0) (draft_of t (Some turn) None (TurnEvent TurnAborted no_note)) (release_turn turn (abort_turn turn w))"
  have w: "projects t ?w" using assms by simp
  have "projects t (upsertThread t (clock 5) (interrupted_thread clock turn b)
      ((if b then discardTurnItems t turn (clock 1) else id) ?w))"
  proof (cases b)
    case True
    have "distinct (item_ids (filter P (loadItems t (session_of ?w))))" for P
      using projects_distinct[OF w] by (auto simp: item_ids_def distinct_map_filter)
    then show ?thesis using True projects_parts[OF w]
      by (intro projects_upsert) (auto simp: discardTurnItems_def keyed_def interrupted_turns agreement_discard[simplified] agreement_none)
  next
    case False
    then show ?thesis using projects_parts[OF w]
      by (intro projects_upsert) (auto simp: interrupted_turns agreement_map_when interrupt_record_keys)
  qed
  with w show ?thesis
    by (auto simp: service_interruptTurn_def answer_def steps_record steps.simps(1) split: sum.split)
qed

lemma map_when_keys:
  "(\<And>x. item_key (patch x) = item_key x) \<Longrightarrow> map item_key (map_when P patch xs) = map item_key xs"
  by (simp add: map_when_def)

lemma agreement_patched:
  assumes "agreement us xs" and "\<And>x. item_key (patch x) = item_key x"
  shows "agreement (map_when Q (\<lambda>u. replaceTurnItem u i patch) us) (map_when P patch xs)"
proof (rule agreement_same_keys[OF agreement_map_when[OF assms(1), where P = Q and f = "\<lambda>u. replaceTurnItem u i patch"]])
  show "map item_key (map_when P patch xs) = map item_key xs" using assms(2) by (rule map_when_keys)
qed (simp_all add: replaceTurnItem_def map_when_keys assms(2))

lemma loadItems_updated: "loadItems t (snd (updateItem t i patch now s)) = map_when (\<lambda>y. ti_id y = i) patch (loadItems t s)"
  by (simp add: loadItems_def updateItem_items)

lemma agreement_stream_patched:
  "agreement us xs \<Longrightarrow> (\<And>x. item_key (patch x) = item_key x) \<Longrightarrow> agreement us (map_when P patch xs)"
  by (erule agreement_same_keys) (simp_all add: map_when_keys)

lemma projects_update:
  assumes "projects t w" and "\<And>x. item_key (patch x) = item_key x"
  shows "projects t (snd (service_updateItem clock t i patch w))"
proof -
  let ?s = "snd (updateItem t i patch (clock 0) (session_of w))"
  let ?w2 = "upsertThread t (clock 1) (\<lambda>c. c\<lparr>th_turns := map_when
    (\<lambda>u. \<exists>x \<in> set (tr_items u). ti_id x = i) (\<lambda>u. replaceTurnItem u i patch) (th_turns c)\<rparr>) (modify_session (\<lambda>_. ?s) w)"
  have w2: "projects t ?w2"
    using projects_parts[OF assms(1)] agreement_stream_patched[of "[]", OF _ assms(2)]
    by (intro projects_upsert) (simp_all add: keyed_def loadItems_updated agreement_patched assms(2))
  have announced: "projects t (snd (answer y (record_in now d ?w2)))" for y now d
    using w2 by (simp add: answer_def record_in_def case_prod_beta Let_def recorded_def[symmetric])
  show ?thesis
    unfolding service_updateItem_def case_prod_beta Let_def
    by (auto split: option.split intro: w2 announced simp del: One_nat_def)
qed

lemma projects_announced:
  "projects t w \<Longrightarrow> projects t (snd (answer r (steps [record_once_in now d P] w)))"
  by (simp add: answer_def steps_record_once steps.simps(1) split: sum.split)

lemma projects_apply_once:
  assumes "projects t w"
  shows "projects t (snd (applyItemOnce clock t x w))"
proof (cases "List.find (\<lambda>y. ti_id y = ti_id x) (items_of (session_of w) t)")
  case None
  then have "fits_item x (loadItems t (session_of w))"
    by (auto simp: fits_item_def loadItems_def find_None_iff)
  with assms None show ?thesis
    by (auto simp: applyItemOnce_def appendItemOnce_def Let_def agreement_place
        intro!: projects_announced projects_projectItem)
next
  case (Some y)
  then have "y \<in> set (loadItems t (session_of w))" by (auto simp: loadItems_def find_Some_iff)
  with assms Some show ?thesis
    by (auto simp: applyItemOnce_def appendItemOnce_def Let_def agreement_seen
        intro!: projects_announced projects_projectItem)
qed

lemma updateItem_member:
  "fst (updateItem t i patch now s) = Some y \<Longrightarrow> y \<in> set (loadItems t (snd (updateItem t i patch now s)))"
proof -
  assume "fst (updateItem t i patch now s) = Some y"
  then obtain x where x: "last_opt (filter (\<lambda>y. ti_id y = i) (items_of s t)) = Some x" "y = patch x"
    by (auto simp: updateItem_def split: option.splits)
  then have "x \<in> set (filter (\<lambda>y. ti_id y = i) (items_of s t))"
    by (metis last_in_set last_opt_def option.distinct(1) option.inject)
  then have "y \<in> set (map_when (\<lambda>y. ti_id y = i) patch (items_of s t))"
    using x(2) by (auto simp: map_when_def intro: rev_image_eqI)
  then show ?thesis unfolding loadItems_updated by (simp add: loadItems_def)
qed

lemma find_Some_in: "List.find P xs = Some x \<Longrightarrow> x \<in> set xs"
  by (auto simp: find_Some_iff)

lemma projects_update_once:
  assumes "projects t w" and "\<And>x. item_key (patch x) = item_key x"
  shows "projects t (snd (service_updateItemOnce clock t i patch w))"
proof (cases "updateItemOnce t i patch (clock 0) (session_of w)")
  case (Pair outcome s)
  have keys: "agreement us (loadItems t (session_of w)) \<Longrightarrow> agreement us (loadItems t s)" for us
    using Pair agreement_stream_patched[OF _ assms(2)] loadItems_updated[of t i patch "clock 0" "session_of w"]
    by (auto simp: updateItemOnce_def case_prod_beta split: option.splits if_splits)
  have m: "y \<in> set (loadItems t s)" if "outcome = Some (y, changed)" for y changed
    using Pair that updateItem_member[of t i patch "clock 0" "session_of w"] find_Some_in[of _ "items_of (session_of w) t"]
    by (auto simp: updateItemOnce_def loadItems_def case_prod_beta split: option.splits if_splits)
  have "projects t (projectItem t y now (modify_session (\<lambda>_. s) w))" if "outcome = Some (y, changed)" for y changed now
    using keys m[OF that] by (intro projects_projectItem[OF assms(1)] agreement_seen)
  moreover have "projects t (modify_session (\<lambda>_. s) w)"
    using assms(1) keys by (simp add: projects_def keyed_def turns_of_def)
  ultimately show ?thesis
    by (auto simp: service_updateItemOnce_def Pair Let_def intro: projects_announced split: option.split)
qed

lemma projects_updateTurnMetadata: "projects t w \<Longrightarrow> projects t (updateTurnMetadata t turn m now w)"
  unfolding updateTurnMetadata_def using projects_parts[of t w]
  by (intro projects_upsert) (simp_all add: agreement_map_when put_metadata_def)

lemma projects_steer: "projects t w \<Longrightarrow> projects t (snd (service_steerTurn clock t turn text w))"
  by (simp add: service_steerTurn_def steps_record steps.simps(1) projects_def keyed_def turns_of_def loadItems_def
      session_of_def split: sum.split) (simp add: recorded_def record_event_items)

lemma projects_apply:
  "projects t w \<Longrightarrow> fits_item x (loadItems t (session_of w)) \<Longrightarrow> projects t (snd (applyItem clock t x w))"
  by (simp add: applyItem_def steps_record steps.simps(1) projects_append split: sum.split)

lemma projects_run_op: "projects t w \<Longrightarrow> t \<noteq> [] \<Longrightarrow> op_fits t x w \<Longrightarrow> projects t (run_op t x w)"
proof (cases x)
  case (Start_turn clock millis turn q)
  assume "projects t w" "t \<noteq> []" "op_fits t x w"
  then show ?thesis unfolding Start_turn run_op.simps by (intro projects_start)
next
  case (Finish_turn clock turn e error)
  assume "projects t w" "op_fits t x w"
  then show ?thesis unfolding Finish_turn run_op.simps by (intro projects_finish)
qed (simp_all add: projects_steer projects_interrupt projects_updateTurnMetadata projects_apply projects_apply_once
    projects_update projects_update_once)

lemma projects_run_ops: "projects t w \<Longrightarrow> t \<noteq> [] \<Longrightarrow> all_fit t xs w \<Longrightarrow> projects t (run_ops t xs w)"
  by (induction xs arbitrary: w) (simp_all add: run_ops_def projects_run_op)


section \<open>Samples\<close>

definition sample_thread :: thread where
  "sample_thread = \<lparr>th_id = ''t'', th_owner = None, th_title = ''New Thread'', th_workspace = ''w'', th_model = ''m'',
     th_mode = Agent_mode, th_work_mode = ''office'', th_module = None, th_status = Thread_idle, th_cost = None,
     th_warned = None, th_relation = Primary_thread, th_parent = None, th_origin = None, th_origin_title = None,
     th_forked_at = None, th_origin_messages = None, th_origin_turns = None, th_goal = None, th_todos = None,
     th_created = ''0'', th_updated = ''0'', th_approval = Policy_auto, th_sandbox = Full_access, th_turns = []\<rparr>"

definition sample_request :: start_request where
  "sample_request = \<lparr>st_turn = \<lparr>rq_prompt = ''hi'', rq_model = None, rq_effort = None, rq_attachments = None,
       rq_work_mode = None, rq_plan = None, rq_mode = None, rq_created = None, rq_status = None\<rparr>,
     st_display = None, st_approval = None, st_sandbox = None\<rparr>"

definition sample_world :: "turn list \<Rightarrow> turn_world" where
  "sample_world us = \<lparr>tv_threads = upsert_thread (sample_thread\<lparr>th_turns := us\<rparr>) [],
     tv_recorder = \<lparr>rw_bus = empty_bus, rw_store = empty_session_store, rw_usage = []\<rparr>,
     tv_inflight = [], tv_steering = [], tv_running = [], tv_aborted = []\<rparr>"

lemma sample_world_get: "get_thread ''t'' (tv_threads (sample_world us)) = Some (sample_thread\<lparr>th_turns := us\<rparr>)"
  by (simp add: sample_world_def sample_thread_def)

lemma sample_world_items: "loadItems ''t'' (session_of (sample_world us)) = []"
  by (simp add: sample_world_def session_of_def loadItems_def items_of_def empty_session_store_def get_or_def)

definition sample_turn :: turn where
  "sample_turn = appendTurnItem (createTurnRecord ''u'' ''t'' (st_turn sample_request) ''0'')
     (makeToolCallItem ''c'' ''u'' ''t'' ''call'' ''read'' None [] None None ''0'')"

theorem finished_turn_settled_witness:
  "\<exists>u'. getTurn ''t'' ''u'' (snd (service_finishTurn (\<lambda>_. ''1'') ''t'' ''u'' End_failed (Some ''no'') (sample_world [sample_turn]))) = Some u'
     \<and> settled End_failed u'"
proof -
  have "List.find (\<lambda>u. tr_id u = ''u'') (th_turns (sample_thread\<lparr>th_turns := [sample_turn]\<rparr>)) = Some sample_turn"
    by (simp add: sample_turn_def appendTurnItem_def createTurnRecord_def Let_def)
  moreover have "th_id (sample_thread\<lparr>th_turns := [sample_turn]\<rparr>) = ''t''" by (simp add: sample_thread_def)
  ultimately show ?thesis
    using finished_turn_settled[OF sample_world_get _ _ refl] by blast
qed


end
