(* ===== verification/FileStores.thy ===== *)
theory FileStores
  imports Threads EventBoundary
begin

text \<open>
  The stores on files: \<open>adapters/adapter-storage/src/file-session-store.ts\<close> (the streams of a thread as
  JSON lines) and \<open>file-thread-store.ts\<close> (the record of a thread and the index of all threads).

  A file is its contents: a line that \<open>JSON.parse\<close> rejects is \<open>None\<close>, and a state file is \<open>None\<close> when it
  is missing or unreadable, which the code treats alike. Reading back what was written gives the same
  value. Thread ids are names without separators, so every thread has a directory of its own. The
  stores queue the changes of one file, so that an operation is one step.

  Against the stores in memory, each file store is shown to answer the same.
\<close>

section \<open>The disk\<close>

record thread_dir =
  fd_thread :: "thread option"
  fd_messages :: "turn_item option list"
  fd_events :: "runtime_event option list"
  fd_session :: "agent_session option"

record disk =
  dk_dirs :: "(string, thread_dir) jsmap"
  dk_index :: "string list option"

definition blank_dir :: thread_dir where
  "blank_dir = \<lparr>fd_thread = None, fd_messages = [], fd_events = [], fd_session = None\<rparr>"

definition blank_disk :: disk where
  "blank_disk = \<lparr>dk_dirs = [], dk_index = None\<rparr>"

definition dir_of :: "string \<Rightarrow> disk \<Rightarrow> thread_dir" where
  "dir_of t d = get_or blank_dir (dk_dirs d) t"

definition change_dir :: "string \<Rightarrow> (thread_dir \<Rightarrow> thread_dir) \<Rightarrow> disk \<Rightarrow> disk" where
  "change_dir t f d = d\<lparr>dk_dirs := AList.update t (f (dir_of t d)) (dk_dirs d)\<rparr>"

definition readJsonl :: "'a option list \<Rightarrow> 'a list" where
  "readJsonl ls = List.map_filter (\<lambda>l. l) ls"

section \<open>Items\<close>

definition raw_items :: "string \<Rightarrow> disk \<Rightarrow> turn_item list" where
  "raw_items t d = readJsonl (fd_messages (dir_of t d))"

definition file_appendItem :: "string \<Rightarrow> turn_item \<Rightarrow> disk \<Rightarrow> disk" where
  "file_appendItem t x = change_dir t (\<lambda>f. f\<lparr>fd_messages := fd_messages f @ [Some x]\<rparr>)"

definition last_version :: "string \<Rightarrow> turn_item list \<Rightarrow> turn_item option" where
  "last_version i raw = List.find (\<lambda>y. ti_id y = i) (rev raw)"

definition file_appendItemOnce :: "string \<Rightarrow> turn_item \<Rightarrow> disk \<Rightarrow> (turn_item \<times> bool) \<times> disk" where
  "file_appendItemOnce t x d = (case last_version (ti_id x) (raw_items t d) of
      Some y \<Rightarrow> ((y, False), d)
    | None \<Rightarrow> ((x, True), file_appendItem t x d))"

definition file_rewriteItems :: "string \<Rightarrow> turn_item list \<Rightarrow> disk \<Rightarrow> disk" where
  "file_rewriteItems t xs = change_dir t (\<lambda>f. f\<lparr>fd_messages := map Some xs\<rparr>)"

definition note_item :: "turn_item \<Rightarrow> string list \<times> (string, turn_item) jsmap \<Rightarrow> string list \<times> (string, turn_item) jsmap" where
  "note_item x s = (case s of (order, latest) \<Rightarrow>
     (if map_of latest (ti_id x) = None then order @ [ti_id x] else order, AList.update (ti_id x) x latest))"

definition latest_items :: "turn_item list \<Rightarrow> turn_item list" where
  "latest_items raw = (let (order, latest) = fold note_item raw ([], []) in List.map_filter (map_of latest) order)"

definition file_loadItems :: "string \<Rightarrow> disk \<Rightarrow> turn_item list" where
  "file_loadItems t d = latest_items (raw_items t d)"

definition file_updateItem ::
    "string \<Rightarrow> string \<Rightarrow> (turn_item \<Rightarrow> turn_item) \<Rightarrow> disk \<Rightarrow> turn_item option \<times> disk" where
  "file_updateItem t i patch d = (case List.find (\<lambda>y. ti_id y = i) (file_loadItems t d) of
      None \<Rightarrow> (None, d)
    | Some y \<Rightarrow> (Some (patch y), file_appendItem t (patch y) d))"

definition file_updateItemOnce ::
    "string \<Rightarrow> string \<Rightarrow> (turn_item \<Rightarrow> turn_item) \<Rightarrow> disk \<Rightarrow> (turn_item \<times> bool) option \<times> disk" where
  "file_updateItemOnce t i patch d = (case last_version i (raw_items t d) of
      None \<Rightarrow> (None, d)
    | Some y \<Rightarrow> if patch y = y then (Some (y, False), d)
        else (Some (patch y, True), file_appendItem t (patch y) d))"

section \<open>Events and the compaction of usage events\<close>

text \<open>
  \<open>parse_ms\<close> is \<open>Date.parse\<close> and \<open>iso_day\<close> the first ten characters of the ISO form of a time; \<open>large\<close> says
  that the log has outgrown its limit in bytes. The default limits are five megabytes and 365 days.
\<close>

record usage_limits =
  ul_large :: "runtime_event option list \<Rightarrow> bool"
  ul_days :: int
  ul_parse :: "string \<Rightarrow> int option"
  ul_day :: "int \<Rightarrow> string"

definition cutoff_of :: "usage_limits \<Rightarrow> string \<Rightarrow> int option" where
  "cutoff_of u now = map_option (\<lambda>ms. ms - ul_days u * 86400000) (ul_parse u now)"

definition too_old :: "usage_limits \<Rightarrow> int \<Rightarrow> runtime_event \<Rightarrow> bool" where
  "too_old u cutoff e = (case ul_parse u (ev_time e) of None \<Rightarrow> False | Some ms \<Rightarrow> ms < cutoff)"

definition last_index :: "('a \<Rightarrow> bool) \<Rightarrow> 'a list \<Rightarrow> nat option" where
  "last_index P xs = last_opt (filter (\<lambda>i. P (xs ! i)) [0..<length xs])"

definition usageCoalescingBucket :: "usage_limits \<Rightarrow> runtime_event \<Rightarrow> string" where
  "usageCoalescingBucket u e = (case ev_body e of
      UsageEvent model _ \<Rightarrow> (case ul_parse u (ev_time e) of None \<Rightarrow> ev_time e | Some ms \<Rightarrow> ul_day u ms) @ '':'' @ or_else model []
    | _ \<Rightarrow> [])"

definition shouldRetainUsageEvent ::
    "usage_limits \<Rightarrow> int \<Rightarrow> nat option \<Rightarrow> nat option \<Rightarrow> nat \<Rightarrow> runtime_event \<Rightarrow> bool" where
  "shouldRetainUsageEvent u cutoff latest before i e =
     (\<not> is_usage_event e \<or> Some i = latest \<or> Some i = before \<or> \<not> too_old u cutoff e)"

text \<open>One round of the loop, over the kept positions and the last position of every bucket.\<close>

fun keep_events :: "usage_limits \<Rightarrow> int \<Rightarrow> nat option \<Rightarrow> nat option \<Rightarrow> nat \<Rightarrow> runtime_event list \<Rightarrow>
    nat list \<Rightarrow> (string, nat) jsmap \<Rightarrow> nat list" where
  "keep_events u cutoff latest before i [] keep buckets = keep"
| "keep_events u cutoff latest before i (e # es) keep buckets =
     (if \<not> is_usage_event e then keep_events u cutoff latest before (Suc i) es (i # keep) buckets
      else if \<not> shouldRetainUsageEvent u cutoff latest before i e
      then keep_events u cutoff latest before (Suc i) es keep buckets
      else let b = usageCoalescingBucket u e;
               keep' = (case map_of buckets b of
                   None \<Rightarrow> keep
                 | Some p \<Rightarrow> if Some p \<noteq> before then removeAll p keep else keep)
           in keep_events u cutoff latest before (Suc i) es (i # keep') (AList.update b i buckets))"

definition compactUsageEvents :: "usage_limits \<Rightarrow> string \<Rightarrow> runtime_event list \<Rightarrow> runtime_event list" where
  "compactUsageEvents u now es = (case cutoff_of u now of
      None \<Rightarrow> es
    | Some cutoff \<Rightarrow> (let
          latest = last_index is_usage_event es;
          before = last_index (\<lambda>e. is_usage_event e \<and> too_old u cutoff e) es
        in if latest = None then es
           else let keep = keep_events u cutoff latest before 0 es [] []
             in map snd (filter (\<lambda>p. fst p \<in> set keep) (enumerate 0 es))))"

definition raw_events :: "string \<Rightarrow> disk \<Rightarrow> runtime_event list" where
  "raw_events t d = readJsonl (fd_events (dir_of t d))"

definition compactUsageEventsIfLarge :: "usage_limits \<Rightarrow> string \<Rightarrow> string \<Rightarrow> disk \<Rightarrow> disk" where
  "compactUsageEventsIfLarge u now t d = (if \<not> ul_large u (fd_events (dir_of t d)) then d
     else let es = raw_events t d; cs = compactUsageEvents u now es
       in if length es \<le> length cs then d else change_dir t (\<lambda>f. f\<lparr>fd_events := map Some cs\<rparr>) d)"

definition file_appendEvent :: "usage_limits \<Rightarrow> string \<Rightarrow> string \<Rightarrow> runtime_event \<Rightarrow> disk \<Rightarrow> disk" where
  "file_appendEvent u now t e d = (
     let d' = change_dir t (\<lambda>f. f\<lparr>fd_events := fd_events f @ [Some e]\<rparr>) d
     in if is_usage_event e then compactUsageEventsIfLarge u now t d' else d')"

definition file_loadEventsSince :: "string \<Rightarrow> int \<Rightarrow> disk \<Rightarrow> runtime_event list" where
  "file_loadEventsSince t since d = sort_key ev_seq (filter (\<lambda>e. since < int (ev_seq e)) (raw_events t d))"

definition file_highestSeq :: "string \<Rightarrow> disk \<Rightarrow> nat" where
  "file_highestSeq t d = fold (\<lambda>e m. max m (ev_seq e)) (raw_events t d) 0"

definition file_loadSession :: "string \<Rightarrow> disk \<Rightarrow> agent_session option" where
  "file_loadSession t d = fd_session (dir_of t d)"

definition file_upsertSession :: "agent_session \<Rightarrow> disk \<Rightarrow> disk" where
  "file_upsertSession s = change_dir (as_thread s) (\<lambda>f. f\<lparr>fd_session := Some s\<rparr>)"

definition file_resetMemory :: "disk \<Rightarrow> disk" where
  "file_resetMemory d = d"

section \<open>Threads\<close>

definition readIndex :: "disk \<Rightarrow> string list" where
  "readIndex d = or_else (dk_index d) []"

definition updateIndex :: "(string list \<Rightarrow> string list) \<Rightarrow> disk \<Rightarrow> disk" where
  "updateIndex f d = d\<lparr>dk_index := Some (f (readIndex d))\<rparr>"

definition add_id :: "string \<Rightarrow> string list \<Rightarrow> string list" where
  "add_id i order = (let ids = rev (remdups (rev order)) in if i \<in> set ids then ids else ids @ [i])"

definition file_get :: "string \<Rightarrow> disk \<Rightarrow> thread option" where
  "file_get t d = fd_thread (dir_of t d)"

definition file_list :: "disk \<Rightarrow> thread_summary list" where
  "file_list d = rev (sort_key th_updated (rev (List.map_filter (\<lambda>t. map_option toThreadSummary (file_get t d)) (readIndex d))))"

definition file_upsert :: "thread \<Rightarrow> disk \<Rightarrow> disk" where
  "file_upsert c d = updateIndex (add_id (th_id c)) (change_dir (th_id c) (\<lambda>f. f\<lparr>fd_thread := Some c\<rparr>) d)"

definition file_delete :: "string \<Rightarrow> disk \<Rightarrow> bool \<times> disk" where
  "file_delete t d = (case map_of (dk_dirs d) t of
      None \<Rightarrow> (False, d)
    | Some _ \<Rightarrow> (True, updateIndex (filter (\<lambda>i. i \<noteq> t)) (d\<lparr>dk_dirs := AList.delete t (dk_dirs d)\<rparr>)))"

section \<open>The log of items is the list of items\<close>

text \<open>
  A reader of the file sees what the store in memory holds: every item where its id first occurs, in
  its last version.
\<close>

definition keyed_items :: "turn_item list \<Rightarrow> (string, turn_item) jsmap" where
  "keyed_items xs = map (\<lambda>x. (ti_id x, x)) xs"

lemma place_item_Cons: "distinct (item_ids (y # ys)) \<Longrightarrow>
    place_item x (y # ys) = (if ti_id y = ti_id x then x # ys else y # place_item x ys)"
  by (auto simp: place_item_def map_when_def item_ids_def intro!: map_idI) (metis imageI)

lemma update_keyed: "distinct (item_ids xs) \<Longrightarrow> AList.update (ti_id x) x (keyed_items xs) = keyed_items (place_item x xs)"
proof (induction xs)
  case Nil
  then show ?case by (simp add: keyed_items_def place_item_def)
next
  case (Cons y ys)
  then show ?case by (simp add: place_item_Cons keyed_items_def) (simp add: item_ids_def)
qed

lemma map_of_keyed: "map_of (keyed_items xs) i = List.find (\<lambda>y. ti_id y = i) xs"
  by (induction xs) (auto simp: keyed_items_def)

lemma find_id_None: "List.find (\<lambda>y. ti_id y = i) xs = None \<longleftrightarrow> i \<notin> set (item_ids xs)"
  by (auto simp: find_None_iff item_ids_def)

lemma note_placed: "distinct (item_ids xs) \<Longrightarrow>
    note_item x (item_ids xs, keyed_items xs) = (item_ids (place_item x xs), keyed_items (place_item x xs))"
  by (simp add: note_item_def update_keyed map_of_keyed find_id_None place_item_ids)

lemma fold_place_distinct: "distinct (item_ids xs) \<Longrightarrow> distinct (item_ids (fold place_item raw xs))"
  by (induction raw arbitrary: xs) (simp_all add: place_item_distinct)

lemma fold_noted: "distinct (item_ids xs) \<Longrightarrow>
    fold note_item raw (item_ids xs, keyed_items xs) = (item_ids (fold place_item raw xs), keyed_items (fold place_item raw xs))"
  by (induction raw arbitrary: xs) (simp_all add: note_placed place_item_distinct)

lemma find_itself: "distinct (item_ids xs) \<Longrightarrow> x \<in> set xs \<Longrightarrow> List.find (\<lambda>y. ti_id y = ti_id x) xs = Some x"
  by (induction xs) (auto simp: item_ids_def)

lemma latest_items_placed: "latest_items raw = fold place_item raw []"
proof -
  let ?xs = "fold place_item raw []"
  have d: "distinct (item_ids ?xs)" by (rule fold_place_distinct) (simp add: item_ids_def)
  have "List.map_filter (map_of (keyed_items ?xs)) (item_ids ys) = ys" if "set ys \<subseteq> set ?xs" for ys
    using that d by (induction ys) (simp_all add: map_of_keyed item_ids_def map_filter_simps find_itself[unfolded item_ids_def])
  then show ?thesis
    using fold_noted[of "[]" raw] by (simp add: latest_items_def item_ids_def keyed_items_def)
qed

lemma find_placed: "List.find (\<lambda>y. ti_id y = i) (place_item x xs) =
    (if ti_id x = i then Some x else List.find (\<lambda>y. ti_id y = i) xs)"
proof (cases "\<exists>y \<in> set xs. ti_id y = ti_id x")
  case True
  have "ti_id x \<noteq> i \<Longrightarrow> List.find (\<lambda>y. ti_id y = i) (map_when (\<lambda>y. ti_id y = ti_id x) (\<lambda>_. x) ys) =
      List.find (\<lambda>y. ti_id y = i) ys" for ys
    by (induction ys) (auto simp: map_when_def)
  moreover have "\<exists>y \<in> set ys. ti_id y = ti_id x \<Longrightarrow>
      List.find (\<lambda>y. ti_id y = ti_id x) (map_when (\<lambda>y. ti_id y = ti_id x) (\<lambda>_. x) ys) = Some x" for ys
    by (induction ys) (auto simp: map_when_def)
  ultimately show ?thesis using True by (auto simp: place_item_def)
next
  case False
  then have "List.find (\<lambda>y. ti_id y = ti_id x) xs = None" by (auto simp: find_None_iff)
  with False show ?thesis by (cases "ti_id x = i") (simp_all add: place_item_def find_append split: option.split)
qed

lemma last_version_latest: "last_version i raw = List.find (\<lambda>y. ti_id y = i) (latest_items raw)"
  by (induction raw rule: rev_induct) (simp_all add: last_version_def latest_items_placed find_placed)

lemma latest_append: "latest_items (raw @ [x]) = place_item x (latest_items raw)"
  by (simp add: latest_items_placed)

lemma latest_distinct: "distinct (item_ids (latest_items raw))"
  unfolding latest_items_placed by (rule fold_place_distinct) (simp add: item_ids_def)

lemma latest_of_distinct: "distinct (item_ids xs) \<Longrightarrow> latest_items xs = xs"
proof (induction xs rule: rev_induct)
  case (snoc x xs)
  then have "\<forall>y \<in> set xs. ti_id y \<noteq> ti_id x" by (auto simp: item_ids_def) (metis imageI)
  with snoc show ?case by (simp add: latest_append item_ids_def) (auto simp: place_item_def)
qed (simp add: latest_items_placed)

lemma readJsonl_simps [simp]: "readJsonl [] = []" "readJsonl (ls @ ms) = readJsonl ls @ readJsonl ms"
  "readJsonl [Some x] = [x]" "readJsonl (map Some xs) = xs"
  by (simp_all add: readJsonl_def map_filter_def) (induction xs; simp)

lemma dir_of_change [simp]: "dir_of u (change_dir t f d) = (if u = t then f (dir_of t d) else dir_of u d)"
  by (simp add: dir_of_def change_dir_def)

lemma file_loadItems_append [simp]:
  "file_loadItems u (file_appendItem t x d) = (if u = t then place_item x (file_loadItems t d) else file_loadItems u d)"
  by (simp add: file_loadItems_def raw_items_def file_appendItem_def latest_append)

lemma file_loadItems_rewrite: "distinct (item_ids xs) \<Longrightarrow>
    file_loadItems u (file_rewriteItems t xs d) = (if u = t then xs else file_loadItems u d)"
  by (simp add: file_loadItems_def raw_items_def file_rewriteItems_def latest_of_distinct)

lemma file_items_distinct: "distinct (item_ids (file_loadItems t d))"
  by (simp add: file_loadItems_def latest_distinct)

section \<open>The session store on files refines the one in memory\<close>

text \<open>
  What the disk does for an operation of the session store. The clock of the operation is the clock of
  the compaction.
\<close>

fun file_session_step :: "usage_limits \<Rightarrow> session_op \<Rightarrow> disk \<Rightarrow> disk" where
  "file_session_step u (Append_event t e now) d = file_appendEvent u now t e d"
| "file_session_step u (Append_item t x now) d = file_appendItem t x d"
| "file_session_step u (Append_once t x now) d = snd (file_appendItemOnce t x d)"
| "file_session_step u (Rewrite_items t xs now) d = file_rewriteItems t xs d"
| "file_session_step u (Update_item t i patch now) d = snd (file_updateItem t i patch d)"
| "file_session_step u (Update_once t i patch now) d = snd (file_updateItemOnce t i patch d)"
| "file_session_step u (Upsert_session s) d = file_upsertSession s d"
| "file_session_step u Reset_memory d = file_resetMemory d"

text \<open>A client of both stores keeps ids in patches and rewrites, writes a session back with the items of
  its thread, and does not clear the memory.\<close>

fun portable :: "session_store \<Rightarrow> session_op \<Rightarrow> bool" where
  "portable st (Rewrite_items t xs now) = distinct (item_ids xs)"
| "portable st (Update_item t i patch now) = (\<forall>x. ti_id (patch x) = ti_id x)"
| "portable st (Update_once t i patch now) = (\<forall>x. ti_id (patch x) = ti_id x)"
| "portable st (Upsert_session s) = (as_items s = loadItems (as_thread s) st)"
| "portable st Reset_memory = False"
| "portable st _ = True"

fun all_portable :: "session_op list \<Rightarrow> session_store \<Rightarrow> bool" where
  "all_portable [] st = True"
| "all_portable (x # xs) st = (portable st x \<and> all_portable xs (session_step x st))"

definition file_session_run :: "usage_limits \<Rightarrow> session_op list \<Rightarrow> disk \<Rightarrow> disk" where
  "file_session_run u xs d = fold (file_session_step u) xs d"

definition same_items :: "disk \<Rightarrow> session_store \<Rightarrow> bool" where
  "same_items d st \<longleftrightarrow> (\<forall>t. file_loadItems t d = items_of st t)"

lemma same_items_distinct: "same_items d st \<Longrightarrow> distinct (item_ids (items_of st t))"
  using file_items_distinct[of t d] by (simp add: same_items_def)

lemma last_version_same: "same_items d st \<Longrightarrow> last_version i (raw_items t d) = List.find (\<lambda>y. ti_id y = i) (items_of st t)"
  by (simp add: last_version_latest same_items_def flip: file_loadItems_def)

lemma distinct_last_find: "distinct (item_ids xs) \<Longrightarrow> last_opt (filter (\<lambda>y. ti_id y = i) xs) = List.find (\<lambda>y. ti_id y = i) xs"
proof (induction xs)
  case (Cons x xs)
  have "ti_id x = i \<Longrightarrow> filter (\<lambda>y. ti_id y = i) xs = []"
    using Cons.prems by (auto simp: item_ids_def filter_empty_conv image_iff)
  with Cons show ?case by (auto simp: last_opt_def item_ids_def)
qed (simp add: last_opt_def)

lemma patch_places:
  assumes "distinct (item_ids xs)" and "List.find (\<lambda>y. ti_id y = i) xs = Some y" and "ti_id (patch y) = ti_id y"
  shows "place_item (patch y) xs = map_when (\<lambda>z. ti_id z = i) patch xs"
proof -
  from assms(2) have y: "y \<in> set xs" "ti_id y = i" by (auto simp: find_Some_iff)
  have "z = y" if "z \<in> set xs" "ti_id z = i" for z
    using assms(1) y that by (metis distinct_map inj_onD item_ids_def)
  then have "map_when (\<lambda>z. ti_id z = i) (\<lambda>_. patch y) xs = map_when (\<lambda>z. ti_id z = i) patch xs"
    unfolding map_when_def by (intro map_cong) auto
  moreover have "\<exists>z \<in> set xs. ti_id z = ti_id (patch y)" using y assms(3) by auto
  ultimately show ?thesis using y(2) assms(3) by (simp add: place_item_def)
qed

lemma same_appendItem: "same_items d st \<Longrightarrow> same_items (file_appendItem t x d) (appendItem t x now st)"
  by (simp add: same_items_def items_of_appendItem)

lemma file_appendItemOnce_same:
  assumes "same_items d st"
  shows "fst (file_appendItemOnce t x d) = fst (appendItemOnce t x now st) \<and>
    same_items (snd (file_appendItemOnce t x d)) (snd (appendItemOnce t x now st))"
  using assms by (simp add: file_appendItemOnce_def appendItemOnce_def last_version_same same_appendItem split: option.split)

lemma file_updateItem_same:
  assumes s: "same_items d st" and "\<forall>x. ti_id (patch x) = ti_id x"
  shows "fst (file_updateItem t i patch d) = fst (updateItem t i patch now st) \<and>
    same_items (snd (file_updateItem t i patch d)) (snd (updateItem t i patch now st))"
proof -
  have i: "file_loadItems t d = items_of st t" using s by (simp add: same_items_def)
  have "same_items (file_appendItem t (patch y) d) (rewriteItems t (map_when (\<lambda>z. ti_id z = i) patch (items_of st t)) now st)"
    if "List.find (\<lambda>y. ti_id y = i) (items_of st t) = Some y" for y
    using s assms(2) patch_places[OF same_items_distinct[OF s] that]
    by (simp add: same_items_def items_of_rewrite)
  with s show ?thesis
    by (simp add: file_updateItem_def updateItem_def i distinct_last_find same_items_distinct[OF s] split: option.split)
qed

lemma file_updateItemOnce_same:
  assumes s: "same_items d st" and p: "\<forall>x. ti_id (patch x) = ti_id x"
  shows "fst (file_updateItemOnce t i patch d) = fst (updateItemOnce t i patch now st) \<and>
    same_items (snd (file_updateItemOnce t i patch d)) (snd (updateItemOnce t i patch now st))"
proof -
  have i: "file_loadItems t d = items_of st t" using s by (simp add: same_items_def)
  have u: "file_updateItem t i patch d = (Some (patch y), file_appendItem t (patch y) d)"
    if "List.find (\<lambda>y. ti_id y = i) (items_of st t) = Some y" for y
    using that by (simp add: file_updateItem_def i)
  show ?thesis
  proof (cases "List.find (\<lambda>y. ti_id y = i) (items_of st t)")
    case None
    with s show ?thesis by (simp add: file_updateItemOnce_def updateItemOnce_def last_version_same)
  next
    case (Some y)
    have "fst (updateItem t i patch now st) = Some (patch y)"
      and "same_items (file_appendItem t (patch y) d) (snd (updateItem t i patch now st))"
      using file_updateItem_same[OF s p, of t i now] u[OF Some] by simp_all
    with s Some show ?thesis
      by (simp add: file_updateItemOnce_def updateItemOnce_def last_version_same case_prod_beta)
  qed
qed

lemma file_items_events: "file_loadItems u (file_appendEvent v now t e d) = file_loadItems u d"
  by (auto simp: file_appendEvent_def compactUsageEventsIfLarge_def Let_def file_loadItems_def raw_items_def)

lemma same_upsertSession:
  assumes "same_items d st" and "as_items s = loadItems (as_thread s) st"
  shows "same_items (file_upsertSession s d) (upsertSession s st)"
proof -
  have "items_of (upsertSession s st) u = items_of st u" for u
    using assms(2) by (auto simp: upsertSession_def items_of_def loadItems_def set_if_absent_def get_or_def split: option.split)
  then show ?thesis
    using assms(1) by (simp add: same_items_def file_loadItems_def raw_items_def file_upsertSession_def)
qed

lemma file_session_step_same:
  "same_items d st \<Longrightarrow> portable st x \<Longrightarrow> same_items (file_session_step u x d) (session_step x st)"
proof (cases x)
  case (Append_event t e now)
  assume "same_items d st"
  then show ?thesis by (simp add: Append_event same_items_def file_items_events events_of_appendEvent)
next
  case (Rewrite_items t xs now)
  assume "same_items d st" "portable st x"
  then show ?thesis by (simp add: Rewrite_items same_items_def file_loadItems_rewrite items_of_rewrite)
qed (simp_all add: same_appendItem file_appendItemOnce_same file_updateItem_same file_updateItemOnce_same same_upsertSession)

lemma file_session_run_same:
  "same_items d st \<Longrightarrow> all_portable xs st \<Longrightarrow> same_items (file_session_run u xs d) (session_run xs st)"
  by (induction xs arbitrary: d st) (simp_all add: file_session_run_def file_session_step_same)

section \<open>What a compaction keeps\<close>

definition usage_candidate :: "usage_limits \<Rightarrow> int \<Rightarrow> runtime_event list \<Rightarrow> nat \<Rightarrow> bool" where
  "usage_candidate u cutoff es k \<longleftrightarrow> k < length es \<and> is_usage_event (es ! k) \<and>
     (Some k = last_index is_usage_event es \<or>
      Some k = last_index (\<lambda>e. is_usage_event e \<and> too_old u cutoff e) es \<or> \<not> too_old u cutoff (es ! k))"

definition survivors :: "(nat \<Rightarrow> bool) \<Rightarrow> (nat \<Rightarrow> bool) \<Rightarrow> (nat \<Rightarrow> string) \<Rightarrow> nat option \<Rightarrow> nat \<Rightarrow> nat set" where
  "survivors usage cand bucket before n = {k. k < n \<and> (\<not> usage k \<or>
     cand k \<and> (Some k = before \<or> (\<forall>j. k < j \<and> j < n \<and> cand j \<longrightarrow> bucket j \<noteq> bucket k)))}"

definition bucket_table :: "(nat \<Rightarrow> bool) \<Rightarrow> (nat \<Rightarrow> string) \<Rightarrow> nat \<Rightarrow> (string, nat) jsmap \<Rightarrow> bool" where
  "bucket_table cand bucket n m \<longleftrightarrow> (\<forall>b p. map_of m b = Some p \<longleftrightarrow>
     p < n \<and> cand p \<and> bucket p = b \<and> (\<forall>j. p < j \<and> j < n \<and> cand j \<longrightarrow> bucket j \<noteq> b))"

lemma survivors_skip:
  "\<not> usage n \<Longrightarrow> \<not> cand n \<Longrightarrow> survivors usage cand bucket before (Suc n) = insert n (survivors usage cand bucket before n)"
  "usage n \<Longrightarrow> \<not> cand n \<Longrightarrow> survivors usage cand bucket before (Suc n) = survivors usage cand bucket before n"
  by (auto simp: survivors_def less_Suc_eq)

lemma bucket_table_skip: "\<not> cand n \<Longrightarrow> bucket_table cand bucket n m \<Longrightarrow> bucket_table cand bucket (Suc n) m"
  unfolding bucket_table_def by (simp add: less_Suc_eq) (metis less_antisym)

lemma bucket_table_update:
  assumes "cand n" and "bucket_table cand bucket n m"
  shows "bucket_table cand bucket (Suc n) (AList.update (bucket n) n m)"
  unfolding bucket_table_def
proof (intro allI)
  fix b p
  show "map_of (AList.update (bucket n) n m) b = Some p \<longleftrightarrow>
      p < Suc n \<and> cand p \<and> bucket p = b \<and> (\<forall>j. p < j \<and> j < Suc n \<and> cand j \<longrightarrow> bucket j \<noteq> b)"
    using assms unfolding bucket_table_def
    by (cases "b = bucket n") (auto simp: less_Suc_eq)
qed

lemma survivors_replace:
  assumes "usage n" and "cand n" and "bucket_table cand bucket n m" and "\<And>k. cand k \<Longrightarrow> usage k"
  shows "survivors usage cand bucket before (Suc n) = insert n (case map_of m (bucket n) of
      None \<Rightarrow> survivors usage cand bucket before n
    | Some p \<Rightarrow> if Some p \<noteq> before then survivors usage cand bucket before n - {p} else survivors usage cand bucket before n)"
proof -
  have last: "k = p" if "map_of m (bucket n) = Some p" "k < n" "cand k" "bucket k = bucket n"
      "\<forall>j. k < j \<and> j < n \<and> cand j \<longrightarrow> bucket j \<noteq> bucket k" for k p
    using assms(3) that unfolding bucket_table_def by (metis linorder_neqE_nat option.inject)
  have some: "map_of m (bucket n) \<noteq> None"
    if "k < n" "cand k" "bucket k = bucket n" "\<forall>j. k < j \<and> j < n \<and> cand j \<longrightarrow> bucket j \<noteq> bucket k" for k
    using assms(3) that unfolding bucket_table_def by (metis option.distinct(1))
  have table: "map_of m (bucket n) = Some p \<Longrightarrow> p < n \<and> cand p \<and> bucket p = bucket n" for p
    using assms(3) unfolding bucket_table_def by blast
  have "k \<in> survivors usage cand bucket before (Suc n) \<longleftrightarrow> k = n \<or> (k \<in> survivors usage cand bucket before n \<and>
      (\<not> usage k \<or> Some k = before \<or> bucket k \<noteq> bucket n))" for k
    using assms(1,2) by (auto simp: survivors_def less_Suc_eq)
  note step = this
  have gone: "map_of m (bucket n) = Some k" if "k \<in> survivors usage cand bucket before n" "usage k" "Some k \<noteq> before"
      "bucket k = bucket n" for k
  proof -
    note same = that(4)
    from that have k: "k < n" "cand k" "\<forall>j. k < j \<and> j < n \<and> cand j \<longrightarrow> bucket j \<noteq> bucket k"
      by (auto simp: survivors_def)
    then obtain p where "map_of m (bucket n) = Some p" using some same by blast
    with last k same show ?thesis by blast
  qed
  have "k \<in> survivors usage cand bucket before (Suc n) \<longleftrightarrow> k \<in> insert n (case map_of m (bucket n) of
      None \<Rightarrow> survivors usage cand bucket before n
    | Some p \<Rightarrow> if Some p \<noteq> before then survivors usage cand bucket before n - {p} else survivors usage cand bucket before n)" for k
    unfolding step using gone[of k] table assms(4) by (auto split: option.split)
  then show ?thesis by blast
qed

lemma last_index_Some: "last_index P xs = Some i \<Longrightarrow> i < length xs \<and> P (xs ! i)"
proof -
  assume "last_index P xs = Some i"
  then have "i \<in> set (filter (\<lambda>i. P (xs ! i)) [0..<length xs])"
    unfolding last_index_def by (metis last_in_set last_opt_def option.distinct(1) option.inject)
  then show ?thesis by simp
qed

lemma keep_events_survive:
  assumes "all = pre @ es" and "i = length pre"
    and "latest = last_index is_usage_event all" and "before = last_index (\<lambda>e. is_usage_event e \<and> too_old u cutoff e) all"
    and "bucket_table (usage_candidate u cutoff all) (\<lambda>k. usageCoalescingBucket u (all ! k)) i buckets"
    and "set keep = survivors (\<lambda>k. is_usage_event (all ! k)) (usage_candidate u cutoff all)
      (\<lambda>k. usageCoalescingBucket u (all ! k)) before i"
  shows "set (keep_events u cutoff latest before i es keep buckets) =
    survivors (\<lambda>k. is_usage_event (all ! k)) (usage_candidate u cutoff all)
      (\<lambda>k. usageCoalescingBucket u (all ! k)) before (length all)"
  using assms
proof (induction es arbitrary: pre i keep buckets)
  case (Cons e es)
  let ?cand = "usage_candidate u cutoff all" and ?bucket = "\<lambda>k. usageCoalescingBucket u (all ! k)"
    and ?usage = "\<lambda>k. is_usage_event (all ! k)"
  have e: "all ! i = e" "i < length all" using Cons.prems(1,2) by simp_all
  have onward: "set (keep_events u cutoff latest before (Suc i) es keep' buckets') = survivors ?usage ?cand ?bucket before (length all)"
    if "bucket_table ?cand ?bucket (Suc i) buckets'" "set keep' = survivors ?usage ?cand ?bucket before (Suc i)" for keep' buckets'
    using Cons.IH[of "pre @ [e]" "Suc i" buckets' keep'] Cons.prems that by simp
  have cand: "?cand i \<longleftrightarrow> is_usage_event e \<and> shouldRetainUsageEvent u cutoff latest before i e"
    using e by (auto simp: usage_candidate_def shouldRetainUsageEvent_def Cons.prems(3,4))
  have usage_cand: "?cand k \<Longrightarrow> ?usage k" for k by (simp add: usage_candidate_def)
  show ?case
  proof (cases "is_usage_event e")
    case False
    then have "\<not> ?cand i" using cand by simp
    with False show ?thesis
      using onward[OF bucket_table_skip[OF _ Cons.prems(5)], of "i # keep"] Cons.prems(6) e
      by (simp add: survivors_skip)
  next
    case u: True
    show ?thesis
    proof (cases "?cand i")
      case False
      with u show ?thesis
        using onward[OF bucket_table_skip[OF False Cons.prems(5)], of keep] Cons.prems(6) e cand
        by (simp add: survivors_skip)
    next
      case True
      have "set (i # (case map_of buckets (?bucket i) of None \<Rightarrow> keep
          | Some p \<Rightarrow> if Some p \<noteq> before then removeAll p keep else keep)) = survivors ?usage ?cand ?bucket before (Suc i)"
        using survivors_replace[where usage = ?usage and before = before, OF _ True Cons.prems(5) usage_cand] u e Cons.prems(6)
        by (simp split: option.split)
      from onward[OF bucket_table_update[OF True Cons.prems(5)] this] show ?thesis
        using u e cand True by (simp add: Let_def)
    qed
  qed
qed simp


text \<open>The events kept, said without the loop.\<close>

definition kept_usage :: "usage_limits \<Rightarrow> int \<Rightarrow> runtime_event list \<Rightarrow> nat \<Rightarrow> bool" where
  "kept_usage u cutoff es k \<longleftrightarrow> \<not> is_usage_event (es ! k) \<or> usage_candidate u cutoff es k \<and>
     (Some k = last_index (\<lambda>e. is_usage_event e \<and> too_old u cutoff e) es \<or>
      \<not> list_ex (\<lambda>j. usage_candidate u cutoff es j \<and>
        usageCoalescingBucket u (es ! j) = usageCoalescingBucket u (es ! k)) [Suc k..<length es])"

lemma filter_enumerate: "map snd (filter (\<lambda>p. P (fst p)) (enumerate n xs)) = map (\<lambda>i. xs ! (i - n)) (filter P [n..<n + length xs])"
proof (induction xs arbitrary: n)
  case (Cons x xs)
  have "map (\<lambda>i. (x # xs) ! (i - n)) (filter P [Suc n..<n + Suc (length xs)]) =
      map (\<lambda>i. xs ! (i - Suc n)) (filter P [Suc n..<Suc n + length xs])"
    by (auto simp: nth_Cons' intro!: map_cong)
  with Cons show ?case by (simp add: upt_conv_Cons del: upt_Suc)
qed simp

lemma last_index_None: "last_index P xs = None \<longleftrightarrow> \<not> list_ex P xs"
  by (auto simp: last_index_def last_opt_def filter_empty_conv list_ex_length)

lemma later_not: "\<not> list_ex P (drop (Suc k) xs) \<Longrightarrow> k < i \<Longrightarrow> i < length xs \<Longrightarrow> \<not> P (xs ! i)"
  by (auto simp: list_ex_length dest!: spec[of _ "i - Suc k"])

lemma last_index_last: "k < length xs \<Longrightarrow> P (xs ! k) \<Longrightarrow> \<not> list_ex P (drop (Suc k) xs) \<Longrightarrow> last_index P xs = Some k"
proof -
  assume k: "k < length xs" "P (xs ! k)" "\<not> list_ex P (drop (Suc k) xs)"
  have "filter (\<lambda>i. P (xs ! i)) [Suc k..<length xs] = []" using later_not[OF k(3)] by (simp add: filter_empty_conv)
  moreover have "[0..<length xs] = [0..<k] @ [k..<length xs]"
    using upt_add_eq_append[of 0 k "length xs - k"] k(1) by simp
  then have "[0..<length xs] = [0..<k] @ k # [Suc k..<length xs]" using k(1) by (simp add: upt_conv_Cons)
  ultimately show ?thesis using k(2) by (simp add: last_index_def last_opt_def)
qed

lemma survivors_kept: "survivors (\<lambda>k. is_usage_event (es ! k)) (usage_candidate u cutoff es) (\<lambda>k. usageCoalescingBucket u (es ! k))
    (last_index (\<lambda>e. is_usage_event e \<and> too_old u cutoff e) es) (length es) = {k. k < length es \<and> kept_usage u cutoff es k}"
  by (auto simp: survivors_def kept_usage_def list_ex_iff)

text \<open>
  C35. What a compaction keeps. When the log has usage events and the clock is readable, the compacted log is
  the log without some usage events, in the same order: an event that is not about usage stays; of the
  usage events, those older than the limit go except the last of them, and of the others only the last
  of every day and model stays. The last usage event of all always stays.
\<close>

theorem usage_compaction_exact:
  assumes "cutoff_of u now = Some cutoff" and "list_ex is_usage_event es"
  shows "compactUsageEvents u now es = map ((!) es) (filter (kept_usage u cutoff es) [0..<length es]) \<and>
    (\<forall>k < length es. is_usage_event (es ! k) \<longrightarrow> \<not> list_ex is_usage_event (drop (Suc k) es) \<longrightarrow>
       es ! k \<in> set (compactUsageEvents u now es))"
proof -
  let ?before = "last_index (\<lambda>e. is_usage_event e \<and> too_old u cutoff e) es"
  have "bucket_table (usage_candidate u cutoff es) (\<lambda>k. usageCoalescingBucket u (es ! k)) 0 []"
    by (simp add: bucket_table_def)
  then have k: "set (keep_events u cutoff (last_index is_usage_event es) ?before 0 es [] []) = {k. k < length es \<and> kept_usage u cutoff es k}"
    using keep_events_survive[of es "[]" es 0 _ ?before u cutoff "[]" "[]"] survivors_kept
    by (simp add: survivors_def)
  have f: "filter (\<lambda>i. i < length es \<and> kept_usage u cutoff es i) [0..<length es] =
      filter (kept_usage u cutoff es) [0..<length es]"
    by (rule filter_cong) auto
  have e: "map snd (filter (\<lambda>p. fst p < length es \<and> kept_usage u cutoff es (fst p)) (enumerate 0 es)) =
      map ((!) es) (filter (\<lambda>i. i < length es \<and> kept_usage u cutoff es i) [0..<length es])"
    using filter_enumerate[of "\<lambda>i. i < length es \<and> kept_usage u cutoff es i" 0 es] by simp
  have "last_index is_usage_event es \<noteq> None" using assms(2) by (simp add: last_index_None del: not_None_eq)
  then have "compactUsageEvents u now es = map snd (filter (\<lambda>p. fst p \<in>
      set (keep_events u cutoff (last_index is_usage_event es) ?before 0 es [] [])) (enumerate 0 es))"
    by (simp add: compactUsageEvents_def assms(1) Let_def del: not_None_eq)
  then have c: "compactUsageEvents u now es = map ((!) es) (filter (kept_usage u cutoff es) [0..<length es])"
    by (simp only: k mem_Collect_eq e f)
  have "kept_usage u cutoff es k" if "k < length es" "is_usage_event (es ! k)" "\<not> list_ex is_usage_event (drop (Suc k) es)" for k
  proof -
    note rest = that(3)
    have "Some k = last_index is_usage_event es" using last_index_last[OF that] by simp
    moreover have "\<not> usage_candidate u cutoff es j" if j: "Suc k \<le> j" for j
      using later_not[OF rest, of j] j by (auto simp: usage_candidate_def)
    ultimately show ?thesis using that by (auto simp: kept_usage_def usage_candidate_def list_ex_iff)
  qed
  then show ?thesis unfolding c by auto
qed


section \<open>The thread store on files refines the one in memory\<close>

datatype disk_op = Put_thread thread | Drop_thread string | On_session session_op

fun disk_step :: "usage_limits \<Rightarrow> disk_op \<Rightarrow> disk \<Rightarrow> disk" where
  "disk_step u (Put_thread c) d = file_upsert c d"
| "disk_step u (Drop_thread t) d = snd (file_delete t d)"
| "disk_step u (On_session x) d = file_session_step u x d"

fun memory_step :: "disk_op \<Rightarrow> thread_store \<Rightarrow> thread_store" where
  "memory_step (Put_thread c) st = upsert_thread c st"
| "memory_step (Drop_thread t) st = snd (delete_thread t st)"
| "memory_step (On_session x) st = st"

definition same_threads :: "disk \<Rightarrow> thread_store \<Rightarrow> bool" where
  "same_threads d st \<longleftrightarrow> distinct (map fst st) \<and> readIndex d = map fst st \<and> (\<forall>t. file_get t d = get_thread t st)"

lemma keys_update: "distinct (map fst m) \<Longrightarrow> map fst (AList.update k v m) = add_id k (map fst m)"
  by (induction m) (auto simp: add_id_def Let_def distinct_remdups_id)

lemma distinct_add_id: "distinct ids \<Longrightarrow> distinct (add_id i ids)"
  by (simp add: add_id_def Let_def distinct_remdups_id)

lemma keys_delete: "map fst (AList.delete k m) = filter (\<lambda>i. i \<noteq> k) (map fst m)"
  by (induction m) (auto simp: AList.delete_eq)

lemma same_threads_put: "same_threads d st \<Longrightarrow> same_threads (file_upsert c d) (upsert_thread c st)"
  by (auto simp: same_threads_def file_upsert_def upsert_thread_def updateIndex_def readIndex_def keys_update
      file_get_def dir_of_def change_dir_def get_thread_def distinct_add_id)

lemma same_threads_drop: "same_threads d st \<Longrightarrow> same_threads (snd (file_delete t d)) (snd (delete_thread t st))"
proof (cases "map_of (dk_dirs d) t")
  case None
  assume s: "same_threads d st"
  with None have "map_of st t = None"
    by (auto simp: same_threads_def file_get_def dir_of_def get_or_def get_thread_def blank_dir_def dest: spec[of _ t])
  then have "AList.delete t st = st" by (simp add: delete_idem map_of_eq_None_iff)
  with None s show ?thesis by (simp add: file_delete_def delete_thread_def)
next
  case (Some f)
  assume "same_threads d st"
  with Some show ?thesis
    by (auto simp: same_threads_def file_delete_def delete_thread_def updateIndex_def readIndex_def keys_delete
        file_get_def dir_of_def get_thread_def get_or_delete distinct_delete blank_dir_def)
qed

lemma session_step_threads:
  "file_get t (file_session_step u x d) = file_get t d" "dk_index (file_session_step u x d) = dk_index d"
  by (cases x; auto simp: file_get_def file_appendEvent_def compactUsageEventsIfLarge_def file_appendItem_def
      file_appendItemOnce_def file_rewriteItems_def file_updateItem_def file_updateItemOnce_def file_upsertSession_def
      file_resetMemory_def Let_def split: option.split)
    (cases x; auto simp: change_dir_def file_appendEvent_def compactUsageEventsIfLarge_def file_appendItem_def
      file_appendItemOnce_def file_rewriteItems_def file_updateItem_def file_updateItemOnce_def file_upsertSession_def
      file_resetMemory_def Let_def split: option.split)

lemma disk_step_same: "same_threads d st \<Longrightarrow> same_threads (disk_step u x d) (memory_step x st)"
  by (cases x) (simp_all add: same_threads_put same_threads_drop, simp add: same_threads_def session_step_threads readIndex_def)

lemma disk_run_same: "same_threads d st \<Longrightarrow> same_threads (fold (disk_step u) xs d) (fold memory_step xs st)"
  by (induction xs arbitrary: d st) (simp_all add: disk_step_same)

lemma same_threads_list: "same_threads d st \<Longrightarrow> file_list d = list_threads st"
proof -
  assume s: "same_threads d st"
  have "List.map_filter (\<lambda>t. map_option toThreadSummary (map_of st t)) (map fst ys) = map (\<lambda>kv. toThreadSummary (snd kv)) ys"
    if "set ys \<subseteq> set st" for ys
    using that s by (induction ys) (auto simp: map_filter_simps same_threads_def dest: map_of_is_SomeI)
  from this[of st] s show ?thesis
    by (simp add: file_list_def list_threads_def same_threads_def get_thread_def)
qed

text \<open>
  The thread store on files refines the store in memory. Whatever threads are written and deleted and
  whatever the session store does in the same directories, listing gives the same summaries in the same
  order and looking a thread up gives the same record.
\<close>

theorem thread_files_refine:
  "file_list (fold (disk_step u) xs blank_disk) = list_threads (fold memory_step xs []) \<and>
   file_get t (fold (disk_step u) xs blank_disk) = get_thread t (fold memory_step xs [])"
proof -
  have "same_threads blank_disk []"
    by (simp add: same_threads_def blank_disk_def readIndex_def file_get_def dir_of_def get_or_def blank_dir_def get_thread_def)
  then have "same_threads (fold (disk_step u) xs blank_disk) (fold memory_step xs [])" by (rule disk_run_same)
  then show ?thesis using same_threads_list by (simp add: same_threads_def)
qed


section \<open>Samples\<close>

definition sample_limits :: usage_limits where
  "sample_limits = \<lparr>ul_large = (\<lambda>ls. 2 < length ls), ul_days = 1, ul_parse = (\<lambda>s. Some (int (length s))), ul_day = (\<lambda>_. ''d'')\<rparr>"

definition sample_usage :: "nat \<Rightarrow> runtime_event" where
  "sample_usage n = \<lparr>ev_seq = n, ev_time = ''1'', ev_thread = ''t'', ev_turn = None, ev_item = None, ev_child = None,
     ev_body = UsageEvent None emptyUsageSnapshot\<rparr>"

theorem usage_compaction_exact_witness:
  "sample_usage 2 \<in> set (compactUsageEvents sample_limits ''0'' [sample_usage 1, sample_usage 2])"
proof -
  have "cutoff_of sample_limits ''0'' = Some (1 - 86400000)" by (simp add: cutoff_of_def sample_limits_def)
  moreover have "list_ex is_usage_event [sample_usage 1, sample_usage 2]" by (simp add: is_usage_event_def sample_usage_def)
  ultimately have "\<forall>k < length [sample_usage 1, sample_usage 2]. is_usage_event ([sample_usage 1, sample_usage 2] ! k) \<longrightarrow>
      \<not> list_ex is_usage_event (drop (Suc k) [sample_usage 1, sample_usage 2]) \<longrightarrow>
      [sample_usage 1, sample_usage 2] ! k \<in> set (compactUsageEvents sample_limits ''0'' [sample_usage 1, sample_usage 2])"
    using usage_compaction_exact by blast
  then have "is_usage_event (sample_usage 2) \<longrightarrow> sample_usage 2 \<in> set (compactUsageEvents sample_limits ''0'' [sample_usage 1, sample_usage 2])"
    by (auto dest: spec[of _ 1])
  then show ?thesis by (simp add: is_usage_event_def sample_usage_def)
qed


end
