(* ===== verification/FileTasks.thy ===== *)
theory FileTasks
  imports TaskStore
begin

text \<open>
  The store of task states on files, \<open>adapters/adapter-storage/src/file-task-state-store.ts\<close>. Preparing
  writes a file for the revision, committing writes a pointer to it; the file itself stays. \<open>locked\<close> says
  that the lock of the scope was taken, and a commit is then one step.

  The store is shown to refine the store in memory (\<open>TaskStore\<close>) for clients that do not abort what they
  have committed, and to lose the active state for those that do.
\<close>

section \<open>The files\<close>

record active_pointer =
  at_revision :: nat
  at_token :: string

record task_files =
  tf_active :: "(string, active_pointer) jsmap"
  tf_revisions :: "(string \<times> string, prepared_entry) jsmap"
  tf_migrations :: "migration_record list"

definition no_files :: task_files where
  "no_files = \<lparr>tf_active = [], tf_revisions = [], tf_migrations = []\<rparr>"

text \<open>The directory of the scope and the name of the file in it.\<close>

definition revisionPath :: "string \<Rightarrow> nat \<Rightarrow> string \<Rightarrow> string \<times> string" where
  "revisionPath scope revision token = (scope, show_nat revision @ ''-'' @ token @ ''.json'')"

definition path_of :: "prepared_revision \<Rightarrow> string \<times> string" where
  "path_of p = revisionPath (pr_scope p) (pr_revision p) (pr_token p)"

definition readActive :: "string \<Rightarrow> task_files \<Rightarrow> active_pointer option result" where
  "readActive scope f = (case map_of (tf_active f) scope of
      None \<Rightarrow> Inr None
    | Some a \<Rightarrow> if at_revision a = 0 \<or> at_token a = [] then throw ''invalid task state active pointer'' else Inr (Some a))"

definition pointed :: "active_pointer option \<Rightarrow> nat" where
  "pointed a = (case a of None \<Rightarrow> 0 | Some q \<Rightarrow> at_revision q)"

definition loadByScope :: "(string \<Rightarrow> string) \<Rightarrow> string \<Rightarrow> task_files \<Rightarrow> task_state option result" where
  "loadByScope hs scope f = bind_result (readActive scope f) (\<lambda>a. case a of
      None \<Rightarrow> Inr None
    | Some q \<Rightarrow> (case map_of (tf_revisions f) (revisionPath scope (at_revision q) (at_token q)) of
          None \<Rightarrow> Inr None
        | Some e \<Rightarrow> bind_result (parse_task_state (pe_state e)) (\<lambda>s.
            bind_result (runtimeScopeDigest hs (tks_identity s)) (\<lambda>d.
            if d \<noteq> scope then throw ''task state identity does not match storage scope'' else Inr (Some s)))))"

definition file_load :: "(string \<Rightarrow> string) \<Rightarrow> run_identity \<Rightarrow> task_files \<Rightarrow> task_state option result" where
  "file_load hs i f = bind_result (runtimeScopeDigest hs i) (\<lambda>d. loadByScope hs d f)"

definition file_prepare ::
    "(string \<Rightarrow> string) \<Rightarrow> string \<Rightarrow> task_state \<Rightarrow> int \<Rightarrow> task_files \<Rightarrow> (prepared_revision \<times> task_files) result" where
  "file_prepare hs token s expected f =
     bind_result (parse_task_state s) (\<lambda>t.
     bind_result (runtimeScopeDigest hs (tks_identity t)) (\<lambda>d.
     bind_result (readActive d f) (\<lambda>a.
     if int (pointed a) \<noteq> expected \<or> int (tks_revision t) \<noteq> expected + 1
     then Inl (revisionConflict expected (pointed a) (tks_revision t))
     else
       let p = \<lparr>pr_identity = tks_identity t, pr_revision = tks_revision t, pr_expected = expected,
                pr_token = token, pr_scope = d\<rparr>
       in Inr (p, f\<lparr>tf_revisions := AList.update (path_of p) \<lparr>pe_prepared = p, pe_state = t\<rparr> (tf_revisions f)\<rparr>))))"

definition assertPreparedIdentity :: "(string \<Rightarrow> string) \<Rightarrow> prepared_revision \<Rightarrow> unit result" where
  "assertPreparedIdentity hs p = bind_result (runtimeScopeDigest hs (pr_identity p)) (\<lambda>d.
     if d \<noteq> pr_scope p then throw ''prepared task revision identity mismatch'' else Inr ())"

definition readPrepared :: "(string \<Rightarrow> string) \<Rightarrow> prepared_revision \<Rightarrow> task_files \<Rightarrow> prepared_entry result" where
  "readPrepared hs p f = (case map_of (tf_revisions f) (path_of p) of
      None \<Rightarrow> throw ''prepared task revision not found''
    | Some e \<Rightarrow> bind_result (parse_task_state (pe_state e)) (\<lambda>s.
        if pr_token (pe_prepared e) \<noteq> pr_token p \<or> pr_revision (pe_prepared e) \<noteq> pr_revision p
        then throw ''prepared task revision payload mismatch''
        else bind_result (runtimeScopeDigest hs (tks_identity s)) (\<lambda>d.
          if d \<noteq> pr_scope p then throw ''prepared task revision payload mismatch''
          else Inr \<lparr>pe_prepared = pe_prepared e, pe_state = s\<rparr>)))"

definition file_commit :: "(string \<Rightarrow> string) \<Rightarrow> bool \<Rightarrow> prepared_revision \<Rightarrow> task_files \<Rightarrow> task_files result" where
  "file_commit hs locked p f =
     bind_result (assertPreparedIdentity hs p) (\<lambda>_.
     if \<not> locked then throw ''task state commit lock unavailable''
     else bind_result (readPrepared hs p f) (\<lambda>e.
     bind_result (readActive (pr_scope p) f) (\<lambda>a.
     if int (pointed a) \<noteq> pr_expected p
     then Inl (revisionConflict (pr_expected p) (pointed a) (pr_revision p))
     else if tks_revision (pe_state e) \<noteq> pr_revision p then throw ''prepared task revision payload mismatch''
     else Inr (f\<lparr>tf_active := AList.update (pr_scope p)
            \<lparr>at_revision = pr_revision p, at_token = pr_token p\<rparr> (tf_active f)\<rparr>))))"

definition file_abort :: "(string \<Rightarrow> string) \<Rightarrow> prepared_revision \<Rightarrow> task_files \<Rightarrow> task_files result" where
  "file_abort hs p f = bind_result (assertPreparedIdentity hs p) (\<lambda>_.
     Inr (f\<lparr>tf_revisions := AList.delete (path_of p) (tf_revisions f)\<rparr>))"

text \<open>The directories of the scopes are read in an order the file system gives.\<close>

fun list_scopes :: "(string \<Rightarrow> string) \<Rightarrow> (task_state \<Rightarrow> bool) \<Rightarrow> string list \<Rightarrow> task_files \<Rightarrow> task_state list result" where
  "list_scopes hs mine [] f = Inr []"
| "list_scopes hs mine (scope # scopes) f =
     bind_result (readActive scope f) (\<lambda>a.
     bind_result (case a of
         None \<Rightarrow> Inr []
       | Some q \<Rightarrow> (case map_of (tf_revisions f) (revisionPath scope (at_revision q) (at_token q)) of
             None \<Rightarrow> Inr []
           | Some e \<Rightarrow> bind_result (parse_task_state (pe_state e)) (\<lambda>s.
               if \<not> mine s then Inr []
               else bind_result (runtimeScopeDigest hs (tks_identity s)) (\<lambda>d. Inr (if d = scope then [s] else []))))) (\<lambda>here.
     bind_result (list_scopes hs mine scopes f) (\<lambda>rest. Inr (here @ rest))))"

definition file_listForThread ::
    "(string \<Rightarrow> string) \<Rightarrow> string list \<Rightarrow> string \<Rightarrow> string \<Rightarrow> string \<Rightarrow> task_files \<Rightarrow> task_state list result" where
  "file_listForThread hs scopes owner_id workspace thread f = list_scopes hs
     (\<lambda>s. ownerUserId (tks_identity s) = owner_id \<and> workspaceKey (tks_identity s) = workspace \<and> threadId (tks_identity s) = thread)
     scopes f"

definition file_appendMigrationRecord :: "migration_record \<Rightarrow> task_files \<Rightarrow> task_files" where
  "file_appendMigrationRecord r f = f\<lparr>tf_migrations := tf_migrations f @ [r]\<rparr>"

section \<open>Parsing a checked state again\<close>

lemma again_nonempty: "check_nonempty s = Inr t \<Longrightarrow> check_nonempty t = Inr t"
  by (auto simp: check_nonempty_def trim_idem split: if_splits)

lemma again_optional: "check_optional v = Inr w \<Longrightarrow> check_optional w = Inr w"
  by (auto simp: check_optional_def result_simps dest: again_nonempty split: option.splits)

lemma again_map: "map_result p xs = Inr ys \<Longrightarrow> (\<And>x y. p x = Inr y \<Longrightarrow> p y = Inr y) \<Longrightarrow> map_result p ys = Inr ys"
  by (rule map_result_id) (auto simp: map_result_all2 list_all2_conv_all_nth in_set_conv_nth)

lemma again_option: "check_option p v = Inr w \<Longrightarrow> (\<And>x y. p x = Inr y \<Longrightarrow> p y = Inr y) \<Longrightarrow> check_option p w = Inr w"
  by (auto simp: check_option_def result_simps split: option.splits)

lemma again_names: "check_names xs = Inr ys \<Longrightarrow> check_names ys = Inr ys"
  by (erule again_map) (rule again_nonempty)

lemma again_count: "check_count n = Inr k \<Longrightarrow> check_count k = Inr k"
  by (auto simp: check_count_def split: if_splits)

lemma again_positive: "check_positive n = Inr k \<Longrightarrow> check_positive k = Inr k"
  by (auto simp: check_positive_def check_count_def split: if_splits)

lemma again_identity: "parse_identity i = Inr j \<Longrightarrow> parse_identity j = Inr j"
  by (rule parse_identity_accepts) (rule parse_identity_ok)

lemmas again = again_nonempty again_optional again_names again_count again_positive again_identity

lemma again_action: "parse_action a = Inr b \<Longrightarrow> parse_action b = Inr b"
  by (auto simp: parse_action_def result_simps dest: again)

lemma again_artifact_ref: "parse_artifact_ref a = Inr b \<Longrightarrow> parse_artifact_ref b = Inr b"
  by (auto simp: parse_artifact_ref_def result_simps dest: again)

lemma again_ledger_entry: "parse_ledger_entry a = Inr b \<Longrightarrow> parse_ledger_entry b = Inr b"
  by (auto simp: parse_ledger_entry_def result_simps dest: again)

lemma again_source: "parse_source a = Inr b \<Longrightarrow> parse_source b = Inr b"
  by (auto simp: parse_source_def nonempty_list_def result_simps again split: if_splits)

lemma again_plan: "parse_plan a = Inr b \<Longrightarrow> parse_plan b = Inr b"
  by (auto simp: parse_plan_def result_simps dest: again)

lemma again_progress: "parse_progress a = Inr b \<Longrightarrow> parse_progress b = Inr b"
  by (auto simp: parse_progress_def result_simps again split: if_splits)

lemma again_compaction: "parse_compaction a = Inr b \<Longrightarrow> parse_compaction b = Inr b"
  by (auto simp: parse_compaction_def nonempty_list_def result_simps again split: if_splits)

lemma again_waiting: "parse_waiting a = Inr b \<Longrightarrow> parse_waiting b = Inr b"
  by (auto simp: parse_waiting_def result_simps dest: again)

lemma again_migration: "parse_migration a = Inr b \<Longrightarrow> parse_migration b = Inr b"
  by (auto simp: parse_migration_def result_simps dest: again)

lemmas again_parts = again again_map[OF _ again_action] again_map[OF _ again_artifact_ref]
  again_map[OF _ again_ledger_entry] again_source again_option[OF _ again_plan] again_option[OF _ again_progress]
  again_option[OF _ again_compaction] again_option[OF _ again_waiting] again_option[OF _ again_migration]

lemma parse_task_state_again: "parse_task_state t = Inr u \<Longrightarrow> parse_task_state u = Inr u"
proof -
  assume "parse_task_state t = Inr u"
  then show ?thesis
    unfolding parse_task_state_def result_simps refine_task_def
    by (elim exE conjE) (auto simp: again_parts split: if_splits)
qed

section \<open>The files refine the store in memory\<close>

lemma digits_no_dash: "CHR ''-'' \<notin> set (show_nat n)"
proof (induction n rule: show_nat.induct)
  case (1 n)
  have "char_of (48 + d :: nat) \<noteq> CHR ''-''" if "d < 10" for d
  proof
    assume "char_of (48 + d :: nat) = CHR ''-''"
    then have "of_char (char_of (48 + d :: nat) :: char) = (of_char CHR ''-'' :: nat)" by simp
    with that show False by simp
  qed
  with 1 show ?case by (subst show_nat.simps) (auto simp: eq_commute[of "CHR ''-''"])
qed

lemma path_token: "path_of p = path_of q \<Longrightarrow> pr_token p = pr_token q"
proof -
  assume "path_of p = path_of q"
  then have e: "show_nat (pr_revision p) @ CHR ''-'' # pr_token p @ ''.json'' =
      show_nat (pr_revision q) @ CHR ''-'' # pr_token q @ ''.json''"
    by (simp add: path_of_def revisionPath_def)
  have "dropWhile (\<lambda>c. c \<noteq> CHR ''-'') (show_nat n @ CHR ''-'' # t) = CHR ''-'' # t" for n t
    using digits_no_dash[of n] by (subst dropWhile_append2) auto
  with arg_cong[OF e, of "dropWhile (\<lambda>c. c \<noteq> CHR ''-'')"] show ?thesis by simp
qed

text \<open>Clients of the files: the handles given out and the tokens of those committed.\<close>

record file_world =
  fw_files :: task_files
  fw_handles :: "prepared_revision list"
  fw_committed :: "string set"

definition file_step :: "(string \<Rightarrow> string) \<Rightarrow> task_op \<Rightarrow> file_world \<Rightarrow> file_world" where
  "file_step hs x w = (case x of
      Prepare token s e \<Rightarrow> (case file_prepare hs token s e (fw_files w) of
          Inl _ \<Rightarrow> w
        | Inr (p, f) \<Rightarrow> w\<lparr>fw_files := f, fw_handles := fw_handles w @ [p]\<rparr>)
    | Commit n \<Rightarrow> if n < length (fw_handles w) then
          let p = fw_handles w ! n in (case file_commit hs True p (fw_files w) of
              Inl _ \<Rightarrow> w
            | Inr f \<Rightarrow> w\<lparr>fw_files := f, fw_committed := insert (pr_token p) (fw_committed w)\<rparr>)
        else w
    | Abort n \<Rightarrow> if n < length (fw_handles w)
        then (case file_abort hs (fw_handles w ! n) (fw_files w) of Inl _ \<Rightarrow> w | Inr f \<Rightarrow> w\<lparr>fw_files := f\<rparr>) else w
    | Migrate r \<Rightarrow> w\<lparr>fw_files := file_appendMigrationRecord r (fw_files w)\<rparr>)"

definition new_file_world :: file_world where
  "new_file_world = \<lparr>fw_files = no_files, fw_handles = [], fw_committed = {}\<rparr>"

text \<open>What was committed is not aborted.\<close>

fun keeps_committed :: "(string \<Rightarrow> string) \<Rightarrow> task_op list \<Rightarrow> file_world \<Rightarrow> bool" where
  "keeps_committed hs [] w = True"
| "keeps_committed hs (x # xs) w = ((case x of
      Abort n \<Rightarrow> n < length (fw_handles w) \<longrightarrow> pr_token (fw_handles w ! n) \<notin> fw_committed w
    | _ \<Rightarrow> True) \<and> keeps_committed hs xs (file_step hs x w))"

text \<open>How the files stand to the store: the files of handles, the pointers and the prepared entries.\<close>

definition files_kept :: "(string \<Rightarrow> string) \<Rightarrow> file_world \<Rightarrow> bool" where
  "files_kept hs w \<longleftrightarrow> (\<forall>p \<in> set (fw_handles w). runtimeScopeDigest hs (pr_identity p) = Inr (pr_scope p) \<and>
     pr_token p \<noteq> [] \<and> int (pr_revision p) = pr_expected p + 1 \<and>
     (\<forall>e. map_of (tf_revisions (fw_files w)) (path_of p) = Some e \<longrightarrow> pe_prepared e = p \<and>
        parse_task_state (pe_state e) = Inr (pe_state e) \<and> tks_revision (pe_state e) = pr_revision p \<and>
        runtimeScopeDigest hs (tks_identity (pe_state e)) = Inr (pr_scope p)) \<and>
     (pr_token p \<in> fw_committed w \<longrightarrow> (\<exists>q. map_of (tf_active (fw_files w)) (pr_scope p) = Some q \<and> pr_revision p \<le> at_revision q)))"

definition pointers_ok :: "file_world \<Rightarrow> task_store \<Rightarrow> bool" where
  "pointers_ok w st \<longleftrightarrow> (\<forall>d. case map_of (tf_active (fw_files w)) d of
      None \<Rightarrow> map_of (tst_active st) d = None
    | Some q \<Rightarrow> (\<exists>p e. p \<in> set (fw_handles w) \<and> pr_scope p = d \<and> at_revision q = pr_revision p \<and> at_token q = pr_token p \<and>
        pr_token p \<in> fw_committed w \<and> map_of (tf_revisions (fw_files w)) (path_of p) = Some e \<and>
        map_of (tst_active st) d = Some (pe_state e)))"

definition entries_match :: "file_world \<Rightarrow> task_store \<Rightarrow> bool" where
  "entries_match w st \<longleftrightarrow> (\<forall>p \<in> set (fw_handles w). map_of (tst_prepared st) (preparedKey p) =
     (if pr_token p \<in> fw_committed w then None else map_of (tf_revisions (fw_files w)) (path_of p)))"

definition same_tasks :: "(string \<Rightarrow> string) \<Rightarrow> file_world \<Rightarrow> task_world \<Rightarrow> bool" where
  "same_tasks hs w v \<longleftrightarrow> fw_handles w = tw_handles v \<and> tokens_ok (map pr_token (tw_handles v)) \<and>
     fw_committed w \<subseteq> pr_token ` set (fw_handles w) \<and>
     files_kept hs w \<and> pointers_ok w (tw_store v) \<and> entries_match w (tw_store v)"

lemma readActive_pointed:
  assumes "files_kept hs w" and "pointers_ok w st"
  shows "\<exists>a. readActive d (fw_files w) = Inr a \<and> pointed a = active_revision d st \<and> a = map_of (tf_active (fw_files w)) d"
proof (cases "map_of (tf_active (fw_files w)) d")
  case None
  then have "map_of (tst_active st) d = None" using assms(2)[unfolded pointers_ok_def, THEN spec, of d] by simp
  with None show ?thesis by (simp add: readActive_def pointed_def active_revision_def)
next
  case (Some q)
  then obtain p e where p: "p \<in> set (fw_handles w)" "at_revision q = pr_revision p" "at_token q = pr_token p"
      "map_of (tf_revisions (fw_files w)) (path_of p) = Some e" "map_of (tst_active st) d = Some (pe_state e)"
    using assms(2)[unfolded pointers_ok_def, THEN spec, of d] by auto
  then have "parse_task_state (pe_state e) = Inr (pe_state e)" "tks_revision (pe_state e) = pr_revision p" "pr_token p \<noteq> []"
    using assms(1) unfolding files_kept_def by blast+
  moreover from this have "0 < pr_revision p" using parse_task_state_parts(3)[of "pe_state e" "pe_state e"] by simp
  ultimately show ?thesis using p Some by (simp add: readActive_def pointed_def active_revision_def)
qed

lemma handle_paths:
  assumes "tokens_ok (map pr_token hs)" and "p \<in> set hs" and "q \<in> set hs"
  shows "path_of p = path_of q \<longleftrightarrow> p = q" and "preparedKey p = preparedKey q \<longleftrightarrow> p = q"
    and "pr_token p = pr_token q \<longleftrightarrow> p = q"
proof -
  show t: "pr_token p = pr_token q \<longleftrightarrow> p = q"
    using assms unfolding tokens_ok_def distinct_map by (metis inj_onD)
  show "path_of p = path_of q \<longleftrightarrow> p = q" using path_token[of p q] t by blast
  show "preparedKey p = preparedKey q \<longleftrightarrow> p = q" using handle_of_key[OF assms] by blast
qed

lemma same_tasks_commit:
  assumes s: "same_tasks hs w v" and p: "p \<in> set (fw_handles w)" and a: "int (active_revision (pr_scope p) (tw_store v)) = pr_expected p"
    and new: "pr_token p \<notin> fw_committed w" and e: "map_of (tf_revisions (fw_files w)) (path_of p) = Some e"
    and st: "st = (tw_store v)\<lparr>tst_active := AList.update (pr_scope p) (pe_state e) (tst_active (tw_store v)),
       tst_prepared := AList.delete (preparedKey p) (tst_prepared (tw_store v))\<rparr>"
    and f: "f = (fw_files w)\<lparr>tf_active := AList.update (pr_scope p) \<lparr>at_revision = pr_revision p, at_token = pr_token p\<rparr>
       (tf_active (fw_files w))\<rparr>"
  shows "same_tasks hs (w\<lparr>fw_files := f, fw_committed := insert (pr_token p) (fw_committed w)\<rparr>) (v\<lparr>tw_store := st, tw_log := l\<rparr>)"
proof -
  let ?w = "w\<lparr>fw_files := f, fw_committed := insert (pr_token p) (fw_committed w)\<rparr>"
  have h: "fw_handles w = tw_handles v" "tokens_ok (map pr_token (fw_handles w))" "files_kept hs w"
    "pointers_ok w (tw_store v)" "entries_match w (tw_store v)" "fw_committed w \<subseteq> pr_token ` set (fw_handles w)"
    using s unfolding same_tasks_def by auto
  note eq = handle_paths[OF h(2)]
  have old: "pr_revision q \<le> pr_revision p" if q: "q \<in> set (fw_handles w)" "pr_token q \<in> fw_committed w" "pr_scope q = pr_scope p" for q
  proof -
    obtain c where "map_of (tf_active (fw_files w)) (pr_scope p) = Some c" "pr_revision q \<le> at_revision c"
      using h(3)[unfolded files_kept_def, THEN bspec, OF q(1)] q(2,3) by auto
    moreover obtain b where "pointed b = active_revision (pr_scope p) (tw_store v)" "b = map_of (tf_active (fw_files w)) (pr_scope p)"
      using readActive_pointed[OF h(3,4)] by blast
    moreover have "int (pr_revision p) = pr_expected p + 1" using h(3) p by (simp add: files_kept_def)
    ultimately show ?thesis using a by (simp add: pointed_def)
  qed
  have "files_kept hs ?w"
    using h(3) old unfolding files_kept_def by (auto simp: f eq(3) p)
  moreover have "pointers_ok ?w st"
    unfolding pointers_ok_def
  proof
    fix d
    show "case map_of (tf_active (fw_files ?w)) d of
      None \<Rightarrow> map_of (tst_active st) d = None
    | Some q \<Rightarrow> (\<exists>p e. p \<in> set (fw_handles ?w) \<and> pr_scope p = d \<and> at_revision q = pr_revision p \<and> at_token q = pr_token p \<and>
        pr_token p \<in> fw_committed ?w \<and> map_of (tf_revisions (fw_files ?w)) (path_of p) = Some e \<and>
        map_of (tst_active st) d = Some (pe_state e))"
      using h(4)[unfolded pointers_ok_def, THEN spec, of d] p e
      by (cases "d = pr_scope p") (auto simp: f st split: option.splits)
  qed
  moreover have "entries_match ?w st"
    using h(5) eq p unfolding entries_match_def by (auto simp: f st)
  ultimately show ?thesis using h p by (auto simp: same_tasks_def)
qed

lemma file_commit_same:
  assumes s: "same_tasks hs w v" and p: "p \<in> set (fw_handles w)"
  shows "(\<exists>f st. file_commit hs True p (fw_files w) = Inr f \<and> task_commit p (tw_store v) = Inr st \<and>
      (\<forall>l. same_tasks hs (w\<lparr>fw_files := f, fw_committed := insert (pr_token p) (fw_committed w)\<rparr>) (v\<lparr>tw_store := st, tw_log := l\<rparr>))) \<or>
    (\<exists>e e'. file_commit hs True p (fw_files w) = Inl e \<and> task_commit p (tw_store v) = Inl e')"
proof -
  have h: "files_kept hs w" "pointers_ok w (tw_store v)" "entries_match w (tw_store v)"
    using s by (simp_all add: same_tasks_def)
  have k: "runtimeScopeDigest hs (pr_identity p) = Inr (pr_scope p)" "int (pr_revision p) = pr_expected p + 1"
    "\<And>e. map_of (tf_revisions (fw_files w)) (path_of p) = Some e \<Longrightarrow> pe_prepared e = p \<and>
        parse_task_state (pe_state e) = Inr (pe_state e) \<and> tks_revision (pe_state e) = pr_revision p \<and>
        runtimeScopeDigest hs (tks_identity (pe_state e)) = Inr (pr_scope p)"
    using h(1) p by (simp_all add: files_kept_def)
  obtain b where b: "readActive (pr_scope p) (fw_files w) = Inr b" "pointed b = active_revision (pr_scope p) (tw_store v)"
      "b = map_of (tf_active (fw_files w)) (pr_scope p)"
    using readActive_pointed[OF h(1,2)] by blast
  have fc: "file_commit hs True p (fw_files w) = (case map_of (tf_revisions (fw_files w)) (path_of p) of
      None \<Rightarrow> throw ''prepared task revision not found''
    | Some e \<Rightarrow> if int (pointed b) \<noteq> pr_expected p
        then Inl (revisionConflict (pr_expected p) (pointed b) (pr_revision p))
        else Inr ((fw_files w)\<lparr>tf_active := AList.update (pr_scope p) \<lparr>at_revision = pr_revision p, at_token = pr_token p\<rparr>
          (tf_active (fw_files w))\<rparr>))"
  proof (cases "map_of (tf_revisions (fw_files w)) (path_of p)")
    case None
    then show ?thesis by (simp add: file_commit_def assertPreparedIdentity_def readPrepared_def k(1) throw_def)
  next
    case (Some e)
    then show ?thesis
      using k(3)[OF Some] b(1) by (simp add: file_commit_def assertPreparedIdentity_def readPrepared_def k(1))
  qed
  show ?thesis
  proof (cases "pr_token p \<in> fw_committed w")
    case True
    then have "map_of (tst_prepared (tw_store v)) (preparedKey p) = None" using h(3) p by (simp add: entries_match_def)
    moreover obtain c where "b = Some c" "pr_revision p \<le> at_revision c"
      using h(1)[unfolded files_kept_def, THEN bspec, OF p] True b(3) by auto
    then have "int (pointed b) \<noteq> pr_expected p" using k(2) by (simp add: pointed_def)
    ultimately show ?thesis by (auto simp: fc task_commit_def throw_def split: option.split)
  next
    case False
    then have m: "map_of (tst_prepared (tw_store v)) (preparedKey p) = map_of (tf_revisions (fw_files w)) (path_of p)"
      using h(3) p by (simp add: entries_match_def)
    show ?thesis
    proof (cases "map_of (tf_revisions (fw_files w)) (path_of p)")
      case None
      with m show ?thesis by (simp add: fc task_commit_def throw_def)
    next
      case (Some e)
      then show ?thesis
        using m b(2) same_tasks_commit[OF s p _ False Some refl refl] by (auto simp: fc task_commit_def)
    qed
  qed
qed

lemma file_prepare_same:
  assumes s: "same_tasks hs w v" and t: "tokens_ok (map pr_token (tw_handles v) @ [token])" and ne: "token \<noteq> []"
  shows "(\<exists>q f st. file_prepare hs token x e (fw_files w) = Inr (q, f) \<and> task_prepare hs token x e (tw_store v) = Inr (q, st) \<and>
      same_tasks hs (w\<lparr>fw_files := f, fw_handles := fw_handles w @ [q]\<rparr>) (v\<lparr>tw_store := st, tw_handles := tw_handles v @ [q]\<rparr>)) \<or>
    (\<exists>err. file_prepare hs token x e (fw_files w) = Inl err \<and> task_prepare hs token x e (tw_store v) = Inl err)"
proof -
  have h: "fw_handles w = tw_handles v" "files_kept hs w" "pointers_ok w (tw_store v)" "entries_match w (tw_store v)"
    "fw_committed w \<subseteq> pr_token ` set (fw_handles w)"
    using s unfolding same_tasks_def by auto
  show ?thesis
  proof (cases "parse_task_state x")
    case (Inl err)
    then show ?thesis by (simp add: file_prepare_def task_prepare_def)
  next
    case x: (Inr u)
    show ?thesis
    proof (cases "runtimeScopeDigest hs (tks_identity u)")
      case (Inl err)
      with x show ?thesis by (simp add: file_prepare_def task_prepare_def)
    next
      case (Inr d)
      obtain b where b: "readActive d (fw_files w) = Inr b" "pointed b = active_revision d (tw_store v)"
        using readActive_pointed[OF h(2,3)] by blast
      show ?thesis
      proof (cases "int (active_revision d (tw_store v)) \<noteq> e \<or> int (tks_revision u) \<noteq> e + 1")
        case True
        with x Inr b show ?thesis by (auto simp: file_prepare_def task_prepare_def)
      next
        case False
        define q where "q = \<lparr>pr_identity = tks_identity u, pr_revision = tks_revision u, pr_expected = e,
          pr_token = token, pr_scope = d\<rparr>"
        define f where "f = (fw_files w)\<lparr>tf_revisions := AList.update (path_of q) \<lparr>pe_prepared = q, pe_state = u\<rparr> (tf_revisions (fw_files w))\<rparr>"
        define st where "st = (tw_store v)\<lparr>tst_prepared := AList.update (preparedKey q) \<lparr>pe_prepared = q, pe_state = u\<rparr> (tst_prepared (tw_store v))\<rparr>"
        have r: "file_prepare hs token x e (fw_files w) = Inr (q, f)" "task_prepare hs token x e (tw_store v) = Inr (q, st)"
          using False x Inr b by (simp_all add: file_prepare_def task_prepare_def q_def f_def st_def Let_def)
        have "tokens_ok (map pr_token (fw_handles w @ [q]))" using t h(1) by (simp add: q_def)
        note eq = handle_paths[OF this]
        have old: "path_of p \<noteq> path_of q \<and> preparedKey p \<noteq> preparedKey q \<and> pr_token p \<noteq> token" if "p \<in> set (fw_handles w)" for p
        proof -
          have "pr_token p \<noteq> token" using t that h(1) by (auto simp: tokens_ok_def)
          then have "p \<noteq> q" by (auto simp: q_def)
          then show ?thesis using eq(1,2)[of p q] that \<open>pr_token p \<noteq> token\<close> by simp
        qed
        have fresh: "token \<notin> fw_committed w" using h(5) old by auto
        have "files_kept hs (w\<lparr>fw_files := f, fw_handles := fw_handles w @ [q]\<rparr>)"
          using h(2) old fresh ne False Inr parse_task_state_again[OF x]
          unfolding files_kept_def by (auto simp: f_def) (auto simp: q_def)
        moreover have "pointers_ok (w\<lparr>fw_files := f, fw_handles := fw_handles w @ [q]\<rparr>) st"
          unfolding pointers_ok_def
        proof
          fix d'
          show "case map_of (tf_active (fw_files (w\<lparr>fw_files := f, fw_handles := fw_handles w @ [q]\<rparr>))) d' of
              None \<Rightarrow> map_of (tst_active st) d' = None
            | Some c \<Rightarrow> (\<exists>p e. p \<in> set (fw_handles (w\<lparr>fw_files := f, fw_handles := fw_handles w @ [q]\<rparr>)) \<and> pr_scope p = d' \<and>
                at_revision c = pr_revision p \<and> at_token c = pr_token p \<and>
                pr_token p \<in> fw_committed (w\<lparr>fw_files := f, fw_handles := fw_handles w @ [q]\<rparr>) \<and>
                map_of (tf_revisions (fw_files (w\<lparr>fw_files := f, fw_handles := fw_handles w @ [q]\<rparr>))) (path_of p) = Some e \<and>
                map_of (tst_active st) d' = Some (pe_state e))"
            using h(3)[unfolded pointers_ok_def, THEN spec, of d'] old
            by (auto simp: f_def st_def split: option.splits)
        qed
        moreover have "entries_match (w\<lparr>fw_files := f, fw_handles := fw_handles w @ [q]\<rparr>) st"
          using h(4) old fresh unfolding entries_match_def by (auto simp: f_def st_def) (simp add: q_def)
        ultimately show ?thesis
          using r h t by (auto simp: same_tasks_def q_def)
      qed
    qed
  qed
qed

lemma file_abort_same:
  assumes s: "same_tasks hs w v" and p: "p \<in> set (fw_handles w)" and new: "pr_token p \<notin> fw_committed w"
  shows "\<exists>f. file_abort hs p (fw_files w) = Inr f \<and> same_tasks hs (w\<lparr>fw_files := f\<rparr>) (v\<lparr>tw_store := task_abort p (tw_store v)\<rparr>)"
proof -
  have h: "fw_handles w = tw_handles v" "tokens_ok (map pr_token (fw_handles w))" "files_kept hs w"
    "pointers_ok w (tw_store v)" "entries_match w (tw_store v)" "fw_committed w \<subseteq> pr_token ` set (fw_handles w)"
    using s unfolding same_tasks_def by auto
  note eq = handle_paths[OF h(2)]
  let ?f = "(fw_files w)\<lparr>tf_revisions := AList.delete (path_of p) (tf_revisions (fw_files w))\<rparr>"
  have r: "file_abort hs p (fw_files w) = Inr ?f"
    using h(3) p by (simp add: files_kept_def file_abort_def assertPreparedIdentity_def)
  have "files_kept hs (w\<lparr>fw_files := ?f\<rparr>)" using h(3) unfolding files_kept_def by (auto simp: eq p)
  moreover have "pointers_ok (w\<lparr>fw_files := ?f\<rparr>) (task_abort p (tw_store v))"
    unfolding pointers_ok_def
  proof
    fix d
    show "case map_of (tf_active (fw_files (w\<lparr>fw_files := ?f\<rparr>))) d of
        None \<Rightarrow> map_of (tst_active (task_abort p (tw_store v))) d = None
      | Some c \<Rightarrow> (\<exists>q e. q \<in> set (fw_handles (w\<lparr>fw_files := ?f\<rparr>)) \<and> pr_scope q = d \<and> at_revision c = pr_revision q \<and>
          at_token c = pr_token q \<and> pr_token q \<in> fw_committed (w\<lparr>fw_files := ?f\<rparr>) \<and>
          map_of (tf_revisions (fw_files (w\<lparr>fw_files := ?f\<rparr>))) (path_of q) = Some e \<and>
          map_of (tst_active (task_abort p (tw_store v))) d = Some (pe_state e))"
    proof (cases "map_of (tf_active (fw_files w)) d")
      case None
      then show ?thesis using h(4)[unfolded pointers_ok_def, THEN spec, of d] by (simp add: task_abort_def)
    next
      case (Some c)
      then obtain q e where q: "q \<in> set (fw_handles w)" "pr_scope q = d" "at_revision c = pr_revision q" "at_token c = pr_token q"
          "pr_token q \<in> fw_committed w" "map_of (tf_revisions (fw_files w)) (path_of q) = Some e"
          "map_of (tst_active (tw_store v)) d = Some (pe_state e)"
        using h(4)[unfolded pointers_ok_def, THEN spec, of d] by auto
      with new have "path_of q \<noteq> path_of p" using eq(1)[OF q(1) p] by auto
      with Some q show ?thesis by (auto simp: task_abort_def)
    qed
  qed
  moreover have "entries_match (w\<lparr>fw_files := ?f\<rparr>) (task_abort p (tw_store v))"
    using h(5) eq p unfolding entries_match_def by (auto simp: task_abort_def)
  ultimately show ?thesis using r h by (auto simp: same_tasks_def)
qed

lemma file_load_same:
  assumes "same_tasks hs w v"
  shows "file_load hs i (fw_files w) = task_load hs i (tw_store v)"
proof (cases "runtimeScopeDigest hs i")
  case (Inl err)
  then show ?thesis by (simp add: file_load_def task_load_def)
next
  case d: (Inr d)
  have h: "files_kept hs w" "pointers_ok w (tw_store v)" using assms unfolding same_tasks_def by auto
  obtain b where b: "readActive d (fw_files w) = Inr b" "b = map_of (tf_active (fw_files w)) d"
    using readActive_pointed[OF h] by blast
  show ?thesis
  proof (cases "map_of (tf_active (fw_files w)) d")
    case None
    then show ?thesis using d b h(2)[unfolded pointers_ok_def, THEN spec, of d]
      by (simp add: file_load_def task_load_def loadByScope_def)
  next
    case (Some c)
    then obtain q e where q: "q \<in> set (fw_handles w)" "pr_scope q = d" "at_revision c = pr_revision q" "at_token c = pr_token q"
        "map_of (tf_revisions (fw_files w)) (path_of q) = Some e" "map_of (tst_active (tw_store v)) d = Some (pe_state e)"
      using h(2)[unfolded pointers_ok_def, THEN spec, of d] by auto
    moreover have "parse_task_state (pe_state e) = Inr (pe_state e) \<and> runtimeScopeDigest hs (tks_identity (pe_state e)) = Inr d"
      using h(1)[unfolded files_kept_def, THEN bspec, OF q(1)] q(2,5) by auto
    ultimately show ?thesis using d b Some by (simp add: file_load_def task_load_def loadByScope_def path_of_def)
  qed
qed

lemma same_tasks_other:
  assumes "tf_active f = tf_active (fw_files w)" and "tf_revisions f = tf_revisions (fw_files w)"
    and "tst_active st = tst_active (tw_store v)" and "tst_prepared st = tst_prepared (tw_store v)"
  shows "same_tasks hs (w\<lparr>fw_files := f\<rparr>) (v\<lparr>tw_store := st\<rparr>) = same_tasks hs w v"
  by (simp add: same_tasks_def files_kept_def pointers_ok_def entries_match_def assms cong del: option.case_cong_weak)

lemma file_step_same:
  assumes s: "same_tasks hs w v" and t: "tokens_ok (map pr_token (tw_handles v) @ op_tokens [x])" and ne: "[] \<notin> set (op_tokens [x])"
    and k: "keeps_committed hs (x # xs) w"
  shows "same_tasks hs (file_step hs x w) (task_step hs x v)"
proof -
  have h: "fw_handles w = tw_handles v" using s by (simp add: same_tasks_def)
  show ?thesis
  proof (cases x)
    case (Prepare token u e)
    with t ne have "tokens_ok (map pr_token (tw_handles v) @ [token])" "token \<noteq> []" by (auto simp: op_tokens_def)
    from file_prepare_same[OF s this, of u e] s show ?thesis
      by (auto simp: Prepare file_step_def task_step_def)
  next
    case (Commit n)
    show ?thesis
    proof (cases "n < length (fw_handles w)")
      case True
      with file_commit_same[OF s, of "fw_handles w ! n"] s show ?thesis
        by (auto simp: Commit file_step_def task_step_def Let_def h)
    next
      case False
      with s show ?thesis by (simp add: Commit file_step_def task_step_def h)
    qed
  next
    case (Abort n)
    show ?thesis
    proof (cases "n < length (fw_handles w)")
      case True
      with k have "pr_token (fw_handles w ! n) \<notin> fw_committed w" by (simp add: Abort)
      with file_abort_same[OF s, of "fw_handles w ! n"] True show ?thesis
        by (auto simp: Abort file_step_def task_step_def h)
    next
      case False
      with s show ?thesis by (simp add: Abort file_step_def task_step_def h)
    qed
  next
    case (Migrate r)
    have "same_tasks hs (w\<lparr>fw_files := file_appendMigrationRecord r (fw_files w)\<rparr>)
        (v\<lparr>tw_store := appendMigrationRecord r (tw_store v)\<rparr>)"
      using s by (subst same_tasks_other) (simp_all add: file_appendMigrationRecord_def appendMigrationRecord_def)
    then show ?thesis by (simp add: Migrate file_step_def task_step_def)
  qed
qed

lemma file_run_same:
  assumes "same_tasks hs w v" and "store_ok v" and "tokens_ok (map pr_token (tw_handles v) @ op_tokens xs)"
    and "[] \<notin> set (op_tokens xs)" and "keeps_committed hs xs w"
  shows "same_tasks hs (fold (file_step hs) xs w) (fold (task_step hs) xs v)"
  using assms
proof (induction xs arbitrary: w v)
  case (Cons x xs)
  have o: "op_tokens (x # xs) = op_tokens [x] @ op_tokens xs" by (simp add: op_tokens_def)
  have "tokens_ok (map pr_token (tw_handles v) @ op_tokens [x])" "[] \<notin> set (op_tokens [x])"
    using Cons.prems(3,4) unfolding o by (auto simp: tokens_ok_def)
  then have "same_tasks hs (file_step hs x w) (task_step hs x v)"
    using file_step_same Cons.prems(1,5) by blast
  moreover have "store_ok (task_step hs x v)"
    "tokens_ok (map pr_token (tw_handles (task_step hs x v)) @ op_tokens xs)"
    using task_step_ok[OF Cons.prems(2,3), of hs] by simp_all
  moreover have "[] \<notin> set (op_tokens xs)" "keeps_committed hs xs (file_step hs x w)"
    using Cons.prems(4,5) unfolding o by auto
  ultimately show ?case using Cons.IH by simp
qed simp





end
