(* ===== verification/FileRuns.thy ===== *)
theory FileRuns
  imports EffectCommit
begin

text \<open>
  The stores of a run on files: snapshots and leases (\<open>adapters/adapter-storage/src/file-run-state-store.ts\<close>)
  and the event log (\<open>file-run-event-store.ts\<close>), which live under one directory; the log checks fences
  against the lease files of the snapshots. These are the stores the runtime uses for its kernel.

  \<open>hs\<close> is the hash that names the files of a run. Every operation holds the lock of the lease file, so it
  is one step; \<open>now\<close> are its readings of the clock. A snapshot that is not JSON, and a line of the log that
  is not, is \<open>None\<close>.

  The lease files keep the contract \<open>fenced_leases\<close> of \<open>LeaseTable\<close>, as the table in memory does.
\<close>

section \<open>The files\<close>

record 'p run_files =
  rf_snapshots :: "(string, run_state option) jsmap"
  rf_leases :: lease_table
  rf_events :: "(string, 'p run_event option list) jsmap"

definition no_run_files :: "'p run_files" where
  "no_run_files = \<lparr>rf_snapshots = [], rf_leases = \<lparr>t_leases = [], t_epochs = []\<rparr>, rf_events = []\<rparr>"

section \<open>Leases\<close>

text \<open>The epoch of a new lease is above that of the lease file and that of the epoch file.\<close>

definition file_next_epoch :: "lease_table \<Rightarrow> string \<Rightarrow> nat" where
  "file_next_epoch t k = max (case map_of (t_leases t) k of None \<Rightarrow> 0 | Some l \<Rightarrow> l_epoch l) (get_or 0 (t_epochs t) k) + 1"

definition file_lease :: "string \<Rightarrow> string \<Rightarrow> rat \<Rightarrow> int \<Rightarrow> string \<Rightarrow> lease_table \<Rightarrow> lease" where
  "file_lease k holder ttl now token t = \<lparr>l_holder = holder, l_expires = now + lease_ms ttl,
     l_epoch = file_next_epoch t k, l_token = token\<rparr>"

definition files_acquire :: "string \<Rightarrow> string \<Rightarrow> rat \<Rightarrow> int \<Rightarrow> string \<Rightarrow> lease_table \<Rightarrow> lease_grant \<times> lease_table" where
  "files_acquire k holder ttl now token t =
     (let fresh = file_lease k holder ttl now token t in
      case map_of (t_leases t) k of
        Some l \<Rightarrow>
          if l_expires l > now \<and> l_holder l \<noteq> holder then (refused, t)
          else if l_expires l > now \<and> l_holder l = holder then (granted l, t)
          else (granted fresh, issue_lease k fresh t)
      | None \<Rightarrow> (granted fresh, issue_lease k fresh t))"

definition files_renew ::
    "string \<Rightarrow> string \<Rightarrow> fence option \<Rightarrow> rat option \<Rightarrow> int \<Rightarrow> int \<Rightarrow> lease_table \<Rightarrow> bool \<times> lease_table" where
  "files_renew k holder f ttl now now' t = (case ttl of
      None \<Rightarrow> (False, t)
    | Some d \<Rightarrow> (case map_of (t_leases t) k of
          None \<Rightarrow> (False, t)
        | Some l \<Rightarrow>
            if l_holder l \<noteq> holder \<or> (\<exists>g. f = Some g \<and> \<not> sameFence l g) \<or> l_expires l \<le> now then (False, t)
            else (True, t\<lparr>t_leases := AList.update k (l\<lparr>l_expires := now' + lease_ms d\<rparr>) (t_leases t)\<rparr>)))"

definition files_release :: "string \<Rightarrow> string \<Rightarrow> fence option \<Rightarrow> lease_table \<Rightarrow> lease_table" where
  "files_release k holder f t = (case map_of (t_leases t) k of
      Some l \<Rightarrow> if l_holder l = holder \<and> (case f of None \<Rightarrow> True | Some g \<Rightarrow> sameFence l g)
        then t\<lparr>t_leases := AList.delete k (t_leases t)\<rparr> else t
    | None \<Rightarrow> t)"

definition run_acquire :: "(string \<Rightarrow> string) \<Rightarrow> run_identity \<Rightarrow> string \<Rightarrow> rat \<Rightarrow> int \<Rightarrow> string \<Rightarrow> 'p run_files
    \<Rightarrow> lease_grant result \<times> 'p run_files" where
  "run_acquire hs i holder ttl now token s = (case runtimeScopeDigest hs i of
      Inl e \<Rightarrow> (Inl e, s)
    | Inr k \<Rightarrow> let (g, t) = files_acquire k holder ttl now token (rf_leases s) in (Inr g, s\<lparr>rf_leases := t\<rparr>))"

definition run_renew :: "(string \<Rightarrow> string) \<Rightarrow> run_identity \<Rightarrow> string \<Rightarrow> fence option \<Rightarrow> rat option \<Rightarrow> int \<Rightarrow> int \<Rightarrow> 'p run_files
    \<Rightarrow> bool result \<times> 'p run_files" where
  "run_renew hs i holder f ttl now now' s = (if ttl = None then (Inr False, s) else case runtimeScopeDigest hs i of
      Inl e \<Rightarrow> (Inl e, s)
    | Inr k \<Rightarrow> let (b, t) = files_renew k holder f ttl now now' (rf_leases s) in (Inr b, s\<lparr>rf_leases := t\<rparr>))"

definition run_release :: "(string \<Rightarrow> string) \<Rightarrow> run_identity \<Rightarrow> string \<Rightarrow> fence option \<Rightarrow> 'p run_files
    \<Rightarrow> unit result \<times> 'p run_files" where
  "run_release hs i holder f s = (case runtimeScopeDigest hs i of
      Inl e \<Rightarrow> (Inl e, s)
    | Inr k \<Rightarrow> (Inr (), s\<lparr>rf_leases := files_release k holder f (rf_leases s)\<rparr>))"

section \<open>Snapshots\<close>

text \<open>With \<open>strict\<close> (\<open>requireFence\<close>) a write without a fence is refused.\<close>

definition assertFence :: "bool \<Rightarrow> string \<Rightarrow> fence option \<Rightarrow> int \<Rightarrow> lease_table \<Rightarrow> unit result" where
  "assertFence strict k f now t = (case f of
      None \<Rightarrow> if strict then throw ''runtime snapshot write requires an active lease fence'' else Inr ()
    | Some g \<Rightarrow> (case map_of (t_leases t) k of
          None \<Rightarrow> throw ''runtime snapshot write rejected by stale lease fence''
        | Some l \<Rightarrow> if l_expires l \<le> now \<or> l_holder l \<noteq> f_holder g \<or> \<not> sameFence l g
            then throw ''runtime snapshot write rejected by stale lease fence'' else Inr ()))"

definition run_save :: "(string \<Rightarrow> string) \<Rightarrow> bool \<Rightarrow> run_state \<Rightarrow> fence option \<Rightarrow> int \<Rightarrow> 'p run_files
    \<Rightarrow> unit result \<times> 'p run_files" where
  "run_save hs strict x f now s = (case bind_result (parse_run_state x) (\<lambda>p.
        bind_result (runtimeScopeDigest hs (identity p)) (\<lambda>k.
        bind_result (assertFence strict k f now (rf_leases s)) (\<lambda>_. Inr (k, p)))) of
      Inl e \<Rightarrow> (Inl e, s)
    | Inr (k, p) \<Rightarrow> (Inr (), s\<lparr>rf_snapshots := AList.update k (Some p) (rf_snapshots s)\<rparr>))"

text \<open>Whatever goes wrong when a snapshot is read, there is none.\<close>

definition run_load :: "(string \<Rightarrow> string) \<Rightarrow> run_identity \<Rightarrow> 'p run_files \<Rightarrow> run_state option" where
  "run_load hs i s = (case runtimeScopeDigest hs i of
      Inl _ \<Rightarrow> None
    | Inr k \<Rightarrow> (case map_of (rf_snapshots s) k of
          Some (Some x) \<Rightarrow> (case parse_run_state x of Inl _ \<Rightarrow> None | Inr p \<Rightarrow> Some p)
        | _ \<Rightarrow> None))"

definition writeRawSnapshot :: "(string \<Rightarrow> string) \<Rightarrow> run_identity \<Rightarrow> run_state option \<Rightarrow> 'p run_files \<Rightarrow> unit result \<times> 'p run_files" where
  "writeRawSnapshot hs i contents s = (case runtimeScopeDigest hs i of
      Inl e \<Rightarrow> (Inl e, s)
    | Inr k \<Rightarrow> (Inr (), s\<lparr>rf_snapshots := AList.update k contents (rf_snapshots s)\<rparr>))"

section \<open>Events\<close>

definition assertEventFence :: "bool \<Rightarrow> string \<Rightarrow> fence option \<Rightarrow> int \<Rightarrow> lease_table \<Rightarrow> unit result" where
  "assertEventFence strict k f now t = (if \<not> strict then Inr () else (case f of
      None \<Rightarrow> throw ''runtime event write requires an active lease fence''
    | Some g \<Rightarrow> (case map_of (t_leases t) k of
          None \<Rightarrow> throw ''runtime event write rejected: active lease fence unavailable''
        | Some l \<Rightarrow> if l_holder l \<noteq> f_holder g \<or> l_epoch l \<noteq> f_epoch g \<or> l_token l \<noteq> f_token g \<or> l_expires l \<le> now
            then throw ''runtime event write rejected by stale lease fence'' else Inr ())))"

text \<open>One line that cannot be read makes the log unreadable; \<open>describe\<close> is the text of that error.\<close>

definition read_line :: "'p run_event option \<Rightarrow> 'p run_event result" where
  "read_line l = (case l of None \<Rightarrow> Inl ZodError | Some e \<Rightarrow> parse_event e)"

definition readEvents :: "string \<Rightarrow> string \<Rightarrow> 'p run_files \<Rightarrow> 'p run_event list result" where
  "readEvents describe k s = (case map_result read_line (get_or [] (rf_events s) k) of
      Inl _ \<Rightarrow> throw (''invalid run event log: '' @ describe)
    | Inr es \<Rightarrow> Inr es)"

definition run_append :: "(string \<Rightarrow> string) \<Rightarrow> bool \<Rightarrow> string \<Rightarrow> 'p run_event \<Rightarrow> fence option \<Rightarrow> int \<Rightarrow> 'p run_files
    \<Rightarrow> 'p run_event result \<times> 'p run_files" where
  "run_append hs strict describe inp f now s = (case bind_result (parse_event inp) (\<lambda>e.
        bind_result (runtimeScopeDigest hs (ev_identity e)) (\<lambda>k.
        bind_result (assertEventFence strict k f now (rf_leases s)) (\<lambda>_.
        bind_result (readEvents describe k s) (\<lambda>es. Inr (e, k, es))))) of
      Inl err \<Rightarrow> (Inl err, s)
    | Inr (e, k, es) \<Rightarrow> (case List.find (\<lambda>c. ev_id c = ev_id e) es of
          Some c \<Rightarrow> (Inr c, s)
        | None \<Rightarrow>
            if list_ex (\<lambda>c. ev_seq c = ev_seq e) es then (throw (''duplicate run event sequence '' @ show_nat (ev_seq e)), s)
            else (Inr e, s\<lparr>rf_events := AList.update k (get_or [] (rf_events s) k @ [Some e]) (rf_events s)\<rparr>)))"

definition run_listAfter :: "(string \<Rightarrow> string) \<Rightarrow> string \<Rightarrow> run_identity \<Rightarrow> nat \<Rightarrow> 'p run_files \<Rightarrow> 'p run_event list result" where
  "run_listAfter hs describe i n s = bind_result (runtimeScopeDigest hs i) (\<lambda>k.
     bind_result (readEvents describe k s) (\<lambda>es. Inr (filter (\<lambda>e. n < ev_seq e) es)))"

section \<open>The lease files keep the contract of a lease store\<close>

lemma file_next_epoch_well: "table_well t \<Longrightarrow> file_next_epoch t k = next_epoch t k"
  using next_epoch_well[of t k] table_well_epoch[of t k]
  by (auto simp: file_next_epoch_def table_lease_def table_epoch_def max_def split: option.split)

lemma files_acquire_table: "table_well t \<Longrightarrow> files_acquire k h ttl now token t = table_acquire k h ttl now token t"
  by (simp add: files_acquire_def table_acquire_def file_lease_def new_lease_def file_next_epoch_well)

lemma files_release_table: "files_release k h f t = table_release k h f t"
  by (simp add: files_release_def table_release_def)

text \<open>A time to live of zero is refused in memory and renews for a millisecond here.\<close>

lemma files_renew_table:
  "files_renew k h f ttl now now' t = table_renew k h f (map_option (\<lambda>d. if d = 0 then 1 else d) ttl) now now' t"
  by (auto simp: files_renew_def table_renew_def lease_ms_def split: option.split)

inductive run_files_step :: "(string \<Rightarrow> string) \<Rightarrow> 'p run_files \<Rightarrow> 'p run_files \<Rightarrow> bool" for hs where
  save: "run_files_step hs s (snd (run_save hs strict x f now s))"
| raw: "run_files_step hs s (snd (writeRawSnapshot hs i c s))"
| append: "run_files_step hs s (snd (run_append hs strict describe e f now s))"
| acquire: "run_files_step hs s (snd (run_acquire hs i h ttl now token s))"
| renew: "run_files_step hs s (snd (run_renew hs i h f ttl' now now' s))"
| release: "run_files_step hs s (snd (run_release hs i h f s))"

lemma run_files_step_table:
  assumes "table_well (rf_leases s)" and "run_files_step hs s s'"
  shows "rf_leases s' = rf_leases s \<or> table_step (rf_leases s) (rf_leases s')"
  using assms(2)
proof cases
  case (save strict x f now)
  then show ?thesis by (auto simp: run_save_def split: sum.split)
next
  case (raw i c)
  then show ?thesis by (auto simp: writeRawSnapshot_def split: sum.split)
next
  case (append strict describe e f now)
  then show ?thesis by (auto simp: run_append_def split: sum.split option.split)
next
  case (acquire i h ttl now token)
  then show ?thesis
    by (auto simp: run_acquire_def case_prod_beta Let_def files_acquire_table[OF assms(1)] intro: table_step.acquire split: sum.split)
next
  case (renew i h f ttl now now')
  then show ?thesis
    by (auto simp: run_renew_def case_prod_beta Let_def files_renew_table intro: table_step.renew split: sum.split)
next
  case (release i h f)
  then show ?thesis
    by (auto simp: run_release_def files_release_table intro: table_step.release split: sum.split)
qed

lemma run_files_step_effect:
  assumes "table_well (rf_leases s)" and "run_files_step hs s s'"
  shows "table_well (rf_leases s') \<and> table_epoch (rf_leases s) k \<le> table_epoch (rf_leases s') k
    \<and> (\<forall>l. table_lease (rf_leases s') k = Some l \<longrightarrow>
        (\<exists>l0. table_lease (rf_leases s) k = Some l0 \<and> fence_of l0 = fence_of l)
        \<or> table_epoch (rf_leases s) k < l_epoch l)"
  using run_files_step_table[OF assms] table_step_effect[OF assms(1)] assms(1) by auto

interpretation file_leases: fenced_leases
  "\<lambda>s k. table_lease (rf_leases s) k" "\<lambda>s k. table_epoch (rf_leases s) k" "run_files_step hs"
  "\<lambda>s. table_well (rf_leases s)" for hs
  by unfold_locales (use run_files_step_effect table_well_epoch in blast)+



definition lost_files :: "unit run_files" where
  "lost_files = no_run_files\<lparr>rf_leases := \<lparr>t_leases = [], t_epochs = [(sample_key, 1)]\<rparr>\<rparr>"


section \<open>The event log on files refines the log in memory\<close>

definition same_logs :: "(string \<Rightarrow> string) \<Rightarrow> 'p event_store \<Rightarrow> 'p run_files \<Rightarrow> bool" where
  "same_logs hs st s \<longleftrightarrow> (\<forall>k. \<exists>es. get_or [] (rf_events s) (hs k) = map Some es \<and> (\<forall>e \<in> set es. ok_event e) \<and>
     mset es = mset (get_or [] (es_events st) k))"

lemma read_lines: "\<forall>e \<in> set es. ok_event e \<Longrightarrow> map_result read_line (map Some es) = Inr es"
  by (induction es) (auto simp: read_line_def parse_event_accepts)

lemma find_hit:
  "distinct (map ev_id xs) \<Longrightarrow> c \<in> set xs \<Longrightarrow> ev_id c = d \<Longrightarrow> List.find (\<lambda>c. ev_id c = d) xs = Some c"
  by (induction xs) (auto simp: image_iff)

lemma find_same:
  assumes "mset es = mset fs" and "distinct (map ev_id fs)"
  shows "List.find (\<lambda>c. ev_id c = d) es = List.find (\<lambda>c. ev_id c = d) fs"
proof -
  have m: "set es = set fs" using assms(1) by (rule mset_eq_setD)
  have u: "distinct (map ev_id es)" using assms by (metis mset_eq_imp_distinct_iff mset_map)
  show ?thesis
  proof (cases "\<exists>c \<in> set fs. ev_id c = d")
    case True
    then show ?thesis using find_hit[OF u] find_hit[OF assms(2)] m by auto
  next
    case False
    then have "List.find (\<lambda>c. ev_id c = d) es = None" "List.find (\<lambda>c. ev_id c = d) fs = None"
      using m by (auto simp: find_None_iff)
    then show ?thesis by simp
  qed
qed

lemma sorted_same:
  assumes "mset es = mset fs" and "sorted_wrt (<) (map ev_seq fs)"
  shows "sort_key ev_seq es = fs"
proof (rule sort_key_inj_key_eq)
  have "distinct (map ev_seq es)" using assms by (metis mset_eq_imp_distinct_iff mset_map strict_sorted_iff)
  then show "inj_on ev_seq (set es)" by (simp add: distinct_map)
qed (use assms in \<open>simp_all add: strict_sorted_iff\<close>)

lemma runtimeScopeDigest_key: "runtimeScopeDigest hs i = bind_result (identityKey i) (\<lambda>k. Inr (hs k))"
  by (simp add: runtimeScopeDigest_def identityKey_def)

lemma append_refines:
  assumes inj: "inj hs" and same: "same_logs hs st s" and well: "es_well st"
  shows "fst (run_append hs False describe inp None now s) = fst (append_event inp None st)
    \<and> same_logs hs (snd (append_event inp None st)) (snd (run_append hs False describe inp None now s))"
proof (cases "bind_result (parse_event inp) (\<lambda>e. bind_result (eventKey e) (\<lambda>k. Inr (e, k)))")
  case (Inl err)
  with same show ?thesis
    by (auto simp: append_event_def run_append_def runtimeScopeDigest_key eventKey_def result_simps)
next
  case (Inr ek)
  then obtain e k where p: "parse_event inp = Inr e" "ok_event e" and k: "eventKey e = Inr k" "ek = (e, k)"
    using parse_event_ok by (auto simp: result_simps)
  have d: "runtimeScopeDigest hs (ev_identity e) = Inr (hs k)" using k(1) by (simp add: runtimeScopeDigest_key eventKey_def)
  define fs where "fs = get_or [] (es_events st) k"
  obtain es where es: "get_or [] (rf_events s) (hs k) = map Some es" "\<forall>e \<in> set es. ok_event e" "mset es = mset fs"
    using same by (auto simp: same_logs_def fs_def)
  have set: "set es = set fs" using es(3) by (rule mset_eq_setD)
  have "well_list fs k" using well by (simp add: es_well_def fs_def)
  then have find: "List.find (\<lambda>c. ev_id c = ev_id e) es = List.find (\<lambda>c. ev_id c = ev_id e) fs"
    using find_same[OF es(3)] by (simp add: well_list_def)
  have mem: "append_event inp None st = append_checked e k fs st"
    using p k by (simp add: append_event_def fence_epochs_def fs_def)
  have disk: "run_append hs False describe inp None now s = (case List.find (\<lambda>c. ev_id c = ev_id e) fs of
          Some c \<Rightarrow> (Inr c, s)
        | None \<Rightarrow> if list_ex (\<lambda>c. ev_seq c = ev_seq e) fs then (throw (''duplicate run event sequence '' @ show_nat (ev_seq e)), s)
            else (Inr e, s\<lparr>rf_events := AList.update (hs k) (map Some es @ [Some e]) (rf_events s)\<rparr>))"
    using p d es(1) set
    by (auto simp: run_append_def assertEventFence_def readEvents_def read_lines[OF es(2)] find list_ex_iff split: option.split)
  have "same_logs hs (st\<lparr>es_events := AList.update k (insert_event e fs) (es_events st)\<rparr>)
      (s\<lparr>rf_events := AList.update (hs k) (map Some es @ [Some e]) (rf_events s)\<rparr>)"
    unfolding same_logs_def
  proof
    fix j
    show "\<exists>gs. get_or [] (rf_events (s\<lparr>rf_events := AList.update (hs k) (map Some es @ [Some e]) (rf_events s)\<rparr>)) (hs j) = map Some gs
      \<and> (\<forall>e \<in> set gs. ok_event e) \<and>
      mset gs = mset (get_or [] (es_events (st\<lparr>es_events := AList.update k (insert_event e fs) (es_events st)\<rparr>)) j)"
    proof (cases "j = k")
      case True
      then show ?thesis using es p(2) by (intro exI[of _ "es @ [e]"]) (auto simp: insert_event_def)
    next
      case False
      then have "hs j \<noteq> hs k" using inj by (auto dest: injD)
      then show ?thesis using False same by (simp add: same_logs_def)
    qed
  qed
  then show ?thesis using same unfolding mem disk by (auto simp: append_checked_def split: option.split)
qed

fun memory_log :: "'p run_event list \<Rightarrow> 'p event_store \<Rightarrow> 'p run_event result list \<times> 'p event_store" where
  "memory_log [] st = ([], st)"
| "memory_log (e # es) st = (let (r, st) = append_event e None st; (rs, st) = memory_log es st in (r # rs, st))"

fun file_log :: "(string \<Rightarrow> string) \<Rightarrow> string \<Rightarrow> ('p run_event \<times> int) list \<Rightarrow> 'p run_files \<Rightarrow> 'p run_event result list \<times> 'p run_files" where
  "file_log hs describe [] s = ([], s)"
| "file_log hs describe ((e, now) # es) s = (let (r, s) = run_append hs False describe e None now s;
     (rs, s) = file_log hs describe es s in (r # rs, s))"

lemma logs_refine:
  assumes "inj hs" and "same_logs hs st s" and "es_well st"
  shows "fst (file_log hs describe xs s) = fst (memory_log (map fst xs) st)
    \<and> same_logs hs (snd (memory_log (map fst xs) st)) (snd (file_log hs describe xs s))
    \<and> es_well (snd (memory_log (map fst xs) st))"
  using assms(2,3)
proof (induction xs arbitrary: st s)
  case (Cons x xs)
  note step = append_refines[OF assms(1) Cons.prems, of describe "fst x" "snd x"]
  have "es_well (snd (append_event (fst x) None st))" by (rule append_event_well[OF Cons.prems(2)])
  from Cons.IH[OF conjunct2[OF step] this] step show ?case by (cases x) (simp add: case_prod_beta Let_def)
qed simp



end
