(* ===== verification/ThreadService.thy ===== *)
theory ThreadService
  imports TurnService Todos HistoryRepair
begin

text \<open>
  Threads as the API sees them (\<open>services/src/thread-service.ts\<close>): listing, creation, updates, goals, to-do
  lists and their plans, forks and resumed sessions.

  The handlers work on the state of \<open>TurnService\<close>. Plan files are a map from absolute paths to contents;
  \<open>clock n\<close> is the \<open>n\<close>-th reading of the clock in a handler and identifiers of threads and turns from the
  generator are arguments. Only the loop that looks for an unused to-do id draws more than once from the
  generator: there it is a stream \<open>ids\<close>, and the loop is a partial function.
\<close>

section \<open>Listing\<close>

record list_options =
  lo_owner :: "string option"
  lo_archived_only :: bool
  lo_archived :: bool
  lo_side :: bool
  lo_search :: "string option"
  lo_limit :: "int option"

fun thread_mode_name :: "thread_mode \<Rightarrow> string" where
  "thread_mode_name Agent_mode = ''agent''"
| "thread_mode_name Plan_mode = ''plan''"

fun thread_status_name :: "thread_status \<Rightarrow> string" where
  "thread_status_name Thread_idle = ''idle''"
| "thread_status_name Thread_running = ''running''"
| "thread_status_name Thread_archived = ''archived''"
| "thread_status_name Thread_deleted = ''deleted''"

definition matchesThreadSearch :: "thread_summary \<Rightarrow> string \<Rightarrow> bool" where
  "matchesThreadSearch t q = list_ex (\<lambda>v. case v of None \<Rightarrow> False | Some s \<Rightarrow> contains (js_lower s) q)
     [Some (th_id t), Some (th_title t), Some (th_workspace t), Some (th_model t), Some (thread_mode_name (th_mode t)),
      th_origin_title t, th_origin t]"

text \<open>\<open>slice(0, limit)\<close>: a negative limit leaves elements off at the end.\<close>

definition slice_to :: "int \<Rightarrow> 'a list \<Rightarrow> 'a list" where
  "slice_to n xs = (if 0 \<le> n then take (nat n) xs else take (length xs - nat (- n)) xs)"

definition listed :: "list_options \<Rightarrow> thread_summary \<Rightarrow> bool" where
  "listed q t \<longleftrightarrow> (case truthy (lo_owner q) of None \<Rightarrow> True | Some u \<Rightarrow> th_owner t = Some u) \<and>
     (if lo_archived_only q then th_status t = Thread_archived
      else lo_archived q \<or> (th_status t \<noteq> Thread_archived \<and> th_status t \<noteq> Thread_deleted)) \<and>
     (lo_side q \<or> th_relation t \<noteq> Side_thread) \<and>
     (case truthy (map_option (\<lambda>s. js_lower (trim s)) (lo_search q)) of None \<Rightarrow> True | Some s \<Rightarrow> matchesThreadSearch t s)"

definition service_list :: "list_options \<Rightarrow> turn_world \<Rightarrow> thread_summary list" where
  "service_list q w = (let ts = filter (listed q) (list_threads (tv_threads w))
     in case lo_limit q of None \<Rightarrow> ts | Some n \<Rightarrow> slice_to n ts)"

definition getForOwner :: "string \<Rightarrow> string \<Rightarrow> turn_world \<Rightarrow> thread option" where
  "getForOwner t owner w = (case get_thread t (tv_threads w) of
      None \<Rightarrow> None | Some c \<Rightarrow> if th_owner c \<noteq> Some owner then None else Some c)"

section \<open>Creating and updating\<close>

definition put_thread :: "thread \<Rightarrow> turn_world \<Rightarrow> turn_world" where
  "put_thread c w = w\<lparr>tv_threads := upsert_thread c (tv_threads w)\<rparr>"

definition with_thread :: "string \<Rightarrow> (thread \<Rightarrow> 'a handler) \<Rightarrow> 'a handler" where
  "with_thread t f w = (case get_thread t (tv_threads w) of
      None \<Rightarrow> (throw (''thread not found: '' @ t), w) | Some c \<Rightarrow> f c w)"

record create_request =
  cr_title :: "string option"
  cr_workspace :: "string option"
  cr_model :: "string option"
  cr_mode :: thread_mode
  cr_work_mode :: "string option"
  cr_module :: "string option"
  cr_approval :: "approval_policy option"
  cr_sandbox :: "sandbox_mode option"
  cr_cost :: "rat option"

record create_options =
  co_id :: "string option"
  co_title :: "string option"
  co_status :: "thread_status option"
  co_owner :: "string option"

definition blank_input :: thread_input where
  "blank_input = \<lparr>nt_id = [], nt_owner = None, nt_title = [], nt_workspace = [], nt_model = [], nt_mode = None,
     nt_work_mode = None, nt_module = None, nt_status = None, nt_approval = None, nt_sandbox = None, nt_cost = None,
     nt_warned = None, nt_relation = None, nt_parent = None, nt_origin = None, nt_origin_title = None,
     nt_forked_at = None, nt_origin_messages = None, nt_origin_turns = None, nt_goal = None, nt_todos = None,
     nt_created = None\<rparr>"

definition trimmed_or :: "string option \<Rightarrow> string \<Rightarrow> string" where
  "trimmed_or s d = or_else (truthy (map_option trim s)) d"

definition created_thread :: "create_request \<Rightarrow> create_options \<Rightarrow> string \<Rightarrow> string \<Rightarrow> string \<Rightarrow> string \<Rightarrow> thread" where
  "created_thread q k generated model workspace now = createThreadRecord
     (blank_input\<lparr>nt_id := or_else (co_id k) generated, nt_owner := co_owner k,
        nt_title := or_else (co_title k) (trimmed_or (cr_title q) ''New chat''),
        nt_workspace := workspace, nt_model := model, nt_mode := Some (cr_mode q), nt_work_mode := cr_work_mode q,
        nt_module := cr_module q, nt_approval := cr_approval q, nt_sandbox := cr_sandbox q, nt_cost := cr_cost q,
        nt_status := co_status k\<rparr>) now"

definition service_create ::
    "(nat \<Rightarrow> string) \<Rightarrow> string \<Rightarrow> create_request \<Rightarrow> create_options \<Rightarrow> thread handler" where
  "service_create clock generated q k w = (case truthy (map_option trim (cr_model q)) of
      None \<Rightarrow> (throw ''model is required to create a thread'', w)
    | Some model \<Rightarrow> (case truthy (map_option trim (cr_workspace q)) of
          None \<Rightarrow> (throw ''workspace is required to create a thread'', w)
        | Some workspace \<Rightarrow> let c = created_thread q k generated model workspace (clock 0) in
            answer c (steps [perform (put_thread c),
              record_in (clock 1) (draft_of (th_id c) None None (ThreadCreated (Some (th_title c)) None))] w)))"

text \<open>A cost budget is set, cleared with \<open>null\<close>, or left alone.\<close>

datatype cost_patch = Keep_cost | Clear_cost | Set_cost rat

record thread_patch =
  pt_title :: "string option"
  pt_workspace :: "string option"
  pt_model :: "string option"
  pt_mode :: "thread_mode option"
  pt_status :: "thread_status option"
  pt_approval :: "approval_policy option"
  pt_sandbox :: "sandbox_mode option"
  pt_cost :: cost_patch
  pt_warned :: "bool option"
  pt_relation :: "thread_relation option"
  pt_work_mode :: "string option"
  pt_module :: "string option"

definition patch_fields :: "thread_patch \<Rightarrow> thread \<Rightarrow> thread" where
  "patch_fields p c = c\<lparr>th_title := or_else (pt_title p) (th_title c), th_workspace := or_else (pt_workspace p) (th_workspace c),
     th_model := or_else (pt_model p) (th_model c), th_mode := or_else (pt_mode p) (th_mode c),
     th_status := or_else (pt_status p) (th_status c), th_approval := or_else (pt_approval p) (th_approval c),
     th_sandbox := or_else (pt_sandbox p) (th_sandbox c), th_relation := or_else (pt_relation p) (th_relation c),
     th_work_mode := or_else (pt_work_mode p) (th_work_mode c),
     th_module := (case pt_module p of None \<Rightarrow> th_module c | Some m \<Rightarrow> Some m)\<rparr>"

definition patch_cost :: "thread_patch \<Rightarrow> thread \<Rightarrow> thread" where
  "patch_cost p c = (case pt_cost p of
      Clear_cost \<Rightarrow> c\<lparr>th_cost := None, th_warned := None\<rparr>
    | Set_cost n \<Rightarrow> c\<lparr>th_cost := Some n, th_warned := Some False\<rparr>
    | Keep_cost \<Rightarrow> (case pt_warned p of None \<Rightarrow> c | Some b \<Rightarrow> c\<lparr>th_warned := Some b\<rparr>))"

definition patch_parent :: "thread_patch \<Rightarrow> thread \<Rightarrow> thread" where
  "patch_parent p c = (if pt_relation p \<noteq> None \<and> pt_relation p \<noteq> Some Side_thread then c\<lparr>th_parent := None\<rparr> else c)"

definition updated_thread :: "thread_patch \<Rightarrow> string \<Rightarrow> thread \<Rightarrow> thread" where
  "updated_thread p now c = touchThread (patch_parent p (patch_cost p (patch_fields p c))) (Some now) now"

definition service_update :: "(nat \<Rightarrow> string) \<Rightarrow> string \<Rightarrow> thread_patch \<Rightarrow> thread handler" where
  "service_update clock t p = with_thread t (\<lambda>c w.
     let u = updated_thread p (clock 0) c in
     answer u (steps [perform (put_thread u),
       record_in (clock 1) (draft_of t None None (ThreadUpdated (Some (th_title u)) (Some (thread_status_name (th_status u)))))] w))"

definition service_delete :: "string \<Rightarrow> turn_world \<Rightarrow> bool \<times> turn_world" where
  "service_delete t w = (let (b, ts) = delete_thread t (tv_threads w) in (b, w\<lparr>tv_threads := ts\<rparr>))"

section \<open>Events that carry a goal or a to-do list\<close>

fun goal_status_name :: "goal_status \<Rightarrow> string" where
  "goal_status_name Goal_active = ''active''"
| "goal_status_name Goal_paused = ''paused''"
| "goal_status_name Goal_blocked = ''blocked''"
| "goal_status_name Goal_usage_limited = ''usageLimited''"
| "goal_status_name Goal_budget_limited = ''budgetLimited''"
| "goal_status_name Goal_complete = ''complete''"

fun todo_status_name :: "todo_status \<Rightarrow> string" where
  "todo_status_name Todo_pending = ''pending''"
| "todo_status_name Todo_in_progress = ''in_progress''"
| "todo_status_name Todo_completed = ''completed''"

definition count_json :: "nat \<Rightarrow> json" where
  "count_json n = JNum (of_nat n)"

definition goal_json :: "thread_goal \<Rightarrow> json" where
  "goal_json g = JObj ([(''threadId'', JStr (go_thread g)), (''objective'', JStr (go_objective g)),
      (''status'', JStr (goal_status_name (go_status g)))] @
     (case go_budget g of None \<Rightarrow> [] | Some n \<Rightarrow> [(''tokenBudget'', count_json n)]) @
     [(''tokensUsed'', count_json (go_tokens g)), (''timeUsedSeconds'', count_json (go_seconds g)),
      (''createdAt'', JStr (go_created g)), (''updatedAt'', JStr (go_updated g))])"

definition source_json :: "todo_source \<Rightarrow> json" where
  "source_json s = JObj [(''kind'', JStr ''plan''), (''planId'', JStr (sr_plan s)), (''relativePath'', JStr (sr_path s)),
     (''ordinal'', count_json (sr_ordinal s)), (''contentHash'', JStr (sr_hash s))]"

definition todo_json :: "todo \<Rightarrow> json" where
  "todo_json d = JObj ([(''id'', JStr (td_id d)), (''content'', JStr (td_content d)), (''status'', JStr (todo_status_name (td_status d)))] @
     (case td_source d of None \<Rightarrow> [] | Some s \<Rightarrow> [(''source'', source_json s)]) @
     [(''createdAt'', JStr (td_created d)), (''updatedAt'', JStr (td_updated d))])"

definition todo_list_json :: "todo_list \<Rightarrow> json" where
  "todo_list_json l = JObj [(''threadId'', JStr (tdl_thread l)), (''items'', JArr (map todo_json (tdl_items l))), (''updatedAt'', JStr (tdl_updated l))]"

definition goal_ok :: "thread_goal \<Rightarrow> bool" where
  "goal_ok g \<longleftrightarrow> go_thread g \<noteq> [] \<and> trim (go_objective g) \<noteq> [] \<and> length (trim (go_objective g)) \<le> 4000 \<and>
     go_budget g \<noteq> Some 0"

definition source_ok :: "todo_source \<Rightarrow> bool" where
  "source_ok s \<longleftrightarrow> sr_plan s \<noteq> [] \<and> sr_path s \<noteq> [] \<and> sr_hash s \<noteq> []"

definition todo_ok :: "todo \<Rightarrow> bool" where
  "todo_ok d \<longleftrightarrow> td_id d \<noteq> [] \<and> trim (td_content d) \<noteq> [] \<and> length (trim (td_content d)) \<le> 1000 \<and>
     (case td_source d of None \<Rightarrow> True | Some s \<Rightarrow> source_ok s)"

definition todo_list_ok :: "todo_list \<Rightarrow> bool" where
  "todo_list_ok l \<longleftrightarrow> tdl_thread l \<noteq> [] \<and> length (tdl_items l) \<le> 200 \<and> list_all todo_ok (tdl_items l) \<and>
     length (filter (\<lambda>d. td_status d = Todo_in_progress) (tdl_items l)) \<le> 1"

text \<open>An event whose payload the schema refuses makes \<open>record\<close> throw after a number was allocated.\<close>

definition record_checked :: "bool \<Rightarrow> string \<Rightarrow> event_draft \<Rightarrow> unit handler" where
  "record_checked ok now d w = (if ok then record_in now d w
     else (Inl ZodError, w\<lparr>tv_recorder := (tv_recorder w)\<lparr>rw_bus := snd (record_begin d (session_of w) (rw_bus (tv_recorder w)))\<rparr>\<rparr>))"

definition record_todos :: "string \<Rightarrow> string \<Rightarrow> todo_list \<Rightarrow> unit handler" where
  "record_todos now t l = record_checked (todo_list_ok l) now (draft_of t None None (TodoEvent True (Some (todo_list_json l)) None))"


section \<open>Goals\<close>

text \<open>The budget of a request is absent, \<open>null\<close> or a number.\<close>

record goal_request =
  gr_objective :: "string option"
  gr_status :: "goal_status option"
  gr_budget :: "nat option option"

definition next_goal :: "string \<Rightarrow> goal_request \<Rightarrow> thread_goal option \<Rightarrow> string \<Rightarrow> thread_goal" where
  "next_goal t q old now = (let objective = map_option trim (gr_objective q) in
     \<lparr>go_thread = t,
      go_objective = or_else objective (case old of None \<Rightarrow> [] | Some g \<Rightarrow> go_objective g),
      go_status = or_else (gr_status q) (if truthy objective \<noteq> None then Goal_active
        else case old of None \<Rightarrow> Goal_active | Some g \<Rightarrow> go_status g),
      go_budget = (case gr_budget q of Some b \<Rightarrow> b | None \<Rightarrow> Option.bind old go_budget),
      go_tokens = (case old of None \<Rightarrow> 0 | Some g \<Rightarrow> go_tokens g),
      go_seconds = (case old of None \<Rightarrow> 0 | Some g \<Rightarrow> go_seconds g),
      go_created = (case old of None \<Rightarrow> now | Some g \<Rightarrow> go_created g), go_updated = now\<rparr>)"

definition service_setGoal :: "(nat \<Rightarrow> string) \<Rightarrow> string \<Rightarrow> goal_request \<Rightarrow> thread_goal handler" where
  "service_setGoal clock t q = with_thread t (\<lambda>c w.
     if th_goal c = None \<and> truthy (gr_objective q) = None
     then (throw (''cannot update goal for thread '' @ t @ '': no goal exists''), w)
     else let now = clock 0; g = next_goal t q (th_goal c) now in
       answer g (steps [perform (put_thread (touchThread (c\<lparr>th_goal := Some g\<rparr>) (Some now) now)),
         record_checked (goal_ok g) (clock 1) (draft_of t None None (GoalEvent True (Some (goal_json g)) None))] w))"

definition service_getGoal :: "string \<Rightarrow> turn_world \<Rightarrow> thread_goal option result" where
  "service_getGoal t w = (case get_thread t (tv_threads w) of
      None \<Rightarrow> throw (''thread not found: '' @ t) | Some c \<Rightarrow> Inr (th_goal c))"

definition service_clearGoal :: "(nat \<Rightarrow> string) \<Rightarrow> string \<Rightarrow> bool handler" where
  "service_clearGoal clock t = with_thread t (\<lambda>c w. if th_goal c = None then (Inr False, w)
     else answer True (steps [perform (put_thread ((touchThread c (Some (clock 0)) (clock 0))\<lparr>th_goal := None\<rparr>)),
       record_in (clock 1) (draft_of t None None (GoalEvent False None (Some True)))] w))"

section \<open>To-do lists\<close>

record raw_todo =
  rt_id :: "string option"
  rt_content :: string
  rt_status :: todo_status
  rt_source :: "todo_source option"

definition normalizeTodoSource :: "todo_source \<Rightarrow> todo_source result" where
  "normalizeTodoSource s = (let path = normalizePlanRelativePath (sr_path s) in
     if \<not> isGuiPlanRelativePath path then throw (''invalid GUI plan relative path: '' @ sr_path s)
     else Inr (s\<lparr>sr_path := path\<rparr>))"

text \<open>\<open>sameTodoSource\<close> is equality of optional sources.\<close>

definition findExistingTodoForRaw :: "todo list \<Rightarrow> string list \<Rightarrow> string \<Rightarrow> todo_source option \<Rightarrow> todo option" where
  "findExistingTodoForRaw existing used content source = (
     let candidates = filter (\<lambda>d. td_id d \<notin> set used) existing
     in case source of
          Some s \<Rightarrow> find_by
            [\<lambda>d. td_source d = Some s,
             from_plan (\<lambda>r. sr_plan r = sr_plan s \<and> sr_path r = sr_path s \<and> sr_hash r = sr_hash s),
             from_plan (\<lambda>r. sr_plan r = sr_plan s \<and> sr_path r = sr_path s \<and> sr_ordinal r = sr_ordinal s)] candidates
        | None \<Rightarrow> List.find (\<lambda>d. td_source d = None \<and> todoContentHash (td_content d) = todoContentHash content) candidates)"

text \<open>The loop of \<open>uniqueTodoId\<close>: the candidate, and the next draw from the generator.\<close>

partial_function (option) unique_id :: "(nat \<Rightarrow> string) \<Rightarrow> string list \<Rightarrow> string \<Rightarrow> nat \<Rightarrow> (string \<times> nat) option" where
  "unique_id ids used c n = (if c = [] \<or> c \<in> set used then unique_id ids used (ids n) (Suc n) else Some (c, n))"

declare unique_id.simps [code]

definition requested_id :: "(nat \<Rightarrow> string) \<Rightarrow> string option \<Rightarrow> todo option \<Rightarrow> nat \<Rightarrow> string \<times> nat" where
  "requested_id ids wanted existing n = (case truthy (map_option trim wanted) of
      Some i \<Rightarrow> (i, n)
    | None \<Rightarrow> (case truthy (map_option td_id existing) of Some i \<Rightarrow> (i, n) | None \<Rightarrow> (ids n, Suc n)))"

definition existing_for :: "todo list \<Rightarrow> string list \<Rightarrow> raw_todo \<Rightarrow> string \<Rightarrow> todo_source option \<Rightarrow> todo option" where
  "existing_for existing used raw content source = (
     case (case truthy (map_option trim (rt_id raw)) of
         None \<Rightarrow> None | Some i \<Rightarrow> List.find (\<lambda>d. td_id d = i) (rev existing)) of
       Some d \<Rightarrow> Some d
     | None \<Rightarrow> findExistingTodoForRaw existing used content source)"

definition next_todo :: "string \<Rightarrow> string \<Rightarrow> string \<Rightarrow> todo_status \<Rightarrow> todo_source option \<Rightarrow> todo option \<Rightarrow> todo" where
  "next_todo now i content status source existing = \<lparr>td_id = i, td_content = content, td_status = status,
     td_source = source, td_created = (case existing of None \<Rightarrow> now | Some d \<Rightarrow> td_created d),
     td_updated = (case existing of None \<Rightarrow> now | Some d \<Rightarrow>
        if td_content d \<noteq> content \<or> td_status d \<noteq> status \<or> td_source d \<noteq> source then now else td_updated d)\<rparr>"

fun raw_source :: "todo_source option \<Rightarrow> todo_source option result" where
  "raw_source None = Inr None"
| "raw_source (Some s) = bind_result (normalizeTodoSource s) (\<lambda>r. Inr (Some r))"

text \<open>\<open>None\<close> stands for a loop that does not end.\<close>

fun normalize_todos :: "(nat \<Rightarrow> string) \<Rightarrow> string \<Rightarrow> todo list \<Rightarrow> string list \<Rightarrow> bool \<Rightarrow> nat \<Rightarrow> raw_todo list \<Rightarrow>
    todo list result option" where
  "normalize_todos ids now existing used seen n [] = Some (Inr [])"
| "normalize_todos ids now existing used seen n (raw # raws) = (
     let content = normalizeTodoContent (rt_content raw) in
     if content = [] then Some (throw ''todo content is required'')
     else if rt_status raw = Todo_in_progress \<and> seen then Some (throw ''at most one todo can be in_progress'')
     else case raw_source (rt_source raw) of
         Inl e \<Rightarrow> Some (Inl e)
       | Inr source \<Rightarrow>
           let old = existing_for existing used raw content source;
               (wanted, m) = requested_id ids (rt_id raw) old n
           in Option.bind (unique_id ids used (trim wanted) m) (\<lambda>(i, k).
              map_option (\<lambda>r. bind_result r (\<lambda>ds. Inr (next_todo now i content (rt_status raw) source old # ds)))
                (normalize_todos ids now existing (i # used) (seen \<or> rt_status raw = Todo_in_progress) k raws)))"

definition normalizeTodoItems :: "(nat \<Rightarrow> string) \<Rightarrow> string \<Rightarrow> todo list \<Rightarrow> raw_todo list \<Rightarrow> todo list result option" where
  "normalizeTodoItems ids now existing raws = normalize_todos ids now existing [] False 0 raws"


subsection \<open>Plan files\<close>

type_synonym plan_files = "(string list, string) jsmap"

fun path_segments :: "string \<Rightarrow> string list" where
  "path_segments [] = [[]]"
| "path_segments (c # s) = (if c = CHR ''/'' then [] # path_segments s
     else (case path_segments s of [] \<Rightarrow> [[c]] | p # ps \<Rightarrow> (c # p) # ps))"

text \<open>\<open>resolve\<close> and \<open>relative\<close> of node's \<open>path\<close> on POSIX; an absolute path is the list of its segments.\<close>

fun normal_path :: "string list \<Rightarrow> string list \<Rightarrow> string list" where
  "normal_path st [] = rev st"
| "normal_path st (x # xs) = normal_path (if x = [] \<or> x = ''.'' then st else if x = ''..'' then tl st else x # st) xs"

definition resolve_path :: "string list \<Rightarrow> string \<Rightarrow> string list" where
  "resolve_path base p = normal_path (if starts_with p ''/'' then [] else rev base) (path_segments p)"

fun relative_path :: "string list \<Rightarrow> string list \<Rightarrow> string list" where
  "relative_path (x # xs) (y # ys) = (if x = y then relative_path xs ys else replicate (length (x # xs)) ''..'' @ y # ys)"
| "relative_path xs ys = replicate (length xs) ''..'' @ ys"

definition resolveWorkspaceRelativePath :: "string list \<Rightarrow> string \<Rightarrow> string \<Rightarrow> string list result" where
  "resolveWorkspaceRelativePath cwd workspace p = (
     let root = resolve_path cwd workspace; target = resolve_path root p;
         from_root = join_lines ''/'' (relative_path root target)
     in if from_root = [] \<or> starts_with from_root ''..'' then throw (''plan path escapes workspace: '' @ p) else Inr target)"

definition changed_plan_items :: "todo list \<Rightarrow> todo list \<Rightarrow> todo list" where
  "changed_plan_items old new = filter (\<lambda>d. td_source d \<noteq> None \<and>
     (case List.find (\<lambda>p. td_id p = td_id d) (rev old) of None \<Rightarrow> True | Some p \<Rightarrow> td_status p \<noteq> td_status d)) new"

fun group_plans :: "todo list \<Rightarrow> (string, todo list) jsmap \<Rightarrow> (string, todo list) jsmap result" where
  "group_plans [] m = Inr m"
| "group_plans (d # ds) m = (case td_source d of
      None \<Rightarrow> group_plans ds m
    | Some s \<Rightarrow> let p = normalizePlanRelativePath (sr_path s) in
        if \<not> isGuiPlanRelativePath p then throw (''invalid GUI plan relative path: '' @ sr_path s)
        else group_plans ds (AList.update p (get_or [] m p @ [d]) m))"

fun patch_items :: "todo list \<Rightarrow> string \<Rightarrow> string \<times> bool" where
  "patch_items [] md = (md, False)"
| "patch_items (d # ds) md = (let (md', b) = patchPlanTodoStatus md d; (md'', b') = patch_items ds md' in (md'', b \<or> b'))"

fun patch_plans :: "string list \<Rightarrow> string \<Rightarrow> (string, todo list) jsmap \<Rightarrow> plan_files \<Rightarrow> unit result \<times> plan_files" where
  "patch_plans cwd workspace [] files = (Inr (), files)"
| "patch_plans cwd workspace ((p, ds) # rest) files = (case resolveWorkspaceRelativePath cwd workspace p of
      Inl e \<Rightarrow> (Inl e, files)
    | Inr path \<Rightarrow> (case map_of files path of
          None \<Rightarrow> (throw (''ENOENT: no such file or directory, open '' @ CHR 0x27 # CHR ''/'' # join_lines ''/'' path @ [CHR 0x27]), files)
        | Some md \<Rightarrow> let (md', changed) = patch_items ds md
            in patch_plans cwd workspace rest (if changed then AList.update path md' files else files)))"

definition patchPlanMarkdown :: "string list \<Rightarrow> thread \<Rightarrow> todo list \<Rightarrow> plan_files \<Rightarrow> unit result \<times> plan_files" where
  "patchPlanMarkdown cwd c new files = (
     case group_plans (changed_plan_items (case th_todos c of None \<Rightarrow> [] | Some l \<Rightarrow> tdl_items l) new) [] of
       Inl e \<Rightarrow> (Inl e, files)
     | Inr groups \<Rightarrow> patch_plans cwd (th_workspace c) groups files)"

subsection \<open>Operations on the list\<close>

definition store_todos :: "(nat \<Rightarrow> string) \<Rightarrow> string \<Rightarrow> thread \<Rightarrow> todo_list \<Rightarrow> todo_list handler" where
  "store_todos clock t c l w = answer l (steps
     [perform (put_thread (touchThread (c\<lparr>th_todos := Some l\<rparr>) (Some (clock 0)) (clock 0))), record_todos (clock 1) t l] w)"

definition service_setTodos :: "string list \<Rightarrow> (nat \<Rightarrow> string) \<Rightarrow> (nat \<Rightarrow> string) \<Rightarrow> string \<Rightarrow> raw_todo list \<Rightarrow>
    turn_world \<times> plan_files \<Rightarrow> (todo_list result \<times> turn_world \<times> plan_files) option" where
  "service_setTodos cwd ids clock t raws ws = (case ws of (w, files) \<Rightarrow> (case get_thread t (tv_threads w) of
      None \<Rightarrow> Some (throw (''thread not found: '' @ t), w, files)
    | Some c \<Rightarrow> map_option (\<lambda>r. case r of
          Inl e \<Rightarrow> (Inl e, w, files)
        | Inr ds \<Rightarrow> (case patchPlanMarkdown cwd c ds files of
              (Inl e, files') \<Rightarrow> (Inl e, w, files')
            | (Inr _, files') \<Rightarrow> (case store_todos clock t c \<lparr>tdl_thread = t, tdl_items = ds, tdl_updated = clock 0\<rparr> w of
                  (r, w') \<Rightarrow> (r, w', files'))))
        (normalizeTodoItems ids (clock 0) (case th_todos c of None \<Rightarrow> [] | Some l \<Rightarrow> tdl_items l) raws)))"

definition service_getTodos :: "string \<Rightarrow> turn_world \<Rightarrow> todo_list option result" where
  "service_getTodos t w = (case get_thread t (tv_threads w) of
      None \<Rightarrow> throw (''thread not found: '' @ t) | Some c \<Rightarrow> Inr (th_todos c))"

definition service_clearTodos :: "(nat \<Rightarrow> string) \<Rightarrow> string \<Rightarrow> bool handler" where
  "service_clearTodos clock t = with_thread t (\<lambda>c w. if th_todos c = None then (Inr False, w)
     else answer True (steps [perform (put_thread ((touchThread c (Some (clock 0)) (clock 0))\<lparr>th_todos := None\<rparr>)),
       record_in (clock 1) (draft_of t None None (TodoEvent False None (Some True)))] w))"

definition service_syncTodosFromPlan ::
    "(nat \<Rightarrow> string) \<Rightarrow> string \<Rightarrow> string \<Rightarrow> string \<Rightarrow> string \<Rightarrow> bool option \<Rightarrow> todo_list handler" where
  "service_syncTodosFromPlan clock t plan path md preserve = with_thread t (\<lambda>c w.
     let p = normalizePlanRelativePath path in
     if \<not> isGuiPlanRelativePath p then (throw (''invalid GUI plan relative path: '' @ path), w)
     else store_todos clock t c (mergePlanTodos t (th_todos c) (extractPlanTodos md plan p (clock 0)) (clock 0)
       (or_else preserve True)) w)"

section \<open>Copies of turns\<close>

definition cloneItemForThread :: "string \<Rightarrow> string \<Rightarrow> turn_item \<Rightarrow> turn_item" where
  "cloneItemForThread t now x = (let y = x\<lparr>ti_thread := t\<rparr> in
     if body_open (ti_body y) then y\<lparr>ti_body := settle_body ItemCompleted (ti_body y), ti_finished := Some (or_else (ti_finished y) now)\<rparr>
     else y)"

definition add_once :: "string list \<Rightarrow> string \<Rightarrow> string list" where
  "add_once ids i = (if trim i = [] \<or> trim i \<in> set ids then ids else ids @ [trim i])"

fun attachments_of :: "item_body \<Rightarrow> string list" where
  "attachments_of (UserMessage _ _ _ ids) = or_else ids []"
| "attachments_of _ = []"

definition attachmentIdsFromItems :: "turn_item list \<Rightarrow> string list" where
  "attachmentIdsFromItems xs = foldl add_once [] (concat (map (\<lambda>x. attachments_of (ti_body x)) xs))"

definition in_flight :: "turn \<Rightarrow> bool" where
  "in_flight u \<longleftrightarrow> tr_status u = TurnQueued \<or> tr_status u = TurnRunning"

definition copied_turn :: "string \<Rightarrow> string \<Rightarrow> turn_status \<Rightarrow> turn_item list \<Rightarrow> turn \<Rightarrow> turn" where
  "copied_turn t now status xs u = u\<lparr>tr_thread := t, tr_status := status,
     tr_finished := Some (or_else (tr_finished u) now),
     tr_attachments := (if tr_attachments u \<noteq> [] then tr_attachments u else attachmentIdsFromItems xs), tr_items := xs\<rparr>"

definition cloneTurnForThread :: "string \<Rightarrow> string \<Rightarrow> turn \<Rightarrow> turn" where
  "cloneTurnForThread t now u = copied_turn t now (if in_flight u then TurnDone else tr_status u)
     (repairModelHistoryItems (map (cloneItemForThread t now) (tr_items u))) u"

definition cloneTurnForFork :: "string \<Rightarrow> string \<Rightarrow> thread_relation \<Rightarrow> turn \<Rightarrow> turn" where
  "cloneTurnForFork t now relation u = (if relation = Side_thread \<and> in_flight u
     then copied_turn t now TurnStopped
       (case List.find is_user_message (tr_items u) of None \<Rightarrow> [] | Some x \<Rightarrow> [cloneItemForThread t now x]) u
     else cloneTurnForThread t now u)"

definition cloneTodoListForThread :: "string \<Rightarrow> string \<Rightarrow> todo_list \<Rightarrow> todo_list" where
  "cloneTodoListForThread t now l = \<lparr>tdl_thread = t, tdl_items = tdl_items l, tdl_updated = now\<rparr>"

definition turn_stream :: "turn list \<Rightarrow> turn_item list" where
  "turn_stream us = concat (map tr_items us)"

definition append_items :: "(nat \<Rightarrow> string) \<Rightarrow> string \<Rightarrow> turn_item list \<Rightarrow> turn_world \<Rightarrow> turn_world" where
  "append_items clock t xs w = fold (\<lambda>(n, x). modify_session (appendItem t x (clock n))) (enumerate 2 xs) w"

section \<open>Forks\<close>

definition fork_title :: "thread_relation \<Rightarrow> string option \<Rightarrow> thread \<Rightarrow> string" where
  "fork_title relation title c = trimmed_or title
     (if relation = Side_thread then th_title c @ '' '' @ CHR 0xB7 # '' side'' else th_title c @ '' fork'')"

definition forked_thread :: "string \<Rightarrow> string \<Rightarrow> thread_relation \<Rightarrow> string option \<Rightarrow> thread \<Rightarrow> thread" where
  "forked_thread fork now relation title c = (
     let us = map (cloneTurnForFork fork now relation) (th_turns c) in
     (createThreadRecord (blank_input\<lparr>nt_id := fork, nt_title := fork_title relation title c,
        nt_workspace := th_workspace c, nt_model := th_model c, nt_mode := Some (th_mode c),
        nt_work_mode := Some (th_work_mode c), nt_module := truthy (th_module c), nt_status := Some Thread_idle,
        nt_approval := Some (th_approval c), nt_sandbox := Some (th_sandbox c), nt_relation := Some relation,
        nt_parent := Some (th_id c), nt_origin := Some (th_id c), nt_origin_title := Some (th_title c),
        nt_forked_at := Some now, nt_origin_messages := Some (length (filter is_user_message (turn_stream us))),
        nt_origin_turns := Some (length us), nt_todos := map_option (cloneTodoListForThread fork now) (th_todos c),
        nt_created := Some now\<rparr>) now)\<lparr>th_updated := now, th_turns := us\<rparr>)"

definition announce_thread :: "string \<Rightarrow> thread \<Rightarrow> unit handler" where
  "announce_thread now c = record_in now (draft_of (th_id c) None None (ThreadCreated (Some (th_title c)) None))"

definition service_fork :: "(nat \<Rightarrow> string) \<Rightarrow> string \<Rightarrow> thread_relation option \<Rightarrow> string option \<Rightarrow> string \<Rightarrow> thread handler" where
  "service_fork clock fork relation title t = with_thread t (\<lambda>c w.
     let r = forked_thread fork (clock 0) (or_else relation Fork_thread) title c in
     answer r (steps [perform (append_items clock fork (turn_stream (th_turns r))), perform (put_thread r),
       announce_thread (clock 1) r] w))"

section \<open>Resuming a session\<close>

fun group_turns :: "string \<Rightarrow> string \<Rightarrow> turn_item list \<Rightarrow> (string, turn_item list) jsmap \<Rightarrow> (string, turn_item list) jsmap" where
  "group_turns t fallback [] m = m"
| "group_turns t fallback (x # xs) m = (let turn = (if ti_turn x = [] then fallback else ti_turn x) in
     group_turns t fallback xs (AList.update turn (get_or [] m turn @ [x\<lparr>ti_thread := t\<rparr>]) m))"

definition rebuilt_turn :: "string \<Rightarrow> string \<Rightarrow> string \<Rightarrow> string \<times> turn_item list \<Rightarrow> turn" where
  "rebuilt_turn t prompt now g = \<lparr>tr_id = fst g, tr_thread = t, tr_status = TurnDone,
     tr_prompt = (case List.find is_user_message (snd g) of
         Some x \<Rightarrow> (case ti_body x of UserMessage _ text _ _ \<Rightarrow> text | _ \<Rightarrow> prompt) | None \<Rightarrow> prompt),
     tr_model = None, tr_effort = None, tr_steering = [],
     tr_created = (case snd g of [] \<Rightarrow> now | x # _ \<Rightarrow> ti_created x), tr_started = None, tr_finished = Some now,
     tr_items = snd g, tr_attachments = attachmentIdsFromItems (snd g), tr_work_mode = None, tr_skills = [],
     tr_explicit_skills = [], tr_memories = [], tr_skill_bytes = None, tr_fingerprint = None, tr_tool_count = None,
     tr_drift = None, tr_plan = None, tr_mode = None, tr_error = None\<rparr>"

definition rebuildTurnsFromItems :: "turn_item list \<Rightarrow> string \<Rightarrow> string \<Rightarrow> string \<Rightarrow> string \<Rightarrow> turn list" where
  "rebuildTurnsFromItems xs t fallback prompt now = (case group_turns t fallback xs [] of
      [] \<Rightarrow> [rebuilt_turn t prompt now (fallback, [])]
    | groups \<Rightarrow> map (rebuilt_turn t prompt now) groups)"

record resume_options =
  ro_workspace :: "string option"
  ro_model :: "string option"
  ro_mode :: "thread_mode option"

definition session_items :: "string \<Rightarrow> turn_world \<Rightarrow> turn_item list" where
  "session_items t w = (case get_thread t (tv_threads w) of
      Some c \<Rightarrow> turn_stream (th_turns c)
    | None \<Rightarrow> (case loadSession t (session_of w) of
          Some s \<Rightarrow> if as_items s \<noteq> [] then as_items s else loadItems t (session_of w)
        | None \<Rightarrow> loadItems t (session_of w)))"

definition resumed_turns :: "string \<Rightarrow> string \<Rightarrow> string \<Rightarrow> string \<Rightarrow> turn_world \<Rightarrow> turn list" where
  "resumed_turns session t turn now w = map (cloneTurnForThread t now) (case get_thread session (tv_threads w) of
      Some c \<Rightarrow> th_turns c
    | None \<Rightarrow> rebuildTurnsFromItems (session_items session w) t
        (case loadSession session (session_of w) of Some s \<Rightarrow> as_turn s | None \<Rightarrow> turn)
        (''Resumed session '' @ take 8 session) now)"

definition resumed_thread :: "string \<Rightarrow> string \<Rightarrow> string \<Rightarrow> resume_options \<Rightarrow> turn list \<Rightarrow> thread option \<Rightarrow> thread" where
  "resumed_thread session t now q us source = (createThreadRecord
     (blank_input\<lparr>nt_id := t,
        nt_title := (case source of Some c \<Rightarrow> th_title c | None \<Rightarrow> ''Session '' @ take 8 session) @ '' resumed'',
        nt_workspace := or_else (ro_workspace q) (case source of Some c \<Rightarrow> th_workspace c | None \<Rightarrow> ''~''),
        nt_model := or_else (ro_model q) (case source of Some c \<Rightarrow> th_model c | None \<Rightarrow> ''deepseek-v4-pro''),
        nt_mode := Some (or_else (ro_mode q) (case source of Some c \<Rightarrow> th_mode c | None \<Rightarrow> Agent_mode)),
        nt_work_mode := map_option th_work_mode source, nt_module := truthy (Option.bind source th_module),
        nt_status := Some Thread_idle, nt_approval := map_option th_approval source,
        nt_sandbox := map_option th_sandbox source, nt_origin := map_option th_id source,
        nt_origin_title := map_option th_title source, nt_forked_at := Some now,
        nt_origin_messages := Some (length (filter is_user_message (turn_stream us))),
        nt_origin_turns := Some (length us),
        nt_todos := map_option (cloneTodoListForThread t now) (Option.bind source th_todos),
        nt_created := Some now\<rparr>) now)\<lparr>th_updated := now, th_turns := us\<rparr>"

definition toSessionSnapshot :: "thread \<Rightarrow> string \<Rightarrow> agent_session" where
  "toSessionSnapshot c now = \<lparr>as_thread = th_id c,
     as_turn = (case th_turns c of [] \<Rightarrow> [] | u # _ \<Rightarrow> tr_id u),
     as_started = (case th_turns c of [] \<Rightarrow> th_created c | u # _ \<Rightarrow> tr_created u), as_updated = now,
     as_items = turn_stream (th_turns c), as_events = [], as_closed = True\<rparr>"

definition service_resumeSession ::
    "(nat \<Rightarrow> string) \<Rightarrow> string \<Rightarrow> string \<Rightarrow> string \<Rightarrow> resume_options \<Rightarrow> (thread \<times> nat) handler" where
  "service_resumeSession clock t turn session q w = (
     let source = get_thread session (tv_threads w) in
     if source = None \<and> loadSession session (session_of w) = None \<and> session_items session w = []
     then (throw (''session not found: '' @ session), w)
     else let us = resumed_turns session t turn (clock 0) w; r = resumed_thread session t (clock 0) q us source
       in answer (r, length (turn_stream us)) (steps
         [perform (append_items clock t (turn_stream us)), perform (put_thread r),
          perform (modify_session (upsertSession (toSessionSnapshot r (clock 0)))), announce_thread (clock 1) r] w))"

end
