(* ===== verification/ThreadProps.thy ===== *)
theory ThreadProps
  imports ThreadService
begin

text \<open>
  What the thread service promises: forks and resumed sessions are settled copies that leave the rest of
  the state alone, a to-do list that is set is well formed and setting it ends, and two ways in which
  the service falls short: a plan that is too large, and the owner of a fork.
\<close>

section \<open>Copies\<close>

lemma subseq_members: "subseq xs ys \<Longrightarrow> set xs \<subseteq> set ys"
  by (auto simp: subseq_conv_nths dest: in_set_nthsD)

lemma subseq_distinct: "subseq xs ys \<Longrightarrow> distinct ys \<Longrightarrow> distinct xs"
  by (auto simp: subseq_conv_nths)

lemma clone_item_facts:
  "ti_thread (cloneItemForThread t now x) = t" "ti_id (cloneItemForThread t now x) = ti_id x"
  "ti_turn (cloneItemForThread t now x) = ti_turn x" "\<not> body_open (ti_body (cloneItemForThread t now x))"
  by (simp_all add: cloneItemForThread_def Let_def settle_not_open status_open_def)

lemma repaired_subseq: "subseq (repairModelHistoryItems xs) xs" and repaired_paired: "paired (repairModelHistoryItems xs)"
  using rebuild_sound[of xs] by (simp_all add: rebuild_eq)

definition settled_copy :: "string \<Rightarrow> turn \<Rightarrow> bool" where
  "settled_copy t u \<longleftrightarrow> tr_thread u = t \<and> \<not> in_flight u \<and> tr_finished u \<noteq> None \<and> paired (tr_items u) \<and>
     (\<forall>x \<in> set (tr_items u). ti_thread x = t \<and> \<not> body_open (ti_body x))"

lemma user_not_tool: "is_user_message x \<Longrightarrow> \<not> is_call (cloneItemForThread t now x) \<and> \<not> is_result (cloneItemForThread t now x)"
  by (cases "ti_body x") (auto simp: is_user_message_def is_call_def is_result_def cloneItemForThread_def Let_def)

lemma copied_items:
  "\<forall>x \<in> set (repairModelHistoryItems (map (cloneItemForThread t now) xs)). ti_thread x = t \<and> \<not> body_open (ti_body x)"
  using subseq_members[OF repaired_subseq[of "map (cloneItemForThread t now) xs"]] by (auto simp: clone_item_facts)

lemma clone_turn_settled: "settled_copy t (cloneTurnForThread t now u)"
  using copied_items[of t now "tr_items u"]
  by (auto simp: settled_copy_def cloneTurnForThread_def copied_turn_def in_flight_def repaired_paired)

lemma clone_fork_settled: "settled_copy t (cloneTurnForFork t now relation u)"
proof (cases "relation = Side_thread \<and> in_flight u")
  case True
  show ?thesis
  proof (cases "List.find is_user_message (tr_items u)")
    case (Some x)
    then have "is_user_message x" by (auto simp: find_Some_iff)
    then show ?thesis using True Some user_not_tool[of x t now]
      by (simp add: settled_copy_def cloneTurnForFork_def copied_turn_def in_flight_def clone_item_facts)
  qed (use True in \<open>simp add: settled_copy_def cloneTurnForFork_def copied_turn_def in_flight_def\<close>)
qed (auto simp: cloneTurnForFork_def clone_turn_settled)

lemma subseq_ids: "subseq xs ys \<Longrightarrow> subseq (item_ids xs) (item_ids ys)"
  by (simp add: item_ids_def subseq_map)

lemma clone_ids: "item_ids (map (cloneItemForThread t now) xs) = item_ids xs"
  by (simp add: item_ids_def clone_item_facts comp_def)

lemma clone_turn_ids: "subseq (item_ids (tr_items (cloneTurnForThread t now u))) (item_ids (tr_items u))"
  using subseq_ids[OF repaired_subseq[of "map (cloneItemForThread t now) (tr_items u)"]]
  by (simp add: cloneTurnForThread_def copied_turn_def clone_ids)

lemma clone_fork_ids: "subseq (item_ids (tr_items (cloneTurnForFork t now relation u))) (item_ids (tr_items u))"
proof -
  have "ti_id x \<in> set (item_ids xs)" if "List.find P xs = Some x" for P x and xs :: "turn_item list"
    using that by (auto simp: find_Some_iff item_ids_def)
  then show ?thesis
    by (auto simp: cloneTurnForFork_def copied_turn_def clone_turn_ids item_ids_def[of "[_]"] item_ids_def[of "[]"]
        clone_item_facts subseq_singleton_left split: option.split)
qed

lemma concat_subseq: "(\<And>u. subseq (f u) (g u)) \<Longrightarrow> subseq (concat (map f us)) (concat (map g us))"
  by (induction us) (simp_all add: list_emb_append_mono)

lemma stream_ids: "item_ids (turn_stream us) = concat (map (\<lambda>u. item_ids (tr_items u)) us)"
  by (simp add: turn_stream_def item_ids_def map_concat comp_def)

lemma stream_distinct:
  assumes "\<And>u. subseq (item_ids (tr_items (f u))) (item_ids (tr_items u))" and "distinct (item_ids (turn_stream us))"
  shows "distinct (item_ids (turn_stream (map f us)))"
proof -
  have "subseq (item_ids (turn_stream (map f us))) (item_ids (turn_stream us))"
    unfolding stream_ids map_map comp_def by (rule concat_subseq) (rule assms(1))
  then show ?thesis using assms(2) by (rule subseq_distinct)
qed

lemma append_items_threads [simp]: "tv_threads (append_items clock t xs w) = tv_threads w"
proof -
  have "tv_threads (fold (\<lambda>(n, x). modify_session (appendItem t x (clock n))) nxs w) = tv_threads w" for nxs
    by (induction nxs arbitrary: w) auto
  then show ?thesis by (simp add: append_items_def)
qed

lemma append_items_other: "u \<noteq> t \<Longrightarrow> items_of (session_of (append_items clock t xs w)) u = items_of (session_of w) u"
proof -
  assume u: "u \<noteq> t"
  have "items_of (session_of (fold (\<lambda>(n, x). modify_session (appendItem t x (clock n))) nxs w)) u = items_of (session_of w) u" for nxs
    by (induction nxs arbitrary: w) (auto simp: items_of_appendItem u)
  then show ?thesis by (simp add: append_items_def)
qed

lemma append_items_stream:
  assumes "distinct (item_ids (items_of (session_of w) t @ xs))"
  shows "items_of (session_of (append_items clock t xs w)) t = items_of (session_of w) t @ xs"
proof -
  have "items_of (session_of (fold (\<lambda>(n, x). modify_session (appendItem t x (clock n))) (enumerate k xs) w)) t
      = items_of (session_of w) t @ xs" for k
    using assms
  proof (induction xs arbitrary: w k)
    case (Cons x xs)
    have new: "place_item x (items_of (session_of w) t) = items_of (session_of w) t @ [x]"
    proof -
      have "\<forall>y \<in> set (items_of (session_of w) t). ti_id y \<noteq> ti_id x"
        using Cons.prems by (auto simp: item_ids_def image_iff)
      then show ?thesis by (auto simp: place_item_def)
    qed
    have "distinct (item_ids (items_of (session_of (modify_session (appendItem t x (clock k)) w)) t @ xs))"
      using Cons.prems by (simp add: items_of_appendItem new item_ids_def)
    from Cons.IH[OF this, of "Suc k"] show ?case by (simp add: items_of_appendItem new)
  qed simp
  then show ?thesis by (simp add: append_items_def)
qed

lemma put_thread_fields [simp]:
  "get_thread i (tv_threads (put_thread c w)) = (if i = th_id c then Some c else get_thread i (tv_threads w))"
  "session_of (put_thread c w) = session_of w"
  by (simp_all add: put_thread_def session_of_def)

lemma announce_last:
  assumes "th_id c \<noteq> []"
  shows "steps [announce_thread now c] w = (Inr (), recorded now (draft_of (th_id c) None None (ThreadCreated (Some (th_title c)) None)) w)"
proof -
  have "draft_ok (draft_of (th_id c) None None (ThreadCreated (Some (th_title c)) None))" using assms by simp
  from record_event_ok[OF this, of now "tv_recorder w"] show ?thesis
    by (auto simp: announce_thread_def steps_record)
qed




text \<open>
  The owner is lost: whoever owns a thread, its fork has no owner, so no user can look the fork up as
  its owner.
\<close>

theorem fork_loses_owner:
  assumes "get_thread t (tv_threads w) = Some c" and "fork \<noteq> []"
  shows "getForOwner fork owner (snd (service_fork clock fork relation title t w)) = None"
proof -
  let ?r = "forked_thread fork (clock 0) (or_else relation Fork_thread) title c"
  have id: "th_id ?r = fork" "th_owner ?r = None"
    by (simp_all add: forked_thread_def Let_def createThreadRecord_def blank_input_def)
  show ?thesis
    using assms announce_last[of ?r "clock 1" "put_thread ?r (append_items clock fork (turn_stream (th_turns ?r)) w)"] id
    by (simp add: service_fork_def with_thread_def answer_def getForOwner_def Let_def)
qed

theorem fork_loses_owner_witness:
  "getForOwner ''f'' ''u'' (snd (service_fork (\<lambda>_. ''1'') ''f'' None None ''t'' (sample_world []))) = None"
  by (rule fork_loses_owner[OF sample_world_get]) simp

lemma resumed_fields:
  "th_id (resumed_thread session t now q us source) = t" "th_turns (resumed_thread session t now q us source) = us"
  by (simp_all add: resumed_thread_def createThreadRecord_def Let_def blank_input_def)

text \<open>
  Resuming a session that is a thread gives a settled copy of it too, with a closed session
  record that holds the items of the copy.
\<close>

theorem resume_is_settled_copy:
  assumes "get_thread s (tv_threads w) = Some c" and "t \<noteq> []" and "items_of (session_of w) t = []"
    and "distinct (item_ids (turn_stream (th_turns c)))"
  shows "\<exists>r n w'. service_resumeSession clock t turn s q w = (Inr (r, n), w') \<and> get_thread t (tv_threads w') = Some r \<and>
    n = length (turn_stream (th_turns r)) \<and> items_of (session_of w') t = turn_stream (th_turns r) \<and>
    (\<forall>u \<in> set (th_turns r). settled_copy t u) \<and>
    (\<forall>i. i \<noteq> t \<longrightarrow> get_thread i (tv_threads w') = get_thread i (tv_threads w))"
proof -
  define us where "us = map (cloneTurnForThread t (clock 0)) (th_turns c)"
  define r where "r = resumed_thread s t (clock 0) q us (Some c)"
  define v where "v = append_items clock t (turn_stream us) w"
  define v2 where "v2 = modify_session (upsertSession (toSessionSnapshot r (clock 0))) (put_thread r v)"
  define w' where "w' = recorded (clock 1) (draft_of (th_id r) None None (ThreadCreated (Some (th_title r)) None)) v2"
  have us: "resumed_turns s t turn (clock 0) w = us" using assms(1) by (simp add: resumed_turns_def us_def)
  have r: "th_id r = t" "th_turns r = us" by (simp_all add: r_def resumed_fields)
  have run: "service_resumeSession clock t turn s q w = (Inr (r, length (turn_stream us)), w')"
    using assms(1,2) announce_last[of r "clock 1" v2] r(1)
    by (simp add: service_resumeSession_def us r_def[symmetric] v_def[symmetric] v2_def[symmetric] w'_def answer_def Let_def)
  have d: "distinct (item_ids (items_of (session_of w) t @ turn_stream us))"
    using stream_distinct[OF clone_turn_ids assms(4)] assms(3) by (simp add: us_def)
  have stream: "items_of (session_of v) t = turn_stream us"
    using append_items_stream[OF d] assms(3) by (simp add: v_def)
  have "items_of (upsertSession (toSessionSnapshot r (clock 0)) (session_of v)) t = turn_stream us"
    using stream r by (auto simp: upsertSession_def items_of_def get_or_def set_if_absent_def toSessionSnapshot_def split: option.splits)
  then have "items_of (session_of w') t = turn_stream us" by (simp add: w'_def v2_def)
  moreover have "settled_copy t u" if "u \<in> set us" for u
    using that clone_turn_settled by (auto simp: us_def)
  ultimately show ?thesis
    using run r by (intro exI[of _ r] exI[of _ "length (turn_stream us)"] exI[of _ w']) (simp add: w'_def v2_def v_def)
qed

theorem resume_is_settled_copy_witness:
  "\<exists>r n w'. service_resumeSession (\<lambda>_. ''1'') ''f'' ''u'' ''t'' \<lparr>ro_workspace = None, ro_model = None, ro_mode = None\<rparr>
      (sample_world [sample_turn]) = (Inr (r, n), w') \<and> (\<forall>u \<in> set (th_turns r). settled_copy ''f'' u)"
proof -
  have "items_of (session_of (sample_world [sample_turn])) ''f'' = []"
    by (simp add: sample_world_def session_of_def items_of_def get_or_def empty_session_store_def)
  moreover have "distinct (item_ids (turn_stream (th_turns (sample_thread\<lparr>th_turns := [sample_turn]\<rparr>))))"
    by (simp add: turn_stream_def item_ids_def sample_turn_def appendTurnItem_def createTurnRecord_def Let_def place_item_def)
  ultimately show ?thesis
    using resume_is_settled_copy[OF sample_world_get, of "''f''" "[sample_turn]"] by blast
qed


section \<open>To-do lists\<close>

lemma unique_id_fresh: "unique_id ids used c n = Some ik \<Longrightarrow> fst ik \<noteq> [] \<and> fst ik \<notin> set used"
  by (rule unique_id.raw_induct[where P = "\<lambda>ids used c n ik. fst ik \<noteq> [] \<and> fst ik \<notin> set used"])
    (auto split: if_splits)

lemma unique_id_ends_at:
  assumes "n \<le> m" and "ids m \<noteq> []" and "ids m \<notin> set used"
  shows "unique_id ids used c n \<noteq> None"
  using assms(1)
proof (induction "m - n" arbitrary: c n)
  case 0
  then have n: "n = m" by simp
  have "unique_id ids used (ids m) (Suc n) = Some (ids m, Suc n)" by (subst unique_id.simps) (simp add: assms)
  then show ?case using n by (subst unique_id.simps) simp
next
  case (Suc d)
  then have "unique_id ids used (ids n) (Suc n) \<noteq> None" by simp
  then show ?case by (subst unique_id.simps) simp
qed

lemma unique_id_ends:
  assumes "inj ids" and "\<And>n. ids n \<noteq> []"
  shows "unique_id ids used c n \<noteq> None"
proof -
  have "infinite (ids ` {n..})" using assms(1) by (simp add: finite_image_iff inj_on_subset infinite_Ici)
  then have "\<not> ids ` {n..} \<subseteq> set used" using finite_subset by blast
  then obtain m where "n \<le> m" "ids m \<notin> set used" by auto
  then show ?thesis using unique_id_ends_at assms(2) by blast
qed

lemma bind_not_None: "m \<noteq> None \<Longrightarrow> (\<And>x. f x \<noteq> None) \<Longrightarrow> Option.bind m f \<noteq> None"
  by (cases m) auto

lemma normalize_todos_ends:
  assumes "inj ids" and "\<And>n. ids n \<noteq> []"
  shows "normalize_todos ids now existing used seen n raws \<noteq> None"
proof (induction raws arbitrary: used seen n)
  case (Cons raw raws)
  show ?case
    by (auto simp: Let_def Cons.IH[simplified] simp del: not_None_eq split: sum.split prod.split
        intro!: bind_not_None[OF unique_id_ends[OF assms]])
qed simp

lemma gui_normal: "raw_source src = Inr (Some s) \<Longrightarrow> isGuiPlanRelativePath (sr_path s)"
  by (cases src) (auto simp: normalizeTodoSource_def Let_def result_simps split: if_splits)

definition todo_well :: "todo \<Rightarrow> bool" where
  "todo_well d \<longleftrightarrow> td_id d \<noteq> [] \<and> td_content d \<noteq> [] \<and> normalizeTodoContent (td_content d) = td_content d \<and>
     (case td_source d of None \<Rightarrow> True | Some s \<Rightarrow> isGuiPlanRelativePath (sr_path s))"

lemma next_todo_well:
  assumes "i \<noteq> []" and "normalizeTodoContent c \<noteq> []" and "raw_source src = Inr source"
  shows "todo_well (next_todo now i (normalizeTodoContent c) status source old)"
  using assms gui_normal[of src] by (auto simp: todo_well_def next_todo_def normalize_idem split: option.split)

lemma normalize_todos_step:
  assumes "normalize_todos ids now existing used seen n (raw # raws) = Some (Inr ds)"
  obtains i k source old ds' where "ds = next_todo now i (normalizeTodoContent (rt_content raw)) (rt_status raw) source old # ds'"
    and "i \<noteq> []" and "i \<notin> set used" and "normalizeTodoContent (rt_content raw) \<noteq> []"
    and "raw_source (rt_source raw) = Inr source" and "\<not> (rt_status raw = Todo_in_progress \<and> seen)"
    and "normalize_todos ids now existing (i # used) (seen \<or> rt_status raw = Todo_in_progress) k raws = Some (Inr ds')"
proof -
  obtain source where src: "raw_source (rt_source raw) = Inr source"
    and c: "normalizeTodoContent (rt_content raw) \<noteq> []" "\<not> (rt_status raw = Todo_in_progress \<and> seen)"
    using assms by (auto simp: Let_def throw_def split: if_splits sum.splits)
  define old where "old = existing_for existing used raw (normalizeTodoContent (rt_content raw)) source"
  obtain wanted m where req: "requested_id ids (rt_id raw) old n = (wanted, m)" by fastforce
  obtain i k where u: "unique_id ids used (trim wanted) m = Some (i, k)"
    and r: "map_option (\<lambda>r. bind_result r (\<lambda>ds. Inr (next_todo now i (normalizeTodoContent (rt_content raw)) (rt_status raw) source old # ds)))
       (normalize_todos ids now existing (i # used) (seen \<or> rt_status raw = Todo_in_progress) k raws) = Some (Inr ds)"
    using assms src c req by (auto simp: Let_def old_def split: if_splits sum.splits bind_splits)
  obtain ds' where d: "ds = next_todo now i (normalizeTodoContent (rt_content raw)) (rt_status raw) source old # ds'"
    "normalize_todos ids now existing (i # used) (seen \<or> rt_status raw = Todo_in_progress) k raws = Some (Inr ds')"
    using r by (auto simp: result_simps)
  show ?thesis
    by (rule that[OF d(1) _ _ c(1) src c(2) d(2)]) (use unique_id_fresh[OF u] in auto)
qed

lemma normalize_todos_well:
  assumes "normalize_todos ids now existing used seen n raws = Some (Inr ds)"
  shows "list_all todo_well ds \<and> distinct (map td_id ds) \<and> set (map td_id ds) \<inter> set used = {} \<and>
    length (filter (\<lambda>d. td_status d = Todo_in_progress) ds) \<le> (if seen then 0 else 1) \<and>
    map td_status ds = map rt_status raws"
  using assms
proof (induction raws arbitrary: used seen n ds)
  case (Cons raw raws)
  show ?case
  proof (rule normalize_todos_step[OF Cons.prems])
    fix i k source old ds'
    assume a: "ds = next_todo now i (normalizeTodoContent (rt_content raw)) (rt_status raw) source old # ds'"
      "i \<noteq> []" "i \<notin> set used" "normalizeTodoContent (rt_content raw) \<noteq> []" "raw_source (rt_source raw) = Inr source"
      "\<not> (rt_status raw = Todo_in_progress \<and> seen)"
      "normalize_todos ids now existing (i # used) (seen \<or> rt_status raw = Todo_in_progress) k raws = Some (Inr ds')"
    from Cons.IH[OF a(7)] a(1-6) next_todo_well[OF a(2,4,5), of now "rt_status raw" old]
    show ?thesis by (auto simp: next_todo_def split: if_splits)
  qed
qed simp


lemma store_todos_thread: "get_thread (th_id c) (tv_threads (snd (store_todos clock t c l w))) =
    Some (touchThread (c\<lparr>th_todos := Some l\<rparr>) (Some (clock 0)) (clock 0))"
proof -
  have "tv_threads (snd (steps [record_todos now t l] v)) = tv_threads v" for now v
    by (simp add: record_todos_def record_checked_def steps.simps record_in_def case_prod_beta Let_def split: sum.split)
  then show ?thesis by (simp add: store_todos_def answer_def put_thread_def touchThread_def)
qed

lemma record_todos_ok:
  assumes "todo_list_ok l" and "t \<noteq> []"
  shows "fst (steps [record_todos now t l] v) = Inr ()"
proof -
  have "draft_ok (draft_of t None None (TodoEvent True (Some (todo_list_json l)) None))" using assms(2) by simp
  from record_event_ok[OF this, of now "tv_recorder v"] show ?thesis
    using assms(1) by (auto simp: record_todos_def record_checked_def steps.simps record_in_def case_prod_beta Let_def)
qed

definition todos_well :: "todo_list \<Rightarrow> bool" where
  "todos_well l \<longleftrightarrow> list_all todo_well (tdl_items l) \<and> distinct (map td_id (tdl_items l)) \<and>
     length (filter (\<lambda>d. td_status d = Todo_in_progress) (tdl_items l)) \<le> 1"

text \<open>
  C25. A list that was set is well formed and is what the thread holds: ids are there and distinct,
  contents are there and normal, sources point into a plan directory, one entry at most is in progress,
  and the entries have the requested states in the requested order.
\<close>

theorem set_todos_well_formed:
  assumes "service_setTodos cwd ids clock t raws (w, files) = Some (Inr l, w', files')"
    and "get_thread t (tv_threads w) = Some c" and "th_id c = t"
  shows "todos_well l \<and> map td_status (tdl_items l) = map rt_status raws \<and>
    map_option th_todos (get_thread t (tv_threads w')) = Some (Some l)"
proof -
  define old where "old = (case th_todos c of None \<Rightarrow> [] | Some l \<Rightarrow> tdl_items l)"
  obtain r where n: "normalize_todos ids (clock 0) old [] False 0 raws = Some r"
    using assms(1,2) by (auto simp: service_setTodos_def normalizeTodoItems_def old_def)
  then obtain ds where ds: "normalize_todos ids (clock 0) old [] False 0 raws = Some (Inr ds)"
    and st: "l = \<lparr>tdl_thread = t, tdl_items = ds, tdl_updated = clock 0\<rparr>" "w' = snd (store_todos clock t c l w)"
    using assms(1,2)
    by (auto simp: service_setTodos_def normalizeTodoItems_def old_def[symmetric] store_todos_def answer_def result_simps
        split: sum.splits prod.splits)
  from normalize_todos_well[OF ds] store_todos_thread[of c clock t l w] st(2)
  show ?thesis by (simp add: todos_well_def st(1) assms(3) touchThread_def)
qed

text \<open>
  C26. Setting a list ends: with a generator that repeats no id and gives no empty one, the loop that
  looks for an unused id ends for every list, whatever ids the caller asks for.
\<close>

theorem set_todos_returns:
  assumes "inj ids" and "\<And>n. ids n \<noteq> []"
  shows "\<exists>r ws'. service_setTodos cwd ids clock t raws ws = Some (r, ws')"
proof -
  have "normalizeTodoItems ids (clock 0) old raws \<noteq> None" for old
    unfolding normalizeTodoItems_def by (rule normalize_todos_ends[OF assms])
  then have "service_setTodos cwd ids clock t raws ws \<noteq> None"
    by (simp add: service_setTodos_def del: not_None_eq split: prod.split option.split)
  then show ?thesis by auto
qed

definition sample_raws :: "raw_todo list" where
  "sample_raws = [\<lparr>rt_id = Some ''a'', rt_content = ''one'', rt_status = Todo_in_progress, rt_source = None\<rparr>,
     \<lparr>rt_id = Some ''a'', rt_content = ''two'', rt_status = Todo_pending, rt_source = None\<rparr>]"

definition sample_ids :: "nat \<Rightarrow> string" where
  "sample_ids n = replicate n (CHR ''x'') @ ''a''"

theorem set_todos_returns_witness:
  "\<exists>r ws'. service_setTodos [] sample_ids (\<lambda>_. ''1'') ''t'' sample_raws (sample_world [], []) = Some (r, ws')"
proof (rule set_todos_returns)
  show "inj sample_ids"
  proof (rule injI)
    fix m n assume "sample_ids m = sample_ids n"
    then have "length (sample_ids m) = length (sample_ids n)" by simp
    then show "m = n" by (simp add: sample_ids_def)
  qed
qed (simp add: sample_ids_def)

lemma sample_set: "\<exists>l w' files'. service_setTodos [] sample_ids (\<lambda>_. ''1'') ''t'' sample_raws (sample_world [], []) = Some (Inr l, w', files')"
proof -
  have u: "unique_id sample_ids [''a''] ''a'' 0 = Some (''xa'', 2)"
    by (subst unique_id.simps, subst unique_id.simps, subst unique_id.simps) (simp add: sample_ids_def numeral_2_eq_2)
  have v: "unique_id sample_ids [] ''a'' 0 = Some (''a'', 0)"
    by (subst unique_id.simps) simp
  have n: "normalizeTodoContent ''one'' = ''one''" "normalizeTodoContent ''two'' = ''two''" by code_simp+
  have "trim ''a'' = ''a''" by code_simp
  then have "normalizeTodoItems sample_ids ''1'' [] sample_raws = Some (Inr
      [next_todo ''1'' ''a'' ''one'' Todo_in_progress None None, next_todo ''1'' ''xa'' ''two'' Todo_pending None None])"
    by (simp add: normalizeTodoItems_def sample_raws_def n requested_id_def existing_for_def findExistingTodoForRaw_def Let_def u v)
  moreover have "patchPlanMarkdown [] (sample_thread\<lparr>th_turns := []\<rparr>)
      [next_todo ''1'' ''a'' ''one'' Todo_in_progress None None, next_todo ''1'' ''xa'' ''two'' Todo_pending None None] [] = (Inr (), [])"
    by (simp add: patchPlanMarkdown_def changed_plan_items_def next_todo_def)
  moreover have "th_todos (sample_thread\<lparr>th_turns := []\<rparr>) = None" by (simp add: sample_thread_def)
  moreover have "\<exists>l. fst (store_todos (\<lambda>_. ''1'') ''t'' (sample_thread\<lparr>th_turns := []\<rparr>) \<lparr>tdl_thread = ''t'',
      tdl_items = [next_todo ''1'' ''a'' ''one'' Todo_in_progress None None, next_todo ''1'' ''xa'' ''two'' Todo_pending None None],
      tdl_updated = ''1''\<rparr> (sample_world [])) = Inr l"
  proof -
    have "trim ''one'' = ''one''" "trim ''two'' = ''two''" by code_simp+
    then have ok: "todo_list_ok \<lparr>tdl_thread = ''t'',
      tdl_items = [next_todo ''1'' ''a'' ''one'' Todo_in_progress None None, next_todo ''1'' ''xa'' ''two'' Todo_pending None None],
      tdl_updated = ''1''\<rparr>" by (simp add: todo_list_ok_def todo_ok_def next_todo_def)
    show ?thesis by (simp add: store_todos_def answer_def record_todos_ok[OF ok])
  qed
  ultimately show ?thesis
    by (auto simp: service_setTodos_def sample_world_get split: prod.split)
qed

theorem set_todos_well_formed_witness: "\<exists>l. todos_well l \<and> map td_status (tdl_items l) = [Todo_in_progress, Todo_pending]"
proof -
  obtain l w' files' where r: "service_setTodos [] sample_ids (\<lambda>_. ''1'') ''t'' sample_raws (sample_world [], []) = Some (Inr l, w', files')"
    using sample_set by blast
  from set_todos_well_formed[OF r sample_world_get] show ?thesis
    by (intro exI[of _ l]) (simp add: sample_thread_def sample_raws_def)
qed


section \<open>Plan files\<close>

lemma join_dots: "starts_with (join_lines e (''..'' # xs)) ''..''"
  by (cases xs) simp_all

lemma relative_to_nothing: "\<not> starts_with (join_lines ''/'' (replicate (length xs) ''..'')) ''..'' \<Longrightarrow> xs = []"
proof (cases xs)
  case (Cons a as)
  then show "\<not> starts_with (join_lines ''/'' (replicate (length xs) ''..'')) ''..'' \<Longrightarrow> xs = []"
    using join_dots[of "''/''" "replicate (length as) ''..''"] by simp
qed simp

lemma relative_inside:
  "\<not> starts_with (join_lines ''/'' (relative_path base target)) ''..'' \<Longrightarrow> prefix base target"
proof (induction base target rule: relative_path.induct)
  case (1 x xs y ys)
  then show ?case using join_dots[of "''/''" "replicate (length xs) ''..'' @ y # ys"] by (auto split: if_splits)
qed (auto dest: relative_to_nothing)

lemma relative_self: "relative_path xs xs = []"
  by (induction xs) auto

lemma workspace_path:
  assumes "resolveWorkspaceRelativePath cwd workspace p = Inr path"
  shows "strict_prefix (resolve_path cwd workspace) path"
  using assms relative_inside[of "resolve_path cwd workspace" path] relative_self[of path]
  by (auto simp: resolveWorkspaceRelativePath_def Let_def strict_prefix_def split: if_splits)

lemma patch_plans_inside:
  assumes "map_of (snd (patch_plans cwd workspace groups files)) path \<noteq> map_of files path"
  shows "strict_prefix (resolve_path cwd workspace) path \<and> map_of files path \<noteq> None"
  using assms
proof (induction cwd workspace groups files rule: patch_plans.induct)
  case (2 cwd workspace p ds rest files)
  show ?case
  proof (cases "resolveWorkspaceRelativePath cwd workspace p")
    case (Inr q)
    show ?thesis
    proof (cases "map_of files q")
      case (Some md)
      obtain md' b where pi: "patch_items ds md = (md', b)" by fastforce
      define fs where "fs = (if b then AList.update q md' files else files)"
      have run: "snd (patch_plans cwd workspace ((p, ds) # rest) files) = snd (patch_plans cwd workspace rest fs)"
        using Inr Some pi by (simp add: fs_def)
      show ?thesis
      proof (cases "map_of fs path = map_of files path")
        case True
        have "strict_prefix (resolve_path cwd workspace) path \<and> map_of fs path \<noteq> None"
          using "2.IH"[OF Inr Some pi[symmetric]] True "2.prems" run by (simp add: fs_def[symmetric])
        then show ?thesis using True by simp
      next
        case False
        then have "path = q" by (auto simp: fs_def split: if_splits)
        then show ?thesis using workspace_path[OF Inr] Some by simp
      qed
    qed (use 2 Inr in simp)
  qed (use 2 in simp)
qed simp


text \<open>
  A plan that is too large is stored and not announced: syncing a list that the schema of the event
  refuses, one of more than 200 entries for example, throws, and leaves a thread that holds that list.
\<close>

theorem oversized_plan_stored:
  fixes clock :: "nat \<Rightarrow> string" and md plan path :: string
  assumes "get_thread t (tv_threads w) = Some c" and "th_id c = t"
    and "isGuiPlanRelativePath (normalizePlanRelativePath path)"
  defines "l \<equiv> mergePlanTodos t (th_todos c) (extractPlanTodos md plan (normalizePlanRelativePath path) (clock 0)) (clock 0) True"
  assumes "200 < length (extractPlanTodos md plan (normalizePlanRelativePath path) (clock 0))"
  shows "fst (service_syncTodosFromPlan clock t plan path md None w) = Inl ZodError \<and>
    map_option th_todos (get_thread t (tv_threads (snd (service_syncTodosFromPlan clock t plan path md None w)))) = Some (Some l) \<and>
    \<not> todo_list_ok l"
proof -
  have len: "length (fst (merge_plan b now old used ps)) = length ps" for b now old used ps
    by (induction ps arbitrary: used) (simp_all add: Let_def case_prod_beta)
  then have "200 < length (tdl_items l)"
    using assms(5) by (simp add: l_def mergePlanTodos_def Let_def case_prod_beta trans_less_add1)
  then have bad: "\<not> todo_list_ok l" by (simp add: todo_list_ok_def)
  have run: "service_syncTodosFromPlan clock t plan path md None w = store_todos clock t c l w"
    using assms(1,3) by (simp add: service_syncTodosFromPlan_def with_thread_def l_def Let_def or_else_def)
  have "fst (steps [record_todos now t l] v) = Inl ZodError" for now v
    using bad by (simp add: record_todos_def record_checked_def steps.simps)
  then have "fst (store_todos clock t c l w) = Inl ZodError" by (simp add: store_todos_def answer_def)
  then show ?thesis using bad run store_todos_thread[of c clock t l w] assms(2) by (simp add: touchThread_def)
qed


definition sample_plan_source :: todo_source where
  "sample_plan_source = \<lparr>sr_plan = ''p'', sr_path = ''.qiongqisdd/plan/a.md'', sr_ordinal = 0, sr_hash = todoContentHash ''one''\<rparr>"

lemma sample_path_ok: "isGuiPlanRelativePath ''.qiongqisdd/plan/a.md'' \<and>
    normalizePlanRelativePath ''.qiongqisdd/plan/a.md'' = ''.qiongqisdd/plan/a.md''"
  by code_simp

lemma sample_task: "lf \<notin> set ''- [ ] a'' \<and> match_task ''- [ ] a'' \<noteq> None \<and>
    (case match_task ''- [ ] a'' of None \<Rightarrow> False | Some (g1, m, g3, g4) \<Rightarrow> normalizeTodoContent g4 \<noteq> [])"
  by code_simp

lemma extract_repeated:
  "length (extract_lines plan path now n (replicate k ''- [ ] a'' @ ls)) = k + length (extract_lines plan path now (n + k) ls)"
proof (induction k arbitrary: n)
  case (Suc k)
  obtain g1 m g3 g4 where "match_task ''- [ ] a'' = Some (g1, m, g3, g4)" "normalizeTodoContent g4 \<noteq> []"
    using sample_task by (auto split: option.splits prod.splits)
  then show ?case using Suc[of "Suc n"] by simp
qed simp

lemma split_repeated: "split_lines (concat (replicate k (''- [ ] a'' @ [lf]))) = replicate k ''- [ ] a'' @ [[]]"
  by (induction k) (simp_all add: split_at_lf[of "''- [ ] a''", simplified])

theorem oversized_plan_stored_witness:
  "fst (service_syncTodosFromPlan (\<lambda>_. ''1'') ''t'' ''p'' ''.qiongqisdd/plan/a.md''
     (concat (replicate 201 (''- [ ] a'' @ [lf]))) None (sample_world [])) = Inl ZodError"
proof -
  have "200 < length (extractPlanTodos (concat (replicate 201 (''- [ ] a'' @ [lf]))) ''p'' ''.qiongqisdd/plan/a.md'' ''1'')"
    unfolding extractPlanTodos_def split_repeated extract_repeated by simp
  then show ?thesis
    using oversized_plan_stored[OF sample_world_get, of "[]" "''.qiongqisdd/plan/a.md''" "concat (replicate 201 (''- [ ] a'' @ [lf]))" "''p''" "\<lambda>_. ''1''"]
      sample_path_ok by (simp add: sample_thread_def)
qed

definition sample_plan_raw :: "raw_todo list" where
  "sample_plan_raw = [\<lparr>rt_id = Some ''a'', rt_content = ''one'', rt_status = Todo_completed, rt_source = Some sample_plan_source\<rparr>]"

definition sample_plans :: plan_files where
  "sample_plans = [([''w'', ''.qiongqisdd'', ''plan'', ''a.md''], ''- [ ] one'')]"


lemma sample_patched: "patchPlanMarkdown [] sample_thread
     [next_todo ''1'' ''a'' ''one'' Todo_completed (Some sample_plan_source) None] sample_plans =
   (Inr (), [([''w'', ''.qiongqisdd'', ''plan'', ''a.md''], ''- [x] one'')])"
proof -
  have lines: "split_lines ''- [ ] one'' = [''- [ ] one'']" "match_task ''- [ ] one'' = Some (''- ['', CHR '' '', ''] '', ''one'')"
    "js_lower_char (CHR '' '') = CHR '' ''" by code_simp+
  have "patchPlanTodoStatus ''- [ ] one'' (next_todo ''1'' ''a'' ''one'' Todo_completed (Some sample_plan_source) None) = (''- [x] one'', True)"
    by (simp add: patchPlanTodoStatus_def next_todo_def sample_plan_source_def task_target_def task_hash_def lines Let_def
        del: split_lines.simps cong del: option.case_cong_weak)
  moreover have "resolveWorkspaceRelativePath [] ''w'' ''.qiongqisdd/plan/a.md'' = Inr [''w'', ''.qiongqisdd'', ''plan'', ''a.md'']"
    by code_simp
  ultimately show ?thesis
    using sample_path_ok
    by (simp add: patchPlanMarkdown_def changed_plan_items_def next_todo_def sample_plan_source_def get_or_def
        sample_thread_def sample_plans_def Let_def cong del: sum.case_cong_weak)
qed

lemma sample_sync: "\<exists>r w'. service_setTodos [] sample_ids (\<lambda>_. ''1'') ''t'' sample_plan_raw (sample_world [], sample_plans) =
    Some (r, w', [([''w'', ''.qiongqisdd'', ''plan'', ''a.md''], ''- [x] one'')])"
proof -
  have v: "unique_id sample_ids [] ''a'' 0 = Some (''a'', 0)"
    by (subst unique_id.simps) simp
  have n: "normalizeTodoContent ''one'' = ''one''" "trim ''a'' = ''a''" by code_simp+
  have "raw_source (Some sample_plan_source) = Inr (Some sample_plan_source)"
    using sample_path_ok by (simp add: normalizeTodoSource_def sample_plan_source_def)
  then have "normalizeTodoItems sample_ids ''1'' [] sample_plan_raw =
      Some (Inr [next_todo ''1'' ''a'' ''one'' Todo_completed (Some sample_plan_source) None])"
    by (simp add: normalizeTodoItems_def sample_plan_raw_def n requested_id_def existing_for_def
        findExistingTodoForRaw_def find_by.simps Let_def v)
  moreover have "sample_thread\<lparr>th_turns := []\<rparr> = sample_thread" "th_todos sample_thread = None" by (simp_all add: sample_thread_def)
  ultimately show ?thesis
    by (simp add: service_setTodos_def sample_world_get sample_patched case_prod_beta)
qed


end
