(* ===== verification/TaskPipeline.thy ===== *)
theory TaskPipeline
  imports TaskStore ThreadService
begin

text \<open>
  From a thread to its task state and onwards (\<open>loop/src/task-state-builder.ts\<close>,
  \<open>legacy-task-state-migrator.ts\<close>, \<open>task-progress-projector.ts\<close>, \<open>context-recovery.ts\<close>,
  \<open>task-context-projection.ts\<close> and the ledger update of \<open>kernel-v3-node-handlers.ts\<close>): the first state of a
  run is built from the thread and its items, the migration stores it once, the projection of to-dos and
  tool observations moves it forward, and recovery counts its attempts against a bound.

  The clients use the store of \<open>TaskStore\<close> through the contract \<open>task_revisions\<close>, which is stated as a
  locale and interpreted on that store. \<open>hj\<close> and \<open>hs\<close> are the hashes of \<open>EffectCommit\<close>; the words of
  other scripts that mark a continuation lie outside the strings of the model.
\<close>

section \<open>JSON of the parts that are hashed\<close>

definition run_identity_json :: "run_identity \<Rightarrow> json" where
  "run_identity_json i = JObj [(''ownerUserId'', JStr (ownerUserId i)), (''workspaceKey'', JStr (workspaceKey i)),
     (''threadId'', JStr (threadId i)), (''turnId'', JStr (turnId i)), (''runId'', JStr (runId i))]"

fun action_status_name :: "action_status \<Rightarrow> string" where
  "action_status_name Act_pending = ''pending''"
| "action_status_name Act_in_progress = ''in_progress''"
| "action_status_name Act_completed = ''completed''"
| "action_status_name Act_failed = ''failed''"
| "action_status_name Act_blocked = ''blocked''"

fun artifact_kind_name :: "artifact_kind \<Rightarrow> string" where
  "artifact_kind_name File_artifact = ''file''"
| "artifact_kind_name Plain_artifact = ''artifact''"
| "artifact_kind_name Report_artifact = ''report''"
| "artifact_kind_name Dashboard_artifact = ''dashboard''"

fun ledger_status_name :: "ledger_status \<Rightarrow> string" where
  "ledger_status_name Led_prepared = ''prepared''"
| "ledger_status_name Led_committed = ''committed''"
| "ledger_status_name Led_failed = ''failed''"
| "ledger_status_name Led_suspended = ''suspended''"

definition str_field :: "string \<Rightarrow> string option \<Rightarrow> (string \<times> json) list" where
  "str_field k v = (case v of None \<Rightarrow> [] | Some s \<Rightarrow> [(k, JStr s)])"

definition action_json :: "task_action \<Rightarrow> json" where
  "action_json a = JObj [(''id'', JStr (ta_id a)), (''text'', JStr (ta_text a)),
     (''status'', JStr (action_status_name (ta_status a))), (''evidenceItemIds'', JArr (map JStr (ta_evidence a)))]"

definition artifact_json :: "artifact_ref \<Rightarrow> json" where
  "artifact_json a = JObj ([(''path'', JStr (ar_path a)), (''kind'', JStr (artifact_kind_name (ar_kind a)))] @
     str_field ''producedByCallId'' (ar_call a))"

definition ledger_json :: "ledger_entry \<Rightarrow> json" where
  "ledger_json e = JObj ([(''callId'', JStr (le_call e)), (''toolName'', JStr (le_tool e)),
     (''status'', JStr (ledger_status_name (le_status e)))] @ str_field ''resultDigest'' (le_result e))"

section \<open>The first state of a run\<close>

definition is_mark :: "char \<Rightarrow> bool" where
  "is_mark c \<longleftrightarrow> c \<in> set ''.!?,;:'' \<or> is_js_space c"

text \<open>The words in Latin letters; a text of marks only is a continuation too.\<close>

definition continuation_words :: "string list" where
  "continuation_words = [''goon'', ''continue'', ''proceed'', ''doit'', ''doall'']"

definition isContinuationOnlyTaskMessage :: "string \<Rightarrow> bool" where
  "isContinuationOnlyTaskMessage text = (let compact = js_lower (trim (filter (\<lambda>c. \<not> is_mark c) text))
     in compact = [] \<or> compact \<in> set continuation_words)"

record task_input =
  ti_identity :: run_identity
  ti_of_thread :: Threads.thread
  ti_of_turn :: turn
  ti_items :: "turn_item list"
  ti_active_skills :: "string list option"

definition owner_of :: "Threads.thread \<Rightarrow> string" where
  "owner_of c = or_else (th_owner c) ''local-default-owner''"

definition task_scope_ok :: "task_input \<Rightarrow> bool" where
  "task_scope_ok q \<longleftrightarrow> owner_of (ti_of_thread q) = ownerUserId (ti_identity q) \<and>
     th_id (ti_of_thread q) = threadId (ti_identity q) \<and> th_workspace (ti_of_thread q) = workspaceKey (ti_identity q) \<and>
     tr_id (ti_of_turn q) = turnId (ti_identity q) \<and> tr_thread (ti_of_turn q) = threadId (ti_identity q)"

fun user_task_text :: "item_body \<Rightarrow> string" where
  "user_task_text (UserMessage _ text display _) = trimmed_or display (trim text)"
| "user_task_text _ = []"

definition substantive :: "string \<Rightarrow> bool" where
  "substantive s \<longleftrightarrow> s \<noteq> [] \<and> \<not> isContinuationOnlyTaskMessage s"

definition objective_item :: "turn_item list \<Rightarrow> (string \<times> string) option" where
  "objective_item xs = map_option (\<lambda>x. (ti_id x, user_task_text (ti_body x)))
     (List.find (\<lambda>x. is_user_message x \<and> substantive (user_task_text (ti_body x))) (rev xs))"

definition resolveObjective :: "task_input \<Rightarrow> (string \<times> string) option" where
  "resolveObjective q = (case objective_item (filter (\<lambda>x. ti_turn x = tr_id (ti_of_turn q)) (ti_items q)) of
      Some o1 \<Rightarrow> Some o1
    | None \<Rightarrow> if substantive (trim (tr_prompt (ti_of_turn q)))
        then Some (''turn:'' @ tr_id (ti_of_turn q) @ '':prompt'', trim (tr_prompt (ti_of_turn q)))
        else (case th_goal (ti_of_thread q) of
            Some g \<Rightarrow> if go_status g = Goal_active \<and> trim (go_objective g) \<noteq> []
              then Some (''goal:'' @ th_id (ti_of_thread q) @ '':'' @ go_created g, trim (go_objective g))
              else objective_item (ti_items q)
          | None \<Rightarrow> objective_item (ti_items q)))"

fun todo_action_status :: "todo_status \<Rightarrow> action_status" where
  "todo_action_status Todo_pending = Act_pending"
| "todo_action_status Todo_in_progress = Act_in_progress"
| "todo_action_status Todo_completed = Act_completed"

definition action_of_todo :: "todo \<Rightarrow> task_action" where
  "action_of_todo d = \<lparr>ta_id = td_id d, ta_text = td_content d, ta_status = todo_action_status (td_status d), ta_evidence = []\<rparr>"

definition thread_todos :: "Threads.thread \<Rightarrow> todo list" where
  "thread_todos c = (case th_todos c of None \<Rightarrow> [] | Some l \<Rightarrow> tdl_items l)"

text \<open>The calls of the items by id, and the results; the last one of an id counts.\<close>

fun calls_of :: "turn_item list \<Rightarrow> (string, turn_item) jsmap \<Rightarrow> (string, turn_item) jsmap" where
  "calls_of [] m = m"
| "calls_of (x # xs) m = calls_of xs (if is_call x then AList.update (call_id x) x m else m)"

fun results_of :: "turn_item list \<Rightarrow> (string, turn_item) jsmap \<Rightarrow> (string, turn_item) jsmap" where
  "results_of [] m = m"
| "results_of (x # xs) m = results_of xs (if is_result x then AList.update (call_id x) x m else m)"

fun tool_name_of :: "item_body \<Rightarrow> string" where
  "tool_name_of (ToolCall _ t _ _) = tu_tool t"
| "tool_name_of (ToolResult _ t _ _) = tu_tool t"
| "tool_name_of _ = []"

fun call_failed :: "item_body \<Rightarrow> bool" where
  "call_failed (ToolCall s _ _ _) = (s = ItemFailed)"
| "call_failed (ToolResult s _ _ err) = (err \<or> s = ItemFailed \<or> s = ItemAborted)"
| "call_failed _ = False"

text \<open>The digest of an output that is absent throws: there is no JSON text to hash.\<close>

definition no_data :: "'a result" where
  "no_data = throw (''The '' @ CHR 0x22 # ''data'' @ CHR 0x22 # '' argument must be of type string or an instance of Buffer, TypedArray, or DataView. Received undefined'')"

fun output_digest :: "(json \<Rightarrow> string) \<Rightarrow> item_body \<Rightarrow> string result" where
  "output_digest hj (ToolResult _ _ (Some v) _) = Inr (digestValue hj v)"
| "output_digest hj _ = no_data"

definition ledger_of_call :: "(json \<Rightarrow> string) \<Rightarrow> (string, turn_item) jsmap \<Rightarrow> string \<times> turn_item \<Rightarrow> ledger_entry result" where
  "ledger_of_call hj results c = (case map_of results (fst c) of
      None \<Rightarrow> Inr \<lparr>le_call = fst c, le_tool = tool_name_of (ti_body (snd c)),
        le_status = (if call_failed (ti_body (snd c)) then Led_failed else Led_prepared), le_result = None\<rparr>
    | Some r \<Rightarrow> bind_result (output_digest hj (ti_body r)) (\<lambda>d.
        Inr \<lparr>le_call = fst c, le_tool = tool_name_of (ti_body (snd c)),
          le_status = (if call_failed (ti_body r) then Led_failed else Led_committed), le_result = Some d\<rparr>))"

definition buildToolLedger :: "(json \<Rightarrow> string) \<Rightarrow> turn_item list \<Rightarrow> ledger_entry list result" where
  "buildToolLedger hj xs = map_result (ledger_of_call hj (results_of xs [])) (calls_of xs [])"

definition activePlanFromInput :: "task_input \<Rightarrow> active_plan option" where
  "activePlanFromInput q = (case tr_plan (ti_of_turn q) of
      Some g \<Rightarrow> Some \<lparr>ap_plan = gp_plan g, ap_path = Some (gp_path g)\<rparr>
    | None \<Rightarrow> map_option (\<lambda>s. \<lparr>ap_plan = sr_plan s, ap_path = Some (sr_path s)\<rparr>)
        (Option.bind (List.find (\<lambda>d. td_source d \<noteq> None) (thread_todos (ti_of_thread q))) td_source))"

text \<open>A JavaScript \<open>Set\<close> keeps the first of equal elements.\<close>

definition js_set :: "'a list \<Rightarrow> 'a list" where
  "js_set xs = rev (remdups (rev xs))"

definition unique :: "string list \<Rightarrow> string list" where
  "unique xs = js_set (filter (\<lambda>s. trim s \<noteq> []) xs)"

definition source_digest :: "(json \<Rightarrow> string) \<Rightarrow> task_input \<Rightarrow> string \<times> string \<Rightarrow> ledger_entry list \<Rightarrow> string" where
  "source_digest hj q obj ledger = digestValue hj (JObj
     [(''identity'', run_identity_json (ti_identity q)),
      (''objective'', JObj [(''id'', JStr (fst obj)), (''text'', JStr (snd obj))]),
      (''todos'', JArr (map todo_json (thread_todos (ti_of_thread q)))),
      (''toolLedger'', JArr (map ledger_json ledger))])"

definition first_task :: "(json \<Rightarrow> string) \<Rightarrow> string \<Rightarrow> task_input \<Rightarrow> string \<times> string \<Rightarrow> ledger_entry list \<Rightarrow> task_state" where
  "first_task hj now q obj ledger = (let ds = thread_todos (ti_of_thread q) in
     \<lparr>tks_identity = ti_identity q, tks_revision = 1,
      tks_source = \<lparr>ts_objective_item = fst obj,
        ts_items = unique (fst obj # map (\<lambda>d. ''todo:'' @ td_id d) ds @ map (\<lambda>e. ''tool:'' @ le_call e) ledger),
        ts_digest = source_digest hj q obj ledger\<rparr>,
      tks_objective = snd obj, tks_constraints = [],
      tks_completed = map action_of_todo (filter (\<lambda>d. td_status d = Todo_completed) ds),
      tks_pending = map action_of_todo (filter (\<lambda>d. td_status d \<noteq> Todo_completed) ds),
      tks_plan = activePlanFromInput q,
      tks_skills = unique (or_else (ti_active_skills q) (tr_skills (ti_of_turn q))),
      tks_artifacts = [], tks_ledger = ledger, tks_progress = None, tks_compaction = None, tks_waiting = None,
      tks_migration = None, tks_created = now, tks_updated = now\<rparr>)"

definition buildTaskState :: "(json \<Rightarrow> string) \<Rightarrow> string \<Rightarrow> task_input \<Rightarrow> task_state result" where
  "buildTaskState hj now q = (if \<not> task_scope_ok q then throw ''task state input scope mismatch''
     else case resolveObjective q of
         None \<Rightarrow> throw ''task objective source unavailable''
       | Some obj \<Rightarrow> bind_result (buildToolLedger hj (ti_items q)) (\<lambda>ledger.
           parse_task_state (first_task hj now q obj ledger)))"


section \<open>Migration\<close>

datatype migration_result = Task_created task_state | Task_existing task_state | No_trusted_source string | Scope_violation string

definition migration_scope_ok :: "run_identity \<Rightarrow> Threads.thread \<Rightarrow> bool" where
  "migration_scope_ok i c \<longleftrightarrow> owner_of c = ownerUserId i \<and> th_id c = threadId i \<and> th_workspace c = workspaceKey i"

definition has_trusted_source :: "Threads.thread \<Rightarrow> turn_item list \<Rightarrow> bool" where
  "has_trusted_source c xs \<longleftrightarrow> list_ex (\<lambda>x. case ti_body x of
       UserMessage _ text display _ \<Rightarrow> \<not> isContinuationOnlyTaskMessage (trimmed_or display text) | _ \<Rightarrow> False) xs \<or>
     (case th_goal c of None \<Rightarrow> False | Some g \<Rightarrow> go_status g = Goal_active \<and> trim (go_objective g) \<noteq> [])"

definition resolveTurn :: "Threads.thread \<Rightarrow> run_identity \<Rightarrow> turn_item list \<Rightarrow> turn" where
  "resolveTurn c i xs = (case List.find (\<lambda>u. tr_id u = turnId i) (th_turns c) of
      Some u \<Rightarrow> u
    | None \<Rightarrow> let user = List.find (\<lambda>x. is_user_message x \<and> ti_turn x = turnId i) (rev xs) in
        \<lparr>tr_id = turnId i, tr_thread = threadId i, tr_status = TurnRunning,
         tr_prompt = (case user of None \<Rightarrow> [] | Some x \<Rightarrow> (case ti_body x of UserMessage _ text _ _ \<Rightarrow> text | _ \<Rightarrow> [])),
         tr_model = None, tr_effort = None, tr_steering = [],
         tr_created = (case user of None \<Rightarrow> ''legacy'' | Some x \<Rightarrow> ti_created x), tr_started = None, tr_finished = None,
         tr_items = [], tr_attachments = [], tr_work_mode = None, tr_skills = [], tr_explicit_skills = [],
         tr_memories = [], tr_skill_bytes = None, tr_fingerprint = None, tr_tool_count = None, tr_drift = None,
         tr_plan = None, tr_mode = None, tr_error = None\<rparr>)"

text \<open>
  What the message of a failed schema check says is not modelled: \<open>zod\<close> stands for it. A prepared revision
  whose commit failed stays prepared.
\<close>

definition error_text :: "string \<Rightarrow> js_error \<Rightarrow> string" where
  "error_text zod e = (case e of Error m \<Rightarrow> m | ZodError \<Rightarrow> zod)"

definition legacy_task :: "(json \<Rightarrow> string) \<Rightarrow> string \<Rightarrow> run_identity \<Rightarrow> Threads.thread \<Rightarrow> turn_item list \<Rightarrow> task_state result" where
  "legacy_task hj now i c xs = (let u = resolveTurn c i xs in
     bind_result (buildTaskState hj now \<lparr>ti_identity = i, ti_of_thread = c, ti_of_turn = u, ti_items = xs,
        ti_active_skills = Some (tr_skills u)\<rparr>) (\<lambda>s.
     Inr (s\<lparr>tks_migration := Some \<lparr>tm_digest = ts_digest (tks_source s), tm_high = True\<rparr>\<rparr>)))"

definition prepare_commit :: "(string \<Rightarrow> string) \<Rightarrow> string \<Rightarrow> task_state \<Rightarrow> int \<Rightarrow> task_store \<Rightarrow> unit result \<times> task_store" where
  "prepare_commit hs token s expected st = (case task_prepare hs token s expected st of
      Inl e \<Rightarrow> (Inl e, st)
    | Inr (p, st1) \<Rightarrow> (case task_commit p st1 of Inl e \<Rightarrow> (Inl e, st1) | Inr st2 \<Rightarrow> (Inr (), st2)))"

definition migrateLegacyTaskState :: "(string \<Rightarrow> string) \<Rightarrow> (json \<Rightarrow> string) \<Rightarrow> string \<Rightarrow> (nat \<Rightarrow> string) \<Rightarrow> string \<Rightarrow>
    run_identity \<Rightarrow> Threads.thread \<Rightarrow> turn_item list \<Rightarrow> task_store \<Rightarrow> migration_result result \<times> task_store" where
  "migrateLegacyTaskState hs hj zod clock token i c xs st =
     (if \<not> migration_scope_ok i c then (Inr (Scope_violation ''legacy thread identity does not match run scope''), st)
      else case task_load hs i st of
        Inl e \<Rightarrow> (Inl e, st)
      | Inr (Some s) \<Rightarrow> (Inr (Task_existing s), st)
      | Inr None \<Rightarrow>
          if \<not> has_trusted_source c xs
          then (Inr (No_trusted_source ''legacy history has no trusted user objective or active goal''), st)
          else case legacy_task hj (clock 0) i c xs of
              Inl e \<Rightarrow> (Inr (No_trusted_source (error_text zod e)), st)
            | Inr s \<Rightarrow> (case prepare_commit hs token s 0 st of
                (Inl e, st1) \<Rightarrow> (case task_load hs i st1 of
                    Inr (Some raced) \<Rightarrow> (Inr (Task_existing raced), st1) | Inr None \<Rightarrow> (Inl e, st1) | Inl e2 \<Rightarrow> (Inl e2, st1))
              | (Inr _, st2) \<Rightarrow> (Inr (Task_created s), appendMigrationRecord
                  \<lparr>mr_identity = i, mr_digest = ts_digest (tks_source s), mr_revision = tks_revision s, mr_at = clock 1\<rparr> st2)))"

section \<open>Progress\<close>

record todo_projection =
  tp_id :: string
  tp_content :: string
  tp_status :: action_status

datatype progress_level = Strong_progress | Weak_progress | No_progress

record progress_digest =
  pd_level :: progress_level
  pd_value :: string
  pd_reasons :: "string list"

definition observed_digests :: "task_state \<Rightarrow> string list" where
  "observed_digests t = (case tks_progress t of None \<Rightarrow> [] | Some p \<Rightarrow> tg_observed p)"

definition fresh_observations :: "task_state \<Rightarrow> tool_observation list \<Rightarrow> tool_observation list" where
  "fresh_observations t obs = filter (\<lambda>x. \<not> ob_failed x \<and> \<not> ob_replayed x \<and> ob_result x \<notin> set (observed_digests t)) obs"

definition next_digests :: "task_state \<Rightarrow> tool_observation list \<Rightarrow> string list" where
  "next_digests t fresh = slice_last 64 (js_set (observed_digests t @ map ob_result fresh))"

text \<open>The entry of an id is the last one with it.\<close>

definition known_action :: "task_state \<Rightarrow> string \<Rightarrow> task_action option" where
  "known_action t i = List.find (\<lambda>a. ta_id a = i) (rev (tks_completed t @ tks_pending t))"

definition action_of :: "task_state \<Rightarrow> todo_projection \<Rightarrow> task_action" where
  "action_of t d = \<lparr>ta_id = tp_id d, ta_text = tp_content d, ta_status = tp_status d,
     ta_evidence = (case known_action t (tp_id d) of None \<Rightarrow> [] | Some a \<Rightarrow> ta_evidence a)\<rparr>"

definition moved :: "task_state \<Rightarrow> todo_projection \<Rightarrow> bool" where
  "moved t d \<longleftrightarrow> map_option ta_status (known_action t (tp_id d)) \<noteq> Some (tp_status d)"

definition artifactKey :: "artifact_ref \<Rightarrow> string" where
  "artifactKey a = artifact_kind_name (ar_kind a) @ '':'' @ ar_path a @ '':'' @ or_else (ar_call a) []"

definition keyed_artifacts :: "artifact_ref list \<Rightarrow> (string, artifact_ref) jsmap" where
  "keyed_artifacts xs = foldl (\<lambda>m a. AList.update (artifactKey a) a m) [] xs"

fun add_artifacts :: "(string, artifact_ref) jsmap \<Rightarrow> artifact_ref list \<Rightarrow> (string, artifact_ref) jsmap \<times> string list" where
  "add_artifacts m [] = (m, [])"
| "add_artifacts m (a # as) = (if map_of m (artifactKey a) = None
     then (let (m', rs) = add_artifacts (AList.update (artifactKey a) a m) as in (m', (''artifact:'' @ ar_path a) # rs))
     else add_artifacts m as)"

record progress_parts =
  pp_completed :: "task_action list"
  pp_pending :: "task_action list"
  pp_artifacts :: "artifact_ref list"
  pp_fresh :: "tool_observation list"
  pp_strong :: bool
  pp_reasons :: "string list"

definition progress_parts_of :: "task_state \<Rightarrow> todo_projection list option \<Rightarrow> tool_observation list \<Rightarrow> progress_parts" where
  "progress_parts_of t todos obs = (
     let fresh = fresh_observations t obs;
         ds = or_else todos [];
         changed = filter (moved t) ds;
         (arts, made) = add_artifacts (keyed_artifacts (tks_artifacts t)) (concat (map ob_artifacts fresh))
     in \<lparr>pp_completed = (if todos = None then tks_completed t else map (action_of t) (filter (\<lambda>d. tp_status d = Act_completed) ds)),
         pp_pending = (if todos = None then tks_pending t else map (action_of t) (filter (\<lambda>d. tp_status d \<noteq> Act_completed) ds)),
         pp_artifacts = map snd arts, pp_fresh = fresh, pp_strong = (changed \<noteq> [] \<or> made \<noteq> []),
         pp_reasons = map (\<lambda>d. ''action:'' @ tp_id d @ '':'' @ action_status_name (tp_status d)) changed @ made @
           (if fresh \<noteq> [] then [''evidence:'' @ show_nat (length fresh)] else [])\<rparr>)"

definition level_of :: "progress_parts \<Rightarrow> progress_level" where
  "level_of p = (if pp_strong p then Strong_progress else if pp_fresh p \<noteq> [] then Weak_progress else No_progress)"

definition digest_of :: "(json \<Rightarrow> string) \<Rightarrow> task_state \<Rightarrow> progress_parts \<Rightarrow> string" where
  "digest_of hj t p = hj (JObj [(''completedActions'', JArr (map action_json (pp_completed p))),
     (''pendingActions'', JArr (map action_json (pp_pending p))), (''artifacts'', JArr (map artifact_json (pp_artifacts p))),
     (''observations'', JArr (map JStr (next_digests t (pp_fresh p))))])"

definition next_progress :: "(json \<Rightarrow> string) \<Rightarrow> task_state \<Rightarrow> progress_parts \<Rightarrow> task_progress" where
  "next_progress hj t p = (let old = tks_progress t in
     \<lparr>tg_strong = (if level_of p = Strong_progress then Some (digest_of hj t p) else truthy (Option.bind old tg_strong)),
      tg_weak = (if level_of p = Weak_progress then Some (digest_of hj t p) else truthy (Option.bind old tg_weak)),
      tg_evidence = (case old of None \<Rightarrow> 0 | Some g \<Rightarrow> tg_evidence g) + length (pp_fresh p),
      tg_artifacts = length (pp_artifacts p), tg_observed = next_digests t (pp_fresh p)\<rparr>)"

definition projection_changes :: "task_state \<Rightarrow> progress_parts \<Rightarrow> bool" where
  "projection_changes t p \<longleftrightarrow> pp_strong p \<or> pp_fresh p \<noteq> [] \<or> tks_completed t \<noteq> pp_completed p \<or>
     tks_pending t \<noteq> pp_pending p \<or> length (pp_artifacts p) \<noteq> length (tks_artifacts t)"

definition projectTaskState :: "(json \<Rightarrow> string) \<Rightarrow> string \<Rightarrow> todo_projection list option \<Rightarrow> tool_observation list \<Rightarrow> task_state \<Rightarrow>
    (task_state \<times> progress_digest) result" where
  "projectTaskState hj now todos obs t = (
     let p = progress_parts_of t todos obs;
         d = \<lparr>pd_level = level_of p, pd_value = digest_of hj t p, pd_reasons = pp_reasons p\<rparr>
     in if \<not> projection_changes t p then Inr (t, d)
        else bind_result (parse_task_state (t\<lparr>tks_revision := tks_revision t + 1, tks_completed := pp_completed p,
            tks_pending := pp_pending p, tks_artifacts := pp_artifacts p, tks_progress := Some (next_progress hj t p),
            tks_updated := now\<rparr>)) (\<lambda>u. Inr (u, d)))"

text \<open>The projector stores a projection with progress, and aborts what it prepared when the commit fails.\<close>

definition projector_apply :: "(string \<Rightarrow> string) \<Rightarrow> (json \<Rightarrow> string) \<Rightarrow> string \<Rightarrow> string \<Rightarrow> run_identity \<Rightarrow> todo_projection list option \<Rightarrow>
    tool_observation list \<Rightarrow> task_store \<Rightarrow> (task_state \<times> progress_digest) option result \<times> task_store" where
  "projector_apply hs hj token now i todos obs st = (case task_load hs i st of
      Inl e \<Rightarrow> (Inl e, st)
    | Inr None \<Rightarrow> (Inr None, st)
    | Inr (Some t) \<Rightarrow> (case projectTaskState hj now todos obs t of
          Inl e \<Rightarrow> (Inl e, st)
        | Inr (u, d) \<Rightarrow> if pd_level d = No_progress then (Inr (Some (u, d)), st)
            else (case task_prepare hs token u (int (tks_revision t)) st of
                Inl e \<Rightarrow> (Inl e, st)
              | Inr (p, st1) \<Rightarrow> (case task_commit p st1 of
                    Inl e \<Rightarrow> (Inl e, task_abort p st1)
                  | Inr st2 \<Rightarrow> (Inr (Some (u, d)), st2)))))"

text \<open>The tool ledger after a batch of calls.\<close>

definition updateTaskLedger :: "task_state \<Rightarrow> ledger_entry list \<Rightarrow> string \<Rightarrow> task_state" where
  "updateTaskLedger t entries now = t\<lparr>tks_revision := tks_revision t + 1,
     tks_ledger := map snd (foldl (\<lambda>m e. AList.update (le_call e) e m)
       (foldl (\<lambda>m e. AList.update (le_call e) e m) [] (tks_ledger t)) entries), tks_updated := now\<rparr>"

section \<open>Recovery of a lost context\<close>

datatype proposal_class = Final_text | Tool_intents | Empty_proposal | Length_limited | Safety_or_refusal
  | Protocol_error | Context_discontinuity | Nonterminal_action

definition isRecoverableProposalClass :: "proposal_class \<Rightarrow> bool" where
  "isRecoverableProposalClass p \<longleftrightarrow> p \<in> {Context_discontinuity, Nonterminal_action, Empty_proposal, Length_limited, Protocol_error}"

datatype recovery_action = Accept_proposal | Recover_context | Degrade_run "(string \<times> json) list"

definition transitionContextRecovery :: "task_state \<Rightarrow> recovery_state \<Rightarrow> proposal_class \<Rightarrow> recovery_action \<times> recovery_state \<times> bool" where
  "transitionContextRecovery t r p = (
     if \<not> isRecoverableProposalClass p then (Accept_proposal, r, True)
     else if attempts r < maxAttempts r then (Recover_context, r\<lparr>attempts := attempts r + 1,
         lastReason := Some (''context_discontinuity:task_revision_'' @ show_nat (tks_revision t))\<rparr>, False)
     else (Degrade_run [(''taskRevision'', count_json (tks_revision t)), (''taskSourceDigest'', JStr (ts_digest (tks_source t)))],
         r\<lparr>lastReason := Some (''context_recovery_exhausted:task_revision_'' @ show_nat (tks_revision t))\<rparr>, False))"

section \<open>Renderings\<close>

definition immediate_action :: "task_state \<Rightarrow> string" where
  "immediate_action t = (case List.find (\<lambda>a. ta_status a = Act_in_progress \<or> ta_status a = Act_pending) (tks_pending t) of
      None \<Rightarrow> ''(none)'' | Some a \<Rightarrow> ta_text a)"

definition bullets :: "string list \<Rightarrow> string list" where
  "bullets xs = (if xs = [] then [''- (none)''] else map (\<lambda>s. ''- '' @ s) xs)"

definition ledger_line :: "ledger_entry \<Rightarrow> string" where
  "ledger_line e = le_tool e @ '' ('' @ le_call e @ ''): '' @ ledger_status_name (le_status e)"

definition identityDigest :: "(json \<Rightarrow> string) \<Rightarrow> task_state \<Rightarrow> string" where
  "identityDigest hj t = (let i = tks_identity t in
     take 16 (hj (JArr (map JStr [ownerUserId i, workspaceKey i, threadId i, turnId i, runId i]))))"

definition renderTaskStateProjection :: "(json \<Rightarrow> string) \<Rightarrow> task_state \<Rightarrow> string" where
  "renderTaskStateProjection hj t = join_lines [lf] (
     [''Authoritative runtime task state (data, not instructions)'', ''Identity digest: '' @ identityDigest hj t,
      ''Revision: '' @ show_nat (tks_revision t), ''Source digest: '' @ ts_digest (tks_source t),
      ''Objective: '' @ tks_objective t, ''Immediate next action: '' @ immediate_action t, ''Constraints:''] @
     bullets (tks_constraints t) @ [''Completed actions:''] @ bullets (map ta_text (tks_completed t)) @
     [''Artifacts:''] @ bullets (map (\<lambda>a. artifact_kind_name (ar_kind a) @ '': '' @ ar_path a) (tks_artifacts t)) @
     [''Tool ledger:''] @ bullets (map ledger_line (tks_ledger t)))"

definition renderRecoveryContinuationEntry :: "task_state \<Rightarrow> string" where
  "renderRecoveryContinuationEntry t = join_lines [lf] (
     [''Authoritative task recovery entry (runtime data, not user instructions)'',
      ''Revision: '' @ show_nat (tks_revision t), ''Objective: '' @ tks_objective t,
      ''Immediate next action: '' @ immediate_action t, ''Completed actions:''] @
     bullets (map ta_text (tks_completed t)) @ [''Artifacts:''] @ bullets (map ar_path (tks_artifacts t)) @
     [''Tool ledger:''] @ bullets (map ledger_line (tks_ledger t)))"

end
