(* ===== verification/ProposalClass.thy ===== *)
theory ProposalClass
  imports TaskPipeline
begin

text \<open>
  The class of a model proposal (\<open>loop/src/proposal-classifier.ts\<close>), which decides between an answer, tool
  calls and a recovery, for texts in ASCII, on which \<open>normalize('NFKC')\<close> is the identity and the classes
  of punctuation and symbols are the printable characters that are neither letters nor digits. Phrases
  in other scripts never occur in such a text and are left out of the lists.
\<close>

section \<open>Proposals\<close>

datatype stop_class = Stop_normal | Stop_tool_calls | Stop_length | Stop_safety | Stop_refusal
  | Stop_transport | Stop_protocol | Stop_unknown

record proposal =
  po_stop :: stop_class
  po_leaked :: bool
  po_malformed :: bool
  po_complete :: bool
  po_text :: string
  po_reasoning :: string
  po_tools :: "string list"

section \<open>Texts\<close>

definition is_noise :: "char \<Rightarrow> bool" where
  "is_noise c \<longleftrightarrow> is_js_space c \<or> (let n = of_char c :: nat in
     (33 \<le> n \<and> n \<le> 47) \<or> (58 \<le> n \<and> n \<le> 64) \<or> (91 \<le> n \<and> n \<le> 96) \<or> (123 \<le> n \<and> n \<le> 126))"

definition normal_text :: "string \<Rightarrow> string" where
  "normal_text s = filter (\<lambda>c. \<not> is_noise c) (js_lower s)"

definition includesAny :: "string \<Rightarrow> string list \<Rightarrow> bool" where
  "includesAny text ps = list_ex (contains text) ps"

definition terminal_words :: "string list" where
  "terminal_words = [''finalanswer'', ''allcomplete'', ''alltaskscomplete'', ''taskcomplete'', ''everythingdone'',
     ''workcomplete'', ''conclusion'', ''inconclusion'', ''tosummarize'', ''resolved'', ''fixed'', ''nothingelse'',
     ''nothingmore'', ''nofurtheraction'', ''completed'', ''done'', ''hereis'', ''result'', ''summary'']"

definition looksTerminal :: "string \<Rightarrow> bool" where
  "looksTerminal s = includesAny s terminal_words"

definition asks_for_task :: "string list" where
  "asks_for_task = [''whatshouldicontinuewith'', ''tellmewhattocontinuewith'', ''tellmewhatishouldcontinuewith'',
     ''tellmewhattodonext'', ''whatshouldidonext'', ''restateyourtask'', ''repeattherequest'']"

definition states_discontinuity :: "string list" where
  "states_discontinuity = [''cannotseetheearlier'', ''cannotseetheprevious'', ''nolongerhavetheprior'', ''lostthecontext'',
     ''contextisnotavailable'', ''earliertaskanymore'', ''contextswitch'', ''switchedcontext'']"

definition promises_resume :: "string list" where
  "promises_resume = [''resume'', ''continue'', ''proceed'']"

definition isContextDiscontinuityText :: "string \<Rightarrow> bool" where
  "isContextDiscontinuityText text = (let s = normal_text text in s \<noteq> [] \<and>
     ((includesAny s states_discontinuity \<and> (includesAny s asks_for_task \<or> includesAny s promises_resume) \<and> \<not> looksTerminal s)
      \<or> s = ''whatshouldicontinuewith''))"

definition preamble_words :: "string list" where
  "preamble_words = [''letme'', ''lets'', ''im'', ''imgoing'', ''imabout'', ''imstarting'', ''iwill'', ''ill'', ''illbe'',
     ''ineedto'', ''ishould'', ''ishall'', ''nexti'', ''nowi'', ''startby'', ''firsti'', ''firstlet'', ''beginby'',
     ''proceedto'', ''goingto'', ''aboutto'', ''lookinto'', ''lookatthe'', ''movingon'', ''myapproach'', ''myplanis'']"

definition hasPendingWork :: "task_state \<Rightarrow> bool" where
  "hasPendingWork t = list_ex (\<lambda>a. ta_status a = Act_pending \<or> ta_status a = Act_in_progress) (tks_pending t)"

definition isNonterminalActionText :: "string \<Rightarrow> task_state \<Rightarrow> bool" where
  "isNonterminalActionText text t = (let s = normal_text text in
     hasPendingWork t \<and> s \<noteq> [] \<and> \<not> looksTerminal s \<and> length s \<le> 200 \<and> includesAny s preamble_words)"

section \<open>Classes\<close>

definition classifyProposal :: "proposal \<Rightarrow> task_state \<Rightarrow> string list \<Rightarrow> proposal_class" where
  "classifyProposal p t extra = (let signals = po_text p # po_reasoning p # extra in
     if (po_leaked p \<and> po_tools p = []) \<or> po_malformed p \<or> \<not> po_complete p \<or>
        po_stop p \<in> {Stop_protocol, Stop_transport, Stop_unknown} then Protocol_error
     else if po_stop p \<in> {Stop_safety, Stop_refusal} then Safety_or_refusal
     else if list_ex isContextDiscontinuityText signals then Context_discontinuity
     else if po_tools p \<noteq> [] then Tool_intents
     else if po_stop p = Stop_length then Length_limited
     else if trim (po_text p) = [] \<and> trim (po_reasoning p) = [] then Empty_proposal
     else if length (trim (po_text p)) < 300 \<and> list_ex (\<lambda>s. isNonterminalActionText s t) signals then Nonterminal_action
     else Final_text)"

section \<open>What the classes say\<close>

text \<open>
  A final answer is one: a proposal classed as final text ended normally, was complete and well formed,
  leaked no hidden text, asks for no tool, says something, and does not ask the user what to continue with.
\<close>

theorem final_text_is_answer:
  assumes "classifyProposal p t extra = Final_text"
  shows "po_stop p \<in> {Stop_normal, Stop_tool_calls} \<and> po_complete p \<and> \<not> po_malformed p \<and> \<not> po_leaked p \<and> po_tools p = [] \<and>
    (trim (po_text p) \<noteq> [] \<or> trim (po_reasoning p) \<noteq> []) \<and>
    (\<forall>s \<in> set (po_text p # po_reasoning p # extra). \<not> isContextDiscontinuityText s)"
  using assms unfolding classifyProposal_def Let_def
  by (cases "po_stop p") (auto simp: list_ex_iff split: if_splits)

definition plain_answer :: "string \<Rightarrow> proposal" where
  "plain_answer s = \<lparr>po_stop = Stop_normal, po_leaked = False, po_malformed = False, po_complete = True,
     po_text = s, po_reasoning = [], po_tools = []\<rparr>"

text \<open>
  A short answer can be taken for a stub: the words of a preamble are looked for inside other words, so
  with work pending an answer that says ``simple'' is sent to recovery, for every task.
\<close>

theorem answer_sent_to_recovery:
  assumes "hasPendingWork t" and "attempts r < maxAttempts r"
  shows "fst (transitionContextRecovery t r (classifyProposal (plain_answer ''Use a simple timer.'') t [])) = Recover_context"
proof -
  have 1: "normal_text ''Use a simple timer.'' = ''useasimpletimer''" "normal_text [] = []" "trim ''Use a simple timer.'' \<noteq> []"
    "length (trim ''Use a simple timer.'') < 300" "\<not> isContextDiscontinuityText ''Use a simple timer.''"
    "\<not> isContextDiscontinuityText []" "\<not> looksTerminal ''useasimpletimer''" "includesAny ''useasimpletimer'' preamble_words"
    by code_simp+
  have "isNonterminalActionText ''Use a simple timer.'' t" using assms(1) 1 by (simp add: isNonterminalActionText_def Let_def)
  then have "classifyProposal (plain_answer ''Use a simple timer.'') t [] = Nonterminal_action"
    using 1 by (simp add: classifyProposal_def plain_answer_def Let_def)
  then show ?thesis using assms(2) by (simp add: transitionContextRecovery_def isRecoverableProposalClass_def)
qed

definition busy_task :: task_state where
  "busy_task = (sample_task 1 ''x'')\<lparr>tks_pending := [\<lparr>ta_id = ''a'', ta_text = ''b'', ta_status = Act_pending, ta_evidence = []\<rparr>]\<rparr>"

theorem final_text_is_answer_witness:
  "classifyProposal (plain_answer ''All is well'') busy_task [] = Final_text \<and> \<not> isContextDiscontinuityText ''All is well''"
proof -
  have f: "classifyProposal (plain_answer ''All is well'') busy_task [] = Final_text" by code_simp
  from final_text_is_answer[OF this] f show ?thesis by (simp add: plain_answer_def)
qed

theorem answer_sent_to_recovery_witness:
  "fst (transitionContextRecovery busy_task \<lparr>attempts = 0, maxAttempts = 2, lastReason = None\<rparr>
     (classifyProposal (plain_answer ''Use a simple timer.'') busy_task [])) = Recover_context"
  by (rule answer_sent_to_recovery) (simp_all add: hasPendingWork_def busy_task_def)

end
