(* ===== verification/TaskProps.thy ===== *)
theory TaskProps
  imports ProposalClass FileTasks
begin

text \<open>
  What the pipeline of task states promises. The store of task states is an interface: the locale
  \<open>task_revisions\<close> holds the laws a client may rely on when it prepares and commits a revision, and both
  the store in memory and the store on files are interpretations of it.
\<close>

section \<open>The contract of a store of task states\<close>

locale task_revisions =
  fixes load :: "run_identity \<Rightarrow> 's \<Rightarrow> task_state option result"
    and prepare :: "string \<Rightarrow> task_state \<Rightarrow> int \<Rightarrow> 's \<Rightarrow> (prepared_revision \<times> 's) result"
    and commit :: "prepared_revision \<Rightarrow> 's \<Rightarrow> 's result"
  assumes prepare_silent: "prepare k s e st = Inr (p, st1) \<Longrightarrow> load i st1 = load i st"
    and prepare_checks: "prepare k s e st = Inr (p, st1) \<Longrightarrow> \<exists>t. parse_task_state s = Inr t \<and> int (tks_revision t) = e + 1"
    and commit_loads: "k \<noteq> [] \<Longrightarrow> prepare k s e st = Inr (p, st1) \<Longrightarrow> parse_task_state s = Inr t \<Longrightarrow>
      \<exists>st2. commit p st1 = Inr st2 \<and> load (tks_identity t) st2 = Inr (Some t)"
begin

lemma publish:
  assumes "k \<noteq> []" and "prepare k s e st = Inr (p, st1)"
  obtains t st2 where "parse_task_state s = Inr t" and "int (tks_revision t) = e + 1" and "commit p st1 = Inr st2"
    and "load (tks_identity t) st2 = Inr (Some t)"
  using prepare_checks[OF assms(2)] commit_loads[OF assms] by blast

lemma publish_checked:
  assumes "k \<noteq> []" and "prepare k s e st = Inr (p, st1)" and "parse_task_state s = Inr s"
  obtains st2 where "commit p st1 = Inr st2" and "load (tks_identity s) st2 = Inr (Some s)"
  using commit_loads[OF assms] by blast

end

locale abortable_revisions = task_revisions +
  fixes abort :: "prepared_revision \<Rightarrow> 's \<Rightarrow> 's"
  assumes abort_silent: "load i (abort p st) = load i st"
begin

lemma failed_attempt_silent:
  assumes "prepare k s e st = Inr (p, st1)"
  shows "load i (abort p st1) = load i st"
  using abort_silent prepare_silent[OF assms] by simp

end

interpretation memory_revisions: abortable_revisions "task_load hs" "task_prepare hs" task_commit task_abort for hs
proof unfold_locales
  fix k s e st p st1 i t
  assume prep: "task_prepare hs k s e st = Inr (p, st1)"
  then show "task_load hs i st1 = task_load hs i st"
    by (auto simp: task_prepare_def task_load_def result_simps Let_def split: if_splits)
  from prep show "\<exists>t. parse_task_state s = Inr t \<and> int (tks_revision t) = e + 1"
    by (auto simp: task_prepare_def result_simps split: if_splits)
  assume "parse_task_state s = Inr t"
  with prep show "\<exists>st2. task_commit p st1 = Inr st2 \<and> task_load hs (tks_identity t) st2 = Inr (Some t)"
    by (auto simp: task_prepare_def task_commit_def task_load_def active_revision_def result_simps Let_def split: if_splits)
next
  show "task_load hs i (task_abort p st) = task_load hs i st" for i p st
    by (simp add: task_load_def task_abort_def)
qed

lemma show_nat_read: "foldl (\<lambda>a c. 10 * a + (of_char c - 48)) 0 (show_nat n) = (n :: nat)"
proof (induction n rule: show_nat.induct)
  case (1 n)
  have digit: "of_char (char_of (48 + d :: nat) :: char) = 48 + d" if "d < 10" for d
    using that by (simp add: take_bit_eq_mod)
  show ?case
  proof (cases "n < 10")
    case True
    then show ?thesis using digit[of n] by (subst show_nat.simps) simp
  next
    case False
    have "of_char (char_of (48 + n mod 10) :: char) = 48 + n mod 10" using digit[of "n mod 10"] by simp
    then show ?thesis using 1 False by (subst show_nat.simps) (simp del: of_char_of)
  qed
qed

lemma show_nat_inj: "show_nat n = show_nat m \<longleftrightarrow> n = m"
  by (metis show_nat_read)

lemma path_parts: "revisionPath s n a = revisionPath s' m b \<Longrightarrow> s = s' \<and> n = m \<and> a = b"
proof -
  assume e: "revisionPath s n a = revisionPath s' m b"
  have stop: "takeWhile (\<lambda>c. c \<noteq> CHR ''-'') (show_nat n @ CHR ''-'' # t) = show_nat n" for n t
    using digits_no_dash[of n] by (subst takeWhile_append2) (auto simp del: show_nat.simps)
  from e have "show_nat n @ CHR ''-'' # a @ ''.json'' = show_nat m @ CHR ''-'' # b @ ''.json''"
    by (simp add: revisionPath_def del: show_nat.simps)
  from arg_cong[OF this, of "takeWhile (\<lambda>c. c \<noteq> CHR ''-'')"] have "show_nat n = show_nat m" by (simp add: stop del: show_nat.simps)
  with e show ?thesis by (simp add: revisionPath_def show_nat_inj del: show_nat.simps)
qed

interpretation file_revisions: task_revisions "file_load hs" "file_prepare hs" "file_commit hs True" for hs
proof unfold_locales
  fix k s e st p st1 i t
  assume prep: "file_prepare hs k s e st = Inr (p, st1)"
  then obtain u d a where u: "parse_task_state s = Inr u" "runtimeScopeDigest hs (tks_identity u) = Inr d"
    "readActive d st = Inr a" "int (pointed a) = e" "int (tks_revision u) = e + 1"
    "p = \<lparr>pr_identity = tks_identity u, pr_revision = tks_revision u, pr_expected = e, pr_token = k, pr_scope = d\<rparr>"
    "st1 = st\<lparr>tf_revisions := AList.update (path_of p) \<lparr>pe_prepared = p, pe_state = u\<rparr> (tf_revisions st)\<rparr>"
    by (auto simp: file_prepare_def result_simps Let_def split: if_splits)
  then show "\<exists>t. parse_task_state s = Inr t \<and> int (tks_revision t) = e + 1" by auto
  have "loadByScope hs x st1 = loadByScope hs x st" for x
  proof -
    have "revisionPath x (at_revision q) (at_token q) \<noteq> path_of p" if q: "readActive x st = Inr (Some q)" for q
    proof
      assume "revisionPath x (at_revision q) (at_token q) = path_of p"
      then have "x = d \<and> at_revision q = tks_revision u" using u(6) by (auto simp: path_of_def dest: path_parts)
      with q u(3,4,5) show False by (simp add: pointed_def)
    qed
    then show ?thesis
      by (cases "readActive x st") (auto simp: loadByScope_def u(7) readActive_def split: option.splits if_splits)
  qed
  then show "file_load hs i st1 = file_load hs i st" by (simp add: file_load_def)
  assume k: "k \<noteq> []" and "parse_task_state s = Inr t"
  then have t: "t = u" using u(1) by simp
  have "parse_task_state u = Inr u" by (rule parse_task_state_again[OF u(1)])
  moreover have "0 < tks_revision u" by (rule parse_task_state_parts(3)[OF u(1)])
  ultimately show "\<exists>st2. file_commit hs True p st1 = Inr st2 \<and> file_load hs (tks_identity t) st2 = Inr (Some t)"
    using u(2-5) k
    by (auto simp: t file_commit_def assertPreparedIdentity_def readPrepared_def readActive_def u(6,7) path_of_def
        file_load_def loadByScope_def pointed_def split: option.splits if_splits)
qed


section \<open>Migration\<close>

lemma prepare_commit_Inr:
  assumes "prepare_commit hs token s e st = (Inr u, st2)" and "token \<noteq> []"
  obtains t where "parse_task_state s = Inr t" and "task_load hs (tks_identity t) st2 = Inr (Some t)"
    and "tst_migrations st2 = tst_migrations st"
proof -
  obtain p st1 where p: "task_prepare hs token s e st = Inr (p, st1)" and c: "task_commit p st1 = Inr st2"
    using assms(1) by (auto simp: prepare_commit_def split: sum.splits prod.splits)
  obtain t st' where t: "parse_task_state s = Inr t" "task_commit p st1 = Inr st'" "task_load hs (tks_identity t) st' = Inr (Some t)"
    by (rule memory_revisions.publish[OF assms(2) p])
  have "tst_migrations st2 = tst_migrations st"
    using p c by (auto simp: task_prepare_def task_commit_def result_simps Let_def split: if_splits option.splits)
  with t c show ?thesis by (intro that) auto
qed

lemma legacy_task_checked:
  assumes "legacy_task hj now i c xs = Inr s" and "ok_identity i"
  shows "parse_task_state s = Inr s \<and> tks_identity s = i \<and> tks_revision s = 1"
proof -
  obtain b where b: "buildTaskState hj now \<lparr>ti_identity = i, ti_of_thread = c, ti_of_turn = resolveTurn c i xs, ti_items = xs,
      ti_active_skills = Some (tr_skills (resolveTurn c i xs))\<rparr> = Inr b"
    and s: "s = b\<lparr>tks_migration := Some \<lparr>tm_digest = ts_digest (tks_source b), tm_high = True\<rparr>\<rparr>"
    using assms(1) by (auto simp: legacy_task_def result_simps Let_def)
  from b obtain obj ledger where f: "parse_task_state (first_task hj now \<lparr>ti_identity = i, ti_of_thread = c,
      ti_of_turn = resolveTurn c i xs, ti_items = xs, ti_active_skills = Some (tr_skills (resolveTurn c i xs))\<rparr> obj ledger) = Inr b"
    by (auto simp: buildTaskState_def result_simps split: if_splits option.splits)
  have again: "parse_task_state b = Inr b" by (rule parse_task_state_again[OF f])
  have dig: "check_nonempty (ts_digest (tks_source b)) = Inr (ts_digest (tks_source b))"
    using again unfolding parse_task_state_def parse_source_def result_simps refine_task_def
    by (elim exE conjE) (auto simp: again_nonempty split: if_splits)
  have "parse_task_state s = Inr s"
    using again dig unfolding parse_task_state_def result_simps refine_task_def
    by (elim exE conjE) (auto simp: s check_option_def parse_migration_def result_simps split: if_splits)
  moreover have "tks_identity b = i"
    using parse_task_state_parts(1)[OF f] parse_identity_accepts[OF assms(2)] by (simp add: first_task_def Let_def)
  moreover have "tks_revision b = 1" using parse_task_state_parts(2)[OF f] by (simp add: first_task_def Let_def)
  ultimately show ?thesis by (simp add: s)
qed


section \<open>Objectives\<close>

lemma user_task_text_trim: "trim (user_task_text b) = user_task_text b"
  by (cases b) (auto simp: trimmed_or_def or_else_def split: option.split)

lemma objective_item_source:
  "objective_item xs = Some obj \<Longrightarrow> \<exists>x \<in> set xs. is_user_message x \<and> snd obj = user_task_text (ti_body x) \<and> substantive (snd obj)"
proof -
  assume "objective_item xs = Some obj"
  then obtain x where x: "List.find (\<lambda>x. is_user_message x \<and> substantive (user_task_text (ti_body x))) (rev xs) = Some x"
    and o1: "obj = (ti_id x, user_task_text (ti_body x))" by (auto simp: objective_item_def)
  have "x \<in> set (rev xs) \<and> is_user_message x \<and> substantive (user_task_text (ti_body x))"
    using x unfolding find_Some_iff by (metis nth_mem)
  with o1 show ?thesis by auto
qed


section \<open>Progress\<close>

lemma js_set_props [simp]: "set (js_set xs) = set xs" "distinct (js_set xs)"
  by (simp_all add: js_set_def)

lemma length_js_set: "length (js_set xs) = card (set xs)"
  using distinct_card[of "js_set xs"] by simp

definition window_holds :: "task_state \<Rightarrow> tool_observation list \<Rightarrow> bool" where
  "window_holds t obs \<longleftrightarrow> card (set (observed_digests t) \<union> ob_result ` set obs) \<le> 64"

lemma next_digests_all:
  assumes "window_holds t obs"
  shows "set (next_digests t (fresh_observations t obs)) = set (observed_digests t) \<union> ob_result ` set (fresh_observations t obs)"
proof -
  have "set (observed_digests t @ map ob_result (fresh_observations t obs)) \<subseteq> set (observed_digests t) \<union> ob_result ` set obs"
    by (auto simp: fresh_observations_def)
  then have "card (set (observed_digests t @ map ob_result (fresh_observations t obs))) \<le> 64"
    using assms card_mono[of "set (observed_digests t) \<union> ob_result ` set obs"]
    unfolding window_holds_def by (rule_tac le_trans[OF card_mono]) simp_all
  then have "length (js_set (observed_digests t @ map ob_result (fresh_observations t obs))) \<le> 64" by (simp add: length_js_set)
  then show ?thesis by (simp add: next_digests_def slice_last_def)
qed

definition projected :: "(json \<Rightarrow> string) \<Rightarrow> string \<Rightarrow> task_state \<Rightarrow> progress_parts \<Rightarrow> task_state" where
  "projected hj now t p = t\<lparr>tks_revision := tks_revision t + 1, tks_completed := pp_completed p,
     tks_pending := pp_pending p, tks_artifacts := pp_artifacts p, tks_progress := Some (next_progress hj t p), tks_updated := now\<rparr>"

lemma projectTaskState_parts: "projectTaskState hj now todos obs t = (let p = progress_parts_of t todos obs;
     d = \<lparr>pd_level = level_of p, pd_value = digest_of hj t p, pd_reasons = pp_reasons p\<rparr>
   in if \<not> projection_changes t p then Inr (t, d) else bind_result (parse_task_state (projected hj now t p)) (\<lambda>u. Inr (u, d)))"
  by (simp only: projectTaskState_def projected_def)

lemma project_parts:
  assumes "projectTaskState hj now todos obs t = Inr (u, d)"
  defines "p \<equiv> progress_parts_of t todos obs"
  shows "pd_level d = level_of p" and "projection_changes t p \<Longrightarrow> parse_task_state (projected hj now t p) = Inr u"
    and "\<not> projection_changes t p \<Longrightarrow> u = t"
  using assms(1) unfolding projectTaskState_parts p_def[symmetric] Let_def
  by (auto simp: result_simps split: if_splits)

lemma level_changes: "level_of p \<noteq> No_progress \<Longrightarrow> projection_changes t p"
  by (auto simp: level_of_def projection_changes_def split: if_splits)

lemma no_level_no_fresh: "level_of (progress_parts_of t todos obs) = No_progress \<Longrightarrow> fresh_observations t obs = []"
  by (auto simp: level_of_def progress_parts_of_def Let_def case_prod_beta split: if_splits)

text \<open>
  C21. Progress is stored exactly when there is some: applying a projection with progress leaves the
  projected state, one revision on, as the stored state of the run; without progress, and on every
  error, what is loaded stays as it was.
\<close>

theorem progress_is_stored:
  assumes "projector_apply hs hj token now i todos obs st = (r, st')" and "token \<noteq> []" and "ok_identity i"
    and "task_load hs i st = Inr (Some t)" and "tks_identity t = i"
  shows "case r of
      Inr (Some (u, d)) \<Rightarrow> if pd_level d = No_progress then st' = st
        else tks_revision u = tks_revision t + 1 \<and> task_load hs i st' = Inr (Some u)
    | _ \<Rightarrow> \<forall>j. task_load hs j st' = task_load hs j st"
proof (cases "projectTaskState hj now todos obs t")
  case (Inl e)
  then show ?thesis using assms(1,4) by (auto simp: projector_apply_def)
next
  case (Inr ud)
  then obtain u d where ud: "projectTaskState hj now todos obs t = Inr (u, d)" by (cases ud) auto
  show ?thesis
  proof (cases "pd_level d = No_progress")
    case True
    then show ?thesis using assms(1,4) ud by (auto simp: projector_apply_def)
  next
    case False
    note P = project_parts[OF ud]
    have parsed: "parse_task_state (projected hj now t (progress_parts_of t todos obs)) = Inr u"
      using P(1,2) level_changes False by simp
    have again: "parse_task_state u = Inr u" by (rule parse_task_state_again[OF parsed])
    have id: "tks_identity u = i"
      using parse_task_state_parts(1)[OF parsed] parse_identity_accepts[OF assms(3)] assms(5) by (simp add: projected_def)
    have rev: "tks_revision u = tks_revision t + 1"
      using parse_task_state_parts(2)[OF parsed] by (simp add: projected_def)
    show ?thesis
    proof (cases "task_prepare hs token u (int (tks_revision t)) st")
      case (Inl e)
      then show ?thesis using assms(1,4) ud False by (auto simp: projector_apply_def)
    next
      case (Inr ps)
      then obtain p st1 where prep: "task_prepare hs token u (int (tks_revision t)) st = Inr (p, st1)" by (cases ps) auto
      obtain st2 where c: "task_commit p st1 = Inr st2" "task_load hs (tks_identity u) st2 = Inr (Some u)"
        by (rule memory_revisions.publish_checked[OF assms(2) prep again])
      then show ?thesis using assms(1,4) ud False prep id rev by (auto simp: projector_apply_def)
    qed
  qed
qed

lemma parsed_progress_observed:
  assumes "check_option parse_progress (Some (next_progress hj t p)) = Inr (tks_progress u)"
  shows "map_result check_nonempty (next_digests t (pp_fresh p)) = Inr (observed_digests u)"
proof -
  obtain g where g: "parse_progress (next_progress hj t p) = Inr g" "tks_progress u = Some g"
    using assms by (auto simp: check_option_def result_simps)
  then show ?thesis
    by (auto simp: parse_progress_def next_progress_def Let_def observed_digests_def result_simps split: if_splits)
qed

text \<open>
  C29. Evidence is counted once: a batch of tool observations that was projected brings no progress when it
  is projected again, as long as no more than 64 different results were seen.
\<close>

theorem evidence_counted_once:
  assumes "projectTaskState hj now todos obs t = Inr (u, d)" and "window_holds t obs"
    and "\<forall>x \<in> set obs. trim (ob_result x) = ob_result x"
    and "projectTaskState hj now' None obs u = Inr (v, d')"
  shows "pd_level d' = No_progress"
proof -
  let ?p = "progress_parts_of t todos obs"
  have fresh: "pp_fresh ?p = fresh_observations t obs" by (simp add: progress_parts_of_def Let_def case_prod_beta)
  have "ob_result x \<in> set (observed_digests u)" if x: "x \<in> set obs" "\<not> ob_failed x" "\<not> ob_replayed x" for x
  proof (cases "projection_changes t ?p")
    case True
    have parsed: "parse_task_state (projected hj now t ?p) = Inr u" by (rule project_parts(2)[OF assms(1) True])
    then have "check_option parse_progress (Some (next_progress hj t ?p)) = Inr (tks_progress u)"
      unfolding parse_task_state_def result_simps refine_task_def projected_def
      by (elim exE conjE) (auto split: if_splits)
    then have "map_result check_nonempty (next_digests t (fresh_observations t obs)) = Inr (observed_digests u)"
      unfolding fresh[symmetric] by (rule parsed_progress_observed)
    then have all: "\<forall>y \<in> set (next_digests t (fresh_observations t obs)). trim y \<in> set (observed_digests u)"
      by (auto simp: map_result_all2 list_all2_conv_all_nth in_set_conv_nth check_nonempty_iff) (metis nth_mem)
    have "ob_result x \<in> set (next_digests t (fresh_observations t obs))"
      unfolding next_digests_all[OF assms(2)] using x by (auto simp: fresh_observations_def)
    then show ?thesis using all assms(3) x(1) by force
  next
    case False
    then have "u = t" "pp_fresh ?p = []" using project_parts(3)[OF assms(1)] by (auto simp: projection_changes_def)
    then show ?thesis using x fresh by (auto simp: fresh_observations_def filter_empty_conv)
  qed
  then have none: "fresh_observations u obs = []" by (auto simp: fresh_observations_def filter_empty_conv)
  have "level_of (progress_parts_of u None obs) = No_progress"
    by (simp add: level_of_def progress_parts_of_def none Let_def or_else_def)
  then show ?thesis using project_parts(1)[OF assms(4)] by simp
qed

text \<open>
  To-dos that are dropped are never stored: when the user empties the list of a thread whose task has
  pending actions, the projection drops them, but it reports no progress, so the store keeps them.
\<close>

theorem dropped_todos_kept:
  assumes "task_load hs i st = Inr (Some t)" and "tks_pending t \<noteq> []" and "tks_artifacts t = []"
    and "projectTaskState hj now (Some []) [] t = Inr (u, d)"
  shows "tks_completed u = [] \<and> tks_pending u = [] \<and> tks_revision u = tks_revision t + 1 \<and>
    projector_apply hs hj token now i (Some []) [] st = (Inr (Some (u, d)), st)"
proof -
  let ?p = "progress_parts_of t (Some []) []"
  have p: "pp_completed ?p = []" "pp_pending ?p = []" "level_of ?p = No_progress"
    by (simp_all add: progress_parts_of_def level_of_def fresh_observations_def keyed_artifacts_def or_else_def Let_def)
  then have "projection_changes t ?p" using assms(2) by (simp add: projection_changes_def)
  from project_parts(2)[OF assms(4) this] have parsed: "parse_task_state (projected hj now t ?p) = Inr u" .
  then have "tks_completed u = [] \<and> tks_pending u = []"
    unfolding parse_task_state_def result_simps refine_task_def
    by (elim exE conjE) (auto simp: projected_def p split: if_splits)
  moreover have "tks_revision u = tks_revision t + 1" using parse_task_state_parts(2)[OF parsed] by (simp add: projected_def)
  moreover have "pd_level d = No_progress" using project_parts(1)[OF assms(4)] p by simp
  ultimately show ?thesis using assms(1,4) by (simp add: projector_apply_def)
qed

section \<open>Recovery\<close>

fun recover :: "task_state \<Rightarrow> proposal_class list \<Rightarrow> recovery_state \<Rightarrow> recovery_action list \<times> recovery_state" where
  "recover t [] r = ([], r)"
| "recover t (p # ps) r = (let (a, r', _) = transitionContextRecovery t r p; (as, r'') = recover t ps r' in (a # as, r''))"

text \<open>
  C32. Recovery is bounded: over any sequence of proposals, the attempts counted never pass the maximum when
  they start within it, and the number of recoveries is exactly what was counted.
\<close>

theorem recovery_bounded:
  assumes "attempts r \<le> maxAttempts r" and "recover t ps r = (as, r')"
  shows "attempts r' \<le> maxAttempts r \<and> length (filter (\<lambda>a. a = Recover_context) as) = attempts r' - attempts r \<and>
    attempts r \<le> attempts r' \<and> maxAttempts r' = maxAttempts r"
  using assms
proof (induction ps arbitrary: r as)
  case (Cons p ps)
  obtain a r1 c where s: "transitionContextRecovery t r p = (a, r1, c)" by (cases "transitionContextRecovery t r p") auto
  obtain as1 where rest: "recover t ps r1 = (as1, r')" and as: "as = a # as1"
    using Cons.prems(2) s by (auto simp: case_prod_beta Let_def prod_eq_iff)
  have step: "attempts r1 \<le> maxAttempts r1" "maxAttempts r1 = maxAttempts r"
    "attempts r1 = attempts r + (if a = Recover_context then 1 else 0)"
    using s Cons.prems(1) by (auto simp: transitionContextRecovery_def split: if_splits)
  from Cons.IH[OF step(1) rest] step show ?case by (auto simp: as)
qed simp

section \<open>Sample runs\<close>

definition legacy_thread :: Threads.thread where
  "legacy_thread = sample_thread\<lparr>th_owner := Some ''o'', th_workspace := ''w'', th_turns := []\<rparr>"

definition legacy_item :: turn_item where
  "legacy_item = makeUserItem ''i'' ''u'' ''t'' ''fix it'' None None ''1'' ''1''"

definition legacy_input :: task_input where
  "legacy_input = \<lparr>ti_identity = sample_identity, ti_of_thread = legacy_thread,
     ti_of_turn = resolveTurn legacy_thread sample_identity [legacy_item], ti_items = [legacy_item], ti_active_skills = Some []\<rparr>"

definition outcome_text :: "migration_result result \<Rightarrow> string option" where
  "outcome_text r = (case r of Inr (Task_created s) \<Rightarrow> Some (tks_objective s) | _ \<Rightarrow> None)"



definition open_task :: task_state where
  "open_task = (sample_task 1 ''x'')\<lparr>tks_pending := [\<lparr>ta_id = ''a'', ta_text = ''b'', ta_status = Act_pending, ta_evidence = []\<rparr>]\<rparr>"

definition open_store :: task_store where
  "open_store = snd (prepare_commit (\<lambda>_. ''d'') ''k'' open_task 0 empty_task_store)"

definition seen :: tool_observation where
  "seen = \<lparr>ob_call = ''c'', ob_tool = ''read'', ob_effect = ERead, ob_class = ''read'', ob_resources = [],
     ob_arguments = ''a'', ob_result = ''r'', ob_item = ''i'', ob_artifacts = [], ob_failed = False, ob_replayed = False\<rparr>"

lemma open_loaded: "task_load (\<lambda>_. ''d'') sample_identity open_store = Inr (Some open_task)"
  by code_simp

theorem progress_is_stored_witness:
  "\<exists>u d st'. projector_apply (\<lambda>_. ''d'') (\<lambda>_. ''h'') ''k2'' ''2'' sample_identity None [seen] open_store = (Inr (Some (u, d)), st') \<and>
     tks_revision u = 2 \<and> task_load (\<lambda>_. ''d'') sample_identity st' = Inr (Some u)"
proof -
  let ?a = "projector_apply (\<lambda>_. ''d'') (\<lambda>_. ''h'') ''k2'' ''2'' sample_identity None [seen] open_store"
  have "(case fst ?a of Inr (Some (u, d)) \<Rightarrow> Some (pd_level d) | _ \<Rightarrow> None) = Some Weak_progress" by code_simp
  then obtain u d where "fst ?a = Inr (Some (u, d))" and lv: "pd_level d = Weak_progress"
    by (auto split: sum.splits option.splits)
  then have a: "?a = (Inr (Some (u, d)), snd ?a)" by (metis prod.collapse)
  have "ok_identity sample_identity" "tks_identity open_task = sample_identity" "tks_revision open_task = 1" by code_simp+
  with progress_is_stored[OF a _ _ open_loaded] lv a show ?thesis by force
qed

theorem evidence_counted_once_witness:
  "\<exists>u d v d'. projectTaskState (\<lambda>_. ''h'') ''2'' None [seen] open_task = Inr (u, d) \<and> pd_level d = Weak_progress \<and>
     projectTaskState (\<lambda>_. ''h'') ''3'' None [seen] u = Inr (v, d') \<and> pd_level d' = No_progress"
proof -
  let ?a = "projectTaskState (\<lambda>_. ''h'') ''2'' None [seen] open_task"
  let ?b = "\<lambda>u. projectTaskState (\<lambda>_. ''h'') ''3'' None [seen] u"
  have "(case ?a of Inr (u, d) \<Rightarrow> (case ?b u of Inr _ \<Rightarrow> Some (pd_level d) | _ \<Rightarrow> None) | _ \<Rightarrow> None) = Some Weak_progress" by code_simp
  then obtain u d v d' where a: "?a = Inr (u, d)" and lv: "pd_level d = Weak_progress" and b: "?b u = Inr (v, d')"
    by (auto split: sum.splits option.splits)
  have "window_holds open_task [seen]" and seen: "\<forall>x \<in> set [seen]. trim (ob_result x) = ob_result x" by code_simp+
  from evidence_counted_once[OF a this b] a b lv show ?thesis by blast
qed

theorem dropped_todos_kept_witness:
  "\<exists>u d. projectTaskState (\<lambda>_. ''h'') ''2'' (Some []) [] open_task = Inr (u, d) \<and> tks_pending u = [] \<and>
     projector_apply (\<lambda>_. ''d'') (\<lambda>_. ''h'') ''k'' ''2'' sample_identity (Some []) [] open_store = (Inr (Some (u, d)), open_store)"
proof -
  let ?a = "projectTaskState (\<lambda>_. ''h'') ''2'' (Some []) [] open_task"
  have "(case ?a of Inr (u, d) \<Rightarrow> True | _ \<Rightarrow> False)" by code_simp
  then obtain u d where a: "?a = Inr (u, d)" by (auto split: sum.splits)
  from dropped_todos_kept[OF open_loaded _ _ a] a show ?thesis by (auto simp: open_task_def sample_task_def)
qed

theorem recovery_bounded_witness:
  "\<exists>as r. recover open_task [Empty_proposal, Empty_proposal, Empty_proposal] \<lparr>attempts = 0, maxAttempts = 2, lastReason = None\<rparr> = (as, r) \<and>
     attempts r \<le> 2"
  using recovery_bounded[of "\<lparr>attempts = 0, maxAttempts = 2, lastReason = None\<rparr>" open_task "[Empty_proposal, Empty_proposal, Empty_proposal]"]
  by (cases "recover open_task [Empty_proposal, Empty_proposal, Empty_proposal] \<lparr>attempts = 0, maxAttempts = 2, lastReason = None\<rparr>") auto

end
