(* ===== verification/ItemJson.thy ===== *)
theory ItemJson
  imports Items
begin

text \<open>
  The JSON form of turn items: what \<open>JSON.stringify\<close> writes for an item and what the discriminated union
  \<open>TurnItem\<close> of \<open>contracts/items.ts\<close> (with \<open>review.ts\<close>) reads back. The round trip says that an item that
  meets its schema survives being written and read; the other direction, that whatever is read meets it.
\<close>

section \<open>Reading fields\<close>

definition z_min1 :: "json option \<Rightarrow> string result" where
  "z_min1 v = bind_result (z_string v) (\<lambda>s. if s = [] then Inl ZodError else Inr s)"

definition z_positive :: "json option \<Rightarrow> nat result" where
  "z_positive v = bind_result (z_nat v) (\<lambda>n. if n = 0 then Inl ZodError else Inr n)"

definition z_unit_interval :: "json option \<Rightarrow> rat result" where
  "z_unit_interval v = (case v of Some (JNum n) \<Rightarrow> (if 0 \<le> n \<and> n \<le> 1 then Inr n else Inl ZodError) | _ \<Rightarrow> Inl ZodError)"

definition z_any :: "json option \<Rightarrow> json option result" where
  "z_any v = Inr v"

text \<open>A literal of an enumeration, by its table of names.\<close>

definition enum_json :: "(string \<times> 'a) list \<Rightarrow> 'a \<Rightarrow> json" where
  "enum_json tab x = (case List.find (\<lambda>p. snd p = x) tab of None \<Rightarrow> JNull | Some p \<Rightarrow> JStr (fst p))"

definition nat_json :: "nat \<Rightarrow> json" where
  "nat_json n = JNum (of_nat n)"

definition safe_count :: "nat \<Rightarrow> bool" where
  "safe_count n \<longleftrightarrow> int n \<le> max_safe_integer"

definition names_json :: "string list \<Rightarrow> json" where
  "names_json xs = JArr (map JStr xs)"

named_theorems reads \<open>what the readers answer on written values\<close>

lemma z_string_str [reads]: "z_string (Some (JStr s)) = Inr s"
  by (simp add: z_string_def)

lemma z_min1_str [reads]: "s \<noteq> [] \<Longrightarrow> z_min1 (Some (JStr s)) = Inr s"
  by (simp add: z_min1_def z_string_def result_simps)

lemma z_nat_count [reads]: "safe_count n \<Longrightarrow> z_nat (Some (nat_json n)) = Inr n"
  by (simp add: z_nat_def nat_json_def safe_count_def is_safe_integer_def)

lemma z_positive_count [reads]: "safe_count n \<Longrightarrow> n \<noteq> 0 \<Longrightarrow> z_positive (Some (nat_json n)) = Inr n"
  by (simp add: z_positive_def z_nat_count result_simps)

lemma z_unit_interval_num [reads]: "0 \<le> x \<Longrightarrow> x \<le> 1 \<Longrightarrow> z_unit_interval (Some (JNum x)) = Inr x"
  by (simp add: z_unit_interval_def)

lemma z_bool_bool [reads]: "z_bool (Some (JBool b)) = Inr b"
  by (simp add: z_bool_def)

lemma z_record_obj [reads]: "z_record (Some (JObj kvs)) = Inr kvs"
  by (simp add: z_record_def)

lemma z_nonempty_str [reads]: "trim s = s \<Longrightarrow> s \<noteq> [] \<Longrightarrow> z_nonempty (Some (JStr s)) = Inr s"
  by (simp add: z_nonempty_def)

lemma z_any_read [reads]: "z_any v = Inr v"
  by (simp add: z_any_def)

lemma z_optional_read [reads]:
  "z_optional p None = Inr None"
  "p (Some v) = Inr x \<Longrightarrow> z_optional p (Some v) = Inr (Some x)"
  by (simp_all add: z_optional_def result_simps)

lemma z_default_read [reads]: "p (Some v) = Inr x \<Longrightarrow> z_default d p (Some v) = Inr x"
  by (simp add: z_default_def)

lemma map_result_written: "(\<And>x. x \<in> set xs \<Longrightarrow> p (f x) = Inr x) \<Longrightarrow> map_result p (map f xs) = Inr xs"
  by (induction xs) (auto simp: result_simps)

lemma z_array_read [reads]: "(\<And>x. x \<in> set xs \<Longrightarrow> p (f x) = Inr x) \<Longrightarrow> z_array p (Some (JArr (map f xs))) = Inr xs"
  by (simp add: z_array_def map_result_written)

lemma z_array_names [reads]:
  "z_array (\<lambda>v. z_string (Some v)) (Some (names_json xs)) = Inr xs"
  "list_all (\<lambda>s. s \<noteq> []) xs \<Longrightarrow> z_array (\<lambda>v. z_min1 (Some v)) (Some (names_json xs)) = Inr xs"
  unfolding names_json_def by (rule z_array_read, simp add: reads list_all_iff)+

lemma z_enum_tag [reads]: "distinct (map fst tab) \<Longrightarrow> x \<in> snd ` set tab \<Longrightarrow> z_enum tab (Some (enum_json tab x)) = Inr x"
proof -
  assume d: "distinct (map fst tab)" and "x \<in> snd ` set tab"
  then obtain p where f: "List.find (\<lambda>p. snd p = x) tab = Some p" by (cases "List.find (\<lambda>p. snd p = x) tab") (auto simp: find_None_iff)
  then have "p \<in> set tab" and "snd p = x" unfolding find_Some_iff by auto
  then have "map_of tab (fst p) = Some x" using d by (metis map_of_is_SomeI prod.collapse)
  with f show ?thesis by (simp add: enum_json_def z_enum_def)
qed

section \<open>Names\<close>

definition role_names :: "(string \<times> item_role) list" where
  "role_names = [(''user'', UserRole), (''assistant'', AssistantRole), (''system'', SystemRole), (''tool'', ToolRole)]"

definition item_status_names :: "(string \<times> item_status) list" where
  "item_status_names = [(''pending'', ItemPending), (''running'', ItemRunning), (''completed'', ItemCompleted),
     (''failed'', ItemFailed), (''aborted'', ItemAborted)]"

definition approval_names :: "(string \<times> approval_status) list" where
  "approval_names = [(''pending'', ApprovalPending), (''allowed'', ApprovalAllowed), (''denied'', ApprovalDenied),
     (''expired'', ApprovalExpired)]"

definition input_names :: "(string \<times> input_status) list" where
  "input_names = [(''pending'', InputPending), (''submitted'', InputSubmitted), (''cancelled'', InputCancelled)]"

definition tool_kind_names :: "(string \<times> tool_kind) list" where
  "tool_kind_names = [(''tool_call'', PlainTool), (''command_execution'', CommandExecution), (''file_change'', FileChange)]"

definition phase_names :: "(string \<times> progress_phase) list" where
  "phase_names = [(''preparing'', Preparing), (''executing'', Executing), (''checkpoint'', Checkpoint),
     (''summarizing'', Summarizing), (''terminated'', Terminated)]"

definition severity_names :: "(string \<times> severity) list" where
  "severity_names = [(''info'', SeverityInfo), (''warning'', SeverityWarning), (''error'', SeverityError)]"

definition verdict_names :: "(string \<times> bool) list" where
  "verdict_names = [(''patch is correct'', True), (''patch is incorrect'', False)]"

lemma read_role [reads]: "z_enum role_names (Some (enum_json role_names x)) = Inr x"
  by (cases x; rule z_enum_tag; simp add: role_names_def)

lemma read_item_status [reads]: "z_enum item_status_names (Some (enum_json item_status_names x)) = Inr x"
  by (cases x; rule z_enum_tag; simp add: item_status_names_def)

lemma read_approval [reads]: "z_enum approval_names (Some (enum_json approval_names x)) = Inr x"
  by (cases x; rule z_enum_tag; simp add: approval_names_def)

lemma read_input_status [reads]: "z_enum input_names (Some (enum_json input_names x)) = Inr x"
  by (cases x; rule z_enum_tag; simp add: input_names_def)

lemma read_tool_kind [reads]: "z_enum tool_kind_names (Some (enum_json tool_kind_names x)) = Inr x"
  by (cases x; rule z_enum_tag; simp add: tool_kind_names_def)

lemma read_phase [reads]: "z_enum phase_names (Some (enum_json phase_names x)) = Inr x"
  by (cases x; rule z_enum_tag; simp add: phase_names_def)

lemma read_severity [reads]: "z_enum severity_names (Some (enum_json severity_names x)) = Inr x"
  by (cases x; rule z_enum_tag; simp add: severity_names_def)

lemma read_verdict [reads]: "z_enum verdict_names (Some (enum_json verdict_names x)) = Inr x"
  by (cases x; rule z_enum_tag; simp add: verdict_names_def)

section \<open>Parts of items\<close>

definition option_json :: "input_option \<Rightarrow> json" where
  "option_json p = JObj [(''label'', JStr (io_label p)), (''description'', JStr (io_description p))]"

text \<open>The schemas of items are not strict: a property they do not name is left out.\<close>

definition parse_option :: "json \<Rightarrow> input_option result" where
  "parse_option v = bind_result (z_record (Some v)) (\<lambda>o1.
     bind_result (z_min1 (map_of o1 ''label'')) (\<lambda>l.
     bind_result (z_string (map_of o1 ''description'')) (\<lambda>d. Inr \<lparr>io_label = l, io_description = d\<rparr>)))"

definition question_json :: "input_question \<Rightarrow> json" where
  "question_json q = JObj [(''header'', JStr (iq_header q)), (''id'', JStr (iq_id q)), (''question'', JStr (iq_question q)),
     (''options'', JArr (map option_json (iq_options q)))]"

definition parse_question :: "json \<Rightarrow> input_question result" where
  "parse_question v = bind_result (z_record (Some v)) (\<lambda>o1.
     bind_result (z_min1 (map_of o1 ''header'')) (\<lambda>h.
     bind_result (z_min1 (map_of o1 ''id'')) (\<lambda>i.
     bind_result (z_min1 (map_of o1 ''question'')) (\<lambda>q.
     bind_result (z_array parse_option (map_of o1 ''options'')) (\<lambda>os.
     Inr \<lparr>iq_header = h, iq_id = i, iq_question = q, iq_options = os\<rparr>)))))"

definition location_json :: "review_location \<Rightarrow> json" where
  "location_json l = JObj [(''absoluteFilePath'', JStr (rl_path l)),
     (''lineRange'', JObj [(''start'', nat_json (rl_start l)), (''end'', nat_json (rl_end l))])]"

definition parse_location :: "json option \<Rightarrow> review_location result" where
  "parse_location v = bind_result (z_record v) (\<lambda>o1.
     bind_result (z_min1 (map_of o1 ''absoluteFilePath'')) (\<lambda>p.
     bind_result (z_record (map_of o1 ''lineRange'')) (\<lambda>r.
     bind_result (z_positive (map_of r ''start'')) (\<lambda>a.
     bind_result (z_positive (map_of r ''end'')) (\<lambda>b.
     Inr \<lparr>rl_path = p, rl_start = a, rl_end = b\<rparr>)))))"

definition finding_json :: "review_finding \<Rightarrow> json" where
  "finding_json f = JObj [(''title'', JStr (rf_title f)), (''body'', JStr (rf_body f)),
     (''confidenceScore'', JNum (rf_confidence f)), (''priority'', nat_json (rf_priority f)),
     (''codeLocation'', location_json (rf_location f))]"

definition z_priority :: "json option \<Rightarrow> nat result" where
  "z_priority v = bind_result (z_nat v) (\<lambda>n. if 3 < n then Inl ZodError else Inr n)"

definition parse_finding :: "json \<Rightarrow> review_finding result" where
  "parse_finding v = bind_result (z_record (Some v)) (\<lambda>o1.
     bind_result (z_min1 (map_of o1 ''title'')) (\<lambda>t.
     bind_result (z_string (map_of o1 ''body'')) (\<lambda>b.
     bind_result (z_unit_interval (map_of o1 ''confidenceScore'')) (\<lambda>c.
     bind_result (z_priority (map_of o1 ''priority'')) (\<lambda>p.
     bind_result (parse_location (map_of o1 ''codeLocation'')) (\<lambda>l.
     Inr \<lparr>rf_title = t, rf_body = b, rf_confidence = c, rf_priority = p, rf_location = l\<rparr>))))))"

definition output_json :: "review_output \<Rightarrow> json" where
  "output_json r = JObj [(''findings'', JArr (map finding_json (ro_findings r))),
     (''overallCorrectness'', enum_json verdict_names (ro_correct r)), (''overallExplanation'', JStr (ro_explanation r)),
     (''overallConfidenceScore'', JNum (ro_confidence r))]"

definition parse_output :: "json option \<Rightarrow> review_output result" where
  "parse_output v = bind_result (z_record v) (\<lambda>o1.
     bind_result (z_default [] (z_array parse_finding) (map_of o1 ''findings'')) (\<lambda>fs.
     bind_result (z_enum verdict_names (map_of o1 ''overallCorrectness'')) (\<lambda>c.
     bind_result (z_string (map_of o1 ''overallExplanation'')) (\<lambda>e.
     bind_result (z_unit_interval (map_of o1 ''overallConfidenceScore'')) (\<lambda>s.
     Inr \<lparr>ro_findings = fs, ro_correct = c, ro_explanation = e, ro_confidence = s\<rparr>)))))"

fun target_json :: "review_target \<Rightarrow> json" where
  "target_json UncommittedChanges = JObj [(''kind'', JStr ''uncommittedChanges'')]"
| "target_json (BaseBranch s) = JObj [(''kind'', JStr ''baseBranch''), (''branch'', JStr s)]"
| "target_json (CommitTarget s) = JObj [(''kind'', JStr ''commit''), (''sha'', JStr s)]"
| "target_json (CustomReview s) = JObj [(''kind'', JStr ''custom''), (''instructions'', JStr s)]"

definition parse_target :: "json option \<Rightarrow> review_target result" where
  "parse_target v = bind_result (z_record v) (\<lambda>o1. case map_of o1 ''kind'' of
      Some (JStr k) \<Rightarrow>
        if k = ''uncommittedChanges'' then Inr UncommittedChanges
        else if k = ''baseBranch'' then bind_result (z_nonempty (map_of o1 ''branch'')) (\<lambda>s. Inr (BaseBranch s))
        else if k = ''commit'' then bind_result (z_nonempty (map_of o1 ''sha'')) (\<lambda>s. Inr (CommitTarget s))
        else if k = ''custom'' then bind_result (z_nonempty (map_of o1 ''instructions'')) (\<lambda>s. Inr (CustomReview s))
        else Inl ZodError
    | _ \<Rightarrow> Inl ZodError)"

section \<open>Items\<close>

definition tool_fields :: "tool_use \<Rightarrow> obj" where
  "tool_fields t = [(''toolName'', JStr (tu_tool t)), (''callId'', JStr (tu_call t)), (''toolKind'', enum_json tool_kind_names (tu_kind t))]"

definition parse_tool :: "obj \<Rightarrow> tool_use result" where
  "parse_tool o1 = bind_result (z_min1 (map_of o1 ''toolName'')) (\<lambda>t.
     bind_result (z_min1 (map_of o1 ''callId'')) (\<lambda>c.
     bind_result (z_enum tool_kind_names (map_of o1 ''toolKind'')) (\<lambda>k.
     Inr \<lparr>tu_tool = t, tu_call = c, tu_kind = k\<rparr>)))"

fun kind_name :: "item_body \<Rightarrow> string" where
  "kind_name (UserMessage _ _ _ _) = ''user_message''"
| "kind_name (AssistantText _ _) = ''assistant_text''"
| "kind_name (AssistantReasoning _ _ _) = ''assistant_reasoning''"
| "kind_name (ToolCall _ _ _ _) = ''tool_call''"
| "kind_name (ToolResult _ _ _ _) = ''tool_result''"
| "kind_name (Approval _ _ _ _) = ''approval''"
| "kind_name (UserInput _ _ _ _) = ''user_input''"
| "kind_name (Compaction _ _) = ''compaction''"
| "kind_name (Review _ _ _ _ _) = ''review''"
| "kind_name (RuntimeProgress _ _) = ''runtime_progress''"
| "kind_name (ErrorItem _ _) = ''error''"

fun status_json :: "item_body \<Rightarrow> json" where
  "status_json (UserMessage s _ _ _) = enum_json item_status_names s"
| "status_json (AssistantText s _) = enum_json item_status_names s"
| "status_json (AssistantReasoning s _ _) = enum_json item_status_names s"
| "status_json (ToolCall s _ _ _) = enum_json item_status_names s"
| "status_json (ToolResult s _ _ _) = enum_json item_status_names s"
| "status_json (Approval s _ _ _) = enum_json approval_names s"
| "status_json (UserInput s _ _ _) = enum_json input_names s"
| "status_json (Compaction s _) = enum_json item_status_names s"
| "status_json (Review s _ _ _ _) = enum_json item_status_names s"
| "status_json (RuntimeProgress s _) = enum_json item_status_names s"
| "status_json (ErrorItem s _) = enum_json item_status_names s"

fun body_json :: "item_body \<Rightarrow> obj" where
  "body_json (UserMessage _ text display ids) = (''text'', JStr text) #
     opt_field ''displayText'' JStr display @ opt_field ''attachmentIds'' names_json ids"
| "body_json (AssistantText _ text) = [(''text'', JStr text)]"
| "body_json (AssistantReasoning _ text sig) = (''text'', JStr text) # opt_field ''signature'' JStr sig"
| "body_json (ToolCall _ t args summary) = tool_fields t @ (''arguments'', JObj args) # opt_field ''summary'' JStr summary"
| "body_json (ToolResult _ t out err) = tool_fields t @ opt_field ''output'' id out @ [(''isError'', JBool err)]"
| "body_json (Approval _ i t summary) = [(''approvalId'', JStr i), (''toolName'', JStr t), (''summary'', JStr summary)]"
| "body_json (UserInput _ i prompt qs) = [(''inputId'', JStr i), (''prompt'', JStr prompt), (''questions'', JArr (map question_json qs))]"
| "body_json (Compaction _ c) = [(''summary'', JStr (ci_summary c)), (''replacedTokens'', nat_json (ci_replaced c)),
     (''pinnedConstraints'', names_json (ci_pinned c))] @ opt_field ''sourceDigest'' JStr (ci_digest c) @
     opt_field ''digestMarker'' JStr (ci_marker c) @ opt_field ''sourceItemIds'' names_json (ci_sources c) @
     opt_field ''taskRevision'' nat_json (ci_revision c) @ opt_field ''taskSourceDigest'' JStr (ci_task_digest c)"
| "body_json (Review _ target title text out) = [(''target'', target_json target), (''title'', JStr title)] @
     opt_field ''reviewText'' JStr text @ opt_field ''output'' output_json out"
| "body_json (RuntimeProgress _ p) = [(''phase'', enum_json phase_names (pi_phase p)), (''summary'', JStr (pi_summary p)),
     (''modelSteps'', nat_json (pi_steps p)), (''toolCalls'', nat_json (pi_tools p)), (''evidenceCount'', nat_json (pi_evidence p)),
     (''artifactCount'', nat_json (pi_artifacts p))] @ opt_field ''reason'' JStr (pi_reason p)"
| "body_json (ErrorItem _ e) = (''message'', JStr (er_message e)) # opt_field ''code'' JStr (er_code e) @
     opt_field ''details'' id (er_details e) @ opt_field ''severity'' (enum_json severity_names) (er_severity e)"

definition item_json :: "turn_item \<Rightarrow> json" where
  "item_json x = JObj ([(''id'', JStr (ti_id x)), (''turnId'', JStr (ti_turn x)), (''threadId'', JStr (ti_thread x)),
     (''role'', enum_json role_names (ti_role x)), (''status'', status_json (ti_body x)), (''createdAt'', JStr (ti_created x))] @
     opt_field ''finishedAt'' JStr (ti_finished x) @ (''kind'', JStr (kind_name (ti_body x))) # body_json (ti_body x))"

abbreviation z_names :: "json option \<Rightarrow> string list result" where
  "z_names \<equiv> z_array (\<lambda>v. z_min1 (Some v))"

definition parse_compaction_info :: "obj \<Rightarrow> compaction_info result" where
  "parse_compaction_info o1 =
     bind_result (z_string (map_of o1 ''summary'')) (\<lambda>s.
     bind_result (z_nat (map_of o1 ''replacedTokens'')) (\<lambda>r.
     bind_result (z_array (\<lambda>v. z_string (Some v)) (map_of o1 ''pinnedConstraints'')) (\<lambda>p.
     bind_result (z_optional z_min1 (map_of o1 ''sourceDigest'')) (\<lambda>d.
     bind_result (z_optional z_min1 (map_of o1 ''digestMarker'')) (\<lambda>m.
     bind_result (z_optional z_names (map_of o1 ''sourceItemIds'')) (\<lambda>i.
     bind_result (z_optional z_positive (map_of o1 ''taskRevision'')) (\<lambda>v.
     bind_result (z_optional z_min1 (map_of o1 ''taskSourceDigest'')) (\<lambda>t.
     Inr \<lparr>ci_summary = s, ci_replaced = r, ci_pinned = p, ci_digest = d, ci_marker = m, ci_sources = i,
       ci_revision = v, ci_task_digest = t\<rparr>))))))))"

definition parse_progress_info :: "obj \<Rightarrow> progress_info result" where
  "parse_progress_info o1 =
     bind_result (z_enum phase_names (map_of o1 ''phase'')) (\<lambda>ph.
     bind_result (z_min1 (map_of o1 ''summary'')) (\<lambda>s.
     bind_result (z_nat (map_of o1 ''modelSteps'')) (\<lambda>m.
     bind_result (z_nat (map_of o1 ''toolCalls'')) (\<lambda>t.
     bind_result (z_default 0 z_nat (map_of o1 ''evidenceCount'')) (\<lambda>e.
     bind_result (z_default 0 z_nat (map_of o1 ''artifactCount'')) (\<lambda>a.
     bind_result (z_optional z_string (map_of o1 ''reason'')) (\<lambda>r.
     Inr \<lparr>pi_phase = ph, pi_summary = s, pi_steps = m, pi_tools = t, pi_evidence = e, pi_artifacts = a, pi_reason = r\<rparr>)))))))"

definition progress_keys :: "string list" where
  "progress_keys = [''id'', ''turnId'', ''threadId'', ''role'', ''status'', ''createdAt'', ''finishedAt'', ''kind'', ''phase'',
     ''summary'', ''modelSteps'', ''toolCalls'', ''evidenceCount'', ''artifactCount'', ''reason'']"

definition z_status :: "obj \<Rightarrow> item_status result" where
  "z_status o1 = z_enum item_status_names (map_of o1 ''status'')"

text \<open>The union is discriminated by \<open>kind\<close>; only the schema of progress items is strict.\<close>

definition parse_user :: "obj \<Rightarrow> item_body result" where
  "parse_user o1 =
     bind_result (z_status o1) (\<lambda>s.
     bind_result (z_string (map_of o1 ''text'')) (\<lambda>t.
     bind_result (z_optional z_string (map_of o1 ''displayText'')) (\<lambda>d.
     bind_result (z_optional z_names (map_of o1 ''attachmentIds'')) (\<lambda>i. Inr (UserMessage s t d i)))))"

definition parse_reasoning :: "obj \<Rightarrow> item_body result" where
  "parse_reasoning o1 =
     bind_result (z_status o1) (\<lambda>s.
     bind_result (z_string (map_of o1 ''text'')) (\<lambda>t.
     bind_result (z_optional z_string (map_of o1 ''signature'')) (\<lambda>g. Inr (AssistantReasoning s t g))))"

definition parse_call :: "obj \<Rightarrow> item_body result" where
  "parse_call o1 =
     bind_result (z_status o1) (\<lambda>s.
     bind_result (parse_tool o1) (\<lambda>t.
     bind_result (z_record (map_of o1 ''arguments'')) (\<lambda>a.
     bind_result (z_optional z_string (map_of o1 ''summary'')) (\<lambda>m. Inr (ToolCall s t a m)))))"

definition parse_tool_result :: "obj \<Rightarrow> item_body result" where
  "parse_tool_result o1 =
     bind_result (z_status o1) (\<lambda>s.
     bind_result (parse_tool o1) (\<lambda>t.
     bind_result (z_default False z_bool (map_of o1 ''isError'')) (\<lambda>e. Inr (ToolResult s t (map_of o1 ''output'') e))))"

definition parse_approval :: "obj \<Rightarrow> item_body result" where
  "parse_approval o1 =
     bind_result (z_enum approval_names (map_of o1 ''status'')) (\<lambda>s.
     bind_result (z_min1 (map_of o1 ''approvalId'')) (\<lambda>i.
     bind_result (z_min1 (map_of o1 ''toolName'')) (\<lambda>t.
     bind_result (z_string (map_of o1 ''summary'')) (\<lambda>m. Inr (Approval s i t m)))))"

definition parse_input :: "obj \<Rightarrow> item_body result" where
  "parse_input o1 =
     bind_result (z_enum input_names (map_of o1 ''status'')) (\<lambda>s.
     bind_result (z_min1 (map_of o1 ''inputId'')) (\<lambda>i.
     bind_result (z_string (map_of o1 ''prompt'')) (\<lambda>p.
     bind_result (z_default [] (z_array parse_question) (map_of o1 ''questions'')) (\<lambda>qs. Inr (UserInput s i p qs)))))"

definition parse_review :: "obj \<Rightarrow> item_body result" where
  "parse_review o1 =
     bind_result (z_status o1) (\<lambda>s.
     bind_result (parse_target (map_of o1 ''target'')) (\<lambda>t.
     bind_result (z_min1 (map_of o1 ''title'')) (\<lambda>n.
     bind_result (z_optional z_string (map_of o1 ''reviewText'')) (\<lambda>r.
     bind_result (z_optional parse_output (map_of o1 ''output'')) (\<lambda>p. Inr (Review s t n r p))))))"

definition parse_error :: "obj \<Rightarrow> item_body result" where
  "parse_error o1 =
     bind_result (z_status o1) (\<lambda>s.
     bind_result (z_string (map_of o1 ''message'')) (\<lambda>m.
     bind_result (z_optional z_string (map_of o1 ''code'')) (\<lambda>c.
     bind_result (z_optional (z_enum severity_names) (map_of o1 ''severity'')) (\<lambda>v.
     Inr (ErrorItem s \<lparr>er_message = m, er_code = c, er_details = map_of o1 ''details'', er_severity = v\<rparr>)))))"

definition parse_body :: "string \<Rightarrow> obj \<Rightarrow> item_body result" where
  "parse_body k o1 = (
     if k = ''user_message'' then parse_user o1
     else if k = ''assistant_text'' then bind_result (z_status o1) (\<lambda>s. bind_result (z_string (map_of o1 ''text'')) (\<lambda>t. Inr (AssistantText s t)))
     else if k = ''assistant_reasoning'' then parse_reasoning o1
     else if k = ''tool_call'' then parse_call o1
     else if k = ''tool_result'' then parse_tool_result o1
     else if k = ''approval'' then parse_approval o1
     else if k = ''user_input'' then parse_input o1
     else if k = ''compaction'' then bind_result (z_status o1) (\<lambda>s. bind_result (parse_compaction_info o1) (\<lambda>c. Inr (Compaction s c)))
     else if k = ''review'' then parse_review o1
     else if k = ''runtime_progress'' then bind_result (z_object progress_keys (JObj o1)) (\<lambda>_.
       bind_result (z_status o1) (\<lambda>s. bind_result (parse_progress_info o1) (\<lambda>p. Inr (RuntimeProgress s p))))
     else if k = ''error'' then parse_error o1
     else Inl ZodError)"

definition parse_item :: "json \<Rightarrow> turn_item result" where
  "parse_item v =
     bind_result (z_record (Some v)) (\<lambda>o1.
     bind_result (z_string (map_of o1 ''kind'')) (\<lambda>k.
     bind_result (z_min1 (map_of o1 ''id'')) (\<lambda>i.
     bind_result (z_min1 (map_of o1 ''turnId'')) (\<lambda>u.
     bind_result (z_min1 (map_of o1 ''threadId'')) (\<lambda>t.
     bind_result (z_enum role_names (map_of o1 ''role'')) (\<lambda>r.
     bind_result (z_string (map_of o1 ''createdAt'')) (\<lambda>c.
     bind_result (z_optional z_string (map_of o1 ''finishedAt'')) (\<lambda>f.
     bind_result (parse_body k o1) (\<lambda>b.
     Inr \<lparr>ti_id = i, ti_turn = u, ti_thread = t, ti_role = r, ti_created = c, ti_finished = f, ti_body = b\<rparr>)))))))))"

section \<open>The round trip\<close>

lemma lookup_opt [simp]:
  "map_of (opt_field k f v @ r) k' = (if k = k' then (case v of None \<Rightarrow> map_of r k' | Some x \<Rightarrow> Some (f x)) else map_of r k')"
  "map_of (opt_field k f v) k' = (if k = k' then map_option f v else None)"
  by (cases v; simp)+

lemma case_map_option [simp]: "(case v of None \<Rightarrow> None | Some x \<Rightarrow> Some (f x)) = map_option f v"
  by (cases v) auto

lemma z_optional_map [reads]: "(\<And>x. v = Some x \<Longrightarrow> p (Some (f x)) = Inr x) \<Longrightarrow> z_optional p (map_option f v) = Inr v"
  by (cases v) (auto simp: z_optional_def result_simps)

lemma z_array_empty: "z_array p (Some (JArr [])) = Inr []"
  by (simp add: z_array_def)

lemma read_option [reads]: "io_label p \<noteq> [] \<Longrightarrow> parse_option (option_json p) = Inr p"
  by (simp add: parse_option_def option_json_def reads result_simps)

lemma read_question [reads]: "question_ok q \<Longrightarrow> parse_question (question_json q) = Inr q"
  by (simp add: parse_question_def question_json_def question_ok_def reads result_simps list_all_iff)

text \<open>Counts stay exact below \<open>2 ^ 53\<close>; the schemas refuse larger ones.\<close>

definition finding_counts :: "review_finding \<Rightarrow> bool" where
  "finding_counts f \<longleftrightarrow> safe_count (rl_start (rf_location f)) \<and> safe_count (rl_end (rf_location f))"

fun body_counts :: "item_body \<Rightarrow> bool" where
  "body_counts (Compaction _ c) = (safe_count (ci_replaced c) \<and> (case ci_revision c of None \<Rightarrow> True | Some n \<Rightarrow> safe_count n))"
| "body_counts (Review _ _ _ _ out) = (case out of None \<Rightarrow> True | Some r \<Rightarrow> list_all finding_counts (ro_findings r))"
| "body_counts (RuntimeProgress _ p) = (safe_count (pi_steps p) \<and> safe_count (pi_tools p) \<and> safe_count (pi_evidence p) \<and>
     safe_count (pi_artifacts p))"
| "body_counts _ = True"

lemma read_finding [reads]: "finding_ok f \<Longrightarrow> finding_counts f \<Longrightarrow> parse_finding (finding_json f) = Inr f"
  by (simp add: parse_finding_def finding_json_def finding_ok_def finding_counts_def parse_location_def location_json_def
      z_priority_def safe_count_def max_safe_integer_def reads result_simps)

lemma read_output [reads]:
  "output_ok r \<Longrightarrow> list_all finding_counts (ro_findings r) \<Longrightarrow> parse_output (Some (output_json r)) = Inr r"
  by (simp add: parse_output_def output_json_def output_ok_def reads result_simps list_all_iff)

lemma read_target [reads]: "target_ok t \<Longrightarrow> parse_target (Some (target_json t)) = Inr t"
  by (cases t) (auto simp: parse_target_def reads result_simps)

definition item_fields :: "turn_item \<Rightarrow> obj" where
  "item_fields x = [(''id'', JStr (ti_id x)), (''turnId'', JStr (ti_turn x)), (''threadId'', JStr (ti_thread x)),
     (''role'', enum_json role_names (ti_role x)), (''status'', status_json (ti_body x)), (''createdAt'', JStr (ti_created x))] @
     opt_field ''finishedAt'' JStr (ti_finished x) @ (''kind'', JStr (kind_name (ti_body x))) # body_json (ti_body x)"

lemma item_json_fields: "item_json x = JObj (item_fields x)"
  by (simp add: item_json_def item_fields_def)

lemmas body_readers = parse_body_def parse_user_def parse_reasoning_def parse_call_def parse_tool_result_def parse_approval_def
  parse_input_def parse_review_def parse_error_def parse_tool_def tool_fields_def parse_compaction_info_def parse_progress_info_def
  z_status_def compaction_ok_def tool_use_ok_def

lemma item_lookup:
  "map_of (item_fields x) ''id'' = Some (JStr (ti_id x))" "map_of (item_fields x) ''turnId'' = Some (JStr (ti_turn x))"
  "map_of (item_fields x) ''threadId'' = Some (JStr (ti_thread x))" "map_of (item_fields x) ''role'' = Some (enum_json role_names (ti_role x))"
  "map_of (item_fields x) ''status'' = Some (status_json (ti_body x))" "map_of (item_fields x) ''createdAt'' = Some (JStr (ti_created x))"
  "map_of (item_fields x) ''kind'' = Some (JStr (kind_name (ti_body x)))"
  by (simp_all add: item_fields_def del: map_of_append)

lemma item_lookup_body:
  "k \<notin> {''id'', ''turnId'', ''threadId'', ''role'', ''status'', ''createdAt'', ''finishedAt'', ''kind''} \<Longrightarrow>
     map_of (item_fields x) k = map_of (body_json (ti_body x)) k"
  by (auto simp: item_fields_def simp del: map_of_append)

lemma option_preds: "(case v of None \<Rightarrow> True | Some x \<Rightarrow> P x) = pred_option P v"
  by (cases v) auto

lemma body_no_finish: "map_of (body_json b) ''finishedAt'' = None"
  by (cases b) (simp_all add: tool_fields_def del: map_of_append)

lemma item_lookup_finished: "map_of (item_fields x) ''finishedAt'' = map_option JStr (ti_finished x)"
  by (cases "ti_finished x") (simp_all add: item_fields_def body_no_finish del: map_of_append)

lemma progress_fields: "ti_body x = RuntimeProgress s p \<Longrightarrow> list_all (\<lambda>kv. fst kv \<in> set progress_keys) (item_fields x)"
  by (cases "ti_finished x"; cases "pi_reason p") (simp_all add: item_fields_def progress_keys_def)

lemma optional_reads [reads]:
  "filled v \<Longrightarrow> z_optional z_min1 (map_option JStr v) = Inr v"
  "names_filled ns \<Longrightarrow> z_optional z_names (map_option names_json ns) = Inr ns"
  "n \<noteq> Some 0 \<Longrightarrow> pred_option safe_count n \<Longrightarrow> z_optional z_positive (map_option nat_json n) = Inr n"
  "pred_option output_ok out \<Longrightarrow> pred_option (\<lambda>r. list_all finding_counts (ro_findings r)) out \<Longrightarrow>
     z_optional parse_output (map_option output_json out) = Inr out"
  by (rule z_optional_map; auto simp: reads names_filled_def)+

lemma read_body: "body_ok (ti_body x) \<Longrightarrow> body_counts (ti_body x) \<Longrightarrow> parse_body (kind_name (ti_body x)) (item_fields x) = Inr (ti_body x)"
  by (cases "ti_body x") (simp_all add: body_readers item_lookup item_lookup_body reads result_simps z_object_def progress_fields
    option_preds list_all_iff[of question_ok] option.map_ident
    del: map_of_append cong del: option.case_cong_weak)

named_theorems accepts \<open>what an accepted value satisfies\<close>

lemma z_min1_gives [accepts]: "z_min1 v = Inr s \<Longrightarrow> s \<noteq> []"
  by (auto simp: z_min1_def result_simps split: if_splits)

lemma z_nonempty_gives [accepts]: "z_nonempty v = Inr s \<Longrightarrow> trim s = s \<and> s \<noteq> []"
  by (auto simp: z_nonempty_def split: option.splits json.splits if_splits)

lemma z_nat_gives [accepts]: "z_nat v = Inr n \<Longrightarrow> safe_count n"
proof -
  assume "z_nat v = Inr n"
  then obtain x where x: "is_safe_integer x" "0 \<le> x" "n = nat \<lfloor>x\<rfloor>"
    by (auto simp: z_nat_def split: option.splits json.splits if_splits)
  then obtain i where "x = of_int i" by (auto simp: is_safe_integer_def elim: Ints_cases)
  with x show ?thesis by (simp add: safe_count_def)
qed

lemma z_positive_gives [accepts]: "z_positive v = Inr n \<Longrightarrow> safe_count n \<and> n \<noteq> 0"
  by (auto simp: z_positive_def result_simps split: if_splits dest: z_nat_gives)

lemma z_unit_interval_gives [accepts]: "z_unit_interval v = Inr x \<Longrightarrow> 0 \<le> x \<and> x \<le> 1"
  by (auto simp: z_unit_interval_def split: option.splits json.splits if_splits)

lemma z_priority_gives [accepts]: "z_priority v = Inr n \<Longrightarrow> n \<le> 3"
  by (auto simp: z_priority_def result_simps split: if_splits)

lemma z_array_gives: "z_array p v = Inr xs \<Longrightarrow> (\<And>y x. p y = Inr x \<Longrightarrow> P x) \<Longrightarrow> list_all P xs"
  by (auto simp: z_array_def map_result_all2 list_all2_conv_all_nth list_all_length split: option.splits json.splits)

lemma z_optional_gives: "z_optional p v = Inr r \<Longrightarrow> (\<And>y x. p y = Inr x \<Longrightarrow> P x) \<Longrightarrow> pred_option P r"
  by (auto simp: z_optional_def result_simps split: option.splits)

lemma z_default_gives: "z_default d p v = Inr r \<Longrightarrow> P d \<Longrightarrow> (\<And>y x. p y = Inr x \<Longrightarrow> P x) \<Longrightarrow> P r"
  by (auto simp: z_default_def split: option.splits)

lemma optional_accepts [accepts]:
  "z_optional z_min1 v = Inr r \<Longrightarrow> filled r"
  "z_optional z_positive v = Inr n \<Longrightarrow> n \<noteq> Some 0 \<and> pred_option safe_count n"
  using z_optional_gives[of z_min1 v r "\<lambda>s. s \<noteq> []"] z_optional_gives[of z_positive v n "\<lambda>n. safe_count n \<and> n \<noteq> 0"]
  by (auto simp: filled_def z_min1_gives z_positive_gives elim: option.pred_mono_strong)

lemma names_field_accepts [accepts]: "z_optional z_names v = Inr r \<Longrightarrow> names_filled r"
proof -
  assume "z_optional z_names v = Inr r"
  then have "pred_option (list_all (\<lambda>s. s \<noteq> [])) r"
    by (rule z_optional_gives) (erule z_array_gives, erule z_min1_gives)
  then show ?thesis by (simp add: names_filled_def option_preds)
qed

lemma parse_question_gives: "parse_question v = Inr q \<Longrightarrow> question_ok q"
  by (auto simp: parse_question_def question_ok_def result_simps z_min1_gives parse_option_def intro!: z_array_gives)

lemma parse_finding_gives: "parse_finding v = Inr f \<Longrightarrow> finding_ok f \<and> finding_counts f"
  by (auto simp: parse_finding_def finding_ok_def finding_counts_def parse_location_def result_simps dest!: accepts)

lemma parse_findings_gives:
  "z_default [] (z_array parse_finding) v = Inr fs \<Longrightarrow> list_all finding_ok fs \<and> list_all finding_counts fs"
proof -
  assume "z_default [] (z_array parse_finding) v = Inr fs"
  then have "list_all (\<lambda>f. finding_ok f \<and> finding_counts f) fs"
    by (rule z_default_gives) (simp, erule z_array_gives, erule parse_finding_gives)
  then show ?thesis by (simp add: list_all_iff)
qed

lemma parse_output_gives: "parse_output v = Inr r \<Longrightarrow> output_ok r \<and> list_all finding_counts (ro_findings r)"
  by (auto simp: parse_output_def output_ok_def result_simps dest!: z_unit_interval_gives parse_findings_gives)

lemma named_target: "bind_result (z_nonempty w) (\<lambda>s. Inr (C s)) = Inr t \<Longrightarrow> \<exists>s. t = C s \<and> trim s = s \<and> s \<noteq> []"
  by (auto simp: result_simps dest!: z_nonempty_gives)

lemma parse_target_gives: "parse_target v = Inr t \<Longrightarrow> target_ok t"
  unfolding parse_target_def bind_result_Inr[where m = "z_record v"]
  by (elim exE conjE, simp split: option.split_asm json.split_asm if_split_asm; (drule named_target)?; auto)

lemma parse_tool_gives: "parse_tool o1 = Inr t \<Longrightarrow> tool_use_ok t"
  by (auto simp: parse_tool_def tool_use_ok_def result_simps dest!: z_min1_gives)

lemma parse_compaction_gives:
  "parse_compaction_info o1 = Inr c \<Longrightarrow> compaction_ok c \<and> safe_count (ci_replaced c) \<and> pred_option safe_count (ci_revision c)"
  by (auto simp: parse_compaction_info_def compaction_ok_def result_simps dest!: optional_accepts names_field_accepts z_nat_gives)

lemma parse_progress_gives: "parse_progress_info o1 = Inr p \<Longrightarrow> pi_summary p \<noteq> [] \<and> safe_count (pi_steps p) \<and>
    safe_count (pi_tools p) \<and> safe_count (pi_evidence p) \<and> safe_count (pi_artifacts p)"
  by (auto simp: parse_progress_info_def result_simps safe_count_def max_safe_integer_def
      dest!: z_min1_gives z_nat_gives z_default_gives[where P = safe_count])

lemma body_cases_accept:
  "parse_user o1 = Inr b \<Longrightarrow> body_ok b \<and> body_counts b"
  "parse_reasoning o1 = Inr b \<Longrightarrow> body_ok b \<and> body_counts b"
  "parse_call o1 = Inr b \<Longrightarrow> body_ok b \<and> body_counts b"
  "parse_tool_result o1 = Inr b \<Longrightarrow> body_ok b \<and> body_counts b"
  "parse_approval o1 = Inr b \<Longrightarrow> body_ok b \<and> body_counts b"
  "parse_error o1 = Inr b \<Longrightarrow> body_ok b \<and> body_counts b"
  unfolding parse_user_def parse_reasoning_def parse_call_def parse_tool_result_def parse_approval_def parse_error_def result_simps
  by (elim exE conjE; auto dest: names_field_accepts parse_tool_gives z_min1_gives)+

lemma parse_input_gives: "parse_input o1 = Inr b \<Longrightarrow> body_ok b \<and> body_counts b"
proof -
  assume "parse_input o1 = Inr b"
  then obtain s i p qs where i: "z_min1 (map_of o1 ''inputId'') = Inr i" and b: "b = UserInput s i p qs"
    and qs: "z_default [] (z_array parse_question) (map_of o1 ''questions'') = Inr qs"
    by (auto simp: parse_input_def result_simps)
  from qs have "list_all question_ok qs" by (rule z_default_gives) (simp, erule z_array_gives, erule parse_question_gives)
  with z_min1_gives[OF i] b show ?thesis by simp
qed

lemma parse_review_gives: "parse_review o1 = Inr b \<Longrightarrow> body_ok b \<and> body_counts b"
proof -
  assume "parse_review o1 = Inr b"
  then obtain s t n r out where t: "parse_target (map_of o1 ''target'') = Inr t" and n: "z_min1 (map_of o1 ''title'') = Inr n"
    and out: "z_optional parse_output (map_of o1 ''output'') = Inr out" and b: "b = Review s t n r out"
    by (auto simp: parse_review_def result_simps)
  from out have "pred_option (\<lambda>r. output_ok r \<and> list_all finding_counts (ro_findings r)) out"
    by (rule z_optional_gives) (erule parse_output_gives)
  with parse_target_gives[OF t] z_min1_gives[OF n] b show ?thesis by (cases out) simp_all
qed

lemma parse_body_gives: "parse_body k o1 = Inr b \<Longrightarrow> body_ok b \<and> body_counts b \<and> kind_name b = k"
proof -
  assume p: "parse_body k o1 = Inr b"
  have kinds: "parse_user o1 = Inr b \<Longrightarrow> kind_name b = ''user_message''" "parse_reasoning o1 = Inr b \<Longrightarrow> kind_name b = ''assistant_reasoning''"
    "parse_call o1 = Inr b \<Longrightarrow> kind_name b = ''tool_call''" "parse_tool_result o1 = Inr b \<Longrightarrow> kind_name b = ''tool_result''"
    "parse_approval o1 = Inr b \<Longrightarrow> kind_name b = ''approval''" "parse_error o1 = Inr b \<Longrightarrow> kind_name b = ''error''"
    "parse_input o1 = Inr b \<Longrightarrow> kind_name b = ''user_input''" "parse_review o1 = Inr b \<Longrightarrow> kind_name b = ''review''"
    unfolding parse_user_def parse_reasoning_def parse_call_def parse_tool_result_def parse_approval_def parse_error_def
      parse_input_def parse_review_def result_simps by auto
  have composed:
    "bind_result (z_status o1) (\<lambda>s. bind_result (parse_compaction_info o1) (\<lambda>c. Inr (Compaction s c))) = Inr b \<Longrightarrow>
      body_ok b \<and> body_counts b \<and> kind_name b = ''compaction''"
    "bind_result (z_object progress_keys (JObj o1)) (\<lambda>_. bind_result (z_status o1) (\<lambda>s. bind_result (parse_progress_info o1)
      (\<lambda>c. Inr (RuntimeProgress s c)))) = Inr b \<Longrightarrow> body_ok b \<and> body_counts b \<and> kind_name b = ''runtime_progress''"
    "bind_result (z_status o1) (\<lambda>s. bind_result (z_string (map_of o1 ''text'')) (\<lambda>t. Inr (AssistantText s t))) = Inr b \<Longrightarrow>
      body_ok b \<and> body_counts b \<and> kind_name b = ''assistant_text''"
    by (auto simp: result_simps option_preds dest!: parse_compaction_gives parse_progress_gives)
  show ?thesis
    using p unfolding parse_body_def
    by (simp only: split: if_split_asm)
      (simp_all add: kinds body_cases_accept parse_input_gives parse_review_gives composed)
qed

lemma parse_item_gives: "parse_item v = Inr x \<Longrightarrow> item_ok x \<and> body_counts (ti_body x)"
  unfolding parse_item_def result_simps by (elim exE conjE) (auto simp: item_ok_def dest: z_min1_gives parse_body_gives)

lemma read_item: "item_ok x \<Longrightarrow> body_counts (ti_body x) \<Longrightarrow> parse_item (item_json x) = Inr x"
  by (simp add: parse_item_def item_json_fields read_body item_ok_def item_lookup item_lookup_finished reads result_simps)

text \<open>
  C36. Items survive the round trip: an item that meets its schema, written as JSON and read again by the schema,
  is the item that was written; and whatever the schema reads is such an item.
\<close>

theorem item_roundtrip:
  "(item_ok x \<and> body_counts (ti_body x) \<longrightarrow> parse_item (item_json x) = Inr x) \<and>
   (parse_item v = Inr x \<longrightarrow> parse_item (item_json x) = Inr x)"
  using read_item[of x] parse_item_gives[of v x] by blast

definition written_item :: turn_item where
  "written_item = \<lparr>ti_id = ''i'', ti_turn = ''u'', ti_thread = ''t'', ti_role = ToolRole, ti_created = ''1'', ti_finished = Some ''2'',
     ti_body = ToolResult ItemCompleted \<lparr>tu_tool = ''read'', tu_call = ''c'', tu_kind = PlainTool\<rparr> (Some (JStr ''ok'')) False\<rparr>"

theorem item_roundtrip_witness: "parse_item (item_json written_item) = Inr written_item"
  using item_roundtrip[of written_item] by (simp add: written_item_def item_ok_def tool_use_ok_def)

end
