(* ===== verification/ToolObservation.thy ===== *)
theory ToolObservation
  imports ItemJson TaskContracts ThreadService
begin

text \<open>
  What the runtime notes of a tool call (\<open>loop/src/tool-observation.ts\<close>, the schemas of
  \<open>contracts/task-state.ts\<close>): calls and results are brought into a normal form, a result that is not strict
  JSON becomes a failed item, and every call leaves an observation with digests of its arguments and
  its result and with the resources it touched, relative to the workspace or as a digest.

  \<open>sha d v\<close> is the SHA-256 of the domain \<open>d\<close> and the JSON text of \<open>v\<close>. Paths follow POSIX rules; the rules of
  Windows and of \<open>file:\<close> URLs are those of node's \<open>path.win32\<close> and \<open>URL\<close> and enter as the functions \<open>path_rules\<close>.
\<close>

section \<open>Calls and results\<close>

record tool_call =
  tk_call :: string
  tk_tool :: string
  tk_provider :: "string option"
  tk_kind :: "tool_kind option"
  tk_arguments :: obj

text \<open>
  A result of a host: its item is a JSON value, or a value that is not one, given by the type of the first
  part that is not and by the string properties that can be read.
\<close>

datatype raw_item = Json_item json | Other_item string obj

record raw_result =
  rw_item :: raw_item
  rw_approved :: bool
  rw_semantic :: "json option"

record tool_semantic =
  tm_class :: string
  tm_resources :: "string list"
  tm_artifacts :: "artifact_ref list option"

record host_result =
  hr_item :: turn_item
  hr_approved :: bool
  hr_semantic :: "tool_semantic option"

record tool_place =
  tp_workspace :: string
  tp_thread :: string
  tp_turn :: string

section \<open>The schemas of results and observations\<close>

definition z_texts :: "json option \<Rightarrow> string list result" where
  "z_texts = z_array (\<lambda>v. z_nonempty (Some v))"

definition artifact_kinds :: "(string \<times> artifact_kind) list" where
  "artifact_kinds = [(''file'', File_artifact), (''artifact'', Plain_artifact), (''report'', Report_artifact),
     (''dashboard'', Dashboard_artifact)]"

definition artifact_ref_json :: "artifact_ref \<Rightarrow> json" where
  "artifact_ref_json a = JObj ([(''path'', JStr (ar_path a)), (''kind'', enum_json artifact_kinds (ar_kind a))] @
     opt_field ''producedByCallId'' JStr (ar_call a))"

definition parse_artifact :: "json \<Rightarrow> artifact_ref result" where
  "parse_artifact v = bind_result (z_object [''path'', ''kind'', ''producedByCallId''] v) (\<lambda>o1.
     bind_result (z_nonempty (map_of o1 ''path'')) (\<lambda>p.
     bind_result (z_enum artifact_kinds (map_of o1 ''kind'')) (\<lambda>k.
     bind_result (z_optional z_nonempty (map_of o1 ''producedByCallId'')) (\<lambda>c.
     Inr \<lparr>ar_path = p, ar_kind = k, ar_call = c\<rparr>))))"

definition semantic_json :: "tool_semantic \<Rightarrow> json" where
  "semantic_json m = JObj ([(''capabilityClass'', JStr (tm_class m)), (''resourceKeys'', names_json (tm_resources m))] @
     opt_field ''artifactRefs'' (\<lambda>as. JArr (map artifact_ref_json as)) (tm_artifacts m))"

definition parse_semantic :: "json option \<Rightarrow> tool_semantic result" where
  "parse_semantic v = (case v of None \<Rightarrow> Inl ZodError | Some j \<Rightarrow>
     bind_result (z_object [''capabilityClass'', ''resourceKeys'', ''artifactRefs''] j) (\<lambda>o1.
     bind_result (z_nonempty (map_of o1 ''capabilityClass'')) (\<lambda>c.
     bind_result (z_array (\<lambda>v. z_string (Some v)) (map_of o1 ''resourceKeys'')) (\<lambda>ks.
     bind_result (z_optional (z_array parse_artifact) (map_of o1 ''artifactRefs'')) (\<lambda>as.
     Inr \<lparr>tm_class = c, tm_resources = ks, tm_artifacts = as\<rparr>)))))"

definition host_json :: "host_result \<Rightarrow> json" where
  "host_json r = JObj ([(''item'', item_json (hr_item r)), (''approved'', JBool (hr_approved r))] @
     opt_field ''semantic'' semantic_json (hr_semantic r))"

definition parse_host :: "json \<Rightarrow> host_result result" where
  "parse_host v = bind_result (z_object [''item'', ''approved'', ''semantic''] v) (\<lambda>o1.
     bind_result (case map_of o1 ''item'' of None \<Rightarrow> Inl ZodError | Some j \<Rightarrow> parse_item j) (\<lambda>x.
     bind_result (z_bool (map_of o1 ''approved'')) (\<lambda>b.
     bind_result (z_optional parse_semantic (map_of o1 ''semantic'')) (\<lambda>m.
     Inr \<lparr>hr_item = x, hr_approved = b, hr_semantic = m\<rparr>))))"

definition observation_json :: "tool_observation \<Rightarrow> json" where
  "observation_json t = JObj
     [(''callId'', JStr (ob_call t)), (''toolName'', JStr (ob_tool t)), (''effect'', enum_json effect_class_table (ob_effect t)),
      (''capabilityClass'', JStr (ob_class t)), (''resourceKeys'', names_json (ob_resources t)),
      (''canonicalArgumentsDigest'', JStr (ob_arguments t)), (''resultDigest'', JStr (ob_result t)),
      (''resultItemId'', JStr (ob_item t)), (''artifactRefs'', JArr (map artifact_ref_json (ob_artifacts t))),
      (''failed'', JBool (ob_failed t)), (''replayed'', JBool (ob_replayed t))]"

definition observation_keys :: "string list" where
  "observation_keys = [''callId'', ''toolName'', ''effect'', ''capabilityClass'', ''resourceKeys'', ''canonicalArgumentsDigest'',
     ''resultDigest'', ''resultItemId'', ''artifactRefs'', ''failed'', ''replayed'']"

definition parse_observation :: "json \<Rightarrow> tool_observation result" where
  "parse_observation v = bind_result (z_object observation_keys v) (\<lambda>o1.
     bind_result (z_nonempty (map_of o1 ''callId'')) (\<lambda>c.
     bind_result (z_nonempty (map_of o1 ''toolName'')) (\<lambda>t.
     bind_result (z_enum effect_class_table (map_of o1 ''effect'')) (\<lambda>e.
     bind_result (z_nonempty (map_of o1 ''capabilityClass'')) (\<lambda>k.
     bind_result (z_texts (map_of o1 ''resourceKeys'')) (\<lambda>rs.
     bind_result (z_nonempty (map_of o1 ''canonicalArgumentsDigest'')) (\<lambda>a.
     bind_result (z_nonempty (map_of o1 ''resultDigest'')) (\<lambda>r.
     bind_result (z_nonempty (map_of o1 ''resultItemId'')) (\<lambda>i.
     bind_result (z_array parse_artifact (map_of o1 ''artifactRefs'')) (\<lambda>as.
     bind_result (z_bool (map_of o1 ''failed'')) (\<lambda>f.
     bind_result (z_bool (map_of o1 ''replayed'')) (\<lambda>p.
     Inr \<lparr>ob_call = c, ob_tool = t, ob_effect = e, ob_class = k, ob_resources = rs, ob_arguments = a, ob_result = r,
       ob_item = i, ob_artifacts = as, ob_failed = f, ob_replayed = p\<rparr>))))))))))))"

section \<open>Normal forms\<close>

definition requireNonEmptyString :: "string \<Rightarrow> string \<Rightarrow> string result" where
  "requireNonEmptyString v label = (if trim v = [] then throw (label @ '' must be nonempty'') else Inr v)"

text \<open>On JSON values the canonical form of the arguments is that of \<^const>\<open>canonicalize\<close>.\<close>

definition normalizeToolCall :: "tool_call \<Rightarrow> tool_call result" where
  "normalizeToolCall c =
     bind_result (requireNonEmptyString (tk_call c) ''tool call id'') (\<lambda>i.
     bind_result (requireNonEmptyString (tk_tool c) ''tool name'') (\<lambda>t.
     bind_result (case truthy (tk_provider c) of None \<Rightarrow> Inr None
       | Some p \<Rightarrow> bind_result (requireNonEmptyString p ''provider id'') (\<lambda>p. Inr (Some p))) (\<lambda>p.
     Inr \<lparr>tk_call = i, tk_tool = t, tk_provider = p, tk_kind = tk_kind c,
       tk_arguments = (case canonicalize (JObj (tk_arguments c)) of JObj kvs \<Rightarrow> kvs | _ \<Rightarrow> [])\<rparr>)))"

definition null_or :: "('a \<Rightarrow> json) \<Rightarrow> 'a option \<Rightarrow> json" where
  "null_or f x = (case x of None \<Rightarrow> JNull | Some y \<Rightarrow> f y)"

definition canonicalToolDigest :: "(string \<Rightarrow> json \<Rightarrow> string) \<Rightarrow> tool_call \<Rightarrow> string result" where
  "canonicalToolDigest sha call = bind_result (normalizeToolCall call) (\<lambda>c. Inr (sha ''tool-arguments:v1''
     (JObj [(''toolName'', JStr (tk_tool c)), (''providerId'', null_or JStr (tk_provider c)),
       (''toolKind'', null_or (enum_json tool_kind_names) (tk_kind c)), (''arguments'', JObj (tk_arguments c))])))"

fun unsafe_number :: "json \<Rightarrow> bool" where
  "unsafe_number (JNum n) = (of_int \<lfloor>n\<rfloor> = n \<and> \<not> is_safe_integer n)"
| "unsafe_number (JArr vs) = list_ex unsafe_number vs"
| "unsafe_number (JObj kvs) = list_ex (\<lambda>kv. unsafe_number (snd kv)) kvs"
| "unsafe_number _ = False"

definition own_properties :: "json \<Rightarrow> obj" where
  "own_properties v = (case v of JObj kvs \<Rightarrow> kvs | _ \<Rightarrow> [])"

definition read_raw_item :: "raw_item \<Rightarrow> (string \<times> obj) + turn_item" where
  "read_raw_item r = (case r of
      Other_item ty kvs \<Rightarrow> Inl (ty, kvs)
    | Json_item v \<Rightarrow> if unsafe_number v then Inl (''number:unsafe-integer'', own_properties v)
        else (case parse_item (canonicalize v) of Inl _ \<Rightarrow> Inl (''invalid-tool-result'', own_properties v) | Inr x \<Rightarrow> Inr x))"

definition safeStringProperty :: "obj \<Rightarrow> string \<Rightarrow> string option" where
  "safeStringProperty kvs k = (case map_of kvs k of Some (JStr s) \<Rightarrow> truthy (Some s) | _ \<Rightarrow> None)"

definition nonEmptyOrFallback :: "string \<Rightarrow> string \<Rightarrow> string" where
  "nonEmptyOrFallback v d = (if trim v = [] then d else v)"

definition epoch_time :: string where
  "epoch_time = ''1970-01-01T00:00:00.000Z''"

definition normalizationFailureItem :: "string \<times> obj \<Rightarrow> tool_call \<Rightarrow> tool_place \<Rightarrow> turn_item" where
  "normalizationFailureItem e call q = (let kvs = snd e in
     \<lparr>ti_id = or_else (safeStringProperty kvs ''id'') (''item_'' @ tk_call call),
      ti_turn = or_else (safeStringProperty kvs ''turnId'') (nonEmptyOrFallback (tp_turn q) ''unknown-turn''),
      ti_thread = or_else (safeStringProperty kvs ''threadId'') (nonEmptyOrFallback (tp_thread q) ''unknown-thread''),
      ti_role = ToolRole, ti_created = or_else (safeStringProperty kvs ''createdAt'') epoch_time,
      ti_finished = Some (or_else (safeStringProperty kvs ''finishedAt'') epoch_time),
      ti_body = ToolResult ItemFailed \<lparr>tu_tool = tk_tool call, tu_call = tk_call call, tu_kind = or_else (tk_kind call) PlainTool\<rparr>
        (Some (JObj [(''code'', JStr ''tool_result_not_strict_json''), (''error'', JStr ''tool result was not strict JSON''),
           (''type'', JStr (fst e))])) True\<rparr>)"

definition normalizeSemantic :: "json option \<Rightarrow> string \<Rightarrow> tool_semantic" where
  "normalizeSemantic v tool = (case parse_semantic v of Inr m \<Rightarrow> m
    | Inl _ \<Rightarrow> \<lparr>tm_class = tool, tm_resources = [], tm_artifacts = None\<rparr>)"

definition normalizeToolHostResult :: "raw_result \<Rightarrow> tool_call \<Rightarrow> tool_place \<Rightarrow> host_result result" where
  "normalizeToolHostResult r call q = (case read_raw_item (rw_item r) of
      Inl e \<Rightarrow> parse_host (host_json \<lparr>hr_item = normalizationFailureItem e call q, hr_approved = rw_approved r, hr_semantic = None\<rparr>)
    | Inr x \<Rightarrow> parse_host (host_json \<lparr>hr_item = x, hr_approved = rw_approved r,
        hr_semantic = Some (normalizeSemantic (rw_semantic r) (tk_tool call))\<rparr>))"

section \<open>Resources\<close>

text \<open>
  The path of a candidate inside a Windows workspace or nothing, the path of a \<open>file:\<close> URL or nothing when it is refused,
  and the workspace of the process for relative paths.
\<close>

record path_rules =
  pu_windows :: "string \<Rightarrow> string \<Rightarrow> string option"
  pu_url :: "string \<Rightarrow> string \<Rightarrow> string option"
  pu_cwd :: "string list"

definition is_letter :: "char \<Rightarrow> bool" where
  "is_letter c \<longleftrightarrow> (let n = of_char c :: nat in (65 \<le> n \<and> n \<le> 90) \<or> (97 \<le> n \<and> n \<le> 122))"

definition is_slash :: "char \<Rightarrow> bool" where
  "is_slash c \<longleftrightarrow> c = CHR ''/'' \<or> c = CHR 0x5C"

fun drive_prefix :: "string \<Rightarrow> bool" where
  "drive_prefix (c # d # s) = (is_letter c \<and> d = CHR '':'')"
| "drive_prefix _ = False"

fun share_prefix :: "string \<Rightarrow> bool" where
  "share_prefix (c # d # s) = (c = d \<and> is_slash c)"
| "share_prefix _ = False"

definition isWindowsPathLike :: "string \<Rightarrow> bool" where
  "isWindowsPathLike s \<longleftrightarrow> drive_prefix s \<or> share_prefix s"

text \<open>A drive needs a slash behind it, a share a host and a name.\<close>

definition isWindowsAbsolute :: "string \<Rightarrow> bool" where
  "isWindowsAbsolute s \<longleftrightarrow> (drive_prefix s \<and> (case drop 2 s of c # _ \<Rightarrow> is_slash c | [] \<Rightarrow> False)) \<or>
     (share_prefix s \<and> (let host = takeWhile (\<lambda>c. \<not> is_slash c) (drop 2 s); rest = dropWhile (\<lambda>c. \<not> is_slash c) (drop 2 s)
       in host \<noteq> [] \<and> (case rest of _ # c # _ \<Rightarrow> \<not> is_slash c | _ \<Rightarrow> False)))"

definition toPosixPath :: "string \<Rightarrow> string" where
  "toPosixPath s = map (\<lambda>c. if c = CHR 0x5C then CHR ''/'' else c) s"

definition is_outside :: "string \<Rightarrow> bool" where
  "is_outside r \<longleftrightarrow> starts_with r ''/'' \<or> r = ''..'' \<or> starts_with r ''../'' \<or> starts_with r (''..'' @ [CHR 0x5C])"

definition workspaceRelativePath :: "path_rules \<Rightarrow> string \<Rightarrow> string \<Rightarrow> string option" where
  "workspaceRelativePath u candidate workspace = (
     if isWindowsAbsolute workspace \<or> isWindowsAbsolute candidate
     then (if isWindowsAbsolute workspace then pu_windows u workspace candidate else None)
     else let root = resolve_path (pu_cwd u) (toPosixPath workspace);
              r = join_lines ''/'' (relative_path root (resolve_path root (toPosixPath candidate)))
          in if is_outside r then None else Some (if r = [] then ''.'' else r))"

definition externalResourceKey :: "(string \<Rightarrow> json \<Rightarrow> string) \<Rightarrow> string \<Rightarrow> string" where
  "externalResourceKey sha v = ''external:sha256:'' @ sha ''tool-resource:v1'' (JStr (toPosixPath v))"

definition inside_or_external :: "(string \<Rightarrow> json \<Rightarrow> string) \<Rightarrow> path_rules \<Rightarrow> string \<Rightarrow> string \<Rightarrow> string" where
  "inside_or_external sha u p workspace = or_else (workspaceRelativePath u p workspace) (externalResourceKey sha p)"

definition is_scheme_char :: "char \<Rightarrow> bool" where
  "is_scheme_char c \<longleftrightarrow> is_letter c \<or> c \<in> set ''0123456789+.-''"

definition has_scheme :: "string \<Rightarrow> bool" where
  "has_scheme s \<longleftrightarrow> (case s of [] \<Rightarrow> False | c # t \<Rightarrow> is_letter c \<and> starts_with (dropWhile is_scheme_char t) '':'')"

definition normalizeResourceKey :: "(string \<Rightarrow> json \<Rightarrow> string) \<Rightarrow> path_rules \<Rightarrow> string \<Rightarrow> string \<Rightarrow> string option" where
  "normalizeResourceKey sha u key workspace = (let k = trim key in
     if k = [] then None
     else if isWindowsPathLike k then Some (if isWindowsAbsolute k then inside_or_external sha u k workspace else externalResourceKey sha k)
     else if starts_with (js_lower k) ''file:'' then Some (case pu_url u k workspace of
         Some p \<Rightarrow> inside_or_external sha u p workspace | None \<Rightarrow> externalResourceKey sha k)
     else if has_scheme k then Some k
     else Some (inside_or_external sha u k workspace))"

definition normalizeResourceKeys :: "(string \<Rightarrow> json \<Rightarrow> string) \<Rightarrow> path_rules \<Rightarrow> string list \<Rightarrow> string \<Rightarrow> string list" where
  "normalizeResourceKeys sha u keys workspace = sort (remdups (List.map_filter (\<lambda>k. normalizeResourceKey sha u k workspace) keys))"

definition normalizeArtifactRefs :: "path_rules \<Rightarrow> artifact_ref list \<Rightarrow> string \<Rightarrow> artifact_ref list" where
  "normalizeArtifactRefs u as workspace = List.map_filter (\<lambda>a.
     map_option (\<lambda>p. a\<lparr>ar_path := p\<rparr>) (truthy (workspaceRelativePath u (ar_path a) workspace))) as"

section \<open>Observations\<close>

fun body_failed :: "item_body \<Rightarrow> bool" where
  "body_failed (ToolResult s _ _ err) = (err \<or> s = ItemFailed \<or> s = ItemAborted)"
| "body_failed b = (status_json b \<in> {JStr ''failed'', JStr ''aborted''})"

fun result_content :: "item_body \<Rightarrow> json" where
  "result_content (ToolResult s t out err) = JObj ([(''kind'', JStr ''tool_result''), (''toolName'', JStr (tu_tool t)),
     (''toolKind'', enum_json tool_kind_names (tu_kind t))] @ opt_field ''output'' id out @
     [(''isError'', JBool err), (''status'', enum_json item_status_names s)])"
| "result_content b = JObj [(''kind'', JStr (kind_name b)), (''status'', status_json b)]"

definition observeNormalizedTool ::
    "(string \<Rightarrow> json \<Rightarrow> string) \<Rightarrow> path_rules \<Rightarrow> tool_call \<Rightarrow> host_result \<Rightarrow> tool_place \<Rightarrow> effect_class \<Rightarrow> bool \<Rightarrow> tool_observation result" where
  "observeNormalizedTool sha u call r q effect replayed =
     bind_result (parse_host (host_json r)) (\<lambda>r.
     bind_result (canonicalToolDigest sha call) (\<lambda>args.
     let b = ti_body (hr_item r); m = hr_semantic r in
     parse_observation (observation_json
       \<lparr>ob_call = tk_call call, ob_tool = tk_tool call, ob_effect = effect,
        ob_class = (case m of None \<Rightarrow> tk_tool call | Some m \<Rightarrow> tm_class m),
        ob_resources = normalizeResourceKeys sha u (case m of None \<Rightarrow> [] | Some m \<Rightarrow> tm_resources m) (tp_workspace q),
        ob_arguments = args, ob_result = sha ''tool-result:v1'' (result_content b), ob_item = ti_id (hr_item r),
        ob_artifacts = (if body_failed b then []
          else normalizeArtifactRefs u (or_else (Option.bind m tm_artifacts) []) (tp_workspace q)),
        ob_failed = body_failed b, ob_replayed = replayed\<rparr>)))"

definition observeTool ::
    "(string \<Rightarrow> json \<Rightarrow> string) \<Rightarrow> path_rules \<Rightarrow> tool_call \<Rightarrow> raw_result \<Rightarrow> tool_place \<Rightarrow> effect_class \<Rightarrow> bool \<Rightarrow> tool_observation result" where
  "observeTool sha u call r q effect replayed =
     bind_result (normalizeToolCall call) (\<lambda>c.
     bind_result (normalizeToolHostResult r c q) (\<lambda>h. observeNormalizedTool sha u c h q effect replayed))"

section \<open>What the schemas read back\<close>

lemma read_artifact_kind [reads]: "z_enum artifact_kinds (Some (enum_json artifact_kinds k)) = Inr k"
  by (cases k; rule z_enum_tag; simp add: artifact_kinds_def)

lemma read_effect_class [reads]: "z_enum effect_class_table (Some (enum_json effect_class_table e)) = Inr e"
  by (cases e; rule z_enum_tag; simp add: effect_class_table_def)

definition artifact_ok :: "artifact_ref \<Rightarrow> bool" where
  "artifact_ok a \<longleftrightarrow> trim (ar_path a) = ar_path a \<and> ar_path a \<noteq> [] \<and> pred_option (\<lambda>c. trim c = c \<and> c \<noteq> []) (ar_call a)"

lemma read_optional_text [reads]: "pred_option (\<lambda>c. trim c = c \<and> c \<noteq> []) v \<Longrightarrow> z_optional z_nonempty (map_option JStr v) = Inr v"
  by (rule z_optional_map) (auto simp: reads)

lemma z_object_fields: "list_all (\<lambda>kv. fst kv \<in> set ks) kvs \<Longrightarrow> z_object ks (JObj kvs) = Inr kvs"
  by (simp add: z_object_def)

lemma opt_field_all [simp]: "list_all P (opt_field k f v) \<longleftrightarrow> (\<forall>x. v = Some x \<longrightarrow> P (k, f x))"
  by (cases v) auto

lemma read_artifact [reads]: "artifact_ok a \<Longrightarrow> parse_artifact (artifact_ref_json a) = Inr a"
  by (simp add: parse_artifact_def artifact_ref_json_def artifact_ok_def z_object_fields reads result_simps del: map_of_append)

lemma z_object_gives: "z_object ks v = Inr kvs \<Longrightarrow> v = JObj kvs"
  by (auto simp: z_object_def split: json.splits if_splits)

lemma parse_artifact_gives: "parse_artifact v = Inr a \<Longrightarrow> artifact_ok a"
  unfolding parse_artifact_def result_simps
  by (elim exE conjE) (auto simp: artifact_ok_def dest: z_nonempty_gives z_optional_gives[where P = "\<lambda>c. trim c = c \<and> c \<noteq> []"])

definition semantic_ok :: "tool_semantic \<Rightarrow> bool" where
  "semantic_ok m \<longleftrightarrow> trim (tm_class m) = tm_class m \<and> tm_class m \<noteq> [] \<and> pred_option (list_all artifact_ok) (tm_artifacts m)"

lemma read_artifacts [reads]: "list_all artifact_ok as \<Longrightarrow> z_array parse_artifact (Some (JArr (map artifact_ref_json as))) = Inr as"
  by (rule z_array_read) (simp add: reads list_all_iff)

lemma read_semantic [reads]: "semantic_ok m \<Longrightarrow> parse_semantic (Some (semantic_json m)) = Inr m"
proof -
  assume ok: "semantic_ok m"
  then have "z_optional (z_array parse_artifact) (map_option (\<lambda>as. JArr (map artifact_ref_json as)) (tm_artifacts m)) = Inr (tm_artifacts m)"
    by (intro z_optional_map) (auto simp: semantic_ok_def reads)
  with ok show ?thesis
    by (simp add: parse_semantic_def semantic_json_def semantic_ok_def z_object_fields reads result_simps del: map_of_append)
qed

lemma parse_artifacts_gives: "z_array parse_artifact v = Inr as \<Longrightarrow> list_all artifact_ok as"
  by (erule z_array_gives) (erule parse_artifact_gives)

lemma parse_semantic_gives: "parse_semantic v = Inr m \<Longrightarrow> semantic_ok m"
  unfolding parse_semantic_def result_simps
  by (auto simp: semantic_ok_def result_simps dest: z_nonempty_gives split: option.splits
      elim: z_optional_gives[OF _ parse_artifacts_gives])

definition host_ok :: "host_result \<Rightarrow> bool" where
  "host_ok r \<longleftrightarrow> item_ok (hr_item r) \<and> body_counts (ti_body (hr_item r)) \<and> pred_option semantic_ok (hr_semantic r)"

lemma read_host: "host_ok r \<Longrightarrow> parse_host (host_json r) = Inr r"
proof -
  assume ok: "host_ok r"
  then have "z_optional parse_semantic (map_option semantic_json (hr_semantic r)) = Inr (hr_semantic r)"
    by (intro z_optional_map) (auto simp: host_ok_def reads)
  with ok show ?thesis
    by (simp add: parse_host_def host_json_def host_ok_def z_object_fields reads read_item result_simps del: map_of_append)
qed

lemma parse_host_gives: "parse_host v = Inr r \<Longrightarrow> host_ok r"
proof -
  assume "parse_host v = Inr r"
  then obtain j x b m o1 where "parse_item j = Inr x" "z_optional parse_semantic (map_of o1 ''semantic'') = Inr m"
    and r: "r = \<lparr>hr_item = x, hr_approved = b, hr_semantic = m\<rparr>"
    unfolding parse_host_def result_simps by (elim exE conjE) (auto split: option.split_asm)
  then have "item_ok x" "body_counts (ti_body x)" "pred_option semantic_ok m"
    using parse_item_gives by (blast, blast, blast intro: z_optional_gives parse_semantic_gives)
  then show ?thesis by (simp add: host_ok_def r)
qed

definition observation_ok :: "tool_observation \<Rightarrow> bool" where
  "observation_ok t \<longleftrightarrow> list_all (\<lambda>s. trim s = s \<and> s \<noteq> [])
     ([ob_call t, ob_tool t, ob_class t, ob_arguments t, ob_result t, ob_item t] @ ob_resources t) \<and> list_all artifact_ok (ob_artifacts t)"

lemma read_texts [reads]: "list_all (\<lambda>s. trim s = s \<and> s \<noteq> []) xs \<Longrightarrow> z_texts (Some (names_json xs)) = Inr xs"
  unfolding z_texts_def names_json_def by (rule z_array_read) (simp add: reads list_all_iff)

lemma parse_texts_gives: "z_texts v = Inr xs \<Longrightarrow> list_all (\<lambda>s. trim s = s \<and> s \<noteq> []) xs"
  unfolding z_texts_def by (erule z_array_gives) (erule z_nonempty_gives)

lemma read_observation: "observation_ok t \<Longrightarrow> parse_observation (observation_json t) = Inr t"
  by (simp add: parse_observation_def observation_json_def observation_ok_def observation_keys_def z_object_fields reads result_simps)

lemma parse_observation_gives: "parse_observation v = Inr t \<Longrightarrow> observation_ok t"
  unfolding parse_observation_def result_simps
  by (elim exE conjE) (auto simp: observation_ok_def dest: z_nonempty_gives parse_texts_gives parse_artifacts_gives)

lemma normal_result_ok: "normalizeToolHostResult r c q = Inr h \<Longrightarrow> host_ok h"
  by (auto simp: normalizeToolHostResult_def split: sum.splits dest: parse_host_gives)

lemma observed_ok: "observeNormalizedTool sha u c h q e p = Inr t \<Longrightarrow> observation_ok t"
  by (auto simp: observeNormalizedTool_def result_simps Let_def dest: parse_observation_gives)

end
