(* ===== verification/ToolRuntime.thy ===== *)
theory ToolRuntime
  imports ToolObservation EffectCommit
begin

text \<open>
  The tool runtime of the run kernel (\<open>class ToolRuntimeV3\<close> of \<open>loop/src/tool-runtime-v3.ts\<close>): a call whose effect was
  committed is answered from the stored result, a call whose effect is pending is suspended unless it may
  be repeated, and any other call is prepared, logged, run by the host, observed and committed.

  The host is an interface of the source and enters as two functions on a state of its own; it does not
  call back into the runtime. The crash hook is a function of the point, clock readings and random
  identifiers are sequences, \<open>te_zod\<close> is the text of a schema error. One call at a time is under way, which is what the
  table of calls in flight makes of equal calls.
\<close>

section \<open>The environment\<close>

datatype tool_crash = At_prepare | After_tool_execute | Before_commit | After_commit

record host_preparation =
  pp_call :: tool_call
  pp_result :: "raw_result option"

record 'h tool_world =
  tl_effects :: effect_world
  tl_host :: 'h

record 'h tool_env =
  te_sha :: "string \<Rightarrow> json \<Rightarrow> string"
  te_hj :: "json \<Rightarrow> string"
  te_hs :: "string \<Rightarrow> string"
  te_zod :: string
  te_rules :: path_rules
  te_prepare :: "(tool_call \<Rightarrow> 'h \<Rightarrow> host_preparation result \<times> 'h) option"
  te_execute :: "tool_call \<Rightarrow> 'h \<Rightarrow> raw_result result \<times> 'h"
  te_crash :: "tool_crash \<Rightarrow> unit result"
  te_now :: "nat \<Rightarrow> string"
  te_uuid :: "nat \<Rightarrow> string"

record tool_reply =
  tx_state :: run_state
  tx_result :: "host_result option"
  tx_observation :: "tool_observation option"
  tx_replayed :: bool
  tx_outcome :: "run_outcome option"

type_synonym ('a, 'h) tool_action = "'h tool_world \<Rightarrow> 'a result \<times> 'h tool_world"

definition t_bind :: "('a, 'h) tool_action \<Rightarrow> ('a \<Rightarrow> ('b, 'h) tool_action) \<Rightarrow> ('b, 'h) tool_action" where
  "t_bind m f w = (case m w of (Inl e, w') \<Rightarrow> (Inl e, w') | (Inr x, w') \<Rightarrow> f x w')"

definition t_lift :: "'a result \<Rightarrow> ('a, 'h) tool_action" where
  "t_lift r w = (r, w)"

definition on_host :: "('h \<Rightarrow> 'a result \<times> 'h) \<Rightarrow> ('a, 'h) tool_action" where
  "on_host f w = (let (r, h) = f (tl_host w) in (r, w\<lparr>tl_host := h\<rparr>))"

definition on_effects :: "(effect_world \<Rightarrow> 'a result \<times> effect_world) \<Rightarrow> ('a, 'h) tool_action" where
  "on_effects f w = (let (r, e) = f (tl_effects w) in (r, w\<lparr>tl_effects := e\<rparr>))"

section \<open>Stored results\<close>

definition stored_kind :: string where
  "stored_kind = ''tool_runtime_v3_result''"

definition stored_json :: "host_result \<Rightarrow> tool_observation option \<Rightarrow> json" where
  "stored_json r t = JObj ([(''kind'', JStr stored_kind), (''version'', JNum 2), (''result'', host_json r)] @
     opt_field ''observation'' observation_json t)"

definition z_required :: "(json \<Rightarrow> 'a result) \<Rightarrow> json option \<Rightarrow> 'a result" where
  "z_required p v = (case v of None \<Rightarrow> Inl ZodError | Some j \<Rightarrow> p j)"

definition z_literal :: "json \<Rightarrow> json option \<Rightarrow> unit result" where
  "z_literal c v = (if v = Some c then Inr () else Inl ZodError)"

definition parse_stored :: "json \<Rightarrow> (host_result \<times> tool_observation option) result" where
  "parse_stored v = bind_result (z_object [''kind'', ''version'', ''result'', ''observation''] v) (\<lambda>o1.
     bind_result (z_literal (JStr stored_kind) (map_of o1 ''kind'')) (\<lambda>_.
     bind_result (z_literal (JNum 2) (map_of o1 ''version'')) (\<lambda>_.
     bind_result (z_required parse_host (map_of o1 ''result'')) (\<lambda>r.
     bind_result (z_optional (z_required parse_observation) (map_of o1 ''observation'')) (\<lambda>t. Inr (r, t))))))"

fun js_truthy :: "json \<Rightarrow> bool" where
  "js_truthy JNull = False"
| "js_truthy (JBool b) = b"
| "js_truthy (JNum n) = (n \<noteq> 0)"
| "js_truthy (JStr s) = (s \<noteq> [])"
| "js_truthy _ = True"

text \<open>Results of older versions are stored bare, or wrapped without a version.\<close>

definition read_stored :: "string \<Rightarrow> json \<Rightarrow> (host_result \<times> tool_observation option) result" where
  "read_stored zod v = (
     if map_of (own_properties v) ''kind'' \<noteq> Some (JStr stored_kind) then bind_result (parse_host v) (\<lambda>r. Inr (r, None))
     else if map_of (own_properties v) ''version'' = None
     then bind_result (z_required parse_host (map_of (own_properties v) ''result'')) (\<lambda>r. Inr (r, None))
     else case parse_stored v of Inl _ \<Rightarrow> throw (''invalid stored tool runtime result: '' @ zod) | Inr x \<Rightarrow> Inr x)"

section \<open>Running a call\<close>

definition suspended :: "outcome_reason \<Rightarrow> string \<Rightarrow> string \<Rightarrow> run_outcome" where
  "suspended reason code key = \<lparr>oc_status = OSuspended, oc_reason = reason, oc_item = None, oc_retryable = True,
     oc_details = Some [(''code'', JStr code), (''idempotencyKey'', JStr key)]\<rparr>"

definition needs_verification :: "run_state \<Rightarrow> string \<Rightarrow> tool_reply" where
  "needs_verification s key = \<lparr>tx_state = s, tx_result = None, tx_observation = None, tx_replayed = True,
     tx_outcome = Some (suspended Required_action_missing ''effect_requires_verification'' key)\<rparr>"

definition answer_stored :: "string \<Rightarrow> run_state \<Rightarrow> json \<Rightarrow> tool_reply result" where
  "answer_stored zod s v = bind_result (read_stored zod v) (\<lambda>(r, t).
     Inr \<lparr>tx_state = s, tx_result = Some r, tx_observation = map_option (\<lambda>t. t\<lparr>ob_replayed := True\<rparr>) t,
       tx_replayed = True, tx_outcome = None\<rparr>)"

definition prepare_host :: "'h tool_env \<Rightarrow> tool_call \<Rightarrow> (host_preparation, 'h) tool_action" where
  "prepare_host env call = (case te_prepare env of
      None \<Rightarrow> t_lift (Inr \<lparr>pp_call = call, pp_result = None\<rparr>) | Some f \<Rightarrow> on_host (f call))"

definition run_host :: "'h tool_env \<Rightarrow> tool_call \<Rightarrow> raw_result option \<Rightarrow> (raw_result, 'h) tool_action" where
  "run_host env call r = (case r of Some x \<Rightarrow> t_lift (Inr x) | None \<Rightarrow> on_host (te_execute env call))"

definition tool_effect :: "tool_call \<Rightarrow> effect_input" where
  "tool_effect c = \<lparr>in_callId = tk_call c, in_kind = None, in_target = tk_tool c, in_arguments = tk_arguments c\<rparr>"

definition log_prepared :: "'h tool_env \<Rightarrow> run_identity \<Rightarrow> run_state \<Rightarrow> effect_intent \<Rightarrow> fence option \<Rightarrow> (unit, 'h) tool_action" where
  "log_prepared env i s intent f = on_effects (\<lambda>ew.
     let (r, es) = recordPrepared i s intent f (te_uuid env 0) (te_now env 1) (ew_events ew)
     in (bind_result r (\<lambda>_. Inr ()), ew\<lparr>ew_events := es\<rparr>))"

definition observe_result ::
    "'h tool_env \<Rightarrow> tool_call \<Rightarrow> host_result \<Rightarrow> tool_place \<Rightarrow> effect_class \<Rightarrow> tool_observation option result" where
  "observe_result env call r q effect = (if is_result (hr_item r)
     then bind_result (observeNormalizedTool (te_sha env) (te_rules env) call r q effect False) (\<lambda>t. Inr (Some t))
     else Inr None)"

definition commit_result ::
    "'h tool_env \<Rightarrow> run_identity \<Rightarrow> run_state \<Rightarrow> effect_intent \<Rightarrow> host_result \<Rightarrow> tool_observation option \<Rightarrow> fence option \<Rightarrow> (run_state, 'h) tool_action" where
  "commit_result env i s intent r t f =
     t_bind (t_lift (parse_stored (stored_json r t))) (\<lambda>(r', t').
     on_effects (\<lambda>ew. let (x, ew') = commit_effect (te_hj env) (te_hs env) i s intent (stored_json r' t') f
         (te_uuid env 1) (te_now env 2) (te_now env 3) ew in (bind_result x (\<lambda>(s', _). Inr s'), ew')))"

text \<open>The part of a call after its effect was prepared: log, run, observe, commit.\<close>

definition finish_call :: "'h tool_env \<Rightarrow> run_identity \<Rightarrow> run_state \<Rightarrow> effect_intent \<Rightarrow> tool_call \<Rightarrow> raw_result option \<Rightarrow> tool_place \<Rightarrow>
    effect_class \<Rightarrow> bool \<Rightarrow> fence option \<Rightarrow> (tool_reply, 'h) tool_action" where
  "finish_call env i s intent c denied q effect crash_after f =
     t_bind (t_lift (te_crash env At_prepare)) (\<lambda>_.
     t_bind (log_prepared env i s intent f) (\<lambda>_.
     t_bind (run_host env c denied) (\<lambda>raw.
     t_bind (t_lift (normalizeToolHostResult raw c q)) (\<lambda>r.
     t_bind (t_lift (te_crash env After_tool_execute)) (\<lambda>_.
     if crash_after then t_lift (Inr \<lparr>tx_state = s, tx_result = None, tx_observation = None, tx_replayed = False,
         tx_outcome = Some (suspended Runtime_error ''crash_between_execute_and_commit'' (ei_key intent))\<rparr>)
     else
     t_bind (t_lift (te_crash env Before_commit)) (\<lambda>_.
     t_bind (t_lift (observe_result env c r q effect)) (\<lambda>t.
     t_bind (commit_result env i s intent r t f) (\<lambda>s2.
     t_bind (t_lift (te_crash env After_commit)) (\<lambda>_.
     t_lift (Inr \<lparr>tx_state = s2, tx_result = Some r, tx_observation = t, tx_replayed = False, tx_outcome = None\<rparr>))))))))))"

text \<open>A call that is neither committed nor waiting for a check.\<close>

definition run_effect :: "'h tool_env \<Rightarrow> run_identity \<Rightarrow> run_state \<Rightarrow> tool_call \<Rightarrow> tool_place \<Rightarrow> effect_policy \<Rightarrow> bool \<Rightarrow>
    fence option \<Rightarrow> (tool_reply, 'h) tool_action" where
  "run_effect env i s call q pol crash_after f =
     t_bind (prepare_host env call) (\<lambda>pp.
     t_bind (t_lift (normalizeToolCall (pp_call pp))) (\<lambda>c.
     t_bind (t_lift (if tk_call c \<noteq> tk_call call then throw ''tool host preparation changed callId'' else Inr ())) (\<lambda>_.
     let (s1, intent) = prepare_effect (te_hj env) (te_now env 0) s i (tool_effect c) pol
     in finish_call env i s1 intent c (pp_result pp) q (po_effect pol) crash_after f)))"

definition executeSingle :: "'h tool_env \<Rightarrow> run_identity \<Rightarrow> run_state \<Rightarrow> tool_call \<Rightarrow> tool_place \<Rightarrow> effect_policy \<Rightarrow> bool \<Rightarrow>
    fence option \<Rightarrow> (tool_reply, 'h) tool_action" where
  "executeSingle env i s call q pol crash_after f w = (
     let key = idempotencyKey i (tk_call call);
         repeat = (if list_ex (\<lambda>p. ei_key p = key) (pendingEffects s) \<and> po_replay pol \<noteq> RSafe
           then (Inr (needs_verification s key), w) else run_effect env i s call q pol crash_after f w)
     in if \<not> list_ex (\<lambda>c. ce_key c = key) (committedEffects s) then repeat
        else case storedResult (te_hj env) (te_hs env) i key (ew_results (tl_effects w)) of
            Inl e \<Rightarrow> (Inl e, w)
          | Inr v \<Rightarrow> (case Option.bind v (\<lambda>j. if js_truthy j then Some j else None) of
              Some j \<Rightarrow> (answer_stored (te_zod env) s j, w)
            | None \<Rightarrow> if po_replay pol \<noteq> RSafe then (Inr (needs_verification s key), w) else repeat))"

definition tool_execute :: "'h tool_env \<Rightarrow> run_identity \<Rightarrow> run_state \<Rightarrow> tool_call \<Rightarrow> tool_place \<Rightarrow> effect_policy \<Rightarrow> bool \<Rightarrow>
    fence option \<Rightarrow> (tool_reply, 'h) tool_action" where
  "tool_execute env i s call q pol crash_after f =
     t_bind (t_lift (normalizeToolCall call)) (\<lambda>c. executeSingle env i s c q pol crash_after f)"

section \<open>What a call leaves behind\<close>

lemma t_bind_Inr: "t_bind m f w = (Inr y, w') \<longleftrightarrow> (\<exists>x w1. m w = (Inr x, w1) \<and> f x w1 = (Inr y, w'))"
  by (auto simp: t_bind_def split: prod.splits sum.splits)

lemma t_lift_Inr: "t_lift r w = (Inr y, w') \<longleftrightarrow> r = Inr y \<and> w' = w"
  by (auto simp: t_lift_def)

definition settled_key :: "run_state \<Rightarrow> string \<Rightarrow> bool" where
  "settled_key s k \<longleftrightarrow> list_ex (\<lambda>c. ce_key c = k) (committedEffects s)"

definition pending_key :: "run_state \<Rightarrow> string \<Rightarrow> bool" where
  "pending_key s k \<longleftrightarrow> list_ex (\<lambda>p. ei_key p = k) (pendingEffects s)"

lemma normal_call_id: "normalizeToolCall c = Inr c' \<Longrightarrow> tk_call c' = tk_call c"
  by (auto simp: normalizeToolCall_def requireNonEmptyString_def result_simps split: if_splits)

lemma prepare_remembers:
  "prepare_effect hj now s i inp pol = (s1, n) \<Longrightarrow> ei_key n = idempotencyKey i (in_callId inp) \<and> pending_key s1 (ei_key n) \<and>
     committedEffects s1 = committedEffects s"
  by (auto simp: prepare_effect_def Let_def pending_key_def list_ex_iff split: if_splits)

lemma commit_remembers:
  assumes "commit_result env i s n r t f w = (Inr s', w')"
  shows "settled_key s' (ei_key n)"
proof -
  obtain r' t' where p: "parse_stored (stored_json r t) = Inr (r', t')"
    and c: "on_effects (\<lambda>ew. let (x, ew') = commit_effect (te_hj env) (te_hs env) i s n (stored_json r' t') f
         (te_uuid env 1) (te_now env 2) (te_now env 3) ew in (bind_result x (\<lambda>(s', _). Inr s'), ew')) w = (Inr s', w')"
    using assms by (auto simp: commit_result_def t_bind_Inr t_lift_Inr)
  show ?thesis
  proof (cases "List.find (\<lambda>c. ce_key c = ei_key n) (committedEffects s)")
    case None
    then show ?thesis using c
      by (auto simp: on_effects_def commit_effect_def settled_key_def Let_def result_simps split: prod.splits sum.splits)
  next
    case (Some a)
    then have "settled_key s (ei_key n)" unfolding find_Some_iff settled_key_def list_ex_iff by (metis nth_mem)
    with Some c show ?thesis
      by (auto simp: on_effects_def commit_effect_def Let_def result_simps split: prod.splits)
  qed
qed

lemma finish_remembers:
  "finish_call env i s n c d q e b f w = (Inr x, w') \<Longrightarrow> pending_key s (ei_key n) \<Longrightarrow>
     settled_key (tx_state x) (ei_key n) \<or> pending_key (tx_state x) (ei_key n)"
  by (cases b) (auto simp: finish_call_def t_bind_Inr t_lift_Inr dest: commit_remembers)

lemma run_effect_Inr:
  assumes "run_effect env i s call q pol b f w = (Inr x, w')"
  obtains pp c w1 s1 n where "prepare_host env call w = (Inr pp, w1)" and "normalizeToolCall (pp_call pp) = Inr c"
    and "tk_call c = tk_call call" and "prepare_effect (te_hj env) (te_now env 0) s i (tool_effect c) pol = (s1, n)"
    and "finish_call env i s1 n c (pp_result pp) q (po_effect pol) b f w1 = (Inr x, w')"
proof -
  from assms obtain pp c w1 where p: "prepare_host env call w = (Inr pp, w1)" "normalizeToolCall (pp_call pp) = Inr c" "tk_call c = tk_call call"
    and rest: "(let (s1, n) = prepare_effect (te_hj env) (te_now env 0) s i (tool_effect c) pol
      in finish_call env i s1 n c (pp_result pp) q (po_effect pol) b f) w1 = (Inr x, w')"
    unfolding run_effect_def t_bind_Inr t_lift_Inr by (fastforce split: if_split_asm)
  obtain s1 n where e: "prepare_effect (te_hj env) (te_now env 0) s i (tool_effect c) pol = (s1, n)" by (rule prod.exhaust)
  show ?thesis using that[OF p e] rest e by simp
qed

lemma run_remembers:
  assumes "run_effect env i s call q pol b f w = (Inr x, w')"
  shows "settled_key (tx_state x) (idempotencyKey i (tk_call call)) \<or> pending_key (tx_state x) (idempotencyKey i (tk_call call))"
proof -
  obtain pp c w1 s1 n where "prepare_host env call w = (Inr pp, w1)" and "normalizeToolCall (pp_call pp) = Inr c"
    and c: "tk_call c = tk_call call" and p: "prepare_effect (te_hj env) (te_now env 0) s i (tool_effect c) pol = (s1, n)"
    and f: "finish_call env i s1 n c (pp_result pp) q (po_effect pol) b f w1 = (Inr x, w')"
    by (rule run_effect_Inr[OF assms])
  have "ei_key n = idempotencyKey i (tk_call call)" "pending_key s1 (ei_key n)"
    using prepare_remembers[OF p] c by (auto simp: tool_effect_def)
  with finish_remembers[OF f] show ?thesis by simp
qed

lemma single_remembers:
  assumes "executeSingle env i s call q pol b f w = (Inr x, w')"
  shows "settled_key (tx_state x) (idempotencyKey i (tk_call call)) \<or> pending_key (tx_state x) (idempotencyKey i (tk_call call))"
  using assms run_remembers[of env i s call q pol b f w x w'] unfolding executeSingle_def Let_def
  by (auto simp: settled_key_def[symmetric] pending_key_def[symmetric] needs_verification_def answer_stored_def result_simps
      split: if_splits sum.splits option.splits prod.splits)

lemma single_keeps_host:
  assumes "settled_key s k \<or> pending_key s k" and "k = idempotencyKey i (tk_call call)" and "po_replay pol \<noteq> RSafe"
  shows "snd (executeSingle env i s call q pol b f w) = w"
  using assms unfolding executeSingle_def Let_def
  by (auto simp: settled_key_def pending_key_def split: sum.splits option.splits)

text \<open>
  C20. A call that was answered never runs again unless it is safe to repeat: once an attempt returned, whether it ran the tool,
  crashed between the tool and the commit, or was replayed or suspended, every later attempt at the same call on a state that
  keeps the effects of the one returned leaves the host and the stores as they are.
\<close>

theorem answered_call_never_reruns:
  assumes "tool_execute env i s call q pol b f w = (Inr x, w')"
    and "set (committedEffects (tx_state x)) \<subseteq> set (committedEffects s2)" and "set (pendingEffects (tx_state x)) \<subseteq> set (pendingEffects s2)"
    and "po_replay pol2 \<noteq> RSafe"
  shows "snd (tool_execute env2 i s2 call q2 pol2 b2 f2 w2) = w2"
proof -
  obtain c where c: "normalizeToolCall call = Inr c" and e: "executeSingle env i s c q pol b f w = (Inr x, w')"
    using assms(1) by (auto simp: tool_execute_def t_bind_Inr t_lift_Inr)
  have "settled_key s2 (idempotencyKey i (tk_call c)) \<or> pending_key s2 (idempotencyKey i (tk_call c))"
    using single_remembers[OF e] assms(2,3) by (auto simp: settled_key_def pending_key_def list_ex_iff)
  from single_keeps_host[OF this refl assms(4)] c show ?thesis by (simp add: tool_execute_def t_bind_def t_lift_def)
qed

section \<open>What a committed call answers\<close>

lemma stored_fields:
  "map_of (own_properties (stored_json r t)) ''kind'' = Some (JStr stored_kind)"
  "map_of (own_properties (stored_json r t)) ''version'' = Some (JNum 2)"
  by (simp_all add: own_properties_def stored_json_def del: map_of_append)

lemma parse_stored_json: "host_ok r \<Longrightarrow> pred_option observation_ok t \<Longrightarrow> parse_stored (stored_json r t) = Inr (r, t)"
proof -
  assume ok: "host_ok r" "pred_option observation_ok t"
  then have "z_optional (z_required parse_observation) (map_option observation_json t) = Inr t"
    by (intro z_optional_map) (auto simp: z_required_def read_observation)
  with ok show ?thesis
    by (simp add: parse_stored_def stored_json_def z_object_fields z_literal_def z_required_def read_host result_simps del: map_of_append)
qed

lemma read_stored_json: "host_ok r \<Longrightarrow> pred_option observation_ok t \<Longrightarrow> read_stored zod (stored_json r t) = Inr (r, t)"
  by (simp add: read_stored_def stored_fields parse_stored_json)

lemma commit_stores:
  assumes "commit_result env i s n r t f w = (Inr s', w')" and "host_ok r" and "pred_option observation_ok t" and "\<not> settled_key s (ei_key n)"
  shows "storedResult (te_hj env) (te_hs env) i (ei_key n) (ew_results (tl_effects w')) = Inr (Some (stored_json r t))"
proof -
  have none: "List.find (\<lambda>c. ce_key c = ei_key n) (committedEffects s) = None"
    using assms(4) by (auto simp: settled_key_def list_ex_iff find_None_iff)
  obtain rs where rs: "save_effect (te_hj env) (te_hs env) i (ei_key n) (digestValue (te_hj env) (stored_json r t)) (stored_json r t)
      (ew_results (tl_effects w)) = Inr rs" and w': "ew_results (tl_effects w') = rs"
    using assms(1) by (auto simp: commit_result_def t_bind_Inr t_lift_Inr parse_stored_json[OF assms(2,3)] on_effects_def commit_effect_def none
        Let_def result_simps split: prod.splits sum.splits)
  show ?thesis unfolding w' by (rule save_effect_load[OF rs])
qed

lemma prepare_keeps_settled: "prepare_effect hj now s i inp pol = (s1, n) \<Longrightarrow> settled_key s1 k = settled_key s k"
  by (simp add: settled_key_def prepare_remembers)

lemma observe_ok: "observe_result env c r q e = Inr t \<Longrightarrow> pred_option observation_ok t"
  by (auto simp: observe_result_def result_simps dest: observed_ok split: if_splits)

lemma finish_stores:
  assumes "finish_call env i s n c d q e False f w = (Inr x, w')" and "\<not> settled_key s (ei_key n)"
  obtains r where "tx_result x = Some r" and "host_ok r" and "pred_option observation_ok (tx_observation x)"
    and "storedResult (te_hj env) (te_hs env) i (ei_key n) (ew_results (tl_effects w')) = Inr (Some (stored_json r (tx_observation x)))"
proof -
  obtain raw r t s2 w1 where n: "normalizeToolHostResult raw c q = Inr r" and t: "observe_result env c r q e = Inr t"
    and c: "commit_result env i s n r t f w1 = (Inr s2, w')" and x: "tx_result x = Some r" "tx_observation x = t"
    using assms(1) by (auto simp: finish_call_def t_bind_Inr t_lift_Inr)
  show ?thesis
    by (rule that[of r]) (use x normal_result_ok[OF n] observe_ok[OF t] commit_stores[OF c normal_result_ok[OF n] observe_ok[OF t] assms(2)] in simp_all)
qed

lemma stored_truthy: "js_truthy (stored_json r t)"
  by (simp add: stored_json_def)

lemma answer_again:
  assumes "settled_key s k" and "k = idempotencyKey i (tk_call c)" and "host_ok r" and "pred_option observation_ok t"
    and "storedResult (te_hj env) (te_hs env) i k (ew_results (tl_effects w)) = Inr (Some (stored_json r t))"
  shows "executeSingle env i s c q pol b f w = (Inr \<lparr>tx_state = s, tx_result = Some r,
     tx_observation = map_option (\<lambda>t. t\<lparr>ob_replayed := True\<rparr>) t, tx_replayed = True, tx_outcome = None\<rparr>, w)"
  using assms unfolding executeSingle_def Let_def
  by (simp add: settled_key_def stored_truthy answer_stored_def read_stored_json result_simps)

text \<open>
  C39. A committed result is the answer: when a call ran and its effect was committed, every later call with its id, on a state
  that holds the committed effect, answers with the same result and the same observation, marked as replayed, and calls nothing,
  whatever the host, the policy and the fence are by then.
\<close>

theorem committed_result_answered:
  assumes "tool_execute env i s call q pol False f w = (Inr x, w')" and "\<not> settled_key s (idempotencyKey i (tk_call call))"
    and "\<not> pending_key s (idempotencyKey i (tk_call call)) \<or> po_replay pol = RSafe"
    and "set (committedEffects (tx_state x)) \<subseteq> set (committedEffects s2)"
    and "te_hj env2 = te_hj env" and "te_hs env2 = te_hs env" and "ew_results (tl_effects w2) = ew_results (tl_effects w')"
  shows "tool_execute env2 i s2 call q2 pol2 b2 f2 w2 = (Inr \<lparr>tx_state = s2, tx_result = tx_result x,
     tx_observation = map_option (\<lambda>t. t\<lparr>ob_replayed := True\<rparr>) (tx_observation x), tx_replayed = True, tx_outcome = None\<rparr>, w2) \<and>
     tx_result x \<noteq> None"
proof -
  let ?k = "idempotencyKey i (tk_call call)"
  obtain c where c: "normalizeToolCall call = Inr c" and "executeSingle env i s c q pol False f w = (Inr x, w')"
    using assms(1) by (auto simp: tool_execute_def t_bind_Inr t_lift_Inr)
  then have e: "run_effect env i s c q pol False f w = (Inr x, w')" and k: "tk_call c = tk_call call"
    using assms(2,3) normal_call_id[OF c] by (auto simp: executeSingle_def Let_def settled_key_def pending_key_def)
  obtain pp c' w1 s1 n where "prepare_host env c w = (Inr pp, w1)" and "normalizeToolCall (pp_call pp) = Inr c'"
    and k': "tk_call c' = tk_call c" and p: "prepare_effect (te_hj env) (te_now env 0) s i (tool_effect c') pol = (s1, n)"
    and fin: "finish_call env i s1 n c' (pp_result pp) q (po_effect pol) False f w1 = (Inr x, w')"
    by (rule run_effect_Inr[OF e])
  have n: "ei_key n = ?k" using prepare_remembers[OF p] k k' by (simp add: tool_effect_def)
  have fresh: "\<not> settled_key s1 (ei_key n)" using prepare_keeps_settled[OF p] assms(2) n by simp
  obtain r where r: "tx_result x = Some r" "host_ok r" "pred_option observation_ok (tx_observation x)"
    and st: "storedResult (te_hj env) (te_hs env) i (ei_key n) (ew_results (tl_effects w')) = Inr (Some (stored_json r (tx_observation x)))"
    by (rule finish_stores[OF fin fresh])
  obtain raw r' t s2' w3 w4 where "commit_result env i s1 n r' t f w3 = (Inr (tx_state x), w4)"
    using fin by (auto simp: finish_call_def t_bind_Inr t_lift_Inr)
  then have "settled_key (tx_state x) ?k" using commit_remembers n by metis
  then have "settled_key s2 ?k" using assms(4) by (auto simp: settled_key_def list_ex_iff)
  from answer_again[OF this, of i c r "tx_observation x" env2 w2 q2 pol2 b2 f2] r st n k assms(5-7) c
  show ?thesis by (simp add: tool_execute_def t_bind_def t_lift_def)
qed

section \<open>A sample call\<close>

definition counting_host :: "tool_call \<Rightarrow> nat \<Rightarrow> raw_result result \<times> nat" where
  "counting_host c n = (Inr \<lparr>rw_item = Other_item ''Map'' [], rw_approved = True, rw_semantic = None\<rparr>, Suc n)"

definition counting_env :: "nat tool_env" where
  "counting_env = \<lparr>te_sha = \<lambda>_ _. ''s'', te_hj = \<lambda>_. ''d'', te_hs = id, te_zod = [],
     te_rules = \<lparr>pu_windows = \<lambda>_ _. None, pu_url = \<lambda>_ _. None, pu_cwd = []\<rparr>, te_prepare = None, te_execute = counting_host,
     te_crash = \<lambda>_. Inr (), te_now = \<lambda>_. ''now'', te_uuid = \<lambda>n. (if n = 0 then ''a'' else ''b'')\<rparr>"

lemma counting_simps:
  "te_sha counting_env = (\<lambda>_ _. ''s'')" "te_hj counting_env = (\<lambda>_. ''d'')" "te_hs counting_env = id" "te_prepare counting_env = None"
  "te_execute counting_env = counting_host" "te_crash counting_env p = Inr ()" "te_now counting_env n = ''now''"
  "te_uuid counting_env 0 = ''a''" "te_uuid counting_env 1 = ''b''" "te_uuid counting_env (Suc 0) = ''b''"
  by (simp_all add: counting_env_def)

definition sample_call :: tool_call where
  "sample_call = \<lparr>tk_call = ''c'', tk_tool = ''read'', tk_provider = None, tk_kind = None, tk_arguments = []\<rparr>"

definition sample_place :: tool_place where
  "sample_place = \<lparr>tp_workspace = ''w1'', tp_thread = ''t1'', tp_turn = ''n1''\<rparr>"

definition never_again :: effect_policy where
  "never_again = \<lparr>po_effect = ENonIdempotentWrite, po_replay = RNever\<rparr>"

definition sample_tools :: "nat tool_world" where
  "sample_tools = \<lparr>tl_effects = \<lparr>ew_events = empty_event_store, ew_results = []\<rparr>, tl_host = 0\<rparr>"

definition sample_run :: run_identity where
  "sample_run = identity RunStores.sample_state"

definition sample_result :: host_result where
  "sample_result = \<lparr>hr_item = normalizationFailureItem (''Map'', []) sample_call sample_place, hr_approved = True, hr_semantic = None\<rparr>"

definition sample_observation :: tool_observation where
  "sample_observation = \<lparr>ob_call = ''c'', ob_tool = ''read'', ob_effect = ENonIdempotentWrite, ob_class = ''read'', ob_resources = [],
     ob_arguments = ''s'', ob_result = ''s'', ob_item = ''item_c'', ob_artifacts = [], ob_failed = True, ob_replayed = False\<rparr>"

lemma sample_call_normal: "normalizeToolCall sample_call = Inr sample_call"
  by code_simp

lemma sample_result_ok: "host_ok sample_result"
  by (simp add: host_ok_def sample_result_def normalizationFailureItem_def item_ok_def tool_use_ok_def safeStringProperty_def
      nonEmptyOrFallback_def sample_call_def sample_place_def trim_def trim_start_def trim_end_def is_js_space_def)

lemma sample_normal:
  "normalizeToolHostResult \<lparr>rw_item = Other_item ''Map'' [], rw_approved = True, rw_semantic = None\<rparr> sample_call sample_place = Inr sample_result"
  by (simp add: normalizeToolHostResult_def read_raw_item_def read_host[OF sample_result_ok, unfolded sample_result_def] sample_result_def)

lemma sample_observation_ok: "observation_ok sample_observation"
  by code_simp

lemma sample_observed: "observe_result counting_env sample_call sample_result sample_place ENonIdempotentWrite = Inr (Some sample_observation)"
proof -
  have i: "ti_id (hr_item sample_result) = ''item_c''" "body_failed (ti_body (hr_item sample_result))" "is_result (hr_item sample_result)"
    "hr_semantic sample_result = None" by code_simp+
  show ?thesis
    using read_observation[OF sample_observation_ok]
    by (simp add: observe_result_def observeNormalizedTool_def read_host[OF sample_result_ok] i canonicalToolDigest_def sample_call_normal[unfolded sample_call_def]
        counting_env_def normalizeResourceKeys_def sample_observation_def result_simps Let_def sample_call_def)
qed

definition sample_prepared :: "run_state \<times> effect_intent" where
  "sample_prepared = prepare_effect (\<lambda>_. ''d'') ''now'' RunStores.sample_state sample_run (tool_effect sample_call) never_again"

lemma sample_commits:
  "case fst (commit_effect (\<lambda>_. ''d'') id sample_run (fst sample_prepared) (snd sample_prepared) v None ''b'' ''now'' ''now''
     \<lparr>ew_events = snd (recordPrepared sample_run (fst sample_prepared) (snd sample_prepared) None ''a'' ''now'' empty_event_store),
       ew_results = []\<rparr>) of Inr _ \<Rightarrow> True | Inl _ \<Rightarrow> False"
  by code_simp

lemma sample_logs: "case fst (recordPrepared sample_run (fst sample_prepared) (snd sample_prepared) None ''a'' ''now''
     (empty_event_store :: effect_payload event_store)) of Inr _ \<Rightarrow> True | Inl _ \<Rightarrow> False"
  by code_simp

definition sample_effects :: effect_world where
  "sample_effects = snd (commit_effect (\<lambda>_. ''d'') id sample_run (fst sample_prepared) (snd sample_prepared)
      (stored_json sample_result (Some sample_observation)) None ''b'' ''now'' ''now''
      \<lparr>ew_events = snd (recordPrepared sample_run (fst sample_prepared) (snd sample_prepared) None ''a'' ''now'' empty_event_store),
        ew_results = []\<rparr>)"

text \<open>The call under a crash hook that lets it pass up to the commit.\<close>

lemma sample_attempt:
  assumes "\<And>p. p \<noteq> After_commit \<Longrightarrow> hook p = Inr ()"
  obtains s2 where "tool_execute (counting_env\<lparr>te_crash := hook\<rparr>) sample_run RunStores.sample_state sample_call sample_place never_again False None
      sample_tools = (bind_result (hook After_commit) (\<lambda>_. Inr \<lparr>tx_state = s2, tx_result = Some sample_result,
        tx_observation = Some sample_observation, tx_replayed = False, tx_outcome = None\<rparr>), \<lparr>tl_effects = sample_effects, tl_host = 1\<rparr>)"
proof -
  let ?s = "fst sample_prepared" and ?n = "snd sample_prepared"
  let ?v = "stored_json sample_result (Some sample_observation)"
  let ?env = "counting_env\<lparr>te_crash := hook\<rparr>"
  obtain e es where log: "recordPrepared sample_run ?s ?n None ''a'' ''now'' empty_event_store = (Inr e, es)"
    using sample_logs by (cases "recordPrepared sample_run ?s ?n None ''a'' ''now'' (empty_event_store :: effect_payload event_store)") (auto split: sum.splits)
  obtain s2 e2 ew where commit: "commit_effect (\<lambda>_. ''d'') id sample_run ?s ?n ?v None ''b'' ''now'' ''now''
      \<lparr>ew_events = es, ew_results = []\<rparr> = (Inr (s2, e2), ew)"
    using sample_commits[of ?v] by (auto simp: log prod_eq_iff split: sum.splits)
  have prep: "prepare_effect (\<lambda>_. ''d'') ''now'' RunStores.sample_state sample_run (tool_effect sample_call) never_again = (?s, ?n)"
    by (simp add: sample_prepared_def)
  have stored: "parse_stored ?v = Inr (sample_result, Some sample_observation)"
    by (rule parse_stored_json[OF sample_result_ok]) (simp add: sample_observation_ok)
  have observed: "observe_result ?env sample_call sample_result sample_place ENonIdempotentWrite = Inr (Some sample_observation)"
    using sample_observed by (auto simp: observe_result_def split: if_split_asm)
  have fin: "finish_call ?env sample_run ?s ?n sample_call None sample_place ENonIdempotentWrite False None sample_tools =
      (bind_result (hook After_commit) (\<lambda>_. Inr \<lparr>tx_state = s2, tx_result = Some sample_result, tx_observation = Some sample_observation,
        tx_replayed = False, tx_outcome = None\<rparr>), \<lparr>tl_effects = ew, tl_host = 1\<rparr>)"
    using assms
    by (cases "hook After_commit") (simp_all add: finish_call_def t_bind_def t_lift_def log_prepared_def on_effects_def run_host_def on_host_def
        commit_result_def stored counting_host_def sample_normal observed sample_tools_def log commit counting_simps)
  have pol: "po_effect never_again = ENonIdempotentWrite" by (simp add: never_again_def)
  have fresh: "committedEffects RunStores.sample_state = []" "pendingEffects RunStores.sample_state = []"
    by (simp_all add: RunStores.sample_state_def)
  have "sample_effects = ew" by (simp add: sample_effects_def log commit)
  then show ?thesis
    by (intro that[of s2]) (simp add: tool_execute_def executeSingle_def t_bind_def t_lift_def sample_call_normal fresh run_effect_def prepare_host_def
        prep fin pol counting_simps case_prod_beta)
qed

lemma sample_answer:
  obtains s2 where "tool_execute counting_env sample_run RunStores.sample_state sample_call sample_place never_again False None sample_tools =
    (Inr \<lparr>tx_state = s2, tx_result = Some sample_result, tx_observation = Some sample_observation, tx_replayed = False, tx_outcome = None\<rparr>,
     \<lparr>tl_effects = sample_effects, tl_host = 1\<rparr>)"
proof -
  have "counting_env\<lparr>te_crash := \<lambda>_. Inr ()\<rparr> = counting_env" by (simp add: counting_env_def)
  with sample_attempt[of "\<lambda>_. Inr ()"] that show ?thesis by auto
qed

theorem answered_call_never_reruns_witness:
  "\<exists>x w'. tool_execute counting_env sample_run RunStores.sample_state sample_call sample_place never_again False None sample_tools = (Inr x, w') \<and>
     tl_host w' = 1 \<and> snd (tool_execute counting_env sample_run (tx_state x) sample_call sample_place never_again False None w') = w'"
proof -
  obtain x w' where x: "tool_execute counting_env sample_run RunStores.sample_state sample_call sample_place never_again False None sample_tools = (Inr x, w')"
    and h: "tl_host w' = 1" by (rule sample_answer) simp
  have "po_replay never_again \<noteq> RSafe" by (simp add: never_again_def)
  from answered_call_never_reruns[OF x order.refl order.refl this] x h show ?thesis by blast
qed

theorem committed_result_answered_witness:
  "\<exists>x w'. tool_execute counting_env sample_run RunStores.sample_state sample_call sample_place never_again False None sample_tools = (Inr x, w') \<and>
     (\<exists>y. tool_execute counting_env sample_run (tx_state x) sample_call sample_place never_again False None w' = (Inr y, w') \<and>
       tx_result y = tx_result x \<and> tx_replayed y)"
proof -
  obtain x w' where x: "tool_execute counting_env sample_run RunStores.sample_state sample_call sample_place never_again False None sample_tools = (Inr x, w')"
    by (rule sample_answer)
  have "\<not> settled_key RunStores.sample_state (idempotencyKey sample_run (tk_call sample_call))"
    "\<not> pending_key RunStores.sample_state (idempotencyKey sample_run (tk_call sample_call)) \<or> po_replay never_again = RSafe"
    by (simp_all add: settled_key_def pending_key_def RunStores.sample_state_def)
  from committed_result_answered[OF x this order.refl refl refl refl] x show ?thesis by auto
qed

end
