(* ===== verification/KernelNodes.thy ===== *)
theory KernelNodes
  imports ToolRuntime ProposalClass ExecutionGraph Commands
begin

text \<open>
  The node handlers of the production graph (\<open>createKernelV3NodeHandlers\<close> of
  \<open>loop/src/kernel-v3-node-handlers.ts\<close>, with \<open>proposal-materializer.ts\<close> and \<open>tool-dispatch-errors.ts\<close>): what
  each node reads from the values the nodes before it left, what it does to the thread, the task store
  and the tools, and the condition, outcome, value and commands it answers with.

  The values of the nodes are typed: the casts of the source trust that the value of a node is what its
  handler answered, and a \<open>node_view\<close> holds these values. The prompt builder and the model runner
  are functions of the environment which may change the thread while
  they run; \<open>'q\<close> is the part of a model request that the handlers only pass on. \<open>ne_clock env k n\<close> is the \<open>n\<close>-th reading
  of the clock in the \<open>k\<close>-th operation of a handler, and the \<open>k\<close>-th call of a batch runs in the tool environment
  \<open>ne_tools env k\<close>.
\<close>

section \<open>Model proposals\<close>

datatype endpoint_format = Chat_completions_format | Responses_format | Messages_format

record model_intent =
  mi_call :: string
  mi_tool :: string
  mi_arguments :: obj

record model_proposal =
  mp_id :: string
  mp_model :: string
  mp_stop :: stop_class
  mp_reason :: "string option"
  mp_format :: "endpoint_format option"
  mp_provider :: "string option"
  mp_metadata :: "obj option"
  mp_leaked :: bool
  mp_malformed :: bool
  mp_complete :: bool
  mp_text :: string
  mp_reasoning :: string
  mp_intents :: "model_intent list"
  mp_usage :: "usage option"

definition usage_in_range :: "usage \<Rightarrow> bool" where
  "usage_in_range u \<longleftrightarrow> pred_option (\<lambda>r. 0 \<le> r \<and> r \<le> 1) (u_rate u) \<and> list_all (pred_option (\<lambda>c. 0 \<le> c))
     [u_cost_usd u, u_cost_cny u, u_saved_usd u, u_saved_cny u, u_econ_usd u, u_econ_cny u]"

definition parse_intent_of :: "model_intent \<Rightarrow> model_intent result" where
  "parse_intent_of n =
     bind_result (check_nonempty (mi_call n)) (\<lambda>c.
     bind_result (check_nonempty (mi_tool n)) (\<lambda>t. Inr (n\<lparr>mi_call := c, mi_tool := t\<rparr>)))"

definition parse_proposal :: "model_proposal \<Rightarrow> model_proposal result" where
  "parse_proposal p =
     bind_result (check_nonempty (mp_id p)) (\<lambda>i.
     bind_result (check_nonempty (mp_model p)) (\<lambda>m.
     bind_result (map_result parse_intent_of (mp_intents p)) (\<lambda>ns.
     if pred_option usage_in_range (mp_usage p) then Inr (p\<lparr>mp_id := i, mp_model := m, mp_intents := ns\<rparr>) else Inl ZodError)))"

text \<open>What the classifier reads of a proposal.\<close>

definition classified :: "model_proposal \<Rightarrow> proposal" where
  "classified p = \<lparr>po_stop = mp_stop p, po_leaked = mp_leaked p, po_malformed = mp_malformed p, po_complete = mp_complete p,
     po_text = mp_text p, po_reasoning = mp_reasoning p, po_tools = map mi_call (mp_intents p)\<rparr>"

definition class_of :: "model_proposal \<Rightarrow> task_state \<Rightarrow> proposal_class" where
  "class_of p t = classifyProposal (classified p) t []"

definition materializableProposalContent :: "model_proposal \<Rightarrow> string option \<times> string option" where
  "materializableProposalContent p = (if mp_leaked p \<or> mp_malformed p then (None, None)
     else (if trim (mp_reasoning p) = [] then None else Some (mp_reasoning p),
           if trim (mp_text p) = [] then None else Some (mp_text p)))"

subsection \<open>Proposals that exceed the context\<close>

text \<open>\<open>replace(/[\s_-]+/g, '_')\<close>.\<close>

definition is_gap :: "char \<Rightarrow> bool" where
  "is_gap c \<longleftrightarrow> is_js_space c \<or> c = CHR ''_'' \<or> c = CHR ''-''"

fun join_gaps :: "string \<Rightarrow> string" where
  "join_gaps [] = []"
| "join_gaps (c # s) = (if \<not> is_gap c then c # join_gaps s
     else if (case s of d # _ \<Rightarrow> is_gap d | [] \<Rightarrow> False) then join_gaps s else CHR ''_'' # join_gaps s)"

text \<open>The pattern \<open>(?:a|...).*(?:b|...)\<close> in a text without line breaks.\<close>

definition one_then_other :: "string list \<Rightarrow> string list \<Rightarrow> string \<Rightarrow> bool" where
  "one_then_other as bs s = list_ex (\<lambda>k. list_ex (\<lambda>a. starts_with (drop k s) a \<and>
     list_ex (contains (drop (k + length a) s)) bs) as) [0..<Suc (length s)]"

definition capacity_codes :: "string list" where
  "capacity_codes = [''context_length_exceeded'', ''max_context_length'', ''context_window_exceeded'', ''input_too_long'']"

definition names_capacity :: "string \<Rightarrow> bool" where
  "names_capacity code = (let n = join_gaps (js_lower (trim code)) in
     n \<in> set capacity_codes \<or>
     one_then_other [''context'', ''prompt'', ''input''] [''length'', ''window'', ''token'', ''limit'', ''long'', ''exceed''] n \<or>
     one_then_other [''maximum'', ''max'', ''exceed'', ''too_long''] [''context'', ''prompt'', ''input'', ''token''] n)"

definition text_of :: "json option \<Rightarrow> string option" where
  "text_of v = (case v of Some (JStr s) \<Rightarrow> Some s | _ \<Rightarrow> None)"

definition provider_codes :: "model_proposal \<Rightarrow> string list" where
  "provider_codes p = (let meta = or_else (mp_metadata p) []; nested = (case map_of meta ''error'' of Some v \<Rightarrow> own_properties v | None \<Rightarrow> [])
     in List.map_filter id [mp_reason p, text_of (map_of meta ''code''), text_of (map_of meta ''type''),
          text_of (map_of nested ''code''), text_of (map_of nested ''type'')])"

definition isContextCapacityProposal :: "model_proposal \<Rightarrow> bool" where
  "isContextCapacityProposal p \<longleftrightarrow> mp_stop p \<in> {Stop_transport, Stop_protocol} \<and> list_ex names_capacity (provider_codes p)"

section \<open>Tool policies\<close>

text \<open>\<open>String(v)\<close> is a given word for the word itself and for an array that holds only it.\<close>

fun reads_as :: "string list \<Rightarrow> json \<Rightarrow> bool" where
  "reads_as ns (JStr s) = (s \<in> set ns)"
| "reads_as ns (JArr [v]) = reads_as ns v"
| "reads_as ns _ = False"

definition isToolEffectPolicy :: "json \<Rightarrow> bool" where
  "isToolEffectPolicy v = (let kvs = own_properties v; reads = (\<lambda>ns k. case map_of kvs k of Some w \<Rightarrow> reads_as ns w | None \<Rightarrow> False)
     in reads (map fst effect_class_table) ''effect'' \<and> reads (map fst replay_policy_table) ''replay'')"

definition parse_policy :: "json \<Rightarrow> effect_policy result" where
  "parse_policy v = bind_result (z_object [''effect'', ''replay'', ''concurrencyKey''] v) (\<lambda>o1.
     bind_result (z_enum effect_class_table (map_of o1 ''effect'')) (\<lambda>e.
     bind_result (z_enum replay_policy_table (map_of o1 ''replay'')) (\<lambda>r.
     bind_result (z_optional z_nonempty (map_of o1 ''concurrencyKey'')) (\<lambda>_. Inr \<lparr>po_effect = e, po_replay = r\<rparr>))))"

definition defaultEffectPolicy :: "tool_call \<Rightarrow> effect_policy" where
  "defaultEffectPolicy c = (if tk_kind c = Some FileChange then \<lparr>po_effect = ENonIdempotentWrite, po_replay = RNever\<rparr>
     else \<lparr>po_effect = ERead, po_replay = RSafe\<rparr>)"

type_synonym tool_policies = "(string, json) jsmap"

text \<open>Policies that are not one are left undefined, and a later tool of the same name counts.\<close>

definition tool_policies_of :: "(string \<times> json option) list \<Rightarrow> tool_policies" where
  "tool_policies_of tools = foldl (\<lambda>m (n, v). case v of
      Some j \<Rightarrow> if isToolEffectPolicy j then AList.update n j m else AList.delete n m
    | None \<Rightarrow> AList.delete n m) [] tools"

definition policy_of :: "tool_policies \<Rightarrow> tool_call \<Rightarrow> effect_policy result" where
  "policy_of ps c = (case map_of ps (tk_tool c) of Some j \<Rightarrow> parse_policy j | None \<Rightarrow> Inr (defaultEffectPolicy c))"

definition isRecoverableToolDispatchError :: "string \<Rightarrow> bool" where
  "isRecoverableToolDispatchError m \<longleftrightarrow> starts_with m ''unknown tool:'' \<or> contains m '' is not provided by '' \<or>
     contains m '' is not advertised'' \<or> contains m '' is disabled by policy''"

text \<open>The text of a failed schema check is none of these messages.\<close>

definition dispatch_rejected :: "js_error \<Rightarrow> string option" where
  "dispatch_rejected e = (case e of Error m \<Rightarrow> if isRecoverableToolDispatchError m then Some m else None | ZodError \<Rightarrow> None)"

section \<open>State and environment\<close>

record 'h node_world =
  nw_turns :: turn_world
  nw_tasks :: task_store
  nw_tools :: "'h tool_world"

type_synonym ('a, 'h) node_action = "'h node_world \<Rightarrow> 'a result \<times> 'h node_world"

definition n_bind :: "('a, 'h) node_action \<Rightarrow> ('a \<Rightarrow> ('b, 'h) node_action) \<Rightarrow> ('b, 'h) node_action" where
  "n_bind m f w = (case m w of (Inl e, w') \<Rightarrow> (Inl e, w') | (Inr x, w') \<Rightarrow> f x w')"

definition n_lift :: "'a result \<Rightarrow> ('a, 'h) node_action" where
  "n_lift r w = (r, w)"

definition n_read :: "('h node_world \<Rightarrow> 'a) \<Rightarrow> ('a, 'h) node_action" where
  "n_read f w = (Inr (f w), w)"

definition on_turns :: "'a handler \<Rightarrow> ('a, 'h) node_action" where
  "on_turns f w = (let (r, t) = f (nw_turns w) in (r, w\<lparr>nw_turns := t\<rparr>))"

definition on_tasks :: "(task_store \<Rightarrow> 'a result \<times> task_store) \<Rightarrow> ('a, 'h) node_action" where
  "on_tasks f w = (let (r, t) = f (nw_tasks w) in (r, w\<lparr>nw_tasks := t\<rparr>))"

definition on_tools :: "('a, 'h) tool_action \<Rightarrow> ('a, 'h) node_action" where
  "on_tools f w = (let (r, t) = f (nw_tools w) in (r, w\<lparr>nw_tools := t\<rparr>))"

fun each :: "(nat \<Rightarrow> 'b \<Rightarrow> ('a, 'h) node_action) \<Rightarrow> nat \<Rightarrow> 'b list \<Rightarrow> (unit, 'h) node_action" where
  "each f k [] = n_lift (Inr ())"
| "each f k (x # xs) = n_bind (f k x) (\<lambda>_. each f (Suc k) xs)"

record 'q stored_request =
  rq_rest :: 'q
  rq_instructions :: "string list option"

record 'q built_value =
  bv_request :: "'q stored_request"
  bv_policies :: tool_policies
  bv_context :: json

record 'q built_prompt =
  bp_request :: "'q stored_request"
  bp_tools :: "(string \<times> json option) list"
  bp_context :: json
  bp_governor :: "json option"

datatype 'q build_result = Build_aborted | Build_stopped | Built "'q built_prompt"

record build_request =
  br_thread :: string
  br_turn :: string
  br_step :: nat
  br_governor :: "json option"
  br_force :: bool

record proposal_migration =
  pg_source :: string
  pg_prepared :: "string list"
  pg_reconciled :: bool
  pg_finished :: string

record accounting_migration =
  am_resume :: string
  am_consumed :: bool

record 'q node_view =
  nv_task :: "task_state option"
  nv_built :: "'q built_value option"
  nv_invoked :: "model_proposal option"
  nv_proposal :: "model_proposal option"
  nv_class :: "proposal_class option"
  nv_calls :: "tool_call list option"
  nv_observations :: "tool_observation list option"
  nv_entry :: "string option"
  nv_force :: bool
  nv_v2 :: "accounting_migration option"
  nv_v1 :: "accounting_migration option"
  nv_v1_proposal :: "proposal_migration option"

datatype 'q node_value =
    Turn_value string string turn_status
  | Task_value task_state
  | Built_value "'q built_value"
  | Proposal_value model_proposal
  | Class_value proposal_class string
  | Written_value string
  | Calls_value "tool_call list"
  | Committed_value "string list" nat "tool_observation list"
  | Checked_value
  | Checkpoint_value nat string
  | Entry_value string

text \<open>A command of the kernel, or one that stores a typed value under the name of a node.\<close>

datatype node_command =
    Kernel_command command
  | Store_task task_state
  | Store_force bool
  | Store_accounting string accounting_migration
  | Store_migration proposal_migration

record 'q node_reply =
  ny_condition :: "string option"
  ny_outcome :: "run_outcome option"
  ny_commands :: "node_command list"
  ny_facts :: "obj option"
  ny_value :: "'q node_value option"

record ('q, 'h) node_env =
  ne_tools :: "nat \<Rightarrow> 'h tool_env"
  ne_build :: "build_request \<Rightarrow> 'q build_result handler"
  ne_model :: "'q stored_request \<Rightarrow> model_proposal handler"
  ne_progress :: bool
  ne_clock :: "nat \<Rightarrow> nat \<Rightarrow> string"
  ne_token :: string
  ne_zod :: string

type_synonym ('q, 'h) kernel_node =
  "run_identity \<Rightarrow> run_state \<Rightarrow> 'q node_view \<Rightarrow> fence option \<Rightarrow> ('q node_reply, 'h) node_action"

definition ends :: "run_outcome \<Rightarrow> 'q node_reply" where
  "ends x = \<lparr>ny_condition = None, ny_outcome = Some x, ny_commands = [], ny_facts = None, ny_value = None\<rparr>"

definition goes :: "string \<Rightarrow> 'q node_value option \<Rightarrow> node_command list \<Rightarrow> 'q node_reply" where
  "goes c v cs = \<lparr>ny_condition = Some c, ny_outcome = None, ny_commands = cs, ny_facts = None, ny_value = v\<rparr>"

definition require_value :: "string \<Rightarrow> 'a option \<Rightarrow> 'a result" where
  "require_value n v = (case v of Some x \<Rightarrow> Inr x | None \<Rightarrow> throw (''kernel node data missing: '' @ n))"

definition failed_outcome :: "string \<Rightarrow> run_outcome" where
  "failed_outcome m = \<lparr>oc_status = OFailed, oc_reason = Runtime_error, oc_item = None, oc_retryable = True,
     oc_details = Some [(''message'', JStr m)]\<rparr>"

definition plain_outcome :: "outcome_status \<Rightarrow> outcome_reason \<Rightarrow> bool \<Rightarrow> obj option \<Rightarrow> run_outcome" where
  "plain_outcome s r b d = \<lparr>oc_status = s, oc_reason = r, oc_item = None, oc_retryable = b, oc_details = d\<rparr>"

definition aborted_by_user :: run_outcome where
  "aborted_by_user = plain_outcome OAborted User_aborted False None"

text \<open>A turn has a signal while it runs; the signal is aborted when the turn was.\<close>

definition signal_aborted :: "string \<Rightarrow> turn_world \<Rightarrow> bool" where
  "signal_aborted turn w \<longleftrightarrow> turn \<in> set (tv_running w) \<and> turn \<in> set (tv_aborted w)"

definition signal_live :: "string \<Rightarrow> turn_world \<Rightarrow> bool" where
  "signal_live turn w \<longleftrightarrow> turn \<in> set (tv_running w) \<and> turn \<notin> set (tv_aborted w)"

section \<open>Items the handlers write\<close>

fun put_status :: "item_status \<Rightarrow> item_body \<Rightarrow> item_body" where
  "put_status s (UserMessage _ a b c) = UserMessage s a b c"
| "put_status s (AssistantText _ a) = AssistantText s a"
| "put_status s (AssistantReasoning _ a b) = AssistantReasoning s a b"
| "put_status s (ToolCall _ a b c) = ToolCall s a b c"
| "put_status s (ToolResult _ a b c) = ToolResult s a b c"
| "put_status s (Compaction _ a) = Compaction s a"
| "put_status s (Review _ a b c e) = Review s a b c e"
| "put_status s (RuntimeProgress _ a) = RuntimeProgress s a"
| "put_status s (ErrorItem _ a) = ErrorItem s a"
| "put_status s b = b"

text \<open>
  The patch that ends a call. It is applied to the item of a tool call, which has a status; approvals and
  user inputs have one of their own and are left alone.
\<close>

definition end_patch :: "item_status \<Rightarrow> string \<Rightarrow> turn_item \<Rightarrow> turn_item" where
  "end_patch s now x = x\<lparr>ti_finished := Some now, ti_body := put_status s (ti_body x)\<rparr>"

definition call_item_id :: "run_identity \<Rightarrow> string \<Rightarrow> string" where
  "call_item_id i c = ''item_tool_'' @ turnId i @ ''_'' @ c"

definition call_item :: "run_identity \<Rightarrow> string \<Rightarrow> tool_call \<Rightarrow> turn_item" where
  "call_item i now c = makeToolCallItem (call_item_id i (tk_call c)) (turnId i) (threadId i) (tk_call c) (tk_tool c) None
     (tk_arguments c) None (Some ItemRunning) now"

definition rejected_item :: "run_identity \<Rightarrow> (nat \<Rightarrow> string) \<Rightarrow> tool_call \<Rightarrow> string \<Rightarrow> turn_item" where
  "rejected_item i clock c m = makeToolResultItem (''item_'' @ tk_call c) (turnId i) (threadId i) (tk_call c) (tk_tool c) (tk_kind c)
     (Some (JObj [(''code'', JStr ''tool_dispatch_rejected''), (''error'', JStr m),
        (''guidance'', JStr ''Use only tools advertised in the current turn context.'')]))
     (Some True) (Some ItemFailed) (Some (clock 3)) (clock 4) (clock 5)"

record progress_note =
  pt_phase :: progress_phase
  pt_summary :: string
  pt_steps :: nat
  pt_tools :: nat
  pt_evidence :: nat
  pt_artifacts :: nat
  pt_reason :: "string option"

text \<open>Steps and calls are counted in whole numbers.\<close>

definition whole :: "rat \<Rightarrow> nat" where
  "whole x = nat \<lfloor>x\<rfloor>"

definition note_of :: "progress_phase \<Rightarrow> string \<Rightarrow> run_state \<Rightarrow> string \<Rightarrow> progress_note" where
  "note_of ph m s reason = \<lparr>pt_phase = ph, pt_summary = m, pt_steps = whole (stepsUsed (budgets s)), pt_tools = whole (toolCallsUsed (budgets s)),
     pt_evidence = 0, pt_artifacts = 0, pt_reason = truthy (Some reason)\<rparr>"

definition info_of :: "progress_note \<Rightarrow> progress_info" where
  "info_of n = \<lparr>pi_phase = pt_phase n, pi_summary = pt_summary n, pi_steps = pt_steps n, pi_tools = pt_tools n,
     pi_evidence = pt_evidence n, pi_artifacts = pt_artifacts n, pi_reason = pt_reason n\<rparr>"

text \<open>A note without a reason keeps the one of the item, which is always a progress item.\<close>

definition progress_patch :: "progress_note \<Rightarrow> turn_item \<Rightarrow> turn_item" where
  "progress_patch n x = (case ti_body x of
      RuntimeProgress _ p \<Rightarrow> x\<lparr>ti_body := RuntimeProgress (if pt_phase n = Terminated then ItemCompleted else ItemRunning)
        ((info_of n)\<lparr>pi_reason := (case pt_reason n of None \<Rightarrow> pi_reason p | Some r \<Rightarrow> Some r)\<rparr>)\<rparr>
    | _ \<Rightarrow> x)"

definition progress_item_id :: "run_identity \<Rightarrow> string" where
  "progress_item_id i = ''item_kernel_progress_'' @ runId i"

definition emitProgress :: "('q, 'h) node_env \<Rightarrow> run_identity \<Rightarrow> nat \<Rightarrow> progress_note \<Rightarrow> (unit, 'h) node_action" where
  "emitProgress env i k n = (if \<not> ne_progress env then n_lift (Inr ()) else
     n_bind (on_turns (applyItemOnce (ne_clock env k) (threadId i) (make_item (progress_item_id i) (turnId i) (threadId i) SystemRole
       (ne_clock env k 3) None (RuntimeProgress ItemRunning (info_of n))))) (\<lambda>_.
     n_bind (on_turns (service_updateItemOnce (ne_clock env (Suc k)) (threadId i) (progress_item_id i) (progress_patch n))) (\<lambda>_.
     n_lift (Inr ()))))"

definition write_once :: "('q, 'h) node_env \<Rightarrow> run_identity \<Rightarrow> nat \<Rightarrow> turn_item \<Rightarrow> (unit, 'h) node_action" where
  "write_once env i k x = n_bind (on_turns (applyItemOnce (ne_clock env k) (threadId i) x)) (\<lambda>_. n_lift (Inr ()))"

definition reasoning_item_id :: "model_proposal \<Rightarrow> string" where
  "reasoning_item_id p = ''item_kernel_reasoning_'' @ mp_id p"

definition text_item_id :: "model_proposal \<Rightarrow> string" where
  "text_item_id p = ''item_kernel_text_'' @ mp_id p"

definition materializeProposal :: "('q, 'h) node_env \<Rightarrow> run_identity \<Rightarrow> model_proposal \<Rightarrow> (unit, 'h) node_action" where
  "materializeProposal env i p = (let (reasoning, answer) = materializableProposalContent p in
     n_bind (case reasoning of None \<Rightarrow> n_lift (Inr ())
       | Some s \<Rightarrow> write_once env i 0 (makeAssistantReasoningItem (reasoning_item_id p) (turnId i) (threadId i) s None
           (Some ItemCompleted) (ne_clock env 0 3))) (\<lambda>_.
     case answer of None \<Rightarrow> n_lift (Inr ())
       | Some s \<Rightarrow> write_once env i 1 (makeAssistantTextItem (text_item_id p) (turnId i) (threadId i) s
           (Some ItemCompleted) (ne_clock env 1 3))))"

section \<open>Before the model\<close>

definition prepare_turn :: "('q, 'h) node_env \<Rightarrow> ('q, 'h) kernel_node" where
  "prepare_turn env i s d f =
     n_bind (n_read (\<lambda>w. (get_thread (threadId i) (tv_threads (nw_turns w)), getTurn (threadId i) (turnId i) (nw_turns w)))) (\<lambda>found.
     case found of
       (Some c, Some u) \<Rightarrow>
         n_bind (emitProgress env i 0 \<lparr>pt_phase = Preparing, pt_summary = ''Preparing the task state and execution context.'',
           pt_steps = 0, pt_tools = 0, pt_evidence = 0, pt_artifacts = 0, pt_reason = None\<rparr>) (\<lambda>_.
         if owner_of c \<noteq> ownerUserId i \<or> th_workspace c \<noteq> workspaceKey i \<or> tr_thread u \<noteq> threadId i
         then n_lift (Inr (ends (failed_outcome ''turn scope mismatch'')))
         else n_bind (n_read (\<lambda>w. signal_aborted (turnId i) (nw_turns w))) (\<lambda>aborted. n_lift (Inr (
           if aborted then ends aborted_by_user
           else goes ''next'' (Some (Turn_value (owner_of c) (th_workspace c) (tr_status u))) []))))
     | _ \<Rightarrow> n_lift (Inr (ends (failed_outcome ''turn or thread not found''))))"

definition has_task :: "task_state \<Rightarrow> 'q node_reply" where
  "has_task t = goes ''next'' (Some (Task_value t)) [Kernel_command (SetTaskRevision (tks_revision t))]"

definition not_restored :: "string \<Rightarrow> string \<Rightarrow> 'q node_reply" where
  "not_restored code reason = ends (plain_outcome OFailed Required_action_missing False
     (Some [(''code'', JStr code), (''reason'', JStr reason)]))"

definition restore_task :: "('q, 'h) node_env \<Rightarrow> ('q, 'h) kernel_node" where
  "restore_task env i s d f =
     n_bind (on_tasks (\<lambda>st. (task_load (te_hs (ne_tools env 0)) i st, st))) (\<lambda>loaded.
     case loaded of Some t \<Rightarrow> n_lift (Inr (has_task t)) | None \<Rightarrow>
       n_bind (n_read (\<lambda>w. (get_thread (threadId i) (tv_threads (nw_turns w)), loadItems (threadId i) (session_of (nw_turns w)))))
         (\<lambda>(thread, items). case thread of
           None \<Rightarrow> n_lift (Inr (ends (failed_outcome ''thread not found during task restore'')))
         | Some c \<Rightarrow> n_bind (on_tasks (migrateLegacyTaskState (te_hs (ne_tools env 0)) (te_hj (ne_tools env 0)) (ne_zod env)
               (ne_clock env 0) (ne_token env) i c items)) (\<lambda>m. n_lift (Inr (case m of
             Task_created t \<Rightarrow> has_task t | Task_existing t \<Rightarrow> has_task t
           | No_trusted_source r \<Rightarrow> not_restored ''insufficient_trusted_source'' r
           | Scope_violation r \<Rightarrow> not_restored ''scope_violation'' r)))))"

definition with_entry :: "string option \<Rightarrow> 'q stored_request \<Rightarrow> 'q stored_request" where
  "with_entry e r = (case truthy e of None \<Rightarrow> r | Some m \<Rightarrow> r\<lparr>rq_instructions := Some (or_else (rq_instructions r) [] @ [m])\<rparr>)"

definition build_context :: "('q, 'h) node_env \<Rightarrow> ('q, 'h) kernel_node" where
  "build_context env i s d f =
     n_bind (n_read (\<lambda>w. signal_live (turnId i) (nw_turns w))) (\<lambda>live.
     if \<not> live then n_lift (Inr (ends aborted_by_user)) else
     n_bind (on_turns (ne_build env \<lparr>br_thread = threadId i, br_turn = turnId i, br_step = stepIndex (cursor s),
       br_governor = map_option mw_data (map_of (middleware s) ''compaction-governor''), br_force = nv_force d\<rparr>)) (\<lambda>b. n_lift (Inr (
     case b of Build_aborted \<Rightarrow> ends aborted_by_user | Build_stopped \<Rightarrow> ends (failed_outcome ''prompt build stopped'')
     | Built p \<Rightarrow> goes ''next'' (Some (Built_value \<lparr>bv_request = with_entry (nv_entry d) (bp_request p),
           bv_policies = tool_policies_of (bp_tools p), bv_context = bp_context p\<rparr>))
         ((case Option.bind (bp_governor p) (\<lambda>v. if js_truthy v then Some v else None) of None \<Rightarrow> []
             | Some v \<Rightarrow> [Kernel_command (SetMiddlewareState ''compaction-governor'' \<lparr>mw_version = 1, mw_data = v\<rparr>)]) @
          (if nv_force d then [Store_force False] else []))))))"

section \<open>The model\<close>

definition try_again :: "run_state \<Rightarrow> string \<Rightarrow> 'q node_value option \<Rightarrow> node_command list \<Rightarrow> 'q node_reply" where
  "try_again s reason v cs = goes ''recover'' v
     (Kernel_command (SetRecovery ((recovery s)\<lparr>attempts := attempts (recovery s) + 1, lastReason := Some reason\<rparr>)) # cs)"

definition stop_at_capacity :: "('q, 'h) node_env \<Rightarrow> run_identity \<Rightarrow> run_state \<Rightarrow> model_proposal \<Rightarrow> ('q node_reply, 'h) node_action" where
  "stop_at_capacity env i s p = n_bind (emitProgress env i 0 (note_of Terminated
       ''The model context capacity was reached; the run stopped after preserving the current task state.'' s
       ''context_capacity_exceeded'')) (\<lambda>_.
     n_lift (Inr (ends (plain_outcome ODegraded Context_capacity_exceeded True
       (Some (opt_field ''providerReason'' JStr (mp_reason p)))))))"

text \<open>What the model throws is a value for the handler, which asks the signal it took before.\<close>

definition invoke_model :: "('q, 'h) node_env \<Rightarrow> ('q, 'h) kernel_node" where
  "invoke_model env i s d f = n_bind (n_lift (require_value ''build-context'' (nv_built d))) (\<lambda>b.
     n_bind (n_read (\<lambda>w. signal_live (turnId i) (nw_turns w))) (\<lambda>live.
     if \<not> live then n_lift (Inr (ends aborted_by_user)) else
     (\<lambda>w. case on_turns (ne_model env (bv_request b)) w of
         (Inl e, w') \<Rightarrow> (Inr (
            if turnId i \<in> set (tv_aborted (nw_turns w')) then ends aborted_by_user
            else if attempts (recovery s) < maxAttempts (recovery s) then try_again s ''model_stream_error'' None []
            else ends (failed_outcome (''model invocation failed: '' @ error_text (ne_zod env) e))), w')
       | (Inr p, w') \<Rightarrow>
            if \<not> isContextCapacityProposal p then (Inr (goes ''next'' (Some (Proposal_value p)) []), w')
            else if attempts (recovery s) < maxAttempts (recovery s)
            then (Inr (try_again s ''context_capacity_exceeded'' (Some (Proposal_value p)) [Store_force True]), w')
            else stop_at_capacity env i s p w')))"

definition normalize_proposal :: "('q, 'h) kernel_node" where
  "normalize_proposal i s d f = n_lift (bind_result (require_value ''invoke-model'' (nv_invoked d)) (\<lambda>p.
     bind_result (parse_proposal p) (\<lambda>q. Inr (goes ''next'' (Some (Proposal_value q)) []))))"

section \<open>Accounting and evaluation\<close>

fun class_name :: "proposal_class \<Rightarrow> string" where
  "class_name Final_text = ''final_text''"
| "class_name Tool_intents = ''tool_intents''"
| "class_name Empty_proposal = ''empty''"
| "class_name Length_limited = ''length_limited''"
| "class_name Safety_or_refusal = ''safety_or_refusal''"
| "class_name Protocol_error = ''protocol_error''"
| "class_name Context_discontinuity = ''context_discontinuity''"
| "class_name Nonterminal_action = ''nonterminal_action''"

fun stop_name :: "stop_class \<Rightarrow> string" where
  "stop_name Stop_normal = ''normal''"
| "stop_name Stop_tool_calls = ''tool_calls''"
| "stop_name Stop_length = ''length''"
| "stop_name Stop_safety = ''safety''"
| "stop_name Stop_refusal = ''refusal''"
| "stop_name Stop_transport = ''transport_error''"
| "stop_name Stop_protocol = ''protocol_error''"
| "stop_name Stop_unknown = ''unknown''"

definition need_task :: "'q node_view \<Rightarrow> task_state result" where
  "need_task d = require_value ''restore-task'' (nv_task d)"

definition need_proposal :: "'q node_view \<Rightarrow> model_proposal result" where
  "need_proposal d = bind_result (require_value ''normalize-proposal'' (nv_proposal d)) parse_proposal"

definition used_tokens :: "(usage \<Rightarrow> nat) \<Rightarrow> model_proposal \<Rightarrow> nat" where
  "used_tokens g p = (case mp_usage p of None \<Rightarrow> 0 | Some u \<Rightarrow> g u)"

definition used_cost :: "model_proposal \<Rightarrow> rat" where
  "used_cost p = or_else (Option.bind (mp_usage p) u_cost_usd) 0"

definition open_migration :: "'q node_view \<Rightarrow> (string \<times> accounting_migration) option" where
  "open_migration d = (
     if pred_option am_consumed (nv_v2 d)
     then (if pred_option am_consumed (nv_v1 d) then None else map_option (Pair ''v1-accounting-migration'') (nv_v1 d))
     else map_option (Pair ''v2-accounting-migration'') (nv_v2 d))"

definition account_model :: "('q, 'h) kernel_node" where
  "account_model i s d f = n_lift (
     bind_result (need_task d) (\<lambda>t.
     bind_result (need_proposal d) (\<lambda>p. Inr
       \<lparr>ny_condition = Some ''next'', ny_outcome = None,
        ny_commands = Kernel_command (AddBudget [(KStepsUsed, 1), (KInputTokens, of_nat (used_tokens u_prompt p)),
            (KOutputTokens, of_nat (used_tokens u_completion p)), (KCostUsd, used_cost p)] (Some (''model:'' @ mp_id p))) #
          (case open_migration d of None \<Rightarrow> []
           | Some (n, m) \<Rightarrow> [Store_accounting n (m\<lparr>am_consumed := True\<rparr>), Kernel_command (Jump (am_resume m) ''next''
               ''resume migrated production graph after model accounting'')]),
        ny_facts = Some ([(''proposalClass'', JStr (class_name (class_of p t))), (''stopClass'', JStr (stop_name (mp_stop p)))] @
          opt_field ''providerReason'' JStr (truthy (mp_reason p)) @
          [(''inputTokens'', count_json (used_tokens u_prompt p)), (''outputTokens'', count_json (used_tokens u_completion p)),
           (''costUsd'', JNum (used_cost p)), (''proposalHasText'', JBool (trim (mp_text p) \<noteq> [])),
           (''hadToolResult'', JBool (tks_ledger t \<noteq> []))]),
        ny_value = None\<rparr>)))"

definition abort_prepared :: "('q, 'h) node_env \<Rightarrow> run_identity \<Rightarrow> proposal_migration \<Rightarrow> (unit, 'h) node_action" where
  "abort_prepared env i g = each (\<lambda>k c. n_bind (on_turns (service_updateItemOnce (ne_clock env k) (threadId i) (call_item_id i c)
     (end_patch ItemAborted (pg_finished g)))) (\<lambda>_. n_lift (Inr ()))) 0 (pg_prepared g)"

definition evaluated :: "recovery_state \<Rightarrow> task_state \<Rightarrow> proposal_class \<Rightarrow> node_command list \<Rightarrow> 'q node_reply" where
  "evaluated r t p cs = (
     if p = Tool_intents then goes ''tools'' (Some (Class_value p ''tools'')) cs
     else if isRecoverableProposalClass p
     then (case transitionContextRecovery t r p of
         (Degrade_run details, r', _) \<Rightarrow> \<lparr>ny_condition = None,
           ny_outcome = Some (plain_outcome ODegraded Context_recovery_exhausted True (Some details)),
           ny_commands = cs @ [Kernel_command (SetRecovery r')], ny_facts = None, ny_value = Some (Class_value p ''degrade'')\<rparr>
       | (_, r', _) \<Rightarrow> goes ''recover'' (Some (Class_value p ''recover'')) (cs @ [Kernel_command (SetRecovery r')]))
     else if p = Safety_or_refusal then goes ''fatal'' (Some (Class_value p ''fatal'')) cs
     else goes ''final'' (Some (Class_value p ''final'')) cs)"

definition evaluate :: "('q, 'h) node_env \<Rightarrow> ('q, 'h) kernel_node" where
  "evaluate env i s d f = n_bind (n_lift (need_task d)) (\<lambda>t. n_bind (n_lift (need_proposal d)) (\<lambda>p.
     let c = class_of p t;
         g = (case nv_v1_proposal d of Some m \<Rightarrow> if pg_reconciled m then None else Some m | None \<Rightarrow> None)
     in n_bind (case g of Some m \<Rightarrow> if c = Tool_intents then n_lift (Inr ()) else abort_prepared env i m | None \<Rightarrow> n_lift (Inr ())) (\<lambda>_.
        n_lift (Inr (evaluated (recovery s) t c (case g of Some m \<Rightarrow> [Store_migration (m\<lparr>pg_reconciled := True\<rparr>)] | None \<Rightarrow> []))))))"

definition commit_assistant :: "('q, 'h) node_env \<Rightarrow> ('q, 'h) kernel_node" where
  "commit_assistant env i s d f = n_bind (n_lift (need_proposal d)) (\<lambda>p. n_bind (materializeProposal env i p) (\<lambda>_.
     n_bind (emitProgress env i 2 (note_of Terminated ''Task response completed.'' s ''normal_stop'')) (\<lambda>_.
     n_lift (Inr \<lparr>ny_condition = None, ny_outcome = Some (plain_outcome OCompleted Normal_stop False None), ny_commands = [],
       ny_facts = None, ny_value = Some (Written_value (mp_id p))\<rparr>))))"

definition materialize_proposal :: "('q, 'h) node_env \<Rightarrow> ('q, 'h) kernel_node" where
  "materialize_proposal env i s d f = n_bind (n_lift (need_proposal d)) (\<lambda>p. n_bind (materializeProposal env i p) (\<lambda>_.
     n_lift (Inr (goes ''next'' (Some (Written_value (mp_id p))) []))))"

section \<open>Tools\<close>

definition call_of :: "model_intent \<Rightarrow> tool_call" where
  "call_of n = \<lparr>tk_call = mi_call n, tk_tool = mi_tool n, tk_provider = None, tk_kind = None, tk_arguments = mi_arguments n\<rparr>"

definition unledgered :: "task_state \<Rightarrow> tool_call list \<Rightarrow> string list" where
  "unledgered t cs = filter (\<lambda>c. c \<notin> set (map le_call (tks_ledger t))) (map tk_call cs)"

definition prepare_tools :: "('q, 'h) node_env \<Rightarrow> ('q, 'h) kernel_node" where
  "prepare_tools env i s d f = n_bind (n_lift (need_proposal d)) (\<lambda>p. n_bind (n_lift (need_task d)) (\<lambda>t.
     let calls = map call_of (mp_intents p); fresh = unledgered t calls
     in n_bind (each (\<lambda>k c. write_once env i k (call_item i (ne_clock env k 3) c)) 0 calls) (\<lambda>_.
        n_lift (Inr (goes ''next'' (Some (Calls_value calls)) (if fresh = [] then [] else
          [Kernel_command (AddBudget [(KToolCallsUsed, of_nat (length fresh))] (Some (''tools:'' @
            digestValue (te_hj (ne_tools env 0)) (JObj [(''proposalId'', JStr (mp_id p)), (''callIds'', names_json fresh)]))))]))))))"

definition result_digest :: "(json \<Rightarrow> string) \<Rightarrow> turn_item \<Rightarrow> string result" where
  "result_digest hj x = (if is_result x then output_digest hj (ti_body x) else Inr (digestValue hj (item_json x)))"

fun result_failed :: "item_body \<Rightarrow> bool" where
  "result_failed (ToolResult _ _ _ err) = err"
| "result_failed _ = False"

text \<open>The item of the call is ended, the item of the result is added, and the call gets its entry in the ledger.\<close>

definition note_result :: "('q, 'h) node_env \<Rightarrow> run_identity \<Rightarrow> nat \<Rightarrow> tool_call \<Rightarrow> turn_item \<Rightarrow> bool \<Rightarrow> (unit, 'h) node_action" where
  "note_result env i k c x failed =
     n_bind (on_turns (service_updateItem (ne_clock env (2 * k)) (threadId i) (call_item_id i (tk_call c))
       (end_patch (if failed then ItemFailed else ItemCompleted) (ne_clock env (2 * k) 3)))) (\<lambda>_.
     on_turns (applyItem (ne_clock env (2 * k + 1)) (threadId i) x))"

definition ledger_of :: "('q, 'h) node_env \<Rightarrow> nat \<Rightarrow> tool_call \<Rightarrow> turn_item \<Rightarrow> bool \<Rightarrow> ledger_entry result" where
  "ledger_of env k c x failed = bind_result (result_digest (te_hj (ne_tools env k)) x) (\<lambda>g.
     Inr \<lparr>le_call = tk_call c, le_tool = tk_tool c, le_status = (if failed then Led_failed else Led_committed), le_result = Some g\<rparr>)"

definition reject_call :: "('q, 'h) node_env \<Rightarrow> run_identity \<Rightarrow> tool_place \<Rightarrow> nat \<Rightarrow> tool_call \<Rightarrow> effect_policy \<Rightarrow> string \<Rightarrow>
    (ledger_entry \<times> tool_observation, 'h) node_action" where
  "reject_call env i q k c pol m = (let x = rejected_item i (ne_clock env (2 * k + 1)) c m; te = ne_tools env k in
     n_bind (note_result env i k c x True) (\<lambda>_.
     n_lift (bind_result (observeTool (te_sha te) (te_rules te) c
          \<lparr>rw_item = Json_item (item_json x), rw_approved = False, rw_semantic = None\<rparr> q (po_effect pol) False) (\<lambda>t.
       bind_result (ledger_of env k c x True) (\<lambda>e. Inr (e, t))))))"

definition accept_result :: "('q, 'h) node_env \<Rightarrow> run_identity \<Rightarrow> nat \<Rightarrow> tool_call \<Rightarrow> turn_item \<Rightarrow> (ledger_entry, 'h) node_action" where
  "accept_result env i k c x = (let failed = result_failed (ti_body x) in
     n_bind (note_result env i k c x failed) (\<lambda>_. n_lift (ledger_of env k c x failed)))"

record batch =
  ba_state :: run_state
  ba_ledger :: "ledger_entry list"
  ba_observations :: "tool_observation list"

text \<open>A batch that ends early answers with the outcome of the run.\<close>

fun run_calls :: "('q, 'h) node_env \<Rightarrow> run_identity \<Rightarrow> tool_place \<Rightarrow> tool_policies \<Rightarrow> fence option \<Rightarrow> nat \<Rightarrow> tool_call list \<Rightarrow> batch \<Rightarrow>
    (run_outcome + batch, 'h) node_action" where
  "run_calls env i q ps f k [] b w = (Inr (Inr b), w)"
| "run_calls env i q ps f k (c # cs) b w = (case policy_of ps c of
      Inl e \<Rightarrow> (Inl e, w)
    | Inr pol \<Rightarrow> (case on_tools (tool_execute (ne_tools env k) i (ba_state b) c q pol False f) w of
        (Inl e, w1) \<Rightarrow> (case dispatch_rejected e of
            None \<Rightarrow> (Inl e, w1)
          | Some m \<Rightarrow> n_bind (reject_call env i q k c pol m) (\<lambda>(e, t).
              run_calls env i q ps f (Suc k) cs (b\<lparr>ba_ledger := ba_ledger b @ [e], ba_observations := ba_observations b @ [t]\<rparr>)) w1)
      | (Inr x, w1) \<Rightarrow> (case (tx_outcome x, tx_result x) of
            (Some y, _) \<Rightarrow> (Inr (Inl y), w1)
          | (None, None) \<Rightarrow> (Inr (Inl (failed_outcome (''tool result missing: '' @ tk_call c))), w1)
          | (None, Some r) \<Rightarrow> n_bind (accept_result env i k c (hr_item r)) (\<lambda>e.
              run_calls env i q ps f (Suc k) cs \<lparr>ba_state = tx_state x, ba_ledger = ba_ledger b @ [e],
                ba_observations = ba_observations b @ (case tx_observation x of None \<Rightarrow> [] | Some t \<Rightarrow> [t])\<rparr>) w1)))"

definition store_ledger :: "('q, 'h) node_env \<Rightarrow> run_identity \<Rightarrow> batch \<Rightarrow> ('q node_reply, 'h) node_action" where
  "store_ledger env i b = (let hs = te_hs (ne_tools env 0) in
     n_bind (on_tasks (\<lambda>st. (task_load hs i st, st))) (\<lambda>loaded. case loaded of
       None \<Rightarrow> n_lift (Inr (ends (failed_outcome ''task state missing after tools'')))
     | Some t \<Rightarrow> let u = updateTaskLedger t (ba_ledger b) (ne_clock env 0 4) in
         n_bind (on_tasks (prepare_commit hs (ne_token env) u (int (tks_revision t)))) (\<lambda>_.
         n_lift (Inr (goes ''tools_committed''
           (Some (Committed_value (map le_call (ba_ledger b)) (tks_revision u) (ba_observations b)))
           [Kernel_command (SetTaskRevision (tks_revision u)), Store_task u,
            Kernel_command (SetEffects (pendingEffects (ba_state b)) (committedEffects (ba_state b)))])))))"

definition createToolContext :: "run_identity \<Rightarrow> turn_world \<Rightarrow> tool_place result" where
  "createToolContext i w = (case (get_thread (threadId i) (tv_threads w), getTurn (threadId i) (turnId i) w) of
      (Some c, Some u) \<Rightarrow> Inr \<lparr>tp_workspace = th_workspace c, tp_thread = threadId i, tp_turn = turnId i\<rparr>
    | _ \<Rightarrow> throw ''kernel tool context scope unavailable'')"

definition commit_tools :: "('q, 'h) node_env \<Rightarrow> ('q, 'h) kernel_node" where
  "commit_tools env i s d f =
     n_bind (n_lift (require_value ''prepare-tools'' (nv_calls d))) (\<lambda>calls.
     n_bind (n_lift (require_value ''build-context'' (nv_built d))) (\<lambda>bv.
     n_bind (n_read (\<lambda>w. createToolContext i (nw_turns w))) (\<lambda>place. n_bind (n_lift place) (\<lambda>q.
     n_bind (run_calls env i q (bv_policies bv) f 0 calls \<lparr>ba_state = s, ba_ledger = [], ba_observations = []\<rparr>) (\<lambda>r.
     case r of Inl y \<Rightarrow> n_lift (Inr (ends y)) | Inr b \<Rightarrow> store_ledger env i b)))))"

section \<open>Progress and ends\<close>

fun todo_act :: "todo_status \<Rightarrow> action_status" where
  "todo_act Todo_pending = Act_pending"
| "todo_act Todo_in_progress = Act_in_progress"
| "todo_act Todo_completed = Act_completed"

definition todos_of :: "Threads.thread option \<Rightarrow> todo_projection list option" where
  "todos_of c = map_option (\<lambda>l. map (\<lambda>t. \<lparr>tp_id = td_id t, tp_content = td_content t, tp_status = todo_act (td_status t)\<rparr>) (tdl_items l))
     (Option.bind c th_todos)"

fun level_name :: "progress_level \<Rightarrow> string" where
  "level_name Strong_progress = ''strong''"
| "level_name Weak_progress = ''weak''"
| "level_name No_progress = ''none''"

definition evidence_count :: "task_state \<Rightarrow> nat" where
  "evidence_count t = (case tks_progress t of None \<Rightarrow> 0 | Some g \<Rightarrow> tg_evidence g)"

text \<open>A revision whose commit failed is withdrawn.\<close>

definition store_projection :: "('q, 'h) node_env \<Rightarrow> task_state \<Rightarrow> nat \<Rightarrow> (unit, 'h) node_action" where
  "store_projection env u expected = on_tasks (\<lambda>st. case task_prepare (te_hs (ne_tools env 0)) (ne_token env) u (int expected) st of
      Inl e \<Rightarrow> (Inl e, st)
    | Inr (p, st1) \<Rightarrow> (case task_commit p st1 of Inl e \<Rightarrow> (Inl e, task_abort p st1) | Inr st2 \<Rightarrow> (Inr (), st2)))"

definition project_progress :: "('q, 'h) node_env \<Rightarrow> ('q, 'h) kernel_node" where
  "project_progress env i s d f =
     n_bind (n_lift (need_task d)) (\<lambda>t. n_bind (n_lift (require_value ''commit-tools'' (nv_observations d))) (\<lambda>obs.
     n_bind (n_read (\<lambda>w. get_thread (threadId i) (tv_threads (nw_turns w)))) (\<lambda>c.
     n_bind (n_lift (projectTaskState (te_hj (ne_tools env 0)) (ne_clock env 2 0) (todos_of c) obs t)) (\<lambda>(u, g).
     let changed = pd_level g \<noteq> No_progress
     in n_bind (emitProgress env i 0 \<lparr>pt_phase = Executing,
          pt_summary = (if changed then ''New evidence or task progress recorded.'' else ''Executing the next task action.''),
          pt_steps = whole (stepsUsed (budgets s)), pt_tools = whole (toolCallsUsed (budgets s)),
          pt_evidence = evidence_count u, pt_artifacts = length (tks_artifacts u), pt_reason = None\<rparr>) (\<lambda>_.
        n_bind (if changed then store_projection env u (tks_revision t) else n_lift (Inr ())) (\<lambda>_. n_lift (Inr
          \<lparr>ny_condition = Some ''next'', ny_outcome = None,
           ny_commands = (if changed then [Kernel_command (SetTaskRevision (tks_revision u)), Store_task u] else []),
           ny_facts = Some [(''observations'', JArr (map observation_json obs)), (''progressLevel'', JStr (level_name (pd_level g))),
             (''progressDigest'', JStr (pd_value g)), (''evidenceCount'', count_json (evidence_count u)),
             (''artifactCount'', count_json (length (tks_artifacts u)))],
           ny_value = Some (Task_value u)\<rparr>)))))))"

definition govern_progress :: "('q, 'h) kernel_node" where
  "govern_progress i s d f = n_lift (Inr (goes ''progress_checked'' (Some Checked_value) []))"

definition progress_checkpoint :: "('q, 'h) node_env \<Rightarrow> ('q, 'h) kernel_node" where
  "progress_checkpoint env i s d f = n_bind (emitProgress env i 0 (note_of Checkpoint
       ''A progress checkpoint was reached; the next model step must summarize existing evidence or finish.'' s ''no_progress_window'')) (\<lambda>_.
     n_lift (bind_result (need_task d) (\<lambda>t. Inr ((goes ''checkpointed'' (Some (Checkpoint_value (tks_revision t)
       ''Checkpointed after a no-progress window; summarize existing evidence before taking another action.'')) [])
         \<lparr>ny_facts := Some [(''checkpointCompleted'', JBool True)]\<rparr>))))"

definition recover_context :: "('q, 'h) kernel_node" where
  "recover_context i s d f = n_lift (bind_result (need_task d) (\<lambda>t.
     Inr (goes ''recovered'' (Some (Entry_value (renderRecoveryContinuationEntry t))) [])))"

definition wait_user :: "('q, 'h) kernel_node" where
  "wait_user i s d f = n_lift (Inr (ends (plain_outcome OSuspended Awaiting_user_input True None)))"

definition fail_run :: "('q, 'h) kernel_node" where
  "fail_run i s d f = n_lift (Inr (ends (let safety = (nv_class d = Some Safety_or_refusal) in
     plain_outcome OFailed (if safety then Provider_safety_stop else Provider_protocol_error) (\<not> safety) None)))"

definition createKernelV3NodeHandlers :: "('q, 'h) node_env \<Rightarrow> (string \<times> ('q, 'h) kernel_node) list" where
  "createKernelV3NodeHandlers env = [(''prepare-turn'', prepare_turn env), (''restore-task'', restore_task env),
     (''build-context'', build_context env), (''invoke-model'', invoke_model env), (''normalize-proposal'', normalize_proposal),
     (''account-model'', account_model), (''evaluate'', evaluate env), (''commit-assistant'', commit_assistant env),
     (''materialize-proposal'', materialize_proposal env), (''prepare-tools'', prepare_tools env), (''commit-tools'', commit_tools env),
     (''project-progress'', project_progress env), (''govern-progress'', govern_progress),
     (''progress-checkpoint'', progress_checkpoint env), (''recover-context'', recover_context), (''wait-user'', wait_user),
     (''fail'', fail_run)]"

end
