(* ===== verification/NodeProps.thy ===== *)
theory NodeProps
  imports KernelNodes TaskProps
begin

text \<open>
  What the node handlers guarantee: every answer names the one edge that leaves its node, a batch of tool
  calls leaves each of them in the ledger of the task, the texts of a proposal are written once; and what they do
  not: an attempt at a batch that did not end leaves no trace in the run state, and a run that has no right to a
  thread has already written to it.
\<close>

section \<open>Handlers\<close>

lemma n_bind_Inr: "n_bind m f w = (Inr y, w') \<longleftrightarrow> (\<exists>x w1. m w = (Inr x, w1) \<and> f x w1 = (Inr y, w'))"
  by (auto simp: n_bind_def split: prod.splits sum.splits)

lemma n_lift_Inr: "n_lift r w = (Inr y, w') \<longleftrightarrow> r = Inr y \<and> w' = w"
  by (auto simp: n_lift_def)

lemma n_read_Inr: "n_read g w = (Inr y, w') \<longleftrightarrow> y = g w \<and> w' = w"
  by (auto simp: n_read_def)

lemmas n_Inr = n_bind_Inr n_lift_Inr n_read_Inr

text \<open>All answers of an action satisfy a predicate.\<close>

definition yields :: "('a \<Rightarrow> bool) \<Rightarrow> ('a, 'h) node_action \<Rightarrow> bool" where
  "yields P m \<longleftrightarrow> (\<forall>w y w'. m w = (Inr y, w') \<longrightarrow> P y)"

named_theorems yields

lemma yields_bind [yields]: "(\<And>x. yields P (f x)) \<Longrightarrow> yields P (n_bind m f)"
  by (force simp: yields_def n_bind_Inr)

lemma yields_lift [yields]: "(\<And>y. r = Inr y \<Longrightarrow> P y) \<Longrightarrow> yields P (n_lift r)"
  by (simp add: yields_def n_lift_def)

lemma yields_if [yields]: "(b \<Longrightarrow> yields P m) \<Longrightarrow> (\<not> b \<Longrightarrow> yields P n) \<Longrightarrow> yields P (if b then m else n)"
  by simp

lemma yields_option [yields]: "(x = None \<Longrightarrow> yields P m) \<Longrightarrow> (\<And>y. x = Some y \<Longrightarrow> yields P (f y)) \<Longrightarrow>
    yields P (case x of None \<Rightarrow> m | Some y \<Rightarrow> f y)"
  by (cases x) auto

lemma yields_pair [yields]: "(\<And>x y. z = (x, y) \<Longrightarrow> yields P (f x y)) \<Longrightarrow> yields P (case z of (x, y) \<Rightarrow> f x y)"
  by (cases z) auto

lemma yields_sum [yields]: "(\<And>x. z = Inl x \<Longrightarrow> yields P (f x)) \<Longrightarrow> (\<And>y. z = Inr y \<Longrightarrow> yields P (g y)) \<Longrightarrow>
    yields P (case z of Inl x \<Rightarrow> f x | Inr y \<Rightarrow> g y)"
  by (cases z) auto

text \<open>An answer that ends the run, or goes on under one of the given conditions.\<close>

definition leads :: "string list \<Rightarrow> 'q node_reply \<Rightarrow> bool" where
  "leads cs y \<longleftrightarrow> ny_outcome y \<noteq> None \<or> (\<exists>c \<in> set cs. ny_condition y = Some c)"

lemma leads_simps [simp]: "leads cs (ends x)" "leads cs (goes c v ks) \<longleftrightarrow> c \<in> set cs"
  by (auto simp: leads_def ends_def goes_def)

lemma leads_try [simp]: "leads cs (try_again s r v ks) \<longleftrightarrow> ''recover'' \<in> set cs"
  by (simp add: try_again_def)

lemma leads_has_task [simp]: "leads cs (has_task t) \<longleftrightarrow> ''next'' \<in> set cs" "leads cs (not_restored a b)"
  by (simp_all add: has_task_def not_restored_def)

lemma leads_evaluated [simp]: "leads [''tools'', ''recover'', ''fatal'', ''final''] (evaluated r t p cs)"
  by (auto simp: evaluated_def leads_def goes_def transitionContextRecovery_def)

definition node_conditions :: "(string \<times> string list) list" where
  "node_conditions = [(''prepare-turn'', [''next'']), (''restore-task'', [''next'']), (''build-context'', [''next'']),
     (''invoke-model'', [''recover'', ''next'']), (''normalize-proposal'', [''next'']), (''account-model'', [''next'']),
     (''evaluate'', [''tools'', ''recover'', ''fatal'', ''final'']), (''commit-assistant'', []),
     (''materialize-proposal'', [''next'']), (''prepare-tools'', [''next'']), (''commit-tools'', [''tools_committed'']),
     (''project-progress'', [''next'']), (''govern-progress'', [''progress_checked'']),
     (''progress-checkpoint'', [''checkpointed'']), (''recover-context'', [''recovered'']), (''wait-user'', []), (''fail'', [])]"

lemma leads_prepare_turn: "yields (leads [''next'']) (prepare_turn env i s d f)"
  unfolding prepare_turn_def by (auto intro!: yields split: option.split prod.split if_split_asm)

lemma leads_restore: "yields (leads [''next'']) (restore_task env i s d f)"
  unfolding restore_task_def by (intro yields) (auto split: option.splits migration_result.splits)

lemma leads_build: "yields (leads [''next'']) (build_context env i s d f)"
  unfolding build_context_def by (intro yields) (auto split: build_result.splits)

lemma leads_invoke: "yields (leads [''recover'', ''next'']) (invoke_model env i s d f)"
  unfolding invoke_model_def
  by (intro yields) (auto simp: yields_def stop_at_capacity_def n_Inr split: prod.splits sum.splits if_splits)

lemma leads_evaluate: "yields (leads [''tools'', ''recover'', ''fatal'', ''final'']) (evaluate env i s d f)"
  unfolding evaluate_def Let_def by (intro yields) (auto simp del: leads_simps)

lemma leads_commit: "yields (leads [''tools_committed'']) (commit_tools env i s d f)"
  unfolding commit_tools_def store_ledger_def Let_def by (intro yields) auto

lemmas leads_unfold = normalize_proposal_def account_model_def commit_assistant_def materialize_proposal_def prepare_tools_def
  project_progress_def govern_progress_def progress_checkpoint_def recover_context_def wait_user_def fail_run_def

lemma leads_others:
  "yields (leads [''next'']) (normalize_proposal i s d f)" "yields (leads [''next'']) (account_model i s d f)"
  "yields (leads []) (commit_assistant env i s d f)" "yields (leads [''next'']) (materialize_proposal env i s d f)"
  "yields (leads [''next'']) (prepare_tools env i s d f)" "yields (leads [''next'']) (project_progress env i s d f)"
  "yields (leads [''progress_checked'']) (govern_progress i s d f)" "yields (leads [''checkpointed'']) (progress_checkpoint env i s d f)"
  "yields (leads [''recovered'']) (recover_context i s d f)" "yields (leads []) (wait_user i s d f)" "yields (leads []) (fail_run i s d f)"
  unfolding leads_unfold Let_def by (auto intro!: yields simp: result_simps leads_def goes_def ends_def)

lemma handlers_lead:
  assumes "map_of (createKernelV3NodeHandlers env) n = Some h"
  shows "\<exists>cs. map_of node_conditions n = Some cs \<and> yields (leads cs) (h i s d f)"
  using assms leads_prepare_turn leads_restore leads_build leads_invoke leads_evaluate leads_commit leads_others
  unfolding createKernelV3NodeHandlers_def node_conditions_def by (auto split: if_split_asm)

lemma conditions_are_edges:
  "list_all (\<lambda>(n, cs). find_node productionKernelV3Graph n \<noteq> None \<and>
     list_all (\<lambda>c. length (outgoingEdges productionKernelV3Graph n c) = 1) cs) node_conditions"
  by code_simp

text \<open>
  C28. Every answer of a handler leads on: the handlers are those of the nodes of the production graph, and an answer
  that does not end the run carries a condition for which exactly one edge leaves the node.
\<close>

theorem answers_have_one_edge:
  assumes "map_of (createKernelV3NodeHandlers env) n = Some h" and "h i s d f w = (Inr y, w')"
  shows "map fst (createKernelV3NodeHandlers env) = map rn_id (g_nodes productionKernelV3Graph) \<and>
    (ny_outcome y = None \<longrightarrow> (\<exists>c. ny_condition y = Some c \<and> length (outgoingEdges productionKernelV3Graph n c) = 1))"
proof -
  obtain cs where cs: "map_of node_conditions n = Some cs" and y: "yields (leads cs) (h i s d f)"
    using handlers_lead[OF assms(1)] by blast
  have "leads cs y" using y assms(2) by (auto simp: yields_def)
  moreover have "list_all (\<lambda>c. length (outgoingEdges productionKernelV3Graph n c) = 1) cs"
    using conditions_are_edges map_of_SomeD[OF cs] by (auto simp: list_all_iff)
  moreover have "map fst (createKernelV3NodeHandlers env) = map rn_id (g_nodes productionKernelV3Graph)"
    by (simp add: createKernelV3NodeHandlers_def productionKernelV3Graph_def rnode_def)
  ultimately show ?thesis by (auto simp: leads_def list_all_iff)
qed

section \<open>A batch of tool calls\<close>

lemma commit_keeps_settled:
  assumes "commit_result env i s n r t f w = (Inr s', w')" and "settled_key s k"
  shows "settled_key s' k"
  using assms
  by (auto simp: commit_result_def t_bind_Inr t_lift_Inr on_effects_def commit_effect_def settled_key_def Let_def result_simps
      split: prod.splits sum.splits option.splits)

lemma finish_settles:
  assumes "finish_call env i s n c d q e b f w = (Inr x, w')"
  shows "(tx_outcome x = None \<longrightarrow> settled_key (tx_state x) (ei_key n)) \<and> (settled_key s k \<longrightarrow> settled_key (tx_state x) k)"
  using assms by (cases b) (auto simp: finish_call_def t_bind_Inr t_lift_Inr dest: commit_remembers commit_keeps_settled)

lemma single_settles:
  assumes "executeSingle env i s call q pol b f w = (Inr x, w')"
  shows "(tx_outcome x = None \<longrightarrow> settled_key (tx_state x) (idempotencyKey i (tk_call call))) \<and> (settled_key s k \<longrightarrow> settled_key (tx_state x) k)"
proof -
  have run: "run_effect env i s call q pol b f w = (Inr x, w') \<Longrightarrow> ?thesis"
  proof -
    assume "run_effect env i s call q pol b f w = (Inr x, w')"
    then obtain pp c w1 s1 n where "prepare_host env call w = (Inr pp, w1)" and "normalizeToolCall (pp_call pp) = Inr c"
      and c: "tk_call c = tk_call call"
      and p: "prepare_effect (te_hj env) (te_now env 0) s i (tool_effect c) pol = (s1, n)"
      and fin: "finish_call env i s1 n c (pp_result pp) q (po_effect pol) b f w1 = (Inr x, w')"
      by (rule run_effect_Inr)
    have "ei_key n = idempotencyKey i (tk_call call)" using prepare_remembers[OF p] c by (simp add: tool_effect_def)
    with finish_settles[OF fin, of k] prepare_keeps_settled[OF p, of k] show ?thesis by simp
  qed
  show ?thesis
    using assms run unfolding executeSingle_def Let_def
    by (auto simp: settled_key_def[symmetric] needs_verification_def answer_stored_def result_simps
        split: if_split_asm sum.split_asm option.split_asm)
qed

lemma execute_settles:
  assumes "tool_execute env i s call q pol b f w = (Inr x, w')"
  shows "tx_outcome x = None \<Longrightarrow> settled_key (tx_state x) (idempotencyKey i (tk_call call))"
    and "settled_key s k \<Longrightarrow> settled_key (tx_state x) k"
proof -
  obtain c where c: "normalizeToolCall call = Inr c" and "executeSingle env i s c q pol b f w = (Inr x, w')"
    using assms by (auto simp: tool_execute_def t_bind_Inr t_lift_Inr)
  from single_settles[OF this(2), of k] normal_call_id[OF c]
  show "tx_outcome x = None \<Longrightarrow> settled_key (tx_state x) (idempotencyKey i (tk_call call))"
    and "settled_key s k \<Longrightarrow> settled_key (tx_state x) k" by auto
qed

lemma on_tools_Inr: "on_tools m w = (Inr x, w') \<longleftrightarrow> (\<exists>t. m (nw_tools w) = (Inr x, t) \<and> w' = w\<lparr>nw_tools := t\<rparr>)"
  by (auto simp: on_tools_def split: prod.splits)

lemma ledger_of_entry: "ledger_of env k c x failed = Inr e \<Longrightarrow>
    le_call e = tk_call c \<and> le_status e = (if failed then Led_failed else Led_committed)"
  by (auto simp: ledger_of_def result_simps)

lemma reject_entry: "reject_call env i q k c pol m w = (Inr (e, t), w') \<Longrightarrow> le_call e = tk_call c \<and> le_status e = Led_failed"
  unfolding reject_call_def Let_def n_Inr result_simps by (auto dest: ledger_of_entry)

lemma accept_entry: "accept_result env i k c x w = (Inr e, w') \<Longrightarrow> le_call e = tk_call c"
  unfolding accept_result_def Let_def n_Inr by (auto dest: ledger_of_entry)

text \<open>What one round of the batch leaves: the entry of its call and, for a call that was not rejected, its effect.\<close>

lemma run_calls_Cons:
  assumes "run_calls env i q ps f k (c # cs) b w = (Inr (Inr b2), w')"
  obtains e t s1 w1 where "le_call e = tk_call c"
    and "settled_key s1 (idempotencyKey i (tk_call c)) \<or> le_status e = Led_failed"
    and "\<And>key. settled_key (ba_state b) key \<Longrightarrow> settled_key s1 key"
    and "run_calls env i q ps f (Suc k) cs \<lparr>ba_state = s1, ba_ledger = ba_ledger b @ [e], ba_observations = ba_observations b @ t\<rparr> w1 =
      (Inr (Inr b2), w')"
proof -
  obtain pol where pol: "policy_of ps c = Inr pol" using assms by (cases "policy_of ps c") auto
  obtain r w1 where r: "on_tools (tool_execute (ne_tools env k) i (ba_state b) c q pol False f) w = (r, w1)" by (rule prod.exhaust)
  show ?thesis
  proof (cases r)
    case (Inl e)
    then obtain m where m: "dispatch_rejected e = Some m" using assms pol r by (cases "dispatch_rejected e") auto
    have "n_bind (reject_call env i q k c pol m) (\<lambda>(e, t). run_calls env i q ps f (Suc k) cs
        (b\<lparr>ba_ledger := ba_ledger b @ [e], ba_observations := ba_observations b @ [t]\<rparr>)) w1 = (Inr (Inr b2), w')"
      using assms pol r Inl m by simp
    then obtain e' t w2 where rej: "reject_call env i q k c pol m w1 = (Inr (e', t), w2)"
      and rest: "run_calls env i q ps f (Suc k) cs (b\<lparr>ba_ledger := ba_ledger b @ [e'], ba_observations := ba_observations b @ [t]\<rparr>) w2 =
        (Inr (Inr b2), w')"
      unfolding n_bind_Inr split_paired_Ex prod.case by blast
    have upd: "b\<lparr>ba_ledger := ba_ledger b @ [e'], ba_observations := ba_observations b @ [t]\<rparr> =
        \<lparr>ba_state = ba_state b, ba_ledger = ba_ledger b @ [e'], ba_observations = ba_observations b @ [t]\<rparr>" by simp
    show ?thesis by (rule that[OF _ _ _ rest[unfolded upd]]) (use reject_entry[OF rej] in auto)
  next
    case (Inr x)
    obtain t1 where ex: "tool_execute (ne_tools env k) i (ba_state b) c q pol False f (nw_tools w) = (Inr x, t1)"
      using r Inr by (auto simp: on_tools_Inr)
    obtain res where res: "tx_outcome x = None" "tx_result x = Some res"
      using assms pol r Inr by (cases "tx_outcome x"; cases "tx_result x") auto
    have "n_bind (accept_result env i k c (hr_item res)) (\<lambda>e. run_calls env i q ps f (Suc k) cs \<lparr>ba_state = tx_state x,
        ba_ledger = ba_ledger b @ [e], ba_observations = ba_observations b @ (case tx_observation x of None \<Rightarrow> [] | Some t \<Rightarrow> [t])\<rparr>) w1 =
        (Inr (Inr b2), w')"
      using assms pol r Inr res by simp
    then obtain e w2 where acc: "accept_result env i k c (hr_item res) w1 = (Inr e, w2)"
      and rest: "run_calls env i q ps f (Suc k) cs \<lparr>ba_state = tx_state x, ba_ledger = ba_ledger b @ [e],
        ba_observations = ba_observations b @ (case tx_observation x of None \<Rightarrow> [] | Some t \<Rightarrow> [t])\<rparr> w2 = (Inr (Inr b2), w')"
      unfolding n_bind_Inr by blast
    show ?thesis
      by (rule that[OF accept_entry[OF acc] _ _ rest]) (use execute_settles[OF ex] res in auto)
  qed
qed

lemma run_calls_result:
  assumes "run_calls env i q ps f k cs b w = (Inr (Inr b2), w')"
  shows "(\<exists>es. ba_ledger b2 = ba_ledger b @ es \<and> map le_call es = map tk_call cs \<and>
      (\<forall>e \<in> set es. settled_key (ba_state b2) (idempotencyKey i (le_call e)) \<or> le_status e = Led_failed)) \<and>
    (\<forall>key. settled_key (ba_state b) key \<longrightarrow> settled_key (ba_state b2) key)"
  using assms
proof (induction cs arbitrary: k b w)
  case (Cons c cs)
  obtain e t s1 w1 where e: "le_call e = tk_call c" and s: "settled_key s1 (idempotencyKey i (tk_call c)) \<or> le_status e = Led_failed"
    and keep: "\<And>key. settled_key (ba_state b) key \<Longrightarrow> settled_key s1 key"
    and rest: "run_calls env i q ps f (Suc k) cs \<lparr>ba_state = s1, ba_ledger = ba_ledger b @ [e], ba_observations = ba_observations b @ t\<rparr> w1 =
      (Inr (Inr b2), w')"
    by (rule run_calls_Cons[OF Cons.prems]) (rule that)
  obtain es where es: "ba_ledger b2 = (ba_ledger b @ [e]) @ es" "map le_call es = map tk_call cs"
    "\<forall>e \<in> set es. settled_key (ba_state b2) (idempotencyKey i (le_call e)) \<or> le_status e = Led_failed"
    and k2: "\<forall>key. settled_key s1 key \<longrightarrow> settled_key (ba_state b2) key"
    using Cons.IH[OF rest] by auto
  show ?case
  proof (intro conjI exI allI impI ballI)
    show "ba_ledger b2 = ba_ledger b @ (e # es)" "map le_call (e # es) = map tk_call (c # cs)" using es e by auto
    show "settled_key (ba_state b2) (idempotencyKey i (le_call x)) \<or> le_status x = Led_failed" if "x \<in> set (e # es)" for x
      using that es(3) s e k2 by auto
    show "settled_key (ba_state b2) key" if "settled_key (ba_state b) key" for key using that keep k2 by blast
  qed
qed simp

text \<open>An action leaves a part of the world as it is.\<close>

definition keeps :: "('h node_world \<Rightarrow> 'c) \<Rightarrow> ('a, 'h) node_action \<Rightarrow> bool" where
  "keeps g m \<longleftrightarrow> (\<forall>w. g (snd (m w)) = g w)"

named_theorems keeps

lemma keeps_bind [keeps]: "keeps g m \<Longrightarrow> (\<And>x. keeps g (f x)) \<Longrightarrow> keeps g (n_bind m f)"
  by (auto simp: keeps_def n_bind_def split: prod.split sum.split) (metis snd_conv)+

lemma keeps_plain [keeps]: "keeps g (n_lift r)" "keeps g (n_read h)" "keeps nw_tasks (on_turns a)" "keeps nw_tools (on_turns a)"
  "keeps nw_tasks (on_tools m)" "keeps nw_tools (on_tasks b)"
  by (auto simp: keeps_def n_lift_def n_read_def on_turns_def on_tools_def on_tasks_def split: prod.split)

lemma keeps_option [keeps]: "(x = None \<Longrightarrow> keeps g m) \<Longrightarrow> (\<And>y. x = Some y \<Longrightarrow> keeps g (f y)) \<Longrightarrow>
    keeps g (case x of None \<Rightarrow> m | Some y \<Rightarrow> f y)"
  by (cases x) auto

lemma keeps_sum [keeps]: "(\<And>x. z = Inl x \<Longrightarrow> keeps g (f x)) \<Longrightarrow> (\<And>y. z = Inr y \<Longrightarrow> keeps g (h y)) \<Longrightarrow>
    keeps g (case z of Inl x \<Rightarrow> f x | Inr y \<Rightarrow> h y)"
  by (cases z) auto

lemma keeps_note [keeps]: "keeps nw_tasks (note_result env i k c x failed)" "keeps nw_tools (note_result env i k c x failed)"
  unfolding note_result_def by (intro keeps)+

lemma keeps_reject [keeps]: "keeps nw_tasks (reject_call env i q k c pol m)" "keeps nw_tools (reject_call env i q k c pol m)"
  unfolding reject_call_def Let_def by (intro keeps)+

lemma keeps_accept [keeps]: "keeps nw_tasks (accept_result env i k c x)" "keeps nw_tools (accept_result env i k c x)"
  unfolding accept_result_def Let_def by (intro keeps)+

lemma keeps_store [keeps]: "keeps nw_tools (store_ledger env i b)"
  unfolding store_ledger_def Let_def by (intro keeps)

lemma keepsD: "keeps g m \<Longrightarrow> m w = (r, w') \<Longrightarrow> g w' = g w"
  unfolding keeps_def by (metis snd_conv)

lemma keeps_run_calls: "keeps nw_tasks (run_calls env i q ps f k cs b)"
proof (induction cs arbitrary: k b)
  case Nil
  then show ?case by (simp add: keeps_def)
next
  case (Cons c cs)
  have "nw_tasks (snd (run_calls env i q ps f k (c # cs) b w)) = nw_tasks w" for w
  proof -
    obtain pol_r where pol: "policy_of ps c = pol_r" by blast
    show ?thesis
    proof (cases pol_r)
      case (Inr pol)
      obtain r w1 where r: "on_tools (tool_execute (ne_tools env k) i (ba_state b) c q pol False f) w = (r, w1)" by (rule prod.exhaust)
      have w1: "nw_tasks w1 = nw_tasks w" by (rule keepsD[OF keeps_plain(5) r])
      have "keeps nw_tasks (n_bind (reject_call env i q k c pol m) (\<lambda>(e, t). run_calls env i q ps f (Suc k) cs (g e t)))"
        "keeps nw_tasks (n_bind (accept_result env i k c x) (\<lambda>e. run_calls env i q ps f (Suc k) cs (h e)))" for m g x h
        by (rule keeps_bind, rule keeps, simp add: Cons.IH split: prod.split)+
      then have rest: "nw_tasks (snd (n_bind (reject_call env i q k c pol m) (\<lambda>(e, t). run_calls env i q ps f (Suc k) cs (g e t)) w1)) = nw_tasks w1"
        "nw_tasks (snd (n_bind (accept_result env i k c x) (\<lambda>e. run_calls env i q ps f (Suc k) cs (h e)) w1)) = nw_tasks w1" for m g x h
        unfolding keeps_def by blast+
      show ?thesis using pol Inr r w1 rest
        by (cases r) (auto split: option.split)
    qed (use pol in simp)
  qed
  then show ?case by (simp add: keeps_def)
qed

definition ledger_map :: "ledger_entry list \<Rightarrow> (string, ledger_entry) jsmap" where
  "ledger_map es = foldl (\<lambda>m e. AList.update (le_call e) e m) [] es"

lemma updated_ledger: "tks_ledger (updateTaskLedger t es now) = map snd (ledger_map (tks_ledger t @ es))"
  by (simp add: updateTaskLedger_def ledger_map_def)

lemma ledger_map_lookup: "k \<in> le_call ` set es \<Longrightarrow> \<exists>e \<in> set es. le_call e = k \<and> map_of (ledger_map (xs @ es)) k = Some e"
proof (induction es rule: rev_induct)
  case (snoc e es)
  have "ledger_map (xs @ es @ [e]) = AList.update (le_call e) e (ledger_map (xs @ es))" by (simp add: ledger_map_def)
  then show ?case using snoc by (cases "k = le_call e") auto
qed simp

lemma all2_member: "list_all2 P xs ys \<Longrightarrow> x \<in> set xs \<Longrightarrow> \<exists>y \<in> set ys. P x y"
  by (induction rule: list_all2_induct) auto

lemma parsed_ledger:
  assumes "parse_task_state t = Inr u" and "e \<in> set (tks_ledger t)"
  shows "\<exists>e' \<in> set (tks_ledger u). le_call e' = trim (le_call e) \<and> le_status e' = le_status e"
proof -
  have "map_result parse_ledger_entry (tks_ledger t) = Inr (tks_ledger u)"
    using assms(1) unfolding parse_task_state_def refine_task_def result_simps by (elim exE conjE) (auto split: if_splits)
  then obtain e' where "e' \<in> set (tks_ledger u)" "parse_ledger_entry e = Inr e'"
    unfolding map_result_all2 by (auto dest: all2_member[OF _ assms(2)])
  moreover from this(2) have "le_call e' = trim (le_call e) \<and> le_status e' = le_status e"
    by (auto simp: parse_ledger_entry_def result_simps check_nonempty_def split: if_splits)
  ultimately show ?thesis by blast
qed

lemma commit_tools_Inr:
  assumes "commit_tools env i s d f w = (Inr y, w')" and "nv_calls d = Some cs"
  obtains ps q r w1 where "run_calls env i q ps f 0 cs \<lparr>ba_state = s, ba_ledger = [], ba_observations = []\<rparr> w = (Inr r, w1)"
    and "(case r of Inl y \<Rightarrow> n_lift (Inr (ends y)) | Inr b \<Rightarrow> store_ledger env i b) w1 = (Inr y, w')"
proof -
  obtain calls w0 bv w2 place w3 q w4 r w1 where "n_lift (require_value ''prepare-tools'' (nv_calls d)) w = (Inr calls, w0)"
    and "n_lift (require_value ''build-context'' (nv_built d)) w0 = (Inr bv, w2)"
    and "n_read (\<lambda>w. createToolContext i (nw_turns w)) w2 = (Inr place, w3)" and "n_lift place w3 = (Inr q, w4)"
    and r: "run_calls env i q (bv_policies bv) f 0 calls \<lparr>ba_state = s, ba_ledger = [], ba_observations = []\<rparr> w4 = (Inr r, w1)"
      "(case r of Inl y \<Rightarrow> n_lift (Inr (ends y)) | Inr b \<Rightarrow> store_ledger env i b) w1 = (Inr y, w')"
    using assms(1) unfolding commit_tools_def n_bind_Inr by blast
  then have "calls = cs" "w4 = w" using assms(2) by (auto simp: n_lift_Inr n_read_Inr require_value_def)
  with r show ?thesis by (intro that[of q "bv_policies bv" r w1]) simp_all
qed

text \<open>
  C18. A batch ends in the ledger. When \<open>commit-tools\<close> goes on, the stored task state is one revision further, every
  call of the batch has an entry in its ledger, and the effect of each call whose entry is not a failure is
  among the committed effects that the handler hands to the run state; the calls noted before keep an entry.
\<close>

theorem committed_batch_in_ledger:
  assumes "commit_tools env i s d f w = (Inr y, w')" and "ny_condition y = Some ''tools_committed''"
    and "nv_calls d = Some cs" and "ne_token env \<noteq> []"
    and "task_load (te_hs (ne_tools env 0)) i (nw_tasks w) = Inr (Some t)" and "tks_identity t = i" and "ok_identity i"
  shows "\<exists>u P C. task_load (te_hs (ne_tools env 0)) i (nw_tasks w') = Inr (Some u) \<and> tks_revision u = tks_revision t + 1 \<and>
    Kernel_command (SetTaskRevision (tks_revision u)) \<in> set (ny_commands y) \<and> Kernel_command (SetEffects P C) \<in> set (ny_commands y) \<and>
    (\<forall>c \<in> set cs. \<exists>e \<in> set (tks_ledger u). le_call e = trim (tk_call c) \<and>
       (le_status e = Led_failed \<or> (\<exists>x \<in> set C. ce_key x = idempotencyKey i (tk_call c)))) \<and>
    (\<forall>e \<in> set (tks_ledger t). \<exists>e' \<in> set (tks_ledger u). le_call e' = trim (le_call e))"
proof -
  let ?hs = "te_hs (ne_tools env 0)"
  obtain ps q r w1 where r: "run_calls env i q ps f 0 cs \<lparr>ba_state = s, ba_ledger = [], ba_observations = []\<rparr> w = (Inr r, w1)"
    and fin: "(case r of Inl y \<Rightarrow> n_lift (Inr (ends y)) | Inr b \<Rightarrow> store_ledger env i b) w1 = (Inr y, w')"
    by (rule commit_tools_Inr[OF assms(1,3)])
  obtain b where b: "r = Inr b"
    using fin assms(2) by (cases r) (auto simp: n_lift_Inr ends_def)
  have tasks: "nw_tasks w1 = nw_tasks w" by (rule keepsD[OF keeps_run_calls r])
  obtain es where es: "ba_ledger b = es" "map le_call es = map tk_call cs"
    "\<forall>e \<in> set es. settled_key (ba_state b) (idempotencyKey i (le_call e)) \<or> le_status e = Led_failed"
    using run_calls_result[OF r[unfolded b]] by auto
  let ?u = "updateTaskLedger t es (ne_clock env 0 4)"
  have load: "task_load ?hs i (nw_tasks w1) = Inr (Some t)" using assms(5) tasks by simp
  have "store_ledger env i b w1 = (Inr y, w')" using fin b by simp
  then obtain st where pc: "prepare_commit ?hs (ne_token env) ?u (int (tks_revision t)) (nw_tasks w1) = (Inr (), st)" and w': "nw_tasks w' = st"
    and y: "ny_commands y = [Kernel_command (SetTaskRevision (tks_revision ?u)), Store_task ?u,
            Kernel_command (SetEffects (pendingEffects (ba_state b)) (committedEffects (ba_state b)))]"
    by (auto simp: store_ledger_def Let_def n_Inr on_tasks_def load es(1) goes_def split: prod.splits)
  obtain u where u: "parse_task_state ?u = Inr u" "task_load ?hs (tks_identity u) st = Inr (Some u)"
    by (rule prepare_commit_Inr[OF pc assms(4)])
  have rev: "tks_revision u = tks_revision t + 1" "tks_revision ?u = tks_revision t + 1"
    using parse_task_state_parts(2)[OF u(1)] by (simp_all add: updateTaskLedger_def)
  have "tks_identity u = i"
    using parse_task_state_parts(1)[OF u(1)] parse_identity_accepts[OF assms(7)] assms(6) by (simp add: updateTaskLedger_def)
  then have stored: "task_load ?hs i (nw_tasks w') = Inr (Some u)" using u(2) w' by simp
  have noted: "\<exists>e' \<in> set (tks_ledger u). le_call e' = trim k \<and> le_status e' = le_status e"
    if "map_of (ledger_map (tks_ledger t @ es)) k = Some e" "le_call e = k" for k e
    using parsed_ledger[OF u(1), of e] that map_of_SomeD[OF that(1)] by (force simp: updated_ledger)
  have batch: "\<exists>e \<in> set (tks_ledger u). le_call e = trim (tk_call c) \<and>
       (le_status e = Led_failed \<or> (\<exists>x \<in> set (committedEffects (ba_state b)). ce_key x = idempotencyKey i (tk_call c)))" if "c \<in> set cs" for c
  proof -
    have "tk_call c \<in> le_call ` set es" using that es(2) by (metis image_eqI list.set_map)
    then obtain e where e: "e \<in> set es" "le_call e = tk_call c" "map_of (ledger_map (tks_ledger t @ es)) (tk_call c) = Some e"
      using ledger_map_lookup by metis
    have "le_status e = Led_failed \<or> (\<exists>x \<in> set (committedEffects (ba_state b)). ce_key x = idempotencyKey i (tk_call c))"
      using bspec[OF es(3) e(1)] e(2) by (auto simp: settled_key_def list_ex_iff)
    moreover obtain e' where "e' \<in> set (tks_ledger u)" "le_call e' = trim (tk_call c)" "le_status e' = le_status e"
      using noted[OF e(3,2)] by blast
    ultimately show ?thesis by metis
  qed
  have old: "\<exists>e' \<in> set (tks_ledger u). le_call e' = trim (le_call e)" if "e \<in> set (tks_ledger t)" for e
  proof -
    have "le_call e \<in> le_call ` set (tks_ledger t @ es)" using that by simp
    then obtain e2 where "le_call e2 = le_call e" "map_of (ledger_map ([] @ tks_ledger t @ es)) (le_call e) = Some e2"
      using ledger_map_lookup by metis
    then show ?thesis using noted by auto
  qed
  show ?thesis using stored rev y batch old by (intro exI[of _ u] exI) auto
qed

section \<open>A sample run\<close>

definition sample_nodes :: "(unit, nat) node_env" where
  "sample_nodes = \<lparr>ne_tools = \<lambda>_. counting_env, ne_build = \<lambda>_ w. (Inr Build_stopped, w), ne_model = \<lambda>_ w. (throw ''no model'', w),
     ne_progress = True, ne_clock = \<lambda>_ _. ''1'', ne_token = ''k'', ne_zod = []\<rparr>"

definition sample_owned :: "string \<Rightarrow> Threads.thread" where
  "sample_owned owner = sample_thread\<lparr>th_id := ''t1'', th_owner := Some owner, th_workspace := ''w1'',
     th_turns := [createTurnRecord ''n1'' ''t1'' (st_turn sample_request) ''0'']\<rparr>"

definition node_turns :: "string \<Rightarrow> turn_world" where
  "node_turns owner = (sample_world [])\<lparr>tv_threads := upsert_thread (sample_owned owner) []\<rparr>"

definition noted_task :: task_state where
  "noted_task = (sample_task 1 ''x'')\<lparr>tks_identity := sample_run\<rparr>"

definition noted_store :: task_store where
  "noted_store = snd (prepare_commit id ''k0'' noted_task 0 empty_task_store)"

definition node_world :: "nat node_world" where
  "node_world = \<lparr>nw_turns = node_turns ''u1'', nw_tasks = noted_store, nw_tools = sample_tools\<rparr>"

definition sample_built :: "unit built_value" where
  "sample_built = \<lparr>bv_request = \<lparr>rq_rest = (), rq_instructions = None\<rparr>, bv_policies = [(''read'',
     JObj [(''effect'', JStr ''non-idempotent-write''), (''replay'', JStr ''never'')])], bv_context = JNull\<rparr>"

definition empty_view :: "unit node_view" where
  "empty_view = \<lparr>nv_task = None, nv_built = None, nv_invoked = None, nv_proposal = None, nv_class = None, nv_calls = None,
     nv_observations = None, nv_entry = None, nv_force = False, nv_v2 = None, nv_v1 = None, nv_v1_proposal = None\<rparr>"

definition batch_view :: "unit node_view" where
  "batch_view = empty_view\<lparr>nv_built := Some sample_built, nv_calls := Some [sample_call]\<rparr>"

definition sample_entry :: ledger_entry where
  "sample_entry = \<lparr>le_call = ''c'', le_tool = ''read'', le_status = Led_failed, le_result = Some ''d''\<rparr>"

lemma sample_nodes_fields [simp]: "ne_tools sample_nodes k = counting_env" "ne_clock sample_nodes k n = ''1''" "ne_token sample_nodes = ''k''"
  "ne_progress sample_nodes"
  by (simp_all add: sample_nodes_def)

lemma node_world_fields [simp]: "nw_turns node_world = node_turns ''u1''" "nw_tasks node_world = noted_store" "nw_tools node_world = sample_tools"
  by (simp_all add: node_world_def)

lemma sample_run_fields [simp]: "threadId sample_run = ''t1''" "turnId sample_run = ''n1''" "runId sample_run = ''r1''"
  "ownerUserId sample_run = ''u1''" "workspaceKey sample_run = ''w1''"
  by code_simp+

lemma owned_thread [simp]: "get_thread ''t1'' (tv_threads (node_turns owner)) = Some (sample_owned owner)"
  by (simp add: node_turns_def sample_owned_def)

lemma owned_turn: "getTurn ''t1'' ''n1'' (node_turns owner) = Some (createTurnRecord ''n1'' ''t1'' (st_turn sample_request) ''0'')"
  by (simp add: getTurn_def) (simp add: sample_owned_def createTurnRecord_def)

lemma node_turns_items: "items_of (session_of (node_turns owner)) t = []"
  by (simp add: node_turns_def sample_world_def session_of_def items_of_def empty_session_store_def get_or_def)

lemma sample_policy: "policy_of (bv_policies sample_built) sample_call = Inr never_again"
  by code_simp

lemma sample_context: "createToolContext sample_run (node_turns owner) = Inr sample_place"
  by (simp add: createToolContext_def owned_turn) (simp add: sample_owned_def sample_place_def)

lemma noted_loaded: "task_load id sample_run noted_store = Inr (Some noted_task)"
  by code_simp

lemma noted_prepares: "case fst (prepare_commit id ''k'' (updateTaskLedger noted_task [sample_entry] ''1'') 1 noted_store) of Inr _ \<Rightarrow> True | Inl _ \<Rightarrow> False"
  by code_simp

lemma noted_facts: "ok_identity sample_run" "tks_identity noted_task = sample_run" "tks_revision noted_task = 1"
  by code_simp+

lemma applyItem_ok: "t \<noteq> [] \<Longrightarrow> item_ok (x\<lparr>ti_body := clean_body (ti_body x)\<rparr>) \<Longrightarrow> fst (applyItem clock t x w) = Inr ()"
proof -
  assume "t \<noteq> []" "item_ok (x\<lparr>ti_body := clean_body (ti_body x)\<rparr>)"
  then have "draft_ok (draft_of t (Some (ti_turn x)) (Some (ti_id x)) (ItemEvent ItemCreated x))" by simp
  then obtain e where "fst (record_event (clock 2) (draft_of t (Some (ti_turn x)) (Some (ti_id x)) (ItemEvent ItemCreated x))
      (tv_recorder (service_appendItem t x clock w))) = Inr e"
    using record_event_ok by blast
  then show ?thesis by (simp add: applyItem_def steps_record steps.simps(1))
qed

lemma update_missing:
  assumes "items_of (session_of w) t = []" and "get_thread t (tv_threads w) = Some c" and "\<forall>u \<in> set (th_turns c). tr_items u = []"
  shows "fst (service_updateItem clock t k patch w) = Inr None"
proof -
  have "List.map_filter (\<lambda>u. List.find (\<lambda>x. ti_id x = k) (tr_items u)) us = []" if "\<forall>u \<in> set us. tr_items u = []" for us
    using that by (induction us) (auto simp: List.map_filter_simps)
  from this[OF assms(3)] show ?thesis
    using assms by (simp add: service_updateItem_def updateItem_def case_prod_beta Let_def last_opt_def)
qed

lemma sample_batch:
  obtains b w1 where "run_calls sample_nodes sample_run sample_place (bv_policies sample_built) None 0 [sample_call]
      \<lparr>ba_state = RunStores.sample_state, ba_ledger = [], ba_observations = []\<rparr> node_world = (Inr (Inr b), w1)"
    and "ba_ledger b = [sample_entry]"
proof -
  obtain s2 where ex: "tool_execute counting_env sample_run RunStores.sample_state sample_call sample_place never_again False None sample_tools =
    (Inr \<lparr>tx_state = s2, tx_result = Some sample_result, tx_observation = Some sample_observation, tx_replayed = False, tx_outcome = None\<rparr>,
     \<lparr>tl_effects = sample_effects, tl_host = 1\<rparr>)" by (rule sample_answer)
  let ?w1 = "node_world\<lparr>nw_tools := \<lparr>tl_effects = sample_effects, tl_host = 1\<rparr>\<rparr>"
  have upd: "fst (service_updateItem clock ''t1'' k patch (node_turns ''u1'')) = Inr None" for clock k patch
    by (rule update_missing[OF node_turns_items owned_thread]) (simp add: sample_owned_def createTurnRecord_def)
  have x: "item_ok ((hr_item sample_result)\<lparr>ti_body := clean_body (ti_body (hr_item sample_result))\<rparr>)"
    "is_result (hr_item sample_result)" "result_failed (ti_body (hr_item sample_result))"
    "output_digest (\<lambda>_. ''d'') (ti_body (hr_item sample_result)) = Inr ''d''"
    by code_simp+
  obtain v1 where u: "service_updateItem (\<lambda>_. ''1'') ''t1'' (call_item_id sample_run (tk_call sample_call)) (end_patch ItemFailed ''1'') (node_turns ''u1'') = (Inr None, v1)"
    using upd by (metis prod.collapse)
  obtain v2 where a: "applyItem (\<lambda>_. ''1'') ''t1'' (hr_item sample_result) v1 = (Inr (), v2)"
    using applyItem_ok[OF _ x(1), of "''t1''"] by (metis list.distinct(1) prod.collapse)
  have acc: "accept_result sample_nodes sample_run 0 sample_call (hr_item sample_result) ?w1 = (Inr sample_entry, ?w1\<lparr>nw_turns := v2\<rparr>)"
    using u a x(2-4) by (simp add: accept_result_def note_result_def n_bind_def n_lift_def on_turns_def ledger_of_def result_digest_def
        sample_nodes_def counting_simps sample_entry_def sample_call_def)
  show ?thesis
    by (rule that[of "\<lparr>ba_state = s2, ba_ledger = [sample_entry], ba_observations = [sample_observation]\<rparr>" "?w1\<lparr>nw_turns := v2\<rparr>"])
      (simp_all add: sample_policy on_tools_def ex n_bind_def acc[unfolded One_nat_def])
qed

theorem answers_have_one_edge_witness:
  "\<exists>c. ny_condition (goes ''progress_checked'' (Some Checked_value) [] :: unit node_reply) = Some c \<and>
     length (outgoingEdges productionKernelV3Graph ''govern-progress'' c) = 1"
proof -
  have h: "map_of (createKernelV3NodeHandlers sample_nodes) ''govern-progress'' = Some govern_progress"
    by (simp add: createKernelV3NodeHandlers_def)
  have g: "govern_progress sample_run RunStores.sample_state empty_view None node_world =
      (Inr (goes ''progress_checked'' (Some Checked_value) []), node_world)"
    by (simp add: govern_progress_def n_lift_def)
  from answers_have_one_edge[OF h g] show ?thesis by (simp add: goes_def)
qed

theorem committed_batch_in_ledger_witness:
  "\<exists>y w' u. commit_tools sample_nodes sample_run RunStores.sample_state batch_view None node_world = (Inr y, w') \<and>
     task_load id sample_run (nw_tasks w') = Inr (Some u) \<and> tks_revision u = 2 \<and> (\<exists>e \<in> set (tks_ledger u). le_call e = ''c'')"
proof -
  obtain b w1 where b: "run_calls sample_nodes sample_run sample_place (bv_policies sample_built) None 0 [sample_call]
      \<lparr>ba_state = RunStores.sample_state, ba_ledger = [], ba_observations = []\<rparr> node_world = (Inr (Inr b), w1)"
    and l: "ba_ledger b = [sample_entry]" by (rule sample_batch)
  have t1: "nw_tasks w1 = noted_store" using keepsD[OF keeps_run_calls b] by (simp add: node_world_def)
  obtain st where pc: "prepare_commit id ''k'' (updateTaskLedger noted_task [sample_entry] ''1'') 1 noted_store = (Inr (), st)"
    using noted_prepares by (cases "prepare_commit id ''k'' (updateTaskLedger noted_task [sample_entry] ''1'') 1 noted_store") (auto split: sum.splits)
  have hs: "te_hs (ne_tools sample_nodes 0) = id" "ne_token sample_nodes = ''k''" "ne_clock sample_nodes 0 4 = ''1''"
    by (simp_all add: sample_nodes_def counting_simps)
  obtain y w' where y: "store_ledger sample_nodes sample_run b w1 = (Inr y, w')" "ny_condition y = Some ''tools_committed''"
    by (simp add: store_ledger_def Let_def n_bind_def on_tasks_def n_lift_def t1 hs noted_loaded l noted_facts pc goes_def counting_simps)
  have "commit_tools sample_nodes sample_run RunStores.sample_state batch_view None node_world = (Inr y, w')"
    using b y(1) sample_context[of "''u1''"] by (simp add: commit_tools_def n_bind_def n_lift_def n_read_def require_value_def batch_view_def
        del: run_calls.simps)
  note c = this
  have "\<exists>u P C. task_load id sample_run (nw_tasks w') = Inr (Some u) \<and> tks_revision u = tks_revision noted_task + 1 \<and>
    Kernel_command (SetTaskRevision (tks_revision u)) \<in> set (ny_commands y) \<and> Kernel_command (SetEffects P C) \<in> set (ny_commands y) \<and>
    (\<forall>c \<in> set [sample_call]. \<exists>e \<in> set (tks_ledger u). le_call e = trim (tk_call c) \<and>
       (le_status e = Led_failed \<or> (\<exists>x \<in> set C. ce_key x = idempotencyKey sample_run (tk_call c)))) \<and>
    (\<forall>e \<in> set (tks_ledger noted_task). \<exists>e' \<in> set (tks_ledger u). le_call e' = trim (le_call e))"
    unfolding hs(1)[symmetric]
    by (rule committed_batch_in_ledger[OF c y(2)])
      (simp_all add: batch_view_def noted_loaded counting_simps noted_facts)
  moreover have "trim (tk_call sample_call) = ''c''" by code_simp
  ultimately show ?thesis using c noted_facts(3) by force
qed

end
