(* ===== verification/NodeItems.thy ===== *)
theory NodeItems
  imports NodeProps
begin

text \<open>
  What the handlers leave in the session of the thread: the texts of a proposal are written once however often the
  node runs, the calls of a batch that are in the ledger are not charged again, and the progress of a run is
  noted in a thread before the handler asks whether the run belongs to it.
\<close>

section \<open>Items of the thread\<close>

definition thread_items :: "run_identity \<Rightarrow> 'h node_world \<Rightarrow> turn_item list" where
  "thread_items i w = loadItems (threadId i) (session_of (nw_turns w))"

definition append_new :: "turn_item \<Rightarrow> turn_item list \<Rightarrow> turn_item list" where
  "append_new x xs = (if ti_id x \<in> ti_id ` set xs then xs else xs @ [x])"

lemma append_new_ids [simp]: "ti_id ` set (append_new x xs) = insert (ti_id x) (ti_id ` set xs)"
  by (auto simp: append_new_def)

lemma append_new_known: "ti_id x \<in> ti_id ` set xs \<Longrightarrow> append_new x xs = xs"
  by (simp add: append_new_def)

lemma unknown_id_None: "List.find (\<lambda>y. ti_id y = k) xs = None \<longleftrightarrow> k \<notin> ti_id ` set xs"
  by (auto simp: find_None_iff)

lemma appended_once: "loadItems t (snd (appendItemOnce t x now s)) = append_new x (loadItems t s)"
proof (cases "List.find (\<lambda>y. ti_id y = ti_id x) (items_of s t)")
  case None
  then have new: "ti_id x \<notin> ti_id ` set (loadItems t s)" by (simp add: unknown_id_None loadItems_def)
  then have "\<not> (\<exists>y \<in> set (loadItems t s). ti_id y = ti_id x)" by (metis image_eqI)
  with None new show ?thesis by (simp add: appendItemOnce_def append_new_def place_item_def)
next
  case (Some y)
  then have "ti_id x \<in> ti_id ` set (items_of s t)" by (metis unknown_id_None option.distinct(1))
  with Some show ?thesis by (simp add: appendItemOnce_def append_new_def loadItems_def)
qed

lemma projectItem_session [simp]: "session_of (projectItem t x now w) = session_of w"
  by (simp add: projectItem_def)

lemma recorded_step_items: "loadItems t (session_of (snd (answer r (steps [record_once_in now d P] w)))) = loadItems t (session_of w)"
  by (simp add: answer_def steps_record_once steps.simps(1) split: sum.split)

lemma items_apply_once:
  "loadItems t (session_of (snd (applyItemOnce clock t x w))) = append_new x (loadItems t (session_of w))"
  unfolding appended_once[of t x "clock 0", symmetric]
  by (simp add: applyItemOnce_def case_prod_beta Let_def recorded_step_items)

lemma items_update_once:
  "loadItems t (session_of (snd (service_updateItemOnce clock t k patch w))) =
     loadItems t (snd (updateItemOnce t k patch (clock 0) (session_of w)))"
  by (simp add: service_updateItemOnce_def case_prod_beta Let_def recorded_step_items split: option.split)

lemma updated_ids:
  assumes "\<And>x. ti_id (patch x) = ti_id x"
  shows "ti_id ` set (loadItems t (snd (updateItemOnce t k patch now s))) = ti_id ` set (loadItems t s)"
proof -
  have "map ti_id (map_when P patch xs) = map ti_id xs" for P xs
    using assms by (simp add: map_when_def)
  then have "ti_id ` set (map_when P patch xs) = ti_id ` set xs" for P xs by (metis list.set_map)
  then show ?thesis
    by (simp add: updateItemOnce_def case_prod_beta loadItems_updated split: option.split)
qed

lemma write_once_items: "thread_items i (snd (write_once env i k x w)) = append_new x (thread_items i w)"
  by (simp add: write_once_def n_bind_def n_lift_def on_turns_def thread_items_def items_apply_once case_prod_beta split: sum.split)

section \<open>The texts of a proposal\<close>

definition text_items :: "('q, 'h) node_env \<Rightarrow> run_identity \<Rightarrow> model_proposal \<Rightarrow> turn_item list" where
  "text_items env i p = (let (reasoning, answer) = materializableProposalContent p in
     (case reasoning of None \<Rightarrow> [] | Some s \<Rightarrow> [makeAssistantReasoningItem (reasoning_item_id p) (turnId i) (threadId i) s None
        (Some ItemCompleted) (ne_clock env 0 3)]) @
     (case answer of None \<Rightarrow> [] | Some s \<Rightarrow> [makeAssistantTextItem (text_item_id p) (turnId i) (threadId i) s
        (Some ItemCompleted) (ne_clock env 1 3)]))"

lemma write_once_Inr: "write_once env i k x w = (Inr u, w') \<Longrightarrow> thread_items i w' = append_new x (thread_items i w)"
  using write_once_items[of i env k x w] by simp

lemma materialized_items:
  assumes "materializeProposal env i p w = (Inr (), w')"
  shows "thread_items i w' = fold append_new (text_items env i p) (thread_items i w)"
  using assms unfolding materializeProposal_def text_items_def
  by (auto simp: n_Inr Let_def dest!: write_once_Inr split: prod.splits option.splits)

lemma materialized_known:
  assumes "ti_id ` set (text_items env i p) \<subseteq> ti_id ` set (thread_items i w)"
  shows "thread_items i (snd (materializeProposal env i p w)) = thread_items i w"
proof -
  have w: "ti_id x \<in> ti_id ` set (thread_items i v) \<Longrightarrow> thread_items i (snd (write_once env i k x v)) = thread_items i v" for k x v
    by (simp add: write_once_items append_new_known)
  show ?thesis
    using assms unfolding materializeProposal_def text_items_def Let_def
    by (auto simp: n_bind_def n_lift_def w case_prod_beta dest: w write_once_Inr split: prod.splits option.splits sum.splits
)
qed

lemma text_item_ids: "ti_id ` set (text_items env i p) = ti_id ` set (text_items env2 i p)"
proof -
  obtain a b where "materializableProposalContent p = (a, b)" by (rule prod.exhaust)
  then show ?thesis
    by (cases a; cases b) (simp_all add: text_items_def makeAssistantReasoningItem_def makeAssistantTextItem_def make_item_def)
qed

lemma fold_append_new_ids: "ti_id ` set (fold append_new xs ys) = ti_id ` set xs \<union> ti_id ` set ys"
  by (induction xs arbitrary: ys) auto

text \<open>
  C34. The texts of a proposal are written once. A run of \<open>materialize-proposal\<close> adds the reasoning and the text of the proposal
  to the session of the thread, where an item of the same proposal is not there yet; when the node runs
  again on these items, with whatever state and clock, it leaves them as they are.
\<close>

theorem proposal_written_once:
  assumes "materialize_proposal env i s d f w = (Inr y, w1)" and "thread_items i w2 = thread_items i w1"
  shows "(\<exists>p. need_proposal d = Inr p \<and> thread_items i w1 = fold append_new (text_items env i p) (thread_items i w)) \<and>
    thread_items i (snd (materialize_proposal env2 i s2 d f2 w2)) = thread_items i w1"
proof -
  obtain p where p: "need_proposal d = Inr p" and m: "materializeProposal env i p w = (Inr (), w1)"
    using assms(1) by (auto simp: materialize_proposal_def n_Inr)
  note items = materialized_items[OF m]
  have "ti_id ` set (text_items env2 i p) \<subseteq> ti_id ` set (thread_items i w2)"
    using text_item_ids[of env2 i p env] by (auto simp: assms(2) items fold_append_new_ids)
  then have "thread_items i (snd (materializeProposal env2 i p w2)) = thread_items i w2" by (rule materialized_known)
  then have "thread_items i (snd (materialize_proposal env2 i s2 d f2 w2)) = thread_items i w2"
    by (simp add: materialize_proposal_def p n_bind_def n_lift_def case_prod_beta split: sum.split)
  with p items assms(2) show ?thesis by auto
qed

section \<open>Progress of a run that may not write\<close>

lemma progress_patch_id [simp]: "ti_id (progress_patch n x) = ti_id x"
  by (simp add: progress_patch_def split: item_body.split)

lemma items_after_turns: "thread_items i (snd (on_turns h w)) = loadItems (threadId i) (session_of (snd (h (nw_turns w))))"
  by (simp add: on_turns_def thread_items_def case_prod_beta)

lemma emit_keeps_ids: "ne_progress env \<Longrightarrow> progress_item_id i \<in> ti_id ` set (thread_items i (snd (emitProgress env i k n w)))"
proof -
  assume on: "ne_progress env"
  let ?x = "make_item (progress_item_id i) (turnId i) (threadId i) SystemRole (ne_clock env k 3) None (RuntimeProgress ItemRunning (info_of n))"
  let ?m = "on_turns (applyItemOnce (ne_clock env k) (threadId i) ?x)"
  let ?u = "on_turns (service_updateItemOnce (ne_clock env (Suc k)) (threadId i) (progress_item_id i) (progress_patch n))"
  have first: "progress_item_id i \<in> ti_id ` set (thread_items i (snd (?m w)))"
    by (simp add: items_after_turns items_apply_once make_item_def)
  have second: "ti_id ` set (thread_items i (snd (?u v))) = ti_id ` set (thread_items i v)" for v
    by (simp add: items_after_turns items_update_once updated_ids) (simp add: thread_items_def)
  obtain r1 v1 where 1: "?m w = (r1, v1)" by (rule prod.exhaust)
  obtain r2 v2 where 2: "?u v1 = (r2, v2)" by (rule prod.exhaust)
  have "progress_item_id i \<in> ti_id ` set (thread_items i v1)" "progress_item_id i \<in> ti_id ` set (thread_items i v2)"
    using first second[of v1] 1 2 by simp_all
  then show ?thesis using on 1 2 by (cases r1; cases r2) (simp_all add: emitProgress_def n_bind_def n_lift_def)
qed

text \<open>
  C40. A run writes before it is checked: when a thread belongs to another owner than the run, \<open>prepare-turn\<close> ends with a scope
  mismatch, but the progress item of the run is in the session of that thread.
\<close>

theorem foreign_thread_gets_progress:
  assumes "ne_progress env" and "get_thread (threadId i) (tv_threads (nw_turns w)) = Some c"
    and "getTurn (threadId i) (turnId i) (nw_turns w) = Some u" and "owner_of c \<noteq> ownerUserId i"
  shows "progress_item_id i \<in> ti_id ` set (thread_items i (snd (prepare_turn env i s d f w))) \<and>
    (\<forall>y. fst (prepare_turn env i s d f w) = Inr y \<longrightarrow> y = ends (failed_outcome ''turn scope mismatch''))"
proof -
  let ?n = "\<lparr>pt_phase = Preparing, pt_summary = ''Preparing the task state and execution context.'',
           pt_steps = 0, pt_tools = 0, pt_evidence = 0, pt_artifacts = 0, pt_reason = None\<rparr>"
  have "prepare_turn env i s d f w = (case emitProgress env i 0 ?n w of (Inl e, v) \<Rightarrow> (Inl e, v)
      | (Inr _, v) \<Rightarrow> (Inr (ends (failed_outcome ''turn scope mismatch'')), v))"
    using assms(2-4) by (simp add: prepare_turn_def n_bind_def n_read_def n_lift_def split: prod.split sum.split)
  with emit_keeps_ids[OF assms(1), of i 0 ?n w] show ?thesis by (auto split: prod.splits sum.splits)
qed

section \<open>A batch that did not end\<close>

definition t_keeps :: "('a, 'h) tool_action \<Rightarrow> bool" where
  "t_keeps m \<longleftrightarrow> (\<forall>w. tl_host (snd (m w)) = tl_host w)"

lemma t_keeps_bind [keeps]: "t_keeps m \<Longrightarrow> (\<And>x. t_keeps (f x)) \<Longrightarrow> t_keeps (t_bind m f)"
  by (auto simp: t_keeps_def t_bind_def split: prod.split sum.split) (metis snd_conv)+

lemma t_keeps_plain [keeps]: "t_keeps (t_lift r)" "t_keeps (on_effects h)"
  by (auto simp: t_keeps_def t_lift_def on_effects_def split: prod.split)

lemma t_keeps_pair [keeps]: "(\<And>x y. z = (x, y) \<Longrightarrow> t_keeps (f x y)) \<Longrightarrow> t_keeps (case z of (x, y) \<Rightarrow> f x y)"
  by (cases z) auto

lemma t_keeps_steps [keeps]: "t_keeps (log_prepared env i s n f)" "t_keeps (commit_result env i s n r t f)"
  unfolding log_prepared_def commit_result_def by (intro keeps)+

lemma t_bind_Inr_host: "m w = (Inr x, w1) \<Longrightarrow> t_bind m f w = f x w1"
  by (simp add: t_bind_def)

lemma finish_calls_host:
  assumes "te_crash env At_prepare = Inr ()" and "log_prepared env i s n f w = (Inr (), w1)"
  shows "tl_host (snd (finish_call env i s n c None q e False f w)) = snd (te_execute env c (tl_host w))"
proof -
  obtain r h where run: "te_execute env c (tl_host w) = (r, h)" by (rule prod.exhaust)
  have w1: "tl_host w1 = tl_host w" using assms(2) t_keeps_steps(1)[of env i s n f] unfolding t_keeps_def by (metis snd_conv)
  define rest where "rest raw =
     t_bind (t_lift (normalizeToolHostResult raw c q)) (\<lambda>r. t_bind (t_lift (te_crash env After_tool_execute)) (\<lambda>_.
     t_bind (t_lift (te_crash env Before_commit)) (\<lambda>_. t_bind (t_lift (observe_result env c r q e)) (\<lambda>t.
     t_bind (commit_result env i s n r t f) (\<lambda>s2. t_bind (t_lift (te_crash env After_commit)) (\<lambda>_.
     t_lift (Inr \<lparr>tx_state = s2, tx_result = Some r, tx_observation = t, tx_replayed = False, tx_outcome = None\<rparr>)))))))" for raw
  have keep: "t_keeps (rest raw)" for raw unfolding rest_def by (intro keeps)
  have "finish_call env i s n c None q e False f w = t_bind (on_host (te_execute env c)) rest w1"
    by (simp add: finish_call_def t_bind_def t_lift_def assms run_host_def rest_def split: prod.split sum.split)
  then show ?thesis using keep run w1
    by (cases r) (auto simp: t_bind_def on_host_def t_keeps_def)
qed

lemma unknown_call_runs:
  assumes "normalizeToolCall c = Inr c" and "te_prepare env = None" and "te_crash env At_prepare = Inr ()"
    and "\<not> settled_key s (idempotencyKey i (tk_call c))" and "\<not> pending_key s (idempotencyKey i (tk_call c))"
    and "prepare_effect (te_hj env) (te_now env 0) s i (tool_effect c) pol = (s1, n)"
    and "log_prepared env i s1 n f w = (Inr (), w1)"
  shows "tl_host (snd (tool_execute env i s c q pol False f w)) = snd (te_execute env c (tl_host w))"
proof -
  have "tool_execute env i s c q pol False f w = finish_call env i s1 n c None q (po_effect pol) False f w"
    using assms(1-6) by (simp add: tool_execute_def executeSingle_def run_effect_def prepare_host_def t_bind_def t_lift_def
        settled_key_def pending_key_def Let_def)
  then show ?thesis using finish_calls_host[OF assms(3,7)] by simp
qed

lemma keeps_after_call:
  "nw_tools (snd (case on_tools m w of (Inl e, w1) \<Rightarrow> F e w1 | (Inr x, w1) \<Rightarrow> G x w1)) = snd (m (nw_tools w))"
  if "\<And>e. keeps nw_tools (F e)" and "\<And>x. keeps nw_tools (G x)"
  using that by (auto simp: on_tools_def keeps_def split: prod.split sum.split)

lemma run_calls_Nil: "run_calls env i q ps f k [] = (\<lambda>b. n_lift (Inr (Inr b)))"
  by (simp add: fun_eq_iff n_lift_def)

lemma single_call_host:
  assumes "policy_of ps c = Inr pol"
  shows "nw_tools (snd (run_calls env i q ps f k [c] b w)) = snd (tool_execute (ne_tools env k) i (ba_state b) c q pol False f (nw_tools w))"
proof -
  have 1: "keeps nw_tools (\<lambda>w1. case dispatch_rejected e of None \<Rightarrow> (Inl e, w1)
      | Some m \<Rightarrow> n_bind (reject_call env i q k c pol m) (\<lambda>(e, t). run_calls env i q ps f (Suc k) []
          (b\<lparr>ba_ledger := ba_ledger b @ [e], ba_observations := ba_observations b @ [t]\<rparr>)) w1)" for e
    by (cases "dispatch_rejected e") (auto simp: keeps_def[of _ "\<lambda>w. (Inl e, w)"] run_calls_Nil case_prod_beta simp del: run_calls.simps intro!: keeps)
  have 2: "keeps nw_tools (\<lambda>w1. case (tx_outcome x, tx_result x) of
        (Some y, _) \<Rightarrow> (Inr (Inl y), w1)
      | (None, None) \<Rightarrow> (Inr (Inl (failed_outcome (''tool result missing: '' @ tk_call c))), w1)
      | (None, Some r) \<Rightarrow> n_bind (accept_result env i k c (hr_item r)) (\<lambda>e.
          run_calls env i q ps f (Suc k) [] \<lparr>ba_state = tx_state x, ba_ledger = ba_ledger b @ [e],
            ba_observations = ba_observations b @ (case tx_observation x of None \<Rightarrow> [] | Some t \<Rightarrow> [t])\<rparr>) w1)" for x
    by (cases "tx_outcome x"; cases "tx_result x") (auto simp: keeps_def[of _ "\<lambda>w. (Inr z, w)" for z] run_calls_Nil simp del: run_calls.simps intro!: keeps)
  show ?thesis unfolding run_calls.simps(2) assms sum.case by (rule keeps_after_call[OF 1 2])
qed


section \<open>Sample runs\<close>

definition sample_proposal :: model_proposal where
  "sample_proposal = \<lparr>mp_id = ''p1'', mp_model = ''m'', mp_stop = Stop_normal, mp_reason = None, mp_format = None, mp_provider = None,
     mp_metadata = None, mp_leaked = False, mp_malformed = False, mp_complete = True, mp_text = ''ok'', mp_reasoning = [],
     mp_intents = [], mp_usage = None\<rparr>"

definition proposal_view :: "unit node_view" where
  "proposal_view = empty_view\<lparr>nv_proposal := Some sample_proposal\<rparr>"

lemma sample_proposal_parsed: "need_proposal proposal_view = Inr sample_proposal"
  by code_simp simp

lemma record_once_ok: "(\<And>v. \<exists>e. fst (record_event now d v) = Inr e) \<Longrightarrow> \<exists>e. fst (record_once now d P v) = Inr e"
  by (cases "List.find P (loadEventsSince (dr_thread d) 0 (rw_store v))")
    (simp_all add: record_once_def case_prod_beta Let_def, metis bind_result_Inr)

lemma apply_once_new_ok:
  assumes "t \<noteq> []" and "item_ok (x\<lparr>ti_body := clean_body (ti_body x)\<rparr>)" and "items_of (session_of w) t = []"
  shows "fst (applyItemOnce clock t x w) = Inr True"
proof -
  have "draft_ok (draft_of t (Some (ti_turn x)) (Some (ti_id x)) (ItemEvent ItemCreated x))" using assms(1,2) by simp
  then have "\<exists>e. fst (record_event (clock 2) (draft_of t (Some (ti_turn x)) (Some (ti_id x)) (ItemEvent ItemCreated x)) v) = Inr e" for v
    by (rule record_event_ok)
  then obtain e where "fst (record_once (clock 2) (draft_of t (Some (ti_turn x)) (Some (ti_id x)) (ItemEvent ItemCreated x)) (announces ItemCreated (ti_id x))
      (tv_recorder (projectItem t x (clock 1) (modify_session (\<lambda>_. appendItem t x (clock 0) (session_of w)) w)))) = Inr e"
    using record_once_ok by blast
  then show ?thesis
    using assms(3) by (simp add: applyItemOnce_def appendItemOnce_def Let_def answer_def steps_record_once steps.simps(1))
qed

theorem proposal_written_once_witness:
  "\<exists>y w1. materialize_proposal sample_nodes sample_run RunStores.sample_state proposal_view None node_world = (Inr y, w1) \<and>
     thread_items sample_run w1 = text_items sample_nodes sample_run sample_proposal \<and>
     thread_items sample_run (snd (materialize_proposal sample_nodes sample_run RunStores.sample_state proposal_view None w1)) = thread_items sample_run w1"
proof -
  let ?x = "makeAssistantTextItem (text_item_id sample_proposal) (turnId sample_run) (threadId sample_run) ''ok'' (Some ItemCompleted) ''1''"
  have c: "materializableProposalContent sample_proposal = (None, Some ''ok'')" by code_simp
  have x: "item_ok (?x\<lparr>ti_body := clean_body (ti_body ?x)\<rparr>)" by code_simp
  obtain v where a: "applyItemOnce (\<lambda>_. ''1'') ''t1'' ?x (node_turns ''u1'') = (Inr True, v)"
    using apply_once_new_ok[OF _ x node_turns_items, of "''t1''"] by (metis list.distinct(1) prod.collapse)
  let ?w1 = "node_world\<lparr>nw_turns := v\<rparr>"
  have m: "materialize_proposal sample_nodes sample_run RunStores.sample_state proposal_view None node_world =
      (Inr (goes ''next'' (Some (Written_value (mp_id sample_proposal))) []), ?w1)"
    using a by (simp add: materialize_proposal_def sample_proposal_parsed materializeProposal_def c write_once_def n_bind_def n_lift_def on_turns_def
        sample_nodes_def)
  have e: "thread_items sample_run node_world = []" by (simp add: thread_items_def loadItems_def node_turns_items)
  have "fold append_new (text_items sample_nodes sample_run sample_proposal) [] = text_items sample_nodes sample_run sample_proposal"
    by (simp add: text_items_def c append_new_def)
  with proposal_written_once[OF m refl, where ?env2.0 = sample_nodes and ?s2.0 = RunStores.sample_state and ?f2.0 = None] m e sample_proposal_parsed
  show ?thesis by auto
qed

theorem foreign_thread_gets_progress_witness:
  "progress_item_id (sample_run\<lparr>ownerUserId := ''eve''\<rparr>) \<in> ti_id ` set (thread_items (sample_run\<lparr>ownerUserId := ''eve''\<rparr>)
     (snd (prepare_turn sample_nodes (sample_run\<lparr>ownerUserId := ''eve''\<rparr>) RunStores.sample_state empty_view None node_world)))"
proof -
  have "owner_of (sample_owned ''u1'') \<noteq> ''eve''" by (simp add: owner_of_def sample_owned_def or_else_def)
  then show ?thesis
    using foreign_thread_gets_progress[of sample_nodes "sample_run\<lparr>ownerUserId := ''eve''\<rparr>" node_world "sample_owned ''u1''"] owned_turn by simp
qed

definition crashing_nodes :: "(unit, nat) node_env" where
  "crashing_nodes = sample_nodes\<lparr>ne_tools := \<lambda>_. counting_env\<lparr>te_crash := \<lambda>p. if p = After_commit then throw ''crash'' else Inr ()\<rparr>\<rparr>"

definition restarted_nodes :: "(unit, nat) node_env" where
  "restarted_nodes = sample_nodes\<lparr>ne_tools := \<lambda>_. counting_env\<lparr>te_uuid := \<lambda>_. ''c''\<rparr>\<rparr>"

lemma sample_logs_again: "case fst (recordPrepared sample_run (fst sample_prepared) (snd sample_prepared) None ''c'' ''now'' (ew_events (snd (commit_effect
     (\<lambda>_. ''d'') id sample_run (fst sample_prepared) (snd sample_prepared) v None ''b'' ''now'' ''now''
     \<lparr>ew_events = snd (recordPrepared sample_run (fst sample_prepared) (snd sample_prepared) None ''a'' ''now'' empty_event_store),
       ew_results = []\<rparr>)))) of Inr _ \<Rightarrow> True | Inl _ \<Rightarrow> False"
  by code_simp


end
