(* ===== verification/Spec2Isabelle.thy ===== *)
theory Spec2Isabelle
  imports Prelude Json Contracts ScopeKey Commands ExecutionGraph MiddlewareChain LeaseTable
    RunStores EventLog EffectCommit KernelReduce Kernel KernelRun KernelReplay
    AgentContracts MultiAgentStores AgentGraph EventedRuntime EventedProps EventedOps EventedWorkers
    LruCache TtlCache Items Usage EventReducer EventReplay HistoryRepair ToolGuards TurnQueues
    TaskContracts LoopGovernor TaskStore Turns SessionStore Gates EventBoundary Threads Todos TurnService FileStores FileTasks FileRuns ThreadService ThreadProps
    TaskPipeline ProposalClass TaskProps ItemJson ToolObservation ToolRuntime KernelNodes NodeProps NodeItems
begin

text \<open>
  QiongQi runs language-model agents: a client starts turns on threads over HTTP, a run kernel drives a turn
  through a graph of nodes (prepare, build the context, call the model, evaluate, run tools, project the
  progress), and every step is logged so that a run that crashed is continued by replay. A second runtime
  drives several agents over a mailbox. This development models the parts that carry the program's own
  state, follows the sources definition by definition, and proves what they promise.

  \<^bold>\<open>The run kernel\<close> (\<open>src/packages/engine/loop/src\<close>, contracts in \<open>src/packages/foundation/contracts/src\<close>).
  \<^item> \<open>Contracts\<close>, \<open>ScopeKey\<close>, \<open>Commands\<close>: the schemas of \<open>runtime-kernel.ts\<close> as records with their parsers,
    the scope keys of the stores, and the commands of \<open>runtime-middleware-command-validator.ts\<close>.
  \<^item> \<open>ExecutionGraph\<close>, \<open>MiddlewareChain\<close>: \<open>execution-graph.ts\<close> with its depth-first search for cycles, and
    \<open>middleware-chain.ts\<close> with its topological sort. An accepted graph is acyclic on its unmarked edges, and
    the hooks run in an order that respects every anchor.
  \<^item> \<open>LeaseTable\<close>, \<open>RunStores\<close>, \<open>EventLog\<close>, \<open>EffectCommit\<close>: the in-memory run state store with leases and
    fences, the event store and the effect coordinator. The event log and the leases are locales with
    the laws a client relies on; a stale fence never saves.
  \<^item> \<open>KernelReduce\<close>, \<open>Kernel\<close>, \<open>KernelRun\<close>, \<open>KernelReplay\<close>: \<open>runtime-kernel.ts\<close>. Handlers, middlewares, clocks
    and identifiers are parameters. A run gives its lease back however it ends, more fuel never
    changes a result, and replaying the logged events gives the state of the live run.
  \<^item> \<open>TaskContracts\<close>, \<open>TaskStore\<close>, \<open>LoopGovernor\<close>, \<open>TaskPipeline\<close>, \<open>ProposalClass\<close>, \<open>TaskProps\<close>: task states, their
    store with prepare, commit and abort, the governor of tool loops, and the pipeline that builds,
    migrates, projects and recovers task states (\<open>task-state-builder.ts\<close>, \<open>legacy-task-state-migrator.ts\<close>,
    \<open>task-progress-projector.ts\<close>, \<open>context-recovery.ts\<close>, \<open>task-context-projection.ts\<close>, \<open>proposal-classifier.ts\<close>).
    The store is the locale \<open>task_revisions\<close>, interpreted on the store in memory and on the one on files.
  \<^item> \<open>ToolObservation\<close>, \<open>ToolRuntime\<close>: \<open>tool-observation.ts\<close> and \<open>tool-runtime-v3.ts\<close>, the calls of tools as effects that are
    prepared, logged, run by the host, observed and committed. A call that returned does not run again,
    and what was committed is the answer to every later attempt.
  \<^item> \<open>KernelNodes\<close>, \<open>NodeProps\<close>, \<open>NodeItems\<close>: the handlers of the production graph (\<open>kernel-v3-node-handlers.ts\<close>), over the
    turn service, the task store and the tool runtime. Every answer names the one edge that leaves its
    node, a batch that ends is in the ledger of the task, and the texts of a proposal are written once;
    a batch that did not end is forgotten, and its tools run again. The prompt builder and the model
    runner are parameters, and the values of nodes are typed.
  \<^item> \<open>ToolGuards\<close>, \<open>TurnQueues\<close>: the breaker for repeated calls, the queues of a turn, the compaction governor.

  \<^bold>\<open>Several agents.\<close> \<open>AgentContracts\<close>, \<open>AgentGraph\<close>, \<open>MultiAgentStores\<close>, \<open>EventedRuntime\<close>, \<open>EventedOps\<close>,
  \<open>EventedWorkers\<close>, \<open>EventedProps\<close>: the agent graph, the run store with its leases, the mailbox with claims,
  and \<open>evented-v2-multi-agent-runtime.ts\<close> with its outbox and its workers. A claim that was taken over
  cannot complete its message, and a hand-off is delivered.

  \<^bold>\<open>Threads, turns and items\<close> (\<open>src/packages/domain-layer/domain/src\<close>, \<open>src/packages/engine/services/src\<close>).
  \<^item> \<open>Items\<close>, \<open>ItemJson\<close>, \<open>Usage\<close>, \<open>EventReducer\<close>, \<open>EventReplay\<close>, \<open>HistoryRepair\<close>: the items of a conversation
    with their JSON form, usage counters, the projection of runtime events and its replay, the repair
    of histories before they are sent to a provider.
  \<^item> \<open>Turns\<close>, \<open>SessionStore\<close>, \<open>Gates\<close>, \<open>EventBoundary\<close>, \<open>Threads\<close>, \<open>Todos\<close>, \<open>TurnService\<close>, \<open>ThreadService\<close>,
    \<open>ThreadProps\<close>: the turn and thread records and their services over the session store, the recorder
    and bus every runtime event passes, approvals and user inputs, and the to-do lists that mirror
    plan files. The items of a thread are the stream of its session; a fork is a settled copy.

  \<^bold>\<open>Stores\<close> (\<open>src/packages/adapters/adapter-storage/src\<close>). \<open>FileStores\<close>, \<open>FileTasks\<close>, \<open>FileRuns\<close> model the stores
  on files and refine the ones in memory, operation by operation; \<open>LruCache\<close> and \<open>TtlCache\<close> model the bounded
  caches of \<open>src/packages/infrastructure\<close>.

  \<^bold>\<open>Conventions.\<close> A record of the source is a \<open>record\<close>, a tagged union a \<open>datatype\<close>, a JavaScript \<open>Map\<close> or
  object an association list in insertion order (\<open>jsmap\<close>). A thrown error is \<open>Inl\<close> of the sum type of
  \<open>Prelude\<close>; an operation that throws after it changed the state returns the error beside the new
  state. \<open>await\<close> points at which other work can run are separate steps where it matters (recording an
  event, leases, claims, prepared revisions), and one step where a lock or a queue of the source makes
  them one. Clock readings, random identifiers, SHA-256, the rounding of doubles, \<open>Date.parse\<close> and the text
  of schema errors are parameters: they are not code of the repository. Strings are lists of characters;
  phrases of the source in other scripts are left out where a theory says so. Counts are naturals, exact
  below \<open>2 ^ 53\<close>, the bound the schemas check.

  \<^bold>\<open>Fuel.\<close> Loops that may not end are \<open>partial_function (option)\<close> (the identifiers of to-dos, with the theorem
  that a fresh identifier is found), and the loop of the kernel takes fuel: a result is the same for every
  larger fuel, so it bounds only runs that do not end. All other recursion is structural or comes with
  its measure.

  \<^bold>\<open>Not modelled.\<close> Code whose behaviour is text or I/O: the HTTP clients of model providers and their stream
  formats, prompt assembly, tools that run shells or read files, MCP, skills and memory ranking, the HTTP
  server and its routes, the command line, SQLite and hybrid stores (which delegate to the stores modelled
  here), and the older turn orchestrator. The wall-clock timers that renew leases are represented by
  explicit renewals. Abort signals are represented by the lost-lease flag of the kernel and the
  controllers of the turn service.
\<close>

end
